(* ===== verification/Py_Text.thy ===== *)
theory Py_Text
  imports Prelude "HOL-Library.Word"
begin

unbundle bit_operations_syntax

text \<open>
  The parts of Python's text handling and of its standard library that the sources rely on:
  decimal and hexadecimal rendering of integers, \<^verbatim>\<open>repr\<close> of JSON-like values,
  \<^verbatim>\<open>int(...)\<close> on text, \<^verbatim>\<open>str(uuid.UUID(int=...))\<close>, and the string
  patterns of \<^verbatim>\<open>schemas/canonical/primitives.py\<close> as executable predicates.
\<close>

section \<open>Integers as text\<close>

definition digit_char :: "nat \<Rightarrow> char" where
  "digit_char n = char_of (48 + n)"

fun show_nat :: "nat \<Rightarrow> string" where
  "show_nat n = (if n < 10 then [digit_char n] else show_nat (n div 10) @ [digit_char (n mod 10)])"

declare show_nat.simps [simp del]

definition show_int :: "int \<Rightarrow> string" where
  "show_int i = (if i < 0 then ''-'' @ show_nat (nat (- i)) else show_nat (nat i))"

lemma of_char_digit_char [simp]: "n < 10 \<Longrightarrow> (of_char (digit_char n) :: nat) = 48 + n"
  by (simp add: digit_char_def)

lemma digit_char_decimal [simp]: "n < 10 \<Longrightarrow> is_decimal_char (digit_char n)"
  by (simp add: is_decimal_char_def Let_def)

lemma digit_val_digit_char [simp]: "n < 10 \<Longrightarrow> digit_val (digit_char n) = n"
  by (simp add: digit_val_def)

lemma digits_val_Nil [simp]: "digits_val [] = 0"
  by (simp add: digits_val_def)

lemma digits_val_snoc [simp]: "digits_val (s @ [c]) = 10 * digits_val s + digit_val c"
  by (simp add: digits_val_def)

lemma digits_val_show_nat [simp]: "digits_val (show_nat n) = n"
proof (induction n rule: show_nat.induct)
  case (1 n)
  show ?case
  proof (cases "n < 10")
    case True
    then show ?thesis
      using digits_val_snoc [of "[]" "digit_char n"] by (simp add: show_nat.simps [of n])
  next
    case False
    with "1" show ?thesis by (simp add: show_nat.simps [of n])
  qed
qed

lemma digits_val_zeros: "digits_val (replicate k (CHR ''0'') @ s) = digits_val s"
  by (induction k) (simp_all add: digits_val_def digit_val_def)

lemma show_nat_decimal: "list_all is_decimal_char (show_nat n)"
proof (induction n rule: show_nat.induct)
  case (1 n)
  then show ?case by (cases "n < 10") (simp_all add: show_nat.simps [of n])
qed

lemma show_nat_inject [simp]: "show_nat m = show_nat n \<longleftrightarrow> m = n"
  by (metis digits_val_show_nat)

text \<open>
  \<^verbatim>\<open>int(s)\<close> on text without surrounding blanks: an optional sign, then decimal digits
  with single underscores between digits.
\<close>

fun int_body_ok :: "bool \<Rightarrow> string \<Rightarrow> bool" where
  "int_body_ok prev_digit [] \<longleftrightarrow> prev_digit"
| "int_body_ok prev_digit (c # cs) \<longleftrightarrow>
     (if is_decimal_char c then int_body_ok True cs
      else if c = CHR ''_'' then prev_digit \<and> int_body_ok False cs
      else False)"

definition py_int :: "string \<Rightarrow> int option" where
  "py_int s =
     (let (neg, body) = (case s of
          (c # cs) \<Rightarrow> if c = CHR ''-'' then (True, cs) else if c = CHR ''+'' then (False, cs) else (False, s)
        | [] \<Rightarrow> (False, []));
          v = int (digits_val (filter is_decimal_char body))
      in if int_body_ok False body then Some (if neg then - v else v) else None)"

lemma int_body_ok_digits: "s \<noteq> [] \<Longrightarrow> list_all is_decimal_char s \<Longrightarrow> int_body_ok b s"
  by (induction s arbitrary: b rule: induct_list012) auto

lemma filter_decimal_id: "list_all is_decimal_char s \<Longrightarrow> filter is_decimal_char s = s"
  by (induction s) auto

lemma decimal_not_sign: "is_decimal_char c \<Longrightarrow> c \<noteq> CHR ''-'' \<and> c \<noteq> CHR ''+''"
  by (auto simp: is_decimal_char_def)

lemma py_int_digits:
  assumes "s \<noteq> []" and "list_all is_decimal_char s"
  shows "py_int s = Some (int (digits_val s))"
proof (cases s)
  case (Cons c cs)
  with assms(2) have "is_decimal_char c" by simp
  then have "c \<noteq> CHR ''-''" "c \<noteq> CHR ''+''" using decimal_not_sign by auto
  with Cons assms show ?thesis
    using int_body_ok_digits [OF assms, of False] filter_decimal_id [OF assms(2)]
    by (simp add: py_int_def del: int_body_ok.simps filter.simps)
qed (use assms in simp)

section \<open>JSON-like values and their repr\<close>

text \<open>A float is carried as its \<^verbatim>\<open>repr\<close> text, which determines it.\<close>

datatype json =
    JNull
  | JBool bool
  | JInt int
  | JFloat string
  | JStr string
  | JList "json list"
  | JObj "(string \<times> json) list"

definition hex_char :: "nat \<Rightarrow> char" where
  "hex_char n = (if n < 10 then char_of (48 + n) else char_of (87 + n))"

definition py_printable :: "char \<Rightarrow> bool" where
  "py_printable c \<longleftrightarrow> (let n = (of_char c :: nat) in
     (32 \<le> n \<and> n \<le> 126) \<or> (161 \<le> n \<and> n \<noteq> 173))"

definition repr_char :: "char \<Rightarrow> char \<Rightarrow> string" where
  "repr_char q c = (let n = (of_char c :: nat) in
     if c = q \<or> n = 92 then [char_of (92::nat), c]
     else if n = 10 then [char_of (92::nat), CHR ''n'']
     else if n = 13 then [char_of (92::nat), CHR ''r'']
     else if n = 9 then [char_of (92::nat), CHR ''t'']
     else if py_printable c then [c]
     else [char_of (92::nat), CHR ''x'', hex_char (n div 16), hex_char (n mod 16)])"

definition repr_str :: "string \<Rightarrow> string" where
  "repr_str s = (let sq = char_of (39::nat); dq = char_of (34::nat);
     q = (if sq \<in> set s \<and> dq \<notin> set s then dq else sq)
     in q # concat (map (repr_char q) s) @ [q])"

fun join_with :: "string \<Rightarrow> string list \<Rightarrow> string" where
  "join_with sep [] = ''''"
| "join_with sep [x] = x"
| "join_with sep (x # y # ys) = x @ sep @ join_with sep (y # ys)"

fun repr_json :: "json \<Rightarrow> string" where
  "repr_json JNull = ''None''"
| "repr_json (JBool b) = (if b then ''True'' else ''False'')"
| "repr_json (JInt i) = show_int i"
| "repr_json (JFloat t) = t"
| "repr_json (JStr s) = repr_str s"
| "repr_json (JList xs) = ''['' @ join_with '', '' (map repr_json xs) @ '']''"
| "repr_json (JObj kvs) =
     ''{'' @ join_with '', '' (map (\<lambda>(k, v). repr_str k @ '': '' @ repr_json v) kvs) @ ''}''"

definition repr_str_list :: "string list \<Rightarrow> string" where
  "repr_str_list xs = ''['' @ join_with '', '' (map repr_str xs) @ '']''"

section \<open>UUIDs\<close>

type_synonym uuid_int = "128 word"

text \<open>The \<open>k\<close>-th hexadecimal digit (nibble) of the 128-bit integer, from the least significant.\<close>

definition nibble :: "uuid_int \<Rightarrow> nat \<Rightarrow> nat" where
  "nibble w k = unat (drop_bit (4 * k) w AND 15)"

definition hex_range :: "uuid_int \<Rightarrow> nat \<Rightarrow> nat \<Rightarrow> string" where
  "hex_range w hi lo = map (\<lambda>k. hex_char (nibble w k)) (rev [lo..<hi])"

definition uuid_str :: "uuid_int \<Rightarrow> string" where
  "uuid_str w = hex_range w 32 24 @ ''-'' @ hex_range w 24 20 @ ''-'' @ hex_range w 20 16
     @ ''-'' @ hex_range w 16 12 @ ''-'' @ hex_range w 12 0"

text \<open>What \<^verbatim>\<open>uuid.uuid4()\<close> documents of its value: version 4 and the RFC 4122 variant bits \<open>10\<close>.\<close>

definition is_uuid4_int :: "uuid_int \<Rightarrow> bool" where
  "is_uuid4_int w \<longleftrightarrow> nibble w 19 = 4 \<and> bit w 63 \<and> \<not> bit w 62"

section \<open>Patterns of the canonical primitives\<close>

definition is_hex_char :: "char \<Rightarrow> bool" where
  "is_hex_char c \<longleftrightarrow> is_decimal_char c \<or> (let n = (of_char c :: nat) in 97 \<le> n \<and> n \<le> 102)"

text \<open>Python's \<^verbatim>\<open>$\<close> is matched by pydantic's Rust engine at the very end of the text only.\<close>

definition country_code_ok :: "string \<Rightarrow> bool" where
  "country_code_ok s \<longleftrightarrow> length s = 2 \<and> list_all is_upper_char s"

definition currency_code_ok :: "string \<Rightarrow> bool" where
  "currency_code_ok s \<longleftrightarrow> length s = 3 \<and> list_all is_upper_char s"

definition iata_code_ok :: "string \<Rightarrow> bool" where
  "iata_code_ok s \<longleftrightarrow> (length s = 2 \<or> length s = 3)
     \<and> list_all (\<lambda>c. is_upper_char c \<or> is_decimal_char c) s"

definition entity_id_ok :: "string \<Rightarrow> bool" where
  "entity_id_ok s \<longleftrightarrow> length s = 36
     \<and> list_all (\<lambda>(i, c).
          if i \<in> {8, 13, 18, 23} then c = CHR ''-''
          else if i = 14 then c = CHR ''7''
          else if i = 19 then c \<in> set ''89ab''
          else is_hex_char c) (enumerate 0 s)"

section \<open>Upper-casing\<close>

text \<open>
  \<^verbatim>\<open>str.upper()\<close> on code points below U+0100: the sharp s becomes two letters; the
  micro sign and the y with diaeresis, whose capitals lie beyond U+00FF, are left as they are.
\<close>

definition upper_char :: "char \<Rightarrow> char" where
  "upper_char c = (let n = (of_char c :: nat) in
     if (97 \<le> n \<and> n \<le> 122) \<or> (224 \<le> n \<and> n \<le> 254 \<and> n \<noteq> 247) then char_of (n - 32) else c)"

definition upper_chars :: "char \<Rightarrow> string" where
  "upper_chars c = (if (of_char c :: nat) = 223 then ''SS'' else [upper_char c])"

definition py_upper :: "string \<Rightarrow> string" where
  "py_upper s = concat (map upper_chars s)"

lemma upper_chars_upper: "is_upper_char c \<Longrightarrow> upper_chars c = [c]"
  by (auto simp: upper_chars_def upper_char_def is_upper_char_def Let_def)

lemma upper_chars_decimal: "is_decimal_char c \<Longrightarrow> upper_chars c = [c]"
  by (auto simp: upper_chars_def upper_char_def is_decimal_char_def Let_def)

lemma py_upper_id:
  "list_all (\<lambda>c. is_upper_char c \<or> is_decimal_char c) s \<Longrightarrow> py_upper s = s"
  by (induction s) (auto simp: py_upper_def upper_chars_upper upper_chars_decimal)

section \<open>Lower-casing and letters\<close>

definition lower_char :: "char \<Rightarrow> char" where
  "lower_char c = (let n = (of_char c :: nat) in
     if (65 \<le> n \<and> n \<le> 90) \<or> (192 \<le> n \<and> n \<le> 222 \<and> n \<noteq> 215) then char_of (n + 32) else c)"

definition py_lower :: "string \<Rightarrow> string" where
  "py_lower s = map lower_char s"

definition is_alpha_char :: "char \<Rightarrow> bool" where
  "is_alpha_char c \<longleftrightarrow> (let n = (of_char c :: nat) in
     (65 \<le> n \<and> n \<le> 90) \<or> (97 \<le> n \<and> n \<le> 122) \<or> n \<in> {170, 181, 186} \<or> (192 \<le> n \<and> n \<noteq> 215 \<and> n \<noteq> 247))"

lemma lower_char_idem [simp]: "lower_char (lower_char c) = lower_char c"
  by (auto simp: lower_char_def Let_def)

lemma py_lower_idem [simp]: "py_lower (py_lower s) = py_lower s"
  by (simp add: py_lower_def)

text \<open>\<^verbatim>\<open>s.split(None, 1)\<close>: the first word and the rest, which keeps its trailing blanks.\<close>

definition split_word :: "string \<Rightarrow> string list" where
  "split_word s =
     (let t = py_lstrip s; w = takeWhile (\<lambda>c. \<not> py_isspace c) t; r = py_lstrip (dropWhile (\<lambda>c. \<not> py_isspace c) t)
      in if t = [] then [] else if r = [] then [w] else [w, r])"

end
