(* ===== verification/Session_Store.thy ===== *)
theory Session_Store
  imports Py_Text
begin

text \<open>
  Conversation state: the models and the in-memory store of
  \<^verbatim>\<open>services/agent_runtime/.../session.py\<close> and the Postgres store of
  \<^verbatim>\<open>stores_pg.py\<close>.

  A \<^verbatim>\<open>datetime\<close> is the number of microseconds since the epoch (UTC); every clock read of
  the code is an argument \<open>now\<close>. The in-memory store is a dictionary of sessions; the Postgres
  store is a record of tables, with primary and foreign keys as the storage schema declares them.
  What both promise about approvals is the locale \<open>approval_store\<close>; it is interpreted on both.
\<close>

section \<open>Models\<close>

datatype approval_status = ApPending | ApGranted | ApRejected | ApExpired

datatype actor_kind = HUMAN | AGENT | SYSTEM

datatype role = RoleUser | RoleAssistant | RoleSystem

text \<open>The content blocks of an Anthropic transcript that the runtime reads or writes.\<close>

datatype block =
    TextBlock string
  | ToolUseBlock (tu_id: string) (tu_name: string) (tu_input: "(string \<times> json) list")
  | ToolResultBlock (tr_use_id: string) (tr_content: string) (tr_is_error: "bool option")
  | OtherBlock string

record message =
  msg_role :: role
  msg_content :: "block list"

record pending_approval =
  pa_id :: string
  pa_tool_name :: string
  pa_summary :: string
  pa_turn_id :: string
  pa_requested_at :: int
  pa_granted :: "bool option"
  pa_resolved_at :: "int option"
  pa_expires_at :: "int option"
  pa_status :: approval_status

record session =
  s_id :: string
  s_tenant_id :: string
  s_actor_id :: string
  s_actor_kind :: actor_kind
  s_message_history :: "message list"
  s_pending_approvals :: "(string, pending_approval) dict"
  s_sse_last_event_id :: int
  s_sse_event_buffer :: "(int \<times> string) list"
  s_created_at :: int
  s_updated_at :: int

datatype store_error =
    KeyErrorSession string
  | KeyErrorApproval string string
  | CrossTenantApprovalError string string
  | IntegrityError

definition SSE_REPLAY_BUFFER_CAP :: nat where
  "SSE_REPLAY_BUFFER_CAP = 200"

definition DEFAULT_APPROVAL_TTL_SECONDS :: int where
  "DEFAULT_APPROVAL_TTL_SECONDS = 15 * 60"

definition seconds :: "int \<Rightarrow> int" where
  "seconds n = n * 1000000"

definition approvals_map :: "session \<Rightarrow> (string, bool) dict" where
  "approvals_map s = List.map_filter
     (\<lambda>(ap_id, ap). map_option (\<lambda>g. (ap_id, g)) (pa_granted ap)) (s_pending_approvals s)"

section \<open>The in-memory store\<close>

type_synonym store = "(string, session) dict"

definition store_get :: "store \<Rightarrow> string \<Rightarrow> session option" where
  "store_get st sid = map_of st sid"

definition store_put :: "store \<Rightarrow> session \<Rightarrow> store" where
  "store_put st s = AList.update (s_id s) s st"

definition append_message :: "int \<Rightarrow> store \<Rightarrow> string \<Rightarrow> message \<Rightarrow> store_error + store" where
  "append_message now st sid msg =
     (case map_of st sid of
        None \<Rightarrow> Inl (KeyErrorSession sid)
      | Some sess \<Rightarrow> Inr (AList.update sid
          (sess\<lparr>s_message_history := s_message_history sess @ [msg], s_updated_at := now\<rparr>) st))"

definition stamp_expiry :: "int option \<Rightarrow> pending_approval \<Rightarrow> pending_approval" where
  "stamp_expiry ttl_arg ap =
     (case pa_expires_at ap of
        Some _ \<Rightarrow> ap
      | None \<Rightarrow>
          let ttl = (case ttl_arg of Some t \<Rightarrow> t | None \<Rightarrow> DEFAULT_APPROVAL_TTL_SECONDS)
          in ap\<lparr>pa_expires_at := Some (pa_requested_at ap + seconds ttl)\<rparr>)"

definition add_approval ::
  "int \<Rightarrow> store \<Rightarrow> string \<Rightarrow> pending_approval \<Rightarrow> int option \<Rightarrow> store_error + store" where
  "add_approval now st sid ap ttl_arg =
     (case map_of st sid of
        None \<Rightarrow> Inl (KeyErrorSession sid)
      | Some sess \<Rightarrow>
          let ap' = stamp_expiry ttl_arg ap
          in Inr (AList.update sid
               (sess\<lparr>s_pending_approvals := AList.update (pa_id ap') ap' (s_pending_approvals sess),
                     s_updated_at := now\<rparr>) st))"

definition resolved :: "int \<Rightarrow> bool \<Rightarrow> pending_approval \<Rightarrow> pending_approval" where
  "resolved now granted ap =
     ap\<lparr>pa_granted := Some granted, pa_resolved_at := Some now,
        pa_status := (if granted then ApGranted else ApRejected)\<rparr>"

definition tenant_guard :: "string option \<Rightarrow> string \<Rightarrow> store_error + unit" where
  "tenant_guard actor_tenant owner =
     (case actor_tenant of
        None \<Rightarrow> Inr ()
      | Some t \<Rightarrow> guard_res (owner = t) (CrossTenantApprovalError t owner))"

definition resolve_approval ::
  "int \<Rightarrow> store \<Rightarrow> string \<Rightarrow> string \<Rightarrow> bool \<Rightarrow> string option \<Rightarrow> store_error + store" where
  "resolve_approval now st sid aid granted actor_tenant =
     (case map_of st sid of
        None \<Rightarrow> Inl (KeyErrorSession sid)
      | Some sess \<Rightarrow>
          bind_res (tenant_guard actor_tenant (s_tenant_id sess)) (\<lambda>_.
            case map_of (s_pending_approvals sess) aid of
              None \<Rightarrow> Inl (KeyErrorApproval aid sid)
            | Some existing \<Rightarrow>
                Inr (AList.update sid
                  (sess\<lparr>s_pending_approvals :=
                           AList.update aid (resolved now granted existing) (s_pending_approvals sess),
                        s_updated_at := now\<rparr>) st)))"

text \<open>
  The sweep. \<open>expire_loop\<close> is the inner loop over one session's approvals: it fills \<open>new_map\<close>
  and counts; \<open>expire_session\<close> writes the map back only when a row was touched.
\<close>

fun expire_loop ::
  "int \<Rightarrow> (string, pending_approval) dict \<Rightarrow> (string, pending_approval) dict \<Rightarrow> nat \<Rightarrow>
   (string, pending_approval) dict \<times> nat" where
  "expire_loop ts [] new_map flipped = (new_map, flipped)"
| "expire_loop ts ((ap_id, ap) # rest) new_map flipped =
     (if pa_status ap \<noteq> ApPending then expire_loop ts rest new_map flipped
      else case pa_expires_at ap of
             None \<Rightarrow> expire_loop ts rest new_map flipped
           | Some deadline \<Rightarrow>
               if deadline \<le> ts
               then expire_loop ts rest (AList.update ap_id (ap\<lparr>pa_status := ApExpired\<rparr>) new_map) (Suc flipped)
               else expire_loop ts rest new_map flipped)"

definition expire_session :: "int \<Rightarrow> int \<Rightarrow> session \<Rightarrow> session \<times> nat" where
  "expire_session ts now sess =
     (let (new_map, n) = expire_loop ts (s_pending_approvals sess) (s_pending_approvals sess) 0
      in if n > 0 then (sess\<lparr>s_pending_approvals := new_map, s_updated_at := now\<rparr>, n) else (sess, n))"

fun expire_sessions :: "int \<Rightarrow> int \<Rightarrow> store \<Rightarrow> store \<times> nat" where
  "expire_sessions ts now [] = ([], 0)"
| "expire_sessions ts now ((sid, sess) # rest) =
     (let (sess', n) = expire_session ts now sess; (rest', m) = expire_sessions ts now rest
      in ((sid, sess') # rest', n + m))"

definition expire_stale_approvals :: "int \<Rightarrow> int \<Rightarrow> store \<Rightarrow> string option \<Rightarrow> store \<times> nat" where
  "expire_stale_approvals ts now st session_id =
     (case session_id of
        Some sid \<Rightarrow>
          (case map_of st sid of
             Some sess \<Rightarrow> let (sess', n) = expire_session ts now sess in (AList.update sid sess' st, n)
           | None \<Rightarrow> expire_sessions ts now st)
      | None \<Rightarrow> expire_sessions ts now st)"

section \<open>The Postgres store\<close>

record approval_row = pending_approval +
  ar_session_id :: string
  ar_payload :: "json option"
  ar_resolved_by_user_id :: "string option"

record session_row =
  sr_id :: string
  sr_tenant_id :: string
  sr_actor_id :: "string option"
  sr_actor_kind :: actor_kind
  sr_title :: "string option"
  sr_created_at :: int
  sr_updated_at :: int

record message_row =
  mr_session_id :: string
  mr_role :: role
  mr_content :: "block list"
  mr_sequence :: int
  mr_created_at :: int

record pg_db =
  db_sessions :: "(string, session_row) dict"
  db_messages :: "message_row list"
  db_approvals :: "(string, approval_row) dict"

definition pg_message_of_row :: "message_row \<Rightarrow> message" where
  "pg_message_of_row m = \<lparr>msg_role = mr_role m, msg_content = mr_content m\<rparr>"

definition pg_approval_of_row :: "approval_row \<Rightarrow> pending_approval" where
  "pg_approval_of_row r =
     \<lparr>pa_id = pa_id r, pa_tool_name = pa_tool_name r, pa_summary = pa_summary r,
      pa_turn_id = pa_turn_id r, pa_requested_at = pa_requested_at r, pa_granted = pa_granted r,
      pa_resolved_at = pa_resolved_at r, pa_expires_at = pa_expires_at r, pa_status = pa_status r\<rparr>"

definition pg_session_messages :: "pg_db \<Rightarrow> string \<Rightarrow> message_row list" where
  "pg_session_messages db sid = sort_key mr_sequence (filter (\<lambda>m. mr_session_id m = sid) (db_messages db))"

definition pg_session_approvals :: "pg_db \<Rightarrow> string \<Rightarrow> (string, pending_approval) dict" where
  "pg_session_approvals db sid =
     map (\<lambda>(k, r). (k, pg_approval_of_row r)) (filter (\<lambda>(k, r). ar_session_id r = sid) (db_approvals db))"

definition pg_get :: "pg_db \<Rightarrow> string \<Rightarrow> session option" where
  "pg_get db sid =
     (case map_of (db_sessions db) sid of
        None \<Rightarrow> None
      | Some row \<Rightarrow> Some
          \<lparr>s_id = sr_id row, s_tenant_id = sr_tenant_id row,
           s_actor_id = (case sr_actor_id row of Some a \<Rightarrow> a | None \<Rightarrow> sr_id row),
           s_actor_kind = sr_actor_kind row,
           s_message_history = map pg_message_of_row (pg_session_messages db sid),
           s_pending_approvals = pg_session_approvals db sid,
           s_sse_last_event_id = 0, s_sse_event_buffer = [],
           s_created_at = sr_created_at row, s_updated_at = sr_updated_at row\<rparr>)"

definition pg_put :: "pg_db \<Rightarrow> session \<Rightarrow> pg_db" where
  "pg_put db s =
     (case map_of (db_sessions db) (s_id s) of
        None \<Rightarrow> db\<lparr>db_sessions := AList.update (s_id s)
                  \<lparr>sr_id = s_id s, sr_tenant_id = s_tenant_id s, sr_actor_id = Some (s_actor_id s),
                   sr_actor_kind = s_actor_kind s, sr_title = None,
                   sr_created_at = s_created_at s, sr_updated_at = s_updated_at s\<rparr> (db_sessions db)\<rparr>
      | Some row \<Rightarrow> db\<lparr>db_sessions := AList.update (s_id s)
                  (row\<lparr>sr_tenant_id := s_tenant_id s, sr_actor_id := Some (s_actor_id s),
                       sr_actor_kind := s_actor_kind s, sr_updated_at := s_updated_at s\<rparr>)
                  (db_sessions db)\<rparr>)"

definition touch_session :: "int \<Rightarrow> string \<Rightarrow> pg_db \<Rightarrow> pg_db" where
  "touch_session now sid db =
     db\<lparr>db_sessions := map (\<lambda>(k, r). (k, if k = sid then r\<lparr>sr_updated_at := now\<rparr> else r)) (db_sessions db)\<rparr>"

definition pg_append_message :: "int \<Rightarrow> pg_db \<Rightarrow> string \<Rightarrow> message \<Rightarrow> store_error + pg_db" where
  "pg_append_message now db sid msg =
     (let seqs = map mr_sequence (filter (\<lambda>m. mr_session_id m = sid) (db_messages db));
          next_seq = (if seqs = [] then 0 else Max (set seqs) + 1);
          row = \<lparr>mr_session_id = sid, mr_role = msg_role msg, mr_content = msg_content msg,
                 mr_sequence = next_seq, mr_created_at = now\<rparr>
      in bind_res (guard_res (map_of (db_sessions db) sid \<noteq> None) IntegrityError)
           (\<lambda>_. Inr (touch_session now sid (db\<lparr>db_messages := db_messages db @ [row]\<rparr>))))"

definition pg_add_approval ::
  "int \<Rightarrow> pg_db \<Rightarrow> string \<Rightarrow> pending_approval \<Rightarrow> int option \<Rightarrow> store_error + pg_db" where
  "pg_add_approval now db sid ap ttl_arg =
     (let ap' = stamp_expiry ttl_arg ap
      in case map_of (db_approvals db) (pa_id ap) of
           None \<Rightarrow>
             bind_res (guard_res (map_of (db_sessions db) sid \<noteq> None) IntegrityError) (\<lambda>_.
               Inr (touch_session now sid (db\<lparr>db_approvals := AList.update (pa_id ap)
                 (pending_approval.extend ap' \<lparr>ar_session_id = sid, ar_payload = None, ar_resolved_by_user_id = None\<rparr>)
                 (db_approvals db)\<rparr>)))
         | Some existing \<Rightarrow>
             Inr (touch_session now sid (db\<lparr>db_approvals := AList.update (pa_id ap)
               (existing\<lparr>pa_tool_name := pa_tool_name ap, pa_summary := pa_summary ap,
                  pa_turn_id := pa_turn_id ap, pa_requested_at := pa_requested_at ap,
                  pa_granted := pa_granted ap, pa_resolved_at := pa_resolved_at ap,
                  pa_expires_at := pa_expires_at ap', pa_status := pa_status ap\<rparr>)
               (db_approvals db)\<rparr>)))"

definition pg_resolve_approval ::
  "int \<Rightarrow> pg_db \<Rightarrow> string \<Rightarrow> string \<Rightarrow> bool \<Rightarrow> string option \<Rightarrow> store_error + pg_db" where
  "pg_resolve_approval now db sid aid granted actor_tenant =
     (case map_of (db_approvals db) aid of
        None \<Rightarrow> Inl (KeyErrorApproval aid sid)
      | Some existing \<Rightarrow>
          if ar_session_id existing \<noteq> sid then Inl (KeyErrorApproval aid sid)
          else bind_res
            (case map_of (db_sessions db) sid of
               None \<Rightarrow> Inr ()
             | Some sess_row \<Rightarrow> tenant_guard actor_tenant (sr_tenant_id sess_row))
            (\<lambda>_. Inr (touch_session now sid (db\<lparr>db_approvals := AList.update aid
                (existing\<lparr>pa_granted := Some granted, pa_resolved_at := Some now,
                   pa_status := (if granted then ApGranted else ApRejected)\<rparr>) (db_approvals db)\<rparr>))))"

definition row_stale :: "int \<Rightarrow> 'a pending_approval_scheme \<Rightarrow> bool" where
  "row_stale ts r \<longleftrightarrow> pa_status r = ApPending
     \<and> (case pa_expires_at r of None \<Rightarrow> False | Some deadline \<Rightarrow> deadline \<le> ts)"

definition pg_expire_stale_approvals :: "int \<Rightarrow> pg_db \<Rightarrow> string option \<Rightarrow> pg_db \<times> nat" where
  "pg_expire_stale_approvals ts db session_id =
     (let hit = (\<lambda>r. row_stale ts r \<and> (case session_id of None \<Rightarrow> True | Some sid \<Rightarrow> ar_session_id r = sid))
      in (db\<lparr>db_approvals := map (\<lambda>(k, r). (k, if hit r then r\<lparr>pa_status := ApExpired\<rparr> else r)) (db_approvals db)\<rparr>,
          length (filter (\<lambda>(k, r). hit r) (db_approvals db))))"

section \<open>The sweep, in closed form\<close>

definition expired_if :: "int \<Rightarrow> pending_approval \<Rightarrow> pending_approval" where
  "expired_if ts ap = (if row_stale ts ap then ap\<lparr>pa_status := ApExpired\<rparr> else ap)"

lemma expired_if_idem [simp]: "expired_if ts (expired_if ts ap) = expired_if ts ap"
  by (simp add: expired_if_def row_stale_def)

lemma expired_if_decided: "pa_status ap \<noteq> ApPending \<Longrightarrow> expired_if ts ap = ap"
  by (simp add: expired_if_def row_stale_def)

lemma expire_loop_unfold:
  "expire_loop ts ((k, ap) # rest) new n =
     (if row_stale ts ap then expire_loop ts rest (AList.update k (ap\<lparr>pa_status := ApExpired\<rparr>) new) (Suc n)
      else expire_loop ts rest new n)"
  by (auto simp: row_stale_def split: option.splits)

declare expire_loop.simps(2) [simp del]

lemma expire_loop_count:
  "snd (expire_loop ts d new n) = n + length (filter (\<lambda>(k, ap). row_stale ts ap) d)"
proof (induction d arbitrary: new n)
  case (Cons x d)
  then show ?case by (cases x) (simp add: expire_loop_unfold)
qed simp

lemma expire_loop_wf: "wf_dict new \<Longrightarrow> wf_dict (fst (expire_loop ts d new n))"
proof (induction d arbitrary: new n)
  case (Cons x d)
  then show ?case by (cases x) (simp add: expire_loop_unfold)
qed simp

lemma expire_loop_get:
  assumes "wf_dict d"
  shows "map_of (fst (expire_loop ts d new n)) k =
    (case map_of d k of
       Some ap \<Rightarrow> if row_stale ts ap then Some (ap\<lparr>pa_status := ApExpired\<rparr>) else map_of new k
     | None \<Rightarrow> map_of new k)"
  using assms
proof (induction d arbitrary: new n)
  case (Cons x d)
  obtain k' ap where x: "x = (k', ap)" by fastforce
  from Cons.prems have d: "wf_dict d" and nk: "map_of d k' = None"
    by (auto simp: wf_dict_def x map_of_eq_None_iff)
  show ?case using Cons.IH [OF d] nk
    by (auto simp: x expire_loop_unfold dict_simps split: option.splits)
qed simp

lemma expire_session_pending:
  assumes "wf_dict (s_pending_approvals sess)"
  shows "map_of (s_pending_approvals (fst (expire_session ts now sess))) k
    = map_option (expired_if ts) (map_of (s_pending_approvals sess) k)"
proof -
  let ?p = "s_pending_approvals sess"
  have get: "map_of (fst (expire_loop ts ?p ?p 0)) k = map_option (expired_if ts) (map_of ?p k)"
    by (auto simp: expire_loop_get [OF assms] expired_if_def split: option.splits)
  have none: "\<not> row_stale ts ap" if "snd (expire_loop ts ?p ?p 0) = 0" "map_of ?p k = Some ap" for ap
    using that map_of_SomeD [OF that(2)] by (auto simp: expire_loop_count filter_empty_conv)
  show ?thesis
    using get none by (cases "map_of ?p k") (auto simp: expire_session_def expired_if_def split: prod.splits)
qed

lemma expire_session_frame [simp]:
  "s_id (fst (expire_session ts now sess)) = s_id sess"
  "s_tenant_id (fst (expire_session ts now sess)) = s_tenant_id sess"
  "s_message_history (fst (expire_session ts now sess)) = s_message_history sess"
  by (auto simp: expire_session_def split: prod.splits)

lemma expire_session_wf:
  "wf_dict (s_pending_approvals sess) \<Longrightarrow> wf_dict (s_pending_approvals (fst (expire_session ts now sess)))"
  using expire_loop_wf by (auto simp: expire_session_def split: prod.splits) (metis fst_conv)

lemma expire_session_count:
  "snd (expire_session ts now sess) = length (filter (\<lambda>(k, ap). row_stale ts ap) (s_pending_approvals sess))"
  using expire_loop_count [of ts "s_pending_approvals sess" "s_pending_approvals sess" 0]
  by (auto simp: expire_session_def split: prod.splits)

lemma expire_sessions_eq:
  "expire_sessions ts now st =
     (map (\<lambda>(sid, sess). (sid, fst (expire_session ts now sess))) st,
      \<Sum>(sid, sess)\<leftarrow>st. snd (expire_session ts now sess))"
  by (induction st) (auto split: prod.splits)

section \<open>Invariants and observations\<close>

definition approval_consistent :: "'a pending_approval_scheme \<Rightarrow> bool" where
  "approval_consistent ap \<longleftrightarrow>
     (case pa_status ap of
        ApGranted \<Rightarrow> pa_granted ap = Some True
      | ApRejected \<Rightarrow> pa_granted ap = Some False
      | ApPending \<Rightarrow> pa_granted ap = None
      | ApExpired \<Rightarrow> pa_granted ap = None)"

lemma approval_consistent_expired_if: "approval_consistent ap \<Longrightarrow> approval_consistent (expired_if ts ap)"
  by (auto simp: expired_if_def row_stale_def approval_consistent_def)

lemma approval_consistent_resolved: "approval_consistent (resolved now g ap)"
  by (simp add: resolved_def approval_consistent_def)

lemma stamp_expiry_frame [simp]:
  "pa_id (stamp_expiry ttl ap) = pa_id ap" "pa_tool_name (stamp_expiry ttl ap) = pa_tool_name ap"
  "pa_summary (stamp_expiry ttl ap) = pa_summary ap" "pa_turn_id (stamp_expiry ttl ap) = pa_turn_id ap"
  "pa_requested_at (stamp_expiry ttl ap) = pa_requested_at ap" "pa_granted (stamp_expiry ttl ap) = pa_granted ap"
  "pa_resolved_at (stamp_expiry ttl ap) = pa_resolved_at ap" "pa_status (stamp_expiry ttl ap) = pa_status ap"
  by (simp_all add: stamp_expiry_def Let_def split: option.splits)

lemma approval_consistent_stamp [simp]: "approval_consistent (stamp_expiry ttl ap) = approval_consistent ap"
  by (simp add: approval_consistent_def split: approval_status.splits)

definition mem_inv :: "store \<Rightarrow> bool" where
  "mem_inv st \<longleftrightarrow> wf_dict st \<and> (\<forall>sess \<in> snd ` set st. wf_dict (s_pending_approvals sess))"

definition mem_tenant :: "store \<Rightarrow> string \<Rightarrow> string option" where
  "mem_tenant st sid = map_option s_tenant_id (map_of st sid)"

definition mem_approval :: "store \<Rightarrow> string \<Rightarrow> string \<Rightarrow> pending_approval option" where
  "mem_approval st sid aid = Option.bind (map_of st sid) (\<lambda>sess. map_of (s_pending_approvals sess) aid)"

definition pg_inv :: "pg_db \<Rightarrow> bool" where
  "pg_inv db \<longleftrightarrow> wf_dict (db_sessions db) \<and> wf_dict (db_approvals db)
     \<and> (\<forall>k r. map_of (db_approvals db) k = Some r \<longrightarrow>
            pa_id r = k \<and> (\<exists>row. map_of (db_sessions db) (ar_session_id r) = Some row))
     \<and> (\<forall>sid. map mr_sequence (filter (\<lambda>m. mr_session_id m = sid) (db_messages db))
            = map int [0..<length (filter (\<lambda>m. mr_session_id m = sid) (db_messages db))])"

definition pg_tenant :: "pg_db \<Rightarrow> string \<Rightarrow> string option" where
  "pg_tenant db sid = map_option sr_tenant_id (map_of (db_sessions db) sid)"

definition pg_approval :: "pg_db \<Rightarrow> string \<Rightarrow> string \<Rightarrow> pending_approval option" where
  "pg_approval db sid aid =
     (case map_of (db_approvals db) aid of
        None \<Rightarrow> None
      | Some r \<Rightarrow> if ar_session_id r = sid then Some (pg_approval_of_row r) else None)"

section \<open>What an approval store promises\<close>

locale approval_store =
  fixes inv :: "'s \<Rightarrow> bool"
    and tenant :: "'s \<Rightarrow> string \<Rightarrow> string option"
    and approval :: "'s \<Rightarrow> string \<Rightarrow> string \<Rightarrow> pending_approval option"
    and add :: "int \<Rightarrow> 's \<Rightarrow> string \<Rightarrow> pending_approval \<Rightarrow> int option \<Rightarrow> store_error + 's"
    and resolve :: "int \<Rightarrow> 's \<Rightarrow> string \<Rightarrow> string \<Rightarrow> bool \<Rightarrow> string option \<Rightarrow> store_error + 's"
    and expire :: "int \<Rightarrow> int \<Rightarrow> 's \<Rightarrow> string option \<Rightarrow> 's \<times> nat"
  assumes add_inv: "inv s \<Longrightarrow> add now s sid ap ttl = Inr s' \<Longrightarrow> inv s'"
    and add_tenant: "inv s \<Longrightarrow> add now s sid ap ttl = Inr s' \<Longrightarrow> tenant s' = tenant s"
    and add_get: "inv s \<Longrightarrow> add now s sid ap ttl = Inr s' \<Longrightarrow>
      (\<And>sid'. sid' \<noteq> sid \<Longrightarrow> approval s sid' (pa_id ap) = None) \<Longrightarrow>
      approval s' sid (pa_id ap) = Some (stamp_expiry ttl ap)"
    and add_other: "inv s \<Longrightarrow> add now s sid ap ttl = Inr s' \<Longrightarrow> aid \<noteq> pa_id ap \<Longrightarrow>
      approval s' sid' aid = approval s sid' aid"
    and resolve_inv: "inv s \<Longrightarrow> resolve now s sid aid g actor = Inr s' \<Longrightarrow> inv s'"
    and resolve_tenant: "inv s \<Longrightarrow> resolve now s sid aid g actor = Inr s' \<Longrightarrow> tenant s' = tenant s"
    and resolve_get: "inv s \<Longrightarrow> resolve now s sid aid g actor = Inr s' \<Longrightarrow>
      \<exists>ap. approval s sid aid = Some ap \<and> approval s' sid aid = Some (resolved now g ap)"
    and resolve_other: "inv s \<Longrightarrow> resolve now s sid aid g actor = Inr s' \<Longrightarrow> (sid', aid') \<noteq> (sid, aid) \<Longrightarrow>
      approval s' sid' aid' = approval s sid' aid'"
    and resolve_owner: "inv s \<Longrightarrow> resolve now s sid aid g (Some t) = Inr s' \<Longrightarrow> tenant s sid = Some t"
    and resolve_total: "inv s \<Longrightarrow> approval s sid aid = Some ap \<Longrightarrow> actor = None \<or> actor = tenant s sid \<Longrightarrow>
      \<exists>s'. resolve now s sid aid g actor = Inr s'"
    and expire_inv: "inv s \<Longrightarrow> inv (fst (expire ts now s target))"
    and expire_tenant: "inv s \<Longrightarrow> tenant (fst (expire ts now s target)) = tenant s"
    and expire_get: "inv s \<Longrightarrow> tenant s sid \<noteq> None \<Longrightarrow>
      approval (fst (expire ts now s (Some sid))) sid aid = map_option (expired_if ts) (approval s sid aid)"
    and expire_other: "inv s \<Longrightarrow> tenant s sid \<noteq> None \<Longrightarrow> sid' \<noteq> sid \<Longrightarrow>
      approval (fst (expire ts now s (Some sid))) sid' aid = approval s sid' aid"
    and expire_all: "inv s \<Longrightarrow>
      approval (fst (expire ts now s None)) sid aid = map_option (expired_if ts) (approval s sid aid)"
begin

lemma resolve_cross_tenant:
  assumes "inv s" and "tenant s sid = Some owner" and "owner \<noteq> t"
  shows "\<exists>e. resolve now s sid aid g (Some t) = Inl e"
proof (cases "resolve now s sid aid g (Some t)")
  case (Inr s')
  with resolve_owner [OF assms(1) this] assms show ?thesis by simp
qed simp

lemma decision_survives_sweep:
  assumes "inv s" and r: "resolve now s sid aid g actor = Inr s'" and "tenant s sid \<noteq> None"
  shows "\<exists>ap. approval (fst (expire ts now' s' (Some sid))) sid aid = Some ap
    \<and> pa_granted ap = Some g \<and> pa_status ap = (if g then ApGranted else ApRejected)"
proof -
  from resolve_get [OF assms(1) r] obtain ap where ap: "approval s' sid aid = Some (resolved now g ap)" by auto
  have "tenant s' sid \<noteq> None" using resolve_tenant [OF assms(1) r] assms(3) by simp
  from expire_get [OF resolve_inv [OF assms(1) r] this] ap show ?thesis
    by (auto simp: expired_if_decided resolved_def)
qed

lemma sweep_idempotent:
  assumes "inv s" and "tenant s sid \<noteq> None"
  shows "approval (fst (expire ts now' (fst (expire ts now s (Some sid))) (Some sid))) sid aid
    = approval (fst (expire ts now s (Some sid))) sid aid"
proof -
  have "tenant (fst (expire ts now s (Some sid))) sid \<noteq> None" using assms by (simp add: expire_tenant)
  from expire_get [OF expire_inv [OF assms(1)] this] show ?thesis
    by (simp add: expire_get [OF assms] option.map_comp comp_def)
qed

lemma late_grant:
  assumes "inv s" and "tenant s sid \<noteq> None" and "approval s sid aid = Some ap" and "row_stale ts ap"
  shows "pa_status (the (approval (fst (expire ts now s (Some sid))) sid aid)) = ApExpired
    \<and> (\<exists>s' ap'. resolve now' (fst (expire ts now s (Some sid))) sid aid True None = Inr s'
         \<and> approval s' sid aid = Some ap' \<and> pa_status ap' = ApGranted)"
proof -
  let ?s = "fst (expire ts now s (Some sid))"
  have get: "approval ?s sid aid = Some (ap\<lparr>pa_status := ApExpired\<rparr>)"
    using expire_get [OF assms(1,2), of ts now aid] assms(3,4) by (simp add: expired_if_def)
  from resolve_total [OF expire_inv [OF assms(1)] get] obtain s' where
    s': "resolve now' ?s sid aid True None = Inr s'" by blast
  from resolve_get [OF expire_inv [OF assms(1)] s'] s' get show ?thesis by (auto simp: resolved_def)
qed

end

section \<open>The in-memory store keeps the contract\<close>

lemmas mem_defs = mem_inv_def mem_tenant_def mem_approval_def

lemma mem_inv_pending: "mem_inv st \<Longrightarrow> map_of st sid = Some sess \<Longrightarrow> wf_dict (s_pending_approvals sess)"
  by (force simp: mem_inv_def dest: map_of_SomeD)

lemma mem_inv_update:
  "mem_inv st \<Longrightarrow> wf_dict (s_pending_approvals sess) \<Longrightarrow> mem_inv (AList.update sid sess st)"
  by (auto simp: mem_inv_def dest!: dict_update_values)

lemma mem_approval_update:
  "mem_approval (AList.update sid sess st) sid' aid
     = (if sid' = sid then map_of (s_pending_approvals sess) aid else mem_approval st sid' aid)"
  by (simp add: mem_approval_def dict_simps)

lemma mem_tenant_update:
  "mem_tenant (AList.update sid sess st) = (mem_tenant st)(sid := Some (s_tenant_id sess))"
  by (auto simp: mem_tenant_def dict_simps)

lemmas mem_update_simps = mem_approval_update mem_tenant_update

lemma mem_expire_sessions_get:
  "map_of (fst (expire_sessions ts now st)) sid = map_option (\<lambda>s. fst (expire_session ts now s)) (map_of st sid)"
  by (simp add: expire_sessions_eq map_of_map_values [where f = "\<lambda>_ s. fst (expire_session ts now s)"])

lemma mem_expire_sessions_inv: "mem_inv st \<Longrightarrow> mem_inv (fst (expire_sessions ts now st))"
  by (auto simp: mem_inv_def expire_sessions_eq wf_dict_map_values expire_session_wf
        wf_dict_map_values [where f = "\<lambda>_ s. fst (expire_session ts now s)"])

lemma mem_expire_cases:
  obtains (one) sid sess where "target = Some sid" "map_of st sid = Some sess"
      "fst (expire_stale_approvals ts now st target) = AList.update sid (fst (expire_session ts now sess)) st"
  | (all) "target = None \<or> (\<exists>sid. target = Some sid \<and> map_of st sid = None)"
      "fst (expire_stale_approvals ts now st target) = fst (expire_sessions ts now st)"
  by (cases target; cases "map_of st (the target)") (auto simp: expire_stale_approvals_def split: prod.splits)

interpretation mem: approval_store mem_inv mem_tenant mem_approval add_approval resolve_approval expire_stale_approvals
proof (unfold_locales, goal_cases)
  case (1 s now sid ap ttl s')
  then show ?case
    by (auto simp: add_approval_def Let_def mem_inv_pending intro!: mem_inv_update split: option.splits)
next
  case (2 s now sid ap ttl s')
  then show ?case
    by (auto simp: add_approval_def Let_def mem_tenant_update split: option.splits) (auto simp: mem_tenant_def)
next
  case (3 s now sid ap ttl s')
  then show ?case
    by (auto simp: add_approval_def Let_def mem_approval_update dict_simps split: option.splits)
next
  case (4 s now sid ap ttl s' aid sid')
  then show ?case
    by (auto simp: add_approval_def Let_def mem_approval_update dict_simps split: option.splits)
       (auto simp: mem_approval_def)
next
  case (5 s now sid aid g actor s')
  then show ?case
    by (auto simp: resolve_approval_def res_simps mem_inv_pending intro!: mem_inv_update split: option.splits)
next
  case (6 s now sid aid g actor s')
  then show ?case
    by (auto simp: resolve_approval_def res_simps mem_tenant_update split: option.splits) (auto simp: mem_tenant_def)
next
  case (7 s now sid aid g actor s')
  then show ?case
    by (auto simp: resolve_approval_def res_simps mem_approval_update dict_simps split: option.splits)
       (auto simp: mem_approval_def)
next
  case (8 s now sid aid g actor s' sid' aid')
  then show ?case
    by (auto simp: resolve_approval_def res_simps mem_approval_update dict_simps split: option.splits)
       (auto simp: mem_approval_def)
next
  case (9 s now sid aid g t s')
  then show ?case
    by (auto simp: resolve_approval_def res_simps tenant_guard_def mem_tenant_def split: option.splits)
next
  case (10 s sid aid ap actor now g)
  then show ?case
    by (auto simp: resolve_approval_def tenant_guard_def mem_approval_def mem_tenant_def bind_eq_Some_conv
          split: option.splits)
next
  case (11 s ts now target)
  then show ?case
    by (cases rule: mem_expire_cases [of target s ts now])
       (auto simp: mem_inv_pending expire_session_wf mem_expire_sessions_inv intro!: mem_inv_update)
next
  case (12 s ts now target)
  then show ?case
    by (cases rule: mem_expire_cases [of target s ts now])
       (auto simp: mem_tenant_def dict_simps mem_expire_sessions_get option.map_comp comp_def)
next
  case (13 s sid ts now aid)
  then show ?case
    by (cases rule: mem_expire_cases [of "Some sid" s ts now])
       (auto simp: mem_tenant_def mem_approval_def dict_simps expire_session_pending mem_inv_pending)
next
  case (14 s sid sid' ts now aid)
  then show ?case
    by (cases rule: mem_expire_cases [of "Some sid" s ts now]) (auto simp: mem_tenant_def mem_approval_def dict_simps)
next
  case (15 s ts now sid aid)
  then show ?case
    by (cases "map_of s sid")
       (auto simp: expire_stale_approvals_def mem_approval_def mem_expire_sessions_get expire_session_pending mem_inv_pending)
qed

section \<open>The Postgres store keeps the contract\<close>

lemma pg_touch_frame [simp]:
  "db_messages (touch_session now sid db) = db_messages db"
  "db_approvals (touch_session now sid db) = db_approvals db"
  by (simp_all add: touch_session_def)

lemma pg_touch_sessions [simp]:
  "map_of (db_sessions (touch_session now sid db)) k
     = map_option (\<lambda>r. if k = sid then r\<lparr>sr_updated_at := now\<rparr> else r) (map_of (db_sessions db) k)"
  by (simp add: touch_session_def map_of_map_values [where f = "\<lambda>k r. if k = sid then r\<lparr>sr_updated_at := now\<rparr> else r"])

lemma pg_touch_tenant [simp]: "pg_tenant (touch_session now sid db) = pg_tenant db"
  by (auto simp: pg_tenant_def option.map_comp comp_def if_distrib cong: if_cong intro: option.map_cong)

lemma pg_touch_inv [simp]: "pg_inv (touch_session now sid db) = pg_inv db"
proof -
  have "wf_dict (db_sessions (touch_session now sid db)) = wf_dict (db_sessions db)"
    by (simp add: touch_session_def
          wf_dict_map_values [where f = "\<lambda>k r. if k = sid then r\<lparr>sr_updated_at := now\<rparr> else r"])
  then show ?thesis by (simp add: pg_inv_def)
qed

lemma pg_touch_approval [simp]: "pg_approval (touch_session now sid db) = pg_approval db"
  by (simp add: pg_approval_def fun_eq_iff)

lemma pg_inv_id: "pg_inv db \<Longrightarrow> map_of (db_approvals db) aid = Some r \<Longrightarrow> pa_id r = aid"
  by (simp add: pg_inv_def)

lemma pg_inv_fk:
  "pg_inv db \<Longrightarrow> map_of (db_approvals db) aid = Some r \<Longrightarrow> \<exists>row. map_of (db_sessions db) (ar_session_id r) = Some row"
  by (simp add: pg_inv_def)

lemma pg_inv_update:
  assumes "pg_inv db" "pa_id r = aid" "\<exists>row. map_of (db_sessions db) (ar_session_id r) = Some row"
  shows "pg_inv (db\<lparr>db_approvals := AList.update aid r (db_approvals db)\<rparr>)"
  using assms by (auto simp: pg_inv_def dict_simps)

lemma pg_approval_update:
  "pg_approval (db\<lparr>db_approvals := AList.update aid r (db_approvals db)\<rparr>) sid' aid' =
     (if aid' = aid then (if ar_session_id r = sid' then Some (pg_approval_of_row r) else None)
      else pg_approval db sid' aid')"
  by (simp add: pg_approval_def dict_simps)

lemma pg_tenant_approvals [simp]: "pg_tenant (db\<lparr>db_approvals := x\<rparr>) = pg_tenant db"
  by (simp add: pg_tenant_def fun_eq_iff)

lemma pg_of_row_extend: "pg_approval_of_row (pending_approval.extend ap m) = ap"
  by (simp add: pg_approval_of_row_def pending_approval.defs)

lemma pg_of_row_stale [simp]: "row_stale ts (pg_approval_of_row r) = row_stale ts r"
  by (simp add: pg_approval_of_row_def row_stale_def)

lemma pg_of_row_overwrite:
  assumes "pa_id existing = pa_id ap"
  shows "pg_approval_of_row (existing\<lparr>pa_tool_name := pa_tool_name ap, pa_summary := pa_summary ap,
      pa_turn_id := pa_turn_id ap, pa_requested_at := pa_requested_at ap, pa_granted := pa_granted ap,
      pa_resolved_at := pa_resolved_at ap, pa_expires_at := pa_expires_at (stamp_expiry ttl ap),
      pa_status := pa_status ap\<rparr>) = stamp_expiry ttl ap"
  using assms by (auto simp: pg_approval_of_row_def)

lemma pg_expire_rows:
  "map_of (db_approvals (fst (pg_expire_stale_approvals ts db target))) aid =
     map_option (\<lambda>r. if row_stale ts r \<and> (case target of None \<Rightarrow> True | Some sid \<Rightarrow> ar_session_id r = sid)
       then r\<lparr>pa_status := ApExpired\<rparr> else r) (map_of (db_approvals db) aid)"
  unfolding pg_expire_stale_approvals_def Let_def fst_conv
  by (simp add: map_of_map_values [where f = "\<lambda>k r. if row_stale ts r
        \<and> (case target of None \<Rightarrow> True | Some sid \<Rightarrow> ar_session_id r = sid) then r\<lparr>pa_status := ApExpired\<rparr> else r"])

lemma pg_expire_count:
  "snd (pg_expire_stale_approvals ts db (Some sid))
     = length (filter (\<lambda>(k, r). row_stale ts r \<and> ar_session_id r = sid) (db_approvals db))"
  by (simp add: pg_expire_stale_approvals_def Let_def)

lemma pg_expire_frame [simp]:
  "db_sessions (fst (pg_expire_stale_approvals ts db target)) = db_sessions db"
  "db_messages (fst (pg_expire_stale_approvals ts db target)) = db_messages db"
  by (simp_all add: pg_expire_stale_approvals_def Let_def)

lemma pg_expire_inv:
  assumes "pg_inv db"
  shows "pg_inv (fst (pg_expire_stale_approvals ts db target))"
proof -
  have "wf_dict (db_approvals (fst (pg_expire_stale_approvals ts db target))) = wf_dict (db_approvals db)"
    by (simp add: pg_expire_stale_approvals_def Let_def wf_dict_def comp_def case_prod_beta)
  with assms show ?thesis by (auto simp: pg_inv_def pg_expire_rows)
qed

lemma pg_expire_get:
  "pg_approval (fst (pg_expire_stale_approvals ts db target)) sid aid =
     (if target = None \<or> target = Some sid then map_option (expired_if ts) (pg_approval db sid aid)
      else pg_approval db sid aid)"
  by (auto simp: pg_approval_def pg_expire_rows expired_if_def pg_approval_of_row_def row_stale_def
        split: option.splits)

interpretation pg: approval_store pg_inv pg_tenant pg_approval pg_add_approval pg_resolve_approval
  "\<lambda>ts now. pg_expire_stale_approvals ts"
proof (unfold_locales, goal_cases)
  case (1 s now sid ap ttl s')
  then show ?case
    by (auto simp: pg_add_approval_def Let_def res_simps pending_approval.defs intro!: pg_inv_update
          split: option.splits) (metis pg_inv_id, metis pg_inv_fk)
next
  case (2 s now sid ap ttl s')
  then show ?case by (auto simp: pg_add_approval_def Let_def res_simps split: option.splits)
next
  case (3 s now sid ap ttl s')
  then show ?case
  proof (cases "map_of (db_approvals s) (pa_id ap)")
    case None
    with 3 show ?thesis
      by (auto simp: pg_add_approval_def Let_def res_simps pg_approval_update pg_of_row_extend)
         (simp add: pending_approval.defs)
  next
    case (Some r)
    with 3(3) have own: "ar_session_id r = sid" by (force simp: pg_approval_def)
    from pg_inv_id [OF 3(1) Some] have "pa_id r = pa_id ap" by simp
    with own Some 3(2) show ?thesis
      by (auto simp: pg_add_approval_def Let_def res_simps pg_approval_update pg_of_row_overwrite)
  qed
next
  case (4 s now sid ap ttl s' aid sid')
  then show ?case by (auto simp: pg_add_approval_def Let_def res_simps pg_approval_update split: option.splits)
next
  case (5 s now sid aid g actor s')
  then show ?case
    by (auto simp: pg_resolve_approval_def res_simps intro!: pg_inv_update split: option.splits if_splits)
       (metis pg_inv_id pg_inv_fk option.distinct(1))+
next
  case (6 s now sid aid g actor s')
  then show ?case by (auto simp: pg_resolve_approval_def res_simps split: option.splits if_splits)
next
  case (7 s now sid aid g actor s')
  then show ?case
    by (auto simp: pg_resolve_approval_def res_simps pg_approval_update resolved_def split: option.splits if_splits)
       (auto simp: pg_approval_def pg_approval_of_row_def)
next
  case (8 s now sid aid g actor s' sid' aid')
  then show ?case
    by (auto simp: pg_resolve_approval_def res_simps pg_approval_update split: option.splits if_splits)
       (auto simp: pg_approval_def)
next
  case (9 s now sid aid g t s')
  then show ?case
    by (auto simp: pg_resolve_approval_def res_simps tenant_guard_def pg_tenant_def
          split: option.splits if_splits) (metis pg_inv_fk option.distinct(1))+
next
  case (10 s sid aid ap actor now g)
  then show ?case
    by (auto simp: pg_resolve_approval_def tenant_guard_def pg_approval_def pg_tenant_def split: option.splits if_splits)
next
  case (11 s ts now target)
  then show ?case by (simp add: pg_expire_inv)
next
  case (12 s ts now target)
  then show ?case by (simp add: pg_tenant_def fun_eq_iff)
qed (auto simp: pg_expire_get)

section \<open>Transcripts in Postgres\<close>

lemma pg_messages_sorted:
  assumes "pg_inv db"
  shows "pg_session_messages db sid = filter (\<lambda>m. mr_session_id m = sid) (db_messages db)"
proof -
  have "map mr_sequence (filter (\<lambda>m. mr_session_id m = sid) (db_messages db))
      = map int [0..<length (filter (\<lambda>m. mr_session_id m = sid) (db_messages db))]"
    using assms by (simp only: pg_inv_def)
  then have "sorted (map mr_sequence (filter (\<lambda>m. mr_session_id m = sid) (db_messages db)))"
    by (simp only:) (simp add: sorted_map sorted_wrt_iff_nth_less)
  then show ?thesis by (simp add: pg_session_messages_def sort_key_id_if_sorted)
qed

lemma Max_map_int_upt: "0 < n \<Longrightarrow> Max (set (map int [0..<n])) = int n - 1"
  by (rule Max_eqI) (auto simp: image_iff intro!: bexI [where x = "n - 1"])

lemma pg_next_sequence:
  assumes "pg_inv db"
  shows "(let seqs = map mr_sequence (filter (\<lambda>m. mr_session_id m = sid) (db_messages db))
          in if seqs = [] then 0 else Max (set seqs) + 1)
    = int (length (filter (\<lambda>m. mr_session_id m = sid) (db_messages db)))"
proof -
  let ?ms = "filter (\<lambda>m. mr_session_id m = sid) (db_messages db)"
  have seqs: "map mr_sequence ?ms = map int [0..<length ?ms]"
    using assms by (simp only: pg_inv_def)
  show ?thesis
  proof (cases "length ?ms = 0")
    case False
    then have "0 < length ?ms" by simp
    from Max_map_int_upt [OF this] False show ?thesis by (simp only: seqs Let_def) simp
  qed simp
qed

definition pg_new_message :: "int \<Rightarrow> pg_db \<Rightarrow> string \<Rightarrow> message \<Rightarrow> message_row" where
  "pg_new_message now db sid msg =
     \<lparr>mr_session_id = sid, mr_role = msg_role msg, mr_content = msg_content msg,
      mr_sequence = int (length (filter (\<lambda>m. mr_session_id m = sid) (db_messages db))), mr_created_at = now\<rparr>"

lemma pg_append_message_eq:
  assumes "pg_inv db" and "pg_append_message now db sid msg = Inr db'"
  shows "db' = touch_session now sid (db\<lparr>db_messages := db_messages db @ [pg_new_message now db sid msg]\<rparr>)"
  using assms(2) pg_next_sequence [OF assms(1), of sid]
  by (simp add: pg_append_message_def Let_def res_simps pg_new_message_def)

lemma pg_append_message_inv:
  assumes "pg_inv db" and "pg_append_message now db sid msg = Inr db'"
  shows "pg_inv db'"
  unfolding pg_append_message_eq [OF assms] pg_touch_inv
  using assms(1) by (auto simp: pg_inv_def pg_new_message_def)

section \<open>Steps of the in-memory store\<close>

text \<open>
  One transition per operation of the store, with the arguments its callers pass: a new session
  starts without approvals, and an approval is minted undecided.
\<close>

inductive store_step :: "store \<Rightarrow> store \<Rightarrow> bool" where
  step_put: "s_pending_approvals s = [] \<Longrightarrow> store_step st (store_put st s)"
| step_append: "append_message now st sid msg = Inr st' \<Longrightarrow> store_step st st'"
| step_add: "pa_status ap = ApPending \<Longrightarrow> pa_granted ap = None \<Longrightarrow>
    add_approval now st sid ap ttl = Inr st' \<Longrightarrow> store_step st st'"
| step_resolve: "resolve_approval now st sid aid g actor = Inr st' \<Longrightarrow> store_step st st'"
| step_expire: "store_step st (fst (expire_stale_approvals ts now st target))"

inductive store_reachable :: "store \<Rightarrow> bool" where
  reach_empty: "store_reachable []"
| reach_step: "store_reachable st \<Longrightarrow> store_step st st' \<Longrightarrow> store_reachable st'"

definition store_ok :: "store \<Rightarrow> bool" where
  "store_ok st \<longleftrightarrow> mem_inv st \<and> (\<forall>sid aid ap. mem_approval st sid aid = Some ap \<longrightarrow> approval_consistent ap)"

lemma store_ok_D:
  "store_ok st \<Longrightarrow> mem_inv st"
  "store_ok st \<Longrightarrow> mem_approval st sid aid = Some ap \<Longrightarrow> approval_consistent ap"
  by (simp_all add: store_ok_def)

lemma store_ok_put: "store_ok st \<Longrightarrow> s_pending_approvals s = [] \<Longrightarrow> store_ok (store_put st s)"
  by (auto simp: store_ok_def store_put_def mem_approval_update intro!: mem_inv_update split: if_splits)

lemma store_ok_append:
  assumes "store_ok st" "append_message now st sid msg = Inr st'"
  shows "store_ok st'"
proof -
  obtain sess where sess: "map_of st sid = Some sess"
    and st': "st' = AList.update sid (sess\<lparr>s_message_history := s_message_history sess @ [msg], s_updated_at := now\<rparr>) st"
    using assms(2) by (auto simp: append_message_def split: option.splits)
  have "mem_approval st' = mem_approval st"
    by (auto simp: fun_eq_iff st' mem_approval_update) (simp add: mem_approval_def sess)
  moreover have "mem_inv st'"
    using store_ok_D(1) [OF assms(1)] mem_inv_pending [OF store_ok_D(1) [OF assms(1)] sess]
    by (simp add: st' mem_inv_update)
  ultimately show ?thesis using assms(1) by (simp add: store_ok_def)
qed

lemma store_ok_add:
  assumes ok: "store_ok st" and p: "pa_status ap = ApPending" "pa_granted ap = None"
    and a: "add_approval now st sid ap ttl = Inr st'"
  shows "store_ok st'"
proof -
  have new: "mem_approval st' sid (pa_id ap) = Some (stamp_expiry ttl ap)"
    using a by (auto simp: add_approval_def Let_def mem_approval_update dict_simps split: option.splits)
  have old: "mem_approval st' sid' aid = mem_approval st sid' aid" if "(sid', aid) \<noteq> (sid, pa_id ap)" for sid' aid
    using a that by (auto simp: add_approval_def Let_def mem_approval_update dict_simps split: option.splits)
       (auto simp: mem_approval_def)
  have "approval_consistent x" if "mem_approval st' sid' aid = Some x" for sid' aid x
    using that new old [of sid' aid] p store_ok_D(2) [OF ok]
    by (cases "(sid', aid) = (sid, pa_id ap)") (auto simp: approval_consistent_def)
  with mem.add_inv [OF store_ok_D(1) [OF ok] a] show ?thesis by (simp add: store_ok_def)
qed

lemma store_ok_resolve:
  assumes ok: "store_ok st" and r: "resolve_approval now st sid aid g actor = Inr st'"
  shows "store_ok st'"
proof -
  note inv = store_ok_D(1) [OF ok]
  have "approval_consistent x" if "mem_approval st' sid' aid' = Some x" for sid' aid' x
    using that mem.resolve_get [OF inv r] mem.resolve_other [OF inv r, of sid' aid'] store_ok_D(2) [OF ok]
    by (cases "(sid', aid') = (sid, aid)") (auto simp: approval_consistent_resolved)
  with mem.resolve_inv [OF inv r] show ?thesis by (simp add: store_ok_def)
qed

lemma mem_expire_approval:
  assumes "mem_inv st"
  shows "mem_approval (fst (expire_stale_approvals ts now st target)) sid aid
    \<in> {mem_approval st sid aid, map_option (expired_if ts) (mem_approval st sid aid)}"
proof (cases rule: mem_expire_cases [of target st ts now])
  case (one sid0 sess)
  then show ?thesis
    using expire_session_pending [OF mem_inv_pending [OF assms one(2)], of ts now aid]
    by (auto simp: mem_approval_update) (simp add: mem_approval_def)
next
  case all
  then show ?thesis using mem.expire_all [OF assms]
    by (simp add: expire_stale_approvals_def)
qed

lemma store_ok_expire:
  assumes "store_ok st"
  shows "store_ok (fst (expire_stale_approvals ts now st target))"
proof -
  note inv = store_ok_D(1) [OF assms]
  have "approval_consistent x" if "mem_approval (fst (expire_stale_approvals ts now st target)) sid aid = Some x"
    for sid aid x
    using that mem_expire_approval [OF inv, of ts now target sid aid] store_ok_D(2) [OF assms]
    by (cases "mem_approval st sid aid") (auto simp: approval_consistent_expired_if)
  with mem.expire_inv [OF inv] show ?thesis by (simp add: store_ok_def)
qed

lemma store_step_ok: "store_step st st' \<Longrightarrow> store_ok st \<Longrightarrow> store_ok st'"
  by (induction rule: store_step.induct)
     (auto intro: store_ok_put store_ok_append store_ok_add store_ok_resolve store_ok_expire)

lemma store_ok_Nil: "store_ok []"
  by (simp add: store_ok_def mem_inv_def mem_approval_def)

lemma store_reachable_ok: "store_reachable st \<Longrightarrow> store_ok st"
  by (induction rule: store_reachable.induct) (auto intro: store_step_ok store_ok_Nil)

lemma approvals_map_get:
  "wf_dict (s_pending_approvals s) \<Longrightarrow>
     map_of (approvals_map s) aid = Option.bind (map_of (s_pending_approvals s) aid) pa_granted"
proof -
  have "wf_dict d \<Longrightarrow> map_of (List.map_filter (\<lambda>(ap_id, ap). map_option (\<lambda>g. (ap_id, g)) (pa_granted ap)) d) aid
      = Option.bind (map_of d aid) pa_granted" for d :: "(string, pending_approval) dict"
  proof (induction d)
    case (Cons x d)
    obtain k ap where x: "x = (k, ap)" by fastforce
    from Cons.prems have wf: "wf_dict d" and nk: "map_of d k = None"
      by (auto simp: wf_dict_def x map_of_eq_None_iff)
    show ?case using Cons.IH [OF wf] nk
      by (cases "pa_granted ap") (auto simp: x map_filter_simps)
  qed (simp add: map_filter_simps)
  then show "wf_dict (s_pending_approvals s) \<Longrightarrow> ?thesis" by (simp add: approvals_map_def)
qed

section \<open>Properties\<close>

text \<open>Claim C13. In every state the in-memory store can reach, the map a turn hands to the tool gate,
  \<^verbatim>\<open>Session.approvals_map()\<close>, holds \<open>True\<close> for an approval exactly when that approval is
  on record as granted and \<open>False\<close> exactly when it is on record as rejected: a pending or an
  expired approval is never in it.
\<close>

theorem approvals_map_is_decisions:
  assumes "store_reachable st" and "store_get st sid = Some sess"
  shows "map_of (approvals_map sess) aid = Some g \<longleftrightarrow>
    (\<exists>ap. map_of (s_pending_approvals sess) aid = Some ap
        \<and> pa_status ap = (if g then ApGranted else ApRejected))"
proof -
  from assms have ok: "store_ok st" and sess: "map_of st sid = Some sess"
    by (simp_all add: store_reachable_ok store_get_def)
  have wf: "wf_dict (s_pending_approvals sess)" by (rule mem_inv_pending [OF store_ok_D(1) [OF ok] sess])
  have "approval_consistent ap" if "map_of (s_pending_approvals sess) aid = Some ap" for ap
    using store_ok_D(2) [OF ok, of sid aid ap] that sess by (simp add: mem_approval_def)
  then show ?thesis
    by (cases "map_of (s_pending_approvals sess) aid")
       (auto simp: approvals_map_get [OF wf] approval_consistent_def split: approval_status.splits)
qed

definition demo_session :: session where
  "demo_session = \<lparr>s_id = ''s1'', s_tenant_id = ''t1'', s_actor_id = ''u1'', s_actor_kind = HUMAN,
     s_message_history = [], s_pending_approvals = [], s_sse_last_event_id = 0,
     s_sse_event_buffer = [], s_created_at = 0, s_updated_at = 0\<rparr>"

definition demo_approval :: pending_approval where
  "demo_approval = \<lparr>pa_id = ''a1'', pa_tool_name = ''issue_ticket'', pa_summary = ''x'', pa_turn_id = ''t'',
     pa_requested_at = 0, pa_granted = None, pa_resolved_at = None, pa_expires_at = None, pa_status = ApPending\<rparr>"

definition demo_store :: store where
  "demo_store = [(''s1'', demo_session\<lparr>s_pending_approvals := [(''a1'', stamp_expiry None demo_approval)]\<rparr>)]"

definition demo_granted :: store where
  "demo_granted = [(''s1'', demo_session\<lparr>s_pending_approvals :=
      [(''a1'', resolved 7 True (stamp_expiry None demo_approval))], s_updated_at := 7\<rparr>)]"

lemma demo_granted_reachable: "store_reachable demo_granted"
proof -
  have 1: "store_reachable [(''s1'', demo_session)]"
    using reach_step [OF reach_empty step_put [of demo_session]] by (simp add: demo_session_def store_put_def)
  have "add_approval 0 [(''s1'', demo_session)] ''s1'' demo_approval None = Inr demo_store"
    by (simp add: add_approval_def demo_store_def demo_session_def demo_approval_def stamp_expiry_def Let_def)
  from reach_step [OF 1 step_add [OF _ _ this]] have 2: "store_reachable demo_store"
    by (simp add: demo_approval_def)
  have "resolve_approval 7 demo_store ''s1'' ''a1'' True (Some ''t1'') = Inr demo_granted"
    by (simp add: resolve_approval_def demo_granted_def demo_store_def demo_session_def tenant_guard_def)
  from reach_step [OF 2 step_resolve [OF this]] show ?thesis .
qed

theorem approvals_map_is_decisions_witness:
  "map_of (approvals_map (snd (hd demo_granted))) ''a1'' = Some True"
proof -
  have "store_get demo_granted ''s1'' = Some (snd (hd demo_granted))"
    by (simp add: store_get_def demo_granted_def)
  from approvals_map_is_decisions [OF demo_granted_reachable this, of "''a1''" True] show ?thesis
    by (simp add: demo_granted_def resolved_def)
qed

text \<open>In both stores, resolving an approval on behalf of an actor of another tenant always fails, and
  a resolution that does succeed changes only the one approval it names.
\<close>

theorem resolve_respects_tenant:
  assumes "mem_inv st" "mem_tenant st sid = Some owner" "pg_inv db" "pg_tenant db sid = Some owner'"
    and "owner \<noteq> t" "owner' \<noteq> t"
  shows "(\<exists>e. resolve_approval now st sid aid g (Some t) = Inl e)
    \<and> (\<exists>e. pg_resolve_approval now db sid aid g (Some t) = Inl e)
    \<and> (\<forall>st' sid' aid'. resolve_approval now st sid aid g actor = Inr st' \<longrightarrow> (sid', aid') \<noteq> (sid, aid) \<longrightarrow>
         mem_approval st' sid' aid' = mem_approval st sid' aid')
    \<and> (\<forall>db' sid' aid'. pg_resolve_approval now db sid aid g actor = Inr db' \<longrightarrow> (sid', aid') \<noteq> (sid, aid) \<longrightarrow>
         pg_approval db' sid' aid' = pg_approval db sid' aid')"
proof (intro conjI allI impI)
  show "\<exists>e. resolve_approval now st sid aid g (Some t) = Inl e"
    by (rule mem.resolve_cross_tenant [OF assms(1,2,5)])
  show "\<exists>e. pg_resolve_approval now db sid aid g (Some t) = Inl e"
    by (rule pg.resolve_cross_tenant [OF assms(3,4,6)])
qed (rule mem.resolve_other [OF assms(1)] pg.resolve_other [OF assms(3)], assumption, assumption)+

definition demo_db :: pg_db where
  "demo_db = \<lparr>db_sessions = [(''s1'', \<lparr>sr_id = ''s1'', sr_tenant_id = ''t1'', sr_actor_id = None,
       sr_actor_kind = HUMAN, sr_title = None, sr_created_at = 0, sr_updated_at = 0\<rparr>)],
     db_messages = [], db_approvals = [(''a1'', pending_approval.extend (stamp_expiry None demo_approval)
       \<lparr>ar_session_id = ''s1'', ar_payload = None, ar_resolved_by_user_id = None\<rparr>)]\<rparr>"

lemma demo_db_inv: "pg_inv demo_db"
  by (simp add: pg_inv_def demo_db_def pending_approval.defs demo_approval_def wf_dict_def)

lemma demo_store_inv: "mem_inv demo_store"
  by (simp add: mem_inv_def demo_store_def wf_dict_def)

theorem resolve_respects_tenant_witness:
  "(\<exists>e. resolve_approval 5 demo_store ''s1'' ''a1'' True (Some ''t2'') = Inl e)
   \<and> (\<exists>e. pg_resolve_approval 5 demo_db ''s1'' ''a1'' True (Some ''t2'') = Inl e)"
proof -
  have "mem_tenant demo_store ''s1'' = Some ''t1''" "pg_tenant demo_db ''s1'' = Some ''t1''"
    by (simp_all add: mem_tenant_def pg_tenant_def demo_store_def demo_session_def demo_db_def)
  from resolve_respects_tenant [OF demo_store_inv this(1) demo_db_inv this(2), of "''t2''" 5 "''a1''" True None]
  show ?thesis by simp
qed

text \<open>The expiry sweep of one session flips exactly the approvals that are pending past their
  deadline, in both stores, leaves every decided approval and every other session alone, and its
  result counts the rows it flipped.
\<close>

theorem expiry_sweep_exact:
  assumes "mem_inv st" "store_get st sid = Some sess" "pg_inv db" "pg_tenant db sid \<noteq> None"
  shows "mem_approval (fst (expire_stale_approvals ts now st (Some sid))) sid' aid =
      (if sid' = sid then map_option (expired_if ts) (mem_approval st sid aid) else mem_approval st sid' aid)
    \<and> snd (expire_stale_approvals ts now st (Some sid))
        = length (filter (\<lambda>(k, ap). row_stale ts ap) (s_pending_approvals sess))
    \<and> pg_approval (fst (pg_expire_stale_approvals ts db (Some sid))) sid' aid =
      (if sid' = sid then map_option (expired_if ts) (pg_approval db sid aid) else pg_approval db sid' aid)
    \<and> snd (pg_expire_stale_approvals ts db (Some sid))
        = length (filter (\<lambda>(k, r). row_stale ts r \<and> ar_session_id r = sid) (db_approvals db))"
proof -
  have t: "mem_tenant st sid \<noteq> None" using assms(2) by (simp add: mem_tenant_def store_get_def)
  have "snd (expire_stale_approvals ts now st (Some sid)) = snd (expire_session ts now sess)"
    using assms(2) by (simp add: expire_stale_approvals_def store_get_def split: prod.splits)
  then show ?thesis
    using mem.expire_get [OF assms(1) t] mem.expire_other [OF assms(1) t]
    by (auto simp: expire_session_count pg_expire_get pg_expire_count)
qed

theorem expiry_sweep_exact_witness:
  "map_option pa_status (mem_approval (fst (expire_stale_approvals 900000000 0 demo_store (Some ''s1''))) ''s1'' ''a1'')
     = Some ApExpired
   \<and> map_option pa_status (pg_approval (fst (pg_expire_stale_approvals 900000000 demo_db (Some ''s1''))) ''s1'' ''a1'')
     = Some ApExpired"
proof -
  have g: "store_get demo_store ''s1'' = Some (snd (hd demo_store))"
    by (simp add: store_get_def demo_store_def)
  have t: "pg_tenant demo_db ''s1'' \<noteq> None" by (simp add: pg_tenant_def demo_db_def)
  have s: "row_stale 900000000 (stamp_expiry None demo_approval)"
    by (simp add: row_stale_def stamp_expiry_def demo_approval_def seconds_def DEFAULT_APPROVAL_TTL_SECONDS_def)
  show ?thesis
    using expiry_sweep_exact [OF demo_store_inv g demo_db_inv t, of 900000000 0 "''s1''" "''a1''"] s
    by (simp add: mem_approval_def demo_store_def pg_approval_def demo_db_def pg_of_row_extend expired_if_def)
       (simp add: pending_approval.defs)
qed

text \<open>A sweep named for a session the in-memory store does not hold sweeps every session of every
  tenant, where the Postgres store's sweep for an unknown session changes nothing.
\<close>

theorem unknown_session_sweeps_everything:
  assumes "store_get st sid = None" "pg_inv db" "pg_tenant db sid = None"
  shows "expire_stale_approvals ts now st (Some sid) = expire_stale_approvals ts now st None
    \<and> pg_approval (fst (pg_expire_stale_approvals ts db (Some sid))) = pg_approval db"
proof -
  have "pg_approval db sid aid = None" for aid
    using pg_inv_fk [OF assms(2), of aid] assms(3)
    by (auto simp: pg_approval_def pg_tenant_def split: option.splits)
  with assms(1) show ?thesis
    by (simp add: fun_eq_iff expire_stale_approvals_def store_get_def pg_expire_get)
qed

theorem unknown_session_sweeps_everything_witness:
  "map_option pa_status (mem_approval (fst (expire_stale_approvals 900000000 0 demo_store (Some ''nope''))) ''s1'' ''a1'')
     = Some ApExpired
   \<and> map_option pa_status (pg_approval (fst (pg_expire_stale_approvals 900000000 demo_db (Some ''nope''))) ''s1'' ''a1'')
     = Some ApPending"
proof -
  have g: "store_get demo_store ''nope'' = None" by (simp add: store_get_def demo_store_def)
  have t: "pg_tenant demo_db ''nope'' = None" by (simp add: pg_tenant_def demo_db_def)
  have s: "row_stale 900000000 (stamp_expiry None demo_approval)"
    by (simp add: row_stale_def stamp_expiry_def demo_approval_def seconds_def DEFAULT_APPROVAL_TTL_SECONDS_def)
  show ?thesis
    using unknown_session_sweeps_everything [OF g demo_db_inv t, of 900000000 0]
      mem.expire_all [OF demo_store_inv, of 900000000 0 "''s1''" "''a1''"] s
    by (simp add: mem_approval_def demo_store_def pg_approval_def demo_db_def pg_of_row_extend expired_if_def)
       (simp add: pending_approval.defs demo_approval_def)
qed

text \<open>Claim C35. Appending a message to the Postgres store gives the session that the in-memory store would
  give: the message comes last in the transcript read back, the clock is stamped, and every other
  session reads as before; the dense numbering of the message sequence is kept.
\<close>

theorem pg_append_refines_memory:
  assumes "pg_inv db" "pg_get db sid = Some s" "pg_append_message now db sid msg = Inr db'"
  shows "pg_inv db'
    \<and> map_option (\<lambda>st. map_of st sid) (case append_message now [(sid, s)] sid msg of Inl _ \<Rightarrow> None | Inr st \<Rightarrow> Some st)
        = Some (pg_get db' sid)
    \<and> (sid' \<noteq> sid \<longrightarrow> pg_get db' sid' = pg_get db sid')"
proof -
  note inv' = pg_append_message_inv [OF assms(1,3)]
  note eq = pg_append_message_eq [OF assms(1,3)]
  have msgs: "pg_session_messages db' x = pg_session_messages db x @ (if x = sid then [pg_new_message now db sid msg] else [])"
    for x using assms(1) inv' by (simp add: pg_messages_sorted) (simp add: eq pg_new_message_def)
  have aps: "pg_session_approvals db' = pg_session_approvals db"
    by (simp add: fun_eq_iff pg_session_approvals_def eq)
  have sess: "map_of (db_sessions db') x
      = map_option (\<lambda>r. if x = sid then r\<lparr>sr_updated_at := now\<rparr> else r) (map_of (db_sessions db) x)" for x
    by (simp add: eq)
  have new: "pg_message_of_row (pg_new_message now db sid msg) = msg"
    by (simp add: pg_message_of_row_def pg_new_message_def)
  show ?thesis
    using inv' assms(2)
    by (auto simp: pg_get_def sess msgs aps new append_message_def split: option.splits)
qed

theorem pg_append_refines_memory_witness:
  "\<exists>db'. pg_append_message 3 demo_db ''s1'' \<lparr>msg_role = RoleUser, msg_content = [TextBlock ''hi'']\<rparr> = Inr db'
     \<and> map_option (length \<circ> s_message_history) (pg_get db' ''s1'') = Some 1"
proof -
  let ?m = "\<lparr>msg_role = RoleUser, msg_content = [TextBlock ''hi'']\<rparr>"
  obtain db' where a: "pg_append_message 3 demo_db ''s1'' ?m = Inr db'"
    by (simp add: pg_append_message_def demo_db_def)
  obtain s where s: "pg_get demo_db ''s1'' = Some s" "s_message_history s = []"
    by (simp add: pg_get_def demo_db_def pg_session_messages_def)
  from pg_append_refines_memory [OF demo_db_inv s(1) a, of "''s2''"] s(2)
  have "Some (s\<lparr>s_message_history := [?m], s_updated_at := 3\<rparr>) = pg_get db' ''s1''"
    by (simp add: append_message_def)
  with a show ?thesis by (auto simp flip: \<open>Some _ = _\<close>)
qed

end
