(* ===== verification/Tool_Runtime.thy ===== *)
theory Tool_Runtime
  imports Session_Store
begin

unbundle bit_operations_syntax

text \<open>
  The tool runtime of \<^verbatim>\<open>services/agent_runtime/.../tools.py\<close>: the registry, the approval
  gate, the audit trail and the single entry point \<^verbatim>\<open>invoke_tool\<close>.

  A handler acts on the outside world, whose state has a type of its own (\<open>'w\<close>); the audit sink
  is the protocol's \<^verbatim>\<open>write\<close> on a sink state \<open>'a\<close>. JSON-schema validation belongs to a
  third-party package and is a field of the environment, as are the per-tool summary renderers.
  Of \<^verbatim>\<open>ToolContext.extensions\<close> the model keeps the one key the runtime itself writes.
\<close>

section \<open>Models\<close>

datatype tool_domain = TicketingVisa | HotelsHolidays | Accounting | CrossCutting

datatype audit_status = STARTED | SUCCEEDED | FAILED | REJECTED | CANCELLED

type_synonym obj = "(string \<times> json) list"

record audit_event =
  ae_id :: string
  ae_tenant_id :: string
  ae_actor_id :: string
  ae_actor_kind :: actor_kind
  ae_tool :: string
  ae_inputs :: obj
  ae_outputs :: obj
  ae_error :: "string option"
  ae_approval_required :: bool
  ae_approved_by :: "string option"
  ae_approved_at :: "int option"
  ae_started_at :: int
  ae_completed_at :: "int option"
  ae_status :: audit_status

record tool_spec =
  ts_name :: string
  ts_description :: string
  ts_input_schema :: json
  ts_output_schema :: "(string \<times> (obj \<Rightarrow> string option)) option"
  ts_side_effect :: bool
  ts_reversible :: bool
  ts_approval_required :: bool
  ts_approval_roles :: "string list"
  ts_domain :: tool_domain

record tool_context =
  ctx_tenant_id :: string
  ctx_actor_id :: string
  ctx_actor_kind :: actor_kind
  ctx_session_id :: string
  ctx_turn_id :: string
  ctx_actor_role :: string
  ctx_approvals :: "(string, bool) dict"
  ctx_last_output_validation_error :: "string option"

datatype handler_result =
    HReturn obj
  | HDriverError (he_class: string) (he_message: string)
  | HException (he_class: string) (he_message: string)

type_synonym 'w handler = "obj \<Rightarrow> tool_context \<Rightarrow> 'w \<Rightarrow> handler_result \<times> 'w"

record 'w tool =
  tool_spec :: tool_spec
  tool_handler :: "'w handler"

datatype outcome_kind = Success | Error | ApprovalNeeded | PermissionDenied

record tool_outcome =
  oc_kind :: outcome_kind
  oc_output :: "obj option"
  oc_error_message :: "string option"
  oc_message :: "string option"
  oc_approval_id :: "string option"
  oc_approval_summary :: "string option"
  oc_audit_id :: "string option"

definition outcome :: "outcome_kind \<Rightarrow> tool_outcome" where
  "outcome k = \<lparr>oc_kind = k, oc_output = None, oc_error_message = None, oc_message = None,
     oc_approval_id = None, oc_approval_summary = None, oc_audit_id = None\<rparr>"

text \<open>The models are declared with \<^verbatim>\<open>str_strip_whitespace\<close>: a text field is stored stripped.\<close>

definition text_field :: "string \<Rightarrow> string option" where
  "text_field s = Some (py_strip s)"

section \<open>Registry\<close>

type_synonym 'w registry = "(string, 'w tool) dict"

definition register_tool :: "tool_spec \<Rightarrow> 'w handler \<Rightarrow> 'w registry \<Rightarrow> string + 'w registry" where
  "register_tool spec h reg =
     (if map_of reg (ts_name spec) \<noteq> None
      then Inl (''Tool '' @ repr_str (ts_name spec) @ '' is already registered.'')
      else Inr (AList.update (ts_name spec) \<lparr>tool_spec = spec, tool_handler = h\<rparr> reg))"

definition clear_registry :: "'w registry \<Rightarrow> 'w registry" where
  "clear_registry reg = []"

definition get_tool :: "'w registry \<Rightarrow> string \<Rightarrow> string + 'w tool" where
  "get_tool reg name =
     (case map_of reg name of
        Some t \<Rightarrow> Inr t
      | None \<Rightarrow> Inl (repr_str (''No tool registered as '' @ repr_str name @ ''.'')))"

definition list_tools :: "'w registry \<Rightarrow> tool_domain option \<Rightarrow> 'w tool list" where
  "list_tools reg tdom =
     (case tdom of
        None \<Rightarrow> dict_values reg
      | Some d \<Rightarrow> filter (\<lambda>t. ts_domain (tool_spec t) = d) (dict_values reg))"

fun wanted_tools :: "'w registry \<Rightarrow> string list \<Rightarrow> (string, 'w tool) dict \<Rightarrow> (string, 'w tool) dict" where
  "wanted_tools reg [] acc = acc"
| "wanted_tools reg (n # ns) acc =
     wanted_tools reg ns (case map_of reg n of None \<Rightarrow> acc | Some t \<Rightarrow> AList.update n t acc)"

definition anthropic_tool_defs ::
  "'w registry \<Rightarrow> tool_domain option \<Rightarrow> string list option \<Rightarrow> (string \<times> string \<times> json) list" where
  "anthropic_tool_defs reg tdom names =
     (let source = (case names of
          Some ns \<Rightarrow> dict_values (wanted_tools reg ns [])
        | None \<Rightarrow> list_tools reg tdom)
      in map (\<lambda>t. (ts_name (tool_spec t), ts_description (tool_spec t), ts_input_schema (tool_spec t))) source)"

section \<open>Identifiers and summaries\<close>

definition uuid7_like_int :: "uuid_int \<Rightarrow> uuid_int" where
  "uuid7_like_int raw =
     (let r1 = raw AND NOT (push_bit 76 15);
          r2 = r1 OR push_bit 76 7;
          r3 = r2 AND NOT (push_bit 62 12)
      in r3 OR push_bit 62 8)"

definition uuid7_like :: "uuid_int \<Rightarrow> string" where
  "uuid7_like raw = uuid_str (uuid7_like_int raw)"

definition approval_id_for :: "string \<Rightarrow> string \<Rightarrow> string" where
  "approval_id_for turn_id tool_name = ''ap-'' @ turn_id @ ''-'' @ tool_name"

type_synonym summary_fns = "(string, obj \<Rightarrow> string option) dict"

definition register_approval_summary :: "string \<Rightarrow> (obj \<Rightarrow> string option) \<Rightarrow> summary_fns \<Rightarrow> summary_fns" where
  "register_approval_summary name fn fns = AList.update name fn fns"

definition default_summary :: "string \<Rightarrow> obj \<Rightarrow> string" where
  "default_summary name inp =
     ''Approve tool `'' @ name @ ''` with ''
       @ join_with '', '' (map (\<lambda>(k, v). k @ ''='' @ repr_json v) (take 3 inp)) @ ''?''"

text \<open>A renderer that raises (\<open>None\<close>) falls back to the default sentence.\<close>

definition summary_for :: "summary_fns \<Rightarrow> string \<Rightarrow> obj \<Rightarrow> string" where
  "summary_for fns name inp =
     (case map_of fns name of
        Some f \<Rightarrow> (case f inp of Some s \<Rightarrow> s | None \<Rightarrow> default_summary name inp)
      | None \<Rightarrow> default_summary name inp)"

definition jsonable :: "obj \<Rightarrow> obj" where
  "jsonable kvs = map (\<lambda>(k, v). (k, case v of JFloat t \<Rightarrow> JStr t | _ \<Rightarrow> v)) kvs"

section \<open>Running a handler under its output schema\<close>

datatype run_result = RunOk obj | RunInvalid string nat | RunRaised string string

function run_validated ::
  "'w handler \<Rightarrow> (string \<times> (obj \<Rightarrow> string option)) option \<Rightarrow> obj \<Rightarrow> nat \<Rightarrow> nat \<Rightarrow>
   tool_context \<Rightarrow> 'w \<Rightarrow> run_result \<times> tool_context \<times> 'w" where
  "run_validated h schema inp max_attempts attempts ctx w =
     (let n = Suc attempts; (res, w') = h inp ctx w in
      case res of
        HDriverError c m \<Rightarrow> (RunRaised c m, ctx, w')
      | HException c m \<Rightarrow> (RunRaised c m, ctx, w')
      | HReturn out \<Rightarrow>
          (case schema of
             None \<Rightarrow> (RunOk out, ctx, w')
           | Some (_, check) \<Rightarrow>
               (case check out of
                  None \<Rightarrow> (RunOk out, ctx, w')
                | Some err \<Rightarrow>
                    if n \<ge> max_attempts then (RunInvalid err n, ctx, w')
                    else run_validated h schema inp max_attempts n
                           (ctx\<lparr>ctx_last_output_validation_error := Some err\<rparr>) w')))"
  by pat_completeness auto
termination
  by (relation "measure (\<lambda>(h, schema, inp, mx, n, ctx, w). mx - n)") auto

declare run_validated.simps [simp del]

section \<open>invoke_tool\<close>

record ('a, 'w) tool_env =
  te_registry :: "'w registry"
  te_validate :: "json \<Rightarrow> obj \<Rightarrow> string option"
  te_summary_fns :: summary_fns
  te_write :: "audit_event \<Rightarrow> 'a \<Rightarrow> 'a"

definition max_validation_attempts :: "tool_spec \<Rightarrow> nat" where
  "max_validation_attempts spec = (if ts_output_schema spec \<noteq> None then 2 else 1)"

definition base_audit :: "string \<Rightarrow> tool_context \<Rightarrow> string \<Rightarrow> obj \<Rightarrow> int \<Rightarrow> audit_event" where
  "base_audit audit_id ctx name inp started =
     \<lparr>ae_id = audit_id, ae_tenant_id = ctx_tenant_id ctx, ae_actor_id = ctx_actor_id ctx,
      ae_actor_kind = ctx_actor_kind ctx, ae_tool = name, ae_inputs = jsonable inp, ae_outputs = [],
      ae_error = None, ae_approval_required = False, ae_approved_by = None, ae_approved_at = None,
      ae_started_at = started, ae_completed_at = None, ae_status = STARTED\<rparr>"

definition role_denied :: "tool_spec \<Rightarrow> tool_context \<Rightarrow> bool" where
  "role_denied spec ctx \<longleftrightarrow> ts_approval_required spec \<and> ts_approval_roles spec \<noteq> []
     \<and> ctx_actor_role ctx \<notin> set (ts_approval_roles spec)"

definition roles_text :: "tool_spec \<Rightarrow> tool_context \<Rightarrow> string" where
  "roles_text spec ctx =
     ''role '' @ repr_str (ctx_actor_role ctx) @ '' not in approval_roles=''
       @ repr_str_list (ts_approval_roles spec)"

text \<open>The audited execution, step 4 of \<^verbatim>\<open>invoke_tool\<close>.\<close>

definition run_with_audit ::
  "('a, 'w) tool_env \<Rightarrow> string \<Rightarrow> int \<Rightarrow> int \<Rightarrow> int \<Rightarrow> 'w tool \<Rightarrow> string \<Rightarrow> obj \<Rightarrow> tool_context \<Rightarrow>
   'a \<Rightarrow> 'w \<Rightarrow> tool_outcome \<times> tool_context \<times> 'a \<times> 'w" where
  "run_with_audit env audit_id now_approved now_started now_done entry name inp ctx sink w =
     (let spec = tool_spec entry;
          audit = (base_audit audit_id ctx name inp now_started)
            \<lparr>ae_approval_required := ts_approval_required spec,
             ae_approved_by := (if ts_approval_required spec then Some (ctx_actor_id ctx) else None),
             ae_approved_at := (if ts_approval_required spec then Some now_approved else None)\<rparr>;
          sink1 = (if ts_side_effect spec then te_write env audit sink else sink);
          aid = (if ts_side_effect spec then Some audit_id else None);
          (res, ctx', w') = run_validated (tool_handler entry) (ts_output_schema spec) inp
             (max_validation_attempts spec) 0 ctx w;
          close = (\<lambda>ev. if ts_side_effect spec then te_write env (ev\<lparr>ae_completed_at := Some now_done\<rparr>) sink1 else sink1)
      in case res of
           RunRaised c m \<Rightarrow>
             ((outcome Error)\<lparr>oc_error_message := text_field (c @ '': '' @ m), oc_audit_id := aid\<rparr>, ctx',
              close (audit\<lparr>ae_status := FAILED, ae_error := text_field (c @ '': '' @ m)\<rparr>), w')
         | RunInvalid err n \<Rightarrow>
             ((outcome Error)\<lparr>oc_error_message := text_field (''tool_output_invalid: '' @ repr_str name
                 @ '' returned a payload that did not match ''
                 @ (case ts_output_schema spec of Some (cls, _) \<Rightarrow> repr_str cls | None \<Rightarrow> '''')
                 @ '' after '' @ show_nat n @ '' attempt(s): '' @ err), oc_audit_id := aid\<rparr>, ctx',
              close (audit\<lparr>ae_status := FAILED, ae_error := text_field (''tool_output_invalid: '' @ err)\<rparr>), w')
         | RunOk out \<Rightarrow>
             ((outcome Success)\<lparr>oc_output := Some out, oc_audit_id := aid\<rparr>, ctx',
              close (audit\<lparr>ae_status := SUCCEEDED, ae_outputs := jsonable out\<rparr>), w'))"

definition invoke_tool ::
  "('a, 'w) tool_env \<Rightarrow> string \<Rightarrow> int \<Rightarrow> int \<Rightarrow> int \<Rightarrow> string \<Rightarrow> obj \<Rightarrow> tool_context \<Rightarrow>
   'a \<Rightarrow> 'w \<Rightarrow> tool_outcome \<times> tool_context \<times> 'a \<times> 'w" where
  "invoke_tool env audit_id now0 now1 now2 name inp ctx sink w =
     (case get_tool (te_registry env) name of
        Inl msg \<Rightarrow> ((outcome Error)\<lparr>oc_error_message := Some msg\<rparr>, ctx, sink, w)
      | Inr entry \<Rightarrow>
          let spec = tool_spec entry; approval_id = approval_id_for (ctx_turn_id ctx) name in
          case te_validate env (ts_input_schema spec) inp of
            Some msg \<Rightarrow>
              ((outcome Error)\<lparr>oc_error_message :=
                  text_field (''Input validation failed for '' @ repr_str name @ '': '' @ msg)\<rparr>, ctx, sink, w)
          | None \<Rightarrow>
              if role_denied spec ctx then
                let audit = (base_audit audit_id ctx name inp now0)
                      \<lparr>ae_approval_required := True, ae_completed_at := Some now0, ae_status := REJECTED,
                       ae_error := text_field (''permission_denied: '' @ roles_text spec ctx)\<rparr>
                in ((outcome PermissionDenied)\<lparr>oc_message := text_field (roles_text spec ctx),
                      oc_error_message := text_field (''Role '' @ repr_str (ctx_actor_role ctx)
                        @ '' is not permitted to invoke tool '' @ repr_str name @ ''.''),
                      oc_audit_id := Some audit_id\<rparr>, ctx, te_write env audit sink, w)
              else if ts_side_effect spec \<and> ts_approval_required spec then
                (case map_of (ctx_approvals ctx) approval_id of
                   None \<Rightarrow>
                     ((outcome ApprovalNeeded)\<lparr>oc_approval_id := Some approval_id,
                        oc_approval_summary := text_field (summary_for (te_summary_fns env) name inp)\<rparr>, ctx, sink, w)
                 | Some False \<Rightarrow>
                     let audit = (base_audit audit_id ctx name inp now0)
                           \<lparr>ae_approval_required := True, ae_completed_at := Some now0, ae_status := REJECTED\<rparr>
                     in ((outcome Error)\<lparr>oc_error_message := text_field (''Approval denied for tool '' @ repr_str name @ ''.''),
                           oc_audit_id := Some audit_id\<rparr>, ctx, te_write env audit sink, w)
                 | Some True \<Rightarrow> run_with_audit env audit_id now0 now1 now2 entry name inp ctx sink w)
              else run_with_audit env audit_id now0 now1 now2 entry name inp ctx sink w)"

section \<open>Audit sinks\<close>

definition mem_write :: "audit_event \<Rightarrow> audit_event list \<Rightarrow> audit_event list" where
  "mem_write ev evs = evs @ [ev]"

text \<open>\<^verbatim>\<open>PostgresAuditSink.write\<close>: insert, or update the columns a closing event may change.\<close>

definition pg_write :: "audit_event \<Rightarrow> (string, audit_event) dict \<Rightarrow> (string, audit_event) dict" where
  "pg_write ev rows =
     (case map_of rows (ae_id ev) of
        None \<Rightarrow> AList.update (ae_id ev) ev rows
      | Some existing \<Rightarrow> AList.update (ae_id ev)
          (existing\<lparr>ae_outputs := ae_outputs ev, ae_error := ae_error ev, ae_completed_at := ae_completed_at ev,
             ae_status := ae_status ev, ae_approved_by := ae_approved_by ev, ae_approved_at := ae_approved_at ev\<rparr>) rows)"

section \<open>What a sink promises\<close>

text \<open>Two events of one call: the same identity, a later state.\<close>

definition same_call :: "audit_event \<Rightarrow> audit_event \<Rightarrow> bool" where
  "same_call a b \<longleftrightarrow> ae_id a = ae_id b \<and> ae_tenant_id a = ae_tenant_id b \<and> ae_actor_id a = ae_actor_id b
     \<and> ae_actor_kind a = ae_actor_kind b \<and> ae_tool a = ae_tool b \<and> ae_inputs a = ae_inputs b
     \<and> ae_approval_required a = ae_approval_required b \<and> ae_started_at a = ae_started_at b"

locale audit_sink =
  fixes put :: "audit_event \<Rightarrow> 'a \<Rightarrow> 'a"
    and row :: "'a \<Rightarrow> string \<Rightarrow> audit_event option"
  assumes write_new: "row s (ae_id ev) = None \<Longrightarrow> row (put ev s) (ae_id ev) = Some ev"
    and write_close: "row s (ae_id ev) = Some ev0 \<Longrightarrow> same_call ev0 ev \<Longrightarrow> row (put ev s) (ae_id ev) = Some ev"
    and write_other: "k \<noteq> ae_id ev \<Longrightarrow> row (put ev s) k = row s k"
begin

lemma run_leaves_closed_row:
  assumes w: "te_write env = put" and fresh: "row sink audit_id = None"
    and se: "ts_side_effect (tool_spec entry)"
    and run: "run_with_audit env audit_id n0 n1 n2 entry name inp ctx sink w = (out, ctx', sink', w')"
  shows "\<exists>ev. row sink' audit_id = Some ev \<and> ae_tool ev = name \<and> ae_completed_at ev = Some n2
      \<and> ae_status ev = (if oc_kind out = Success then SUCCEEDED else FAILED)"
    and "k \<noteq> audit_id \<Longrightarrow> row sink' k = row sink k"
proof -
  define audit where "audit = (base_audit audit_id ctx name inp n1)
            \<lparr>ae_approval_required := ts_approval_required (tool_spec entry),
             ae_approved_by := (if ts_approval_required (tool_spec entry) then Some (ctx_actor_id ctx) else None),
             ae_approved_at := (if ts_approval_required (tool_spec entry) then Some n0 else None)\<rparr>"
  have id: "ae_id audit = audit_id" "ae_tool audit = name" by (simp_all add: audit_def base_audit_def)
  have open_row: "row (put audit sink) audit_id = Some audit"
    using write_new [of sink audit] fresh id by simp
  have out_eq: "\<exists>ev. sink' = put ev (put audit sink) \<and> same_call audit ev \<and> ae_completed_at ev = Some n2
      \<and> ae_status ev = (if oc_kind out = Success then SUCCEEDED else FAILED)"
    using run se w unfolding run_with_audit_def Let_def audit_def [symmetric]
    by (auto simp: same_call_def outcome_def split: prod.splits run_result.splits)
  then obtain ev where ev: "sink' = put ev (put audit sink)" "same_call audit ev"
    "ae_completed_at ev = Some n2" "ae_status ev = (if oc_kind out = Success then SUCCEEDED else FAILED)" by blast
  have ev_id: "ae_id ev = audit_id" "ae_tool ev = name" using ev(2) id by (auto simp: same_call_def)
  have "row sink' audit_id = Some ev"
    using write_close [of "put audit sink" ev audit] open_row ev(1,2) ev_id by simp
  with ev ev_id show "\<exists>ev. row sink' audit_id = Some ev \<and> ae_tool ev = name \<and> ae_completed_at ev = Some n2
      \<and> ae_status ev = (if oc_kind out = Success then SUCCEEDED else FAILED)" by blast
  show "row sink' k = row sink k" if "k \<noteq> audit_id"
    using that ev(1) ev_id id by (simp add: write_other)
qed

end

definition mem_row :: "audit_event list \<Rightarrow> string \<Rightarrow> audit_event option" where
  "mem_row evs k = find (\<lambda>ev. ae_id ev = k) (rev evs)"

interpretation memsink: audit_sink mem_write mem_row
  by unfold_locales (auto simp: mem_row_def mem_write_def)

interpretation pgsink: audit_sink pg_write map_of
  by unfold_locales (auto simp: pg_write_def dict_simps same_call_def split: option.splits)

section \<open>The gate\<close>

definition gate_open :: "tool_spec \<Rightarrow> tool_context \<Rightarrow> string \<Rightarrow> bool" where
  "gate_open spec ctx name \<longleftrightarrow> \<not> role_denied spec ctx
     \<and> (ts_side_effect spec \<and> ts_approval_required spec \<longrightarrow>
          map_of (ctx_approvals ctx) (approval_id_for (ctx_turn_id ctx) name) = Some True)"

lemma outcome_sel [simp]:
  "oc_kind (outcome k) = k" "oc_audit_id (outcome k) = None" "oc_output (outcome k) = None"
  by (simp_all add: outcome_def)

text \<open>Either the gate closed, and the world and the context are as before, or the audited run happened.\<close>

lemma invoke_tool_cases:
  assumes "invoke_tool env audit_id n0 n1 n2 name inp ctx sink w = (out, ctx', sink', w')"
  obtains (unknown) "map_of (te_registry env) name = None" "oc_kind out = Error" "oc_audit_id out = None"
      "ctx' = ctx" "sink' = sink" "w' = w"
  | (invalid) entry where "map_of (te_registry env) name = Some entry"
      "te_validate env (ts_input_schema (tool_spec entry)) inp \<noteq> None"
      "oc_kind out = Error" "oc_audit_id out = None" "ctx' = ctx" "sink' = sink" "w' = w"
  | (waiting) entry where "map_of (te_registry env) name = Some entry"
      "\<not> role_denied (tool_spec entry) ctx" "ts_side_effect (tool_spec entry)" "ts_approval_required (tool_spec entry)"
      "map_of (ctx_approvals ctx) (approval_id_for (ctx_turn_id ctx) name) = None"
      "oc_kind out = ApprovalNeeded" "oc_audit_id out = None"
      "oc_approval_id out = Some (approval_id_for (ctx_turn_id ctx) name)" "ctx' = ctx" "sink' = sink" "w' = w"
  | (refused) entry ev where "map_of (te_registry env) name = Some entry" "\<not> gate_open (tool_spec entry) ctx name"
      "oc_kind out = (if role_denied (tool_spec entry) ctx then PermissionDenied else Error)"
      "oc_audit_id out = Some audit_id" "sink' = te_write env ev sink" "same_call (base_audit audit_id ctx name inp n0
         \<lparr>ae_approval_required := True\<rparr>) ev" "ae_status ev = REJECTED" "ae_completed_at ev = Some n0" "ctx' = ctx" "w' = w"
  | (ran) entry where "map_of (te_registry env) name = Some entry" "gate_open (tool_spec entry) ctx name"
      "te_validate env (ts_input_schema (tool_spec entry)) inp = None"
      "run_with_audit env audit_id n0 n1 n2 entry name inp ctx sink w = (out, ctx', sink', w')"
proof (cases "map_of (te_registry env) name")
  case None
  with assms show thesis by (intro unknown) (auto simp: invoke_tool_def get_tool_def)
next
  case (Some entry)
  note entry = this
  show thesis
  proof (cases "te_validate env (ts_input_schema (tool_spec entry)) inp")
    case (Some msg)
    with assms entry show thesis by (intro invalid [of entry]) (auto simp: invoke_tool_def get_tool_def Let_def)
  next
    case None
    note valid = this
    show thesis
    proof (cases "role_denied (tool_spec entry) ctx")
      case True
      with assms entry valid show thesis
        by (intro refused [of entry]) (auto simp: invoke_tool_def get_tool_def Let_def gate_open_def same_call_def)
    next
      case False
      note role = this
      show thesis
      proof (cases "ts_side_effect (tool_spec entry) \<and> ts_approval_required (tool_spec entry)")
        case True
        note gated = this
        consider "map_of (ctx_approvals ctx) (approval_id_for (ctx_turn_id ctx) name) = None"
          | "map_of (ctx_approvals ctx) (approval_id_for (ctx_turn_id ctx) name) = Some False"
          | "map_of (ctx_approvals ctx) (approval_id_for (ctx_turn_id ctx) name) = Some True"
          by (metis (full_types) option.exhaust)
        then show thesis
        proof cases
          case 1
          with assms entry valid role gated show thesis
            by (intro waiting [of entry]) (auto simp: invoke_tool_def get_tool_def Let_def)
        next
          case 2
          with assms entry valid role gated show thesis
            by (intro refused [of entry]) (auto simp: invoke_tool_def get_tool_def Let_def gate_open_def same_call_def)
        next
          case 3
          with assms entry valid role gated show thesis
            by (intro ran [of entry]) (auto simp: invoke_tool_def get_tool_def Let_def gate_open_def)
        qed
      next
        case False
        with assms entry valid role show thesis
          by (intro ran [of entry]) (auto simp: invoke_tool_def get_tool_def Let_def gate_open_def)
      qed
    qed
  qed
qed

section \<open>Counting handler executions\<close>

text \<open>A handler that also counts its executions, on a world that carries the counter.\<close>

definition counting :: "'w handler \<Rightarrow> ('w \<times> nat) handler" where
  "counting h inp ctx wn = (let (r, w') = h inp ctx (fst wn) in (r, (w', Suc (snd wn))))"

lemma counting_step: "counting h inp ctx wn = (r, wn') \<Longrightarrow> snd wn' = Suc (snd wn)"
  by (auto simp: counting_def split: prod.splits)

lemma run_validated_count:
  assumes "run_validated h schema inp mx n ctx wk = (res, ctx', wk')"
    and "\<And>inp ctx wk r wk'. h inp ctx wk = (r, wk') \<Longrightarrow> snd wk' = Suc (snd wk)"
  shows "snd wk < snd wk' \<and> snd wk' \<le> snd wk + max 1 (mx - n)"
  using assms
proof (induction h schema inp mx n ctx wk rule: run_validated.induct)
  case (1 h schema inp mx n ctx wk)
  obtain r w1 where hr: "h inp ctx wk = (r, w1)" by (cases "h inp ctx wk")
  have w1: "snd w1 = Suc (snd wk)" by (rule "1.prems"(2) [OF hr])
  show ?case
  proof (cases "\<exists>out cls check err. r = HReturn out \<and> schema = Some (cls, check) \<and> check out = Some err \<and> \<not> mx \<le> Suc n")
    case True
    then obtain out cls check err where t: "r = HReturn out" "schema = Some (cls, check)" "check out = Some err"
      "\<not> mx \<le> Suc n" by blast
    with "1.prems"(1) hr have "run_validated h schema inp mx (Suc n)
        (ctx\<lparr>ctx_last_output_validation_error := Some err\<rparr>) w1 = (res, ctx', wk')"
      by (subst (asm) run_validated.simps) simp
    from "1.IH" [OF refl hr [symmetric] refl t(1,2) refl t(3) _ this "1.prems"(2)] t(4)
    have "snd w1 < snd wk' \<and> snd wk' \<le> snd w1 + max 1 (mx - Suc n)" by simp
    with w1 t(4) show ?thesis by auto
  next
    case False
    with "1.prems"(1) hr have "wk' = w1"
      by (auto simp: run_validated.simps [of h schema inp mx n ctx wk] Let_def
            split: handler_result.splits option.splits if_splits prod.splits)
    with w1 show ?thesis by simp
  qed
qed

lemma run_with_audit_world:
  assumes "run_with_audit env aid n0 n1 n2 entry name inp ctx sink w = (out, ctx', sink', w')"
  shows "\<exists>res. run_validated (tool_handler entry) (ts_output_schema (tool_spec entry)) inp
      (max_validation_attempts (tool_spec entry)) 0 ctx w = (res, ctx', w')
      \<and> (oc_kind out = Success \<longleftrightarrow> (\<exists>o'. res = RunOk o' \<and> oc_output out = Some o'))"
  using assms unfolding run_with_audit_def Let_def
  by (auto split: prod.splits run_result.splits)

section \<open>Identifiers\<close>

lemma nibble_bits:
  "nibble w k = (\<Sum>i<4. of_bool (bit w (4 * k + i)) * 2 ^ i)"
proof -
  have m: "(15 :: uuid_int) = mask 4" by (simp add: mask_eq_exp_minus_1)
  have "nibble w k = take_bit 4 (drop_bit (4 * k) (unat w))"
    by (simp add: nibble_def m unat_drop_bit_eq unsigned_take_bit_eq flip: take_bit_eq_mask)
  also have "\<dots> = horner_sum of_bool 2 (map (bit (drop_bit (4 * k) (unat w))) [0..<4])"
    by (simp only: horner_sum_bit_eq_take_bit)
  also have "\<dots> = (\<Sum>i<4. of_bool (bit w (4 * k + i)) * 2 ^ i)"
    by (simp add: bit_drop_bit_eq bit_unsigned_iff lessThan_Suc numeral_eq_Suc upt_rec algebra_simps)
  finally show ?thesis .
qed

lemma nibble_bits4:
  "nibble w k = of_bool (bit w (4 * k)) + 2 * of_bool (bit w (4 * k + 1))
     + 4 * of_bool (bit w (4 * k + 2)) + 8 * of_bool (bit w (4 * k + 3))"
proof -
  have "{..<4} = {0, 1, 2, 3 :: nat}" by auto
  then show ?thesis by (simp add: nibble_bits)
qed

lemma nibble_less: "nibble w k < 16"
  by (simp add: nibble_bits4 of_bool_def)

lemma bit_uuid7_like:
  "bit (uuid7_like_int raw) i =
     (i < 128 \<and> (i = 65 \<or> i \<in> {76, 77, 78} \<or> (bit raw i \<and> i \<notin> {64, 65, 76, 77, 78, 79})))"
proof -
  have c: "(15 :: uuid_int) = mask 4" "(7 :: uuid_int) = mask 3" "(12 :: uuid_int) = push_bit 2 (mask 2)"
    "(8 :: uuid_int) = push_bit 3 (mask 1)"
    by (simp_all add: mask_eq_exp_minus_1 push_bit_eq_mult)
  have p: "bit (push_bit n (mask m) :: uuid_int) j \<longleftrightarrow> j < 128 \<and> n \<le> j \<and> j < n + m" for n m j
    by (auto simp: bit_push_bit_iff bit_mask_iff)
  have l: "bit raw i \<Longrightarrow> i < 128" by (drule bit_imp_le_length) simp
  define A B C D :: uuid_int where "A = push_bit 76 (mask 4)" and "B = push_bit 76 (mask 3)"
    and "C = push_bit (62 + 2) (mask 2)" and "D = push_bit (62 + 3) (mask 1)"
  have abcd: "bit A j \<longleftrightarrow> j < 128 \<and> 76 \<le> j \<and> j < 80" "bit B j \<longleftrightarrow> j < 128 \<and> 76 \<le> j \<and> j < 79"
    "bit C j \<longleftrightarrow> j < 128 \<and> 64 \<le> j \<and> j < 66" "bit D j \<longleftrightarrow> j < 128 \<and> 65 \<le> j \<and> j < 66" for j
    unfolding A_def B_def C_def D_def p by auto
  show ?thesis
    unfolding uuid7_like_int_def c Let_def push_bit_push_bit A_def [symmetric] B_def [symmetric]
      C_def [symmetric] D_def [symmetric]
    using l by (auto simp: bit_or_iff bit_and_iff bit_not_iff abcd)
qed

lemma hex_char_hex: "n < 16 \<Longrightarrow> is_hex_char (hex_char n)"
  by (auto simp: hex_char_def is_hex_char_def is_decimal_char_def Let_def)

lemma uuid_str_expand:
  "uuid_str w = map (\<lambda>k. hex_char (nibble w k)) [31, 30, 29, 28, 27, 26, 25, 24] @ ''-'' @
     map (\<lambda>k. hex_char (nibble w k)) [23, 22, 21, 20] @ ''-'' @ map (\<lambda>k. hex_char (nibble w k)) [19, 18, 17, 16]
     @ ''-'' @ map (\<lambda>k. hex_char (nibble w k)) [15, 14, 13, 12] @ ''-'' @
     map (\<lambda>k. hex_char (nibble w k)) [11, 10, 9, 8, 7, 6, 5, 4, 3, 2, 1, 0]"
  by (simp add: uuid_str_def hex_range_def upt_conv_Cons numeral_eq_Suc)

lemma hex_char_values:
  "hex_char 7 = CHR ''7''" "hex_char 8 = CHR ''8''" "hex_char 9 = CHR ''9''" "hex_char 10 = CHR ''a''"
  "hex_char 11 = CHR ''b''"
  by code_simp+

lemma uuid7_nibbles:
  "nibble (uuid7_like_int raw) 19 = 7"
  "bit raw 63 \<Longrightarrow> \<not> bit raw 62 \<Longrightarrow> hex_char (nibble (uuid7_like_int raw) 15) \<in> set ''89ab''"
  by (auto simp: nibble_bits4 bit_uuid7_like hex_char_values)

lemma uuid7_like_ok:
  assumes "is_uuid4_int raw"
  shows "entity_id_ok (uuid7_like raw)"
proof -
  have b: "bit raw 63" "\<not> bit raw 62" using assms by (simp_all add: is_uuid4_int_def)
  have h: "is_hex_char (hex_char (nibble (uuid7_like_int raw) k))" for k
    by (simp add: hex_char_hex nibble_less)
  show ?thesis
    using uuid7_nibbles(2) [OF b]
    by (simp add: entity_id_ok_def uuid7_like_def uuid_str_expand h uuid7_nibbles(1) hex_char_values(1))
qed

text \<open>An identifier minted by \<^verbatim>\<open>_uuid7_like\<close> from a version-4 uuid satisfies the canonical
  \<^verbatim>\<open>EntityId\<close> pattern (36 characters, version digit 7, variant digit one of 8, 9, a, b).\<close>

theorem uuid7_like_entity_id:
  assumes "is_uuid4_int raw"
  shows "entity_id_ok (uuid7_like raw)"
  using assms by (rule uuid7_like_ok)

text \<open>Witness: the uuid with version nibble 4 and variant bits 10, all other bits clear.\<close>

theorem uuid7_like_entity_id_witness:
  "is_uuid4_int (push_bit 78 1 OR push_bit 63 1) \<and> entity_id_ok (uuid7_like (push_bit 78 1 OR push_bit 63 1))"
proof -
  have "is_uuid4_int (push_bit 78 1 OR push_bit 63 1)"
    by (simp only: is_uuid4_int_def nibble_bits4 bit_or_iff bit_push_bit_iff bit_1_iff) simp
  with uuid7_like_entity_id show ?thesis by blast
qed

section \<open>What invoke_tool guarantees\<close>

text \<open>Claim C1. A handler is executed only through an open gate. Instrument any tool's handler with an
  execution counter: when the input is valid, the actor's role is allowed and, for a side-effect tool
  that needs approval, the decision recorded under the tool's approval id for this turn is a grant, the
  handler runs at least once and at most \<open>max_validation_attempts\<close> times; otherwise it is never called,
  the world and the context are untouched, and the outcome is not a success.\<close>

theorem handler_runs_only_through_gate:
  assumes "invoke_tool env audit_id n0 n1 n2 name inp ctx sink (w, k) = (out, ctx', sink', (w', k'))"
    and "map_of (te_registry env) name = Some entry" and "tool_handler entry = counting h"
  shows "if gate_open (tool_spec entry) ctx name \<and> te_validate env (ts_input_schema (tool_spec entry)) inp = None
         then k < k' \<and> k' \<le> k + max_validation_attempts (tool_spec entry)
         else k' = k \<and> w' = w \<and> ctx' = ctx \<and> oc_kind out \<noteq> Success"
  using assms(1)
proof (cases rule: invoke_tool_cases)
  case (ran entry')
  then have e: "entry' = entry" using assms(2) by simp
  obtain res where "run_validated (counting h) (ts_output_schema (tool_spec entry)) inp
      (max_validation_attempts (tool_spec entry)) 0 ctx (w, k) = (res, ctx', (w', k'))"
    using run_with_audit_world [OF ran(4)] assms(3) e by auto
  from run_validated_count [OF this counting_step] ran e show ?thesis
    by (simp add: max_validation_attempts_def split: if_splits)
next
  case (refused entry' ev)
  with assms(2) show ?thesis by (auto split: if_splits)
qed (use assms(2) in \<open>auto simp: gate_open_def\<close>)


context audit_sink begin

lemma invoke_leaves_closed_row:
  assumes w: "te_write env = put" and fresh: "row sink audit_id = None"
    and inv: "invoke_tool env audit_id n0 n1 n2 name inp ctx sink w = (out, ctx', sink', w')"
    and aud: "oc_audit_id out = Some a"
  shows "a = audit_id \<and> (\<exists>ev. row sink' audit_id = Some ev \<and> ae_tool ev = name \<and> ae_completed_at ev \<noteq> None
      \<and> ae_status ev \<in> {SUCCEEDED, FAILED, REJECTED} \<and> (ae_status ev = SUCCEEDED \<longleftrightarrow> oc_kind out = Success))
      \<and> (\<forall>k. k \<noteq> audit_id \<longrightarrow> row sink' k = row sink k)"
  using inv
proof (cases rule: invoke_tool_cases)
  case (refused entry ev)
  then have id: "ae_id ev = audit_id" "ae_tool ev = name" by (auto simp: same_call_def base_audit_def)
  have "row sink' audit_id = Some ev" using write_new [of sink ev] refused(5) w fresh id by simp
  moreover have "\<forall>k. k \<noteq> audit_id \<longrightarrow> row sink' k = row sink k" using refused(5) w id by (simp add: write_other)
  ultimately show ?thesis using refused id aud by auto
next
  case (ran entry)
  have se: "ts_side_effect (tool_spec entry)" "a = audit_id"
    using ran(4) aud by (auto simp: run_with_audit_def Let_def split: prod.splits run_result.splits if_splits)
  from run_leaves_closed_row [OF w fresh se(1) ran(4)] show ?thesis using se(2) by fastforce
qed (use aud in auto)

end

text \<open>With the Postgres sink, whenever \<^verbatim>\<open>invoke_tool\<close> reports an audit id under which no row
  existed, the call leaves exactly one row under that id: completed, with a terminal status that says
  \<open>SUCCEEDED\<close> just when the outcome is a success. No other row changes.\<close>

theorem pg_audit_row_closed:
  assumes "te_write env = pg_write" and "map_of sink audit_id = None"
    and "invoke_tool env audit_id n0 n1 n2 name inp ctx sink w = (out, ctx', sink', w')"
    and "oc_audit_id out = Some a"
  shows "a = audit_id \<and> (\<exists>ev. map_of sink' audit_id = Some ev \<and> ae_tool ev = name \<and> ae_completed_at ev \<noteq> None
      \<and> ae_status ev \<in> {SUCCEEDED, FAILED, REJECTED} \<and> (ae_status ev = SUCCEEDED \<longleftrightarrow> oc_kind out = Success))
      \<and> (\<forall>k. k \<noteq> audit_id \<longrightarrow> map_of sink' k = map_of sink k)"
  by (rule pgsink.invoke_leaves_closed_row [OF assms])

lemma run_with_audit_mem:
  assumes "te_write env = mem_write"
    and "run_with_audit env audit_id n0 n1 n2 entry name inp ctx sink w = (out, ctx', sink', w')"
  shows "\<exists>evs. sink' = sink @ evs \<and> (oc_audit_id out = None \<longleftrightarrow> evs = [])
      \<and> (ts_side_effect (tool_spec entry) \<longleftrightarrow> evs \<noteq> [])
      \<and> (\<forall>ev\<in>set evs. same_call (base_audit audit_id ctx name inp n1
            \<lparr>ae_approval_required := ts_approval_required (tool_spec entry)\<rparr>) ev)
      \<and> map ae_status evs = (if ts_side_effect (tool_spec entry)
            then [STARTED, if oc_kind out = Success then SUCCEEDED else FAILED] else [])"
  using assms unfolding run_with_audit_def Let_def
  by (auto simp: same_call_def base_audit_def mem_write_def split: prod.splits run_result.splits)

text \<open>Claim C33. The audit trail of one call, with the in-memory sink. The events appended are none, one
  \<open>REJECTED\<close>, or \<open>STARTED\<close> followed by \<open>SUCCEEDED\<close> or \<open>FAILED\<close>; they carry the caller's tenant, actor, the tool
  and its inputs; an audit id is reported just when something was written; and a side-effect tool
  never changes the world without its two events being on record.\<close>

theorem audit_trail_shape:
  assumes "te_write env = mem_write"
    and "invoke_tool env audit_id n0 n1 n2 name inp ctx sink w = (out, ctx', sink', w')"
  shows "\<exists>evs. sink' = sink @ evs \<and> (oc_audit_id out = None \<longleftrightarrow> evs = [])
      \<and> (\<forall>ev\<in>set evs. ae_id ev = audit_id \<and> ae_tenant_id ev = ctx_tenant_id ctx \<and> ae_actor_id ev = ctx_actor_id ctx
            \<and> ae_tool ev = name \<and> ae_inputs ev = jsonable inp)
      \<and> map ae_status evs \<in> {[], [REJECTED], [STARTED, SUCCEEDED], [STARTED, FAILED]}
      \<and> (\<forall>entry. map_of (te_registry env) name = Some entry \<and> ts_side_effect (tool_spec entry)
            \<and> (w' \<noteq> w \<or> oc_kind out = Success) \<longrightarrow>
            map ae_status evs = [STARTED, if oc_kind out = Success then SUCCEEDED else FAILED])"
  using assms(2)
proof (cases rule: invoke_tool_cases)
  case (refused entry ev)
  then show ?thesis
    using assms(1) by (intro exI [of _ "[ev]"]) (auto simp: mem_write_def same_call_def base_audit_def split: if_splits)
next
  case (ran entry)
  from run_with_audit_mem [OF assms(1) ran(4)] obtain evs where evs: "sink' = sink @ evs"
    "oc_audit_id out = None \<longleftrightarrow> evs = []"
    "\<forall>ev\<in>set evs. same_call (base_audit audit_id ctx name inp n1
            \<lparr>ae_approval_required := ts_approval_required (tool_spec entry)\<rparr>) ev"
    "map ae_status evs = (if ts_side_effect (tool_spec entry)
            then [STARTED, if oc_kind out = Success then SUCCEEDED else FAILED] else [])" by (elim exE conjE) (rule that)
  have "\<forall>ev\<in>set evs. ae_id ev = audit_id \<and> ae_tenant_id ev = ctx_tenant_id ctx \<and> ae_actor_id ev = ctx_actor_id ctx
            \<and> ae_tool ev = name \<and> ae_inputs ev = jsonable inp"
    using evs(3) by (simp add: same_call_def base_audit_def)
  moreover have "map ae_status evs \<in> {[], [REJECTED], [STARTED, SUCCEEDED], [STARTED, FAILED]}"
    by (simp add: evs(4))
  moreover have "\<forall>entry. map_of (te_registry env) name = Some entry \<and> ts_side_effect (tool_spec entry)
            \<and> (w' \<noteq> w \<or> oc_kind out = Success) \<longrightarrow>
            map ae_status evs = [STARTED, if oc_kind out = Success then SUCCEEDED else FAILED]"
    using ran(1) by (simp add: evs(4))
  ultimately show ?thesis using evs(1,2) by (intro exI conjI)
qed auto


section \<open>Witnesses\<close>

text \<open>A ticket-issuing tool whose handler counts the tickets in the world; approval is for admins.\<close>

definition issue_spec :: tool_spec where
  "issue_spec = \<lparr>ts_name = ''issue_ticket'', ts_description = ''Issue.'', ts_input_schema = JObj [],
     ts_output_schema = None, ts_side_effect = True, ts_reversible = False, ts_approval_required = True,
     ts_approval_roles = [''agency_admin''], ts_domain = TicketingVisa\<rparr>"

definition issue_handler :: "nat handler" where
  "issue_handler inp ctx n = (HReturn [(''issued'', JBool True)], Suc n)"

definition issue_env :: "(audit_event \<Rightarrow> 'a \<Rightarrow> 'a) \<Rightarrow> ('a, nat \<times> nat) tool_env" where
  "issue_env put = \<lparr>te_registry = [(''issue_ticket'', \<lparr>tool_spec = issue_spec, tool_handler = counting issue_handler\<rparr>)],
     te_validate = (\<lambda>_ _. None), te_summary_fns = [], te_write = put\<rparr>"

definition issue_ctx :: "(string, bool) dict \<Rightarrow> tool_context" where
  "issue_ctx aps = \<lparr>ctx_tenant_id = ''tenant-a'', ctx_actor_id = ''actor-1'', ctx_actor_kind = HUMAN,
     ctx_session_id = ''s1'', ctx_turn_id = ''t-1'', ctx_actor_role = ''agency_admin'', ctx_approvals = aps,
     ctx_last_output_validation_error = None\<rparr>"

lemmas issue_defs = issue_spec_def issue_handler_def issue_env_def issue_ctx_def invoke_tool_def get_tool_def
  run_with_audit_def run_validated.simps counting_def role_denied_def approval_id_for_def
  max_validation_attempts_def base_audit_def

definition issue_granted :: "(string, bool) dict" where "issue_granted = [(''ap-t-1-issue_ticket'', True)]"

lemma issue_run:
  "\<exists>out ctx'. invoke_tool (issue_env put) ''a1'' 1 2 3 ''issue_ticket'' [] (issue_ctx issue_granted) sink (7, 0)
     = (out, ctx', put (base_audit ''a1'' (issue_ctx issue_granted) ''issue_ticket'' [] 2
           \<lparr>ae_approval_required := True, ae_approved_by := Some ''actor-1'', ae_approved_at := Some 1,
            ae_status := SUCCEEDED, ae_outputs := [(''issued'', JBool True)], ae_completed_at := Some 3\<rparr>)
        (put (base_audit ''a1'' (issue_ctx issue_granted) ''issue_ticket'' [] 2
           \<lparr>ae_approval_required := True, ae_approved_by := Some ''actor-1'', ae_approved_at := Some 1\<rparr>) sink), (8, 1))
     \<and> oc_audit_id out = Some ''a1'' \<and> oc_kind out = Success"
  by (simp add: issue_defs issue_granted_def jsonable_def Let_def)

lemma issue_waits:
  "\<exists>out. invoke_tool (issue_env put) ''a1'' 1 2 3 ''issue_ticket'' [] (issue_ctx []) sink (7, 0)
     = (out, issue_ctx [], sink, (7, 0)) \<and> oc_kind out = ApprovalNeeded"
  by (simp add: issue_defs Let_def)

lemma issue_entry:
  "map_of (te_registry (issue_env put)) ''issue_ticket'' = Some \<lparr>tool_spec = issue_spec, tool_handler = counting issue_handler\<rparr>"
  "te_write (issue_env put) = put" "te_validate (issue_env put) s i = None"
  by (simp_all add: issue_env_def)

theorem handler_runs_only_through_gate_witness:
  "\<exists>out ctx' sink' w' k'. invoke_tool (issue_env mem_write) ''a1'' 1 2 3 ''issue_ticket'' []
       (issue_ctx issue_granted) [] (7, 0) = (out, ctx', sink', (w', k')) \<and> 0 < k' \<and> k' \<le> 1"
proof -
  obtain out ctx' sink' where run: "invoke_tool (issue_env mem_write) ''a1'' 1 2 3 ''issue_ticket'' []
       (issue_ctx issue_granted) [] (7, 0) = (out, ctx', sink', (8, 1))"
    using issue_run [of mem_write "[]"] by blast
  have "gate_open issue_spec (issue_ctx issue_granted) ''issue_ticket''"
    by (simp add: gate_open_def role_denied_def issue_spec_def issue_ctx_def issue_granted_def approval_id_for_def)
  with handler_runs_only_through_gate [OF run issue_entry(1)] issue_entry(3) [of mem_write]
  have "0 < (1 :: nat) \<and> (1 :: nat) \<le> 0 + max_validation_attempts issue_spec" by simp
  with run show ?thesis by (auto simp: max_validation_attempts_def issue_spec_def)
qed

theorem pg_audit_row_closed_witness:
  "\<exists>out ctx' sink' w'. invoke_tool (issue_env pg_write) ''a1'' 1 2 3 ''issue_ticket'' []
       (issue_ctx issue_granted) [] (7, 0) = (out, ctx', sink', w')
     \<and> (\<exists>ev. map_of sink' ''a1'' = Some ev \<and> ae_completed_at ev \<noteq> None)"
proof -
  obtain out ctx' sink' w' where run: "invoke_tool (issue_env pg_write) ''a1'' 1 2 3 ''issue_ticket'' []
       (issue_ctx issue_granted) [] (7, 0) = (out, ctx', sink', w')" "oc_audit_id out = Some ''a1''"
    using issue_run [of pg_write "[]"] by blast
  from pg_audit_row_closed [OF issue_entry(2) _ run] run(1) show ?thesis by fastforce
qed

theorem audit_trail_shape_witness:
  "\<exists>out ctx' evs w'. invoke_tool (issue_env mem_write) ''a1'' 1 2 3 ''issue_ticket'' []
       (issue_ctx issue_granted) [] (7, 0) = (out, ctx', evs, w')
     \<and> map ae_status evs = [STARTED, SUCCEEDED]"
proof -
  obtain out ctx' evs w' where run: "invoke_tool (issue_env mem_write) ''a1'' 1 2 3 ''issue_ticket'' []
       (issue_ctx issue_granted) [] (7, 0) = (out, ctx', evs, w')" "oc_kind out = Success"
    using issue_run [of mem_write "[]"] by blast
  have "ts_side_effect issue_spec" by (simp add: issue_spec_def)
  with audit_trail_shape [OF issue_entry(2) run(1)] run(2) issue_entry(1) [of mem_write]
  have "map ae_status evs = [STARTED, SUCCEEDED]" by auto
  with run(1) show ?thesis by (intro exI conjI)
qed

end
