(* ===== verification/Agent_Loop.thy ===== *)
theory Agent_Loop
  imports Tool_Runtime
begin

text \<open>
  The shared agent loop of \<^verbatim>\<open>services/agent_runtime/.../_agent_loop.py\<close> and the events of
  \<^verbatim>\<open>events.py\<close>.

  \<^verbatim>\<open>run_agent_turn\<close> is an asynchronous generator. It is modelled by the state it works on, which
  collects the events yielded so far, and by how it ends: it runs to its end, raises, or is closed
  because its consumer stops iterating. The consumer is the predicate \<open>stop\<close>: it abandons the
  generator right after an event that satisfies it, and no code after that \<^verbatim>\<open>yield\<close> runs.
  The model API is the field \<open>le_stream\<close>: one attempt gives the events streamed and, if the attempt
  failed, the exception; its state changes with every attempt. Event time stamps are not kept, and
  the text of a \<^verbatim>\<open>ValidationError\<close> is the sentence of the validator that raised it.
\<close>

section \<open>Events\<close>

datatype event_kind = TEXT_DELTA | TOOL_USE | TOOL_RESULT | APPROVAL_REQUEST
  | APPROVAL_GRANTED | APPROVAL_DENIED | ERROR | FINAL

record agent_event =
  ev_kind :: event_kind
  ev_session_id :: string
  ev_turn_id :: string
  ev_text :: "string option"
  ev_tool_name :: "string option"
  ev_tool_input :: "obj option"
  ev_tool_output :: "obj option"
  ev_tool_call_id :: "string option"
  ev_approval_id :: "string option"
  ev_approval_summary :: "string option"
  ev_error_message :: "string option"

definition event :: "event_kind \<Rightarrow> string \<Rightarrow> string \<Rightarrow> agent_event" where
  "event k sid tid = \<lparr>ev_kind = k, ev_session_id = sid, ev_turn_id = tid, ev_text = None,
     ev_tool_name = None, ev_tool_input = None, ev_tool_output = None, ev_tool_call_id = None,
     ev_approval_id = None, ev_approval_summary = None, ev_error_message = None\<rparr>"

text \<open>Truth of an optional string.\<close>

definition truthy :: "string option \<Rightarrow> bool" where
  "truthy x \<longleftrightarrow> (case x of None \<Rightarrow> False | Some s \<Rightarrow> s \<noteq> '''')"

definition payload_matches_kind :: "agent_event \<Rightarrow> string option" where
  "payload_matches_kind ev =
     (case ev_kind ev of
        TEXT_DELTA \<Rightarrow> if ev_text ev = None then Some ''TEXT_DELTA events require `text`.'' else None
      | TOOL_USE \<Rightarrow>
          if \<not> (truthy (ev_tool_name ev) \<and> truthy (ev_tool_call_id ev) \<and> ev_tool_input ev \<noteq> None)
          then Some ''TOOL_USE events require `tool_name`, `tool_call_id`, `tool_input`.'' else None
      | TOOL_RESULT \<Rightarrow>
          if \<not> (truthy (ev_tool_name ev) \<and> truthy (ev_tool_call_id ev) \<and> ev_tool_output ev \<noteq> None)
          then Some ''TOOL_RESULT events require `tool_name`, `tool_call_id`, `tool_output`.'' else None
      | APPROVAL_REQUEST \<Rightarrow>
          if \<not> (truthy (ev_approval_id ev) \<and> truthy (ev_approval_summary ev))
          then Some ''APPROVAL_REQUEST events require `approval_id` and `approval_summary`.'' else None
      | APPROVAL_GRANTED \<Rightarrow>
          if \<not> truthy (ev_approval_id ev) then Some ''approval_granted events require `approval_id`.'' else None
      | APPROVAL_DENIED \<Rightarrow>
          if \<not> truthy (ev_approval_id ev) then Some ''approval_denied events require `approval_id`.'' else None
      | ERROR \<Rightarrow> if \<not> truthy (ev_error_message ev) then Some ''ERROR events require `error_message`.'' else None
      | FINAL \<Rightarrow> None)"

text \<open>Building an \<^verbatim>\<open>AgentEvent\<close>: the text fields are stripped, then the validator runs.\<close>

definition agent_event :: "agent_event \<Rightarrow> string + agent_event" where
  "agent_event ev =
     (let ev' = ev\<lparr>ev_text := map_option py_strip (ev_text ev),
            ev_tool_name := map_option py_strip (ev_tool_name ev),
            ev_tool_call_id := map_option py_strip (ev_tool_call_id ev),
            ev_approval_id := map_option py_strip (ev_approval_id ev),
            ev_approval_summary := map_option py_strip (ev_approval_summary ev),
            ev_error_message := map_option py_strip (ev_error_message ev)\<rparr>
      in case payload_matches_kind ev' of Some m \<Rightarrow> Inl m | None \<Rightarrow> Inr ev')"

section \<open>The model API as the loop sees it\<close>

record final_message =
  fm_stop_reason :: "string option"
  fm_content :: "block list"

datatype stream_event =
    ContentBlockDelta string "string option"
  | MessageStop "final_message option"
  | OtherStreamEvent string

text \<open>An exception: the class names of its MRO (its own first), its text, its retry hint in seconds.\<close>

record exc =
  ex_mro :: "string list"
  ex_text :: string
  ex_retry_after :: "rat option"

definition is_rate_limit_error :: "exc \<Rightarrow> bool" where
  "is_rate_limit_error e \<longleftrightarrow> ''RateLimitError'' \<in> set (ex_mro e)"

definition is_connection_error :: "exc \<Rightarrow> bool" where
  "is_connection_error e \<longleftrightarrow> ''APIConnectionError'' \<in> set (ex_mro e)"

definition is_permanent_anthropic_error :: "exc \<Rightarrow> bool" where
  "is_permanent_anthropic_error e \<longleftrightarrow>
     ''AuthenticationError'' \<in> set (ex_mro e) \<or> ''BadRequestError'' \<in> set (ex_mro e)"

definition exc_line :: "exc \<Rightarrow> string" where
  "exc_line e = (case ex_mro e of [] \<Rightarrow> ''object'' | c # _ \<Rightarrow> c) @ '': '' @ ex_text e"

definition extract_text_delta :: "stream_event \<Rightarrow> string option" where
  "extract_text_delta ev =
     (case ev of
        ContentBlockDelta dtype text \<Rightarrow> if dtype = ''text_delta'' then text else None
      | _ \<Rightarrow> None)"

definition extract_message_stop :: "stream_event \<Rightarrow> final_message option" where
  "extract_message_stop ev = (case ev of MessageStop m \<Rightarrow> m | _ \<Rightarrow> None)"

definition block_to_dict :: "block \<Rightarrow> block" where
  "block_to_dict b =
     (case b of
        TextBlock t \<Rightarrow> TextBlock t
      | ToolUseBlock i n inp \<Rightarrow> ToolUseBlock i n inp
      | ToolResultBlock _ _ _ \<Rightarrow> OtherBlock ''tool_result''
      | OtherBlock ty \<Rightarrow> OtherBlock ty)"

section \<open>Compact JSON\<close>

definition json_char :: "char \<Rightarrow> string" where
  "json_char c =
     (let n = (of_char c :: nat); bs = char_of (92 :: nat) in
      if n = 34 \<or> n = 92 then [bs, c]
      else if n = 10 then [bs, CHR ''n''] else if n = 13 then [bs, CHR ''r'']
      else if n = 9 then [bs, CHR ''t''] else if n = 8 then [bs, CHR ''b'']
      else if n = 12 then [bs, CHR ''f'']
      else if 32 \<le> n \<and> n \<le> 126 then [c]
      else [bs, CHR ''u'', CHR ''0'', CHR ''0'', hex_char (n div 16), hex_char (n mod 16)])"

definition json_str :: "string \<Rightarrow> string" where
  "json_str s = [char_of (34 :: nat)] @ concat (map json_char s) @ [char_of (34 :: nat)]"

fun compact_json_value :: "json \<Rightarrow> string" where
  "compact_json_value JNull = ''null''"
| "compact_json_value (JBool b) = (if b then ''true'' else ''false'')"
| "compact_json_value (JInt i) = show_int i"
| "compact_json_value (JFloat t) = t"
| "compact_json_value (JStr s) = json_str s"
| "compact_json_value (JList xs) = ''['' @ join_with '','' (map compact_json_value xs) @ '']''"
| "compact_json_value (JObj kvs) =
     ''{'' @ join_with '','' (map (\<lambda>kv. json_str (fst kv) @ '':'' @ compact_json_value (snd kv)) kvs) @ ''}''"

definition compact_json :: "obj \<Rightarrow> string" where
  "compact_json payload = compact_json_value (JObj payload)"

section \<open>The generator\<close>

record ('a, 'w, 'c) loop_env =
  le_tools :: "('a, 'w) tool_env"
  le_stream :: "string \<Rightarrow> message list \<Rightarrow> (string \<times> string \<times> json) list \<Rightarrow> 'c \<Rightarrow>
     (stream_event list \<times> exc option) \<times> 'c"
  le_last_final_message :: "'c \<Rightarrow> final_message option"
  le_audit_id :: "nat \<Rightarrow> string"
  le_clock :: "nat \<Rightarrow> int \<times> int \<times> int"

text \<open>
  \<open>ls_hook\<close> is the state of the caller's \<^verbatim>\<open>on_tool_use\<close> closure; \<open>ls_calls\<close> numbers the tool calls,
  which take their fresh audit ids and clock readings from the environment under that number.
\<close>

record ('a, 'w, 'c, 'h) loop_state =
  ls_messages :: "message list"
  ls_ctx :: tool_context
  ls_sink :: 'a
  ls_world :: 'w
  ls_client :: 'c
  ls_hook :: 'h
  ls_calls :: nat
  ls_sleeps :: "rat list"
  ls_events :: "agent_event list"

datatype gen_end = Finished | Raised string | Closed

type_synonym ('s, 'x) gen = "(gen_end \<times> 's) + 'x"

type_synonym 'h hook = "string \<Rightarrow> obj \<Rightarrow> 'h \<Rightarrow> agent_event list option \<times> 'h"

definition yield_event :: "(agent_event \<Rightarrow> bool) \<Rightarrow> agent_event \<Rightarrow> ('a, 'w, 'c, 'h) loop_state \<Rightarrow>
   (('a, 'w, 'c, 'h) loop_state, ('a, 'w, 'c, 'h) loop_state) gen" where
  "yield_event stop ev st =
     (let st' = st\<lparr>ls_events := ls_events st @ [ev]\<rparr>
      in if stop ev then Inl (Closed, st') else Inr st')"

definition yield_new :: "(agent_event \<Rightarrow> bool) \<Rightarrow> agent_event \<Rightarrow> ('a, 'w, 'c, 'h) loop_state \<Rightarrow>
   (('a, 'w, 'c, 'h) loop_state, ('a, 'w, 'c, 'h) loop_state) gen" where
  "yield_new stop ev st =
     (case agent_event ev of
        Inl m \<Rightarrow> Inl (Raised (''ValidationError: '' @ m), st)
      | Inr ev' \<Rightarrow> yield_event stop ev' st)"

fun yield_all :: "(agent_event \<Rightarrow> bool) \<Rightarrow> agent_event list \<Rightarrow> ('a, 'w, 'c, 'h) loop_state \<Rightarrow>
   (('a, 'w, 'c, 'h) loop_state, ('a, 'w, 'c, 'h) loop_state) gen" where
  "yield_all stop [] st = Inr st"
| "yield_all stop (ev # evs) st = bind_res (yield_event stop ev st) (yield_all stop evs)"

section \<open>Streaming with retries\<close>

definition RATE_LIMIT_BACKOFF_SECONDS :: "rat list" where
  "RATE_LIMIT_BACKOFF_SECONDS = [1, 2]"

definition CONNECTION_BACKOFF_SECONDS :: "rat list" where
  "CONNECTION_BACKOFF_SECONDS = [1]"

definition MAX_TOOL_LOOPS :: nat where
  "MAX_TOOL_LOOPS = 8"

text \<open>What one attempt collects: the buffered deltas and the last final message seen.\<close>

fun collect_stream :: "string \<Rightarrow> string \<Rightarrow> stream_event list \<Rightarrow> agent_event list \<times> final_message option \<Rightarrow>
   agent_event list \<times> final_message option" where
  "collect_stream sid tid [] acc = acc"
| "collect_stream sid tid (ev # evs) (buf, fm) =
     (let buf' = (case extract_text_delta ev of
                    Some t \<Rightarrow> if t \<noteq> '''' then buf @ [(event TEXT_DELTA sid tid)\<lparr>ev_text := Some (py_strip t)\<rparr>] else buf
                  | None \<Rightarrow> buf);
          fm' = (case extract_message_stop ev of Some m \<Rightarrow> Some m | None \<Rightarrow> fm)
      in collect_stream sid tid evs (buf', fm'))"

text \<open>One decision of the retry loop: give up, or the delay to sleep and the new attempt counts.\<close>

definition retry_decision :: "exc \<Rightarrow> nat \<Rightarrow> nat \<Rightarrow> (rat \<times> nat \<times> nat) option" where
  "retry_decision e rl conn =
     (if is_permanent_anthropic_error e then None
      else if is_rate_limit_error e \<and> rl < length RATE_LIMIT_BACKOFF_SECONDS
      then Some (case ex_retry_after e of Some h \<Rightarrow> h | None \<Rightarrow> RATE_LIMIT_BACKOFF_SECONDS ! rl, Suc rl, conn)
      else if is_connection_error e \<and> conn < length CONNECTION_BACKOFF_SECONDS
      then Some (CONNECTION_BACKOFF_SECONDS ! conn, rl, Suc conn)
      else None)"

lemma retry_decision_measure:
  "retry_decision e rl conn = Some (d, rl', conn') \<Longrightarrow> (2 - rl') + (1 - conn') < (2 - rl) + (1 - conn)"
  by (auto simp: retry_decision_def RATE_LIMIT_BACKOFF_SECONDS_def CONNECTION_BACKOFF_SECONDS_def split: if_splits)

text \<open>The \<^verbatim>\<open>while True\<close> of a round, on the client state: delays slept, and the failure or the stream.\<close>

function stream_attempts ::
  "('c \<Rightarrow> (stream_event list \<times> exc option) \<times> 'c) \<Rightarrow> string \<Rightarrow> string \<Rightarrow> nat \<Rightarrow> nat \<Rightarrow> 'c \<Rightarrow> rat list \<Rightarrow>
   (exc + agent_event list \<times> final_message option) \<times> rat list \<times> 'c" where
  "stream_attempts attempt sid tid rl conn c slept =
     (case attempt c of
        ((evs, None), c') \<Rightarrow> (Inr (collect_stream sid tid evs ([], None)), slept, c')
      | ((evs, Some e), c') \<Rightarrow>
          (case retry_decision e rl conn of
             None \<Rightarrow> (Inl e, slept, c')
           | Some (d, rl', conn') \<Rightarrow> stream_attempts attempt sid tid rl' conn' c' (slept @ [d])))"
  by pat_completeness auto
termination
  by (relation "measure (\<lambda>(_, _, _, rl, conn, _, _). (2 - rl) + (1 - conn))") (auto dest: retry_decision_measure)

declare stream_attempts.simps [simp del]

definition failure_text :: "exc \<Rightarrow> string" where
  "failure_text e =
     (if is_rate_limit_error e
      then ''model is rate-limited, please try again in a moment ('' @ exc_line e @ '')''
      else exc_line e)"

section \<open>Dispatching tool calls\<close>

definition default_tool_router :: "('a, 'w, 'c) loop_env \<Rightarrow> string \<Rightarrow> obj \<Rightarrow> ('a, 'w, 'c, 'h) loop_state \<Rightarrow>
   tool_outcome \<times> ('a, 'w, 'c, 'h) loop_state" where
  "default_tool_router env name inp st =
     (let (t0, t1, t2) = le_clock env (ls_calls st);
          (out, ctx', sink', w') = invoke_tool (le_tools env) (le_audit_id env (ls_calls st)) t0 t1 t2 name inp
             (ls_ctx st) (ls_sink st) (ls_world st)
      in (out, st\<lparr>ls_ctx := ctx', ls_sink := sink', ls_world := w', ls_calls := Suc (ls_calls st)\<rparr>))"

definition or_else :: "string option \<Rightarrow> string \<Rightarrow> string" where
  "or_else x d = (case x of Some s \<Rightarrow> if s \<noteq> '''' then s else d | None \<Rightarrow> d)"

text \<open>What a handled call leaves: the event to yield, its \<^verbatim>\<open>tool_result\<close> and whether approval is awaited.\<close>

definition tool_answer :: "string \<Rightarrow> string \<Rightarrow> string \<Rightarrow> string \<Rightarrow> tool_outcome \<Rightarrow> agent_event \<times> block \<times> bool" where
  "tool_answer sid tid name call_id out =
     (case oc_kind out of
        ApprovalNeeded \<Rightarrow>
          ((event APPROVAL_REQUEST sid tid)\<lparr>ev_tool_name := Some name, ev_tool_call_id := Some call_id,
              ev_approval_id := oc_approval_id out, ev_approval_summary := oc_approval_summary out\<rparr>,
           ToolResultBlock call_id (''approval_pending:'' @ (case oc_approval_id out of Some a \<Rightarrow> a | None \<Rightarrow> ''None'')) None,
           True)
      | PermissionDenied \<Rightarrow>
          let payload = [(''error'', JStr ''permission_denied''),
                (''detail'', JStr (or_else (oc_message out) (or_else (oc_error_message out) ''role not permitted'')))]
          in ((event TOOL_RESULT sid tid)\<lparr>ev_tool_name := Some name, ev_tool_output := Some payload,
                 ev_tool_call_id := Some call_id\<rparr>,
              ToolResultBlock call_id (compact_json payload) (Some True), False)
      | k \<Rightarrow>
          let payload = (case oc_output out of
                Some (kv # kvs) \<Rightarrow> kv # kvs
              | _ \<Rightarrow> [(''error'', JStr (or_else (oc_error_message out) ''unknown tool error''))])
          in ((event TOOL_RESULT sid tid)\<lparr>ev_tool_name := Some name, ev_tool_output := Some payload,
                 ev_tool_call_id := Some call_id\<rparr>,
              ToolResultBlock call_id (compact_json payload) (Some (k = Error)), False))"

definition call_hook :: "'h hook option \<Rightarrow> string \<Rightarrow> obj \<Rightarrow> 'h \<Rightarrow> agent_event list option \<times> 'h" where
  "call_hook hook name inp h = (case hook of None \<Rightarrow> (None, h) | Some f \<Rightarrow> f name inp h)"

text \<open>The message that carries the answers to a round's tool calls.\<close>

definition user_results :: "block list \<Rightarrow> message" where
  "user_results results = \<lparr>msg_role = RoleUser, msg_content = results\<rparr>"

definition assistant_turn :: "final_message \<Rightarrow> message" where
  "assistant_turn m = \<lparr>msg_role = RoleAssistant, msg_content = map block_to_dict (fm_content m)\<rparr>"

definition push_message :: "message \<Rightarrow> ('a, 'w, 'c, 'h) loop_state \<Rightarrow> ('a, 'w, 'c, 'h) loop_state" where
  "push_message m st = st\<lparr>ls_messages := ls_messages st @ [m]\<rparr>"

fun dispatch_blocks :: "('a, 'w, 'c) loop_env \<Rightarrow> (agent_event \<Rightarrow> bool) \<Rightarrow> 'h hook option \<Rightarrow> string \<Rightarrow> string \<Rightarrow>
   block list \<Rightarrow> block list \<Rightarrow> bool \<Rightarrow> ('a, 'w, 'c, 'h) loop_state \<Rightarrow>
   (('a, 'w, 'c, 'h) loop_state, block list \<times> bool \<times> ('a, 'w, 'c, 'h) loop_state) gen" where
  "dispatch_blocks env stop hook sid tid [] results pending st = Inr (results, pending, st)"
| "dispatch_blocks env stop hook sid tid (ToolUseBlock call_id name inp # bs) results pending st =
     bind_res (yield_new stop ((event TOOL_USE sid tid)\<lparr>ev_tool_name := Some name, ev_tool_input := Some inp,
                 ev_tool_call_id := Some call_id\<rparr>) st) (\<lambda>st1.
       case call_hook hook name inp (ls_hook st1) of
         (Some override, h') \<Rightarrow>
           bind_res (yield_all stop override (st1\<lparr>ls_hook := h'\<rparr>)) (\<lambda>st2.
             Inl (Finished, push_message (user_results (results @ [ToolResultBlock call_id ''handled'' None])) st2))
       | (None, h') \<Rightarrow>
           let (out, st2) = default_tool_router env name inp (st1\<lparr>ls_hook := h'\<rparr>);
               (ev, result, waits) = tool_answer sid tid name call_id out
           in bind_res (yield_new stop ev st2) (\<lambda>st3.
                dispatch_blocks env stop hook sid tid bs (results @ [result]) (pending \<or> waits) st3))"
| "dispatch_blocks env stop hook sid tid (b # bs) results pending st =
     dispatch_blocks env stop hook sid tid bs results pending st"

section \<open>Rounds\<close>

fun agent_rounds :: "('a, 'w, 'c) loop_env \<Rightarrow> (agent_event \<Rightarrow> bool) \<Rightarrow> 'h hook option \<Rightarrow> string \<Rightarrow> string \<Rightarrow>
   string \<Rightarrow> (string \<times> string \<times> json) list \<Rightarrow> nat \<Rightarrow> ('a, 'w, 'c, 'h) loop_state \<Rightarrow>
   (('a, 'w, 'c, 'h) loop_state, ('a, 'w, 'c, 'h) loop_state) gen" where
  "agent_rounds env stop hook sid tid prompt tools 0 st = Inr st"
| "agent_rounds env stop hook sid tid prompt tools (Suc rounds) st =
     (let (res, slept, c') = stream_attempts (le_stream env prompt (ls_messages st) tools) sid tid 0 0 (ls_client st) [];
          st1 = st\<lparr>ls_client := c', ls_sleeps := ls_sleeps st @ slept\<rparr>
      in case res of
           Inl e \<Rightarrow>
             bind_res (yield_new stop ((event ERROR sid tid)\<lparr>ev_error_message := Some (failure_text e)\<rparr>) st1)
               (\<lambda>st2. Inl (Finished, st2))
         | Inr (deltas, fm) \<Rightarrow>
             bind_res (yield_all stop deltas st1) (\<lambda>st2.
               case (case fm of None \<Rightarrow> le_last_final_message env (ls_client st2) | Some m \<Rightarrow> Some m) of
                 None \<Rightarrow> Inl (Finished, st2)
               | Some m \<Rightarrow>
                   let st3 = push_message (assistant_turn m) st2
                   in if fm_stop_reason m \<noteq> Some ''tool_use'' then Inl (Finished, st3)
                      else bind_res (dispatch_blocks env stop hook sid tid (fm_content m) [] False st3)
                        (\<lambda>(results, pending, st4).
                          let st5 = (if results \<noteq> [] then push_message (user_results results) st4 else st4)
                          in if pending then Inl (Finished, st5)
                             else agent_rounds env stop hook sid tid prompt tools rounds st5)))"

definition run_agent_turn :: "('a, 'w, 'c) loop_env \<Rightarrow> (agent_event \<Rightarrow> bool) \<Rightarrow> 'h hook option \<Rightarrow> string \<Rightarrow> string \<Rightarrow>
   string \<Rightarrow> string list \<Rightarrow> ('a, 'w, 'c, 'h) loop_state \<Rightarrow> gen_end \<times> ('a, 'w, 'c, 'h) loop_state" where
  "run_agent_turn env stop hook sid tid prompt tool_names st =
     (case agent_rounds env stop hook sid tid prompt
             (anthropic_tool_defs (te_registry (le_tools env)) None (Some tool_names)) MAX_TOOL_LOOPS st of
        Inl r \<Rightarrow> r
      | Inr st' \<Rightarrow> (Finished, st'))"

section \<open>Reasoning about how the generator ends\<close>

text \<open>\<open>ends P Q r\<close>: a generator that stops does so in a state with \<open>P\<close>, one that goes on has \<open>Q\<close>.\<close>

definition ends :: "(gen_end \<Rightarrow> 's \<Rightarrow> bool) \<Rightarrow> ('x \<Rightarrow> bool) \<Rightarrow> ('s, 'x) gen \<Rightarrow> bool" where
  "ends P Q r \<longleftrightarrow> (case r of Inl (e, s) \<Rightarrow> P e s | Inr x \<Rightarrow> Q x)"

lemma ends_simps [simp]:
  "ends P Q (Inl (e, s)) = P e s" "ends P Q (Inr x) = Q x"
  by (simp_all add: ends_def)

lemma ends_bind:
  "ends P R m \<Longrightarrow> (\<And>x. R x \<Longrightarrow> ends P Q (f x)) \<Longrightarrow> ends P Q (bind_res m f)"
  by (cases m) (auto simp: ends_def)

lemma ends_mono:
  "ends P Q r \<Longrightarrow> (\<And>e s. P e s \<Longrightarrow> P' e s) \<Longrightarrow> (\<And>x. Q x \<Longrightarrow> Q' x) \<Longrightarrow> ends P' Q' r"
  by (auto simp: ends_def split: sum.splits)

lemma ends_weaken: "ends P Q r \<Longrightarrow> (\<And>x. Q x \<Longrightarrow> Q' x) \<Longrightarrow> ends P Q' r"
  by (rule ends_mono)

lemma ends_yield_event:
  "P Closed (st\<lparr>ls_events := ls_events st @ [ev]\<rparr>) \<or> \<not> stop ev \<Longrightarrow> Q (st\<lparr>ls_events := ls_events st @ [ev]\<rparr>) \<or> stop ev \<Longrightarrow>
   ends P Q (yield_event stop ev st)"
  by (auto simp: yield_event_def Let_def)

lemma ends_yield_new:
  assumes "\<And>m. agent_event ev = Inl m \<Longrightarrow> P (Raised (''ValidationError: '' @ m)) st"
    and "\<And>ev'. agent_event ev = Inr ev' \<Longrightarrow> ends P Q (yield_event stop ev' st)"
  shows "ends P Q (yield_new stop ev st)"
  using assms by (auto simp: yield_new_def split: sum.splits)

lemma agent_event_fields:
  assumes "agent_event ev = Inr ev'"
  shows "ev_kind ev' = ev_kind ev" "ev_session_id ev' = ev_session_id ev" "ev_turn_id ev' = ev_turn_id ev"
    "ev_tool_call_id ev' = map_option py_strip (ev_tool_call_id ev)"
  using assms by (auto simp: agent_event_def Let_def split: option.splits)

lemma event_sel [simp]:
  "ev_kind (event k sid tid) = k" "ev_session_id (event k sid tid) = sid" "ev_turn_id (event k sid tid) = tid"
  by (simp_all add: event_def)

text \<open>
  A state predicate that survives a yield, a tool call, an attempt of the model API, a transcript
  entry and the caller's hook survives the whole turn, however it ends.
\<close>

definition step_stable :: "('a, 'w, 'c) loop_env \<Rightarrow> (('a, 'w, 'c, 'h) loop_state \<Rightarrow> bool) \<Rightarrow> bool" where
  "step_stable env P \<longleftrightarrow>
     (\<forall>st evs. P st \<longrightarrow> P (st\<lparr>ls_events := evs\<rparr>)) \<and>
     (\<forall>st ms. P st \<longrightarrow> P (st\<lparr>ls_messages := ms\<rparr>)) \<and>
     (\<forall>st h. P st \<longrightarrow> P (st\<lparr>ls_hook := h\<rparr>)) \<and>
     (\<forall>st name inp. P st \<longrightarrow> P (snd (default_tool_router env name inp st)))"

definition loop_stable :: "('a, 'w, 'c) loop_env \<Rightarrow> (('a, 'w, 'c, 'h) loop_state \<Rightarrow> bool) \<Rightarrow> bool" where
  "loop_stable env P \<longleftrightarrow> step_stable env P \<and> (\<forall>st c sl. P st \<longrightarrow> P (st\<lparr>ls_client := c, ls_sleeps := sl\<rparr>))"

lemma step_stableD:
  assumes "step_stable env P" "P st"
  shows "P (st\<lparr>ls_events := evs\<rparr>)" "P (st\<lparr>ls_messages := ms\<rparr>)" "P (st\<lparr>ls_hook := h\<rparr>)"
    "default_tool_router env name inp st = (out, st') \<Longrightarrow> P st'" "P (push_message m st)"
  using assms unfolding step_stable_def push_message_def by (blast, blast, blast, metis snd_conv, blast)

lemma loop_stableD:
  assumes "loop_stable env P"
  shows "step_stable env P" "P st \<Longrightarrow> P (st\<lparr>ls_client := c, ls_sleeps := sl\<rparr>)"
  using assms by (auto simp: loop_stable_def)

lemma yield_stable:
  assumes "step_stable env P" "P st"
  shows "ends (\<lambda>_. P) P (yield_event stop ev st)" "ends (\<lambda>_. P) P (yield_new stop ev st)"
    "ends (\<lambda>_. P) P (yield_all stop evs st)"
proof -
  show e: "ends (\<lambda>_. P) P (yield_event stop ev st)" for ev
    by (rule ends_yield_event) (use step_stableD(1) [OF assms] in blast)+
  then show "ends (\<lambda>_. P) P (yield_new stop ev st)" using assms(2) by (intro ends_yield_new)
  show "ends (\<lambda>_. P) P (yield_all stop evs st)"
    using assms(2)
  proof (induction evs arbitrary: st)
    case (Cons ev evs)
    have "ends (\<lambda>_. P) P (yield_event stop ev st)"
      by (rule ends_yield_event) (use step_stableD(1) [OF assms(1) Cons.prems] in blast)+
    with Cons.IH show ?case by (auto intro: ends_bind)
  qed simp
qed

text \<open>The rules for one tool call and for one round.\<close>

lemma ends_tool_call:
  assumes yld: "ends P R (yield_new stop ((event TOOL_USE sid tid)\<lparr>ev_tool_name := Some name,
        ev_tool_input := Some inp, ev_tool_call_id := Some call_id\<rparr>) st)"
    and override: "\<And>st1 evs h'. R st1 \<Longrightarrow> call_hook hook name inp (ls_hook st1) = (Some evs, h') \<Longrightarrow>
      ends P (\<lambda>st2. P Finished (push_message (user_results (results @ [ToolResultBlock call_id ''handled'' None])) st2))
        (yield_all stop evs (st1\<lparr>ls_hook := h'\<rparr>))"
    and pass: "\<And>st1 h' out st2 ev result waits. R st1 \<Longrightarrow> call_hook hook name inp (ls_hook st1) = (None, h') \<Longrightarrow>
      default_tool_router env name inp (st1\<lparr>ls_hook := h'\<rparr>) = (out, st2) \<Longrightarrow>
      tool_answer sid tid name call_id out = (ev, result, waits) \<Longrightarrow>
      ends P (\<lambda>st3. ends P Q (dispatch_blocks env stop hook sid tid bs (results @ [result]) (pending \<or> waits) st3))
        (yield_new stop ev st2)"
  shows "ends P Q (dispatch_blocks env stop hook sid tid (ToolUseBlock call_id name inp # bs) results pending st)"
  unfolding dispatch_blocks.simps
proof (rule ends_bind [OF yld])
  fix st1 assume R: "R st1"
  obtain o' h' where c: "call_hook hook name inp (ls_hook st1) = (o', h')" by (cases "call_hook hook name inp (ls_hook st1)")
  obtain out st2 where r: "default_tool_router env name inp (st1\<lparr>ls_hook := h'\<rparr>) = (out, st2)"
    by (cases "default_tool_router env name inp (st1\<lparr>ls_hook := h'\<rparr>)")
  obtain ev result waits where a: "tool_answer sid tid name call_id out = (ev, result, waits)"
    by (cases "tool_answer sid tid name call_id out")
  show "ends P Q (case call_hook hook name inp (ls_hook st1) of
         (Some override, h') \<Rightarrow>
           bind_res (yield_all stop override (st1\<lparr>ls_hook := h'\<rparr>)) (\<lambda>st2.
             Inl (Finished, push_message (user_results (results @ [ToolResultBlock call_id ''handled'' None])) st2))
       | (None, h') \<Rightarrow>
           let (out, st2) = default_tool_router env name inp (st1\<lparr>ls_hook := h'\<rparr>);
               (ev, result, waits) = tool_answer sid tid name call_id out
           in bind_res (yield_new stop ev st2) (\<lambda>st3.
                dispatch_blocks env stop hook sid tid bs (results @ [result]) (pending \<or> waits) st3))"
  proof (cases o')
    case None
    then show ?thesis using c pass [OF R _ r a] by (auto simp: r a intro: ends_bind)
  next
    case (Some evs)
    then show ?thesis using c override [OF R] by (auto intro: ends_bind)
  qed
qed

lemma ends_round:
  assumes fail: "\<And>e slept c. stream_attempts (le_stream env prompt (ls_messages st) tools) sid tid 0 0 (ls_client st) []
        = (Inl e, slept, c) \<Longrightarrow>
      ends P (P Finished) (yield_new stop ((event ERROR sid tid)\<lparr>ev_error_message := Some (failure_text e)\<rparr>)
        (st\<lparr>ls_client := c, ls_sleeps := ls_sleeps st @ slept\<rparr>))"
    and ok: "\<And>deltas fm slept c. stream_attempts (le_stream env prompt (ls_messages st) tools) sid tid 0 0 (ls_client st) []
        = (Inr (deltas, fm), slept, c) \<Longrightarrow>
      ends P R (yield_all stop deltas (st\<lparr>ls_client := c, ls_sleeps := ls_sleeps st @ slept\<rparr>))"
    and empty: "\<And>st2. R st2 \<Longrightarrow> P Finished st2"
    and last: "\<And>st2 m. R st2 \<Longrightarrow> fm_stop_reason m \<noteq> Some ''tool_use'' \<Longrightarrow> P Finished (push_message (assistant_turn m) st2)"
    and tools: "\<And>st2 m. R st2 \<Longrightarrow> fm_stop_reason m = Some ''tool_use'' \<Longrightarrow>
      ends P (\<lambda>(results, pending, st4).
          let st5 = (if results \<noteq> [] then push_message (user_results results) st4 else st4)
          in if pending then P Finished st5 else ends P Q (agent_rounds env stop hook sid tid prompt tools rounds st5))
        (dispatch_blocks env stop hook sid tid (fm_content m) [] False (push_message (assistant_turn m) st2))"
  shows "ends P Q (agent_rounds env stop hook sid tid prompt tools (Suc rounds) st)"
proof -
  obtain res slept c where r: "stream_attempts (le_stream env prompt (ls_messages st) tools) sid tid 0 0 (ls_client st) []
      = (res, slept, c)" by (metis surj_pair)
  show ?thesis
  proof (cases res)
    case (Inl e)
    from fail [OF r [unfolded Inl]] show ?thesis by (auto simp: r Inl intro!: ends_bind)
  next
    case (Inr b)
    obtain deltas fm where b: "b = (deltas, fm)" by (cases b)
    have tail: "ends P Q (let st3 = push_message (assistant_turn m) st2
        in if fm_stop_reason m \<noteq> Some ''tool_use'' then Inl (Finished, st3)
           else bind_res (dispatch_blocks env stop hook sid tid (fm_content m) [] False st3)
             (\<lambda>(results, pending, st4).
               let st5 = (if results \<noteq> [] then push_message (user_results results) st4 else st4)
               in if pending then Inl (Finished, st5)
                  else agent_rounds env stop hook sid tid prompt tools rounds st5))" if "R st2" for st2 m
    proof (cases "fm_stop_reason m = Some ''tool_use''")
      case True
      show ?thesis using ends_bind [OF tools [OF that True], where Q = Q] True by (fastforce simp: Let_def)
    qed (simp add: last that)
    show ?thesis
      by (simp add: r Inr b, rule ends_bind [OF ok [OF r [unfolded Inr b]]])
        (use empty tail in \<open>auto split: option.splits\<close>)
  qed
qed

lemma dispatch_stable:
  assumes stable: "step_stable env P"
  shows "P st \<Longrightarrow> ends (\<lambda>_. P) (\<lambda>(_, _, st'). P st') (dispatch_blocks env stop hook sid tid bs results pending st)"
proof (induction bs arbitrary: results pending st)
  case (Cons b bs)
  show ?case
  proof (cases b)
    case (ToolUseBlock call_id name inp)
    show ?thesis unfolding ToolUseBlock
    proof (rule ends_tool_call [where R = P])
      fix st1 h' out st2 ev result waits
      assume "P st1" and r: "default_tool_router env name inp (st1\<lparr>ls_hook := h'\<rparr>) = (out, st2)"
      then have "P st2" by (blast intro: step_stableD [OF stable])
      from yield_stable(2) [OF stable this]
      show "ends (\<lambda>_. P) (\<lambda>st3. ends (\<lambda>_. P) (\<lambda>(_, _, st'). P st')
          (dispatch_blocks env stop hook sid tid bs (results @ [result]) (pending \<or> waits) st3)) (yield_new stop ev st2)"
        by (rule ends_weaken) (rule Cons.IH)
    next
      fix st1 evs h' assume "P st1"
      from yield_stable(3) [OF stable step_stableD(3) [OF stable this]]
      show "ends (\<lambda>_. P) (\<lambda>st2. P (push_message (user_results (results @ [ToolResultBlock call_id ''handled'' None])) st2))
        (yield_all stop evs (st1\<lparr>ls_hook := h'\<rparr>))"
        by (rule ends_weaken) (rule step_stableD(5) [OF stable])
    qed (rule yield_stable(2) [OF stable Cons.prems])
  qed (use Cons in simp_all)
qed simp

lemma agent_rounds_stable:
  assumes stable: "loop_stable env P"
  shows "P st \<Longrightarrow> ends (\<lambda>_. P) P (agent_rounds env stop hook sid tid prompt tools rounds st)"
proof (induction rounds arbitrary: st)
  case (Suc rounds)
  note step = loop_stableD(1) [OF stable]
  show ?case
  proof (rule ends_round [where R = P])
    fix st2 m assume "P st2"
    from dispatch_stable [OF step step_stableD(5) [OF step this], of stop hook sid tid "fm_content m" "[]" False]
    show "ends (\<lambda>_. P) (\<lambda>(results, pending, st4).
          let st5 = (if results \<noteq> [] then push_message (user_results results) st4 else st4)
          in if pending then P st5 else ends (\<lambda>_. P) P (agent_rounds env stop hook sid tid prompt tools rounds st5))
        (dispatch_blocks env stop hook sid tid (fm_content m) [] False (push_message (assistant_turn m) st2))"
      by (rule ends_weaken) (auto simp: Let_def intro: Suc.IH step_stableD(5) [OF step])
  qed (auto intro: yield_stable [OF step] step_stableD [OF step] loop_stableD(2) [OF stable] Suc.prems)
qed simp

lemma run_agent_turn_stable:
  "loop_stable env P \<Longrightarrow> P st \<Longrightarrow> run_agent_turn env stop hook sid tid prompt names st = (e, st') \<Longrightarrow> P st'"
  using agent_rounds_stable [of env P st stop hook sid tid prompt _ MAX_TOOL_LOOPS]
  by (fastforce simp: run_agent_turn_def ends_def split: sum.splits)

section \<open>The gate over a whole turn\<close>

definition same_gate :: "tool_context \<Rightarrow> tool_context \<Rightarrow> bool" where
  "same_gate c d \<longleftrightarrow> ctx_approvals c = ctx_approvals d \<and> ctx_turn_id c = ctx_turn_id d \<and> ctx_actor_role c = ctx_actor_role d
     \<and> ctx_tenant_id c = ctx_tenant_id d \<and> ctx_actor_id c = ctx_actor_id d"

lemma same_gate_refl [simp]: "same_gate c c"
  by (simp add: same_gate_def)

lemma same_gate_trans: "same_gate c d \<Longrightarrow> same_gate d e \<Longrightarrow> same_gate c e"
  by (simp add: same_gate_def)

lemma gate_open_same: "same_gate c d \<Longrightarrow> gate_open spec d name = gate_open spec c name"
  by (simp add: same_gate_def gate_open_def role_denied_def)

lemma run_validated_keeps:
  assumes "run_validated h schema inp mx n ctx w = (res, ctx', w')" "Q w"
    and "\<And>ctx w r w'. Q w \<Longrightarrow> h inp ctx w = (r, w') \<Longrightarrow> Q w'"
  shows "Q w' \<and> same_gate ctx ctx'"
  using assms
proof (induction h schema inp mx n ctx w rule: run_validated.induct)
  case (1 h schema inp mx n ctx w)
  obtain r w1 where hr: "h inp ctx w = (r, w1)" by (cases "h inp ctx w")
  have w1: "Q w1" by (rule "1.prems"(3) [OF "1.prems"(2) hr])
  show ?case
  proof (cases "\<exists>out cls check err. r = HReturn out \<and> schema = Some (cls, check) \<and> check out = Some err \<and> \<not> mx \<le> Suc n")
    case True
    then obtain out cls check err where t: "r = HReturn out" "schema = Some (cls, check)" "check out = Some err"
      "\<not> mx \<le> Suc n" by blast
    with "1.prems"(1) hr have "run_validated h schema inp mx (Suc n)
        (ctx\<lparr>ctx_last_output_validation_error := Some err\<rparr>) w1 = (res, ctx', w')"
      by (subst (asm) run_validated.simps) simp
    from "1.IH" [OF refl hr [symmetric] refl t(1,2) refl t(3) _ this w1 "1.prems"(3)] t(4)
    show ?thesis by (auto simp: same_gate_def)
  next
    case False
    with "1.prems"(1) hr have "w' = w1 \<and> ctx' = ctx"
      by (auto simp: run_validated.simps [of h schema inp mx n ctx w] Let_def
            split: handler_result.splits option.splits if_splits prod.splits)
    with w1 show ?thesis by simp
  qed
qed

lemma invoke_tool_keeps:
  assumes "invoke_tool env aid n0 n1 n2 name inp ctx sink w = (out, ctx', sink', w')" "Q w"
    and "\<And>entry c w r w'. map_of (te_registry env) name = Some entry \<Longrightarrow> gate_open (tool_spec entry) ctx name \<Longrightarrow>
      Q w \<Longrightarrow> tool_handler entry inp c w = (r, w') \<Longrightarrow> Q w'"
  shows "Q w' \<and> same_gate ctx ctx'"
  using assms(1)
proof (cases rule: invoke_tool_cases)
  case (ran entry)
  obtain res where "run_validated (tool_handler entry) (ts_output_schema (tool_spec entry)) inp
      (max_validation_attempts (tool_spec entry)) 0 ctx w = (res, ctx', w')"
    using run_with_audit_world [OF ran(4)] by blast
  from run_validated_keeps [where Q = Q, OF this assms(2)] assms(3) [OF ran(1,2)] show ?thesis by blast
qed (use assms(2) in auto)

lemma gate_stable:
  assumes "\<And>name entry inp c w r w'. map_of (te_registry (le_tools env)) name = Some entry \<Longrightarrow>
      gate_open (tool_spec entry) ctx name \<Longrightarrow> Q w \<Longrightarrow> tool_handler entry inp c w = (r, w') \<Longrightarrow> Q w'"
  shows "loop_stable env (\<lambda>st. Q (ls_world st) \<and> same_gate ctx (ls_ctx st))"
proof -
  have "Q (ls_world st') \<and> same_gate ctx (ls_ctx st')"
    if "Q (ls_world st)" "same_gate ctx (ls_ctx st)" "st' = snd (default_tool_router env name inp st)" for st st' name inp
  proof -
    obtain t0 t1 t2 where t: "le_clock env (ls_calls st) = (t0, t1, t2)" by (metis surj_pair)
    obtain out c' k' w' where i: "invoke_tool (le_tools env) (le_audit_id env (ls_calls st)) t0 t1 t2 name inp
        (ls_ctx st) (ls_sink st) (ls_world st) = (out, c', k', w')" by (metis surj_pair)
    have "Q w' \<and> same_gate (ls_ctx st) c'"
      by (rule invoke_tool_keeps [where Q = Q, OF i that(1)]) (use assms gate_open_same [OF that(2)] in blast)
    moreover have "ls_world st' = w'" "ls_ctx st' = c'" by (simp_all add: that(3) default_tool_router_def t i)
    ultimately show ?thesis using that(2) same_gate_trans by blast
  qed
  then show ?thesis by (auto simp: loop_stable_def step_stable_def)
qed

text \<open>Whatever the model asks for during a turn, the outside world is only ever changed through
  open gates: take any property \<open>Q\<close> of the world that every handler keeps whose gate is open in the
  turn's context (role allowed, and approval granted under this turn's id where it is required).
  If \<open>Q\<close> holds when the turn starts, it holds when the turn ends, is paused, or fails.\<close>

theorem turn_changes_world_only_through_gates:
  assumes "run_agent_turn env stop hook sid tid prompt names st = (e, st')" and "Q (ls_world st)"
    and "\<forall>name entry inp c w. map_of (te_registry (le_tools env)) name = Some entry \<and>
      gate_open (tool_spec entry) (ls_ctx st) name \<and> Q w \<longrightarrow> Q (snd (tool_handler entry inp c w))"
  shows "Q (ls_world st') \<and> same_gate (ls_ctx st) (ls_ctx st')"
proof -
  have "loop_stable env (\<lambda>s. Q (ls_world s) \<and> same_gate (ls_ctx st) (ls_ctx s))"
    by (rule gate_stable) (use assms(3) in \<open>metis snd_conv\<close>)
  from run_agent_turn_stable [OF this _ assms(1)] assms(2) show ?thesis by simp
qed

section \<open>How often the model is asked\<close>

text \<open>A client whose state counts the attempts made on it.\<close>

lemma stream_attempts_count:
  assumes "stream_attempts att sid tid rl conn c slept = (res, slept', c')"
    and "\<And>c. cnt (snd (att c)) = Suc (cnt c)"
  shows "cnt c < cnt c' \<and> cnt c' \<le> cnt c + 1 + (2 - rl) + (1 - conn)"
  using assms
proof (induction att sid tid rl conn c slept rule: stream_attempts.induct)
  case (1 att sid tid rl conn c slept)
  obtain evs eo c1 where a: "att c = ((evs, eo), c1)" by (metis surj_pair)
  have n: "cnt c1 = Suc (cnt c)" using "1.prems"(2) [of c] a by simp
  show ?case
  proof (cases "\<exists>ex d rl' conn'. eo = Some ex \<and> retry_decision ex rl conn = Some (d, rl', conn')")
    case True
    then obtain ex d rl' conn' where e: "eo = Some ex" "retry_decision ex rl conn = Some (d, rl', conn')" by blast
    have "stream_attempts att sid tid rl' conn' c1 (slept @ [d]) = (res, slept', c')"
      using "1.prems"(1) a e by (subst (asm) stream_attempts.simps) simp
    from "1.IH" [OF a [symmetric] refl e(1,2) refl refl this "1.prems"(2)] n retry_decision_measure [OF e(2)]
    show ?thesis by linarith
  next
    case False
    then have "c' = c1"
      using "1.prems"(1) a by (subst (asm) stream_attempts.simps) (auto split: option.splits)
    with n show ?thesis by simp
  qed
qed

lemma client_step_stable: "step_stable env (\<lambda>st. R (ls_client st))"
  by (simp add: step_stable_def default_tool_router_def split: prod.splits)

lemma agent_rounds_attempts:
  fixes st :: "('a, 'w, 'c, 'h) loop_state" and env :: "('a, 'w, 'c) loop_env"
  assumes "\<And>p ms t c. cnt (snd (le_stream env p ms t c)) = Suc (cnt c)"
  shows "cnt (ls_client st) \<le> k \<Longrightarrow> ends (\<lambda>_ s. cnt (ls_client s) \<le> k + 4 * rounds) (\<lambda>s. cnt (ls_client s) \<le> k + 4 * rounds)
     (agent_rounds env stop hook sid tid prompt tools rounds st)"
proof (induction rounds arbitrary: st k)
  case (Suc rounds)
  let ?R = "\<lambda>s :: ('a, 'w, 'c, 'h) loop_state. cnt (ls_client s) \<le> k + 4"
  have R: "cnt c \<le> k + 4" if "stream_attempts (le_stream env prompt (ls_messages st) tools) sid tid 0 0 (ls_client st) []
        = (res, slept, c)" for res slept c
    using stream_attempts_count [where cnt = cnt, OF that] assms Suc.prems by fastforce
  note stable = client_step_stable [of env "\<lambda>c. cnt c \<le> k + 4"]
  have ih: "cnt (ls_client s) \<le> k + 4 \<Longrightarrow> ends (\<lambda>_ s. cnt (ls_client s) \<le> k + 4 * Suc rounds)
      (\<lambda>s. cnt (ls_client s) \<le> k + 4 * Suc rounds) (agent_rounds env stop hook sid tid prompt tools rounds s)" for s
    using Suc.IH [of s "k + 4"] by (simp add: algebra_simps)
  show ?case
  proof (rule ends_round [where R = ?R])
    fix st2 :: "('a, 'w, 'c, 'h) loop_state" and m assume "?R st2"
    from dispatch_stable [OF stable step_stableD(5) [OF stable this], of stop hook sid tid "fm_content m" "[]" False]
    show "ends (\<lambda>_ s. cnt (ls_client s) \<le> k + 4 * Suc rounds) (\<lambda>(results, pending, st4).
          let st5 = (if results \<noteq> [] then push_message (user_results results) st4 else st4)
          in if pending then cnt (ls_client st5) \<le> k + 4 * Suc rounds
             else ends (\<lambda>_ s. cnt (ls_client s) \<le> k + 4 * Suc rounds) (\<lambda>s. cnt (ls_client s) \<le> k + 4 * Suc rounds)
               (agent_rounds env stop hook sid tid prompt tools rounds st5))
        (dispatch_blocks env stop hook sid tid (fm_content m) [] False (push_message (assistant_turn m) st2))"
      by (rule ends_mono) (auto simp: Let_def push_message_def intro!: ih [simplified])
  next
    fix deltas fm slept c
    assume a: "stream_attempts (le_stream env prompt (ls_messages st) tools) sid tid 0 0 (ls_client st) []
        = (Inr (deltas, fm), slept, c)"
    show "ends (\<lambda>_ s. cnt (ls_client s) \<le> k + 4 * Suc rounds) ?R
        (yield_all stop deltas (st\<lparr>ls_client := c, ls_sleeps := ls_sleeps st @ slept\<rparr>))"
      by (rule ends_mono [OF yield_stable(3) [OF stable]]) (use R [OF a] in simp_all)
  next
    fix ex slept c
    assume a: "stream_attempts (le_stream env prompt (ls_messages st) tools) sid tid 0 0 (ls_client st) []
        = (Inl ex, slept, c)"
    show "ends (\<lambda>_ s. cnt (ls_client s) \<le> k + 4 * Suc rounds) (\<lambda>s. cnt (ls_client s) \<le> k + 4 * Suc rounds)
        (yield_new stop ((event ERROR sid tid)\<lparr>ev_error_message := Some (failure_text ex)\<rparr>)
          (st\<lparr>ls_client := c, ls_sleeps := ls_sleeps st @ slept\<rparr>))"
      by (rule ends_mono [OF yield_stable(2) [OF stable]]) (use R [OF a] in simp_all)
  qed (auto simp: push_message_def)
qed simp

text \<open>Claim C30. A turn asks the model at most 32 times: at most \<open>MAX_TOOL_LOOPS\<close> = 8 rounds, and in each at
  most four attempts, the first, two retries after rate limits and one after a connection error. The
  turn therefore always ends, whatever the API does.\<close>

theorem turn_attempts_bounded:
  assumes "run_agent_turn env stop hook sid tid prompt names st = (e, st')"
    and "\<forall>p ms t c. cnt (snd (le_stream env p ms t c)) = Suc (cnt c)"
  shows "cnt (ls_client st') \<le> cnt (ls_client st) + 32"
  using agent_rounds_attempts [where cnt = cnt and rounds = MAX_TOOL_LOOPS and st = st and env = env,
      OF assms(2) [rule_format] order_refl, of stop hook sid tid prompt
      "anthropic_tool_defs (te_registry (le_tools env)) None (Some names)"] assms(1)
  by (auto simp: run_agent_turn_def MAX_TOOL_LOOPS_def ends_def split: sum.splits)

section \<open>The event stream of a turn\<close>

text \<open>What both consumers of the generator do: they abandon it at the first request for approval.\<close>

definition stops_at_approval :: "agent_event \<Rightarrow> bool" where
  "stops_at_approval ev \<longleftrightarrow> ev_kind ev = APPROVAL_REQUEST"

definition plain_event :: "string \<Rightarrow> string \<Rightarrow> agent_event \<Rightarrow> bool" where
  "plain_event sid tid ev \<longleftrightarrow> ev_session_id ev = sid \<and> ev_turn_id ev = tid \<and> ev_kind ev \<notin> {FINAL, APPROVAL_REQUEST}"

text \<open>\<open>plain_since\<close>: only such events came after the first \<open>evs0\<close>; \<open>paused_since\<close>: and then one request.\<close>

definition plain_since :: "string \<Rightarrow> string \<Rightarrow> agent_event list \<Rightarrow> ('a, 'w, 'c, 'h) loop_state \<Rightarrow> bool" where
  "plain_since sid tid evs0 st \<longleftrightarrow> (\<exists>evs. ls_events st = evs0 @ evs \<and> list_all (plain_event sid tid) evs)"

definition paused_since :: "string \<Rightarrow> string \<Rightarrow> agent_event list \<Rightarrow> ('a, 'w, 'c, 'h) loop_state \<Rightarrow> bool" where
  "paused_since sid tid evs0 st \<longleftrightarrow> (\<exists>evs ev. ls_events st = evs0 @ evs @ [ev] \<and> list_all (plain_event sid tid) evs
     \<and> ev_kind ev = APPROVAL_REQUEST \<and> ev_session_id ev = sid \<and> ev_turn_id ev = tid)"

definition turn_events :: "string \<Rightarrow> string \<Rightarrow> agent_event list \<Rightarrow> gen_end \<Rightarrow> ('a, 'w, 'c, 'h) loop_state \<Rightarrow> bool" where
  "turn_events sid tid evs0 e st = (if e = Closed then paused_since sid tid evs0 st else plain_since sid tid evs0 st)"

definition turn_event :: "string \<Rightarrow> string \<Rightarrow> agent_event \<Rightarrow> bool" where
  "turn_event sid tid ev \<longleftrightarrow> ev_session_id ev = sid \<and> ev_turn_id ev = tid \<and> ev_kind ev \<noteq> FINAL"

lemma plain_since_snoc:
  assumes "plain_since sid tid evs0 st" "turn_event sid tid ev"
  shows "if stops_at_approval ev then paused_since sid tid evs0 (st\<lparr>ls_events := ls_events st @ [ev]\<rparr>)
     else plain_since sid tid evs0 (st\<lparr>ls_events := ls_events st @ [ev]\<rparr>)"
  using assms by (fastforce simp: plain_since_def paused_since_def turn_event_def plain_event_def stops_at_approval_def)

lemma yield_turn_events:
  assumes "plain_since sid tid evs0 st"
  shows "turn_event sid tid ev \<Longrightarrow> ends (turn_events sid tid evs0) (plain_since sid tid evs0) (yield_event stops_at_approval ev st)"
    and "turn_event sid tid ev \<Longrightarrow> ends (turn_events sid tid evs0) (plain_since sid tid evs0) (yield_new stops_at_approval ev st)"
    and "list_all (turn_event sid tid) evs \<Longrightarrow>
      ends (turn_events sid tid evs0) (plain_since sid tid evs0) (yield_all stops_at_approval evs st)"
proof -
  have e: "ends (turn_events sid tid evs0) (plain_since sid tid evs0) (yield_event stops_at_approval ev st)"
    if "turn_event sid tid ev" "plain_since sid tid evs0 st" for ev st
    using plain_since_snoc [OF that(2,1)] by (auto simp: yield_event_def Let_def turn_events_def split: if_splits)
  then show "turn_event sid tid ev \<Longrightarrow>
      ends (turn_events sid tid evs0) (plain_since sid tid evs0) (yield_event stops_at_approval ev st)"
    using assms by blast
  show "ends (turn_events sid tid evs0) (plain_since sid tid evs0) (yield_new stops_at_approval ev st)"
    if "turn_event sid tid ev"
    using assms that
    by (intro ends_yield_new e) (auto simp: turn_events_def turn_event_def dest: agent_event_fields)
  show "ends (turn_events sid tid evs0) (plain_since sid tid evs0) (yield_all stops_at_approval evs st)"
    if "list_all (turn_event sid tid) evs"
    using that assms by (induction evs arbitrary: st) (auto intro: ends_bind e)
qed

lemma tool_answer_event: "tool_answer sid tid name cid out = (ev, result, waits) \<Longrightarrow> turn_event sid tid ev"
  by (auto simp: tool_answer_def turn_event_def Let_def split: outcome_kind.splits)

lemma collect_stream_events:
  "list_all (turn_event sid tid) (fst acc) \<Longrightarrow> list_all (turn_event sid tid) (fst (collect_stream sid tid evs acc))"
  by (induction sid tid evs acc rule: collect_stream.induct) (auto simp: Let_def turn_event_def split: option.splits)

lemma stream_attempts_success:
  "stream_attempts att sid tid rl conn c slept = (Inr x, slept', c') \<Longrightarrow>
     \<exists>c1 evs. att c1 = ((evs, None), c') \<and> x = collect_stream sid tid evs ([], None)"
proof (induction att sid tid rl conn c slept rule: stream_attempts.induct)
  case (1 att sid tid rl conn c slept)
  obtain evs eo c1 where a: "att c = ((evs, eo), c1)" by (metis surj_pair)
  show ?case
  proof (cases "\<exists>ex d rl' conn'. eo = Some ex \<and> retry_decision ex rl conn = Some (d, rl', conn')")
    case True
    then obtain ex d rl' conn' where e: "eo = Some ex" "retry_decision ex rl conn = Some (d, rl', conn')" by blast
    have "stream_attempts att sid tid rl' conn' c1 (slept @ [d]) = (Inr x, slept', c')"
      using "1.prems" a e by (subst (asm) stream_attempts.simps) simp
    from "1.IH" [OF a [symmetric] refl e(1,2) refl refl this] show ?thesis .
  next
    case False
    then show ?thesis
      using "1.prems" a by (subst (asm) stream_attempts.simps) (auto split: option.splits)
  qed
qed

lemma stream_attempts_events:
  assumes "stream_attempts att sid tid rl conn c slept = (Inr (deltas, fm), slept', c')"
  shows "list_all (turn_event sid tid) deltas"
proof -
  obtain evs where "(deltas, fm) = collect_stream sid tid evs ([], None)"
    using stream_attempts_success [OF assms] by blast
  then show ?thesis using collect_stream_events [of sid tid "([], None)" evs] by (metis fst_conv list.pred_inject(1))
qed

lemma stream_attempts_text:
  assumes "stream_attempts att sid tid rl conn c slept = (Inr (deltas, fm), slept', c')"
  shows "list_all (\<lambda>ev. ev_kind ev = TEXT_DELTA) deltas"
proof -
  obtain evs where *: "(deltas, fm) = collect_stream sid tid evs ([], None)"
    using stream_attempts_success [OF assms] by blast
  have "list_all (\<lambda>ev. ev_kind ev = TEXT_DELTA) (fst acc) \<Longrightarrow>
      list_all (\<lambda>ev. ev_kind ev = TEXT_DELTA) (fst (collect_stream sid tid evs acc))" for acc
    by (induction sid tid evs acc rule: collect_stream.induct) (auto simp: Let_def split: option.splits)
  from this [of "([], None)"] * show ?thesis by (metis fst_conv list.pred_inject(1))
qed

definition hook_ok :: "string \<Rightarrow> string \<Rightarrow> 'h hook option \<Rightarrow> bool" where
  "hook_ok sid tid hook \<longleftrightarrow>
     (\<forall>name inp h evs h'. call_hook hook name inp h = (Some evs, h') \<longrightarrow> list_all (turn_event sid tid) evs)"

lemma plain_since_frame [simp]:
  "plain_since sid tid evs0 (push_message m st) = plain_since sid tid evs0 st"
  "turn_events sid tid evs0 e (push_message m st) = turn_events sid tid evs0 e st"
  "plain_since sid tid evs0 (st\<lparr>ls_hook := h\<rparr>) = plain_since sid tid evs0 st"
  "plain_since sid tid evs0 (st\<lparr>ls_client := c, ls_sleeps := sl\<rparr>) = plain_since sid tid evs0 st"
  "turn_events sid tid evs0 Finished st = plain_since sid tid evs0 st"
  by (simp_all add: plain_since_def paused_since_def turn_events_def push_message_def)

lemma router_events: "default_tool_router env name inp st = (out, st') \<Longrightarrow> ls_events st' = ls_events st"
  by (auto simp: default_tool_router_def split: prod.splits)

lemma dispatch_turn_events:
  fixes st :: "('a, 'w, 'c, 'h) loop_state" and hook :: "'h hook option"
  assumes hook: "hook_ok sid tid hook"
  shows "plain_since sid tid evs0 st \<Longrightarrow> ends (turn_events sid tid evs0) (\<lambda>(_, _, st'). plain_since sid tid evs0 st')
     (dispatch_blocks env stops_at_approval hook sid tid bs results pending st)"
proof (induction bs arbitrary: results pending st)
  case (Cons b bs)
  show ?case
  proof (cases b)
    case (ToolUseBlock call_id name inp)
    show ?thesis unfolding ToolUseBlock
    proof (rule ends_tool_call [where R = "plain_since sid tid evs0"])
      fix st1 st2 :: "('a, 'w, 'c, 'h) loop_state" and h' out ev result waits
      assume "plain_since sid tid evs0 st1" and r: "default_tool_router env name inp (st1\<lparr>ls_hook := h'\<rparr>) = (out, st2)"
        and a: "tool_answer sid tid name call_id out = (ev, result, waits)"
      then have "plain_since sid tid evs0 st2" using router_events [OF r] by (simp add: plain_since_def)
      from yield_turn_events(2) [OF this tool_answer_event [OF a]]
      show "ends (turn_events sid tid evs0) (\<lambda>st3. ends (turn_events sid tid evs0) (\<lambda>(_, _, st'). plain_since sid tid evs0 st')
          (dispatch_blocks env stops_at_approval hook sid tid bs (results @ [result]) (pending \<or> waits) st3))
        (yield_new stops_at_approval ev st2)"
        by (rule ends_weaken) (rule Cons.IH)
    next
      fix st1 :: "('a, 'w, 'c, 'h) loop_state" and evs h'
      assume "plain_since sid tid evs0 st1" "call_hook hook name inp (ls_hook st1) = (Some evs, h')"
      then show "ends (turn_events sid tid evs0) (\<lambda>st2. turn_events sid tid evs0 Finished
          (push_message (user_results (results @ [ToolResultBlock call_id ''handled'' None])) st2))
        (yield_all stops_at_approval evs (st1\<lparr>ls_hook := h'\<rparr>))"
        using hook by (simp, intro yield_turn_events(3)) (simp, unfold hook_ok_def, blast)
    qed (rule yield_turn_events(2) [OF Cons.prems], simp add: turn_event_def)
  qed (use Cons in simp_all)
qed simp

lemma agent_rounds_events:
  fixes st :: "('a, 'w, 'c, 'h) loop_state" and hook :: "'h hook option"
  assumes hook: "hook_ok sid tid hook"
  shows "plain_since sid tid evs0 st \<Longrightarrow> ends (turn_events sid tid evs0) (plain_since sid tid evs0)
     (agent_rounds env stops_at_approval hook sid tid prompt tools rounds st)"
proof (induction rounds arbitrary: st)
  case (Suc rounds)
  show ?case
  proof (rule ends_round [where R = "plain_since sid tid evs0"])
    fix st2 :: "('a, 'w, 'c, 'h) loop_state" and m assume "plain_since sid tid evs0 st2"
    then have "plain_since sid tid evs0 (push_message (assistant_turn m) st2)" by simp
    from dispatch_turn_events [OF hook this]
    show "ends (turn_events sid tid evs0) (\<lambda>(results, pending, st4).
          let st5 = (if results \<noteq> [] then push_message (user_results results) st4 else st4)
          in if pending then turn_events sid tid evs0 Finished st5
             else ends (turn_events sid tid evs0) (plain_since sid tid evs0)
               (agent_rounds env stops_at_approval hook sid tid prompt tools rounds st5))
        (dispatch_blocks env stops_at_approval hook sid tid (fm_content m) [] False (push_message (assistant_turn m) st2))"
      by (rule ends_weaken) (auto simp: Let_def intro!: Suc.IH)
  qed (use Suc.prems in \<open>auto simp: turn_event_def intro: yield_turn_events dest: stream_attempts_events\<close>)
qed simp

lemma run_agent_turn_events:
  assumes "hook_ok sid tid hook" "run_agent_turn env stops_at_approval hook sid tid prompt names st = (e, st')"
  shows "turn_events sid tid (ls_events st) e st'"
proof -
  have "plain_since sid tid (ls_events st) st" by (simp add: plain_since_def)
  from agent_rounds_events [OF assms(1) this, of env prompt
      "anthropic_tool_defs (te_registry (le_tools env)) None (Some names)" MAX_TOOL_LOOPS] assms(2)
  show ?thesis by (auto simp: run_agent_turn_def ends_def split: sum.splits)
qed

section \<open>The transcript of a turn\<close>

definition tool_use_ids :: "message \<Rightarrow> string list" where
  "tool_use_ids m = List.map_filter (\<lambda>b. case b of ToolUseBlock i _ _ \<Rightarrow> Some i | _ \<Rightarrow> None) (msg_content m)"

definition answer_ids :: "message \<Rightarrow> string list" where
  "answer_ids m = List.map_filter (\<lambda>b. case b of ToolResultBlock i _ _ \<Rightarrow> Some i | _ \<Rightarrow> None) (msg_content m)"

text \<open>Rounds in which every \<^verbatim>\<open>tool_use\<close> is answered, in order, by the very next message.\<close>

inductive closed_rounds :: "message list \<Rightarrow> bool" where
  none: "closed_rounds []"
| idle: "closed_rounds ms \<Longrightarrow> msg_role a = RoleAssistant \<Longrightarrow> tool_use_ids a = [] \<Longrightarrow> closed_rounds (a # ms)"
| answered: "closed_rounds ms \<Longrightarrow> msg_role a = RoleAssistant \<Longrightarrow> msg_role u = RoleUser \<Longrightarrow>
    tool_use_ids a \<noteq> [] \<Longrightarrow> answer_ids u = tool_use_ids a \<Longrightarrow> closed_rounds (a # u # ms)"

lemma closed_rounds_append: "closed_rounds ms \<Longrightarrow> closed_rounds ms' \<Longrightarrow> closed_rounds (ms @ ms')"
  by (induction rule: closed_rounds.induct) (auto intro: closed_rounds.intros)

definition closed_since :: "message list \<Rightarrow> ('a, 'w, 'c, 'h) loop_state \<Rightarrow> bool" where
  "closed_since m0 st \<longleftrightarrow> (\<exists>ms. ls_messages st = m0 @ ms \<and> closed_rounds ms)"

text \<open>
  How a turn may leave the transcript after its closed rounds. One that finished leaves nothing more, or a last
  reply whose stop reason is not \<^verbatim>\<open>tool_use\<close>, or, where the caller intercepts calls, a reply and the answers
  to its calls up to the intercepted one. One that was abandoned leaves a reply with calls and no answers; one that
  raised the same or nothing more.
\<close>

definition transcript_end :: "bool \<Rightarrow> message list \<Rightarrow> gen_end \<Rightarrow> ('a, 'w, 'c, 'h) loop_state \<Rightarrow> bool" where
  "transcript_end hooked m0 e st \<longleftrightarrow> (\<exists>ms tl. ls_messages st = m0 @ ms @ tl \<and> closed_rounds ms \<and>
     (if e = Finished
      then tl = [] \<or> (\<exists>m. tl = [assistant_turn m] \<and> fm_stop_reason m \<noteq> Some ''tool_use'')
        \<or> hooked \<and> (\<exists>a u n. tl = [a, u] \<and> msg_role a = RoleAssistant \<and> msg_role u = RoleUser
            \<and> 0 < n \<and> n \<le> length (tool_use_ids a) \<and> answer_ids u = take n (tool_use_ids a))
      else tl = [] \<and> e \<noteq> Closed \<or> (\<exists>a. tl = [a] \<and> msg_role a = RoleAssistant \<and> tool_use_ids a \<noteq> [])))"

lemma yield_messages:
  fixes st :: "('a, 'w, 'c, 'h) loop_state"
  assumes "ls_messages st = ms"
  shows "ends (\<lambda>e s. e \<noteq> Finished \<and> ls_messages s = ms) (\<lambda>s. ls_messages s = ms) (yield_new stop ev st)"
    and "ends (\<lambda>e s. e \<noteq> Finished \<and> ls_messages s = ms) (\<lambda>s. ls_messages s = ms) (yield_all stop evs st)"
proof -
  have e: "ends (\<lambda>e s. e \<noteq> Finished \<and> ls_messages s = ms) (\<lambda>s. ls_messages s = ms) (yield_event stop ev s)"
    if "ls_messages s = ms" for ev and s :: "('a, 'w, 'c, 'h) loop_state"
    using that by (auto simp: yield_event_def Let_def)
  then show "ends (\<lambda>e s. e \<noteq> Finished \<and> ls_messages s = ms) (\<lambda>s. ls_messages s = ms) (yield_new stop ev st)"
    using assms by (intro ends_yield_new) auto
  show "ends (\<lambda>e s. e \<noteq> Finished \<and> ls_messages s = ms) (\<lambda>s. ls_messages s = ms) (yield_all stop evs st)"
    using assms
  proof (induction evs arbitrary: st)
    case (Cons ev evs)
    show ?case unfolding yield_all.simps by (rule ends_bind [OF e [OF Cons.prems] Cons.IH])
  qed simp
qed

lemma router_messages: "default_tool_router env name inp st = (out, st') \<Longrightarrow> ls_messages st' = ls_messages st"
  by (auto simp: default_tool_router_def split: prod.splits)

lemma tool_answer_result: "tool_answer sid tid name cid out = (ev, result, waits) \<Longrightarrow> \<exists>c e. result = ToolResultBlock cid c e"
  by (auto simp: tool_answer_def Let_def split: outcome_kind.splits)

definition result_ids :: "block list \<Rightarrow> string list" where
  "result_ids bs = answer_ids (user_results bs)"

definition call_ids :: "block list \<Rightarrow> string list" where
  "call_ids bs = List.map_filter (\<lambda>b. case b of ToolUseBlock i _ _ \<Rightarrow> Some i | _ \<Rightarrow> None) bs"

lemma ids_simps [simp]:
  "result_ids [] = []" "result_ids (bs @ [ToolResultBlock i c e]) = result_ids bs @ [i]"
  "call_ids [] = []" "call_ids (ToolUseBlock i n inp # bs) = i # call_ids bs"
  "call_ids (TextBlock t # bs) = call_ids bs" "call_ids (OtherBlock t # bs) = call_ids bs"
  "call_ids (ToolResultBlock i c e # bs) = call_ids bs"
  by (simp_all add: result_ids_def answer_ids_def user_results_def call_ids_def List.map_filter_def)

lemma tool_use_ids_assistant: "tool_use_ids (assistant_turn m) = call_ids (fm_content m)"
proof -
  have "call_ids (map block_to_dict bs) = call_ids bs" for bs
    by (induction bs) (auto simp: block_to_dict_def split: block.splits)
  then show ?thesis by (simp add: tool_use_ids_def assistant_turn_def call_ids_def)
qed

text \<open>
  The messages after a dispatch that went through are those before, and its results answer all the calls. One that ended
  has added nothing, unless the caller took over a call: then the answers up to that call.
\<close>

definition dispatch_end :: "bool \<Rightarrow> message list \<Rightarrow> string list \<Rightarrow> string list \<Rightarrow> gen_end \<Rightarrow> ('a, 'w, 'c, 'h) loop_state \<Rightarrow> bool" where
  "dispatch_end hooked ms answered calls e s \<longleftrightarrow> calls \<noteq> [] \<and>
     (if e = Finished then hooked \<and> (\<exists>rs n. ls_messages s = ms @ [user_results rs] \<and> result_ids rs = answered @ take n calls
        \<and> 0 < n \<and> n \<le> length calls)
      else ls_messages s = ms)"

definition dispatch_done :: "message list \<Rightarrow> block list \<Rightarrow> string list \<Rightarrow> block list \<times> bool \<times> ('a, 'w, 'c, 'h) loop_state \<Rightarrow> bool" where
  "dispatch_done ms results calls = (\<lambda>(results', _, s). ls_messages s = ms \<and> result_ids results' = result_ids results @ calls
     \<and> (results' = [] \<longleftrightarrow> results = [] \<and> calls = []))"

lemma dispatch_end_other: "e \<noteq> Finished \<Longrightarrow> dispatch_end hooked ms answered calls e s \<longleftrightarrow> calls \<noteq> [] \<and> ls_messages s = ms"
  by (simp add: dispatch_end_def)

lemma dispatch_end_handled:
  "ls_messages s = ms \<Longrightarrow> hooked \<Longrightarrow> dispatch_end hooked ms (result_ids results) (i # calls) Finished
     (push_message (user_results (results @ [ToolResultBlock i c e])) s)"
  by (auto simp: dispatch_end_def push_message_def intro!: exI [of _ "results @ [ToolResultBlock i c e]"] exI [of _ 1])

lemma dispatch_end_later: "dispatch_end hooked ms (answered @ [i]) calls e s \<Longrightarrow> dispatch_end hooked ms answered (i # calls) e s"
  unfolding dispatch_end_def by (auto split: if_splits) (metis Suc_le_mono take_Suc_Cons zero_less_Suc)

lemma dispatch_done_later:
  "dispatch_done ms (results @ [ToolResultBlock i c e]) calls x \<Longrightarrow> dispatch_done ms results (i # calls) x"
  by (auto simp: dispatch_done_def)

lemma dispatch_results:
  fixes st :: "('a, 'w, 'c, 'h) loop_state"
  assumes "ls_messages st = ms"
  shows "ends (dispatch_end (hook \<noteq> None) ms (result_ids results) (call_ids bs)) (dispatch_done ms results (call_ids bs))
     (dispatch_blocks env stop hook sid tid bs results pending st)"
  using assms
proof (induction bs arbitrary: results pending st)
  case Nil
  then show ?case by (simp add: dispatch_done_def)
next
  case (Cons b bs)
  show ?case
  proof (cases b)
    case (ToolUseBlock call_id name inp)
    show ?thesis unfolding ToolUseBlock
    proof (rule ends_tool_call [where R = "\<lambda>s. ls_messages s = ms"])
      fix st1 :: "('a, 'w, 'c, 'h) loop_state" and evs h'
      assume s1: "ls_messages st1 = ms" and h: "call_hook hook name inp (ls_hook st1) = (Some evs, h')"
      then have "hook \<noteq> None" by (cases hook) (simp_all add: call_hook_def)
      moreover have "ls_messages (st1\<lparr>ls_hook := h'\<rparr>) = ms" using s1 by simp
      ultimately show "ends (dispatch_end (hook \<noteq> None) ms (result_ids results) (call_ids (ToolUseBlock call_id name inp # bs)))
          (\<lambda>st2. dispatch_end (hook \<noteq> None) ms (result_ids results) (call_ids (ToolUseBlock call_id name inp # bs)) Finished
             (push_message (user_results (results @ [ToolResultBlock call_id ''handled'' None])) st2))
          (yield_all stop evs (st1\<lparr>ls_hook := h'\<rparr>))"
        by (intro ends_mono [OF yield_messages(2)]) (auto simp: dispatch_end_other dispatch_end_handled)
    next
      fix st1 st2 :: "('a, 'w, 'c, 'h) loop_state" and h' out ev result waits
      assume s1: "ls_messages st1 = ms"
        and r: "default_tool_router env name inp (st1\<lparr>ls_hook := h'\<rparr>) = (out, st2)"
        and a: "tool_answer sid tid name call_id out = (ev, result, waits)"
      have s2: "ls_messages st2 = ms" using router_messages [OF r] s1 by simp
      obtain c e where res: "result = ToolResultBlock call_id c e" using tool_answer_result [OF a] by blast
      show "ends (dispatch_end (hook \<noteq> None) ms (result_ids results) (call_ids (ToolUseBlock call_id name inp # bs)))
          (\<lambda>st3. ends (dispatch_end (hook \<noteq> None) ms (result_ids results) (call_ids (ToolUseBlock call_id name inp # bs)))
             (dispatch_done ms results (call_ids (ToolUseBlock call_id name inp # bs)))
             (dispatch_blocks env stop hook sid tid bs (results @ [result]) (pending \<or> waits) st3))
          (yield_new stop ev st2)"
      proof (rule ends_mono [OF yield_messages(1) [OF s2]])
        fix s3 :: "('a, 'w, 'c, 'h) loop_state" assume "ls_messages s3 = ms"
        from Cons.IH [OF this, of "results @ [result]" "pending \<or> waits"]
        show "ends (dispatch_end (hook \<noteq> None) ms (result_ids results) (call_ids (ToolUseBlock call_id name inp # bs)))
             (dispatch_done ms results (call_ids (ToolUseBlock call_id name inp # bs)))
             (dispatch_blocks env stop hook sid tid bs (results @ [result]) (pending \<or> waits) s3)"
          by (rule ends_mono) (auto simp: res intro: dispatch_end_later dispatch_done_later)
      qed (auto simp: dispatch_end_other)
    next
      show "ends (dispatch_end (hook \<noteq> None) ms (result_ids results) (call_ids (ToolUseBlock call_id name inp # bs)))
         (\<lambda>s. ls_messages s = ms) (yield_new stop ((event TOOL_USE sid tid)\<lparr>ev_tool_name := Some name,
        ev_tool_input := Some inp, ev_tool_call_id := Some call_id\<rparr>) st)"
        by (rule ends_mono [OF yield_messages(1) [OF Cons.prems]]) (auto simp: dispatch_end_other)
    qed
  qed (use Cons.IH [OF Cons.prems, of results pending] in simp_all)
qed

lemma transcript_end_closed: "closed_since m0 st \<Longrightarrow> e \<noteq> Closed \<Longrightarrow> transcript_end hooked m0 e st"
  unfolding closed_since_def transcript_end_def by (metis append_Nil2)

lemma transcript_end_last:
  assumes "closed_since m0 st" "fm_stop_reason m \<noteq> Some ''tool_use''"
  shows "transcript_end hooked m0 Finished (push_message (assistant_turn m) st)"
proof -
  obtain ms where "ls_messages st = m0 @ ms" "closed_rounds ms" using assms(1) by (auto simp: closed_since_def)
  then show ?thesis unfolding transcript_end_def using assms(2)
    by (intro exI [of _ ms] exI [of _ "[assistant_turn m]"]) (auto simp: push_message_def)
qed

lemma transcript_end_dispatch:
  assumes "closed_since m0 st" "dispatch_end hooked (ls_messages st @ [assistant_turn m]) [] (call_ids (fm_content m)) e s"
  shows "transcript_end hooked m0 e s"
proof -
  obtain ms where ms: "ls_messages st = m0 @ ms" "closed_rounds ms" using assms(1) by (auto simp: closed_since_def)
  have roles: "msg_role (assistant_turn m) = RoleAssistant" "\<And>rs. msg_role (user_results rs) = RoleUser"
    by (simp_all add: assistant_turn_def user_results_def)
  show ?thesis
  proof (cases "e = Finished")
    case True
    then obtain rs n where "hooked" "ls_messages s = (ls_messages st @ [assistant_turn m]) @ [user_results rs]"
      "answer_ids (user_results rs) = take n (tool_use_ids (assistant_turn m))" "0 < n" "n \<le> length (tool_use_ids (assistant_turn m))"
      using assms(2) by (auto simp: dispatch_end_def result_ids_def tool_use_ids_assistant)
    then show ?thesis unfolding transcript_end_def using ms roles True
      by (intro exI [of _ ms] exI [of _ "[assistant_turn m, user_results rs]"]) auto
  next
    case False
    then show ?thesis unfolding transcript_end_def using ms roles assms(2)
      by (intro exI [of _ ms] exI [of _ "[assistant_turn m]"]) (auto simp: dispatch_end_other tool_use_ids_assistant)
  qed
qed

lemma yield_all_text:
  "list_all (\<lambda>ev. ev_kind ev = TEXT_DELTA) evs \<Longrightarrow>
   yield_all stops_at_approval evs st = Inr (st\<lparr>ls_events := ls_events st @ evs\<rparr>)"
  by (induction evs arbitrary: st) (auto simp: yield_event_def stops_at_approval_def)

lemma yield_new_error:
  "ends (\<lambda>e s. e \<noteq> Closed \<and> ls_messages s = ls_messages st) (\<lambda>s. ls_messages s = ls_messages st)
     (yield_new stops_at_approval ((event ERROR sid tid)\<lparr>ev_error_message := m\<rparr>) st)"
  by (rule ends_yield_new) (auto simp: yield_event_def stops_at_approval_def Let_def dest: agent_event_fields)

lemma closed_since_round:
  assumes "closed_since m0 st2" "ls_messages st4 = ls_messages st2 @ [assistant_turn m]"
    and "result_ids results = call_ids (fm_content m)" "results = [] \<longleftrightarrow> call_ids (fm_content m) = []"
  shows "closed_since m0 (if results \<noteq> [] then push_message (user_results results) st4 else st4)"
proof -
  obtain ms where ms: "ls_messages st2 = m0 @ ms" "closed_rounds ms" using assms(1) by (auto simp: closed_since_def)
  have roles: "msg_role (assistant_turn m) = RoleAssistant" "msg_role (user_results results) = RoleUser"
    by (simp_all add: assistant_turn_def user_results_def)
  have "closed_rounds (if results \<noteq> [] then [assistant_turn m, user_results results] else [assistant_turn m])"
  proof (cases "results = []")
    case True
    then show ?thesis using assms(4) roles tool_use_ids_assistant [of m]
      by (auto intro: closed_rounds.none closed_rounds.idle)
  next
    case False
    then show ?thesis using assms(3,4) roles tool_use_ids_assistant [of m]
      by (auto intro!: closed_rounds.answered [OF closed_rounds.none] simp: result_ids_def)
  qed
  from closed_rounds_append [OF ms(2) this] show ?thesis
    using assms(2) ms(1) by (auto simp: closed_since_def push_message_def)
qed

lemma agent_rounds_transcript:
  fixes st :: "('a, 'w, 'c, 'h) loop_state"
  shows "closed_since m0 st \<Longrightarrow> ends (transcript_end (hook \<noteq> None) m0) (closed_since m0)
     (agent_rounds env stops_at_approval hook sid tid prompt tools rounds st)"
proof (induction rounds arbitrary: st)
  case (Suc rounds)
  show ?case
  proof (rule ends_round [where R = "closed_since m0"])
    fix st2 :: "('a, 'w, 'c, 'h) loop_state" and m assume s2: "closed_since m0 st2"
    have "ls_messages (push_message (assistant_turn m) st2) = ls_messages st2 @ [assistant_turn m]"
      by (simp add: push_message_def)
    from dispatch_results [OF this, of hook "[]" "fm_content m" env stops_at_approval sid tid False]
    show "ends (transcript_end (hook \<noteq> None) m0) (\<lambda>(results, pending, st4).
          let st5 = (if results \<noteq> [] then push_message (user_results results) st4 else st4)
          in if pending then transcript_end (hook \<noteq> None) m0 Finished st5
             else ends (transcript_end (hook \<noteq> None) m0) (closed_since m0) (agent_rounds env stops_at_approval hook sid tid prompt tools rounds st5))
        (dispatch_blocks env stops_at_approval hook sid tid (fm_content m) [] False (push_message (assistant_turn m) st2))"
    proof (rule ends_mono)
      fix x :: "block list \<times> bool \<times> ('a, 'w, 'c, 'h) loop_state"
      assume x: "dispatch_done (ls_messages st2 @ [assistant_turn m]) [] (call_ids (fm_content m)) x"
      obtain results pending st4 where x3: "x = (results, pending, st4)" by (cases x)
      have "closed_since m0 (if results \<noteq> [] then push_message (user_results results) st4 else st4)"
        by (rule closed_since_round [OF s2]) (use x x3 in \<open>auto simp: dispatch_done_def\<close>)
      then show "case x of (results, pending, st4) \<Rightarrow>
          let st5 = (if results \<noteq> [] then push_message (user_results results) st4 else st4)
          in if pending then transcript_end (hook \<noteq> None) m0 Finished st5
             else ends (transcript_end (hook \<noteq> None) m0) (closed_since m0) (agent_rounds env stops_at_approval hook sid tid prompt tools rounds st5)"
        unfolding x3 prod.case Let_def by (cases pending; simp add: transcript_end_closed Suc.IH del: not_None_eq split del: if_split)
    qed (use transcript_end_dispatch [OF s2] in simp)
  next
    fix e slept c
    show "ends (transcript_end (hook \<noteq> None) m0) (transcript_end (hook \<noteq> None) m0 Finished)
       (yield_new stops_at_approval ((event ERROR sid tid)\<lparr>ev_error_message := Some (failure_text e)\<rparr>)
         (st\<lparr>ls_client := c, ls_sleeps := ls_sleeps st @ slept\<rparr>))"
      by (rule ends_mono [OF yield_new_error]; rule transcript_end_closed)
        (use Suc.prems in \<open>simp_all add: closed_since_def\<close>)
  next
    fix deltas fm slept c
    assume "stream_attempts (le_stream env prompt (ls_messages st) tools) sid tid 0 0 (ls_client st) []
        = (Inr (deltas, fm), slept, c)"
    from stream_attempts_text [OF this] show "ends (transcript_end (hook \<noteq> None) m0) (closed_since m0)
       (yield_all stops_at_approval deltas (st\<lparr>ls_client := c, ls_sleeps := ls_sleeps st @ slept\<rparr>))"
      using Suc.prems by (simp add: yield_all_text closed_since_def)
  qed (auto intro: transcript_end_closed transcript_end_last)
qed simp

text \<open>Claim C32. The transcript a turn of the loop leaves, for the orchestrator's own loop (which intercepts calls by a hook) and
  a domain agent's (which has none). After the messages present before come rounds in which every call of a reply is answered, one
  for one and in order, by the user message right after it, and then at most one round that is not such. A turn that ran to its end
  leaves nothing more, or a last reply whose stop reason is not \<^verbatim>\<open>tool_use\<close> (its calls, if it has any, are never
  dispatched), or, only when a hook took over a call, the reply with the answers to its calls up to that one. A turn abandoned by its
  consumer at a request for approval always leaves a reply with calls and without any answer: the placeholder
  the code prepares is never recorded. A turn that raised leaves that or nothing more.\<close>

theorem transcript_calls_answered:
  assumes "run_agent_turn env stops_at_approval hook sid tid prompt names st = (e, st')"
  shows "transcript_end (hook \<noteq> None) (ls_messages st) e st'"
proof -
  have "closed_since (ls_messages st) st" by (simp add: closed_since_def closed_rounds.none)
  from agent_rounds_transcript [OF this, of hook env sid tid prompt
      "anthropic_tool_defs (te_registry (le_tools env)) None (Some names)" MAX_TOOL_LOOPS] assms
  show ?thesis by (auto simp: run_agent_turn_def ends_def transcript_end_closed split: sum.splits)
qed

section \<open>Text deltas\<close>

definition delta_texts :: "stream_event list \<Rightarrow> string list" where
  "delta_texts evs = filter (\<lambda>t. t \<noteq> '''') (List.map_filter extract_text_delta evs)"

text \<open>The text of the deltas a round yields is that of the stream, in order and without the empty
  pieces, but each piece is stripped of its leading and trailing white space. The space between two
  words that the model sends in separate deltas is lost to a consumer that joins them.\<close>

theorem delta_texts_are_stripped:
  "map ev_text (fst (collect_stream sid tid evs (buf, fm)))
     = map ev_text buf @ map (\<lambda>t. Some (py_strip t)) (delta_texts evs)"
  by (induction evs arbitrary: buf fm)
    (auto simp: delta_texts_def List.map_filter_def Let_def split: option.splits)

section \<open>Witnesses\<close>

text \<open>A client that plays back a script of attempts and counts them, and the ticket tool of before.\<close>

definition script_stream :: "string \<Rightarrow> message list \<Rightarrow> (string \<times> string \<times> json) list \<Rightarrow>
    (stream_event list \<times> exc option) list \<times> nat \<Rightarrow>
    (stream_event list \<times> exc option) \<times> (stream_event list \<times> exc option) list \<times> nat" where
  "script_stream prompt ms tools c =
     (case fst c of [] \<Rightarrow> (([], None), [], Suc (snd c)) | a # as \<Rightarrow> (a, as, Suc (snd c)))"

definition script_env :: "(audit_event list, nat \<times> nat, (stream_event list \<times> exc option) list \<times> nat) loop_env" where
  "script_env = \<lparr>le_tools = issue_env mem_write, le_stream = script_stream, le_last_final_message = (\<lambda>_. None),
     le_audit_id = (\<lambda>n. ''a'' @ show_nat n), le_clock = (\<lambda>n. (int n, int n, int n))\<rparr>"

definition ask_issue :: "(stream_event list \<times> exc option) list" where
  "ask_issue = [([ContentBlockDelta ''text_delta'' (Some ''Issuing'')], Some \<lparr>ex_mro = [''RateLimitError''], ex_text = ''429'', ex_retry_after = None\<rparr>),
     ([ContentBlockDelta ''text_delta'' (Some ''Issuing''), MessageStop (Some \<lparr>fm_stop_reason = Some ''tool_use'',
        fm_content = [TextBlock ''Issuing'', ToolUseBlock ''c1'' ''issue_ticket'' [(''pnr_id'', JStr ''P1'')]]\<rparr>)], None)]"

definition script_state :: "(string, bool) dict \<Rightarrow>
    (audit_event list, nat \<times> nat, (stream_event list \<times> exc option) list \<times> nat, unit) loop_state" where
  "script_state aps = \<lparr>ls_messages = [\<lparr>msg_role = RoleUser, msg_content = [TextBlock ''Issue P1'']\<rparr>], ls_ctx = issue_ctx aps,
     ls_sink = [], ls_world = (7, 0), ls_client = (ask_issue, 0), ls_hook = (), ls_calls = 0, ls_sleeps = [], ls_events = []\<rparr>"

theorem turn_changes_world_only_through_gates_witness:
  "\<exists>e st'. run_agent_turn script_env stops_at_approval None ''s1'' ''t-1'' ''p'' [''issue_ticket''] (script_state []) = (e, st')
     \<and> ls_world st' = (7, 0)"
proof -
  obtain e st' where r: "run_agent_turn script_env stops_at_approval None ''s1'' ''t-1'' ''p'' [''issue_ticket''] (script_state [])
      = (e, st')" by (metis surj_pair)
  have "ls_world st' = (7, 0) \<and> same_gate (ls_ctx (script_state [])) (ls_ctx st')"
    by (rule turn_changes_world_only_through_gates [where Q = "\<lambda>w. w = (7, 0)", OF r])
      (auto simp: script_state_def script_env_def issue_env_def issue_spec_def issue_ctx_def gate_open_def split: if_splits)
  with r show ?thesis by blast
qed

theorem turn_attempts_bounded_witness:
  "\<exists>e st'. run_agent_turn script_env stops_at_approval None ''s1'' ''t-1'' ''p'' [''issue_ticket''] (script_state []) = (e, st')
     \<and> snd (ls_client st') \<le> 32"
proof -
  obtain e st' where r: "run_agent_turn script_env stops_at_approval None ''s1'' ''t-1'' ''p'' [''issue_ticket''] (script_state [])
      = (e, st')" by (metis surj_pair)
  have "snd (ls_client st') \<le> snd (ls_client (script_state [])) + 32"
    by (rule turn_attempts_bounded [OF r]) (auto simp: script_env_def script_stream_def split: list.splits)
  with r show ?thesis by (auto simp: script_state_def)
qed

lemma script_run_pauses:
  "(case run_agent_turn script_env stops_at_approval None ''s1'' ''t-1'' ''p'' [''issue_ticket''] (script_state []) of
      (e, st') \<Rightarrow> (e, map ev_kind (ls_events st'), snd (ls_client st')))
     = (Closed, [TEXT_DELTA, TOOL_USE, APPROVAL_REQUEST], 2)"
  by code_simp

theorem transcript_calls_answered_witness:
  "\<exists>st'. run_agent_turn script_env stops_at_approval None ''s1'' ''t-1'' ''p'' [''issue_ticket''] (script_state []) = (Closed, st')
     \<and> transcript_end False (ls_messages (script_state [])) Closed st'"
proof -
  obtain st' where "run_agent_turn script_env stops_at_approval None ''s1'' ''t-1'' ''p'' [''issue_ticket''] (script_state [])
      = (Closed, st')" using script_run_pauses by (auto split: prod.splits)
  then show ?thesis using transcript_calls_answered [of script_env None] by fastforce
qed

end
