(* ===== verification/Rate_Limiter.thy ===== *)
theory Rate_Limiter
  imports Prelude
begin

text \<open>
  The per-tenant sliding-window limiter of \<^verbatim>\<open>services/agent_runtime/.../rate_limiter.py\<close>.
  Readings of the monotonic clock are rational numbers of seconds; the deque of a tenant is the list
  of its admission times, oldest first. A raised \<^verbatim>\<open>RateLimitExceededError\<close> is returned as its
  scope, together with the state, which the code has already pruned when it raises.
\<close>

section \<open>The limiter\<close>

datatype limit_scope = HourScope | MinuteScope

definition scope_text :: "limit_scope \<Rightarrow> string" where
  "scope_text s = (case s of HourScope \<Rightarrow> ''hour'' | MinuteScope \<Rightarrow> ''minute'')"

type_synonym limiter = "(string, rat list) dict"

definition MINUTE :: rat where "MINUTE = 60"

definition HOUR :: rat where "HOUR = 3600"

text \<open>The \<^verbatim>\<open>while q and q[0] < cutoff\<close> loop, and the backwards count that stops at the first older entry.\<close>

fun prune :: "rat \<Rightarrow> rat list \<Rightarrow> rat list" where
  "prune cutoff [] = []"
| "prune cutoff (t # q) = (if t < cutoff then prune cutoff q else t # q)"

fun count_recent :: "rat \<Rightarrow> rat list \<Rightarrow> nat" where
  "count_recent cutoff [] = 0"
| "count_recent cutoff (t # older) = (if t \<ge> cutoff then Suc (count_recent cutoff older) else 0)"

definition check :: "rat \<Rightarrow> string \<Rightarrow> int \<Rightarrow> int \<Rightarrow> limiter \<Rightarrow> limit_scope option \<times> limiter" where
  "check now tenant per_minute per_hour st =
     (let q = prune (now - HOUR) (dict_get_or st tenant []);
          minute_count = count_recent (now - MINUTE) (rev q)
      in if int (length q) + 1 > per_hour then (Some HourScope, AList.update tenant q st)
         else if int minute_count + 1 > per_minute then (Some MinuteScope, AList.update tenant q st)
         else (None, AList.update tenant (q @ [now]) st))"

definition reset :: "string option \<Rightarrow> limiter \<Rightarrow> limiter" where
  "reset tenant st = (case tenant of None \<Rightarrow> [] | Some t \<Rightarrow> AList.delete t st)"

text \<open>A sequence of calls with the times they are made at; the result lists the admissions.\<close>

fun check_all :: "int \<Rightarrow> int \<Rightarrow> (rat \<times> string) list \<Rightarrow> limiter \<Rightarrow> (rat \<times> string) list \<times> limiter" where
  "check_all pm ph [] st = ([], st)"
| "check_all pm ph ((now, tenant) # calls) st =
     (let (r, st1) = check now tenant pm ph st; (adm, st2) = check_all pm ph calls st1
      in (if r = None then (now, tenant) # adm else adm, st2))"

section \<open>Specification: a log of admissions that is never pruned\<close>

definition in_window :: "rat \<Rightarrow> rat \<Rightarrow> rat list \<Rightarrow> nat" where
  "in_window now width hist = length (filter (\<lambda>t. now - width \<le> t) hist)"

definition admits :: "rat \<Rightarrow> int \<Rightarrow> int \<Rightarrow> rat list \<Rightarrow> bool" where
  "admits now pm ph hist \<longleftrightarrow> int (in_window now HOUR hist) < ph \<and> int (in_window now MINUTE hist) < pm"

text \<open>The deque of a tenant represents the log: the log in time order, with a stale part missing.\<close>

definition represents :: "rat \<Rightarrow> rat list \<Rightarrow> rat list \<Rightarrow> bool" where
  "represents now hist q \<longleftrightarrow> sorted hist \<and> (\<forall>t\<in>set hist. t \<le> now) \<and>
     (\<exists>old. hist = old @ q \<and> (\<forall>t\<in>set old. t < now - HOUR))"

lemma prune_eq_filter: "sorted q \<Longrightarrow> prune c q = filter (\<lambda>t. c \<le> t) q"
proof (induction q)
  case (Cons t q)
  show ?case
  proof (cases "t < c")
    case False
    then have "\<forall>x\<in>set (t # q). c \<le> x" using Cons.prems by force
    with False show ?thesis by simp
  qed (use Cons in simp)
qed simp

lemma count_recent_eq_filter: "sorted q \<Longrightarrow> count_recent c (rev q) = length (filter (\<lambda>t. c \<le> t) q)"
proof (induction q rule: rev_induct)
  case (snoc t q)
  then have sorted: "sorted q" "\<forall>x\<in>set q. x \<le> t" by (auto simp: sorted_append)
  show ?case
  proof (cases "c \<le> t")
    case False
    with sorted have "filter (\<lambda>t. c \<le> t) q = []" by (auto simp: filter_empty_conv)
    with False show ?thesis by simp
  qed (use snoc.IH sorted in simp)
qed simp

lemma represents_counts:
  assumes "represents now0 hist q" "now0 \<le> now"
  shows "prune (now - HOUR) q = filter (\<lambda>t. now - HOUR \<le> t) hist"
    and "count_recent (now - MINUTE) (rev (prune (now - HOUR) q)) = in_window now MINUTE hist"
proof -
  obtain old where old: "hist = old @ q" "\<forall>t\<in>set old. t < now0 - HOUR" and s: "sorted hist"
    using assms(1) by (auto simp: represents_def)
  have stale: "filter (\<lambda>t. now - HOUR \<le> t) old = []" using old(2) assms(2) by (force simp: filter_empty_conv)
  have sq: "sorted q" using s old(1) by (simp add: sorted_append)
  show p: "prune (now - HOUR) q = filter (\<lambda>t. now - HOUR \<le> t) hist"
    using prune_eq_filter [OF sq] stale old(1) by simp
  have "filter (\<lambda>t. now - MINUTE \<le> t) (filter (\<lambda>t. now - HOUR \<le> t) hist) = filter (\<lambda>t. now - MINUTE \<le> t) hist"
    by (auto simp: HOUR_def MINUTE_def intro: filter_cong)
  with p s show "count_recent (now - MINUTE) (rev (prune (now - HOUR) q)) = in_window now MINUTE hist"
    using count_recent_eq_filter [OF sorted_wrt_filter [OF s, of "\<lambda>t. now - HOUR \<le> t"], of "now - MINUTE"]
    by (simp add: in_window_def)
qed

lemma prune_dropWhile: "prune c q = dropWhile (\<lambda>t. t < c) q"
  by (induction q) auto

lemma represents_pruned:
  assumes "represents now0 hist q" "now0 \<le> now"
  shows "represents now hist (prune (now - HOUR) q)"
proof -
  have s: "sorted hist" "\<forall>t\<in>set hist. t \<le> now" using assms by (auto simp: represents_def)
  have "prune (now - HOUR) q = dropWhile (\<lambda>t. t < now - HOUR) hist"
    using represents_counts(1) [OF assms] prune_eq_filter [OF s(1)] prune_dropWhile by metis
  then have "hist = takeWhile (\<lambda>t. t < now - HOUR) hist @ prune (now - HOUR) q" by simp
  with s show ?thesis unfolding represents_def by (metis set_takeWhileD)
qed

lemma represents_snoc:
  assumes "represents now hist q"
  shows "represents now (hist @ [now]) (q @ [now])"
  using assms by (auto simp: represents_def sorted_append)

section \<open>Refinement\<close>

definition limiter_ok :: "rat \<Rightarrow> (string \<Rightarrow> rat list) \<Rightarrow> limiter \<Rightarrow> bool" where
  "limiter_ok now H st \<longleftrightarrow> (\<forall>tenant. represents now (H tenant) (dict_get_or st tenant []))"

lemma represents_later:
  assumes "represents now0 hist q" "now0 \<le> now"
  shows "represents now hist q"
proof -
  obtain old where "hist = old @ q" "\<forall>t\<in>set old. t < now0 - HOUR" using assms(1) by (auto simp: represents_def)
  then have "hist = old @ q \<and> (\<forall>t\<in>set old. t < now - HOUR)" using assms(2) by force
  moreover have "sorted hist" "\<forall>t\<in>set hist. t \<le> now" using assms by (auto simp: represents_def)
  ultimately show ?thesis unfolding represents_def by blast
qed

lemma dict_get_or_update: "dict_get_or (AList.update k v d) k' x = (if k' = k then v else dict_get_or d k' x)"
  by (simp add: dict_get_or_def update_conv)

lemma check_step:
  assumes "limiter_ok now0 H st" and "now0 \<le> now"
    and "check now tenant pm ph st = (r, st')"
  shows "r = (if int (in_window now HOUR (H tenant)) \<ge> ph then Some HourScope
              else if int (in_window now MINUTE (H tenant)) \<ge> pm then Some MinuteScope else None)
     \<and> limiter_ok now (if admits now pm ph (H tenant) then H(tenant := H tenant @ [now]) else H) st'"
proof -
  define q where "q = dict_get_or st tenant []"
  have rep: "represents now0 (H tenant) q" using assms(1) by (simp add: limiter_ok_def q_def)
  note cnt = represents_counts [OF rep assms(2)]
  have h: "length (prune (now - HOUR) q) = in_window now HOUR (H tenant)" by (simp add: cnt(1) in_window_def)
  have r: "r = (if int (in_window now HOUR (H tenant)) \<ge> ph then Some HourScope
              else if int (in_window now MINUTE (H tenant)) \<ge> pm then Some MinuteScope else None)"
    and st': "st' = AList.update tenant
       (if admits now pm ph (H tenant) then prune (now - HOUR) q @ [now] else prune (now - HOUR) q) st"
    using assms(3) h cnt(2) by (auto simp: check_def q_def [symmetric] admits_def Let_def split: if_splits)
  have "limiter_ok now (if admits now pm ph (H tenant) then H(tenant := H tenant @ [now]) else H) st'"
    using assms(1,2) represents_pruned [OF rep assms(2)]
    by (auto simp: limiter_ok_def st' dict_get_or_update intro: represents_snoc represents_later)
  with r show ?thesis by blast
qed

text \<open>Claim C15. The limiter refines its specification. As long as the clock does not go back, \<^verbatim>\<open>check\<close> on
  the pruned deques decides exactly as the rule on the tenant's full admission history does: it
  admits when fewer than the hourly and the per-minute quota fall in the last 3600 and 60 seconds, it
  blames the hour before the minute, and it records an admission, and only an admission, for that
  tenant alone.\<close>

theorem check_refines_history:
  assumes "limiter_ok now0 H st" and "now0 \<le> now"
    and "check now tenant pm ph st = (r, st')"
  shows "r = (if int (in_window now HOUR (H tenant)) \<ge> ph then Some HourScope
              else if int (in_window now MINUTE (H tenant)) \<ge> pm then Some MinuteScope else None)
     \<and> limiter_ok now (if admits now pm ph (H tenant) then H(tenant := H tenant @ [now]) else H) st'"
  by (rule check_step [OF assms])

section \<open>The quota\<close>

definition admitted_in :: "rat \<Rightarrow> rat \<Rightarrow> string \<Rightarrow> (rat \<times> string) list \<Rightarrow> nat" where
  "admitted_in a width tenant adm = length (filter (\<lambda>(t, x). x = tenant \<and> a \<le> t \<and> t \<le> a + width) adm)"

definition hist_in :: "rat \<Rightarrow> rat \<Rightarrow> rat list \<Rightarrow> nat" where
  "hist_in a width hist = length (filter (\<lambda>t. a \<le> t \<and> t \<le> a + width) hist)"

lemma hist_in_le_window: "t \<le> a + width \<Longrightarrow> hist_in a width hist \<le> in_window t width hist"
  unfolding hist_in_def in_window_def
  by (induction hist) auto

lemma check_all_quota:
  assumes quota: "\<And>now hist. admits now pm ph hist \<Longrightarrow> in_window now w hist < n"
    and "limiter_ok now0 H st" "sorted (map fst calls)" "\<forall>c\<in>set calls. now0 \<le> fst c"
    and "hist_in a w (H tenant) \<le> n" "check_all pm ph calls st = (adm, st')"
  shows "hist_in a w (H tenant) + admitted_in a w tenant adm \<le> n"
  using assms(2-)
proof (induction calls arbitrary: now0 H st adm st')
  case Nil
  then show ?case by (simp add: admitted_in_def)
next
  case (Cons c calls)
  obtain now x where c: "c = (now, x)" by (cases c)
  obtain r st1 where r: "check now x pm ph st = (r, st1)" by (cases "check now x pm ph st")
  obtain adm1 st2 where rest: "check_all pm ph calls st1 = (adm1, st2)" by (cases "check_all pm ph calls st1")
  define H' where "H' = (if admits now pm ph (H x) then H(x := H x @ [now]) else H)"
  have step: "r = None \<longleftrightarrow> admits now pm ph (H x)" "limiter_ok now H' st1"
    using check_step [OF Cons.prems(1) _ r] Cons.prems(3)
    by (auto simp: c admits_def H'_def split: if_splits)
  have adm: "adm = (if r = None then (now, x) # adm1 else adm1)" using Cons.prems(5) by (simp add: c r rest)
  have le: "hist_in a w (H' tenant) \<le> n"
    using Cons.prems(4) quota [of now "H x"] hist_in_le_window [of now a w "H x"]
    by (auto simp: H'_def hist_in_def)
  have "hist_in a w (H' tenant) + admitted_in a w tenant adm1 \<le> n"
    by (rule Cons.IH [OF step(2) _ _ le rest]) (use Cons.prems(2) in \<open>auto simp: c\<close>)
  moreover have "hist_in a w (H tenant) + admitted_in a w tenant adm = hist_in a w (H' tenant) + admitted_in a w tenant adm1"
    using step(1) by (auto simp: adm H'_def hist_in_def admitted_in_def)
  ultimately show ?case by simp
qed

lemma limiter_ok_Nil: "limiter_ok now (\<lambda>_. []) []"
  by (simp add: limiter_ok_def represents_def dict_get_or_def)

text \<open>The quotas hold over every window, not only the one ending now: whatever tenants call and
  whenever (in clock order), a fresh limiter with positive quotas admits for each tenant at most
  \<open>per_minute\<close> calls in any 60 consecutive seconds and at most \<open>per_hour\<close> in any 3600.\<close>

theorem quota_over_any_window:
  assumes "sorted (map fst calls)" and "check_all pm ph calls [] = (adm, st')"
    and "0 \<le> pm" and "0 \<le> ph"
  shows "int (admitted_in a MINUTE tenant adm) \<le> pm \<and> int (admitted_in a HOUR tenant adm) \<le> ph"
proof -
  obtain now0 where now0: "\<forall>c\<in>set calls. now0 \<le> fst c"
    using assms(1) by (cases calls) auto
  have "hist_in a MINUTE [] + admitted_in a MINUTE tenant adm \<le> nat pm"
    by (rule check_all_quota [where H = "\<lambda>_. []", OF _ limiter_ok_Nil assms(1) now0 _ assms(2)])
      (auto simp: admits_def hist_in_def)
  moreover have "hist_in a HOUR [] + admitted_in a HOUR tenant adm \<le> nat ph"
    by (rule check_all_quota [where H = "\<lambda>_. []", OF _ limiter_ok_Nil assms(1) now0 _ assms(2)])
      (auto simp: admits_def hist_in_def)
  ultimately show ?thesis using assms(3,4) by (simp add: hist_in_def nat_le_eq_zle le_nat_iff)
qed

section \<open>Witnesses\<close>

theorem check_refines_history_witness:
  "check 10 ''t'' 1 5 [(''t'', [1])] = (Some MinuteScope, [(''t'', [1])])
     \<and> limiter_ok 10 (\<lambda>x. if x = ''t'' then [1] else []) [(''t'', [1])]"
proof -
  have ok: "limiter_ok 5 (\<lambda>x. if x = ''t'' then [1] else []) [(''t'', [1])]"
    by (simp add: limiter_ok_def represents_def dict_get_or_def)
  have c: "check 10 ''t'' 1 5 [(''t'', [1])] = (Some MinuteScope, [(''t'', [1])])"
    by (simp add: check_def dict_get_or_def HOUR_def MINUTE_def)
  show ?thesis using check_refines_history [OF ok _ c] c by (simp add: admits_def in_window_def MINUTE_def HOUR_def)
qed

theorem quota_over_any_window_witness:
  "\<exists>adm st'. check_all 2 5 [(0, ''t''), (1, ''t''), (2, ''t''), (61, ''t'')] [] = (adm, st')
     \<and> length adm = 3 \<and> admitted_in 0 MINUTE ''t'' adm \<le> 2"
proof -
  obtain adm st' where r: "check_all 2 5 [(0, ''t''), (1, ''t''), (2, ''t''), (61, ''t'')] [] = (adm, st')"
    by (metis surj_pair)
  moreover from r have "length adm = 3" by (auto simp: check_def dict_get_or_def HOUR_def MINUTE_def)
  moreover have "int (admitted_in 0 MINUTE ''t'' adm) \<le> 2 \<and> int (admitted_in 0 HOUR ''t'' adm) \<le> 5"
    by (rule quota_over_any_window [OF _ r]) auto
  ultimately show ?thesis by auto
qed

end
