(* ===== verification/Py_Decimal.thy ===== *)
theory Py_Decimal
  imports Py_Text
begin

text \<open>
  Python's \<^verbatim>\<open>decimal.Decimal\<close> under the default context: finite numbers
  \<open>coefficient * 10 ^ exponent\<close>, arithmetic rounded half-even to 28 significant digits.
  The sign of zero and the exponent limits (a million digits away) are not represented.
  \<open>dval\<close> is the exact rational value; the lemmas say when an operation is exact.
\<close>

named_theorems dec_exact \<open>exact values of decimal operations\<close>

datatype decimal = Dec (dcoef: int) (dexp: int)

definition dec_prec :: nat where
  "dec_prec = 28"

definition dval :: "decimal \<Rightarrow> rat" where
  "dval x = of_int (dcoef x) * 10 powi dexp x"

definition dec_of_int :: "int \<Rightarrow> decimal" where
  "dec_of_int i = Dec i 0"

section \<open>Digit counts and rounding\<close>

fun ndigits :: "nat \<Rightarrow> nat" where
  "ndigits n = (if n < 10 then 1 else Suc (ndigits (n div 10)))"

declare ndigits.simps [simp del]

definition round_half_even :: "nat \<Rightarrow> nat \<Rightarrow> nat" where
  "round_half_even n k =
     (let q = n div 10 ^ k; r = n mod 10 ^ k
      in if 2 * r > 10 ^ k \<or> (2 * r = 10 ^ k \<and> odd q) then Suc q else q)"

fun dec_fix :: "decimal \<Rightarrow> decimal" where
  "dec_fix (Dec c e) =
     (let n = nat \<bar>c\<bar>; d = ndigits n
      in if d \<le> dec_prec then Dec c e
         else let k = d - dec_prec; q = round_half_even n k
              in if ndigits q > dec_prec then Dec (sgn c * int (q div 10)) (e + int k + 1)
                 else Dec (sgn c * int q) (e + int k))"

section \<open>Operations\<close>

definition dec_aligned :: "decimal \<Rightarrow> int \<Rightarrow> int" where
  "dec_aligned x e = dcoef x * 10 ^ nat (dexp x - e)"

definition dec_add :: "decimal \<Rightarrow> decimal \<Rightarrow> decimal" where
  "dec_add x y = (let e = min (dexp x) (dexp y) in dec_fix (Dec (dec_aligned x e + dec_aligned y e) e))"

definition dec_copy_negate :: "decimal \<Rightarrow> decimal" where
  "dec_copy_negate x = Dec (- dcoef x) (dexp x)"

definition dec_sub :: "decimal \<Rightarrow> decimal \<Rightarrow> decimal" where
  "dec_sub x y = dec_add x (dec_copy_negate y)"

definition dec_neg :: "decimal \<Rightarrow> decimal" where
  "dec_neg x = dec_fix (dec_copy_negate x)"

definition dec_copy_abs :: "decimal \<Rightarrow> decimal" where
  "dec_copy_abs x = Dec \<bar>dcoef x\<bar> (dexp x)"

definition dec_mul :: "decimal \<Rightarrow> decimal \<Rightarrow> decimal" where
  "dec_mul x y = dec_fix (Dec (dcoef x * dcoef y) (dexp x + dexp y))"

function dec_strip :: "int \<Rightarrow> int \<Rightarrow> int \<Rightarrow> int \<times> int" where
  "dec_strip ideal c e =
     (if e < ideal \<and> c mod 10 = 0 then dec_strip ideal (c div 10) (e + 1) else (c, e))"
  by pat_completeness auto
termination
  by (relation "measure (\<lambda>(ideal, c, e). nat (ideal - e))") auto

declare dec_strip.simps [simp del]

text \<open>Division by a non-zero decimal, as \<^verbatim>\<open>Decimal.__truediv__\<close> computes it.\<close>

definition dec_div :: "decimal \<Rightarrow> decimal \<Rightarrow> decimal" where
  "dec_div x y =
     (let ideal = dexp x - dexp y
      in if dcoef x = 0 then Dec 0 ideal
         else
           let s = sgn (dcoef x) * sgn (dcoef y);
               a = nat \<bar>dcoef x\<bar>; b = nat \<bar>dcoef y\<bar>;
               shift = int (ndigits b) - int (ndigits a) + int dec_prec + 1;
               e = ideal - shift;
               num = (if shift \<ge> 0 then a * 10 ^ nat shift else a);
               den = (if shift \<ge> 0 then b else b * 10 ^ nat (- shift));
               q = num div den; r = num mod den
           in if r \<noteq> 0 then dec_fix (Dec (s * int (if q mod 5 = 0 then Suc q else q)) e)
              else let (c', e') = dec_strip ideal (int q) e in dec_fix (Dec (s * c') e'))"

definition dec_le :: "decimal \<Rightarrow> decimal \<Rightarrow> bool" where
  "dec_le x y = (let e = min (dexp x) (dexp y) in dec_aligned x e \<le> dec_aligned y e)"

definition dec_is_zero :: "decimal \<Rightarrow> bool" where
  "dec_is_zero x \<longleftrightarrow> dcoef x = 0"

text \<open>\<^verbatim>\<open>quantize\<close> to exponent \<open>e\<close>; \<open>None\<close> is \<^verbatim>\<open>InvalidOperation\<close> (more than 28 digits).\<close>

definition dec_quantize :: "decimal \<Rightarrow> int \<Rightarrow> decimal option" where
  "dec_quantize x e =
     (let c = (if e \<le> dexp x then dcoef x * 10 ^ nat (dexp x - e)
               else sgn (dcoef x) * int (round_half_even (nat \<bar>dcoef x\<bar>) (nat (e - dexp x))))
      in if ndigits (nat \<bar>c\<bar>) > dec_prec then None else Some (Dec c e))"

fun dec_sum :: "decimal \<Rightarrow> decimal list \<Rightarrow> decimal" where
  "dec_sum acc [] = acc"
| "dec_sum acc (x # xs) = dec_sum (dec_add acc x) xs"

definition dec_str :: "decimal \<Rightarrow> string" where
  "dec_str x =
     (let ds = show_nat (nat \<bar>dcoef x\<bar>);
          left = dexp x + int (length ds);
          dot = (if dexp x \<le> 0 \<and> left > -6 then left else 1);
          body = (if dot \<le> 0 then ''0.'' @ replicate (nat (- dot)) (CHR ''0'') @ ds
                  else if dot \<ge> int (length ds) then ds @ replicate (nat dot - length ds) (CHR ''0'')
                  else take (nat dot) ds @ ''.'' @ drop (nat dot) ds);
          suffix = (if left = dot then '''' else ''E'' @ (if left - dot \<ge> 0 then ''+'' else '''') @ show_int (left - dot))
      in (if dcoef x < 0 then ''-'' else '''') @ body @ suffix)"

section \<open>When rounding does nothing\<close>

lemma ndigits_pos: "0 < ndigits n"
  by (subst ndigits.simps) simp

lemma ndigits_le_iff: "0 < k \<Longrightarrow> ndigits n \<le> k \<longleftrightarrow> n < 10 ^ k"
proof (induction n arbitrary: k rule: ndigits.induct)
  case (1 n)
  show ?case
  proof (cases "n < 10")
    case True
    have "(10::nat) ^ 1 \<le> 10 ^ k" using "1.prems" by (intro power_increasing) auto
    with True "1.prems" show ?thesis by (simp add: ndigits.simps [of n])
  next
    case False
    obtain j where k: "k = Suc j" using "1.prems" by (cases k) auto
    show ?thesis
    proof (cases "j = 0")
      case True
      with False k ndigits_pos [of "n div 10"] show ?thesis by (simp add: ndigits.simps [of n])
    next
      case j: False
      with False "1.IH" [of j] k have "ndigits n \<le> k \<longleftrightarrow> n div 10 < 10 ^ j"
        by (simp add: ndigits.simps [of n])
      also have "\<dots> \<longleftrightarrow> n < 10 ^ k" using k by (simp add: div_less_iff_less_mult mult.commute)
      finally show ?thesis .
    qed
  qed
qed

lemma dec_fix_id [simp]: "\<bar>c\<bar> < 10 ^ 28 \<Longrightarrow> dec_fix (Dec c e) = Dec c e"
  by (simp add: dec_prec_def ndigits_le_iff nat_less_iff Let_def)

declare dec_fix.simps [simp del]

lemma dval_Dec: "dval (Dec c e) = of_int c * 10 powi e"
  by (simp add: dval_def)

lemma dval_Dec_0 [simp]: "dval (Dec c 0) = of_int c"
  by (simp add: dval_def)

lemma dec_aligned_val:
  assumes "e \<le> dexp x"
  shows "rat_of_int (dec_aligned x e) * 10 powi e = dval x"
proof -
  define k where "k = nat (dexp x - e)"
  with assms have k: "dexp x = e + int k" by simp
  have "rat_of_int (dec_aligned x e) = of_int (dcoef x) * 10 ^ k"
    by (simp add: dec_aligned_def k)
  then show ?thesis by (simp add: dval_def k power_int_add)
qed

lemma dec_aligned_val': "e \<le> dexp x \<Longrightarrow> rat_of_int (dec_aligned x e) = dval x * 10 powi (- e)"
  by (simp flip: dec_aligned_val add: power_int_minus)

lemma dval_zero_iff [simp]: "dval x = 0 \<longleftrightarrow> dcoef x = 0"
  by (simp add: dval_def)

lemma dec_le_iff [dec_exact]: "dec_le x y \<longleftrightarrow> dval x \<le> dval y"
proof -
  let ?e = "min (dexp x) (dexp y)"
  have "dec_le x y \<longleftrightarrow> rat_of_int (dec_aligned x ?e) \<le> rat_of_int (dec_aligned y ?e)"
    by (simp add: dec_le_def Let_def)
  also have "\<dots> \<longleftrightarrow> dval x \<le> dval y"
    by (simp add: dec_aligned_val')
  finally show ?thesis .
qed

lemma dec_is_zero_iff [dec_exact]: "dec_is_zero x \<longleftrightarrow> dval x = 0"
  by (simp add: dec_is_zero_def)

lemma dval_copy_negate [dec_exact, simp]: "dval (dec_copy_negate x) = - dval x"
  by (simp add: dec_copy_negate_def dval_def)

lemma dval_copy_abs [dec_exact, simp]: "dval (dec_copy_abs x) = \<bar>dval x\<bar>"
  by (simp add: dec_copy_abs_def dval_def abs_mult)

section \<open>Exact sums\<close>

text \<open>
  Amounts with at most \<open>s\<close> fractional digits: sums stay exact while the magnitudes, counted in
  units of the last fractional digit, stay below \<open>10 ^ 28\<close>.
\<close>

definition dec_scaled :: "nat \<Rightarrow> decimal \<Rightarrow> bool" where
  "dec_scaled s x \<longleftrightarrow> - int s \<le> dexp x"

lemma powi_scale_mono:
  assumes "- int s \<le> e"
  shows "(10 :: rat) powi (- e) \<le> 10 ^ s"
proof -
  have "(10 :: rat) powi (- e) \<le> 10 powi (int s)"
    using assms by (intro power_int_increasing) auto
  then show ?thesis by simp
qed

lemma dec_add_exact_gen:
  assumes "dec_scaled s x" "dec_scaled s y" and small: "\<bar>dval x + dval y\<bar> * 10 ^ s < 10 ^ 28"
  shows "dval (dec_add x y) = dval x + dval y \<and> dec_scaled s (dec_add x y)"
proof -
  let ?e = "min (dexp x) (dexp y)"
  let ?c = "dec_aligned x ?e + dec_aligned y ?e"
  have e: "- int s \<le> ?e" using assms by (simp add: dec_scaled_def)
  have c: "rat_of_int ?c = (dval x + dval y) * 10 powi (- ?e)"
    by (simp add: dec_aligned_val' distrib_right)
  have "\<bar>rat_of_int ?c\<bar> = \<bar>dval x + dval y\<bar> * 10 powi (- ?e)"
    by (simp only: c abs_mult) simp
  also have "\<dots> \<le> \<bar>dval x + dval y\<bar> * 10 ^ s"
    using powi_scale_mono [OF e] by (intro mult_left_mono) auto
  also have "\<dots> < 10 ^ 28" by (rule small)
  finally have "rat_of_int \<bar>?c\<bar> < rat_of_int (10 ^ 28)" by simp
  then have lt: "\<bar>?c\<bar> < 10 ^ 28" by (simp only: of_int_less_iff)
  then have add: "dec_add x y = Dec ?c ?e" by (simp only: dec_add_def Let_def dec_fix_id)
  have "dval (dec_add x y) = rat_of_int ?c * 10 powi ?e" by (simp only: add dval_Dec)
  also have "\<dots> = dval x + dval y" by (simp only: c) (simp add: power_int_minus)
  finally show ?thesis using e by (simp add: add dec_scaled_def)
qed

lemma dec_add_scaled:
  assumes "dec_scaled s x" "dec_scaled s y" "(\<bar>dval x\<bar> + \<bar>dval y\<bar>) * 10 ^ s < 10 ^ 28"
  shows "dec_scaled s (dec_add x y)" and "dval (dec_add x y) = dval x + dval y"
proof -
  have "\<bar>dval x + dval y\<bar> * 10 ^ s \<le> (\<bar>dval x\<bar> + \<bar>dval y\<bar>) * 10 ^ s"
    by (intro mult_right_mono abs_triangle_ineq) simp
  with assms(3) have "\<bar>dval x + dval y\<bar> * 10 ^ s < 10 ^ 28" by (rule order.strict_trans1 [rotated])
  with dec_add_exact_gen [OF assms(1,2)] show "dec_scaled s (dec_add x y)"
    and "dval (dec_add x y) = dval x + dval y" by auto
qed

lemma dec_sum_exact:
  assumes "dec_scaled s acc" "list_all (dec_scaled s) xs"
    and "(\<bar>dval acc\<bar> + (\<Sum>x\<leftarrow>xs. \<bar>dval x\<bar>)) * 10 ^ s < 10 ^ 28"
  shows "dval (dec_sum acc xs) = dval acc + (\<Sum>x\<leftarrow>xs. dval x) \<and> dec_scaled s (dec_sum acc xs)"
  using assms
proof (induction xs arbitrary: acc)
  case Nil
  then show ?case by simp
next
  case (Cons x xs)
  let ?rest = "\<Sum>x\<leftarrow>xs. \<bar>dval x\<bar>"
  have rest: "0 \<le> ?rest" by (intro sum_list_nonneg) auto
  have all: "(\<bar>dval acc\<bar> + \<bar>dval x\<bar> + ?rest) * 10 ^ s < 10 ^ 28"
    using Cons.prems(3) by (simp add: add.assoc)
  have "(\<bar>dval acc\<bar> + \<bar>dval x\<bar>) * 10 ^ s \<le> (\<bar>dval acc\<bar> + \<bar>dval x\<bar> + ?rest) * 10 ^ s"
    using rest by (intro mult_right_mono) auto
  with all have step: "(\<bar>dval acc\<bar> + \<bar>dval x\<bar>) * 10 ^ s < 10 ^ 28" by linarith
  from Cons.prems have sx: "dec_scaled s acc" "dec_scaled s x" by auto
  note add = dec_add_scaled [OF sx step]
  have "(\<bar>dval (dec_add acc x)\<bar> + ?rest) * 10 ^ s \<le> (\<bar>dval acc\<bar> + \<bar>dval x\<bar> + ?rest) * 10 ^ s"
    by (intro mult_right_mono) (auto simp: add(2))
  with all have "(\<bar>dval (dec_add acc x)\<bar> + ?rest) * 10 ^ s < 10 ^ 28" by linarith
  with Cons.IH [OF add(1)] Cons.prems(2) show ?case by (simp add: add(2) add.assoc)
qed

lemma dexp_copy_negate [simp]: "dexp (dec_copy_negate x) = dexp x"
  by (simp add: dec_copy_negate_def)

lemma dec_scaled_copy_negate [simp]: "dec_scaled s (dec_copy_negate x) = dec_scaled s x"
  by (simp add: dec_scaled_def)

lemma dec_sub_scaled:
  assumes "dec_scaled s x" "dec_scaled s y" "(\<bar>dval x\<bar> + \<bar>dval y\<bar>) * 10 ^ s < 10 ^ 28"
  shows "dec_scaled s (dec_sub x y)" and "dval (dec_sub x y) = dval x - dval y"
  using dec_add_scaled [of s x "dec_copy_negate y"] assms by (auto simp: dec_sub_def)

lemma dec_scaled_of_int [simp]: "dec_scaled s (dec_of_int i)"
  by (simp add: dec_scaled_def dec_of_int_def)

lemma dval_of_int [simp]: "dval (dec_of_int i) = of_int i"
  by (simp add: dec_of_int_def)

section \<open>Division by a power of ten\<close>

lemma dec_strip_inv:
  assumes "dec_strip ideal c e = (c', e')" "e \<le> ideal"
  shows "c = c' * 10 ^ nat (e' - e) \<and> e \<le> e' \<and> e' \<le> ideal \<and> (e' < ideal \<longrightarrow> c' mod 10 \<noteq> 0)"
  using assms
proof (induction ideal c e rule: dec_strip.induct)
  case (1 ideal c e)
  show ?case
  proof (cases "e < ideal \<and> c mod 10 = 0")
    case True
    with "1.prems" have "dec_strip ideal (c div 10) (e + 1) = (c', e')"
      by (simp add: dec_strip.simps [of ideal c e])
    with True "1.IH" have ih: "c div 10 = c' * 10 ^ nat (e' - (e + 1))" "e + 1 \<le> e'" "e' \<le> ideal"
      "e' < ideal \<longrightarrow> c' mod 10 \<noteq> 0" by auto
    have "nat (e' - e) = Suc (nat (e' - (e + 1)))" using ih(2) by simp
    moreover have "c = 10 * (c div 10)" using True by (metis mult_div_mod_eq add.right_neutral)
    ultimately show ?thesis using ih by simp
  next
    case False
    with "1.prems" show ?thesis by (auto simp: dec_strip.simps [of ideal c e])
  qed
qed

lemma ndigits_power: "ndigits (10 ^ k) = Suc k"
proof (induction k)
  case 0
  then show ?case by (simp add: ndigits.simps)
next
  case (Suc k)
  have "\<not> (10 :: nat) ^ Suc k < 10" by simp
  with Suc show ?case by (subst ndigits.simps) simp
qed

text \<open>Stripping commutes with a shift of the exponents.\<close>

lemma dec_strip_shift:
  "dec_strip (ideal + k) c (e + k) = (let (c', e') = dec_strip ideal c e in (c', e' + k))"
proof (induction ideal c e rule: dec_strip.induct)
  case (1 ideal c e)
  have e: "e + k + 1 = e + 1 + k" by simp
  from 1 show ?case
    by (subst (1 2) dec_strip.simps) (simp add: e [symmetric] del: add.assoc)
qed

lemma dec_div_pow10_scaled:
  assumes "\<bar>m\<bar> < 10 ^ 28"
  shows "dval (dec_div (Dec m (- int p)) (Dec (10 ^ k) 0)) = of_int m / 10 ^ (p + k)
    \<and> dec_scaled (p + k) (dec_div (Dec m (- int p)) (Dec (10 ^ k) 0))"
proof (cases "m = 0")
  case True
  then show ?thesis by (simp add: dec_div_def dval_def dec_scaled_def)
next
  case False
  define a where "a = nat \<bar>m\<bar>"
  have a: "a < 10 ^ 28" using assms by (simp add: a_def nat_less_iff)
  then have da: "ndigits a \<le> 28" by (simp add: ndigits_le_iff)
  define sh where "sh = k + 30 - ndigits a"
  have shift: "int (ndigits (10 ^ k)) - int (ndigits a) + int dec_prec + 1 = int sh"
    using da by (simp add: sh_def ndigits_power dec_prec_def)
  have shk: "k \<le> sh" using da by (simp add: sh_def)
  have q: "(a * 10 ^ sh) div 10 ^ k = a * 10 ^ (sh - k)" "(a * 10 ^ sh) mod 10 ^ k = 0"
    using shk by (auto simp: power_diff div_mult_swap le_imp_power_dvd)
  obtain c' e' where st: "dec_strip 0 (int (a * 10 ^ (sh - k))) (- int sh) = (c', e')" by fastforce
  note inv = dec_strip_inv [OF st]
  have c': "int a * 10 ^ (sh - k) = c' * 10 ^ nat (e' + int sh)" "- int sh \<le> e'" "e' \<le> 0"
    "e' < 0 \<longrightarrow> c' mod 10 \<noteq> 0" using inv by auto
  have ge: "- int k \<le> e'"
  proof (rule ccontr)
    assume "\<not> - int k \<le> e'"
    then have lt: "e' < - int k" by simp
    define j where "j = nat (- int k - e')"
    have "sh - k = nat (e' + int sh) + j" using lt c'(2) shk by (simp add: j_def)
    with c'(1) have "c' = int a * 10 ^ j" by (simp add: power_add)
    moreover have "0 < j" using lt by (simp add: j_def)
    ultimately have "c' mod 10 = 0" by (cases j) simp_all
    with c'(4) lt show False by simp
  qed
  define i where "i = nat (e' + int k)"
  have "nat (e' + int sh) = (sh - k) + i" using ge shk by (simp add: i_def)
  with c'(1) have ai: "int a = c' * 10 ^ i" by (simp add: power_add)
  have "\<bar>c'\<bar> * 1 \<le> \<bar>c'\<bar> * 10 ^ i" by (intro mult_left_mono) auto
  also have "\<dots> = \<bar>c' * 10 ^ i\<bar>" by (simp add: abs_mult)
  also have "\<dots> = int a" by (simp only: ai [symmetric] abs_of_nat)
  finally have small: "\<bar>sgn m * c'\<bar> < 10 ^ 28" using a by (simp add: abs_mult abs_sgn_eq False)
  have st': "dec_strip (- int p) (int (a * 10 ^ (sh - k))) (- int p - int sh) = (c', e' - int p)"
    using dec_strip_shift [of 0 "- int p" "int (a * 10 ^ (sh - k))" "- int sh"] st by (simp add: algebra_simps)
  have div: "dec_div (Dec m (- int p)) (Dec (10 ^ k) 0) = Dec (sgn m * c') (e' - int p)"
    using False shift q st' dec_fix_id [OF small, of "e' - int p"]
    by (simp add: dec_div_def Let_def a_def [symmetric] nat_power_eq)
  have "m = sgn m * int a" by (simp add: a_def sgn_mult_abs)
  then have m: "m = sgn m * c' * 10 ^ i" using ai by simp
  have "e' - int p = int i - int (p + k)" using ge by (simp add: i_def)
  then have "(10 :: rat) powi (e' - int p) = 10 powi (int i) / 10 powi (int (p + k))"
    by (metis power_int_diff zero_neq_numeral)
  then have "(10 :: rat) powi (e' - int p) = 10 ^ i / 10 ^ (p + k)" by (simp only: power_int_of_nat)
  then have "dval (Dec (sgn m * c') (e' - int p)) = rat_of_int (sgn m * c' * 10 ^ i) / 10 ^ (p + k)"
    by (simp add: dval_Dec)
  also have "\<dots> = of_int m / 10 ^ (p + k)" by (simp only: m [symmetric])
  finally show ?thesis using ge by (simp add: div dec_scaled_def)
qed

lemma dec_div_pow10:
  assumes "\<bar>m\<bar> < 10 ^ 28"
  shows "dval (dec_div (Dec m 0) (Dec (10 ^ k) 0)) = of_int m / 10 ^ k
    \<and> dec_scaled k (dec_div (Dec m 0) (Dec (10 ^ k) 0))"
  using dec_div_pow10_scaled [OF assms, of 0 k] by simp

lemma dec_quantize_exact:
  assumes "dec_scaled s x" "\<bar>dval x\<bar> * 10 ^ s < 10 ^ 28"
  shows "\<exists>y. dec_quantize x (- int s) = Some y \<and> dval y = dval x \<and> dexp y = - int s"
proof -
  define c where "c = dec_aligned x (- int s)"
  have le: "- int s \<le> dexp x" using assms(1) by (simp add: dec_scaled_def)
  have c: "rat_of_int c = dval x * 10 ^ s" using dec_aligned_val' [OF le] by (simp add: c_def)
  have "rat_of_int \<bar>c\<bar> < rat_of_int (10 ^ 28)" using assms(2) by (simp add: c abs_mult)
  then have "\<bar>c\<bar> < 10 ^ 28" by (simp only: of_int_less_iff)
  then have "dec_quantize x (- int s) = Some (Dec c (- int s))"
    using le ndigits_le_iff [of 28 "nat \<bar>c\<bar>"]
    by (simp add: dec_quantize_def Let_def dec_prec_def nat_less_iff c_def dec_aligned_def)
  moreover have "dval (Dec c (- int s)) = dval x" by (simp add: dval_Dec c power_int_minus)
  ultimately show ?thesis by auto
qed

end
