(* ===== verification/Cost_Tracker.thy ===== *)
theory Cost_Tracker
  imports Py_Decimal
begin

text \<open>
  Token accounting of \<^verbatim>\<open>services/agent_runtime/.../cost_tracker.py\<close>: the price of a turn, the two
  ledgers and the daily budget. A time is a number of microseconds since the epoch, so its UTC date
  is its quotient by a day. The storage ledger is the table \<^verbatim>\<open>session_costs\<close>, whose cost column
  is \<^verbatim>\<open>Numeric(14, 8)\<close>: an integer number of units of \<open>10 ^ -8\<close> dollars below \<open>10 ^ 14\<close>; a value
  out of that range is an error of the database, and nothing is written.
\<close>

section \<open>Prices\<close>

definition MODEL_PRICING :: "(string, decimal \<times> decimal) dict" where
  "MODEL_PRICING =
     [(''claude-sonnet-4-5'', (Dec 3 0, Dec 15 0)),
      (''claude-opus-4-6'', (Dec 15 0, Dec 75 0)),
      (''claude-haiku-4-5-20251001'', (Dec 80 (-2), Dec 4 0))]"

text \<open>\<open>None\<close> is the \<^verbatim>\<open>InvalidOperation\<close> of a quantisation beyond 28 digits.\<close>

definition estimate_cost_usd :: "string \<Rightarrow> int \<Rightarrow> int \<Rightarrow> decimal option" where
  "estimate_cost_usd model input_tokens output_tokens =
     (case map_of MODEL_PRICING model of
        None \<Rightarrow> Some (Dec 0 0)
      | Some (in_rate, out_rate) \<Rightarrow>
          dec_quantize (dec_div (dec_add (dec_mul (dec_of_int input_tokens) in_rate)
            (dec_mul (dec_of_int output_tokens) out_rate)) (Dec 1000000 0)) (-8))"

record turn_cost =
  tc_session_id :: string
  tc_turn_id :: string
  tc_model :: string
  tc_input_tokens :: int
  tc_output_tokens :: int
  tc_cost_usd :: decimal
  tc_created_at :: int
  tc_tenant_id :: string

definition build_turn_cost :: "string \<Rightarrow> string \<Rightarrow> string \<Rightarrow> string \<Rightarrow> int \<Rightarrow> int \<Rightarrow> int option \<Rightarrow> int \<Rightarrow> turn_cost option" where
  "build_turn_cost tenant sid tid model inp out created now =
     map_option (\<lambda>cost. \<lparr>tc_session_id = sid, tc_turn_id = tid, tc_model = model, tc_input_tokens = inp,
         tc_output_tokens = out, tc_cost_usd = cost,
         tc_created_at = (case created of Some t \<Rightarrow> t | None \<Rightarrow> now), tc_tenant_id = tenant\<rparr>)
       (estimate_cost_usd model inp out)"

section \<open>The in-memory ledger\<close>

definition DAY :: int where "DAY = 86400 * 1000000"

definition utc_date :: "int \<Rightarrow> int" where "utc_date t = t div DAY"

type_synonym ledger = "turn_cost list"

definition record_cost :: "turn_cost \<Rightarrow> ledger \<Rightarrow> ledger" where
  "record_cost cost rows = rows @ [cost]"

definition total_for_session :: "string \<Rightarrow> ledger \<Rightarrow> decimal" where
  "total_for_session sid rows = dec_sum (Dec 0 0) (map tc_cost_usd (filter (\<lambda>r. tc_session_id r = sid) rows))"

definition today_rows :: "int \<Rightarrow> string \<Rightarrow> ledger \<Rightarrow> ledger" where
  "today_rows now tenant rows =
     filter (\<lambda>r. tc_tenant_id r = tenant \<and> utc_date (tc_created_at r) = utc_date now) rows"

definition total_for_tenant_today :: "int \<Rightarrow> string \<Rightarrow> ledger \<Rightarrow> decimal" where
  "total_for_tenant_today now tenant rows = dec_sum (Dec 0 0) (map tc_cost_usd (today_rows now tenant rows))"

definition tokens_for_tenant_today :: "int \<Rightarrow> string \<Rightarrow> ledger \<Rightarrow> int" where
  "tokens_for_tenant_today now tenant rows =
     sum_list (map (\<lambda>r. tc_input_tokens r + tc_output_tokens r) (today_rows now tenant rows))"

section \<open>The storage ledger\<close>

record cost_row =
  cr_tenant_id :: string
  cr_session_id :: string
  cr_turn_id :: string
  cr_model :: string
  cr_input_tokens :: int
  cr_output_tokens :: int
  cr_total_tokens :: int
  cr_cost_usd :: int
  cr_created_at :: int

definition storage_row :: "turn_cost \<Rightarrow> cost_row option" where
  "storage_row cost =
     (case dec_quantize (tc_cost_usd cost) (-8) of
        Some (Dec c _) \<Rightarrow>
          if \<bar>c\<bar> < 10 ^ 14
          then Some \<lparr>cr_tenant_id = tc_tenant_id cost, cr_session_id = tc_session_id cost, cr_turn_id = tc_turn_id cost,
                  cr_model = tc_model cost, cr_input_tokens = tc_input_tokens cost,
                  cr_output_tokens = tc_output_tokens cost,
                  cr_total_tokens = tc_input_tokens cost + tc_output_tokens cost,
                  cr_cost_usd = c, cr_created_at = tc_created_at cost\<rparr>
          else None
      | None \<Rightarrow> None)"

definition st_record :: "turn_cost \<Rightarrow> cost_row list \<Rightarrow> cost_row list" where
  "st_record cost rows = (case storage_row cost of None \<Rightarrow> rows | Some r \<Rightarrow> rows @ [r])"

definition st_total_for_session :: "string \<Rightarrow> cost_row list \<Rightarrow> decimal" where
  "st_total_for_session sid rows =
     Dec (sum_list (map cr_cost_usd (filter (\<lambda>r. cr_session_id r = sid) rows))) (-8)"

definition day_start :: "int \<Rightarrow> int" where "day_start now = now - now mod DAY"

definition st_total_for_tenant_today :: "int \<Rightarrow> string \<Rightarrow> cost_row list \<Rightarrow> decimal" where
  "st_total_for_tenant_today now tenant rows =
     Dec (sum_list (map cr_cost_usd (filter (\<lambda>r. cr_tenant_id r = tenant \<and> cr_created_at r \<ge> day_start now) rows))) (-8)"

definition st_tokens_for_tenant_today :: "int \<Rightarrow> string \<Rightarrow> cost_row list \<Rightarrow> int" where
  "st_tokens_for_tenant_today now tenant rows =
     sum_list (map cr_total_tokens (filter (\<lambda>r. cr_tenant_id r = tenant \<and> cr_created_at r \<ge> day_start now) rows))"

section \<open>The budget\<close>

text \<open>\<open>Inl (limit, used)\<close> is \<^verbatim>\<open>DailyBudgetExceededError\<close>; the tracker is read only when a budget is set.\<close>

definition enforce_daily_budget :: "int \<Rightarrow> int option \<Rightarrow> (int \<times> int) + unit" where
  "enforce_daily_budget used budget =
     (case budget of
        None \<Rightarrow> Inr ()
      | Some b \<Rightarrow> if b \<le> 0 then Inr () else if used \<ge> b then Inl (b, used) else Inr ())"

text \<open>
  What can happen to a tenant's count within a day \<open>d\<close>, in any order. A turn of the tenant is admitted by the check; nothing
  keeps a second one from being admitted before the first is recorded, and \<open>k\<close> bounds how many are under way at once.
  A turn ends by being recorded, with at most \<open>mx\<close> tokens, or unrecorded, when its client leaves or reports no usage. Turns of
  other tenants are recorded in between.
\<close>

inductive day_step :: "(turn_cost \<Rightarrow> 's \<Rightarrow> 's) \<Rightarrow> (int \<Rightarrow> string \<Rightarrow> 's \<Rightarrow> int) \<Rightarrow> string \<Rightarrow> int \<Rightarrow> int \<Rightarrow> nat \<Rightarrow> int
    \<Rightarrow> 's \<times> nat \<Rightarrow> 's \<times> nat \<Rightarrow> bool" for add tokens t b d k mx where
  admitted: "enforce_daily_budget (tokens now t s) (Some b) = Inr () \<Longrightarrow> utc_date now = d \<Longrightarrow> n < k \<Longrightarrow>
    day_step add tokens t b d k mx (s, n) (s, Suc n)"
| recorded: "tc_tenant_id c = t \<Longrightarrow> utc_date (tc_created_at c) = d \<Longrightarrow> tc_input_tokens c + tc_output_tokens c \<le> mx \<Longrightarrow>
    day_step add tokens t b d k mx (s, Suc n) (add c s, n)"
| unrecorded: "day_step add tokens t b d k mx (s, Suc n) (s, n)"
| elsewhere: "tc_tenant_id c \<noteq> t \<Longrightarrow> utc_date (tc_created_at c) = d \<Longrightarrow> day_step add tokens t b d k mx (s, n) (add c s, n)"

section \<open>Exact prices\<close>

lemma dec_mul_small: "\<bar>a * b\<bar> < 10 ^ 28 \<Longrightarrow> dec_mul (Dec a e) (Dec b f) = Dec (a * b) (e + f)"
  by (simp add: dec_mul_def)

lemma price_exact:
  assumes "\<bar>m\<bar> < 10 ^ 20" "p \<le> 2"
  shows "\<exists>c. dec_quantize (dec_div (Dec m (- int p)) (Dec 1000000 0)) (-8) = Some c
      \<and> dval c = of_int m / 10 ^ (p + 6) \<and> dexp c = -8"
proof -
  let ?d = "dec_div (Dec m (- int p)) (Dec (10 ^ 6) 0)"
  have d: "dval ?d = of_int m / 10 ^ (p + 6)" "dec_scaled (p + 6) ?d"
    using dec_div_pow10_scaled [of m p 6] assms(1) by auto
  have sc: "dec_scaled 8 ?d" using d(2) assms(2) by (simp add: dec_scaled_def)
  have "\<bar>rat_of_int m\<bar> / 10 ^ (p + 6) \<le> \<bar>rat_of_int m\<bar> / 1"
    by (intro divide_left_mono) auto
  then have "\<bar>dval ?d\<bar> * 10 ^ 8 \<le> \<bar>rat_of_int m\<bar> * 10 ^ 8"
    by (intro mult_right_mono) (simp_all only: d(1) abs_divide, simp_all)
  also have "\<dots> < 10 ^ 20 * 10 ^ 8"
  proof -
    have "\<bar>rat_of_int m\<bar> < rat_of_int (10 ^ 20)" using assms(1) by (metis of_int_abs of_int_less_iff)
    then show ?thesis by simp
  qed
  finally have small: "\<bar>dval ?d\<bar> * 10 ^ 8 < 10 ^ 28" by simp
  from dec_quantize_exact [OF sc small] d(1) show ?thesis by auto
qed

lemma dec_add_ints: "\<bar>a\<bar> < 10 ^ 20 \<Longrightarrow> \<bar>b\<bar> < 10 ^ 20 \<Longrightarrow> dec_add (Dec a 0) (Dec b 0) = Dec (a + b) 0"
  by (simp add: dec_add_def dec_aligned_def)

lemma dec_add_cents: "\<bar>a\<bar> < 10 ^ 20 \<Longrightarrow> \<bar>b\<bar> < 10 ^ 20 \<Longrightarrow> dec_add (Dec a (-2)) (Dec b 0) = Dec (a + b * 100) (-2)"
  by (simp add: dec_add_def dec_aligned_def)

lemma estimate_known:
  assumes "map_of MODEL_PRICING model = Some (ri, ro)" "0 \<le> i" "i < 10 ^ 15" "0 \<le> out" "out < 10 ^ 15"
  shows "\<exists>m p. p \<le> 2 \<and> \<bar>m\<bar> < 10 ^ 20 \<and> dec_add (dec_mul (dec_of_int i) ri) (dec_mul (dec_of_int out) ro) = Dec m (- int p)
      \<and> of_int m / 10 ^ p = of_int i * dval ri + of_int out * dval ro"
proof -
  consider "ri = Dec 3 0" "ro = Dec 15 0" | "ri = Dec 15 0" "ro = Dec 75 0" | "ri = Dec 80 (-2)" "ro = Dec 4 0"
    using assms(1) by (auto simp: MODEL_PRICING_def split: if_splits)
  then show ?thesis
  proof cases
    case 1
    with assms(2-) show ?thesis
      by (intro exI [of _ "i * 3 + out * 15"] exI [of _ 0]) (simp add: dec_of_int_def dec_mul_small dec_add_ints)
  next
    case 2
    with assms(2-) show ?thesis
      by (intro exI [of _ "i * 15 + out * 75"] exI [of _ 0]) (simp add: dec_of_int_def dec_mul_small dec_add_ints)
  next
    case 3
    with assms(2-) show ?thesis
      by (intro exI [of _ "i * 80 + out * 4 * 100"] exI [of _ 2])
        (simp add: dec_of_int_def dec_mul_small dec_add_cents dval_Dec power_int_minus field_simps)
  qed
qed

text \<open>The price of a turn is exact. For a model with a listed price and token counts below
  \<open>10 ^ 15\<close>, \<^verbatim>\<open>estimate_cost_usd\<close> returns, with eight decimals, exactly the input tokens times the
  input price plus the output tokens times the output price, per million: neither the 28-digit
  arithmetic nor the quantisation loses anything. Other models cost nothing.\<close>

theorem estimate_cost_exact:
  assumes "0 \<le> i" and "i < 10 ^ 15" and "0 \<le> out" and "out < 10 ^ 15"
  shows "\<exists>c. estimate_cost_usd model i out = Some c \<and>
     dval c = (case map_of MODEL_PRICING model of None \<Rightarrow> 0
       | Some (ri, ro) \<Rightarrow> (of_int i * dval ri + of_int out * dval ro) / 10 ^ 6)"
proof (cases "map_of MODEL_PRICING model")
  case None
  then show ?thesis by (simp add: estimate_cost_usd_def)
next
  case (Some rates)
  obtain ri ro where r: "rates = (ri, ro)" by (cases rates)
  obtain m p where mp: "p \<le> 2" "\<bar>m\<bar> < 10 ^ 20"
    "dec_add (dec_mul (dec_of_int i) ri) (dec_mul (dec_of_int out) ro) = Dec m (- int p)"
    "of_int m / 10 ^ p = of_int i * dval ri + of_int out * dval ro"
    using estimate_known [OF Some [unfolded r] assms] by blast
  have "rat_of_int m / 10 ^ (p + 6) = of_int m / 10 ^ p / 10 ^ 6" by (simp add: power_add)
  with price_exact [OF mp(2,1)] mp(3,4) show ?thesis by (auto simp: estimate_cost_usd_def Some r)
qed

theorem estimate_cost_exact_witness:
  "\<exists>c. estimate_cost_usd ''claude-haiku-4-5-20251001'' 1000 500 = Some c \<and> dval c = 28 / 10000"
proof -
  have "map_of MODEL_PRICING ''claude-haiku-4-5-20251001'' = Some (Dec 80 (-2), Dec 4 0)"
    by (simp add: MODEL_PRICING_def)
  then show ?thesis
    using estimate_cost_exact [of 1000 500 "''claude-haiku-4-5-20251001''"]
    by (simp add: dval_Dec power_int_minus)
qed

section \<open>What a ledger promises\<close>

text \<open>Within one day, recording adds a turn's tokens to its tenant's count and to nobody else's.\<close>

locale cost_ledger =
  fixes add :: "turn_cost \<Rightarrow> 's \<Rightarrow> 's"
    and tokens :: "int \<Rightarrow> string \<Rightarrow> 's \<Rightarrow> int"
    and storable :: "turn_cost \<Rightarrow> bool"
  assumes tokens_add: "storable c \<Longrightarrow> utc_date (tc_created_at c) = utc_date now \<Longrightarrow>
      tokens now t (add c s) = tokens now t s + (if tc_tenant_id c = t then tc_input_tokens c + tc_output_tokens c else 0)"
    and tokens_day: "utc_date now = utc_date now' \<Longrightarrow> tokens now t s = tokens now' t s"
    and tokens_lost: "\<not> storable c \<Longrightarrow> tokens now t (add c s) = tokens now t s"
begin

lemma admission_below:
  assumes "enforce_daily_budget (tokens n t s) (Some b) = Inr ()" "0 < b" "utc_date n = utc_date now"
  shows "tokens now t s \<le> b - 1"
  using assms(1,2) tokens_day [OF assms(3)] by (simp add: enforce_daily_budget_def split: if_splits)

lemma recording_adds:
  assumes "utc_date (tc_created_at c) = utc_date now" "tc_input_tokens c + tc_output_tokens c \<le> mx" "0 \<le> mx"
  shows "tokens now t (add c s) \<le> tokens now t s + mx"
  using assms tokens_add [OF _ assms(1)] tokens_lost by (cases "storable c") auto

lemma others_add_nothing: "tc_tenant_id c \<noteq> t \<Longrightarrow> utc_date (tc_created_at c) = utc_date now \<Longrightarrow> tokens now t (add c s) = tokens now t s"
  using tokens_add tokens_lost by (cases "storable c") auto

text \<open>Each turn under way has a reserve of \<open>mx\<close> tokens; with the reserves the count stays within the bound.\<close>

definition within_bound :: "int \<Rightarrow> string \<Rightarrow> 's \<Rightarrow> int \<Rightarrow> nat \<Rightarrow> int \<Rightarrow> 's \<times> nat \<Rightarrow> bool" where
  "within_bound now t s0 b k mx x \<longleftrightarrow> tokens now t (fst x) + int (snd x) * mx \<le> max (tokens now t s0) (b - 1 + int k * mx)"

lemma step_within_bound:
  assumes "day_step add tokens t b (utc_date now) k mx x y" "0 < b" "0 \<le> mx" "within_bound now t s0 b k mx x"
  shows "within_bound now t s0 b k mx y"
  using assms(1)
proof cases
  case (admitted n' s n)
  have "tokens now t s \<le> b - 1" by (rule admission_below [OF admitted(3) assms(2) admitted(4)])
  moreover have "int (Suc n) * mx \<le> int k * mx" using admitted(5) assms(3) by (intro mult_right_mono) auto
  ultimately show ?thesis using admitted(2) by (simp add: within_bound_def)
next
  case (recorded c s n)
  then show ?thesis using recording_adds [OF recorded(4,5) assms(3), of t s] assms(4) by (simp add: within_bound_def algebra_simps)
next
  case (unrecorded s n)
  then show ?thesis using assms(3,4) by (simp add: within_bound_def algebra_simps)
next
  case (elsewhere c s n)
  then show ?thesis using others_add_nothing [OF elsewhere(3,4)] assms(4) by (simp add: within_bound_def)
qed

lemma day_within_bound:
  assumes "(day_step add tokens t b (utc_date now) k mx)\<^sup>*\<^sup>* (s0, 0) (s, n)" "0 < b" "0 \<le> mx"
  shows "tokens now t s \<le> max (tokens now t s0) (b - 1 + int k * mx)"
proof -
  have "within_bound now t s0 b k mx (s, n)"
    using assms(1) by (induction rule: rtranclp_induct) (auto simp: within_bound_def [of _ _ _ _ _ _ "(s0, 0)"] intro: step_within_bound assms(2,3))
  moreover have "0 \<le> int n * mx" using assms(3) by simp
  ultimately show ?thesis by (simp add: within_bound_def)
qed

end

lemma day_start_le_iff: "utc_date t = utc_date now \<Longrightarrow> day_start now \<le> t"
proof -
  assume "utc_date t = utc_date now"
  then have "now div DAY * DAY + t mod DAY = t" by (metis utc_date_def div_mult_mod_eq)
  moreover have "0 \<le> t mod DAY" by (simp add: DAY_def)
  ultimately have "now div DAY * DAY \<le> t" by linarith
  then show ?thesis by (simp add: day_start_def minus_mod_eq_div_mult)
qed

lemma day_start_cong: "utc_date now = utc_date now' \<Longrightarrow> day_start now = day_start now'"
  by (simp add: day_start_def utc_date_def minus_mod_eq_div_mult)

interpretation memledger: cost_ledger record_cost tokens_for_tenant_today "\<lambda>_. True"
  by unfold_locales (auto simp: record_cost_def tokens_for_tenant_today_def today_rows_def)

interpretation stledger: cost_ledger st_record st_tokens_for_tenant_today "\<lambda>c. storage_row c \<noteq> None"
proof unfold_locales
  fix c now t s
  assume "storage_row c \<noteq> None" and d: "utc_date (tc_created_at c) = utc_date now"
  then obtain r where r: "storage_row c = Some r" by blast
  then have "cr_tenant_id r = tc_tenant_id c" "cr_created_at r = tc_created_at c"
    "cr_total_tokens r = tc_input_tokens c + tc_output_tokens c"
    by (auto simp: storage_row_def split: option.splits decimal.splits if_splits)
  with r day_start_le_iff [OF d] show "st_tokens_for_tenant_today now t (st_record c s)
      = st_tokens_for_tenant_today now t s + (if tc_tenant_id c = t then tc_input_tokens c + tc_output_tokens c else 0)"
    by (simp add: st_record_def st_tokens_for_tenant_today_def)
next
  fix c now t s
  assume "\<not> storage_row c \<noteq> None"
  then show "st_tokens_for_tenant_today now t (st_record c s) = st_tokens_for_tenant_today now t s" by (simp add: st_record_def)
next
  fix now now' t s
  assume "utc_date now = utc_date now'"
  then show "st_tokens_for_tenant_today now t s = st_tokens_for_tenant_today now' t s"
    by (simp only: st_tokens_for_tenant_today_def day_start_cong [of now now'])
qed

end
