(* ===== verification/Tenant_Registry.thy ===== *)
theory Tenant_Registry
  imports Prelude
begin

text \<open>
  \<^verbatim>\<open>services/agent_runtime/.../tenant_registry.py\<close>: the LRU cache of per-tenant driver registries and
  the per-tenant runtime settings with their cache.

  Building a driver registry calls the credential resolver and third-party driver packages: it is
  the argument \<open>build\<close>, which may raise. A registry is a handle; the state records, besides the ordered
  dictionary, the handles closed so far, in order. The settings table is an argument (\<open>None\<close> when no
  engine is configured), with tenant ids that do not parse as uuids outside its domain.
\<close>

section \<open>The LRU cache\<close>

record 'd tenant_registry =
  tr_max :: int
  tr_entries :: "(string, 'd) dict"
  tr_closed :: "'d list"

definition DEFAULT_LRU_CAP :: int where "DEFAULT_LRU_CAP = 128"

definition registry_init :: "int \<Rightarrow> string + 'd tenant_registry" where
  "registry_init max_entries =
     (if max_entries < 1 then Inl ''max_entries must be >= 1''
      else Inr \<lparr>tr_max = max_entries, tr_entries = [], tr_closed = []\<rparr>)"

definition move_to_end :: "string \<Rightarrow> (string, 'd) dict \<Rightarrow> (string, 'd) dict" where
  "move_to_end k d = (case map_of d k of None \<Rightarrow> d | Some v \<Rightarrow> AList.delete k d @ [(k, v)])"

text \<open>The \<^verbatim>\<open>while len(self._entries) > self._max\<close> loop: pop the oldest, close it.\<close>

fun evict :: "int \<Rightarrow> (string, 'd) dict \<Rightarrow> 'd list \<Rightarrow> (string, 'd) dict \<times> 'd list" where
  "evict mx [] shut = ([], shut)"
| "evict mx (e # es) shut =
     (if int (length (e # es)) > mx then evict mx es (shut @ [snd e]) else (e # es, shut))"

definition registry_get :: "(string \<Rightarrow> 'x + 'd) \<Rightarrow> string \<Rightarrow> 'd tenant_registry \<Rightarrow> ('x + 'd) \<times> 'd tenant_registry" where
  "registry_get build tenant r =
     (case map_of (tr_entries r) tenant of
        Some d \<Rightarrow> (Inr d, r\<lparr>tr_entries := move_to_end tenant (tr_entries r)\<rparr>)
      | None \<Rightarrow>
          (case build tenant of
             Inl e \<Rightarrow> (Inl e, r)
           | Inr d \<Rightarrow>
               let (es, cl) = evict (tr_max r) (AList.update tenant d (tr_entries r)) (tr_closed r)
               in (Inr d, r\<lparr>tr_entries := es, tr_closed := cl\<rparr>)))"

definition aclose_all :: "'d tenant_registry \<Rightarrow> 'd tenant_registry" where
  "aclose_all r = r\<lparr>tr_entries := [], tr_closed := tr_closed r @ dict_values (tr_entries r)\<rparr>"

definition cached_tenants :: "'d tenant_registry \<Rightarrow> string list" where
  "cached_tenants r = dict_keys (tr_entries r)"

section \<open>Settings\<close>

definition SUPPORTED_MODELS :: "string list" where
  "SUPPORTED_MODELS = [''claude-sonnet-4-5'', ''claude-opus-4-6'', ''claude-haiku-4-5-20251001'']"

record tenant_settings =
  set_tenant_id :: string
  set_model :: "string option"
  set_system_prompt_suffix :: "string option"
  set_rate_limit_per_minute :: int
  set_rate_limit_per_hour :: int
  set_daily_token_budget :: "int option"
  set_locale :: string
  set_timezone :: string
  set_default_currency :: string

text \<open>The constructor drops a model it does not support.\<close>

definition tenant_settings_init :: "tenant_settings \<Rightarrow> tenant_settings" where
  "tenant_settings_init s =
     (case set_model s of
        Some m \<Rightarrow> if m \<in> set SUPPORTED_MODELS then s else s\<lparr>set_model := None\<rparr>
      | None \<Rightarrow> s)"

definition settings_defaults :: "string \<Rightarrow> tenant_settings" where
  "settings_defaults tenant = tenant_settings_init \<lparr>set_tenant_id = tenant, set_model = None,
     set_system_prompt_suffix = None, set_rate_limit_per_minute = 60, set_rate_limit_per_hour = 1000,
     set_daily_token_budget = None, set_locale = ''en'', set_timezone = ''UTC'', set_default_currency = ''INR''\<rparr>"

definition settings_load :: "(string \<Rightarrow> tenant_settings option) option \<Rightarrow> string \<Rightarrow> tenant_settings" where
  "settings_load table tenant =
     (case table of
        None \<Rightarrow> settings_defaults tenant
      | Some rows \<Rightarrow>
          (case rows tenant of
             None \<Rightarrow> settings_defaults tenant
           | Some row \<Rightarrow> tenant_settings_init (row\<lparr>set_tenant_id := tenant\<rparr>)))"

type_synonym settings_cache = "(string, tenant_settings) dict"

definition settings_get :: "(string \<Rightarrow> tenant_settings option) option \<Rightarrow> string \<Rightarrow> settings_cache \<Rightarrow>
    tenant_settings \<times> settings_cache" where
  "settings_get table tenant cache =
     (case map_of cache tenant of
        Some s \<Rightarrow> (s, cache)
      | None \<Rightarrow> let s = settings_load table tenant in (s, AList.update tenant s cache))"

definition settings_invalidate :: "string option \<Rightarrow> settings_cache \<Rightarrow> settings_cache" where
  "settings_invalidate tenant cache = (case tenant of None \<Rightarrow> [] | Some t \<Rightarrow> AList.delete t cache)"

definition settings_prime :: "tenant_settings \<Rightarrow> settings_cache \<Rightarrow> settings_cache" where
  "settings_prime s cache = AList.update (set_tenant_id s) s cache"

section \<open>Every registry is cached or closed\<close>

text \<open>
  The invariant: bounded, one entry per tenant, every cached handle was built for the tenant it is
  cached under, and cached and closed handles together are distinct.
\<close>

definition registry_ok :: "(string \<Rightarrow> 'd \<Rightarrow> bool) \<Rightarrow> 'd tenant_registry \<Rightarrow> bool" where
  "registry_ok built r \<longleftrightarrow> 1 \<le> tr_max r \<and> int (length (tr_entries r)) \<le> tr_max r \<and> wf_dict (tr_entries r)
     \<and> (\<forall>(t, d)\<in>set (tr_entries r). built t d) \<and> distinct (tr_closed r @ dict_values (tr_entries r))"

lemma update_new: "map_of d k = None \<Longrightarrow> AList.update k v d = d @ [(k, v)]"
  by (induction d) (auto split: if_splits)

lemma evict_one:
  assumes "1 \<le> mx" "int (length es) \<le> mx"
  shows "evict mx (es @ [x]) shut = (if int (length es) < mx then (es @ [x], shut)
     else (tl es @ [x], shut @ [snd (hd es)]))"
proof (cases es)
  case (Cons e es')
  obtain y ys where y: "es' @ [x] = y # ys" by (cases "es' @ [x]") auto
  then have "length ys = length es'" by (metis One_nat_def add.commute length_Cons length_append list.size(3) nat.inject plus_1_eq_Suc)
  with Cons y assms show ?thesis by auto
qed (use assms in auto)

lemma delete_append: "AList.delete k (xs @ ys) = AList.delete k xs @ AList.delete k ys"
  by (simp add: AList.delete_eq)

lemma registry_get_new:
  assumes "registry_ok built r" "map_of (tr_entries r) t = None" "build t = Inr d"
  shows "registry_get build t r = (Inr d, if int (length (tr_entries r)) < tr_max r
      then r\<lparr>tr_entries := tr_entries r @ [(t, d)]\<rparr>
      else r\<lparr>tr_entries := tl (tr_entries r) @ [(t, d)], tr_closed := tr_closed r @ [snd (hd (tr_entries r))]\<rparr>)"
  using assms by (auto simp: registry_ok_def registry_get_def update_new evict_one)

lemma registry_ok_get:
  assumes ok: "registry_ok built r" and get: "registry_get build t r = (res, r')"
    and fresh: "\<And>d. build t = Inr d \<Longrightarrow> built t d \<and> d \<notin> set (tr_closed r @ dict_values (tr_entries r))"
  shows "registry_ok built r'" and "res = Inr d \<Longrightarrow> built t d \<and> tr_entries r' \<noteq> [] \<and> last (tr_entries r') = (t, d)"
proof -
  have inv: "1 \<le> tr_max r" "int (length (tr_entries r)) \<le> tr_max r" "wf_dict (tr_entries r)"
    "\<forall>(t, d)\<in>set (tr_entries r). built t d" "distinct (tr_closed r @ dict_values (tr_entries r))"
    using ok by (auto simp: registry_ok_def)
  have "registry_ok built r' \<and> (\<forall>d. res = Inr d \<longrightarrow> built t d \<and> tr_entries r' \<noteq> [] \<and> last (tr_entries r') = (t, d))"
  proof (cases "map_of (tr_entries r) t")
    case (Some d)
    then obtain xs ys where es: "tr_entries r = xs @ (t, d) # ys" by (metis map_of_SomeD split_list)
    have del: "AList.delete t (tr_entries r) = xs @ ys"
      using inv(3) by (simp add: es wf_dict_def delete_append delete_id)
    have r': "res = Inr d" "r' = r\<lparr>tr_entries := xs @ ys @ [(t, d)]\<rparr>"
      using get Some by (auto simp: registry_get_def move_to_end_def del)
    show ?thesis using inv by (auto simp: r' es registry_ok_def wf_dict_def dict_values_def)
  next
    case None
    show ?thesis
    proof (cases "build t")
      case (Inl e)
      with get None ok show ?thesis by (auto simp: registry_get_def)
    next
      case (Inr d)
      note f = fresh [OF Inr]
      have new: "t \<notin> fst ` set (tr_entries r)" using None by (simp add: map_of_eq_None_iff)
      have r': "res = Inr d" "r' = (if int (length (tr_entries r)) < tr_max r
            then r\<lparr>tr_entries := tr_entries r @ [(t, d)]\<rparr>
            else r\<lparr>tr_entries := tl (tr_entries r) @ [(t, d)], tr_closed := tr_closed r @ [snd (hd (tr_entries r))]\<rparr>)"
        using get registry_get_new [where build = build, OF ok None Inr] by auto
      show ?thesis
      proof (cases "int (length (tr_entries r)) < tr_max r")
        case True
        then show ?thesis using inv f new by (auto simp: r' registry_ok_def wf_dict_def dict_values_def)
      next
        case False
        then obtain e es where "tr_entries r = e # es" using inv(1) by (cases "tr_entries r") auto
        with False show ?thesis using inv f new
          by (auto simp: r' registry_ok_def wf_dict_def dict_values_def)
      qed
    qed
  qed
  then show "registry_ok built r'" and "res = Inr d \<Longrightarrow> built t d \<and> tr_entries r' \<noteq> [] \<and> last (tr_entries r') = (t, d)"
    by auto
qed

text \<open>Claim C18. The tenant registry keeps tenants apart and loses no driver. From a sound state, \<^verbatim>\<open>get\<close> for a
  tenant returns a registry that was built for that tenant and makes it the most recent entry; the
  cache stays within its bound with one entry per tenant; and, as builds give fresh registries, every
  registry ever handed out is either cached or closed, never both and never closed twice.\<close>

theorem registry_get_isolated:
  assumes "registry_ok built r" and "registry_get build t r = (res, r')"
    and "\<forall>d. build t = Inr d \<longrightarrow> built t d \<and> d \<notin> set (tr_closed r @ dict_values (tr_entries r))"
  shows "registry_ok built r' \<and> (\<forall>d. res = Inr d \<longrightarrow> built t d \<and> last (tr_entries r') = (t, d))
     \<and> (\<forall>d. d \<in> set (tr_closed r @ dict_values (tr_entries r)) \<longrightarrow> d \<in> set (tr_closed r' @ dict_values (tr_entries r')))"
proof -
  have "d \<in> set (tr_closed r' @ dict_values (tr_entries r'))"
    if d: "d \<in> set (tr_closed r @ dict_values (tr_entries r))" for d
  proof (cases "map_of (tr_entries r) t")
    case (Some x)
    then have "set (dict_values (move_to_end t (tr_entries r))) \<supseteq> set (dict_values (tr_entries r))"
      using assms(1) by (auto simp: move_to_end_def dict_values_def registry_ok_def wf_dict_def AList.delete_eq image_iff)
        (metis map_of_is_SomeI option.inject)
    then show ?thesis using assms(2) d Some by (auto simp: registry_get_def)
  next
    case None
    show ?thesis
    proof (cases "build t")
      case (Inl e)
      then show ?thesis using assms(2) d None by (auto simp: registry_get_def)
    next
      case (Inr x)
      have "r' = (if int (length (tr_entries r)) < tr_max r
          then r\<lparr>tr_entries := tr_entries r @ [(t, x)]\<rparr>
          else r\<lparr>tr_entries := tl (tr_entries r) @ [(t, x)], tr_closed := tr_closed r @ [snd (hd (tr_entries r))]\<rparr>)"
        using registry_get_new [where build = build, OF assms(1) None Inr] assms(2) by simp
      then show ?thesis using d by (cases "tr_entries r") (auto simp: dict_values_def)
    qed
  qed
  with registry_ok_get [OF assms(1,2)] assms(3) show ?thesis by blast
qed

theorem registry_get_isolated_witness:
  "\<exists>res r'. registry_get (\<lambda>t. Inr (t, 2 :: nat) :: string + string \<times> nat) ''b''
      \<lparr>tr_max = 1, tr_entries = [(''a'', (''a'', 1))], tr_closed = []\<rparr> = (res, r')
     \<and> res = Inr (''b'', 2) \<and> tr_closed r' = [(''a'', 1)] \<and> registry_ok (\<lambda>t d. fst d = t) r'"
proof -
  let ?r = "\<lparr>tr_max = 1, tr_entries = [(''a'', (''a'', 1))], tr_closed = []\<rparr> :: (string \<times> nat) tenant_registry"
  obtain res r' where g: "registry_get (\<lambda>t. Inr (t, 2) :: string + string \<times> nat) ''b'' ?r = (res, r')" by (metis surj_pair)
  have ok: "registry_ok (\<lambda>t d. fst d = t) ?r" by (simp add: registry_ok_def wf_dict_def dict_values_def)
  have "registry_ok (\<lambda>t d. fst d = t) r'"
    using registry_get_isolated [OF ok g] by (simp add: dict_values_def)
  moreover have "res = Inr (''b'', 2) \<and> tr_closed r' = [(''a'', 1)]" using g by (auto simp: registry_get_def)
  ultimately show ?thesis using g by blast
qed

end
