(* ===== verification/Caches.thy ===== *)
theory Caches
  imports Py_Text "HOL-Library.Product_Lexorder" "HOL-Library.List_Lexorder" "HOL-Library.Char_ord"
begin

text \<open>
  The two expiring caches of the runtime: \<^verbatim>\<open>tool_cache.py\<close> (tool results per tenant) and the
  in-memory cache of \<^verbatim>\<open>offer_cache.py\<close> (priced offers, with an expiry heap).

  Clock readings are rational seconds. The heap of \<^verbatim>\<open>heapq\<close> is the sorted list of its elements
  (pairs compared as Python compares tuples), from which \<^verbatim>\<open>heappop\<close> takes the first. SHA-256 is an
  argument. What an expiring cache promises is the locale \<open>ttl_cache\<close>, interpreted on both.
\<close>

section \<open>JSON with sorted keys\<close>

definition dumps_char :: "char \<Rightarrow> string" where
  "dumps_char c =
     (let n = (of_char c :: nat); bs = char_of (92 :: nat) in
      if n = 34 \<or> n = 92 then [bs, c]
      else if n = 10 then [bs, CHR ''n''] else if n = 13 then [bs, CHR ''r'']
      else if n = 9 then [bs, CHR ''t''] else if n = 8 then [bs, CHR ''b'']
      else if n = 12 then [bs, CHR ''f'']
      else if 32 \<le> n \<and> n \<le> 126 then [c]
      else [bs, CHR ''u'', CHR ''0'', CHR ''0'', hex_char (n div 16), hex_char (n mod 16)])"

definition dumps_str :: "string \<Rightarrow> string" where
  "dumps_str s = [char_of (34 :: nat)] @ concat (map dumps_char s) @ [char_of (34 :: nat)]"

text \<open>Keys are sorted at every level; printing the values first and sorting the pairs by key is the same.\<close>

fun dumps_sorted :: "json \<Rightarrow> string" where
  "dumps_sorted JNull = ''null''"
| "dumps_sorted (JBool b) = (if b then ''true'' else ''false'')"
| "dumps_sorted (JInt i) = show_int i"
| "dumps_sorted (JFloat t) = t"
| "dumps_sorted (JStr s) = dumps_str s"
| "dumps_sorted (JList xs) = ''['' @ join_with '', '' (map dumps_sorted xs) @ '']''"
| "dumps_sorted (JObj kvs) =
     ''{'' @ join_with '', '' (map (\<lambda>(k, v). dumps_str k @ '': '' @ v)
        (sort_key fst (map (\<lambda>kv. (fst kv, dumps_sorted (snd kv))) kvs))) @ ''}''"

definition hash_input :: "(string \<Rightarrow> string) \<Rightarrow> (string \<times> json) list \<Rightarrow> string" where
  "hash_input sha256 inp = sha256 (dumps_sorted (JObj inp))"

section \<open>The tool-result cache\<close>

definition CACHEABLE_TOOLS :: "string list" where
  "CACHEABLE_TOOLS = [''search_flights'', ''search_hotels'', ''check_hotel_rate'', ''list_ledger_accounts'', ''lookup_passenger'']"

definition DEFAULT_TTL_SECONDS :: rat where "DEFAULT_TTL_SECONDS = 300"

definition PER_TOOL_TTL :: "(string, rat) dict" where
  "PER_TOOL_TTL = [(''check_hotel_rate'', 120), (''list_ledger_accounts'', 600)]"

type_synonym tool_key = "string \<times> string \<times> string"

record 'v tool_cache =
  tc_default_ttl :: rat
  tc_store :: "(tool_key, 'v \<times> rat) dict"
  tc_hits :: nat
  tc_misses :: nat

definition is_cacheable :: "string \<Rightarrow> bool" where
  "is_cacheable tool = (tool \<in> set CACHEABLE_TOOLS)"

definition ttl_for :: "'v tool_cache \<Rightarrow> string \<Rightarrow> rat" where
  "ttl_for c tool = dict_get_or PER_TOOL_TTL tool (tc_default_ttl c)"

definition tool_cache_get :: "rat \<Rightarrow> tool_key \<Rightarrow> 'v tool_cache \<Rightarrow> 'v option \<times> 'v tool_cache" where
  "tool_cache_get now key c =
     (if \<not> is_cacheable (fst (snd key)) then (None, c)
      else case map_of (tc_store c) key of
             None \<Rightarrow> (None, c\<lparr>tc_misses := Suc (tc_misses c)\<rparr>)
           | Some (v, expires_at) \<Rightarrow>
               if expires_at \<le> now
               then (None, c\<lparr>tc_store := AList.delete key (tc_store c), tc_misses := Suc (tc_misses c)\<rparr>)
               else (Some v, c\<lparr>tc_hits := Suc (tc_hits c)\<rparr>))"

definition tool_cache_put :: "rat \<Rightarrow> tool_key \<Rightarrow> 'v \<Rightarrow> 'v tool_cache \<Rightarrow> 'v tool_cache" where
  "tool_cache_put now key v c =
     (if \<not> is_cacheable (fst (snd key)) then c
      else c\<lparr>tc_store := AList.update key (v, now + ttl_for c (fst (snd key))) (tc_store c)\<rparr>)"

definition tool_cache_clear :: "'v tool_cache \<Rightarrow> 'v tool_cache" where
  "tool_cache_clear c = c\<lparr>tc_store := [], tc_hits := 0, tc_misses := 0\<rparr>"

definition tool_cache_stats :: "'v tool_cache \<Rightarrow> nat \<times> nat \<times> nat" where
  "tool_cache_stats c = (tc_hits c, tc_misses c, length (tc_store c))"

section \<open>The offer cache\<close>

record 'v offer_cache =
  oc_store :: "(string, rat \<times> 'v) dict"
  oc_heap :: "(rat \<times> string) list"

text \<open>The \<^verbatim>\<open>while\<close> of \<^verbatim>\<open>_sweep\<close>.\<close>

fun sweep_loop :: "rat \<Rightarrow> (rat \<times> string) list \<Rightarrow> (string, rat \<times> 'v) dict \<Rightarrow>
    (rat \<times> string) list \<times> (string, rat \<times> 'v) dict" where
  "sweep_loop now [] store = ([], store)"
| "sweep_loop now ((t, key) # heap) store =
     (if t \<le> now
      then sweep_loop now heap
             (case map_of store key of
                Some (e, v) \<Rightarrow> if e \<le> now then AList.delete key store else store
              | None \<Rightarrow> store)
      else ((t, key) # heap, store))"

definition sweep :: "rat \<Rightarrow> 'v offer_cache \<Rightarrow> 'v offer_cache" where
  "sweep now c = (let (h, s) = sweep_loop now (oc_heap c) (oc_store c) in c\<lparr>oc_heap := h, oc_store := s\<rparr>)"

definition offer_put :: "rat \<Rightarrow> string \<Rightarrow> int \<Rightarrow> 'v \<Rightarrow> 'v offer_cache \<Rightarrow> string + 'v offer_cache" where
  "offer_put now key ttl_seconds offer c =
     (if ttl_seconds \<le> 0 then Inl ''ttl_seconds must be positive''
      else let expires_at = now + of_int ttl_seconds
           in Inr (c\<lparr>oc_store := AList.update key (expires_at, offer) (oc_store c),
                     oc_heap := insort (expires_at, key) (oc_heap c)\<rparr>))"

text \<open>\<^verbatim>\<open>get\<close> reads the clock twice: once in the sweep and once for the entry it found.\<close>

definition offer_get :: "rat \<Rightarrow> rat \<Rightarrow> string \<Rightarrow> 'v offer_cache \<Rightarrow> 'v option \<times> 'v offer_cache" where
  "offer_get now1 now2 key c =
     (let c1 = sweep now1 c
      in case map_of (oc_store c1) key of
           None \<Rightarrow> (None, c1)
         | Some (expires_at, offer) \<Rightarrow>
             if expires_at \<le> now2 then (None, c1\<lparr>oc_store := AList.delete key (oc_store c1)\<rparr>)
             else (Some offer, c1))"

definition offer_delete :: "string \<Rightarrow> 'v offer_cache \<Rightarrow> 'v offer_cache" where
  "offer_delete key c = c\<lparr>oc_store := AList.delete key (oc_store c)\<rparr>"

section \<open>What an expiring cache promises\<close>

datatype ('k, 'p, 'v) cache_op = CPut rat 'k 'p 'v | CGet rat 'k | CDrop rat 'k

fun op_time :: "('k, 'p, 'v) cache_op \<Rightarrow> rat" where
  "op_time (CPut t k p v) = t"
| "op_time (CGet t k) = t"
| "op_time (CDrop t k) = t"

text \<open>The specification reads the operations done so far, latest first; \<open>life\<close> is how long a put lasts.\<close>

fun cache_spec :: "('k \<Rightarrow> 'p \<Rightarrow> rat option) \<Rightarrow> ('k, 'p, 'v) cache_op list \<Rightarrow> rat \<Rightarrow> 'k \<Rightarrow> 'v option" where
  "cache_spec life [] now k = None"
| "cache_spec life (CPut t k' p v # h) now k =
     (case life k' p of
        None \<Rightarrow> cache_spec life h now k
      | Some ttl \<Rightarrow> if k = k' then (if now < t + ttl then Some v else None) else cache_spec life h now k)"
| "cache_spec life (CGet t k' # h) now k = cache_spec life h now k"
| "cache_spec life (CDrop t k' # h) now k = (if k = k' then None else cache_spec life h now k)"

fun cache_step :: "(rat \<Rightarrow> 'k \<Rightarrow> 'p \<Rightarrow> 'v \<Rightarrow> 's \<Rightarrow> 's) \<Rightarrow> (rat \<Rightarrow> 'k \<Rightarrow> 's \<Rightarrow> 'v option \<times> 's) \<Rightarrow> ('k \<Rightarrow> 's \<Rightarrow> 's) \<Rightarrow>
    ('k, 'p, 'v) cache_op \<Rightarrow> 's \<Rightarrow> 's" where
  "cache_step put get remove (CPut t k p v) s = put t k p v s"
| "cache_step put get remove (CGet t k) s = snd (get t k s)"
| "cache_step put get remove (CDrop t k) s = remove k s"

locale ttl_cache =
  fixes empty :: 's
    and put :: "rat \<Rightarrow> 'k \<Rightarrow> 'p \<Rightarrow> 'v \<Rightarrow> 's \<Rightarrow> 's"
    and get :: "rat \<Rightarrow> 'k \<Rightarrow> 's \<Rightarrow> 'v option \<times> 's"
    and remove :: "'k \<Rightarrow> 's \<Rightarrow> 's"
    and life :: "'k \<Rightarrow> 'p \<Rightarrow> rat option"
    and live :: "'s \<Rightarrow> rat \<Rightarrow> 'k \<Rightarrow> 'v option"
    and ok :: "'s \<Rightarrow> bool"
  assumes ok_empty: "ok empty" and live_empty: "live empty now k = None"
    and ok_put: "ok s \<Longrightarrow> ok (put now k p v s)"
    and live_put: "ok s \<Longrightarrow> live (put now k p v s) now' k' =
      (case life k p of None \<Rightarrow> live s now' k'
       | Some ttl \<Rightarrow> if k' = k then (if now' < now + ttl then Some v else None) else live s now' k')"
    and ok_get: "ok s \<Longrightarrow> ok (snd (get now k s))"
    and get_live: "ok s \<Longrightarrow> fst (get now k s) = live s now k"
    and live_get: "ok s \<Longrightarrow> now \<le> now' \<Longrightarrow> live (snd (get now k s)) now' k' = live s now' k'"
    and ok_remove: "ok s \<Longrightarrow> ok (remove k s)"
    and live_remove: "ok s \<Longrightarrow> live (remove k s) now' k' = (if k' = k then None else live s now' k')"
begin

lemma fold_refines_spec:
  assumes "sorted (map op_time xs)" "\<forall>x\<in>set xs. op_time x \<le> now"
  shows "ok (fold (cache_step put get remove) xs empty) \<and> (\<forall>k. live (fold (cache_step put get remove) xs empty) now k = cache_spec life (rev xs) now k)"
  using assms
proof (induction xs arbitrary: now rule: rev_induct)
  case Nil
  then show ?case by (simp add: ok_empty live_empty)
next
  case (snoc x xs)
  have srt: "sorted (map op_time xs)" "\<forall>y\<in>set xs. op_time y \<le> op_time x" "op_time x \<le> now"
    using snoc.prems by (auto simp: sorted_append)
  have ok: "ok (fold (cache_step put get remove) xs empty)" using snoc.IH [OF srt(1,2)] by blast
  have lv: "live (fold (cache_step put get remove) xs empty) now k = cache_spec life (rev xs) now k" for k
    using snoc.IH [OF srt(1), of now] snoc.prems(2) by simp
  show ?case
    using ok srt(3)
    by (cases x) (auto simp: lv live_put live_get live_remove ok_put ok_get ok_remove split: option.splits)
qed

lemma get_refines_spec:
  assumes "sorted (map op_time xs)" "\<forall>x\<in>set xs. op_time x \<le> now"
  shows "fst (get now k (fold (cache_step put get remove) xs empty)) = cache_spec life (rev xs) now k"
  using fold_refines_spec [OF assms] by (simp add: get_live)

end

section \<open>The tool cache keeps the promise\<close>

definition tool_life :: "tool_key \<Rightarrow> rat \<Rightarrow> rat option" where
  "tool_life key default_ttl =
     (if is_cacheable (fst (snd key)) then Some (dict_get_or PER_TOOL_TTL (fst (snd key)) default_ttl) else None)"

definition tool_live :: "'v tool_cache \<Rightarrow> rat \<Rightarrow> tool_key \<Rightarrow> 'v option" where
  "tool_live c now key =
     (case map_of (tc_store c) key of None \<Rightarrow> None | Some (v, e) \<Rightarrow> if now < e then Some v else None)"

definition tool_cache_ok :: "rat \<Rightarrow> 'v tool_cache \<Rightarrow> bool" where
  "tool_cache_ok ttl c \<longleftrightarrow> tc_default_ttl c = ttl \<and> (\<forall>key. map_of (tc_store c) key \<noteq> None \<longrightarrow> is_cacheable (fst (snd key)))"

definition tool_cache_new :: "rat \<Rightarrow> 'v tool_cache" where
  "tool_cache_new ttl = \<lparr>tc_default_ttl = ttl, tc_store = [], tc_hits = 0, tc_misses = 0\<rparr>"

text \<open>The tool cache has no removal of a single key; its put takes no lifetime.\<close>

definition tool_remove :: "tool_key \<Rightarrow> 'v tool_cache \<Rightarrow> 'v tool_cache" where
  "tool_remove key c = c\<lparr>tc_store := AList.delete key (tc_store c)\<rparr>"

lemma tool_ok_live:
  "tool_cache_ok ttl c \<Longrightarrow> \<not> is_cacheable (fst (snd key)) \<Longrightarrow> map_of (tc_store c) key = None"
  unfolding tool_cache_ok_def by blast

lemma tool_ok_put: "tool_cache_ok ttl c \<Longrightarrow> tool_cache_ok ttl (tool_cache_put now key v c)"
  unfolding tool_cache_ok_def tool_cache_put_def by (simp add: update_conv' del: split_paired_All split_paired_Ex not_None_eq)

lemma tool_ok_get: "tool_cache_ok ttl c \<Longrightarrow> tool_cache_ok ttl (snd (tool_cache_get now key c))"
  unfolding tool_cache_ok_def tool_cache_get_def by (simp add: delete_conv' split: option.split prod.split del: split_paired_All split_paired_Ex not_None_eq)

lemma tool_ok_remove: "tool_cache_ok ttl c \<Longrightarrow> tool_cache_ok ttl (tool_remove key c)"
  unfolding tool_cache_ok_def tool_remove_def by (simp add: delete_conv' del: split_paired_All split_paired_Ex not_None_eq)

lemma tool_live_put:
  assumes "tool_cache_ok ttl c"
  shows "tool_live (tool_cache_put now k v c) now' k' =
      (case tool_life k ttl of None \<Rightarrow> tool_live c now' k'
       | Some t \<Rightarrow> if k' = k then (if now' < now + t then Some v else None) else tool_live c now' k')"
  using assms by (simp add: tool_cache_ok_def tool_live_def tool_cache_put_def tool_life_def ttl_for_def update_conv')

lemma tool_get_live: "tool_cache_ok ttl c \<Longrightarrow> fst (tool_cache_get now k c) = tool_live c now k"
  using tool_ok_live [of ttl c k] by (auto simp: tool_cache_get_def tool_live_def split: option.splits)

lemma tool_live_get: "now \<le> now' \<Longrightarrow> tool_live (snd (tool_cache_get now k c)) now' k' = tool_live c now' k'"
  by (auto simp: tool_cache_get_def tool_live_def delete_conv' split: option.splits)

interpretation toolcache: ttl_cache "tool_cache_new DEFAULT_TTL_SECONDS" "\<lambda>now k (p :: unit). tool_cache_put now k" tool_cache_get
    tool_remove "\<lambda>k p. tool_life k DEFAULT_TTL_SECONDS" tool_live "tool_cache_ok DEFAULT_TTL_SECONDS"
proof unfold_locales
  show "tool_cache_ok DEFAULT_TTL_SECONDS (tool_cache_new DEFAULT_TTL_SECONDS)" by (simp add: tool_cache_ok_def tool_cache_new_def)
  show "tool_live (tool_cache_new DEFAULT_TTL_SECONDS) now k = None" for now k by (simp add: tool_live_def tool_cache_new_def)
  show "tool_live (tool_remove k c) now' k' = (if k' = k then None else tool_live c now' k')" for k c now' k'
    by (simp add: tool_live_def tool_remove_def delete_conv')
qed (simp_all add: tool_ok_put tool_ok_get tool_ok_remove tool_live_put tool_get_live tool_live_get)

section \<open>The offer cache keeps the promise\<close>

definition offer_life :: "string \<Rightarrow> int \<Rightarrow> rat option" where
  "offer_life key ttl = (if ttl \<le> 0 then None else Some (of_int ttl))"

definition offer_live :: "'v offer_cache \<Rightarrow> rat \<Rightarrow> string \<Rightarrow> 'v option" where
  "offer_live c now key =
     (case map_of (oc_store c) key of None \<Rightarrow> None | Some (e, v) \<Rightarrow> if now < e then Some v else None)"

text \<open>Every stored offer has its expiry on the heap, and the heap is in order.\<close>

definition offer_ok :: "'v offer_cache \<Rightarrow> bool" where
  "offer_ok c \<longleftrightarrow> sorted (oc_heap c) \<and> (\<forall>k e v. map_of (oc_store c) k = Some (e, v) \<longrightarrow> (e, k) \<in> set (oc_heap c))"

definition offer_put_ok :: "rat \<Rightarrow> string \<Rightarrow> int \<Rightarrow> 'v \<Rightarrow> 'v offer_cache \<Rightarrow> 'v offer_cache" where
  "offer_put_ok now key ttl v c = (case offer_put now key ttl v c of Inl _ \<Rightarrow> c | Inr c' \<Rightarrow> c')"

lemma sweep_loop_inv:
  assumes "sweep_loop now heap store = (h', s')" "sorted heap"
    and "\<forall>k e v. map_of store k = Some (e, v) \<longrightarrow> (e, k) \<in> set heap"
  shows "sorted h' \<and> (\<forall>k e v. map_of s' k = Some (e, v) \<longrightarrow> (e, k) \<in> set h' \<and> now < e)
     \<and> (\<forall>k. map_of s' k = (case map_of store k of Some (e, v) \<Rightarrow> if e \<le> now then None else Some (e, v) | None \<Rightarrow> None))"
  using assms
proof (induction now heap store arbitrary: h' s' rule: sweep_loop.induct)
  case (1 now store)
  then have "map_of store = Map.empty" by (metis empty_iff list.set(1) old.prod.exhaust option.exhaust ext)
  with 1 show ?case by simp
next
  case (2 now t key heap store)
  show ?case
  proof (cases "t \<le> now")
    case True
    define store1 where "store1 = (case map_of store key of
        Some (e, v) \<Rightarrow> if e \<le> now then AList.delete key store else store | None \<Rightarrow> store)"
    have run: "sweep_loop now heap store1 = (h', s')" using "2.prems"(1) True by (simp add: store1_def)
    have m1: "map_of store1 k = (case map_of store k of Some (e, v) \<Rightarrow> if k = key \<and> e \<le> now then None else Some (e, v) | None \<Rightarrow> None)" for k
      by (auto simp: store1_def delete_conv' split: option.splits)
    have "\<forall>k e v. map_of store1 k = Some (e, v) \<longrightarrow> (e, k) \<in> set heap"
      using "2.prems"(3) True by (fastforce simp: m1 split: option.splits if_splits)
    from "2.IH" [OF True run [unfolded store1_def] _ this [unfolded store1_def]] "2.prems"(2)
    show ?thesis by (fastforce simp: m1 [unfolded store1_def] split: option.splits if_splits)
  next
    case False
    then have eq: "h' = (t, key) # heap" "s' = store" using "2.prems"(1) by auto
    have "now < e" if "(e, k) \<in> set ((t, key) # heap)" for e k
    proof -
      from "2.prems"(2) that have "(t, key) \<le> (e, k)" by auto
      then have "t \<le> e" by (auto simp: less_eq_prod_def)
      with False show ?thesis by simp
    qed
    then show ?thesis using "2.prems"(2,3) eq by (fastforce split: option.splits)
  qed
qed

lemma sweep_ok:
  assumes "offer_ok c"
  shows "offer_ok (sweep now c)" and "map_of (oc_store (sweep now c)) k = Some (e, v) \<Longrightarrow> now < e"
    and "now \<le> now' \<Longrightarrow> offer_live (sweep now c) now' k = offer_live c now' k"
proof -
  obtain h' s' where r: "sweep_loop now (oc_heap c) (oc_store c) = (h', s')" by (metis surj_pair)
  have inv: "sorted h'" "\<And>k e v. map_of s' k = Some (e, v) \<Longrightarrow> (e, k) \<in> set h' \<and> now < e"
    "\<And>k. map_of s' k = (case map_of (oc_store c) k of Some (e, v) \<Rightarrow> if e \<le> now then None else Some (e, v) | None \<Rightarrow> None)"
    using sweep_loop_inv [OF r] assms unfolding offer_ok_def by blast+
  show "offer_ok (sweep now c)" using inv(1,2) by (simp add: offer_ok_def sweep_def r)
  show "map_of (oc_store (sweep now c)) k = Some (e, v) \<Longrightarrow> now < e" using inv(2) by (auto simp: sweep_def r)
  show "now \<le> now' \<Longrightarrow> offer_live (sweep now c) now' k = offer_live c now' k"
    by (auto simp: offer_live_def sweep_def r inv(3) split: option.splits)
qed

lemma offer_ok_put: "offer_ok c \<Longrightarrow> offer_ok (offer_put_ok now k ttl v c)"
  by (auto simp: offer_put_ok_def offer_put_def offer_ok_def Let_def sorted_insort set_insort_key update_conv'
      split: if_splits)

lemma offer_live_put:
  "offer_live (offer_put_ok now k ttl v c) now' k' =
      (case offer_life k ttl of None \<Rightarrow> offer_live c now' k'
       | Some t \<Rightarrow> if k' = k then (if now' < now + t then Some v else None) else offer_live c now' k')"
  by (simp add: offer_put_ok_def offer_put_def offer_live_def offer_life_def Let_def update_conv')

lemma offer_get_sweeps:
  assumes "offer_ok c"
  shows "offer_get now now k c = (offer_live c now k, sweep now c)"
proof -
  have live: "offer_live c now k = offer_live (sweep now c) now k" using sweep_ok(3) [OF assms order_refl] by simp
  show ?thesis
  proof (cases "map_of (oc_store (sweep now c)) k")
    case None
    then show ?thesis unfolding live by (simp add: offer_get_def offer_live_def Let_def)
  next
    case (Some ev)
    obtain e v where ev: "ev = (e, v)" by (cases ev)
    with sweep_ok(2) [OF assms, of now k e v] Some show ?thesis
      unfolding live by (simp add: offer_get_def offer_live_def Let_def)
  qed
qed

interpretation offercache: ttl_cache "\<lparr>oc_store = [], oc_heap = []\<rparr> :: 'v offer_cache" offer_put_ok "\<lambda>now. offer_get now now"
    offer_delete offer_life offer_live offer_ok
proof unfold_locales
  show "offer_live (offer_delete k c) now' k' = (if k' = k then None else offer_live c now' k')"
    for k now' k' and c :: "'v offer_cache"
    by (simp add: offer_live_def offer_delete_def delete_conv')
  show "offer_ok (offer_delete k c)" if "offer_ok c" for k and c :: "'v offer_cache"
    using that by (auto simp: offer_ok_def offer_delete_def delete_conv' split: if_splits)
  show "offer_ok \<lparr>oc_store = [], oc_heap = []\<rparr>" by (simp add: offer_ok_def)
  show "offer_live \<lparr>oc_store = [], oc_heap = []\<rparr> now k = None" for now k by (simp add: offer_live_def)
qed (simp_all add: offer_ok_put offer_live_put offer_get_sweeps sweep_ok)

text \<open>Both caches return what was put last and is still alive. Run any sequence of puts, gets and
  removals, in clock order, from an empty cache: a get of the tool-result cache and a get of the offer
  cache return exactly what the specification reads off the sequence, the value of the latest put
  under that key, if it has not outlived its time to live and was not removed. For the tool cache
  only the allow-listed tools are ever stored, with the time to live of the tool.\<close>

theorem cache_get_refines_spec:
  assumes "sorted (map op_time xs)" and "\<forall>x\<in>set xs. op_time x \<le> now"
    and "sorted (map op_time ys)" and "\<forall>y\<in>set ys. op_time y \<le> now"
  shows "fst (tool_cache_get now k (fold (cache_step (\<lambda>now k (p :: unit). tool_cache_put now k) tool_cache_get tool_remove) xs
           (tool_cache_new DEFAULT_TTL_SECONDS)))
         = cache_spec (\<lambda>k p. tool_life k DEFAULT_TTL_SECONDS) (rev xs) now k
     \<and> fst (offer_get now now key (fold (cache_step offer_put_ok (\<lambda>now. offer_get now now) offer_delete) ys \<lparr>oc_store = [], oc_heap = []\<rparr>))
         = cache_spec offer_life (rev ys) now key"
  using toolcache.get_refines_spec [OF assms(1,2)] offercache.get_refines_spec [OF assms(3,4)] by blast

text \<open>A read of the offer cache leaves no expired offer behind: from any state the operations can
  produce, after \<^verbatim>\<open>get\<close> at time \<open>now\<close> every offer still stored, under whatever key, expires later.\<close>

theorem offer_get_evicts_expired:
  assumes "sorted (map op_time xs)" and "\<forall>x\<in>set xs. op_time x \<le> now"
    and "offer_get now now key (fold (cache_step offer_put_ok (\<lambda>now. offer_get now now) offer_delete) xs
        \<lparr>oc_store = [], oc_heap = []\<rparr>) = (r, c')"
    and "map_of (oc_store c') k = Some (e, v)"
  shows "now < e"
proof -
  have ok: "offer_ok (fold (cache_step offer_put_ok (\<lambda>now. offer_get now now) offer_delete) xs \<lparr>oc_store = [], oc_heap = []\<rparr>)"
    using offercache.fold_refines_spec [OF assms(1,2)] by blast
  from offer_get_sweeps [OF ok] assms(3,4) sweep_ok(2) [OF ok] show ?thesis by auto
qed

section \<open>The cache key ignores the order of arguments\<close>

text \<open>The key of a tool result depends on the arguments, not on their order: two argument
  dictionaries with the same bindings hash alike, whatever order their keys came in.\<close>

theorem hash_input_order_irrelevant:
  assumes "wf_dict inp" and "wf_dict inp'" and "set inp = set inp'"
  shows "hash_input sha256 inp = hash_input sha256 inp'"
proof -
  let ?p = "\<lambda>kvs. map (\<lambda>kv. (fst kv, dumps_sorted (snd kv))) (kvs :: (string \<times> json) list)"
  have d: "distinct (map fst (sort_key fst (?p kvs)))" if "wf_dict kvs" for kvs
    using that by (simp add: wf_dict_def distinct_map inj_on_def comp_def) blast
  have "sort_key fst (?p inp) = sort_key fst (?p inp')"
  proof (rule map_sorted_distinct_set_unique [where f = fst])
    show "inj_on fst (set (sort_key fst (?p inp)) \<union> set (sort_key fst (?p inp')))"
      using assms d [OF assms(1)] by (auto simp: distinct_map)
  qed (use assms d in auto)
  then show ?thesis by (simp add: hash_input_def)
qed

section \<open>Witnesses\<close>

theorem cache_get_refines_spec_witness:
  "fst (tool_cache_get 10 (''t'', ''search_flights'', ''h'')
      (fold (cache_step (\<lambda>now k (p :: unit). tool_cache_put now k) tool_cache_get tool_remove)
        [CPut 0 (''t'', ''search_flights'', ''h'') () (5 :: nat)] (tool_cache_new DEFAULT_TTL_SECONDS))) = Some 5
   \<and> fst (offer_get 10 10 ''k'' (fold (cache_step offer_put_ok (\<lambda>now. offer_get now now) offer_delete)
        [CPut 0 ''k'' 5 (1 :: nat)] \<lparr>oc_store = [], oc_heap = []\<rparr>)) = None"
proof -
  let ?xs = "[CPut 0 (''t'', ''search_flights'', ''h'') () (5 :: nat)]"
  let ?ys = "[CPut 0 ''k'' 5 (1 :: nat)]"
  have "cache_spec (\<lambda>k p. tool_life k DEFAULT_TTL_SECONDS) (rev ?xs) 10 (''t'', ''search_flights'', ''h'') = Some 5"
    by code_simp
  moreover have "cache_spec offer_life (rev ?ys) 10 ''k'' = None" by (simp add: offer_life_def)
  moreover have "fst (tool_cache_get 10 (''t'', ''search_flights'', ''h'')
        (fold (cache_step (\<lambda>now k (p :: unit). tool_cache_put now k) tool_cache_get tool_remove) ?xs (tool_cache_new DEFAULT_TTL_SECONDS)))
      = cache_spec (\<lambda>k p. tool_life k DEFAULT_TTL_SECONDS) (rev ?xs) 10 (''t'', ''search_flights'', ''h'')
    \<and> fst (offer_get 10 10 ''k'' (fold (cache_step offer_put_ok (\<lambda>now. offer_get now now) offer_delete) ?ys \<lparr>oc_store = [], oc_heap = []\<rparr>))
      = cache_spec offer_life (rev ?ys) 10 ''k''"
    by (rule cache_get_refines_spec) simp_all
  ultimately show ?thesis by (simp only: simp_thms)
qed

definition demo_offer_cache :: "nat offer_cache" where
  "demo_offer_cache = fold (cache_step offer_put_ok (\<lambda>now. offer_get now now) offer_delete) [CPut 0 ''k'' 5 1] \<lparr>oc_store = [], oc_heap = []\<rparr>"

theorem offer_get_evicts_expired_witness:
  "map_of (oc_store (snd (offer_get 1 1 ''x'' demo_offer_cache))) ''k'' = Some (5, 1) \<and> (1 :: rat) < 5"
proof -
  have m: "map_of (oc_store (snd (offer_get 1 1 ''x'' demo_offer_cache))) ''k'' = Some (5, 1)" by code_simp
  have "(1 :: rat) < 5"
    by (rule offer_get_evicts_expired [where xs = "[CPut 0 ''k'' 5 (1 :: nat)]" and key = "''x''" and k = "''k''",
          OF _ _ prod.collapse [symmetric] m [unfolded demo_offer_cache_def]]) simp_all
  with m show ?thesis by blast
qed

theorem hash_input_order_irrelevant_witness:
  "hash_input (\<lambda>s. s) [(''b'', JInt 2), (''a'', JInt 1)] = hash_input (\<lambda>s. s) [(''a'', JInt 1), (''b'', JInt 2)]"
  by (rule hash_input_order_irrelevant) (auto simp: wf_dict_def)

end
