(* ===== verification/Orchestrator.thy ===== *)
theory Orchestrator
  imports Agent_Loop Rate_Limiter Cost_Tracker Tenant_Registry
begin

text \<open>
  The per-turn controller of \<^verbatim>\<open>services/agent_runtime/.../orchestrator.py\<close>, the three domain agents
  (\<^verbatim>\<open>domain_agents/\<close>) and the wiring of \<^verbatim>\<open>runtime.py\<close> that decides which agents exist.

  \<^verbatim>\<open>run_turn\<close> is modelled for a consumer that reads it to its end: the result is the list of events
  and the state after. The optional collaborators (rate limiter, cost tracker, settings) are optional
  fields of the state, as they are optional arguments of the constructor. The turn id is an
  argument: the code draws it afresh from \<^verbatim>\<open>uuid4\<close> in every call. Ids, which the models would strip,
  carry no outer white space. The system prompts are named, not quoted.
\<close>

section \<open>Identifiers and names\<close>

definition new_turn_id :: "uuid_int \<Rightarrow> string" where
  "new_turn_id raw = ''t-'' @ take 12 (hex_range raw 32 0)"

definition ORCHESTRATOR_TOOL_NAMES :: "string list" where
  "ORCHESTRATOR_TOOL_NAMES = [''handoff'', ''clarify'']"

definition TICKETING_VISA_TOOL_NAMES :: "string list" where
  "TICKETING_VISA_TOOL_NAMES = [''search_flights'', ''read_pnr'', ''issue_ticket'']"

definition HOTELS_HOLIDAYS_TOOL_NAMES :: "string list" where
  "HOTELS_HOLIDAYS_TOOL_NAMES = [''search_hotels'', ''check_hotel_rate'', ''book_hotel'',
     ''cancel_hotel_booking'', ''read_hotel_booking'']"

definition ACCOUNTING_TOOL_NAMES :: "string list" where
  "ACCOUNTING_TOOL_NAMES = [''list_ledger_accounts'', ''post_journal_entry'', ''create_invoice'', ''draft_invoice'',
     ''fetch_bsp_statement'', ''reconcile_bsp'', ''read_account_balance'']"

text \<open>\<^verbatim>\<open>str(x)\<close> of a JSON value: a string is itself, anything else its representation.\<close>

definition py_str :: "json \<Rightarrow> string" where
  "py_str v = (case v of JStr s \<Rightarrow> s | _ \<Rightarrow> repr_json v)"

definition field_text :: "obj \<Rightarrow> string \<Rightarrow> string" where
  "field_text inp k = py_strip (py_str (dict_get_or inp k (JStr '''')))"

section \<open>State\<close>

record domain_agent =
  da_name :: string
  da_system_prompt :: string
  da_tools :: "string list"

record ('a, 'w, 'c) orchestrator =
  or_env :: "('a, 'w, 'c) loop_env"
  or_domains :: "string list"
  or_resolve :: "string \<Rightarrow> string + domain_agent"
  or_system_prompt :: string
  or_settings :: "(string \<Rightarrow> tenant_settings option) option"
  or_model :: string
  or_usage :: "'c \<Rightarrow> (int \<times> int) option"

record ('a, 'w, 'c) turn_state =
  tu_session :: session
  tu_limiter :: "limiter option"
  tu_ledger :: "ledger option"
  tu_sink :: 'a
  tu_world :: 'w
  tu_client :: 'c
  tu_calls :: nat

text \<open>The clock readings of a turn: the limiter's monotonic clock and the ledger's wall clock, twice.\<close>

record turn_clock =
  ck_mono :: rat
  ck_budget :: int
  ck_record :: int

section \<open>The hook\<close>

type_synonym handoff = "(string \<times> string) option"

definition made :: "agent_event \<Rightarrow> agent_event" where
  "made ev = (case agent_event ev of Inr ev' \<Rightarrow> ev' | Inl _ \<Rightarrow> ev)"

definition on_tool_use :: "string list \<Rightarrow> string \<Rightarrow> string \<Rightarrow> handoff hook" where
  "on_tool_use domains sid tid name inp target =
     (if name = ''handoff'' then
        let d = field_text inp ''domain''; goal = field_text inp ''goal''
        in if d \<notin> set domains
           then (Some [made ((event ERROR sid tid)\<lparr>ev_error_message :=
                    Some (''Handoff to unknown domain '' @ repr_str d @ ''.'')\<rparr>)], target)
           else (Some [], Some (d, goal))
      else if name = ''clarify'' then
        (Some [made ((event TEXT_DELTA sid tid)\<lparr>ev_text := Some (field_text inp ''question'')\<rparr>)], target)
      else (None, target))"

section \<open>Domain agents\<close>

definition seed_message :: "string \<Rightarrow> string \<Rightarrow> message" where
  "seed_message goal user = \<lparr>msg_role = RoleUser, msg_content = [TextBlock
     (''[handoff from orchestrator]'' @ [char_of (10 :: nat)] @ ''Goal: '' @ goal @ [char_of (10 :: nat)] @ ''User said: '' @ user)]\<rparr>"

text \<open>
  \<^verbatim>\<open>DomainAgent.run\<close>, consumed by the orchestrator up to a request for approval. The agent's own
  transcript is the session's history plus a seed; what the loop appends after the seed is copied
  back to the session when the loop ran to its end, and lost when it was abandoned or raised.
\<close>

definition domain_agent_run :: "('a, 'w, 'c) loop_env \<Rightarrow> domain_agent \<Rightarrow> string \<Rightarrow> string \<Rightarrow> session \<Rightarrow>
    ('a, 'w, 'c, handoff) loop_state \<Rightarrow> gen_end \<times> session \<times> ('a, 'w, 'c, handoff) loop_state" where
  "domain_agent_run env agent goal user sess st =
     (let working = s_message_history sess @ [seed_message goal user];
          (e, st') = run_agent_turn env stops_at_approval None (s_id sess) (ctx_turn_id (ls_ctx st))
             (da_system_prompt agent) (da_tools agent) (st\<lparr>ls_messages := working\<rparr>);
          baseline = length (s_message_history sess) + 1
      in (e, (if e = Finished
              then sess\<lparr>s_message_history := s_message_history sess @ drop baseline (ls_messages st')\<rparr>
              else sess), st'))"

section \<open>The turn\<close>

definition tool_context_of :: "session \<Rightarrow> string \<Rightarrow> string \<Rightarrow> (string, bool) dict option \<Rightarrow> tool_context" where
  "tool_context_of sess tid role approvals =
     \<lparr>ctx_tenant_id = s_tenant_id sess, ctx_actor_id = s_actor_id sess, ctx_actor_kind = s_actor_kind sess,
      ctx_session_id = s_id sess, ctx_turn_id = tid, ctx_actor_role = py_strip role,
      ctx_approvals = (case approvals of Some (kv # kvs) \<Rightarrow> kv # kvs | _ \<Rightarrow> approvals_map sess),
      ctx_last_output_validation_error = None\<rparr>"

definition sync_history :: "session \<Rightarrow> message list \<Rightarrow> session" where
  "sync_history sess working =
     sess\<lparr>s_message_history := s_message_history sess @ drop (length (s_message_history sess)) working\<rparr>"

definition error_event :: "string \<Rightarrow> string \<Rightarrow> string \<Rightarrow> agent_event" where
  "error_event sid tid msg = made ((event ERROR sid tid)\<lparr>ev_error_message := Some msg\<rparr>)"

text \<open>The rate-limit gate: the error to report, if any, and the limiter after.\<close>

definition rate_gate :: "tenant_settings option \<Rightarrow> rat \<Rightarrow> string \<Rightarrow> limiter option \<Rightarrow> string option \<times> limiter option" where
  "rate_gate settings now tenant lim0 =
     (case lim0 of
        None \<Rightarrow> (None, None)
      | Some l \<Rightarrow>
          let rpm = (case settings of Some s \<Rightarrow> set_rate_limit_per_minute s | None \<Rightarrow> 60);
              rph = (case settings of Some s \<Rightarrow> set_rate_limit_per_hour s | None \<Rightarrow> 1000);
              (r, l') = check now tenant rpm rph l
          in (map_option (\<lambda>sc. ''rate_limited: '' @ scope_text sc) r, Some l'))"

definition budget_gate :: "tenant_settings option \<Rightarrow> int \<Rightarrow> string \<Rightarrow> ledger option \<Rightarrow> string option" where
  "budget_gate settings now tenant led =
     (case (led, settings) of
        (Some rows, Some s) \<Rightarrow>
          (case set_daily_token_budget s of
             None \<Rightarrow> None
           | Some b \<Rightarrow>
               (case enforce_daily_budget (tokens_for_tenant_today now tenant rows) (Some b) of
                  Inl (limit, used) \<Rightarrow> Some (''daily_budget_exceeded: limit='' @ show_int limit @ '' used='' @ show_int used)
                | Inr _ \<Rightarrow> None))
      | _ \<Rightarrow> None)"

text \<open>A cost that cannot be built is logged and dropped, like any error while recording.\<close>

definition record_turn :: "('a, 'w, 'c) orchestrator \<Rightarrow> session \<Rightarrow> string \<Rightarrow> int \<Rightarrow> 'c \<Rightarrow> ledger option \<Rightarrow> ledger option" where
  "record_turn orch sess tid now client led =
     (case led of
        None \<Rightarrow> None
      | Some rows \<Rightarrow>
          (case or_usage orch client of
             None \<Rightarrow> Some rows
           | Some (i, out) \<Rightarrow>
               if i = 0 \<and> out = 0 then Some rows
               else (case build_turn_cost (s_tenant_id sess) (s_id sess) tid (or_model orch) i out None now of
                       None \<Rightarrow> Some rows
                     | Some cost \<Rightarrow> Some (record_cost cost rows))))"

text \<open>
  What the handoff runs: an unknown domain, an empty goal (rejected by \<^verbatim>\<open>DomainAgentRequest\<close>) and an
  exception of the agent all become one error event.
\<close>

definition run_handoff :: "('a, 'w, 'c) orchestrator \<Rightarrow> string \<Rightarrow> string \<Rightarrow> string \<Rightarrow> string \<Rightarrow> session \<Rightarrow>
    ('a, 'w, 'c, handoff) loop_state \<Rightarrow> session \<times> ('a, 'w, 'c, handoff) loop_state" where
  "run_handoff orch tid d goal user sess st =
     (case or_resolve orch d of
        Inl msg \<Rightarrow> (sess, st\<lparr>ls_events := ls_events st @ [error_event (s_id sess) tid (''KeyError: '' @ msg)]\<rparr>)
      | Inr agent \<Rightarrow>
          if py_strip goal = '''' then
            (sess, st\<lparr>ls_events := ls_events st @ [error_event (s_id sess) tid
               ''ValidationError: String should have at least 1 character'']\<rparr>)
          else
            (let (e, sess', st') = domain_agent_run (or_env orch) agent (py_strip goal) (py_strip user) sess st
             in (sess', case e of
                   Raised m \<Rightarrow> st'\<lparr>ls_events := ls_events st' @ [error_event (s_id sess) tid m]\<rparr>
                 | _ \<Rightarrow> st')))"

text \<open>
  The part of a turn behind the gates, on the state of the loop.
\<close>

definition gated_turn :: "('a, 'w, 'c) orchestrator \<Rightarrow> string \<Rightarrow> string \<Rightarrow> (string, bool) dict option \<Rightarrow> string \<Rightarrow>
    ('a, 'w, 'c) turn_state \<Rightarrow> session \<times> ('a, 'w, 'c, handoff) loop_state" where
  "gated_turn orch tid user approvals role tu =
     (let sess0 = tu_session tu; sid = s_id sess0;
          sess1 = sess0\<lparr>s_message_history := s_message_history sess0 @ [\<lparr>msg_role = RoleUser, msg_content = [TextBlock user]\<rparr>]\<rparr>;
          (e, st1) = run_agent_turn (or_env orch) stops_at_approval (Some (on_tool_use (or_domains orch) sid tid))
             sid tid (or_system_prompt orch) ORCHESTRATOR_TOOL_NAMES
             \<lparr>ls_messages = s_message_history sess1, ls_ctx = tool_context_of sess0 tid role approvals, ls_sink = tu_sink tu,
              ls_world = tu_world tu, ls_client = tu_client tu, ls_hook = None, ls_calls = tu_calls tu, ls_sleeps = [], ls_events = []\<rparr>;
          st2 = (case e of Raised m \<Rightarrow> st1\<lparr>ls_events := ls_events st1 @ [error_event sid tid m]\<rparr> | _ \<Rightarrow> st1);
          sess2 = sync_history sess1 (ls_messages st2)
      in case ls_hook st2 of
           Some (d, goal) \<Rightarrow>
             if e \<noteq> Closed \<and> \<not> (\<exists>ev\<in>set (ls_events st2). ev_kind ev = ERROR)
             then run_handoff orch tid d goal user sess2 st2 else (sess2, st2)
         | None \<Rightarrow> (sess2, st2))"

text \<open>The two gates in order: the first refusal wins; the limiter has been charged in either case.\<close>

definition turn_refusal :: "('a, 'w, 'c) orchestrator \<Rightarrow> turn_clock \<Rightarrow> ('a, 'w, 'c) turn_state \<Rightarrow> string option \<times> limiter option" where
  "turn_refusal orch clock tu =
     (let tenant = s_tenant_id (tu_session tu);
          settings = (case or_settings orch of None \<Rightarrow> None | Some f \<Rightarrow> f tenant);
          (limited, rl) = rate_gate settings (ck_mono clock) tenant (tu_limiter tu)
      in (case limited of Some m \<Rightarrow> Some m | None \<Rightarrow> budget_gate settings (ck_budget clock) tenant (tu_ledger tu), rl))"

definition run_turn :: "('a, 'w, 'c) orchestrator \<Rightarrow> string \<Rightarrow> turn_clock \<Rightarrow> string \<Rightarrow> (string, bool) dict option \<Rightarrow> string \<Rightarrow>
    ('a, 'w, 'c) turn_state \<Rightarrow> agent_event list \<times> ('a, 'w, 'c) turn_state" where
  "run_turn orch tid clock user approvals role tu =
     (case turn_refusal orch clock tu of
        (Some m, rl) \<Rightarrow> ([error_event (s_id (tu_session tu)) tid m, event FINAL (s_id (tu_session tu)) tid], tu\<lparr>tu_limiter := rl\<rparr>)
      | (None, rl) \<Rightarrow>
          let (sess, st) = gated_turn orch tid user approvals role tu
          in (ls_events st @ [event FINAL (s_id (tu_session tu)) tid],
              tu\<lparr>tu_limiter := rl, tu_session := sess,
                 tu_ledger := record_turn orch sess tid (ck_record clock) (ls_client st) (tu_ledger tu),
                 tu_sink := ls_sink st, tu_world := ls_world st, tu_client := ls_client st, tu_calls := ls_calls st\<rparr>))"

section \<open>The default wiring\<close>

definition default_agents :: "(string, domain_agent) dict" where
  "default_agents =
     [(''ticketing_visa'', \<lparr>da_name = ''ticketing_visa'', da_system_prompt = ''TICKETING_VISA_SYSTEM_PROMPT'', da_tools = TICKETING_VISA_TOOL_NAMES\<rparr>),
      (''accounting'', \<lparr>da_name = ''accounting'', da_system_prompt = ''ACCOUNTING_SYSTEM_PROMPT'', da_tools = ACCOUNTING_TOOL_NAMES\<rparr>)]"

definition default_resolver :: "string \<Rightarrow> string + domain_agent" where
  "default_resolver d =
     (case map_of default_agents d of
        Some a \<Rightarrow> Inr a
      | None \<Rightarrow> Inl (repr_str (''No domain agent registered for '' @ repr_str d @ ''.'')))"

section \<open>Events of a turn\<close>

lemma made_fields [simp]:
  "ev_kind (made ev) = ev_kind ev" "ev_session_id (made ev) = ev_session_id ev" "ev_turn_id (made ev) = ev_turn_id ev"
  by (auto simp: made_def agent_event_fields split: sum.splits)

lemma error_event_plain: "plain_event sid tid (error_event sid tid m)"
  by (simp add: error_event_def plain_event_def)

lemma hook_ok_on_tool_use: "hook_ok sid tid (Some (on_tool_use domains sid tid))"
  by (auto simp: hook_ok_def call_hook_def on_tool_use_def turn_event_def Let_def split: if_splits)

lemma hook_ok_None: "hook_ok sid tid None"
  by (simp add: hook_ok_def call_hook_def)

text \<open>\<open>turn_body sid tid paused evs\<close>: plain events, then a request for approval exactly when paused.\<close>

definition turn_body :: "string \<Rightarrow> string \<Rightarrow> bool \<Rightarrow> agent_event list \<Rightarrow> bool" where
  "turn_body sid tid paused evs \<longleftrightarrow>
     (if paused then \<exists>xs ev. evs = xs @ [ev] \<and> list_all (plain_event sid tid) xs \<and> ev_kind ev = APPROVAL_REQUEST
        \<and> ev_session_id ev = sid \<and> ev_turn_id ev = tid
      else list_all (plain_event sid tid) evs)"

lemma turn_events_body: "turn_events sid tid [] e st \<longleftrightarrow> turn_body sid tid (e = Closed) (ls_events st)"
  by (auto simp: turn_events_def turn_body_def paused_since_def plain_since_def)

lemma turn_events_extend:
  assumes "turn_events sid tid evs0 e st" "list_all (plain_event sid tid) evs0"
  shows "turn_body sid tid (e = Closed) (ls_events st)"
  using assms by (fastforce simp: turn_events_def turn_body_def paused_since_def plain_since_def)

lemma turn_body_error: "turn_body sid tid False evs \<Longrightarrow> turn_body sid tid False (evs @ [error_event sid tid m])"
  by (simp add: turn_body_def error_event_plain)

lemma run_handoff_events:
  assumes "run_handoff orch tid d goal user sess st = (sess', st')" "ctx_turn_id (ls_ctx st) = tid"
    and "turn_body (s_id sess) tid False (ls_events st)"
  shows "\<exists>paused. turn_body (s_id sess) tid paused (ls_events st')"
proof (cases "or_resolve orch d")
  case (Inl msg)
  with assms show ?thesis by (auto simp: run_handoff_def intro!: exI [of _ False] turn_body_error)
next
  case (Inr agent)
  show ?thesis
  proof (cases "py_strip goal = ''''")
    case True
    with Inr assms show ?thesis by (auto simp: run_handoff_def intro!: exI [of _ False] turn_body_error)
  next
    case False
    obtain e st1 where r: "run_agent_turn (or_env orch) stops_at_approval None (s_id sess) (ctx_turn_id (ls_ctx st))
        (da_system_prompt agent) (da_tools agent)
        (st\<lparr>ls_messages := s_message_history sess @ [seed_message (py_strip goal) (py_strip user)]\<rparr>) = (e, st1)"
      by (metis surj_pair)
    have body: "turn_body (s_id sess) tid (e = Closed) (ls_events st1)"
      using turn_events_extend [OF run_agent_turn_events [OF hook_ok_None r]] assms(2,3) by (simp add: turn_body_def)
    have "st' = (case e of Raised m \<Rightarrow> st1\<lparr>ls_events := ls_events st1 @ [error_event (s_id sess) tid m]\<rparr> | _ \<Rightarrow> st1)"
      using assms(1) Inr False r by (simp add: run_handoff_def domain_agent_run_def Let_def)
    with body show ?thesis by (cases e) (auto intro: turn_body_error)
  qed
qed

lemma gated_turn_loop:
  fixes orch :: "('a, 'w, 'c) orchestrator"
  assumes "gated_turn orch tid user approvals role tu = (sess, st)"
  obtains e and st0 st1 st2 :: "('a, 'w, 'c, handoff) loop_state" and sess2
  where "run_agent_turn (or_env orch) stops_at_approval (Some (on_tool_use (or_domains orch) (s_id (tu_session tu)) tid))
      (s_id (tu_session tu)) tid (or_system_prompt orch) ORCHESTRATOR_TOOL_NAMES st0 = (e, st1)"
    and "ls_events st0 = []" "ls_ctx st0 = tool_context_of (tu_session tu) tid role approvals" "ls_world st0 = tu_world tu"
    and "st2 = (case e of Raised m \<Rightarrow> st1\<lparr>ls_events := ls_events st1 @ [error_event (s_id (tu_session tu)) tid m]\<rparr> | _ \<Rightarrow> st1)"
    and "s_id sess2 = s_id (tu_session tu)"
    and "(sess, st) = (sess2, st2) \<or> (e \<noteq> Closed \<and> (\<exists>d goal. run_handoff orch tid d goal user sess2 st2 = (sess, st)))"
proof -
  let ?sess1 = "(tu_session tu)\<lparr>s_message_history := s_message_history (tu_session tu) @ [\<lparr>msg_role = RoleUser, msg_content = [TextBlock user]\<rparr>]\<rparr>"
  let ?st0 = "\<lparr>ls_messages = s_message_history ?sess1, ls_ctx = tool_context_of (tu_session tu) tid role approvals,
      ls_sink = tu_sink tu, ls_world = tu_world tu, ls_client = tu_client tu, ls_hook = None, ls_calls = tu_calls tu,
      ls_sleeps = [], ls_events = []\<rparr> :: ('a, 'w, 'c, handoff) loop_state"
  obtain e st1 where r: "run_agent_turn (or_env orch) stops_at_approval (Some (on_tool_use (or_domains orch) (s_id (tu_session tu)) tid))
      (s_id (tu_session tu)) tid (or_system_prompt orch) ORCHESTRATOR_TOOL_NAMES ?st0 = (e, st1)" by (metis surj_pair)
  define st2 where "st2 = (case e of Raised m \<Rightarrow> st1\<lparr>ls_events := ls_events st1 @ [error_event (s_id (tu_session tu)) tid m]\<rparr> | _ \<Rightarrow> st1)"
  define sess2 where "sess2 = sync_history ?sess1 (ls_messages st2)"
  have "(sess, st) = (case ls_hook st2 of
           Some (d, goal) \<Rightarrow>
             if e \<noteq> Closed \<and> \<not> (\<exists>ev\<in>set (ls_events st2). ev_kind ev = ERROR)
             then run_handoff orch tid d goal user sess2 st2 else (sess2, st2)
         | None \<Rightarrow> (sess2, st2))"
    unfolding assms [symmetric] gated_turn_def Let_def r prod.case sess2_def st2_def by (rule refl)
  then have "(sess, st) = (sess2, st2) \<or> (e \<noteq> Closed \<and> (\<exists>d goal. run_handoff orch tid d goal user sess2 st2 = (sess, st)))"
    by (cases "ls_hook st2") (auto split: if_splits, metis)
  moreover have "s_id sess2 = s_id (tu_session tu)" by (simp add: sess2_def sync_history_def)
  ultimately show thesis using that [OF r _ _ _ st2_def] by simp
qed

lemma world_stable_True: "loop_stable env (\<lambda>s. True \<and> same_gate ctx (ls_ctx s))"
  by (rule gate_stable) simp

lemma run_agent_turn_ctx:
  "run_agent_turn env stop hook sid tid prompt names st = (e, st') \<Longrightarrow> same_gate (ls_ctx st) (ls_ctx st')"
  using run_agent_turn_stable [OF world_stable_True, of "ls_ctx st" st] by simp

lemma gated_turn_events:
  assumes "gated_turn orch tid user approvals role tu = (sess, st)"
  shows "\<exists>paused. turn_body (s_id (tu_session tu)) tid paused (ls_events st)"
  using assms
proof (rule gated_turn_loop)
  fix e st0 st1 st2 sess2
  assume r: "run_agent_turn (or_env orch) stops_at_approval (Some (on_tool_use (or_domains orch) (s_id (tu_session tu)) tid))
      (s_id (tu_session tu)) tid (or_system_prompt orch) ORCHESTRATOR_TOOL_NAMES st0 = (e, st1)"
    and st0: "ls_events st0 = []" "ls_ctx st0 = tool_context_of (tu_session tu) tid role approvals" "ls_world st0 = tu_world tu"
    and st2: "st2 = (case e of Raised m \<Rightarrow> st1\<lparr>ls_events := ls_events st1 @ [error_event (s_id (tu_session tu)) tid m]\<rparr> | _ \<Rightarrow> st1)"
    and sess2: "s_id sess2 = s_id (tu_session tu)"
    and fin: "(sess, st) = (sess2, st2) \<or> (e \<noteq> Closed \<and> (\<exists>d goal. run_handoff orch tid d goal user sess2 st2 = (sess, st)))"
  have body1: "turn_body (s_id (tu_session tu)) tid (e = Closed) (ls_events st1)"
    using run_agent_turn_events [OF hook_ok_on_tool_use r] st0(1) by (simp add: turn_events_body)
  then have body2: "turn_body (s_id (tu_session tu)) tid (e = Closed) (ls_events st2)"
    by (cases e) (auto simp: st2 intro: turn_body_error)
  have ctx2: "ctx_turn_id (ls_ctx st2) = tid"
    using run_agent_turn_ctx [OF r] st0(2) by (cases e) (auto simp: st2 same_gate_def tool_context_of_def)
  from fin show ?thesis
  proof
    assume "e \<noteq> Closed \<and> (\<exists>d goal. run_handoff orch tid d goal user sess2 st2 = (sess, st))"
    with run_handoff_events [OF _ ctx2, of orch _ _ user sess2] body2 sess2 show ?thesis by fastforce
  qed (use body2 in auto)
qed

lemma run_turn_shape:
  "\<exists>body. fst (run_turn orch tid clock user approvals role tu) = body @ [event FINAL (s_id (tu_session tu)) tid]
     \<and> list_all (turn_event (s_id (tu_session tu)) tid) body
     \<and> list_all (\<lambda>ev. ev_kind ev \<noteq> APPROVAL_REQUEST) (butlast body)"
proof -
  have body: "list_all (turn_event sid tid) evs \<and> list_all (\<lambda>ev. ev_kind ev \<noteq> APPROVAL_REQUEST) (butlast evs)"
    if "turn_body sid tid paused evs" for sid evs paused
    using that by (auto simp: turn_body_def plain_event_def turn_event_def list_all_iff dest: in_set_butlastD split: if_splits)
  obtain m rl where ref: "turn_refusal orch clock tu = (m, rl)" by (cases "turn_refusal orch clock tu")
  obtain sess st where g: "gated_turn orch tid user approvals role tu = (sess, st)" by (metis surj_pair)
  show ?thesis
  proof (cases m)
    case None
    with ref g gated_turn_events [OF g] body show ?thesis by (auto simp: run_turn_def)
  next
    case (Some msg)
    with ref show ?thesis
      by (auto simp: run_turn_def turn_event_def error_event_def intro!: exI [of _ "[error_event (s_id (tu_session tu)) tid msg]"])
  qed
qed

text \<open>Claim C31. The event stream of a turn. Whatever the model, the tools, the gates and the domain agent
  do, a turn that is read to its end yields exactly one \<open>FINAL\<close> event, as its last; every event carries
  the session and the turn; and a request for approval occurs at most once, right before the end.\<close>

theorem turn_ends_with_one_final:
  "\<exists>body. fst (run_turn orch tid clock user approvals role tu) = body @ [event FINAL (s_id (tu_session tu)) tid]
     \<and> list_all (turn_event (s_id (tu_session tu)) tid) body
     \<and> list_all (\<lambda>ev. ev_kind ev \<noteq> APPROVAL_REQUEST) (butlast body)"
  by (rule run_turn_shape)

section \<open>What a turn may change\<close>

definition kept_by_open_tools :: "('a, 'w, 'c) orchestrator \<Rightarrow> tool_context \<Rightarrow> ('w \<Rightarrow> bool) \<Rightarrow> bool" where
  "kept_by_open_tools orch ctx Q \<longleftrightarrow> (\<forall>name entry inp c w.
     map_of (te_registry (le_tools (or_env orch))) name = Some entry \<and> gate_open (tool_spec entry) ctx name \<and> Q w \<longrightarrow>
     Q (snd (tool_handler entry inp c w)))"

lemma kept_stable:
  assumes "kept_by_open_tools orch ctx Q"
  shows "loop_stable (or_env orch) (\<lambda>s. Q (ls_world s) \<and> same_gate ctx (ls_ctx s))"
  by (rule gate_stable) (use assms in \<open>unfold kept_by_open_tools_def, metis snd_conv\<close>)

lemma run_handoff_gate:
  assumes "run_handoff orch tid d goal user sess st = (sess', st')"
    and "Q (ls_world st)" "same_gate ctx (ls_ctx st)"
    and kept: "kept_by_open_tools orch ctx Q"
  shows "Q (ls_world st')"
proof (cases "or_resolve orch d")
  case (Inr agent)
  show ?thesis
  proof (cases "py_strip goal = ''''")
    case False
    obtain e st1 where r: "run_agent_turn (or_env orch) stops_at_approval None (s_id sess) (ctx_turn_id (ls_ctx st))
        (da_system_prompt agent) (da_tools agent)
        (st\<lparr>ls_messages := s_message_history sess @ [seed_message (py_strip goal) (py_strip user)]\<rparr>) = (e, st1)"
      by (metis surj_pair)
    have "st' = (case e of Raised m \<Rightarrow> st1\<lparr>ls_events := ls_events st1 @ [error_event (s_id sess) tid m]\<rparr> | _ \<Rightarrow> st1)"
      using assms(1) Inr False r by (simp add: run_handoff_def domain_agent_run_def Let_def)
    moreover have "Q (ls_world st1) \<and> same_gate ctx (ls_ctx st1)"
      using run_agent_turn_stable [where P = "\<lambda>s. Q (ls_world s) \<and> same_gate ctx (ls_ctx s)",
          OF kept_stable [OF kept] _ r] assms(2,3) by simp
    ultimately show ?thesis by (cases e) auto
  qed (use assms Inr in \<open>auto simp: run_handoff_def\<close>)
qed (use assms in \<open>auto simp: run_handoff_def\<close>)

lemma gated_turn_gate:
  assumes "gated_turn orch tid user approvals role tu = (sess, st)" and "Q (tu_world tu)"
    and kept: "kept_by_open_tools orch (tool_context_of (tu_session tu) tid role approvals) Q"
  shows "Q (ls_world st)"
  using assms(1)
proof (rule gated_turn_loop)
  fix e st0 st1 st2 sess2
  assume r: "run_agent_turn (or_env orch) stops_at_approval (Some (on_tool_use (or_domains orch) (s_id (tu_session tu)) tid))
      (s_id (tu_session tu)) tid (or_system_prompt orch) ORCHESTRATOR_TOOL_NAMES st0 = (e, st1)"
    and st0: "ls_ctx st0 = tool_context_of (tu_session tu) tid role approvals" "ls_world st0 = tu_world tu"
    and st2: "st2 = (case e of Raised m \<Rightarrow> st1\<lparr>ls_events := ls_events st1 @ [error_event (s_id (tu_session tu)) tid m]\<rparr> | _ \<Rightarrow> st1)"
    and fin: "(sess, st) = (sess2, st2) \<or> (e \<noteq> Closed \<and> (\<exists>d goal. run_handoff orch tid d goal user sess2 st2 = (sess, st)))"
  let ?ctx = "tool_context_of (tu_session tu) tid role approvals"
  have "Q (ls_world st1) \<and> same_gate ?ctx (ls_ctx st1)"
    using run_agent_turn_stable [where P = "\<lambda>s. Q (ls_world s) \<and> same_gate ?ctx (ls_ctx s)",
        OF kept_stable [OF kept] _ r] assms(2) st0 by simp
  then have q2: "Q (ls_world st2)" "same_gate ?ctx (ls_ctx st2)" by (cases e; simp add: st2)+
  from fin show ?thesis
    using q2 run_handoff_gate [where Q = Q, OF _ q2 kept] by auto
qed

text \<open>Claim C5. A whole turn, orchestrator and domain agent together, changes the outside world only
  through open gates: any property of the world kept by every handler whose gate is open for this
  session's actor, in this turn, under the decisions passed in (or else recorded on the session), is
  kept by the turn. A turn refused by the rate limit or the budget changes nothing outside the
  limiter.\<close>

theorem turn_gate_safety:
  assumes "run_turn orch tid clock user approvals role tu = (evs, tu')" and "Q (tu_world tu)"
    and "\<forall>name entry inp c w. map_of (te_registry (le_tools (or_env orch))) name = Some entry \<and>
      gate_open (tool_spec entry) (tool_context_of (tu_session tu) tid role approvals) name \<and> Q w \<longrightarrow>
      Q (snd (tool_handler entry inp c w))"
  shows "Q (tu_world tu') \<and> (fst (turn_refusal orch clock tu) \<noteq> None \<longrightarrow> tu' = tu\<lparr>tu_limiter := tu_limiter tu'\<rparr>)"
proof -
  obtain m rl where ref: "turn_refusal orch clock tu = (m, rl)" by (cases "turn_refusal orch clock tu")
  obtain sess st where g: "gated_turn orch tid user approvals role tu = (sess, st)" by (metis surj_pair)
  have "Q (ls_world st)"
    by (rule gated_turn_gate [where Q = Q, OF g assms(2)]) (use assms(3) in \<open>simp add: kept_by_open_tools_def\<close>)
  then show ?thesis using assms(1,2) ref g by (cases m) (auto simp: run_turn_def)
qed

section \<open>Approvals of earlier turns\<close>

lemma approval_id_for_inj:
  "approval_id_for t n = approval_id_for t' n' \<Longrightarrow> length t = length t' \<Longrightarrow> t = t' \<and> n = n'"
  by (simp add: approval_id_for_def)

lemma new_turn_id_length: "length (new_turn_id raw) = 14"
  by (simp add: new_turn_id_def hex_range_def)

text \<open>Decisions taken on requests of other turns open no gate. If every decision available to a
  turn is recorded under an approval id of another turn's (fresh, equally long) turn id, as is the
  case when a session is resumed in a new call, then every side-effect tool that requires approval
  stays closed: whatever all the other tools keep true of the world stays true.\<close>

theorem approvals_do_not_carry_over:
  assumes "run_turn orch (new_turn_id raw) clock user approvals role tu = (evs, tu')" and "Q (tu_world tu)"
    and "\<forall>k\<in>fst ` set (ctx_approvals (tool_context_of (tu_session tu) (new_turn_id raw) role approvals)).
      \<exists>raw' n. new_turn_id raw' \<noteq> new_turn_id raw \<and> k = approval_id_for (new_turn_id raw') n"
    and "\<forall>name entry inp c w. map_of (te_registry (le_tools (or_env orch))) name = Some entry \<and>
      \<not> (ts_side_effect (tool_spec entry) \<and> ts_approval_required (tool_spec entry)) \<and> Q w \<longrightarrow>
      Q (snd (tool_handler entry inp c w))"
  shows "Q (tu_world tu')"
proof -
  let ?ctx = "tool_context_of (tu_session tu) (new_turn_id raw) role approvals"
  have tid: "ctx_turn_id ?ctx = new_turn_id raw" by (simp add: tool_context_of_def)
  have none: "map_of (ctx_approvals ?ctx) (approval_id_for (new_turn_id raw) name) \<noteq> Some True" for name
  proof
    assume "map_of (ctx_approvals ?ctx) (approval_id_for (new_turn_id raw) name) = Some True"
    then have "approval_id_for (new_turn_id raw) name \<in> fst ` set (ctx_approvals ?ctx)" by (force dest: map_of_SomeD)
    with assms(3) approval_id_for_inj new_turn_id_length show False by metis
  qed
  obtain m rl where ref: "turn_refusal orch clock tu = (m, rl)" by (cases "turn_refusal orch clock tu")
  obtain sess st where g: "gated_turn orch (new_turn_id raw) user approvals role tu = (sess, st)" by (metis surj_pair)
  have "kept_by_open_tools orch ?ctx Q"
    using assms(4) none unfolding kept_by_open_tools_def gate_open_def tid by blast
  from gated_turn_gate [where Q = Q, OF g assms(2) this] have "Q (ls_world st)" .
  then show ?thesis using assms(1,2) ref g by (cases m) (auto simp: run_turn_def)
qed

section \<open>Witnesses\<close>

definition script_orch :: "(audit_event list, nat \<times> nat, (stream_event list \<times> exc option) list \<times> nat) orchestrator" where
  "script_orch = \<lparr>or_env = script_env, or_domains = dict_keys default_agents, or_resolve = default_resolver,
     or_system_prompt = ''p'', or_settings = None, or_model = ''m'', or_usage = (\<lambda>_. None)\<rparr>"

definition script_turn :: "(audit_event list, nat \<times> nat, (stream_event list \<times> exc option) list \<times> nat) turn_state" where
  "script_turn = \<lparr>tu_session = \<lparr>s_id = ''s1'', s_tenant_id = ''t1'', s_actor_id = ''u1'', s_actor_kind = HUMAN,
       s_message_history = [], s_pending_approvals = [], s_sse_last_event_id = 0, s_sse_event_buffer = [],
       s_created_at = 0, s_updated_at = 0\<rparr>,
     tu_limiter = None, tu_ledger = None, tu_sink = [], tu_world = (7, 0), tu_client = (ask_issue, 0), tu_calls = 0\<rparr>"

definition script_clock :: turn_clock where
  "script_clock = \<lparr>ck_mono = 0, ck_budget = 0, ck_record = 0\<rparr>"

definition old_grant :: "(string, bool) dict" where
  "old_grant = [(approval_id_for (new_turn_id 0) ''issue_ticket'', True)]"

lemma turn_ids_differ: "new_turn_id 0 \<noteq> new_turn_id (2 ^ 127)"
  by code_simp

theorem turn_gate_safety_witness:
  "\<exists>evs tu'. run_turn script_orch (new_turn_id (2 ^ 127)) script_clock ''Issue P1'' None ''agent'' script_turn = (evs, tu')
     \<and> tu_world tu' = (7, 0)"
proof -
  obtain evs tu' where r: "run_turn script_orch (new_turn_id (2 ^ 127)) script_clock ''Issue P1'' None ''agent'' script_turn
      = (evs, tu')" by (metis surj_pair)
  have "tu_world tu' = (7, 0) \<and> (fst (turn_refusal script_orch script_clock script_turn) \<noteq> None \<longrightarrow>
      tu' = script_turn\<lparr>tu_limiter := tu_limiter tu'\<rparr>)"
    by (rule turn_gate_safety [where Q = "\<lambda>w. w = (7, 0)", OF r])
      (auto simp: script_turn_def script_orch_def script_env_def issue_env_def issue_spec_def gate_open_def
        tool_context_of_def approvals_map_def split: if_splits)
  with r show ?thesis by blast
qed

theorem approvals_do_not_carry_over_witness:
  "\<exists>evs tu'. run_turn script_orch (new_turn_id (2 ^ 127)) script_clock ''Issue P1'' (Some old_grant) ''agency_admin'' script_turn
       = (evs, tu') \<and> tu_world tu' = (7, 0)"
proof -
  obtain evs tu' where r: "run_turn script_orch (new_turn_id (2 ^ 127)) script_clock ''Issue P1'' (Some old_grant) ''agency_admin''
      script_turn = (evs, tu')" by (metis surj_pair)
  have "tu_world tu' = (7, 0)"
  proof (rule approvals_do_not_carry_over [where Q = "\<lambda>w. w = (7, 0)", OF r])
    show "\<forall>k\<in>fst ` set (ctx_approvals (tool_context_of (tu_session script_turn) (new_turn_id (2 ^ 127)) ''agency_admin''
        (Some old_grant))). \<exists>raw' n. new_turn_id raw' \<noteq> new_turn_id (2 ^ 127) \<and> k = approval_id_for (new_turn_id raw') n"
      using turn_ids_differ by (auto simp: tool_context_of_def old_grant_def)
  qed (auto simp: script_turn_def script_orch_def script_env_def issue_env_def issue_spec_def split: if_splits)
  with r show ?thesis by blast
qed

section \<open>The daily budget\<close>

text \<open>
  The day of a tenant at the orchestrator, whose turns run interleaved: the budget gate reads the ledger when a turn
  starts, \<open>record_turn\<close> writes it when the turn is over, and the state is the ledger with the number of the tenant's
  turns that are under way, at most \<open>k\<close>.
\<close>

inductive budget_step :: "('a, 'w, 'c) orchestrator \<Rightarrow> string \<Rightarrow> tenant_settings \<Rightarrow> int \<Rightarrow> nat \<Rightarrow> int \<Rightarrow> ledger \<times> nat \<Rightarrow> ledger \<times> nat \<Rightarrow> bool"
  for orch t settings d k mx where
  starts: "budget_gate (Some settings) now t (Some led) = None \<Longrightarrow> utc_date now = d \<Longrightarrow> n < k \<Longrightarrow>
    budget_step orch t settings d k mx (led, n) (led, Suc n)"
| ends: "record_turn orch sess tid now client (Some led) = Some led' \<Longrightarrow> s_tenant_id sess = t \<Longrightarrow> utc_date now = d \<Longrightarrow>
    (\<And>i out. or_usage orch client = Some (i, out) \<Longrightarrow> i + out \<le> mx) \<Longrightarrow> budget_step orch t settings d k mx (led, Suc n) (led', n)"
| abandoned: "budget_step orch t settings d k mx (led, Suc n) (led, n)"
| other_tenant: "record_turn orch sess tid now client (Some led) = Some led' \<Longrightarrow> s_tenant_id sess \<noteq> t \<Longrightarrow> utc_date now = d \<Longrightarrow>
    budget_step orch t settings d k mx (led, n) (led', n)"

lemma record_turn_cost:
  assumes "record_turn orch sess tid now client (Some led) = Some led'"
  shows "led' = led \<or> (\<exists>c i out. led' = record_cost c led \<and> or_usage orch client = Some (i, out) \<and> tc_tenant_id c = s_tenant_id sess
    \<and> tc_created_at c = now \<and> tc_input_tokens c = i \<and> tc_output_tokens c = out)"
proof -
  have cost: "tc_tenant_id c = tenant \<and> tc_created_at c = now \<and> tc_input_tokens c = i \<and> tc_output_tokens c = out"
    if "build_turn_cost tenant sid tid m i out None now = Some c" for c tenant sid m i out
    using that by (auto simp: build_turn_cost_def)
  show ?thesis using assms by (auto simp: record_turn_def split: option.splits if_splits dest!: cost)
qed

lemma budget_gate_check:
  "set_daily_token_budget settings = Some b \<Longrightarrow> budget_gate (Some settings) now t (Some led) = None \<longleftrightarrow>
    enforce_daily_budget (tokens_for_tenant_today now t led) (Some b) = Inr ()"
  by (auto simp: budget_gate_def split: sum.splits)

lemma budget_day_step:
  assumes "budget_step orch t settings d k mx x y" "set_daily_token_budget settings = Some b"
  shows "(day_step record_cost tokens_for_tenant_today t b d k mx)\<^sup>*\<^sup>* x y"
  using assms(1)
proof cases
  case (starts now led n)
  then show ?thesis using budget_gate_check [OF assms(2)] by (auto intro: day_step.admitted)
next
  case (ends sess tid now client led led' n)
  then show ?thesis using record_turn_cost [OF ends(3)] by (auto intro: day_step.recorded day_step.unrecorded)
next
  case (abandoned led n)
  then show ?thesis by (auto intro: day_step.unrecorded)
next
  case (other_tenant sess tid now client led led' n)
  have "day_step record_cost tokens_for_tenant_today t b d k mx (led, n) (record_cost c led, n)"
    if "tc_tenant_id c = s_tenant_id sess" "tc_created_at c = now" for c
    by (rule day_step.elsewhere) (use that other_tenant in auto)
  then show ?thesis using record_turn_cost [OF other_tenant(3)] other_tenant(1,2) by auto
qed

text \<open>Claim C34. How far a tenant can overshoot its daily budget. Nothing keeps the turns of a tenant apart: each is checked
  against the tokens recorded so far and recorded when it is over. However the turns of one UTC day interleave, among themselves and with those of
  other tenants, if at most \<open>k\<close> turns of the tenant are under way at once and none uses more than \<open>mx\<close> tokens, the
  tenant's count of the day stays at or below \<open>b - 1 + k * mx\<close>, or where it was when the budget \<open>b\<close> came into force.\<close>

theorem daily_budget_overshoot:
  assumes "(budget_step orch t settings (utc_date now) k mx)\<^sup>*\<^sup>* (led0, 0) (led, n)"
    and "set_daily_token_budget settings = Some b" "0 < b" "0 \<le> mx"
  shows "tokens_for_tenant_today now t led \<le> max (tokens_for_tenant_today now t led0) (b - 1 + int k * mx)"
proof -
  have "(day_step record_cost tokens_for_tenant_today t b (utc_date now) k mx)\<^sup>*\<^sup>* (led0, 0) (led, n)"
    using assms(1) by (induction rule: rtranclp_induct) (auto intro: rtranclp_trans budget_day_step [OF _ assms(2)])
  then show ?thesis by (rule memledger.day_within_bound [OF _ assms(3,4)])
qed

text \<open>A budget of 100 tokens and 99 used: two turns start, each of 60 tokens, and the day ends at 219, the bound.\<close>

definition used_cost :: "int \<Rightarrow> turn_cost" where
  "used_cost n = \<lparr>tc_session_id = ''s1'', tc_turn_id = ''t-1'', tc_model = ''m'', tc_input_tokens = n, tc_output_tokens = 0,
     tc_cost_usd = Dec 0 0, tc_created_at = 5, tc_tenant_id = ''t1''\<rparr>"

theorem daily_budget_overshoot_witness:
  "\<exists>led n. (budget_step (script_orch\<lparr>or_usage := \<lambda>_. Some (60, 0)\<rparr>) ''t1'' ((settings_defaults ''t1'')\<lparr>set_daily_token_budget := Some 100\<rparr>)
        (utc_date 5) 2 60)\<^sup>*\<^sup>* ([used_cost 99], 0) (led, n)
     \<and> tokens_for_tenant_today 5 ''t1'' led = 219 \<and> tokens_for_tenant_today 5 ''t1'' led \<le> max 99 (100 - 1 + int 2 * 60)"
proof -
  let ?orch = "script_orch\<lparr>or_usage := \<lambda>_. Some (60, 0)\<rparr>" and ?set = "(settings_defaults ''t1'')\<lparr>set_daily_token_budget := Some 100\<rparr>"
  let ?l0 = "[used_cost 99]" and ?l2 = "[used_cost 99, used_cost 60, used_cost 60]"
  let ?step = "budget_step ?orch ''t1'' ?set (utc_date 5) 2 60"
  have gate: "budget_gate (Some ?set) 5 ''t1'' (Some ?l0) = None" by code_simp
  have rec: "record_turn ?orch (tu_session script_turn) ''t-1'' 5 (ask_issue, 0) (Some led) = Some (record_cost (used_cost 60) led)" for led
    by (simp add: record_turn_def build_turn_cost_def script_orch_def script_turn_def estimate_cost_usd_def MODEL_PRICING_def used_cost_def)
  have start: "?step (?l0, m) (?l0, Suc m)" if "m < 2" for m by (rule budget_step.starts [OF gate]) (use that in simp_all)
  have over: "?step (led, Suc m) (led @ [used_cost 60], m)" for led m
    using budget_step.ends [OF rec, of "''t1''" "utc_date 5" 60] by (simp add: record_cost_def script_turn_def script_orch_def)
  have "?step (?l0, 0) (?l0, Suc 0)" "?step (?l0, Suc 0) (?l0, Suc (Suc 0))" by (rule start, simp)+
  moreover have "?step (?l0, Suc (Suc 0)) ([used_cost 99, used_cost 60], Suc 0)" "?step ([used_cost 99, used_cost 60], Suc 0) (?l2, 0)"
    using over [of ?l0 "Suc 0"] over [of "[used_cost 99, used_cost 60]" 0] by simp_all
  ultimately have run: "?step\<^sup>*\<^sup>* (?l0, 0) (?l2, 0)" by (meson rtranclp.rtrancl_refl converse_rtranclp_into_rtranclp)
  have sums: "tokens_for_tenant_today 5 ''t1'' ?l0 = 99" "tokens_for_tenant_today 5 ''t1'' ?l2 = 219" by code_simp+
  have "tokens_for_tenant_today 5 ''t1'' ?l2 \<le> max (tokens_for_tenant_today 5 ''t1'' ?l0) (100 - 1 + int 2 * 60)"
    by (rule daily_budget_overshoot [OF run]) simp_all
  with run sums show ?thesis by (intro exI [of _ ?l2] exI [of _ 0]) simp
qed

end
