(* ===== verification/Py_Date.thy ===== *)
theory Py_Date
  imports Py_Text
begin

text \<open>
  Calendar dates as \<^verbatim>\<open>datetime.date\<close> has them (proleptic Gregorian, years 1 to 9999) and
  their ordinals. \<open>date_new\<close> is the constructor with its range checks; \<open>utc_midnight\<close> is
  \<^verbatim>\<open>datetime(y, m, d, tzinfo=utc)\<close> in microseconds since the Unix epoch, the representation
  of an aware datetime used in this development. The main fact is that ordinals, and so
  midnights, are strictly monotone in the lexicographic order of dates.
\<close>

datatype py_date = Date (d_year: int) (d_month: int) (d_day: int)

definition is_leap :: "int \<Rightarrow> bool" where
  "is_leap y \<longleftrightarrow> y mod 4 = 0 \<and> (y mod 100 \<noteq> 0 \<or> y mod 400 = 0)"

definition days_in_month :: "int \<Rightarrow> int \<Rightarrow> int" where
  "days_in_month y m = (if m = 2 then (if is_leap y then 29 else 28)
     else if m \<in> {4, 6, 9, 11} then 30 else 31)"

definition date_ok :: "py_date \<Rightarrow> bool" where
  "date_ok d \<longleftrightarrow> 1 \<le> d_year d \<and> d_year d \<le> 9999 \<and> 1 \<le> d_month d \<and> d_month d \<le> 12
     \<and> 1 \<le> d_day d \<and> d_day d \<le> days_in_month (d_year d) (d_month d)"

definition date_new :: "int \<Rightarrow> int \<Rightarrow> int \<Rightarrow> py_date option" where
  "date_new y m d = (if date_ok (Date y m d) then Some (Date y m d) else None)"

definition days_before_year :: "int \<Rightarrow> int" where
  "days_before_year y = (let p = y - 1 in p * 365 + p div 4 - p div 100 + p div 400)"

definition days_before_month :: "int \<Rightarrow> int \<Rightarrow> int" where
  "days_before_month y m =
     [0, 31, 59, 90, 120, 151, 181, 212, 243, 273, 304, 334, 365] ! nat (m - 1)
       + (if m > 2 \<and> is_leap y then 1 else 0)"

definition to_ordinal :: "py_date \<Rightarrow> int" where
  "to_ordinal d = days_before_year (d_year d) + days_before_month (d_year d) (d_month d) + d_day d"

text \<open>Chronological order, as \<^verbatim>\<open>date.__lt__\<close> compares the three numbers.\<close>

definition date_less :: "py_date \<Rightarrow> py_date \<Rightarrow> bool" where
  "date_less a b \<longleftrightarrow> d_year a < d_year b \<or> (d_year a = d_year b \<and>
     (d_month a < d_month b \<or> (d_month a = d_month b \<and> d_day a < d_day b)))"

definition DAY_US :: int where
  "DAY_US = 86400000000"

definition EPOCH_ORDINAL :: int where
  "EPOCH_ORDINAL = 719163"

definition utc_midnight :: "py_date \<Rightarrow> int" where
  "utc_midnight d = (to_ordinal d - EPOCH_ORDINAL) * DAY_US"

text \<open>\<^verbatim>\<open>datetime.max\<close>, the last representable microsecond.\<close>

definition DATETIME_MAX :: int where
  "DATETIME_MAX = (to_ordinal (Date 9999 12 31) - EPOCH_ORDINAL + 1) * DAY_US - 1"

section \<open>Ordinals\<close>

lemma month_cases:
  assumes "1 \<le> (m :: int)" "m \<le> 12"
  obtains "m = 1" | "m = 2" | "m = 3" | "m = 4" | "m = 5" | "m = 6" | "m = 7" | "m = 8"
    | "m = 9" | "m = 10" | "m = 11" | "m = 12"
  using assms by atomize_elim presburger

lemma days_before_next_month:
  assumes "1 \<le> m" "m \<le> 12"
  shows "days_before_month y (m + 1) = days_before_month y m + days_in_month y m"
  using assms by (cases rule: month_cases) (auto simp: days_before_month_def days_in_month_def)

lemma days_before_month_mono:
  assumes "1 \<le> m" "m < n" "n \<le> 13"
  shows "days_before_month y m + days_in_month y m \<le> days_before_month y n"
proof -
  have "\<forall>m. 1 \<le> m \<and> m < n \<longrightarrow> days_before_month y m + days_in_month y m \<le> days_before_month y n"
    if "n \<le> 13" for n
    using that
  proof (induction "nat n" arbitrary: n)
    case (Suc k)
    show ?case
    proof (intro allI impI)
      fix m assume m: "1 \<le> m \<and> m < n"
      show "days_before_month y m + days_in_month y m \<le> days_before_month y n"
      proof (cases "m = n - 1")
        case True
        with m Suc.prems days_before_next_month [of m y] show ?thesis by simp
      next
        case False
        then have "days_before_month y m + days_in_month y m \<le> days_before_month y (n - 1)"
          using Suc.hyps(1) [of "n - 1"] Suc.hyps(2) Suc.prems m by auto
        moreover have "days_before_month y n = days_before_month y (n - 1) + days_in_month y (n - 1)"
          using days_before_next_month [of "n - 1" y] m Suc.prems False by simp
        moreover have "0 \<le> days_in_month y (n - 1)" by (simp add: days_in_month_def)
        ultimately show ?thesis by simp
      qed
    qed
  qed auto
  with assms show ?thesis by blast
qed

lemma div_step:
  assumes "0 < (k :: int)"
  shows "y div k = (y - 1) div k + (if y mod k = 0 then 1 else 0)"
proof -
  define q r where "q = y div k" and "r = y mod k"
  have y: "y = k * q + r" by (simp add: q_def r_def)
  have r: "0 \<le> r" "r < k" using assms by (auto simp: r_def)
  show ?thesis
  proof (cases "r = 0")
    case True
    have "(y - 1) div k = q - 1"
      by (rule int_div_pos_eq [of _ _ _ "k - 1"]) (use y True assms in \<open>auto simp: algebra_simps\<close>)
    with True show ?thesis by (simp add: q_def r_def)
  next
    case False
    have "(y - 1) div k = q"
      by (rule int_div_pos_eq [of _ _ _ "r - 1"]) (use y r False in auto)
    with False show ?thesis by (simp add: q_def r_def)
  qed
qed

lemma leap_arith:
  fixes a b c y :: int
  assumes "n4 = a + (if p then 1 else 0)" "n100 = b + (if q then 1 else 0)"
    "n400 = c + (if r then 1 else 0)" "r \<Longrightarrow> q" "q \<Longrightarrow> p"
  shows "y * 365 + n4 - n100 + n400
    = (y - 1) * 365 + a - b + c + 365 + (if p \<and> (\<not> q \<or> r) then 1 else 0)"
  using assms by (cases p; cases q; cases r) auto

lemma days_before_next_year:
  "days_before_year (y + 1) = days_before_year y + 365 + (if is_leap y then 1 else 0)"
proof -
  have "(400 :: int) dvd y \<Longrightarrow> 100 dvd y" using dvd_trans [of "100 :: int" 400 y] dvd_triv_left [of "100 :: int" 4] by simp
  moreover have "(100 :: int) dvd y \<Longrightarrow> 4 dvd y" using dvd_trans [of "4 :: int" 100 y] dvd_triv_left [of "4 :: int" 25] by simp
  ultimately have d: "y mod 400 = 0 \<Longrightarrow> y mod 100 = 0" "y mod 100 = 0 \<Longrightarrow> y mod 4 = 0"
    by (simp_all add: dvd_eq_mod_eq_0)
  have p: "y + 1 - 1 = y" by simp
  have steps: "y div 4 = (y - 1) div 4 + (if y mod 4 = 0 then 1 else 0)"
    "y div 100 = (y - 1) div 100 + (if y mod 100 = 0 then 1 else 0)"
    "y div 400 = (y - 1) div 400 + (if y mod 400 = 0 then 1 else 0)"
    by (rule div_step, simp)+
  show ?thesis
    using leap_arith [OF steps d, of y]
    by (simp only: days_before_year_def Let_def p is_leap_def)
qed

lemma days_before_year_mono:
  assumes "y < z"
  shows "days_before_year y + 365 + (if is_leap y then 1 else 0) \<le> days_before_year z"
proof -
  have "days_before_year (y + 1) \<le> days_before_year (y + 1 + int n)" for n
  proof (induction n)
    case (Suc n)
    then show ?case using days_before_next_year [of "y + 1 + int n"] by (simp add: add.assoc split: if_splits)
  qed simp
  from this [of "nat (z - y - 1)"] assms show ?thesis using days_before_next_year [of y] by simp
qed

lemma day_of_year_bound:
  assumes "date_ok d"
  shows "0 < days_before_month (d_year d) (d_month d) + d_day d"
    and "days_before_month (d_year d) (d_month d) + d_day d \<le> 365 + (if is_leap (d_year d) then 1 else 0)"
proof -
  have "days_before_month (d_year d) 13 = 365 + (if is_leap (d_year d) then 1 else 0)"
    by (simp add: days_before_month_def)
  moreover have "days_before_month (d_year d) (d_month d) + days_in_month (d_year d) (d_month d)
      \<le> days_before_month (d_year d) 13"
    using assms by (intro days_before_month_mono) (auto simp: date_ok_def)
  ultimately show "days_before_month (d_year d) (d_month d) + d_day d \<le> 365 + (if is_leap (d_year d) then 1 else 0)"
    using assms by (auto simp: date_ok_def)
  have m: "1 \<le> d_month d" "d_month d \<le> 12" using assms by (auto simp: date_ok_def)
  have "0 \<le> days_before_month (d_year d) (d_month d)"
    using m by (cases rule: month_cases) (auto simp: days_before_month_def)
  then show "0 < days_before_month (d_year d) (d_month d) + d_day d"
    using assms by (auto simp: date_ok_def)
qed

lemma to_ordinal_strict_mono:
  assumes "date_ok a" "date_ok b" "date_less a b"
  shows "to_ordinal a < to_ordinal b"
proof -
  note ba = day_of_year_bound [OF assms(1)] and bb = day_of_year_bound [OF assms(2)]
  consider "d_year a < d_year b" | "d_year a = d_year b" "d_month a < d_month b"
    | "d_year a = d_year b" "d_month a = d_month b" "d_day a < d_day b"
    using assms(3) by (auto simp: date_less_def)
  then show ?thesis
  proof cases
    case 1
    with days_before_year_mono [of "d_year a" "d_year b"] ba bb show ?thesis
      by (simp add: to_ordinal_def split: if_splits)
  next
    case 2
    have "days_before_month (d_year a) (d_month a) + days_in_month (d_year a) (d_month a)
        \<le> days_before_month (d_year a) (d_month b)"
      using 2 assms(1,2) by (intro days_before_month_mono) (auto simp: date_ok_def)
    with 2 assms(1,2) show ?thesis by (auto simp: to_ordinal_def date_ok_def)
  next
    case 3
    then show ?thesis by (simp add: to_ordinal_def)
  qed
qed

lemma date_trichotomy: "date_less a b \<or> a = b \<or> date_less b a"
  by (cases a; cases b) (auto simp: date_less_def)

lemma to_ordinal_less_iff:
  assumes "date_ok a" "date_ok b"
  shows "to_ordinal a < to_ordinal b \<longleftrightarrow> date_less a b"
  using to_ordinal_strict_mono [OF assms] to_ordinal_strict_mono [OF assms(2,1)]
    date_trichotomy [of a b] by fastforce

lemma utc_midnight_le_iff:
  assumes "date_ok a" "date_ok b"
  shows "utc_midnight a < utc_midnight b + DAY_US \<longleftrightarrow> \<not> date_less b a"
proof -
  have "utc_midnight a < utc_midnight b + DAY_US
      \<longleftrightarrow> (to_ordinal a - EPOCH_ORDINAL) * DAY_US < (to_ordinal b - EPOCH_ORDINAL + 1) * DAY_US"
    by (simp add: utc_midnight_def algebra_simps)
  also have "\<dots> \<longleftrightarrow> to_ordinal a < to_ordinal b + 1" unfolding DAY_US_def by (simp only: mult_less_cancel_right) simp
  also have "\<dots> \<longleftrightarrow> \<not> date_less b a" using to_ordinal_less_iff [OF assms(2,1)] by linarith
  finally show ?thesis .
qed

lemma date_ok_ordinal_max:
  assumes "date_ok d"
  shows "to_ordinal d \<le> to_ordinal (Date 9999 12 31)"
proof -
  have "date_ok (Date 9999 12 31)" by (simp add: date_ok_def days_in_month_def)
  moreover have "\<not> date_less (Date 9999 12 31) d"
    using assms by (auto simp: date_less_def date_ok_def days_in_month_def split: if_splits)
  ultimately show ?thesis using to_ordinal_less_iff [of "Date 9999 12 31" d] assms by linarith
qed

lemma epoch_ordinal: "to_ordinal (Date 1970 1 1) = EPOCH_ORDINAL"
  by code_simp

section \<open>Printing\<close>

text \<open>Printing dates and instants: \<^verbatim>\<open>date.fromordinal\<close> and \<^verbatim>\<open>isoformat\<close> for UTC.\<close>

definition ord2ymd :: "int \<Rightarrow> py_date" where
  "ord2ymd ordinal =
     (let n = ordinal - 1; n400 = n div 146097; n1 = n mod 146097; n100 = n1 div 36524; n2 = n1 mod 36524;
          n4 = n2 div 1461; n3 = n2 mod 1461; ny = n3 div 365; n5 = n3 mod 365;
          year = n400 * 400 + 1 + n100 * 100 + n4 * 4 + ny
      in if ny = 4 \<or> n100 = 4 then Date (year - 1) 12 31
         else let est = (n5 + 50) div 32; m = (if days_before_month year est > n5 then est - 1 else est)
              in Date year m (n5 - days_before_month year m + 1))"

definition padded :: "nat \<Rightarrow> int \<Rightarrow> string" where
  "padded w n = (let s = show_nat (nat n) in replicate (w - length s) (CHR ''0'') @ s)"

definition iso_date :: "py_date \<Rightarrow> string" where
  "iso_date d = padded 4 (d_year d) @ ''-'' @ padded 2 (d_month d) @ ''-'' @ padded 2 (d_day d)"

definition isoformat :: "int \<Rightarrow> string" where
  "isoformat us =
     (let d = ord2ymd (us div DAY_US + EPOCH_ORDINAL); t = us mod DAY_US; s = t div 1000000; f = t mod 1000000
      in iso_date d @ ''T'' @ padded 2 (s div 3600) @ '':'' @ padded 2 (s div 60 mod 60) @ '':'' @ padded 2 (s mod 60)
         @ (if f = 0 then [] else ''.'' @ padded 6 f) @ ''+00:00'')"

text \<open>\<^verbatim>\<open>strftime("%Y%m%d")\<close>, with the year as the C library prints it.\<close>

definition compact_date :: "py_date \<Rightarrow> string" where
  "compact_date d = show_nat (nat (d_year d)) @ padded 2 (d_month d) @ padded 2 (d_day d)"

end
