(* ===== verification/Canonical.thy ===== *)
theory Canonical
  imports Py_Decimal Py_Date
begin

text \<open>
  The canonical money and finance models of \<^verbatim>\<open>schemas/canonical/primitives.py\<close> and
  \<^verbatim>\<open>schemas/canonical/finance.py\<close>, with the \<^verbatim>\<open>Ticket\<close> of \<^verbatim>\<open>travel.py\<close>.
  A pydantic model is a record; its constructor is a function returning \<open>canon_error + record\<close> that
  applies the strip-whitespace configuration, the field constraints and the validators. The
  result says whether the constructor raises; of several violated constraints pydantic lists all,
  the model reports the first. Identifiers, created and updated stamps are passed through.
\<close>

named_theorems canon_simps \<open>constructors of canonical models, unfolded\<close>

datatype canon_error = Invalid_operation | Overflow_error | Validation string

section \<open>Money\<close>

record money =
  m_amount :: decimal
  m_currency :: string

text \<open>
  What the \<^verbatim>\<open>amount\<close> argument may be. A Python \<^verbatim>\<open>bool\<close> is an \<^verbatim>\<open>int\<close>.
\<close>

datatype amount_input = A_decimal decimal | A_int int | A_str string | A_float string | A_other string

text \<open>
  \<^verbatim>\<open>Decimal(s)\<close>: outer blanks and underscores are dropped; then an optional sign, digits with
  at most one point, an optional exponent. The words for infinity and not-a-number also convert.
\<close>

datatype decimal_literal = Finite decimal | Special | Malformed

definition split_sign :: "string \<Rightarrow> bool \<times> string" where
  "split_sign s = (case s of
      (c # cs) \<Rightarrow> if c = CHR ''-'' then (True, cs) else if c = CHR ''+'' then (False, cs) else (False, s)
    | [] \<Rightarrow> (False, []))"

definition special_word :: "string \<Rightarrow> bool" where
  "special_word u \<longleftrightarrow> u = ''INF'' \<or> u = ''INFINITY''
     \<or> (take 3 u = ''NAN'' \<and> list_all is_decimal_char (drop 3 u))
     \<or> (take 4 u = ''SNAN'' \<and> list_all is_decimal_char (drop 4 u))"

definition decimal_exponent :: "string \<Rightarrow> int option" where
  "decimal_exponent t = (case t of
      [] \<Rightarrow> Some 0
    | (c # cs) \<Rightarrow> (let (neg, ds) = split_sign cs
        in if ds \<noteq> [] \<and> list_all is_decimal_char ds
           then Some (if neg then - int (digits_val ds) else int (digits_val ds)) else None))"

definition decimal_literal_of :: "string \<Rightarrow> decimal_literal" where
  "decimal_literal_of s =
     (let t = filter (\<lambda>c. c \<noteq> CHR ''_'') (py_strip s);
          (neg, body) = split_sign t;
          mant = takeWhile (\<lambda>c. c \<notin> {CHR ''e'', CHR ''E''}) body;
          ex = dropWhile (\<lambda>c. c \<notin> {CHR ''e'', CHR ''E''}) body;
          ip = takeWhile (\<lambda>c. c \<noteq> CHR ''.'') mant;
          fp = drop 1 (dropWhile (\<lambda>c. c \<noteq> CHR ''.'') mant)
      in if special_word (py_upper body) then Special
         else if ip @ fp \<noteq> [] \<and> list_all is_decimal_char (ip @ fp) then
           (case decimal_exponent ex of
              None \<Rightarrow> Malformed
            | Some e \<Rightarrow> (let v = int (digits_val (ip @ fp))
                in Finite (Dec (if neg then - v else v) (e - int (length fp)))))
         else Malformed)"

text \<open>
  The before-validator \<^verbatim>\<open>_coerce_amount\<close> and the decimal check that follows it. A malformed
  text makes \<^verbatim>\<open>Decimal\<close> raise \<^verbatim>\<open>InvalidOperation\<close>, which is no
  \<^verbatim>\<open>ValueError\<close> and so leaves the validator as it is.
\<close>

fun coerce_amount :: "amount_input \<Rightarrow> canon_error + decimal" where
  "coerce_amount (A_decimal d) = Inr d"
| "coerce_amount (A_int i) = Inr (dec_of_int i)"
| "coerce_amount (A_str s) = (case decimal_literal_of s of
     Finite d \<Rightarrow> Inr d | Special \<Rightarrow> Inl (Validation ''amount'') | Malformed \<Rightarrow> Inl Invalid_operation)"
| "coerce_amount (A_float t) = Inl (Validation ''amount'')"
| "coerce_amount (A_other t) = Inl (Validation ''amount'')"

definition constrained :: "(string \<Rightarrow> bool) \<Rightarrow> string \<Rightarrow> string \<Rightarrow> canon_error + string" where
  "constrained ok field s = (let t = py_strip s in if ok t then Inr t else Inl (Validation field))"

definition money_of :: "amount_input \<Rightarrow> string \<Rightarrow> canon_error + money" where
  "money_of a cur =
     bind_res (coerce_amount a) (\<lambda>d.
     bind_res (constrained currency_code_ok ''currency'' cur) (\<lambda>c.
       Inr \<lparr>m_amount = d, m_currency = c\<rparr>))"

definition require_same_currency :: "money \<Rightarrow> money \<Rightarrow> canon_error + unit" where
  "require_same_currency x y = guard_res (m_currency x = m_currency y) (Validation ''different currencies'')"

definition money_add :: "money \<Rightarrow> money \<Rightarrow> canon_error + money" where
  "money_add x y = bind_res (require_same_currency x y) (\<lambda>_.
     money_of (A_decimal (dec_add (m_amount x) (m_amount y))) (m_currency x))"

definition money_sub :: "money \<Rightarrow> money \<Rightarrow> canon_error + money" where
  "money_sub x y = bind_res (require_same_currency x y) (\<lambda>_.
     money_of (A_decimal (dec_sub (m_amount x) (m_amount y))) (m_currency x))"

definition money_neg :: "money \<Rightarrow> canon_error + money" where
  "money_neg x = money_of (A_decimal (dec_neg (m_amount x))) (m_currency x)"

definition money_ok :: "money \<Rightarrow> bool" where
  "money_ok x \<longleftrightarrow> currency_code_ok (m_currency x)"

section \<open>Tax lines, texts, periods, addresses\<close>

datatype tax_regime = GST_INDIA | VAT_UK | VAT_EU | VAT_UAE | GST_SINGAPORE | SST_MALAYSIA
  | SALES_TAX_US | NO_TAX

record tax_line =
  tl_regime :: tax_regime
  tl_code :: string
  tl_rate_bps :: int
  tl_taxable_amount :: money
  tl_tax_amount :: money
  tl_jurisdiction :: "string option"

definition opt_res :: "('a \<Rightarrow> 'e + 'b) \<Rightarrow> 'a option \<Rightarrow> 'e + 'b option" where
  "opt_res f x = (case x of None \<Rightarrow> Inr None | Some v \<Rightarrow> bind_res (f v) (\<lambda>w. Inr (Some w)))"

definition tax_line_of :: "tax_regime \<Rightarrow> string \<Rightarrow> int \<Rightarrow> money \<Rightarrow> money \<Rightarrow> string option \<Rightarrow> canon_error + tax_line" where
  "tax_line_of regime code rate base tax juris =
     bind_res (guard_res (0 \<le> rate \<and> rate \<le> 100000) (Validation ''rate_bps'')) (\<lambda>_.
     bind_res (opt_res (constrained country_code_ok ''jurisdiction'') juris) (\<lambda>j.
     bind_res (guard_res (m_currency base = m_currency tax) (Validation ''currency'')) (\<lambda>_.
       Inr \<lparr>tl_regime = regime, tl_code = py_strip code, tl_rate_bps = rate,
            tl_taxable_amount = base, tl_tax_amount = tax, tl_jurisdiction = j\<rparr>)))"

record localized_text =
  lt_default :: string
  lt_translations :: "(string, string) dict"

definition localized :: "string \<Rightarrow> localized_text" where
  "localized s = \<lparr>lt_default = py_strip s, lt_translations = []\<rparr>"

text \<open>
  A datetime argument is a wall clock reading in microseconds with or without a UTC offset. The
  validator \<^verbatim>\<open>_require_utc\<close> refuses the naive ones and normalises the others to an instant.
\<close>

datatype py_datetime = Naive int | Aware (dt_wall: int) (dt_offset: int)

fun require_utc :: "py_datetime \<Rightarrow> canon_error + int" where
  "require_utc (Naive w) = Inl (Validation ''timezone'')"
| "require_utc (Aware w off) = Inr (w - off)"

record period =
  p_start :: int
  p_end :: "int option"

definition period_of :: "py_datetime \<Rightarrow> py_datetime option \<Rightarrow> canon_error + period" where
  "period_of s e =
     bind_res (require_utc s) (\<lambda>s'.
     bind_res (opt_res require_utc e) (\<lambda>e'.
     bind_res (guard_res (case e' of None \<Rightarrow> True | Some t \<Rightarrow> s' < t) (Validation ''period'')) (\<lambda>_.
       Inr \<lparr>p_start = s', p_end = e'\<rparr>)))"

record address =
  ad_country :: string
  ad_line1 :: string
  ad_line2 :: "string option"
  ad_city :: string
  ad_region :: "string option"
  ad_postal_code :: "string option"
  ad_attention :: "string option"

definition address_of :: "address \<Rightarrow> canon_error + address" where
  "address_of a = bind_res (constrained country_code_ok ''country'' (ad_country a)) (\<lambda>c.
     Inr \<lparr>ad_country = c, ad_line1 = py_strip (ad_line1 a), ad_line2 = map_option py_strip (ad_line2 a),
          ad_city = py_strip (ad_city a), ad_region = map_option py_strip (ad_region a),
          ad_postal_code = map_option py_strip (ad_postal_code a),
          ad_attention = map_option py_strip (ad_attention a)\<rparr>)"


section \<open>Invoices\<close>

datatype invoice_status = Inv_draft | Inv_issued | Inv_partially_paid | Inv_paid | Inv_cancelled | Inv_refunded

record invoice_line =
  il_description :: string
  il_quantity :: decimal
  il_unit_price :: money
  il_subtotal :: money
  il_taxes :: "tax_line list"
  il_total :: money
  il_references :: "(string, string) dict"

definition line_currencies :: "invoice_line \<Rightarrow> string list" where
  "line_currencies l = m_currency (il_unit_price l) # m_currency (il_subtotal l) # m_currency (il_total l)
     # map (\<lambda>t. m_currency (tl_tax_amount t)) (il_taxes l)"

definition invoice_line_of :: "invoice_line \<Rightarrow> canon_error + invoice_line" where
  "invoice_line_of l =
     bind_res (guard_res (dec_le (dec_of_int 0) (il_quantity l)) (Validation ''quantity'')) (\<lambda>_.
     bind_res (map_res (\<lambda>(k, v). bind_res (constrained entity_id_ok ''references'' v) (\<lambda>v'.
         Inr (py_strip k, v'))) (il_references l)) (\<lambda>refs.
     bind_res (guard_res (length (remdups (line_currencies l)) \<le> 1) (Validation ''currency'')) (\<lambda>_.
       Inr (l\<lparr>il_description := py_strip (il_description l), il_references := refs\<rparr>))))"

record invoice =
  in_id :: string
  in_tenant_id :: string
  in_number :: string
  in_series :: "string option"
  in_client_id :: string
  in_booking_ids :: "string list"
  in_issue_date :: py_date
  in_due_date :: "py_date option"
  in_currency :: string
  in_lines :: "invoice_line list"
  in_subtotal :: money
  in_tax_total :: money
  in_grand_total :: money
  in_status :: invoice_status
  in_billing_address :: address
  in_notes :: "localized_text option"

definition entity_id_of :: "string \<Rightarrow> string \<Rightarrow> canon_error + string" where
  "entity_id_of field s = constrained entity_id_ok field s"

definition invoice_of :: "invoice \<Rightarrow> canon_error + invoice" where
  "invoice_of i =
     bind_res (entity_id_of ''id'' (in_id i)) (\<lambda>ident.
     bind_res (entity_id_of ''tenant_id'' (in_tenant_id i)) (\<lambda>ten.
     bind_res (entity_id_of ''client_id'' (in_client_id i)) (\<lambda>client.
     bind_res (map_res (entity_id_of ''booking_ids'') (in_booking_ids i)) (\<lambda>books.
     bind_res (constrained currency_code_ok ''currency'' (in_currency i)) (\<lambda>cur.
     bind_res (guard_res (in_lines i \<noteq> []) (Validation ''lines'')) (\<lambda>_.
     bind_res (guard_res (list_all (\<lambda>m. m_currency m = cur)
         [in_subtotal i, in_tax_total i, in_grand_total i]) (Validation ''totals'')) (\<lambda>_.
     bind_res (guard_res (list_all (\<lambda>l. m_currency (il_total l) = cur) (in_lines i))
         (Validation ''line currency'')) (\<lambda>_.
       Inr (i\<lparr>in_id := ident, in_tenant_id := ten, in_number := py_strip (in_number i),
              in_series := map_option py_strip (in_series i), in_client_id := client,
              in_booking_ids := books, in_currency := cur\<rparr>)))))))))"

section \<open>Journal entries\<close>

record journal_line =
  jl_account_id :: string
  jl_debit :: "money option"
  jl_credit :: "money option"
  jl_narration :: "string option"
  jl_reference :: "string option"

definition journal_line_of :: "journal_line \<Rightarrow> canon_error + journal_line" where
  "journal_line_of l =
     bind_res (entity_id_of ''account_id'' (jl_account_id l)) (\<lambda>a.
     bind_res (opt_res (entity_id_of ''reference'') (jl_reference l)) (\<lambda>r.
     bind_res (guard_res ((jl_debit l = None) \<noteq> (jl_credit l = None)) (Validation ''debit/credit'')) (\<lambda>_.
       Inr (l\<lparr>jl_account_id := a, jl_narration := map_option py_strip (jl_narration l),
              jl_reference := r\<rparr>))))"

definition one_sided :: "journal_line \<Rightarrow> bool" where
  "one_sided l \<longleftrightarrow> (jl_debit l = None) \<noteq> (jl_credit l = None)"

record journal_entry =
  je_id :: string
  je_tenant_id :: string
  je_entry_date :: py_date
  je_narration :: localized_text
  je_lines :: "journal_line list"
  je_source_event :: string
  je_source_ref :: "string option"

text \<open>
  The loop of \<^verbatim>\<open>_balanced_per_currency\<close>: the money of a line (\<open>None\<close> is the failed
  assertion), its sign, and the running net per currency in a dict.
\<close>

definition line_money :: "journal_line \<Rightarrow> money option" where
  "line_money l = (case jl_debit l of Some m \<Rightarrow> Some m | None \<Rightarrow> jl_credit l)"

definition line_sign :: "journal_line \<Rightarrow> decimal" where
  "line_sign l = (if jl_debit l \<noteq> None then Dec 1 0 else Dec (- 1) 0)"

fun net_by_currency :: "(string, decimal) dict \<Rightarrow> journal_line list \<Rightarrow> canon_error + (string, decimal) dict" where
  "net_by_currency acc [] = Inr acc"
| "net_by_currency acc (l # ls) =
     (case line_money l of
        None \<Rightarrow> Inl (Validation ''assertion'')
      | Some m \<Rightarrow> net_by_currency
          (AList.update (m_currency m)
            (dec_add (dict_get_or acc (m_currency m) (dec_of_int 0)) (dec_mul (line_sign l) (m_amount m))) acc) ls)"

definition balanced_per_currency :: "journal_line list \<Rightarrow> canon_error + unit" where
  "balanced_per_currency ls = bind_res (net_by_currency [] ls) (\<lambda>nets.
     guard_res (list_all (\<lambda>(c, net). dec_is_zero net) nets) (Validation ''not balanced''))"

definition journal_entry_of :: "journal_entry \<Rightarrow> canon_error + journal_entry" where
  "journal_entry_of e =
     bind_res (entity_id_of ''id'' (je_id e)) (\<lambda>ident.
     bind_res (entity_id_of ''tenant_id'' (je_tenant_id e)) (\<lambda>ten.
     bind_res (opt_res (entity_id_of ''source_ref'') (je_source_ref e)) (\<lambda>ref.
     bind_res (guard_res (2 \<le> length (je_lines e)) (Validation ''lines'')) (\<lambda>_.
     bind_res (balanced_per_currency (je_lines e)) (\<lambda>_.
       Inr (e\<lparr>je_id := ident, je_tenant_id := ten, je_source_event := py_strip (je_source_event e),
              je_source_ref := ref\<rparr>))))))"

section \<open>BSP reports, reconciliations, tickets\<close>

datatype bsp_transaction_kind = SALE | REFUND | EXCHANGE | ADM | ACM | COMMISSION | TAX_ADJUSTMENT

fun kind_value :: "bsp_transaction_kind \<Rightarrow> string" where
  "kind_value SALE = ''sale''"
| "kind_value REFUND = ''refund''"
| "kind_value EXCHANGE = ''exchange''"
| "kind_value ADM = ''adm''"
| "kind_value ACM = ''acm''"
| "kind_value COMMISSION = ''commission''"
| "kind_value TAX_ADJUSTMENT = ''tax_adjustment''"

record bsp_transaction =
  bt_kind :: bsp_transaction_kind
  bt_document_number :: string
  bt_issue_date :: py_date
  bt_airline :: string
  bt_gross :: money
  bt_commission :: "money option"
  bt_taxes :: "tax_line list"
  bt_net :: money

definition bsp_transaction_of :: "bsp_transaction \<Rightarrow> canon_error + bsp_transaction" where
  "bsp_transaction_of t = bind_res (constrained iata_code_ok ''airline'' (bt_airline t)) (\<lambda>a.
     Inr (t\<lparr>bt_document_number := py_strip (bt_document_number t), bt_airline := a\<rparr>))"

record bsp_report =
  br_id :: string
  br_tenant_id :: string
  br_country :: string
  br_period :: period
  br_airline :: "string option"
  br_sales_total :: money
  br_refund_total :: money
  br_commission_total :: money
  br_net_remittance :: money
  br_transactions :: "bsp_transaction list"
  br_source_ref :: string

definition bsp_report_of :: "bsp_report \<Rightarrow> canon_error + bsp_report" where
  "bsp_report_of r =
     bind_res (entity_id_of ''id'' (br_id r)) (\<lambda>ident.
     bind_res (entity_id_of ''tenant_id'' (br_tenant_id r)) (\<lambda>ten.
     bind_res (constrained country_code_ok ''country'' (br_country r)) (\<lambda>c.
     bind_res (opt_res (constrained iata_code_ok ''airline'') (br_airline r)) (\<lambda>a.
       Inr (r\<lparr>br_id := ident, br_tenant_id := ten, br_country := c, br_airline := a,
              br_source_ref := py_strip (br_source_ref r)\<rparr>)))))"

datatype reconciliation_outcome = MATCHED | UNMATCHED_EXTERNAL | UNMATCHED_INTERNAL | DISCREPANCY | TENTATIVE

record reconciliation_item =
  ri_outcome :: reconciliation_outcome
  ri_confidence_bps :: int
  ri_external_ref :: "string option"
  ri_external_amount :: "money option"
  ri_external_date :: "py_date option"
  ri_internal_refs :: "string list"
  ri_internal_amount :: "money option"
  ri_delta :: "money option"
  ri_evidence :: "localized_text option"
  ri_suggested_action :: "localized_text option"

record reconciliation_summary =
  rs_matched_count :: int
  rs_matched_amount :: "money option"
  rs_unmatched_external_count :: int
  rs_unmatched_internal_count :: int
  rs_discrepancy_count :: int
  rs_tentative_count :: int

datatype reconciliation_scope = Scope_bsp | Scope_bank | Scope_card | Scope_supplier
  | Scope_payment_gateway | Scope_client_statement

record reconciliation =
  rc_id :: string
  rc_tenant_id :: string
  rc_scope :: reconciliation_scope
  rc_source :: string
  rc_period :: period
  rc_items :: "reconciliation_item list"
  rc_summary :: reconciliation_summary

datatype ticket_status = Tk_open | Tk_flown | Tk_refunded | Tk_exchanged | Tk_void

record ticket =
  tk_id :: string
  tk_tenant_id :: string
  tk_number :: string
  tk_pnr_id :: string
  tk_passenger_id :: string
  tk_issued_at :: int
  tk_issuing_airline :: string
  tk_issuing_agent_iata :: "string option"
  tk_base_amount :: money
  tk_tax_amount :: money
  tk_total_amount :: money
  tk_status :: ticket_status

text \<open>The pattern three digits, an optional hyphen, ten digits.\<close>

definition ticket_number_ok :: "string \<Rightarrow> bool" where
  "ticket_number_ok s \<longleftrightarrow> (length s = 13 \<and> list_all is_decimal_char s)
     \<or> (length s = 14 \<and> s ! 3 = CHR ''-'' \<and> list_all is_decimal_char (take 3 s @ drop 4 s))"

definition ticket_of :: "ticket \<Rightarrow> canon_error + ticket" where
  "ticket_of t =
     bind_res (entity_id_of ''id'' (tk_id t)) (\<lambda>ident.
     bind_res (entity_id_of ''tenant_id'' (tk_tenant_id t)) (\<lambda>ten.
     bind_res (constrained ticket_number_ok ''number'' (tk_number t)) (\<lambda>num.
     bind_res (entity_id_of ''pnr_id'' (tk_pnr_id t)) (\<lambda>pnr.
     bind_res (entity_id_of ''passenger_id'' (tk_passenger_id t)) (\<lambda>pas.
     bind_res (constrained iata_code_ok ''issuing_airline'' (tk_issuing_airline t)) (\<lambda>air.
       Inr (t\<lparr>tk_id := ident, tk_tenant_id := ten, tk_number := num, tk_pnr_id := pnr,
              tk_passenger_id := pas, tk_issuing_airline := air,
              tk_issuing_agent_iata := map_option py_strip (tk_issuing_agent_iata t)\<rparr>)))))))"

section \<open>Money arithmetic\<close>

lemma upper_not_space: "is_upper_char c \<Longrightarrow> \<not> py_isspace c"
  by (auto simp: is_upper_char_def py_isspace_def Let_def)

lemma currency_strip [simp]: "currency_code_ok s \<Longrightarrow> py_strip s = s"
  by (rule py_strip_no_space) (auto simp: currency_code_ok_def list_all_iff upper_not_space)

lemma constrained_currency [simp]: "currency_code_ok s \<Longrightarrow> constrained currency_code_ok f s = Inr s"
  by (simp add: constrained_def)

lemma entity_id_strip:
  assumes "entity_id_ok s"
  shows "py_strip s = s"
proof (rule py_strip_no_space)
  have n: "\<not> py_isspace (CHR ''-'')" "\<not> py_isspace (CHR ''7'')" "list_all (\<lambda>c. \<not> py_isspace c) ''89ab''"
    by code_simp+
  have hex: "is_hex_char c \<Longrightarrow> \<not> py_isspace c" for c
    by (auto simp: is_hex_char_def is_decimal_char_def py_isspace_def Let_def)
  have "\<not> py_isspace (s ! i)" if "i < length s" for i
  proof -
    have "(i, s ! i) \<in> set (enumerate 0 s)" using that by (simp add: in_set_enumerate_eq)
    with assms n hex show ?thesis by (fastforce simp: entity_id_ok_def list_all_iff split: if_splits)
  qed
  then show "list_all (\<lambda>c. \<not> py_isspace c) s" by (simp add: list_all_length)
qed

lemma constrained_Inr [canon_simps]: "constrained ok f s = Inr t \<longleftrightarrow> t = py_strip s \<and> ok t"
  by (auto simp: constrained_def Let_def)

lemma money_of_decimal [simp]:
  "currency_code_ok c \<Longrightarrow> money_of (A_decimal d) c = Inr \<lparr>m_amount = d, m_currency = c\<rparr>"
  by (simp add: money_of_def)

lemma money_of_ok: "money_of a c = Inr m \<Longrightarrow> money_ok m"
  by (auto simp: money_of_def money_ok_def res_simps canon_simps)

definition money_scaled :: "nat \<Rightarrow> money \<Rightarrow> bool" where
  "money_scaled s m \<longleftrightarrow> dec_scaled s (m_amount m)"

text \<open>Claim C37. Money arithmetic. A value that a \<^verbatim>\<open>Money\<close> constructor returns has a currency of
  three capital letters. Adding and subtracting two such values fails exactly when their
  currencies differ; otherwise the result is again well formed, in that currency, and, for
  amounts of at most \<open>s\<close> fractional digits whose magnitudes add up to less than 28 digits, it is
  the exact sum or difference, again with at most \<open>s\<close> fractional digits.
\<close>

theorem money_arithmetic_exact:
  assumes "money_of a cx = Inr x" "money_of b cy = Inr y" "money_scaled s x" "money_scaled s y"
    and "(\<bar>dval (m_amount x)\<bar> + \<bar>dval (m_amount y)\<bar>) * 10 ^ s < 10 ^ 28"
  shows "if m_currency x = m_currency y
    then \<exists>p d. money_add x y = Inr p \<and> money_sub x y = Inr d
      \<and> money_ok p \<and> money_ok d \<and> money_scaled s p \<and> money_scaled s d
      \<and> m_currency p = m_currency x \<and> m_currency d = m_currency x
      \<and> dval (m_amount p) = dval (m_amount x) + dval (m_amount y)
      \<and> dval (m_amount d) = dval (m_amount x) - dval (m_amount y)
    else money_add x y = Inl (Validation ''different currencies'')
      \<and> money_sub x y = Inl (Validation ''different currencies'')"
proof (cases "m_currency x = m_currency y")
  case True
  have ok: "currency_code_ok (m_currency x)" using money_of_ok [OF assms(1)] by (simp add: money_ok_def)
  note sc = assms(3,4) [unfolded money_scaled_def]
  show ?thesis
    using True ok dec_add_scaled [OF sc assms(5)] dec_sub_scaled [OF sc assms(5)]
    by (simp add: money_add_def money_sub_def require_same_currency_def money_ok_def money_scaled_def)
next
  case False
  then show ?thesis by (simp add: money_add_def money_sub_def require_same_currency_def)
qed

theorem money_arithmetic_exact_witness:
  "\<exists>p d. money_add \<lparr>m_amount = Dec 1050 (- 2), m_currency = ''INR''\<rparr> \<lparr>m_amount = Dec 3 0, m_currency = ''INR''\<rparr> = Inr p
    \<and> money_sub \<lparr>m_amount = Dec 1050 (- 2), m_currency = ''INR''\<rparr> \<lparr>m_amount = Dec 3 0, m_currency = ''INR''\<rparr> = Inr d
    \<and> dval (m_amount p) = 27 / 2 \<and> dval (m_amount d) = 15 / 2"
proof -
  have x: "money_of (A_str ''10.50'') '' INR'' = Inr \<lparr>m_amount = Dec 1050 (- 2), m_currency = ''INR''\<rparr>"
    by code_simp
  have y: "money_of (A_int 3) ''INR'' = Inr \<lparr>m_amount = Dec 3 0, m_currency = ''INR''\<rparr>"
    by code_simp
  show ?thesis
    using money_arithmetic_exact [OF x y, of 2]
    by (auto simp: money_scaled_def dec_scaled_def dval_Dec)
qed

section \<open>Balanced journals\<close>

definition line_value :: "string \<Rightarrow> journal_line \<Rightarrow> rat" where
  "line_value c l = (case line_money l of
     None \<Rightarrow> 0 | Some m \<Rightarrow> if m_currency m = c then dval (line_sign l) * dval (m_amount m) else 0)"

definition line_size :: "journal_line \<Rightarrow> rat" where
  "line_size l = (case line_money l of None \<Rightarrow> 0 | Some m \<Rightarrow> \<bar>dval (m_amount m)\<bar>)"

text \<open>The two columns of the journal in one currency, summed exactly.\<close>

definition debit_total :: "string \<Rightarrow> journal_line list \<Rightarrow> rat" where
  "debit_total c ls = (\<Sum>l\<leftarrow>ls. case jl_debit l of
     Some m \<Rightarrow> if m_currency m = c then dval (m_amount m) else 0 | None \<Rightarrow> 0)"

definition credit_total :: "string \<Rightarrow> journal_line list \<Rightarrow> rat" where
  "credit_total c ls = (\<Sum>l\<leftarrow>ls. case jl_credit l of
     Some m \<Rightarrow> if m_currency m = c then dval (m_amount m) else 0 | None \<Rightarrow> 0)"

definition line_scaled :: "nat \<Rightarrow> journal_line \<Rightarrow> bool" where
  "line_scaled s l \<longleftrightarrow> one_sided l \<and> (case line_money l of None \<Rightarrow> False | Some m \<Rightarrow> money_scaled s m)"

lemma line_value_split:
  "one_sided l \<Longrightarrow> line_value c l
    = (case jl_debit l of Some m \<Rightarrow> if m_currency m = c then dval (m_amount m) else 0 | None \<Rightarrow> 0)
    - (case jl_credit l of Some m \<Rightarrow> if m_currency m = c then dval (m_amount m) else 0 | None \<Rightarrow> 0)"
  by (auto simp: one_sided_def line_value_def line_money_def line_sign_def dval_Dec split: option.splits)

lemma net_is_debit_minus_credit:
  "list_all one_sided ls \<Longrightarrow> (\<Sum>l\<leftarrow>ls. line_value c l) = debit_total c ls - credit_total c ls"
  by (induction ls) (auto simp: debit_total_def credit_total_def line_value_split)

lemma line_value_le_size: "\<bar>line_value c l\<bar> \<le> line_size l"
  by (auto simp: line_value_def line_size_def line_sign_def dval_Dec abs_mult split: option.splits)

lemma dec_mul_sign:
  assumes "dec_scaled s x" "\<bar>dval x\<bar> * 10 ^ s < 10 ^ 28"
  shows "dval (dec_mul (line_sign l) x) = dval (line_sign l) * dval x \<and> dec_scaled s (dec_mul (line_sign l) x)"
proof -
  have "rat_of_int \<bar>dcoef x\<bar> = \<bar>dval x\<bar> * 10 powi (- dexp x)"
    by (simp add: dval_def abs_mult power_int_minus)
  also have "\<dots> \<le> \<bar>dval x\<bar> * 10 ^ s"
    using powi_scale_mono [of s "dexp x"] assms(1) by (intro mult_left_mono) (auto simp: dec_scaled_def)
  also have "\<dots> < 10 ^ 28" by (rule assms(2))
  finally have "rat_of_int \<bar>dcoef x\<bar> < rat_of_int (10 ^ 28)" by simp
  then have "\<bar>dcoef x\<bar> < 10 ^ 28" by (simp only: of_int_less_iff)
  then show ?thesis
    using assms(1) by (auto simp: dec_mul_def line_sign_def dval_Dec dec_scaled_def dval_def)
qed

definition dict_val :: "(string, decimal) dict \<Rightarrow> string \<Rightarrow> rat" where
  "dict_val acc c = (case map_of acc c of None \<Rightarrow> 0 | Some d \<Rightarrow> dval d)"

definition dict_scaled :: "nat \<Rightarrow> (string, decimal) dict \<Rightarrow> bool" where
  "dict_scaled s acc \<longleftrightarrow> (\<forall>c d. map_of acc c = Some d \<longrightarrow> dec_scaled s d)"

lemma dict_get_or_val:
  "dict_scaled s acc \<Longrightarrow> dval (dict_get_or acc c (dec_of_int 0)) = dict_val acc c
    \<and> dec_scaled s (dict_get_or acc c (dec_of_int 0))"
  by (auto simp: dict_get_or_def dict_val_def dict_scaled_def split: option.splits)

lemma line_size_nonneg [simp]: "0 \<le> line_size l"
  by (simp add: line_size_def split: option.splits)

lemma line_sizes_nonneg [simp]: "0 \<le> (\<Sum>l\<leftarrow>ls. line_size l)"
  by (intro sum_list_nonneg) auto

lemma scaled_bound_mono:
  assumes "(x :: rat) * 10 ^ s < b" "y \<le> x"
  shows "y * 10 ^ s < b"
proof -
  have "y * 10 ^ s \<le> x * 10 ^ s" using assms(2) by (intro mult_right_mono) auto
  with assms(1) show ?thesis by linarith
qed

lemma net_by_currency_exact:
  assumes "list_all (line_scaled s) ls" "dict_scaled s acc" "wf_dict acc"
    and "\<forall>c. (\<bar>dict_val acc c\<bar> + (\<Sum>l\<leftarrow>ls. line_size l)) * 10 ^ s < 10 ^ 28"
  shows "\<exists>acc'. net_by_currency acc ls = Inr acc' \<and> wf_dict acc'
    \<and> (\<forall>c. dict_val acc' c = dict_val acc c + (\<Sum>l\<leftarrow>ls. line_value c l))"
  using assms
proof (induction ls arbitrary: acc)
  case Nil
  then show ?case by simp
next
  case (Cons l ls)
  from Cons.prems(1) obtain m where m: "line_money l = Some m" "dec_scaled s (m_amount m)"
    by (auto simp: line_scaled_def money_scaled_def split: option.splits)
  define old where "old = dict_get_or acc (m_currency m) (dec_of_int 0)"
  define amt where "amt = dec_mul (line_sign l) (m_amount m)"
  define acc1 where "acc1 = AList.update (m_currency m) (dec_add old amt) acc"
  have old: "dval old = dict_val acc (m_currency m)" "dec_scaled s old"
    using dict_get_or_val [OF Cons.prems(2)] by (auto simp: old_def)
  have all: "(\<bar>dict_val acc c\<bar> + (line_size l + (\<Sum>l\<leftarrow>ls. line_size l))) * 10 ^ s < 10 ^ 28" for c
    using Cons.prems(4) by simp
  have sz: "line_size l = \<bar>dval (m_amount m)\<bar>" using m by (simp add: line_size_def)
  have "\<bar>dval (m_amount m)\<bar> * 10 ^ s < 10 ^ 28"
    by (rule scaled_bound_mono [OF all [of "m_currency m"]]) (simp add: sz)
  then have amt: "dval amt = line_value (m_currency m) l" "dec_scaled s amt"
    using dec_mul_sign [OF m(2), of l] m(1) by (auto simp: amt_def line_value_def)
  have le: "\<bar>dval amt\<bar> \<le> line_size l" using line_value_le_size amt by simp
  have "(\<bar>dval old\<bar> + \<bar>dval amt\<bar>) * 10 ^ s < 10 ^ 28"
    by (rule scaled_bound_mono [OF all [of "m_currency m"]])
      (use le old(1) line_sizes_nonneg [of ls] in linarith)
  note add = dec_add_scaled [OF old(2) amt(2) this]
  have val1: "dict_val acc1 c = dict_val acc c + line_value c l" for c
    using add(2) old(1) amt(1) m(1)
    by (auto simp: acc1_def dict_val_def dict_simps line_value_def)
  have sc1: "dict_scaled s acc1"
    using Cons.prems(2) add(1) by (auto simp: dict_scaled_def acc1_def dict_simps)
  have "(\<bar>dict_val acc1 c\<bar> + (\<Sum>l\<leftarrow>ls. line_size l)) * 10 ^ s < 10 ^ 28" for c
    by (rule scaled_bound_mono [OF all [of c]]) (use line_value_le_size [of c l] val1 [of c] in linarith)
  then obtain acc' where "net_by_currency acc1 ls = Inr acc'" "wf_dict acc'"
    "\<forall>c. dict_val acc' c = dict_val acc1 c + (\<Sum>l\<leftarrow>ls. line_value c l)"
    using Cons.IH [OF _ sc1] Cons.prems(1,3) by (auto simp: acc1_def)
  moreover have "net_by_currency acc (l # ls) = net_by_currency acc1 ls"
    using m(1) by (simp add: acc1_def old_def amt_def)
  ultimately show ?case using val1 by (auto simp: add.assoc)
qed

lemma nets_zero_iff:
  assumes "wf_dict acc"
  shows "list_all (\<lambda>(c, net). dec_is_zero net) acc \<longleftrightarrow> (\<forall>c. dict_val acc c = 0)"
proof -
  have "list_all (\<lambda>(c, net). dec_is_zero net) acc \<longleftrightarrow> (\<forall>c d. map_of acc c = Some d \<longrightarrow> dval d = 0)"
    by (auto simp: list_all_iff dec_is_zero_iff wf_dict_map_of [OF assms] simp del: dval_zero_iff)
  also have "\<dots> \<longleftrightarrow> (\<forall>c. dict_val acc c = 0)"
    unfolding dict_val_def by (auto simp del: dval_zero_iff split: option.splits)
  finally show ?thesis .
qed

text \<open>Claim C12. Double entry. For lines that each set exactly one side, with amounts of at most \<open>s\<close>
  fractional digits whose magnitudes add up to less than 28 digits, the \<^verbatim>\<open>JournalEntry\<close>
  constructor accepts an entry with well-formed identifiers exactly when it has at least two
  lines and, in every currency, the exact totals of the debit and the credit column agree. The
  running nets are kept in rounded decimal arithmetic; the bound is what makes them exact.
\<close>

theorem journal_entry_balanced:
  assumes "list_all (line_scaled s) (je_lines e)" "(\<Sum>l\<leftarrow>je_lines e. line_size l) * 10 ^ s < 10 ^ 28"
    and "entity_id_ok (py_strip (je_id e))" "entity_id_ok (py_strip (je_tenant_id e))" "je_source_ref e = None"
  shows "(\<exists>e'. journal_entry_of e = Inr e' \<and> je_lines e' = je_lines e)
    \<longleftrightarrow> 2 \<le> length (je_lines e) \<and> (\<forall>c. debit_total c (je_lines e) = credit_total c (je_lines e))"
proof -
  obtain acc where acc: "net_by_currency [] (je_lines e) = Inr acc" "wf_dict acc"
    "\<forall>c. dict_val acc c = (\<Sum>l\<leftarrow>je_lines e. line_value c l)"
    using net_by_currency_exact [OF assms(1), of "[]"] assms(2) by (auto simp: dict_scaled_def dict_val_def)
  have one: "list_all one_sided (je_lines e)" using assms(1) by (simp add: list_all_iff line_scaled_def)
  have "list_all (\<lambda>(c, net). dec_is_zero net) acc \<longleftrightarrow> (\<forall>c. debit_total c (je_lines e) = credit_total c (je_lines e))"
    using nets_zero_iff [OF acc(2)] acc(3) net_is_debit_minus_credit [OF one] by simp
  then show ?thesis
    using assms(3-5) acc(1)
    by (auto simp: journal_entry_of_def entity_id_of_def constrained_def opt_res_def
        balanced_per_currency_def res_simps Let_def guard_res_def)
qed

definition sample_line :: "int \<Rightarrow> bool \<Rightarrow> string \<Rightarrow> journal_line" where
  "sample_line cents debit cur = (let m = \<lparr>m_amount = Dec cents (- 2), m_currency = cur\<rparr>
     in \<lparr>jl_account_id = ''01890a5d-ac96-774b-bcce-b302099a8057'', jl_debit = (if debit then Some m else None),
         jl_credit = (if debit then None else Some m), jl_narration = None, jl_reference = None\<rparr>)"

definition sample_entry :: journal_entry where
  "sample_entry = \<lparr>je_id = ''01890a5d-ac96-774b-bcce-b302099a8057'',
     je_tenant_id = ''01890a5d-ac96-774b-bcce-b302099a8058'', je_entry_date = Date 2024 3 1,
     je_narration = localized ''sale'',
     je_lines = [sample_line 11800 True ''INR'', sample_line 10000 False ''INR'', sample_line 1800 False ''INR''],
     je_source_event = ''invoice.issued'', je_source_ref = None\<rparr>"

lemma sample_entry_lines: "je_lines sample_entry
    = [sample_line 11800 True ''INR'', sample_line 10000 False ''INR'', sample_line 1800 False ''INR'']"
  by (simp add: sample_entry_def)

theorem journal_entry_balanced_witness:
  "\<exists>e'. journal_entry_of sample_entry = Inr e' \<and> je_lines e' = je_lines sample_entry"
proof -
  have "list_all (line_scaled 2) (je_lines sample_entry)" by code_simp
  moreover have "(\<Sum>l\<leftarrow>je_lines sample_entry. line_size l) * 10 ^ 2 < 10 ^ 28"
    by (simp add: sample_entry_lines sample_line_def Let_def line_size_def line_money_def dval_Dec)
  moreover have "entity_id_ok (py_strip (je_id sample_entry))" by code_simp
  moreover have "entity_id_ok (py_strip (je_tenant_id sample_entry))" by code_simp
  moreover have "je_source_ref sample_entry = None" by (simp add: sample_entry_def)
  moreover have "debit_total c (je_lines sample_entry) = credit_total c (je_lines sample_entry)" for c
    by (simp add: sample_entry_lines debit_total_def credit_total_def sample_line_def Let_def dval_Dec)
  moreover have "2 \<le> length (je_lines sample_entry)" by (simp add: sample_entry_lines)
  ultimately show ?thesis using journal_entry_balanced [of 2 sample_entry] by blast
qed

end
