(* ===== verification/Haf_Parser.thy ===== *)
theory Haf_Parser
  imports Canonical
begin

text \<open>
  The parser for BSP settlement files: \<^verbatim>\<open>drivers/bsp_india/haf_parser.py\<close>, its record
  types \<^verbatim>\<open>haf_records.py\<close> and the carrier list \<^verbatim>\<open>airlines.py\<close>. Each
  \<^verbatim>\<open>_parse_*\<close> function is one definition over result values; an error carries the line number
  and the data its message shows. UTF-8 decoding is the argument \<open>decode\<close>.

  The layout notes of the source (record by record, column by column) are turned into the
  encoders \<open>render_*\<close>; the round trip says that the parser inverts them.
\<close>

named_theorems haf_fields \<open>field parsers on rendered fields\<close>

section \<open>Carrier codes\<close>

definition INDIA_AND_SUBCONTINENT :: "string list" where
  "INDIA_AND_SUBCONTINENT = [
     ''AI'', ''IX'', ''6E'', ''SG'', ''QP'', ''UK'', ''I5'', ''G8'', ''S2'', ''9W'', ''2T'', ''BG'',
     ''BS'', ''UL'', ''RA'', ''PK'', ''ER'', ''PF'', ''DV'']"

definition GULF_AND_MIDDLE_EAST :: "string list" where
  "GULF_AND_MIDDLE_EAST = [
     ''EK'', ''EY'', ''QR'', ''SV'', ''GF'', ''WY'', ''KU'', ''RJ'', ''ME'', ''FZ'', ''G9'', ''XY'',
     ''IY'', ''LY'', ''IR'', ''TK'', ''PC'']"

definition EAST_AND_SE_ASIA :: "string list" where
  "EAST_AND_SE_ASIA = [
     ''SQ'', ''TR'', ''MI'', ''TG'', ''TW'', ''FD'', ''VN'', ''VJ'', ''MH'', ''OD'', ''AK'', ''D7'',
     ''GA'', ''JT'', ''QZ'', ''ID'', ''PR'', ''5J'', ''Z2'', ''CX'', ''KA'', ''HX'', ''UO'', ''CI'',
     ''BR'', ''B7'', ''OZ'', ''KE'', ''7C'', ''LJ'', ''NH'', ''JL'', ''MM'', ''BC'', ''CA'', ''MU'',
     ''CZ'', ''HU'', ''3U'', ''FM'', ''MF'', ''SC'', ''KL'']"

definition EUROPE :: "string list" where
  "EUROPE = [
     ''BA'', ''VS'', ''AF'', ''LH'', ''LX'', ''OS'', ''SN'', ''KM'', ''IB'', ''UX'', ''AY'', ''SK'',
     ''AZ'', ''TP'', ''LO'', ''OK'', ''RO'', ''JU'', ''OU'', ''A3'', ''SU'', ''S7'', ''U6'', ''FI'',
     ''DY'', ''D8'', ''BT'', ''EI'', ''FR'', ''U2'', ''W6'', ''HV'', ''VY'', ''EW'']"

definition AMERICAS :: "string list" where
  "AMERICAS = [
     ''AA'', ''DL'', ''UA'', ''AS'', ''B6'', ''WN'', ''F9'', ''NK'', ''HA'', ''AC'', ''WS'', ''TS'',
     ''AM'', ''Y4'', ''VB'', ''CM'', ''LA'', ''AR'', ''G3'', ''AD'', ''AV'', ''H2'', ''JA'', ''P5'',
     ''4M'']"

definition AFRICA :: "string list" where
  "AFRICA = [
     ''ET'', ''KQ'', ''SA'', ''MS'', ''AT'', ''TU'', ''AH'', ''MK'', ''TM'', ''WB'', ''UR'', ''PW'']"

definition OCEANIA :: "string list" where
  "OCEANIA = [
     ''QF'', ''JQ'', ''VA'', ''NZ'', ''FJ'']"

definition CARGO_AND_MISC :: "string list" where
  "CARGO_AND_MISC = [
     ''FX'', ''5X'', ''5Y'', ''GG'', ''CV'', ''LD'', ''RU'', ''K4'', ''7L'']"

definition KNOWN_IATA_AIRLINE_CODES :: "string list" where
  "KNOWN_IATA_AIRLINE_CODES = INDIA_AND_SUBCONTINENT @ GULF_AND_MIDDLE_EAST @ EAST_AND_SE_ASIA @ EUROPE
     @ AMERICAS @ AFRICA @ OCEANIA @ CARGO_AND_MISC"

text \<open>\<^verbatim>\<open>re.match\<close> with a final \<^verbatim>\<open>$\<close> also accepts one newline after the two characters.\<close>

definition iata_airline_code_re :: "string \<Rightarrow> bool" where
  "iata_airline_code_re s \<longleftrightarrow>
     (let t = (if s \<noteq> [] \<and> last s = CHR 0x0A then butlast s else s)
      in length t = 2 \<and> list_all (\<lambda>c. is_upper_char c \<or> is_decimal_char c) t)"

definition is_known_iata_airline :: "string \<Rightarrow> bool" where
  "is_known_iata_airline code \<longleftrightarrow> iata_airline_code_re code \<and> code \<in> set KNOWN_IATA_AIRLINE_CODES"

section \<open>Records\<close>

record haf_header =
  hh_country :: string
  hh_bsp_currency :: string
  hh_agent_iata_code :: string
  hh_period_start :: py_date
  hh_period_end :: py_date
  hh_file_sequence :: string

datatype haf_transaction =
    BKS24 (bks_number: string) (bks_airline: string) (bks_issue: py_date) (bks_gross: decimal)
      (bks_commission: decimal) (bks_taxes: decimal) (bks_net: decimal) (bks_narration: "string option")
  | BKS39 (bks_number: string) (bks_original: string) (bks_airline: string) (bks_issue: py_date)
      (bks_net: decimal) (bks_narration: "string option")
  | BKS45 (bks_number: string) (bks_original: string) (bks_airline: string) (bks_issue: py_date)
      (bks_net: decimal) (bks_narration: "string option")
  | BKS46 (bks_number: string) (bks_airline: string) (bks_issue: py_date)
      (bks_net: decimal) (bks_narration: "string option")
  | BKS47 (bks_number: string) (bks_airline: string) (bks_issue: py_date)
      (bks_net: decimal) (bks_narration: "string option")

record haf_trailer =
  ht_record_count :: int
  ht_net_control_total :: decimal

record haf_file =
  hf_header :: haf_header
  hf_transactions :: "haf_transaction list"
  hf_trailer :: haf_trailer
  hf_source_ref :: string

datatype haf_error =
    Not_utf8
  | Line_length nat nat
  | Past_end nat string nat nat
  | Empty_integer nat string
  | Not_integer nat string string
  | Airline_shape nat string
  | Airline_unknown nat string
  | Date_shape nat string string
  | Date_invalid nat string string
  | Magnitude nat string string
  | Sign nat string string
  | Duplicate_header nat
  | Duplicate_trailer nat
  | Missing_header
  | Missing_trailer

section \<open>Fields\<close>

definition LINE_LENGTH :: nat where
  "LINE_LENGTH = 200"

definition AMOUNT_SCALE :: decimal where
  "AMOUNT_SCALE = Dec 100 0"

definition require_line_length :: "string \<Rightarrow> nat \<Rightarrow> haf_error + unit" where
  "require_line_length line lno = guard_res (length line = LINE_LENGTH) (Line_length lno (length line))"

definition haf_slice :: "string \<Rightarrow> nat \<Rightarrow> nat \<Rightarrow> nat \<Rightarrow> string \<Rightarrow> haf_error + string" where
  "haf_slice line start len lno field =
     (if start + len > length line then Inl (Past_end lno field start len)
      else Inr (take len (drop start line)))"

definition haf_parse_int :: "string \<Rightarrow> nat \<Rightarrow> string \<Rightarrow> haf_error + int" where
  "haf_parse_int raw lno field =
     (let s = py_strip raw
      in if s = [] then Inl (Empty_integer lno field)
         else case py_int s of None \<Rightarrow> Inl (Not_integer lno field raw) | Some i \<Rightarrow> Inr i)"

definition validate_airline_code :: "string \<Rightarrow> nat \<Rightarrow> haf_error + string" where
  "validate_airline_code raw lno =
     (let code = py_strip raw
      in if \<not> iata_airline_code_re code then Inl (Airline_shape lno raw)
         else if \<not> is_known_iata_airline code then Inl (Airline_unknown lno code)
         else Inr code)"

definition parse_date :: "string \<Rightarrow> nat \<Rightarrow> string \<Rightarrow> haf_error + py_date" where
  "parse_date raw lno field =
     (let s = py_strip raw
      in if length s \<noteq> 8 \<or> \<not> py_isdigit s then Inl (Date_shape lno field raw)
         else case (py_int (take 4 s), py_int (take 2 (drop 4 s)), py_int (take 2 (drop 6 s))) of
             (Some y, Some m, Some d) \<Rightarrow>
               (case date_new y m d of None \<Rightarrow> Inl (Date_invalid lno field raw) | Some x \<Rightarrow> Inr x)
           | _ \<Rightarrow> Inl (Date_invalid lno field raw))"

text \<open>
  \<^verbatim>\<open>Decimal\<close> refuses the superscript digits that \<^verbatim>\<open>isdigit\<close> lets through, with
  \<^verbatim>\<open>InvalidOperation\<close>, which the parser catches.
\<close>

definition parse_amount :: "string \<Rightarrow> string \<Rightarrow> nat \<Rightarrow> string \<Rightarrow> haf_error + decimal" where
  "parse_amount magnitude_raw sign_raw lno field =
     (let magnitude = py_strip magnitude_raw; sign_char = py_strip sign_raw
      in if magnitude = [] \<or> \<not> py_isdigit magnitude then Inl (Magnitude lno field magnitude_raw)
         else if sign_char \<notin> {'''', ''+'', ''-''} then Inl (Sign lno field sign_raw)
         else if \<not> list_all is_decimal_char magnitude then Inl (Magnitude lno field magnitude_raw)
         else (let value = dec_div (dec_of_int (int (digits_val magnitude))) AMOUNT_SCALE
               in Inr (if sign_char = ''-'' then dec_neg value else value)))"

definition none_if_empty :: "string \<Rightarrow> string option" where
  "none_if_empty s = (if s = [] then None else Some s)"

text \<open>A slice read as a date, as an amount with its sign column, as stripped text.\<close>

definition slice_text :: "string \<Rightarrow> nat \<Rightarrow> nat \<Rightarrow> nat \<Rightarrow> string \<Rightarrow> haf_error + string" where
  "slice_text line start len lno field = bind_res (haf_slice line start len lno field) (\<lambda>s. Inr (py_strip s))"

definition slice_date :: "string \<Rightarrow> nat \<Rightarrow> nat \<Rightarrow> string \<Rightarrow> haf_error + py_date" where
  "slice_date line start lno field = bind_res (haf_slice line start 8 lno field) (\<lambda>s. parse_date s lno field)"

definition slice_amount :: "string \<Rightarrow> nat \<Rightarrow> nat \<Rightarrow> string \<Rightarrow> haf_error + decimal" where
  "slice_amount line start lno field =
     bind_res (haf_slice line start 12 lno field) (\<lambda>mag.
     bind_res (haf_slice line (start + 12) 1 lno (field @ ''_sign'')) (\<lambda>sgn.
       parse_amount mag sgn lno field))"

definition slice_airline :: "string \<Rightarrow> nat \<Rightarrow> nat \<Rightarrow> haf_error + string" where
  "slice_airline line start lno =
     bind_res (haf_slice line start 2 lno ''airline_code'') (\<lambda>s. validate_airline_code s lno)"

definition slice_narration :: "string \<Rightarrow> nat \<Rightarrow> nat \<Rightarrow> nat \<Rightarrow> haf_error + string option" where
  "slice_narration line start len lno =
     bind_res (haf_slice line start len lno ''narration'') (\<lambda>s. Inr (none_if_empty (py_rstrip s)))"

section \<open>Per-record parsers\<close>

definition parse_bfh01 :: "string \<Rightarrow> nat \<Rightarrow> haf_error + haf_header" where
  "parse_bfh01 line lno =
     bind_res (slice_text line 5 2 lno ''country'') (\<lambda>country.
     bind_res (slice_text line 7 3 lno ''currency'') (\<lambda>currency.
     bind_res (slice_text line 10 10 lno ''agent_iata_code'') (\<lambda>agent.
     bind_res (slice_date line 20 lno ''period_start'') (\<lambda>start.
     bind_res (slice_date line 28 lno ''period_end'') (\<lambda>stop.
     bind_res (slice_text line 36 10 lno ''file_sequence'') (\<lambda>seq.
       Inr \<lparr>hh_country = country, hh_bsp_currency = currency, hh_agent_iata_code = agent,
            hh_period_start = start, hh_period_end = stop, hh_file_sequence = seq\<rparr>))))))"

definition parse_bks24 :: "string \<Rightarrow> nat \<Rightarrow> haf_error + haf_transaction" where
  "parse_bks24 line lno =
     bind_res (slice_text line 5 14 lno ''ticket_number'') (\<lambda>ticket.
     bind_res (slice_airline line 19 lno) (\<lambda>airline.
     bind_res (slice_date line 21 lno ''issue_date'') (\<lambda>issue.
     bind_res (slice_amount line 29 lno ''gross'') (\<lambda>gross.
     bind_res (slice_amount line 42 lno ''commission'') (\<lambda>commission.
     bind_res (slice_amount line 55 lno ''taxes'') (\<lambda>taxes.
     bind_res (slice_amount line 68 lno ''net'') (\<lambda>net.
     bind_res (slice_narration line 81 119 lno) (\<lambda>narration.
       Inr (BKS24 ticket airline issue gross commission taxes net narration)))))))))"

definition parse_bks39 :: "string \<Rightarrow> nat \<Rightarrow> haf_error + haf_transaction" where
  "parse_bks39 line lno =
     bind_res (slice_text line 5 14 lno ''document_number'') (\<lambda>doc.
     bind_res (slice_text line 19 14 lno ''original_ticket_number'') (\<lambda>original.
     bind_res (slice_airline line 33 lno) (\<lambda>airline.
     bind_res (slice_date line 35 lno ''issue_date'') (\<lambda>issue.
     bind_res (slice_amount line 43 lno ''net'') (\<lambda>net.
     bind_res (slice_narration line 56 144 lno) (\<lambda>narration.
       Inr (BKS39 doc original airline issue net narration)))))))"

definition parse_bks45 :: "string \<Rightarrow> nat \<Rightarrow> haf_error + haf_transaction" where
  "parse_bks45 line lno =
     bind_res (slice_text line 5 14 lno ''new_ticket_number'') (\<lambda>new_ticket.
     bind_res (slice_text line 19 14 lno ''original_ticket_number'') (\<lambda>original.
     bind_res (slice_airline line 33 lno) (\<lambda>airline.
     bind_res (slice_date line 35 lno ''issue_date'') (\<lambda>issue.
     bind_res (slice_amount line 43 lno ''net'') (\<lambda>net.
     bind_res (slice_narration line 56 144 lno) (\<lambda>narration.
       Inr (BKS45 new_ticket original airline issue net narration)))))))"

definition parse_memo :: "string \<Rightarrow> nat \<Rightarrow> bool \<Rightarrow> haf_error + haf_transaction" where
  "parse_memo line lno is_debit =
     bind_res (slice_text line 5 14 lno ''memo_number'') (\<lambda>memo.
     bind_res (slice_airline line 19 lno) (\<lambda>airline.
     bind_res (slice_date line 21 lno ''issue_date'') (\<lambda>issue.
     bind_res (slice_amount line 29 lno ''amount'') (\<lambda>amount.
     bind_res (slice_narration line 42 158 lno) (\<lambda>narration.
       Inr (if is_debit then BKS46 memo airline issue amount narration
            else BKS47 memo airline issue amount narration))))))"

definition parse_bft99 :: "string \<Rightarrow> nat \<Rightarrow> haf_error + haf_trailer" where
  "parse_bft99 line lno =
     bind_res (bind_res (haf_slice line 5 8 lno ''record_count'') (\<lambda>s. haf_parse_int s lno ''record_count'')) (\<lambda>count.
     bind_res (slice_amount line 13 lno ''net_control_total'') (\<lambda>net.
       Inr \<lparr>ht_record_count = count, ht_net_control_total = net\<rparr>))"

section \<open>The file\<close>

fun replace_crlf :: "string \<Rightarrow> string" where
  "replace_crlf (a # b # cs) =
     (if a = CHR 0x0D \<and> b = CHR 0x0A then CHR 0x0A # replace_crlf cs
      else a # replace_crlf (b # cs))"
| "replace_crlf cs = cs"

fun split_on :: "char \<Rightarrow> string \<Rightarrow> string list" where
  "split_on sep [] = [[]]"
| "split_on sep (c # cs) =
     (if c = sep then [] # split_on sep cs
      else (case split_on sep cs of (l # ls) \<Rightarrow> (c # l) # ls | [] \<Rightarrow> [[c]]))"

definition drop_final_empty :: "string list \<Rightarrow> string list" where
  "drop_final_empty ls = (if ls \<noteq> [] \<and> last ls = [] then butlast ls else ls)"

definition rstrip_cr :: "string \<Rightarrow> string" where
  "rstrip_cr s = rev (dropWhile (\<lambda>c. c = CHR 0x0D) (rev s))"

definition raw_lines :: "string \<Rightarrow> string list" where
  "raw_lines text = drop_final_empty (split_on (CHR 0x0A) (replace_crlf text))"

record haf_state =
  hs_header :: "haf_header option"
  hs_trailer :: "haf_trailer option"
  hs_transactions :: "haf_transaction list"

definition push_tx :: "haf_state \<Rightarrow> haf_error + haf_transaction \<Rightarrow> haf_error + haf_state" where
  "push_tx st r = bind_res r (\<lambda>t. Inr (st\<lparr>hs_transactions := hs_transactions st @ [t]\<rparr>))"

text \<open>One iteration of the loop over the lines of the file.\<close>

definition parse_line :: "nat \<Rightarrow> string \<Rightarrow> haf_state \<Rightarrow> haf_error + haf_state" where
  "parse_line idx raw st =
     (let line = rstrip_cr raw; code = take 5 line
      in if line = [] then Inr st
         else bind_res (require_line_length line idx) (\<lambda>_.
           if code = ''BFH01'' then
             (if hs_header st \<noteq> None then Inl (Duplicate_header idx)
              else bind_res (parse_bfh01 line idx) (\<lambda>h. Inr (st\<lparr>hs_header := Some h\<rparr>)))
           else if code = ''BKS24'' then push_tx st (parse_bks24 line idx)
           else if code = ''BKS39'' then push_tx st (parse_bks39 line idx)
           else if code = ''BKS45'' then push_tx st (parse_bks45 line idx)
           else if code = ''BKS46'' then push_tx st (parse_memo line idx True)
           else if code = ''BKS47'' then push_tx st (parse_memo line idx False)
           else if code = ''BFT99'' then
             (if hs_trailer st \<noteq> None then Inl (Duplicate_trailer idx)
              else bind_res (parse_bft99 line idx) (\<lambda>t. Inr (st\<lparr>hs_trailer := Some t\<rparr>)))
           else Inr st))"

fun parse_lines :: "nat \<Rightarrow> string list \<Rightarrow> haf_state \<Rightarrow> haf_error + haf_state" where
  "parse_lines idx [] st = Inr st"
| "parse_lines idx (l # ls) st = bind_res (parse_line idx l st) (parse_lines (Suc idx) ls)"

definition empty_state :: haf_state where
  "empty_state = \<lparr>hs_header = None, hs_trailer = None, hs_transactions = []\<rparr>"

definition parse_haf :: "('bytes \<Rightarrow> string option) \<Rightarrow> 'bytes \<Rightarrow> string \<Rightarrow> haf_error + haf_file" where
  "parse_haf decode content source_ref =
     (case decode content of
        None \<Rightarrow> Inl Not_utf8
      | Some text \<Rightarrow> bind_res (parse_lines 1 (raw_lines text) empty_state) (\<lambda>st.
          case hs_header st of
            None \<Rightarrow> Inl Missing_header
          | Some h \<Rightarrow> (case hs_trailer st of
              None \<Rightarrow> Inl Missing_trailer
            | Some t \<Rightarrow> Inr \<lparr>hf_header = h, hf_transactions = hs_transactions st, hf_trailer = t,
                             hf_source_ref = source_ref\<rparr>)))"

section \<open>The documented layout\<close>

text \<open>
  The column tables of the source's layout notes, as encoders: text is padded on the right,
  numbers are padded with zeros on the left, an amount is twelve digits of hundredths and a sign.
\<close>

definition pad_right :: "nat \<Rightarrow> string \<Rightarrow> string" where
  "pad_right w s = s @ replicate (w - length s) (CHR '' '')"

definition digits_field :: "nat \<Rightarrow> nat \<Rightarrow> string" where
  "digits_field w n = replicate (w - length (show_nat n)) (CHR ''0'') @ show_nat n"

definition date_field :: "py_date \<Rightarrow> string" where
  "date_field d = digits_field 4 (nat (d_year d)) @ digits_field 2 (nat (d_month d)) @ digits_field 2 (nat (d_day d))"

definition cents :: "decimal \<Rightarrow> int" where
  "cents x = dec_aligned x (- 2)"

definition sign_field :: "decimal \<Rightarrow> string" where
  "sign_field x = (if cents x < 0 then ''-'' else ''+'')"

definition magnitude_field :: "decimal \<Rightarrow> string" where
  "magnitude_field x = digits_field 12 (nat \<bar>cents x\<bar>)"

definition amount_field :: "decimal \<Rightarrow> string" where
  "amount_field x = magnitude_field x @ sign_field x"

definition narration_text :: "string option \<Rightarrow> string" where
  "narration_text n = (case n of None \<Rightarrow> '''' | Some t \<Rightarrow> t)"

definition render_header :: "haf_header \<Rightarrow> string" where
  "render_header h = ''BFH01'' @ pad_right 2 (hh_country h) @ pad_right 3 (hh_bsp_currency h)
     @ pad_right 10 (hh_agent_iata_code h) @ date_field (hh_period_start h) @ date_field (hh_period_end h)
     @ pad_right 10 (hh_file_sequence h) @ replicate 154 (CHR '' '')"

fun render_transaction :: "haf_transaction \<Rightarrow> string" where
  "render_transaction (BKS24 n a d gross com tax net nar) =
     ''BKS24'' @ pad_right 14 n @ pad_right 2 a @ date_field d @ amount_field gross @ amount_field com
       @ amount_field tax @ amount_field net @ pad_right 119 (narration_text nar)"
| "render_transaction (BKS39 n orig a d net nar) =
     ''BKS39'' @ pad_right 14 n @ pad_right 14 orig @ pad_right 2 a @ date_field d @ amount_field net
       @ pad_right 144 (narration_text nar)"
| "render_transaction (BKS45 n orig a d net nar) =
     ''BKS45'' @ pad_right 14 n @ pad_right 14 orig @ pad_right 2 a @ date_field d @ amount_field net
       @ pad_right 144 (narration_text nar)"
| "render_transaction (BKS46 n a d net nar) =
     ''BKS46'' @ pad_right 14 n @ pad_right 2 a @ date_field d @ amount_field net
       @ pad_right 158 (narration_text nar)"
| "render_transaction (BKS47 n a d net nar) =
     ''BKS47'' @ pad_right 14 n @ pad_right 2 a @ date_field d @ amount_field net
       @ pad_right 158 (narration_text nar)"

definition render_trailer :: "haf_trailer \<Rightarrow> string" where
  "render_trailer t = ''BFT99'' @ digits_field 8 (nat (ht_record_count t))
     @ amount_field (ht_net_control_total t) @ replicate 174 (CHR '' '')"

definition render_lines :: "haf_file \<Rightarrow> string list" where
  "render_lines f = render_header (hf_header f) # map render_transaction (hf_transactions f)
     @ [render_trailer (hf_trailer f)]"

definition render_haf :: "string \<Rightarrow> haf_file \<Rightarrow> string" where
  "render_haf nl f = concat (map (\<lambda>l. l @ nl) (render_lines f))"

text \<open>What fits the layout: text without outer blanks and line breaks, within its width; real
  dates; amounts in hundredths of at most twelve digits; a known carrier.\<close>

definition fits :: "nat \<Rightarrow> string \<Rightarrow> bool" where
  "fits w s \<longleftrightarrow> length s \<le> w \<and> py_strip s = s
     \<and> list_all (\<lambda>c. c \<noteq> CHR 0x0A \<and> c \<noteq> CHR 0x0D) s"

definition amount_of_cents :: "int \<Rightarrow> decimal" where
  "amount_of_cents k = (let v = dec_div (dec_of_int \<bar>k\<bar>) AMOUNT_SCALE in if k < 0 then dec_neg v else v)"

definition amount_fits :: "decimal \<Rightarrow> bool" where
  "amount_fits x \<longleftrightarrow> \<bar>cents x\<bar> < 10 ^ 12 \<and> x = amount_of_cents (cents x)"

definition narration_fits :: "nat \<Rightarrow> string option \<Rightarrow> bool" where
  "narration_fits w n = (case n of None \<Rightarrow> True
     | Some t \<Rightarrow> t \<noteq> [] \<and> length t \<le> w \<and> \<not> py_isspace (last t)
         \<and> list_all (\<lambda>c. c \<noteq> CHR 0x0A \<and> c \<noteq> CHR 0x0D) t)"

definition header_fits :: "haf_header \<Rightarrow> bool" where
  "header_fits h \<longleftrightarrow> fits 2 (hh_country h) \<and> fits 3 (hh_bsp_currency h) \<and> fits 10 (hh_agent_iata_code h)
     \<and> date_ok (hh_period_start h) \<and> date_ok (hh_period_end h) \<and> fits 10 (hh_file_sequence h)"

fun transaction_fits :: "haf_transaction \<Rightarrow> bool" where
  "transaction_fits (BKS24 n a d gross com tax net nar) \<longleftrightarrow>
     fits 14 n \<and> is_known_iata_airline a \<and> date_ok d \<and> amount_fits gross \<and> amount_fits com
     \<and> amount_fits tax \<and> amount_fits net \<and> narration_fits 119 nar"
| "transaction_fits (BKS39 n orig a d net nar) \<longleftrightarrow>
     fits 14 n \<and> fits 14 orig \<and> is_known_iata_airline a \<and> date_ok d \<and> amount_fits net \<and> narration_fits 144 nar"
| "transaction_fits (BKS45 n orig a d net nar) \<longleftrightarrow>
     fits 14 n \<and> fits 14 orig \<and> is_known_iata_airline a \<and> date_ok d \<and> amount_fits net \<and> narration_fits 144 nar"
| "transaction_fits (BKS46 n a d net nar) \<longleftrightarrow>
     fits 14 n \<and> is_known_iata_airline a \<and> date_ok d \<and> amount_fits net \<and> narration_fits 158 nar"
| "transaction_fits (BKS47 n a d net nar) \<longleftrightarrow>
     fits 14 n \<and> is_known_iata_airline a \<and> date_ok d \<and> amount_fits net \<and> narration_fits 158 nar"

definition trailer_fits :: "haf_trailer \<Rightarrow> bool" where
  "trailer_fits t \<longleftrightarrow> 0 \<le> ht_record_count t \<and> ht_record_count t < 10 ^ 8 \<and> amount_fits (ht_net_control_total t)"

definition haf_fits :: "haf_file \<Rightarrow> bool" where
  "haf_fits f \<longleftrightarrow> header_fits (hf_header f) \<and> list_all transaction_fits (hf_transactions f)
     \<and> trailer_fits (hf_trailer f)"

section \<open>Field widths and contents\<close>

lemma length_show_nat_le: "0 < k \<Longrightarrow> n < 10 ^ k \<Longrightarrow> length (show_nat n) \<le> k"
proof (induction n arbitrary: k rule: show_nat.induct)
  case (1 n)
  show ?case
  proof (cases "n < 10")
    case True
    with "1.prems" show ?thesis by (simp add: show_nat.simps [of n])
  next
    case False
    with "1.prems" obtain j where j: "k = Suc j" "0 < j" by (cases k; cases "k - 1") auto
    then have "n div 10 < 10 ^ j" using "1.prems"(2) by (simp add: less_mult_imp_div_less mult.commute)
    with "1.IH" [OF False j(2)] False j show ?thesis by (simp add: show_nat.simps [of n])
  qed
qed

lemma length_pad_right [simp]: "length s \<le> w \<Longrightarrow> length (pad_right w s) = w"
  by (simp add: pad_right_def)

lemma length_digits_field: "0 < w \<Longrightarrow> n < 10 ^ w \<Longrightarrow> length (digits_field w n) = w"
  using length_show_nat_le by (simp add: digits_field_def)

lemma zero_decimal: "is_decimal_char (CHR ''0'')"
  by (simp add: is_decimal_char_def)

lemma digits_field_decimal: "list_all is_decimal_char (digits_field w n)"
  by (auto simp: digits_field_def list_all_iff zero_decimal show_nat_decimal [unfolded list_all_iff])

lemma digits_field_val [simp]: "digits_val (digits_field w n) = n"
  by (simp add: digits_field_def digits_val_zeros)

lemma digits_field_nonempty [simp]: "digits_field w n \<noteq> []"
  by (simp add: digits_field_def show_nat.simps [of n])

lemma digits_field_strip [simp]: "py_strip (digits_field w n) = digits_field w n"
  by (rule py_strip_no_space) (auto simp: list_all_iff decimal_not_space digits_field_decimal [unfolded list_all_iff])

lemma py_int_digits_field [simp]: "py_int (digits_field w n) = Some (int n)"
  using py_int_digits [OF digits_field_nonempty digits_field_decimal] by simp

lemma py_isdigit_digits_field [simp]: "py_isdigit (digits_field w n)"
  by (auto simp: py_isdigit_def list_all_iff digits_field_decimal [unfolded list_all_iff])

lemma space_is_space [simp]: "py_isspace (CHR '' '')"
  by (simp add: py_isspace_def)

lemma py_strip_pad_right [simp]: "py_strip s = s \<Longrightarrow> py_strip (pad_right w s) = s"
proof -
  assume s: "py_strip s = s"
  show ?thesis
  proof (cases "s = []")
    case True
    then show ?thesis by (simp add: pad_right_def py_strip_def py_lstrip_def py_rstrip_def)
  next
    case False
    have "\<not> py_isspace (hd s)"
    proof
      assume "py_isspace (hd s)"
      then have "length (py_lstrip s) < length s"
        using False by (cases s) (auto simp: py_lstrip_def intro: le_imp_less_Suc length_dropWhile_le)
      moreover have "length (py_rstrip (py_lstrip s)) \<le> length (py_lstrip s)"
        by (simp add: py_rstrip_def) (metis length_dropWhile_le length_rev)
      ultimately show False using s by (simp add: py_strip_def)
    qed
    then have l: "py_lstrip (pad_right w s) = pad_right w s" "py_lstrip s = s"
      using False by (auto simp: pad_right_def py_lstrip_no_lead)
    have "py_strip (pad_right w s) = py_rstrip (pad_right w s)" by (simp add: py_strip_def l(1))
    also have "\<dots> = py_rstrip s"
      unfolding pad_right_def by (rule py_rstrip_pad) (auto simp: list_all_iff)
    also have "\<dots> = s" using s by (simp add: py_strip_def l(2))
    finally show ?thesis .
  qed
qed

section \<open>Amounts\<close>

lemma hundredths:
  assumes "0 \<le> n" "n < 10 ^ 12"
  shows "dval (dec_div (dec_of_int n) AMOUNT_SCALE) = of_int n / 100
    \<and> dec_scaled 2 (dec_div (dec_of_int n) AMOUNT_SCALE)"
proof -
  have "\<bar>n\<bar> < 10 ^ 28" using assms by simp
  from dec_div_pow10 [OF this, of 2] show ?thesis by (simp add: dec_of_int_def AMOUNT_SCALE_def)
qed

lemma dec_neg_scaled:
  assumes "dec_scaled s x" "\<bar>dval x\<bar> * 10 ^ s < 10 ^ 28"
  shows "dval (dec_neg x) = - dval x" and "dec_scaled s (dec_neg x)"
proof -
  have "dec_neg x = dec_mul (Dec (- 1) 0) x" by (simp add: dec_neg_def dec_mul_def dec_copy_negate_def)
  moreover have "line_sign (undefined\<lparr>jl_debit := None\<rparr>) = Dec (- 1) 0" by (simp add: line_sign_def)
  ultimately have "dval (dec_neg x) = dval (Dec (- 1) 0) * dval x \<and> dec_scaled s (dec_neg x)"
    using dec_mul_sign [OF assms, of "undefined\<lparr>jl_debit := None\<rparr>"] by simp
  then show "dval (dec_neg x) = - dval x" and "dec_scaled s (dec_neg x)" by auto
qed

lemma amount_of_cents_exact:
  assumes "\<bar>k\<bar> < 10 ^ 12"
  shows "dval (amount_of_cents k) = of_int k / 100" and "dec_scaled 2 (amount_of_cents k)"
proof -
  note h = hundredths [of "\<bar>k\<bar>"]
  have "rat_of_int \<bar>k\<bar> < rat_of_int (10 ^ 12)" using assms by (simp only: of_int_less_iff)
  moreover have "\<bar>dval (dec_div (dec_of_int \<bar>k\<bar>) AMOUNT_SCALE)\<bar> * 10 ^ 2 = rat_of_int \<bar>k\<bar>"
    by (subst h [THEN conjunct1]) (use assms in auto)
  ultimately have small: "\<bar>dval (dec_div (dec_of_int \<bar>k\<bar>) AMOUNT_SCALE)\<bar> * 10 ^ 2 < 10 ^ 28"
    by simp
  show "dval (amount_of_cents k) = of_int k / 100" and "dec_scaled 2 (amount_of_cents k)"
    using h assms dec_neg_scaled [OF _ small] by (auto simp: amount_of_cents_def Let_def)
qed

lemma cents_of_scaled: "dec_scaled 2 x \<Longrightarrow> rat_of_int (cents x) = dval x * 100"
  using dec_aligned_val' [of "- 2" x] by (simp add: cents_def dec_scaled_def)

lemma cents_amount_of_cents [simp]: "\<bar>k\<bar> < 10 ^ 12 \<Longrightarrow> cents (amount_of_cents k) = k"
  using amount_of_cents_exact cents_of_scaled [of "amount_of_cents k"] by simp

lemma amount_fits_of_cents [simp]: "\<bar>k\<bar> < 10 ^ 12 \<Longrightarrow> amount_fits (amount_of_cents k)"
  by (simp add: amount_fits_def)

lemma amount_fits_value:
  assumes "amount_fits x"
  shows "dval x = of_int (cents x) / 100" and "dec_scaled 2 x" and "\<bar>dval x\<bar> * 100 < 10 ^ 12"
proof -
  have c: "\<bar>cents x\<bar> < 10 ^ 12" "x = amount_of_cents (cents x)" using assms by (auto simp: amount_fits_def)
  show v: "dval x = of_int (cents x) / 100" and "dec_scaled 2 x"
    using amount_of_cents_exact [OF c(1)] c(2) by auto
  have "rat_of_int \<bar>cents x\<bar> < rat_of_int (10 ^ 12)" using c(1) by (simp only: of_int_less_iff)
  then show "\<bar>dval x\<bar> * 100 < 10 ^ 12" by (simp add: v)
qed

lemma sign_field_length [simp]: "length (sign_field x) = 1"
  by (simp add: sign_field_def)

lemma magnitude_field_length: "amount_fits x \<Longrightarrow> length (magnitude_field x) = 12"
  unfolding magnitude_field_def by (rule length_digits_field) (auto simp: amount_fits_def)

lemma sign_strip [simp]: "py_strip ''-'' = ''-''" "py_strip ''+'' = ''+''" "py_strip [] = []"
  by code_simp+

lemma parse_amount_field [haf_fields]:
  assumes "amount_fits x"
  shows "parse_amount (magnitude_field x) (sign_field x) lno f = Inr x"
proof -
  have x: "x = amount_of_cents (cents x)" using assms by (simp add: amount_fits_def)
  have "parse_amount (magnitude_field x) (sign_field x) lno f
      = Inr (amount_of_cents (cents x))"
    by (simp add: parse_amount_def Let_def magnitude_field_def sign_field_def digits_field_decimal
        amount_of_cents_def)
  then show ?thesis by (simp add: x [symmetric])
qed

lemma parse_amount_fits:
  assumes "parse_amount mag sgn_raw lno f = Inr x" "length mag \<le> 12"
  shows "amount_fits x"
proof -
  define m where "m = py_strip mag"
  have dec: "list_all is_decimal_char m" and sg: "x = dec_div (dec_of_int (int (digits_val m))) AMOUNT_SCALE
      \<or> x = dec_neg (dec_div (dec_of_int (int (digits_val m))) AMOUNT_SCALE)"
    using assms(1) by (auto simp: parse_amount_def m_def Let_def split: if_splits)
  have "length m \<le> 12"
    using assms(2) length_dropWhile_le [of py_isspace mag]
      length_dropWhile_le [of py_isspace "rev (dropWhile py_isspace mag)"]
    by (simp add: m_def py_strip_def py_lstrip_def py_rstrip_def)
  moreover have "digits_val m < 10 ^ length m" using dec
  proof (induction m rule: rev_induct)
    case (snoc c cs)
    have "digit_val c < 10" using snoc.prems by (auto simp: digit_val_def is_decimal_char_def Let_def)
    with snoc show ?case by simp
  qed simp
  ultimately have "digits_val m < 10 ^ 12"
    by (intro order.strict_trans2 [OF _ power_increasing [of "length m" 12]]) auto
  then have "int (digits_val m) < int (10 ^ 12)" by (simp only: of_nat_less_iff)
  then have lt: "int (digits_val m) < 10 ^ 12" by simp
  define k where "k = int (digits_val m)"
  from sg consider "x = amount_of_cents k" | "k = 0" "x = dec_neg (amount_of_cents k)" | "k \<noteq> 0" "x = amount_of_cents (- k)"
    by (cases "k = 0") (auto simp: amount_of_cents_def k_def)
  then show ?thesis
  proof cases
    case 2
    have "dec_neg (amount_of_cents 0) = amount_of_cents 0" by code_simp
    with 2 lt show ?thesis by simp
  qed (use lt in \<open>auto simp: k_def\<close>)
qed

section \<open>Dates, carriers, narrations\<close>

lemma date_field_parts:
  assumes "date_ok d"
  shows "length (digits_field 4 (nat (d_year d))) = 4" "length (digits_field 2 (nat (d_month d))) = 2"
    "length (digits_field 2 (nat (d_day d))) = 2"
proof -
  have "d_day d \<le> 31" using assms by (auto simp: date_ok_def days_in_month_def split: if_splits)
  with assms show "length (digits_field 4 (nat (d_year d))) = 4"
    "length (digits_field 2 (nat (d_month d))) = 2" "length (digits_field 2 (nat (d_day d))) = 2"
    by (auto intro!: length_digits_field simp: date_ok_def)
qed

lemma date_field_length: "date_ok d \<Longrightarrow> length (date_field d) = 8"
  by (simp add: date_field_def date_field_parts)

lemma date_field_decimal: "list_all is_decimal_char (date_field d)"
  by (simp add: date_field_def digits_field_decimal)

lemma parse_date_field [haf_fields]:
  assumes "date_ok d"
  shows "parse_date (date_field d) lno f = Inr d"
proof -
  have st: "py_strip (date_field d) = date_field d"
    by (rule py_strip_no_space)
      (use date_field_decimal [of d] in \<open>auto simp: list_all_iff decimal_not_space\<close>)
  have dig: "py_isdigit (date_field d)"
    using date_field_decimal [of d] by (auto simp: py_isdigit_def list_all_iff date_field_def)
  have parts: "take 4 (date_field d) = digits_field 4 (nat (d_year d))"
    "take 2 (drop 4 (date_field d)) = digits_field 2 (nat (d_month d))"
    "take 2 (drop 6 (date_field d)) = digits_field 2 (nat (d_day d))"
    using date_field_parts [OF assms] by (simp_all add: date_field_def)
  have "date_new (int (nat (d_year d))) (int (nat (d_month d))) (int (nat (d_day d))) = Some d"
    using assms by (cases d) (auto simp: date_new_def date_ok_def)
  then show ?thesis
    by (simp add: parse_date_def Let_def st dig parts date_field_length [OF assms])
qed

lemma parse_date_ok: "parse_date raw lno f = Inr d \<Longrightarrow> date_ok d"
  by (auto simp: parse_date_def Let_def date_new_def split: if_splits option.splits)

lemma known_airline_length:
  assumes "is_known_iata_airline a"
  shows "length a = 2 \<and> list_all (\<lambda>c. is_upper_char c \<or> is_decimal_char c) a"
proof -
  have "list_all (\<lambda>a. length a = 2 \<and> list_all (\<lambda>c. is_upper_char c \<or> is_decimal_char c) a)
      KNOWN_IATA_AIRLINE_CODES" by code_simp
  with assms show ?thesis by (auto simp: is_known_iata_airline_def list_all_iff)
qed

lemma known_airline_strip: "is_known_iata_airline a \<Longrightarrow> py_strip a = a"
  by (rule py_strip_no_space)
    (use known_airline_length [of a] upper_not_space decimal_not_space in \<open>fastforce simp: list_all_iff\<close>)

lemma validate_airline_known [haf_fields]:
  "is_known_iata_airline a \<Longrightarrow> validate_airline_code (pad_right 2 a) lno = Inr a"
  using known_airline_strip [of a] by (simp add: validate_airline_code_def Let_def is_known_iata_airline_def)

lemma validate_airline_Inr: "validate_airline_code raw lno = Inr a \<Longrightarrow> is_known_iata_airline a"
  by (auto simp: validate_airline_code_def Let_def split: if_splits)

lemma narration_field [haf_fields]:
  "narration_fits w n \<Longrightarrow> none_if_empty (py_rstrip (pad_right w (narration_text n))) = n"
proof -
  assume n: "narration_fits w n"
  have "py_rstrip (pad_right w (narration_text n)) = py_rstrip (narration_text n)"
    unfolding pad_right_def by (rule py_rstrip_pad) (auto simp: list_all_iff)
  also have "\<dots> = narration_text n"
    using n by (intro py_rstrip_no_trail) (auto simp: narration_fits_def narration_text_def split: option.splits)
  finally show ?thesis
    using n by (auto simp: none_if_empty_def narration_fits_def narration_text_def split: option.splits)
qed

lemma narration_text_length: "narration_fits w n \<Longrightarrow> length (narration_text n) \<le> w"
  by (auto simp: narration_fits_def narration_text_def split: option.splits)

section \<open>Records\<close>

lemmas slice_defs = slice_text_def slice_date_def slice_amount_def slice_airline_def slice_narration_def
  haf_slice_def

lemma parse_bks24_fields:
  assumes "length c = 5" "length n = 14" "length a = 2" "length d = 8" "length g = 12" "length gs = 1"
    "length k = 12" "length ks = 1" "length t = 12" "length ts = 1" "length m = 12" "length ms = 1" "length r = 119"
  shows "parse_bks24 (c @ n @ a @ d @ g @ gs @ k @ ks @ t @ ts @ m @ ms @ r) lno =
     bind_res (validate_airline_code a lno) (\<lambda>airline.
     bind_res (parse_date d lno ''issue_date'') (\<lambda>issue.
     bind_res (parse_amount g gs lno ''gross'') (\<lambda>gross.
     bind_res (parse_amount k ks lno ''commission'') (\<lambda>commission.
     bind_res (parse_amount t ts lno ''taxes'') (\<lambda>taxes.
     bind_res (parse_amount m ms lno ''net'') (\<lambda>net.
       Inr (BKS24 (py_strip n) airline issue gross commission taxes net (none_if_empty (py_rstrip r)))))))))"
  using assms by (simp add: parse_bks24_def slice_defs)

lemma parse_bks39_fields:
  assumes "length c = 5" "length n = 14" "length p = 14" "length a = 2" "length d = 8" "length m = 12"
    "length ms = 1" "length r = 144"
  shows "parse_bks39 (c @ n @ p @ a @ d @ m @ ms @ r) lno =
     bind_res (validate_airline_code a lno) (\<lambda>airline.
     bind_res (parse_date d lno ''issue_date'') (\<lambda>issue.
     bind_res (parse_amount m ms lno ''net'') (\<lambda>net.
       Inr (BKS39 (py_strip n) (py_strip p) airline issue net (none_if_empty (py_rstrip r))))))"
    and "parse_bks45 (c @ n @ p @ a @ d @ m @ ms @ r) lno =
     bind_res (validate_airline_code a lno) (\<lambda>airline.
     bind_res (parse_date d lno ''issue_date'') (\<lambda>issue.
     bind_res (parse_amount m ms lno ''net'') (\<lambda>net.
       Inr (BKS45 (py_strip n) (py_strip p) airline issue net (none_if_empty (py_rstrip r))))))"
  using assms by (simp_all add: parse_bks39_def parse_bks45_def slice_defs)

lemma parse_memo_fields:
  assumes "length c = 5" "length n = 14" "length a = 2" "length d = 8" "length m = 12"
    "length ms = 1" "length r = 158"
  shows "parse_memo (c @ n @ a @ d @ m @ ms @ r) lno dbt =
     bind_res (validate_airline_code a lno) (\<lambda>airline.
     bind_res (parse_date d lno ''issue_date'') (\<lambda>issue.
     bind_res (parse_amount m ms lno ''amount'') (\<lambda>net.
       Inr (if dbt then BKS46 (py_strip n) airline issue net (none_if_empty (py_rstrip r))
            else BKS47 (py_strip n) airline issue net (none_if_empty (py_rstrip r))))))"
  using assms by (simp add: parse_memo_def slice_defs)

lemma parse_bfh01_fields:
  assumes "length c = 5" "length co = 2" "length cu = 3" "length ag = 10" "length s = 8" "length e = 8"
    "length q = 10" "length r = 154"
  shows "parse_bfh01 (c @ co @ cu @ ag @ s @ e @ q @ r) lno =
     bind_res (parse_date s lno ''period_start'') (\<lambda>start.
     bind_res (parse_date e lno ''period_end'') (\<lambda>stop.
       Inr \<lparr>hh_country = py_strip co, hh_bsp_currency = py_strip cu, hh_agent_iata_code = py_strip ag,
            hh_period_start = start, hh_period_end = stop, hh_file_sequence = py_strip q\<rparr>))"
  using assms by (simp add: parse_bfh01_def slice_defs)

lemma parse_bft99_fields:
  assumes "length c = 5" "length n = 8" "length m = 12" "length ms = 1"
  shows "parse_bft99 (c @ n @ m @ ms @ r) lno =
     bind_res (haf_parse_int n lno ''record_count'') (\<lambda>count.
     bind_res (parse_amount m ms lno ''net_control_total'') (\<lambda>net.
       Inr \<lparr>ht_record_count = count, ht_net_control_total = net\<rparr>))"
  using assms by (simp add: parse_bft99_def slice_defs)

lemmas field_lengths = date_field_length magnitude_field_length narration_text_length

lemma render_transaction_length: "transaction_fits t \<Longrightarrow> length (render_transaction t) = 200"
  by (cases t) (auto simp: amount_field_def field_lengths fits_def known_airline_length)

lemma render_header_length: "header_fits h \<Longrightarrow> length (render_header h) = 200"
  by (simp add: render_header_def header_fits_def fits_def field_lengths)

lemma count_field_length: "trailer_fits t \<Longrightarrow> length (digits_field 8 (nat (ht_record_count t))) = 8"
  by (rule length_digits_field) (auto simp: trailer_fits_def)

lemma render_trailer_length: "trailer_fits t \<Longrightarrow> length (render_trailer t) = 200"
  by (simp add: render_trailer_def count_field_length) (simp add: trailer_fits_def amount_field_def field_lengths)

definition parse_transaction :: "string \<Rightarrow> nat \<Rightarrow> haf_error + haf_transaction" where
  "parse_transaction line lno =
     (let code = take 5 line
      in if code = ''BKS24'' then parse_bks24 line lno
         else if code = ''BKS39'' then parse_bks39 line lno
         else if code = ''BKS45'' then parse_bks45 line lno
         else if code = ''BKS46'' then parse_memo line lno True
         else parse_memo line lno False)"

lemma parse_rendered_transaction:
  assumes "transaction_fits t"
  shows "parse_transaction (render_transaction t) lno = Inr t"
proof (cases t)
  case (BKS24 n a d gross com tax net nar)
  note f = assms [unfolded BKS24 transaction_fits.simps]
  have "parse_bks24 (''BKS24'' @ pad_right 14 n @ pad_right 2 a @ date_field d @ magnitude_field gross
      @ sign_field gross @ magnitude_field com @ sign_field com @ magnitude_field tax @ sign_field tax
      @ magnitude_field net @ sign_field net @ pad_right 119 (narration_text nar)) lno = Inr t"
    by (subst parse_bks24_fields)
      (use f in \<open>auto simp: BKS24 fits_def field_lengths known_airline_length haf_fields\<close>)
  then show ?thesis by (simp add: BKS24 parse_transaction_def amount_field_def)
next
  case (BKS39 n p a d net nar)
  note f = assms [unfolded BKS39 transaction_fits.simps]
  have "parse_bks39 (''BKS39'' @ pad_right 14 n @ pad_right 14 p @ pad_right 2 a @ date_field d
      @ magnitude_field net @ sign_field net @ pad_right 144 (narration_text nar)) lno = Inr t"
    by (subst parse_bks39_fields)
      (use f in \<open>auto simp: BKS39 fits_def field_lengths known_airline_length haf_fields\<close>)
  then show ?thesis by (simp add: BKS39 parse_transaction_def amount_field_def)
next
  case (BKS45 n p a d net nar)
  note f = assms [unfolded BKS45 transaction_fits.simps]
  have "parse_bks45 (''BKS45'' @ pad_right 14 n @ pad_right 14 p @ pad_right 2 a @ date_field d
      @ magnitude_field net @ sign_field net @ pad_right 144 (narration_text nar)) lno = Inr t"
    by (subst parse_bks39_fields)
      (use f in \<open>auto simp: BKS45 fits_def field_lengths known_airline_length haf_fields\<close>)
  then show ?thesis by (simp add: BKS45 parse_transaction_def amount_field_def)
next
  case (BKS46 n a d net nar)
  note f = assms [unfolded BKS46 transaction_fits.simps]
  have "parse_memo (''BKS46'' @ pad_right 14 n @ pad_right 2 a @ date_field d
      @ magnitude_field net @ sign_field net @ pad_right 158 (narration_text nar)) lno True = Inr t"
    by (subst parse_memo_fields)
      (use f in \<open>auto simp: BKS46 fits_def field_lengths known_airline_length haf_fields\<close>)
  then show ?thesis by (simp add: BKS46 parse_transaction_def amount_field_def)
next
  case (BKS47 n a d net nar)
  note f = assms [unfolded BKS47 transaction_fits.simps]
  have "parse_memo (''BKS47'' @ pad_right 14 n @ pad_right 2 a @ date_field d
      @ magnitude_field net @ sign_field net @ pad_right 158 (narration_text nar)) lno False = Inr t"
    by (subst parse_memo_fields)
      (use f in \<open>auto simp: BKS47 fits_def field_lengths known_airline_length haf_fields\<close>)
  then show ?thesis by (simp add: BKS47 parse_transaction_def amount_field_def)
qed

lemma parse_rendered_header: "header_fits h \<Longrightarrow> parse_bfh01 (render_header h) lno = Inr h"
  unfolding render_header_def
  by (subst parse_bfh01_fields) (auto simp: header_fits_def fits_def field_lengths haf_fields)

lemma parse_rendered_trailer:
  assumes "trailer_fits t"
  shows "parse_bft99 (render_trailer t) lno = Inr t"
  using assms count_field_length [OF assms] unfolding render_trailer_def amount_field_def append_assoc
  by (subst parse_bft99_fields) (auto simp: trailer_fits_def field_lengths haf_fields haf_parse_int_def)

section \<open>Files\<close>

lemma tx_code: "take 5 (render_transaction t) \<in> {''BKS24'', ''BKS39'', ''BKS45'', ''BKS46'', ''BKS47''}"
  by (cases t) auto

lemma parse_line_transaction:
  assumes "take 5 line \<in> {''BKS24'', ''BKS39'', ''BKS45'', ''BKS46'', ''BKS47''}" "length line = 200"
    "rstrip_cr raw = line"
  shows "parse_line idx raw st = push_tx st (parse_transaction line idx)"
  using assms by (auto simp: parse_line_def Let_def require_line_length_def LINE_LENGTH_def parse_transaction_def)

definition no_break :: "string \<Rightarrow> bool" where
  "no_break s \<longleftrightarrow> list_all (\<lambda>c. c \<noteq> CHR 0x0A \<and> c \<noteq> CHR 0x0D) s"

lemma no_break_simps [simp]:
  "no_break []" "no_break (s @ t) \<longleftrightarrow> no_break s \<and> no_break t"
  "no_break (c # s) \<longleftrightarrow> c \<noteq> CHR 0x0A \<and> c \<noteq> CHR 0x0D \<and> no_break s"
  by (simp_all add: no_break_def)

lemma no_break_decimal: "list_all is_decimal_char s \<Longrightarrow> no_break s"
  by (auto simp: no_break_def list_all_iff is_decimal_char_def Let_def)

lemma no_break_fields [simp]:
  "no_break s \<Longrightarrow> no_break (pad_right w s)" "no_break (digits_field w n)" "no_break (date_field d)"
  "no_break (amount_field x)" "no_break (replicate k (CHR '' ''))"
  by (auto simp: pad_right_def amount_field_def magnitude_field_def sign_field_def no_break_decimal
      digits_field_decimal date_field_decimal) (auto simp: no_break_def list_all_iff)

lemma no_break_airline: "is_known_iata_airline a \<Longrightarrow> no_break a"
  using known_airline_length [of a]
  by (auto simp: no_break_def list_all_iff is_upper_char_def is_decimal_char_def Let_def)

lemma no_break_narration: "narration_fits w n \<Longrightarrow> no_break (narration_text n)"
  by (auto simp: narration_fits_def narration_text_def no_break_def split: option.splits)

lemma no_break_transaction: "transaction_fits t \<Longrightarrow> no_break (render_transaction t)"
  by (cases t) (auto simp: no_break_airline no_break_narration fits_def no_break_def [symmetric])

lemma no_break_header: "header_fits h \<Longrightarrow> no_break (render_header h)"
  by (auto simp: render_header_def header_fits_def fits_def no_break_def [symmetric])

lemma no_break_trailer: "no_break (render_trailer t)"
  by (simp add: render_trailer_def)

lemma no_break_lines: "haf_fits f \<Longrightarrow> list_all no_break (render_lines f)"
  by (auto simp: render_lines_def haf_fits_def list_all_iff no_break_header no_break_transaction no_break_trailer)

lemma rstrip_cr_id: "no_break s \<Longrightarrow> rstrip_cr s = s"
  by (cases s rule: rev_cases) (auto simp: rstrip_cr_def)

lemma replace_crlf_line:
  assumes "no_break l" "nl \<in> {[CHR 0x0A], [CHR 0x0D, CHR 0x0A]}"
  shows "replace_crlf (l @ nl @ rest) = l @ CHR 0x0A # replace_crlf rest"
  using assms
proof (induction l)
  case Nil
  then show ?case by (cases rest) auto
next
  case (Cons c l)
  then show ?case by (cases "l @ nl @ rest") auto
qed

lemma split_on_line: "no_break l \<Longrightarrow> split_on (CHR 0x0A) (l @ CHR 0x0A # rest)
    = l # split_on (CHR 0x0A) rest"
  by (induction l) auto

lemma raw_lines_render:
  assumes "list_all no_break ls" "nl \<in> {[CHR 0x0A], [CHR 0x0D, CHR 0x0A]}"
  shows "raw_lines (concat (map (\<lambda>l. l @ nl) ls)) = ls"
proof -
  have "split_on (CHR 0x0A) (replace_crlf (concat (map (\<lambda>l. l @ nl) ls))) = ls @ [[]]"
    using assms(1) by (induction ls) (simp_all add: replace_crlf_line [OF _ assms(2)] split_on_line)
  then show ?thesis by (simp add: raw_lines_def drop_final_empty_def)
qed

lemma parse_lines_append:
  "parse_lines idx (xs @ ys) st = bind_res (parse_lines idx xs st) (parse_lines (idx + length xs) ys)"
proof (induction xs arbitrary: idx st)
  case (Cons x xs)
  then show ?case by (cases "parse_line idx x st") auto
qed simp

lemma parse_rendered_transactions:
  "list_all transaction_fits ts \<Longrightarrow> parse_lines idx (map render_transaction ts) st
    = Inr (st\<lparr>hs_transactions := hs_transactions st @ ts\<rparr>)"
proof (induction ts arbitrary: idx st)
  case (Cons t ts)
  then have t: "transaction_fits t" by simp
  have "parse_line idx (render_transaction t) st = push_tx st (parse_transaction (render_transaction t) idx)"
    by (rule parse_line_transaction)
      (simp_all only: tx_code render_transaction_length [OF t] rstrip_cr_id [OF no_break_transaction [OF t]])
  with Cons parse_rendered_transaction [OF t] show ?case by (simp add: push_tx_def)
qed simp

lemma parse_line_header:
  assumes "header_fits h" "hs_header st = None"
  shows "parse_line idx (render_header h) st = Inr (st\<lparr>hs_header := Some h\<rparr>)"
proof -
  have "take 5 (render_header h) = ''BFH01''" by (simp add: render_header_def)
  moreover have "render_header h \<noteq> []" by (simp add: render_header_def)
  ultimately show ?thesis
    using assms by (simp add: parse_line_def Let_def rstrip_cr_id no_break_header require_line_length_def
        LINE_LENGTH_def render_header_length parse_rendered_header)
qed

lemma parse_line_trailer:
  assumes "trailer_fits t" "hs_trailer st = None"
  shows "parse_line idx (render_trailer t) st = Inr (st\<lparr>hs_trailer := Some t\<rparr>)"
proof -
  have "take 5 (render_trailer t) = ''BFT99''" by (simp add: render_trailer_def)
  moreover have "render_trailer t \<noteq> []" by (simp add: render_trailer_def)
  ultimately show ?thesis
    using assms by (simp add: parse_line_def Let_def rstrip_cr_id no_break_trailer require_line_length_def
        LINE_LENGTH_def render_trailer_length parse_rendered_trailer)
qed

lemma parse_haf_rendered:
  assumes "haf_fits f" and "nl \<in> {[CHR 0x0A], [CHR 0x0D, CHR 0x0A]}"
    and "decode content = Some (render_haf nl f)"
  shows "parse_haf decode content (hf_source_ref f) = Inr f"
proof -
  have raw: "raw_lines (render_haf nl f) = render_lines f"
    unfolding render_haf_def by (rule raw_lines_render [OF no_break_lines [OF assms(1)] assms(2)])
  note fits = assms(1) [unfolded haf_fits_def]
  have "parse_lines 1 (render_lines f) empty_state
      = Inr \<lparr>hs_header = Some (hf_header f), hs_trailer = Some (hf_trailer f),
             hs_transactions = hf_transactions f\<rparr>"
    unfolding render_lines_def
    using fits by (simp add: parse_lines_append parse_line_header parse_line_trailer
        parse_rendered_transactions empty_state_def)
  then show ?thesis by (simp add: parse_haf_def assms(3) raw)
qed

text \<open>Claim C2. Round trip. Write any settlement file that fits the documented layout - header,
  transactions of the five kinds in any number and order, trailer, lines ended by a newline or by
  carriage return and newline - and parse it: the parser returns exactly that file, every text,
  date, signed amount and narration included.
\<close>

theorem haf_roundtrip:
  assumes "haf_fits f" and "nl \<in> {[CHR 0x0A], [CHR 0x0D, CHR 0x0A]}"
    and "decode content = Some (render_haf nl f)"
  shows "parse_haf decode content (hf_source_ref f) = Inr f"
  using assms by (rule parse_haf_rendered)

definition sample_header :: haf_header where
  "sample_header = \<lparr>hh_country = ''IN'', hh_bsp_currency = ''INR'', hh_agent_iata_code = ''14301234'',
     hh_period_start = Date 2024 3 1, hh_period_end = Date 2024 3 15, hh_file_sequence = ''0001''\<rparr>"

definition sample_haf :: haf_file where
  "sample_haf = \<lparr>
     hf_header = sample_header,
     hf_transactions = [
       BKS24 ''1761234567890'' ''EK'' (Date 2024 3 5) (amount_of_cents 5000000) (amount_of_cents 50000)
         (amount_of_cents 250050) (amount_of_cents 5200050) (Some ''DEL-DXB''),
       BKS39 ''1769999999999'' ''1761234567890'' ''EK'' (Date 2024 2 29) (amount_of_cents (- 1200000)) None],
     hf_trailer = \<lparr>ht_record_count = 4, ht_net_control_total = amount_of_cents 4000050\<rparr>,
     hf_source_ref = ''HAF_14301234_20240301_20240315''\<rparr>"

lemma sample_haf_fits: "haf_fits sample_haf"
proof -
  have "fits 14 ''1761234567890''" "fits 14 ''1769999999999''" "is_known_iata_airline ''EK''"
    "narration_fits 119 (Some ''DEL-DXB'')" "narration_fits 144 None" by code_simp+
  moreover have "date_ok (Date 2024 3 5)" "date_ok (Date 2024 2 29)" by code_simp+
  moreover have "header_fits sample_header" by code_simp
  ultimately show ?thesis by (simp add: haf_fits_def) (simp add: sample_haf_def trailer_fits_def)
qed

theorem haf_roundtrip_witness:
  "parse_haf Some (render_haf [CHR 0x0D, CHR 0x0A] sample_haf) (hf_source_ref sample_haf) = Inr sample_haf"
  by (rule haf_roundtrip [of sample_haf "[CHR 0x0D, CHR 0x0A]"]) (simp_all add: sample_haf_fits)

section \<open>What an accepted file guarantees\<close>

fun tx_record_code :: "haf_transaction \<Rightarrow> string" where
  "tx_record_code (BKS24 _ _ _ _ _ _ _ _) = ''BKS24''"
| "tx_record_code (BKS39 _ _ _ _ _ _) = ''BKS39''"
| "tx_record_code (BKS45 _ _ _ _ _ _) = ''BKS45''"
| "tx_record_code (BKS46 _ _ _ _ _) = ''BKS46''"
| "tx_record_code (BKS47 _ _ _ _ _) = ''BKS47''"

definition transaction_wf :: "haf_transaction \<Rightarrow> bool" where
  "transaction_wf t \<longleftrightarrow> is_known_iata_airline (bks_airline t) \<and> date_ok (bks_issue t) \<and> amount_fits (bks_net t)
     \<and> (case t of BKS24 n a d gross com tax net nar \<Rightarrow> amount_fits gross \<and> amount_fits com \<and> amount_fits tax
        | _ \<Rightarrow> True)"

definition is_tx_line :: "string \<Rightarrow> bool" where
  "is_tx_line l \<longleftrightarrow> take 5 l \<in> {''BKS24'', ''BKS39'', ''BKS45'', ''BKS46'', ''BKS47''}"

definition record_lines :: "string list \<Rightarrow> string list" where
  "record_lines ls = filter (\<lambda>l. l \<noteq> []) (map rstrip_cr ls)"

definition lines_with_code :: "string \<Rightarrow> string list \<Rightarrow> string list" where
  "lines_with_code code ls = filter (\<lambda>l. take 5 l = code) ls"

definition opt_count :: "'a option \<Rightarrow> nat" where
  "opt_count x = (if x = None then 0 else 1)"

lemma slice_amount_fits: "slice_amount line i lno f = Inr x \<Longrightarrow> amount_fits x"
  by (auto simp: slice_amount_def res_simps haf_slice_def split: if_splits dest!: parse_amount_fits)

lemma slice_date_ok: "slice_date line i lno f = Inr d \<Longrightarrow> date_ok d"
  by (auto simp: slice_date_def res_simps dest: parse_date_ok)

lemma slice_airline_known: "slice_airline line i lno = Inr a \<Longrightarrow> is_known_iata_airline a"
  by (auto simp: slice_airline_def res_simps dest: validate_airline_Inr)

lemmas slice_wf = slice_amount_fits slice_date_ok slice_airline_known

lemma parse_transaction_wf:
  assumes "parse_transaction line lno = Inr t" "is_tx_line line"
  shows "transaction_wf t \<and> tx_record_code t = take 5 line"
  using assms
  by (auto simp: parse_transaction_def Let_def is_tx_line_def parse_bks24_def parse_bks39_def
      parse_bks45_def parse_memo_def res_simps transaction_wf_def slice_wf split: if_splits)

lemma parse_line_effect:
  assumes "parse_line idx raw st = Inr st'"
  shows "list_all (\<lambda>l. length l = LINE_LENGTH) (record_lines [raw])
    \<and> opt_count (hs_header st') = opt_count (hs_header st) + length (lines_with_code ''BFH01'' (record_lines [raw]))
    \<and> opt_count (hs_trailer st') = opt_count (hs_trailer st) + length (lines_with_code ''BFT99'' (record_lines [raw]))
    \<and> (\<exists>ts. hs_transactions st' = hs_transactions st @ ts \<and> list_all transaction_wf ts
        \<and> map tx_record_code ts = map (take 5) (filter is_tx_line (record_lines [raw])))"
proof (cases "is_tx_line (rstrip_cr raw)")
  case True
  then have len: "rstrip_cr raw \<noteq> []" by (auto simp: is_tx_line_def)
  have l200: "length (rstrip_cr raw) = LINE_LENGTH"
    using assms len by (auto simp: parse_line_def Let_def res_simps require_line_length_def split: if_splits)
  then have "parse_line idx raw st = push_tx st (parse_transaction (rstrip_cr raw) idx)"
    using True by (intro parse_line_transaction) (auto simp: is_tx_line_def LINE_LENGTH_def)
  with assms obtain t where t: "parse_transaction (rstrip_cr raw) idx = Inr t"
    "st' = st\<lparr>hs_transactions := hs_transactions st @ [t]\<rparr>" by (auto simp: push_tx_def res_simps)
  have "take 5 (rstrip_cr raw) \<noteq> ''BFH01''" "take 5 (rstrip_cr raw) \<noteq> ''BFT99''"
    using True by (auto simp: is_tx_line_def)
  then show ?thesis
    using parse_transaction_wf [OF t(1) True] t(2) True len l200
    by (auto simp: record_lines_def lines_with_code_def intro!: exI [of _ "[t]"])
next
  case False
  then show ?thesis
    using assms
    by (auto simp: parse_line_def Let_def is_tx_line_def record_lines_def lines_with_code_def opt_count_def
        require_line_length_def res_simps split: if_splits)
qed

lemma record_lines_Cons: "record_lines (l # ls) = record_lines [l] @ record_lines ls"
  by (simp add: record_lines_def)

lemma lines_with_code_append: "lines_with_code c (xs @ ys) = lines_with_code c xs @ lines_with_code c ys"
  by (simp add: lines_with_code_def)

lemma parse_lines_effect:
  assumes "parse_lines idx ls st = Inr st'"
  shows "list_all (\<lambda>l. length l = LINE_LENGTH) (record_lines ls)
    \<and> opt_count (hs_header st') = opt_count (hs_header st) + length (lines_with_code ''BFH01'' (record_lines ls))
    \<and> opt_count (hs_trailer st') = opt_count (hs_trailer st) + length (lines_with_code ''BFT99'' (record_lines ls))
    \<and> (\<exists>ts. hs_transactions st' = hs_transactions st @ ts \<and> list_all transaction_wf ts
        \<and> map tx_record_code ts = map (take 5) (filter is_tx_line (record_lines ls)))"
  using assms
proof (induction ls arbitrary: idx st)
  case Nil
  then show ?case by (simp add: record_lines_def lines_with_code_def)
next
  case (Cons l ls)
  then obtain st1 where st1: "parse_line idx l st = Inr st1" "parse_lines (Suc idx) ls st1 = Inr st'"
    by (auto simp: res_simps)
  from parse_line_effect [OF st1(1)] obtain t1 where t1: "hs_transactions st1 = hs_transactions st @ t1"
    "list_all transaction_wf t1" "map tx_record_code t1 = map (take 5) (filter is_tx_line (record_lines [l]))" by blast
  from Cons.IH [OF st1(2)] obtain t2 where t2: "hs_transactions st' = hs_transactions st1 @ t2"
    "list_all transaction_wf t2" "map tx_record_code t2 = map (take 5) (filter is_tx_line (record_lines ls))" by blast
  have "\<exists>ts. hs_transactions st' = hs_transactions st @ ts \<and> list_all transaction_wf ts
      \<and> map tx_record_code ts = map (take 5) (filter is_tx_line (record_lines (l # ls)))"
    using t1 t2 by (intro exI [of _ "t1 @ t2"]) (simp add: record_lines_Cons [of l ls])
  with parse_line_effect [OF st1(1)] Cons.IH [OF st1(2)] show ?case
    by (simp add: record_lines_Cons [of l ls] lines_with_code_append)
qed

lemma parse_haf_effect:
  assumes "parse_haf decode content ref = Inr f"
  shows "\<exists>body. decode content = Some body
    \<and> list_all (\<lambda>l. length l = LINE_LENGTH) (record_lines (raw_lines body))
    \<and> length (lines_with_code ''BFH01'' (record_lines (raw_lines body))) = 1
    \<and> length (lines_with_code ''BFT99'' (record_lines (raw_lines body))) = 1
    \<and> map tx_record_code (hf_transactions f) = map (take 5) (filter is_tx_line (record_lines (raw_lines body)))
    \<and> list_all transaction_wf (hf_transactions f)"
proof -
  from assms obtain body where body: "decode content = Some body"
    by (cases "decode content") (auto simp: parse_haf_def)
  from assms obtain st where st: "parse_lines 1 (raw_lines body) empty_state = Inr st"
    by (cases "parse_lines 1 (raw_lines body) empty_state") (auto simp: parse_haf_def body)
  from assms have f: "hs_header st \<noteq> None" "hs_trailer st \<noteq> None" "hf_transactions f = hs_transactions st"
    by (auto simp: parse_haf_def body st [simplified] split: option.splits)
  show ?thesis
    using parse_lines_effect [OF st] body f by (auto simp: empty_state_def opt_count_def)
qed

lemma parsed_transactions_wf:
  "parse_haf decode content ref = Inr f \<Longrightarrow> list_all transaction_wf (hf_transactions f)"
  by (drule parse_haf_effect) blast

definition header_dates_ok :: "haf_header option \<Rightarrow> bool" where
  "header_dates_ok h = (case h of None \<Rightarrow> True | Some x \<Rightarrow> date_ok (hh_period_start x) \<and> date_ok (hh_period_end x))"

lemma parse_line_header_dates:
  "parse_line idx raw st = Inr st' \<Longrightarrow> header_dates_ok (hs_header st) \<Longrightarrow> header_dates_ok (hs_header st')"
  by (auto simp: parse_line_def Let_def res_simps push_tx_def parse_bfh01_def header_dates_ok_def slice_wf
      split: if_splits)

lemma parse_lines_header_dates:
  "parse_lines idx ls st = Inr st' \<Longrightarrow> header_dates_ok (hs_header st) \<Longrightarrow> header_dates_ok (hs_header st')"
  by (induction ls arbitrary: idx st) (auto simp: res_simps dest: parse_line_header_dates)

lemma parsed_header_dates:
  assumes "parse_haf decode content ref = Inr f"
  shows "date_ok (hh_period_start (hf_header f)) \<and> date_ok (hh_period_end (hf_header f))"
proof -
  from assms obtain body where body: "decode content = Some body"
    by (cases "decode content") (auto simp: parse_haf_def)
  from assms obtain st where st: "parse_lines 1 (raw_lines body) empty_state = Inr st"
    by (cases "parse_lines 1 (raw_lines body) empty_state") (auto simp: parse_haf_def body)
  have "header_dates_ok (hs_header st)"
    by (rule parse_lines_header_dates [OF st]) (simp add: header_dates_ok_def empty_state_def)
  with assms show ?thesis
    by (auto simp: parse_haf_def body st [simplified] header_dates_ok_def split: option.splits)
qed

text \<open>What acceptance means. If a file parses, its text decodes; every line that is not blank
  after removal of carriage returns has exactly 200 characters; exactly one of them is a header
  and exactly one a trailer; the transactions returned are those of the transaction lines, in
  order and of the kind their record code says; and each has a carrier of the allow-list, a real
  calendar date and amounts of whole hundredths below ten thousand million.
\<close>

theorem parse_haf_accepts:
  assumes "parse_haf decode content ref = Inr f"
  shows "\<exists>body. decode content = Some body
    \<and> list_all (\<lambda>l. length l = LINE_LENGTH) (record_lines (raw_lines body))
    \<and> length (lines_with_code ''BFH01'' (record_lines (raw_lines body))) = 1
    \<and> length (lines_with_code ''BFT99'' (record_lines (raw_lines body))) = 1
    \<and> map tx_record_code (hf_transactions f) = map (take 5) (filter is_tx_line (record_lines (raw_lines body)))
    \<and> list_all transaction_wf (hf_transactions f)"
  using assms by (rule parse_haf_effect)

theorem parse_haf_accepts_witness:
  "length (lines_with_code ''BFT99'' (record_lines (raw_lines (render_haf [CHR 0x0A] sample_haf)))) = 1"
proof -
  have "parse_haf Some (render_haf [CHR 0x0A] sample_haf) (hf_source_ref sample_haf) = Inr sample_haf"
    by (rule parse_haf_rendered [of _ "[CHR 0x0A]"]) (simp_all add: sample_haf_fits)
  from parse_haf_accepts [OF this] show ?thesis by auto
qed

end
