(* ===== verification/Bsp_Mapping.thy ===== *)
theory Bsp_Mapping
  imports Haf_Parser Tool_Runtime
begin

text \<open>
  From a parsed settlement file to a canonical report, and from a report and the agency's own
  tickets to a reconciliation: \<^verbatim>\<open>drivers/bsp_india/mapping.py\<close>. The clock readings that only
  fill \<^verbatim>\<open>created_at\<close> and \<^verbatim>\<open>updated_at\<close> are left out; the random identifier is the
  uuid4 integer it is made from.
\<close>

section \<open>Report\<close>

definition AMOUNT_TOLERANCE :: decimal where
  "AMOUNT_TOLERANCE = Dec 1 0"

definition CONFIDENCE_EXACT :: int where
  "CONFIDENCE_EXACT = 10000"

definition CONFIDENCE_DISCREPANCY :: int where
  "CONFIDENCE_DISCREPANCY = 8000"

definition CONFIDENCE_TENTATIVE :: int where
  "CONFIDENCE_TENTATIVE = 5000"

definition new_entity_id :: "uuid_int \<Rightarrow> string" where
  "new_entity_id w = uuid7_like w"

definition bsp_money :: "decimal \<Rightarrow> string \<Rightarrow> canon_error + money" where
  "bsp_money amount currency = money_of (A_decimal amount) (py_upper currency)"

definition normalised_ticket_key :: "string \<Rightarrow> string \<Rightarrow> string \<times> string" where
  "normalised_ticket_key ticket_number airline_code =
     (let digits = filter is_digit_char ticket_number;
          last10 = (if length digits \<ge> 10 then drop (length digits - 10) digits else digits)
      in (py_upper airline_code, last10))"

fun haf_transaction_kind :: "haf_transaction \<Rightarrow> bsp_transaction_kind" where
  "haf_transaction_kind (BKS24 _ _ _ _ _ _ _ _) = SALE"
| "haf_transaction_kind (BKS39 _ _ _ _ _ _) = REFUND"
| "haf_transaction_kind (BKS45 _ _ _ _ _ _) = EXCHANGE"
| "haf_transaction_kind (BKS46 _ _ _ _ _) = ADM"
| "haf_transaction_kind (BKS47 _ _ _ _ _) = ACM"

definition haf_transaction_document_number :: "haf_transaction \<Rightarrow> string" where
  "haf_transaction_document_number r = bks_number r"

definition haf_transaction_net :: "haf_transaction \<Rightarrow> decimal" where
  "haf_transaction_net r = bks_net r"

text \<open>The gross amount and the commission, which only a sale carries.\<close>

definition haf_gross :: "haf_transaction \<Rightarrow> decimal" where
  "haf_gross r = (case r of BKS24 n a d gross com tax net nar \<Rightarrow> gross | _ \<Rightarrow> haf_transaction_net r)"

definition haf_commission :: "haf_transaction \<Rightarrow> string \<Rightarrow> canon_error + money option" where
  "haf_commission r currency = (case r of
     BKS24 n a d gross com tax net nar \<Rightarrow>
       if \<not> dec_is_zero com then bind_res (bsp_money com currency) (\<lambda>m. Inr (Some m)) else Inr None
   | _ \<Rightarrow> Inr None)"

definition haf_record_to_bsp_transaction :: "string \<Rightarrow> haf_transaction \<Rightarrow> canon_error + bsp_transaction" where
  "haf_record_to_bsp_transaction currency r =
     bind_res (haf_commission r currency) (\<lambda>commission.
     bind_res (bsp_money (haf_gross r) currency) (\<lambda>gross.
     bind_res (bsp_money (haf_transaction_net r) currency) (\<lambda>net.
       bsp_transaction_of \<lparr>bt_kind = haf_transaction_kind r,
         bt_document_number = haf_transaction_document_number r, bt_issue_date = bks_issue r,
         bt_airline = py_upper (bks_airline r), bt_gross = gross, bt_commission = commission,
         bt_taxes = [], bt_net = net\<rparr>)))"

text \<open>Adding a day to the last representable date overflows.\<close>

definition period_from_header :: "haf_header \<Rightarrow> canon_error + period" where
  "period_from_header h =
     (let start = utc_midnight (hh_period_start h);
          stop = utc_midnight (hh_period_end h) + DAY_US
      in if stop > DATETIME_MAX then Inl Overflow_error
         else period_of (Aware start 0) (Some (Aware stop 0)))"

record haf_totals =
  tot_sales :: decimal
  tot_refund :: decimal
  tot_commission :: decimal
  tot_net :: decimal

fun sum_totals :: "haf_totals \<Rightarrow> (haf_transaction \<times> bsp_transaction) list \<Rightarrow> haf_totals" where
  "sum_totals t [] = t"
| "sum_totals t ((r, c) # rest) =
     (let t1 = t\<lparr>tot_net := dec_add (tot_net t) (m_amount (bt_net c))\<rparr>
      in sum_totals (case r of
           BKS24 n a d gross com tax net nar \<Rightarrow>
             t1\<lparr>tot_sales := dec_add (tot_sales t1) gross, tot_commission := dec_add (tot_commission t1) com\<rparr>
         | BKS39 n p a d net nar \<Rightarrow> t1\<lparr>tot_refund := dec_add (tot_refund t1) net\<rparr>
         | BKS45 n p a d net nar \<Rightarrow> t1\<lparr>tot_refund := dec_add (tot_refund t1) net\<rparr>
         | _ \<Rightarrow> t1) rest)"

definition zero_totals :: haf_totals where
  "zero_totals = \<lparr>tot_sales = dec_of_int 0, tot_refund = dec_of_int 0, tot_commission = dec_of_int 0,
     tot_net = dec_of_int 0\<rparr>"

definition haf_file_to_bsp_report :: "uuid_int \<Rightarrow> haf_file \<Rightarrow> string \<Rightarrow> canon_error + bsp_report" where
  "haf_file_to_bsp_report w haf tenant_id =
     (let currency = py_upper (hh_bsp_currency (hf_header haf));
          country = py_upper (hh_country (hf_header haf))
      in bind_res (map_res (haf_record_to_bsp_transaction currency) (hf_transactions haf)) (\<lambda>txs.
         let t = sum_totals zero_totals (zip (hf_transactions haf) txs)
         in bind_res (period_from_header (hf_header haf)) (\<lambda>per.
            bind_res (bsp_money (tot_sales t) currency) (\<lambda>sales.
            bind_res (bsp_money (tot_refund t) currency) (\<lambda>refund.
            bind_res (bsp_money (tot_commission t) currency) (\<lambda>commission.
            bind_res (bsp_money (tot_net t) currency) (\<lambda>net.
              bsp_report_of \<lparr>br_id = new_entity_id w, br_tenant_id = tenant_id, br_country = country,
                br_period = per, br_airline = None, br_sales_total = sales, br_refund_total = refund,
                br_commission_total = commission, br_net_remittance = net, br_transactions = txs,
                br_source_ref = hf_source_ref haf\<rparr>)))))))"

section \<open>Reconciliation\<close>

fun index_tickets :: "(string \<times> string, ticket) dict \<Rightarrow> ticket list \<Rightarrow> (string \<times> string, ticket) dict" where
  "index_tickets idx [] = idx"
| "index_tickets idx (t # ts) =
     (let key = normalised_ticket_key (tk_number t) (tk_issuing_airline t)
      in if map_of idx key \<noteq> None then index_tickets idx ts
         else index_tickets (AList.update key t idx) ts)"

definition ticket_index :: "ticket list \<Rightarrow> (string \<times> string, ticket) dict" where
  "ticket_index ts = index_tickets [] ts"

definition amount_within_tolerance :: "decimal \<Rightarrow> decimal \<Rightarrow> bool" where
  "amount_within_tolerance a b = dec_le (dec_copy_abs (dec_sub a b)) AMOUNT_TOLERANCE"

record rec_state =
  rst_items :: "reconciliation_item list"
  rst_matched_keys :: "(string \<times> string) list"
  rst_matched :: int
  rst_unmatched_external :: int
  rst_discrepancy :: int
  rst_tentative :: int
  rst_amount :: decimal
  rst_currency :: "string option"

definition rec_start :: rec_state where
  "rec_start = \<lparr>rst_items = [], rst_matched_keys = [], rst_matched = 0, rst_unmatched_external = 0,
     rst_discrepancy = 0, rst_tentative = 0, rst_amount = dec_of_int 0, rst_currency = None\<rparr>"

definition external_item :: "bsp_transaction \<Rightarrow> reconciliation_item" where
  "external_item tx = \<lparr>ri_outcome = UNMATCHED_EXTERNAL, ri_confidence_bps = CONFIDENCE_EXACT,
     ri_external_ref = Some (py_strip (bt_document_number tx)), ri_external_amount = Some (bt_net tx),
     ri_external_date = Some (bt_issue_date tx), ri_internal_refs = [], ri_internal_amount = None,
     ri_delta = None, ri_evidence = None, ri_suggested_action = None\<rparr>"

definition not_matched_item :: "bsp_transaction \<Rightarrow> string \<Rightarrow> string \<Rightarrow> reconciliation_item" where
  "not_matched_item tx evidence action = (external_item tx)
     \<lparr>ri_evidence := Some (localized evidence), ri_suggested_action := Some (localized action)\<rparr>"

definition paired_item :: "bsp_transaction \<Rightarrow> ticket \<Rightarrow> reconciliation_outcome \<Rightarrow> int \<Rightarrow> money option
    \<Rightarrow> localized_text option \<Rightarrow> localized_text option \<Rightarrow> reconciliation_item" where
  "paired_item tx t oc conf delta evidence action = (external_item tx)
     \<lparr>ri_outcome := oc, ri_confidence_bps := conf, ri_internal_refs := [tk_id t],
      ri_internal_amount := Some (tk_total_amount t), ri_delta := delta, ri_evidence := evidence,
      ri_suggested_action := action\<rparr>"

definition count_external :: "rec_state \<Rightarrow> reconciliation_item \<Rightarrow> rec_state" where
  "count_external st item = st\<lparr>rst_items := rst_items st @ [item],
     rst_unmatched_external := rst_unmatched_external st + 1\<rparr>"

text \<open>One statement row against the index: the body of the loop.\<close>

definition reconcile_row :: "(string \<times> string, ticket) dict \<Rightarrow> bsp_transaction \<Rightarrow> rec_state \<Rightarrow> canon_error + rec_state" where
  "reconcile_row idx tx st =
     (if bt_kind tx \<noteq> SALE then
        Inr (count_external st (not_matched_item tx
          (kind_value (bt_kind tx) @ '' rows are not auto-matched in v0; accountant review required.'')
          ''Review manually against internal refund/ADM workflow.''))
      else let key = normalised_ticket_key (bt_document_number tx) (bt_airline tx)
      in case map_of idx key of
        None \<Rightarrow> Inr (count_external st (not_matched_item tx
          ''BSP billed a ticket with no matching Voyagent record.''
          ''Confirm whether this was an off-platform sale, then create an internal ticket.''))
      | Some t \<Rightarrow>
        (let st1 = st\<lparr>rst_matched_keys := List.insert key (rst_matched_keys st)\<rparr>;
             itot = tk_total_amount t; etot = bt_net tx
         in if m_currency itot \<noteq> m_currency etot then
              Inr (st1\<lparr>rst_items := rst_items st1 @ [paired_item tx t TENTATIVE CONFIDENCE_TENTATIVE None
                     (Some (localized (''Currency mismatch: BSP '' @ m_currency etot @ '' vs internal ''
                        @ m_currency itot @ ''.'')))
                     (Some (localized ''Resolve FX posture before accepting this match.''))],
                   rst_tentative := rst_tentative st1 + 1\<rparr>)
            else if amount_within_tolerance (m_amount itot) (m_amount etot) then
              (let cur = (case rst_currency st1 of None \<Rightarrow> m_currency etot | Some c \<Rightarrow> c)
               in bind_res (money_of (A_decimal (dec_of_int 0)) (m_currency etot)) (\<lambda>zero.
                  Inr (st1\<lparr>rst_matched := rst_matched st1 + 1, rst_currency := Some cur,
                    rst_amount := (if cur = m_currency etot then dec_add (rst_amount st1) (m_amount etot)
                                   else rst_amount st1),
                    rst_items := rst_items st1 @ [paired_item tx t MATCHED CONFIDENCE_EXACT (Some zero) None None]\<rparr>)))
            else
              (let delta = dec_sub (m_amount etot) (m_amount itot)
               in bind_res (money_of (A_decimal delta) (m_currency etot)) (\<lambda>d.
                  Inr (st1\<lparr>rst_discrepancy := rst_discrepancy st1 + 1,
                    rst_items := rst_items st1 @ [paired_item tx t DISCREPANCY CONFIDENCE_DISCREPANCY (Some d)
                      (Some (localized (''Amounts differ by '' @ dec_str delta @ '' '' @ m_currency etot @ ''.'')))
                      (Some (localized ''Reconcile the fare/tax breakdown; raise ADM/ACM if appropriate.''))]\<rparr>)))))"

fun reconcile_rows :: "(string \<times> string, ticket) dict \<Rightarrow> bsp_transaction list \<Rightarrow> rec_state \<Rightarrow> canon_error + rec_state" where
  "reconcile_rows idx [] st = Inr st"
| "reconcile_rows idx (tx # txs) st = bind_res (reconcile_row idx tx st) (reconcile_rows idx txs)"

definition internal_item :: "ticket \<Rightarrow> reconciliation_item" where
  "internal_item t = \<lparr>ri_outcome = UNMATCHED_INTERNAL, ri_confidence_bps = CONFIDENCE_EXACT,
     ri_external_ref = None, ri_external_amount = None, ri_external_date = None,
     ri_internal_refs = [tk_id t], ri_internal_amount = Some (tk_total_amount t), ri_delta = None,
     ri_evidence = Some (localized ''Voyagent ticket not present in this BSP statement.''),
     ri_suggested_action =
       Some (localized ''Check whether BSP will bill it in the next cycle; if not, investigate.'')\<rparr>"

definition unbilled_tickets :: "(string \<times> string, ticket) dict \<Rightarrow> (string \<times> string) list \<Rightarrow> ticket list" where
  "unbilled_tickets idx keys = map snd (filter (\<lambda>(k, t). k \<notin> set keys) idx)"

definition reconcile_bsp_against_tickets :: "uuid_int \<Rightarrow> bsp_report \<Rightarrow> ticket list \<Rightarrow> canon_error + reconciliation" where
  "reconcile_bsp_against_tickets w report tickets =
     (let idx = ticket_index tickets
      in bind_res (reconcile_rows idx (br_transactions report) rec_start) (\<lambda>st.
         let rest = unbilled_tickets idx (rst_matched_keys st)
         in bind_res (case rst_currency st of None \<Rightarrow> Inr None
              | Some c \<Rightarrow> bind_res (money_of (A_decimal (rst_amount st)) c) (\<lambda>m. Inr (Some m))) (\<lambda>amt.
            bind_res (entity_id_of ''id'' (new_entity_id w)) (\<lambda>ident.
            bind_res (entity_id_of ''tenant_id'' (br_tenant_id report)) (\<lambda>ten.
              Inr \<lparr>rc_id = ident, rc_tenant_id = ten, rc_scope = Scope_bsp, rc_source = ''bsp_india'',
                rc_period = br_period report, rc_items = rst_items st @ map internal_item rest,
                rc_summary = \<lparr>rs_matched_count = rst_matched st, rs_matched_amount = amt,
                  rs_unmatched_external_count = rst_unmatched_external st,
                  rs_unmatched_internal_count = int (length rest),
                  rs_discrepancy_count = rst_discrepancy st,
                  rs_tentative_count = rst_tentative st\<rparr>\<rparr>)))))"

section \<open>Totals\<close>

definition is_sale :: "haf_transaction \<Rightarrow> bool" where
  "is_sale r \<longleftrightarrow> haf_transaction_kind r = SALE"

definition is_refund_or_exchange :: "haf_transaction \<Rightarrow> bool" where
  "is_refund_or_exchange r \<longleftrightarrow> haf_transaction_kind r \<in> {REFUND, EXCHANGE}"

definition row_of :: "string \<Rightarrow> haf_transaction \<Rightarrow> bsp_transaction \<Rightarrow> bool" where
  "row_of currency r c \<longleftrightarrow> bt_kind c = haf_transaction_kind r \<and> bt_issue_date c = bks_issue r
     \<and> bt_document_number c = py_strip (bks_number r) \<and> bt_net c = \<lparr>m_amount = bks_net r, m_currency = currency\<rparr>
     \<and> bt_gross c = \<lparr>m_amount = haf_gross r, m_currency = currency\<rparr>
     \<and> bt_commission c = (if is_sale r \<and> dval (bks_commission r) \<noteq> 0
          then Some \<lparr>m_amount = bks_commission r, m_currency = currency\<rparr> else None)"

lemma bsp_money_Inr:
  "bsp_money d cur = Inr m \<longleftrightarrow> currency_code_ok (py_strip (py_upper cur))
    \<and> m = \<lparr>m_amount = d, m_currency = py_strip (py_upper cur)\<rparr>"
  by (auto simp: bsp_money_def money_of_def res_simps canon_simps)

lemma record_to_row:
  "haf_record_to_bsp_transaction cur r = Inr c \<Longrightarrow> row_of (py_strip (py_upper cur)) r c"
  by (cases r) (auto simp: haf_record_to_bsp_transaction_def res_simps bsp_money_Inr bsp_transaction_of_def
      canon_simps row_of_def haf_transaction_document_number_def haf_transaction_net_def is_sale_def
      haf_commission_def dec_is_zero_def split: if_splits)

lemma zero_totals_fields [simp]: "tot_sales zero_totals = dec_of_int 0" "tot_refund zero_totals = dec_of_int 0"
  "tot_commission zero_totals = dec_of_int 0" "tot_net zero_totals = dec_of_int 0"
  by (simp_all add: zero_totals_def)

lemma sum_totals_sums:
  assumes "list_all2 (row_of cur) rs txs"
  shows "sum_totals t (zip rs txs) = \<lparr>tot_sales = dec_sum (tot_sales t) (map bks_gross (filter is_sale rs)),
    tot_refund = dec_sum (tot_refund t) (map bks_net (filter is_refund_or_exchange rs)),
    tot_commission = dec_sum (tot_commission t) (map bks_commission (filter is_sale rs)),
    tot_net = dec_sum (tot_net t) (map bks_net rs)\<rparr>"
  using assms
proof (induction rs txs arbitrary: t rule: list_all2_induct)
  case (Cons r rs c txs)
  have net: "m_amount (bt_net c) = bks_net r" using Cons.hyps(1) by (simp add: row_of_def)
  show ?case
    using Cons.IH by (cases r) (simp_all add: net is_sale_def is_refund_or_exchange_def Let_def)
qed simp

lemma amounts_sum_exact:
  assumes "list_all amount_fits xs" "length xs \<le> 10 ^ 15"
  shows "dval (dec_sum (dec_of_int 0) xs) = (\<Sum>x\<leftarrow>xs. dval x)"
proof -
  have "(\<Sum>x\<leftarrow>xs. \<bar>dval x\<bar>) * 100 \<le> of_nat (length xs) * 10 ^ 12"
    using assms(1) by (induction xs) (auto simp: algebra_simps dest!: amount_fits_value(3))
  also have "\<dots> \<le> (10 ^ 15) * 10 ^ 12"
  proof (rule mult_right_mono)
    have "(of_nat (length xs) :: rat) \<le> of_nat (10 ^ 15)" using assms(2) by (simp only: of_nat_le_iff)
    then show "(of_nat (length xs) :: rat) \<le> 10 ^ 15" by simp
  qed simp
  also have "\<dots> < (10 ^ 28 :: rat)" by simp
  finally have "(\<bar>dval (dec_of_int 0)\<bar> + (\<Sum>x\<leftarrow>xs. \<bar>dval x\<bar>)) * 10 ^ 2 < 10 ^ 28" by simp
  moreover have "list_all (dec_scaled 2) xs" using assms(1) by (auto simp: list_all_iff dest: amount_fits_value(2))
  ultimately show ?thesis using dec_sum_exact [of 2 "dec_of_int 0" xs] by simp
qed

lemma wf_amounts:
  assumes "list_all transaction_wf rs"
  shows "list_all amount_fits (map bks_net rs)" "list_all amount_fits (map bks_gross (filter is_sale rs))"
    "list_all amount_fits (map bks_commission (filter is_sale rs))"
    "list_all amount_fits (map bks_net (filter is_refund_or_exchange rs))"
  using assms
  by (auto simp: list_all_iff transaction_wf_def is_sale_def elim!: haf_transaction_kind.elims)

lemma report_parts:
  assumes "haf_file_to_bsp_report w haf tenant = Inr r"
  defines "cur \<equiv> py_strip (py_upper (py_upper (hh_bsp_currency (hf_header haf))))"
  shows "list_all2 (row_of cur) (hf_transactions haf) (br_transactions r)"
    and "br_net_remittance r = \<lparr>m_amount = dec_sum (dec_of_int 0) (map bks_net (hf_transactions haf)), m_currency = cur\<rparr>"
    and "br_sales_total r = \<lparr>m_amount = dec_sum (dec_of_int 0) (map bks_gross (filter is_sale (hf_transactions haf))), m_currency = cur\<rparr>"
    and "br_commission_total r = \<lparr>m_amount = dec_sum (dec_of_int 0) (map bks_commission (filter is_sale (hf_transactions haf))), m_currency = cur\<rparr>"
    and "br_refund_total r = \<lparr>m_amount = dec_sum (dec_of_int 0) (map bks_net (filter is_refund_or_exchange (hf_transactions haf))), m_currency = cur\<rparr>"
    and "period_from_header (hf_header haf) = Inr (br_period r)"
proof -
  from assms(1) obtain txs where txs:
      "map_res (haf_record_to_bsp_transaction (py_upper (hh_bsp_currency (hf_header haf)))) (hf_transactions haf) = Inr txs"
    by (auto simp: haf_file_to_bsp_report_def Let_def res_simps)
  have rows: "list_all2 (row_of cur) (hf_transactions haf) txs"
    using txs unfolding map_res_Inr_conv cur_def by (rule list_all2_mono) (rule record_to_row)
  note sums = sum_totals_sums [OF rows, of zero_totals]
  have "br_transactions r = txs \<and>
    br_net_remittance r = \<lparr>m_amount = tot_net (sum_totals zero_totals (zip (hf_transactions haf) txs)), m_currency = cur\<rparr> \<and>
    br_sales_total r = \<lparr>m_amount = tot_sales (sum_totals zero_totals (zip (hf_transactions haf) txs)), m_currency = cur\<rparr> \<and>
    br_commission_total r = \<lparr>m_amount = tot_commission (sum_totals zero_totals (zip (hf_transactions haf) txs)), m_currency = cur\<rparr> \<and>
    br_refund_total r = \<lparr>m_amount = tot_refund (sum_totals zero_totals (zip (hf_transactions haf) txs)), m_currency = cur\<rparr> \<and>
    period_from_header (hf_header haf) = Inr (br_period r)"
    using assms(1) txs
    by (auto simp: haf_file_to_bsp_report_def Let_def res_simps bsp_money_Inr bsp_report_of_def cur_def)
  with rows show "list_all2 (row_of cur) (hf_transactions haf) (br_transactions r)"
    and "br_net_remittance r = \<lparr>m_amount = dec_sum (dec_of_int 0) (map bks_net (hf_transactions haf)), m_currency = cur\<rparr>"
    and "br_sales_total r = \<lparr>m_amount = dec_sum (dec_of_int 0) (map bks_gross (filter is_sale (hf_transactions haf))), m_currency = cur\<rparr>"
    and "br_commission_total r = \<lparr>m_amount = dec_sum (dec_of_int 0) (map bks_commission (filter is_sale (hf_transactions haf))), m_currency = cur\<rparr>"
    and "br_refund_total r = \<lparr>m_amount = dec_sum (dec_of_int 0) (map bks_net (filter is_refund_or_exchange (hf_transactions haf))), m_currency = cur\<rparr>"
    and "period_from_header (hf_header haf) = Inr (br_period r)"
    by (auto simp: sums)
qed

text \<open>The totals of a report. Parse a settlement file and map it to a report: row for row the
  report has the file's transactions (kind, document, date, gross, commission where non-zero, net),
  and its four totals are the exact sums - of all nets, of the gross fares and of the commissions
  of the sales, of the nets of refunds and exchanges - for files of up to a million million
  thousand transactions; nothing is lost to decimal rounding.
\<close>

theorem bsp_report_totals_exact:
  assumes "parse_haf decode content ref = Inr haf" "haf_file_to_bsp_report w haf tenant = Inr r"
    and "length (hf_transactions haf) \<le> 10 ^ 15"
  shows "list_all2 (row_of (m_currency (br_net_remittance r))) (hf_transactions haf) (br_transactions r)
    \<and> dval (m_amount (br_net_remittance r)) = (\<Sum>t\<leftarrow>hf_transactions haf. dval (bks_net t))
    \<and> dval (m_amount (br_sales_total r)) = (\<Sum>t\<leftarrow>filter is_sale (hf_transactions haf). dval (bks_gross t))
    \<and> dval (m_amount (br_commission_total r)) = (\<Sum>t\<leftarrow>filter is_sale (hf_transactions haf). dval (bks_commission t))
    \<and> dval (m_amount (br_refund_total r)) = (\<Sum>t\<leftarrow>filter is_refund_or_exchange (hf_transactions haf). dval (bks_net t))"
proof -
  have wf: "list_all transaction_wf (hf_transactions haf)" by (rule parsed_transactions_wf [OF assms(1)])
  have len: "length (filter P (hf_transactions haf)) \<le> 10 ^ 15" for P
    using assms(3) length_filter_le [of P "hf_transactions haf"] by linarith
  note exact = wf_amounts [OF wf, THEN amounts_sum_exact]
  show ?thesis
    using report_parts [OF assms(2)] exact assms(3) len by (simp add: comp_def)
qed

lemma day_scale: "(a :: int) * DAY_US - 1 < b * DAY_US \<longleftrightarrow> a \<le> b"
proof -
  have "a * DAY_US - 1 < b * DAY_US \<longleftrightarrow> a * DAY_US \<le> b * DAY_US" by linarith
  also have "\<dots> \<longleftrightarrow> a \<le> b" by (simp add: DAY_US_def)
  finally show ?thesis .
qed

lemma midnight_overflow:
  assumes "date_ok d"
  shows "utc_midnight d + DAY_US > DATETIME_MAX \<longleftrightarrow> d = Date 9999 12 31"
proof -
  have mx: "date_ok (Date 9999 12 31)" by (simp add: date_ok_def days_in_month_def)
  have "utc_midnight d + DAY_US > DATETIME_MAX
      \<longleftrightarrow> (to_ordinal (Date 9999 12 31) - EPOCH_ORDINAL + 1) * DAY_US - 1 < (to_ordinal d - EPOCH_ORDINAL + 1) * DAY_US"
    by (simp add: utc_midnight_def DATETIME_MAX_def algebra_simps)
  also have "\<dots> \<longleftrightarrow> to_ordinal (Date 9999 12 31) \<le> to_ordinal d"
    using day_scale by simp
  also have "\<dots> \<longleftrightarrow> \<not> date_less d (Date 9999 12 31)" using to_ordinal_less_iff [OF assms mx] by linarith
  also have "\<dots> \<longleftrightarrow> d = Date 9999 12 31"
    using assms date_trichotomy [of d "Date 9999 12 31"] date_ok_ordinal_max [OF assms] to_ordinal_less_iff [OF mx assms]
    by (auto simp: date_less_def)
  finally show ?thesis .
qed

lemma period_from_header_Inr:
  assumes "date_ok (hh_period_start h)" "date_ok (hh_period_end h)"
  shows "period_from_header h = Inr p \<longleftrightarrow> hh_period_end h \<noteq> Date 9999 12 31
    \<and> \<not> date_less (hh_period_end h) (hh_period_start h)
    \<and> p = \<lparr>p_start = utc_midnight (hh_period_start h), p_end = Some (utc_midnight (hh_period_end h) + DAY_US)\<rparr>"
  using midnight_overflow [OF assms(2)] utc_midnight_le_iff [OF assms]
  by (auto simp: period_from_header_def Let_def period_of_def opt_res_def res_simps not_less)

lemma record_accepts:
  assumes "transaction_wf r" "currency_code_ok (py_strip (py_upper cur))"
  shows "\<exists>c. haf_record_to_bsp_transaction cur r = Inr c"
proof -
  have a: "length (bks_airline r) = 2" "list_all (\<lambda>c. is_upper_char c \<or> is_decimal_char c) (bks_airline r)"
    "py_strip (bks_airline r) = bks_airline r"
    using assms(1) known_airline_length known_airline_strip by (auto simp: transaction_wf_def)
  then have "constrained iata_code_ok f (py_upper (bks_airline r)) = Inr (bks_airline r)" for f
    by (simp add: constrained_def py_upper_id iata_code_ok_def)
  moreover have "\<exists>m. haf_commission r cur = Inr m"
    using assms(2) by (cases r) (auto simp: haf_commission_def res_simps bsp_money_Inr)
  ultimately show ?thesis
    using assms(2) by (auto simp: haf_record_to_bsp_transaction_def res_simps bsp_money_Inr bsp_transaction_of_def)
qed

lemma map_res_accepts: "(\<forall>x \<in> set xs. \<exists>y. f x = Inr y) \<Longrightarrow> \<exists>ys. map_res f xs = Inr ys"
  by (induction xs) (auto simp: res_simps)

lemma report_accepts_iff:
  assumes "parse_haf decode content ref = Inr haf" "is_uuid4_int w" "entity_id_ok (py_strip tenant)"
  defines "h \<equiv> hf_header haf"
  shows "if currency_code_ok (py_strip (py_upper (py_upper (hh_bsp_currency h))))
      \<and> country_code_ok (py_strip (py_upper (hh_country h)))
      \<and> \<not> date_less (hh_period_end h) (hh_period_start h) \<and> hh_period_end h \<noteq> Date 9999 12 31
    then \<exists>r. haf_file_to_bsp_report w haf tenant = Inr r
      \<and> br_period r = \<lparr>p_start = utc_midnight (hh_period_start h), p_end = Some (utc_midnight (hh_period_end h) + DAY_US)\<rparr>
    else \<exists>e. haf_file_to_bsp_report w haf tenant = Inl e"
proof -
  let ?cur = "py_upper (hh_bsp_currency h)"
  note dates = parsed_header_dates [OF assms(1), folded h_def]
  note per = period_from_header_Inr [OF dates [THEN conjunct1] dates [THEN conjunct2]]
  have ids: "entity_id_of f (new_entity_id w) = Inr (new_entity_id w)" "\<exists>t. entity_id_of f tenant = Inr t" for f
    using uuid7_like_ok [OF assms(2)] assms(3) entity_id_strip
    by (auto simp: entity_id_of_def constrained_def new_entity_id_def)
  have txs: "\<exists>ts. map_res (haf_record_to_bsp_transaction ?cur) (hf_transactions haf) = Inr ts"
    if "currency_code_ok (py_strip (py_upper ?cur))"
    using that parsed_transactions_wf [OF assms(1)]
    by (intro map_res_accepts) (auto simp: list_all_iff record_accepts)
  have accept: "\<exists>r. haf_file_to_bsp_report w haf tenant = Inr r"
    if c: "currency_code_ok (py_strip (py_upper ?cur))" "country_code_ok (py_strip (py_upper (hh_country h)))"
      "\<not> date_less (hh_period_end h) (hh_period_start h)" "hh_period_end h \<noteq> Date 9999 12 31"
  proof -
    obtain ts where ts: "map_res (haf_record_to_bsp_transaction ?cur) (hf_transactions haf) = Inr ts"
      using txs [OF c(1)] by blast
    obtain ten where ten: "entity_id_of ''tenant_id'' tenant = Inr ten" using ids(2) by blast
    have p: "\<exists>p. period_from_header h = Inr p" using per c by blast
    have m: "bsp_money d ?cur = Inr \<lparr>m_amount = d, m_currency = py_strip (py_upper ?cur)\<rparr>" for d
      using c(1) by (simp add: bsp_money_Inr)
    have "constrained country_code_ok f (py_upper (hh_country h)) = Inr (py_strip (py_upper (hh_country h)))" for f
      using c(2) by (simp add: constrained_def)
    then show ?thesis
      using p by (auto simp: haf_file_to_bsp_report_def Let_def h_def [symmetric] ts m bsp_report_of_def
          ids(1) ten opt_res_def)
  qed
  show ?thesis
  proof (cases "haf_file_to_bsp_report w haf tenant")
    case (Inl e)
    then have "\<not> (currency_code_ok (py_strip (py_upper ?cur)) \<and> country_code_ok (py_strip (py_upper (hh_country h)))
        \<and> \<not> date_less (hh_period_end h) (hh_period_start h) \<and> hh_period_end h \<noteq> Date 9999 12 31)"
      using accept by auto
    with Inl show ?thesis by auto
  next
    case (Inr r)
    then show ?thesis
      using per report_parts(6) [OF Inr]
      by (auto simp: haf_file_to_bsp_report_def Let_def h_def [symmetric] res_simps bsp_money_Inr
          bsp_report_of_def canon_simps)
  qed
qed

text \<open>When a parsed file becomes a report. With a well-formed tenant identifier and a
  version-4 uuid, mapping a parsed file succeeds exactly when the upper-cased currency and country
  of its header are three and two capital letters, its period does not end before it starts, and
  the period does not end on the last day of the year 9999. The report's period is half open, from
  the midnight that starts the first day to the midnight that ends the last.
\<close>

theorem bsp_report_accepts:
  assumes "parse_haf decode content ref = Inr haf" "is_uuid4_int w" "entity_id_ok (py_strip tenant)"
  defines "h \<equiv> hf_header haf"
  shows "if currency_code_ok (py_strip (py_upper (py_upper (hh_bsp_currency h))))
      \<and> country_code_ok (py_strip (py_upper (hh_country h)))
      \<and> \<not> date_less (hh_period_end h) (hh_period_start h) \<and> hh_period_end h \<noteq> Date 9999 12 31
    then \<exists>r. haf_file_to_bsp_report w haf tenant = Inr r
      \<and> br_period r = \<lparr>p_start = utc_midnight (hh_period_start h), p_end = Some (utc_midnight (hh_period_end h) + DAY_US)\<rparr>
    else \<exists>e. haf_file_to_bsp_report w haf tenant = Inl e"
  unfolding h_def using assms(1-3) by (rule report_accepts_iff)

definition sample_uuid :: uuid_int where
  "sample_uuid = push_bit 78 1 OR push_bit 63 1"

lemma sample_uuid4: "is_uuid4_int sample_uuid"
  by (simp only: sample_uuid_def is_uuid4_int_def nibble_bits4 bit_or_iff bit_push_bit_iff bit_1_iff) simp

definition sample_tenant :: string where
  "sample_tenant = ''01890a5d-ac96-774b-bcce-b302099a8057''"

lemma sample_parse: "parse_haf Some (render_haf [CHR 0x0A] sample_haf) (hf_source_ref sample_haf) = Inr sample_haf"
  by (rule parse_haf_rendered [of _ "[CHR 0x0A]"]) (simp_all add: sample_haf_fits)

lemma sample_header_ok:
  "currency_code_ok (py_strip (py_upper (py_upper (hh_bsp_currency sample_header))))"
  "country_code_ok (py_strip (py_upper (hh_country sample_header)))"
  "\<not> date_less (hh_period_end sample_header) (hh_period_start sample_header)"
  "hh_period_end sample_header \<noteq> Date 9999 12 31"
  by code_simp+

lemma sample_haf_header [simp]: "hf_header sample_haf = sample_header"
  by (simp add: sample_haf_def)

lemma sample_tenant_ok: "entity_id_ok (py_strip sample_tenant)"
  by code_simp

theorem bsp_report_accepts_witness:
  "\<exists>r. haf_file_to_bsp_report sample_uuid sample_haf sample_tenant = Inr r
    \<and> br_period r = \<lparr>p_start = utc_midnight (Date 2024 3 1), p_end = Some (utc_midnight (Date 2024 3 15) + DAY_US)\<rparr>"
  using bsp_report_accepts [OF sample_parse sample_uuid4 sample_tenant_ok] sample_header_ok
  by (auto simp: sample_header_def)

lemma sample_report: "\<exists>r. haf_file_to_bsp_report sample_uuid sample_haf sample_tenant = Inr r"
  using report_accepts_iff [OF sample_parse sample_uuid4 sample_tenant_ok] sample_header_ok by auto

theorem bsp_report_totals_exact_witness:
  "\<exists>r. haf_file_to_bsp_report sample_uuid sample_haf sample_tenant = Inr r
    \<and> dval (m_amount (br_net_remittance r)) = 80001 / 2 \<and> dval (m_amount (br_refund_total r)) = - 12000"
proof -
  obtain r where r: "haf_file_to_bsp_report sample_uuid sample_haf sample_tenant = Inr r"
    using sample_report by blast
  have len: "length (hf_transactions sample_haf) \<le> 10 ^ 15" by (simp add: sample_haf_def)
  have "is_refund_or_exchange (BKS39 n p a d x nar)" "\<not> is_refund_or_exchange (BKS24 n a d g c x y nar)"
    for n p a d g c x y nar by (simp_all add: is_refund_or_exchange_def)
  with bsp_report_totals_exact [OF sample_parse r len] r show ?thesis
    by (auto simp: sample_haf_def amount_of_cents_exact(1))
qed

section \<open>What a reconciliation says\<close>

definition money_bounded :: "nat \<Rightarrow> money \<Rightarrow> bool" where
  "money_bounded s m \<longleftrightarrow> money_ok m \<and> money_scaled s m \<and> \<bar>dval (m_amount m)\<bar> * 10 ^ s < 10 ^ 27"

definition row_key :: "bsp_transaction \<Rightarrow> string \<times> string" where
  "row_key tx = normalised_ticket_key (bt_document_number tx) (bt_airline tx)"

definition ticket_key :: "ticket \<Rightarrow> string \<times> string" where
  "ticket_key t = normalised_ticket_key (tk_number t) (tk_issuing_airline t)"

text \<open>The ticket a statement row is compared with: only sales are looked up.\<close>

definition row_ticket :: "(string \<times> string, ticket) dict \<Rightarrow> bsp_transaction \<Rightarrow> ticket option" where
  "row_ticket idx tx = (if bt_kind tx = SALE then map_of idx (row_key tx) else None)"

text \<open>The verdict on a row, in exact arithmetic.\<close>

definition exact_outcome :: "ticket option \<Rightarrow> bsp_transaction \<Rightarrow> reconciliation_outcome" where
  "exact_outcome t tx = (case t of None \<Rightarrow> UNMATCHED_EXTERNAL
     | Some t \<Rightarrow> if m_currency (tk_total_amount t) \<noteq> m_currency (bt_net tx) then TENTATIVE
         else if \<bar>dval (m_amount (bt_net tx)) - dval (m_amount (tk_total_amount t))\<bar> \<le> 1 then MATCHED
         else DISCREPANCY)"

definition exact_delta :: "ticket option \<Rightarrow> bsp_transaction \<Rightarrow> rat option" where
  "exact_delta t tx = (case exact_outcome t tx of MATCHED \<Rightarrow> Some 0
     | DISCREPANCY \<Rightarrow> Some (dval (m_amount (bt_net tx)) - dval (m_amount (tk_total_amount (the t))))
     | _ \<Rightarrow> None)"

definition row_item :: "(string \<times> string, ticket) dict \<Rightarrow> bsp_transaction \<Rightarrow> reconciliation_item \<Rightarrow> bool" where
  "row_item idx tx it \<longleftrightarrow> ri_outcome it = exact_outcome (row_ticket idx tx) tx
     \<and> ri_external_ref it = Some (py_strip (bt_document_number tx)) \<and> ri_external_amount it = Some (bt_net tx)
     \<and> ri_internal_refs it = (case row_ticket idx tx of None \<Rightarrow> [] | Some t \<Rightarrow> [tk_id t])
     \<and> map_option (\<lambda>m. dval (m_amount m)) (ri_delta it) = exact_delta (row_ticket idx tx) tx"

definition outcome_count :: "reconciliation_outcome \<Rightarrow> reconciliation_item list \<Rightarrow> int" where
  "outcome_count oc its = int (length (filter (\<lambda>it. ri_outcome it = oc) its))"

definition counts_of :: "rec_state \<Rightarrow> bool" where
  "counts_of st \<longleftrightarrow> rst_matched st = outcome_count MATCHED (rst_items st)
     \<and> rst_unmatched_external st = outcome_count UNMATCHED_EXTERNAL (rst_items st)
     \<and> rst_discrepancy st = outcome_count DISCREPANCY (rst_items st)
     \<and> rst_tentative st = outcome_count TENTATIVE (rst_items st)
     \<and> outcome_count UNMATCHED_INTERNAL (rst_items st) = 0"

lemma bounded_sub:
  assumes "money_bounded s x" "money_bounded s y"
  shows "dval (dec_sub (m_amount x) (m_amount y)) = dval (m_amount x) - dval (m_amount y)"
  using assms dec_sub_scaled(2) [of s "m_amount x" "m_amount y"]
  by (simp add: money_bounded_def money_scaled_def distrib_right)

lemma tolerance_exact:
  assumes "money_bounded s x" "money_bounded s y"
  shows "amount_within_tolerance (m_amount x) (m_amount y) \<longleftrightarrow> \<bar>dval (m_amount y) - dval (m_amount x)\<bar> \<le> 1"
  using bounded_sub [OF assms]
  by (simp add: amount_within_tolerance_def AMOUNT_TOLERANCE_def dec_le_iff dval_Dec abs_minus_commute)

lemma outcome_count_snoc [simp]:
  "outcome_count oc (its @ [it]) = outcome_count oc its + (if ri_outcome it = oc then 1 else 0)"
  by (simp add: outcome_count_def)

lemma paired_item_fields [simp]:
  "ri_outcome (paired_item tx t oc conf d e a) = oc"
  "ri_external_ref (paired_item tx t oc conf d e a) = Some (py_strip (bt_document_number tx))"
  "ri_external_amount (paired_item tx t oc conf d e a) = Some (bt_net tx)"
  "ri_internal_refs (paired_item tx t oc conf d e a) = [tk_id t]"
  "ri_delta (paired_item tx t oc conf d e a) = d"
  by (simp_all add: paired_item_def external_item_def)

lemma not_matched_fields [simp]:
  "ri_outcome (not_matched_item tx e a) = UNMATCHED_EXTERNAL"
  "ri_external_ref (not_matched_item tx e a) = Some (py_strip (bt_document_number tx))"
  "ri_external_amount (not_matched_item tx e a) = Some (bt_net tx)"
  "ri_internal_refs (not_matched_item tx e a) = []"
  "ri_delta (not_matched_item tx e a) = None"
  by (simp_all add: not_matched_item_def external_item_def)

definition row_effect :: "(string \<times> string, ticket) dict \<Rightarrow> bsp_transaction \<Rightarrow> rec_state \<Rightarrow> rec_state \<Rightarrow> bool" where
  "row_effect idx tx st st' \<longleftrightarrow> (\<exists>it. rst_items st' = rst_items st @ [it] \<and> row_item idx tx it)
     \<and> set (rst_matched_keys st') = set (rst_matched_keys st)
         \<union> (if row_ticket idx tx = None then {} else {row_key tx})
     \<and> (counts_of st \<longrightarrow> counts_of st')"

lemma row_effect_external:
  assumes "row_ticket idx tx = None"
  shows "row_effect idx tx st (count_external st (not_matched_item tx e a))"
  using assms by (auto simp: row_effect_def count_external_def row_item_def exact_outcome_def exact_delta_def counts_of_def)

lemma row_effect_paired:
  assumes "row_ticket idx tx = Some t" "oc = exact_outcome (Some t) tx"
    and "map_option (\<lambda>m. dval (m_amount m)) d = exact_delta (Some t) tx"
    and "rst_items st' = rst_items st @ [paired_item tx t oc conf d e a]"
    and "rst_matched_keys st' = List.insert (row_key tx) (rst_matched_keys st)"
    and "rst_matched st' = rst_matched st + (if oc = MATCHED then 1 else 0)"
    and "rst_discrepancy st' = rst_discrepancy st + (if oc = DISCREPANCY then 1 else 0)"
    and "rst_tentative st' = rst_tentative st + (if oc = TENTATIVE then 1 else 0)"
    and "rst_unmatched_external st' = rst_unmatched_external st"
  shows "row_effect idx tx st st'"
proof -
  have "oc \<noteq> UNMATCHED_EXTERNAL" "oc \<noteq> UNMATCHED_INTERNAL" by (auto simp: assms(2) exact_outcome_def)
  then show ?thesis
    using assms by (auto simp: row_effect_def row_item_def counts_of_def)
qed

lemma reconcile_row_effect:
  assumes row: "reconcile_row idx tx st = Inr st'" and net: "money_bounded s (bt_net tx)"
    and tks: "\<And>t. t \<in> snd ` set idx \<Longrightarrow> money_bounded s (tk_total_amount t)"
  shows "row_effect idx tx st st'"
proof (cases "row_ticket idx tx")
  case None
  with row show ?thesis
    by (auto simp: reconcile_row_def row_ticket_def row_key_def Let_def intro: row_effect_external
        split: if_splits option.splits)
next
  case (Some t)
  then have sale: "bt_kind tx = SALE"
    and look: "map_of idx (normalised_ticket_key (bt_document_number tx) (bt_airline tx)) = Some t"
    by (auto simp: row_ticket_def row_key_def split: if_splits)
  have bt: "money_bounded s (tk_total_amount t)" using tks look by (force dest: map_of_SomeD)
  note tol = tolerance_exact [OF bt net] and sub = bounded_sub [OF net bt]
  have cur: "currency_code_ok (m_currency (bt_net tx))" using net by (simp add: money_bounded_def money_ok_def)
  consider "m_currency (tk_total_amount t) \<noteq> m_currency (bt_net tx)"
    | "m_currency (tk_total_amount t) = m_currency (bt_net tx)"
      "amount_within_tolerance (m_amount (tk_total_amount t)) (m_amount (bt_net tx))"
    | "m_currency (tk_total_amount t) = m_currency (bt_net tx)"
      "\<not> amount_within_tolerance (m_amount (tk_total_amount t)) (m_amount (bt_net tx))" by blast
  then show ?thesis
  proof cases
    case 1
    then have oc: "exact_outcome (Some t) tx = TENTATIVE" by (simp add: exact_outcome_def)
    show ?thesis
      by (rule row_effect_paired [OF Some oc [symmetric]])
        (use row sale look 1 oc in \<open>auto simp: reconcile_row_def Let_def exact_delta_def row_key_def\<close>)
  next
    case 2
    then have oc: "exact_outcome (Some t) tx = MATCHED" using tol by (simp add: exact_outcome_def)
    show ?thesis
      by (rule row_effect_paired [OF Some oc [symmetric]])
        (use row sale look 2 oc cur in \<open>auto simp: reconcile_row_def Let_def exact_delta_def row_key_def dec_of_int_def\<close>)
  next
    case 3
    then have oc: "exact_outcome (Some t) tx = DISCREPANCY" using tol by (simp add: exact_outcome_def)
    show ?thesis
      by (rule row_effect_paired [OF Some oc [symmetric]])
        (use row sale look 3 oc cur sub in \<open>auto simp: reconcile_row_def Let_def exact_delta_def row_key_def\<close>)
  qed
qed

definition paired_keys :: "(string \<times> string, ticket) dict \<Rightarrow> bsp_transaction list \<Rightarrow> (string \<times> string) set" where
  "paired_keys idx txs = row_key ` {tx \<in> set txs. row_ticket idx tx \<noteq> None}"

lemma reconcile_rows_effect:
  assumes "reconcile_rows idx txs st = Inr st'" "list_all (\<lambda>tx. money_bounded s (bt_net tx)) txs"
    and tks: "\<And>t. t \<in> snd ` set idx \<Longrightarrow> money_bounded s (tk_total_amount t)"
  shows "(\<exists>its. rst_items st' = rst_items st @ its \<and> list_all2 (row_item idx) txs its)
    \<and> set (rst_matched_keys st') = set (rst_matched_keys st) \<union> paired_keys idx txs
    \<and> (counts_of st \<longrightarrow> counts_of st')"
  using assms(1,2)
proof (induction txs arbitrary: st)
  case Nil
  then show ?case by (simp add: paired_keys_def)
next
  case (Cons tx txs)
  then obtain st1 where st1: "reconcile_row idx tx st = Inr st1" "reconcile_rows idx txs st1 = Inr st'"
    by (auto simp: res_simps)
  have "row_effect idx tx st st1" using reconcile_row_effect [OF st1(1) _ tks] Cons.prems(2) by simp
  moreover note Cons.IH [OF st1(2)]
  moreover have "paired_keys idx (tx # txs) = (if row_ticket idx tx = None then {} else {row_key tx}) \<union> paired_keys idx txs"
    by (auto simp: paired_keys_def)
  ultimately show ?case using Cons.prems(2) by (fastforce simp: row_effect_def)
qed

lemma find_append_case:
  "find P (xs @ ys) = (case find P xs of None \<Rightarrow> find P ys | Some x \<Rightarrow> Some x)"
  by (induction xs) auto

lemma index_tickets_get:
  "map_of (index_tickets idx ts) k = (case map_of idx k of Some t \<Rightarrow> Some t
     | None \<Rightarrow> find (\<lambda>t. ticket_key t = k) ts)"
  by (induction ts arbitrary: idx) (auto simp: ticket_key_def Let_def dict_simps split: option.splits)

lemma ticket_index_get: "map_of (ticket_index ts) k = find (\<lambda>t. ticket_key t = k) ts"
  by (simp add: ticket_index_def index_tickets_get)

lemma index_tickets_wf: "wf_dict idx \<Longrightarrow> wf_dict (index_tickets idx ts)"
  by (induction ts arbitrary: idx) (auto simp: Let_def)

lemma ticket_index_wf: "wf_dict (ticket_index ts)"
  by (simp add: ticket_index_def index_tickets_wf)

lemma ticket_index_entry:
  assumes "(k, t) \<in> set (ticket_index ts)"
  shows "t \<in> set ts \<and> ticket_key t = k \<and> find (\<lambda>u. ticket_key u = k) ts = Some t"
proof -
  have f: "find (\<lambda>u. ticket_key u = k) ts = Some t"
    using assms wf_dict_map_of [OF ticket_index_wf] ticket_index_get by metis
  then show ?thesis by (auto simp: find_Some_iff)
qed

lemma list_all2_right_ex: "list_all2 P xs ys \<Longrightarrow> y \<in> set ys \<Longrightarrow> \<exists>x \<in> set xs. P x y"
  by (induction rule: list_all2_induct) auto

lemma paired_key_iff:
  assumes "(k, t) \<in> set (ticket_index ts)"
  shows "k \<in> paired_keys (ticket_index ts) txs \<longleftrightarrow> (\<exists>tx \<in> set txs. bt_kind tx = SALE \<and> row_key tx = k)"
proof -
  have "map_of (ticket_index ts) k = Some t" using assms wf_dict_map_of [OF ticket_index_wf] by metis
  then show ?thesis unfolding paired_keys_def row_ticket_def by (auto split: if_splits)
qed

lemma reconcile_parts:
  assumes "reconcile_bsp_against_tickets w report tickets = Inr rc"
    and "list_all (\<lambda>tx. money_bounded s (bt_net tx)) (br_transactions report)"
    and "list_all (\<lambda>t. money_bounded s (tk_total_amount t)) tickets"
  defines "idx \<equiv> ticket_index tickets"
  shows "\<exists>its rest. rc_items rc = its @ map internal_item rest
    \<and> list_all2 (row_item idx) (br_transactions report) its
    \<and> rest = map snd (filter (\<lambda>(k, t). k \<notin> paired_keys idx (br_transactions report)) idx)
    \<and> rs_matched_count (rc_summary rc) = outcome_count MATCHED (rc_items rc)
    \<and> rs_unmatched_external_count (rc_summary rc) = outcome_count UNMATCHED_EXTERNAL (rc_items rc)
    \<and> rs_unmatched_internal_count (rc_summary rc) = outcome_count UNMATCHED_INTERNAL (rc_items rc)
    \<and> rs_discrepancy_count (rc_summary rc) = outcome_count DISCREPANCY (rc_items rc)
    \<and> rs_tentative_count (rc_summary rc) = outcome_count TENTATIVE (rc_items rc)"
proof -
  from assms(1) obtain st where st: "reconcile_rows idx (br_transactions report) rec_start = Inr st"
    by (auto simp: reconcile_bsp_against_tickets_def idx_def Let_def res_simps)
  define rest where "rest = unbilled_tickets idx (rst_matched_keys st)"
  have rc: "rc_items rc = rst_items st @ map internal_item rest"
    "rs_matched_count (rc_summary rc) = rst_matched st"
    "rs_unmatched_external_count (rc_summary rc) = rst_unmatched_external st"
    "rs_unmatched_internal_count (rc_summary rc) = int (length rest)"
    "rs_discrepancy_count (rc_summary rc) = rst_discrepancy st"
    "rs_tentative_count (rc_summary rc) = rst_tentative st"
    using assms(1) st
    by (auto simp: reconcile_bsp_against_tickets_def idx_def [symmetric] Let_def res_simps rest_def)
  have tks: "t \<in> snd ` set idx \<Longrightarrow> money_bounded s (tk_total_amount t)" for t
    using assms(3) ticket_index_entry by (fastforce simp: idx_def list_all_iff)
  from reconcile_rows_effect [OF st assms(2) tks]
  have eff: "list_all2 (row_item idx) (br_transactions report) (rst_items st)"
    "set (rst_matched_keys st) = paired_keys idx (br_transactions report)" "counts_of st"
    by (auto simp: rec_start_def counts_of_def outcome_count_def)
  have internal: "outcome_count oc (rst_items st @ map internal_item rest)
      = outcome_count oc (rst_items st) + (if oc = UNMATCHED_INTERNAL then int (length rest) else 0)" for oc
    by (auto simp: outcome_count_def internal_item_def filter_map comp_def)
  show ?thesis
    using eff rc internal
    by (intro exI [of _ "rst_items st"] exI [of _ rest]) (auto simp: rest_def unbilled_tickets_def counts_of_def)
qed

definition currency_inv :: "rec_state \<Rightarrow> bool" where
  "currency_inv st \<longleftrightarrow> (case rst_currency st of None \<Rightarrow> True | Some c \<Rightarrow> currency_code_ok c)"

lemma reconcile_row_total:
  assumes "money_ok (bt_net tx)" "currency_inv st"
  shows "\<exists>st'. reconcile_row idx tx st = Inr st' \<and> currency_inv st'"
proof (cases "row_ticket idx tx")
  case None
  then show ?thesis
    using assms(2) by (auto simp: reconcile_row_def row_ticket_def row_key_def Let_def count_external_def
        currency_inv_def split: if_splits option.splits)
next
  case (Some t)
  then show ?thesis
    using assms by (auto simp: reconcile_row_def row_ticket_def row_key_def Let_def currency_inv_def money_ok_def
        split: if_splits option.splits)
qed

lemma reconcile_rows_total:
  "list_all (\<lambda>tx. money_ok (bt_net tx)) txs \<Longrightarrow> currency_inv st
    \<Longrightarrow> \<exists>st'. reconcile_rows idx txs st = Inr st' \<and> currency_inv st'"
proof (induction txs arbitrary: st)
  case (Cons tx txs)
  then obtain st1 where "reconcile_row idx tx st = Inr st1" "currency_inv st1"
    using reconcile_row_total [of tx st idx] by auto
  with Cons show ?case by simp
qed simp

lemma reconcile_total:
  assumes "list_all (\<lambda>tx. money_ok (bt_net tx)) (br_transactions report)" "is_uuid4_int w"
    and "entity_id_ok (br_tenant_id report)"
  shows "\<exists>rc. reconcile_bsp_against_tickets w report tickets = Inr rc"
proof -
  obtain st where st: "reconcile_rows (ticket_index tickets) (br_transactions report) rec_start = Inr st" "currency_inv st"
    using reconcile_rows_total [OF assms(1), of rec_start] by (auto simp: currency_inv_def rec_start_def)
  show ?thesis
    using st uuid7_like_ok [OF assms(2)] assms(3)
    by (cases "rst_currency st")
      (auto simp: reconcile_bsp_against_tickets_def Let_def currency_inv_def entity_id_of_def
        constrained_def new_entity_id_def entity_id_strip)
qed

text \<open>Claim C4. Reconciliation accounts for every row and every ticket. For a report and tickets whose
  amounts have at most \<open>s\<close> fractional digits and fewer than 28 digits, reconciliation succeeds. Its
  items are, first, one per statement row in order, with the verdict of exact arithmetic: a row
  that is no sale or has no ticket under its key is unmatched, a ticket in another currency makes
  the row tentative, amounts at most one unit apart match, others are a discrepancy whose delta
  is the exact difference; then one item per indexed ticket that no sale row was paired with, in
  index order. The five counts of the summary are the numbers of items with that outcome.
\<close>

theorem reconciliation_complete:
  assumes "list_all (\<lambda>tx. money_bounded s (bt_net tx)) (br_transactions report)"
    and "list_all (\<lambda>t. money_bounded s (tk_total_amount t)) tickets"
    and "is_uuid4_int w" "entity_id_ok (br_tenant_id report)"
  shows "\<exists>rc its. reconcile_bsp_against_tickets w report tickets = Inr rc
    \<and> list_all2 (row_item (ticket_index tickets)) (br_transactions report) its
    \<and> rc_items rc = its @ map internal_item (map snd (filter
        (\<lambda>(k, t). \<forall>tx \<in> set (br_transactions report). bt_kind tx = SALE \<longrightarrow> row_key tx \<noteq> k) (ticket_index tickets)))
    \<and> rs_matched_count (rc_summary rc) = outcome_count MATCHED (rc_items rc)
    \<and> rs_unmatched_external_count (rc_summary rc) = outcome_count UNMATCHED_EXTERNAL (rc_items rc)
    \<and> rs_unmatched_internal_count (rc_summary rc) = outcome_count UNMATCHED_INTERNAL (rc_items rc)
    \<and> rs_discrepancy_count (rc_summary rc) = outcome_count DISCREPANCY (rc_items rc)
    \<and> rs_tentative_count (rc_summary rc) = outcome_count TENTATIVE (rc_items rc)"
proof -
  have ok: "list_all (\<lambda>tx. money_ok (bt_net tx)) (br_transactions report)"
    using assms(1) by (auto simp: list_all_iff money_bounded_def)
  obtain rc where rc: "reconcile_bsp_against_tickets w report tickets = Inr rc"
    using reconcile_total [OF ok assms(3,4)] by blast
  let ?idx = "ticket_index tickets"
  have "filter (\<lambda>(k, t). k \<notin> paired_keys ?idx (br_transactions report)) ?idx
      = filter (\<lambda>(k, t). \<forall>tx \<in> set (br_transactions report). bt_kind tx = SALE \<longrightarrow> row_key tx \<noteq> k) ?idx"
  proof (rule filter_cong [OF refl])
    fix kt assume kt: "kt \<in> set ?idx"
    obtain k t where "kt = (k, t)" by (cases kt)
    with kt show "(case kt of (k, t) \<Rightarrow> k \<notin> paired_keys ?idx (br_transactions report))
        = (case kt of (k, t) \<Rightarrow> \<forall>tx \<in> set (br_transactions report). bt_kind tx = SALE \<longrightarrow> row_key tx \<noteq> k)"
      using paired_key_iff [of k t tickets "br_transactions report"] by auto
  qed
  then have rest: "map snd (filter (\<lambda>(k, t). k \<notin> paired_keys ?idx (br_transactions report)) ?idx)
      = map snd (filter (\<lambda>(k, t). \<forall>tx \<in> set (br_transactions report). bt_kind tx = SALE \<longrightarrow> row_key tx \<noteq> k) ?idx)"
    by (rule arg_cong)
  obtain its where parts: "rc_items rc = its @ map internal_item (map snd (filter
        (\<lambda>(k, t). k \<notin> paired_keys ?idx (br_transactions report)) ?idx))"
    "list_all2 (row_item ?idx) (br_transactions report) its"
    "rs_matched_count (rc_summary rc) = outcome_count MATCHED (rc_items rc)"
    "rs_unmatched_external_count (rc_summary rc) = outcome_count UNMATCHED_EXTERNAL (rc_items rc)"
    "rs_unmatched_internal_count (rc_summary rc) = outcome_count UNMATCHED_INTERNAL (rc_items rc)"
    "rs_discrepancy_count (rc_summary rc) = outcome_count DISCREPANCY (rc_items rc)"
    "rs_tentative_count (rc_summary rc) = outcome_count TENTATIVE (rc_items rc)"
    using reconcile_parts [OF rc assms(1,2)] by metis
  show ?thesis
    by (rule exI [of _ rc], rule exI [of _ its], intro conjI)
      (rule rc parts(2-) parts(1) [unfolded rest])+
qed

text \<open>A second ticket under a key already indexed is in no item. If an earlier ticket in the
  list has the same carrier and last ten digits, the later ticket - whatever the statement says -
  appears neither as matched nor as unmatched internal, although the log message of
  \<^verbatim>\<open>_ticket_index\<close> announces it as UNMATCHED\_INTERNAL.
\<close>

theorem duplicate_ticket_unreported:
  assumes "reconcile_bsp_against_tickets w report (xs @ t # ys) = Inr rc"
    and "list_all (\<lambda>tx. money_bounded s (bt_net tx)) (br_transactions report)"
    and "list_all (\<lambda>u. money_bounded s (tk_total_amount u)) (xs @ t # ys)"
    and "\<exists>u \<in> set xs. ticket_key u = ticket_key t" and "\<forall>u \<in> set xs \<union> set ys. tk_id u \<noteq> tk_id t"
  shows "\<forall>it \<in> set (rc_items rc). tk_id t \<notin> set (ri_internal_refs it)"
proof -
  let ?ts = "xs @ t # ys"
  have nf: "find (\<lambda>u. ticket_key u = k) ?ts \<noteq> Some t" for k
  proof
    assume f: "find (\<lambda>u. ticket_key u = k) ?ts = Some t"
    then have "ticket_key t = k" by (auto simp: find_Some_iff)
    then obtain u where "find (\<lambda>u. ticket_key u = k) xs = Some u"
      using assms(4) by (metis (mono_tags) find_None_iff not_None_eq)
    with f have "find (\<lambda>u. ticket_key u = k) xs = Some t" by (simp add: find_append_case)
    then show False using assms(5) by (auto simp: find_Some_iff)
  qed
  have idx: "tk_id u \<noteq> tk_id t" if "(k, u) \<in> set (ticket_index ?ts)" for k u
    using ticket_index_entry [OF that] assms(5) nf [of k] by (cases "u = t") auto
  obtain its rest where parts: "rc_items rc = its @ map internal_item rest"
    "list_all2 (row_item (ticket_index ?ts)) (br_transactions report) its"
    "rest = map snd (filter (\<lambda>(k, t). k \<notin> paired_keys (ticket_index ?ts) (br_transactions report)) (ticket_index ?ts))"
    using reconcile_parts [OF assms(1-3)] by blast
  have "tk_id t \<notin> set (ri_internal_refs it)" if it: "it \<in> set its" for it
  proof -
    obtain tx where "row_item (ticket_index ?ts) tx it"
      using list_all2_right_ex [OF parts(2) it] by blast
    then have refs: "ri_internal_refs it = (case row_ticket (ticket_index ?ts) tx of None \<Rightarrow> [] | Some u \<Rightarrow> [tk_id u])"
      by (simp add: row_item_def)
    show ?thesis
    proof (cases "row_ticket (ticket_index ?ts) tx")
      case (Some u)
      then have "(row_key tx, u) \<in> set (ticket_index ?ts)"
        by (auto simp: row_ticket_def dest: map_of_SomeD split: if_splits)
      from idx [OF this] refs Some show ?thesis by simp
    qed (use refs in simp)
  qed
  moreover have "tk_id t \<notin> set (ri_internal_refs (internal_item u))" if u: "u \<in> set rest" for u
  proof -
    obtain k where "(k, u) \<in> set (ticket_index ?ts)" using u by (auto simp: parts(3))
    from idx [OF this] show ?thesis by (simp add: internal_item_def)
  qed
  ultimately show ?thesis using parts(1) by auto
qed

definition sample_ticket :: "string \<Rightarrow> string \<Rightarrow> int \<Rightarrow> ticket" where
  "sample_ticket ident number rupees = \<lparr>tk_id = ident, tk_tenant_id = sample_tenant, tk_number = number,
     tk_pnr_id = sample_tenant, tk_passenger_id = sample_tenant, tk_issued_at = 0, tk_issuing_airline = ''EK'',
     tk_issuing_agent_iata = None, tk_base_amount = \<lparr>m_amount = Dec rupees 0, m_currency = ''INR''\<rparr>,
     tk_tax_amount = \<lparr>m_amount = Dec 0 0, m_currency = ''INR''\<rparr>,
     tk_total_amount = \<lparr>m_amount = Dec rupees 0, m_currency = ''INR''\<rparr>, tk_status = Tk_open\<rparr>"

definition sample_row :: "string \<Rightarrow> int \<Rightarrow> bsp_transaction" where
  "sample_row doc rupees = \<lparr>bt_kind = SALE, bt_document_number = doc, bt_issue_date = Date 2024 3 5,
     bt_airline = ''EK'', bt_gross = \<lparr>m_amount = Dec rupees 0, m_currency = ''INR''\<rparr>, bt_commission = None,
     bt_taxes = [], bt_net = \<lparr>m_amount = Dec rupees 0, m_currency = ''INR''\<rparr>\<rparr>"

definition sample_statement :: bsp_report where
  "sample_statement = \<lparr>br_id = sample_tenant, br_tenant_id = sample_tenant, br_country = ''IN'',
     br_period = \<lparr>p_start = 0, p_end = None\<rparr>, br_airline = None,
     br_sales_total = \<lparr>m_amount = Dec 52000 0, m_currency = ''INR''\<rparr>,
     br_refund_total = \<lparr>m_amount = Dec 0 0, m_currency = ''INR''\<rparr>,
     br_commission_total = \<lparr>m_amount = Dec 0 0, m_currency = ''INR''\<rparr>,
     br_net_remittance = \<lparr>m_amount = Dec 52000 0, m_currency = ''INR''\<rparr>,
     br_transactions = [sample_row ''1761234567890'' 52000], br_source_ref = ''HAF''\<rparr>"

definition sample_tickets :: "ticket list" where
  "sample_tickets = [sample_ticket ''a'' ''176-1234567890'' 52001, sample_ticket ''b'' ''1761234567890'' 7]"

lemma currency_INR: "currency_code_ok ''INR''"
  by code_simp

lemma sample_bounded:
  "list_all (\<lambda>tx. money_bounded 0 (bt_net tx)) (br_transactions sample_statement)"
  "list_all (\<lambda>t. money_bounded 0 (tk_total_amount t)) sample_tickets"
  by (simp_all add: sample_statement_def sample_tickets_def sample_ticket_def sample_row_def money_bounded_def
      money_ok_def money_scaled_def dec_scaled_def currency_INR)

lemma sample_statement_tenant: "entity_id_ok (br_tenant_id sample_statement)"
  by code_simp

theorem reconciliation_complete_witness:
  "\<exists>rc. reconcile_bsp_against_tickets sample_uuid sample_statement sample_tickets = Inr rc
    \<and> rs_matched_count (rc_summary rc) = outcome_count MATCHED (rc_items rc)"
  using reconciliation_complete [OF sample_bounded sample_uuid4 sample_statement_tenant] by blast

theorem duplicate_ticket_unreported_witness:
  "\<exists>rc. reconcile_bsp_against_tickets sample_uuid sample_statement sample_tickets = Inr rc
    \<and> (\<forall>it \<in> set (rc_items rc). ''b'' \<notin> set (ri_internal_refs it))"
proof -
  have "list_all (\<lambda>tx. money_ok (bt_net tx)) (br_transactions sample_statement)"
    using sample_bounded(1) by (auto simp: list_all_iff money_bounded_def)
  then obtain rc where rc: "reconcile_bsp_against_tickets sample_uuid sample_statement sample_tickets = Inr rc"
    using reconcile_total [OF _ sample_uuid4 sample_statement_tenant] by blast
  have split: "sample_tickets = [sample_ticket ''a'' ''176-1234567890'' 52001] @ sample_ticket ''b'' ''1761234567890'' 7 # []"
    by (simp add: sample_tickets_def)
  have key: "ticket_key (sample_ticket ''a'' ''176-1234567890'' 52001) = ticket_key (sample_ticket ''b'' ''1761234567890'' 7)"
    by code_simp
  have "tk_id (sample_ticket ''b'' ''1761234567890'' 7) = ''b''" "tk_id (sample_ticket ''a'' ''176-1234567890'' 52001) = ''a''"
    by (simp_all add: sample_ticket_def)
  then show ?thesis
    using duplicate_ticket_unreported [OF rc [unfolded split] sample_bounded(1) sample_bounded(2) [unfolded split]] key rc
    by auto
qed

end
