(* ===== verification/Py_Uuid.thy ===== *)
theory Py_Uuid
  imports Py_Text
begin

unbundle bit_operations_syntax

text \<open>
  \<^verbatim>\<open>uuid.UUID(text)\<close> of the standard library, as the HTTP layer uses it to read identifiers:
  the prefixes \<^verbatim>\<open>urn:\<close> and \<^verbatim>\<open>uuid:\<close>, outer braces and all hyphens are dropped, 32
  characters must remain and must be an integer in base 16. The main fact is that reading back
  the canonical text of a UUID gives that UUID.
\<close>

function remove_sub :: "string \<Rightarrow> string \<Rightarrow> string" where
  "remove_sub p [] = []"
| "remove_sub p (c # cs) =
     (if p \<noteq> [] \<and> take (length p) (c # cs) = p then remove_sub p (drop (length p) (c # cs))
      else c # remove_sub p cs)"
  by pat_completeness auto
termination by (relation "measure (\<lambda>(p, s). length s)") auto

definition strip_chars :: "char set \<Rightarrow> string \<Rightarrow> string" where
  "strip_chars cs s = rev (dropWhile (\<lambda>c. c \<in> cs) (rev (dropWhile (\<lambda>c. c \<in> cs) s)))"

definition is_hex_any :: "char \<Rightarrow> bool" where
  "is_hex_any c \<longleftrightarrow> is_hex_char c \<or> (let n = (of_char c :: nat) in 65 \<le> n \<and> n \<le> 70)"

definition hex_val :: "char \<Rightarrow> int" where
  "hex_val c = (let n = (of_char c :: int) in if n \<le> 57 then n - 48 else if n \<le> 70 then n - 55 else n - 87)"

fun hex_body_ok :: "bool \<Rightarrow> string \<Rightarrow> bool" where
  "hex_body_ok prev_digit [] \<longleftrightarrow> prev_digit"
| "hex_body_ok prev_digit (c # cs) \<longleftrightarrow>
     (if is_hex_any c then hex_body_ok True cs
      else if c = CHR ''_'' then prev_digit \<and> hex_body_ok False cs
      else False)"

definition hexs_val :: "string \<Rightarrow> int" where
  "hexs_val s = foldl (\<lambda>a c. 16 * a + hex_val c) 0 s"

text \<open>
  \<^verbatim>\<open>int(h, 16)\<close> on text without a minus sign: outer blanks, a plus sign, the prefix
  \<^verbatim>\<open>0x\<close> with an underscore after it, and single underscores between digits are allowed.
\<close>

definition py_int16 :: "string \<Rightarrow> int option" where
  "py_int16 h =
     (let t = py_strip h;
          b = (case t of c # cs \<Rightarrow> if c = CHR ''+'' then cs else t | [] \<Rightarrow> []);
          (pre, d) = (if take 2 b = ''0x'' \<or> take 2 b = ''0X'' then (True, drop 2 b) else (False, b))
      in if hex_body_ok pre d \<and> d \<noteq> [] then Some (hexs_val (filter is_hex_any d)) else None)"

definition uuid_parse :: "string \<Rightarrow> uuid_int option" where
  "uuid_parse s =
     (let h = filter (\<lambda>c. c \<noteq> CHR ''-'') (strip_chars {CHR ''{'', CHR ''}''} (remove_sub ''uuid:'' (remove_sub ''urn:'' s)))
      in if length h = 32 then map_option word_of_int (py_int16 h) else None)"

text \<open>The canonical text of an identifier given in any accepted form.\<close>

definition uuid_text :: "string \<Rightarrow> string option" where
  "uuid_text s = map_option uuid_str (uuid_parse s)"

section \<open>Reading a UUID back\<close>

lemma remove_sub_id:
  "list_all (\<lambda>c. c \<noteq> CHR '':'') s \<Longrightarrow> CHR '':'' \<in> set p \<Longrightarrow> remove_sub p s = s"
proof (induction p s rule: remove_sub.induct)
  case (2 p c cs)
  have "take (length p) (c # cs) \<noteq> p"
  proof
    assume "take (length p) (c # cs) = p"
    then have "set p \<subseteq> set (c # cs)" by (metis set_take_subset)
    with "2.prems" show False by (auto simp: list_all_iff)
  qed
  with 2 show ?case by auto
qed simp

lemma strip_chars_id: "list_all (\<lambda>c. c \<notin> cs) s \<Longrightarrow> strip_chars cs s = s"
proof -
  assume s: "list_all (\<lambda>c. c \<notin> cs) s"
  then have "dropWhile (\<lambda>c. c \<in> cs) s = s" by (cases s) auto
  moreover have "dropWhile (\<lambda>c. c \<in> cs) (rev s) = rev s" using s by (cases "rev s") (auto simp: list_all_iff)
  ultimately show ?thesis by (simp add: strip_chars_def)
qed

definition hex_digits :: string where
  "hex_digits = ''0123456789abcdef''"

lemma hex_char_digit:
  assumes "n < 16"
  shows "hex_char n = hex_digits ! n" "hex_char n \<in> set hex_digits"
proof -
  have "map hex_char [0..<16] = hex_digits" by code_simp
  then show "hex_char n = hex_digits ! n" using assms by (metis add_0 diff_zero length_upt nth_map nth_upt)
  moreover have "length hex_digits = 16" by (simp add: hex_digits_def)
  ultimately show "hex_char n \<in> set hex_digits" using assms by simp
qed

lemma hex_val_digit:
  assumes "n < 16"
  shows "hex_val (hex_char n) = int n"
proof -
  have "map hex_val hex_digits = map int [0..<16]" by code_simp
  then have "map hex_val hex_digits ! n = int n" using assms by simp
  moreover have "length hex_digits = 16" by (simp add: hex_digits_def)
  ultimately show ?thesis using assms by (simp add: hex_char_digit(1))
qed

lemma hex_digits_facts:
  assumes "c \<in> set hex_digits"
  shows "is_hex_any c" "\<not> py_isspace c" "c \<notin> set ''-:{}+xX''"
proof -
  have "list_all (\<lambda>c. is_hex_any c \<and> \<not> py_isspace c \<and> c \<notin> set ''-:{}+xX'') hex_digits" by code_simp
  with assms show "is_hex_any c" "\<not> py_isspace c" "c \<notin> set ''-:{}+xX''" by (auto simp: list_all_iff)
qed

lemma nibble_div: "int (nibble w k) = (uint w div 16 ^ k) mod 16"
proof -
  have m: "(15 :: 128 word) = mask 4" by (simp add: mask_eq_exp_minus_1)
  have "uint (take_bit 4 (drop_bit (4 * k) w)) = take_bit 4 (drop_bit (4 * k) (uint w))"
    by (rule bit_eqI) (auto simp: bit_take_bit_iff bit_drop_bit_eq bit_unsigned_iff dest: bit_imp_le_length)
  then have "uint (drop_bit (4 * k) w AND 15) = (uint w div 2 ^ (4 * k)) mod 2 ^ 4"
    by (simp add: m take_bit_eq_mask [symmetric] drop_bit_eq_div take_bit_eq_mod)
  then show ?thesis by (simp add: nibble_def power_mult)
qed

lemma nibble_lt: "nibble w k < 16"
  using nibble_div [of w k] by (metis of_nat_less_iff of_nat_numeral pos_mod_bound zero_less_numeral)

lemma hexs_val_snoc: "hexs_val (s @ [c]) = 16 * hexs_val s + hex_val c"
  by (simp add: hexs_val_def)

lemma hex_range_rec: "lo < hi \<Longrightarrow> hex_range w hi lo = hex_range w hi (Suc lo) @ [hex_char (nibble w lo)]"
  by (simp add: hex_range_def upt_conv_Cons)

lemma hexs_val_range: "lo \<le> hi \<Longrightarrow> hexs_val (hex_range w hi lo) = (uint w div 16 ^ lo) mod 16 ^ (hi - lo)"
proof (induction "hi - lo" arbitrary: lo)
  case 0
  then show ?case by (simp add: hex_range_def hexs_val_def)
next
  case (Suc d)
  then have lt: "lo < hi" and d: "hi - Suc lo = d" by simp_all
  have "hexs_val (hex_range w hi lo) = 16 * ((uint w div 16 ^ Suc lo) mod 16 ^ d) + (uint w div 16 ^ lo) mod 16"
    using Suc.hyps(1) [of "Suc lo"] d lt
    by (simp add: hex_range_rec [OF lt] hexs_val_snoc hex_val_digit nibble_lt nibble_div)
  also have "uint w div 16 ^ Suc lo = (uint w div 16 ^ lo) div 16" unfolding power_Suc2 by (rule zdiv_zmult2_eq) simp
  also have "16 * (((uint w div 16 ^ lo) div 16) mod 16 ^ d) + (uint w div 16 ^ lo) mod 16
      = (uint w div 16 ^ lo) mod (16 * 16 ^ d)"
    by (simp add: mod_mult2_eq' zmod_zmult2_eq)
  finally show ?case using Suc.hyps(2) by (simp flip: power_Suc)
qed

lemma hex_range_hex: "c \<in> set (hex_range w hi lo) \<Longrightarrow> c \<in> set hex_digits"
  using nibble_lt by (auto simp: hex_range_def hex_char_digit(2))

lemma hex_range_length [simp]: "length (hex_range w hi lo) = hi - lo"
  by (simp add: hex_range_def)

lemma hex_range_append: "lo \<le> mid \<Longrightarrow> mid \<le> hi \<Longrightarrow> hex_range w hi mid @ hex_range w mid lo = hex_range w hi lo"
proof -
  assume h: "lo \<le> mid" "mid \<le> hi"
  then have "[lo..<hi] = [lo..<mid] @ [mid..<hi]" by (metis le_add_diff_inverse upt_add_eq_append)
  then show ?thesis by (simp add: hex_range_def)
qed

lemma hex_body_ok_hex: "s \<noteq> [] \<Longrightarrow> list_all is_hex_any s \<Longrightarrow> hex_body_ok b s"
  by (induction s arbitrary: b rule: induct_list012) auto

lemma py_int16_range: "py_int16 (hex_range w 32 0) = Some (uint w)"
proof -
  let ?h = "hex_range w 32 0"
  have all: "list_all is_hex_any ?h" "list_all (\<lambda>c. \<not> py_isspace c) ?h"
    "list_all (\<lambda>c. c \<notin> set ''-:{}+xX'') ?h"
    using hex_range_hex hex_digits_facts by (simp_all only: list_all_iff) blast+
  have ne: "?h \<noteq> []" by (simp add: hex_range_def)
  have st: "py_strip ?h = ?h" by (rule py_strip_no_space) (rule all(2))
  obtain c cs where h: "?h = c # cs" using ne by (cases ?h) auto
  have "(case ?h of c # cs \<Rightarrow> if c = CHR ''+'' then cs else ?h | [] \<Rightarrow> []) = ?h"
    using all(3) h by simp
  moreover have "take 2 ?h \<noteq> ''0x''" "take 2 ?h \<noteq> ''0X''"
  proof -
    have x: "CHR ''x'' \<notin> set (take 2 ?h)" "CHR ''X'' \<notin> set (take 2 ?h)"
      using hex_range_hex hex_digits_facts(3) by (force dest!: in_set_takeD)+
    show "take 2 ?h \<noteq> ''0x''" "take 2 ?h \<noteq> ''0X''"
      by (rule notI, use x in \<open>simp only:\<close>, simp)+
  qed
  moreover have "filter is_hex_any ?h = ?h" using all(1) by (simp add: list_all_iff filter_id_conv)
  moreover have "hexs_val ?h = uint w"
    using hexs_val_range [of 0 32 w] uint_bounded [of w] by (simp add: mod_pos_pos_trivial)
  ultimately show ?thesis
    using hex_body_ok_hex [OF ne all(1)] ne by (simp add: py_int16_def st Let_def)
qed

lemma filter_hyphens: "filter (\<lambda>c. c \<noteq> CHR ''-'') (uuid_str w) = hex_range w 32 0"
proof -
  have f: "filter (\<lambda>c. c \<noteq> CHR ''-'') (hex_range w hi lo) = hex_range w hi lo" for hi lo
    by (rule filter_True) (use hex_range_hex hex_digits_facts(3) in force)
  show ?thesis by (simp add: uuid_str_def f hex_range_append)
qed

lemma uuid_str_chars: "c \<in> set (uuid_str w) \<Longrightarrow> c \<noteq> CHR '':'' \<and> c \<noteq> CHR ''{'' \<and> c \<noteq> CHR ''}''"
  by (auto simp: uuid_str_def dest!: hex_range_hex hex_digits_facts(3))

lemma uuid_parse_str [simp]: "uuid_parse (uuid_str w) = Some w"
proof -
  have "remove_sub ''urn:'' (uuid_str w) = uuid_str w" "remove_sub ''uuid:'' (uuid_str w) = uuid_str w"
    using uuid_str_chars by (auto intro!: remove_sub_id simp: list_all_iff)
  moreover have "strip_chars {CHR ''{'', CHR ''}''} (uuid_str w) = uuid_str w"
    using uuid_str_chars by (intro strip_chars_id) (auto simp: list_all_iff)
  ultimately show ?thesis by (simp add: uuid_parse_def filter_hyphens py_int16_range)
qed

lemma uuid_text_str [simp]: "uuid_text (uuid_str w) = Some (uuid_str w)"
  by (simp add: uuid_text_def)

lemma uuid_str_not_space: "c \<in> set (uuid_str w) \<Longrightarrow> \<not> py_isspace c"
proof -
  have "\<not> py_isspace (CHR ''-'')" by code_simp
  then show "c \<in> set (uuid_str w) \<Longrightarrow> \<not> py_isspace c" using hex_digits_facts(2) by (auto simp: uuid_str_def dest!: hex_range_hex)
qed

end
