(* ===== verification/Approvals_Api.thy ===== *)
theory Approvals_Api
  imports Tool_Runtime Py_Uuid
begin

text \<open>
  The HTTP surface of approvals, \<^verbatim>\<open>services/api/src/voyagent_api/approvals.py\<close>, over the tables
  of the Postgres session store. A route is a function from a principal, its parameters, a clock
  reading and the database to a response or an HTTP error, and the new database. The step relation
  \<open>api_step\<close> is any one request; its lemmas say how a row of the approvals table may change.
\<close>

datatype http_error = HTTP nat string

record principal =
  pr_user_id :: string
  pr_tenant_id :: string
  pr_role :: string

record approval_item =
  ai_id :: string
  ai_session_id :: string
  ai_tool_name :: string
  ai_summary :: string
  ai_requested_at :: int
  ai_expires_at :: "int option"
  ai_status :: approval_status
  ai_payload :: obj
  ai_resolved_at :: "int option"
  ai_resolved_by_user_id :: "string option"

record approval_list_response =
  al_items :: "approval_item list"
  al_total :: nat
  al_limit :: int
  al_offset :: int

record approval_audit =
  aa_tenant_id :: string
  aa_actor_id :: "string option"
  aa_tool :: string
  aa_inputs :: obj
  aa_at :: int

record api_db =
  ad_db :: pg_db
  ad_audit :: "approval_audit list"

definition tenant_uuid :: "principal \<Rightarrow> http_error + string" where
  "tenant_uuid p = (case uuid_text (pr_tenant_id p) of
     None \<Rightarrow> Inl (HTTP 401 ''unauthorized'') | Some t \<Rightarrow> Inr t)"

definition row_to_item :: "approval_row \<Rightarrow> approval_item" where
  "row_to_item r = \<lparr>ai_id = pa_id r, ai_session_id = ar_session_id r, ai_tool_name = pa_tool_name r,
     ai_summary = pa_summary r, ai_requested_at = pa_requested_at r, ai_expires_at = pa_expires_at r,
     ai_status = pa_status r, ai_payload = (case ar_payload r of Some (JObj kvs) \<Rightarrow> kvs | _ \<Rightarrow> []),
     ai_resolved_at = pa_resolved_at r, ai_resolved_by_user_id = ar_resolved_by_user_id r\<rparr>"

section \<open>Routes\<close>

text \<open>The join of an approval with its session, filtered by tenant.\<close>

definition owned_by :: "pg_db \<Rightarrow> string \<Rightarrow> approval_row \<Rightarrow> bool" where
  "owned_by db tenant r = (case map_of (db_sessions db) (ar_session_id r) of
     None \<Rightarrow> False | Some s \<Rightarrow> sr_tenant_id s = tenant)"

definition sweep_expired :: "int \<Rightarrow> string \<Rightarrow> pg_db \<Rightarrow> pg_db" where
  "sweep_expired now tenant db = db\<lparr>db_approvals := map (\<lambda>(k, r).
     (k, if row_stale now r \<and> owned_by db tenant r then r\<lparr>pa_status := ApExpired\<rparr> else r)) (db_approvals db)\<rparr>"

definition parse_session_id :: "string option \<Rightarrow> http_error + string option" where
  "parse_session_id s = (case s of None \<Rightarrow> Inr None
     | Some x \<Rightarrow> (case uuid_text x of None \<Rightarrow> Inl (HTTP 422 ''invalid_session_id'') | Some u \<Rightarrow> Inr (Some u)))"

text \<open>
  The filter \<^verbatim>\<open>all\<close> is \<open>None\<close>. Rows with equal request times come in table order; the
  database leaves that order open.
\<close>

definition matching_rows :: "string \<Rightarrow> approval_status option \<Rightarrow> string option \<Rightarrow> pg_db \<Rightarrow> approval_row list" where
  "matching_rows tenant st sid db = sort_key (\<lambda>r. - pa_requested_at r) (filter (\<lambda>r. owned_by db tenant r
     \<and> (case st of None \<Rightarrow> True | Some x \<Rightarrow> pa_status r = x)
     \<and> (case sid of None \<Rightarrow> True | Some x \<Rightarrow> ar_session_id r = x)) (dict_values (db_approvals db)))"

definition list_approvals :: "int \<Rightarrow> principal \<Rightarrow> approval_status option \<Rightarrow> string option \<Rightarrow> int \<Rightarrow> int \<Rightarrow> api_db
    \<Rightarrow> (http_error + approval_list_response) \<times> api_db" where
  "list_approvals now p st session_id limit offset db =
     (if \<not> (1 \<le> limit \<and> limit \<le> 500 \<and> 0 \<le> offset) then (Inl (HTTP 422 ''query''), db)
      else case tenant_uuid p of Inl e \<Rightarrow> (Inl e, db)
      | Inr tenant \<Rightarrow> (case parse_session_id session_id of Inl e \<Rightarrow> (Inl e, db)
        | Inr sid \<Rightarrow>
          (let db1 = sweep_expired now tenant (ad_db db); rows = matching_rows tenant st sid db1
           in (Inr \<lparr>al_items = map row_to_item (take (nat limit) (drop (nat offset) rows)), al_total = length rows,
                    al_limit = limit, al_offset = offset\<rparr>, db\<lparr>ad_db := db1\<rparr>))))"

definition get_approval :: "principal \<Rightarrow> string \<Rightarrow> api_db \<Rightarrow> http_error + approval_item" where
  "get_approval p aid db = bind_res (tenant_uuid p) (\<lambda>tenant.
     case map_of (db_approvals (ad_db db)) aid of
       None \<Rightarrow> Inl (HTTP 404 ''approval_not_found'')
     | Some r \<Rightarrow> if owned_by (ad_db db) tenant r then Inr (row_to_item r) else Inl (HTTP 404 ''approval_not_found''))"

definition approval_audit_row :: "int \<Rightarrow> string \<Rightarrow> principal \<Rightarrow> string \<Rightarrow> approval_row \<Rightarrow> bool \<Rightarrow> string option \<Rightarrow> approval_audit" where
  "approval_audit_row now tenant p aid r granted reason =
     \<lparr>aa_tenant_id = tenant, aa_actor_id = uuid_text (pr_user_id p),
      aa_tool = ''approval.'' @ (if granted then ''granted'' else ''rejected''),
      aa_inputs = [(''approval_id'', JStr aid), (''session_id'', JStr (ar_session_id r)),
        (''tool_name'', JStr (pa_tool_name r)),
        (''reason'', case reason of None \<Rightarrow> JNull | Some x \<Rightarrow> JStr x)],
      aa_at = now\<rparr>"

definition put_row :: "string \<Rightarrow> approval_row \<Rightarrow> api_db \<Rightarrow> api_db" where
  "put_row aid r db = db\<lparr>ad_db := (ad_db db)\<lparr>db_approvals := AList.update aid r (db_approvals (ad_db db))\<rparr>\<rparr>"

definition resolved_row :: "int \<Rightarrow> principal \<Rightarrow> bool \<Rightarrow> approval_row \<Rightarrow> approval_row" where
  "resolved_row now p granted r = r\<lparr>pa_granted := Some granted, pa_resolved_at := Some now,
     ar_resolved_by_user_id := uuid_text (pr_user_id p), pa_status := (if granted then ApGranted else ApRejected)\<rparr>"

text \<open>
  The resolve route. \<open>audit_ok\<close> says whether the best-effort audit insert succeeds; the column
  \<^verbatim>\<open>expires_at\<close> is time-zone aware here, so the normalisation for SQLite does nothing.
\<close>

definition resolve_approval_endpoint :: "int \<Rightarrow> bool \<Rightarrow> principal \<Rightarrow> string \<Rightarrow> bool \<Rightarrow> string option \<Rightarrow> api_db
    \<Rightarrow> (http_error + approval_item) \<times> api_db" where
  "resolve_approval_endpoint now audit_ok p aid granted reason db =
     (case tenant_uuid p of Inl e \<Rightarrow> (Inl e, db)
      | Inr tenant \<Rightarrow>
        (case map_of (db_approvals (ad_db db)) aid of
           None \<Rightarrow> (Inl (HTTP 404 ''approval_not_found''), db)
         | Some r \<Rightarrow>
             if \<not> owned_by (ad_db db) tenant r then (Inl (HTTP 404 ''approval_not_found''), db)
             else if pa_status r \<noteq> ApPending then (Inl (HTTP 409 ''approval_already_resolved''), db)
             else if (case pa_expires_at r of None \<Rightarrow> False | Some d \<Rightarrow> d \<le> now)
             then (Inl (HTTP 409 ''approval_already_resolved''), put_row aid (r\<lparr>pa_status := ApExpired\<rparr>) db)
             else (let r' = resolved_row now p granted r; db1 = put_row aid r' db
                   in (Inr (row_to_item r'), if audit_ok then db1\<lparr>ad_audit := ad_audit db1
                         @ [approval_audit_row now tenant p aid r' granted reason]\<rparr> else db1))))"

text \<open>Any one request.\<close>

inductive api_step :: "api_db \<Rightarrow> api_db \<Rightarrow> bool" where
  step_list: "list_approvals now p st sid limit offset db = (resp, db') \<Longrightarrow> api_step db db'"
| step_get: "get_approval p aid db = resp \<Longrightarrow> api_step db db"
| step_resolve: "resolve_approval_endpoint now audit_ok p aid granted reason db = (resp, db') \<Longrightarrow> api_step db db'"

inductive_cases api_stepE: "api_step db db'"

abbreviation api_run :: "api_db \<Rightarrow> api_db \<Rightarrow> bool" where
  "api_run \<equiv> api_step\<^sup>*\<^sup>*"

section \<open>The life of a row\<close>

definition approval_at :: "api_db \<Rightarrow> string \<Rightarrow> approval_row option" where
  "approval_at db aid = map_of (db_approvals (ad_db db)) aid"

text \<open>The two changes a request may make to a pending row.\<close>

definition expires_to :: "approval_row \<Rightarrow> approval_row \<Rightarrow> bool" where
  "expires_to r r' \<longleftrightarrow> pa_status r = ApPending \<and> pa_expires_at r \<noteq> None \<and> r' = r\<lparr>pa_status := ApExpired\<rparr>"

definition decided_to :: "pg_db \<Rightarrow> approval_row \<Rightarrow> approval_row \<Rightarrow> bool" where
  "decided_to db r r' \<longleftrightarrow> pa_status r = ApPending \<and> (\<exists>(p :: principal) tenant now granted.
     uuid_text (pr_tenant_id p) = Some tenant \<and> owned_by db tenant r
     \<and> (\<forall>d. pa_expires_at r = Some d \<longrightarrow> now < d)
     \<and> r' = r\<lparr>pa_granted := Some granted, pa_resolved_at := Some now,
              ar_resolved_by_user_id := uuid_text (pr_user_id p),
              pa_status := (if granted then ApGranted else ApRejected)\<rparr>)"

lemma sweep_row:
  "map_of (db_approvals (sweep_expired now tenant db)) aid = map_option (\<lambda>r.
     if row_stale now r \<and> owned_by db tenant r then r\<lparr>pa_status := ApExpired\<rparr> else r) (map_of (db_approvals db) aid)"
  by (simp add: sweep_expired_def map_of_map_values)

lemma sweep_sessions [simp]: "db_sessions (sweep_expired now tenant db) = db_sessions db"
  by (simp add: sweep_expired_def)

lemma resolve_effect:
  assumes "resolve_approval_endpoint now audit_ok p aid granted reason db = (resp, db')"
  obtains (unchanged) e where "resp = Inl e" "db' = db"
  | (late) tenant r d where "tenant_uuid p = Inr tenant" "approval_at db aid = Some r" "owned_by (ad_db db) tenant r"
      "pa_status r = ApPending" "pa_expires_at r = Some d" "d \<le> now"
      "ad_db db' = ad_db (put_row aid (r\<lparr>pa_status := ApExpired\<rparr>) db)"
  | (decided) tenant r where "tenant_uuid p = Inr tenant" "approval_at db aid = Some r" "owned_by (ad_db db) tenant r"
      "pa_status r = ApPending" "\<forall>d. pa_expires_at r = Some d \<longrightarrow> now < d"
      "ad_db db' = ad_db (put_row aid (resolved_row now p granted r) db)"
proof (cases "tenant_uuid p")
  case (Inl e)
  with assms show ?thesis by (auto simp: resolve_approval_endpoint_def intro: unchanged)
next
  case (Inr tenant)
  note ten = this
  show ?thesis
  proof (cases "approval_at db aid")
    case None
    with assms ten show ?thesis by (auto simp: resolve_approval_endpoint_def approval_at_def intro: unchanged)
  next
    case (Some r)
    have res: "(if \<not> owned_by (ad_db db) tenant r then (Inl (HTTP 404 ''approval_not_found''), db)
        else if pa_status r \<noteq> ApPending then (Inl (HTTP 409 ''approval_already_resolved''), db)
        else if (case pa_expires_at r of None \<Rightarrow> False | Some d \<Rightarrow> d \<le> now)
        then (Inl (HTTP 409 ''approval_already_resolved''), put_row aid (r\<lparr>pa_status := ApExpired\<rparr>) db)
        else (let r' = resolved_row now p granted r; db1 = put_row aid r' db
              in (Inr (row_to_item r'), if audit_ok then db1\<lparr>ad_audit := ad_audit db1
                    @ [approval_audit_row now tenant p aid r' granted reason]\<rparr> else db1))) = (resp, db')"
      using assms unfolding resolve_approval_endpoint_def ten Some [unfolded approval_at_def] sum.case option.case .
    consider "\<not> owned_by (ad_db db) tenant r \<or> pa_status r \<noteq> ApPending"
      | d where "owned_by (ad_db db) tenant r" "pa_status r = ApPending" "pa_expires_at r = Some d" "d \<le> now"
      | "owned_by (ad_db db) tenant r" "pa_status r = ApPending" "\<forall>d. pa_expires_at r = Some d \<longrightarrow> now < d"
      by (cases "pa_expires_at r") force+
    then show ?thesis
    proof cases
      case 1
      with res show ?thesis by (auto intro: unchanged split: if_splits)
    next
      case 2
      with res late [OF ten Some] show ?thesis by simp
    next
      case 3
      then have "\<not> (case pa_expires_at r of None \<Rightarrow> False | Some d \<Rightarrow> d \<le> now)" by (cases "pa_expires_at r") auto
      with res 3 decided [OF ten Some 3] show ?thesis by (cases audit_ok) (auto simp: Let_def)
    qed
  qed
qed

lemma api_step_sessions:
  assumes "api_step db db'"
  shows "db_sessions (ad_db db') = db_sessions (ad_db db)"
  using assms
proof cases
  case (step_resolve now audit_ok p aid granted reason resp)
  from this show ?thesis by (rule resolve_effect) (simp_all add: put_row_def)
qed (auto simp: list_approvals_def Let_def split: if_splits sum.splits)

lemma put_row_at [simp]: "map_of (db_approvals (ad_db (put_row k r db))) aid = (if aid = k then Some r else approval_at db aid)"
  by (simp add: put_row_def approval_at_def dict_simps)

lemma api_step_row:
  assumes step: "api_step db db'" and row: "approval_at db aid = Some r"
  shows "\<exists>r'. approval_at db' aid = Some r' \<and> (r' = r \<or> expires_to r r' \<or> decided_to (ad_db db) r r')"
  using step
proof cases
  case (step_list now p st sid limit offset resp)
  then show ?thesis
    using row
    by (auto simp: list_approvals_def Let_def approval_at_def sweep_row expires_to_def row_stale_def
        split: if_splits sum.splits option.splits)
next
  case (step_get p aid' resp)
  then show ?thesis using row by simp
next
  case (step_resolve now audit_ok p k granted reason resp)
  from this show ?thesis
  proof (rule resolve_effect)
    fix e assume "resp = Inl e" "db' = db"
    then show ?thesis using row by simp
  next
    fix tenant x d
    assume x: "approval_at db k = Some x" "pa_status x = ApPending" "pa_expires_at x = Some d"
      "ad_db db' = ad_db (put_row k (x\<lparr>pa_status := ApExpired\<rparr>) db)"
    then show ?thesis using row by (cases "k = aid") (auto simp: approval_at_def [of db'] expires_to_def)
  next
    fix tenant x
    assume x: "tenant_uuid p = Inr tenant" "approval_at db k = Some x" "owned_by (ad_db db) tenant x"
      "pa_status x = ApPending" "\<forall>d. pa_expires_at x = Some d \<longrightarrow> now < d"
      "ad_db db' = ad_db (put_row k (resolved_row now p granted x) db)"
    have "decided_to (ad_db db) x (resolved_row now p granted x)"
      using x unfolding decided_to_def resolved_row_def tenant_uuid_def
      by (auto split: option.splits intro!: exI [of _ p])
    then show ?thesis using x row by (cases "k = aid") (auto simp: approval_at_def [of db'])
  qed
qed

lemma owned_by_sessions: "db_sessions a = db_sessions b \<Longrightarrow> owned_by a = owned_by b"
  by (auto simp: owned_by_def fun_eq_iff)

lemma decided_to_sessions: "db_sessions a = db_sessions b \<Longrightarrow> decided_to a r r' = decided_to b r r'"
  using owned_by_sessions [of a b] by (simp add: decided_to_def)

lemma changed_not_pending: "expires_to r r' \<or> decided_to db r r' \<Longrightarrow> pa_status r' \<noteq> ApPending"
  by (auto simp: expires_to_def decided_to_def split: if_splits)

lemma changed_pending: "expires_to r r' \<or> decided_to db r r' \<Longrightarrow> pa_status r = ApPending"
  by (auto simp: expires_to_def decided_to_def)

lemma api_run_row:
  assumes "api_run db db'" "approval_at db aid = Some r"
  shows "db_sessions (ad_db db') = db_sessions (ad_db db)
    \<and> (\<exists>r'. approval_at db' aid = Some r' \<and> (r' = r \<or> expires_to r r' \<or> decided_to (ad_db db) r r'))"
  using assms(1)
proof (induction rule: rtranclp_induct)
  case base
  then show ?case using assms(2) by simp
next
  case (step y z)
  then obtain r1 where r1: "approval_at y aid = Some r1" "r1 = r \<or> expires_to r r1 \<or> decided_to (ad_db db) r r1"
    and ses: "db_sessions (ad_db y) = db_sessions (ad_db db)" by auto
  from api_step_row [OF step.hyps(2) r1(1)] obtain r2 where r2: "approval_at z aid = Some r2"
    "r2 = r1 \<or> expires_to r1 r2 \<or> decided_to (ad_db db) r1 r2"
    using decided_to_sessions [OF ses] by auto
  have "r2 = r \<or> expires_to r r2 \<or> decided_to (ad_db db) r r2"
  proof (cases "r1 = r")
    case False
    then have "pa_status r1 \<noteq> ApPending" using r1(2) changed_not_pending by auto
    then have "r2 = r1" using r2(2) by (auto simp: expires_to_def decided_to_def)
    with r1(2) show ?thesis by simp
  qed (use r2(2) in simp)
  with r2(1) api_step_sessions [OF step.hyps(2)] ses show ?case by simp
qed

text \<open>Claim C3. An approval is decided once, in time, by its own tenant. Over any sequence of requests
  to the approval routes - any callers, any parameters, any clock readings, audit inserts that fail
  or not - a row changes at most once: a pending row that has a deadline may become expired, or a
  principal whose tenant owns the row's session decides it before the deadline, which records the
  decision, the time and the resolver. Expired and decided rows stay as they are for ever.
\<close>

theorem approval_decided_once:
  assumes "api_run db db'" "approval_at db aid = Some r"
  shows "\<exists>r'. approval_at db' aid = Some r'
    \<and> (r' = r \<or> expires_to r r' \<or> decided_to (ad_db db) r r')
    \<and> (pa_status r \<noteq> ApPending \<longrightarrow> r' = r)"
  using api_run_row [OF assms] changed_pending by blast

definition sample_api_row :: approval_row where
  "sample_api_row = \<lparr>pa_id = ''ap-t-1-issue_ticket'', pa_tool_name = ''issue_ticket'', pa_summary = ''Issue'',
     pa_turn_id = ''t-1'', pa_requested_at = 0, pa_granted = None, pa_resolved_at = None, pa_expires_at = Some 900,
     pa_status = ApPending, ar_session_id = ''s'', ar_payload = None, ar_resolved_by_user_id = None\<rparr>"

definition sample_api_db :: api_db where
  "sample_api_db = \<lparr>ad_db = \<lparr>db_sessions = [(''s'', \<lparr>sr_id = ''s'', sr_tenant_id = uuid_str 7, sr_actor_id = None,
       sr_actor_kind = HUMAN, sr_title = None, sr_created_at = 0, sr_updated_at = 0\<rparr>)],
     db_messages = [], db_approvals = [(''ap-t-1-issue_ticket'', sample_api_row)]\<rparr>, ad_audit = []\<rparr>"

definition sample_principal :: principal where
  "sample_principal = \<lparr>pr_user_id = uuid_str 9, pr_tenant_id = uuid_str 7, pr_role = ''agency_admin''\<rparr>"

theorem approval_decided_once_witness:
  "\<exists>r'. approval_at (snd (resolve_approval_endpoint 5 True sample_principal ''ap-t-1-issue_ticket'' True None sample_api_db))
      ''ap-t-1-issue_ticket'' = Some r' \<and> pa_status r' = ApGranted
    \<and> (r' = sample_api_row \<or> expires_to sample_api_row r' \<or> decided_to (ad_db sample_api_db) sample_api_row r')"
proof -
  let ?aid = "''ap-t-1-issue_ticket''"
  define db' where "db' = snd (resolve_approval_endpoint 5 True sample_principal ?aid True None sample_api_db)"
  have "api_step sample_api_db db'" by (rule step_resolve) (simp add: db'_def prod_eq_iff)
  then have run: "api_run sample_api_db db'" by (rule r_into_rtranclp)
  have row: "approval_at sample_api_db ?aid = Some sample_api_row" by (simp add: approval_at_def sample_api_db_def)
  have "approval_at db' ?aid = Some (resolved_row 5 sample_principal True sample_api_row)"
    using row
    by (simp add: db'_def resolve_approval_endpoint_def tenant_uuid_def sample_principal_def owned_by_def
        approval_at_def sample_api_db_def put_row_def Let_def) (simp add: sample_api_row_def)
  with approval_decided_once [OF run row] show ?thesis by (simp add: db'_def [symmetric] resolved_row_def)
qed

text \<open>What the approval list shows. A listing that succeeds returns one page of the rows of the
  caller's tenant with the wanted status and session, newest request first; the total counts them
  all, and after the listing no row of that tenant whose deadline has passed is pending, so no
  item is shown as pending after its deadline. Rows of other tenants do not change.
\<close>

theorem approval_list_fresh:
  assumes "list_approvals now p st sid limit offset db = (Inr resp, db')"
  shows "\<exists>tenant rows. uuid_text (pr_tenant_id p) = Some tenant
    \<and> al_items resp = map row_to_item (take (nat limit) (drop (nat offset) rows)) \<and> al_total resp = length rows
    \<and> sorted_wrt (\<lambda>a b. pa_requested_at b \<le> pa_requested_at a) rows
    \<and> (\<forall>r \<in> set rows. owned_by (ad_db db) tenant r \<and> (\<forall>x. st = Some x \<longrightarrow> pa_status r = x) \<and> \<not> row_stale now r)
    \<and> (\<forall>aid r. approval_at db' aid = Some r \<longrightarrow> owned_by (ad_db db) tenant r \<longrightarrow> \<not> row_stale now r)
    \<and> (\<forall>aid r. approval_at db aid = Some r \<longrightarrow> \<not> owned_by (ad_db db) tenant r \<longrightarrow> approval_at db' aid = Some r)"
proof -
  from assms obtain tenant sid' where ten: "uuid_text (pr_tenant_id p) = Some tenant"
    and db': "db' = db\<lparr>ad_db := sweep_expired now tenant (ad_db db)\<rparr>"
    and resp: "al_items resp = map row_to_item (take (nat limit) (drop (nat offset)
        (matching_rows tenant st sid' (sweep_expired now tenant (ad_db db)))))"
      "al_total resp = length (matching_rows tenant st sid' (sweep_expired now tenant (ad_db db)))"
    by (auto simp: list_approvals_def tenant_uuid_def Let_def split: if_splits sum.splits option.splits)
  define rows where "rows = matching_rows tenant st sid' (sweep_expired now tenant (ad_db db))"
  have "sorted (map (\<lambda>r. - pa_requested_at r) rows)" by (simp add: rows_def matching_rows_def)
  then have srt: "sorted_wrt (\<lambda>a b. pa_requested_at b \<le> pa_requested_at a) rows" by (simp add: sorted_map)
  have fresh: "\<not> row_stale now r" if "r \<in> snd ` set (db_approvals (sweep_expired now tenant (ad_db db)))"
    "owned_by (ad_db db) tenant r" for r
    using that by (auto simp: sweep_expired_def row_stale_def owned_by_def split: if_splits)
  have "owned_by (ad_db db) tenant r \<and> (\<forall>x. st = Some x \<longrightarrow> pa_status r = x) \<and> \<not> row_stale now r" if "r \<in> set rows" for r
    using that fresh owned_by_sessions [of "sweep_expired now tenant (ad_db db)" "ad_db db"]
    by (auto simp: rows_def matching_rows_def dict_values_def split: option.splits)
  moreover have "\<not> row_stale now r" if "approval_at db' aid = Some r" "owned_by (ad_db db) tenant r" for aid r
    using that fresh by (force simp: approval_at_def db' dest: map_of_SomeD)
  moreover have "approval_at db' aid = Some r" if "approval_at db aid = Some r" "\<not> owned_by (ad_db db) tenant r" for aid r
    using that by (simp add: approval_at_def db' sweep_row)
  ultimately show ?thesis using ten resp srt by (auto simp: rows_def)
qed

theorem approval_list_fresh_witness:
  "\<exists>tenant (rows :: approval_row list). uuid_text (pr_tenant_id sample_principal) = Some tenant
    \<and> (\<forall>r \<in> set rows. \<not> row_stale 1000 r)
    \<and> length rows = al_total (projr (fst (list_approvals 1000 sample_principal (Some ApExpired) None 50 0 sample_api_db)))"
proof -
  let ?call = "list_approvals 1000 sample_principal (Some ApExpired) None 50 0 sample_api_db"
  obtain resp db' where call: "?call = (Inr resp, db')"
    by (simp add: list_approvals_def tenant_uuid_def sample_principal_def parse_session_id_def Let_def)
  from approval_list_fresh [OF call] obtain tenant and rows :: "approval_row list" where
    "uuid_text (pr_tenant_id sample_principal) = Some tenant" "al_total resp = length rows"
    "\<forall>r \<in> set rows. \<not> row_stale 1000 r" by blast
  then show ?thesis by (intro exI [of _ tenant] exI [of _ rows]) (simp add: call)
qed

end
