(* ===== verification/Chat_Stream.thy ===== *)
theory Chat_Stream
  imports Orchestrator Approvals_Api
begin

text \<open>
  The chat routes of \<^verbatim>\<open>services/api/src/voyagent_api/chat.py\<close>: creating, reading, renaming and
  deleting a session, and the event stream of a turn with its replay buffer. Turning an event into
  the JSON text of a frame (pydantic and the timestamp) is the argument \<open>dump\<close>, and recognising a
  final frame by its text the argument \<open>is_final\<close>. The heartbeat frames, which carry no id, are
  left out. The log of a session, all the frames it ever got an id for, is a ghost variable.
\<close>

section \<open>Sessions\<close>

definition create_session :: "int \<Rightarrow> string \<Rightarrow> string \<Rightarrow> string \<Rightarrow> (string, session) dict \<Rightarrow> (string, session) dict" where
  "create_session now sid tenant user st = store_put st
     \<lparr>s_id = sid, s_tenant_id = tenant, s_actor_id = user, s_actor_kind = HUMAN, s_message_history = [],
      s_pending_approvals = [], s_sse_last_event_id = 0, s_sse_event_buffer = [], s_created_at = now, s_updated_at = now\<rparr>"

definition owned_session :: "string \<Rightarrow> string \<Rightarrow> (string, session) dict \<Rightarrow> http_error + session" where
  "owned_session tenant sid st = (case store_get st sid of
     None \<Rightarrow> Inl (HTTP 404 ''session_not_found'')
   | Some s \<Rightarrow> if s_tenant_id s \<noteq> tenant then Inl (HTTP 404 ''session_not_found'') else Inr s)"

record session_summary =
  ss_session_id :: string
  ss_tenant_id :: string
  ss_actor_id :: string
  ss_message_count :: nat
  ss_pending_approvals :: "(string \<times> string \<times> string) list"

definition get_session :: "string \<Rightarrow> string \<Rightarrow> (string, session) dict \<Rightarrow> http_error + session_summary" where
  "get_session tenant sid st = bind_res (owned_session tenant sid st) (\<lambda>s.
     Inr \<lparr>ss_session_id = s_id s, ss_tenant_id = s_tenant_id s, ss_actor_id = s_actor_id s,
          ss_message_count = length (s_message_history s),
          ss_pending_approvals = map (\<lambda>ap. (pa_id ap, pa_tool_name ap, pa_summary ap))
            (filter (\<lambda>ap. pa_granted ap = None) (dict_values (s_pending_approvals s)))\<rparr>)"

definition derive_title :: "string \<Rightarrow> string option" where
  "derive_title message =
     (if message = [] then None
      else let cleaned = py_strip message
           in if cleaned = [] then None
              else if length cleaned \<le> 60 then Some cleaned else Some (take 60 cleaned))"

definition delete_session :: "string \<Rightarrow> string \<Rightarrow> pg_db \<Rightarrow> http_error + pg_db" where
  "delete_session tenant sid db =
     (case map_of (db_sessions db) sid of
        None \<Rightarrow> Inl (HTTP 404 ''session_not_found'')
      | Some row \<Rightarrow>
          if sr_tenant_id row \<noteq> tenant then Inl (HTTP 404 ''session_not_found'')
          else Inr (db\<lparr>db_approvals := filter (\<lambda>(k, r). ar_session_id r \<noteq> sid) (db_approvals db),
                       db_messages := filter (\<lambda>m. mr_session_id m \<noteq> sid) (db_messages db),
                       db_sessions := AList.delete sid (db_sessions db)\<rparr>))"

definition rename_session :: "string \<Rightarrow> string \<Rightarrow> string \<Rightarrow> pg_db \<Rightarrow> http_error + (string \<times> nat) \<times> pg_db" where
  "rename_session tenant sid title db =
     (let trimmed = py_strip title
      in if title = [] \<or> length title > 200 then Inl (HTTP 422 ''body'')
         else if trimmed = [] then Inl (HTTP 422 ''title_empty'')
         else if length trimmed > 200 then Inl (HTTP 422 ''title_too_long'')
         else case map_of (db_sessions db) sid of
                None \<Rightarrow> Inl (HTTP 404 ''session_not_found'')
              | Some row \<Rightarrow>
                  if sr_tenant_id row \<noteq> tenant then Inl (HTTP 404 ''session_not_found'')
                  else Inr ((trimmed, length (filter (\<lambda>m. mr_session_id m = sid) (db_messages db))),
                            db\<lparr>db_sessions := AList.update sid (row\<lparr>sr_title := Some trimmed\<rparr>) (db_sessions db)\<rparr>))"

section \<open>The event stream\<close>

type_synonym frame = "int \<times> string"

definition append_to_buffer :: "nat \<Rightarrow> frame \<Rightarrow> frame list \<Rightarrow> frame list" where
  "append_to_buffer cap f buf = (let b = buf @ [f] in drop (length b - cap) b)"

definition next_event_id :: "session \<Rightarrow> int" where
  "next_event_id s = s_sse_last_event_id s + 1"

text \<open>Give a frame the next id, buffer it, send it.\<close>

definition emit :: "nat \<Rightarrow> string \<Rightarrow> session \<Rightarrow> frame \<times> session" where
  "emit cap data s = (let eid = next_event_id s in
     ((eid, data), s\<lparr>s_sse_last_event_id := eid, s_sse_event_buffer := append_to_buffer cap (eid, data) (s_sse_event_buffer s)\<rparr>))"

fun emit_all :: "nat \<Rightarrow> string list \<Rightarrow> session \<Rightarrow> frame list \<times> session" where
  "emit_all cap [] s = ([], s)"
| "emit_all cap (d # ds) s = (let (f, s1) = emit cap d s; (fs, s2) = emit_all cap ds s1 in (f # fs, s2))"

definition parse_last_id :: "string option \<Rightarrow> int option" where
  "parse_last_id raw = (case raw of None \<Rightarrow> None | Some t \<Rightarrow> if t = [] then None else py_int (py_strip t))"

definition replay_requested :: "string option \<Rightarrow> bool" where
  "replay_requested raw \<longleftrightarrow> raw \<noteq> None \<and> raw \<noteq> Some []"

definition replayed :: "int \<Rightarrow> session \<Rightarrow> frame list" where
  "replayed k s = filter (\<lambda>(eid, data). eid > k) (s_sse_event_buffer s)"

text \<open>
  The texts of the live frames of a turn: the events are read until one finds the client gone
  (\<open>gone\<close> is the number of events read before that) or a final one is sent; an exception of the
  turn gives one error frame more.
\<close>

fun live_texts :: "(agent_event \<Rightarrow> string) \<Rightarrow> nat option \<Rightarrow> agent_event list \<Rightarrow> string option \<Rightarrow> string list" where
  "live_texts dump gone [] failure = (case failure of None \<Rightarrow> [] | Some t \<Rightarrow> [t])"
| "live_texts dump gone (e # es) failure =
     (if gone = Some 0 then []
      else if ev_kind e = FINAL then [dump e]
      else dump e # live_texts dump (map_option (\<lambda>n. n - 1) gone) es failure)"

text \<open>
  The generator \<^verbatim>\<open>event_source\<close>: replay, then the turn unless the replay ends with a final
  frame or there is nothing new to do. It returns the replayed frames, the frames that are new, and
  the session; \<open>turn\<close> gives the texts of the turn's frames and the session after it, whose stream
  fields it leaves alone.
\<close>

definition event_source :: "nat \<Rightarrow> (string \<Rightarrow> bool) \<Rightarrow> string \<Rightarrow> string option \<Rightarrow> bool \<Rightarrow> (session \<Rightarrow> string list \<times> session)
    \<Rightarrow> session \<Rightarrow> frame list \<times> frame list \<times> session" where
  "event_source cap is_final err_text raw idle turn s =
     (if \<not> replay_requested raw then
        (let (ds, s1) = turn s; (fs, s2) = emit_all cap ds s1 in ([], fs, s2))
      else case parse_last_id raw of
        Some k \<Rightarrow>
          if k \<le> s_sse_last_event_id s then
            (let old = replayed k s
             in if old \<noteq> [] \<and> is_final (snd (last old)) then (old, [], s)
                else if idle then (old, [], s)
                else (let (ds, s1) = turn s; (fs, s2) = emit_all cap ds s1 in (old, fs, s2)))
          else (let (ds, s1) = turn s; (fs, s2) = emit_all cap (err_text # ds) s1 in ([], fs, s2))
      | None \<Rightarrow> (let (ds, s1) = turn s; (fs, s2) = emit_all cap (err_text # ds) s1 in ([], fs, s2)))"

text \<open>
  The route for sending a message, with the in-memory store and a turn of the orchestrator that
  the client reads to the end.
\<close>

definition turn_of :: "('a, 'w, 'c) orchestrator \<Rightarrow> (agent_event \<Rightarrow> string) \<Rightarrow> string \<Rightarrow> turn_clock \<Rightarrow> string
    \<Rightarrow> (string, bool) dict option \<Rightarrow> string \<Rightarrow> ('a, 'w, 'c) turn_state \<Rightarrow> session \<Rightarrow> string list \<times> session" where
  "turn_of orch dump tid clock msg approvals role tu s =
     (let (evs, tu') = run_turn orch tid clock msg approvals role (tu\<lparr>tu_session := s\<rparr>)
      in (live_texts dump None evs None, tu_session tu'))"

definition send_message :: "(string \<Rightarrow> bool) \<Rightarrow> string \<Rightarrow> ('a, 'w, 'c) orchestrator \<Rightarrow> (agent_event \<Rightarrow> string) \<Rightarrow> string
    \<Rightarrow> turn_clock \<Rightarrow> string \<Rightarrow> string \<Rightarrow> string \<Rightarrow> (string, bool) dict option \<Rightarrow> string \<Rightarrow> string option
    \<Rightarrow> ('a, 'w, 'c) turn_state \<Rightarrow> (string, session) dict \<Rightarrow> http_error + frame list \<times> (string, session) dict" where
  "send_message is_final err_text orch dump tid clock tenant sid msg approvals role raw tu st =
     bind_res (owned_session tenant sid st) (\<lambda>s.
       let (old, new, s') = event_source SSE_REPLAY_BUFFER_CAP is_final err_text raw
             (msg = [] \<and> (approvals = None \<or> approvals = Some []))
             (turn_of orch dump tid clock msg approvals role tu) s
       in Inr (old @ new, store_put st s'))"

section \<open>The turn leaves the stream fields alone\<close>

definition same_stream :: "session \<Rightarrow> session \<Rightarrow> bool" where
  "same_stream s s' \<longleftrightarrow> s_id s' = s_id s \<and> s_sse_last_event_id s' = s_sse_last_event_id s
     \<and> s_sse_event_buffer s' = s_sse_event_buffer s"

lemma same_stream_refl [simp]: "same_stream s s"
  by (simp add: same_stream_def)

lemma same_stream_trans: "same_stream a b \<Longrightarrow> same_stream b c \<Longrightarrow> same_stream a c"
  by (simp add: same_stream_def)

lemma same_stream_history [simp]: "same_stream s (s\<lparr>s_message_history := h\<rparr>)"
  by (simp add: same_stream_def)

lemma same_stream_sync: "same_stream s (sync_history s w)"
  by (simp add: sync_history_def same_stream_def Let_def)

lemma domain_agent_run_stream:
  "domain_agent_run env ag goal user s st = (e, s', st') \<Longrightarrow> same_stream s s'"
  by (auto simp: domain_agent_run_def Let_def same_stream_sync split: prod.splits)

lemma run_handoff_stream: "run_handoff orch tid d goal user s st = (s', st') \<Longrightarrow> same_stream s s'"
  by (auto simp: run_handoff_def Let_def split: sum.splits if_splits prod.splits dest: domain_agent_run_stream)

lemma gated_turn_stream:
  assumes "gated_turn orch tid user approvals role tu = (s', st')"
  shows "same_stream (tu_session tu) s'"
proof -
  have "same_stream (tu_session tu) (sync_history ((tu_session tu)\<lparr>s_message_history := h\<rparr>) w)" for h w
    by (rule same_stream_trans [OF same_stream_history same_stream_sync])
  then show ?thesis
    using assms
    by (auto simp: gated_turn_def Let_def split: prod.splits option.splits if_splits
        dest!: run_handoff_stream intro: same_stream_trans)
qed

lemma run_turn_stream:
  "run_turn orch tid clock user approvals role tu = (evs, tu') \<Longrightarrow> same_stream (tu_session tu) (tu_session tu')"
  by (auto simp: run_turn_def Let_def split: prod.splits option.splits dest: gated_turn_stream)

lemma turn_of_stream: "turn_of orch dump tid clock msg approvals role tu s = (ds, s') \<Longrightarrow> same_stream s s'"
  by (auto simp: turn_of_def split: prod.splits dest!: run_turn_stream)

section \<open>The log and the buffer\<close>

inductive chat_log :: "nat \<Rightarrow> session \<Rightarrow> frame list \<Rightarrow> bool" for cap :: nat where
  log_new: "s_sse_last_event_id s = 0 \<Longrightarrow> s_sse_event_buffer s = [] \<Longrightarrow> chat_log cap s []"
| log_other: "chat_log cap s lg \<Longrightarrow> same_stream s s' \<Longrightarrow> chat_log cap s' lg"
| log_request: "chat_log cap s lg \<Longrightarrow> (\<And>ds s1. turn s = (ds, s1) \<Longrightarrow> same_stream s s1)
    \<Longrightarrow> event_source cap is_final err_text raw idle turn s = (old, new, s') \<Longrightarrow> chat_log cap s' (lg @ new)"

inductive_cases chat_logE: "chat_log cap s lg"

definition log_inv :: "nat \<Rightarrow> session \<Rightarrow> frame list \<Rightarrow> bool" where
  "log_inv cap s lg \<longleftrightarrow> (\<forall>i < length lg. fst (lg ! i) = int (1 + i))
     \<and> s_sse_last_event_id s = int (length lg) \<and> s_sse_event_buffer s = drop (length lg - cap) lg"

lemma log_inv_stream: "log_inv cap s lg \<Longrightarrow> same_stream s s' \<Longrightarrow> log_inv cap s' lg"
  by (simp add: log_inv_def same_stream_def)

lemma buffer_window: "append_to_buffer cap f (drop (length lg - cap) lg) = drop (length (lg @ [f]) - cap) (lg @ [f])"
  by (cases "cap \<le> length lg") (auto simp: append_to_buffer_def Let_def Suc_diff_le)

lemma emit_inv:
  assumes "log_inv cap s lg" "emit cap d s = (f, s')"
  shows "log_inv cap s' (lg @ [f]) \<and> f = (int (length lg) + 1, d)"
proof -
  have f: "f = (int (length lg) + 1, d)" "s_sse_last_event_id s' = int (length lg) + 1"
    "s_sse_event_buffer s' = append_to_buffer cap f (drop (length lg - cap) lg)"
    using assms by (auto simp: emit_def next_event_id_def log_inv_def Let_def)
  have "\<forall>i < length (lg @ [f]). fst ((lg @ [f]) ! i) = int (1 + i)"
    using assms(1) f(1) by (auto simp: log_inv_def nth_append less_Suc_eq)
  with f show ?thesis unfolding log_inv_def buffer_window by simp
qed

lemma emit_all_inv:
  assumes "log_inv cap s lg" "emit_all cap ds s = (fs, s')"
  shows "log_inv cap s' (lg @ fs) \<and> map snd fs = ds"
  using assms
proof (induction ds arbitrary: s lg fs s')
  case (Cons d ds)
  obtain f s1 where f: "emit cap d s = (f, s1)" by (cases "emit cap d s")
  obtain fs' s2 where fs': "emit_all cap ds s1 = (fs', s2)" by (cases "emit_all cap ds s1")
  have split: "fs = f # fs'" "s' = s2" using Cons.prems(2) f fs' by auto
  from emit_inv [OF Cons.prems(1) f] have e: "log_inv cap s1 (lg @ [f])" "f = (int (length lg) + 1, d)" by auto
  from Cons.IH [OF e(1) fs'] e(2) split show ?case by simp
qed simp

lemma emit_all_id: "emit_all cap ds s = (fs, s') \<Longrightarrow> s_id s' = s_id s"
  by (induction ds arbitrary: s fs) (auto simp: emit_def Let_def split: prod.splits)

lemma event_source_inv:
  assumes "log_inv cap s lg" "\<And>ds s1. turn s = (ds, s1) \<Longrightarrow> same_stream s s1"
    and "event_source cap is_final err_text raw idle turn s = (old, new, s')"
  shows "log_inv cap s' (lg @ new)"
proof -
  obtain ds s1 where t: "turn s = (ds, s1)" by (cases "turn s")
  have s1: "log_inv cap s1 lg" by (rule log_inv_stream [OF assms(1) assms(2) [OF t]])
  obtain fs s2 where e: "emit_all cap ds s1 = (fs, s2)" by (cases "emit_all cap ds s1")
  obtain fs' s2' where e': "emit_all cap (err_text # ds) s1 = (fs', s2')" by (cases "emit_all cap (err_text # ds) s1")
  have "(new, s') = ([], s) \<or> (new, s') = (fs, s2) \<or> (new, s') = (fs', s2')"
    using assms(3) unfolding event_source_def t e e' Let_def prod.case
    by (auto split: if_splits option.splits)
  then show ?thesis
    using emit_all_inv [OF s1 e] emit_all_inv [OF s1 e'] assms(1) by auto
qed

lemma chat_log_inv: "chat_log cap s lg \<Longrightarrow> log_inv cap s lg"
proof (induction rule: chat_log.induct)
  case (log_new s)
  then show ?case by (simp add: log_inv_def)
next
  case (log_other s lg s')
  then show ?case by (rule_tac log_inv_stream)
next
  case (log_request s lg turn is_final err_text raw idle old new s')
  then show ?case by (rule_tac event_source_inv)
qed

lemma filter_ids:
  assumes "\<forall>i < length lg. fst (lg ! i) = int (a + i)"
  shows "filter (\<lambda>(eid, d). eid > k) lg = drop (nat (k + 1 - int a)) lg"
  using assms
proof (induction lg arbitrary: a)
  case (Cons f lg)
  have f: "fst f = int a" "\<forall>i < length lg. fst (lg ! i) = int (Suc a + i)"
    using Cons.prems by force+
  show ?case
  proof (cases "int a > k")
    case True
    then have "nat (k + 1 - int a) = 0" "nat (k + 1 - int (Suc a)) = 0" by auto
    with Cons.IH [OF f(2)] f(1) True show ?thesis by (cases f) simp
  next
    case False
    then have "nat (k + 1 - int a) = Suc (nat (k + 1 - int (Suc a)))" by simp
    with Cons.IH [OF f(2)] f(1) False show ?thesis by (cases f) simp
  qed
qed simp

lemma replayed_log:
  assumes "log_inv cap s lg" "0 \<le> k"
  shows "replayed k s = drop (max (nat k) (length lg - cap)) lg"
proof -
  define m where "m = length lg - cap"
  have "\<forall>i < length (drop m lg). fst (drop m lg ! i) = int ((1 + m) + i)"
    using assms(1) by (auto simp: log_inv_def)
  then have "filter (\<lambda>(eid, d). eid > k) (drop m lg) = drop (nat (k + 1 - int (1 + m))) (drop m lg)"
    by (rule filter_ids)
  moreover have "nat (k + 1 - int (1 + m)) + m = max (nat k) m" using assms(2) by auto
  ultimately show ?thesis using assms(1) by (simp add: replayed_def log_inv_def m_def)
qed

lemma live_texts_all:
  "list_all (\<lambda>e. ev_kind e \<noteq> FINAL) body \<Longrightarrow> ev_kind f = FINAL
    \<Longrightarrow> live_texts dump None (body @ [f]) None = map dump (body @ [f])"
  by (induction body) auto

lemma turn_of_texts:
  "fst (turn_of orch dump tid clock msg approvals role tu s)
    = map dump (fst (run_turn orch tid clock msg approvals role (tu\<lparr>tu_session := s\<rparr>)))"
proof -
  obtain body where b: "fst (run_turn orch tid clock msg approvals role (tu\<lparr>tu_session := s\<rparr>))
      = body @ [event FINAL (s_id s) tid]" "list_all (turn_event (s_id s) tid) body"
    using run_turn_shape [of orch tid clock msg approvals role "tu\<lparr>tu_session := s\<rparr>"] by auto
  have "live_texts dump None (body @ [event FINAL (s_id s) tid]) None = map dump (body @ [event FINAL (s_id s) tid])"
    by (rule live_texts_all) (use b(2) in \<open>auto simp: list_all_iff turn_event_def event_def\<close>)
  with b(1) show ?thesis by (simp add: turn_of_def split_beta)
qed

text \<open>Claim C14. Reconnecting. Take any session, after any requests, interrupted ones among them: its stream ids
  count the frames it ever sent. A client that has the first \<open>k\<close> of them posts a message again with that id. It is sent
  first the frames after \<open>k\<close> that are among the last \<open>SSE_REPLAY_BUFFER_CAP\<close>, so while no more were sent since,
  nothing is missing or repeated; beyond that the older frames are skipped without any error frame. If one of these is
  there to be sent and the last frame of all is a final one, or if the request has no message and no approvals, nothing
  else happens. In every other case the replay is followed by a whole turn of the orchestrator on the message that was posted,
  which goes on with the numbering: a client cut off before the final frame has its message run again.
\<close>

theorem sse_reconnect_replays:
  assumes "store_get st sid = Some s" "s_id s = sid" "s_tenant_id s = tenant" "chat_log SSE_REPLAY_BUFFER_CAP s lg"
    and "py_int (py_strip t) = Some k" "0 \<le> k" "k \<le> int (length lg)"
  shows "\<exists>new s'. send_message is_final err_text orch dump tid clock tenant sid msg approvals role (Some t) tu st
      = Inr (drop (max (nat k) (length lg - SSE_REPLAY_BUFFER_CAP)) lg @ new, store_put st s')
    \<and> chat_log SSE_REPLAY_BUFFER_CAP s' (lg @ new) \<and> (\<forall>i < length (lg @ new). fst ((lg @ new) ! i) = int (1 + i))
    \<and> (length lg \<le> nat k + SSE_REPLAY_BUFFER_CAP \<longrightarrow> take (nat k) lg @ drop (max (nat k) (length lg - SSE_REPLAY_BUFFER_CAP)) lg = lg)
    \<and> (if nat k < length lg \<and> is_final (snd (last lg)) \<or> msg = [] \<and> (approvals = None \<or> approvals = Some []) then new = [] \<and> s' = s
       else map snd new = map dump (fst (run_turn orch tid clock msg approvals role (tu\<lparr>tu_session := s\<rparr>))))"
proof -
  let ?turn = "turn_of orch dump tid clock msg approvals role tu"
  let ?idle = "msg = [] \<and> (approvals = None \<or> approvals = Some [])"
  let ?old = "drop (max (nat k) (length lg - SSE_REPLAY_BUFFER_CAP)) lg"
  have inv: "log_inv SSE_REPLAY_BUFFER_CAP s lg" by (rule chat_log_inv [OF assms(4)])
  have "t \<noteq> []" using assms(5) by (auto simp: py_strip_def py_lstrip_def py_rstrip_def py_int_def)
  then have k: "parse_last_id (Some t) = Some k" "replay_requested (Some t)" "k \<le> s_sse_last_event_id s"
    using assms(5,7) inv by (auto simp: parse_last_id_def replay_requested_def log_inv_def)
  have old: "replayed k s = ?old" by (rule replayed_log [OF inv assms(6)])
  have fin: "(?old \<noteq> [] \<and> is_final (snd (last ?old))) = (nat k < length lg \<and> is_final (snd (last lg)))"
  proof (cases "nat k < length lg")
    case True
    then have "max (nat k) (length lg - SSE_REPLAY_BUFFER_CAP) < length lg" by (auto simp: SSE_REPLAY_BUFFER_CAP_def)
    then show ?thesis using True last_drop [of "max (nat k) (length lg - SSE_REPLAY_BUFFER_CAP)" lg] by auto
  qed (simp add: max_def)
  obtain ds s1 where turn: "?turn s = (ds, s1)" by (cases "?turn s")
  obtain fs s2 where e: "emit_all SSE_REPLAY_BUFFER_CAP ds s1 = (fs, s2)" by (cases "emit_all SSE_REPLAY_BUFFER_CAP ds s1")
  let ?quiet = "nat k < length lg \<and> is_final (snd (last lg)) \<or> ?idle"
  define new s' where "new = (if ?quiet then [] else fs)" and "s' = (if ?quiet then s else s2)"
  have es: "event_source SSE_REPLAY_BUFFER_CAP is_final err_text (Some t) ?idle ?turn s = (?old, new, s')"
    using k fin by (auto simp: event_source_def Let_def old turn e new_def s'_def)
  have lg': "chat_log SSE_REPLAY_BUFFER_CAP s' (lg @ new)" by (rule log_request [OF assms(4) _ es]) (rule turn_of_stream)
  have texts: "map snd fs = map dump (fst (run_turn orch tid clock msg approvals role (tu\<lparr>tu_session := s\<rparr>)))"
    using emit_all_inv [OF log_inv_stream [OF inv turn_of_stream [OF turn]] e] turn_of_texts [of orch dump tid clock msg approvals role tu s] turn
    by simp
  have "send_message is_final err_text orch dump tid clock tenant sid msg approvals role (Some t) tu st = Inr (?old @ new, store_put st s')"
    by (simp add: send_message_def owned_session_def assms(1,3) es)
  moreover have "take (nat k) lg @ ?old = lg" if "length lg \<le> nat k + SSE_REPLAY_BUFFER_CAP"
  proof -
    have "max (nat k) (length lg - SSE_REPLAY_BUFFER_CAP) = nat k" using that by simp
    then show ?thesis by simp
  qed
  moreover have "\<forall>i < length (lg @ new). fst ((lg @ new) ! i) = int (1 + i)" using chat_log_inv [OF lg'] by (simp add: log_inv_def)
  moreover have "if ?quiet then new = [] \<and> s' = s else map snd new = map dump (fst (run_turn orch tid clock msg approvals role (tu\<lparr>tu_session := s\<rparr>)))"
  proof (cases ?quiet)
    case True
    show ?thesis unfolding new_def s'_def if_P [OF True] by simp
  next
    case False
    show ?thesis unfolding new_def s'_def if_not_P [OF False] by (rule texts)
  qed
  ultimately show ?thesis using lg' by (intro exI [of _ new] exI [of _ s'] conjI impI)
qed

definition sample_chat_session :: session where
  "sample_chat_session = \<lparr>s_id = ''s'', s_tenant_id = ''t'', s_actor_id = ''u'', s_actor_kind = HUMAN,
     s_message_history = [], s_pending_approvals = [], s_sse_last_event_id = 0, s_sse_event_buffer = [],
     s_created_at = 0, s_updated_at = 0\<rparr>"

text \<open>The client lost the connection after the first of three frames, none of them final: the other two, and the turn once more.\<close>

theorem sse_reconnect_replays_witness:
  "\<exists>s new st'. chat_log SSE_REPLAY_BUFFER_CAP s [(1, ''a''), (2, ''b''), (3, ''c'')]
    \<and> send_message (\<lambda>_. False) ''e'' script_orch (\<lambda>e. ev_turn_id e) ''t-1'' script_clock ''t'' ''s'' ''Issue P1''
        None ''agent'' (Some '' 1'') script_turn [(''s'', s)] = Inr ([(2, ''b''), (3, ''c'')] @ new, st') \<and> new \<noteq> [] \<and> fst (hd new) = 4"
proof -
  define s where "s = sample_chat_session\<lparr>s_sse_last_event_id := 3, s_sse_event_buffer := [(1, ''a''), (2, ''b''), (3, ''c'')]\<rparr>"
  let ?lg = "[(1, ''a''), (2, ''b''), (3, ''c'')]"
  have new: "chat_log SSE_REPLAY_BUFFER_CAP sample_chat_session []" by (rule log_new) (simp_all add: sample_chat_session_def)
  have "event_source SSE_REPLAY_BUFFER_CAP (\<lambda>_. False) ''e'' None False (\<lambda>s. ([''a'', ''b'', ''c''], s)) sample_chat_session = ([], ?lg, s)"
    by (simp add: event_source_def replay_requested_def emit_def next_event_id_def append_to_buffer_def Let_def
        s_def sample_chat_session_def SSE_REPLAY_BUFFER_CAP_def)
  from log_request [OF new _ this] have lg: "chat_log SSE_REPLAY_BUFFER_CAP s ?lg" by simp
  have k: "py_int (py_strip '' 1'') = Some 1" by code_simp
  have s: "store_get [(''s'', s)] ''s'' = Some s" "s_id s = ''s''" "s_tenant_id s = ''t''"
    by (simp_all add: store_get_def s_def sample_chat_session_def)
  obtain new s' where r: "send_message (\<lambda>_. False) ''e'' script_orch (\<lambda>e. ev_turn_id e) ''t-1'' script_clock ''t'' ''s'' ''Issue P1''
        None ''agent'' (Some '' 1'') script_turn [(''s'', s)] = Inr (drop 1 ?lg @ new, store_put [(''s'', s)] s')"
      "\<forall>i < length (?lg @ new). fst ((?lg @ new) ! i) = int (1 + i)"
      "map snd new = map ev_turn_id (fst (run_turn script_orch ''t-1'' script_clock ''Issue P1'' None ''agent'' (script_turn\<lparr>tu_session := s\<rparr>)))"
    using sse_reconnect_replays [OF s lg k, of "\<lambda>_. False" "''e''" script_orch "\<lambda>e. ev_turn_id e" "''t-1''" script_clock "''Issue P1''" None "''agent''" script_turn]
    by (auto simp: SSE_REPLAY_BUFFER_CAP_def)
  have ne: "new \<noteq> []"
    using r(3) run_turn_shape [of script_orch "''t-1''" script_clock "''Issue P1''" None "''agent''" "script_turn\<lparr>tu_session := s\<rparr>"] by auto
  then have "fst (hd new) = 4" using r(2) [rule_format, of 3] by (simp add: hd_conv_nth)
  with r(1) ne lg show ?thesis by (intro exI [of _ s] exI [of _ new]) auto
qed

text \<open>Claim C36. Delivery. A message to a session of the caller's tenant, from a client that asks for no
  replay and reads to the end, streams one frame per event of the orchestrator's turn, in order and
  numbered on from the frames sent before; the last frame is the turn's \<open>FINAL\<close> event. The store then
  holds the session whose log is extended by exactly these frames.
\<close>

theorem chat_turn_delivered:
  assumes "store_get st sid = Some s" "s_id s = sid" "s_tenant_id s = tenant" "chat_log SSE_REPLAY_BUFFER_CAP s lg"
  shows "\<exists>frames st' s'. send_message is_final err_text orch dump tid clock tenant sid msg approvals role None tu st
      = Inr (frames, st')
    \<and> map snd frames = map dump (fst (run_turn orch tid clock msg approvals role (tu\<lparr>tu_session := s\<rparr>)))
    \<and> map fst frames = map (\<lambda>i. int (length lg + 1 + i)) [0..<length frames]
    \<and> frames \<noteq> [] \<and> snd (last frames) = dump (event FINAL sid tid)
    \<and> store_get st' sid = Some s' \<and> chat_log SSE_REPLAY_BUFFER_CAP s' (lg @ frames)"
proof -
  let ?turn = "turn_of orch dump tid clock msg approvals role tu"
  let ?idle = "msg = [] \<and> (approvals = None \<or> approvals = Some [])"
  obtain ds s1 where t: "?turn s = (ds, s1)" by (cases "?turn s")
  obtain fs s2 where e: "emit_all SSE_REPLAY_BUFFER_CAP ds s1 = (fs, s2)" by (cases "emit_all SSE_REPLAY_BUFFER_CAP ds s1")
  have es: "event_source SSE_REPLAY_BUFFER_CAP is_final err_text None ?idle ?turn s = ([], fs, s2)"
    by (simp add: event_source_def replay_requested_def t e)
  have inv1: "log_inv SSE_REPLAY_BUFFER_CAP s1 lg"
    by (rule log_inv_stream [OF chat_log_inv [OF assms(4)] turn_of_stream [OF t]])
  have lg': "chat_log SSE_REPLAY_BUFFER_CAP s2 (lg @ fs)"
    by (rule log_request [OF assms(4) _ es]) (rule turn_of_stream)
  note inv2 = chat_log_inv [OF lg']
  have ds: "map snd fs = ds" using emit_all_inv [OF inv1 e] by simp
  have texts: "ds = map dump (fst (run_turn orch tid clock msg approvals role (tu\<lparr>tu_session := s\<rparr>)))"
    using turn_of_texts [of orch dump tid clock msg approvals role tu s] t by simp
  obtain body where body: "fst (run_turn orch tid clock msg approvals role (tu\<lparr>tu_session := s\<rparr>)) = body @ [event FINAL sid tid]"
    using run_turn_shape [of orch tid clock msg approvals role "tu\<lparr>tu_session := s\<rparr>"] assms(2) by auto
  have ne: "fs \<noteq> []" using ds texts body by auto
  have "snd (last fs) = last (map snd fs)" using ne by (simp add: last_map)
  then have fin: "snd (last fs) = dump (event FINAL sid tid)" using ds texts body by simp
  have ids: "map fst fs = map (\<lambda>i. int (length lg + 1 + i)) [0..<length fs]"
  proof (rule nth_equalityI)
    fix i assume "i < length (map fst fs)"
    moreover from this have "fst ((lg @ fs) ! (length lg + i)) = int (1 + (length lg + i))"
      using inv2 [unfolded log_inv_def, THEN conjunct1, rule_format, of "length lg + i"] by simp
    ultimately show "map fst fs ! i = map (\<lambda>i. int (length lg + 1 + i)) [0..<length fs] ! i" by simp
  qed simp
  have sid2: "s_id s2 = sid"
    using turn_of_stream [OF t] emit_all_id [OF e] assms(2) by (simp add: same_stream_def)
  have "send_message is_final err_text orch dump tid clock tenant sid msg approvals role None tu st = Inr (fs, store_put st s2)"
    by (simp add: send_message_def owned_session_def assms(1,3) es)
  moreover have "store_get (store_put st s2) sid = Some s2"
    by (simp add: store_get_def store_put_def sid2 dict_simps)
  ultimately show ?thesis using ds texts ids ne fin lg' by blast
qed

theorem chat_turn_delivered_witness:
  "\<exists>frames st'. send_message (\<lambda>_. False) ''e'' script_orch (\<lambda>e. ev_turn_id e) ''t-1'' script_clock ''t'' ''s'' ''Issue P1''
      None ''agent'' None script_turn [(''s'', sample_chat_session)] = Inr (frames, st')
    \<and> snd (last frames) = ev_turn_id (event FINAL ''s'' ''t-1'')"
proof -
  have "chat_log SSE_REPLAY_BUFFER_CAP sample_chat_session []"
    by (rule log_new) (simp_all add: sample_chat_session_def)
  from chat_turn_delivered [OF _ _ _ this, of "[(''s'', sample_chat_session)]" "''s''" "''t''" "\<lambda>_. False" "''e''"
      script_orch "\<lambda>e. ev_turn_id e" "''t-1''" script_clock "''Issue P1''" None "''agent''" script_turn]
  show ?thesis by (auto simp: store_get_def sample_chat_session_def)
qed

end
