(* ===== verification/Py_State.thy ===== *)
theory Py_State
  imports Prelude
begin

text \<open>
  Calls that read and change a state and may raise: an action maps a state to a result and the
  state left behind. An exception keeps the changes made before it, as committed transactions do.
  \<open>keeps P m\<close> says that \<open>m\<close> preserves \<open>P\<close>, whether it returns or raises; its
  rules follow the structure of an action, so that an invariant of a service is proved from the
  operations on its tables.
\<close>

type_synonym ('e, 's, 'a) act = "'s \<Rightarrow> ('e + 'a) \<times> 's"

named_theorems act_simps \<open>results of actions\<close>
named_theorems keeps_rules \<open>preservation along the structure of an action\<close>

definition act_return :: "'a \<Rightarrow> ('e, 's, 'a) act" where
  "act_return x s = (Inr x, s)"

definition act_raise :: "'e \<Rightarrow> ('e, 's, 'a) act" where
  "act_raise e s = (Inl e, s)"

definition act_bind :: "('e, 's, 'a) act \<Rightarrow> ('a \<Rightarrow> ('e, 's, 'b) act) \<Rightarrow> ('e, 's, 'b) act" where
  "act_bind m f s = (case m s of (Inl e, s') \<Rightarrow> (Inl e, s') | (Inr x, s') \<Rightarrow> f x s')"

definition act_read :: "('s \<Rightarrow> 'a) \<Rightarrow> ('e, 's, 'a) act" where
  "act_read f s = (Inr (f s), s)"

definition act_update :: "('s \<Rightarrow> 's) \<Rightarrow> ('e, 's, unit) act" where
  "act_update f s = (Inr (), f s)"

definition act_lift :: "'e + 'a \<Rightarrow> ('e, 's, 'a) act" where
  "act_lift r s = (r, s)"

definition act_guard :: "bool \<Rightarrow> 'e \<Rightarrow> ('e, 's, unit) act" where
  "act_guard b e s = (if b then Inr () else Inl e, s)"

text \<open>\<^verbatim>\<open>x = ...; if x is None: raise e\<close>\<close>

definition act_some :: "'a option \<Rightarrow> 'e \<Rightarrow> ('e, 's, 'a) act" where
  "act_some r e s = (case r of None \<Rightarrow> Inl e | Some x \<Rightarrow> Inr x, s)"

text \<open>\<^verbatim>\<open>try: m except e: raise f e\<close>\<close>

definition act_map_err :: "('e \<Rightarrow> 'f) \<Rightarrow> ('e, 's, 'a) act \<Rightarrow> ('f, 's, 'a) act" where
  "act_map_err f m s = (case m s of (Inl e, s') \<Rightarrow> (Inl (f e), s') | (Inr x, s') \<Rightarrow> (Inr x, s'))"

section \<open>Results\<close>

lemma act_return_iff [act_simps]: "act_return x s = (r, s') \<longleftrightarrow> r = Inr x \<and> s' = s"
  by (auto simp: act_return_def)

lemma act_raise_iff [act_simps]: "act_raise e s = (r, s') \<longleftrightarrow> r = Inl e \<and> s' = s"
  by (auto simp: act_raise_def)

lemma act_read_iff [act_simps]: "act_read f s = (r, s') \<longleftrightarrow> r = Inr (f s) \<and> s' = s"
  by (auto simp: act_read_def)

lemma act_update_iff [act_simps]: "act_update f s = (r, s') \<longleftrightarrow> r = Inr () \<and> s' = f s"
  by (auto simp: act_update_def)

lemma act_lift_iff [act_simps]: "act_lift x s = (r, s') \<longleftrightarrow> r = x \<and> s' = s"
  by (auto simp: act_lift_def)

lemma act_guard_iff [act_simps]:
  "act_guard b e s = (r, s') \<longleftrightarrow> r = (if b then Inr () else Inl e) \<and> s' = s"
  by (auto simp: act_guard_def)

lemma act_some_Inr [act_simps]: "act_some x e s = (Inr y, s') \<longleftrightarrow> x = Some y \<and> s' = s"
  by (auto simp: act_some_def split: option.splits)

lemma act_some_Inl [act_simps]: "act_some x e s = (Inl e', s') \<longleftrightarrow> x = None \<and> e' = e \<and> s' = s"
  by (auto simp: act_some_def split: option.splits)

lemma act_bind_Inr [act_simps]:
  "act_bind m f s = (Inr y, s') \<longleftrightarrow> (\<exists>x s1. m s = (Inr x, s1) \<and> f x s1 = (Inr y, s'))"
  by (auto simp: act_bind_def split: prod.splits sum.splits)

lemma act_bind_Inl [act_simps]:
  "act_bind m f s = (Inl e, s') \<longleftrightarrow> m s = (Inl e, s') \<or> (\<exists>x s1. m s = (Inr x, s1) \<and> f x s1 = (Inl e, s'))"
  by (auto simp: act_bind_def split: prod.splits sum.splits)

lemma act_map_err_Inr [act_simps]: "act_map_err f m s = (Inr y, s') \<longleftrightarrow> m s = (Inr y, s')"
  by (auto simp: act_map_err_def split: prod.splits sum.splits)

lemma act_map_err_Inl [act_simps]: "act_map_err f m s = (Inl e, s') \<longleftrightarrow> (\<exists>e'. e = f e' \<and> m s = (Inl e', s'))"
  by (auto simp: act_map_err_def split: prod.splits sum.splits)

text \<open>Evaluation, from the left.\<close>

lemma act_bind_step:
  "m s = (Inr x, s1) \<Longrightarrow> act_bind m f s = f x s1"
  "m s = (Inl e, s1) \<Longrightarrow> act_bind m f s = (Inl e, s1)"
  by (simp_all add: act_bind_def)

lemmas act_eval = act_bind_def act_return_def act_raise_def act_read_def act_update_def act_lift_def
  act_guard_def act_some_def act_map_err_def

section \<open>Preservation\<close>

definition keeps :: "('s \<Rightarrow> bool) \<Rightarrow> ('e, 's, 'a) act \<Rightarrow> bool" where
  "keeps P m \<longleftrightarrow> (\<forall>s. P s \<longrightarrow> P (snd (m s)))"

lemma keepsD: "keeps P m \<Longrightarrow> m s = (r, s') \<Longrightarrow> P s \<Longrightarrow> P s'"
  by (auto simp: keeps_def dest: spec [of _ s])

lemma keepsI: "(\<And>s. P s \<Longrightarrow> P (snd (m s))) \<Longrightarrow> keeps P m"
  by (simp add: keeps_def)

lemma keeps_pure [keeps_rules]:
  "keeps P (act_return x)" "keeps P (act_raise e)" "keeps P (act_read f)" "keeps P (act_lift r)"
  "keeps P (act_guard b e)" "keeps P (act_some x' e)"
  by (simp_all add: keeps_def act_return_def act_raise_def act_read_def act_lift_def act_guard_def act_some_def)

lemma keeps_bind [keeps_rules]:
  "keeps P m \<Longrightarrow> (\<And>x. keeps P (f x)) \<Longrightarrow> keeps P (act_bind m f)"
  by (auto simp: keeps_def act_bind_def split: prod.splits sum.splits)

lemma keeps_map_err [keeps_rules]: "keeps P m \<Longrightarrow> keeps P (act_map_err f m)"
  by (auto simp: keeps_def act_map_err_def split: prod.splits sum.splits)

lemma keeps_if [keeps_rules]: "(b \<Longrightarrow> keeps P m) \<Longrightarrow> (\<not> b \<Longrightarrow> keeps P n) \<Longrightarrow> keeps P (if b then m else n)"
  by simp

lemma keeps_case_option [keeps_rules]:
  "(x = None \<Longrightarrow> keeps P m) \<Longrightarrow> (\<And>y. x = Some y \<Longrightarrow> keeps P (f y)) \<Longrightarrow> keeps P (case x of None \<Rightarrow> m | Some y \<Rightarrow> f y)"
  by (cases x) auto

lemma keeps_case_prod [keeps_rules]:
  "(\<And>a b. x = (a, b) \<Longrightarrow> keeps P (f a b)) \<Longrightarrow> keeps P (case x of (a, b) \<Rightarrow> f a b)"
  by (cases x) auto

lemma keeps_let [keeps_rules]: "keeps P (f x) \<Longrightarrow> keeps P (let y = x in f y)"
  by simp

end
