(* ===== verification/Auth_Store.thy ===== *)
theory Auth_Store
  imports Approvals_Api Py_State
begin

text \<open>
  The storage side of in-house authentication (\<^verbatim>\<open>services/api/src/voyagent_api/auth_inhouse\<close>):
  password rules, access and refresh tokens, the tables of users, tenants, refresh tokens, invites and
  API keys with their unique and foreign keys, the repositories over them, the one-shot token stores
  and the denylist of access tokens. Argon2, SHA-256, the JWT library, the one-time-password library
  and the e-mail syntax check are fields of \<open>auth_env\<close>; random draws and clock readings are
  arguments.
\<close>

section \<open>Passwords\<close>

definition COMMON_PASSWORDS :: "string list" where
  "COMMON_PASSWORDS =
    [''password'', ''password1'', ''password12'', ''password123'', ''password1234'', ''passw0rd'', ''passw0rd1'',
     ''passw0rd123'', ''qwerty'', ''qwerty123'', ''qwertyuiop'', ''qwerty1234'', ''letmein'', ''letmein1'',
     ''letmein123'', ''welcome'', ''welcome1'', ''welcome123'', ''admin'', ''admin1'', ''admin123'',
     ''administrator'', ''root'', ''root123'', ''toor'', ''iloveyou'', ''iloveyou1'', ''monkey'', ''monkey123'',
     ''dragon'', ''dragon123'', ''master'', ''master123'', ''abc123'', ''abc12345'', ''abcd1234'', ''123abc'',
     ''123456'', ''1234567'', ''12345678'', ''123456789'', ''1234567890'', ''111111'', ''000000'', ''696969'',
     ''trustno1'', ''sunshine'', ''princess'', ''football'', ''baseball'', ''superman'', ''batman123'',
     ''voyagent'', ''voyagent1'', ''voyagent123'', ''travel123'', ''changeme'', ''changeme1'', ''changeme123'']"

definition MIN_PASSWORD_LENGTH :: nat where "MIN_PASSWORD_LENGTH = 10"

definition MAX_PASSWORD_LENGTH :: nat where "MAX_PASSWORD_LENGTH = 128"

datatype auth_error =
    EmailAlreadyRegistered string
  | InvalidCredentials string
  | EmailNotVerified string
  | InvalidToken string
  | RefreshTokenRevoked string
  | InvalidVerificationToken string
  | InviteAlreadyExists string
  | InviteNotFound string
  | InviteInvalidState string
  | PasswordTooWeak string
  | HttpException nat string
  | Unhandled string

definition validate_password_strength :: "string \<Rightarrow> auth_error + unit" where
  "validate_password_strength pw =
     (if py_strip pw = [] then Inl (PasswordTooWeak ''password_blank'')
      else if length pw < MIN_PASSWORD_LENGTH then Inl (PasswordTooWeak ''password_too_short'')
      else if length pw > MAX_PASSWORD_LENGTH then Inl (PasswordTooWeak ''password_too_long'')
      else if \<not> list_ex is_alpha_char pw then Inl (PasswordTooWeak ''password_no_letter'')
      else if \<not> list_ex is_digit_char pw then Inl (PasswordTooWeak ''password_no_digit'')
      else if py_lower (py_strip pw) \<in> set COMMON_PASSWORDS then Inl (PasswordTooWeak ''password_common'')
      else Inr ())"

text \<open>What \<^verbatim>\<open>PasswordHasher.verify\<close> does: it returns, or raises one of two exceptions.\<close>

datatype argon2_outcome = Argon_match | Argon_mismatch | Argon_invalid_hash

section \<open>The environment\<close>

text \<open>
  Settings, environment variables and the libraries. \<open>au_email\<close> is \<^verbatim>\<open>EmailStr\<close>: the
  normalised address, or \<open>None\<close>. \<open>au_jwt_decode now token secret issuer audience\<close> is
  \<^verbatim>\<open>jwt.decode\<close> with the required claims, \<open>Inl\<close> the message of its exception.
  \<open>au_totp secret window now code\<close> is \<^verbatim>\<open>pyotp.TOTP(secret).verify\<close>, \<open>None\<close>
  when it raises.
\<close>

record auth_env =
  au_secret :: string
  au_access_ttl :: int
  au_refresh_ttl :: int
  au_issuer :: string
  au_audience :: string
  au_environ :: "(string, string) dict"
  au_email :: "string \<Rightarrow> string option"
  au_argon2_hash :: "string \<Rightarrow> string \<Rightarrow> string"
  au_argon2_verify :: "string \<Rightarrow> string \<Rightarrow> argon2_outcome"
  au_sha256 :: "string \<Rightarrow> string"
  au_jwt_encode :: "obj \<Rightarrow> string \<Rightarrow> string"
  au_jwt_decode :: "int \<Rightarrow> string \<Rightarrow> string \<Rightarrow> string \<Rightarrow> string \<Rightarrow> string + obj"
  au_totp :: "string \<Rightarrow> nat \<Rightarrow> int \<Rightarrow> string \<Rightarrow> bool option"
  au_otpauth :: "string \<Rightarrow> string \<Rightarrow> string \<Rightarrow> string"

text \<open>\<open>AuthSettings\<close> refuses to load outside these bounds (the secret is counted in UTF-8 bytes).\<close>

definition settings_ok :: "auth_env \<Rightarrow> bool" where
  "settings_ok env \<longleftrightarrow> 32 \<le> sum_list (map (\<lambda>c. if (of_char c :: nat) < 128 then 1 else 2) (au_secret env))
     \<and> 60 \<le> au_access_ttl env \<and> 3600 \<le> au_refresh_ttl env"

text \<open>Random draws of one request, named after what they become; byte strings are lists of bytes.\<close>

record draws =
  dr_tenant_id :: uuid_int
  dr_user_id :: uuid_int
  dr_row_id :: uuid_int
  dr_refresh_id :: uuid_int
  dr_external_id :: uuid_int
  dr_jti :: uuid_int
  dr_uuid4 :: uuid_int
  dr_salt :: string
  dr_secret :: string
  dr_refresh :: "nat list"
  dr_token :: "nat list"
  dr_prefix :: "nat list list"
  dr_body :: "nat list list"

text \<open>Clock readings, in microseconds, in the order they are made.\<close>

type_synonym clock = "nat \<Rightarrow> int"

definition later :: "nat \<Rightarrow> clock \<Rightarrow> clock" where
  "later k ck = (\<lambda>n. ck (n + k))"

definition seconds :: "int \<Rightarrow> int" where
  "seconds us = us div 1000000"

definition hash_password :: "auth_env \<Rightarrow> string \<Rightarrow> string \<Rightarrow> string" where
  "hash_password env salt pw = au_argon2_hash env salt pw"

definition verify_password :: "auth_env \<Rightarrow> string \<Rightarrow> string \<Rightarrow> bool" where
  "verify_password env hashed pw = (case au_argon2_verify env hashed pw of
     Argon_match \<Rightarrow> True | Argon_mismatch \<Rightarrow> False | Argon_invalid_hash \<Rightarrow> False)"

definition environ_get :: "auth_env \<Rightarrow> string \<Rightarrow> string" where
  "environ_get env k = dict_get_or (au_environ env) k ''''"

definition skip_email_verification :: "auth_env \<Rightarrow> bool" where
  "skip_email_verification env \<longleftrightarrow>
     py_lower (py_strip (environ_get env ''VOYAGENT_AUTH_SKIP_EMAIL_VERIFICATION'')) \<in> {''1'', ''true'', ''yes'', ''on''}"

definition ttl_setting :: "auth_env \<Rightarrow> string \<Rightarrow> int \<Rightarrow> int" where
  "ttl_setting env key deflt =
     (let raw = py_strip (environ_get env key)
      in if raw = [] then deflt else case py_int raw of None \<Rightarrow> deflt | Some v \<Rightarrow> max 60 v)"

definition get_password_reset_ttl_seconds :: "auth_env \<Rightarrow> int" where
  "get_password_reset_ttl_seconds env = ttl_setting env ''VOYAGENT_AUTH_PASSWORD_RESET_TTL_SECONDS'' 3600"

definition get_verification_ttl_seconds :: "auth_env \<Rightarrow> int" where
  "get_verification_ttl_seconds env = ttl_setting env ''VOYAGENT_AUTH_VERIFICATION_TTL_SECONDS'' (24 * 3600)"

section \<open>Tokens\<close>

definition b64url_alphabet :: string where
  "b64url_alphabet = ''ABCDEFGHIJKLMNOPQRSTUVWXYZabcdefghijklmnopqrstuvwxyz0123456789-_''"

fun b64_sextets :: "nat list \<Rightarrow> nat list" where
  "b64_sextets [] = []"
| "b64_sextets [a] = [a div 4, (a mod 4) * 16]"
| "b64_sextets [a, b] = [a div 4, (a mod 4) * 16 + b div 16, (b mod 16) * 4]"
| "b64_sextets (a # b # c # rest) =
     a div 4 # ((a mod 4) * 16 + b div 16) # ((b mod 16) * 4 + c div 64) # (c mod 64) # b64_sextets rest"

text \<open>\<^verbatim>\<open>base64.urlsafe_b64encode(raw).rstrip(b"=")\<close>, also \<^verbatim>\<open>secrets.token_urlsafe\<close>.\<close>

definition token_urlsafe :: "nat list \<Rightarrow> string" where
  "token_urlsafe raw = map (\<lambda>n. b64url_alphabet ! n) (b64_sextets raw)"

definition uuid_hex :: "uuid_int \<Rightarrow> string" where
  "uuid_hex w = hex_range w 32 0"

record access_payload =
  ac_sub :: string
  ac_tid :: string
  ac_role :: string
  ac_email :: string
  ac_iat :: int
  ac_exp :: int
  ac_jti :: string

definition access_claims :: "auth_env \<Rightarrow> int \<Rightarrow> string \<Rightarrow> string \<Rightarrow> string \<Rightarrow> string \<Rightarrow> string \<Rightarrow> obj" where
  "access_claims env now jti user_id tenant_id email role =
     [(''sub'', JStr user_id), (''tid'', JStr tenant_id), (''role'', JStr role), (''email'', JStr email),
      (''iat'', JInt (seconds now)), (''exp'', JInt (seconds (now + au_access_ttl env * 1000000))), (''jti'', JStr jti),
      (''iss'', JStr (au_issuer env)), (''aud'', JStr (au_audience env))]"

definition issue_access_token :: "auth_env \<Rightarrow> int \<Rightarrow> uuid_int \<Rightarrow> uuid_int \<Rightarrow> uuid_int \<Rightarrow> string \<Rightarrow> string \<Rightarrow> string \<times> int \<times> string" where
  "issue_access_token env now draw user_id tenant_id email role =
     (let jti = uuid_hex draw
      in (au_jwt_encode env (access_claims env now jti (uuid_str user_id) (uuid_str tenant_id) email role) (au_secret env),
          now + au_access_ttl env * 1000000, jti))"

text \<open>\<^verbatim>\<open>str(x)\<close> and \<^verbatim>\<open>int(x)\<close> of a decoded claim; a float below ten to the 16 prints without exponent.\<close>

fun claim_str :: "json \<Rightarrow> string" where
  "claim_str (JStr s) = s"
| "claim_str j = repr_json j"

fun claim_int :: "json \<Rightarrow> int option" where
  "claim_int (JInt i) = Some i"
| "claim_int (JBool b) = Some (if b then 1 else 0)"
| "claim_int (JStr s) = py_int (py_strip s)"
| "claim_int (JFloat t) = py_int (takeWhile (\<lambda>c. c \<noteq> CHR ''.'') t)"
| "claim_int _ = None"

definition payload_of_claims :: "obj \<Rightarrow> auth_error + access_payload" where
  "payload_of_claims d =
     (case (map_of d ''sub'', map_of d ''tid'', Option.bind (map_of d ''iat'') claim_int,
            Option.bind (map_of d ''exp'') claim_int, map_of d ''jti'') of
        (Some sub, Some tid, Some iat, Some ex, Some jti) \<Rightarrow>
          Inr \<lparr>ac_sub = claim_str sub, ac_tid = claim_str tid,
               ac_role = (case map_of d ''role'' of None \<Rightarrow> ''agent'' | Some r \<Rightarrow> claim_str r),
               ac_email = (case map_of d ''email'' of None \<Rightarrow> '''' | Some r \<Rightarrow> claim_str r),
               ac_iat = iat, ac_exp = ex, ac_jti = claim_str jti\<rparr>
      | _ \<Rightarrow> Inl (InvalidToken ''malformed_claims''))"

definition verify_access_token :: "auth_env \<Rightarrow> int \<Rightarrow> string \<Rightarrow> auth_error + access_payload" where
  "verify_access_token env now token =
     (case au_jwt_decode env now token (au_secret env) (au_issuer env) (au_audience env) of
        Inl msg \<Rightarrow> Inl (InvalidToken msg)
      | Inr d \<Rightarrow> payload_of_claims d)"

definition hash_refresh_token :: "auth_env \<Rightarrow> string \<Rightarrow> string" where
  "hash_refresh_token env plain = au_sha256 env plain"

definition mint_refresh_token :: "auth_env \<Rightarrow> int \<Rightarrow> nat list \<Rightarrow> string \<times> string \<times> int" where
  "mint_refresh_token env now raw =
     (let plain = token_urlsafe raw in (plain, hash_refresh_token env plain, now + au_refresh_ttl env * 1000000))"

section \<open>Tables\<close>

datatype user_role = AGENCY_ADMIN | TICKETING_LEAD | ACCOUNTING_LEAD | AGENT | VIEWER

fun role_value :: "user_role \<Rightarrow> string" where
  "role_value AGENCY_ADMIN = ''agency_admin''"
| "role_value TICKETING_LEAD = ''ticketing_lead''"
| "role_value ACCOUNTING_LEAD = ''accounting_lead''"
| "role_value AGENT = ''agent''"
| "role_value VIEWER = ''viewer''"

definition role_of_value :: "string \<Rightarrow> user_role option" where
  "role_of_value s = List.find (\<lambda>r. role_value r = s) [AGENCY_ADMIN, TICKETING_LEAD, ACCOUNTING_LEAD, AGENT, VIEWER]"

record tenant_row =
  tn_id :: uuid_int
  tn_display_name :: string
  tn_default_currency :: string
  tn_created_at :: int

record user_row =
  us_id :: uuid_int
  us_tenant_id :: uuid_int
  us_external_id :: string
  us_display_name :: string
  us_email :: string
  us_role :: user_role
  us_password_hash :: "string option"
  us_email_verified :: bool
  us_totp_secret :: "string option"
  us_totp_enabled :: bool
  us_last_login_at :: "int option"
  us_created_at :: int

record refresh_row =
  rt_id :: uuid_int
  rt_user_id :: uuid_int
  rt_token_hash :: string
  rt_expires_at :: int
  rt_revoked_at :: "int option"
  rt_user_agent :: "string option"
  rt_ip :: "string option"

datatype invite_status = InvPending | InvAccepted | InvRevoked | InvExpired

fun invite_status_value :: "invite_status \<Rightarrow> string" where
  "invite_status_value InvPending = ''pending''"
| "invite_status_value InvAccepted = ''accepted''"
| "invite_status_value InvRevoked = ''revoked''"
| "invite_status_value InvExpired = ''expired''"

record invite_row =
  iv_id :: uuid_int
  iv_tenant_id :: uuid_int
  iv_invited_by_user_id :: uuid_int
  iv_email :: string
  iv_role :: string
  iv_token_hash :: string
  iv_status :: invite_status
  iv_expires_at :: int
  iv_accepted_at :: "int option"
  iv_revoked_at :: "int option"
  iv_created_at :: int

record api_key_row =
  ak_id :: uuid_int
  ak_tenant_id :: uuid_int
  ak_created_by_user_id :: uuid_int
  ak_name :: string
  ak_prefix :: string
  ak_key_hash :: string
  ak_scopes :: string
  ak_expires_at :: "int option"
  ak_revoked_at :: "int option"
  ak_last_used_at :: "int option"
  ak_created_at :: int

text \<open>
  The database and the three in-process stores: verification tokens and reset tokens (token to user
  id and expiry) and the denylist (\<^verbatim>\<open>jti\<close> to expiry), times in seconds.
\<close>

record auth_db =
  az_tenants :: "(uuid_int, tenant_row) dict"
  az_users :: "(uuid_int, user_row) dict"
  az_refresh :: "(uuid_int, refresh_row) dict"
  az_invites :: "(uuid_int, invite_row) dict"
  az_keys :: "(uuid_int, api_key_row) dict"
  az_verify :: "(string, string \<times> int) dict"
  az_reset :: "(string, string \<times> int) dict"
  az_revoked :: "(string, int) dict"

type_synonym 'a auth_act = "(auth_error, auth_db, 'a) act"

text \<open>
  \<^verbatim>\<open>UPDATE ... SET f WHERE p\<close> and \<^verbatim>\<open>INSERT\<close>: an insert that breaks a primary key, a
  unique key or a foreign key raises \<^verbatim>\<open>IntegrityError\<close> (\<open>None\<close>).
\<close>

definition table_update :: "('r \<Rightarrow> bool) \<Rightarrow> ('r \<Rightarrow> 'r) \<Rightarrow> ('k, 'r) dict \<Rightarrow> ('k, 'r) dict" where
  "table_update p f t = map (\<lambda>(k, r). (k, if p r then f r else r)) t"

definition insert_tenant :: "tenant_row \<Rightarrow> auth_db \<Rightarrow> auth_db option" where
  "insert_tenant r db = (if tn_id r \<in> fst ` set (az_tenants db) then None
     else Some (db\<lparr>az_tenants := az_tenants db @ [(tn_id r, r)]\<rparr>))"

definition insert_user :: "user_row \<Rightarrow> auth_db \<Rightarrow> auth_db option" where
  "insert_user r db =
     (if us_id r \<in> fst ` set (az_users db) \<or> us_email r \<in> us_email ` snd ` set (az_users db)
         \<or> us_tenant_id r \<notin> fst ` set (az_tenants db) then None
      else Some (db\<lparr>az_users := az_users db @ [(us_id r, r)]\<rparr>))"

definition insert_refresh :: "refresh_row \<Rightarrow> auth_db \<Rightarrow> auth_db option" where
  "insert_refresh r db =
     (if rt_id r \<in> fst ` set (az_refresh db) \<or> rt_token_hash r \<in> rt_token_hash ` snd ` set (az_refresh db)
         \<or> rt_user_id r \<notin> fst ` set (az_users db) then None
      else Some (db\<lparr>az_refresh := az_refresh db @ [(rt_id r, r)]\<rparr>))"

definition invite_key :: "invite_row \<Rightarrow> uuid_int \<times> string" where
  "invite_key r = (iv_tenant_id r, py_lower (iv_email r))"

definition insert_invite :: "invite_row \<Rightarrow> auth_db \<Rightarrow> auth_db option" where
  "insert_invite r db =
     (if iv_id r \<in> fst ` set (az_invites db) \<or> iv_token_hash r \<in> iv_token_hash ` snd ` set (az_invites db)
         \<or> invite_key r \<in> invite_key ` snd ` set (az_invites db)
         \<or> iv_tenant_id r \<notin> fst ` set (az_tenants db) \<or> iv_invited_by_user_id r \<notin> fst ` set (az_users db) then None
      else Some (db\<lparr>az_invites := az_invites db @ [(iv_id r, r)]\<rparr>))"

definition insert_api_key :: "api_key_row \<Rightarrow> auth_db \<Rightarrow> auth_db option" where
  "insert_api_key r db =
     (if ak_id r \<in> fst ` set (az_keys db) \<or> ak_key_hash r \<in> ak_key_hash ` snd ` set (az_keys db)
         \<or> ak_tenant_id r \<notin> fst ` set (az_tenants db) \<or> ak_created_by_user_id r \<notin> fst ` set (az_users db) then None
      else Some (db\<lparr>az_keys := az_keys db @ [(ak_id r, r)]\<rparr>))"

text \<open>Try an insert; on \<^verbatim>\<open>IntegrityError\<close> the transaction is rolled back and \<open>e\<close> is raised.\<close>

definition try_insert :: "(auth_db \<Rightarrow> auth_db option) \<Rightarrow> auth_error \<Rightarrow> unit auth_act" where
  "try_insert ins e db = (case ins db of None \<Rightarrow> (Inl e, db) | Some db' \<Rightarrow> (Inr (), db'))"

section \<open>Repositories\<close>

definition find_by_email :: "string \<Rightarrow> auth_db \<Rightarrow> user_row option" where
  "find_by_email email db = List.find (\<lambda>u. us_email u = py_lower email) (dict_values (az_users db))"

definition find_by_id :: "uuid_int \<Rightarrow> auth_db \<Rightarrow> user_row option" where
  "find_by_id uid db = map_of (az_users db) uid"

definition find_tenant :: "uuid_int \<Rightarrow> auth_db \<Rightarrow> tenant_row option" where
  "find_tenant tid db = map_of (az_tenants db) tid"

definition new_user :: "auth_env \<Rightarrow> draws \<Rightarrow> int \<Rightarrow> uuid_int \<Rightarrow> string \<Rightarrow> string \<Rightarrow> string \<Rightarrow> user_role \<Rightarrow> user_row" where
  "new_user env dr now tenant_id email full_name password_hash role =
     \<lparr>us_id = dr_user_id dr, us_tenant_id = tenant_id, us_external_id = uuid_str (dr_external_id dr),
      us_display_name = full_name, us_email = py_lower email, us_role = role, us_password_hash = Some password_hash,
      us_email_verified = skip_email_verification env, us_totp_secret = None, us_totp_enabled = False,
      us_last_login_at = None, us_created_at = now\<rparr>"

definition create_user_with_tenant ::
  "auth_env \<Rightarrow> draws \<Rightarrow> int \<Rightarrow> string \<Rightarrow> string \<Rightarrow> string \<Rightarrow> string \<Rightarrow> (user_row \<times> tenant_row) auth_act" where
  "create_user_with_tenant env dr now email full_name password_hash agency_name db =
     (let tenant = \<lparr>tn_id = dr_tenant_id dr, tn_display_name = agency_name, tn_default_currency = ''USD'', tn_created_at = now\<rparr>
      in case insert_tenant tenant db of
           None \<Rightarrow> (Inl (EmailAlreadyRegistered ''tenant_insert_failed''), db)
         | Some db1 \<Rightarrow>
             (let user = new_user env dr now (tn_id tenant) email full_name password_hash AGENCY_ADMIN
              in case insert_user user db1 of
                   None \<Rightarrow> (Inl (EmailAlreadyRegistered ''email_already_registered''), db)
                 | Some db2 \<Rightarrow> (Inr (user, tenant), db2)))"

definition update_user :: "uuid_int \<Rightarrow> (user_row \<Rightarrow> user_row) \<Rightarrow> unit auth_act" where
  "update_user uid f = act_update (\<lambda>db. db\<lparr>az_users := table_update (\<lambda>u. us_id u = uid) f (az_users db)\<rparr>)"

definition update_last_login :: "int \<Rightarrow> uuid_int \<Rightarrow> unit auth_act" where
  "update_last_login now uid = update_user uid (\<lambda>u. u\<lparr>us_last_login_at := Some now\<rparr>)"

definition mark_email_verified :: "uuid_int \<Rightarrow> unit auth_act" where
  "mark_email_verified uid = update_user uid (\<lambda>u. u\<lparr>us_email_verified := True\<rparr>)"

definition update_password_hash :: "uuid_int \<Rightarrow> string \<Rightarrow> unit auth_act" where
  "update_password_hash uid h = update_user uid (\<lambda>u. u\<lparr>us_password_hash := Some h\<rparr>)"

text \<open>
  \<^verbatim>\<open>UserRepository.update_profile\<close>. The look-up of the new address and the update run in one
  transaction, so the unique key cannot be broken in between.
\<close>

definition new_email :: "user_row \<Rightarrow> string option \<Rightarrow> string option" where
  "new_email current email = (case email of None \<Rightarrow> None
     | Some e \<Rightarrow> if py_lower e \<noteq> us_email current then Some (py_lower e) else None)"

definition patched :: "string option \<Rightarrow> string option \<Rightarrow> user_row \<Rightarrow> user_row" where
  "patched full_name changed u =
     (let u1 = (case full_name of None \<Rightarrow> u | Some n \<Rightarrow> u\<lparr>us_display_name := n\<rparr>)
      in case changed of None \<Rightarrow> u1 | Some e \<Rightarrow> u1\<lparr>us_email := e, us_email_verified := False\<rparr>)"

definition update_profile_row :: "uuid_int \<Rightarrow> string option \<Rightarrow> string option \<Rightarrow> (user_row \<times> bool) auth_act" where
  "update_profile_row uid full_name email =
     act_bind (act_read (find_by_id uid)) (\<lambda>cur.
     act_bind (act_some cur (EmailAlreadyRegistered ''user_not_found'')) (\<lambda>current.
     let changed = new_email current email
     in act_bind (act_read (\<lambda>db. Option.bind changed (\<lambda>e. List.find (\<lambda>u. us_email u = e) (dict_values (az_users db))))) (\<lambda>other.
        act_bind (act_guard (case other of None \<Rightarrow> True | Some u \<Rightarrow> us_id u = uid)
                   (EmailAlreadyRegistered ''email_already_registered'')) (\<lambda>_.
        act_bind (update_user uid (patched full_name changed)) (\<lambda>_.
        act_bind (act_read (find_by_id uid)) (\<lambda>u.
        act_bind (act_some u (Unhandled ''AssertionError'')) (\<lambda>user.
          act_return (user, changed \<noteq> None))))))))"

definition create_user_in_existing_tenant ::
  "auth_env \<Rightarrow> draws \<Rightarrow> int \<Rightarrow> uuid_int \<Rightarrow> string \<Rightarrow> string \<Rightarrow> string \<Rightarrow> string \<Rightarrow> user_row auth_act" where
  "create_user_in_existing_tenant env dr now tenant_id email full_name password_hash role =
     act_bind (act_some (role_of_value role) (EmailAlreadyRegistered ''invalid_role'')) (\<lambda>role_enum.
     let user = new_user env dr now tenant_id email full_name password_hash role_enum
     in act_bind (try_insert (insert_user user) (EmailAlreadyRegistered ''email_already_registered'')) (\<lambda>_.
        act_return user))"

definition list_tenant_members :: "uuid_int \<Rightarrow> auth_db \<Rightarrow> user_row list" where
  "list_tenant_members tid db = sort_key us_created_at (filter (\<lambda>u. us_tenant_id u = tid) (dict_values (az_users db)))"

definition find_pending_for_email :: "uuid_int \<Rightarrow> string \<Rightarrow> auth_db \<Rightarrow> invite_row option" where
  "find_pending_for_email tid email db = List.find (\<lambda>r. iv_tenant_id r = tid \<and> py_lower (iv_email r) = py_lower email
     \<and> iv_status r = InvPending) (dict_values (az_invites db))"

definition invite_create :: "draws \<Rightarrow> int \<Rightarrow> int \<Rightarrow> uuid_int \<Rightarrow> uuid_int \<Rightarrow> string \<Rightarrow> string \<Rightarrow> string \<Rightarrow> invite_row auth_act" where
  "invite_create dr now created tid uid email role token_hash =
     (let row = \<lparr>iv_id = dr_row_id dr, iv_tenant_id = tid, iv_invited_by_user_id = uid, iv_email = py_lower email,
                 iv_role = role, iv_token_hash = token_hash, iv_status = InvPending,
                 iv_expires_at = now + 7 * 86400 * 1000000, iv_accepted_at = None, iv_revoked_at = None, iv_created_at = created\<rparr>
      in act_bind (try_insert (insert_invite row) (EmailAlreadyRegistered ''invite_already_exists'')) (\<lambda>_. act_return row))"

definition invite_list_for_tenant :: "uuid_int \<Rightarrow> invite_status option \<Rightarrow> auth_db \<Rightarrow> invite_row list" where
  "invite_list_for_tenant tid st db = sort_key (\<lambda>r. - iv_created_at r) (filter (\<lambda>r. iv_tenant_id r = tid
     \<and> (case st of None \<Rightarrow> True | Some x \<Rightarrow> iv_status r = x)) (dict_values (az_invites db)))"

definition invite_find_by_id :: "uuid_int \<Rightarrow> auth_db \<Rightarrow> invite_row option" where
  "invite_find_by_id iid db = map_of (az_invites db) iid"

definition invite_find_by_token_hash :: "string \<Rightarrow> auth_db \<Rightarrow> invite_row option" where
  "invite_find_by_token_hash h db = List.find (\<lambda>r. iv_token_hash r = h) (dict_values (az_invites db))"

definition update_invite :: "uuid_int \<Rightarrow> (invite_row \<Rightarrow> invite_row) \<Rightarrow> unit auth_act" where
  "update_invite iid f = act_update (\<lambda>db. db\<lparr>az_invites := table_update (\<lambda>r. iv_id r = iid) f (az_invites db)\<rparr>)"

definition invite_revoke :: "int \<Rightarrow> uuid_int \<Rightarrow> unit auth_act" where
  "invite_revoke now iid = update_invite iid (\<lambda>r. r\<lparr>iv_status := InvRevoked, iv_revoked_at := Some now\<rparr>)"

definition invite_mark_accepted :: "int \<Rightarrow> uuid_int \<Rightarrow> unit auth_act" where
  "invite_mark_accepted now iid = update_invite iid (\<lambda>r. r\<lparr>iv_status := InvAccepted, iv_accepted_at := Some now\<rparr>)"

definition refresh_store :: "draws \<Rightarrow> uuid_int \<Rightarrow> string \<Rightarrow> int \<Rightarrow> string option \<Rightarrow> string option \<Rightarrow> unit auth_act" where
  "refresh_store dr uid token_hash expires_at ua ip =
     try_insert (insert_refresh \<lparr>rt_id = dr_refresh_id dr, rt_user_id = uid, rt_token_hash = token_hash,
       rt_expires_at = expires_at, rt_revoked_at = None, rt_user_agent = ua, rt_ip = ip\<rparr>) (Unhandled ''IntegrityError'')"

definition refresh_find_active :: "int \<Rightarrow> string \<Rightarrow> auth_db \<Rightarrow> refresh_row option" where
  "refresh_find_active now h db = List.find (\<lambda>r. rt_token_hash r = h \<and> rt_revoked_at r = None \<and> rt_expires_at r > now)
     (dict_values (az_refresh db))"

definition refresh_revoke :: "int \<Rightarrow> string \<Rightarrow> unit auth_act" where
  "refresh_revoke now h = act_update (\<lambda>db. db\<lparr>az_refresh :=
     table_update (\<lambda>r. rt_token_hash r = h) (\<lambda>r. r\<lparr>rt_revoked_at := Some now\<rparr>) (az_refresh db)\<rparr>)"

definition revoke_all_for_user :: "int \<Rightarrow> uuid_int \<Rightarrow> unit auth_act" where
  "revoke_all_for_user now uid = act_update (\<lambda>db. db\<lparr>az_refresh :=
     table_update (\<lambda>r. rt_user_id r = uid \<and> rt_revoked_at r = None) (\<lambda>r. r\<lparr>rt_revoked_at := Some now\<rparr>) (az_refresh db)\<rparr>)"

definition refresh_cleanup_expired :: "int \<Rightarrow> nat auth_act" where
  "refresh_cleanup_expired now db =
     (let gone = filter (\<lambda>(k, r). rt_expires_at r \<le> now) (az_refresh db)
      in (Inr (length gone), db\<lparr>az_refresh := filter (\<lambda>(k, r). \<not> rt_expires_at r \<le> now) (az_refresh db)\<rparr>))"

section \<open>One-shot tokens and the denylist\<close>

definition token_put :: "int \<Rightarrow> string \<Rightarrow> string \<Rightarrow> int \<Rightarrow> (string, string \<times> int) dict \<Rightarrow> (string, string \<times> int) dict" where
  "token_put now token uid ttl d = AList.update token (uid, seconds now + ttl) d"

definition token_take :: "int \<Rightarrow> string \<Rightarrow> (string, string \<times> int) dict \<Rightarrow> string option \<times> (string, string \<times> int) dict" where
  "token_take now token d =
     (case map_of d token of
        None \<Rightarrow> (None, d)
      | Some (uid, ex) \<Rightarrow> if ex \<le> seconds now then (None, AList.delete token d) else (Some uid, AList.delete token d))"

definition is_revoked :: "int \<Rightarrow> string \<Rightarrow> (string, int) dict \<Rightarrow> bool \<times> (string, int) dict" where
  "is_revoked now jti d =
     (case map_of d jti of
        None \<Rightarrow> (False, d)
      | Some ex \<Rightarrow> if ex \<le> seconds now then (False, AList.delete jti d) else (True, d))"

definition revoke_jti :: "string \<Rightarrow> int \<Rightarrow> (string, int) dict \<Rightarrow> (string, int) dict" where
  "revoke_jti jti exp_ts d = AList.update jti exp_ts d"

end
