(* ===== verification/Auth_Service.thy ===== *)
theory Auth_Service
  imports Auth_Store
begin

text \<open>
  The service and the HTTP routes of in-house authentication: \<^verbatim>\<open>service.py\<close>, \<^verbatim>\<open>totp.py\<close>,
  \<^verbatim>\<open>api_keys.py\<close>, \<^verbatim>\<open>deps.py\<close>, the request validators of \<^verbatim>\<open>models.py\<close> and
  \<^verbatim>\<open>routes.py\<close>. Every route is an action over \<open>auth_db\<close>; \<open>serve\<close> is the router, a
  function from a request with its clock readings and random draws to a reply or an HTTP error and the
  new state, and \<open>serve_all\<close> runs a list of requests. \<^verbatim>\<open>Auth_Safety\<close> proves properties of such runs.
\<close>

section \<open>Request bodies\<close>

definition strip_and_check :: "string \<Rightarrow> string option" where
  "strip_and_check v = (let s = py_strip v in if s = [] then None else Some s)"

definition password_rule :: "string \<Rightarrow> bool" where
  "password_rule v \<longleftrightarrow> 12 \<le> length v \<and> length v \<le> 128 \<and> list_ex is_alpha_char v \<and> list_ex is_digit_char v"

definition bounded_text :: "nat \<Rightarrow> nat \<Rightarrow> string \<Rightarrow> bool" where
  "bounded_text lo hi s \<longleftrightarrow> lo \<le> length s \<and> length s \<le> hi"

definition name_field :: "string \<Rightarrow> string option" where
  "name_field s = (if bounded_text 1 120 s then strip_and_check s else None)"

definition VALID_ROLES :: "string list" where
  "VALID_ROLES = [''agency_admin'', ''ticketing_lead'', ''accounting_lead'', ''agent'', ''viewer'']"

section \<open>Principals\<close>

record auth_principal = principal +
  ap_email :: string
  ap_jti :: string
  ap_exp :: int

type_synonym 'a route_act = "(http_error, auth_db, 'a) act"

definition unauthorized :: http_error where
  "unauthorized = HTTP 401 ''unauthorized''"

definition extract_bearer :: "string option \<Rightarrow> string option" where
  "extract_bearer authorization =
     (case authorization of None \<Rightarrow> None
      | Some h \<Rightarrow> (case split_word h of
          [scheme, token] \<Rightarrow> if py_lower scheme \<noteq> ''bearer'' then None
            else let t = py_strip token in if t = [] then None else Some t
        | _ \<Rightarrow> None))"

definition check_revoked :: "int \<Rightarrow> string \<Rightarrow> bool route_act" where
  "check_revoked now jti db = (let (b, d) = is_revoked now jti (az_revoked db) in (Inr b, db\<lparr>az_revoked := d\<rparr>))"

text \<open>The denylist is read after the signature; an empty subject, tenant or \<^verbatim>\<open>jti\<close> fails the model and is a server error.\<close>

definition principal_from_token :: "auth_env \<Rightarrow> clock \<Rightarrow> string \<Rightarrow> auth_principal route_act" where
  "principal_from_token env ck token =
     (case verify_access_token env (ck 0) token of
        Inl e \<Rightarrow> act_raise unauthorized
      | Inr p \<Rightarrow>
          act_bind (check_revoked (ck 1) (ac_jti p)) (\<lambda>rev.
          act_bind (act_guard (\<not> rev) unauthorized) (\<lambda>_.
          act_bind (act_guard (ac_sub p \<noteq> [] \<and> ac_tid p \<noteq> [] \<and> ac_jti p \<noteq> []) (HTTP 500 ''ValidationError'')) (\<lambda>_.
            act_return \<lparr>pr_user_id = ac_sub p, pr_tenant_id = ac_tid p,
              pr_role = (if ac_role p = [] then ''agent'' else ac_role p), ap_email = ac_email p,
              ap_jti = ac_jti p, ap_exp = ac_exp p\<rparr>))))"

definition get_current_principal :: "auth_env \<Rightarrow> clock \<Rightarrow> string option \<Rightarrow> auth_principal route_act" where
  "get_current_principal env ck authorization =
     (case extract_bearer authorization of None \<Rightarrow> act_raise unauthorized | Some t \<Rightarrow> principal_from_token env ck t)"

definition get_current_principal_optional :: "auth_env \<Rightarrow> clock \<Rightarrow> string option \<Rightarrow> auth_principal option route_act" where
  "get_current_principal_optional env ck authorization =
     (case extract_bearer authorization of None \<Rightarrow> act_return None
      | Some t \<Rightarrow> act_bind (principal_from_token env ck t) (\<lambda>p. act_return (Some p)))"

definition get_current_access_payload :: "auth_env \<Rightarrow> int \<Rightarrow> string option \<Rightarrow> http_error + access_payload" where
  "get_current_access_payload env now authorization =
     (case extract_bearer authorization of None \<Rightarrow> Inl unauthorized
      | Some t \<Rightarrow> (case verify_access_token env now t of Inl e \<Rightarrow> Inl unauthorized | Inr p \<Rightarrow> Inr p))"

definition require_role :: "string list \<Rightarrow> auth_env \<Rightarrow> clock \<Rightarrow> string option \<Rightarrow> auth_principal route_act" where
  "require_role allowed env ck authorization =
     act_bind (get_current_principal env ck authorization) (\<lambda>p.
     act_bind (act_guard (pr_role p \<in> set allowed) (HTTP 403 ''forbidden_role'')) (\<lambda>_. act_return p))"

definition require_agency_admin :: "auth_env \<Rightarrow> clock \<Rightarrow> string option \<Rightarrow> auth_principal route_act" where
  "require_agency_admin env ck authorization =
     act_bind (get_current_principal env ck authorization) (\<lambda>p.
     act_bind (act_guard (pr_role p = ''agency_admin'') (HTTP 403 ''forbidden_role'')) (\<lambda>_. act_return p))"

section \<open>Replies\<close>

record public_user =
  pu_id :: string
  pu_email :: string
  pu_full_name :: string
  pu_role :: string
  pu_tenant_id :: string
  pu_tenant_name :: string
  pu_created_at :: int
  pu_email_verified :: bool

record token_pair =
  tp_access :: string
  tp_refresh :: string
  tp_expires_in :: int

record invite_summary =
  is_id :: string
  is_tenant_id :: string
  is_email :: string
  is_role :: string
  is_status :: string
  is_expires_at :: int
  is_created_at :: int
  is_accepted_at :: "int option"
  is_revoked_at :: "int option"
  is_invited_by_user_id :: string

record invite_lookup =
  il_email :: string
  il_role :: string
  il_tenant_name :: string
  il_inviter_email :: string
  il_expires_at :: int

record api_key_summary =
  ks_id :: string
  ks_name :: string
  ks_prefix :: string
  ks_scopes :: "string list"
  ks_created_at :: int
  ks_expires_at :: "int option"
  ks_revoked_at :: "int option"
  ks_last_used_at :: "int option"

definition public_user_of :: "user_row \<Rightarrow> tenant_row \<Rightarrow> public_user" where
  "public_user_of u t = \<lparr>pu_id = uuid_str (us_id u), pu_email = us_email u, pu_full_name = us_display_name u,
     pu_role = role_value (us_role u), pu_tenant_id = uuid_str (tn_id t), pu_tenant_name = tn_display_name t,
     pu_created_at = us_created_at u, pu_email_verified = us_email_verified u\<rparr>"

definition invite_summary_of :: "invite_row \<Rightarrow> invite_summary" where
  "invite_summary_of r = \<lparr>is_id = uuid_str (iv_id r), is_tenant_id = uuid_str (iv_tenant_id r), is_email = iv_email r,
     is_role = iv_role r, is_status = invite_status_value (iv_status r), is_expires_at = iv_expires_at r,
     is_created_at = iv_created_at r, is_accepted_at = iv_accepted_at r, is_revoked_at = iv_revoked_at r,
     is_invited_by_user_id = uuid_str (iv_invited_by_user_id r)\<rparr>"

fun split_commas :: "string \<Rightarrow> string \<Rightarrow> string list" where
  "split_commas cur [] = [cur]"
| "split_commas cur (c # cs) = (if c = CHR '','' then cur # split_commas [] cs else split_commas (cur @ [c]) cs)"

definition summarize_api_key :: "api_key_row \<Rightarrow> api_key_summary" where
  "summarize_api_key r =
     (let scopes = filter (\<lambda>s. s \<noteq> []) (split_commas [] (ak_scopes r))
      in \<lparr>ks_id = uuid_str (ak_id r), ks_name = ak_name r, ks_prefix = ak_prefix r,
          ks_scopes = (if scopes = [] then [''full''] else scopes), ks_created_at = ak_created_at r,
          ks_expires_at = ak_expires_at r, ks_revoked_at = ak_revoked_at r, ks_last_used_at = ak_last_used_at r\<rparr>)"

section \<open>The service\<close>

text \<open>The user agent and the address of the client, cut to the width of their columns.\<close>

type_synonym client = "string option \<times> string option"

definition cut :: "nat \<Rightarrow> string option \<Rightarrow> string option" where
  "cut n s = (case s of None \<Rightarrow> None | Some t \<Rightarrow> if t = [] then None else Some (take n t))"

definition client_meta :: "client \<Rightarrow> string option \<times> string option" where
  "client_meta c = (cut 255 (fst c), cut 64 (snd c))"

definition issue_pair_for_user :: "auth_env \<Rightarrow> clock \<Rightarrow> draws \<Rightarrow> client \<Rightarrow> user_row \<Rightarrow> uuid_int \<Rightarrow> token_pair auth_act" where
  "issue_pair_for_user env ck dr cl user tenant_id =
     (let (access, _, _) = issue_access_token env (ck 0) (dr_jti dr) (us_id user) tenant_id (us_email user) (role_value (us_role user));
          (plain, digest, expires) = mint_refresh_token env (ck 1) (dr_refresh dr);
          (ua, ip) = client_meta cl
      in act_bind (refresh_store dr (us_id user) digest expires ua ip) (\<lambda>_.
         act_return \<lparr>tp_access = access, tp_refresh = plain, tp_expires_in = au_access_ttl env\<rparr>))"

definition sign_up :: "auth_env \<Rightarrow> clock \<Rightarrow> draws \<Rightarrow> client \<Rightarrow> string \<Rightarrow> string \<Rightarrow> string \<Rightarrow> string \<Rightarrow> (token_pair \<times> public_user) auth_act" where
  "sign_up env ck dr cl email password full_name agency_name =
     act_bind (act_lift (validate_password_strength password)) (\<lambda>_.
     act_bind (act_read (find_by_email email)) (\<lambda>existing.
     act_bind (act_guard (existing = None) (EmailAlreadyRegistered ''email_already_registered'')) (\<lambda>_.
     act_bind (create_user_with_tenant env dr (ck 0) email full_name (hash_password env (dr_salt dr) password) agency_name) (\<lambda>(user, tenant).
     act_bind (issue_pair_for_user env (later 1 ck) dr cl user (tn_id tenant)) (\<lambda>pair.
       act_return (pair, public_user_of user tenant))))))"

text \<open>The password check shared by the two sign-in routes; the timing of the dummy hash is not modelled.\<close>

definition check_credentials :: "auth_env \<Rightarrow> string \<Rightarrow> string \<Rightarrow> user_row auth_act" where
  "check_credentials env email password =
     act_bind (act_read (find_by_email email)) (\<lambda>found.
     act_bind (act_some found (InvalidCredentials ''invalid_credentials'')) (\<lambda>user.
     act_bind (act_some (us_password_hash user) (InvalidCredentials ''invalid_credentials'')) (\<lambda>h.
     act_bind (act_guard (verify_password env h password) (InvalidCredentials ''invalid_credentials'')) (\<lambda>_.
     act_bind (act_guard (us_email_verified user) (EmailNotVerified ''email_not_verified'')) (\<lambda>_.
       act_return user)))))"

definition sign_in :: "auth_env \<Rightarrow> clock \<Rightarrow> draws \<Rightarrow> client \<Rightarrow> string \<Rightarrow> string \<Rightarrow> (token_pair \<times> public_user) auth_act" where
  "sign_in env ck dr cl email password =
     act_bind (check_credentials env email password) (\<lambda>user.
     act_bind (act_read (find_tenant (us_tenant_id user))) (\<lambda>t.
     act_bind (act_some t (InvalidCredentials ''invalid_credentials'')) (\<lambda>tenant.
     act_bind (update_last_login (ck 0) (us_id user)) (\<lambda>_.
     act_bind (issue_pair_for_user env (later 1 ck) dr cl user (tn_id tenant)) (\<lambda>pair.
       act_return (pair, public_user_of user tenant))))))"

definition refresh :: "auth_env \<Rightarrow> clock \<Rightarrow> draws \<Rightarrow> client \<Rightarrow> string \<Rightarrow> token_pair auth_act" where
  "refresh env ck dr cl token =
     (let digest = hash_refresh_token env token
      in act_bind (act_read (refresh_find_active (ck 0) digest)) (\<lambda>found.
         act_bind (act_some found (RefreshTokenRevoked ''invalid_refresh_token'')) (\<lambda>row.
         act_bind (act_read (find_by_id (rt_user_id row))) (\<lambda>user.
         act_bind (act_read (\<lambda>db. Option.bind user (\<lambda>u. find_tenant (us_tenant_id u) db))) (\<lambda>tenant.
           case (user, tenant) of
             (Some u, Some t) \<Rightarrow>
               act_bind (refresh_revoke (ck 1) digest) (\<lambda>_. issue_pair_for_user env (later 2 ck) dr cl u (tn_id t))
           | _ \<Rightarrow> act_bind (refresh_revoke (ck 1) digest) (\<lambda>_. act_raise (RefreshTokenRevoked ''invalid_refresh_token'')))))))"

text \<open>Both halves of a sign-out are best effort: their failures are swallowed.\<close>

definition sign_out :: "auth_env \<Rightarrow> clock \<Rightarrow> access_payload option \<Rightarrow> string option \<Rightarrow> unit auth_act" where
  "sign_out env ck payload token =
     act_bind (case token of None \<Rightarrow> act_return () | Some t \<Rightarrow>
                 if t = [] then act_return () else refresh_revoke (ck 0) (hash_refresh_token env t)) (\<lambda>_.
     case payload of None \<Rightarrow> act_return ()
     | Some p \<Rightarrow> act_update (\<lambda>db. db\<lparr>az_revoked := revoke_jti (ac_jti p) (ac_exp p) (az_revoked db)\<rparr>))"

definition user_of_subject :: "string \<Rightarrow> user_row auth_act" where
  "user_of_subject sub =
     act_bind (act_some (uuid_parse sub) (InvalidToken ''malformed_subject'')) (\<lambda>uid.
     act_bind (act_read (find_by_id uid)) (\<lambda>u. act_some u (InvalidToken ''user_not_found'')))"

definition me :: "string \<Rightarrow> public_user auth_act" where
  "me sub =
     act_bind (user_of_subject sub) (\<lambda>user.
     act_bind (act_read (find_tenant (us_tenant_id user))) (\<lambda>t.
     act_bind (act_some t (InvalidToken ''tenant_not_found'')) (\<lambda>tenant. act_return (public_user_of user tenant))))"

definition send_verification_email :: "auth_env \<Rightarrow> clock \<Rightarrow> draws \<Rightarrow> string \<Rightarrow> string auth_act" where
  "send_verification_email env ck dr sub =
     act_bind (user_of_subject sub) (\<lambda>user.
     let token = uuid_hex (dr_uuid4 dr)
     in act_bind (act_update (\<lambda>db. db\<lparr>az_verify := token_put (ck 0) token (uuid_str (us_id user)) (get_verification_ttl_seconds env) (az_verify db)\<rparr>)) (\<lambda>_.
        act_return token))"

definition take_verify_token :: "int \<Rightarrow> string \<Rightarrow> string option auth_act" where
  "take_verify_token now token db = (let (r, d) = token_take now token (az_verify db) in (Inr r, db\<lparr>az_verify := d\<rparr>))"

definition take_reset_token :: "int \<Rightarrow> string \<Rightarrow> string option auth_act" where
  "take_reset_token now token db = (let (r, d) = token_take now token (az_reset db) in (Inr r, db\<lparr>az_reset := d\<rparr>))"

definition verify_email :: "clock \<Rightarrow> string \<Rightarrow> unit auth_act" where
  "verify_email ck token =
     act_bind (take_verify_token (ck 0) token) (\<lambda>found.
     act_bind (act_some found (InvalidVerificationToken ''token_invalid'')) (\<lambda>sub.
     act_bind (act_some (uuid_parse sub) (InvalidVerificationToken ''token_invalid'')) (\<lambda>uid. mark_email_verified uid)))"

definition update_profile :: "uuid_int \<Rightarrow> string option \<Rightarrow> string option \<Rightarrow> (public_user \<times> bool) auth_act" where
  "update_profile uid full_name email =
     act_bind (update_profile_row uid full_name email) (\<lambda>(user, email_changed).
     act_bind (act_read (find_tenant (us_tenant_id user))) (\<lambda>t.
     act_bind (act_some t (InvalidToken ''tenant_not_found'')) (\<lambda>tenant.
       act_return (public_user_of user tenant, email_changed))))"

definition request_password_reset :: "auth_env \<Rightarrow> clock \<Rightarrow> draws \<Rightarrow> string \<Rightarrow> string option auth_act" where
  "request_password_reset env ck dr email =
     act_bind (act_read (find_by_email email)) (\<lambda>found.
     case found of None \<Rightarrow> act_return None
     | Some user \<Rightarrow>
         (let token = token_urlsafe (dr_token dr)
          in act_bind (act_update (\<lambda>db. db\<lparr>az_reset := token_put (ck 0) token (uuid_str (us_id user)) (get_password_reset_ttl_seconds env) (az_reset db)\<rparr>)) (\<lambda>_.
             act_return (Some token))))"

definition reset_password :: "auth_env \<Rightarrow> clock \<Rightarrow> draws \<Rightarrow> string \<Rightarrow> string \<Rightarrow> unit auth_act" where
  "reset_password env ck dr token new_password =
     act_bind (take_reset_token (ck 0) token) (\<lambda>found.
     act_bind (act_some found (InvalidVerificationToken ''token_invalid'')) (\<lambda>sub.
     act_bind (act_some (uuid_parse sub) (InvalidVerificationToken ''token_invalid'')) (\<lambda>uid.
     act_bind (act_read (find_by_id uid)) (\<lambda>u.
     act_bind (act_some u (InvalidVerificationToken ''token_invalid'')) (\<lambda>_.
     act_bind (update_password_hash uid (hash_password env (dr_salt dr) new_password)) (\<lambda>_.
       revoke_all_for_user (ck 1) uid))))))"

section \<open>Invites\<close>

definition hash_invite_token :: "auth_env \<Rightarrow> string \<Rightarrow> string" where
  "hash_invite_token env token = au_sha256 env token"

definition create_invite :: "auth_env \<Rightarrow> clock \<Rightarrow> draws \<Rightarrow> uuid_int \<Rightarrow> uuid_int \<Rightarrow> string \<Rightarrow> string \<Rightarrow> (invite_summary \<times> string) auth_act" where
  "create_invite env ck dr tenant_id user_id email role =
     act_bind (act_read (find_pending_for_email tenant_id email)) (\<lambda>existing.
     act_bind (act_guard (existing = None) (InviteAlreadyExists ''invite_already_exists'')) (\<lambda>_.
     let plain = token_urlsafe (dr_token dr)
     in act_bind (act_map_err (\<lambda>e. case e of EmailAlreadyRegistered _ \<Rightarrow> InviteAlreadyExists ''invite_already_exists'' | _ \<Rightarrow> e)
                   (invite_create dr (ck 0) (ck 1) tenant_id user_id email role (hash_invite_token env plain))) (\<lambda>row.
        act_return (invite_summary_of row, plain))))"

definition list_invites :: "uuid_int \<Rightarrow> invite_status option \<Rightarrow> invite_summary list auth_act" where
  "list_invites tenant_id st = act_read (\<lambda>db. map invite_summary_of (invite_list_for_tenant tenant_id st db))"

definition revoke_invite :: "clock \<Rightarrow> uuid_int \<Rightarrow> uuid_int \<Rightarrow> invite_summary auth_act" where
  "revoke_invite ck tenant_id invite_id =
     act_bind (act_read (invite_find_by_id invite_id)) (\<lambda>found.
     act_bind (act_some found (InviteNotFound ''invite_not_found'')) (\<lambda>row.
     act_bind (act_guard (iv_tenant_id row = tenant_id) (InviteNotFound ''invite_not_found'')) (\<lambda>_.
     act_bind (act_guard (iv_status row = InvPending) (InviteInvalidState ''invite_not_pending'')) (\<lambda>_.
     act_bind (invite_revoke (ck 0) invite_id) (\<lambda>_.
     act_bind (act_read (invite_find_by_id invite_id)) (\<lambda>updated.
     act_bind (act_some updated (Unhandled ''AssertionError'')) (\<lambda>r. act_return (invite_summary_of r))))))))"

text \<open>The invite of a token, pending and not expired; the columns are time-zone aware.\<close>

definition open_invite :: "auth_env \<Rightarrow> int \<Rightarrow> string \<Rightarrow> invite_row auth_act" where
  "open_invite env now token =
     act_bind (act_read (invite_find_by_token_hash (hash_invite_token env token))) (\<lambda>found.
     act_bind (act_some found (InviteNotFound ''invite_not_found'')) (\<lambda>row.
     act_bind (act_guard (iv_status row = InvPending) (InviteInvalidState ''invite_not_pending'')) (\<lambda>_.
     act_bind (act_guard (\<not> iv_expires_at row \<le> now) (InviteInvalidState ''invite_expired'')) (\<lambda>_.
       act_return row))))"

definition lookup_invite :: "auth_env \<Rightarrow> clock \<Rightarrow> string \<Rightarrow> invite_lookup auth_act" where
  "lookup_invite env ck token =
     act_bind (open_invite env (ck 0) token) (\<lambda>row.
     act_bind (act_read (find_tenant (iv_tenant_id row))) (\<lambda>t.
     act_bind (act_read (find_by_id (iv_invited_by_user_id row))) (\<lambda>i.
     act_bind (act_some t (InviteNotFound ''invite_not_found'')) (\<lambda>tenant.
     act_bind (act_some i (InviteNotFound ''invite_not_found'')) (\<lambda>inviter.
       act_return \<lparr>il_email = iv_email row, il_role = iv_role row, il_tenant_name = tn_display_name tenant,
         il_inviter_email = us_email inviter, il_expires_at = iv_expires_at row\<rparr>)))))"

definition accept_invite :: "auth_env \<Rightarrow> clock \<Rightarrow> draws \<Rightarrow> client \<Rightarrow> string \<Rightarrow> string \<Rightarrow> string \<Rightarrow> (token_pair \<times> public_user) auth_act" where
  "accept_invite env ck dr cl token password full_name =
     act_bind (open_invite env (ck 0) token) (\<lambda>row.
     act_bind (act_read (find_by_email (iv_email row))) (\<lambda>existing.
     act_bind (act_guard (existing = None) (EmailAlreadyRegistered ''email_already_registered'')) (\<lambda>_.
     act_bind (create_user_in_existing_tenant env dr (ck 1) (iv_tenant_id row) (iv_email row) full_name
                 (hash_password env (dr_salt dr) password) (iv_role row)) (\<lambda>user.
     act_bind (invite_mark_accepted (ck 2) (iv_id row)) (\<lambda>_.
     act_bind (act_read (find_tenant (iv_tenant_id row))) (\<lambda>t.
     act_bind (act_some t (InvalidToken ''tenant_not_found'')) (\<lambda>tenant.
     act_bind (issue_pair_for_user env (later 3 ck) dr cl user (tn_id tenant)) (\<lambda>pair.
       act_return (pair, public_user_of user tenant)))))))))"

section \<open>One-time passwords\<close>

definition verify_totp_code :: "auth_env \<Rightarrow> int \<Rightarrow> string \<Rightarrow> string \<Rightarrow> bool" where
  "verify_totp_code env now secret code =
     (if secret = [] \<or> code = [] then False
      else let c = filter (\<lambda>x. x \<noteq> CHR '' '') (py_strip code)
           in if \<not> py_isdigit c \<or> length c \<noteq> 6 then False
              else case au_totp env secret 1 now c of None \<Rightarrow> False | Some b \<Rightarrow> b)"

definition store_totp_secret :: "uuid_int \<Rightarrow> string \<Rightarrow> unit auth_act" where
  "store_totp_secret uid secret = update_user uid (\<lambda>u. u\<lparr>us_totp_secret := Some secret, us_totp_enabled := False\<rparr>)"

definition enable_totp :: "uuid_int \<Rightarrow> unit auth_act" where
  "enable_totp uid = update_user uid (\<lambda>u. u\<lparr>us_totp_enabled := True\<rparr>)"

definition clear_totp :: "uuid_int \<Rightarrow> unit auth_act" where
  "clear_totp uid = update_user uid (\<lambda>u. u\<lparr>us_totp_enabled := False, us_totp_secret := None\<rparr>)"

definition load_user :: "uuid_int \<Rightarrow> user_row auth_act" where
  "load_user uid = act_bind (act_read (find_by_id uid)) (\<lambda>u. act_some u (HttpException 401 ''unauthorized''))"

definition setup_totp_for_user :: "auth_env \<Rightarrow> draws \<Rightarrow> uuid_int \<Rightarrow> (string \<times> string) auth_act" where
  "setup_totp_for_user env dr uid =
     act_bind (load_user uid) (\<lambda>user.
     let secret = dr_secret dr
     in act_bind (store_totp_secret uid secret) (\<lambda>_.
        act_return (secret, au_otpauth env secret (us_email user) ''Voyagent'')))"

text \<open>An absent secret and an empty one are both falsy.\<close>

definition secret_text :: "user_row \<Rightarrow> string" where
  "secret_text u = (case us_totp_secret u of None \<Rightarrow> '''' | Some s \<Rightarrow> s)"

definition verify_totp_for_user :: "auth_env \<Rightarrow> clock \<Rightarrow> uuid_int \<Rightarrow> string \<Rightarrow> unit auth_act" where
  "verify_totp_for_user env ck uid code =
     act_bind (load_user uid) (\<lambda>user.
     act_bind (act_guard (secret_text user \<noteq> []) (HttpException 400 ''totp_not_initialized'')) (\<lambda>_.
     if us_totp_enabled user then act_return ()
     else act_bind (act_guard (verify_totp_code env (ck 0) (secret_text user) code) (HttpException 401 ''totp_invalid'')) (\<lambda>_.
          enable_totp uid)))"

definition disable_totp_for_user :: "auth_env \<Rightarrow> clock \<Rightarrow> uuid_int \<Rightarrow> string \<Rightarrow> string \<Rightarrow> unit auth_act" where
  "disable_totp_for_user env ck uid password code =
     act_bind (load_user uid) (\<lambda>user.
     act_bind (act_some (us_password_hash user) (HttpException 401 ''unauthorized'')) (\<lambda>h.
     act_bind (act_guard (verify_password env h password) (HttpException 403 ''invalid_password'')) (\<lambda>_.
     if \<not> us_totp_enabled user \<or> secret_text user = [] then act_return ()
     else act_bind (act_guard (verify_totp_code env (ck 0) (secret_text user) code) (HttpException 403 ''totp_invalid'')) (\<lambda>_.
          clear_totp uid))))"

definition user_requires_totp :: "string \<Rightarrow> auth_db \<Rightarrow> bool" where
  "user_requires_totp email db = (case find_by_email email db of None \<Rightarrow> False | Some u \<Rightarrow> us_totp_enabled u)"

definition sign_in_with_totp :: "auth_env \<Rightarrow> clock \<Rightarrow> string \<Rightarrow> string \<Rightarrow> string \<Rightarrow> user_row auth_act" where
  "sign_in_with_totp env ck email password code =
     act_bind (check_credentials env email password) (\<lambda>user.
     act_bind (act_guard (us_totp_enabled user \<and> secret_text user \<noteq> []) (HttpException 400 ''totp_not_enabled'')) (\<lambda>_.
     act_bind (act_guard (verify_totp_code env (ck 0) (secret_text user) code) (HttpException 401 ''totp_invalid'')) (\<lambda>_.
     act_bind (update_last_login (ck 1) (us_id user)) (\<lambda>_. act_return user))))"

section \<open>API keys\<close>

definition API_KEY_SCHEME_PREFIX :: string where "API_KEY_SCHEME_PREFIX = ''vy_''"

definition PREFIX_LEN :: nat where "PREFIX_LEN = 8"

definition BODY_LEN :: nat where "BODY_LEN = 32"

text \<open>
  \<^verbatim>\<open>_urlsafe\<close>: hyphens and underscores are removed, and more is drawn until \<open>n\<close> characters
  remain. The list holds the draws; \<open>None\<close> means that the loop wants another one.
\<close>

definition alnum_part :: "nat list \<Rightarrow> string" where
  "alnum_part raw = filter (\<lambda>c. c \<noteq> CHR ''-'' \<and> c \<noteq> CHR ''_'') (token_urlsafe raw)"

fun urlsafe_loop :: "nat \<Rightarrow> string \<Rightarrow> nat list list \<Rightarrow> string option" where
  "urlsafe_loop n clean ds =
     (if n \<le> length clean then Some (take n clean)
      else case ds of [] \<Rightarrow> None | d # rest \<Rightarrow> urlsafe_loop n (clean @ alnum_part d) rest)"

definition urlsafe :: "nat \<Rightarrow> nat list list \<Rightarrow> string option" where
  "urlsafe n ds = (case ds of [] \<Rightarrow> None | d # rest \<Rightarrow> urlsafe_loop n (alnum_part d) rest)"

definition mint_api_key_plaintext :: "draws \<Rightarrow> (string \<times> string) option" where
  "mint_api_key_plaintext dr =
     Option.bind (urlsafe PREFIX_LEN (dr_prefix dr)) (\<lambda>prefix.
     Option.bind (urlsafe BODY_LEN (dr_body dr)) (\<lambda>body.
       Some (API_KEY_SCHEME_PREFIX @ prefix @ ''_'' @ body, prefix)))"

definition hash_api_key :: "auth_env \<Rightarrow> string \<Rightarrow> string" where
  "hash_api_key env full_key = au_sha256 env full_key"

definition parse_api_key :: "string \<Rightarrow> (string \<times> string) option" where
  "parse_api_key full_key =
     (if take (length API_KEY_SCHEME_PREFIX) full_key \<noteq> API_KEY_SCHEME_PREFIX then None
      else let rest = drop (length API_KEY_SCHEME_PREFIX) full_key; prefix = takeWhile (\<lambda>c. c \<noteq> CHR ''_'') rest
           in if CHR ''_'' \<notin> set rest then None
              else let body = drop (length prefix + 1) rest
                   in if length prefix \<noteq> PREFIX_LEN \<or> length body \<noteq> BODY_LEN then None else Some (prefix, body))"

definition create_api_key :: "auth_env \<Rightarrow> clock \<Rightarrow> draws \<Rightarrow> uuid_int \<Rightarrow> uuid_int \<Rightarrow> string \<Rightarrow> int option \<Rightarrow> (api_key_row \<times> string) auth_act" where
  "create_api_key env ck dr tenant_id user_id name expires_in_days =
     act_bind (act_some (mint_api_key_plaintext dr) (Unhandled ''draw'')) (\<lambda>(full, prefix).
     let row = \<lparr>ak_id = dr_row_id dr, ak_tenant_id = tenant_id, ak_created_by_user_id = user_id, ak_name = name,
                ak_prefix = prefix, ak_key_hash = hash_api_key env full, ak_scopes = ''full'',
                ak_expires_at = (case expires_in_days of None \<Rightarrow> None
                   | Some d \<Rightarrow> if d > 0 then Some (ck 0 + d * 86400 * 1000000) else None),
                ak_revoked_at = None, ak_last_used_at = None, ak_created_at = ck 1\<rparr>
     in act_bind (try_insert (insert_api_key row) (HttpException 500 ''api_key_mint_collision'')) (\<lambda>_. act_return (row, full)))"

definition list_api_keys_for_tenant :: "uuid_int \<Rightarrow> auth_db \<Rightarrow> api_key_row list" where
  "list_api_keys_for_tenant tid db = sort_key (\<lambda>r. - ak_created_at r) (filter (\<lambda>r. ak_tenant_id r = tid) (dict_values (az_keys db)))"

definition update_api_key :: "uuid_int \<Rightarrow> (api_key_row \<Rightarrow> api_key_row) \<Rightarrow> unit auth_act" where
  "update_api_key kid f = act_update (\<lambda>db. db\<lparr>az_keys := table_update (\<lambda>r. ak_id r = kid) f (az_keys db)\<rparr>)"

definition revoke_api_key :: "clock \<Rightarrow> uuid_int \<Rightarrow> uuid_int \<Rightarrow> bool auth_act" where
  "revoke_api_key ck kid tid =
     act_bind (act_read (\<lambda>db. Option.bind (map_of (az_keys db) kid) (\<lambda>r. if ak_tenant_id r = tid then Some r else None))) (\<lambda>found.
     case found of None \<Rightarrow> act_return False
     | Some row \<Rightarrow> act_bind (if ak_revoked_at row = None then update_api_key kid (\<lambda>r. r\<lparr>ak_revoked_at := Some (ck 0)\<rparr>)
                            else act_return ()) (\<lambda>_. act_return True))"

text \<open>
  \<^verbatim>\<open>scalar_one_or_none\<close> raises when two rows carry the prefix, which has no unique key; the
  other failures give no principal.
\<close>

definition key_principal :: "user_row \<Rightarrow> uuid_int \<Rightarrow> auth_principal" where
  "key_principal u kid = \<lparr>pr_user_id = uuid_str (us_id u), pr_tenant_id = uuid_str (us_tenant_id u),
     pr_role = role_value (us_role u), ap_email = us_email u, ap_jti = ''apikey:'' @ uuid_str kid, ap_exp = 0\<rparr>"

definition usable_key :: "auth_env \<Rightarrow> int \<Rightarrow> string \<Rightarrow> api_key_row \<Rightarrow> bool" where
  "usable_key env now full_key row \<longleftrightarrow> ak_key_hash row = hash_api_key env full_key \<and> ak_revoked_at row = None
     \<and> (case ak_expires_at row of None \<Rightarrow> True | Some e \<Rightarrow> \<not> e \<le> now)"

definition resolve_api_key :: "auth_env \<Rightarrow> clock \<Rightarrow> string \<Rightarrow> auth_principal option auth_act" where
  "resolve_api_key env ck full_key =
     (case parse_api_key full_key of None \<Rightarrow> act_return None
      | Some (pre, body) \<Rightarrow>
          act_bind (act_read (\<lambda>db. filter (\<lambda>r. ak_prefix r = pre) (dict_values (az_keys db)))) (\<lambda>rows.
          case rows of
            [] \<Rightarrow> act_return None
          | [row] \<Rightarrow>
              if \<not> usable_key env (ck 0) full_key row then act_return None
              else act_bind (act_read (find_by_id (ak_created_by_user_id row))) (\<lambda>user.
                   case user of None \<Rightarrow> act_return None
                   | Some u \<Rightarrow> act_bind (update_api_key (ak_id row) (\<lambda>r. r\<lparr>ak_last_used_at := Some (ck 1)\<rparr>)) (\<lambda>_.
                       act_return (Some (key_principal u (ak_id row)))))
          | _ \<Rightarrow> act_raise (Unhandled ''MultipleResultsFound'')))"

definition key_or_jwt_principal :: "auth_env \<Rightarrow> clock \<Rightarrow> string option \<Rightarrow> auth_principal route_act" where
  "key_or_jwt_principal env ck authorization =
     (case extract_bearer authorization of None \<Rightarrow> act_raise unauthorized
      | Some token \<Rightarrow>
          if take (length API_KEY_SCHEME_PREFIX) token = API_KEY_SCHEME_PREFIX
          then act_bind (act_map_err (\<lambda>_. HTTP 500 ''Internal Server Error'') (resolve_api_key env ck token)) (\<lambda>p.
               act_some p unauthorized)
          else principal_from_token env ck token)"

section \<open>Routes\<close>

text \<open>How a route answers an exception of the service that it does not catch itself.\<close>

fun uncaught :: "auth_error \<Rightarrow> http_error" where
  "uncaught (HttpException n d) = HTTP n d"
| "uncaught _ = HTTP 500 ''Internal Server Error''"

fun sign_up_error :: "auth_error \<Rightarrow> http_error" where
  "sign_up_error (EmailAlreadyRegistered _) = HTTP 409 ''email_already_registered''"
| "sign_up_error (PasswordTooWeak code) = HTTP 400 (''password_too_weak: '' @ code)"
| "sign_up_error e = uncaught e"

fun sign_in_error :: "auth_error \<Rightarrow> http_error" where
  "sign_in_error (EmailNotVerified _) = HTTP 401 ''email_not_verified''"
| "sign_in_error (InvalidCredentials _) = HTTP 401 ''invalid_credentials''"
| "sign_in_error e = uncaught e"

fun refresh_error :: "auth_error \<Rightarrow> http_error" where
  "refresh_error (RefreshTokenRevoked _) = HTTP 401 ''invalid_refresh_token''"
| "refresh_error e = uncaught e"

fun subject_error :: "auth_error \<Rightarrow> http_error" where
  "subject_error (InvalidToken _) = unauthorized"
| "subject_error e = uncaught e"

fun verification_error :: "auth_error \<Rightarrow> http_error" where
  "verification_error (InvalidVerificationToken _) = HTTP 400 ''token_invalid''"
| "verification_error e = uncaught e"

fun profile_error :: "auth_error \<Rightarrow> http_error" where
  "profile_error (EmailAlreadyRegistered _) = HTTP 409 ''email_already_registered''"
| "profile_error e = uncaught e"

fun invite_error :: "auth_error \<Rightarrow> http_error" where
  "invite_error (InviteAlreadyExists _) = HTTP 409 ''invite_already_exists''"
| "invite_error e = uncaught e"

fun revoke_invite_error :: "auth_error \<Rightarrow> http_error" where
  "revoke_invite_error (InviteNotFound _) = HTTP 404 ''invite_not_found''"
| "revoke_invite_error (InviteInvalidState _) = HTTP 409 ''invite_not_pending''"
| "revoke_invite_error e = uncaught e"

fun open_invite_error :: "auth_error \<Rightarrow> http_error" where
  "open_invite_error (InviteNotFound _) = HTTP 404 ''invite_not_found''"
| "open_invite_error (InviteInvalidState m) = HTTP 400 m"
| "open_invite_error (EmailAlreadyRegistered _) = HTTP 409 ''email_already_registered''"
| "open_invite_error e = uncaught e"

datatype auth_reply =
    R_auth token_pair public_user
  | R_pair token_pair
  | R_none
  | R_user public_user
  | R_queued "string option"
  | R_verified
  | R_profile public_user bool
  | R_reset
  | R_invite invite_summary string
  | R_invites "invite_summary list"
  | R_invite_revoked invite_summary
  | R_lookup invite_lookup
  | R_totp string string
  | R_totp_status bool
  | R_key string api_key_summary
  | R_keys "api_key_summary list"

definition invalid_body :: http_error where
  "invalid_body = HTTP 422 ''validation''"

definition uuid_or :: "string \<Rightarrow> http_error \<Rightarrow> uuid_int route_act" where
  "uuid_or s e = act_some (uuid_parse s) e"

definition sign_up_route :: "auth_env \<Rightarrow> clock \<Rightarrow> draws \<Rightarrow> client \<Rightarrow> string \<Rightarrow> string \<Rightarrow> string \<Rightarrow> string \<Rightarrow> auth_reply route_act" where
  "sign_up_route env ck dr cl email password full_name agency_name =
     act_bind (act_some (au_email env email) invalid_body) (\<lambda>em.
     act_bind (act_guard (password_rule password) invalid_body) (\<lambda>_.
     act_bind (act_some (name_field full_name) invalid_body) (\<lambda>fn.
     act_bind (act_some (name_field agency_name) invalid_body) (\<lambda>an.
     act_bind (act_map_err sign_up_error (sign_up env ck dr cl em password fn an)) (\<lambda>(pair, user).
       act_return (R_auth pair user))))))"

definition sign_in_route :: "auth_env \<Rightarrow> clock \<Rightarrow> draws \<Rightarrow> client \<Rightarrow> string \<Rightarrow> string \<Rightarrow> auth_reply route_act" where
  "sign_in_route env ck dr cl email password =
     act_bind (act_some (au_email env email) invalid_body) (\<lambda>em.
     act_bind (act_guard (bounded_text 1 256 password) invalid_body) (\<lambda>_.
     act_bind (act_map_err sign_in_error (sign_in env ck dr cl em password)) (\<lambda>(pair, user).
       act_return (R_auth pair user))))"

definition refresh_route :: "auth_env \<Rightarrow> clock \<Rightarrow> draws \<Rightarrow> client \<Rightarrow> string \<Rightarrow> auth_reply route_act" where
  "refresh_route env ck dr cl token =
     act_bind (act_guard (token \<noteq> []) invalid_body) (\<lambda>_.
     act_bind (act_map_err refresh_error (refresh env ck dr cl token)) (\<lambda>pair. act_return (R_pair pair)))"

definition sign_out_route :: "auth_env \<Rightarrow> clock \<Rightarrow> string option \<Rightarrow> string option \<Rightarrow> auth_reply route_act" where
  "sign_out_route env ck authorization token =
     (let payload = (case authorization of None \<Rightarrow> None | Some h \<Rightarrow>
            (case split_word h of
               [scheme, t] \<Rightarrow> if py_lower scheme \<noteq> ''bearer'' then None
                 else (case verify_access_token env (ck 0) (py_strip t) of Inl _ \<Rightarrow> None | Inr p \<Rightarrow> Some p)
             | _ \<Rightarrow> None))
      in act_bind (act_map_err uncaught (sign_out env (later 1 ck) payload token)) (\<lambda>_. act_return R_none))"

definition me_route :: "auth_env \<Rightarrow> clock \<Rightarrow> string option \<Rightarrow> auth_reply route_act" where
  "me_route env ck authorization =
     act_bind (get_current_principal env ck authorization) (\<lambda>p.
     act_bind (act_map_err subject_error (me (pr_user_id p))) (\<lambda>u. act_return (R_user u)))"

definition send_verification_route :: "auth_env \<Rightarrow> clock \<Rightarrow> draws \<Rightarrow> string option \<Rightarrow> auth_reply route_act" where
  "send_verification_route env ck dr authorization =
     act_bind (get_current_principal env ck authorization) (\<lambda>p.
     act_bind (act_map_err subject_error (send_verification_email env (later 2 ck) dr (pr_user_id p))) (\<lambda>_.
       act_return (R_queued None)))"

definition verify_email_route :: "clock \<Rightarrow> string \<Rightarrow> auth_reply route_act" where
  "verify_email_route ck token =
     act_bind (act_guard (bounded_text 1 128 token) invalid_body) (\<lambda>_.
     act_bind (act_map_err verification_error (verify_email ck token)) (\<lambda>_. act_return R_verified))"

definition profile_name :: "string option \<Rightarrow> string option option" where
  "profile_name n = (case n of None \<Rightarrow> Some None
     | Some s \<Rightarrow> if length s > 120 then None else map_option Some (strip_and_check s))"

definition profile_email :: "auth_env \<Rightarrow> string option \<Rightarrow> string option option" where
  "profile_email env e = (case e of None \<Rightarrow> Some None | Some s \<Rightarrow> map_option Some (au_email env s))"

definition update_profile_route :: "auth_env \<Rightarrow> clock \<Rightarrow> string option \<Rightarrow> string option \<Rightarrow> string option \<Rightarrow> auth_reply route_act" where
  "update_profile_route env ck authorization full_name email =
     act_bind (get_current_principal env ck authorization) (\<lambda>p.
     act_bind (act_some (profile_name full_name) invalid_body) (\<lambda>fn.
     act_bind (act_some (profile_email env email) invalid_body) (\<lambda>em.
     act_bind (uuid_or (pr_user_id p) unauthorized) (\<lambda>uid.
     act_bind (act_map_err profile_error (update_profile uid fn em)) (\<lambda>(user, changed).
       act_return (R_profile user changed))))))"

definition request_reset_route :: "auth_env \<Rightarrow> clock \<Rightarrow> draws \<Rightarrow> string \<Rightarrow> auth_reply route_act" where
  "request_reset_route env ck dr email =
     act_bind (act_some (au_email env email) invalid_body) (\<lambda>em.
     act_bind (act_map_err uncaught (request_password_reset env ck dr em)) (\<lambda>token.
       act_return (R_queued (if skip_email_verification env then token else None))))"

definition reset_password_route :: "auth_env \<Rightarrow> clock \<Rightarrow> draws \<Rightarrow> string \<Rightarrow> string \<Rightarrow> auth_reply route_act" where
  "reset_password_route env ck dr token new_password =
     act_bind (act_guard (bounded_text 1 128 token \<and> password_rule new_password) invalid_body) (\<lambda>_.
     act_bind (act_map_err verification_error (reset_password env ck dr token new_password)) (\<lambda>_. act_return R_reset))"

definition INVITE_LINK_BASE :: string where
  "INVITE_LINK_BASE = ''https://voyagent.globusdemos.com/app/accept-invite?token=''"

definition create_invite_route :: "auth_env \<Rightarrow> clock \<Rightarrow> draws \<Rightarrow> string option \<Rightarrow> string \<Rightarrow> string \<Rightarrow> auth_reply route_act" where
  "create_invite_route env ck dr authorization email role =
     act_bind (require_agency_admin env ck authorization) (\<lambda>p.
     act_bind (act_some (au_email env email) invalid_body) (\<lambda>em.
     act_bind (act_guard (role \<in> set VALID_ROLES) invalid_body) (\<lambda>_.
     act_bind (uuid_or (pr_tenant_id p) unauthorized) (\<lambda>tid.
     act_bind (uuid_or (pr_user_id p) unauthorized) (\<lambda>uid.
     act_bind (act_map_err invite_error (create_invite env (later 2 ck) dr tid uid em role)) (\<lambda>(summary, plain).
       act_return (R_invite summary (INVITE_LINK_BASE @ plain))))))))"

definition invite_status_of :: "string \<Rightarrow> invite_status option" where
  "invite_status_of s = List.find (\<lambda>x. invite_status_value x = s) [InvPending, InvAccepted, InvRevoked, InvExpired]"

definition list_invites_route :: "auth_env \<Rightarrow> clock \<Rightarrow> string option \<Rightarrow> string option \<Rightarrow> auth_reply route_act" where
  "list_invites_route env ck authorization st =
     act_bind (require_agency_admin env ck authorization) (\<lambda>p.
     act_bind (uuid_or (pr_tenant_id p) unauthorized) (\<lambda>tid.
     act_bind (act_some (case st of None \<Rightarrow> Some None | Some s \<Rightarrow> map_option Some (invite_status_of s)) (HTTP 400 ''invalid_status'')) (\<lambda>parsed.
     act_bind (act_map_err uncaught (list_invites tid parsed)) (\<lambda>items. act_return (R_invites items)))))"

definition revoke_invite_route :: "auth_env \<Rightarrow> clock \<Rightarrow> string option \<Rightarrow> string \<Rightarrow> auth_reply route_act" where
  "revoke_invite_route env ck authorization invite_id =
     act_bind (require_agency_admin env ck authorization) (\<lambda>p.
     act_bind (uuid_or (pr_tenant_id p) (HTTP 404 ''invite_not_found'')) (\<lambda>tid.
     act_bind (uuid_or invite_id (HTTP 404 ''invite_not_found'')) (\<lambda>iid.
     act_bind (act_map_err revoke_invite_error (revoke_invite (later 2 ck) tid iid)) (\<lambda>s. act_return (R_invite_revoked s)))))"

definition lookup_invite_route :: "auth_env \<Rightarrow> clock \<Rightarrow> string \<Rightarrow> auth_reply route_act" where
  "lookup_invite_route env ck token =
     act_bind (act_guard (bounded_text 1 128 token) invalid_body) (\<lambda>_.
     act_bind (act_map_err open_invite_error (lookup_invite env ck token)) (\<lambda>l. act_return (R_lookup l)))"

definition accept_invite_route :: "auth_env \<Rightarrow> clock \<Rightarrow> draws \<Rightarrow> client \<Rightarrow> string \<Rightarrow> string \<Rightarrow> string \<Rightarrow> auth_reply route_act" where
  "accept_invite_route env ck dr cl token password full_name =
     act_bind (act_guard (bounded_text 1 128 token \<and> password_rule password) invalid_body) (\<lambda>_.
     act_bind (act_some (name_field full_name) invalid_body) (\<lambda>fn.
     act_bind (act_map_err open_invite_error (accept_invite env ck dr cl token password fn)) (\<lambda>(pair, user).
       act_return (R_auth pair user))))"

definition totp_setup_route :: "auth_env \<Rightarrow> clock \<Rightarrow> draws \<Rightarrow> string option \<Rightarrow> auth_reply route_act" where
  "totp_setup_route env ck dr authorization =
     act_bind (get_current_principal env ck authorization) (\<lambda>p.
     act_bind (uuid_or (pr_user_id p) unauthorized) (\<lambda>uid.
     act_bind (act_map_err uncaught (setup_totp_for_user env dr uid)) (\<lambda>(secret, url). act_return (R_totp secret url))))"

definition totp_verify_route :: "auth_env \<Rightarrow> clock \<Rightarrow> string option \<Rightarrow> string \<Rightarrow> auth_reply route_act" where
  "totp_verify_route env ck authorization code =
     act_bind (get_current_principal env ck authorization) (\<lambda>p.
     act_bind (act_guard (bounded_text 6 8 code) invalid_body) (\<lambda>_.
     act_bind (uuid_or (pr_user_id p) unauthorized) (\<lambda>uid.
     act_bind (act_map_err uncaught (verify_totp_for_user env (later 2 ck) uid code)) (\<lambda>_. act_return (R_totp_status True)))))"

definition totp_disable_route :: "auth_env \<Rightarrow> clock \<Rightarrow> string option \<Rightarrow> string \<Rightarrow> string \<Rightarrow> auth_reply route_act" where
  "totp_disable_route env ck authorization password code =
     act_bind (get_current_principal env ck authorization) (\<lambda>p.
     act_bind (act_guard (bounded_text 1 256 password \<and> bounded_text 6 8 code) invalid_body) (\<lambda>_.
     act_bind (uuid_or (pr_user_id p) unauthorized) (\<lambda>uid.
     act_bind (act_map_err uncaught (disable_totp_for_user env (later 2 ck) uid password code)) (\<lambda>_. act_return (R_totp_status False)))))"

definition sign_in_totp_route :: "auth_env \<Rightarrow> clock \<Rightarrow> draws \<Rightarrow> client \<Rightarrow> string \<Rightarrow> string \<Rightarrow> string \<Rightarrow> auth_reply route_act" where
  "sign_in_totp_route env ck dr cl email password code =
     act_bind (act_some (au_email env email) invalid_body) (\<lambda>em.
     act_bind (act_guard (bounded_text 1 256 password \<and> bounded_text 6 8 code) invalid_body) (\<lambda>_.
     act_bind (act_map_err sign_in_error (sign_in_with_totp env ck em password code)) (\<lambda>user.
     act_bind (act_read (find_tenant (us_tenant_id user))) (\<lambda>t.
     act_bind (act_some t (HTTP 401 ''invalid_credentials'')) (\<lambda>tenant.
     act_bind (act_map_err uncaught (issue_pair_for_user env (later 2 ck) dr cl user (tn_id tenant))) (\<lambda>pair.
       act_return (R_auth pair (public_user_of user tenant))))))))"

definition create_api_key_route :: "auth_env \<Rightarrow> clock \<Rightarrow> draws \<Rightarrow> string option \<Rightarrow> string \<Rightarrow> int option \<Rightarrow> auth_reply route_act" where
  "create_api_key_route env ck dr authorization name days =
     act_bind (get_current_principal env ck authorization) (\<lambda>p.
     act_bind (act_some (name_field name) invalid_body) (\<lambda>nm.
     act_bind (act_guard (case days of None \<Rightarrow> True | Some d \<Rightarrow> 1 \<le> d \<and> d \<le> 3650) invalid_body) (\<lambda>_.
     act_bind (uuid_or (pr_user_id p) unauthorized) (\<lambda>uid.
     act_bind (uuid_or (pr_tenant_id p) unauthorized) (\<lambda>tid.
     act_bind (act_map_err uncaught (create_api_key env (later 2 ck) dr tid uid nm days)) (\<lambda>(row, full).
       act_return (R_key full (summarize_api_key row))))))))"

definition list_api_keys_route :: "auth_env \<Rightarrow> clock \<Rightarrow> string option \<Rightarrow> auth_reply route_act" where
  "list_api_keys_route env ck authorization =
     act_bind (get_current_principal env ck authorization) (\<lambda>p.
     act_bind (uuid_or (pr_tenant_id p) unauthorized) (\<lambda>tid.
     act_bind (act_read (list_api_keys_for_tenant tid)) (\<lambda>rows. act_return (R_keys (map summarize_api_key rows)))))"

definition revoke_api_key_route :: "auth_env \<Rightarrow> clock \<Rightarrow> string option \<Rightarrow> string \<Rightarrow> auth_reply route_act" where
  "revoke_api_key_route env ck authorization key_id =
     act_bind (get_current_principal env ck authorization) (\<lambda>p.
     act_bind (uuid_or key_id (HTTP 404 ''not_found'')) (\<lambda>kid.
     act_bind (uuid_or (pr_tenant_id p) (HTTP 404 ''not_found'')) (\<lambda>tid.
     act_bind (act_map_err uncaught (revoke_api_key (later 2 ck) kid tid)) (\<lambda>ok.
     act_bind (act_guard ok (HTTP 404 ''not_found'')) (\<lambda>_. act_return R_none)))))"

section \<open>The router\<close>

datatype auth_request =
    SignUp string string string string
  | SignIn string string
  | SignInTotp string string string
  | Refresh string
  | SignOut "string option" "string option"
  | Me "string option"
  | SendVerification "string option"
  | VerifyEmail string
  | UpdateProfile "string option" "string option" "string option"
  | RequestReset string
  | ResetPassword string string
  | CreateInvite "string option" string string
  | ListInvites "string option" "string option"
  | RevokeInvite "string option" string
  | LookupInvite string
  | AcceptInvite string string string
  | TotpSetup "string option"
  | TotpVerify "string option" string
  | TotpDisable "string option" string string
  | CreateApiKey "string option" string "int option"
  | ListApiKeys "string option"
  | RevokeApiKey "string option" string

fun serve :: "auth_env \<Rightarrow> clock \<Rightarrow> draws \<Rightarrow> client \<Rightarrow> auth_request \<Rightarrow> auth_reply route_act" where
  "serve env ck dr cl (SignUp email password full_name agency) = sign_up_route env ck dr cl email password full_name agency"
| "serve env ck dr cl (SignIn email password) = sign_in_route env ck dr cl email password"
| "serve env ck dr cl (SignInTotp email password code) = sign_in_totp_route env ck dr cl email password code"
| "serve env ck dr cl (Refresh token) = refresh_route env ck dr cl token"
| "serve env ck dr cl (SignOut auth token) = sign_out_route env ck auth token"
| "serve env ck dr cl (Me auth) = me_route env ck auth"
| "serve env ck dr cl (SendVerification auth) = send_verification_route env ck dr auth"
| "serve env ck dr cl (VerifyEmail token) = verify_email_route ck token"
| "serve env ck dr cl (UpdateProfile auth name email) = update_profile_route env ck auth name email"
| "serve env ck dr cl (RequestReset email) = request_reset_route env ck dr email"
| "serve env ck dr cl (ResetPassword token password) = reset_password_route env ck dr token password"
| "serve env ck dr cl (CreateInvite auth email role) = create_invite_route env ck dr auth email role"
| "serve env ck dr cl (ListInvites auth st) = list_invites_route env ck auth st"
| "serve env ck dr cl (RevokeInvite auth iid) = revoke_invite_route env ck auth iid"
| "serve env ck dr cl (LookupInvite token) = lookup_invite_route env ck token"
| "serve env ck dr cl (AcceptInvite token password name) = accept_invite_route env ck dr cl token password name"
| "serve env ck dr cl (TotpSetup auth) = totp_setup_route env ck dr auth"
| "serve env ck dr cl (TotpVerify auth code) = totp_verify_route env ck auth code"
| "serve env ck dr cl (TotpDisable auth password code) = totp_disable_route env ck auth password code"
| "serve env ck dr cl (CreateApiKey auth name days) = create_api_key_route env ck dr auth name days"
| "serve env ck dr cl (ListApiKeys auth) = list_api_keys_route env ck auth"
| "serve env ck dr cl (RevokeApiKey auth kid) = revoke_api_key_route env ck auth kid"

type_synonym call = "clock \<times> draws \<times> client \<times> auth_request"

fun serve_call :: "auth_env \<Rightarrow> call \<Rightarrow> auth_reply route_act" where
  "serve_call env (ck, dr, cl, req) = serve env ck dr cl req"

fun serve_all :: "auth_env \<Rightarrow> call list \<Rightarrow> auth_db \<Rightarrow> (http_error + auth_reply) list \<times> auth_db" where
  "serve_all env [] db = ([], db)"
| "serve_all env (c # cs) db =
     (let (r, db1) = serve_call env c db; (rs, db2) = serve_all env cs db1 in (r # rs, db2))"

definition empty_auth_db :: auth_db where
  "empty_auth_db = \<lparr>az_tenants = [], az_users = [], az_refresh = [], az_invites = [], az_keys = [],
     az_verify = [], az_reset = [], az_revoked = []\<rparr>"

end
