(* ===== verification/Auth_Safety.thy ===== *)
theory Auth_Safety
  imports Auth_Service
begin

text \<open>
  What runs of the authentication routes guarantee: credentials that are spent stay spent (locale
  \<open>one_shot\<close>, for refresh tokens and invites), a password reset ends the sessions of the user,
  the tables keep their keys and references, the second factor changes only where it may, and API keys
  resolve to their creator. A predicate is shown to be kept by every route from its preservation by the
  operations on tables, along the structure of the route (\<open>keeps_rules\<close>).
\<close>

section \<open>Tables\<close>

lemma table_update_values:
  "dict_values (table_update p f t) = map (\<lambda>r. if p r then f r else r) (dict_values t)"
  by (simp add: table_update_def dict_values_def comp_def case_prod_beta)

lemma table_update_map [simp]:
  assumes "\<And>r. f (g r) = f r"
  shows "map f (dict_values (table_update p g t)) = map f (dict_values t)"
    and "f ` set (dict_values (table_update p g t)) = f ` set (dict_values t)"
proof -
  show m: "map f (dict_values (table_update p g t)) = map f (dict_values t)" using assms by (auto simp: table_update_values)
  show "f ` set (dict_values (table_update p g t)) = f ` set (dict_values t)" using arg_cong [OF m, of set] by simp
qed

lemma table_update_mem: "r' \<in> set (dict_values (table_update p g t)) \<longleftrightarrow> (\<exists>r\<in>set (dict_values t). r' = (if p r then g r else r))"
  by (auto simp: table_update_values)

lemma table_update_keys [simp]: "map fst (table_update p f t) = map fst t" "fst ` set (table_update p f t) = fst ` set t"
  by (simp_all add: table_update_def comp_def case_prod_beta image_image)

lemma table_update_get: "map_of (table_update p f t) k = map_option (\<lambda>r. if p r then f r else r) (map_of t k)"
  unfolding table_update_def by (rule map_of_map_values)

lemma find_SomeD: "List.find p xs = Some x \<Longrightarrow> x \<in> set xs \<and> p x"
  by (auto simp: find_Some_iff)

lemma dict_values_append [simp]: "dict_values (t @ u) = dict_values t @ dict_values u"
  by (simp add: dict_values_def)

lemma dict_values_simps [simp]: "dict_values [] = []" "dict_values ((k, r) # t) = r # dict_values t"
  by (simp_all add: dict_values_def)

lemma snd_set [simp]: "snd ` set t = set (dict_values t)"
  by (simp add: dict_values_def)

section \<open>Which table an operation changes\<close>

text \<open>
  The routes change the state only through the operations of \<open>kept_by_ops\<close>; a predicate they
  keep is kept by every route. Most of them are single statements on a table, where \<open>kept_by_tables\<close>
  is easier to show; three read a row first and change it afterwards.
\<close>

definition kept_by_stores :: "(auth_db \<Rightarrow> bool) \<Rightarrow> bool" where
  "kept_by_stores P \<longleftrightarrow> (\<forall>db v. P db \<longrightarrow> P (db\<lparr>az_verify := v\<rparr>)) \<and> (\<forall>db v. P db \<longrightarrow> P (db\<lparr>az_reset := v\<rparr>))
   \<and> (\<forall>db v. P db \<longrightarrow> P (db\<lparr>az_revoked := v\<rparr>))"

definition kept_by_core :: "auth_env \<Rightarrow> (auth_db \<Rightarrow> bool) \<Rightarrow> bool" where
  "kept_by_core env P \<longleftrightarrow> kept_by_stores P
   \<and> (\<forall>dr now em fn h an. keeps P (create_user_with_tenant env dr now em fn h an))
   \<and> (\<forall>dr u h e ua ip. keeps P (refresh_store dr u h e ua ip))
   \<and> (\<forall>now h. keeps P (refresh_revoke now h)) \<and> (\<forall>now u. keeps P (revoke_all_for_user now u))
   \<and> (\<forall>dr n c t u em r h. r \<in> set VALID_ROLES \<longrightarrow> keeps P (invite_create dr n c t u em r h))
   \<and> (\<forall>ck t i. keeps P (revoke_invite ck t i))
   \<and> (\<forall>ck dr cl t pw fn. keeps P (accept_invite env ck dr cl t pw fn))
   \<and> (\<forall>r e. keeps P (try_insert (insert_api_key r) e))
   \<and> (\<forall>k now. keeps P (update_api_key k (\<lambda>r. r\<lparr>ak_revoked_at := Some now\<rparr>)))
   \<and> (\<forall>now u. keeps P (update_last_login now u)) \<and> (\<forall>u. keeps P (mark_email_verified u))
   \<and> (\<forall>u h. keeps P (update_password_hash u h)) \<and> (\<forall>u n e. keeps P (update_profile_row u n e))"

definition kept_by_ops :: "auth_env \<Rightarrow> (auth_db \<Rightarrow> bool) \<Rightarrow> bool" where
  "kept_by_ops env P \<longleftrightarrow> kept_by_core env P
   \<and> (\<forall>u x. keeps P (store_totp_secret u x)) \<and> (\<forall>ck u c. keeps P (verify_totp_for_user env ck u c))
   \<and> (\<forall>u. keeps P (clear_totp u))"

definition kept_by_tables :: "auth_env \<Rightarrow> (auth_db \<Rightarrow> bool) \<Rightarrow> bool" where
  "kept_by_tables env P \<longleftrightarrow> kept_by_stores P
   \<and> (\<forall>dr now em fn h an. keeps P (create_user_with_tenant env dr now em fn h an))
   \<and> (\<forall>dr now t em fn h r. keeps P (create_user_in_existing_tenant env dr now t em fn h r))
   \<and> (\<forall>dr u h e ua ip. keeps P (refresh_store dr u h e ua ip))
   \<and> (\<forall>now h. keeps P (refresh_revoke now h)) \<and> (\<forall>now u. keeps P (revoke_all_for_user now u))
   \<and> (\<forall>dr n c t u em r h. keeps P (invite_create dr n c t u em r h))
   \<and> (\<forall>now i. keeps P (invite_revoke now i)) \<and> (\<forall>now i. keeps P (invite_mark_accepted now i))
   \<and> (\<forall>r e. keeps P (try_insert (insert_api_key r) e))
   \<and> (\<forall>k now. keeps P (update_api_key k (\<lambda>r. r\<lparr>ak_revoked_at := Some now\<rparr>)))
   \<and> (\<forall>u f. keeps P (update_user u f))"

lemma keeps_update: "(\<And>s. P s \<Longrightarrow> P (f s)) \<Longrightarrow> keeps P (act_update f)"
  by (simp add: keeps_def act_update_def)

lemma keeps_stores:
  assumes "kept_by_stores P"
  shows "keeps P (check_revoked now j)" "keeps P (take_verify_token now k)" "keeps P (take_reset_token now k)"
    "keeps P (act_update (\<lambda>db. db\<lparr>az_verify := v db\<rparr>))" "keeps P (act_update (\<lambda>db. db\<lparr>az_reset := v db\<rparr>))"
    "keeps P (act_update (\<lambda>db. db\<lparr>az_revoked := w db\<rparr>))"
  using assms by (simp_all add: kept_by_stores_def keeps_def check_revoked_def take_verify_token_def take_reset_token_def
      Let_def case_prod_beta act_update_def)

lemma keeps_core:
  assumes "kept_by_core env P"
  shows "keeps P (create_user_with_tenant env dr now em fn h an)"
    "keeps P (refresh_store dr u h e ua ip)" "keeps P (refresh_revoke now h)" "keeps P (revoke_all_for_user now u)"
    "r \<in> set VALID_ROLES \<Longrightarrow> keeps P (invite_create dr now c t u em r h)" "keeps P (revoke_invite ck t i)"
    "keeps P (accept_invite env ck dr cl tk pw fn)"
    "keeps P (try_insert (insert_api_key kr) er)" "keeps P (update_api_key k (\<lambda>r. r\<lparr>ak_revoked_at := Some now\<rparr>))"
    "keeps P (update_last_login now u)" "keeps P (mark_email_verified u)" "keeps P (update_password_hash u h)"
    "keeps P (update_profile_row u n em')"
  using assms unfolding kept_by_core_def by (simp_all del: split_paired_All)

lemma keeps_totp:
  assumes "kept_by_ops env P"
  shows "keeps P (store_totp_secret u h)" "keeps P (verify_totp_for_user env ck u code)" "keeps P (clear_totp u)"
  using assms unfolding kept_by_ops_def by simp_all

lemma kept_by_opsD: "kept_by_ops env P \<Longrightarrow> kept_by_core env P"
  by (simp add: kept_by_ops_def)

lemmas service_defs = sign_up_def sign_in_def check_credentials_def refresh_def sign_out_def user_of_subject_def me_def
  send_verification_email_def verify_email_def update_profile_def request_password_reset_def
  reset_password_def create_invite_def list_invites_def open_invite_def lookup_invite_def
  setup_totp_for_user_def disable_totp_for_user_def load_user_def
  sign_in_with_totp_def create_api_key_def revoke_api_key_def issue_pair_for_user_def

lemmas unit_defs = revoke_invite_def accept_invite_def update_profile_row_def verify_totp_for_user_def update_last_login_def
  mark_email_verified_def update_password_hash_def store_totp_secret_def enable_totp_def clear_totp_def load_user_def
  open_invite_def issue_pair_for_user_def

lemmas principal_defs = require_agency_admin_def get_current_principal_def principal_from_token_def uuid_or_def

lemmas route_defs = sign_up_route_def sign_in_route_def refresh_route_def sign_out_route_def me_route_def
  send_verification_route_def verify_email_route_def update_profile_route_def request_reset_route_def
  reset_password_route_def create_invite_route_def list_invites_route_def revoke_invite_route_def
  lookup_invite_route_def accept_invite_route_def totp_setup_route_def totp_verify_route_def totp_disable_route_def
  sign_in_totp_route_def create_api_key_route_def list_api_keys_route_def revoke_api_key_route_def

lemma keeps_case_sum [keeps_rules]:
  "(\<And>a. x = Inl a \<Longrightarrow> keeps P (f a)) \<Longrightarrow> (\<And>b. x = Inr b \<Longrightarrow> keeps P (g b)) \<Longrightarrow> keeps P (case x of Inl a \<Rightarrow> f a | Inr b \<Rightarrow> g b)"
  by (cases x) auto

lemma keeps_guarded [keeps_rules]:
  "(b \<Longrightarrow> keeps P (f ())) \<Longrightarrow> keeps P (act_bind (act_guard b e) f)"
  by (auto simp: keeps_def act_bind_def act_guard_def)

lemma kept_by_tables_ops:
  assumes "kept_by_tables env P"
  shows "kept_by_ops env P"
proof -
  have st: "kept_by_stores P" using assms by (simp add: kept_by_tables_def)
  have t: "\<And>dr now em fn h an. keeps P (create_user_with_tenant env dr now em fn h an)"
    "\<And>dr now t em fn h r. keeps P (create_user_in_existing_tenant env dr now t em fn h r)"
    "\<And>dr u h e ua ip. keeps P (refresh_store dr u h e ua ip)" "\<And>now h. keeps P (refresh_revoke now h)"
    "\<And>now u. keeps P (revoke_all_for_user now u)" "\<And>dr n c t u em r h. keeps P (invite_create dr n c t u em r h)"
    "\<And>now i. keeps P (invite_revoke now i)" "\<And>now i. keeps P (invite_mark_accepted now i)"
    "\<And>r e. keeps P (try_insert (insert_api_key r) e)" "\<And>k now. keeps P (update_api_key k (\<lambda>r. r\<lparr>ak_revoked_at := Some now\<rparr>))"
    "\<And>u f. keeps P (update_user u f)"
    using assms unfolding kept_by_tables_def by simp_all
  show ?thesis unfolding kept_by_ops_def kept_by_core_def unit_defs Let_def
    by (intro conjI allI impI st t keeps_rules | simp)+
qed

fun is_totp_request :: "auth_request \<Rightarrow> bool" where
  "is_totp_request (TotpSetup a) \<longleftrightarrow> True"
| "is_totp_request (TotpVerify a c) \<longleftrightarrow> True"
| "is_totp_request (TotpDisable a p c) \<longleftrightarrow> True"
| "is_totp_request _ \<longleftrightarrow> False"

lemma serve_keeps_core:
  assumes "kept_by_core env P" "\<not> is_totp_request req"
  shows "keeps P (serve env ck dr cl req)"
proof -
  have st: "kept_by_stores P" using assms by (simp add: kept_by_core_def)
  show ?thesis using assms(2)
    by (cases req) (simp_all only: serve.simps route_defs service_defs principal_defs Let_def is_totp_request.simps simp_thms,
        (intro keeps_rules keeps_core [OF assms(1)] keeps_stores [OF st] | simp)+)
qed

lemma principal_keeps: "kept_by_stores P \<Longrightarrow> keeps P (get_current_principal env ck a)"
  unfolding get_current_principal_def principal_from_token_def by (intro keeps_rules keeps_stores)

lemma serve_keeps:
  assumes "kept_by_ops env P"
  shows "keeps P (serve env ck dr cl req)"
proof (cases "is_totp_request req")
  case True
  have st: "kept_by_stores P" using kept_by_opsD [OF assms] by (simp add: kept_by_core_def)
  show ?thesis using True
    by (cases req) (simp_all only: serve.simps totp_setup_route_def totp_verify_route_def totp_disable_route_def
        setup_totp_for_user_def disable_totp_for_user_def load_user_def uuid_or_def Let_def is_totp_request.simps simp_thms,
        (intro keeps_rules keeps_totp [OF assms] principal_keeps [OF st] | simp)+)
next
  case False
  then show ?thesis by (rule serve_keeps_core [OF kept_by_opsD [OF assms]])
qed

lemma serve_all_keeps:
  assumes "kept_by_ops env P" "serve_all env cs db = (rs, db')" "P db"
  shows "P db'"
  using assms(2,3)
proof (induction cs arbitrary: db rs)
  case (Cons c cs)
  obtain ck dr cl req where c: "c = (ck, dr, cl, req)" by (cases c)
  obtain r db1 rs' where s: "serve env ck dr cl req db = (r, db1)" "serve_all env cs db1 = (rs', db')"
    using Cons.prems c by (auto simp: Let_def split: prod.splits)
  then show ?case using Cons.IH Cons.prems(2) keepsD [OF serve_keeps [OF assms(1)]] by blast
qed simp

section \<open>The invariant of the tables\<close>

definition rows_ok :: "('r \<Rightarrow> 'k) \<Rightarrow> ('k, 'r) dict \<Rightarrow> bool" where
  "rows_ok f t \<longleftrightarrow> wf_dict t \<and> (\<forall>(k, r)\<in>set t. f r = k)"

definition user_ok :: "auth_db \<Rightarrow> user_row \<Rightarrow> bool" where
  "user_ok db u \<longleftrightarrow> us_tenant_id u \<in> fst ` set (az_tenants db) \<and> py_lower (us_email u) = us_email u
     \<and> (us_totp_enabled u \<longrightarrow> secret_text u \<noteq> [])"

definition invite_ok :: "auth_db \<Rightarrow> invite_row \<Rightarrow> bool" where
  "invite_ok db r \<longleftrightarrow> iv_tenant_id r \<in> fst ` set (az_tenants db) \<and> iv_invited_by_user_id r \<in> fst ` set (az_users db)
     \<and> iv_role r \<in> set VALID_ROLES \<and> py_lower (iv_email r) = iv_email r \<and> iv_status r \<noteq> InvExpired
     \<and> (iv_status r = InvAccepted \<longleftrightarrow> iv_accepted_at r \<noteq> None) \<and> (iv_status r = InvRevoked \<longleftrightarrow> iv_revoked_at r \<noteq> None)"

definition key_ok :: "auth_db \<Rightarrow> api_key_row \<Rightarrow> bool" where
  "key_ok db r \<longleftrightarrow> ak_tenant_id r \<in> fst ` set (az_tenants db) \<and> ak_created_by_user_id r \<in> fst ` set (az_users db)"

definition auth_ok :: "auth_db \<Rightarrow> bool" where
  "auth_ok db \<longleftrightarrow> rows_ok tn_id (az_tenants db) \<and> rows_ok us_id (az_users db) \<and> rows_ok rt_id (az_refresh db)
     \<and> rows_ok iv_id (az_invites db) \<and> rows_ok ak_id (az_keys db)
     \<and> distinct (map us_email (dict_values (az_users db))) \<and> distinct (map rt_token_hash (dict_values (az_refresh db)))
     \<and> distinct (map iv_token_hash (dict_values (az_invites db))) \<and> distinct (map invite_key (dict_values (az_invites db)))
     \<and> distinct (map ak_key_hash (dict_values (az_keys db)))
     \<and> (\<forall>u\<in>set (dict_values (az_users db)). user_ok db u) \<and> (\<forall>r\<in>set (dict_values (az_invites db)). invite_ok db r)
     \<and> (\<forall>r\<in>set (dict_values (az_refresh db)). rt_user_id r \<in> fst ` set (az_users db))
     \<and> (\<forall>r\<in>set (dict_values (az_keys db)). key_ok db r)"

lemma rows_ok_update [simp]: "(\<And>r. f (g r) = f r) \<Longrightarrow> rows_ok f t \<Longrightarrow> rows_ok f (table_update p g t)"
  by (auto simp: rows_ok_def table_update_def wf_dict_map_values split: if_splits)

lemma rows_ok_insert [simp]: "rows_ok f t \<Longrightarrow> k \<notin> fst ` set t \<Longrightarrow> f r = k \<Longrightarrow> rows_ok f (t @ [(k, r)])"
  by (auto simp: rows_ok_def wf_dict_def)

lemma rows_ok_get:
  assumes "rows_ok f t"
  shows "map_of t k = Some r \<longleftrightarrow> r \<in> set (dict_values t) \<and> f r = k"
proof -
  have m: "map_of t k = Some r \<longleftrightarrow> (k, r) \<in> set t" using assms by (simp add: rows_ok_def wf_dict_map_of)
  have key: "f r = k'" if "(k', r) \<in> set t" for k' using assms that by (auto simp: rows_ok_def)
  have "r \<in> set (dict_values t) \<longleftrightarrow> (\<exists>k'. (k', r) \<in> set t)"
    by (force simp: snd_set [symmetric] simp del: snd_set)
  then show ?thesis using m key by blast
qed

text \<open>References stay valid when tables only grow.\<close>

lemma ok_mono:
  assumes "fst ` set (az_tenants db) \<subseteq> fst ` set (az_tenants db')" "fst ` set (az_users db) \<subseteq> fst ` set (az_users db')"
  shows "user_ok db u \<Longrightarrow> user_ok db' u" "invite_ok db r \<Longrightarrow> invite_ok db' r" "key_ok db k \<Longrightarrow> key_ok db' k"
  using assms by (auto simp: user_ok_def invite_ok_def key_ok_def)

lemma auth_ok_stores: "kept_by_stores auth_ok"
  by (simp add: kept_by_stores_def auth_ok_def user_ok_def invite_ok_def key_ok_def)

lemma auth_ok_users:
  assumes "auth_ok db" "\<And>u. us_id (f u) = us_id u" "\<And>u. us_tenant_id (f u) = us_tenant_id u"
    "\<And>u. us_email (f u) = us_email u"
    "\<And>u. \<lbrakk>u \<in> set (dict_values (az_users db)); us_id u = uid; user_ok db u; us_totp_enabled (f u)\<rbrakk> \<Longrightarrow> secret_text (f u) \<noteq> []"
  shows "auth_ok (db\<lparr>az_users := table_update (\<lambda>u. us_id u = uid) f (az_users db)\<rparr>)"
  using assms by (auto simp: auth_ok_def user_ok_def invite_ok_def key_ok_def table_update_mem split: if_splits)

lemma auth_ok_user_ops:
  "keeps auth_ok (update_last_login now u)" "keeps auth_ok (mark_email_verified u)" "keeps auth_ok (update_password_hash u h)"
  "keeps auth_ok (store_totp_secret u x)" "keeps auth_ok (clear_totp u)"
  unfolding update_last_login_def mark_email_verified_def update_password_hash_def store_totp_secret_def clear_totp_def update_user_def
  by (auto intro!: keeps_update auth_ok_users simp: user_ok_def secret_text_def)

lemma auth_ok_insert_user:
  assumes "insert_user u db = Some db'" "auth_ok db" "py_lower (us_email u) = us_email u" "\<not> us_totp_enabled u"
  shows "auth_ok db'"
proof -
  have db': "db' = db\<lparr>az_users := az_users db @ [(us_id u, u)]\<rparr>" "us_id u \<notin> fst ` set (az_users db)"
    "us_email u \<notin> us_email ` set (dict_values (az_users db))" "us_tenant_id u \<in> fst ` set (az_tenants db)"
    using assms(1) by (auto simp: insert_user_def split: if_splits)
  have sub: "fst ` set (az_tenants db) \<subseteq> fst ` set (az_tenants db')" "fst ` set (az_users db) \<subseteq> fst ` set (az_users db')"
    by (auto simp: db'(1))
  have "user_ok db' u" using assms(3,4) db' by (simp add: user_ok_def)
  with assms(2) db'(2,3) show ?thesis unfolding auth_ok_def db'(1) by (auto intro: ok_mono [OF sub, unfolded db'(1)])
qed

lemma auth_ok_insert_tenant:
  assumes "insert_tenant t db = Some db'" "auth_ok db"
  shows "auth_ok db'"
proof -
  have db': "db' = db\<lparr>az_tenants := az_tenants db @ [(tn_id t, t)]\<rparr>" "tn_id t \<notin> fst ` set (az_tenants db)"
    using assms(1) by (auto simp: insert_tenant_def split: if_splits)
  have sub: "fst ` set (az_tenants db) \<subseteq> fst ` set (az_tenants db')" "fst ` set (az_users db) \<subseteq> fst ` set (az_users db')"
    by (auto simp: db'(1))
  show ?thesis using assms(2) db'(2) unfolding auth_ok_def db'(1) by (auto intro: ok_mono [OF sub, unfolded db'(1)])
qed

lemma auth_ok_create:
  "keeps auth_ok (create_user_with_tenant env dr now em fn h an)"
  "keeps auth_ok (create_user_in_existing_tenant env dr now t em fn h r)"
proof -
  show "keeps auth_ok (create_user_with_tenant env dr now em fn h an)"
    by (rule keepsI) (auto simp: create_user_with_tenant_def Let_def new_user_def split: option.splits
        dest: auth_ok_insert_tenant auth_ok_insert_user)
  have "keeps auth_ok (try_insert (insert_user (new_user env dr now t em fn h ro)) e)" for ro e
    by (rule keepsI) (auto simp: try_insert_def new_user_def split: option.splits dest: auth_ok_insert_user)
  then show "keeps auth_ok (create_user_in_existing_tenant env dr now t em fn h r)"
    unfolding create_user_in_existing_tenant_def Let_def by (intro keeps_rules)
qed

lemma auth_ok_refresh:
  "keeps auth_ok (refresh_store dr u h e ua ip)" "keeps auth_ok (refresh_revoke now h)" "keeps auth_ok (revoke_all_for_user now u)"
proof -
  show "keeps auth_ok (refresh_store dr u h e ua ip)"
    by (rule keepsI) (auto simp: refresh_store_def try_insert_def insert_refresh_def auth_ok_def user_ok_def invite_ok_def key_ok_def
        split: option.splits if_splits)
  show "keeps auth_ok (refresh_revoke now h)" "keeps auth_ok (revoke_all_for_user now u)"
    unfolding refresh_revoke_def revoke_all_for_user_def
    by (auto intro!: keeps_update simp: auth_ok_def user_ok_def invite_ok_def key_ok_def table_update_mem)
qed

lemma auth_ok_keys:
  "keeps auth_ok (try_insert (insert_api_key r) e)" "keeps auth_ok (update_api_key k (\<lambda>r. r\<lparr>ak_revoked_at := Some now\<rparr>))"
proof -
  show "keeps auth_ok (try_insert (insert_api_key r) e)"
    by (rule keepsI) (auto simp: try_insert_def insert_api_key_def auth_ok_def user_ok_def invite_ok_def key_ok_def
        split: option.splits if_splits)
  show "keeps auth_ok (update_api_key k (\<lambda>r. r\<lparr>ak_revoked_at := Some now\<rparr>))"
    unfolding update_api_key_def
    by (auto intro!: keeps_update simp: auth_ok_def user_ok_def invite_ok_def key_ok_def table_update_mem)
qed

lemma auth_ok_invite_create:
  "r \<in> set VALID_ROLES \<Longrightarrow> keeps auth_ok (invite_create dr n c t u em r h)"
  by (rule keepsI) (auto simp: invite_create_def act_bind_def act_return_def try_insert_def insert_invite_def auth_ok_def user_ok_def
      invite_ok_def key_ok_def Let_def split: option.splits if_splits)

lemma find_by_id_ok:
  "auth_ok db \<Longrightarrow> find_by_id uid db = Some u \<longleftrightarrow> u \<in> set (dict_values (az_users db)) \<and> us_id u = uid"
  by (simp add: find_by_id_def auth_ok_def rows_ok_get)

lemma user_id_unique:
  "auth_ok db \<Longrightarrow> u \<in> set (dict_values (az_users db)) \<Longrightarrow> v \<in> set (dict_values (az_users db)) \<Longrightarrow> us_id u = us_id v \<Longrightarrow> u = v"
  using find_by_id_ok [of db "us_id v"] by (metis option.inject)

lemma auth_ok_verify_totp: "keeps auth_ok (verify_totp_for_user env ck uid code)"
proof (rule keepsI)
  fix db
  assume ok: "auth_ok db"
  show "auth_ok (snd (verify_totp_for_user env ck uid code db))"
  proof (cases "find_by_id uid db")
    case None
    then show ?thesis using ok by (simp add: verify_totp_for_user_def load_user_def act_eval)
  next
    case (Some u)
    have "auth_ok (db\<lparr>az_users := table_update (\<lambda>u. us_id u = uid) (\<lambda>u. u\<lparr>us_totp_enabled := True\<rparr>) (az_users db)\<rparr>)"
      if "secret_text u \<noteq> []"
    proof (rule auth_ok_users [OF ok])
      fix v
      assume "v \<in> set (dict_values (az_users db))" "us_id v = uid"
      then have "v = u" using Some find_by_id_ok [OF ok, of uid u] find_by_id_ok [OF ok, of uid v] by simp
      then show "secret_text (v\<lparr>us_totp_enabled := True\<rparr>) \<noteq> []" using that by (simp add: secret_text_def)
    qed simp_all
    then show ?thesis using ok Some
      by (auto simp: verify_totp_for_user_def load_user_def enable_totp_def update_user_def act_eval)
  qed
qed

lemma patched_fields [simp]:
  "us_id (patched fn ch u) = us_id u" "us_tenant_id (patched fn ch u) = us_tenant_id u"
  "us_totp_enabled (patched fn ch u) = us_totp_enabled u" "secret_text (patched fn ch u) = secret_text u"
  "us_email (patched fn ch u) = (case ch of None \<Rightarrow> us_email u | Some e \<Rightarrow> e)"
  by (auto simp: patched_def Let_def secret_text_def split: option.splits)

lemma distinct_map_update:
  assumes "distinct (map f xs)" "\<And>x y. \<lbrakk>x \<in> set xs; p x; y \<in> set xs; y \<noteq> x\<rbrakk> \<Longrightarrow> f (g x) \<noteq> f y"
    and "\<And>x y. \<lbrakk>x \<in> set xs; y \<in> set xs; p x; p y\<rbrakk> \<Longrightarrow> x = y"
  shows "distinct (map f (map (\<lambda>x. if p x then g x else x) xs))"
  using assms
proof (induction xs)
  case (Cons a xs)
  have "distinct (map f (map (\<lambda>x. if p x then g x else x) xs))" using Cons by auto
  moreover have "f (if p a then g a else a) \<noteq> f (if p x then g x else x)" if "x \<in> set xs" for x
  proof -
    have ne: "a \<noteq> x" "f a \<noteq> f x" using Cons.prems(1) that by auto
    then have "\<not> (p a \<and> p x)" using Cons.prems(3) that by auto
    then show ?thesis using ne Cons.prems(2) [of a x] Cons.prems(2) [of x a] that by auto
  qed
  ultimately show ?case by (simp only: list.map distinct.simps set_map) blast
qed simp

lemma auth_ok_profile: "keeps auth_ok (update_profile_row uid fn em)"
proof (rule keepsI)
  fix db
  assume ok: "auth_ok db"
  let ?find = "\<lambda>e. List.find (\<lambda>u. us_email u = e) (dict_values (az_users db))"
  show "auth_ok (snd (update_profile_row uid fn em db))"
  proof (cases "find_by_id uid db")
    case None
    then show ?thesis using ok by (simp add: update_profile_row_def act_eval)
  next
    case (Some cur)
    define ch where "ch = new_email cur em"
    let ?db' = "db\<lparr>az_users := table_update (\<lambda>u. us_id u = uid) (patched fn ch) (az_users db)\<rparr>"
    have upd: "auth_ok ?db'" if g: "case Option.bind ch ?find of None \<Rightarrow> True | Some u \<Rightarrow> us_id u = uid"
    proof -
      have fresh: "\<forall>v\<in>set (dict_values (az_users db)). us_id v \<noteq> uid \<longrightarrow> us_email v \<noteq> e" if "ch = Some e" for e
      proof (intro ballI impI notI)
        fix v assume v: "v \<in> set (dict_values (az_users db))" "us_id v \<noteq> uid" "us_email v = e"
        then obtain w where w: "?find e = Some w" by (metis (mono_tags) find_None_iff not_None_eq)
        then have "w \<in> set (dict_values (az_users db))" "us_email w = e" by (auto dest: find_SomeD)
        with v ok have "w = v" by (auto simp: auth_ok_def distinct_map inj_on_def)
        with g w that v(2) show False by simp
      qed
      have "distinct (map us_email (dict_values (az_users ?db')))"
      proof -
        have "distinct (map us_email (map (\<lambda>u. if us_id u = uid then patched fn ch u else u) (dict_values (az_users db))))"
        proof (rule distinct_map_update)
          show d: "distinct (map us_email (dict_values (az_users db)))" using ok by (simp add: auth_ok_def)
          fix u v
          assume uv: "u \<in> set (dict_values (az_users db))" "us_id u = uid" "v \<in> set (dict_values (az_users db))"
          { assume "v \<noteq> u"
            then have "us_id v \<noteq> uid" using user_id_unique [OF ok] uv by blast
            then show "us_email (patched fn ch u) \<noteq> us_email v"
              using fresh uv d \<open>v \<noteq> u\<close> by (cases ch) (auto simp: distinct_map inj_on_def) }
        next
          fix u v
          assume "u \<in> set (dict_values (az_users db))" "v \<in> set (dict_values (az_users db))" "us_id u = uid" "us_id v = uid"
          then show "u = v" using user_id_unique [OF ok] by simp
        qed
        then show ?thesis by (simp add: table_update_values)
      qed
      moreover have "py_lower e = e" if "ch = Some e" for e
        using that by (auto simp: ch_def new_email_def split: option.splits if_splits)
      ultimately show ?thesis using ok
        by (auto simp: auth_ok_def user_ok_def invite_ok_def key_ok_def table_update_mem split: option.splits if_splits)
    qed
    show ?thesis using ok Some upd
      by (auto simp: update_profile_row_def act_eval update_user_def Let_def ch_def [symmetric] split: option.splits if_splits)
  qed
qed

lemma auth_ok_invites:
  assumes "auth_ok db" "\<And>r. iv_id (f r) = iv_id r" "\<And>r. iv_token_hash (f r) = iv_token_hash r" "\<And>r. invite_key (f r) = invite_key r"
    "\<And>r. \<lbrakk>r \<in> set (dict_values (az_invites db)); iv_id r = iid; invite_ok db r\<rbrakk> \<Longrightarrow> invite_ok db (f r)"
  shows "auth_ok (db\<lparr>az_invites := table_update (\<lambda>r. iv_id r = iid) f (az_invites db)\<rparr>)"
proof -
  have "invite_ok (db\<lparr>az_invites := t\<rparr>) r = invite_ok db r" "user_ok (db\<lparr>az_invites := t\<rparr>) u = user_ok db u"
    "key_ok (db\<lparr>az_invites := t\<rparr>) k = key_ok db k" for t r u k
    by (simp_all add: invite_ok_def user_ok_def key_ok_def)
  then show ?thesis using assms by (auto simp: auth_ok_def table_update_mem)
qed

lemma invite_find_ok:
  "auth_ok db \<Longrightarrow> invite_find_by_id iid db = Some r \<longleftrightarrow> r \<in> set (dict_values (az_invites db)) \<and> iv_id r = iid"
  by (simp add: invite_find_by_id_def auth_ok_def rows_ok_get)

lemma invite_id_unique:
  "auth_ok db \<Longrightarrow> r \<in> set (dict_values (az_invites db)) \<Longrightarrow> q \<in> set (dict_values (az_invites db)) \<Longrightarrow> iv_id r = iv_id q \<Longrightarrow> r = q"
  using invite_find_ok [of db "iv_id q"] by (metis option.inject)

text \<open>Deciding a pending invite keeps the times and the status of every invite in step.\<close>

lemma auth_ok_decide_invite:
  assumes ok: "auth_ok db" and r: "r \<in> set (dict_values (az_invites db))" "iv_status r = InvPending"
  shows "auth_ok (db\<lparr>az_invites := table_update (\<lambda>q. iv_id q = iv_id r) (\<lambda>q. q\<lparr>iv_status := InvRevoked, iv_revoked_at := Some now\<rparr>) (az_invites db)\<rparr>)"
    and "auth_ok (db\<lparr>az_invites := table_update (\<lambda>q. iv_id q = iv_id r) (\<lambda>q. q\<lparr>iv_status := InvAccepted, iv_accepted_at := Some now\<rparr>) (az_invites db)\<rparr>)"
proof -
  have pend: "iv_status q = InvPending" if "q \<in> set (dict_values (az_invites db))" "iv_id q = iv_id r" for q
    using invite_id_unique [OF ok that(1) r(1) that(2)] r(2) by simp
  show "auth_ok (db\<lparr>az_invites := table_update (\<lambda>q. iv_id q = iv_id r) (\<lambda>q. q\<lparr>iv_status := InvRevoked, iv_revoked_at := Some now\<rparr>) (az_invites db)\<rparr>)"
    by (rule auth_ok_invites [OF ok]) (auto simp: invite_key_def invite_ok_def dest: pend)
  show "auth_ok (db\<lparr>az_invites := table_update (\<lambda>q. iv_id q = iv_id r) (\<lambda>q. q\<lparr>iv_status := InvAccepted, iv_accepted_at := Some now\<rparr>) (az_invites db)\<rparr>)"
    by (rule auth_ok_invites [OF ok]) (auto simp: invite_key_def invite_ok_def dest: pend)
qed

lemma auth_ok_revoke_invite: "keeps auth_ok (revoke_invite ck tid iid)"
proof (rule keepsI)
  fix db
  assume ok: "auth_ok db"
  show "auth_ok (snd (revoke_invite ck tid iid db))"
  proof (cases "invite_find_by_id iid db")
    case None
    then show ?thesis using ok by (simp add: revoke_invite_def act_eval)
  next
    case (Some r)
    then have r: "r \<in> set (dict_values (az_invites db))" "iv_id r = iid" using invite_find_ok [OF ok] by auto
    show ?thesis using ok Some auth_ok_decide_invite(1) [OF ok r(1), of "ck 0"] r(2)
      by (auto simp: revoke_invite_def act_eval invite_revoke_def update_invite_def split: option.splits if_splits)
  qed
qed

lemma create_user_frame:
  "create_user_in_existing_tenant env dr now t em fn h r db = (x, db') \<Longrightarrow> az_invites db' = az_invites db"
  by (auto simp: create_user_in_existing_tenant_def act_eval try_insert_def insert_user_def Let_def split: option.splits if_splits)

lemma auth_ok_accept: "keeps auth_ok (accept_invite env ck dr cl t pw fn)"
proof (rule keepsI)
  fix db
  assume ok: "auth_ok db"
  obtain res1 db1 where o: "open_invite env (ck 0) t db = (res1, db1)" by (cases "open_invite env (ck 0) t db")
  have db1: "db1 = db" using o by (auto simp: open_invite_def act_eval split: option.splits if_splits)
  show "auth_ok (snd (accept_invite env ck dr cl t pw fn db))"
  proof (cases res1)
    case (Inl e)
    then show ?thesis using ok o db1 by (simp add: accept_invite_def act_eval)
  next
    case (Inr row)
    have row: "row \<in> set (dict_values (az_invites db))" "iv_status row = InvPending"
      using o Inr by (auto simp: open_invite_def act_simps invite_find_by_token_hash_def dest: find_SomeD split: if_splits)
    define rest where "rest user = act_bind (invite_mark_accepted (ck 2) (iv_id row)) (\<lambda>_.
       act_bind (act_read (find_tenant (iv_tenant_id row))) (\<lambda>t. act_bind (act_some t (InvalidToken ''tenant_not_found'')) (\<lambda>tenant.
       act_bind (issue_pair_for_user env (later 3 ck) dr cl user (tn_id tenant)) (\<lambda>pair.
       act_return (pair, public_user_of user tenant)))))" for user
    have tail: "keeps auth_ok (act_bind (act_read (find_tenant (iv_tenant_id row))) (\<lambda>t. act_bind (act_some t (InvalidToken ''tenant_not_found'')) (\<lambda>tenant.
       act_bind (issue_pair_for_user env (later 3 ck) dr cl user (tn_id tenant)) (\<lambda>pair.
       act_return (pair, public_user_of user tenant)))))" for user
      unfolding issue_pair_for_user_def Let_def by (intro keeps_rules auth_ok_refresh)
    have "auth_ok (snd (rest user db2))" if "auth_ok db2" "az_invites db2 = az_invites db" for user db2
    proof -
      have "auth_ok (db2\<lparr>az_invites := table_update (\<lambda>q. iv_id q = iv_id row) (\<lambda>q. q\<lparr>iv_status := InvAccepted, iv_accepted_at := Some (ck 2)\<rparr>) (az_invites db2)\<rparr>)"
        using auth_ok_decide_invite(2) [OF that(1)] row that(2) by simp
      then show ?thesis using tail [of user] unfolding rest_def
        by (simp add: act_bind_step(1) invite_mark_accepted_def update_invite_def act_update_def keeps_def)
    qed
    moreover obtain res2 db2 where c: "create_user_in_existing_tenant env dr (ck 1) (iv_tenant_id row) (iv_email row) fn
        (hash_password env (dr_salt dr) pw) (iv_role row) db = (res2, db2)" by fastforce
    ultimately have "auth_ok db2" "auth_ok (snd (rest user db2))" for user
      using keepsD [OF auth_ok_create(2) c ok] create_user_frame [OF c] by auto
    then show ?thesis using ok o Inr db1 c
      by (cases res2) (auto simp: accept_invite_def rest_def [symmetric] act_bind_def act_read_def act_guard_def)
  qed
qed

lemma auth_ok_kept: "kept_by_ops env auth_ok"
  unfolding kept_by_ops_def kept_by_core_def
  by (intro conjI allI impI auth_ok_stores auth_ok_create auth_ok_refresh auth_ok_invite_create auth_ok_revoke_invite
      auth_ok_accept auth_ok_keys auth_ok_user_ops auth_ok_profile auth_ok_verify_totp)

lemma auth_ok_empty: "auth_ok empty_auth_db"
  by (simp add: auth_ok_def empty_auth_db_def rows_ok_def)

section \<open>Credentials that can be used once\<close>

text \<open>
  A kind of credential: the requests that redeem it, and the states in which it is spent. If a success
  spends it, a spent one is refused and no route revives it, then a run redeems it at most once.
\<close>

fun request_of :: "call \<Rightarrow> auth_request" where
  "request_of (ck, dr, cl, req) = req"

fun succeeded :: "http_error + auth_reply \<Rightarrow> bool" where
  "succeeded (Inl e) \<longleftrightarrow> False"
| "succeeded (Inr x) \<longleftrightarrow> True"

definition redemptions :: "(auth_request \<Rightarrow> bool) \<Rightarrow> call list \<Rightarrow> (http_error + auth_reply) list \<Rightarrow> nat" where
  "redemptions red cs rs = length (filter (\<lambda>(c, r). red (request_of c) \<and> succeeded r) (zip cs rs))"

locale one_shot =
  fixes env :: auth_env and inv :: "auth_db \<Rightarrow> bool" and red :: "auth_request \<Rightarrow> bool" and spent :: "auth_db \<Rightarrow> bool"
  assumes inv_kept: "kept_by_ops env inv"
    and spent_kept: "kept_by_ops env spent"
    and success_spends: "\<lbrakk>inv db; red req; serve env ck dr cl req db = (Inr x, db')\<rbrakk> \<Longrightarrow> spent db'"
    and spent_refused: "\<lbrakk>red req; spent db; serve env ck dr cl req db = (r, db')\<rbrakk> \<Longrightarrow> \<not> succeeded r"
begin

lemma no_redemption_when_spent:
  "spent db \<Longrightarrow> serve_all env cs db = (rs, db') \<Longrightarrow> redemptions red cs rs = 0"
proof (induction cs arbitrary: db rs)
  case (Cons c cs)
  obtain ck dr cl req where c: "c = (ck, dr, cl, req)" by (cases c)
  obtain r db1 rs' where s: "serve env ck dr cl req db = (r, db1)" "serve_all env cs db1 = (rs', db')" "rs = r # rs'"
    using Cons.prems c by (auto simp: Let_def split: prod.splits)
  have "spent db1" using keepsD [OF serve_keeps [OF spent_kept] s(1) Cons.prems(1)] .
  then have "redemptions red cs rs' = 0" by (rule Cons.IH [OF _ s(2)])
  then show ?case using spent_refused [OF _ Cons.prems(1) s(1)] c s(3) by (auto simp: redemptions_def)
qed (simp add: redemptions_def)

lemma redeemed_at_most_once:
  "inv db \<Longrightarrow> serve_all env cs db = (rs, db') \<Longrightarrow> redemptions red cs rs \<le> 1"
proof (induction cs arbitrary: db rs)
  case (Cons c cs)
  obtain ck dr cl req where c: "c = (ck, dr, cl, req)" by (cases c)
  obtain r db1 rs' where s: "serve env ck dr cl req db = (r, db1)" "serve_all env cs db1 = (rs', db')" "rs = r # rs'"
    using Cons.prems c by (auto simp: Let_def split: prod.splits)
  show ?case
  proof (cases "red req \<and> succeeded r")
    case True
    then obtain x where "r = Inr x" by (cases r) auto
    then have "spent db1" using success_spends [OF Cons.prems(1)] s(1) True by blast
    then have "redemptions red cs rs' = 0" using no_redemption_when_spent s(2) by blast
    then show ?thesis using c s(3) by (simp add: redemptions_def)
  next
    case False
    have "inv db1" by (rule keepsD [OF serve_keeps [OF inv_kept] s(1) Cons.prems(1)])
    then show ?thesis using False Cons.IH [OF _ s(2)] c s(3) by (auto simp: redemptions_def)
  qed
qed (simp add: redemptions_def)

end

section \<open>Refresh tokens\<close>

definition token_spent :: "string \<Rightarrow> auth_db \<Rightarrow> bool" where
  "token_spent h db \<longleftrightarrow> h \<in> rt_token_hash ` set (dict_values (az_refresh db))
     \<and> (\<forall>r\<in>set (dict_values (az_refresh db)). rt_token_hash r = h \<longrightarrow> rt_revoked_at r \<noteq> None)"

lemmas table_ops = create_user_with_tenant_def create_user_in_existing_tenant_def refresh_store_def refresh_revoke_def
  revoke_all_for_user_def invite_create_def invite_revoke_def invite_mark_accepted_def update_invite_def
  update_api_key_def update_user_def try_insert_def insert_tenant_def insert_user_def insert_refresh_def insert_invite_def
  insert_api_key_def

lemma token_spent_kept: "kept_by_ops env (token_spent h)"
proof (rule kept_by_tables_ops)
  show "kept_by_tables env (token_spent h)"
    unfolding kept_by_tables_def kept_by_stores_def keeps_def table_ops act_eval
    by (intro conjI allI impI) (auto simp: token_spent_def table_update_mem Let_def split: option.splits if_splits)
qed

lemma token_spent_inactive: "token_spent h db \<Longrightarrow> refresh_find_active now h db = None"
  by (auto simp: token_spent_def refresh_find_active_def find_None_iff)

lemma refresh_spends:
  assumes "refresh env ck dr cl t db = (Inr p, db')"
  shows "token_spent (hash_refresh_token env t) db'"
proof -
  let ?h = "hash_refresh_token env t"
  let ?db1 = "db\<lparr>az_refresh := table_update (\<lambda>r. rt_token_hash r = ?h) (\<lambda>r. r\<lparr>rt_revoked_at := Some (ck 1)\<rparr>) (az_refresh db)\<rparr>"
  obtain row where row: "refresh_find_active (ck 0) ?h db = Some row"
    using assms by (auto simp: refresh_def act_simps Let_def)
  obtain u where u: "find_by_id (rt_user_id row) db = Some u"
    using assms row by (cases "find_by_id (rt_user_id row) db") (auto simp: refresh_def act_simps Let_def)
  obtain tn where tn: "find_tenant (us_tenant_id u) db = Some tn"
    using assms row u by (cases "find_tenant (us_tenant_id u) db") (auto simp: refresh_def act_simps Let_def)
  have i: "issue_pair_for_user env (later 2 ck) dr cl u (tn_id tn) ?db1 = (Inr p, db')"
    using assms row u tn by (simp add: refresh_def act_eval Let_def refresh_revoke_def)
  have sp: "token_spent ?h ?db1"
    using row by (auto simp: refresh_find_active_def token_spent_def table_update_mem dest!: find_SomeD intro: rev_image_eqI)
  have k: "keeps (token_spent ?h) (issue_pair_for_user env (later 2 ck) dr cl u (tn_id tn))"
    unfolding issue_pair_for_user_def Let_def by (intro keeps_rules keeps_core [OF kept_by_opsD [OF token_spent_kept]])
  show ?thesis by (rule keepsD [OF k i sp])
qed

lemma kept_True: "kept_by_ops env (\<lambda>_. True)"
  by (simp add: kept_by_ops_def kept_by_core_def kept_by_stores_def keeps_def)

interpretation refreshtok: one_shot env "\<lambda>_. True" "\<lambda>req. req = Refresh t" "token_spent (hash_refresh_token env t)" for env t
proof
  show "kept_by_ops env (\<lambda>_. True)" by (rule kept_True)
  show "kept_by_ops env (token_spent (hash_refresh_token env t))" by (rule token_spent_kept)
next
  fix req ck dr cl db x db'
  assume "req = Refresh t" "serve env ck dr cl req db = (Inr x, db')"
  then show "token_spent (hash_refresh_token env t) db'"
    by (auto simp: refresh_route_def act_simps split: if_splits dest: refresh_spends)
next
  fix req ck dr cl db r db'
  assume "req = Refresh t" "token_spent (hash_refresh_token env t) db" "serve env ck dr cl req db = (r, db')"
  then show "\<not> succeeded r"
    by (cases r) (auto simp: refresh_route_def refresh_def act_simps Let_def token_spent_inactive split: if_splits)
qed

section \<open>Invites\<close>

definition invite_spent :: "string \<Rightarrow> auth_db \<Rightarrow> bool" where
  "invite_spent h db \<longleftrightarrow> h \<in> iv_token_hash ` set (dict_values (az_invites db))
     \<and> (\<forall>r\<in>set (dict_values (az_invites db)). iv_token_hash r = h \<longrightarrow> iv_status r \<noteq> InvPending)"

lemma invite_spent_kept: "kept_by_ops env (invite_spent h)"
proof (rule kept_by_tables_ops)
  show "kept_by_tables env (invite_spent h)"
    unfolding kept_by_tables_def kept_by_stores_def keeps_def table_ops act_eval
    by (intro conjI allI impI) (auto simp: invite_spent_def table_update_mem Let_def split: option.splits if_splits)
qed

lemma open_invite_Inr:
  "open_invite env now t db = (Inr row, db') \<longleftrightarrow>
     invite_find_by_token_hash (hash_invite_token env t) db = Some row \<and> iv_status row = InvPending
     \<and> now < iv_expires_at row \<and> db' = db"
  by (auto simp: open_invite_def act_simps split: if_splits)

lemma invite_spent_not_open:
  "invite_spent (hash_invite_token env t) db \<Longrightarrow> open_invite env now t db \<noteq> (Inr row, db')"
  by (auto simp: open_invite_Inr invite_spent_def invite_find_by_token_hash_def dest!: find_SomeD)

text \<open>What an accepted invite did: the parts of a successful run of the service call.\<close>

lemma accept_invite_parts:
  assumes "accept_invite env ck dr cl t pw fn db = (Inr (pair, pu), db')"
  obtains row role tenant where
    "invite_find_by_token_hash (hash_invite_token env t) db = Some row" "iv_status row = InvPending" "ck 0 < iv_expires_at row"
    "role_of_value (iv_role row) = Some role" "find_by_email (iv_email row) db = None"
    "pu = public_user_of (new_user env dr (ck 1) (iv_tenant_id row) (iv_email row) fn (hash_password env (dr_salt dr) pw) role) tenant"
    "find_tenant (iv_tenant_id row) db = Some tenant"
    "issue_pair_for_user env (later 3 ck) dr cl
       (new_user env dr (ck 1) (iv_tenant_id row) (iv_email row) fn (hash_password env (dr_salt dr) pw) role) (tn_id tenant)
       (db\<lparr>az_users := az_users db @ [(dr_user_id dr, new_user env dr (ck 1) (iv_tenant_id row) (iv_email row) fn (hash_password env (dr_salt dr) pw) role)],
          az_invites := table_update (\<lambda>r. iv_id r = iv_id row) (\<lambda>r. r\<lparr>iv_status := InvAccepted, iv_accepted_at := Some (ck 2)\<rparr>) (az_invites db)\<rparr>)
       = (Inr pair, db')"
  using assms
  by (auto simp: accept_invite_def act_simps open_invite_Inr create_user_in_existing_tenant_def try_insert_def insert_user_def
      invite_mark_accepted_def update_invite_def find_tenant_def Let_def new_user_def split: if_splits option.split_asm)

lemma accept_spends:
  assumes ok: "auth_ok db" and a: "accept_invite env ck dr cl t pw fn db = (Inr (pair, pu), db')"
  shows "invite_spent (hash_invite_token env t) db'"
proof -
  obtain row u tid where row: "invite_find_by_token_hash (hash_invite_token env t) db = Some row"
    and i: "issue_pair_for_user env (later 3 ck) dr cl u tid
       (db\<lparr>az_users := az_users db @ [(dr_user_id dr, u)],
          az_invites := table_update (\<lambda>r. iv_id r = iv_id row) (\<lambda>r. r\<lparr>iv_status := InvAccepted, iv_accepted_at := Some (ck 2)\<rparr>) (az_invites db)\<rparr>)
       = (Inr pair, db')" (is "issue_pair_for_user _ _ _ _ _ _ ?db1 = _")
    using a by (rule accept_invite_parts)
  have r: "row \<in> set (dict_values (az_invites db))" "iv_token_hash row = hash_invite_token env t"
    using row by (auto simp: invite_find_by_token_hash_def dest: find_SomeD)
  have uniq: "iv_id q = iv_id row" if "q \<in> set (dict_values (az_invites db))" "iv_token_hash q = hash_invite_token env t" for q
    using ok r that by (auto simp: auth_ok_def distinct_map inj_on_def)
  have sp: "invite_spent (hash_invite_token env t) ?db1"
    unfolding invite_spent_def
  proof (intro conjI ballI impI)
    show "hash_invite_token env t \<in> iv_token_hash ` set (dict_values (az_invites ?db1))" using r by (auto intro: rev_image_eqI)
    fix q'
    assume q': "q' \<in> set (dict_values (az_invites ?db1))" "iv_token_hash q' = hash_invite_token env t"
    then obtain q where q: "q \<in> set (dict_values (az_invites db))"
      "q' = (if iv_id q = iv_id row then q\<lparr>iv_status := InvAccepted, iv_accepted_at := Some (ck 2)\<rparr> else q)"
      by (auto simp: table_update_mem)
    then have "iv_id q = iv_id row" using q'(2) uniq by (auto split: if_splits)
    then show "iv_status q' \<noteq> InvPending" using q(2) by simp
  qed
  have k: "keeps (invite_spent (hash_invite_token env t)) (issue_pair_for_user env (later 3 ck) dr cl u tid)"
    unfolding issue_pair_for_user_def Let_def by (intro keeps_rules keeps_core [OF kept_by_opsD [OF invite_spent_kept]])
  show ?thesis by (rule keepsD [OF k i sp])
qed

interpretation invitetok: one_shot env auth_ok "\<lambda>req. \<exists>pw fn. req = AcceptInvite t pw fn" "invite_spent (hash_invite_token env t)" for env t
proof
  show "kept_by_ops env auth_ok" by (rule auth_ok_kept)
  show "kept_by_ops env (invite_spent (hash_invite_token env t))" by (rule invite_spent_kept)
next
  fix req ck dr cl db x db'
  assume "auth_ok db" "\<exists>pw fn. req = AcceptInvite t pw fn" "serve env ck dr cl req db = (Inr x, db')"
  then show "invite_spent (hash_invite_token env t) db'"
    by (auto simp: accept_invite_route_def act_simps split: if_splits prod.splits dest: accept_spends)
next
  fix req ck dr cl db r db'
  assume "\<exists>pw fn. req = AcceptInvite t pw fn" "invite_spent (hash_invite_token env t) db" "serve env ck dr cl req db = (r, db')"
  then show "\<not> succeeded r"
    by (cases r) (auto simp: accept_invite_route_def accept_invite_def act_simps invite_spent_not_open split: if_splits)
qed

section \<open>Reachable states\<close>

definition auth_reachable :: "auth_env \<Rightarrow> auth_db \<Rightarrow> bool" where
  "auth_reachable env db \<longleftrightarrow> (\<exists>cs rs. serve_all env cs empty_auth_db = (rs, db))"

lemma auth_reachable_ok: "auth_reachable env db \<Longrightarrow> auth_ok db"
  unfolding auth_reachable_def by (elim exE) (rule serve_all_keeps [OF auth_ok_kept _ auth_ok_empty])

section \<open>Refresh tokens and sessions\<close>

lemma sign_out_spends:
  assumes "serve env ck dr cl (SignOut a (Some t)) db = (r, db')" "t \<noteq> []"
    "hash_refresh_token env t \<in> rt_token_hash ` set (dict_values (az_refresh db))"
  shows "token_spent (hash_refresh_token env t) db'"
proof -
  let ?h = "hash_refresh_token env t"
  have "az_refresh db' = table_update (\<lambda>r. rt_token_hash r = ?h) (\<lambda>r. r\<lparr>rt_revoked_at := Some (ck 1)\<rparr>) (az_refresh db)"
    using assms(1,2) by (auto simp: sign_out_route_def sign_out_def refresh_revoke_def act_eval Let_def later_def split: option.splits)
  then show ?thesis using assms(3) by (auto simp: token_spent_def table_update_mem)
qed

text \<open>Claim C16. A refresh token is exchanged for a new pair at most once, in any run of the routes from any
  state; and once its owner has signed out with it, it is never exchanged again. Requests are served one after the other: the service looks
  the token up and revokes it in two statements without a lock, and exchanges that overlap between the two could both succeed.
\<close>
theorem refresh_token_redeemed_once:
  assumes "hash_refresh_token env t \<in> rt_token_hash ` set (dict_values (az_refresh db1))" "t \<noteq> []"
    "serve env ck dr cl (SignOut a (Some t)) db1 = (r, db2)"
  shows "redemptions (\<lambda>q. q = Refresh t) cs (fst (serve_all env cs db)) \<le> 1
     \<and> redemptions (\<lambda>q. q = Refresh t) cs' (fst (serve_all env cs' db2)) = 0"
proof (intro conjI)
  show "redemptions (\<lambda>q. q = Refresh t) cs (fst (serve_all env cs db)) \<le> 1"
    by (cases "serve_all env cs db") (use refreshtok.redeemed_at_most_once in auto)
  show "redemptions (\<lambda>q. q = Refresh t) cs' (fst (serve_all env cs' db2)) = 0"
    by (cases "serve_all env cs' db2") (use refreshtok.no_redemption_when_spent sign_out_spends [OF assms(3,2,1)] in auto)
qed

lemma reset_password_parts:
  assumes "serve env ck dr cl (ResetPassword tok pw) db = (Inr x, db')"
  obtains sub ex uid u where "map_of (az_reset db) tok = Some (sub, ex)" "seconds (ck 0) < ex" "uuid_parse sub = Some uid"
    "find_by_id uid db = Some u"
    "db' = db\<lparr>az_reset := AList.delete tok (az_reset db),
       az_users := table_update (\<lambda>u. us_id u = uid) (\<lambda>u. u\<lparr>us_password_hash := Some (hash_password env (dr_salt dr) pw)\<rparr>) (az_users db),
       az_refresh := table_update (\<lambda>r. rt_user_id r = uid \<and> rt_revoked_at r = None) (\<lambda>r. r\<lparr>rt_revoked_at := Some (ck 1)\<rparr>) (az_refresh db)\<rparr>"
  using assms
  by (auto simp: reset_password_route_def reset_password_def act_simps take_reset_token_def token_take_def Let_def
      update_password_hash_def update_user_def revoke_all_for_user_def find_by_id_def split: if_splits option.split_asm)

text \<open>Claim C23. A password reset is allowed by an unexpired token that is then gone; it stores the hash of the
  new password for the user the token was made for, and ends that user's sessions: no refresh token
  the user held before is ever exchanged afterwards, whatever requests follow.
\<close>
theorem password_reset_ends_sessions:
  assumes "auth_reachable env db" "serve env ck dr cl (ResetPassword tok pw) db = (Inr x, db')"
  shows "\<exists>sub ex uid u. map_of (az_reset db) tok = Some (sub, ex) \<and> seconds (ck 0) < ex \<and> uuid_parse sub = Some uid
     \<and> map_of (az_reset db') tok = None
     \<and> find_by_id uid db = Some u \<and> find_by_id uid db' = Some (u\<lparr>us_password_hash := Some (hash_password env (dr_salt dr) pw)\<rparr>)
     \<and> (\<forall>row\<in>set (dict_values (az_refresh db)). \<forall>t cs. rt_user_id row = uid \<and> rt_token_hash row = hash_refresh_token env t
          \<longrightarrow> redemptions (\<lambda>q. q = Refresh t) cs (fst (serve_all env cs db')) = 0)"
proof -
  obtain sub ex uid u where p: "map_of (az_reset db) tok = Some (sub, ex)" "seconds (ck 0) < ex" "uuid_parse sub = Some uid"
    "find_by_id uid db = Some u"
    and db': "db' = db\<lparr>az_reset := AList.delete tok (az_reset db),
       az_users := table_update (\<lambda>u. us_id u = uid) (\<lambda>u. u\<lparr>us_password_hash := Some (hash_password env (dr_salt dr) pw)\<rparr>) (az_users db),
       az_refresh := table_update (\<lambda>r. rt_user_id r = uid \<and> rt_revoked_at r = None) (\<lambda>r. r\<lparr>rt_revoked_at := Some (ck 1)\<rparr>) (az_refresh db)\<rparr>"
    using assms(2) by (rule reset_password_parts)
  have ok: "auth_ok db" by (rule auth_reachable_ok [OF assms(1)])
  have spent: "token_spent (rt_token_hash row) db'" if "row \<in> set (dict_values (az_refresh db))" "rt_user_id row = uid" for row
  proof -
    have "q = row" if "q \<in> set (dict_values (az_refresh db))" "rt_token_hash q = rt_token_hash row" for q
      using ok \<open>row \<in> _\<close> that by (auto simp: auth_ok_def distinct_map inj_on_def)
    then have "rt_user_id q = uid" if "q \<in> set (dict_values (az_refresh db))" "rt_token_hash q = rt_token_hash row" for q
      using \<open>rt_user_id row = uid\<close> that by blast
    then show ?thesis using \<open>row \<in> _\<close> by (auto simp: token_spent_def db' table_update_mem)
  qed
  have "redemptions (\<lambda>q. q = Refresh t) cs (fst (serve_all env cs db')) = 0"
    if "row \<in> set (dict_values (az_refresh db))" "rt_user_id row = uid" "rt_token_hash row = hash_refresh_token env t" for row t cs
    using refreshtok.no_redemption_when_spent spent [OF that(1,2)] that(3) by (metis prod.collapse)
  moreover have "us_id u = uid" using find_by_id_ok [OF ok] p(4) by blast
  ultimately show ?thesis using p
    by (intro exI [of _ sub] exI [of _ ex] exI [of _ uid] exI [of _ u])
       (auto simp: db' find_by_id_def table_update_get dict_delete_get)
qed

section \<open>The tables\<close>

text \<open>Claim C38. In every state the routes can reach, primary keys are keys, e-mail addresses (in lower case),
  token hashes and the pair of tenant and invited address are unique, references point to existing
  rows, an enabled second factor has a secret, and the status of an invite agrees with its times.
\<close>
theorem auth_tables_consistent:
  assumes "auth_reachable env db"
  shows "auth_ok db"
  using assms by (rule auth_reachable_ok)

section \<open>Invites\<close>

lemma role_of_value_Some: "role_of_value s = Some r \<Longrightarrow> role_value r = s"
  unfolding role_of_value_def by (drule find_SomeD) simp

text \<open>An invite is accepted at most once; accepting it needs a pending, unexpired invite for an
  address no user has, and makes a user of exactly the invited tenant, role and address.
\<close>
theorem invite_accepted_once:
  assumes "auth_reachable env db"
  shows "redemptions (\<lambda>q. \<exists>pw fn. q = AcceptInvite t pw fn) cs (fst (serve_all env cs db)) \<le> 1
     \<and> (serve env ck dr cl (AcceptInvite t pw fn) db = (Inr (R_auth pair pu), db') \<longrightarrow>
       (\<exists>row\<in>set (dict_values (az_invites db)). iv_token_hash row = hash_invite_token env t \<and> iv_status row = InvPending
         \<and> ck 0 < iv_expires_at row \<and> find_by_email (iv_email row) db = None
         \<and> pu_tenant_id pu = uuid_str (iv_tenant_id row) \<and> pu_role pu = iv_role row \<and> pu_email pu = iv_email row))"
proof (intro conjI impI)
  have ok: "auth_ok db" by (rule auth_reachable_ok [OF assms])
  show "redemptions (\<lambda>q. \<exists>pw fn. q = AcceptInvite t pw fn) cs (fst (serve_all env cs db)) \<le> 1"
    by (cases "serve_all env cs db") (use invitetok.redeemed_at_most_once [OF ok] in auto)
  assume "serve env ck dr cl (AcceptInvite t pw fn) db = (Inr (R_auth pair pu), db')"
  then obtain nm where a: "accept_invite env ck dr cl t pw nm db = (Inr (pair, pu), db')"
    by (auto simp: accept_invite_route_def act_simps split: if_splits)
  from a show "\<exists>row\<in>set (dict_values (az_invites db)). iv_token_hash row = hash_invite_token env t \<and> iv_status row = InvPending
         \<and> ck 0 < iv_expires_at row \<and> find_by_email (iv_email row) db = None
         \<and> pu_tenant_id pu = uuid_str (iv_tenant_id row) \<and> pu_role pu = iv_role row \<and> pu_email pu = iv_email row"
  proof (rule accept_invite_parts)
    fix row role tenant
    assume r: "invite_find_by_token_hash (hash_invite_token env t) db = Some row" "iv_status row = InvPending" "ck 0 < iv_expires_at row"
      "role_of_value (iv_role row) = Some role" "find_by_email (iv_email row) db = None" "find_tenant (iv_tenant_id row) db = Some tenant"
      "pu = public_user_of (new_user env dr (ck 1) (iv_tenant_id row) (iv_email row) nm (hash_password env (dr_salt dr) pw) role) tenant"
    have m: "row \<in> set (dict_values (az_invites db))" "iv_token_hash row = hash_invite_token env t"
      using r(1) by (auto simp: invite_find_by_token_hash_def dest: find_SomeD)
    have "tn_id tenant = iv_tenant_id row" "py_lower (iv_email row) = iv_email row"
      using ok r(6) m(1) by (auto simp: auth_ok_def find_tenant_def rows_ok_get invite_ok_def)
    then show ?thesis using r m role_of_value_Some [OF r(4)] by (auto simp: public_user_of_def new_user_def)
  qed
qed

section \<open>The second factor\<close>

text \<open>The user, with the second factor as it was: kept by every route but the three that manage it.\<close>

definition factor_is :: "uuid_int \<Rightarrow> bool \<Rightarrow> auth_db \<Rightarrow> bool" where
  "factor_is uid b db \<longleftrightarrow> (\<exists>u. map_of (az_users db) uid = Some u \<and> us_totp_enabled u = b)"

lemma factor_is_update:
  assumes "\<And>u. us_totp_enabled (f u) = us_totp_enabled u"
  shows "keeps (factor_is uid b) (update_user v f)"
  unfolding update_user_def
  by (rule keeps_update) (use assms in \<open>auto simp: factor_is_def table_update_get split: if_splits\<close>)

lemma factor_is_insert: "insert_user u db = Some db' \<Longrightarrow> factor_is uid b db \<Longrightarrow> factor_is uid b db'"
  by (auto simp: insert_user_def factor_is_def split: if_splits)

lemma factor_is_create:
  "keeps (factor_is uid b) (create_user_with_tenant env dr now em fn h an)"
  "keeps (factor_is uid b) (create_user_in_existing_tenant env dr now t em fn h r)"
proof -
  have "factor_is uid b (db\<lparr>az_tenants := t\<rparr>) = factor_is uid b db" for db t by (simp add: factor_is_def)
  then show "keeps (factor_is uid b) (create_user_with_tenant env dr now em fn h an)"
    by (intro keepsI) (auto simp: create_user_with_tenant_def Let_def insert_tenant_def split: option.splits if_splits dest: factor_is_insert)
  have "keeps (factor_is uid b) (try_insert (insert_user u) e)" for u e
    by (rule keepsI) (auto simp: try_insert_def split: option.splits intro: factor_is_insert)
  then show "keeps (factor_is uid b) (create_user_in_existing_tenant env dr now t em fn h r)"
    unfolding create_user_in_existing_tenant_def Let_def by (intro keeps_rules)
qed

lemma factor_is_other:
  assumes "\<And>db. az_users (f db) = az_users db"
  shows "keeps (factor_is uid b) (act_update f)"
  by (rule keeps_update) (simp add: factor_is_def assms)

lemma factor_is_inserts:
  "keeps (factor_is uid b) (try_insert (insert_refresh r) e)" "keeps (factor_is uid b) (try_insert (insert_invite q) e)"
  "keeps (factor_is uid b) (try_insert (insert_api_key k) e)"
  by (rule keepsI, auto simp: try_insert_def insert_refresh_def insert_invite_def insert_api_key_def factor_is_def split: option.splits if_splits)+

lemma factor_is_core: "kept_by_core env (factor_is uid b)"
proof -
  have "kept_by_stores (factor_is uid b)" by (simp add: kept_by_stores_def factor_is_def)
  then show ?thesis
    unfolding kept_by_core_def unit_defs Let_def refresh_store_def refresh_revoke_def revoke_all_for_user_def invite_create_def
      invite_revoke_def invite_mark_accepted_def update_invite_def update_api_key_def
    by (intro conjI allI impI keeps_rules factor_is_create factor_is_inserts factor_is_other factor_is_update | simp)+
qed

lemma principal_frame: "get_current_principal env ck a db = (x, db') \<Longrightarrow> az_users db' = az_users db"
  by (rule keepsD [of "\<lambda>d. az_users d = az_users db" "get_current_principal env ck a"])
     (auto intro!: principal_keeps simp: kept_by_stores_def)

lemma totp_effects:
  shows "serve env ck dr cl (TotpVerify a code) db = (r, db') \<Longrightarrow> az_users db' = az_users db \<or>
      (\<exists>k v. map_of (az_users db) k = Some v \<and> \<not> us_totp_enabled v \<and> verify_totp_code env (ck 2) (secret_text v) code
         \<and> az_users db' = table_update (\<lambda>u. us_id u = k) (\<lambda>u. u\<lparr>us_totp_enabled := True\<rparr>) (az_users db))"
    and "serve env ck dr cl (TotpDisable a pw code) db = (r, db') \<Longrightarrow> az_users db' = az_users db \<or>
      (\<exists>k v h. map_of (az_users db) k = Some v \<and> us_password_hash v = Some h \<and> verify_password env h pw
         \<and> verify_totp_code env (ck 2) (secret_text v) code
         \<and> az_users db' = table_update (\<lambda>u. us_id u = k) (\<lambda>u. u\<lparr>us_totp_enabled := False, us_totp_secret := None\<rparr>) (az_users db))"
    and "serve env ck dr cl (TotpSetup a) db = (r, db') \<Longrightarrow> az_users db' = az_users db \<or>
      (\<exists>k. az_users db' = table_update (\<lambda>u. us_id u = k) (\<lambda>u. u\<lparr>us_totp_secret := Some (dr_secret dr), us_totp_enabled := False\<rparr>) (az_users db))"
proof -
  obtain x db1 where p: "get_current_principal env ck a db = (x, db1)" by fastforce
  note fr = principal_frame [OF p]
  show "serve env ck dr cl (TotpVerify a code) db = (r, db') \<Longrightarrow> az_users db' = az_users db \<or>
      (\<exists>k v. map_of (az_users db) k = Some v \<and> \<not> us_totp_enabled v \<and> verify_totp_code env (ck 2) (secret_text v) code
         \<and> az_users db' = table_update (\<lambda>u. us_id u = k) (\<lambda>u. u\<lparr>us_totp_enabled := True\<rparr>) (az_users db))"
    using p fr by (cases x) (auto simp: totp_verify_route_def verify_totp_for_user_def enable_totp_def update_user_def load_user_def
        uuid_or_def act_eval later_def find_by_id_def numeral_2_eq_2 Let_def split: option.splits if_splits, blast)
  show "serve env ck dr cl (TotpDisable a pw code) db = (r, db') \<Longrightarrow> az_users db' = az_users db \<or>
      (\<exists>k v h. map_of (az_users db) k = Some v \<and> us_password_hash v = Some h \<and> verify_password env h pw
         \<and> verify_totp_code env (ck 2) (secret_text v) code
         \<and> az_users db' = table_update (\<lambda>u. us_id u = k) (\<lambda>u. u\<lparr>us_totp_enabled := False, us_totp_secret := None\<rparr>) (az_users db))"
    using p fr by (cases x) (auto simp: totp_disable_route_def disable_totp_for_user_def clear_totp_def update_user_def load_user_def
        uuid_or_def act_eval later_def find_by_id_def numeral_2_eq_2 Let_def split: option.splits if_splits, blast)
  show "serve env ck dr cl (TotpSetup a) db = (r, db') \<Longrightarrow> az_users db' = az_users db \<or>
      (\<exists>k. az_users db' = table_update (\<lambda>u. us_id u = k) (\<lambda>u. u\<lparr>us_totp_secret := Some (dr_secret dr), us_totp_enabled := False\<rparr>) (az_users db))"
    using p fr by (cases x) (auto simp: totp_setup_route_def setup_totp_for_user_def store_totp_secret_def update_user_def load_user_def
        uuid_or_def act_eval find_by_id_def Let_def split: option.splits if_splits)
qed

text \<open>When one request changed the second factor of \<open>u\<close>, it was one of these.\<close>

definition factor_change_ok :: "auth_env \<Rightarrow> clock \<Rightarrow> auth_request \<Rightarrow> user_row \<Rightarrow> user_row \<Rightarrow> bool" where
  "factor_change_ok env ck req u u' \<longleftrightarrow>
     us_totp_enabled u' \<and> (\<exists>a code. req = TotpVerify a code \<and> verify_totp_code env (ck 2) (secret_text u) code)
   \<or> \<not> us_totp_enabled u' \<and> (\<exists>a pw code h. req = TotpDisable a pw code \<and> us_password_hash u = Some h
        \<and> verify_password env h pw \<and> verify_totp_code env (ck 2) (secret_text u) code)
   \<or> \<not> us_totp_enabled u' \<and> (\<exists>a. req = TotpSetup a)"

lemma setup_turns_off:
  assumes "get_current_principal env ck a db = (Inr p, db1)" "uuid_parse (pr_user_id p) = Some uid"
    "serve env ck dr cl (TotpSetup a) db = (r, db')" "map_of (az_users db) uid = Some u" "us_id u = uid"
  shows "map_of (az_users db') uid = Some (u\<lparr>us_totp_secret := Some (dr_secret dr), us_totp_enabled := False\<rparr>)"
  using assms principal_frame [OF assms(1)]
  by (auto simp: totp_setup_route_def setup_totp_for_user_def store_totp_secret_def update_user_def load_user_def uuid_or_def act_eval
      find_by_id_def table_update_get Let_def)

text \<open>The second factor of a user is switched on only by a valid code for the stored secret, and
  switched off only by the password together with a valid code, or by a new set-up. The last way needs
  no more than the bearer token of the user: every set-up request with one switches the factor off.
\<close>
theorem second_factor_changes:
  assumes "auth_reachable env db" "serve env ck dr cl req db = (r, db')" "map_of (az_users db) uid = Some u"
  shows "\<exists>u'. map_of (az_users db') uid = Some u'
     \<and> (us_totp_enabled u' \<noteq> us_totp_enabled u \<longrightarrow> factor_change_ok env ck req u u')
     \<and> (\<forall>a p db1. req = TotpSetup a \<and> get_current_principal env ck a db = (Inr p, db1) \<and> uuid_parse (pr_user_id p) = Some uid
          \<longrightarrow> \<not> us_totp_enabled u')"
proof -
  have ok: "auth_ok db" by (rule auth_reachable_ok [OF assms(1)])
  then have uid: "us_id u = uid" and uniq: "\<And>k v. map_of (az_users db) k = Some v \<Longrightarrow> us_id v = k"
    using assms(3) by (auto simp: auth_ok_def rows_ok_get)
  show ?thesis
  proof (cases "is_totp_request req")
    case False
    have "factor_is uid (us_totp_enabled u) db'"
      by (rule keepsD [OF serve_keeps_core [OF factor_is_core False] assms(2)]) (simp add: factor_is_def assms(3))
    then show ?thesis using False by (auto simp: factor_is_def)
  next
    case True
    then show ?thesis
    proof (cases req)
      case (TotpSetup a)
      have "\<exists>u'. map_of (az_users db') uid = Some u' \<and> (us_totp_enabled u' \<noteq> us_totp_enabled u \<longrightarrow> \<not> us_totp_enabled u')"
        using totp_effects(3) [OF assms(2) [unfolded TotpSetup]] assms(3) by (auto simp: table_update_get)
      then show ?thesis using TotpSetup setup_turns_off [OF _ _ assms(2) [unfolded TotpSetup] assms(3) uid]
        by (fastforce simp: factor_change_ok_def)
    next
      case (TotpVerify a code)
      show ?thesis using totp_effects(1) [OF assms(2) [unfolded TotpVerify]] assms(3) uid TotpVerify
        by (auto simp: table_update_get factor_change_ok_def dest: uniq)
    next
      case (TotpDisable a pw code)
      show ?thesis using totp_effects(2) [OF assms(2) [unfolded TotpDisable]] assms(3) uid TotpDisable
        by (auto simp: table_update_get factor_change_ok_def dest: uniq)
    qed simp_all
  qed
qed

section \<open>API keys\<close>

lemma urlsafe_loop_length:
  "urlsafe_loop n clean ds = Some s \<Longrightarrow> length s = n \<and> set s \<subseteq> set clean \<union> (\<Union>d\<in>set ds. set (alnum_part d))"
proof (induction ds arbitrary: clean)
  case Nil
  then show ?case by (auto split: if_splits dest: in_set_takeD)
next
  case (Cons d ds)
  show ?case
  proof (cases "n \<le> length clean")
    case True
    then show ?thesis using Cons.prems by (auto dest: in_set_takeD)
  next
    case False
    then show ?thesis using Cons.prems Cons.IH [of "clean @ alnum_part d"] by auto
  qed
qed

declare urlsafe_loop.simps [simp del]

lemma urlsafe_shape: "urlsafe n ds = Some s \<Longrightarrow> length s = n \<and> CHR ''_'' \<notin> set s"
  using urlsafe_loop_length [of n _ _ s] by (fastforce simp: urlsafe_def alnum_part_def split: list.splits)

lemma parse_minted_key:
  assumes "mint_api_key_plaintext dr = Some (full, pre)"
  obtains body where "parse_api_key full = Some (pre, body)" "full = ''vy_'' @ pre @ ''_'' @ body"
proof -
  obtain body where b: "urlsafe PREFIX_LEN (dr_prefix dr) = Some pre" "urlsafe BODY_LEN (dr_body dr) = Some body"
    "full = ''vy_'' @ pre @ ''_'' @ body"
    using assms by (auto simp: mint_api_key_plaintext_def API_KEY_SCHEME_PREFIX_def bind_eq_Some_conv)
  have "takeWhile (\<lambda>c. c \<noteq> CHR ''_'') (pre @ ''_'' @ body) = pre"
    using urlsafe_shape [OF b(1)] by (subst takeWhile_append2) auto
  then have "parse_api_key full = Some (pre, body)"
    using urlsafe_shape [OF b(1)] urlsafe_shape [OF b(2)] by (simp add: parse_api_key_def API_KEY_SCHEME_PREFIX_def b(3) Let_def)
  with b(3) that show ?thesis by blast
qed

lemma create_api_key_parts:
  assumes "create_api_key env ck dr tid uid name days db = (Inr (row, full), db')"
  shows "mint_api_key_plaintext dr = Some (full, ak_prefix row)" "ak_key_hash row = hash_api_key env full"
    "ak_created_by_user_id row = uid" "ak_tenant_id row = tid" "ak_revoked_at row = None" "ak_id row \<notin> fst ` set (az_keys db)"
    "ak_expires_at row = (case days of None \<Rightarrow> None | Some d \<Rightarrow> if d > 0 then Some (ck 0 + d * 86400 * 1000000) else None)"
    "db' = db\<lparr>az_keys := az_keys db @ [(ak_id row, row)]\<rparr>"
  using assms by (auto simp: create_api_key_def act_simps try_insert_def insert_api_key_def Let_def split: option.split_asm if_splits)

lemma filter_None: "(\<forall>x\<in>set xs. \<not> p x) \<Longrightarrow> filter p xs = []"
  by simp

text \<open>A new API key parses back into its prefix and body, and while it is neither revoked nor expired
  it resolves to the user who made it, with that user's tenant and role, if no other key has the
  prefix; when another key has it, resolving either of them is a server error.
\<close>
theorem api_key_roundtrip:
  assumes "create_api_key env ck dr tid uid name days db = (Inr (row, full), db')" "find_by_id uid db = Some u"
    "case ak_expires_at row of None \<Rightarrow> True | Some e \<Rightarrow> ck' 0 < e"
  shows "(\<exists>body. parse_api_key full = Some (ak_prefix row, body) \<and> full = ''vy_'' @ ak_prefix row @ ''_'' @ body)
     \<and> ((\<forall>r\<in>set (dict_values (az_keys db)). ak_prefix r \<noteq> ak_prefix row) \<longrightarrow>
       fst (resolve_api_key env ck' full db') = Inr (Some (key_principal u (ak_id row))))
     \<and> ((\<exists>r\<in>set (dict_values (az_keys db)). ak_prefix r = ak_prefix row) \<longrightarrow>
       resolve_api_key env ck' full db' = (Inl (Unhandled ''MultipleResultsFound''), db'))"
proof (intro conjI impI)
  note c = create_api_key_parts [OF assms(1)]
  obtain body where b: "parse_api_key full = Some (ak_prefix row, body)" "full = ''vy_'' @ ak_prefix row @ ''_'' @ body"
    using c(1) by (rule parse_minted_key)
  then show "\<exists>body. parse_api_key full = Some (ak_prefix row, body) \<and> full = ''vy_'' @ ak_prefix row @ ''_'' @ body" by blast
  have use: "usable_key env (ck' 0) full row" using c(2,5) assms(3) by (auto simp: usable_key_def split: option.splits)
  { assume "\<forall>r\<in>set (dict_values (az_keys db)). ak_prefix r \<noteq> ak_prefix row"
    then have "filter (\<lambda>r. ak_prefix r = ak_prefix row) (dict_values (az_keys db')) = [row]"
      by (simp add: c(8) filter_None)
    then show "fst (resolve_api_key env ck' full db') = Inr (Some (key_principal u (ak_id row)))"
      using b(1) use assms(2) c(3) by (simp add: resolve_api_key_def act_eval update_api_key_def find_by_id_def c(8)) }
  { assume "\<exists>r\<in>set (dict_values (az_keys db)). ak_prefix r = ak_prefix row"
    then have "filter (\<lambda>r. ak_prefix r = ak_prefix row) (dict_values (az_keys db)) \<noteq> []" by (auto simp: filter_empty_conv)
    then obtain r1 rs where "filter (\<lambda>r. ak_prefix r = ak_prefix row) (dict_values (az_keys db)) = r1 # rs"
      by (auto simp: neq_Nil_conv)
    then have "filter (\<lambda>r. ak_prefix r = ak_prefix row) (dict_values (az_keys db')) = r1 # rs @ [row]"
      by (simp add: c(8))
    then show "resolve_api_key env ck' full db' = (Inl (Unhandled ''MultipleResultsFound''), db')"
      using b(1) by (cases rs) (simp_all add: resolve_api_key_def act_eval) }
qed

section \<open>Verification links and changed addresses\<close>

text \<open>
  A verification token names the user and not the address: one that was issued before the address
  changed verifies the new address.
\<close>
theorem stale_verification_token:
  assumes "auth_ok db" "map_of (az_verify db) tok = Some (uuid_str uid, ex)" "seconds (ck 0) < ex"
    "update_profile_row uid fn (Some e) db = (Inr (u, True), db1)"
  shows "\<exists>v. find_by_id uid (snd (verify_email ck tok db1)) = Some v \<and> us_email v = py_lower e \<and> us_email_verified v
     \<and> \<not> us_email_verified u"
proof -
  obtain cur where cur: "find_by_id uid db = Some cur" "new_email cur (Some e) \<noteq> None"
    and db1: "db1 = db\<lparr>az_users := table_update (\<lambda>u. us_id u = uid) (patched fn (new_email cur (Some e))) (az_users db)\<rparr>"
    and u: "find_by_id uid db1 = Some u"
    using assms(4) by (auto simp: update_profile_row_def act_simps update_user_def Let_def find_by_id_def split: if_splits)
  have ne: "new_email cur (Some e) = Some (py_lower e)" using cur(2) by (auto simp: new_email_def split: if_splits)
  have "us_id cur = uid" using find_by_id_ok [OF assms(1)] cur(1) by blast
  then have u': "u = patched fn (Some (py_lower e)) cur" "us_id u = uid"
    using u cur(1) ne by (auto simp: db1 find_by_id_def table_update_get)
  have "verify_email ck tok db1 = (Inr (), db1\<lparr>az_verify := AList.delete tok (az_verify db),
      az_users := table_update (\<lambda>u. us_id u = uid) (\<lambda>u. u\<lparr>us_email_verified := True\<rparr>) (az_users db1)\<rparr>)"
    using assms(2,3) by (simp add: verify_email_def act_eval take_verify_token_def token_take_def mark_email_verified_def update_user_def db1)
  then show ?thesis using u u' by (auto simp: find_by_id_def table_update_get patched_def Let_def split: option.splits)
qed

section \<open>A small run\<close>

definition demo_env :: auth_env where
  "demo_env = \<lparr>au_secret = ''0123456789abcdef0123456789abcdef'', au_access_ttl = 3600, au_refresh_ttl = 2592000,
     au_issuer = ''voyagent'', au_audience = ''voyagent-api'',
     au_environ = [(''VOYAGENT_AUTH_SKIP_EMAIL_VERIFICATION'', ''true'')],
     au_email = Some, au_argon2_hash = (\<lambda>salt pw. salt @ pw),
     au_argon2_verify = (\<lambda>h pw. if h = ''s'' @ pw then Argon_match else Argon_mismatch),
     au_sha256 = (\<lambda>s. CHR ''#'' # s), au_jwt_encode = (\<lambda>c s. ''jwt''),
     au_jwt_decode = (\<lambda>now tok s i a. if tok = ''jwt'' then Inr [(''sub'', JStr (uuid_str 2)), (''tid'', JStr (uuid_str 1)),
        (''role'', JStr ''agency_admin''), (''email'', JStr ''ann@x.io''), (''iat'', JInt 0), (''exp'', JInt 3600),
        (''jti'', JStr (uuid_hex 6)), (''iss'', JStr ''voyagent''), (''aud'', JStr ''voyagent-api'')] else Inl ''bad''),
     au_totp = (\<lambda>s w now c. Some (c = ''123456'')), au_otpauth = (\<lambda>s e i. ''otpauth:'' @ s)\<rparr>"

lemma demo_env_sel [simp]:
  "au_access_ttl demo_env = 3600" "au_refresh_ttl demo_env = 2592000" "au_email demo_env = Some"
  "au_argon2_hash demo_env = (\<lambda>salt pw. salt @ pw)" "au_sha256 demo_env = (\<lambda>s. CHR ''#'' # s)"
  "au_jwt_encode demo_env cl k = ''jwt''" "au_totp demo_env x w now c = Some (c = ''123456'')"
  by (simp_all add: demo_env_def)

definition demo_draws :: draws where
  "demo_draws = \<lparr>dr_tenant_id = 1, dr_user_id = 2, dr_row_id = 3, dr_refresh_id = 4, dr_external_id = 5, dr_jti = 6, dr_uuid4 = 7,
     dr_salt = ''s'', dr_secret = ''SECRET'', dr_refresh = [1], dr_token = [2], dr_prefix = [[]], dr_body = [[]]\<rparr>"

definition demo_clock :: clock where
  "demo_clock n = 0"

definition demo_sign_up :: call where
  "demo_sign_up = (demo_clock, demo_draws, (None, None), SignUp ''ann@x.io'' ''correct horse 1'' ''Ann'' ''Ann Travel'')"

definition demo_user :: user_row where
  "demo_user = \<lparr>us_id = 2, us_tenant_id = 1, us_external_id = uuid_str 5, us_display_name = ''Ann'', us_email = ''ann@x.io'',
     us_role = AGENCY_ADMIN, us_password_hash = Some ''scorrect horse 1'', us_email_verified = True, us_totp_secret = None,
     us_totp_enabled = False, us_last_login_at = None, us_created_at = 0\<rparr>"

definition demo_token :: refresh_row where
  "demo_token = \<lparr>rt_id = 4, rt_user_id = 2, rt_token_hash = ''#AQ'', rt_expires_at = 2592000000000, rt_revoked_at = None,
     rt_user_agent = None, rt_ip = None\<rparr>"

definition demo_auth_db :: auth_db where
  "demo_auth_db = empty_auth_db\<lparr>az_tenants := [(1, \<lparr>tn_id = 1, tn_display_name = ''Ann Travel'', tn_default_currency = ''USD'', tn_created_at = 0\<rparr>)],
     az_users := [(2, demo_user)], az_refresh := [(4, demo_token)]\<rparr>"

lemma demo_strength: "validate_password_strength ''correct horse 1'' = Inr ()" "password_rule ''correct horse 1''"
  by code_simp+

lemma demo_texts: "py_lower ''ann@x.io'' = ''ann@x.io''" "name_field ''Ann'' = Some ''Ann''" "name_field ''Ann Travel'' = Some ''Ann Travel''"
  "token_urlsafe [Suc 0] = ''AQ''" "skip_email_verification demo_env"
  by code_simp+

lemma demo_run: "snd (serve_call demo_env demo_sign_up empty_auth_db) = demo_auth_db"
  unfolding demo_sign_up_def serve_call.simps serve.simps sign_up_route_def
  by (simp add: act_eval demo_texts demo_strength sign_up_def find_by_email_def create_user_with_tenant_def insert_tenant_def insert_user_def
      new_user_def issue_pair_for_user_def issue_access_token_def mint_refresh_token_def client_meta_def cut_def refresh_store_def
      try_insert_def insert_refresh_def hash_refresh_token_def hash_password_def later_def demo_clock_def Let_def
      demo_draws_def demo_auth_db_def demo_user_def demo_token_def empty_auth_db_def)

lemma demo_reachable: "auth_reachable demo_env demo_auth_db"
  unfolding auth_reachable_def
  by (rule exI [of _ "[demo_sign_up]"]) (simp add: Let_def case_prod_beta demo_run)

lemma demo_db_sel [simp]:
  "az_users demo_auth_db = [(2, demo_user)]" "az_refresh demo_auth_db = [(4, demo_token)]" "az_invites demo_auth_db = []"
  "az_keys demo_auth_db = []" "az_reset demo_auth_db = []" "az_revoked demo_auth_db = []"
  "az_tenants demo_auth_db = [(1, \<lparr>tn_id = 1, tn_display_name = ''Ann Travel'', tn_default_currency = ''USD'', tn_created_at = 0\<rparr>)]"
  by (simp_all add: demo_auth_db_def empty_auth_db_def)

definition demo_refresh :: call where
  "demo_refresh = (demo_clock, demo_draws\<lparr>dr_refresh := [3], dr_refresh_id := 9\<rparr>, (None, None), Refresh ''AQ'')"

definition demo_signed_out :: auth_db where
  "demo_signed_out = snd (serve demo_env demo_clock demo_draws (None, None) (SignOut None (Some ''AQ'')) demo_auth_db)"

theorem refresh_token_redeemed_once_witness:
  "redemptions (\<lambda>q. q = Refresh ''AQ'') [demo_refresh, demo_refresh] (fst (serve_all demo_env [demo_refresh, demo_refresh] demo_auth_db)) \<le> 1
   \<and> redemptions (\<lambda>q. q = Refresh ''AQ'') [demo_refresh] (fst (serve_all demo_env [demo_refresh] demo_signed_out)) = 0"
proof -
  have h: "hash_refresh_token demo_env ''AQ'' \<in> rt_token_hash ` set (dict_values (az_refresh demo_auth_db))"
    by (simp add: hash_refresh_token_def demo_token_def)
  show ?thesis unfolding demo_signed_out_def by (rule refresh_token_redeemed_once [OF h _ prod.collapse [symmetric]]) simp
qed

definition demo_reset_db :: auth_db where
  "demo_reset_db = demo_auth_db\<lparr>az_reset := [(''Ag'', (uuid_str 2, 3600))]\<rparr>"

lemma demo_reset_texts: "token_urlsafe [2] = ''Ag''" "ttl_setting demo_env ''VOYAGENT_AUTH_PASSWORD_RESET_TTL_SECONDS'' 3600 = 3600"
  by (code_simp, simp add: ttl_setting_def environ_get_def demo_env_def dict_get_or_def py_strip_def py_lstrip_def py_rstrip_def)

lemma demo_reset_run:
  "serve demo_env demo_clock demo_draws (None, None) (RequestReset ''ann@x.io'') demo_auth_db
     = (Inr (R_queued (Some ''Ag'')), demo_reset_db)"
  by (simp add: request_reset_route_def request_password_reset_def act_eval find_by_email_def demo_texts demo_user_def demo_draws_def
      demo_reset_texts get_password_reset_ttl_seconds_def token_put_def demo_clock_def seconds_def demo_reset_db_def Let_def)

lemma demo_reset_reachable: "auth_reachable demo_env demo_reset_db"
  unfolding auth_reachable_def
  by (rule exI [of _ "[demo_sign_up, (demo_clock, demo_draws, (None, None), RequestReset ''ann@x.io'')]"])
     (simp add: Let_def case_prod_beta demo_run demo_reset_run del: serve.simps)

theorem password_reset_ends_sessions_witness:
  "redemptions (\<lambda>q. q = Refresh ''AQ'') [demo_refresh]
     (fst (serve_all demo_env [demo_refresh]
       (snd (serve demo_env demo_clock demo_draws (None, None) (ResetPassword ''Ag'' ''other horses 22'') demo_reset_db)))) = 0"
proof -
  have pw: "password_rule ''other horses 22''" "bounded_text 1 128 ''Ag''" by code_simp+
  obtain db' where s: "serve demo_env demo_clock demo_draws (None, None) (ResetPassword ''Ag'' ''other horses 22'') demo_reset_db = (Inr R_reset, db')"
    using pw by (simp add: reset_password_route_def reset_password_def act_eval take_reset_token_def token_take_def demo_reset_db_def
        demo_clock_def seconds_def find_by_id_def update_password_hash_def update_user_def revoke_all_for_user_def Let_def)
  have "demo_token \<in> set (dict_values (az_refresh demo_reset_db))" "rt_user_id demo_token = 2"
    "rt_token_hash demo_token = hash_refresh_token demo_env ''AQ''"
    by (simp_all add: demo_reset_db_def demo_token_def hash_refresh_token_def)
  with password_reset_ends_sessions [OF demo_reset_reachable s] show ?thesis unfolding s snd_conv
    by (auto simp: demo_reset_db_def simp del: serve_all.simps)
qed

theorem auth_tables_consistent_witness: "auth_ok demo_reset_db"
  by (rule auth_tables_consistent [OF demo_reset_reachable])

definition demo_setup :: "(http_error + auth_reply) \<times> auth_db" where
  "demo_setup = serve demo_env demo_clock demo_draws (None, None) (TotpSetup (Some ''Bearer jwt'')) demo_auth_db"

lemma demo_bearer: "extract_bearer (Some ''Bearer jwt'') = Some ''jwt''"
  by code_simp

lemma demo_principal:
  "get_current_principal demo_env ck (Some ''Bearer jwt'') demo_auth_db
     = (Inr \<lparr>pr_user_id = uuid_str 2, pr_tenant_id = uuid_str 1, pr_role = ''agency_admin'', ap_email = ''ann@x.io'',
              ap_jti = uuid_hex 6, ap_exp = 3600\<rparr>, demo_auth_db)"
proof -
  have "verify_access_token demo_env now ''jwt'' = Inr \<lparr>ac_sub = uuid_str 2, ac_tid = uuid_str 1, ac_role = ''agency_admin'',
      ac_email = ''ann@x.io'', ac_iat = 0, ac_exp = 3600, ac_jti = uuid_hex 6\<rparr>" for now
    by (simp add: verify_access_token_def demo_env_def payload_of_claims_def)
  moreover have "uuid_str w \<noteq> []" "uuid_hex w \<noteq> []" for w by (simp_all add: uuid_str_def uuid_hex_def hex_range_def)
  ultimately show ?thesis
    by (simp add: get_current_principal_def demo_bearer principal_from_token_def act_eval check_revoked_def is_revoked_def demo_auth_db_def empty_auth_db_def)
qed

theorem second_factor_changes_witness:
  "\<exists>u'. map_of (az_users (snd demo_setup)) 2 = Some u' \<and> \<not> us_totp_enabled u'"
proof -
  have "\<exists>u'. map_of (az_users (snd demo_setup)) 2 = Some u'
     \<and> (us_totp_enabled u' \<noteq> us_totp_enabled demo_user \<longrightarrow> factor_change_ok demo_env demo_clock (TotpSetup (Some ''Bearer jwt'')) demo_user u')
     \<and> (\<forall>a p db1. TotpSetup (Some ''Bearer jwt'') = TotpSetup a \<and> get_current_principal demo_env demo_clock a demo_auth_db = (Inr p, db1)
          \<and> uuid_parse (pr_user_id p) = Some 2 \<longrightarrow> \<not> us_totp_enabled u')"
    unfolding demo_setup_def by (rule second_factor_changes [OF demo_reachable prod.collapse [symmetric]]) simp
  then show ?thesis by (auto simp: demo_principal)
qed

definition demo_invite :: "(http_error + auth_reply) \<times> auth_db" where
  "demo_invite = serve demo_env demo_clock demo_draws (None, None) (CreateInvite (Some ''Bearer jwt'') ''bob@x.io'' ''agent'') demo_auth_db"

definition demo_invite_row :: invite_row where
  "demo_invite_row = \<lparr>iv_id = 3, iv_tenant_id = 1, iv_invited_by_user_id = 2, iv_email = ''bob@x.io'', iv_role = ''agent'',
     iv_token_hash = ''#Ag'', iv_status = InvPending, iv_expires_at = 604800000000, iv_accepted_at = None, iv_revoked_at = None, iv_created_at = 0\<rparr>"

lemma demo_invite_texts: "py_lower ''bob@x.io'' = ''bob@x.io''" "name_field ''Bob'' = Some ''Bob''" "bounded_text (Suc 0) 128 ''Ag''"
  "password_rule ''bob has 12 cats''" "role_of_value ''agent'' = Some AGENT" "token_urlsafe [3] = ''Aw''"
  by code_simp+

lemma demo_invite_run: "snd demo_invite = demo_auth_db\<lparr>az_invites := [(3, demo_invite_row)]\<rparr>"
  by (simp add: demo_invite_def create_invite_route_def require_agency_admin_def act_eval demo_principal VALID_ROLES_def uuid_or_def
      create_invite_def find_pending_for_email_def invite_create_def try_insert_def insert_invite_def demo_invite_texts demo_draws_def
      hash_invite_token_def demo_reset_texts demo_clock_def demo_invite_row_def later_def Let_def)

lemma demo_invite_reachable: "auth_reachable demo_env (demo_auth_db\<lparr>az_invites := [(3, demo_invite_row)]\<rparr>)"
  unfolding auth_reachable_def
  by (rule exI [of _ "[demo_sign_up, (demo_clock, demo_draws, (None, None), CreateInvite (Some ''Bearer jwt'') ''bob@x.io'' ''agent'')]"])
     (simp add: Let_def case_prod_beta demo_run demo_invite_run [unfolded demo_invite_def] del: serve.simps)

definition demo_accept :: call where
  "demo_accept = (demo_clock, demo_draws\<lparr>dr_user_id := 12, dr_refresh_id := 14, dr_refresh := [3]\<rparr>, (None, None),
     AcceptInvite ''Ag'' ''bob has 12 cats'' ''Bob'')"

lemma demo_accept_run:
  "\<exists>pair pu db'. serve_call demo_env demo_accept (demo_auth_db\<lparr>az_invites := [(3, demo_invite_row)]\<rparr>) = (Inr (R_auth pair pu), db')"
  by (simp add: demo_accept_def accept_invite_route_def demo_invite_texts accept_invite_def open_invite_def act_eval hash_invite_token_def
      invite_find_by_token_hash_def demo_invite_row_def demo_clock_def find_by_email_def demo_user_def create_user_in_existing_tenant_def
      try_insert_def insert_user_def new_user_def demo_draws_def invite_mark_accepted_def update_invite_def find_tenant_def
      issue_pair_for_user_def issue_access_token_def mint_refresh_token_def client_meta_def cut_def refresh_store_def insert_refresh_def
      hash_refresh_token_def demo_token_def demo_texts Let_def)

theorem invite_accepted_once_witness:
  "redemptions (\<lambda>q. \<exists>pw fn. q = AcceptInvite ''Ag'' pw fn) [demo_accept, demo_accept]
      (fst (serve_all demo_env [demo_accept, demo_accept] (demo_auth_db\<lparr>az_invites := [(3, demo_invite_row)]\<rparr>))) \<le> 1
   \<and> (\<exists>pair pu db'. serve_call demo_env demo_accept (demo_auth_db\<lparr>az_invites := [(3, demo_invite_row)]\<rparr>) = (Inr (R_auth pair pu), db')
        \<and> pu_tenant_id pu = uuid_str 1 \<and> pu_role pu = ''agent'' \<and> pu_email pu = ''bob@x.io'')"
proof (intro conjI)
  note acc = invite_accepted_once [OF demo_invite_reachable]
  show "redemptions (\<lambda>q. \<exists>pw fn. q = AcceptInvite ''Ag'' pw fn) [demo_accept, demo_accept]
      (fst (serve_all demo_env [demo_accept, demo_accept] (demo_auth_db\<lparr>az_invites := [(3, demo_invite_row)]\<rparr>))) \<le> 1"
    using acc by blast
  obtain pair pu db' where s: "serve_call demo_env demo_accept (demo_auth_db\<lparr>az_invites := [(3, demo_invite_row)]\<rparr>) = (Inr (R_auth pair pu), db')"
    using demo_accept_run by blast
  show "\<exists>pair pu db'. serve_call demo_env demo_accept (demo_auth_db\<lparr>az_invites := [(3, demo_invite_row)]\<rparr>) = (Inr (R_auth pair pu), db')
        \<and> pu_tenant_id pu = uuid_str 1 \<and> pu_role pu = ''agent'' \<and> pu_email pu = ''bob@x.io''"
    using s acc [THEN conjunct2, THEN mp, OF s [unfolded demo_accept_def serve_call.simps]] by (auto simp: demo_invite_row_def)
qed

definition demo_key_draws :: draws where
  "demo_key_draws = demo_draws\<lparr>dr_prefix := [replicate 16 9], dr_body := [replicate 64 77]\<rparr>"

lemma demo_mint: "mint_api_key_plaintext demo_key_draws = Some (''vy_CQkJCQkJ_TU1NTU1NTU1NTU1NTU1NTU1NTU1NTU1N'', ''CQkJCQkJ'')"
  by code_simp

definition demo_key :: api_key_row where
  "demo_key = \<lparr>ak_id = 3, ak_tenant_id = 1, ak_created_by_user_id = 2, ak_name = ''ci'', ak_prefix = ''CQkJCQkJ'',
     ak_key_hash = ''#vy_CQkJCQkJ_TU1NTU1NTU1NTU1NTU1NTU1NTU1NTU1N'', ak_scopes = ''full'', ak_expires_at = None, ak_revoked_at = None,
     ak_last_used_at = None, ak_created_at = 0\<rparr>"

theorem api_key_roundtrip_witness:
  "fst (resolve_api_key demo_env demo_clock ''vy_CQkJCQkJ_TU1NTU1NTU1NTU1NTU1NTU1NTU1NTU1N'' (demo_auth_db\<lparr>az_keys := [(3, demo_key)]\<rparr>))
     = Inr (Some (key_principal demo_user 3))"
proof -
  have id: "dr_row_id demo_key_draws = 3" by (simp add: demo_key_draws_def demo_draws_def)
  have c: "create_api_key demo_env demo_clock demo_key_draws 1 2 ''ci'' None demo_auth_db
      = (Inr (demo_key, ''vy_CQkJCQkJ_TU1NTU1NTU1NTU1NTU1NTU1NTU1NTU1N''), demo_auth_db\<lparr>az_keys := [(3, demo_key)]\<rparr>)"
    by (simp add: create_api_key_def act_eval demo_mint hash_api_key_def try_insert_def insert_api_key_def demo_clock_def
        id demo_key_def Let_def)
  have "find_by_id 2 demo_auth_db = Some demo_user" by (simp add: find_by_id_def)
  then show ?thesis using api_key_roundtrip [OF c, of demo_user demo_clock] by (simp add: demo_key_def)
qed

end
