(* ===== verification/Auth_Tenancy.thy ===== *)
theory Auth_Tenancy
  imports Auth_Safety
begin

unbundle bit_operations_syntax

text \<open>
  From a bearer token to the tenant a request works for: \<^verbatim>\<open>tenancy.py\<close>, the user dependency of
  \<^verbatim>\<open>deps.py\<close>, and the row identifiers of \<^verbatim>\<open>schemas/storage/base.py\<close>, whose shape the tenant
  context checks. The theorem follows an access token from the route that issues it to the tenant
  context and to its end at sign-out; what it needs of the JWT library is a premise.
\<close>

section \<open>Row identifiers\<close>

text \<open>\<^verbatim>\<open>uuid7()\<close>: 48 bits of milliseconds, the version, 12 random bits, the variant, 62 random bits.\<close>

definition uuid7 :: "nat \<Rightarrow> nat \<Rightarrow> nat \<Rightarrow> uuid_int" where
  "uuid7 time_ms rand_a rand_b =
     (let ms = take_bit 48 (of_nat time_ms) :: uuid_int;
          high = push_bit 16 ms OR push_bit 12 7 OR take_bit 12 (of_nat rand_a);
          low = push_bit 62 2 OR take_bit 62 (of_nat rand_b)
      in push_bit 64 high OR low)"

section \<open>The tenant context\<close>

record tenant_context =
  tc_tenant_id :: string
  tc_external_id :: string
  tc_display_name :: string
  tc_user_id :: string
  tc_user_external_id :: string
  tc_role :: string

definition resolve_tenant :: "auth_principal \<Rightarrow> auth_db \<Rightarrow> http_error + tenant_context" where
  "resolve_tenant p db =
     (case uuid_parse (pr_tenant_id p) of
        None \<Rightarrow> Inl unauthorized
      | Some tid \<Rightarrow>
          (case find_tenant tid db of
             None \<Rightarrow> Inl unauthorized
           | Some t \<Rightarrow>
               if entity_id_ok (uuid_str (tn_id t)) \<and> entity_id_ok (pr_user_id p)
               then Inr \<lparr>tc_tenant_id = uuid_str (tn_id t), tc_external_id = uuid_str (tn_id t), tc_display_name = tn_display_name t,
                         tc_user_id = pr_user_id p, tc_user_external_id = pr_user_id p, tc_role = pr_role p\<rparr>
               else Inl (HTTP 503 ''tenant_resolution_failed'')))"

text \<open>The dependency: an exception other than an HTTP error, such as the failed pattern above, is answered with 503.\<close>

definition get_tenant :: "auth_env \<Rightarrow> clock \<Rightarrow> string option \<Rightarrow> tenant_context route_act" where
  "get_tenant env ck authorization =
     act_bind (get_current_principal env ck authorization) (\<lambda>p.
     act_bind (act_read (resolve_tenant p)) (\<lambda>r. act_lift r))"

definition get_current_user :: "auth_env \<Rightarrow> clock \<Rightarrow> string option \<Rightarrow> public_user route_act" where
  "get_current_user env ck authorization =
     act_bind (get_current_principal env ck authorization) (\<lambda>p.
     act_bind (act_some (uuid_parse (pr_user_id p)) unauthorized) (\<lambda>uid.
     act_bind (act_read (find_by_id uid)) (\<lambda>u.
     act_bind (act_some u unauthorized) (\<lambda>user.
     act_bind (act_read (find_tenant (us_tenant_id user))) (\<lambda>t.
     act_bind (act_some t unauthorized) (\<lambda>tenant. act_return (public_user_of user tenant)))))))"

section \<open>Identifiers have the canonical shape\<close>

lemma uuid7_bits:
  "bit (uuid7 m a b) 76" "bit (uuid7 m a b) 77" "bit (uuid7 m a b) 78" "\<not> bit (uuid7 m a b) 79"
  "bit (uuid7 m a b) 63" "\<not> bit (uuid7 m a b) 62"
  by (simp_all add: uuid7_def Let_def bit_or_iff bit_push_bit_iff bit_take_bit_iff)

lemma uuid7_entity_id: "entity_id_ok (uuid_str (uuid7 m a b))"
proof -
  have h: "is_hex_char (hex_char (nibble w k))" for w k by (simp add: hex_char_hex nibble_less)
  have v: "nibble (uuid7 m a b) 19 = 7" by (simp add: nibble_bits4 uuid7_bits)
  have r: "hex_char (nibble (uuid7 m a b) 15) \<in> set ''89ab''"
    by (simp add: nibble_bits4 uuid7_bits hex_char_values)
  show ?thesis using r by (simp add: entity_id_ok_def uuid_str_expand h v hex_char_values(1))
qed

section \<open>The life of an access token\<close>

text \<open>
  What the JWT library documents of the token made from some claims: it is text without blanks; decoding
  it with the same secret gives the claims back while issuer and audience agree, it was not issued in
  the future and has not expired.
\<close>

definition jwt_law :: "auth_env \<Rightarrow> obj \<Rightarrow> bool" where
  "jwt_law env claims \<longleftrightarrow> (let tok = au_jwt_encode env claims (au_secret env) in
     tok \<noteq> [] \<and> list_all (\<lambda>c. \<not> py_isspace c) tok
     \<and> (\<forall>now i e. map_of claims ''iss'' = Some (JStr (au_issuer env)) \<and> map_of claims ''aud'' = Some (JStr (au_audience env))
          \<and> map_of claims ''iat'' = Some (JInt i) \<and> map_of claims ''exp'' = Some (JInt e) \<and> i \<le> seconds now \<and> seconds now < e
          \<and> ''sub'' \<in> fst ` set claims \<and> ''jti'' \<in> fst ` set claims
          \<longrightarrow> au_jwt_decode env now tok (au_secret env) (au_issuer env) (au_audience env) = Inr claims))"

definition bearer :: "string \<Rightarrow> string option" where
  "bearer tok = Some (''Bearer '' @ tok)"

lemma strip_no_space: "list_all (\<lambda>c. \<not> py_isspace c) t \<Longrightarrow> py_lstrip t = t" "list_all (\<lambda>c. \<not> py_isspace c) t \<Longrightarrow> py_strip t = t"
  by (cases t; simp add: py_lstrip_def) (simp add: py_strip_no_space)

lemma split_bearer:
  assumes "tok \<noteq> []" "list_all (\<lambda>c. \<not> py_isspace c) tok"
  shows "split_word (''Bearer '' @ tok) = [''Bearer'', tok]"
proof -
  have sp: "\<not> py_isspace (CHR ''B'')" "\<not> py_isspace (CHR ''e'')" "\<not> py_isspace (CHR ''a'')" "\<not> py_isspace (CHR ''r'')"
    "py_isspace (CHR '' '')"
    by code_simp+
  have "py_lstrip (''Bearer '' @ tok) = ''Bearer '' @ tok" by (simp add: py_lstrip_def sp)
  moreover have "py_lstrip (CHR '' '' # tok) = tok"
    using strip_no_space(1) [OF assms(2)] by (simp add: py_lstrip_def sp)
  ultimately show ?thesis using assms(1) by (simp add: split_word_def Let_def sp)
qed

lemmas split_bearer_chars = split_bearer [unfolded append_Cons append_Nil]

lemma bearer_lower: "py_lower ''Bearer'' = ''bearer''"
  by code_simp

lemma extract_bearer_bearer:
  "tok \<noteq> [] \<Longrightarrow> list_all (\<lambda>c. \<not> py_isspace c) tok \<Longrightarrow> extract_bearer (bearer tok) = Some tok"
  by (simp add: extract_bearer_def bearer_def split_bearer_chars bearer_lower strip_no_space(2))

definition issued_payload :: "auth_env \<Rightarrow> int \<Rightarrow> draws \<Rightarrow> user_row \<Rightarrow> uuid_int \<Rightarrow> access_payload" where
  "issued_payload env now dr u tid = \<lparr>ac_sub = uuid_str (us_id u), ac_tid = uuid_str tid, ac_role = role_value (us_role u),
     ac_email = us_email u, ac_iat = seconds now, ac_exp = seconds (now + au_access_ttl env * 1000000), ac_jti = uuid_hex (dr_jti dr)\<rparr>"

definition issued_claims :: "auth_env \<Rightarrow> int \<Rightarrow> draws \<Rightarrow> user_row \<Rightarrow> uuid_int \<Rightarrow> obj" where
  "issued_claims env now dr u tid =
     access_claims env now (uuid_hex (dr_jti dr)) (uuid_str (us_id u)) (uuid_str tid) (us_email u) (role_value (us_role u))"

definition issued_access :: "auth_env \<Rightarrow> int \<Rightarrow> draws \<Rightarrow> user_row \<Rightarrow> uuid_int \<Rightarrow> string" where
  "issued_access env now dr u tid = fst (issue_access_token env now (dr_jti dr) (us_id u) tid (us_email u) (role_value (us_role u)))"

lemma issued_text:
  assumes "jwt_law env (issued_claims env now dr u tid)"
  shows "issued_access env now dr u tid \<noteq> []" "list_all (\<lambda>c. \<not> py_isspace c) (issued_access env now dr u tid)"
  using assms by (simp_all add: jwt_law_def Let_def issued_access_def issued_claims_def issue_access_token_def)

lemma verify_issued:
  assumes "jwt_law env (issued_claims env now dr u tid)" "seconds now \<le> seconds t" "seconds t < seconds (now + au_access_ttl env * 1000000)"
  shows "verify_access_token env t (issued_access env now dr u tid) = Inr (issued_payload env now dr u tid)"
proof -
  have "au_jwt_decode env t (issued_access env now dr u tid) (au_secret env) (au_issuer env) (au_audience env)
      = Inr (issued_claims env now dr u tid)"
    using assms by (simp add: jwt_law_def Let_def issued_access_def issued_claims_def issue_access_token_def access_claims_def)
  then show ?thesis by (simp add: verify_access_token_def issued_claims_def access_claims_def payload_of_claims_def issued_payload_def)
qed

definition issued_principal :: "auth_env \<Rightarrow> int \<Rightarrow> draws \<Rightarrow> user_row \<Rightarrow> uuid_int \<Rightarrow> auth_principal" where
  "issued_principal env now dr u tid = \<lparr>pr_user_id = uuid_str (us_id u), pr_tenant_id = uuid_str tid, pr_role = role_value (us_role u),
     ap_email = us_email u, ap_jti = uuid_hex (dr_jti dr), ap_exp = seconds (now + au_access_ttl env * 1000000)\<rparr>"

lemma principal_issued:
  assumes "jwt_law env (issued_claims env now dr u tid)" "seconds now \<le> seconds (ck 0)" "seconds (ck 0) < seconds (now + au_access_ttl env * 1000000)"
    "map_of (az_revoked db) (uuid_hex (dr_jti dr)) = None"
  shows "get_current_principal env ck (bearer (issued_access env now dr u tid)) db = (Inr (issued_principal env now dr u tid), db)"
proof -
  have ne: "uuid_str w \<noteq> []" "uuid_hex w \<noteq> []" "role_value r \<noteq> []" for w r
    by (simp_all add: uuid_str_def uuid_hex_def hex_range_def) (cases r; simp)
  show ?thesis using assms(4)
    by (simp add: get_current_principal_def extract_bearer_bearer [OF issued_text [OF assms(1)]] principal_from_token_def
        verify_issued [OF assms(1-3)] act_eval check_revoked_def is_revoked_def issued_payload_def issued_principal_def ne)
qed

lemma signed_out_refused:
  assumes "jwt_law env (issued_claims env now dr u tid)" "seconds now \<le> seconds (ck 0)" "seconds (ck 0) < seconds (now + au_access_ttl env * 1000000)"
    "serve env ck dr' cl (SignOut (bearer (issued_access env now dr u tid)) rt) db = (r, db')"
    "seconds now \<le> seconds (ck' 0)" "seconds (ck' 0) < seconds (now + au_access_ttl env * 1000000)"
    "seconds (ck' 1) < seconds (now + au_access_ttl env * 1000000)"
  shows "fst (get_current_principal env ck' (bearer (issued_access env now dr u tid)) db') = Inl unauthorized"
proof -
  have "map_of (az_revoked db') (uuid_hex (dr_jti dr)) = Some (seconds (now + au_access_ttl env * 1000000))"
    using assms(4) issued_text [OF assms(1)] verify_issued [OF assms(1-3)]
    by (auto simp: sign_out_route_def bearer_def split_bearer_chars bearer_lower strip_no_space(2) sign_out_def act_eval refresh_revoke_def
        revoke_jti_def issued_payload_def dict_update_get Let_def split: option.splits if_splits)
  then show ?thesis using assms(7)
    by (simp add: get_current_principal_def extract_bearer_bearer [OF issued_text [OF assms(1)]] principal_from_token_def
        verify_issued [OF assms(1,5,6)] act_eval check_revoked_def is_revoked_def issued_payload_def)
qed

lemma sign_in_parts:
  assumes "serve env ck dr cl (SignIn email pw) db = (Inr (R_auth pair pu), db')"
  obtains em u h t where "au_email env email = Some em" "find_by_email em db = Some u" "us_password_hash u = Some h"
    "verify_password env h pw" "us_email_verified u" "find_tenant (us_tenant_id u) db = Some t"
    "tp_access pair = issued_access env (ck 1) dr u (tn_id t)" "pu = public_user_of u t"
    "az_revoked db' = az_revoked db" "az_tenants db' = az_tenants db"
  using assms
  by (auto simp: sign_in_route_def sign_in_def check_credentials_def act_simps update_last_login_def update_user_def issue_pair_for_user_def
      issued_access_def issue_access_token_def mint_refresh_token_def client_meta_def refresh_store_def try_insert_def insert_refresh_def
      find_tenant_def later_def Let_def split: if_splits option.split_asm)

text \<open>Claim C39. Sign-in needs the password of a user with a verified address, and the access token it returns
  identifies that user: until it expires, every dependency that reads it gets the user's id, tenant
  and role, and the tenant context is the user's tenant when the ids have the shape the database
  mints. After a sign-out with the token it is refused.
\<close>
theorem access_token_identifies_user:
  assumes jwt: "jwt_law env (issued_claims env (ck 1) dr u (us_tenant_id u))" and reach: "auth_reachable env db"
    and user: "au_email env email = Some em" "find_by_email em db = Some u"
    and sign_in: "serve env ck dr cl (SignIn email pw) db = (Inr (R_auth pair pu), db')"
    and t1: "seconds (ck 1) \<le> seconds (ck1 0)" "seconds (ck1 0) < seconds (ck 1 + au_access_ttl env * 1000000)"
    and fresh: "map_of (az_revoked db) (uuid_hex (dr_jti dr)) = None"
    and t2: "seconds (ck 1) \<le> seconds (ck2 0)" "seconds (ck2 0) < seconds (ck 1 + au_access_ttl env * 1000000)"
      "seconds (ck2 1) < seconds (ck 1 + au_access_ttl env * 1000000)"
  shows "\<exists>h t. us_password_hash u = Some h
     \<and> verify_password env h pw \<and> us_email_verified u \<and> find_tenant (us_tenant_id u) db = Some t
     \<and> get_current_principal env ck1 (bearer (tp_access pair)) db' = (Inr (issued_principal env (ck 1) dr u (us_tenant_id u)), db')
     \<and> (entity_id_ok (uuid_str (us_id u)) \<and> entity_id_ok (uuid_str (us_tenant_id u)) \<longrightarrow>
          fst (get_tenant env ck1 (bearer (tp_access pair)) db') = Inr \<lparr>tc_tenant_id = uuid_str (us_tenant_id u),
            tc_external_id = uuid_str (us_tenant_id u), tc_display_name = tn_display_name t, tc_user_id = uuid_str (us_id u),
            tc_user_external_id = uuid_str (us_id u), tc_role = role_value (us_role u)\<rparr>)
     \<and> (\<forall>dr' cl' rt. fst (get_current_principal env ck2 (bearer (tp_access pair))
            (snd (serve env ck1 dr' cl' (SignOut (bearer (tp_access pair)) rt) db'))) = Inl unauthorized)"
  using sign_in
proof (rule sign_in_parts)
  fix em' u' h t
  assume q: "au_email env email = Some em'" "find_by_email em' db = Some u'" "us_password_hash u' = Some h"
    "verify_password env h pw" "us_email_verified u'" "find_tenant (us_tenant_id u') db = Some t"
    and a: "tp_access pair = issued_access env (ck 1) dr u' (tn_id t)" and f: "az_revoked db' = az_revoked db" "az_tenants db' = az_tenants db"
  have u: "u' = u" using q(1,2) user by simp
  have tid: "tn_id t = us_tenant_id u"
    using auth_reachable_ok [OF reach] q(6) u by (auto simp: auth_ok_def find_tenant_def rows_ok_get)
  have pr: "get_current_principal env ck1 (bearer (tp_access pair)) db' = (Inr (issued_principal env (ck 1) dr u (us_tenant_id u)), db')"
    using principal_issued [where ck = ck1, OF jwt t1] fresh f(1) a tid u by simp
  have tn: "find_tenant (us_tenant_id u) db' = Some t" using q(6) u f(2) by (simp add: find_tenant_def)
  have "fst (get_current_principal env ck2 (bearer (tp_access pair))
            (snd (serve env ck1 dr' cl' (SignOut (bearer (tp_access pair)) rt) db'))) = Inl unauthorized" for dr' cl' rt
    using signed_out_refused [where ck = ck1 and ck' = ck2 and dr' = dr' and cl = cl' and rt = rt and db = db', OF jwt t1 surjective_pairing t2]
    unfolding a tid u .
  then show ?thesis using q pr tn tid u
    by (intro exI [of _ h] exI [of _ t]) (auto simp: get_tenant_def act_eval resolve_tenant_def issued_principal_def)
qed

definition demo_sign_in_draws :: draws where
  "demo_sign_in_draws = demo_draws\<lparr>dr_refresh := [3], dr_refresh_id := 9\<rparr>"

lemma demo_sign_in_run:
  "\<exists>pu db'. serve demo_env demo_clock demo_sign_in_draws (None, None) (SignIn ''ann@x.io'' ''correct horse 1'') demo_auth_db
     = (Inr (R_auth \<lparr>tp_access = ''jwt'', tp_refresh = ''Aw'', tp_expires_in = 3600\<rparr> pu), db')"
proof -
  have "verify_password demo_env ''scorrect horse 1'' ''correct horse 1''" by (simp add: verify_password_def demo_env_def)
  moreover have "bounded_text (Suc 0) 256 ''correct horse 1''" by code_simp
  ultimately show ?thesis
    by (simp add: sign_in_route_def sign_in_def check_credentials_def act_eval find_by_email_def demo_texts demo_user_def
        find_tenant_def update_last_login_def update_user_def table_update_def issue_pair_for_user_def issue_access_token_def
        mint_refresh_token_def client_meta_def cut_def refresh_store_def try_insert_def insert_refresh_def hash_refresh_token_def
        demo_token_def demo_sign_in_draws_def demo_draws_def demo_invite_texts(6) Let_def)
qed

theorem access_token_identifies_user_witness:
  "\<exists>pu db'. serve demo_env demo_clock demo_sign_in_draws (None, None) (SignIn ''ann@x.io'' ''correct horse 1'') demo_auth_db
     = (Inr (R_auth \<lparr>tp_access = ''jwt'', tp_refresh = ''Aw'', tp_expires_in = 3600\<rparr> pu), db')
   \<and> get_current_principal demo_env demo_clock (bearer ''jwt'') db' = (Inr (issued_principal demo_env 0 demo_sign_in_draws demo_user 1), db')"
proof -
  obtain pu db' where s: "serve demo_env demo_clock demo_sign_in_draws (None, None) (SignIn ''ann@x.io'' ''correct horse 1'') demo_auth_db
     = (Inr (R_auth \<lparr>tp_access = ''jwt'', tp_refresh = ''Aw'', tp_expires_in = 3600\<rparr> pu), db')"
    using demo_sign_in_run by blast
  have sp: "list_all (\<lambda>c. \<not> py_isspace c) ''jwt''" by code_simp
  have ids: "au_issuer demo_env = ''voyagent''" "au_audience demo_env = ''voyagent-api''" by (simp_all add: demo_env_def)
  have dec: "au_jwt_decode demo_env now ''jwt'' a b c = Inr (issued_claims demo_env 0 demo_sign_in_draws demo_user 1)" for now a b c
    by (simp add: issued_claims_def access_claims_def ids demo_user_def demo_sign_in_draws_def demo_draws_def seconds_def)
       (simp add: demo_env_def)
  have jwt: "jwt_law demo_env (issued_claims demo_env (demo_clock 1) demo_sign_in_draws demo_user (us_tenant_id demo_user))"
    using dec sp by (simp add: jwt_law_def Let_def demo_clock_def demo_user_def)
  have u: "find_by_email ''ann@x.io'' demo_auth_db = Some demo_user" by (simp add: find_by_email_def demo_texts demo_user_def)
  show ?thesis using s access_token_identifies_user [OF jwt demo_reachable _ u s, of demo_clock demo_clock]
    by (auto simp: demo_clock_def seconds_def demo_user_def)
qed

end
