(* ===== verification/Isolation.thy ===== *)
theory Isolation
  imports Py_State
begin

text \<open>
  Tenant isolation as noninterference. A service answers requests, each owned by a tenant, over a
  shared state; a tenant's view is the part of the state that is its own. When an answer and the
  new view depend on the old view alone, and other tenants' requests leave the view as it is,
  a tenant cannot tell a run with everybody from a run of its own: that is
  proved once here, in the locale \<open>isolated_service\<close>, for services that may draw fresh identifiers.
\<close>

fun run_calls :: "('q \<Rightarrow> 's \<Rightarrow> 'r \<times> 's) \<Rightarrow> 'q list \<Rightarrow> 's \<Rightarrow> 'r list \<times> 's" where
  "run_calls step [] s = ([], s)"
| "run_calls step (q # qs) s = (let (r, s1) = step q s; (rs, s2) = run_calls step qs s1 in (r # rs, s2))"

lemma run_calls_Cons_fst: "fst (run_calls step (q # qs) s) = fst (step q s) # fst (run_calls step qs (snd (step q s)))"
  by (simp add: Let_def split: prod.splits)

lemma run_calls_Cons_snd: "snd (run_calls step (q # qs) s) = snd (run_calls step qs (snd (step q s)))"
  by (simp add: Let_def split: prod.splits)

lemma run_calls_length: "length (fst (run_calls step qs s)) = length qs"
  by (induction qs arbitrary: s) (simp_all add: run_calls_Cons_fst del: run_calls.simps(2))

lemma run_calls_keeps:
  assumes "\<And>q s. P s \<Longrightarrow> P (snd (step q s))" "P s"
  shows "P (snd (run_calls step qs s))"
  using assms(2) by (induction qs arbitrary: s) (simp_all add: run_calls_Cons_snd assms(1) del: run_calls.simps(2))

text \<open>Running the first action of a sequence.\<close>

lemma act_steps:
  "act_bind (act_lift x) f s = (case x of Inl e \<Rightarrow> (Inl e, s) | Inr y \<Rightarrow> f y s)"
  "act_bind (act_guard b e) g s = (if b then g () s else (Inl e, s))"
  "act_bind (act_read h) k s = k (h s) s"
  "act_bind (act_some o' e') k' s = (case o' of None \<Rightarrow> (Inl e', s) | Some y \<Rightarrow> k' y s)"
  "act_bind (act_update u) g' s = g' () (u s)"
  "act_bind (act_return v) k'' s = k'' v s"
  "act_bind (act_raise e'') k'' s = (Inl e'', s)"
  "act_bind (act_bind m n) n' s = act_bind m (\<lambda>x. act_bind (n x) n') s"
  by (simp_all add: act_eval split: sum.split option.split prod.split)

text \<open>The answers to the requests that satisfy \<open>mine\<close>.\<close>

definition answers :: "('q \<Rightarrow> bool) \<Rightarrow> 'q list \<Rightarrow> 'r list \<Rightarrow> 'r list" where
  "answers mine qs rs = map snd (filter (\<lambda>(q, r). mine q) (zip qs rs))"

lemma answers_simps [simp]:
  "answers mine [] rs = []"
  "answers mine (q # qs) (r # rs) = (if mine q then r # answers mine qs rs else answers mine qs rs)"
  by (simp_all add: answers_def)

locale isolated_service =
  fixes inv :: "'s \<Rightarrow> bool"
    and step :: "'q \<Rightarrow> 's \<Rightarrow> 'r \<times> 's"
    and owner :: "'q \<Rightarrow> 't"
    and view :: "'t \<Rightarrow> 's \<Rightarrow> 'v"
    and drawn :: "'q \<Rightarrow> 'i"
    and used :: "'s \<Rightarrow> 'i set"
  assumes inv_step: "inv s \<Longrightarrow> inv (snd (step q s))"
    and used_step: "inv s \<Longrightarrow> used (snd (step q s)) \<subseteq> insert (drawn q) (used s)"
    and own_view: "inv s \<Longrightarrow> inv s' \<Longrightarrow> view (owner q) s = view (owner q) s' \<Longrightarrow> drawn q \<notin> used s \<Longrightarrow> drawn q \<notin> used s'
       \<Longrightarrow> fst (step q s) = fst (step q s') \<and> view (owner q) (snd (step q s)) = view (owner q) (snd (step q s'))"
    and other_view: "inv s \<Longrightarrow> owner q \<noteq> t \<Longrightarrow> view t (snd (step q s)) = view t s"
begin

lemma purged_run:
  assumes "inv s" "inv s'" "view t s = view t s'" "distinct (map drawn qs)" "drawn ` set qs \<inter> (used s \<union> used s') = {}"
  shows "answers (\<lambda>q. owner q = t) qs (fst (run_calls step qs s)) = fst (run_calls step (filter (\<lambda>q. owner q = t) qs) s')
     \<and> view t (snd (run_calls step qs s)) = view t (snd (run_calls step (filter (\<lambda>q. owner q = t) qs) s'))"
  using assms
proof (induction qs arbitrary: s s')
  case (Cons q qs)
  have new: "drawn x \<noteq> drawn q \<and> drawn x \<notin> used s \<and> drawn x \<notin> used s'" if "x \<in> set qs" for x
    using imageI [OF that, of drawn] Cons.prems(4,5) by (auto simp del: imageI)
  have fresh: "drawn ` set qs \<inter> (used (snd (step q s)) \<union> used (snd (step q s'))) = {}"
    "drawn ` set qs \<inter> (used (snd (step q s)) \<union> used s') = {}"
    using new used_step [OF Cons.prems(1), of q] used_step [OF Cons.prems(2), of q] by blast+
  show ?case
  proof (cases "owner q = t")
    case True
    have o: "fst (step q s) = fst (step q s')" "view t (snd (step q s)) = view t (snd (step q s'))"
      using own_view [of s s' q] Cons.prems True by auto
    show ?thesis
      using Cons.IH [OF inv_step [OF Cons.prems(1), of q] inv_step [OF Cons.prems(2), of q] o(2) _ fresh(1)] Cons.prems(4) True o(1)
      by (simp add: run_calls_Cons_fst run_calls_Cons_snd del: run_calls.simps(2))
  next
    case False
    have o: "view t (snd (step q s)) = view t s'" using other_view [OF Cons.prems(1) False] Cons.prems(3) by simp
    show ?thesis
      using Cons.IH [OF inv_step [OF Cons.prems(1), of q] Cons.prems(2) o _ fresh(2)] Cons.prems(4) False
      by (simp add: run_calls_Cons_fst run_calls_Cons_snd del: run_calls.simps(2))
  qed
qed simp

lemma noninterference:
  assumes "inv s" "distinct (map drawn qs)" "drawn ` set qs \<inter> used s = {}"
  shows "answers (\<lambda>q. owner q = t) qs (fst (run_calls step qs s)) = fst (run_calls step (filter (\<lambda>q. owner q = t) qs) s)"
    and "view t (snd (run_calls step qs s)) = view t (snd (run_calls step (filter (\<lambda>q. owner q = t) qs) s))"
  using purged_run [OF assms(1,1) refl assms(2)] assms(3) by simp_all

end

end
