(* ===== verification/Enquiries.thy ===== *)
theory Enquiries
  imports Approvals_Api Isolation Py_Date Py_Decimal "HOL-Library.Sublist"
begin

text \<open>
  The enquiries surface, \<^verbatim>\<open>services/api/src/voyagent_api/enquiries.py\<close>, over the table of
  \<^verbatim>\<open>schemas/storage/enquiry.py\<close> and the sessions table of the conversation store. A route is an
  action on these tables; an exception rolls its transaction back. \<open>enq_serve\<close> is one request,
  \<open>enq_serve_all\<close> a list of them. Shown: the life cycle of an enquiry over any run, the isolation of
  tenants, and that promotion mints one session that the chat surface can read.
\<close>

datatype enquiry_status = EnqNew | EnqQuoted | EnqBooked | EnqCancelled

fun enquiry_status_value :: "enquiry_status \<Rightarrow> string" where
  "enquiry_status_value EnqNew = ''new''"
| "enquiry_status_value EnqQuoted = ''quoted''"
| "enquiry_status_value EnqBooked = ''booked''"
| "enquiry_status_value EnqCancelled = ''cancelled''"

record enquiry_row =
  eq_id :: uuid_int
  eq_tenant_id :: uuid_int
  eq_created_by_user_id :: uuid_int
  eq_customer_name :: string
  eq_customer_email :: "string option"
  eq_customer_phone :: "string option"
  eq_origin :: "string option"
  eq_destination :: "string option"
  eq_depart_date :: "py_date option"
  eq_return_date :: "py_date option"
  eq_pax_count :: int
  eq_budget_amount :: "decimal option"
  eq_budget_currency :: "string option"
  eq_status :: enquiry_status
  eq_notes :: "string option"
  eq_session_id :: "uuid_int option"
  eq_created_at :: int
  eq_updated_at :: int

text \<open>
  The tables. \<open>en_amount\<close> is what the numeric column keeps of the budget of a row that is written, \<open>None\<close>
  a row with a value that a column type refuses (an integer out of range, a number too large); \<open>en_tenant\<close> and
  \<open>en_user\<close> say which foreign keys exist.
\<close>

record enq_db =
  ed_rows :: "(uuid_int, enquiry_row) dict"
  ed_pg :: pg_db

record enq_env =
  en_amount :: "enquiry_row \<Rightarrow> decimal option option"
  en_tenant :: "uuid_int \<Rightarrow> bool"
  en_user :: "uuid_int \<Rightarrow> bool"

type_synonym 'a enq_act = "(http_error, enq_db, 'a) act"

definition server_error :: http_error where
  "server_error = HTTP 500 ''Internal Server Error''"

section \<open>Bodies and responses\<close>

definition TERMINAL_STATUSES :: "enquiry_status list" where
  "TERMINAL_STATUSES = [EnqBooked, EnqCancelled]"

definition OPEN_STATUSES :: "enquiry_status list" where
  "OPEN_STATUSES = [EnqNew, EnqQuoted]"

record enquiry_response =
  er_id :: string
  er_tenant_id :: string
  er_created_by_user_id :: string
  er_customer_name :: string
  er_customer_email :: "string option"
  er_customer_phone :: "string option"
  er_origin :: "string option"
  er_destination :: "string option"
  er_depart_date :: "py_date option"
  er_return_date :: "py_date option"
  er_pax_count :: int
  er_budget_amount :: "decimal option"
  er_budget_currency :: "string option"
  er_status :: string
  er_notes :: "string option"
  er_session_id :: "string option"
  er_created_at :: int
  er_updated_at :: int

record enquiry_list_response =
  ql_items :: "enquiry_response list"
  ql_total :: nat
  ql_limit :: int
  ql_offset :: int

record enquiry_create =
  ec_customer_name :: string
  ec_customer_email :: "string option"
  ec_customer_phone :: "string option"
  ec_origin :: "string option"
  ec_destination :: "string option"
  ec_depart_date :: "py_date option"
  ec_return_date :: "py_date option"
  ec_pax_count :: int
  ec_budget_amount :: "decimal option"
  ec_budget_currency :: "string option"
  ec_status :: enquiry_status
  ec_notes :: "string option"
  ec_session_id :: "string option"

text \<open>In a patch the outer option is \<^verbatim>\<open>model_fields_set\<close>: \<open>None\<close> is a field left out, \<open>Some None\<close> an explicit null.\<close>

record enquiry_patch =
  ep_customer_name :: "string option option"
  ep_customer_email :: "string option option"
  ep_customer_phone :: "string option option"
  ep_origin :: "string option option"
  ep_destination :: "string option option"
  ep_depart_date :: "py_date option option"
  ep_return_date :: "py_date option option"
  ep_pax_count :: "int option option"
  ep_budget_amount :: "decimal option option"
  ep_budget_currency :: "string option option"
  ep_status :: "enquiry_status option option"
  ep_notes :: "string option option"
  ep_session_id :: "string option option"

definition at_most :: "nat \<Rightarrow> string option \<Rightarrow> bool" where
  "at_most n s = (case s of None \<Rightarrow> True | Some x \<Rightarrow> length x \<le> n)"

definition name_length_ok :: "string \<Rightarrow> bool" where
  "name_length_ok s \<longleftrightarrow> 1 \<le> length s \<and> length s \<le> 255"

definition create_body_ok :: "enquiry_create \<Rightarrow> bool" where
  "create_body_ok b \<longleftrightarrow> name_length_ok (ec_customer_name b) \<and> at_most 255 (ec_customer_email b)
     \<and> at_most 64 (ec_customer_phone b) \<and> at_most 128 (ec_origin b) \<and> at_most 128 (ec_destination b)
     \<and> at_most 10000 (ec_notes b)"

definition given :: "'a option option \<Rightarrow> 'a option" where
  "given f = (case f of Some (Some x) \<Rightarrow> Some x | _ \<Rightarrow> None)"

definition patch_body_ok :: "enquiry_patch \<Rightarrow> bool" where
  "patch_body_ok b \<longleftrightarrow> (case given (ep_customer_name b) of None \<Rightarrow> True | Some n \<Rightarrow> name_length_ok n)
     \<and> at_most 255 (given (ep_customer_email b)) \<and> at_most 64 (given (ep_customer_phone b))
     \<and> at_most 128 (given (ep_origin b)) \<and> at_most 128 (given (ep_destination b)) \<and> at_most 10000 (given (ep_notes b))"

section \<open>Helpers\<close>

definition enq_tenant_uuid :: "principal \<Rightarrow> http_error + uuid_int" where
  "enq_tenant_uuid p = (case uuid_parse (pr_tenant_id p) of None \<Rightarrow> Inl (HTTP 401 ''unauthorized'') | Some t \<Rightarrow> Inr t)"

definition enq_user_uuid :: "principal \<Rightarrow> http_error + uuid_int" where
  "enq_user_uuid p = (case uuid_parse (pr_user_id p) of None \<Rightarrow> Inl (HTTP 401 ''unauthorized'') | Some t \<Rightarrow> Inr t)"

definition parse_enquiry_id :: "string \<Rightarrow> http_error + uuid_int" where
  "parse_enquiry_id raw = (case uuid_parse raw of None \<Rightarrow> Inl (HTTP 404 ''enquiry_not_found'') | Some i \<Rightarrow> Inr i)"

definition is_ascii_char :: "char \<Rightarrow> bool" where
  "is_ascii_char c \<longleftrightarrow> (of_char c :: nat) < 128"

text \<open>\<^verbatim>\<open>str.isupper\<close>: a cased character, and none in lower case.\<close>

definition py_isupper :: "string \<Rightarrow> bool" where
  "py_isupper s \<longleftrightarrow> list_ex is_upper_char s \<and> \<not> list_ex is_lower_char s"

definition currency_shape :: "string \<Rightarrow> bool" where
  "currency_shape code \<longleftrightarrow> \<not> (length code \<noteq> 3 \<or> \<not> list_all is_ascii_char code \<or> \<not> py_isupper code
     \<or> \<not> (code \<noteq> [] \<and> list_all is_alpha_char code))"

definition validate_currency :: "string option \<Rightarrow> http_error + unit" where
  "validate_currency code = guard_res (case code of None \<Rightarrow> True | Some c \<Rightarrow> currency_shape c) (HTTP 400 ''invalid_currency'')"

definition validate_date_range :: "py_date option \<Rightarrow> py_date option \<Rightarrow> http_error + unit" where
  "validate_date_range depart back = guard_res (case (depart, back) of (Some d, Some r) \<Rightarrow> \<not> date_less r d | _ \<Rightarrow> True)
     (HTTP 400 ''invalid_date_range'')"

definition validate_pax :: "int option \<Rightarrow> http_error + unit" where
  "validate_pax pax = guard_res (case pax of None \<Rightarrow> True | Some n \<Rightarrow> \<not> n < 1) (HTTP 400 ''invalid_pax_count'')"

definition validate_status_transition :: "enquiry_status \<Rightarrow> enquiry_status \<Rightarrow> http_error + unit" where
  "validate_status_transition existing new = guard_res (\<not> (existing \<in> set TERMINAL_STATUSES \<and> new \<in> set OPEN_STATUSES))
     (HTTP 400 ''invalid_status_transition'')"

definition enq_row_to_response :: "enquiry_row \<Rightarrow> enquiry_response" where
  "enq_row_to_response r = \<lparr>er_id = uuid_str (eq_id r), er_tenant_id = uuid_str (eq_tenant_id r),
     er_created_by_user_id = uuid_str (eq_created_by_user_id r), er_customer_name = eq_customer_name r,
     er_customer_email = eq_customer_email r, er_customer_phone = eq_customer_phone r, er_origin = eq_origin r,
     er_destination = eq_destination r, er_depart_date = eq_depart_date r, er_return_date = eq_return_date r,
     er_pax_count = eq_pax_count r, er_budget_amount = eq_budget_amount r, er_budget_currency = eq_budget_currency r,
     er_status = enquiry_status_value (eq_status r), er_notes = eq_notes r, er_session_id = map_option uuid_str (eq_session_id r),
     er_created_at = eq_created_at r, er_updated_at = eq_updated_at r\<rparr>"

definition parse_session_id_or_none :: "string option \<Rightarrow> http_error + uuid_int option" where
  "parse_session_id_or_none raw = (case raw of None \<Rightarrow> Inr None
     | Some s \<Rightarrow> (case uuid_parse s of None \<Rightarrow> Inl (HTTP 422 ''invalid_session_id'') | Some i \<Rightarrow> Inr (Some i)))"

section \<open>Routes\<close>

text \<open>Writing a row: the column types and the foreign key decide, and the stored row is read back.\<close>

definition enq_insert :: "enq_env \<Rightarrow> enquiry_row \<Rightarrow> enquiry_row enq_act" where
  "enq_insert env r =
     act_bind (act_some (en_amount env r) server_error) (\<lambda>a.
     act_bind (act_read (\<lambda>db. map_of (ed_rows db) (eq_id r))) (\<lambda>old.
     act_bind (act_guard (old = None \<and> en_tenant env (eq_tenant_id r)) server_error) (\<lambda>_.
     act_bind (act_update (\<lambda>db. db\<lparr>ed_rows := ed_rows db @ [(eq_id r, r\<lparr>eq_budget_amount := a\<rparr>)]\<rparr>)) (\<lambda>_.
       act_return (r\<lparr>eq_budget_amount := a\<rparr>)))))"

definition enq_save :: "enq_env \<Rightarrow> enquiry_row \<Rightarrow> enquiry_row enq_act" where
  "enq_save env r =
     act_bind (act_some (en_amount env r) server_error) (\<lambda>a.
     act_bind (act_update (\<lambda>db. db\<lparr>ed_rows := AList.update (eq_id r) (r\<lparr>eq_budget_amount := a\<rparr>) (ed_rows db)\<rparr>)) (\<lambda>_.
       act_return (r\<lparr>eq_budget_amount := a\<rparr>)))"

definition create_enquiry :: "enq_env \<Rightarrow> int \<Rightarrow> uuid_int \<Rightarrow> principal \<Rightarrow> enquiry_create \<Rightarrow> enquiry_response enq_act" where
  "create_enquiry env now i p b =
     act_bind (act_guard (create_body_ok b) (HTTP 422 ''body'')) (\<lambda>_.
     act_bind (act_lift (enq_tenant_uuid p)) (\<lambda>tenant.
     act_bind (act_lift (enq_user_uuid p)) (\<lambda>user.
     act_bind (act_lift (validate_currency (ec_budget_currency b))) (\<lambda>_.
     act_bind (act_lift (validate_date_range (ec_depart_date b) (ec_return_date b))) (\<lambda>_.
     act_bind (act_lift (validate_pax (Some (ec_pax_count b)))) (\<lambda>_.
     act_bind (act_lift (parse_session_id_or_none (ec_session_id b))) (\<lambda>sid.
     act_bind (enq_insert env \<lparr>eq_id = i, eq_tenant_id = tenant, eq_created_by_user_id = user,
         eq_customer_name = ec_customer_name b, eq_customer_email = ec_customer_email b, eq_customer_phone = ec_customer_phone b,
         eq_origin = ec_origin b, eq_destination = ec_destination b, eq_depart_date = ec_depart_date b,
         eq_return_date = ec_return_date b, eq_pax_count = ec_pax_count b, eq_budget_amount = ec_budget_amount b,
         eq_budget_currency = ec_budget_currency b, eq_status = ec_status b, eq_notes = ec_notes b, eq_session_id = sid,
         eq_created_at = now, eq_updated_at = now\<rparr>) (\<lambda>r.
       act_return (enq_row_to_response r)))))))))"

text \<open>
  SQL's \<^verbatim>\<open>ILIKE\<close>: a percent sign matches any text, an underscore one character, a backslash takes the
  next character literally. A null column matches nothing. (A pattern that ends in a single backslash is an error of the database;
  the routes put the term between two percent signs, so none of their patterns ends in one.)
\<close>

function like :: "string \<Rightarrow> string \<Rightarrow> bool" where
  "like [] s = (s = [])"
| "like (c # p) s =
     (if c = CHR ''%'' then like p s \<or> (case s of [] \<Rightarrow> False | x # t \<Rightarrow> like (c # p) t)
      else if c = CHR ''_'' then (case s of [] \<Rightarrow> False | x # t \<Rightarrow> like p t)
      else if c = CHR 0x5C then (case (p, s) of (d # p', x # t) \<Rightarrow> x = d \<and> like p' t | _ \<Rightarrow> False)
      else (case s of [] \<Rightarrow> False | x # t \<Rightarrow> x = c \<and> like p t))"
  by pat_completeness auto
termination by (relation "measure (\<lambda>(p, s). length p + length s)") auto

definition ilike :: "string option \<Rightarrow> string \<Rightarrow> bool" where
  "ilike col pat = (case col of None \<Rightarrow> False | Some s \<Rightarrow> like (py_lower pat) (py_lower s))"

record enquiry_query =
  qy_status :: "enquiry_status option"
  qy_limit :: int
  qy_offset :: int
  qy_q :: "string option"
  qy_customer_email :: "string option"
  qy_destination :: "string option"
  qy_origin :: "string option"
  qy_depart_from :: "py_date option"
  qy_depart_to :: "py_date option"
  qy_created_from :: "py_date option"
  qy_created_to :: "py_date option"

definition query_ok :: "enquiry_query \<Rightarrow> bool" where
  "query_ok q \<longleftrightarrow> 1 \<le> qy_limit q \<and> qy_limit q \<le> 500 \<and> 0 \<le> qy_offset q \<and> at_most 255 (qy_q q)
     \<and> at_most 255 (qy_customer_email q) \<and> at_most 128 (qy_destination q) \<and> at_most 128 (qy_origin q)"

text \<open>A filter that was not given, or given empty, lets every row through.\<close>

definition text_filter :: "string option \<Rightarrow> (string \<Rightarrow> bool) \<Rightarrow> bool" where
  "text_filter f matches = (case f of None \<Rightarrow> True | Some s \<Rightarrow> s = [] \<or> matches (''%'' @ s @ ''%''))"

definition date_filter :: "py_date option \<Rightarrow> (py_date \<Rightarrow> bool) \<Rightarrow> bool" where
  "date_filter f matches = (case f of None \<Rightarrow> True | Some d \<Rightarrow> matches d)"

definition enq_matches :: "enquiry_query \<Rightarrow> enquiry_row \<Rightarrow> bool" where
  "enq_matches q r \<longleftrightarrow>
     (case qy_status q of None \<Rightarrow> True | Some s \<Rightarrow> eq_status r = s)
     \<and> text_filter (qy_customer_email q) (ilike (eq_customer_email r))
     \<and> text_filter (qy_destination q) (ilike (eq_destination r))
     \<and> text_filter (qy_origin q) (ilike (eq_origin r))
     \<and> date_filter (qy_depart_from q) (\<lambda>d. case eq_depart_date r of None \<Rightarrow> False | Some x \<Rightarrow> \<not> date_less x d)
     \<and> date_filter (qy_depart_to q) (\<lambda>d. case eq_depart_date r of None \<Rightarrow> False | Some x \<Rightarrow> \<not> date_less d x)
     \<and> date_filter (qy_created_from q) (\<lambda>d. utc_midnight d \<le> eq_created_at r)
     \<and> date_filter (qy_created_to q) (\<lambda>d. eq_created_at r \<le> utc_midnight d + DAY_US - 1)
     \<and> text_filter (qy_q q) (\<lambda>pat. ilike (Some (eq_customer_name r)) pat \<or> ilike (eq_customer_email r) pat
          \<or> ilike (eq_customer_phone r) pat \<or> ilike (eq_origin r) pat \<or> ilike (eq_destination r) pat)"

definition range_ok :: "py_date option \<Rightarrow> py_date option \<Rightarrow> bool" where
  "range_ok a b = (case (a, b) of (Some x, Some y) \<Rightarrow> \<not> date_less y x | _ \<Rightarrow> True)"

text \<open>Rows with equal creation times come in table order; the database leaves that order open.\<close>

definition enq_selection :: "uuid_int \<Rightarrow> enquiry_query \<Rightarrow> enq_db \<Rightarrow> enquiry_row list" where
  "enq_selection tenant q db = sort_key (\<lambda>r. - eq_created_at r)
     (filter (\<lambda>r. eq_tenant_id r = tenant \<and> enq_matches q r) (dict_values (ed_rows db)))"

definition list_enquiries :: "principal \<Rightarrow> enquiry_query \<Rightarrow> enquiry_list_response enq_act" where
  "list_enquiries p q =
     act_bind (act_guard (query_ok q) (HTTP 422 ''query'')) (\<lambda>_.
     act_bind (act_lift (enq_tenant_uuid p)) (\<lambda>tenant.
     act_bind (act_guard (range_ok (qy_depart_from q) (qy_depart_to q)) (HTTP 422 ''invalid_depart_range'')) (\<lambda>_.
     act_bind (act_guard (range_ok (qy_created_from q) (qy_created_to q)) (HTTP 422 ''invalid_created_range'')) (\<lambda>_.
     act_bind (act_read (enq_selection tenant q)) (\<lambda>rows.
       act_return \<lparr>ql_items = map enq_row_to_response (take (nat (qy_limit q)) (drop (nat (qy_offset q)) rows)),
         ql_total = length rows, ql_limit = qy_limit q, ql_offset = qy_offset q\<rparr>)))))"

definition load_owned_enquiry :: "uuid_int \<Rightarrow> uuid_int \<Rightarrow> enquiry_row enq_act" where
  "load_owned_enquiry i tenant =
     act_bind (act_read (\<lambda>db. map_of (ed_rows db) i)) (\<lambda>found.
       case found of None \<Rightarrow> act_raise (HTTP 404 ''enquiry_not_found'')
       | Some r \<Rightarrow> if eq_tenant_id r = tenant then act_return r else act_raise (HTTP 404 ''enquiry_not_found''))"

definition get_enquiry :: "principal \<Rightarrow> string \<Rightarrow> enquiry_response enq_act" where
  "get_enquiry p raw =
     act_bind (act_lift (enq_tenant_uuid p)) (\<lambda>tenant.
     act_bind (act_lift (parse_enquiry_id raw)) (\<lambda>i.
     act_bind (load_owned_enquiry i tenant) (\<lambda>r. act_return (enq_row_to_response r))))"

definition final_of :: "'a option \<Rightarrow> 'a \<Rightarrow> 'a" where
  "final_of f old = (case f of None \<Rightarrow> old | Some v \<Rightarrow> v)"

definition patch_status :: "enquiry_patch \<Rightarrow> enquiry_row \<Rightarrow> http_error + enquiry_row" where
  "patch_status b r = (case ep_status b of None \<Rightarrow> Inr r
     | Some None \<Rightarrow> Inl (HTTP 422 ''status_cannot_be_null'')
     | Some (Some new) \<Rightarrow> bind_res (validate_status_transition (eq_status r) new) (\<lambda>_. Inr (r\<lparr>eq_status := new\<rparr>)))"

text \<open>The columns of \<^verbatim>\<open>simple_fields\<close>, in their order; the name comes before the passenger count.\<close>

definition patch_fields :: "enquiry_patch \<Rightarrow> enquiry_row \<Rightarrow> http_error + enquiry_row" where
  "patch_fields b r =
     bind_res (guard_res (ep_customer_name b \<noteq> Some None) (HTTP 422 ''customer_name_cannot_be_null'')) (\<lambda>_.
     bind_res (guard_res (ep_pax_count b \<noteq> Some None) (HTTP 422 ''pax_count_cannot_be_null'')) (\<lambda>_.
       Inr (r\<lparr>eq_customer_name := (case given (ep_customer_name b) of None \<Rightarrow> eq_customer_name r | Some n \<Rightarrow> n),
              eq_customer_email := final_of (ep_customer_email b) (eq_customer_email r),
              eq_customer_phone := final_of (ep_customer_phone b) (eq_customer_phone r),
              eq_origin := final_of (ep_origin b) (eq_origin r),
              eq_destination := final_of (ep_destination b) (eq_destination r),
              eq_depart_date := final_of (ep_depart_date b) (eq_depart_date r),
              eq_return_date := final_of (ep_return_date b) (eq_return_date r),
              eq_pax_count := (case given (ep_pax_count b) of None \<Rightarrow> eq_pax_count r | Some n \<Rightarrow> n),
              eq_budget_amount := final_of (ep_budget_amount b) (eq_budget_amount r),
              eq_budget_currency := final_of (ep_budget_currency b) (eq_budget_currency r),
              eq_notes := final_of (ep_notes b) (eq_notes r)\<rparr>)))"

definition patch_session :: "enquiry_patch \<Rightarrow> enquiry_row \<Rightarrow> http_error + enquiry_row" where
  "patch_session b r = (case ep_session_id b of None \<Rightarrow> Inr r
     | Some v \<Rightarrow> bind_res (parse_session_id_or_none v) (\<lambda>sid. Inr (r\<lparr>eq_session_id := sid\<rparr>)))"

definition patched_row :: "enquiry_patch \<Rightarrow> enquiry_row \<Rightarrow> http_error + enquiry_row" where
  "patched_row b r =
     bind_res (validate_currency (final_of (ep_budget_currency b) (eq_budget_currency r))) (\<lambda>_.
     bind_res (validate_date_range (final_of (ep_depart_date b) (eq_depart_date r)) (final_of (ep_return_date b) (eq_return_date r))) (\<lambda>_.
     bind_res (validate_pax (final_of (ep_pax_count b) (Some (eq_pax_count r)))) (\<lambda>_.
     bind_res (patch_status b r) (\<lambda>r1.
     bind_res (patch_fields b r1) (patch_session b)))))"

text \<open>
  \<^verbatim>\<open>updated_at\<close> is declared with \<^verbatim>\<open>server_onupdate\<close>, for which no trigger exists: an update leaves it
  alone.
\<close>

definition patch_enquiry :: "enq_env \<Rightarrow> principal \<Rightarrow> string \<Rightarrow> enquiry_patch \<Rightarrow> enquiry_response enq_act" where
  "patch_enquiry env p raw b =
     act_bind (act_guard (patch_body_ok b) (HTTP 422 ''body'')) (\<lambda>_.
     act_bind (act_lift (enq_tenant_uuid p)) (\<lambda>tenant.
     act_bind (act_lift (parse_enquiry_id raw)) (\<lambda>i.
     act_bind (load_owned_enquiry i tenant) (\<lambda>r.
     act_bind (act_lift (patched_row b r)) (\<lambda>r'.
     act_bind (enq_save env r') (\<lambda>r''.
       act_return (enq_row_to_response r'')))))))"

definition new_session_row :: "int \<Rightarrow> uuid_int \<Rightarrow> uuid_int \<Rightarrow> uuid_int \<Rightarrow> session_row" where
  "new_session_row now i tenant user = \<lparr>sr_id = uuid_str i, sr_tenant_id = uuid_str tenant, sr_actor_id = Some (uuid_str user),
     sr_actor_kind = HUMAN, sr_title = None, sr_created_at = now, sr_updated_at = now\<rparr>"

definition mint_session :: "enq_env \<Rightarrow> int \<Rightarrow> uuid_int \<Rightarrow> uuid_int \<Rightarrow> uuid_int \<Rightarrow> unit enq_act" where
  "mint_session env now i tenant user =
     act_bind (act_read (\<lambda>db. map_of (db_sessions (ed_pg db)) (uuid_str i))) (\<lambda>old.
     act_bind (act_guard (old = None \<and> en_tenant env tenant \<and> en_user env user) server_error) (\<lambda>_.
       act_update (\<lambda>db. db\<lparr>ed_pg := (ed_pg db)\<lparr>db_sessions := db_sessions (ed_pg db) @ [(uuid_str i, new_session_row now i tenant user)]\<rparr>\<rparr>)))"

text \<open>The link is a single column, so saving the promoted row writes no value the columns could refuse.\<close>

definition promote_to_session :: "enq_env \<Rightarrow> int \<Rightarrow> uuid_int \<Rightarrow> principal \<Rightarrow> string \<Rightarrow> (enquiry_response \<times> string) enq_act" where
  "promote_to_session env now i p raw =
     act_bind (act_lift (enq_tenant_uuid p)) (\<lambda>tenant.
     act_bind (act_lift (enq_user_uuid p)) (\<lambda>user.
     act_bind (act_lift (parse_enquiry_id raw)) (\<lambda>eid.
     act_bind (load_owned_enquiry eid tenant) (\<lambda>r.
       case eq_session_id r of Some sid \<Rightarrow> act_return (enq_row_to_response r, uuid_str sid)
       | None \<Rightarrow>
           act_bind (mint_session env now i tenant user) (\<lambda>_.
           act_bind (act_update (\<lambda>db. db\<lparr>ed_rows := AList.update eid (r\<lparr>eq_session_id := Some i\<rparr>) (ed_rows db)\<rparr>)) (\<lambda>_.
             act_return (enq_row_to_response (r\<lparr>eq_session_id := Some i\<rparr>), uuid_str i)))))))"

section \<open>Requests\<close>

datatype enq_request =
    CreateEnquiry enquiry_create
  | ListEnquiries enquiry_query
  | GetEnquiry string
  | PatchEnquiry string enquiry_patch
  | PromoteEnquiry string

datatype enq_reply =
    Enquiry enquiry_response
  | EnquiryList enquiry_list_response
  | Promoted enquiry_response string

text \<open>A request comes with the time, the identifier drawn for a new row, and the caller.\<close>

record enq_call =
  cl_now :: int
  cl_id :: uuid_int
  cl_principal :: principal
  cl_request :: enq_request

definition act_map :: "('a \<Rightarrow> 'b) \<Rightarrow> 'a enq_act \<Rightarrow> 'b enq_act" where
  "act_map f m = act_bind m (\<lambda>x. act_return (f x))"

definition enq_serve :: "enq_env \<Rightarrow> enq_call \<Rightarrow> enq_reply enq_act" where
  "enq_serve env c = (case cl_request c of
      CreateEnquiry b \<Rightarrow> act_map Enquiry (create_enquiry env (cl_now c) (cl_id c) (cl_principal c) b)
    | ListEnquiries q \<Rightarrow> act_map EnquiryList (list_enquiries (cl_principal c) q)
    | GetEnquiry raw \<Rightarrow> act_map Enquiry (get_enquiry (cl_principal c) raw)
    | PatchEnquiry raw b \<Rightarrow> act_map Enquiry (patch_enquiry env (cl_principal c) raw b)
    | PromoteEnquiry raw \<Rightarrow> act_map (\<lambda>(e, s). Promoted e s) (promote_to_session env (cl_now c) (cl_id c) (cl_principal c) raw))"

section \<open>What a request changes\<close>

definition enq_owner :: "enq_call \<Rightarrow> uuid_int option" where
  "enq_owner c = uuid_parse (pr_tenant_id (cl_principal c))"

definition enq_valid :: "enquiry_row \<Rightarrow> bool" where
  "enq_valid r \<longleftrightarrow> name_length_ok (eq_customer_name r) \<and> 1 \<le> eq_pax_count r
     \<and> (case eq_budget_currency r of None \<Rightarrow> True | Some c \<Rightarrow> currency_shape c)
     \<and> (case (eq_depart_date r, eq_return_date r) of (Some d, Some b) \<Rightarrow> \<not> date_less b d | _ \<Rightarrow> True)"

definition enq_terminal :: "enquiry_row \<Rightarrow> bool" where
  "enq_terminal r \<longleftrightarrow> eq_status r \<in> set TERMINAL_STATUSES"

definition same_enquiry :: "enquiry_row \<Rightarrow> enquiry_row \<Rightarrow> bool" where
  "same_enquiry r r' \<longleftrightarrow> eq_id r' = eq_id r \<and> eq_tenant_id r' = eq_tenant_id r
     \<and> eq_created_by_user_id r' = eq_created_by_user_id r \<and> eq_created_at r' = eq_created_at r
     \<and> (enq_terminal r \<longrightarrow> enq_terminal r') \<and> (enq_valid r \<longrightarrow> enq_valid r')"

text \<open>Every request leaves the tables alone, adds one valid row, rewrites one row of the caller's tenant, or links it.\<close>

inductive enq_change :: "enq_call \<Rightarrow> enq_db \<Rightarrow> enq_db \<Rightarrow> bool" where
  same: "enq_change c db db"
| created: "enq_owner c = Some (eq_tenant_id r) \<Longrightarrow> eq_id r = cl_id c \<Longrightarrow> enq_valid r \<Longrightarrow> map_of (ed_rows db) (cl_id c) = None
    \<Longrightarrow> enq_change c db (db\<lparr>ed_rows := ed_rows db @ [(cl_id c, r)]\<rparr>)"
| rewritten: "map_of (ed_rows db) i = Some r \<Longrightarrow> enq_owner c = Some (eq_tenant_id r) \<Longrightarrow> same_enquiry r r'
    \<Longrightarrow> enq_change c db (db\<lparr>ed_rows := AList.update (eq_id r) r' (ed_rows db)\<rparr>)"
| promoted: "map_of (ed_rows db) i = Some r \<Longrightarrow> enq_owner c = Some (eq_tenant_id r)
    \<Longrightarrow> map_of (db_sessions (ed_pg db)) (uuid_str (cl_id c)) = None
    \<Longrightarrow> enq_change c db (db\<lparr>ed_pg := (ed_pg db)\<lparr>db_sessions := db_sessions (ed_pg db)
            @ [(uuid_str (cl_id c), new_session_row now (cl_id c) (eq_tenant_id r) user)]\<rparr>,
          ed_rows := AList.update i (r\<lparr>eq_session_id := Some (cl_id c)\<rparr>) (ed_rows db)\<rparr>)"

lemmas validations = validate_currency_def validate_date_range_def validate_pax_def validate_status_transition_def

lemma patch_status_Inr:
  assumes "patch_status b r = Inr r1"
  shows "r1 = r\<lparr>eq_status := eq_status r1\<rparr> \<and> (enq_terminal r \<longrightarrow> enq_terminal r1)"
  using assms by (cases "eq_status r")
    (auto simp: patch_status_def validate_status_transition_def res_simps enq_terminal_def TERMINAL_STATUSES_def OPEN_STATUSES_def
      split: option.split_asm intro: enquiry_status.exhaust [of "eq_status r1"])

lemma patch_session_Inr: "patch_session b r = Inr r1 \<Longrightarrow> r1 = r\<lparr>eq_session_id := eq_session_id r1\<rparr>"
  by (auto simp: patch_session_def res_simps split: option.split_asm)

lemma patch_fields_Inr:
  assumes "patch_fields b r = Inr r1"
  shows "eq_id r1 = eq_id r" "eq_tenant_id r1 = eq_tenant_id r" "eq_created_by_user_id r1 = eq_created_by_user_id r"
    "eq_created_at r1 = eq_created_at r" "eq_status r1 = eq_status r"
    "eq_depart_date r1 = final_of (ep_depart_date b) (eq_depart_date r)" "eq_return_date r1 = final_of (ep_return_date b) (eq_return_date r)"
    "eq_budget_currency r1 = final_of (ep_budget_currency b) (eq_budget_currency r)"
    "eq_customer_name r1 = (case given (ep_customer_name b) of None \<Rightarrow> eq_customer_name r | Some n \<Rightarrow> n)"
    "final_of (ep_pax_count b) (Some (eq_pax_count r)) = Some (eq_pax_count r1)"
proof -
  have r1: "r1 = r\<lparr>eq_customer_name := (case given (ep_customer_name b) of None \<Rightarrow> eq_customer_name r | Some n \<Rightarrow> n),
      eq_customer_email := eq_customer_email r1, eq_customer_phone := eq_customer_phone r1, eq_origin := eq_origin r1,
      eq_destination := eq_destination r1, eq_depart_date := final_of (ep_depart_date b) (eq_depart_date r),
      eq_return_date := final_of (ep_return_date b) (eq_return_date r),
      eq_pax_count := (case given (ep_pax_count b) of None \<Rightarrow> eq_pax_count r | Some n \<Rightarrow> n), eq_budget_amount := eq_budget_amount r1,
      eq_budget_currency := final_of (ep_budget_currency b) (eq_budget_currency r), eq_notes := eq_notes r1\<rparr>"
    and pax: "ep_pax_count b \<noteq> Some None"
    using assms by (auto simp: patch_fields_def res_simps)
  show "eq_id r1 = eq_id r" "eq_tenant_id r1 = eq_tenant_id r" "eq_created_by_user_id r1 = eq_created_by_user_id r"
    "eq_created_at r1 = eq_created_at r" "eq_status r1 = eq_status r"
    "eq_depart_date r1 = final_of (ep_depart_date b) (eq_depart_date r)" "eq_return_date r1 = final_of (ep_return_date b) (eq_return_date r)"
    "eq_budget_currency r1 = final_of (ep_budget_currency b) (eq_budget_currency r)"
    "eq_customer_name r1 = (case given (ep_customer_name b) of None \<Rightarrow> eq_customer_name r | Some n \<Rightarrow> n)"
    by (subst r1, simp)+
  show "final_of (ep_pax_count b) (Some (eq_pax_count r)) = Some (eq_pax_count r1)"
    using pax by (subst r1) (auto simp: final_of_def given_def split: option.splits)
qed

lemma patched_row_same:
  assumes "patched_row b r = Inr r'" "patch_body_ok b"
  shows "same_enquiry r (r'\<lparr>eq_budget_amount := a\<rparr>) \<and> eq_id r' = eq_id r"
proof -
  obtain r1 r2 where p: "patch_status b r = Inr r1" "patch_fields b r1 = Inr r2" "patch_session b r2 = Inr r'"
    and v: "validate_currency (final_of (ep_budget_currency b) (eq_budget_currency r)) = Inr ()"
      "validate_date_range (final_of (ep_depart_date b) (eq_depart_date r)) (final_of (ep_return_date b) (eq_return_date r)) = Inr ()"
      "validate_pax (final_of (ep_pax_count b) (Some (eq_pax_count r))) = Inr ()"
    using assms(1) by (auto simp: patched_row_def res_simps)
  note f = patch_status_Inr [OF p(1)] patch_fields_Inr [OF p(2)] patch_session_Inr [OF p(3)]
  have old: "eq_depart_date r1 = eq_depart_date r" "eq_return_date r1 = eq_return_date r" "eq_pax_count r1 = eq_pax_count r"
    "eq_budget_currency r1 = eq_budget_currency r" "eq_customer_name r1 = eq_customer_name r" "eq_id r1 = eq_id r"
    "eq_tenant_id r1 = eq_tenant_id r" "eq_created_by_user_id r1 = eq_created_by_user_id r" "eq_created_at r1 = eq_created_at r"
    by (subst f(1) [THEN conjunct1], simp)+
  have new: "eq_depart_date r' = eq_depart_date r2" "eq_return_date r' = eq_return_date r2" "eq_pax_count r' = eq_pax_count r2"
    "eq_budget_currency r' = eq_budget_currency r2" "eq_customer_name r' = eq_customer_name r2" "eq_id r' = eq_id r2"
    "eq_tenant_id r' = eq_tenant_id r2" "eq_created_by_user_id r' = eq_created_by_user_id r2" "eq_created_at r' = eq_created_at r2"
    "eq_status r' = eq_status r2"
    by (subst patch_session_Inr [OF p(3)], simp)+
  have pax: "1 \<le> eq_pax_count r2" using v(3) f(11) old(3) by (simp add: validate_pax_def res_simps)
  have name: "name_length_ok (eq_customer_name r) \<longrightarrow> name_length_ok (eq_customer_name r2)"
    using assms(2) by (auto simp: f(10) old patch_body_ok_def split: option.splits)
  have "enq_valid r \<longrightarrow> enq_valid (r'\<lparr>eq_budget_amount := a\<rparr>)"
    using pax name v(1,2) by (simp add: enq_valid_def new f(7-9) old validations res_simps)
  moreover have "enq_terminal r \<longrightarrow> enq_terminal (r'\<lparr>eq_budget_amount := a\<rparr>)"
    using f(1) by (simp add: enq_terminal_def new f(6))
  ultimately show ?thesis by (simp add: same_enquiry_def new f(2-5) old)
qed

lemma enq_tenant_owner: "enq_tenant_uuid p = Inr t \<longleftrightarrow> uuid_parse (pr_tenant_id p) = Some t"
  by (auto simp: enq_tenant_uuid_def split: option.splits)

lemma load_owned_Inr: "load_owned_enquiry i t db = (Inr r, db') \<longleftrightarrow> db' = db \<and> map_of (ed_rows db) i = Some r \<and> eq_tenant_id r = t"
  by (auto simp: load_owned_enquiry_def act_simps split: option.splits if_splits)

lemma load_owned_frame: "load_owned_enquiry i t db = (x, db') \<Longrightarrow> db' = db"
  by (auto simp: load_owned_enquiry_def act_eval split: option.splits if_splits)

lemma load_owned_bind:
  "act_bind (load_owned_enquiry i t) f db = (case map_of (ed_rows db) i of None \<Rightarrow> (Inl (HTTP 404 ''enquiry_not_found''), db)
     | Some r \<Rightarrow> if eq_tenant_id r = t then f r db else (Inl (HTTP 404 ''enquiry_not_found''), db))"
  by (simp add: load_owned_enquiry_def act_steps split: option.split)

lemmas enq_steps = act_steps load_owned_bind act_return_def enq_save_def mint_session_def enq_insert_def

lemma act_map_Inr: "act_map f m db = (Inr y, db') \<longleftrightarrow> (\<exists>x. m db = (Inr x, db') \<and> y = f x)"
  by (auto simp: act_map_def act_simps)

lemma act_map_eval: "act_map f m db = (case fst (m db) of Inl e \<Rightarrow> Inl e | Inr x \<Rightarrow> Inr (f x), snd (m db))"
  by (auto simp: act_map_def act_eval split: prod.splits sum.splits)

lemma create_changes:
  assumes "create_enquiry env now (cl_id c) (cl_principal c) b db = (x, db')"
  shows "enq_change c db db'"
proof (cases "db' = db")
  case False
  then show ?thesis using assms
    by (auto simp: create_enquiry_def enq_steps enq_tenant_owner validations res_simps create_body_ok_def
        enq_owner_def split: if_splits sum.split_asm option.split_asm intro!: enq_change.created)
       (auto simp: enq_valid_def)
qed (simp add: enq_change.same)

lemma patch_changes:
  assumes "patch_enquiry env (cl_principal c) raw b db = (x, db')"
  shows "enq_change c db db'"
proof (cases "db' = db")
  case False
  then obtain t i r r' a where "enq_tenant_uuid (cl_principal c) = Inr t" "map_of (ed_rows db) i = Some r" "eq_tenant_id r = t"
    "patched_row b r = Inr r'" "patch_body_ok b" "db' = db\<lparr>ed_rows := AList.update (eq_id r') (r'\<lparr>eq_budget_amount := a\<rparr>) (ed_rows db)\<rparr>"
    using assms
    by (auto simp: patch_enquiry_def enq_steps
        split: if_splits sum.split_asm option.split_asm)
  then show ?thesis using patched_row_same [of b r r'] by (auto simp: enq_tenant_owner enq_owner_def intro!: enq_change.rewritten)
qed (simp add: enq_change.same)

lemma promote_changes:
  assumes "promote_to_session env now (cl_id c) (cl_principal c) raw db = (x, db')"
  shows "enq_change c db db'"
proof (cases "db' = db")
  case False
  then obtain t user i r where "enq_tenant_uuid (cl_principal c) = Inr t" "map_of (ed_rows db) i = Some r" "eq_tenant_id r = t"
    "map_of (db_sessions (ed_pg db)) (uuid_str (cl_id c)) = None"
    "db' = db\<lparr>ed_pg := (ed_pg db)\<lparr>db_sessions := db_sessions (ed_pg db)
         @ [(uuid_str (cl_id c), new_session_row now (cl_id c) t user)]\<rparr>,
       ed_rows := AList.update i (r\<lparr>eq_session_id := Some (cl_id c)\<rparr>) (ed_rows db)\<rparr>"
    using assms
    by (auto simp: promote_to_session_def enq_steps split: if_splits sum.split_asm option.split_asm)
  then show ?thesis by (auto simp: enq_tenant_owner enq_owner_def intro!: enq_change.promoted)
qed (simp add: enq_change.same)

lemma reads_change_nothing:
  "snd (list_enquiries p q db) = db" "snd (get_enquiry p raw db) = db"
  by (auto simp: list_enquiries_def get_enquiry_def enq_steps
      split: sum.split option.split)

lemma enq_serve_change: "enq_serve env c db = (x, db') \<Longrightarrow> enq_change c db db'"
  by (cases "cl_request c")
     (auto simp: enq_serve_def act_map_eval surjective_pairing [symmetric] prod_eq_iff
         reads_change_nothing intro: create_changes patch_changes promote_changes enq_change.same)


section \<open>Invariants\<close>

definition enq_wf :: "enq_db \<Rightarrow> bool" where
  "enq_wf db \<longleftrightarrow> wf_dict (ed_rows db) \<and> (\<forall>i r. map_of (ed_rows db) i = Some r \<longrightarrow> eq_id r = i)"

lemma dict_snoc_get: "map_of (d @ [(k, v)]) i = (case map_of d i of None \<Rightarrow> if i = k then Some v else None | Some x \<Rightarrow> Some x)"
  by (simp add: map_add_def split: option.split)

lemma dict_snoc_wf: "wf_dict d \<Longrightarrow> map_of d k = None \<Longrightarrow> wf_dict (d @ [(k, v)])"
  by (simp add: wf_dict_def map_of_eq_None_iff)

lemma same_enquiry_link: "same_enquiry r (r\<lparr>eq_session_id := s\<rparr>)"
  by (simp add: same_enquiry_def enq_terminal_def enq_valid_def split: option.split)

lemma enq_rows_after:
  assumes "enq_change c db db'" "enq_wf db"
  shows "enq_wf db' \<and> (\<forall>i r. map_of (ed_rows db) i = Some r \<longrightarrow> (\<exists>r'. map_of (ed_rows db') i = Some r' \<and> same_enquiry r r'
       \<and> (r' \<noteq> r \<longrightarrow> enq_owner c = Some (eq_tenant_id r))))
     \<and> (\<forall>i r'. map_of (ed_rows db) i = None \<and> map_of (ed_rows db') i = Some r' \<longrightarrow> enq_valid r' \<and> enq_owner c = Some (eq_tenant_id r'))"
  using assms
proof cases
  case same
  then show ?thesis using assms(2) by (auto simp: same_enquiry_def)
next
  case (created r)
  have "wf_dict (ed_rows db @ [(cl_id c, r)])" using created assms(2) by (simp add: enq_wf_def dict_snoc_wf)
  then show ?thesis using created assms(2)
    by (auto simp: enq_wf_def dict_snoc_get same_enquiry_def split: option.splits if_splits)
next
  case (rewritten i r r')
  then have "eq_id r = i" using assms(2) by (auto simp: enq_wf_def)
  then show ?thesis using rewritten assms(2)
    by (auto simp: enq_wf_def dict_update_get same_enquiry_def)
next
  case (promoted i r now user)
  then show ?thesis using assms(2) same_enquiry_link [of r "Some (cl_id c)"]
    by (auto simp: enq_wf_def dict_update_get) (auto simp: same_enquiry_def)
qed


lemma enq_serve_wf: "enq_wf db \<Longrightarrow> enq_wf (snd (enq_serve env c db))"
  using enq_rows_after [OF enq_serve_change [OF surjective_pairing]] by blast

text \<open>Claim C20. Over any run of requests an enquiry is never lost and keeps its tenant, its author and its
  creation time; once booked or cancelled it never becomes new or quoted again; (from one of these
  to the other it may go, and from the open ones anywhere); it changes only through requests of its own tenant; and every enquiry of the run is valid, if those before it were: it has a name, a
  passenger or more, a well-shaped currency and no return before its departure.
\<close>
theorem enquiry_lifecycle:
  assumes "enq_wf db"
  shows "(\<forall>i r. map_of (ed_rows db) i = Some r \<longrightarrow> (\<exists>r'. map_of (ed_rows (snd (run_calls (enq_serve env) cs db))) i = Some r' \<and> same_enquiry r r'
            \<and> (r' \<noteq> r \<longrightarrow> (\<exists>c\<in>set cs. enq_owner c = Some (eq_tenant_id r)))))
     \<and> ((\<forall>i r. map_of (ed_rows db) i = Some r \<longrightarrow> enq_valid r)
          \<longrightarrow> (\<forall>i r. map_of (ed_rows (snd (run_calls (enq_serve env) cs db))) i = Some r \<longrightarrow> enq_valid r))"
  using assms
proof (induction cs arbitrary: db)
  case Nil
  then show ?case by (auto simp: same_enquiry_def)
next
  case (Cons c cs)
  let ?db = "snd (enq_serve env c db)"
  have step: "enq_change c db ?db" by (rule enq_serve_change [OF surjective_pairing])
  have wf: "enq_wf ?db" by (rule enq_serve_wf [OF Cons.prems])
  note after = enq_rows_after [OF step Cons.prems]
  have one: "\<exists>r'. map_of (ed_rows (snd (run_calls (enq_serve env) cs ?db))) i = Some r' \<and> same_enquiry r r'
      \<and> (r' \<noteq> r \<longrightarrow> (\<exists>c\<in>set (c # cs). enq_owner c = Some (eq_tenant_id r)))" if old: "map_of (ed_rows db) i = Some r" for i r
  proof -
    obtain r1 where r1: "map_of (ed_rows ?db) i = Some r1" "same_enquiry r r1" "r1 \<noteq> r \<longrightarrow> enq_owner c = Some (eq_tenant_id r)"
      using after old by blast
    obtain r2 where "map_of (ed_rows (snd (run_calls (enq_serve env) cs ?db))) i = Some r2" "same_enquiry r1 r2"
      "r2 \<noteq> r1 \<longrightarrow> (\<exists>c\<in>set cs. enq_owner c = Some (eq_tenant_id r1))"
      using Cons.IH [OF wf] r1(1) by blast
    moreover have "same_enquiry r r2" "eq_tenant_id r1 = eq_tenant_id r"
      using r1(2) \<open>same_enquiry r1 r2\<close> by (auto simp: same_enquiry_def)
    ultimately show ?thesis using r1(3) by auto
  qed
  have valid: "enq_valid r'" if "\<forall>i r. map_of (ed_rows db) i = Some r \<longrightarrow> enq_valid r" "map_of (ed_rows ?db) i = Some r'" for i r'
  proof (cases "map_of (ed_rows db) i")
    case (Some r)
    then have "same_enquiry r r'" using after that(2) by fastforce
    then show ?thesis using that(1) Some by (auto simp: same_enquiry_def)
  qed (use after that in blast)
  show ?case unfolding run_calls_Cons_snd using one valid Cons.IH [OF wf] by blast
qed


section \<open>Isolation\<close>

definition tenant_rows :: "uuid_int \<Rightarrow> enq_db \<Rightarrow> (uuid_int, enquiry_row) dict" where
  "tenant_rows t db = filter (\<lambda>(k, r). eq_tenant_id r = t) (ed_rows db)"

definition tenant_sessions :: "uuid_int \<Rightarrow> enq_db \<Rightarrow> (string, session_row) dict" where
  "tenant_sessions t db = filter (\<lambda>(k, s). sr_tenant_id s = uuid_str t) (db_sessions (ed_pg db))"

definition enq_view :: "uuid_int option \<Rightarrow> enq_db \<Rightarrow> (uuid_int, enquiry_row) dict \<times> (string, session_row) dict" where
  "enq_view t db = (case t of None \<Rightarrow> ([], []) | Some i \<Rightarrow> (tenant_rows i db, tenant_sessions i db))"

definition enq_used :: "enq_db \<Rightarrow> uuid_int set" where
  "enq_used db = {i. i \<in> fst ` set (ed_rows db) \<or> uuid_str i \<in> fst ` set (db_sessions (ed_pg db))}"

lemma uuid_str_inject [simp]: "uuid_str i = uuid_str j \<longleftrightarrow> i = j"
  by (metis uuid_parse_str option.inject)

lemma filter_update:
  assumes "wf_dict d" "map_of d k = Some v" "P (k, v) \<longleftrightarrow> P (k, v')"
  shows "filter P (AList.update k v' d) = (if P (k, v) then AList.update k v' (filter P d) else filter P d)"
  using assms
proof (induction d)
  case (Cons x d)
  then show ?case by (cases x) (auto simp: wf_dict_def split: if_splits)
qed simp

lemma filter_get: "wf_dict d \<Longrightarrow> map_of (filter (\<lambda>(k, v). P v) d) i = (case map_of d i of None \<Rightarrow> None | Some v \<Rightarrow> if P v then Some v else None)"
  by (induction d) (auto simp: wf_dict_def image_iff split: option.splits)

lemma tenant_rows_get:
  "enq_wf db \<Longrightarrow> map_of (tenant_rows t db) i = (case map_of (ed_rows db) i of None \<Rightarrow> None | Some r \<Rightarrow> if eq_tenant_id r = t then Some r else None)"
  unfolding enq_wf_def tenant_rows_def by (blast intro: filter_get)

lemma load_owned_view:
  "enq_wf db \<Longrightarrow> act_bind (load_owned_enquiry i t) f db
     = (case map_of (tenant_rows t db) i of None \<Rightarrow> (Inl (HTTP 404 ''enquiry_not_found''), db) | Some r \<Rightarrow> f r db)"
  by (auto simp: load_owned_bind tenant_rows_get split: option.split)

lemma selection_view:
  "enq_selection t q db = sort_key (\<lambda>r. - eq_created_at r) (filter (enq_matches q) (dict_values (tenant_rows t db)))"
proof -
  have "filter (\<lambda>r. eq_tenant_id r = t \<and> enq_matches q r) (dict_values d)
      = filter (enq_matches q) (dict_values (filter (\<lambda>(k, r). eq_tenant_id r = t) d))" for d :: "(uuid_int, enquiry_row) dict"
    by (induction d) (auto simp: dict_values_def)
  then show ?thesis by (simp add: enq_selection_def tenant_rows_def)
qed

lemma tenant_rows_update:
  assumes "enq_wf db" "map_of (tenant_rows t db) k = Some r" "eq_tenant_id r' = t"
  shows "tenant_rows t (db\<lparr>ed_rows := AList.update k r' (ed_rows db)\<rparr>) = AList.update k r' (tenant_rows t db)"
proof -
  have "map_of (ed_rows db) k = Some r" "eq_tenant_id r = t" using assms(1,2) by (auto simp: tenant_rows_get split: option.splits if_splits)
  then show ?thesis using assms filter_update [of "ed_rows db" k r "\<lambda>(k, r). eq_tenant_id r = t" r']
    by (simp add: tenant_rows_def enq_wf_def)
qed

lemma tenant_frame [simp]:
  "tenant_rows t (db\<lparr>ed_pg := pg\<rparr>) = tenant_rows t db" "tenant_sessions t (db\<lparr>ed_rows := d\<rparr>) = tenant_sessions t db"
  by (simp_all add: tenant_rows_def tenant_sessions_def)

lemma tenant_snoc:
  "tenant_rows t (db\<lparr>ed_rows := ed_rows db @ [(k, r)]\<rparr>) = tenant_rows t db @ (if eq_tenant_id r = t then [(k, r)] else [])"
  "tenant_sessions t (db\<lparr>ed_pg := (ed_pg db)\<lparr>db_sessions := db_sessions (ed_pg db) @ [(i, new_session_row now j t' u)]\<rparr>\<rparr>)
     = tenant_sessions t db @ (if t' = t then [(i, new_session_row now j t' u)] else [])"
  by (simp_all add: tenant_rows_def tenant_sessions_def new_session_row_def)

lemma enq_fresh: "i \<notin> enq_used db \<Longrightarrow> map_of (ed_rows db) i = None \<and> map_of (db_sessions (ed_pg db)) (uuid_str i) = None"
  by (simp add: enq_used_def map_of_eq_None_iff)

lemma enq_other_view:
  assumes "enq_change c db db'" "enq_wf db" "enq_owner c \<noteq> t"
  shows "enq_view t db' = enq_view t db"
proof (cases t)
  case (Some i)
  have keep: "filter (\<lambda>(k, r). eq_tenant_id r = i) (AList.update k r' (ed_rows db)) = filter (\<lambda>(k, r). eq_tenant_id r = i) (ed_rows db)"
    if "map_of (ed_rows db) k = Some r" "eq_tenant_id r \<noteq> i" "eq_tenant_id r' = eq_tenant_id r" for k r r'
    using filter_update [of "ed_rows db" k r "\<lambda>(k, r). eq_tenant_id r = i" r'] that assms(2) by (simp add: enq_wf_def)
  from assms(1) show ?thesis
  proof cases
    case (rewritten k r r')
    then have "eq_id r = k" "eq_tenant_id r' = eq_tenant_id r" using assms(2) by (auto simp: enq_wf_def same_enquiry_def)
    then show ?thesis using rewritten assms(3) Some keep [of k r r'] by (simp add: enq_view_def tenant_rows_def)
  next
    case (promoted k r now user)
    then show ?thesis using assms(3) Some keep [of k r "r\<lparr>eq_session_id := Some (cl_id c)\<rparr>"]
      by (simp add: enq_view_def tenant_rows_def tenant_sessions_def new_session_row_def)
  qed (use assms(3) Some in \<open>auto simp: enq_view_def tenant_snoc\<close>)
qed (simp add: enq_view_def)

lemma enq_used_change: "enq_change c db db' \<Longrightarrow> enq_wf db \<Longrightarrow> enq_used db' \<subseteq> insert (cl_id c) (enq_used db)"
  by (erule enq_change.cases) (auto simp: enq_used_def dom_update [unfolded dom_def] enq_wf_def dest: map_of_SomeD intro: rev_image_eqI)


lemma enq_own_view:
  assumes wf: "enq_wf db" "enq_wf db'" and view: "enq_view (enq_owner c) db = enq_view (enq_owner c) db'"
    and fresh: "cl_id c \<notin> enq_used db" "cl_id c \<notin> enq_used db'"
  shows "fst (enq_serve env c db) = fst (enq_serve env c db')
     \<and> enq_view (enq_owner c) (snd (enq_serve env c db)) = enq_view (enq_owner c) (snd (enq_serve env c db'))"
proof (cases "enq_owner c")
  case None
  then have "enq_tenant_uuid (cl_principal c) = Inl (HTTP 401 ''unauthorized'')" by (simp add: enq_owner_def enq_tenant_uuid_def)
  then show ?thesis using None
    by (cases "cl_request c") (auto simp: enq_serve_def act_map_eval enq_view_def create_enquiry_def list_enquiries_def get_enquiry_def
      patch_enquiry_def promote_to_session_def enq_steps)
next
  case (Some t)
  then have p: "enq_tenant_uuid (cl_principal c) = Inr t" by (simp add: enq_owner_def enq_tenant_uuid_def)
  have v: "tenant_rows t db = tenant_rows t db'" "tenant_sessions t db = tenant_sessions t db'" using view Some by (simp_all add: enq_view_def)
  note none = enq_fresh [OF fresh(1)] enq_fresh [OF fresh(2)]
  show ?thesis
  proof (cases "cl_request c")
    case (CreateEnquiry b)
    then show ?thesis using none v
      by (auto simp: enq_serve_def act_map_eval create_enquiry_def enq_steps Some enq_view_def tenant_snoc split: sum.splits option.splits)
  next
    case (ListEnquiries q)
    then show ?thesis using v
      by (auto simp: enq_serve_def act_map_eval list_enquiries_def enq_steps p Some enq_view_def selection_view)
  next
    case (GetEnquiry raw)
    then show ?thesis using v
      by (auto simp: enq_serve_def act_map_eval get_enquiry_def act_steps act_return_def p Some enq_view_def load_owned_view [OF wf(1)]
        load_owned_view [OF wf(2)] split: sum.splits option.splits)
  next
    case (PatchEnquiry raw b)
    have upd: "tenant_rows t (d\<lparr>ed_rows := AList.update (eq_id r') (r'\<lparr>eq_budget_amount := a\<rparr>) (ed_rows d)\<rparr>)
        = AList.update (eq_id r') (r'\<lparr>eq_budget_amount := a\<rparr>) (tenant_rows t d)"
      if "enq_wf d" "map_of (tenant_rows t d) i = Some r" "patched_row b r = Inr r'" "patch_body_ok b" for d i r r' a
    proof -
      have "eq_id r = i" "eq_tenant_id r = t" using that(1,2) by (auto simp: tenant_rows_get enq_wf_def split: option.splits if_splits)
      then show ?thesis using patched_row_same [OF that(3,4), of a] that(2)
        by (intro tenant_rows_update [OF that(1), of t _ r]) (auto simp: same_enquiry_def)
    qed
    from PatchEnquiry show ?thesis using v
      by (auto simp: enq_serve_def act_map_eval patch_enquiry_def act_steps act_return_def enq_save_def p Some enq_view_def
        load_owned_view [OF wf(1)] load_owned_view [OF wf(2)] upd [OF wf(1)] upd [OF wf(2)] split: sum.splits option.splits)
  next
    case (PromoteEnquiry raw)
    have upd: "tenant_rows t (d\<lparr>ed_pg := pg, ed_rows := AList.update i (r\<lparr>eq_session_id := s\<rparr>) (ed_rows d)\<rparr>)
        = AList.update i (r\<lparr>eq_session_id := s\<rparr>) (tenant_rows t d)"
      if "enq_wf d" "map_of (tenant_rows t d) i = Some r" for d pg i r s
      using tenant_rows_update [of "d\<lparr>ed_pg := pg\<rparr>" t i r "r\<lparr>eq_session_id := s\<rparr>"] that
      by (auto simp: enq_wf_def tenant_rows_get [OF that(1)] split: option.splits if_splits)
    from PromoteEnquiry show ?thesis using v none
      by (auto simp: enq_serve_def act_map_eval promote_to_session_def act_steps act_return_def mint_session_def p Some enq_view_def
        load_owned_view [OF wf(1)] load_owned_view [OF wf(2)] upd [OF wf(1)] upd [OF wf(2)] tenant_snoc split: sum.splits option.splits)
  qed
qed

interpretation enquiries: isolated_service enq_wf "enq_serve env" enq_owner enq_view cl_id enq_used for env
  by unfold_locales
    (simp add: enq_serve_wf, rule enq_used_change [OF enq_serve_change [OF surjective_pairing]], assumption,
     rule enq_own_view, assumption+, erule (1) enq_other_view [OF enq_serve_change [OF surjective_pairing]])


text \<open>Claim C17. Tenants do not interfere: in any run of requests of many tenants with fresh identifiers, a tenant gets exactly the
  answers, errors included, that it would get if the others had sent nothing, and its enquiries and promoted sessions end up the same.
\<close>
theorem enquiry_tenants_isolated:
  assumes "enq_wf db" "distinct (map cl_id cs)" "cl_id ` set cs \<inter> enq_used db = {}"
  shows "answers (\<lambda>c. enq_owner c = t) cs (fst (run_calls (enq_serve env) cs db)) = fst (run_calls (enq_serve env) (filter (\<lambda>c. enq_owner c = t) cs) db)
     \<and> enq_view t (snd (run_calls (enq_serve env) cs db)) = enq_view t (snd (run_calls (enq_serve env) (filter (\<lambda>c. enq_owner c = t) cs) db))"
  using enquiries.noninterference [OF assms] by blast

section \<open>Promotion\<close>

definition messages_have_sessions :: "pg_db \<Rightarrow> bool" where
  "messages_have_sessions db \<longleftrightarrow> (\<forall>m\<in>set (db_messages db). map_of (db_sessions db) (mr_session_id m) \<noteq> None)
     \<and> (\<forall>(k, r)\<in>set (db_approvals db). map_of (db_sessions db) (ar_session_id r) \<noteq> None)"

lemma new_session_read:
  assumes "messages_have_sessions db" "map_of (db_sessions db) (uuid_str i) = None"
  shows "pg_get (db\<lparr>db_sessions := db_sessions db @ [(uuid_str i, new_session_row now i t u)]\<rparr>) (uuid_str i)
     = Some \<lparr>s_id = uuid_str i, s_tenant_id = uuid_str t, s_actor_id = uuid_str u, s_actor_kind = HUMAN, s_message_history = [],
         s_pending_approvals = [], s_sse_last_event_id = 0, s_sse_event_buffer = [], s_created_at = now, s_updated_at = now\<rparr>"
proof -
  have "filter (\<lambda>m. mr_session_id m = uuid_str i) (db_messages db) = []"
    "filter (\<lambda>(k, r). ar_session_id r = uuid_str i) (db_approvals db) = []"
    using assms by (auto simp: messages_have_sessions_def filter_empty_conv)
  then show ?thesis using assms(2)
    by (simp add: pg_get_def dict_snoc_get pg_session_messages_def pg_session_approvals_def new_session_row_def del: map_of_append)
qed

text \<open>Promoting an enquiry gives the id of its session. When it had none, the session is new, empty, of the caller and
  of the enquiry's tenant, and the chat surface reads it from the shared table; every later promotion, by
  any user of the tenant, returns the same id and changes nothing.
\<close>
theorem promotion_mints_one_session:
  assumes wf: "enq_wf db" "messages_have_sessions (ed_pg db)" and req: "cl_request c = PromoteEnquiry raw"
    and call: "enq_serve env c db = (Inr (Promoted e s), db')"
  shows "\<exists>i t u r r'. uuid_parse raw = Some i \<and> enq_owner c = Some t \<and> enq_user_uuid (cl_principal c) = Inr u
     \<and> map_of (ed_rows db) i = Some r \<and> eq_tenant_id r = t \<and> map_of (ed_rows db') i = Some r' \<and> map_option uuid_str (eq_session_id r') = Some s
     \<and> (case eq_session_id r of Some _ \<Rightarrow> db' = db
        | None \<Rightarrow> s = uuid_str (cl_id c) \<and> r' = r\<lparr>eq_session_id := Some (cl_id c)\<rparr> \<and> map_of (db_sessions (ed_pg db)) s = None
            \<and> pg_get (ed_pg db') s = Some \<lparr>s_id = s, s_tenant_id = uuid_str t, s_actor_id = uuid_str u, s_actor_kind = HUMAN,
                s_message_history = [], s_pending_approvals = [], s_sse_last_event_id = 0, s_sse_event_buffer = [],
                s_created_at = cl_now c, s_updated_at = cl_now c\<rparr>)
     \<and> (\<forall>c'. cl_request c' = PromoteEnquiry raw \<and> enq_owner c' = Some t \<and> uuid_parse (pr_user_id (cl_principal c')) \<noteq> None
          \<longrightarrow> enq_serve env c' db' = (Inr (Promoted e s), db'))"
proof -
  have p: "promote_to_session env (cl_now c) (cl_id c) (cl_principal c) raw db = (Inr (e, s), db')"
    using call req by (auto simp: enq_serve_def act_map_Inr)
  obtain t u i r where a: "enq_tenant_uuid (cl_principal c) = Inr t" "enq_user_uuid (cl_principal c) = Inr u" "parse_enquiry_id raw = Inr i"
    "map_of (ed_rows db) i = Some r" "eq_tenant_id r = t"
    using p by (auto simp: promote_to_session_def enq_steps split: sum.split_asm option.split_asm if_splits)
  have raw: "uuid_parse raw = Some i" using a(3) by (auto simp: parse_enquiry_id_def split: option.splits)
  have again: "enq_serve env c' db' = (Inr (Promoted e s), db')"
    if "map_of (ed_rows db') i = Some r'" "eq_session_id r' = Some sid" "e = enq_row_to_response r'" "s = uuid_str sid" "eq_tenant_id r' = t"
      "cl_request c' = PromoteEnquiry raw" "enq_owner c' = Some t" "uuid_parse (pr_user_id (cl_principal c')) \<noteq> None" for c' r' sid
    using that a(3) by (auto simp: enq_serve_def act_map_eval promote_to_session_def enq_steps enq_owner_def enq_tenant_uuid_def enq_user_uuid_def)
  show ?thesis
  proof (cases "eq_session_id r")
    case None
    then have "map_of (db_sessions (ed_pg db)) (uuid_str (cl_id c)) = None" "s = uuid_str (cl_id c)"
      "e = enq_row_to_response (r\<lparr>eq_session_id := Some (cl_id c)\<rparr>)"
      "db' = db\<lparr>ed_pg := (ed_pg db)\<lparr>db_sessions := db_sessions (ed_pg db) @ [(uuid_str (cl_id c), new_session_row (cl_now c) (cl_id c) t u)]\<rparr>,
         ed_rows := AList.update i (r\<lparr>eq_session_id := Some (cl_id c)\<rparr>) (ed_rows db)\<rparr>"
      using p a by (auto simp: promote_to_session_def enq_steps split: if_splits)
    then show ?thesis using a raw None new_session_read [OF wf(2), of "cl_id c" "cl_now c" t u]
      again [of "r\<lparr>eq_session_id := Some (cl_id c)\<rparr>" "cl_id c"]
      by (intro exI [of _ i] exI [of _ t] exI [of _ u] exI [of _ r] exI [of _ "r\<lparr>eq_session_id := Some (cl_id c)\<rparr>"])
         (auto simp: enq_tenant_owner enq_owner_def dict_update_get)
  next
    case (Some sid)
    then have "db' = db" "s = uuid_str sid" "e = enq_row_to_response r" using p a by (auto simp: promote_to_session_def enq_steps)
    then show ?thesis using a raw Some again [of r sid]
      by (intro exI [of _ i] exI [of _ t] exI [of _ u] exI [of _ r] exI [of _ r]) (auto simp: enq_tenant_owner enq_owner_def)
  qed
qed


section \<open>Search\<close>

definition plain_char :: "char \<Rightarrow> bool" where
  "plain_char c \<longleftrightarrow> c \<noteq> CHR ''%'' \<and> c \<noteq> CHR ''_'' \<and> c \<noteq> CHR 0x5C"

lemma plain_char_code: "plain_char c \<longleftrightarrow> (of_char c :: nat) \<notin> {37, 95, 92}"
  unfolding plain_char_def by (simp flip: of_char_eq_iff [where ?'a = nat])

lemma plain_lower: "plain_char c \<Longrightarrow> plain_char (lower_char c)"
proof -
  assume p: "plain_char c"
  show ?thesis
  proof (cases "lower_char c = c")
    case False
    then have "lower_char c = char_of ((of_char c :: nat) + 32)" "(of_char c :: nat) \<le> 222" "(of_char c :: nat) \<ge> 65"
      by (auto simp: lower_char_def Let_def split: if_splits)
    then have "(of_char (lower_char c) :: nat) \<ge> 97" by simp
    then show ?thesis by (auto simp: plain_char_code)
  qed (use p in simp)
qed

lemma like_percent: "like (CHR ''%'' # p) s \<longleftrightarrow> (\<exists>u v. s = u @ v \<and> like p v)"
proof (induction s)
  case (Cons x s)
  have "(\<exists>u v. x # s = u @ v \<and> like p v) \<longleftrightarrow> like p (x # s) \<or> (\<exists>u v. s = u @ v \<and> like p v)"
    by (auto simp: Cons_eq_append_conv)
  then show ?case using Cons by simp
qed simp

lemma like_plain: "list_all plain_char w \<Longrightarrow> like (w @ p) s \<longleftrightarrow> (\<exists>v. s = w @ v \<and> like p v)"
  by (induction w arbitrary: s) (auto simp: plain_char_def split: list.split)

lemma like_contains: "list_all plain_char w \<Longrightarrow> like (''%'' @ w @ ''%'') s \<longleftrightarrow> sublist w s"
  by (auto simp: like_percent like_plain sublist_def simp del: like.simps(2))

text \<open>The reference: a filter term is contained in the column, up to case.\<close>

definition contains_ci :: "string option \<Rightarrow> string \<Rightarrow> bool" where
  "contains_ci col w = (case col of None \<Rightarrow> False | Some s \<Rightarrow> sublist (py_lower w) (py_lower s))"

definition plain_term :: "string option \<Rightarrow> bool" where
  "plain_term f = (case f of None \<Rightarrow> True | Some w \<Rightarrow> list_all plain_char w)"

definition term_filter :: "string option \<Rightarrow> (string \<Rightarrow> bool) \<Rightarrow> bool" where
  "term_filter f matches = (case f of None \<Rightarrow> True | Some w \<Rightarrow> w = [] \<or> matches w)"

definition day_of :: "int \<Rightarrow> int" where
  "day_of us = us div DAY_US"

definition enq_wanted :: "enquiry_query \<Rightarrow> enquiry_row \<Rightarrow> bool" where
  "enq_wanted q r \<longleftrightarrow>
     (case qy_status q of None \<Rightarrow> True | Some s \<Rightarrow> eq_status r = s)
     \<and> term_filter (qy_customer_email q) (contains_ci (eq_customer_email r))
     \<and> term_filter (qy_destination q) (contains_ci (eq_destination r))
     \<and> term_filter (qy_origin q) (contains_ci (eq_origin r))
     \<and> date_filter (qy_depart_from q) (\<lambda>d. case eq_depart_date r of None \<Rightarrow> False | Some x \<Rightarrow> \<not> date_less x d)
     \<and> date_filter (qy_depart_to q) (\<lambda>d. case eq_depart_date r of None \<Rightarrow> False | Some x \<Rightarrow> \<not> date_less d x)
     \<and> date_filter (qy_created_from q) (\<lambda>d. to_ordinal d - EPOCH_ORDINAL \<le> day_of (eq_created_at r))
     \<and> date_filter (qy_created_to q) (\<lambda>d. day_of (eq_created_at r) \<le> to_ordinal d - EPOCH_ORDINAL)
     \<and> term_filter (qy_q q) (\<lambda>w. \<exists>col\<in>{Some (eq_customer_name r), eq_customer_email r, eq_customer_phone r, eq_origin r, eq_destination r}.
          contains_ci col w)"

lemma ilike_contains: "list_all plain_char w \<Longrightarrow> ilike col (''%'' @ w @ ''%'') \<longleftrightarrow> contains_ci col w"
proof -
  assume "list_all plain_char w"
  then have "list_all plain_char (py_lower w)" by (auto simp: py_lower_def list_all_iff plain_lower)
  moreover have "py_lower (''%'' @ w @ ''%'') = ''%'' @ py_lower w @ ''%''" by (simp add: py_lower_def lower_char_def)
  ultimately show ?thesis using like_contains [of "py_lower w"]
    by (simp only: ilike_def contains_ci_def)
qed

lemma le_div_iff_mult: "0 < (c :: int) \<Longrightarrow> a \<le> x div c \<longleftrightarrow> a * c \<le> x"
proof
  assume "0 < c" "a \<le> x div c"
  then have "a * c \<le> x div c * c" by (simp add: mult_right_mono)
  also have "\<dots> \<le> x" using \<open>0 < c\<close> by (simp add: minus_mod_eq_div_mult [symmetric])
  finally show "a * c \<le> x" .
next
  assume "0 < c" "a * c \<le> x"
  then show "a \<le> x div c" using zdiv_mono1 [of "a * c" x c] by simp
qed

lemma day_bounds:
  "utc_midnight d \<le> us \<longleftrightarrow> to_ordinal d - EPOCH_ORDINAL \<le> day_of us"
  "us \<le> utc_midnight d + DAY_US - 1 \<longleftrightarrow> day_of us \<le> to_ordinal d - EPOCH_ORDINAL"
proof -
  have pos: "0 < DAY_US" by (simp add: DAY_US_def)
  show "utc_midnight d \<le> us \<longleftrightarrow> to_ordinal d - EPOCH_ORDINAL \<le> day_of us"
    by (simp add: utc_midnight_def day_of_def le_div_iff_mult [OF pos])
  show "us \<le> utc_midnight d + DAY_US - 1 \<longleftrightarrow> day_of us \<le> to_ordinal d - EPOCH_ORDINAL"
    using le_div_iff_mult [OF pos, of "to_ordinal d - EPOCH_ORDINAL + 1" us]
    by (auto simp: utc_midnight_def day_of_def algebra_simps)
qed

lemma text_filter_contains: "plain_term f \<Longrightarrow> text_filter f (ilike col) \<longleftrightarrow> term_filter f (contains_ci col)"
  by (auto simp: text_filter_def term_filter_def plain_term_def ilike_contains split: option.split simp del: append_Cons append.simps)

lemma enq_matches_wanted:
  assumes "plain_term (qy_q q)" "plain_term (qy_customer_email q)" "plain_term (qy_destination q)" "plain_term (qy_origin q)"
  shows "enq_matches q r \<longleftrightarrow> enq_wanted q r"
proof -
  have "text_filter (qy_q q) (\<lambda>pat. ilike (Some (eq_customer_name r)) pat \<or> ilike (eq_customer_email r) pat
          \<or> ilike (eq_customer_phone r) pat \<or> ilike (eq_origin r) pat \<or> ilike (eq_destination r) pat)
      \<longleftrightarrow> term_filter (qy_q q) (\<lambda>w. \<exists>col\<in>{Some (eq_customer_name r), eq_customer_email r, eq_customer_phone r, eq_origin r, eq_destination r}.
          contains_ci col w)"
    using assms(1) by (auto simp: text_filter_def term_filter_def plain_term_def ilike_contains split: option.split simp del: append_Cons append.simps)
  then show ?thesis using assms(2-4) by (simp only: enq_matches_def enq_wanted_def text_filter_contains day_bounds)
qed

text \<open>For filter terms without the wild cards of SQL, the list of enquiries is the page asked for of the tenant's enquiries
  that satisfy every filter: terms contained up to case, dates within the days given, both ends included; newest first, with the
  total count. Listing changes nothing.
\<close>
theorem enquiry_search_exact:
  assumes "list_enquiries p q db = (Inr l, db')" "plain_term (qy_q q)" "plain_term (qy_customer_email q)"
    "plain_term (qy_destination q)" "plain_term (qy_origin q)"
  shows "\<exists>t rows. uuid_parse (pr_tenant_id p) = Some t \<and> db' = db
     \<and> rows = filter (\<lambda>r. eq_tenant_id r = t \<and> enq_wanted q r) (dict_values (ed_rows db)) \<and> ql_total l = length rows
     \<and> ql_items l = map enq_row_to_response (take (nat (qy_limit q)) (drop (nat (qy_offset q)) (sort_key (\<lambda>r. - eq_created_at r) rows)))
     \<and> length (ql_items l) \<le> 500"
  using assms
  by (auto simp: list_enquiries_def act_simps enq_tenant_owner enq_selection_def enq_matches_wanted [OF assms(2-5)] query_ok_def
      dest!: sym [of "Inr _" "enq_tenant_uuid p"] split: if_splits)

section \<open>A small run\<close>

definition demo_enq_env :: enq_env where
  "demo_enq_env = \<lparr>en_amount = \<lambda>r. Some (eq_budget_amount r), en_tenant = \<lambda>_. True, en_user = \<lambda>_. True\<rparr>"

definition demo_enquiry :: enquiry_row where
  "demo_enquiry = \<lparr>eq_id = 7, eq_tenant_id = 1, eq_created_by_user_id = 2, eq_customer_name = ''Ann Roy'', eq_customer_email = Some ''ann@x.io'',
     eq_customer_phone = None, eq_origin = Some ''Delhi'', eq_destination = Some ''Goa'', eq_depart_date = None, eq_return_date = None,
     eq_pax_count = 2, eq_budget_amount = None, eq_budget_currency = None, eq_status = EnqBooked, eq_notes = None, eq_session_id = None,
     eq_created_at = 5, eq_updated_at = 5\<rparr>"

definition demo_enq_db :: enq_db where
  "demo_enq_db = \<lparr>ed_rows = [(7, demo_enquiry)], ed_pg = \<lparr>db_sessions = [], db_messages = [], db_approvals = []\<rparr>\<rparr>"

definition demo_caller :: "uuid_int \<Rightarrow> principal" where
  "demo_caller t = \<lparr>pr_user_id = uuid_str 2, pr_tenant_id = uuid_str t, pr_role = ''agent''\<rparr>"

definition demo_promote :: "uuid_int \<Rightarrow> uuid_int \<Rightarrow> enq_call" where
  "demo_promote t i = \<lparr>cl_now = 9, cl_id = i, cl_principal = demo_caller t, cl_request = PromoteEnquiry (uuid_str 7)\<rparr>"

lemma demo_enq_wf: "enq_wf demo_enq_db"
  by (auto simp: enq_wf_def demo_enq_db_def wf_dict_def demo_enquiry_def)

lemma demo_promote_sel [simp]:
  "cl_request (demo_promote t i) = PromoteEnquiry (uuid_str 7)" "cl_id (demo_promote t i) = i" "enq_owner (demo_promote t i) = Some t"
  by (simp_all add: demo_promote_def enq_owner_def demo_caller_def)

lemma demo_promotes:
  "enq_serve demo_enq_env (demo_promote 1 8) demo_enq_db = (Inr (Promoted (enq_row_to_response (demo_enquiry\<lparr>eq_session_id := Some 8\<rparr>)) (uuid_str 8)),
     \<lparr>ed_rows = [(7, demo_enquiry\<lparr>eq_session_id := Some 8\<rparr>)], ed_pg = \<lparr>db_sessions = [(uuid_str 8, new_session_row 9 8 1 2)], db_messages = [], db_approvals = []\<rparr>\<rparr>)"
  by (simp add: enq_serve_def demo_promote_def demo_caller_def act_map_eval promote_to_session_def enq_steps enq_tenant_uuid_def enq_user_uuid_def
      parse_enquiry_id_def demo_enq_db_def demo_enquiry_def demo_enq_env_def)

theorem promotion_mints_one_session_witness:
  "pg_get (ed_pg (snd (enq_serve demo_enq_env (demo_promote 1 8) demo_enq_db))) (uuid_str 8) \<noteq> None
   \<and> fst (enq_serve demo_enq_env (demo_promote 1 9) (snd (enq_serve demo_enq_env (demo_promote 1 8) demo_enq_db)))
     = fst (enq_serve demo_enq_env (demo_promote 1 8) demo_enq_db)"
proof -
  have "messages_have_sessions (ed_pg demo_enq_db)" by (simp add: messages_have_sessions_def demo_enq_db_def)
  note once = promotion_mints_one_session [OF demo_enq_wf this demo_promote_sel(1) demo_promotes]
  from once obtain i r where "uuid_parse (uuid_str 7) = Some i" "map_of (ed_rows demo_enq_db) i = Some r"
    and get: "eq_session_id r = None \<longrightarrow> pg_get (ed_pg (snd (enq_serve demo_enq_env (demo_promote 1 8) demo_enq_db))) (uuid_str 8) \<noteq> None"
    by (auto simp: demo_promotes split: option.splits)
  then have "r = demo_enquiry" by (simp add: demo_enq_db_def)
  moreover from once have "enq_serve demo_enq_env (demo_promote 1 9) (snd (enq_serve demo_enq_env (demo_promote 1 8) demo_enq_db))
      = enq_serve demo_enq_env (demo_promote 1 8) demo_enq_db"
    unfolding demo_promotes by (elim exE conjE, drule_tac x = "demo_promote 1 9" in spec) (auto simp: demo_promote_def demo_caller_def enq_owner_def)
  ultimately show ?thesis using get by (simp add: demo_enquiry_def)
qed

theorem enquiry_lifecycle_witness:
  "\<exists>r'. map_of (ed_rows (snd (run_calls (enq_serve demo_enq_env) [demo_promote 1 8, demo_promote 3 9] demo_enq_db))) 7 = Some r'
     \<and> same_enquiry demo_enquiry r' \<and> enq_terminal r'"
proof -
  have "map_of (ed_rows demo_enq_db) 7 = Some demo_enquiry" "enq_terminal demo_enquiry"
    by (simp_all add: demo_enq_db_def enq_terminal_def demo_enquiry_def TERMINAL_STATUSES_def)
  then obtain r' where "map_of (ed_rows (snd (run_calls (enq_serve demo_enq_env) [demo_promote 1 8, demo_promote 3 9] demo_enq_db))) 7 = Some r'"
    "same_enquiry demo_enquiry r'"
    using enquiry_lifecycle [OF demo_enq_wf, of demo_enq_env "[demo_promote 1 8, demo_promote 3 9]"] by blast
  then show ?thesis using \<open>enq_terminal demo_enquiry\<close> by (auto simp: same_enquiry_def simp del: run_calls.simps)
qed

theorem enquiry_tenants_isolated_witness:
  "answers (\<lambda>c. enq_owner c = Some 1) [demo_promote 3 9, demo_promote 1 8]
      (fst (run_calls (enq_serve demo_enq_env) [demo_promote 3 9, demo_promote 1 8] demo_enq_db))
     = fst (run_calls (enq_serve demo_enq_env) [demo_promote 1 8] demo_enq_db)"
proof -
  have "cl_id ` set [demo_promote 3 9, demo_promote 1 8] \<inter> enq_used demo_enq_db = {}"
    by (auto simp: enq_used_def demo_enq_db_def)
  from enquiry_tenants_isolated [OF demo_enq_wf _ this, of "Some 1"] show ?thesis by simp
qed

definition demo_query :: enquiry_query where
  "demo_query = \<lparr>qy_status = Some EnqBooked, qy_limit = 50, qy_offset = 0, qy_q = None, qy_customer_email = None, qy_destination = Some ''GO'',
     qy_origin = None, qy_depart_from = None, qy_depart_to = None, qy_created_from = None, qy_created_to = None\<rparr>"

theorem enquiry_search_exact_witness:
  "\<exists>l. list_enquiries (demo_caller 1) demo_query demo_enq_db = (Inr l, demo_enq_db) \<and> ql_total l = 1"
proof -
  obtain l where l: "list_enquiries (demo_caller 1) demo_query demo_enq_db = (Inr l, demo_enq_db)"
    by (simp add: list_enquiries_def enq_steps query_ok_def demo_query_def at_most_def demo_caller_def enq_tenant_uuid_def range_ok_def)
  have s: "sublist (py_lower ''GO'') (py_lower ''Goa'')"
    unfolding sublist_def by (rule exI [of _ "[]"], rule exI [of _ "''a''"]) code_simp
  have pl: "list_all plain_char ''GO''" by code_simp
  have w: "enq_wanted demo_query demo_enquiry"
    using s by (simp add: enq_wanted_def demo_query_def demo_enquiry_def term_filter_def date_filter_def contains_ci_def)
  have t: "plain_term (qy_q demo_query)" "plain_term (qy_customer_email demo_query)" "plain_term (qy_destination demo_query)"
    "plain_term (qy_origin demo_query)"
    using pl by (simp_all add: demo_query_def plain_term_def)
  have d: "uuid_parse (pr_tenant_id (demo_caller 1)) = Some 1" "dict_values (ed_rows demo_enq_db) = [demo_enquiry]" "eq_tenant_id demo_enquiry = 1"
    by (simp_all add: demo_caller_def demo_enq_db_def dict_values_def demo_enquiry_def)
  have "ql_total l = 1" using enquiry_search_exact [OF l t] w by (auto simp: d)
  with l show ?thesis by blast
qed

end
