(* ===== verification/Reports.thy ===== *)
theory Reports
  imports Approvals_Api Py_Date Py_Decimal
begin

text \<open>
  The reports of \<^verbatim>\<open>services/api/src/voyagent_api/reports.py\<close>: ageing of receivables and payables over the
  documents of \<^verbatim>\<open>schemas/storage/invoice.py\<close>, the trial balance over the ledger of
  \<^verbatim>\<open>schemas/storage/ledger.py\<close> with its writer \<^verbatim>\<open>build_journal_entry\<close>, and the itinerary scraped from
  a session's messages. All routes only read. Shown: the ageing report adds up exactly, and a ledger
  written through \<^verbatim>\<open>build_journal_entry\<close> is in balance at every date.
\<close>

section \<open>Documents\<close>

datatype invoice_doc_status = DocDraft | DocIssued | DocPartiallyPaid | DocPaid | DocVoid
datatype bill_doc_status = BillDraft | BillReceived | BillScheduled | BillPaid | BillVoid

record 'st document_row =
  dw_tenant_id :: uuid_int
  dw_number :: string
  dw_party_name :: string
  dw_issue_date :: py_date
  dw_due_date :: py_date
  dw_total_amount :: decimal
  dw_currency :: string
  dw_amount_paid :: decimal
  dw_status :: 'st

type_synonym invoice_doc_row = "invoice_doc_status document_row"

record bill_doc_row = "bill_doc_status document_row" +
  bw_vendor_reference :: string

definition OPEN_INVOICE_STATUSES :: "invoice_doc_status list" where
  "OPEN_INVOICE_STATUSES = [DocIssued, DocPartiallyPaid]"

definition OPEN_BILL_STATUSES :: "bill_doc_status list" where
  "OPEN_BILL_STATUSES = [BillReceived, BillScheduled]"

section \<open>Ageing\<close>

definition DEFAULT_CURRENCY :: string where
  "DEFAULT_CURRENCY = ''INR''"

definition ZERO :: decimal where
  "ZERO = Dec 0 (-2)"

record money_response =
  mo_amount :: decimal
  mo_currency :: string

record aging_bucket =
  bu_bucket :: string
  bu_count :: nat
  bu_amount :: money_response

record party_amount =
  pt_name :: string
  pt_amount :: money_response

record aging_report =
  ag_tenant_id :: string
  ag_from :: py_date
  ag_to :: py_date
  ag_total_outstanding :: money_response
  ag_buckets :: "aging_bucket list"
  ag_top_debtors :: "party_amount list"
  ag_top_creditors :: "party_amount list"

definition EMPTY_BUCKETS :: "string list" where
  "EMPTY_BUCKETS = [''0-30'', ''31-60'', ''61-90'', ''90+'']"

definition internal_error :: http_error where
  "internal_error = HTTP 500 ''Internal Server Error''"

definition validate_period :: "py_date \<Rightarrow> py_date \<Rightarrow> http_error + unit" where
  "validate_period a b = guard_res (\<not> date_less b a) (HTTP 422 ''from must be on or before to'')"

definition report_tenant_uuid :: "principal \<Rightarrow> http_error + uuid_int" where
  "report_tenant_uuid p = (case uuid_parse (pr_tenant_id p) of None \<Rightarrow> Inl (HTTP 401 ''unauthorized'') | Some t \<Rightarrow> Inr t)"

definition classify_bucket :: "py_date \<Rightarrow> py_date \<Rightarrow> string" where
  "classify_bucket due today =
     (let days_overdue = to_ordinal today - to_ordinal due
      in if days_overdue \<le> 30 then ''0-30'' else if days_overdue \<le> 60 then ''31-60''
         else if days_overdue \<le> 90 then ''61-90'' else ''90+'')"

text \<open>A row is \<^verbatim>\<open>(total, paid, due, currency, party)\<close>; dictionaries keep insertion order.\<close>

type_synonym aging_row = "decimal \<times> decimal \<times> py_date \<times> string \<times> string"

record aging_state =
  as_buckets :: "(string, nat \<times> decimal) dict"
  as_totals :: "(string, decimal) dict"
  as_parties :: "(string \<times> string, decimal) dict"
  as_currency :: string

definition aging_start :: aging_state where
  "aging_start = \<lparr>as_buckets = map (\<lambda>b. (b, (0, ZERO))) EMPTY_BUCKETS, as_totals = [], as_parties = [], as_currency = DEFAULT_CURRENCY\<rparr>"

definition add_to :: "'k \<Rightarrow> decimal \<Rightarrow> ('k, decimal) dict \<Rightarrow> ('k, decimal) dict" where
  "add_to k x d = AList.update k (dec_add (dict_get_or d k ZERO) x) d"

definition add_bucket :: "string \<Rightarrow> decimal \<Rightarrow> (string, nat \<times> decimal) dict \<Rightarrow> (string, nat \<times> decimal) dict" where
  "add_bucket k x d = (let (n, a) = dict_get_or d k (0, ZERO) in AList.update k (n + 1, dec_add a x) d)"

fun aging_row_step :: "py_date \<Rightarrow> aging_row \<Rightarrow> aging_state \<Rightarrow> aging_state" where
  "aging_row_step today (amt, paid, due, ccy, party) st =
     (let outstanding = dec_sub amt paid
      in if dec_le outstanding ZERO then st
         else \<lparr>as_buckets = add_bucket (classify_bucket due today) outstanding (as_buckets st),
               as_totals = add_to ccy outstanding (as_totals st), as_parties = add_to (party, ccy) outstanding (as_parties st),
               as_currency = ccy\<rparr>)"

definition cents :: "decimal \<Rightarrow> http_error + decimal" where
  "cents x = (case dec_quantize x (-2) of None \<Rightarrow> Inl internal_error | Some y \<Rightarrow> Inr y)"

definition party_amounts :: "aging_state \<Rightarrow> http_error + party_amount list" where
  "party_amounts st = map_res (\<lambda>((name, ccy), amt). bind_res (cents amt) (\<lambda>a.
     Inr \<lparr>pt_name = name, pt_amount = \<lparr>mo_amount = a, mo_currency = ccy\<rparr>\<rparr>)) (as_parties st)"

definition aging_buckets_of :: "aging_state \<Rightarrow> http_error + aging_bucket list" where
  "aging_buckets_of st = map_res (\<lambda>name. let (n, a) = dict_get_or (as_buckets st) name (0, ZERO) in
     bind_res (cents a) (\<lambda>a'. Inr \<lparr>bu_bucket = name, bu_count = n, bu_amount = \<lparr>mo_amount = a', mo_currency = as_currency st\<rparr>\<rparr>)) EMPTY_BUCKETS"

text \<open>The sort is stable and descending, so ties keep the order in which parties were met.\<close>

definition build_aging :: "py_date \<Rightarrow> aging_row list \<Rightarrow> string \<Rightarrow> py_date \<Rightarrow> py_date \<Rightarrow> bool \<Rightarrow> http_error + aging_report" where
  "build_aging today rows tenant date_from date_to debtors =
     (let st = fold (aging_row_step today) rows aging_start
      in bind_res (aging_buckets_of st) (\<lambda>aging.
         bind_res (party_amounts st) (\<lambda>parties.
         bind_res (cents (dict_get_or (as_totals st) (as_currency st) ZERO)) (\<lambda>owed.
           let top = take 5 (sort_key (\<lambda>p. - dval (mo_amount (pt_amount p))) parties)
           in Inr \<lparr>ag_tenant_id = tenant, ag_from = date_from, ag_to = date_to,
                ag_total_outstanding = \<lparr>mo_amount = owed, mo_currency = as_currency st\<rparr>, ag_buckets = aging,
                ag_top_debtors = (if debtors then top else []), ag_top_creditors = (if debtors then [] else top)\<rparr>))))"

definition aging_rows :: "'st set \<Rightarrow> uuid_int \<Rightarrow> py_date \<Rightarrow> py_date \<Rightarrow> ('st, 'z) document_row_scheme list \<Rightarrow> aging_row list" where
  "aging_rows open_statuses t a b docs =
     map (\<lambda>d. (dw_total_amount d, dw_amount_paid d, dw_due_date d, dw_currency d, dw_party_name d))
       (filter (\<lambda>d. dw_tenant_id d = t \<and> dw_status d \<in> open_statuses \<and> \<not> date_less (dw_issue_date d) a \<and> \<not> date_less b (dw_issue_date d)) docs)"

definition receivables_report :: "py_date \<Rightarrow> py_date \<Rightarrow> py_date \<Rightarrow> principal \<Rightarrow> invoice_doc_row list \<Rightarrow> http_error + aging_report" where
  "receivables_report today date_from date_to p docs =
     bind_res (validate_period date_from date_to) (\<lambda>_.
     bind_res (report_tenant_uuid p) (\<lambda>t.
       build_aging today (aging_rows (set OPEN_INVOICE_STATUSES) t date_from date_to docs) (pr_tenant_id p) date_from date_to True))"

definition payables_report :: "py_date \<Rightarrow> py_date \<Rightarrow> py_date \<Rightarrow> principal \<Rightarrow> bill_doc_row list \<Rightarrow> http_error + aging_report" where
  "payables_report today date_from date_to p docs =
     bind_res (validate_period date_from date_to) (\<lambda>_.
     bind_res (report_tenant_uuid p) (\<lambda>t.
       build_aging today (aging_rows (set OPEN_BILL_STATUSES) t date_from date_to docs) (pr_tenant_id p) date_from date_to False))"

section \<open>The ledger\<close>

datatype ledger_account_type = ACC_ASSET | ACC_LIABILITY | ACC_EQUITY | ACC_REVENUE | ACC_EXPENSE

fun ledger_account_type_value :: "ledger_account_type \<Rightarrow> string" where
  "ledger_account_type_value ACC_ASSET = ''asset''"
| "ledger_account_type_value ACC_LIABILITY = ''liability''"
| "ledger_account_type_value ACC_EQUITY = ''equity''"
| "ledger_account_type_value ACC_REVENUE = ''revenue''"
| "ledger_account_type_value ACC_EXPENSE = ''expense''"

record ledger_account_row =
  lr_id :: uuid_int
  lr_tenant_id :: uuid_int
  lr_code :: string
  lr_name :: string
  lr_type :: ledger_account_type

record journal_entry_row =
  jr_entry_id :: uuid_int
  jr_line_no :: nat
  jr_tenant_id :: uuid_int
  jr_account_id :: uuid_int
  jr_debit :: decimal
  jr_credit :: decimal
  jr_memo :: "string option"
  jr_posted_at :: int
  jr_source :: "string option"

record ledger_line =
  ll_account_id :: uuid_int
  ll_debit :: decimal
  ll_credit :: decimal
  ll_memo :: "string option"

datatype ledger_error = Unbalanced string | InvalidOperation

definition quantize_cents :: "decimal \<Rightarrow> ledger_error + decimal" where
  "quantize_cents x = (case dec_quantize x (-2) of None \<Rightarrow> Inl InvalidOperation | Some y \<Rightarrow> Inr y)"

definition dec_pos :: "decimal \<Rightarrow> bool" where
  "dec_pos x \<longleftrightarrow> 0 < dcoef x"

definition dec_negative :: "decimal \<Rightarrow> bool" where
  "dec_negative x \<longleftrightarrow> dcoef x < 0"

definition dec_eq :: "decimal \<Rightarrow> decimal \<Rightarrow> bool" where
  "dec_eq x y \<longleftrightarrow> dec_le x y \<and> dec_le y x"

definition journal_row_of :: "uuid_int \<Rightarrow> uuid_int \<Rightarrow> int \<Rightarrow> string option \<Rightarrow> nat \<Rightarrow> ledger_line \<Rightarrow> ledger_error + journal_entry_row" where
  "journal_row_of tenant eid posted src idx l =
     bind_res (quantize_cents (ll_debit l)) (\<lambda>debit.
     bind_res (quantize_cents (ll_credit l)) (\<lambda>credit.
     bind_res (guard_res (\<not> (dec_negative debit \<or> dec_negative credit)) (Unbalanced ''journal line debit/credit must be non-negative'')) (\<lambda>_.
     bind_res (guard_res (\<not> (dec_pos debit = dec_pos credit)) (Unbalanced ''journal line must have exactly one of debit / credit non-zero'')) (\<lambda>_.
       Inr \<lparr>jr_entry_id = eid, jr_line_no = idx, jr_tenant_id = tenant, jr_account_id = ll_account_id l, jr_debit = debit,
            jr_credit = credit, jr_memo = ll_memo l, jr_posted_at = posted, jr_source = src\<rparr>))))"

fun journal_rows_of :: "uuid_int \<Rightarrow> uuid_int \<Rightarrow> int \<Rightarrow> string option \<Rightarrow> nat \<Rightarrow> ledger_line list \<Rightarrow> decimal \<Rightarrow> decimal
    \<Rightarrow> ledger_error + journal_entry_row list \<times> decimal \<times> decimal" where
  "journal_rows_of tenant eid posted src idx [] td tc = Inr ([], td, tc)"
| "journal_rows_of tenant eid posted src idx (l # ls) td tc =
     bind_res (journal_row_of tenant eid posted src idx l) (\<lambda>r.
     bind_res (journal_rows_of tenant eid posted src (idx + 1) ls (dec_add td (jr_debit r)) (dec_add tc (jr_credit r))) (\<lambda>(rs, d, c).
       Inr (r # rs, d, c)))"

definition build_journal_entry :: "uuid_int \<Rightarrow> uuid_int \<Rightarrow> int \<Rightarrow> string option \<Rightarrow> ledger_line list \<Rightarrow> ledger_error + journal_entry_row list" where
  "build_journal_entry tenant eid posted src ls =
     (if length ls < 2 then Inl (Unbalanced ''journal entry requires at least two lines'')
      else bind_res (journal_rows_of tenant eid posted src 1 ls ZERO ZERO) (\<lambda>(rows, td, tc).
        if \<not> dec_eq td tc then Inl (Unbalanced (''journal entry unbalanced: debits='' @ dec_str td @ '' credits='' @ dec_str tc)) else Inr rows))"

section \<open>The trial balance\<close>

record trial_balance_account =
  ta_code :: string
  ta_name :: string
  ta_type :: string
  ta_debit :: string
  ta_credit :: string
  ta_balance :: string
  ta_currency :: string

record trial_balance =
  tb_tenant_id :: string
  tb_as_of :: py_date
  tb_accounts :: "trial_balance_account list"
  tb_total_debit :: string
  tb_total_credit :: string
  tb_in_balance :: bool

definition fmt_dec :: "decimal \<Rightarrow> http_error + string" where
  "fmt_dec d = bind_res (cents d) (\<lambda>x. Inr (dec_str x))"

text \<open>\<^verbatim>\<open>SUM\<close> over a numeric column is exact; a sum of zero comes back as the integer zero.\<close>

fun sql_sum :: "decimal list \<Rightarrow> decimal" where
  "sql_sum [] = Dec 0 0"
| "sql_sum (x # xs) = (let s = sql_sum xs; e = min (dexp x) (dexp s) in Dec (dec_aligned x e + dec_aligned s e) e)"

definition or_zero :: "decimal \<Rightarrow> decimal" where
  "or_zero x = (if dcoef x = 0 then Dec 0 0 else x)"

definition account_lines :: "uuid_int \<Rightarrow> int \<Rightarrow> uuid_int \<Rightarrow> journal_entry_row list \<Rightarrow> journal_entry_row list" where
  "account_lines tenant cutoff acc js = filter (\<lambda>j. jr_account_id j = acc \<and> jr_tenant_id j = tenant \<and> jr_posted_at j \<le> cutoff) js"

definition trial_row :: "ledger_account_row \<Rightarrow> decimal \<Rightarrow> decimal \<Rightarrow> http_error + trial_balance_account" where
  "trial_row a debit credit =
     bind_res (fmt_dec debit) (\<lambda>d. bind_res (fmt_dec credit) (\<lambda>c. bind_res (fmt_dec (dec_sub debit credit)) (\<lambda>b.
       Inr \<lparr>ta_code = lr_code a, ta_name = lr_name a, ta_type = ledger_account_type_value (lr_type a), ta_debit = d, ta_credit = c,
            ta_balance = b, ta_currency = ''INR''\<rparr>)))"

fun trial_rows :: "bool \<Rightarrow> (ledger_account_row \<times> decimal \<times> decimal) list \<Rightarrow> decimal \<Rightarrow> decimal
    \<Rightarrow> http_error + trial_balance_account list \<times> decimal \<times> decimal" where
  "trial_rows include_zero [] td tc = Inr ([], td, tc)"
| "trial_rows include_zero ((a, debit, credit) # rest) td tc =
     (if dec_is_zero debit \<and> dec_is_zero credit \<and> \<not> include_zero then trial_rows include_zero rest td tc
      else bind_res (trial_row a debit credit) (\<lambda>x.
           bind_res (trial_rows include_zero rest (dec_add td debit) (dec_add tc credit)) (\<lambda>(xs, d, c). Inr (x # xs, d, c))))"

text \<open>\<open>collate\<close> is the order of the database on account codes.\<close>

definition trial_groups :: "(string \<Rightarrow> int) \<Rightarrow> uuid_int \<Rightarrow> int \<Rightarrow> ledger_account_row list \<Rightarrow> journal_entry_row list
    \<Rightarrow> (ledger_account_row \<times> decimal \<times> decimal) list" where
  "trial_groups collate t cutoff accounts js =
     map (\<lambda>a. let lines = account_lines t cutoff (lr_id a) js
              in (a, or_zero (sql_sum (map jr_debit lines)), or_zero (sql_sum (map jr_credit lines))))
       (sort_key (\<lambda>a. collate (lr_code a)) (filter (\<lambda>a. lr_tenant_id a = t) accounts))"

definition trial_balance_report :: "(string \<Rightarrow> int) \<Rightarrow> py_date \<Rightarrow> py_date option \<Rightarrow> bool \<Rightarrow> principal \<Rightarrow> ledger_account_row list
    \<Rightarrow> journal_entry_row list \<Rightarrow> http_error + trial_balance" where
  "trial_balance_report collate today as_of include_zero p accounts js =
     bind_res (report_tenant_uuid p) (\<lambda>t.
       let as_of_date = (case as_of of None \<Rightarrow> today | Some d \<Rightarrow> d);
           cutoff = utc_midnight as_of_date + DAY_US - 1
       in bind_res (trial_rows include_zero (trial_groups collate t cutoff accounts js) ZERO ZERO) (\<lambda>(xs, td, tc).
          bind_res (fmt_dec td) (\<lambda>fd. bind_res (fmt_dec tc) (\<lambda>fc.
            Inr \<lparr>tb_tenant_id = pr_tenant_id p, tb_as_of = as_of_date, tb_accounts = xs, tb_total_debit = fd, tb_total_credit = fc,
                 tb_in_balance = dec_eq td tc\<rparr>))))"

section \<open>The itinerary\<close>

record passenger_item =
  pi_full_name :: string
  pi_passport_number :: "string option"

record flight_item =
  fl_pnr :: "string option"
  fl_origin :: "string option"
  fl_dest :: "string option"
  fl_depart :: "string option"
  fl_carrier :: "string option"

record hotel_item =
  ht_name :: "string option"
  ht_city :: "string option"
  ht_check_in :: "string option"
  ht_check_out :: "string option"

record visa_item =
  vi_country :: "string option"
  vi_status :: "string option"

record itinerary =
  it_passengers :: "passenger_item list"
  it_flights :: "flight_item list"
  it_hotels :: "hotel_item list"
  it_visas :: "visa_item list"

fun json_truthy :: "json \<Rightarrow> bool" where
  "json_truthy JNull = False"
| "json_truthy (JBool b) = b"
| "json_truthy (JInt i) = (i \<noteq> 0)"
| "json_truthy (JFloat s) = (s \<notin> {''0.0'', ''-0.0''})"
| "json_truthy (JStr s) = (s \<noteq> [])"
| "json_truthy (JList xs) = (xs \<noteq> [])"
| "json_truthy (JObj kvs) = (kvs \<noteq> [])"

text \<open>An optional text of a response model; a model forbids keys it does not know.\<close>

definition opt_text :: "obj \<Rightarrow> string \<Rightarrow> string option option" where
  "opt_text kvs k = (case map_of kvs k of None \<Rightarrow> Some None | Some JNull \<Rightarrow> Some None | Some (JStr s) \<Rightarrow> Some (Some s) | _ \<Rightarrow> None)"

definition known_keys :: "string list \<Rightarrow> json \<Rightarrow> obj option" where
  "known_keys ks v = (case v of JObj kvs \<Rightarrow> if list_all (\<lambda>(k, _). k \<in> set ks) kvs then Some kvs else None | _ \<Rightarrow> None)"

definition passenger_item_of :: "json \<Rightarrow> passenger_item option" where
  "passenger_item_of v = Option.bind (known_keys [''full_name'', ''passport_number''] v) (\<lambda>kvs.
     case map_of kvs ''full_name'' of Some (JStr n) \<Rightarrow> map_option (\<lambda>pp. \<lparr>pi_full_name = n, pi_passport_number = pp\<rparr>) (opt_text kvs ''passport_number'')
     | _ \<Rightarrow> None)"

definition flight_item_of :: "json \<Rightarrow> flight_item option" where
  "flight_item_of v = Option.bind (known_keys [''pnr'', ''origin'', ''dest'', ''depart'', ''carrier''] v) (\<lambda>kvs.
     Option.bind (opt_text kvs ''pnr'') (\<lambda>a. Option.bind (opt_text kvs ''origin'') (\<lambda>b. Option.bind (opt_text kvs ''dest'') (\<lambda>c.
     Option.bind (opt_text kvs ''depart'') (\<lambda>d. Option.bind (opt_text kvs ''carrier'') (\<lambda>e.
       Some \<lparr>fl_pnr = a, fl_origin = b, fl_dest = c, fl_depart = d, fl_carrier = e\<rparr>))))))"

definition hotel_item_of :: "json \<Rightarrow> hotel_item option" where
  "hotel_item_of v = Option.bind (known_keys [''name'', ''city'', ''check_in'', ''check_out''] v) (\<lambda>kvs.
     Option.bind (opt_text kvs ''name'') (\<lambda>a. Option.bind (opt_text kvs ''city'') (\<lambda>b. Option.bind (opt_text kvs ''check_in'') (\<lambda>c.
     Option.bind (opt_text kvs ''check_out'') (\<lambda>d. Some \<lparr>ht_name = a, ht_city = b, ht_check_in = c, ht_check_out = d\<rparr>)))))"

definition visa_item_of :: "json \<Rightarrow> visa_item option" where
  "visa_item_of v = Option.bind (known_keys [''country'', ''status''] v) (\<lambda>kvs.
     Option.bind (opt_text kvs ''country'') (\<lambda>a. Option.bind (opt_text kvs ''status'') (\<lambda>b. Some \<lparr>vi_country = a, vi_status = b\<rparr>)))"

definition add_opt :: "'a option \<Rightarrow> 'a list \<Rightarrow> 'a list" where
  "add_opt x xs = (case x of None \<Rightarrow> xs | Some y \<Rightarrow> xs @ [y])"

text \<open>One content block: its \<^verbatim>\<open>data\<close> names a kind and carries the value; a malformed value is skipped.\<close>

definition scan_block :: "json \<Rightarrow> itinerary \<Rightarrow> itinerary" where
  "scan_block b acc = (case b of
     JObj block \<Rightarrow> (case map_of block ''data'' of
        Some (JObj data) \<Rightarrow>
          (let kind = (case map_of data ''kind'' of Some k \<Rightarrow> if json_truthy k then Some k else map_of block ''kind'' | None \<Rightarrow> map_of block ''kind'');
               value = (case map_of data ''value'' of None \<Rightarrow> JObj [] | Some v \<Rightarrow> v)
           in if kind = Some (JStr ''passenger'') then acc\<lparr>it_passengers := add_opt (passenger_item_of value) (it_passengers acc)\<rparr>
              else if kind = Some (JStr ''flight'') then acc\<lparr>it_flights := add_opt (flight_item_of value) (it_flights acc)\<rparr>
              else if kind = Some (JStr ''hotel'') then acc\<lparr>it_hotels := add_opt (hotel_item_of value) (it_hotels acc)\<rparr>
              else if kind = Some (JStr ''visa'') then acc\<lparr>it_visas := add_opt (visa_item_of value) (it_visas acc)\<rparr>
              else acc)
      | _ \<Rightarrow> acc)
   | _ \<Rightarrow> acc)"

definition extract_itinerary_blocks :: "json list \<Rightarrow> itinerary" where
  "extract_itinerary_blocks contents = fold (\<lambda>content acc. case content of JList blocks \<Rightarrow> fold scan_block blocks acc | _ \<Rightarrow> acc) contents
     \<lparr>it_passengers = [], it_flights = [], it_hotels = [], it_visas = []\<rparr>"

record itinerary_response =
  ir_tenant_id :: string
  ir_session_id :: string
  ir_itinerary :: itinerary
  ir_total_cost :: money_response

text \<open>\<open>content\<close> is the JSON text of a stored message's blocks.\<close>

definition itinerary_report :: "(block list \<Rightarrow> json) \<Rightarrow> string \<Rightarrow> principal \<Rightarrow> pg_db \<Rightarrow> http_error + itinerary_response" where
  "itinerary_report content session_id p db =
     bind_res (guard_res (session_id \<noteq> []) (HTTP 422 ''query'')) (\<lambda>_.
     bind_res (tenant_uuid p) (\<lambda>t.
       case uuid_text session_id of None \<Rightarrow> Inl (HTTP 404 ''session_not_found'')
       | Some sid \<Rightarrow> (case map_of (db_sessions db) sid of None \<Rightarrow> Inl (HTTP 404 ''session_not_found'')
         | Some row \<Rightarrow>
            if sr_tenant_id row \<noteq> t then Inl (HTTP 404 ''session_not_found'')
            else Inr \<lparr>ir_tenant_id = pr_tenant_id p, ir_session_id = session_id,
                   ir_itinerary = extract_itinerary_blocks (map (\<lambda>m. content (mr_content m)) (pg_session_messages db (sr_id row))),
                   ir_total_cost = \<lparr>mo_amount = ZERO, mo_currency = DEFAULT_CURRENCY\<rparr>\<rparr>)))"

section \<open>Ageing adds up\<close>

fun row_owed :: "aging_row \<Rightarrow> rat" where "row_owed (a, p, due, ccy, party) = dval a - dval p"
fun row_size :: "aging_row \<Rightarrow> rat" where "row_size (a, p, due, ccy, party) = \<bar>dval a\<bar> + \<bar>dval p\<bar>"
fun row_due :: "aging_row \<Rightarrow> py_date" where "row_due (a, p, due, ccy, party) = due"
fun row_party :: "aging_row \<Rightarrow> string \<times> string" where "row_party (a, p, due, ccy, party) = (party, ccy)"
fun row_in_cents :: "aging_row \<Rightarrow> bool" where "row_in_cents (a, p, due, ccy, party) \<longleftrightarrow> dec_scaled 2 a \<and> dec_scaled 2 p"
fun row_outstanding :: "aging_row \<Rightarrow> decimal" where "row_outstanding (a, p, due, ccy, party) = dec_sub a p"

abbreviation row_ccy :: "aging_row \<Rightarrow> string" where "row_ccy r \<equiv> snd (row_party r)"

definition open_rows :: "aging_row list \<Rightarrow> aging_row list" where
  "open_rows rows = filter (\<lambda>r. \<not> dec_le (row_outstanding r) ZERO) rows"

lemma aging_fold:
  "fold (aging_row_step today) rows st =
     (let os = open_rows rows in
      \<lparr>as_buckets = fold (\<lambda>r. add_bucket (classify_bucket (row_due r) today) (row_outstanding r)) os (as_buckets st),
       as_totals = fold (\<lambda>r. add_to (row_ccy r) (row_outstanding r)) os (as_totals st),
       as_parties = fold (\<lambda>r. add_to (row_party r) (row_outstanding r)) os (as_parties st),
       as_currency = (if os = [] then as_currency st else row_ccy (last os))\<rparr>)"
proof (induction rows arbitrary: st)
  case (Cons r rows)
  then show ?case by (cases r) (auto simp: open_rows_def Let_def)
qed (simp add: open_rows_def)

lemma fold_add_to_get:
  "dict_get_or (fold (\<lambda>r. add_to (key r) (x r)) rs d) k ZERO = dec_sum (dict_get_or d k ZERO) (map x (filter (\<lambda>r. key r = k) rs))"
  by (induction rs arbitrary: d) (auto simp: add_to_def dict_get_or_def dict_update_get)

lemma fold_add_to_wf: "wf_dict d \<Longrightarrow> wf_dict (fold (\<lambda>r. add_to (key r) (x r)) rs d)"
  by (induction rs arbitrary: d) (simp_all add: add_to_def)

lemma fold_add_to_keys: "set (dict_keys (fold (\<lambda>r. add_to (key r) (x r)) rs d)) = set (dict_keys d) \<union> key ` set rs"
  by (induction rs arbitrary: d) (auto simp: add_to_def dict_keys_def dom_update [unfolded dom_def])

lemma fold_add_bucket_get:
  "dict_get_or (fold (\<lambda>r. add_bucket (key r) (x r)) rs d) k (0, ZERO)
     = (fst (dict_get_or d k (0, ZERO)) + length (filter (\<lambda>r. key r = k) rs),
        dec_sum (snd (dict_get_or d k (0, ZERO))) (map x (filter (\<lambda>r. key r = k) rs)))"
  by (induction rs arbitrary: d) (auto simp: add_bucket_def dict_get_or_def dict_update_get split: prod.splits)


lemma dval_ZERO [simp]: "dval ZERO = 0" "dec_scaled 2 ZERO" "dec_le x ZERO \<longleftrightarrow> dval x \<le> 0"
  by (simp_all add: ZERO_def dec_scaled_def dval_Dec dec_le_iff)

definition rows_fit :: "aging_row list \<Rightarrow> bool" where
  "rows_fit rows \<longleftrightarrow> list_all row_in_cents rows \<and> (\<Sum>r\<leftarrow>rows. row_size r) * 10 ^ 2 < 10 ^ 28"

lemma row_size_nonneg: "0 \<le> row_size r"
  by (cases r) simp

lemma sum_list_mem_le: "(\<And>x. x \<in> set xs \<Longrightarrow> 0 \<le> f x) \<Longrightarrow> r \<in> set xs \<Longrightarrow> f r \<le> (\<Sum>x\<leftarrow>xs. f x :: rat)"
proof (induction xs)
  case (Cons y ys)
  have "0 \<le> (\<Sum>x\<leftarrow>ys. f x)" by (rule sum_list_nonneg) (use Cons.prems(1) in auto)
  then show ?case using Cons by (auto simp: add_increasing2 add_increasing)
qed simp

lemma sum_list_filter_le: "(\<And>x. 0 \<le> f x) \<Longrightarrow> (\<Sum>x\<leftarrow>filter P xs. f x) \<le> (\<Sum>x\<leftarrow>xs. f x :: rat)"
  by (induction xs) (auto simp: add_increasing)

lemma outstanding_exact:
  assumes "rows_fit rows" "r \<in> set rows"
  shows "dval (row_outstanding r) = row_owed r \<and> dec_scaled 2 (row_outstanding r) \<and> \<bar>row_owed r\<bar> \<le> row_size r"
proof -
  obtain a p d c n where r: "r = (a, p, d, c, n)" by (cases r)
  have "row_size r * 10 ^ 2 \<le> (\<Sum>r\<leftarrow>rows. row_size r) * 10 ^ 2"
    by (intro mult_right_mono sum_list_mem_le row_size_nonneg assms(2)) simp
  then have "(\<bar>dval a\<bar> + \<bar>dval p\<bar>) * 10 ^ 2 < 10 ^ 28" using assms(1) by (simp add: r rows_fit_def)
  moreover have "dec_scaled 2 a" "dec_scaled 2 p" using assms by (auto simp: rows_fit_def r list_all_iff)
  ultimately show ?thesis using dec_sub_scaled [of 2 a p] by (simp add: r)
qed

lemma open_rows_owed: "rows_fit rows \<Longrightarrow> open_rows rows = filter (\<lambda>r. 0 < row_owed r) rows"
  unfolding open_rows_def by (rule filter_cong) (auto simp: outstanding_exact not_le)

lemma amounts_exact:
  assumes "rows_fit rows"
  shows "\<exists>y. dec_quantize (dec_sum ZERO (map row_outstanding (filter P (open_rows rows)))) (-2) = Some y
     \<and> dval y = (\<Sum>r\<leftarrow>filter P (open_rows rows). row_owed r)"
proof -
  let ?rs = "filter P (open_rows rows)" and ?xs = "map row_outstanding (filter P (open_rows rows))"
  have sub: "set ?rs \<subseteq> set rows" by (auto simp: open_rows_def)
  have vals: "map dval ?xs = map row_owed ?rs" using sub outstanding_exact [OF assms] by auto
  then have abs: "map (\<lambda>x. \<bar>dval x\<bar>) ?xs = map (\<lambda>r. \<bar>row_owed r\<bar>) ?rs" by (simp add: map_eq_conv)
  have scaled: "list_all (dec_scaled 2) ?xs" using sub outstanding_exact [OF assms] by (auto simp: list_all_iff)
  have "(\<Sum>x\<leftarrow>?xs. \<bar>dval x\<bar>) = (\<Sum>r\<leftarrow>?rs. \<bar>row_owed r\<bar>)" by (simp only: abs)
  also have "\<dots> \<le> (\<Sum>r\<leftarrow>?rs. row_size r)" using sub outstanding_exact [OF assms] by (intro sum_list_mono) auto
  also have "\<dots> \<le> (\<Sum>r\<leftarrow>rows. row_size r)"
    unfolding open_rows_def filter_filter by (rule sum_list_filter_le [OF row_size_nonneg])
  finally have le: "(\<Sum>x\<leftarrow>?xs. \<bar>dval x\<bar>) * 10 ^ 2 \<le> (\<Sum>r\<leftarrow>rows. row_size r) * 10 ^ 2" by (rule mult_right_mono) simp
  then have small: "(\<bar>dval ZERO\<bar> + (\<Sum>x\<leftarrow>?xs. \<bar>dval x\<bar>)) * 10 ^ 2 < 10 ^ 28" using assms by (simp add: rows_fit_def)
  have s: "dval (dec_sum ZERO ?xs) = (\<Sum>r\<leftarrow>?rs. row_owed r)" "dec_scaled 2 (dec_sum ZERO ?xs)"
    using dec_sum_exact [OF dval_ZERO(2) scaled small] by (simp_all only: vals dval_ZERO add_0)
  have "\<bar>\<Sum>r\<leftarrow>?rs. row_owed r\<bar> \<le> (\<Sum>x\<leftarrow>?xs. \<bar>dval x\<bar>)" 
    using sum_list_abs [of "map dval ?xs"] by (subst vals [symmetric]) (simp only: list.map_comp o_def)
  then have "\<bar>dval (dec_sum ZERO ?xs)\<bar> * 10 ^ 2 \<le> (\<Sum>x\<leftarrow>?xs. \<bar>dval x\<bar>) * 10 ^ 2" unfolding s by (rule mult_right_mono) simp
  then have "\<bar>dval (dec_sum ZERO ?xs)\<bar> * 10 ^ 2 < 10 ^ 28" using le assms by (simp add: rows_fit_def)
  from dec_quantize_exact [OF s(2) this] s(1) show ?thesis by auto
qed


text \<open>What the rows with property \<open>P\<close> owe together, in cents.\<close>

definition owed_in :: "(aging_row \<Rightarrow> bool) \<Rightarrow> aging_row list \<Rightarrow> decimal" where
  "owed_in P rows = the (dec_quantize (dec_sum ZERO (map row_outstanding (filter P (open_rows rows)))) (-2))"

lemma owed_in:
  assumes "rows_fit rows"
  shows "cents (dec_sum ZERO (map row_outstanding (filter P (open_rows rows)))) = Inr (owed_in P rows)"
    "dval (owed_in P rows) = (\<Sum>r\<leftarrow>filter P (open_rows rows). row_owed r)"
  using amounts_exact [OF assms, of P] by (auto simp: cents_def owed_in_def)

lemma map_res_total: "(\<And>x. x \<in> set xs \<Longrightarrow> f x = Inr (g x)) \<Longrightarrow> map_res f xs = Inr (map g xs)"
  by (induction xs) auto

abbreviation aged :: "py_date \<Rightarrow> aging_row list \<Rightarrow> aging_state" where
  "aged today rows \<equiv> fold (aging_row_step today) rows aging_start"

definition report_currency :: "aging_row list \<Rightarrow> string" where
  "report_currency rows = (if open_rows rows = [] then DEFAULT_CURRENCY else row_ccy (last (open_rows rows)))"

lemma aging_start_fields:
  "as_totals aging_start = []" "as_parties aging_start = []" "as_currency aging_start = DEFAULT_CURRENCY" "dict_get_or [] k' v = v" "dict_keys [] = []"
  "b \<in> set EMPTY_BUCKETS \<Longrightarrow> dict_get_or (as_buckets aging_start) b (0, ZERO) = (0, ZERO)"
  by (auto simp: aging_start_def dict_get_or_def dict_keys_def EMPTY_BUCKETS_def)

lemma aged_fields:
  "as_currency (aged today rows) = report_currency rows"
  "dict_get_or (as_totals (aged today rows)) k ZERO = dec_sum ZERO (map row_outstanding (filter (\<lambda>r. row_ccy r = k) (open_rows rows)))"
  "dict_get_or (as_parties (aged today rows)) pk ZERO = dec_sum ZERO (map row_outstanding (filter (\<lambda>r. row_party r = pk) (open_rows rows)))"
  "b \<in> set EMPTY_BUCKETS \<Longrightarrow> dict_get_or (as_buckets (aged today rows)) b (0, ZERO)
     = (length (filter (\<lambda>r. classify_bucket (row_due r) today = b) (open_rows rows)),
        dec_sum ZERO (map row_outstanding (filter (\<lambda>r. classify_bucket (row_due r) today = b) (open_rows rows))))"
  "wf_dict (as_parties (aged today rows))" "set (dict_keys (as_parties (aged today rows))) = row_party ` set (open_rows rows)"
  unfolding aging_fold Let_def
  by (simp_all add: report_currency_def aging_start_fields fold_add_to_get fold_add_bucket_get fold_add_to_wf fold_add_to_keys)

lemma aging_buckets_exact:
  assumes "rows_fit rows"
  shows "aging_buckets_of (aged today rows) = Inr (map (\<lambda>b. \<lparr>bu_bucket = b,
       bu_count = length (filter (\<lambda>r. classify_bucket (row_due r) today = b) (open_rows rows)),
       bu_amount = \<lparr>mo_amount = owed_in (\<lambda>r. classify_bucket (row_due r) today = b) rows, mo_currency = report_currency rows\<rparr>\<rparr>) EMPTY_BUCKETS)"
  unfolding aging_buckets_of_def
  by (rule map_res_total) (simp add: aged_fields owed_in(1) [OF assms])

lemma party_amounts_exact:
  assumes "rows_fit rows"
  shows "party_amounts (aged today rows) = Inr (map (\<lambda>(name, ccy). \<lparr>pt_name = name,
       pt_amount = \<lparr>mo_amount = owed_in (\<lambda>r. row_party r = (name, ccy)) rows, mo_currency = ccy\<rparr>\<rparr>) (dict_keys (as_parties (aged today rows))))"
proof -
  let ?d = "as_parties (aged today rows)"
  have v: "v = dec_sum ZERO (map row_outstanding (filter (\<lambda>r. row_party r = k) (open_rows rows)))" if "(k, v) \<in> set ?d" for k v
  proof -
    have "map_of ?d k = Some v" using that wf_dict_map_of [OF aged_fields(5)] by blast
    then show ?thesis using aged_fields(3) [of today rows k] by (simp add: dict_get_or_def)
  qed
  have "party_amounts (aged today rows) = Inr (map (\<lambda>((name, ccy), amt). \<lparr>pt_name = name,
      pt_amount = \<lparr>mo_amount = owed_in (\<lambda>r. row_party r = (name, ccy)) rows, mo_currency = ccy\<rparr>\<rparr>) ?d)"
    unfolding party_amounts_def by (rule map_res_total) (auto simp: owed_in(1) [OF assms] dest!: v)
  then show ?thesis by (simp add: dict_keys_def o_def case_prod_unfold)
qed

lemma bucket_classes: "classify_bucket d today \<in> set EMPTY_BUCKETS"
  by (simp add: classify_bucket_def EMPTY_BUCKETS_def Let_def)

lemma sum_by_class:
  assumes "distinct bs" "\<And>r. r \<in> set rs \<Longrightarrow> c r \<in> set bs"
  shows "(\<Sum>b\<leftarrow>bs. \<Sum>r\<leftarrow>filter (\<lambda>r. c r = b) rs. f r) = (\<Sum>r\<leftarrow>rs. f r :: rat)"
  using assms(2)
proof (induction rs)
  case (Cons r rs)
  have "(\<Sum>b\<leftarrow>bs. \<Sum>r\<leftarrow>filter (\<lambda>r. c r = b) (r # rs). f r) = (\<Sum>b\<leftarrow>bs. (if c r = b then f r else 0) + (\<Sum>r\<leftarrow>filter (\<lambda>r. c r = b) rs. f r))"
    by (intro arg_cong [where f = sum_list] map_cong) auto
  also have "\<dots> = (\<Sum>b\<leftarrow>bs. if c r = b then f r else 0) + (\<Sum>r\<leftarrow>rs. f r)" using Cons by (simp add: sum_list_addf)
  also have "(\<Sum>b\<leftarrow>bs. if c r = b then f r else 0) = f r"
    using assms(1) Cons.prems [of r] by (simp add: sum_list_distinct_conv_sum_set)
  finally show ?case by simp
qed simp


lemma top_of_sorted:
  fixes f :: "'a \<Rightarrow> rat"
  defines "best n xs \<equiv> take n (sort_key (\<lambda>x. - f x) xs)"
  shows "sorted_wrt (\<ge>) (map f (best n xs))" "set (best n xs) \<subseteq> set xs" "length (best n xs) \<le> n"
    "x \<in> set xs \<Longrightarrow> x \<in> set (best n xs) \<or> (length (best n xs) = n \<and> (\<forall>y\<in>set (best n xs). f x \<le> f y))"
proof -
  let ?s = "sort_key (\<lambda>x. - f x) xs"
  have "sorted (map (\<lambda>x. - f x) ?s)" by (rule sorted_sort_key)
  then have s: "sorted_wrt (\<lambda>x y. f y \<le> f x) ?s" by (simp add: sorted_map)
  then show "sorted_wrt (\<ge>) (map f (best n xs))" by (simp add: best_def sorted_wrt_map sorted_wrt_take)
  show "set (best n xs) \<subseteq> set xs" "length (best n xs) \<le> n" using set_take_subset [of n ?s] by (auto simp: best_def)
  assume "x \<in> set xs"
  then have "x \<in> set (take n ?s @ drop n ?s)" by simp
  then consider "x \<in> set (take n ?s)" | "x \<in> set (drop n ?s)" by (auto simp del: append_take_drop_id)
  then show "x \<in> set (best n xs) \<or> (length (best n xs) = n \<and> (\<forall>y\<in>set (best n xs). f x \<le> f y))"
  proof cases
    case 2
    have "sorted_wrt (\<lambda>x y. f y \<le> f x) (take n ?s @ drop n ?s)" using s by simp
    then have "f x \<le> f y" if "y \<in> set (take n ?s)" for y using 2 that by (auto simp: sorted_wrt_append simp del: append_take_drop_id)
    moreover have "n < length ?s" using 2 by (metis drop_all length_greater_0_conv list.set_cases not_le empty_iff list.set(1))
    ultimately show ?thesis by (auto simp: best_def)
  qed (simp add: best_def)
qed

definition party_total :: "aging_row list \<Rightarrow> string \<times> string \<Rightarrow> rat" where
  "party_total rows k = (\<Sum>r\<leftarrow>filter (\<lambda>r. 0 < row_owed r \<and> row_party r = k) rows. row_owed r)"

abbreviation party_key :: "party_amount \<Rightarrow> string \<times> string" where
  "party_key p \<equiv> (pt_name p, mo_currency (pt_amount p))"

text \<open>The days past due that each bucket stands for, its bounds written out; a document that is not yet due counts as zero days.\<close>

definition bucket_days :: "(string \<times> int set) list" where
  "bucket_days = [(''0-30'', {..30}), (''31-60'', {31..60}), (''61-90'', {61..90}), (''90+'', {91..})]"

definition days_past :: "py_date \<Rightarrow> aging_row \<Rightarrow> int" where
  "days_past today r = (utc_midnight today - utc_midnight (row_due r)) div DAY_US"

lemma days_past_ordinals: "days_past today r = to_ordinal today - to_ordinal (row_due r)"
proof -
  have "utc_midnight today - utc_midnight (row_due r) = (to_ordinal today - to_ordinal (row_due r)) * DAY_US" by (simp add: utc_midnight_def algebra_simps)
  then show ?thesis by (simp add: days_past_def DAY_US_def)
qed

lemma bucket_by_days: "(b, ds) \<in> set bucket_days \<Longrightarrow> classify_bucket (row_due r) today = b \<longleftrightarrow> days_past today r \<in> ds"
  by (auto simp: bucket_days_def classify_bucket_def days_past_ordinals Let_def)

text \<open>Claim C22. The ageing report is the exact account of the documents: while the amounts are in cents and fit the decimal precision, it
  is produced; its four buckets count the open documents that are up to 30, 31 to 60, 61 to 90 and more than 90 days past due, with their exact sums, the amounts of the buckets add up to
  what is outstanding, the total is what is outstanding in the currency of the last open document, and the top
  parties are five with the largest sums, in falling order.
\<close>
theorem aging_report_exact:
  assumes "rows_fit rows"
  shows "\<exists>rep. build_aging today rows tenant a b debtors = Inr rep
     \<and> list_all2 (\<lambda>bu (name, days). let rs = filter (\<lambda>r. 0 < row_owed r \<and> days_past today r \<in> days) rows
          in bu_bucket bu = name \<and> bu_count bu = length rs \<and> dval (mo_amount (bu_amount bu)) = (\<Sum>r\<leftarrow>rs. row_owed r)) (ag_buckets rep) bucket_days
     \<and> (\<Sum>bu\<leftarrow>ag_buckets rep. dval (mo_amount (bu_amount bu))) = (\<Sum>r\<leftarrow>filter (\<lambda>r. 0 < row_owed r) rows. row_owed r)
     \<and> mo_currency (ag_total_outstanding rep) = (case rev (filter (\<lambda>r. 0 < row_owed r) rows) of [] \<Rightarrow> ''INR'' | r # _ \<Rightarrow> row_ccy r)
     \<and> dval (mo_amount (ag_total_outstanding rep))
         = (\<Sum>r\<leftarrow>filter (\<lambda>r. 0 < row_owed r \<and> row_ccy r = mo_currency (ag_total_outstanding rep)) rows. row_owed r)
     \<and> (let best = (if debtors then ag_top_debtors rep else ag_top_creditors rep)
        in length best \<le> 5 \<and> sorted_wrt (\<ge>) (map (\<lambda>p. dval (mo_amount (pt_amount p))) best)
           \<and> (\<forall>p\<in>set best. dval (mo_amount (pt_amount p)) = party_total rows (party_key p))
           \<and> (\<forall>r\<in>set rows. 0 < row_owed r \<longrightarrow> row_party r \<in> party_key ` set best
                \<or> (length best = 5 \<and> (\<forall>p\<in>set best. party_total rows (row_party r) \<le> dval (mo_amount (pt_amount p))))))"
proof -
  note os = open_rows_owed [OF assms]
  let ?cls = "\<lambda>b r. classify_bucket (row_due r) today = b"
  let ?bu = "\<lambda>b. \<lparr>bu_bucket = b, bu_count = length (filter (?cls b) (open_rows rows)),
      bu_amount = \<lparr>mo_amount = owed_in (?cls b) rows, mo_currency = report_currency rows\<rparr>\<rparr>"
  let ?pt = "\<lambda>(n, c). \<lparr>pt_name = n, pt_amount = \<lparr>mo_amount = owed_in (\<lambda>r. row_party r = (n, c)) rows, mo_currency = c\<rparr>\<rparr>"
  let ?ps = "map ?pt (dict_keys (as_parties (aged today rows)))"
  define best where "best = take 5 (sort_key (\<lambda>p. - dval (mo_amount (pt_amount p))) ?ps)"
  have built: "build_aging today rows tenant a b debtors = Inr \<lparr>ag_tenant_id = tenant, ag_from = a, ag_to = b,
      ag_total_outstanding = \<lparr>mo_amount = owed_in (\<lambda>r. row_ccy r = report_currency rows) rows, mo_currency = report_currency rows\<rparr>,
      ag_buckets = map ?bu EMPTY_BUCKETS, ag_top_debtors = (if debtors then best else []), ag_top_creditors = (if debtors then [] else best)\<rparr>"
    by (simp add: build_aging_def aging_buckets_exact [OF assms] party_amounts_exact [OF assms] aged_fields(1,2) owed_in(1) [OF assms] best_def)
  have tot: "dval (owed_in (\<lambda>r. row_party r = k) rows) = party_total rows k" for k
    by (simp add: owed_in(2) [OF assms] os party_total_def)
  note t = top_of_sorted [where f = "\<lambda>p. dval (mo_amount (pt_amount p))" and n = 5 and xs = ?ps, folded best_def]
  have amounts: "dval (mo_amount (pt_amount p)) = party_total rows (party_key p)" if "p \<in> set ?ps" for p
    using that by (auto simp: tot)
  have listed: "row_party r \<in> party_key ` set best \<or> (length best = 5 \<and> (\<forall>p\<in>set best. party_total rows (row_party r) \<le> dval (mo_amount (pt_amount p))))"
    if "r \<in> set rows" "0 < row_owed r" for r
  proof -
    have "row_party r \<in> set (dict_keys (as_parties (aged today rows)))" using that by (simp add: aged_fields(6) os)
    then have m: "?pt (row_party r) \<in> set ?ps" by (simp only: set_map image_eqI)
    have k: "party_key (?pt (row_party r)) = row_party r" by (cases "row_party r") simp
    from t(4) [OF m] show ?thesis
    proof
      assume "?pt (row_party r) \<in> set best"
      then show ?thesis using k by (metis (no_types, lifting) image_eqI)
    qed (use amounts [OF m] k in simp)
  qed
  have cur: "report_currency rows = (case rev (filter (\<lambda>r. 0 < row_owed r) rows) of [] \<Rightarrow> ''INR'' | r # _ \<Rightarrow> row_ccy r)"
    unfolding report_currency_def os DEFAULT_CURRENCY_def by (cases "filter (\<lambda>r. 0 < row_owed r) rows" rule: rev_cases) auto
  have "(\<Sum>b\<leftarrow>EMPTY_BUCKETS. dval (owed_in (?cls b) rows)) = (\<Sum>r\<leftarrow>filter (\<lambda>r. 0 < row_owed r) rows. row_owed r)"
    unfolding owed_in(2) [OF assms] os by (rule sum_by_class) (simp add: EMPTY_BUCKETS_def, rule bucket_classes)
  then have total: "(\<Sum>bu\<leftarrow>map ?bu EMPTY_BUCKETS. dval (mo_amount (bu_amount bu))) = (\<Sum>r\<leftarrow>filter (\<lambda>r. 0 < row_owed r) rows. row_owed r)"
    by (simp add: o_def)
  have best_amounts: "\<forall>p\<in>set best. dval (mo_amount (pt_amount p)) = party_total rows (party_key p)" using t(2) amounts by blast
  have one: "let rs = filter (\<lambda>r. 0 < row_owed r \<and> days_past today r \<in> days) rows
      in bu_bucket (?bu b) = b \<and> bu_count (?bu b) = length rs \<and> dval (mo_amount (bu_amount (?bu b))) = (\<Sum>r\<leftarrow>rs. row_owed r)"
    if "(b, days) \<in> set bucket_days" for b days
    using bucket_by_days [OF that, of _ today] by (simp add: owed_in(2) [OF assms] os)
  have "list_all2 (\<lambda>bu (name, days). let rs = filter (\<lambda>r. 0 < row_owed r \<and> days_past today r \<in> days) rows
      in bu_bucket bu = name \<and> bu_count bu = length rs \<and> dval (mo_amount (bu_amount bu)) = (\<Sum>r\<leftarrow>rs. row_owed r)) (map ?bu (map fst bucket_days)) bucket_days"
    unfolding list.rel_map by (rule list.rel_refl_strong) (use one in fastforce)
  moreover have "map fst bucket_days = EMPTY_BUCKETS" by (simp add: bucket_days_def EMPTY_BUCKETS_def)
  ultimately have buckets: "list_all2 (\<lambda>bu (name, days). let rs = filter (\<lambda>r. 0 < row_owed r \<and> days_past today r \<in> days) rows
      in bu_bucket bu = name \<and> bu_count bu = length rs \<and> dval (mo_amount (bu_amount bu)) = (\<Sum>r\<leftarrow>rs. row_owed r)) (map ?bu EMPTY_BUCKETS) bucket_days" by simp
  show ?thesis unfolding built
    by (intro exI conjI, rule refl) (use buckets total t(1,3) listed best_amounts in \<open>simp_all add: cur Let_def owed_in(2) [OF assms] os split: if_splits\<close>)
qed


section \<open>A ledger of balanced entries is in balance\<close>

abbreviation debits :: "journal_entry_row list \<Rightarrow> rat" where "debits js \<equiv> \<Sum>j\<leftarrow>js. dval (jr_debit j)"
abbreviation credits :: "journal_entry_row list \<Rightarrow> rat" where "credits js \<equiv> \<Sum>j\<leftarrow>js. dval (jr_credit j)"

definition line_ok :: "uuid_int \<Rightarrow> int \<Rightarrow> journal_entry_row \<Rightarrow> bool" where
  "line_ok tenant posted j \<longleftrightarrow> jr_tenant_id j = tenant \<and> jr_posted_at j = posted \<and> dec_scaled 2 (jr_debit j) \<and> dec_scaled 2 (jr_credit j)
     \<and> 0 \<le> dval (jr_debit j) \<and> 0 \<le> dval (jr_credit j)"

lemma dec_negative_iff: "dec_negative x \<longleftrightarrow> dval x < 0"
proof (cases x)
  case (Dec c e)
  have "0 < (10 :: rat) powi e" by simp
  then show ?thesis unfolding Dec dec_negative_def dval_Dec decimal.sel by (metis mult_less_0_iff of_int_less_0_iff order.asym)
qed

lemma dec_eq_iff: "dec_eq x y \<longleftrightarrow> dval x = dval y"
  by (auto simp: dec_eq_def dec_le_iff)

lemma quantize_cents_scaled: "quantize_cents x = Inr y \<Longrightarrow> dec_scaled 2 y"
  by (auto simp: quantize_cents_def dec_quantize_def dec_scaled_def Let_def split: option.splits if_splits)

lemma journal_row_ok: "journal_row_of tenant eid posted src idx l = Inr r \<Longrightarrow> line_ok tenant posted r"
  by (auto simp: journal_row_of_def res_simps line_ok_def dec_negative_iff dest: quantize_cents_scaled)

lemma journal_rows_sums:
  assumes "journal_rows_of tenant eid posted src idx ls td tc = Inr (rs, d, c)"
  shows "list_all (line_ok tenant posted) rs \<and> d = dec_sum td (map jr_debit rs) \<and> c = dec_sum tc (map jr_credit rs)"
  using assms
  by (induction ls arbitrary: idx td tc rs d c) (auto simp: res_simps dest: journal_row_ok)

definition lines_fit :: "journal_entry_row list \<Rightarrow> bool" where
  "lines_fit js \<longleftrightarrow> (debits js + credits js) * 10 ^ 2 < 10 ^ 28"

lemma sum_abs_id: "\<forall>x\<in>set xs. 0 \<le> f x \<Longrightarrow> (\<Sum>x\<leftarrow>xs. \<bar>f x\<bar>) = (\<Sum>x\<leftarrow>xs. f x :: rat)"
  by (induction xs) auto

lemma column_exact:
  assumes "list_all (\<lambda>j. dec_scaled 2 (f j) \<and> 0 \<le> dval (f j)) js" "(\<Sum>j\<leftarrow>js. dval (f j)) * 10 ^ 2 < 10 ^ 28"
  shows "dval (dec_sum ZERO (map f js)) = (\<Sum>j\<leftarrow>js. dval (f j)) \<and> dec_scaled 2 (dec_sum ZERO (map f js))"
proof -
  have "(\<Sum>x\<leftarrow>map f js. \<bar>dval x\<bar>) = (\<Sum>j\<leftarrow>js. dval (f j))"
    using sum_abs_id [of js "\<lambda>j. dval (f j)"] assms(1) by (simp add: o_def list_all_iff)
  then show ?thesis using dec_sum_exact [of 2 ZERO "map f js"] assms by (simp add: o_def list_all_iff)
qed

lemma built_entry_balanced:
  assumes "build_journal_entry tenant eid posted src ls = Inr rs" "lines_fit rs"
  shows "debits rs = credits rs \<and> list_all (line_ok tenant posted) rs"
proof -
  obtain d c where b: "journal_rows_of tenant eid posted src 1 ls ZERO ZERO = Inr (rs, d, c)" "dec_eq d c"
    using assms(1) by (auto simp: build_journal_entry_def res_simps split: if_splits)
  note s = journal_rows_sums [OF b(1)]
  then have nn: "0 \<le> debits rs" "0 \<le> credits rs" by (auto simp: list_all_iff line_ok_def intro!: sum_list_nonneg)
  then have "debits rs * 10 ^ 2 < 10 ^ 28" "credits rs * 10 ^ 2 < 10 ^ 28" using assms(2) by (auto simp: lines_fit_def)
  then have "dval d = debits rs" "dval c = credits rs"
    using s column_exact [of jr_debit rs] column_exact [of jr_credit rs] by (auto simp: list_all_iff line_ok_def)
  then show ?thesis using b(2) s by (simp add: dec_eq_iff)
qed

lemma built_lines: "build_journal_entry tenant eid posted src ls = Inr rs \<Longrightarrow> list_all (line_ok tenant posted) rs"
  by (auto simp: build_journal_entry_def res_simps split: if_splits dest: journal_rows_sums)

lemma sql_sum_exact: "dval (sql_sum xs) = (\<Sum>x\<leftarrow>xs. dval x) \<and> (list_all (dec_scaled 2) xs \<longrightarrow> dec_scaled 2 (sql_sum xs))"
proof (induction xs)
  case (Cons x xs)
  let ?e = "min (dexp x) (dexp (sql_sum xs))"
  have "dval (sql_sum (x # xs)) = (dval x * 10 powi (- ?e) + dval (sql_sum xs) * 10 powi (- ?e)) * 10 powi ?e"
    by (simp add: Let_def dval_Dec dec_aligned_val')
  also have "\<dots> = (dval x + dval (sql_sum xs)) * (10 powi (- ?e) * 10 powi ?e)" by (simp only: algebra_simps)
  also have "10 powi (- ?e) * 10 powi ?e = (1 :: rat)" by (simp add: power_int_minus)
  finally show ?case using Cons by (auto simp: Let_def dec_scaled_def)
qed (simp add: dec_scaled_def)

lemma or_zero_exact [simp]: "dval (or_zero x) = dval x" "dec_scaled 2 x \<Longrightarrow> dec_scaled 2 (or_zero x)"
  by (cases x, auto simp: or_zero_def dval_Dec dec_scaled_def)


lemma fmt_cents:
  assumes "dec_scaled 2 x" "\<bar>dval x\<bar> * 10 ^ 2 < 10 ^ 28"
  shows "\<exists>y. fmt_dec x = Inr (dec_str y) \<and> dval y = dval x \<and> dexp y = -2"
  using dec_quantize_exact [OF assms] by (auto simp: fmt_dec_def cents_def)

definition group_ok :: "ledger_account_row \<times> decimal \<times> decimal \<Rightarrow> bool" where
  "group_ok g \<longleftrightarrow> (case g of (a, d, c) \<Rightarrow> dec_scaled 2 d \<and> dec_scaled 2 c \<and> 0 \<le> dval d \<and> 0 \<le> dval c)"

abbreviation group_size :: "ledger_account_row \<times> decimal \<times> decimal \<Rightarrow> rat" where
  "group_size g \<equiv> dval (fst (snd g)) + dval (snd (snd g))"

lemma trial_row_total:
  assumes "dec_scaled 2 d" "dec_scaled 2 c" "0 \<le> dval d" "0 \<le> dval c" "(dval d + dval c) * 10 ^ 2 < 10 ^ 28"
  shows "\<exists>x. trial_row a d c = Inr x"
proof -
  have "\<bar>dval d\<bar> * 10 ^ 2 < 10 ^ 28" "\<bar>dval c\<bar> * 10 ^ 2 < 10 ^ 28" "\<bar>dval d - dval c\<bar> * 10 ^ 2 < 10 ^ 28"
    "(\<bar>dval d\<bar> + \<bar>dval c\<bar>) * 10 ^ 2 < 10 ^ 28"
    using assms(3-5) by (auto simp: abs_if)
  then show ?thesis using fmt_cents [OF assms(1)] fmt_cents [OF assms(2)] fmt_cents [of "dec_sub d c"] dec_sub_scaled [OF assms(1,2)]
    by (auto simp: trial_row_def)
qed

lemma trial_rows_exact:
  assumes "list_all group_ok gs" "dec_scaled 2 td" "dec_scaled 2 tc" "0 \<le> dval td" "0 \<le> dval tc"
    "(dval td + dval tc + (\<Sum>g\<leftarrow>gs. group_size g)) * 10 ^ 2 < 10 ^ 28"
  shows "\<exists>xs d c. trial_rows iz gs td tc = Inr (xs, d, c) \<and> dec_scaled 2 d \<and> dec_scaled 2 c
     \<and> dval d = dval td + (\<Sum>g\<leftarrow>gs. dval (fst (snd g))) \<and> dval c = dval tc + (\<Sum>g\<leftarrow>gs. dval (snd (snd g)))"
  using assms
proof (induction gs arbitrary: td tc)
  case (Cons g gs)
  obtain a d c where g: "g = (a, d, c)" by (cases g)
  have ok: "dec_scaled 2 d" "dec_scaled 2 c" "0 \<le> dval d" "0 \<le> dval c" using Cons.prems(1) by (auto simp: g group_ok_def)
  have rest: "0 \<le> (\<Sum>g\<leftarrow>gs. group_size g)" 
    using Cons.prems(1) by (intro sum_list_nonneg) (fastforce simp: list_all_iff group_ok_def)
  have small: "(dval td + dval tc + (dval d + dval c) + (\<Sum>g\<leftarrow>gs. group_size g)) * 10 ^ 2 < 10 ^ 28" using Cons.prems(6) by (simp add: g add.assoc)
  have b: "(\<bar>dval td\<bar> + \<bar>dval d\<bar>) * 10 ^ 2 < 10 ^ 28" "(\<bar>dval tc\<bar> + \<bar>dval c\<bar>) * 10 ^ 2 < 10 ^ 28" "(dval d + dval c) * 10 ^ 2 < 10 ^ 28"
    using small rest ok(3,4) Cons.prems(4,5) by auto
  note add = dec_add_scaled [OF Cons.prems(2) ok(1) b(1)] dec_add_scaled [OF Cons.prems(3) ok(2) b(2)]
  show ?case
  proof (cases "dec_is_zero d \<and> dec_is_zero c \<and> \<not> iz")
    case True
    then have "dval d = 0" "dval c = 0" by (simp_all add: dec_is_zero_iff del: dval_zero_iff)
    then show ?thesis using Cons.IH [of td tc] Cons.prems True by (simp add: g del: dval_zero_iff)
  next
    case False
    obtain x where x: "trial_row a d c = Inr x" using trial_row_total [OF ok b(3)] by blast
    have "\<exists>xs d' c'. trial_rows iz gs (dec_add td d) (dec_add tc c) = Inr (xs, d', c') \<and> dec_scaled 2 d' \<and> dec_scaled 2 c'
        \<and> dval d' = dval td + dval d + (\<Sum>g\<leftarrow>gs. dval (fst (snd g))) \<and> dval c' = dval tc + dval c + (\<Sum>g\<leftarrow>gs. dval (snd (snd g)))"
      using Cons.IH [of "dec_add td d" "dec_add tc c"] Cons.prems(1,4,5) ok add small by (simp add: algebra_simps)
    then show ?thesis using False x by (auto simp: g)
  qed
qed auto


definition posted_by :: "uuid_int \<Rightarrow> int \<Rightarrow> journal_entry_row list \<Rightarrow> journal_entry_row list" where
  "posted_by t cutoff js = filter (\<lambda>j. jr_tenant_id j = t \<and> jr_posted_at j \<le> cutoff) js"

text \<open>Neither the entry builder nor the tables tie the account of a line to the line's tenant; the report joins on the account.\<close>

definition own_account :: "uuid_int \<Rightarrow> ledger_account_row list \<Rightarrow> journal_entry_row \<Rightarrow> bool" where
  "own_account t accounts j \<longleftrightarrow> list_ex (\<lambda>a. lr_id a = jr_account_id j \<and> lr_tenant_id a = t) accounts"

definition listed :: "uuid_int \<Rightarrow> int \<Rightarrow> ledger_account_row list \<Rightarrow> journal_entry_row list \<Rightarrow> journal_entry_row list" where
  "listed t cutoff accounts js = filter (own_account t accounts) (posted_by t cutoff js)"

definition stray :: "uuid_int \<Rightarrow> int \<Rightarrow> ledger_account_row list \<Rightarrow> journal_entry_row list \<Rightarrow> journal_entry_row list" where
  "stray t cutoff accounts js = filter (\<lambda>j. \<not> own_account t accounts j) (posted_by t cutoff js)"

lemma listed_and_stray: "(\<Sum>j\<leftarrow>listed t c as js. f j) + (\<Sum>j\<leftarrow>stray t c as js. f j) = (\<Sum>j\<leftarrow>posted_by t c js. f j :: rat)"
proof -
  have "(\<Sum>j\<leftarrow>filter P xs. f j) + (\<Sum>j\<leftarrow>filter (\<lambda>j. \<not> P j) xs. f j) = (\<Sum>j\<leftarrow>xs. f j)" for P and xs :: "journal_entry_row list"
    by (induction xs) simp_all
  then show ?thesis by (simp add: listed_def stray_def)
qed

lemma trial_groups_sum:
  assumes "distinct (map lr_id accounts)"
  shows "(\<Sum>g\<leftarrow>trial_groups collate t cutoff accounts js. dval (fst (snd g))) = debits (listed t cutoff accounts js)"
    "(\<Sum>g\<leftarrow>trial_groups collate t cutoff accounts js. dval (snd (snd g))) = credits (listed t cutoff accounts js)"
proof -
  let ?as = "sort_key (\<lambda>a. collate (lr_code a)) (filter (\<lambda>a. lr_tenant_id a = t) accounts)"
  have d: "distinct (map lr_id ?as)" using assms by (auto simp: distinct_map inj_on_def)
  have m: "jr_account_id j \<in> set (map lr_id ?as)" if "j \<in> set (listed t cutoff accounts js)" for j
    using that unfolding listed_def own_account_def list_ex_iff by (force simp: image_iff)
  have lines: "account_lines t cutoff i js = filter (\<lambda>j. jr_account_id j = i) (listed t cutoff accounts js)" if "i \<in> lr_id ` set ?as" for i
    using that by (auto simp: account_lines_def listed_def posted_by_def own_account_def list_ex_iff intro!: filter_cong)
  have inner: "(\<Sum>j\<leftarrow>account_lines t cutoff (lr_id a) js. f j) = (\<Sum>j\<leftarrow>filter (\<lambda>j. jr_account_id j = lr_id a) (listed t cutoff accounts js). f j)"
    if "a \<in> set ?as" for a and f :: "journal_entry_row \<Rightarrow> rat"
    by (subst lines) (use that in auto)
  have "(\<Sum>a\<leftarrow>?as. \<Sum>j\<leftarrow>account_lines t cutoff (lr_id a) js. f j)
      = (\<Sum>a\<leftarrow>?as. \<Sum>j\<leftarrow>filter (\<lambda>j. jr_account_id j = lr_id a) (listed t cutoff accounts js). f j)" for f :: "journal_entry_row \<Rightarrow> rat"
    by (rule arg_cong [where f = sum_list], rule map_cong [OF refl], rule inner)
  also have "\<dots> f = (\<Sum>j\<leftarrow>listed t cutoff accounts js. f j)" for f :: "journal_entry_row \<Rightarrow> rat"
    using sum_by_class [of "map lr_id ?as" "listed t cutoff accounts js" jr_account_id f, OF d m] by (simp add: o_def)
  finally have "(\<Sum>a\<leftarrow>?as. \<Sum>j\<leftarrow>account_lines t cutoff (lr_id a) js. f j) = (\<Sum>j\<leftarrow>listed t cutoff accounts js. f j)" for f :: "journal_entry_row \<Rightarrow> rat" .
  then show "(\<Sum>g\<leftarrow>trial_groups collate t cutoff accounts js. dval (fst (snd g))) = debits (listed t cutoff accounts js)"
    "(\<Sum>g\<leftarrow>trial_groups collate t cutoff accounts js. dval (snd (snd g))) = credits (listed t cutoff accounts js)"
    by (simp_all add: trial_groups_def Let_def o_def sql_sum_exact)
qed

definition ledger_ok :: "uuid_int \<Rightarrow> journal_entry_row list \<Rightarrow> bool" where
  "ledger_ok t js \<longleftrightarrow> (\<forall>j\<in>set js. jr_tenant_id j = t \<longrightarrow> line_ok t (jr_posted_at j) j)"

lemma trial_groups_ok: "ledger_ok t js \<Longrightarrow> list_all group_ok (trial_groups collate t cutoff accounts js)"
  by (auto simp: trial_groups_def list_all_iff group_ok_def Let_def sql_sum_exact account_lines_def ledger_ok_def line_ok_def
      intro!: or_zero_exact(2) sql_sum_exact [THEN conjunct2, rule_format] sum_list_nonneg)

lemma posted_size: "(\<Sum>g\<leftarrow>gs. group_size g) = (\<Sum>g\<leftarrow>gs. dval (fst (snd g))) + (\<Sum>g\<leftarrow>gs. dval (snd (snd g)))"
  by (simp add: sum_list_addf)


lemma same_cents: "dval x = dval y \<Longrightarrow> dexp x = dexp y \<Longrightarrow> x = y"
  by (cases x, cases y) (simp add: dval_Dec)

lemma built_posted:
  assumes "filter (\<lambda>j. jr_tenant_id j = t) js = concat built" "\<forall>b\<in>set built. \<exists>eid posted src ls. build_journal_entry t eid posted src ls = Inr b"
    "lines_fit (filter (\<lambda>j. jr_tenant_id j = t) js)"
  shows "ledger_ok t js \<and> debits (posted_by t cutoff js) = credits (posted_by t cutoff js)"
proof -
  have lines: "\<exists>posted. list_all (line_ok t posted) b \<and> (lines_fit b \<longrightarrow> debits b = credits b)" if "b \<in> set built" for b
    using assms(2) that built_lines built_entry_balanced by meson
  then have nonneg: "0 \<le> debits b + credits b" if "b \<in> set built" for b
    using that by (fastforce simp: list_all_iff line_ok_def intro!: add_nonneg_nonneg sum_list_nonneg)
  have sums: "debits (concat bs) = (\<Sum>b\<leftarrow>bs. debits b)" "credits (concat bs) = (\<Sum>b\<leftarrow>bs. credits b)" for bs
    by (induction bs) simp_all
  have fit: "lines_fit b" if "b \<in> set built" for b
  proof -
    have "debits b + credits b \<le> (\<Sum>b\<leftarrow>built. debits b + credits b)"
      by (rule sum_list_mem_le) (use that nonneg in auto)
    then show ?thesis using assms(3) by (simp add: lines_fit_def assms(1) sums sum_list_addf)
  qed
  have eqs: "debits (filter (\<lambda>j. jr_posted_at j \<le> cutoff) b) = credits (filter (\<lambda>j. jr_posted_at j \<le> cutoff) b)" if b: "b \<in> set built" for b
  proof -
    obtain posted where p: "list_all (line_ok t posted) b" "debits b = credits b" using lines [OF b] fit [OF b] by blast
    then have "filter (\<lambda>j. jr_posted_at j \<le> cutoff) b = (if posted \<le> cutoff then b else [])"
      by (auto simp: list_all_iff line_ok_def filter_id_conv filter_empty_conv)
    then show ?thesis using p(2) by simp
  qed
  have "(\<Sum>b\<leftarrow>built. debits (filter (\<lambda>j. jr_posted_at j \<le> cutoff) b)) = (\<Sum>b\<leftarrow>built. credits (filter (\<lambda>j. jr_posted_at j \<le> cutoff) b))"
    by (rule arg_cong [where f = sum_list], rule map_cong [OF refl], rule eqs)
  moreover have "posted_by t cutoff js = concat (map (filter (\<lambda>j. jr_posted_at j \<le> cutoff)) built)"
    unfolding posted_by_def filter_concat [symmetric] assms(1) [symmetric] by (simp add: conj_commute)
  moreover have "ledger_ok t js"
    unfolding ledger_ok_def
  proof (intro ballI impI)
    fix j assume "j \<in> set js" "jr_tenant_id j = t"
    then have "j \<in> set (concat built)" unfolding assms(1) [symmetric] by simp
    then obtain b where "b \<in> set built" "j \<in> set b" by auto
    then show "line_ok t (jr_posted_at j) j" using lines [of b] by (auto simp: list_all_iff line_ok_def)
  qed
  ultimately show ?thesis by (simp add: sums o_def)
qed

text \<open>Claim C19. The trial balance of a ledger that was written through \<open>build_journal_entry\<close>, at any date. The report is produced and prints, on each side,
  the exact sum of the lines posted by the end of that day on accounts of the tenant. It says that it is in balance exactly when the lines on other accounts
  (which the join leaves out) have equal debits and credits; so it always is when every line is on an account of the tenant, which neither the builder nor the
  tables enforce, and both sides are then the sum of all debits posted.
\<close>
theorem trial_balance_in_balance:
  assumes tenant: "report_tenant_uuid p = Inr t" and acc: "distinct (map lr_id accounts)"
    and built: "filter (\<lambda>j. jr_tenant_id j = t) js = concat built"
      "\<forall>b\<in>set built. \<exists>eid posted src ls. build_journal_entry t eid posted src ls = Inr b"
    and fit: "lines_fit (filter (\<lambda>j. jr_tenant_id j = t) js)"
  shows "\<exists>r x y. trial_balance_report collate today as_of iz p accounts js = Inr r
     \<and> tb_as_of r = (case as_of of None \<Rightarrow> today | Some d \<Rightarrow> d)
     \<and> tb_total_debit r = dec_str x \<and> tb_total_credit r = dec_str y \<and> dexp x = -2 \<and> dexp y = -2
     \<and> (let cut = utc_midnight (tb_as_of r) + DAY_US - 1
        in dval x = debits (listed t cut accounts js) \<and> dval y = credits (listed t cut accounts js)
           \<and> (tb_in_balance r \<longleftrightarrow> debits (stray t cut accounts js) = credits (stray t cut accounts js))
           \<and> (stray t cut accounts js = [] \<longrightarrow> tb_in_balance r \<and> x = y \<and> dval x = debits (posted_by t cut js)))"
proof -
  let ?date = "case as_of of None \<Rightarrow> today | Some d \<Rightarrow> d"
  let ?cut = "utc_midnight ?date + DAY_US - 1"
  let ?gs = "trial_groups collate t ?cut accounts js" and ?ps = "posted_by t ?cut js"
  let ?ls = "listed t ?cut accounts js" and ?ss = "stray t ?cut accounts js"
  note ok = built_posted [OF built fit, of ?cut]
  have nonneg: "0 \<le> dval (jr_debit j)" "0 \<le> dval (jr_credit j)" if "j \<in> set js" "jr_tenant_id j = t" for j
    using ok that by (auto simp: ledger_ok_def line_ok_def)
  have part: "(\<Sum>j\<leftarrow>?ls. f j) \<le> (\<Sum>j\<leftarrow>filter (\<lambda>j. jr_tenant_id j = t) js. f j)" if "\<And>j. j \<in> set js \<Longrightarrow> jr_tenant_id j = t \<Longrightarrow> 0 \<le> f j" for f :: "journal_entry_row \<Rightarrow> rat"
    using that unfolding listed_def posted_by_def by (induction js) (auto simp: add_increasing)
  have "debits ?ls + credits ?ls \<le> debits (filter (\<lambda>j. jr_tenant_id j = t) js) + credits (filter (\<lambda>j. jr_tenant_id j = t) js)"
    using nonneg by (intro add_mono part) auto
  then have fits: "(debits ?ls + credits ?ls) * 10 ^ 2 < 10 ^ 28" using fit by (simp add: lines_fit_def)
  then have small: "(dval ZERO + dval ZERO + (\<Sum>g\<leftarrow>?gs. group_size g)) * 10 ^ 2 < 10 ^ 28"
    by (simp add: posted_size trial_groups_sum [OF acc])
  obtain xs d c where g: "trial_rows iz ?gs ZERO ZERO = Inr (xs, d, c)" "dec_scaled 2 d" "dec_scaled 2 c" "dval d = debits ?ls" "dval c = credits ?ls"
    using trial_rows_exact [OF trial_groups_ok [OF ok [THEN conjunct1]] _ _ _ _ small, of iz] by (auto simp: trial_groups_sum [OF acc])
  have mem: "j \<in> set js \<and> jr_tenant_id j = t" if "j \<in> set ?ls" for j using that by (auto simp: listed_def posted_by_def)
  have nn: "0 \<le> debits ?ls" "0 \<le> credits ?ls" using nonneg mem by (auto intro!: sum_list_nonneg)
  have s: "\<bar>dval d\<bar> * 10 ^ 2 < 10 ^ 28" "\<bar>dval c\<bar> * 10 ^ 2 < 10 ^ 28" using fits nn by (simp_all add: g(4,5))
  obtain x y where f: "fmt_dec d = Inr (dec_str x)" "fmt_dec c = Inr (dec_str y)" "dval x = dval d" "dval y = dval c" "dexp x = -2" "dexp y = -2"
    using fmt_cents [OF g(2) s(1)] fmt_cents [OF g(3) s(2)] by auto
  have all: "debits ?ls + debits ?ss = debits ?ps" "credits ?ls + credits ?ss = credits ?ps" by (rule listed_and_stray)+
  have eq: "dval d = dval c \<longleftrightarrow> debits ?ss = credits ?ss" using ok all g(4,5) by auto
  have own: "x = y \<and> dval x = debits ?ps" if "?ss = []"
    using that all(1) eq f g(4) by (auto intro!: same_cents)
  let ?r = "\<lparr>tb_tenant_id = pr_tenant_id p, tb_as_of = ?date, tb_accounts = xs, tb_total_debit = dec_str x, tb_total_credit = dec_str y,
     tb_in_balance = dec_eq d c\<rparr>"
  have "trial_balance_report collate today as_of iz p accounts js = Inr ?r" using tenant g(1) f(1,2) by (simp add: trial_balance_report_def Let_def)
  moreover have "dec_eq d c \<longleftrightarrow> debits ?ss = credits ?ss" using eq by (simp add: dec_eq_iff)
  ultimately show ?thesis using f g(4,5) own
    by (intro exI [of _ ?r] exI [of _ x] exI [of _ y]) (simp add: Let_def)
qed

text \<open>Blocks without a \<^verbatim>\<open>data\<close> object, the only ones the runtime stores, contribute nothing to an itinerary.\<close>

lemma itinerary_needs_data:
  assumes "\<forall>c\<in>set contents. \<forall>bs. c = JList bs \<longrightarrow> (\<forall>b\<in>set bs. \<forall>kvs. b = JObj kvs \<longrightarrow> map_of kvs ''data'' = None)"
  shows "extract_itinerary_blocks contents = \<lparr>it_passengers = [], it_flights = [], it_hotels = [], it_visas = []\<rparr>"
proof -
  have blocks: "fold scan_block bs acc = acc" if "\<forall>b\<in>set bs. \<forall>kvs. b = JObj kvs \<longrightarrow> map_of kvs ''data'' = None" for bs acc
    using that by (induction bs) (auto simp: scan_block_def split: json.splits)
  have "fold (\<lambda>content acc. case content of JList blocks \<Rightarrow> fold scan_block blocks acc | _ \<Rightarrow> acc) contents acc = acc" for acc
    using assms by (induction contents) (auto simp: blocks split: json.splits)
  then show ?thesis by (simp add: extract_itinerary_blocks_def)
qed

section \<open>A small ledger\<close>

definition demo_rows :: "aging_row list" where
  "demo_rows = [(Dec 10000 (-2), Dec 2500 (-2), Date 2024 1 10, ''INR'', ''Acme''), (Dec 500 (-2), Dec 500 (-2), Date 2024 1 10, ''USD'', ''Beta'')]"

theorem aging_report_exact_witness:
  "\<exists>rep. build_aging (Date 2024 3 1) demo_rows ''t'' (Date 2024 1 1) (Date 2024 1 31) True = Inr rep
     \<and> mo_currency (ag_total_outstanding rep) = ''INR'' \<and> dval (mo_amount (ag_total_outstanding rep)) = 75"
proof -
  have d: "dval (Dec 10000 (-2)) = 100" "dval (Dec 2500 (-2)) = 25" "dval (Dec 500 (-2)) = 5"
    by (simp_all add: dval_Dec power_int_def power2_eq_square)
  have "rows_fit demo_rows" by (simp add: rows_fit_def demo_rows_def d dec_scaled_def)
  then have "\<exists>rep. build_aging (Date 2024 3 1) demo_rows ''t'' (Date 2024 1 1) (Date 2024 1 31) True = Inr rep
      \<and> mo_currency (ag_total_outstanding rep) = (case rev (filter (\<lambda>r. 0 < row_owed r) demo_rows) of [] \<Rightarrow> ''INR'' | r # _ \<Rightarrow> row_ccy r)
      \<and> dval (mo_amount (ag_total_outstanding rep))
         = (\<Sum>r\<leftarrow>filter (\<lambda>r. 0 < row_owed r \<and> row_ccy r = mo_currency (ag_total_outstanding rep)) demo_rows. row_owed r)"
    using aging_report_exact [of demo_rows "Date 2024 3 1" "''t''" "Date 2024 1 1" "Date 2024 1 31" True] by blast
  then show ?thesis by (auto simp: demo_rows_def d)
qed

definition demo_lines :: "ledger_line list" where
  "demo_lines = [\<lparr>ll_account_id = 5, ll_debit = Dec 1000 (-2), ll_credit = Dec 0 0, ll_memo = None\<rparr>,
     \<lparr>ll_account_id = 6, ll_debit = Dec 0 0, ll_credit = Dec 10 0, ll_memo = None\<rparr>]"

definition demo_account :: "uuid_int \<Rightarrow> string \<Rightarrow> ledger_account_row" where
  "demo_account i c = \<lparr>lr_id = i, lr_tenant_id = 1, lr_code = c, lr_name = c, lr_type = ACC_ASSET\<rparr>"

definition demo_journal :: "journal_entry_row list" where
  "demo_journal = [\<lparr>jr_entry_id = 9, jr_line_no = 1, jr_tenant_id = 1, jr_account_id = 5, jr_debit = Dec 1000 (-2), jr_credit = Dec 0 (-2),
       jr_memo = None, jr_posted_at = 0, jr_source = None\<rparr>,
     \<lparr>jr_entry_id = 9, jr_line_no = 2, jr_tenant_id = 1, jr_account_id = 6, jr_debit = Dec 0 (-2), jr_credit = Dec 1000 (-2),
       jr_memo = None, jr_posted_at = 0, jr_source = None\<rparr>]"

lemma demo_journal_built: "build_journal_entry 1 9 0 None demo_lines = Inr demo_journal"
proof -
  have q: "quantize_cents (Dec 1000 (-2)) = Inr (Dec 1000 (-2))" "quantize_cents (Dec 0 0) = Inr (Dec 0 (-2))"
    "quantize_cents (Dec 10 0) = Inr (Dec 1000 (-2))" "dec_add ZERO (Dec 1000 (-2)) = Dec 1000 (-2)" "dec_add ZERO (Dec 0 (-2)) = ZERO"
    "dec_add (Dec 1000 (-2)) (Dec 0 (-2)) = Dec 1000 (-2)" "dec_eq (Dec 1000 (-2)) (Dec 1000 (-2))"
    by code_simp+
  show ?thesis by (simp add: build_journal_entry_def demo_lines_def journal_row_of_def q dec_negative_def dec_pos_def demo_journal_def)
qed

theorem trial_balance_in_balance_witness:
  "\<exists>r x. trial_balance_report (\<lambda>c. int (length c)) (Date 2024 1 1) None False \<lparr>pr_user_id = [], pr_tenant_id = uuid_str 1, pr_role = []\<rparr>
       [demo_account 5 ''1000'', demo_account 6 ''200''] demo_journal = Inr r \<and> tb_in_balance r \<and> tb_total_debit r = dec_str x \<and> dval x = 10"
proof -
  let ?p = "\<lparr>pr_user_id = [], pr_tenant_id = uuid_str 1, pr_role = []\<rparr>"
  have d: "dval (Dec 1000 (-2)) = 10" "dval (Dec 0 (-2)) = 0" by (simp_all add: dval_Dec power_int_def power2_eq_square)
  have t: "report_tenant_uuid ?p = Inr 1" by (simp add: report_tenant_uuid_def)
  have a: "distinct (map lr_id [demo_account 5 ''1000'', demo_account 6 ''200''])" by (simp add: demo_account_def)
  have own: "stray 1 cut [demo_account 5 ''1000'', demo_account 6 ''200''] demo_journal = []" for cut
    by (simp add: stray_def posted_by_def own_account_def demo_account_def demo_journal_def)
  have m: "filter (\<lambda>j. jr_tenant_id j = 1) demo_journal = demo_journal" by (simp add: demo_journal_def)
  have f: "filter (\<lambda>j. jr_tenant_id j = 1) demo_journal = concat [demo_journal]" by (simp add: m)
  have b: "\<forall>b\<in>set [demo_journal]. \<exists>eid posted src ls. build_journal_entry 1 eid posted src ls = Inr b"
    using demo_journal_built by auto
  have fit: "lines_fit (filter (\<lambda>j. jr_tenant_id j = 1) demo_journal)" unfolding m by (simp add: lines_fit_def demo_journal_def d)
  have late: "0 \<le> utc_midnight (Date 2024 1 1) + DAY_US - 1" by code_simp
  have posted: "debits (posted_by 1 (utc_midnight (Date 2024 1 1) + DAY_US - 1) demo_journal) = 10"
    using late by (simp add: posted_by_def demo_journal_def d)
  from trial_balance_in_balance [OF t a f b fit, of "\<lambda>c. int (length c)" "Date 2024 1 1" None False] posted own
  show ?thesis by (auto simp: Let_def simp del: dval_zero_iff)
qed

end
