(* ===== verification/Audit_Api.thy ===== *)
theory Audit_Api
  imports Agent_Loop Auth_Safety Py_Date
begin

text \<open>
  The audit surface, \<^verbatim>\<open>services/api/src/voyagent_api/audit.py\<close>: the limiter in front of recorded
  authentication failures, the list of audit events and their export as CSV, over the rows of
  \<^verbatim>\<open>schemas/storage/audit.py\<close>. Python's \<^verbatim>\<open>csv.writer\<close>, \<^verbatim>\<open>json.dumps\<close> and \<^verbatim>\<open>isoformat\<close> are modelled as
  far as the source uses them. Shown: a CSV reader gets back exactly the cells of the rows that the
  list route shows, and how many failures one client can have recorded in a minute.
\<close>

section \<open>The failure limiter\<close>

definition INMEM_LIMIT_CAP :: nat where "INMEM_LIMIT_CAP = 2048"
definition RATE_LIMIT :: nat where "RATE_LIMIT = 5"
definition RATE_WINDOW_SECONDS :: int where "RATE_WINDOW_SECONDS = 60"

text \<open>An ordered dictionary from keys to a count and the time of the window's first event.\<close>

type_synonym fail_limiter = "(string, nat \<times> int) dict"

definition touch :: "string \<Rightarrow> nat \<times> int \<Rightarrow> fail_limiter \<Rightarrow> fail_limiter" where
  "touch key v d = AList.delete key d @ [(key, v)]"

fun pop_oldest :: "fail_limiter \<Rightarrow> fail_limiter" where
  "pop_oldest d = (if length d > INMEM_LIMIT_CAP then pop_oldest (tl d) else d)"

declare pop_oldest.simps [simp del]

definition allow_inmem :: "int \<Rightarrow> string \<Rightarrow> fail_limiter \<Rightarrow> bool \<times> fail_limiter" where
  "allow_inmem now key d =
     (case map_of d key of
        None \<Rightarrow> (True, pop_oldest (touch key (1, now) d))
      | Some (count, first_ts) \<Rightarrow>
          if first_ts + RATE_WINDOW_SECONDS \<le> now then (True, pop_oldest (touch key (1, now) d))
          else if count \<ge> RATE_LIMIT then (False, d)
          else (True, touch key (count + 1, first_ts) d))"

definition SYSTEM_TENANT_ID :: string where
  "SYSTEM_TENANT_ID = ''00000000-0000-7000-8000-000000000000''"

definition fail_key :: "string \<Rightarrow> string \<Rightarrow> string" where
  "fail_key remote_addr path = remote_addr @ ''|'' @ path"

record auth_failure =
  af_error_code :: string
  af_method :: string
  af_path :: string
  af_remote_addr :: string
  af_tenant_id :: "string option"

definition failure_event :: "uuid_int \<Rightarrow> int \<Rightarrow> auth_failure \<Rightarrow> audit_event" where
  "failure_event raw now f =
     \<lparr>ae_id = uuid7_like raw, ae_tenant_id = (case af_tenant_id f of Some t \<Rightarrow> if t = [] then SYSTEM_TENANT_ID else t | None \<Rightarrow> SYSTEM_TENANT_ID),
      ae_actor_id = SYSTEM_TENANT_ID, ae_actor_kind = SYSTEM, ae_tool = ''auth.verify'',
      ae_inputs = [(''method'', JStr (af_method f)), (''path'', JStr (af_path f)), (''remote_addr'', JStr (af_remote_addr f))],
      ae_outputs = [], ae_error = Some (py_strip (af_error_code f)), ae_approval_required = False, ae_approved_by = None, ae_approved_at = None,
      ae_started_at = now, ae_completed_at = Some now, ae_status = REJECTED\<rparr>"

text \<open>
  Recording is best effort: without Redis the in-memory limiter decides, an event whose tenant is no entity id cannot be
  built, and then nothing is written. \<open>secs\<close> is the clock of the limiter, \<open>now\<close> that of the event.
\<close>

definition record_auth_failure :: "int \<Rightarrow> int \<Rightarrow> uuid_int \<Rightarrow> auth_failure \<Rightarrow> fail_limiter \<times> audit_event list \<Rightarrow> fail_limiter \<times> audit_event list" where
  "record_auth_failure secs now raw f st =
     (case allow_inmem secs (fail_key (af_remote_addr f) (af_path f)) (fst st) of
        (False, d) \<Rightarrow> (d, snd st)
      | (True, d) \<Rightarrow>
          (let e = failure_event raw now f
           in (d, if entity_id_ok (py_strip (ae_id e)) \<and> entity_id_ok (py_strip (ae_tenant_id e)) \<and> entity_id_ok (ae_actor_id e)
                  then snd st @ [e\<lparr>ae_tenant_id := py_strip (ae_tenant_id e)\<rparr>] else snd st)))"

section \<open>Rows and responses\<close>

record audit_row =
  aw_id :: uuid_int
  aw_tenant_id :: uuid_int
  aw_actor_id :: "uuid_int option"
  aw_actor_kind :: actor_kind
  aw_tool :: string
  aw_driver :: "string option"
  aw_entity_refs :: obj
  aw_inputs :: obj
  aw_outputs :: obj
  aw_error :: "string option"
  aw_approval_required :: bool
  aw_approved_by :: "uuid_int option"
  aw_approved_at :: "int option"
  aw_started_at :: int
  aw_completed_at :: "int option"
  aw_status :: audit_status

record audit_event_response =
  av_id :: string
  av_tenant_id :: string
  av_actor_kind :: string
  av_actor_id :: "string option"
  av_actor_email :: "string option"
  av_kind :: string
  av_summary :: string
  av_payload :: obj
  av_status :: string
  av_created_at :: int

record audit_list_response =
  vl_items :: "audit_event_response list"
  vl_total :: nat
  vl_limit :: int
  vl_offset :: int

fun audit_status_value :: "audit_status \<Rightarrow> string" where
  "audit_status_value STARTED = ''started''"
| "audit_status_value SUCCEEDED = ''succeeded''"
| "audit_status_value FAILED = ''failed''"
| "audit_status_value REJECTED = ''rejected''"
| "audit_status_value CANCELLED = ''cancelled''"

definition nonempty :: "string option \<Rightarrow> string option" where
  "nonempty s = (case s of Some (c # cs) \<Rightarrow> Some (c # cs) | _ \<Rightarrow> None)"

definition row_summary :: "audit_row \<Rightarrow> string" where
  "row_summary r = (case nonempty (aw_error r) of Some e \<Rightarrow> aw_tool r @ '': '' @ e
     | None \<Rightarrow> (case nonempty (aw_driver r) of Some d \<Rightarrow> aw_tool r @ '' via '' @ d @ '' ('' @ audit_status_value (aw_status r) @ '')''
       | None \<Rightarrow> aw_tool r @ '' ('' @ audit_status_value (aw_status r) @ '')''))"

definition wire_status :: "audit_row \<Rightarrow> string" where
  "wire_status r = (if audit_status_value (aw_status r) \<in> {''failed'', ''rejected''} then ''error'' else ''ok'')"

fun actor_kind_value :: "actor_kind \<Rightarrow> string" where
  "actor_kind_value HUMAN = ''human''"
| "actor_kind_value actor_kind.AGENT = ''agent''"
| "actor_kind_value SYSTEM = ''system''"

definition actor_kind_wire :: "audit_row \<Rightarrow> string" where
  "actor_kind_wire r = (let raw = actor_kind_value (aw_actor_kind r) in if raw = ''human'' then ''user'' else raw)"

definition audit_payload :: "audit_row \<Rightarrow> obj" where
  "audit_payload r = [(''inputs'', JObj (aw_inputs r)), (''outputs'', JObj (aw_outputs r)), (''entity_refs'', JObj (aw_entity_refs r))]
     @ (case nonempty (aw_driver r) of None \<Rightarrow> [] | Some d \<Rightarrow> [(''driver'', JStr d)])
     @ (case nonempty (aw_error r) of None \<Rightarrow> [] | Some e \<Rightarrow> [(''error'', JStr e)])
     @ (if aw_approval_required r then [(''approval_required'', JBool True)] else [])
     @ (case aw_approved_by r of None \<Rightarrow> [] | Some u \<Rightarrow> [(''approved_by'', JStr (uuid_str u))])
     @ (case aw_approved_at r of None \<Rightarrow> [] | Some t \<Rightarrow> [(''approved_at'', JStr (isoformat t))])
     @ (case aw_completed_at r of None \<Rightarrow> [] | Some t \<Rightarrow> [(''completed_at'', JStr (isoformat t))])"

definition audit_row_to_response :: "string option \<Rightarrow> audit_row \<Rightarrow> audit_event_response" where
  "audit_row_to_response email r = \<lparr>av_id = uuid_str (aw_id r), av_tenant_id = uuid_str (aw_tenant_id r), av_actor_kind = actor_kind_wire r,
     av_actor_id = map_option uuid_str (aw_actor_id r), av_actor_email = email, av_kind = aw_tool r, av_summary = row_summary r,
     av_payload = audit_payload r, av_status = wire_status r, av_created_at = aw_started_at r\<rparr>"

section \<open>Queries\<close>

record audit_query =
  qa_actor_id :: "string option"
  qa_kind :: "string list option"
  qa_from :: "py_date option"
  qa_to :: "py_date option"

definition tenant_uuid_for_read :: "'z principal_scheme \<Rightarrow> http_error + uuid_int" where
  "tenant_uuid_for_read p = (case uuid_parse (pr_tenant_id p) of None \<Rightarrow> Inl unauthorized | Some t \<Rightarrow> Inr t)"

definition parse_kinds :: "string list option \<Rightarrow> string list option" where
  "parse_kinds raw = (case raw of None \<Rightarrow> None
     | Some items \<Rightarrow> (let out = filter (\<lambda>x. x \<noteq> []) (map py_strip (concat (map (split_commas []) (filter (\<lambda>x. x \<noteq> []) items))))
        in if out = [] then None else Some out))"

definition parse_actor :: "string option \<Rightarrow> http_error + uuid_int option" where
  "parse_actor a = (case a of None \<Rightarrow> Inr None
     | Some s \<Rightarrow> (case uuid_parse s of None \<Rightarrow> Inl (HTTP 422 ''invalid_actor_id'') | Some u \<Rightarrow> Inr (Some u)))"

definition audit_where :: "uuid_int \<Rightarrow> uuid_int option \<Rightarrow> audit_query \<Rightarrow> audit_row \<Rightarrow> bool" where
  "audit_where t actor q r \<longleftrightarrow> aw_tenant_id r = t
     \<and> (case actor of None \<Rightarrow> True | Some a \<Rightarrow> aw_actor_id r = Some a)
     \<and> (case parse_kinds (qa_kind q) of None \<Rightarrow> True | Some ks \<Rightarrow> aw_tool r \<in> set ks)
     \<and> (case qa_from q of None \<Rightarrow> True | Some d \<Rightarrow> utc_midnight d \<le> aw_started_at r)
     \<and> (case qa_to q of None \<Rightarrow> True | Some d \<Rightarrow> aw_started_at r \<le> utc_midnight d + DAY_US - 1)"

text \<open>The users table is read for the addresses of the actors; rows with equal times come in table order.\<close>

record audit_db =
  ab_events :: "audit_row list"
  ab_users :: "(uuid_int, user_row) dict"

definition by_time :: "audit_row list \<Rightarrow> audit_row list" where
  "by_time rs = sort_key (\<lambda>r. - aw_started_at r) rs"

definition email_by_id :: "audit_db \<Rightarrow> audit_row list \<Rightarrow> (uuid_int, string) dict" where
  "email_by_id db rows = map (\<lambda>u. (us_id u, us_email u))
     (filter (\<lambda>u. list_ex (\<lambda>r. aw_actor_id r = Some (us_id u)) rows) (dict_values (ab_users db)))"

definition actor_email_of :: "(uuid_int, string) dict \<Rightarrow> audit_row \<Rightarrow> string option" where
  "actor_email_of emails r = (case aw_actor_id r of None \<Rightarrow> None | Some a \<Rightarrow> map_of emails a)"

definition list_audit_events :: "audit_query \<Rightarrow> int \<Rightarrow> int \<Rightarrow> auth_principal \<Rightarrow> audit_db \<Rightarrow> http_error + audit_list_response" where
  "list_audit_events q limit offset p db =
     bind_res (guard_res (1 \<le> limit \<and> limit \<le> 200 \<and> 0 \<le> offset) (HTTP 422 ''query'')) (\<lambda>_.
     bind_res (tenant_uuid_for_read p) (\<lambda>t.
     bind_res (parse_actor (qa_actor_id q)) (\<lambda>actor.
       let found = filter (audit_where t actor q) (ab_events db);
           rows = take (nat limit) (drop (nat offset) (by_time found));
           emails = email_by_id db rows
       in Inr \<lparr>vl_items = map (\<lambda>r. audit_row_to_response (actor_email_of emails r) r) rows, vl_total = length found,
               vl_limit = limit, vl_offset = offset\<rparr>)))"

section \<open>CSV\<close>

text \<open>\<^verbatim>\<open>csv.writer\<close> with its default dialect: minimal quoting, doubled quotes, rows ended by CR LF.\<close>

definition DQUOTE :: char where "DQUOTE = char_of (34 :: nat)"
definition CR :: char where "CR = char_of (13 :: nat)"
definition LF :: char where "LF = char_of (10 :: nat)"

definition needs_quotes :: "string \<Rightarrow> bool" where
  "needs_quotes f \<longleftrightarrow> list_ex (\<lambda>c. c \<in> {CHR '','', DQUOTE, CR, LF}) f"

definition csv_field :: "string \<Rightarrow> string" where
  "csv_field f = (if needs_quotes f then DQUOTE # concat (map (\<lambda>c. if c = DQUOTE then [DQUOTE, DQUOTE] else [c]) f) @ [DQUOTE] else f)"

definition csv_row :: "string list \<Rightarrow> string" where
  "csv_row fs = (if fs = [[]] then [DQUOTE, DQUOTE] else join_with '','' (map csv_field fs)) @ [CR, LF]"

definition CSV_COLUMNS :: "string list" where
  "CSV_COLUMNS = [''created_at'', ''kind'', ''actor_kind'', ''actor_id'', ''actor_email'', ''status'', ''summary'', ''payload_json'']"

definition AUDIT_CSV_EXPORT_MAX_ROWS :: nat where
  "AUDIT_CSV_EXPORT_MAX_ROWS = 100000"

fun json_dumps :: "json \<Rightarrow> string" where
  "json_dumps JNull = ''null''"
| "json_dumps (JBool b) = (if b then ''true'' else ''false'')"
| "json_dumps (JInt i) = show_int i"
| "json_dumps (JFloat s) = s"
| "json_dumps (JStr s) = json_str s"
| "json_dumps (JList xs) = ''['' @ join_with '', '' (map json_dumps xs) @ '']''"
| "json_dumps (JObj kvs) = ''{'' @ join_with '', '' (map (\<lambda>kv. json_str (fst kv) @ '': '' @ json_dumps (snd kv)) kvs) @ ''}''"

definition csv_cells :: "audit_event_response \<Rightarrow> string list" where
  "csv_cells resp = [isoformat (av_created_at resp), av_kind resp, av_actor_kind resp,
     (case av_actor_id resp of None \<Rightarrow> [] | Some s \<Rightarrow> s), (case av_actor_email resp of None \<Rightarrow> [] | Some s \<Rightarrow> s),
     av_status resp, av_summary resp, json_dumps (JObj (av_payload resp))]"

text \<open>
  The query of the export, written a second time in the source, as a chain of conditions; the count in front of it
  chains the same ones.
\<close>

definition narrowed :: "'a option \<Rightarrow> ('a \<Rightarrow> audit_row \<Rightarrow> bool) \<Rightarrow> audit_row list \<Rightarrow> audit_row list" where
  "narrowed f P rows = (case f of None \<Rightarrow> rows | Some x \<Rightarrow> filter (P x) rows)"

definition export_rows :: "uuid_int \<Rightarrow> audit_query \<Rightarrow> audit_db \<Rightarrow> http_error + audit_row list" where
  "export_rows t q db = bind_res (parse_actor (qa_actor_id q)) (\<lambda>actor.
     Inr (narrowed (qa_to q) (\<lambda>d r. aw_started_at r \<le> utc_midnight d + DAY_US - 1)
         (narrowed (qa_from q) (\<lambda>d r. utc_midnight d \<le> aw_started_at r)
         (narrowed (parse_kinds (qa_kind q)) (\<lambda>ks r. aw_tool r \<in> set ks)
         (narrowed actor (\<lambda>a r. aw_actor_id r = Some a)
         (filter (\<lambda>r. aw_tenant_id r = t) (ab_events db)))))))"

definition build_audit_query_for_export :: "uuid_int \<Rightarrow> audit_query \<Rightarrow> audit_db \<Rightarrow> http_error + audit_row list" where
  "build_audit_query_for_export t q db = bind_res (export_rows t q db) (\<lambda>rows. Inr (by_time rows))"

definition export_audit_csv :: "py_date \<Rightarrow> audit_query \<Rightarrow> auth_principal \<Rightarrow> audit_db \<Rightarrow> http_error + string \<times> string" where
  "export_audit_csv today q p db =
     bind_res (tenant_uuid_for_read p) (\<lambda>t.
     bind_res (export_rows t q db) (\<lambda>counted.
     bind_res (guard_res (\<not> length counted > AUDIT_CSV_EXPORT_MAX_ROWS) (HTTP 400 ''export_too_large'')) (\<lambda>_.
     bind_res (build_audit_query_for_export t q db) (\<lambda>rows.
       let emails = email_by_id db rows
       in Inr (''voyagent-audit-'' @ take 8 (uuid_str t) @ ''-'' @ iso_date today @ ''.csv'',
               csv_row CSV_COLUMNS @ concat (map (\<lambda>r. csv_row (csv_cells (audit_row_to_response (actor_email_of emails r) r))) rows))))))"

text \<open>The two routes, behind the dependency that lets agency administrators in.\<close>

definition audit_list_route :: "auth_env \<Rightarrow> clock \<Rightarrow> string option \<Rightarrow> audit_query \<Rightarrow> int \<Rightarrow> int \<Rightarrow> audit_row list \<Rightarrow> audit_list_response route_act" where
  "audit_list_route env ck authorization q limit offset events =
     act_bind (require_agency_admin env ck authorization) (\<lambda>p.
     act_bind (act_read (\<lambda>db. list_audit_events q limit offset p \<lparr>ab_events = events, ab_users = az_users db\<rparr>)) act_lift)"

definition audit_export_route :: "auth_env \<Rightarrow> clock \<Rightarrow> string option \<Rightarrow> py_date \<Rightarrow> audit_query \<Rightarrow> audit_row list \<Rightarrow> (string \<times> string) route_act" where
  "audit_export_route env ck authorization today q events =
     act_bind (require_agency_admin env ck authorization) (\<lambda>p.
     act_bind (act_read (\<lambda>db. export_audit_csv today q p \<lparr>ab_events = events, ab_users = az_users db\<rparr>)) act_lift)"

section \<open>Reading the export back\<close>

text \<open>A reader of the format, as a state machine: text to rows of cells, \<open>None\<close> for malformed text.\<close>

datatype csv_mode = FieldStart | InField | InQuotes | QuoteSeen

function csv_read :: "csv_mode \<Rightarrow> string \<Rightarrow> string list \<Rightarrow> string \<Rightarrow> string list list option" where
  "csv_read m fld row [] = (if m = FieldStart \<and> row = [] then Some [] else None)"
| "csv_read m fld row (c # cs) =
     (if m = InQuotes then (if c = DQUOTE then csv_read QuoteSeen fld row cs else csv_read InQuotes (fld @ [c]) row cs)
      else if c = CHR '','' then csv_read FieldStart [] (row @ [fld]) cs
      else if c = CR then (case cs of [] \<Rightarrow> None | d # ds \<Rightarrow> if d = LF then map_option ((#) (row @ [fld])) (csv_read FieldStart [] [] ds) else None)
      else if c = DQUOTE then (if m = FieldStart then csv_read InQuotes [] row cs
        else if m = QuoteSeen then csv_read InQuotes (fld @ [DQUOTE]) row cs else None)
      else if m = QuoteSeen then None else csv_read InField (fld @ [c]) row cs)"
  by pat_completeness auto
termination by (relation "measure (\<lambda>(m, fld, row, cs). length cs)") auto

definition csv_parse :: "string \<Rightarrow> string list list option" where
  "csv_parse s = csv_read FieldStart [] [] s"

lemma special_chars [simp]: "DQUOTE \<noteq> CHR '',''" "CR \<noteq> CHR '',''" "CR \<noteq> DQUOTE" "CHR '','' \<noteq> DQUOTE" "DQUOTE \<noteq> CR"
  by code_simp+

lemma read_quoted:
  "csv_read InQuotes fld row (concat (map (\<lambda>c. if c = DQUOTE then [DQUOTE, DQUOTE] else [c]) f) @ DQUOTE # rest) = csv_read QuoteSeen (fld @ f) row rest"
  by (induction f arbitrary: fld) auto

lemma read_plain:
  "\<not> needs_quotes f \<Longrightarrow> m \<in> {FieldStart, InField} \<Longrightarrow> csv_read m fld row (f @ rest) = csv_read (if f = [] then m else InField) (fld @ f) row rest"
proof (induction f arbitrary: m fld)
  case (Cons c f)
  then have c: "c \<noteq> CHR '',''" "c \<noteq> CR" "c \<noteq> DQUOTE" "\<not> needs_quotes f" by (auto simp: needs_quotes_def)
  then show ?case using Cons.prems(2) Cons.IH [of InField "fld @ [c]"] by auto
qed simp

lemma read_field:
  "csv_read FieldStart [] row (csv_field f @ CHR '','' # rest) = csv_read FieldStart [] (row @ [f]) rest"
  "csv_read FieldStart [] row (csv_field f @ CR # LF # rest) = map_option ((#) (row @ [f])) (csv_read FieldStart [] [] rest)"
  by (simp_all add: csv_field_def read_plain read_quoted)

lemma read_fields:
  "fs \<noteq> [] \<Longrightarrow> csv_read FieldStart [] row (join_with '','' (map csv_field fs) @ CR # LF # rest) = map_option ((#) (row @ fs)) (csv_read FieldStart [] [] rest)"
proof (induction fs arbitrary: row)
  case (Cons f fs)
  then show ?case by (cases fs) (simp_all add: read_field)
qed simp

lemma read_row: "fs \<noteq> [] \<Longrightarrow> csv_read FieldStart [] [] (csv_row fs @ rest) = map_option ((#) fs) (csv_read FieldStart [] [] rest)"
  by (auto simp: csv_row_def read_fields)

lemma csv_roundtrip: "\<forall>fs\<in>set rows. fs \<noteq> [] \<Longrightarrow> csv_parse (concat (map csv_row rows)) = Some rows"
  unfolding csv_parse_def by (induction rows) (simp_all add: read_row)


lemma export_rows_where:
  "export_rows t q db = bind_res (parse_actor (qa_actor_id q)) (\<lambda>actor. Inr (filter (audit_where t actor q) (ab_events db)))"
proof -
  have "narrowed (qa_to q) (\<lambda>d r. aw_started_at r \<le> utc_midnight d + DAY_US - 1)
      (narrowed (qa_from q) (\<lambda>d r. utc_midnight d \<le> aw_started_at r)
      (narrowed (parse_kinds (qa_kind q)) (\<lambda>ks r. aw_tool r \<in> set ks)
      (narrowed actor (\<lambda>a r. aw_actor_id r = Some a) (filter (\<lambda>r. aw_tenant_id r = t) (ab_events db))))) = filter (audit_where t actor q) (ab_events db)" for actor
    unfolding narrowed_def audit_where_def [abs_def] by (simp add: conj_ac split: option.split)
  then show ?thesis by (simp add: export_rows_def)
qed

lemma email_lookup:
  assumes "aw_actor_id r = Some a" "r \<in> set rows"
  shows "map_of (email_by_id db rows) a = map_of (map (\<lambda>u. (us_id u, us_email u)) (dict_values (ab_users db))) a"
proof -
  have keep: "map_of (map (\<lambda>u. (us_id u, us_email u)) (filter P us)) a = map_of (map (\<lambda>u. (us_id u, us_email u)) us) a" if "\<And>u. us_id u = a \<Longrightarrow> P u"
    for P :: "user_row \<Rightarrow> bool" and us
    using that by (induction us) auto
  show ?thesis unfolding email_by_id_def by (rule keep) (use assms in \<open>auto simp: list_ex_iff\<close>)
qed

lemma actor_email_independent:
  "r \<in> set rows \<Longrightarrow> r \<in> set rows' \<Longrightarrow> actor_email_of (email_by_id db rows) r = actor_email_of (email_by_id db rows') r"
  by (auto simp: actor_email_of_def email_lookup split: option.split)

text \<open>Claim C21. The export is readable and complete: when it is delivered, to an administrator of the tenant, a CSV reader gets the header and one row
  of cells per event, and these are, page by page, the cells of the events that the list route shows for the same filters, with
  the same total: events of the caller's tenant only, newest first, and at most 100000.
\<close>
theorem audit_csv_roundtrip:
  assumes "audit_export_route env ck authorization today q events adb = (Inr (file, body), adb')"
  shows "\<exists>p t rows cells. get_current_principal env ck authorization adb = (Inr p, adb') \<and> pr_role p = ''agency_admin'' \<and> uuid_parse (pr_tenant_id p) = Some t
     \<and> csv_parse body = Some (CSV_COLUMNS # cells) \<and> length cells = length rows \<and> length rows \<le> 100000
     \<and> set rows \<subseteq> set events \<and> (\<forall>r\<in>set rows. aw_tenant_id r = t) \<and> sorted_wrt (\<lambda>r r'. aw_started_at r' \<le> aw_started_at r) rows
     \<and> (\<forall>limit offset l. list_audit_events q limit offset p \<lparr>ab_events = events, ab_users = az_users adb'\<rparr> = Inr l
          \<longrightarrow> vl_total l = length cells \<and> map csv_cells (vl_items l) = take (nat limit) (drop (nat offset) cells))"
proof -
  obtain p where p: "get_current_principal env ck authorization adb = (Inr p, adb')" "pr_role p = ''agency_admin''"
    and ex: "export_audit_csv today q p \<lparr>ab_events = events, ab_users = az_users adb'\<rparr> = Inr (file, body)"
    using assms by (auto simp: audit_export_route_def require_agency_admin_def act_simps split: if_splits)
  let ?db = "\<lparr>ab_events = events, ab_users = az_users adb'\<rparr>"
  obtain t actor where t: "tenant_uuid_for_read p = Inr t" "parse_actor (qa_actor_id q) = Inr actor"
    using ex by (auto simp: export_audit_csv_def export_rows_where res_simps)
  define found where "found = filter (audit_where t actor q) events"
  define cells where "cells = map (\<lambda>r. csv_cells (audit_row_to_response (actor_email_of (email_by_id ?db (by_time found)) r) r)) (by_time found)"
  have b: "body = csv_row CSV_COLUMNS @ concat (map csv_row cells)" and n: "length found \<le> 100000"
    using ex t by (auto simp: export_audit_csv_def build_audit_query_for_export_def export_rows_where res_simps Let_def found_def cells_def
        AUDIT_CSV_EXPORT_MAX_ROWS_def o_def)
  have "csv_parse body = Some (CSV_COLUMNS # cells)"
    using csv_roundtrip [of "CSV_COLUMNS # cells"] by (auto simp: b cells_def csv_cells_def CSV_COLUMNS_def)
  moreover have page: "vl_total l = length cells \<and> map csv_cells (vl_items l) = take (nat limit) (drop (nat offset) cells)"
    if "list_audit_events q limit offset p ?db = Inr l" for limit offset l
  proof -
    have "actor_email_of (email_by_id ?db (take (nat limit) (drop (nat offset) (by_time found)))) r = actor_email_of (email_by_id ?db (by_time found)) r"
      if "r \<in> set (take (nat limit) (drop (nat offset) (by_time found)))" for r
      using that by (intro actor_email_independent) (auto dest: in_set_takeD in_set_dropD)
    then show ?thesis using that t
      by (auto simp: list_audit_events_def res_simps Let_def found_def [symmetric] cells_def take_map drop_map by_time_def)
  qed
  moreover have "uuid_parse (pr_tenant_id p) = Some t" using t(1) by (auto simp: tenant_uuid_for_read_def split: option.splits)
  moreover have "sorted_wrt (\<lambda>r r'. aw_started_at r' \<le> aw_started_at r) (by_time found)"
    using sorted_sort_key [of "\<lambda>r. - aw_started_at r" found] by (simp add: by_time_def sorted_map)
  ultimately show ?thesis using p n
    by (intro exI [of _ p] exI [of _ t] exI [of _ "by_time found"] exI [of _ cells])
       (auto simp: cells_def by_time_def found_def audit_where_def)
qed

definition demo_event :: audit_row where
  "demo_event = \<lparr>aw_id = 9, aw_tenant_id = 1, aw_actor_id = Some 2, aw_actor_kind = HUMAN, aw_tool = ''search_flights'',
     aw_driver = Some ''amadeus, test'', aw_entity_refs = [], aw_inputs = [(''origin'', JStr ''DEL'')], aw_outputs = [], aw_error = None,
     aw_approval_required = False, aw_approved_by = None, aw_approved_at = None, aw_started_at = 0, aw_completed_at = Some 1,
     aw_status = SUCCEEDED\<rparr>"

definition demo_query :: audit_query where
  "demo_query = \<lparr>qa_actor_id = None, qa_kind = None, qa_from = None, qa_to = None\<rparr>"

theorem audit_csv_roundtrip_witness:
  "\<exists>name body cells. audit_export_route demo_env demo_clock (Some ''Bearer jwt'') (Date 2026 4 18) demo_query [demo_event] demo_auth_db
       = (Inr (name, body), demo_auth_db)
     \<and> csv_parse body = Some (CSV_COLUMNS # cells)"
proof -
  obtain x where x: "audit_export_route demo_env demo_clock (Some ''Bearer jwt'') (Date 2026 4 18) demo_query [demo_event] demo_auth_db
       = (Inr x, demo_auth_db)"
    by (simp add: audit_export_route_def require_agency_admin_def demo_principal act_simps act_eval export_audit_csv_def tenant_uuid_for_read_def
        build_audit_query_for_export_def export_rows_where res_simps parse_actor_def demo_query_def Let_def AUDIT_CSV_EXPORT_MAX_ROWS_def)
  obtain name body where fb: "x = (name, body)" by (cases x)
  show ?thesis using audit_csv_roundtrip [OF x [unfolded fb]] x fb by blast
qed

section \<open>What the limiter lets through\<close>

fun limiter_run :: "(int \<times> string) list \<Rightarrow> fail_limiter \<Rightarrow> (int \<times> string) list" where
  "limiter_run [] d = []"
| "limiter_run ((now, k) # cs) d = (let (ok, d') = allow_inmem now k d in (if ok then [(now, k)] else []) @ limiter_run cs d')"

text \<open>
  The recorded times of one key fall into windows, latest first: the events of a window start with its first time and
  lie within a minute of it, there are five at most, and windows are a minute apart.
\<close>

fun windows :: "int list list \<Rightarrow> bool" where
  "windows [] = True"
| "windows (ts # rest) = (ts \<noteq> [] \<and> length ts \<le> 5 \<and> (\<forall>t\<in>set ts. hd ts \<le> t \<and> t < hd ts + 60)
     \<and> (case rest of [] \<Rightarrow> True | us # _ \<Rightarrow> hd us + 60 \<le> hd ts) \<and> windows rest)"

abbreviation in_minute :: "int \<Rightarrow> int list \<Rightarrow> int list" where
  "in_minute w ts \<equiv> filter (\<lambda>t. w \<le> t \<and> t < w + 60) ts"

lemma windows_none: "windows ws \<Longrightarrow> (case ws of [] \<Rightarrow> True | ts # _ \<Rightarrow> hd ts + 60 \<le> w) \<Longrightarrow> length (in_minute w (concat ws)) = 0"
proof (induction ws)
  case (Cons ts rest)
  have "in_minute w ts = []" using Cons.prems by (fastforce simp: filter_empty_conv)
  moreover have "case rest of [] \<Rightarrow> True | us # _ \<Rightarrow> hd us + 60 \<le> w" using Cons.prems by (cases rest) auto
  then have "length (in_minute w (concat rest)) = 0" using Cons by simp
  ultimately show ?case by simp
qed simp

lemma windows_one: "windows ws \<Longrightarrow> (case ws of [] \<Rightarrow> True | ts # _ \<Rightarrow> hd ts < w) \<Longrightarrow> length (in_minute w (concat ws)) \<le> 4"
proof (cases ws)
  case (Cons ts rest)
  assume a: "windows ws" "case ws of [] \<Rightarrow> True | ts # _ \<Rightarrow> hd ts < w"
  have "case rest of [] \<Rightarrow> True | us # _ \<Rightarrow> hd us + 60 \<le> w" using a Cons by (cases rest) auto
  then have "length (in_minute w (concat rest)) = 0" using a Cons by (intro windows_none) auto
  moreover have "length (in_minute w ts) \<le> 4" using a Cons by (cases ts) (auto intro: order.trans [OF length_filter_le])
  ultimately show ?thesis using Cons by simp
qed simp

lemma windows_two: "windows ws \<Longrightarrow> length (in_minute w (concat ws)) \<le> 9"
proof (induction ws)
  case (Cons ts rest)
  consider "hd ts < w" | "w + 60 \<le> hd ts" | "w \<le> hd ts" "hd ts < w + 60" by linarith
  then show ?case
  proof cases
    case 1
    then show ?thesis using windows_one [OF Cons.prems, of w] by simp
  next
    case 2
    then have "in_minute w ts = []" using Cons.prems by (auto simp: filter_empty_conv)
    then show ?thesis using Cons by simp
  next
    case 3
    then have "case rest of [] \<Rightarrow> True | us # _ \<Rightarrow> hd us < w" using Cons.prems by (cases rest) auto
    then have "length (in_minute w (concat rest)) \<le> 4" using Cons.prems by (intro windows_one) auto
    moreover have "length (in_minute w ts) \<le> 5" using Cons.prems by (auto intro: order.trans [OF length_filter_le])
    ultimately show ?thesis by simp
  qed
qed simp

definition limiter_sees :: "int \<Rightarrow> string \<Rightarrow> fail_limiter \<Rightarrow> int list list \<Rightarrow> bool" where
  "limiter_sees now k d ws \<longleftrightarrow> windows ws \<and> (\<forall>t\<in>set (concat ws). t \<le> now)
     \<and> map_of d k = (case ws of [] \<Rightarrow> None | ts # _ \<Rightarrow> Some (length ts, hd ts))"

lemma touch_get: "map_of (touch key v d) k = (if k = key then Some v else map_of d k)"
  by (simp add: touch_def map_add_def dict_delete_get split: option.split)

lemma touch_keys: "map fst (touch key v d) = removeAll key (map fst d) @ [key]"
  by (simp add: touch_def delete_keys)

lemma touch_wf: "wf_dict d \<Longrightarrow> wf_dict (touch key v d)" "set (dict_keys (touch key v d)) = insert key (set (dict_keys d))"
  by (auto simp: wf_dict_def dict_keys_def touch_keys distinct_removeAll simp flip: set_map)

lemma pop_oldest_id: "length d \<le> INMEM_LIMIT_CAP \<Longrightarrow> pop_oldest d = d"
  by (subst pop_oldest.simps) simp

text \<open>With few enough keys nothing is evicted, and every call of the limiter continues the windows of its key.\<close>

lemma allow_step:
  assumes "wf_dict d" "set (dict_keys d) \<subseteq> K" "k \<in> K" "finite K" "card K \<le> INMEM_LIMIT_CAP"
    and sees: "\<And>k'. limiter_sees since k' d (ws k')" and "since \<le> now" and call: "allow_inmem now k d = (ok, d')"
  shows "wf_dict d' \<and> set (dict_keys d') \<subseteq> K
     \<and> (\<exists>ws'. (\<forall>k'. limiter_sees now k' d' (ws' k')) \<and> (\<forall>k' w. length (in_minute w (concat (ws' k'))) = length (in_minute w (concat (ws k')))
          + (if ok \<and> k' = k \<and> w \<le> now \<and> now < w + 60 then 1 else 0)))"
proof -
  have keep: "pop_oldest (touch k v d) = touch k v d" for v
  proof (rule pop_oldest_id)
    have "length (touch k v d) = card (set (dict_keys (touch k v d)))"
      using touch_wf(1) [OF assms(1)] distinct_card [of "map fst (touch k v d)"] by (simp add: wf_dict_def dict_keys_def del: set_map)
    also have "\<dots> \<le> card K" using assms(2-4) by (intro card_mono) (auto simp: touch_wf(2))
    finally show "length (touch k v d) \<le> INMEM_LIMIT_CAP" using assms(5) by simp
  qed
  have later: "limiter_sees now k' d (ws k')" for k' using sees [of k'] \<open>since \<le> now\<close> by (auto simp: limiter_sees_def intro: order.trans)
  have d': "wf_dict (touch k v d) \<and> set (dict_keys (touch k v d)) \<subseteq> K" for v using touch_wf(1) [OF assms(1)] assms(2,3) by (simp add: touch_wf(2))
  show ?thesis
  proof (cases "ok")
    case False
    then have "d' = d" using call by (auto simp: allow_inmem_def split: option.splits if_splits)
    then show ?thesis using False later assms(1,2) by (intro conjI exI [of _ ws]) auto
  next
    case True
    obtain W where W: "limiter_sees now k d' W" "\<And>w. length (in_minute w (concat W)) = length (in_minute w (concat (ws k))) + (if w \<le> now \<and> now < w + 60 then 1 else 0)"
      and t: "\<exists>v. d' = touch k v d"
    proof (cases "ws k")
      case Nil
      then have "d' = touch k (1, now) d" using call True later [of k] by (auto simp: allow_inmem_def limiter_sees_def keep)
      then show ?thesis using Nil by (intro that [of "[[now]]"]) (auto simp: limiter_sees_def touch_get)
    next
      case (Cons ts rest)
      have g: "map_of d k = Some (length ts, hd ts)" "windows (ts # rest)" "\<forall>t\<in>set (concat (ts # rest)). t \<le> now"
        using later [of k] by (auto simp: limiter_sees_def Cons)
      show ?thesis
      proof (cases "hd ts + 60 \<le> now")
        case new: True
        then have "d' = touch k (1, now) d" using call g by (auto simp: allow_inmem_def RATE_WINDOW_SECONDS_def keep)
        then show ?thesis using Cons new g by (intro that [of "[now] # ts # rest"]) (auto simp: limiter_sees_def touch_get)
      next
        case old: False
        then have d'': "d' = touch k (length ts + 1, hd ts) d" and short: "length ts < 5"
          using call g True by (auto simp: allow_inmem_def RATE_WINDOW_SECONDS_def RATE_LIMIT_def split: if_splits)
        have ne: "ts \<noteq> []" "hd (ts @ [now]) = hd ts" "hd ts \<le> now" using g(2,3) by (auto simp: hd_append)
        then have "windows ((ts @ [now]) # rest)" using g(2) old short by (auto cong: list.case_cong)
        then have sees': "limiter_sees now k d' ((ts @ [now]) # rest)" using g(3) ne(2) by (auto simp: limiter_sees_def touch_get d'')
        have len': "length (in_minute w (concat ((ts @ [now]) # rest))) = length (in_minute w (concat (ws k))) + (if w \<le> now \<and> now < w + 60 then 1 else 0)" for w
          by (simp add: Cons)
        show ?thesis by (rule that [OF sees' len']) (use d'' in blast)
      qed
    qed
    obtain v where v: "d' = touch k v d" using t by blast
    have "limiter_sees now k' d' ((ws(k := W)) k')" for k'
      using W(1) later [of k'] by (cases "k' = k") (simp_all add: limiter_sees_def v touch_get)
    moreover have "length (in_minute w (concat ((ws(k := W)) k'))) = length (in_minute w (concat (ws k'))) + (if ok \<and> k' = k \<and> w \<le> now \<and> now < w + 60 then 1 else 0)" for k' w
      using W(2) True by simp
    ultimately show ?thesis using d' [of v] v by blast
  qed
qed


text \<open>While no more than 2048 clients fail, at most nine failures of one client are recorded in any sixty seconds: the windows of the limiter are
  fixed, not sliding, so an interval may see the end of one and the start of the next.
\<close>
theorem failures_recorded_per_minute:
  assumes "sorted (map fst cs)" "card (snd ` set cs) \<le> INMEM_LIMIT_CAP"
  shows "length (filter (\<lambda>(t, k'). k' = k \<and> w \<le> t \<and> t < w + 60) (limiter_run cs [])) \<le> 9"
proof -
  have "length (filter (\<lambda>(t, k'). k' = k \<and> w \<le> t \<and> t < w + 60) (limiter_run cs d)) + length (in_minute w (concat (ws k))) \<le> 9"
    if "wf_dict d" "set (dict_keys d) \<subseteq> snd ` set all" "set cs \<subseteq> set all" "card (snd ` set all) \<le> INMEM_LIMIT_CAP"
      "sorted (map fst cs)" "\<forall>c\<in>set cs. since \<le> fst c" "\<And>k'. limiter_sees since k' d (ws k')" for d ws since all
    using that
  proof (induction cs arbitrary: d ws since)
    case Nil
    then show ?case using windows_two [of "ws k" w] Nil.prems(7) [of k] by (simp add: limiter_sees_def)
  next
    case (Cons c cs)
    obtain now k1 where c: "c = (now, k1)" by (cases c)
    obtain ok d' where call: "allow_inmem now k1 d = (ok, d')" by (cases "allow_inmem now k1 d")
    have k1: "k1 \<in> snd ` set all" using Cons.prems(3) c image_eqI [of k1 snd "(now, k1)" "set all"] by simp
    obtain ws' where step: "wf_dict d'" "set (dict_keys d') \<subseteq> snd ` set all" "\<And>k'. limiter_sees now k' d' (ws' k')"
      "\<And>k' w. length (in_minute w (concat (ws' k'))) = length (in_minute w (concat (ws k'))) + (if ok \<and> k' = k1 \<and> w \<le> now \<and> now < w + 60 then 1 else 0)"
      using allow_step [OF Cons.prems(1,2) k1 _ Cons.prems(4,7) _ call] Cons.prems(6) c by auto
    have "length (filter (\<lambda>(t, k'). k' = k \<and> w \<le> t \<and> t < w + 60) (limiter_run cs d')) + length (in_minute w (concat (ws' k))) \<le> 9"
      using Cons.prems(3,5) c by (intro Cons.IH [OF step(1,2) _ Cons.prems(4) _ _ step(3)]) auto
    then show ?case using step(4) [of w k] by (auto simp: c call split: if_splits)
  qed
  from this [where d = "[]" and all = cs and ws = "\<lambda>_. []" and since = "case cs of [] \<Rightarrow> 0 | c # _ \<Rightarrow> fst c"] assms show ?thesis
    by (cases cs) (auto simp: limiter_sees_def wf_dict_def dict_keys_def)
qed

theorem failures_recorded_per_minute_witness:
  "length (filter (\<lambda>(t, k'). k' = ''a'' \<and> 1 \<le> t \<and> t < 1 + 60) (limiter_run (map (\<lambda>t. (t, ''a'')) [0, 59, 59, 59, 59, 60, 60, 60, 60, 60]) [])) \<le> 9
   \<and> length (filter (\<lambda>(t, k'). k' = ''a'' \<and> 1 \<le> t \<and> t < 1 + 60) (limiter_run (map (\<lambda>t. (t, ''a'')) [0, 59, 59, 59, 59, 60, 60, 60, 60, 60]) [])) = 9"
proof
  let ?cs = "map (\<lambda>t. (t, ''a'')) [0 :: int, 59, 59, 59, 59, 60, 60, 60, 60, 60]"
  have "snd ` set ?cs = {''a''}" by auto
  then have c: "card (snd ` set ?cs) \<le> INMEM_LIMIT_CAP" by (simp add: INMEM_LIMIT_CAP_def)
  have s: "sorted (map fst ?cs)" by simp
  show "length (filter (\<lambda>(t, k'). k' = ''a'' \<and> 1 \<le> t \<and> t < 1 + 60) (limiter_run ?cs [])) \<le> 9"
    by (rule failures_recorded_per_minute [OF s c])
  show "length (filter (\<lambda>(t, k'). k' = ''a'' \<and> 1 \<le> t \<and> t < 1 + 60) (limiter_run ?cs [])) = 9"
    by code_simp
qed

end
