(* ===== verification/Driver_Errors.thy ===== *)
theory Driver_Errors
  imports Canonical
begin

text \<open>
  The error hierarchy of the drivers, \<^verbatim>\<open>drivers/_contracts/errors.py\<close>, and what their clients see of an
  HTTP exchange. The remote system is a function of the request and its own state, so that a request whose
  answer is lost may still have taken effect; \<open>sends\<close> repeats one request. Waiting between attempts changes
  nothing and is left out.
\<close>

datatype driver_error_kind = Capability_not_supported | Authentication_error | Authorization_error
  | Rate_limit_error | Transient_error | Permanent_error | Validation_failed | Not_found | Conflict_error
  | Upstream_timeout

record driver_error =
  de_kind :: driver_error_kind
  de_driver :: string
  de_message :: string
  de_vendor_ref :: "string option"
  de_retry_after :: "rat option"

definition driver_error :: "driver_error_kind \<Rightarrow> string \<Rightarrow> string \<Rightarrow> driver_error" where
  "driver_error k driver msg = \<lparr>de_kind = k, de_driver = driver, de_message = msg, de_vendor_ref = None, de_retry_after = None\<rparr>"

text \<open>What leaves a driver method: an error of the hierarchy, a failed validation of a canonical model, or a
  Python error that no handler translates.\<close>

datatype failure = Driver_failure driver_error | Model_failure canon_error | Raw_failure string

record http_response =
  hr_status :: nat
  hr_content :: string
  hr_retry_after :: "string option"

datatype http_reply = Http_timeout | Http_network_error string | Http_response http_response

type_synonym ('q, 'w) remote = "'q \<Rightarrow> 'w \<Rightarrow> http_reply \<times> 'w"

fun sends :: "('w \<Rightarrow> http_reply \<times> 'w) \<Rightarrow> nat \<Rightarrow> 'w \<Rightarrow> http_reply list \<times> 'w" where
  "sends f 0 w = ([], w)"
| "sends f (Suc n) w = (let (r, w1) = f w; (rs, w2) = sends f n w1 in (r # rs, w2))"

lemma sends_length: "length (fst (sends f n w)) = n"
  by (induction n arbitrary: w) (auto simp: case_prod_beta Let_def)

section \<open>Texts in messages\<close>

text \<open>\<^verbatim>\<open>s.split()\<close> without arguments, and the previews of bodies in error messages.\<close>

lemma py_split_shorter: "py_lstrip s \<noteq> [] \<Longrightarrow> length (dropWhile (\<lambda>c. \<not> py_isspace c) (py_lstrip s)) < length s"
proof -
  assume ne: "py_lstrip s \<noteq> []"
  have "length (py_lstrip s) \<le> length s" by (simp add: py_lstrip_def length_dropWhile_le)
  moreover have "\<not> py_isspace (hd (py_lstrip s))" using hd_dropWhile [of py_isspace s] ne by (simp add: py_lstrip_def)
  then have "length (dropWhile (\<lambda>c. \<not> py_isspace c) (py_lstrip s)) < length (py_lstrip s)"
    using ne by (cases "py_lstrip s") (auto simp: le_imp_less_Suc length_dropWhile_le)
  ultimately show ?thesis by linarith
qed

function py_split :: "string \<Rightarrow> string list" where
  "py_split s = (let t = py_lstrip s in if t = [] then []
     else takeWhile (\<lambda>c. \<not> py_isspace c) t # py_split (dropWhile (\<lambda>c. \<not> py_isspace c) t))"
  by pat_completeness auto
termination
  by (relation "measure length") (auto simp: py_split_shorter)

declare py_split.simps [simp del]

definition PREVIEW_BYTES :: nat where
  "PREVIEW_BYTES = 240"

definition preview :: "(string \<Rightarrow> string) \<Rightarrow> string \<Rightarrow> string" where
  "preview decode body = (if body = [] then []
     else let t = join_with '' '' (py_split (decode body))
          in if length t > PREVIEW_BYTES then take PREVIEW_BYTES t @ ''...'' else t)"

section \<open>Money as text\<close>

text \<open>\<^verbatim>\<open>f"{value:.2f}"\<close> for a decimal: hundredths rounded half-even, always two digits after the point.\<close>

definition hundredths :: "decimal \<Rightarrow> nat" where
  "hundredths x = (if - 2 \<le> dexp x then nat \<bar>dcoef x\<bar> * 10 ^ nat (dexp x + 2)
     else round_half_even (nat \<bar>dcoef x\<bar>) (nat (- 2 - dexp x)))"

definition format_2f :: "decimal \<Rightarrow> string" where
  "format_2f x = (let n = hundredths x
     in (if dcoef x < 0 then ''-'' else []) @ show_nat (n div 100) @ ''.'' @ [digit_char (n mod 100 div 10), digit_char (n mod 10)])"

lemma hundredths_val:
  assumes "dec_scaled 2 x"
  shows "rat_of_nat (hundredths x) / 100 = \<bar>dval x\<bar>"
proof -
  have "- 2 \<le> dexp x" using assms by (simp add: dec_scaled_def)
  then have "(10 :: rat) powi (dexp x + 2) = 10 ^ nat (dexp x + 2)" by (simp add: power_int_def)
  moreover have "(10 :: rat) powi (dexp x + 2) = 10 powi dexp x * 100" by (simp add: power_int_add)
  ultimately have "(10 :: rat) ^ nat (dexp x + 2) = 10 powi dexp x * 100" by simp
  then show ?thesis using \<open>- 2 \<le> dexp x\<close>
    by (simp add: hundredths_def dval_def abs_mult abs_of_nat)
qed

lemma digits_val_two: "digits_val (s @ [a, b]) = 100 * digits_val s + 10 * digit_val a + digit_val b"
  using digits_val_snoc [of "s @ [a]" b] by simp

lemma format_2f_body:
  fixes n :: nat
  defines "body \<equiv> show_nat (n div 100) @ ''.'' @ [digit_char (n mod 100 div 10), digit_char (n mod 10)]"
  shows "list_all (\<lambda>c. is_decimal_char c \<or> c = CHR ''.'') body" "body \<noteq> []" "is_decimal_char (hd body)"
    "takeWhile (\<lambda>c. c \<noteq> CHR ''.'') body = show_nat (n div 100)"
    "drop 1 (dropWhile (\<lambda>c. c \<noteq> CHR ''.'') body) = [digit_char (n mod 100 div 10), digit_char (n mod 10)]"
    "digits_val (show_nat (n div 100) @ [digit_char (n mod 100 div 10), digit_char (n mod 10)]) = n"
proof -
  have d: "list_all is_decimal_char (show_nat m)" for m by (rule show_nat_decimal)
  have ne: "show_nat m \<noteq> []" for m by (subst show_nat.simps) simp
  have dot: "\<not> is_decimal_char (CHR ''.'')" by code_simp
  show "list_all (\<lambda>c. is_decimal_char c \<or> c = CHR ''.'') body"
    using d [of "n div 100"] by (auto simp: body_def list_all_iff)
  show "body \<noteq> []" by (simp add: body_def)
  show "is_decimal_char (hd body)" using d [of "n div 100"] ne [of "n div 100"] by (auto simp: body_def list_all_iff hd_append)
  have no_dot: "\<forall>c\<in>set (show_nat m). c \<noteq> CHR ''.''" for m using d [of m] dot by (auto simp: list_all_iff)
  show "takeWhile (\<lambda>c. c \<noteq> CHR ''.'') body = show_nat (n div 100)"
    unfolding body_def using no_dot [of "n div 100"] by (simp add: takeWhile_append2)
  show "drop 1 (dropWhile (\<lambda>c. c \<noteq> CHR ''.'') body) = [digit_char (n mod 100 div 10), digit_char (n mod 10)]"
    unfolding body_def using no_dot [of "n div 100"] by (simp add: dropWhile_append2)
  have "n mod 10 = n mod 100 mod 10" by (simp add: mod_mod_cancel)
  then show "digits_val (show_nat (n div 100) @ [digit_char (n mod 100 div 10), digit_char (n mod 10)]) = n"
    by (simp add: digits_val_two)
qed

text \<open>Reading such a text back with \<^verbatim>\<open>Decimal\<close> gives the amount in hundredths.\<close>

lemma literal_of_format_2f:
  "decimal_literal_of (format_2f x) = Finite (Dec (if dcoef x < 0 then - int (hundredths x) else int (hundredths x)) (- 2))"
proof -
  define body where "body = show_nat (hundredths x div 100) @ ''.'' @ [digit_char (hundredths x mod 100 div 10), digit_char (hundredths x mod 10)]"
  note b = format_2f_body [of "hundredths x", folded body_def]
  have f: "format_2f x = (if dcoef x < 0 then ''-'' else []) @ body" by (simp add: format_2f_def body_def Let_def)
  have cs: "is_decimal_char c \<or> c = CHR ''.'' \<Longrightarrow> \<not> py_isspace c \<and> c \<noteq> CHR ''_'' \<and> c \<notin> {CHR ''e'', CHR ''E''} \<and> c \<noteq> CHR ''-'' \<and> c \<noteq> CHR ''+''" for c
    by (auto simp: is_decimal_char_def py_isspace_def Let_def)
  have sp: "\<not> py_isspace (CHR ''-'')" by code_simp
  have strip: "py_strip (format_2f x) = format_2f x"
    using b(1) cs sp by (intro py_strip_no_space) (auto simp: f list_all_iff)
  have under: "filter (\<lambda>c. c \<noteq> CHR ''_'') (format_2f x) = format_2f x"
    using b(1) cs by (subst filter_id_conv) (auto simp: f list_all_iff)
  have hd: "hd body \<noteq> CHR ''-''" "hd body \<noteq> CHR ''+''" using b(3) decimal_not_sign by auto
  have split: "split_sign (format_2f x) = (dcoef x < 0, body)"
    using hd b(2) by (cases body) (auto simp: f split_sign_def)
  have no_e: "takeWhile (\<lambda>c. c \<notin> {CHR ''e'', CHR ''E''}) body = body" "dropWhile (\<lambda>c. c \<notin> {CHR ''e'', CHR ''E''}) body = []"
    using b(1) cs by (auto simp: list_all_iff takeWhile_eq_all_conv dropWhile_eq_Nil_conv)
  have word: "\<not> special_word (py_upper body)"
  proof -
    obtain c cs' where cs': "body = c # cs'" "is_decimal_char c" using b(2,3) by (cases body) auto
    then have "py_upper body = c # py_upper cs'" by (simp add: py_upper_def upper_chars_decimal)
    moreover have "c \<noteq> CHR ''I''" "c \<noteq> CHR ''N''" "c \<noteq> CHR ''S''" using cs'(2) by (auto simp: is_decimal_char_def)
    ultimately show ?thesis by (auto simp: special_word_def)
  qed
  have digits: "list_all is_decimal_char (show_nat (hundredths x div 100) @ [digit_char (hundredths x mod 100 div 10), digit_char (hundredths x mod 10)])"
    by (simp add: show_nat_decimal)
  show ?thesis
    unfolding decimal_literal_of_def Let_def strip under split prod.case no_e b(4,5)
    using word digits b(6) by (simp add: decimal_exponent_def)
qed

lemma literal_of_format_2f_exact:
  assumes "dec_scaled 2 x"
  shows "\<exists>d. decimal_literal_of (format_2f x) = Finite d \<and> dval d = dval x"
proof -
  have "(0 :: rat) < 10 powi dexp x" by simp
  then have "dval x < 0 \<longleftrightarrow> rat_of_int (dcoef x) < 0" by (metis dval_def mult_less_0_iff not_less_iff_gr_or_eq)
  then have "dval x < 0 \<longleftrightarrow> dcoef x < 0" by simp
  then show ?thesis using hundredths_val [OF assms]
    by (auto simp: literal_of_format_2f dval_Dec field_simps abs_if split: if_splits)
qed

end
