(* ===== verification/Tally.thy ===== *)
theory Tally
  imports Driver_Errors Tool_Runtime
begin

text \<open>
  The accounting driver, \<^verbatim>\<open>drivers/tally\<close>: request envelopes (\<^verbatim>\<open>xml_builder.py\<close>), the parsers of the gateway's answers
  (\<^verbatim>\<open>xml_parser.py\<close>), the mapping between canonical records and vouchers (\<^verbatim>\<open>mapping.py\<close>), errors, the retrying client and the
  driver itself. Element trees are data; writing them as text, reading text and the check of character data belong to lxml and
  are parameters, as is UTF-8 decoding. Shown: a voucher posted for a journal entry carries its lines and balances; what an invoice's
  voucher adds up to; how often a voucher is sent, and when a posting is acknowledged.
\<close>

section \<open>Element trees\<close>

datatype xml = Element (x_tag: string) (x_attrs: "(string, string) dict") (x_text: "string option") (x_children: "xml list")

record tally_env =
  ty_text_ok :: "string \<Rightarrow> bool"
  ty_tostring :: "xml \<Rightarrow> string"
  ty_fromstring :: "string \<Rightarrow> string + xml option"
  ty_decode :: "string \<Rightarrow> string"

definition DRIVER_NAME :: string where
  "DRIVER_NAME = ''tally''"

definition tally_error :: "driver_error_kind \<Rightarrow> string \<Rightarrow> failure" where
  "tally_error k msg = Driver_failure (driver_error k DRIVER_NAME msg)"

text \<open>\<^verbatim>\<open>_sub\<close> without and with text; lxml refuses text with control characters by a \<^verbatim>\<open>ValueError\<close>.\<close>

abbreviation node :: "string \<Rightarrow> xml list \<Rightarrow> xml" where
  "node t xs \<equiv> Element t [] None xs"

abbreviation leaf :: "string \<Rightarrow> string \<Rightarrow> xml" where
  "leaf t s \<equiv> Element t [] (Some s) []"

fun xml_texts :: "xml \<Rightarrow> string list" where
  "xml_texts (Element t as s xs) = (case s of None \<Rightarrow> [] | Some v \<Rightarrow> [v]) @ concat (map xml_texts xs)"

definition serialize :: "tally_env \<Rightarrow> xml \<Rightarrow> failure + string" where
  "serialize env x = bind_res (guard_res (list_all (ty_text_ok env) (xml_texts x)) (Raw_failure ''ValueError'')) (\<lambda>_. Inr (ty_tostring env x))"

section \<open>Request envelopes\<close>

record tally_ledger_entry =
  le_ledger_name :: string
  le_amount :: decimal
  le_is_deemed_positive :: bool

definition envelope :: "string \<Rightarrow> xml list \<Rightarrow> xml" where
  "envelope request_type body = node ''ENVELOPE'' (node ''HEADER'' [leaf ''TALLYREQUEST'' request_type] # body)"

definition export_envelope :: "string \<Rightarrow> string option \<Rightarrow> xml list \<Rightarrow> xml" where
  "export_envelope report_name collection_id body = node ''ENVELOPE''
     (node ''HEADER'' ([leaf ''VERSION'' ''1'', leaf ''TALLYREQUEST'' ''Export'']
        @ (case collection_id of Some c \<Rightarrow> [leaf ''TYPE'' ''Collection'', leaf ''ID'' c]
           | None \<Rightarrow> [leaf ''TYPE'' ''Data'', leaf ''ID'' report_name])) # body)"

definition build_ping :: "tally_env \<Rightarrow> string \<Rightarrow> failure + string" where
  "build_ping env company = serialize env (export_envelope ''Company Info'' None
     [node ''BODY'' [node ''DESC'' [node ''STATICVARIABLES'' [leaf ''SVCurrentCompany'' company]]]])"

definition build_list_ledgers :: "tally_env \<Rightarrow> string \<Rightarrow> failure + string" where
  "build_list_ledgers env company = serialize env (export_envelope ''List of Ledgers'' (Some ''List of Ledgers'')
     [node ''BODY'' [node ''DESC'' [node ''STATICVARIABLES'' [leaf ''SVCurrentCompany'' company],
        node ''TDL'' [node ''TDLMESSAGE'' [Element ''COLLECTION'' [(''NAME'', ''List of Ledgers''), (''ISMODIFY'', ''No'')] None
          [leaf ''TYPE'' ''Ledger'', leaf ''FETCH'' ''NAME, PARENT, OPENINGBALANCE, CURRENCYSYMBOL'']]]]]])"

definition build_fetch_voucher :: "tally_env \<Rightarrow> string \<Rightarrow> string \<Rightarrow> failure + string" where
  "build_fetch_voucher env company voucher_id = serialize env (export_envelope ''Voucher'' (Some ''VoucherCollection'')
     [node ''BODY'' [node ''DESC'' [node ''STATICVARIABLES'' [leaf ''SVCurrentCompany'' company, leaf ''SVVOUCHERID'' voucher_id]]]])"

definition entry_element :: "tally_ledger_entry \<Rightarrow> xml" where
  "entry_element e = node ''ALLLEDGERENTRIES.LIST'' [leaf ''LEDGERNAME'' (le_ledger_name e),
     leaf ''ISDEEMEDPOSITIVE'' (if le_is_deemed_positive e then ''Yes'' else ''No''), leaf ''AMOUNT'' (format_2f (le_amount e))]"

definition voucher_element :: "string \<Rightarrow> py_date \<Rightarrow> string \<Rightarrow> tally_ledger_entry list \<Rightarrow> string option \<Rightarrow> string option \<Rightarrow> xml" where
  "voucher_element vch_type entry_date narration entries number reference =
     Element ''VOUCHER'' [(''VCHTYPE'', vch_type), (''ACTION'', ''Create'')] None
       ([leaf ''DATE'' (compact_date entry_date), leaf ''NARRATION'' narration, leaf ''VOUCHERTYPENAME'' vch_type]
        @ (case number of None \<Rightarrow> [] | Some n \<Rightarrow> [leaf ''VOUCHERNUMBER'' n])
        @ (case reference of None \<Rightarrow> [] | Some r \<Rightarrow> [leaf ''REFERENCE'' r])
        @ map entry_element entries)"

definition import_envelope :: "tally_env \<Rightarrow> xml \<Rightarrow> string \<Rightarrow> failure + string" where
  "import_envelope env voucher company = serialize env (envelope ''Import Data''
     [node ''BODY'' [node ''IMPORTDATA'' [
        node ''REQUESTDESC'' [leaf ''REPORTNAME'' ''Vouchers'', node ''STATICVARIABLES'' [leaf ''SVCurrentCompany'' company]],
        node ''REQUESTDATA'' [Element ''TALLYMESSAGE'' [(''{http://www.w3.org/2000/xmlns/}UDF'', ''TallyUDF'')] None [voucher]]]]])"

definition build_post_journal_voucher :: "tally_env \<Rightarrow> string \<Rightarrow> py_date \<Rightarrow> string \<Rightarrow> tally_ledger_entry list \<Rightarrow> string option \<Rightarrow> failure + string" where
  "build_post_journal_voucher env company entry_date narration entries number =
     import_envelope env (voucher_element ''Journal'' entry_date narration entries number None) company"

definition build_post_sales_voucher :: "tally_env \<Rightarrow> string \<Rightarrow> py_date \<Rightarrow> string \<Rightarrow> tally_ledger_entry list \<Rightarrow> string option \<Rightarrow> string option \<Rightarrow> failure + string" where
  "build_post_sales_voucher env company entry_date narration entries number reference =
     import_envelope env (voucher_element ''Sales'' entry_date narration entries number reference) company"

section \<open>Answers\<close>

record tally_company_info =
  tc_company_name :: string
  tc_books_from_date :: "string option"
  tc_currency :: "string option"

record tally_ledger =
  tg_name :: string
  tg_parent :: "string option"
  tg_opening_balance :: "string option"
  tg_currency :: "string option"

record tally_voucher_ack =
  tv_created :: int
  tv_altered :: int
  tv_last_vch_id :: "string option"

text \<open>Bytes are stripped of ASCII white space only.\<close>

definition ascii_space :: "char \<Rightarrow> bool" where
  "ascii_space c \<longleftrightarrow> (let n = (of_char c :: nat) in 9 \<le> n \<and> n \<le> 13 \<or> n = 32)"

definition parse_xml :: "tally_env \<Rightarrow> string \<Rightarrow> string \<Rightarrow> failure + xml" where
  "parse_xml env body ctx =
     (if list_all ascii_space body then Inl (tally_error Validation_failed (ctx @ '': empty response body from Tally.''))
      else case ty_fromstring env body of
        Inl msg \<Rightarrow> Inl (tally_error Validation_failed (ctx @ '': XML syntax error: '' @ msg))
      | Inr None \<Rightarrow> Inl (tally_error Validation_failed (ctx @ '': no root element in response.''))
      | Inr (Some x) \<Rightarrow> Inr x)"

definition local_name :: "string \<Rightarrow> string" where
  "local_name tag = py_lower (if CHR ''}'' \<in> set tag then tl (dropWhile (\<lambda>c. c \<noteq> CHR ''}'') tag) else tag)"

fun xml_iter :: "xml \<Rightarrow> xml list" where
  "xml_iter (Element t as s xs) = Element t as s xs # concat (map xml_iter xs)"

definition iter_by_local_name :: "xml \<Rightarrow> string \<Rightarrow> xml list" where
  "iter_by_local_name doc name = filter (\<lambda>el. local_name (x_tag el) = py_lower name) (xml_iter doc)"

definition stripped_text :: "xml \<Rightarrow> string option" where
  "stripped_text el = (case x_text el of None \<Rightarrow> None | Some s \<Rightarrow> (let t = py_strip s in if t = [] then None else Some t))"

definition first_text :: "xml \<Rightarrow> string \<Rightarrow> string option" where
  "first_text doc name = (case List.map_filter stripped_text (iter_by_local_name doc name) of [] \<Rightarrow> None | t # _ \<Rightarrow> Some t)"

definition child_text_map :: "xml \<Rightarrow> (string, string) dict" where
  "child_text_map el = fold (\<lambda>c out. case stripped_text c of None \<Rightarrow> out
     | Some t \<Rightarrow> (let key = local_name (x_tag c) in if map_of out key = None then out @ [(key, t)] else out)) (x_children el) []"

definition or_else :: "'a option \<Rightarrow> 'a option \<Rightarrow> 'a option" where
  "or_else a b = (case a of None \<Rightarrow> b | Some x \<Rightarrow> Some x)"

definition parse_int_or :: "string option \<Rightarrow> int" where
  "parse_int_or v = (case v of None \<Rightarrow> 0 | Some s \<Rightarrow> (case py_int (py_strip s) of None \<Rightarrow> 0 | Some i \<Rightarrow> i))"

definition parse_ping_response :: "tally_env \<Rightarrow> string \<Rightarrow> failure + tally_company_info" where
  "parse_ping_response env body = bind_res (parse_xml env body ''parse_ping_response'') (\<lambda>doc.
     case or_else (first_text doc ''companyname'') (first_text doc ''name'') of
       None \<Rightarrow> Inl (tally_error Validation_failed ''parse_ping_response: could not locate a company name in response.'')
     | Some name \<Rightarrow> Inr \<lparr>tc_company_name = name,
         tc_books_from_date = or_else (first_text doc ''booksfrom'') (first_text doc ''startingfrom''),
         tc_currency = or_else (first_text doc ''basecurrencysymbol'') (first_text doc ''currencysymbol'')\<rparr>)"

text \<open>Empty strings are false in \<^verbatim>\<open>or\<close>; the model strips its fields.\<close>

definition nonempty_opt :: "string option \<Rightarrow> string option" where
  "nonempty_opt s = (case s of Some (c # cs) \<Rightarrow> Some (c # cs) | _ \<Rightarrow> None)"

definition ledger_of_element :: "xml \<Rightarrow> tally_ledger option" where
  "ledger_of_element el =
     (let children = child_text_map el;
          name_attr = or_else (nonempty_opt (map_of (x_attrs el) ''NAME'')) (nonempty_opt (map_of (x_attrs el) ''name''))
      in case or_else name_attr (map_of children ''name'') of
           None \<Rightarrow> None
         | Some n \<Rightarrow> Some \<lparr>tg_name = py_strip n, tg_parent = map_of children ''parent'',
             tg_opening_balance = map_of children ''openingbalance'', tg_currency = map_of children ''currencysymbol''\<rparr>)"

definition parse_ledger_list :: "tally_env \<Rightarrow> string \<Rightarrow> failure + tally_ledger list" where
  "parse_ledger_list env body = bind_res (parse_xml env body ''parse_ledger_list'') (\<lambda>doc.
     Inr (List.map_filter ledger_of_element (iter_by_local_name doc ''ledger'')))"

definition parse_voucher_create_response :: "tally_env \<Rightarrow> string \<Rightarrow> failure + tally_voucher_ack" where
  "parse_voucher_create_response env body = bind_res (parse_xml env body ''parse_voucher_create_response'') (\<lambda>doc.
     Inr \<lparr>tv_created = parse_int_or (first_text doc ''created''), tv_altered = parse_int_or (first_text doc ''altered''),
          tv_last_vch_id = first_text doc ''lastvchid''\<rparr>)"

section \<open>Errors of the gateway\<close>

definition ci_prefix :: "string \<Rightarrow> string \<Rightarrow> bool" where
  "ci_prefix p s \<longleftrightarrow> length p \<le> length s \<and> py_lower (take (length p) s) = p"

text \<open>The patterns \<^verbatim>\<open><\s*LINEERROR\s*>(.*?)<\s*/\s*LINEERROR\s*>\<close> over bytes and
  \<^verbatim>\<open>company[^<>\n]{0,80}?not\s+open\<close> over text, both ignoring case, as matchers that return the rest of the input.\<close>

definition match_char :: "char \<Rightarrow> string \<Rightarrow> string option" where
  "match_char c s = (case s of [] \<Rightarrow> None | d # ds \<Rightarrow> if d = c then Some ds else None)"

definition match_tag_end :: "string \<Rightarrow> string option" where
  "match_tag_end s = (let t = dropWhile ascii_space s
     in if ci_prefix ''lineerror'' t then match_char (CHR ''>'') (dropWhile ascii_space (drop 9 t)) else None)"

definition match_open :: "string \<Rightarrow> string option" where
  "match_open s = Option.bind (match_char (CHR ''<'') s) match_tag_end"

definition match_close :: "string \<Rightarrow> string option" where
  "match_close s = Option.bind (match_char (CHR ''<'') s) (\<lambda>t. Option.bind (match_char (CHR ''/'') (dropWhile ascii_space t)) match_tag_end)"

fun until_close :: "string \<Rightarrow> string option" where
  "until_close [] = None"
| "until_close (c # cs) = (if match_close (c # cs) \<noteq> None then Some [] else map_option ((#) c) (until_close cs))"

fun search_line_error :: "string \<Rightarrow> string option" where
  "search_line_error [] = None"
| "search_line_error (c # cs) = (case Option.bind (match_open (c # cs)) until_close of
     Some inner \<Rightarrow> Some inner | None \<Rightarrow> search_line_error cs)"

definition not_open :: "string \<Rightarrow> bool" where
  "not_open s \<longleftrightarrow> ci_prefix ''not'' s \<and> (let t = drop 3 s in t \<noteq> [] \<and> py_isspace (hd t) \<and> ci_prefix ''open'' (dropWhile py_isspace t))"

fun gap_not_open :: "nat \<Rightarrow> string \<Rightarrow> bool" where
  "gap_not_open n s \<longleftrightarrow> not_open s \<or> (case (n, s) of (Suc m, c # cs) \<Rightarrow> c \<notin> {CHR ''<'', CHR ''>'', CHR 10} \<and> gap_not_open m cs | _ \<Rightarrow> False)"

fun company_not_open :: "string \<Rightarrow> bool" where
  "company_not_open [] = False"
| "company_not_open (c # cs) \<longleftrightarrow> (ci_prefix ''company'' (c # cs) \<and> gap_not_open 80 (drop 7 (c # cs))) \<or> company_not_open cs"

definition extract_line_error :: "tally_env \<Rightarrow> string \<Rightarrow> string option" where
  "extract_line_error env body = (case search_line_error body of None \<Rightarrow> None
     | Some inner \<Rightarrow> nonempty_opt (Some (py_strip (ty_decode env inner))))"

definition vendor_ref_of :: "tally_env \<Rightarrow> nat \<Rightarrow> string \<Rightarrow> string" where
  "vendor_ref_of env status body = (let p = preview (ty_decode env) body
     in if p = [] then ''HTTP '' @ show_nat status else ''HTTP '' @ show_nat status @ '' | '' @ p)"

definition map_tally_error :: "tally_env \<Rightarrow> nat \<Rightarrow> string \<Rightarrow> driver_error" where
  "map_tally_error env status body =
     (let err = (\<lambda>k msg. (driver_error k DRIVER_NAME msg)\<lparr>de_vendor_ref := Some (vendor_ref_of env status body)\<rparr>)
      in if status = 401 then err Authentication_error ''Tally gateway rejected basic-auth credentials.''
         else if status = 403 then err Authorization_error ''Tally gateway denied access to the requested company or report.''
         else if status \<in> {503, 504} then err Transient_error (''Tally gateway temporarily unavailable (HTTP '' @ show_nat status @ '').'')
         else if status \<ge> 400 then err Permanent_error (''Tally gateway returned HTTP '' @ show_nat status @ ''.'')
         else case extract_line_error env body of
           Some msg \<Rightarrow> if company_not_open msg
             then err Conflict_error ''Tally reports the configured company is not open. Open the company in Tally Prime on the desktop host and retry.''
             else err Permanent_error (''Tally error: '' @ msg)
         | None \<Rightarrow>
             if (let t = dropWhile ascii_space body in t \<noteq> [] \<and> hd t \<noteq> CHR ''<'')
             then if company_not_open (preview (ty_decode env) body)
                  then err Conflict_error ''Tally reports the configured company is not open.''
                  else err Permanent_error (''Tally returned a non-XML body: '' @ preview (ty_decode env) body)
             else err Permanent_error ''Unrecognised Tally response shape.'')"

section \<open>The client\<close>

record tally_config =
  tf_company_name :: string
  tf_timeout_text :: string
  tf_max_retries :: nat

definition should_retry :: "tally_config \<Rightarrow> nat \<Rightarrow> bool" where
  "should_retry cfg attempts \<longleftrightarrow> attempts \<le> tf_max_retries cfg"

function post_with_retries :: "tally_env \<Rightarrow> tally_config \<Rightarrow> (string, 'w) remote \<Rightarrow> nat \<Rightarrow> string \<Rightarrow> 'w \<Rightarrow> (driver_error + string) \<times> 'w" where
  "post_with_retries env cfg gw attempts xml w =
     (let a = attempts + 1; (reply, w1) = gw xml w
      in case reply of
           Http_timeout \<Rightarrow> if should_retry cfg a then post_with_retries env cfg gw a xml w1
             else (Inl (driver_error Upstream_timeout DRIVER_NAME (''Timeout posting envelope after '' @ tf_timeout_text cfg @ ''s.'')), w1)
         | Http_network_error msg \<Rightarrow> if should_retry cfg a then post_with_retries env cfg gw a xml w1
             else (Inl (driver_error Transient_error DRIVER_NAME (''Network error posting to Tally gateway: '' @ msg)), w1)
         | Http_response r \<Rightarrow>
             if hr_status r < 400 then (Inr (hr_content r), w1)
             else let e = map_tally_error env (hr_status r) (hr_content r)
                  in if de_kind e = Transient_error \<and> should_retry cfg a then post_with_retries env cfg gw a xml w1
                     else (Inl e, w1))"
  by pat_completeness auto
termination
  by (relation "measure (\<lambda>(env, cfg, gw, attempts, xml, w). Suc (tf_max_retries cfg) - attempts)") (auto simp: should_retry_def)

declare post_with_retries.simps [simp del]

definition post_envelope :: "tally_env \<Rightarrow> tally_config \<Rightarrow> (string, 'w) remote \<Rightarrow> string \<Rightarrow> 'w \<Rightarrow> (driver_error + string) \<times> 'w" where
  "post_envelope env cfg gw xml w = post_with_retries env cfg gw 0 xml w"

section \<open>Mapping\<close>

datatype account_type = ASSET | LIABILITY | EQUITY | INCOME | EXPENSE

record ledger_account =
  la_id :: string
  la_tenant_id :: string
  la_code :: string
  la_name :: localized_text
  la_type :: account_type
  la_currency :: "string option"
  la_is_active :: bool
  la_created_at :: int

definition PARENT_TO_TYPE :: "(string, account_type) dict" where
  "PARENT_TO_TYPE = [
     (''cash-in-hand'', ASSET), (''bank accounts'', ASSET), (''bank ocaccounts'', ASSET), (''sundry debtors'', ASSET), (''fixed assets'', ASSET),
     (''investments'', ASSET), (''loans & advances (asset)'', ASSET), (''deposits (asset)'', ASSET), (''stock-in-hand'', ASSET),
     (''current assets'', ASSET), (''misc. expenses (asset)'', ASSET),
     (''sundry creditors'', LIABILITY), (''duties & taxes'', LIABILITY), (''loans (liability)'', LIABILITY), (''secured loans'', LIABILITY),
     (''unsecured loans'', LIABILITY), (''provisions'', LIABILITY), (''current liabilities'', LIABILITY), (''bank od a/c'', LIABILITY),
     (''suspense a/c'', LIABILITY),
     (''capital account'', EQUITY), (''reserves & surplus'', EQUITY),
     (''sales accounts'', INCOME), (''direct incomes'', INCOME), (''indirect incomes'', INCOME),
     (''purchase accounts'', EXPENSE), (''direct expenses'', EXPENSE), (''indirect expenses'', EXPENSE)]"

definition tally_entity_id :: "uuid_int \<Rightarrow> string" where
  "tally_entity_id raw = uuid7_like raw"

definition infer_account_type :: "string option \<Rightarrow> account_type" where
  "infer_account_type parent = (case nonempty_opt parent of None \<Rightarrow> EXPENSE
     | Some p \<Rightarrow> dict_get_or PARENT_TO_TYPE (py_lower (py_strip p)) EXPENSE)"

definition ledger_currency :: "string option \<Rightarrow> string option" where
  "ledger_currency c = (case nonempty_opt c of None \<Rightarrow> None
     | Some s \<Rightarrow> (let u = py_upper (py_strip s) in if length u = 3 \<and> list_all is_alpha_char u then Some u else None))"

definition tally_ledger_to_account :: "uuid_int \<Rightarrow> int \<Rightarrow> string \<Rightarrow> tally_ledger \<Rightarrow> canon_error + ledger_account" where
  "tally_ledger_to_account raw now tenant t =
     bind_res (entity_id_of ''id'' (tally_entity_id raw)) (\<lambda>ident.
     bind_res (entity_id_of ''tenant_id'' tenant) (\<lambda>ten.
     bind_res (opt_res (constrained currency_code_ok ''currency'') (ledger_currency (tg_currency t))) (\<lambda>cur.
       Inr \<lparr>la_id = ident, la_tenant_id = ten, la_code = py_strip (tg_name t), la_name = localized (tg_name t),
            la_type = infer_account_type (tg_parent t), la_currency = cur, la_is_active = True, la_created_at = now\<rparr>)))"

text \<open>The resolver of ledger names belongs to the runtime; \<open>None\<close> is its \<^verbatim>\<open>KeyError\<close>.\<close>

type_synonym name_resolver = "string \<Rightarrow> string option"

definition resolve_ledger_name :: "name_resolver \<Rightarrow> string \<Rightarrow> failure + string" where
  "resolve_ledger_name resolver account_id = (case resolver account_id of
     None \<Rightarrow> Inl (tally_error Validation_failed (''Tally mapping: no ledger name known for account id '' @ repr_str account_id @ ''.''))
   | Some name \<Rightarrow> if py_strip name = []
       then Inl (tally_error Validation_failed (''Tally mapping: resolver returned an empty name for account '' @ repr_str account_id @ ''.''))
       else Inr name)"

text \<open>A line with neither side set fails the assertion; \<^verbatim>\<open>JournalLine\<close> excludes it.\<close>

definition journal_line_to_tally_entry :: "name_resolver \<Rightarrow> journal_line \<Rightarrow> failure + tally_ledger_entry" where
  "journal_line_to_tally_entry resolver l = bind_res (resolve_ledger_name resolver (jl_account_id l)) (\<lambda>name.
     case jl_debit l of
       Some m \<Rightarrow> Inr \<lparr>le_ledger_name = name, le_amount = dec_neg (dec_copy_abs (m_amount m)), le_is_deemed_positive = True\<rparr>
     | None \<Rightarrow> (case jl_credit l of
         Some m \<Rightarrow> Inr \<lparr>le_ledger_name = name, le_amount = dec_copy_abs (m_amount m), le_is_deemed_positive = False\<rparr>
       | None \<Rightarrow> Inl (Raw_failure ''AssertionError'')))"

definition journal_entry_to_tally_xml_body :: "tally_env \<Rightarrow> string \<Rightarrow> name_resolver \<Rightarrow> journal_entry \<Rightarrow> failure + string" where
  "journal_entry_to_tally_xml_body env company resolver e =
     bind_res (map_res (journal_line_to_tally_entry resolver) (je_lines e)) (\<lambda>entries.
       build_post_journal_voucher env company (je_entry_date e) (lt_default (je_narration e)) entries None)"

definition credit_entry :: "string \<Rightarrow> money \<Rightarrow> tally_ledger_entry" where
  "credit_entry name m = \<lparr>le_ledger_name = name, le_amount = dec_copy_abs (m_amount m), le_is_deemed_positive = False\<rparr>"

definition invoice_line_entries :: "name_resolver \<Rightarrow> invoice_line \<Rightarrow> failure + tally_ledger_entry list" where
  "invoice_line_entries resolver l =
     bind_res (case map_of (il_references l) ''sales_ledger_id'' of Some i \<Rightarrow> resolve_ledger_name resolver i | None \<Rightarrow> Inr ''Sales'') (\<lambda>name.
       Inr (credit_entry name (il_subtotal l) # map (\<lambda>t. credit_entry ''Duties & Taxes'' (tl_tax_amount t)) (il_taxes l)))"

definition invoice_to_tally_sales_voucher :: "tally_env \<Rightarrow> string \<Rightarrow> name_resolver \<Rightarrow> invoice \<Rightarrow> failure + string" where
  "invoice_to_tally_sales_voucher env company resolver i =
     bind_res (resolve_ledger_name resolver (in_client_id i)) (\<lambda>party.
     bind_res (map_res (invoice_line_entries resolver) (in_lines i)) (\<lambda>rest.
       build_post_sales_voucher env company (in_issue_date i)
         (case in_notes i of Some n \<Rightarrow> lt_default n | None \<Rightarrow> ''Invoice '' @ in_number i)
         (\<lparr>le_ledger_name = party, le_amount = dec_neg (dec_copy_abs (m_amount (in_grand_total i))), le_is_deemed_positive = True\<rparr> # concat rest)
         (Some (in_number i)) (Some (in_number i))))"

section \<open>The driver\<close>

record tally_driver =
  td_config :: tally_config
  td_tenant_id :: string
  td_resolver :: "name_resolver option"
  td_recent_voucher_ids :: "(string, string) dict"

definition tally_driver_new :: "tally_config \<Rightarrow> string option \<Rightarrow> name_resolver option \<Rightarrow> failure + tally_driver" where
  "tally_driver_new cfg tenant resolver = (case tenant of
     None \<Rightarrow> Inl (tally_error Permanent_error ''tally driver requires an explicit tenant_id; got None.'')
   | Some t \<Rightarrow> Inr \<lparr>td_config = cfg, td_tenant_id = t, td_resolver = resolver, td_recent_voucher_ids = []\<rparr>)"

definition require_resolver :: "tally_driver \<Rightarrow> failure + name_resolver" where
  "require_resolver d = (case td_resolver d of
     None \<Rightarrow> Inl (tally_error Permanent_error ''TallyDriver requires a ledger_name_resolver at construction time for any posting method. None was provided.'')
   | Some r \<Rightarrow> Inr r)"

text \<open>What \<^verbatim>\<open>post_journal\<close> and \<^verbatim>\<open>create_invoice\<close> do with the envelope they built; the identifier is minted from \<open>raw\<close>.\<close>

definition remember :: "string \<Rightarrow> tally_voucher_ack \<Rightarrow> tally_driver \<Rightarrow> tally_driver" where
  "remember i ack d = (case tv_last_vch_id ack of None \<Rightarrow> d
     | Some v \<Rightarrow> d\<lparr>td_recent_voucher_ids := AList.update i v (td_recent_voucher_ids d)\<rparr>)"

definition post_voucher :: "tally_env \<Rightarrow> (string, 'w) remote \<Rightarrow> uuid_int \<Rightarrow> failure + string \<Rightarrow> tally_driver \<Rightarrow> 'w \<Rightarrow> (failure + string) \<times> tally_driver \<times> 'w" where
  "post_voucher env gw raw built d w =
     (case built of Inl e \<Rightarrow> (Inl e, d, w)
      | Inr xml \<Rightarrow>
          (let (reply, w1) = post_envelope env (td_config d) gw xml w
           in case reply of Inl e \<Rightarrow> (Inl (Driver_failure e), d, w1)
              | Inr body \<Rightarrow>
                  (case parse_voucher_create_response env body of Inl e \<Rightarrow> (Inl e, d, w1)
                   | Inr ack \<Rightarrow>
                       if tv_created ack < 1 \<and> tv_altered ack < 1 then (Inl (Driver_failure (map_tally_error env 200 body)), d, w1)
                       else let i = tally_entity_id raw
                            in (Inr i, remember i ack d, w1))))"

definition post_journal :: "tally_env \<Rightarrow> (string, 'w) remote \<Rightarrow> uuid_int \<Rightarrow> journal_entry \<Rightarrow> tally_driver \<Rightarrow> 'w \<Rightarrow> (failure + string) \<times> tally_driver \<times> 'w" where
  "post_journal env gw raw e d w = post_voucher env gw raw
     (bind_res (require_resolver d) (\<lambda>r. journal_entry_to_tally_xml_body env (tf_company_name (td_config d)) r e)) d w"

definition create_invoice :: "tally_env \<Rightarrow> (string, 'w) remote \<Rightarrow> uuid_int \<Rightarrow> invoice \<Rightarrow> tally_driver \<Rightarrow> 'w \<Rightarrow> (failure + string) \<times> tally_driver \<times> 'w" where
  "create_invoice env gw raw i d w = post_voucher env gw raw
     (bind_res (require_resolver d) (\<lambda>r. invoice_to_tally_sales_voucher env (tf_company_name (td_config d)) r i)) d w"

definition driver_res :: "driver_error + 'a \<Rightarrow> failure + 'a" where
  "driver_res r = (case r of Inl e \<Rightarrow> Inl (Driver_failure e) | Inr x \<Rightarrow> Inr x)"

definition model_res :: "canon_error + 'a \<Rightarrow> failure + 'a" where
  "model_res r = (case r of Inl e \<Rightarrow> Inl (Model_failure e) | Inr x \<Rightarrow> Inr x)"

fun accounts_of :: "(nat \<Rightarrow> uuid_int \<times> int) \<Rightarrow> nat \<Rightarrow> string \<Rightarrow> tally_ledger list \<Rightarrow> canon_error + ledger_account list" where
  "accounts_of draw n tenant [] = Inr []"
| "accounts_of draw n tenant (t # ts) =
     bind_res (tally_ledger_to_account (fst (draw n)) (snd (draw n)) tenant t) (\<lambda>a.
     bind_res (accounts_of draw (Suc n) tenant ts) (\<lambda>as. Inr (a # as)))"

definition list_accounts :: "tally_env \<Rightarrow> (string, 'w) remote \<Rightarrow> (nat \<Rightarrow> uuid_int \<times> int) \<Rightarrow> tally_driver \<Rightarrow> 'w \<Rightarrow> (failure + ledger_account list) \<times> 'w" where
  "list_accounts env gw draw d w =
     (let cfg = td_config d; company = tf_company_name cfg
      in case build_ping env company of Inl e \<Rightarrow> (Inl e, w)
         | Inr ping \<Rightarrow>
             (let (reply, w1) = post_envelope env cfg gw ping w
              in case reply of Inl e \<Rightarrow> (Inl (Driver_failure e), w1)
                 | Inr ping_body \<Rightarrow>
                     (case parse_ping_response env ping_body of
                        Inl _ \<Rightarrow> (Inl (Driver_failure (map_tally_error env 200 ping_body)), w1)
                      | Inr _ \<Rightarrow>
                          (case build_list_ledgers env company of Inl e \<Rightarrow> (Inl e, w1)
                           | Inr xml \<Rightarrow> (let (reply2, w2) = post_envelope env cfg gw xml w1
                               in (bind_res (driver_res reply2) (\<lambda>body. bind_res (parse_ledger_list env body) (\<lambda>ls.
                                     model_res (accounts_of draw 0 (td_tenant_id d) ls))), w2))))))"

definition read_invoice :: "string \<Rightarrow> failure + invoice" where
  "read_invoice i = Inl (tally_error Capability_not_supported
     (''TallyDriver v0 does not implement read_invoice. Tally offers no stable external-id lookup; add a TDL voucher-filter report keyed on a ''
      @ ''canonical-id UDF to enable this in a future version.''))"

definition read_account_balance :: "string \<Rightarrow> py_date \<Rightarrow> failure + money" where
  "read_account_balance i as_of = Inl (tally_error Capability_not_supported
     (''TallyDriver v0 supports only opening-balance semantics and lacks the runtime plumbing to expose even that via AccountingDriver. ''
      @ ''Implement a Trial Balance TDL aggregation in a future version.''))"

section \<open>What a posted voucher says\<close>

text \<open>A reader of import envelopes: the voucher with its lines as name, side and exact amount.\<close>

record voucher_view =
  vo_company :: string
  vo_type :: string
  vo_date :: string
  vo_narration :: string
  vo_lines :: "(string \<times> bool \<times> rat) list"

definition child :: "string \<Rightarrow> xml \<Rightarrow> xml option" where
  "child t x = List.find (\<lambda>c. x_tag c = t) (x_children x)"

fun at_path :: "string list \<Rightarrow> xml \<Rightarrow> xml option" where
  "at_path [] x = Some x"
| "at_path (t # ts) x = Option.bind (child t x) (at_path ts)"

definition text_at :: "string list \<Rightarrow> xml \<Rightarrow> string" where
  "text_at ts x = (case Option.bind (at_path ts x) x_text of None \<Rightarrow> [] | Some s \<Rightarrow> s)"

definition amount_at :: "string list \<Rightarrow> xml \<Rightarrow> rat" where
  "amount_at ts x = (case decimal_literal_of (text_at ts x) of Finite d \<Rightarrow> dval d | _ \<Rightarrow> 0)"

definition view_line :: "xml \<Rightarrow> string \<times> bool \<times> rat" where
  "view_line x = (text_at [''LEDGERNAME''] x, text_at [''ISDEEMEDPOSITIVE''] x = ''Yes'', amount_at [''AMOUNT''] x)"

definition read_voucher :: "xml \<Rightarrow> voucher_view option" where
  "read_voucher x = Option.bind (at_path [''BODY'', ''IMPORTDATA'', ''REQUESTDATA'', ''TALLYMESSAGE'', ''VOUCHER''] x) (\<lambda>v.
     Some \<lparr>vo_company = text_at [''BODY'', ''IMPORTDATA'', ''REQUESTDESC'', ''STATICVARIABLES'', ''SVCurrentCompany''] x,
       vo_type = (case map_of (x_attrs v) ''VCHTYPE'' of None \<Rightarrow> [] | Some t \<Rightarrow> t), vo_date = text_at [''DATE''] v,
       vo_narration = text_at [''NARRATION''] v,
       vo_lines = map view_line (filter (\<lambda>c. x_tag c = ''ALLLEDGERENTRIES.LIST'') (x_children v))\<rparr>)"

definition entry_view :: "tally_ledger_entry \<Rightarrow> string \<times> bool \<times> rat" where
  "entry_view e = (le_ledger_name e, le_is_deemed_positive e, dval (le_amount e))"

lemma view_entry_element: "dec_scaled 2 (le_amount e) \<Longrightarrow> view_line (entry_element e) = entry_view e"
  using literal_of_format_2f_exact [of "le_amount e"]
  by (auto simp: view_line_def entry_element_def entry_view_def text_at_def amount_at_def child_def)

lemma import_envelope_view:
  assumes "import_envelope env (voucher_element ty d narr es num ref) company = Inr text_form" "\<forall>e\<in>set es. dec_scaled 2 (le_amount e)"
    and "\<And>x. ty_tostring env x = text_form \<Longrightarrow> ty_fromstring env text_form = Inr (Some x)"
  shows "\<exists>x. ty_fromstring env text_form = Inr (Some x)
    \<and> read_voucher x = Some \<lparr>vo_company = company, vo_type = ty, vo_date = compact_date d, vo_narration = narr, vo_lines = map entry_view es\<rparr>"
proof -
  have t: "x_tag (entry_element e) = ''ALLLEDGERENTRIES.LIST''" for e by (simp add: entry_element_def)
  have lines: "map view_line (map entry_element es) = map entry_view es" using assms(2) by (simp add: view_entry_element)
  have "filter (\<lambda>c. x_tag c = ''ALLLEDGERENTRIES.LIST'') (x_children (voucher_element ty d narr es num ref)) = map entry_element es"
    by (auto simp: voucher_element_def filter_map o_def t split: option.splits)
  then show ?thesis using assms(1,3) lines
    by (auto simp: import_envelope_def serialize_def res_simps envelope_def read_voucher_def text_at_def child_def voucher_element_def
        split: option.splits)
qed

section \<open>A journal voucher is the entry, and balances\<close>

lemma coef_bound:
  assumes "dec_scaled s x" "\<bar>dval x\<bar> * 10 ^ s < 10 ^ 28"
  shows "\<bar>dcoef x\<bar> < 10 ^ 28"
proof -
  have "rat_of_int \<bar>dcoef x\<bar> = \<bar>dval x\<bar> * 10 powi (- dexp x)"
    by (simp add: dval_def abs_mult power_int_minus)
  also have "\<dots> \<le> \<bar>dval x\<bar> * 10 ^ s"
    using powi_scale_mono [of s "dexp x"] assms(1) by (intro mult_left_mono) (auto simp: dec_scaled_def)
  also have "\<dots> < 10 ^ 28" by (rule assms(2))
  finally have "rat_of_int \<bar>dcoef x\<bar> < rat_of_int (10 ^ 28)" by simp
  then show ?thesis by (simp only: of_int_less_iff)
qed

lemma scaled_copy_abs [simp]: "dec_scaled s (dec_copy_abs x) = dec_scaled s x"
  by (simp add: dec_scaled_def dec_copy_abs_def)

lemma neg_abs_exact:
  assumes "dec_scaled s x" "\<bar>dval x\<bar> * 10 ^ s < 10 ^ 28"
  shows "dval (dec_neg (dec_copy_abs x)) = - \<bar>dval x\<bar>" "dec_scaled s (dec_neg (dec_copy_abs x))"
proof -
  have n: "dec_neg (dec_copy_abs x) = dec_copy_negate (dec_copy_abs x)"
    using coef_bound [OF assms] by (simp add: dec_neg_def dec_copy_negate_def dec_copy_abs_def)
  show "dval (dec_neg (dec_copy_abs x)) = - \<bar>dval x\<bar>" by (simp add: n)
  show "dec_scaled s (dec_neg (dec_copy_abs x))" using assms(1) by (simp add: n)
qed

definition posts :: "name_resolver \<Rightarrow> journal_line \<Rightarrow> string \<times> bool \<times> rat \<Rightarrow> bool" where
  "posts resolver l p \<longleftrightarrow> (case p of (name, yes, a) \<Rightarrow> resolver (jl_account_id l) = Some name \<and> yes = (jl_debit l \<noteq> None)
     \<and> (\<exists>m. line_money l = Some m \<and> a = (if yes then - \<bar>dval (m_amount m)\<bar> else \<bar>dval (m_amount m)\<bar>)))"

lemma line_entry_posts:
  assumes "journal_line_to_tally_entry resolver l = Inr e" "line_scaled 2 l" "line_size l * 10 ^ 2 < 10 ^ 28"
  shows "posts resolver l (entry_view e) \<and> dec_scaled 2 (le_amount e)"
proof -
  obtain m where m: "line_money l = Some m" "dec_scaled 2 (m_amount m)" "\<bar>dval (m_amount m)\<bar> * 10 ^ 2 < 10 ^ 28"
    using assms(2,3) by (auto simp: line_scaled_def money_scaled_def line_size_def split: option.splits)
  obtain name where "resolver (jl_account_id l) = Some name" "resolve_ledger_name resolver (jl_account_id l) = Inr name"
    using assms(1) by (auto simp: journal_line_to_tally_entry_def res_simps resolve_ledger_name_def split: option.splits if_splits)
  with assms(1) m neg_abs_exact [OF m(2,3)] show ?thesis
    by (auto simp: journal_line_to_tally_entry_def res_simps posts_def entry_view_def line_money_def
        split: option.splits)
qed

lemma line_size_le: "l \<in> set ls \<Longrightarrow> line_size l \<le> (\<Sum>l\<leftarrow>ls. line_size l)"
  by (intro member_le_sum_list) auto

lemma lines_post:
  assumes "map_res (journal_line_to_tally_entry resolver) ls = Inr es" "list_all (line_scaled 2) ls" "(\<Sum>l\<leftarrow>ls. line_size l) * 10 ^ 2 < 10 ^ 28"
  shows "list_all2 (posts resolver) ls (map entry_view es) \<and> (\<forall>e\<in>set es. dec_scaled 2 (le_amount e))"
proof -
  have step: "posts resolver l (entry_view e) \<and> dec_scaled 2 (le_amount e)" if "l \<in> set ls" "journal_line_to_tally_entry resolver l = Inr e" for l e
    using that assms(2) scaled_bound_mono [OF assms(3) line_size_le [OF that(1)]] by (intro line_entry_posts) (auto simp: list_all_iff)
  have "list_all2 (\<lambda>l e. journal_line_to_tally_entry resolver l = Inr e) ls es"
    using assms(1) by (simp add: map_res_Inr_conv)
  then have "list_all2 (\<lambda>l e. posts resolver l (entry_view e) \<and> dec_scaled 2 (le_amount e)) ls es"
    by (rule list.rel_mono_strong) (use step in blast)
  then show ?thesis by (auto simp: list_all2_conv_all_nth in_set_conv_nth)
qed

text \<open>Nets that vanish in every currency vanish together.\<close>

definition signed_value :: "journal_line \<Rightarrow> rat" where
  "signed_value l = (case line_money l of None \<Rightarrow> 0 | Some m \<Rightarrow> dval (line_sign l) * dval (m_amount m))"

lemma sum_over_currencies:
  assumes "finite C" "\<forall>l\<in>set ls. \<forall>m. line_money l = Some m \<longrightarrow> m_currency m \<in> C"
  shows "(\<Sum>l\<leftarrow>ls. signed_value l) = (\<Sum>c\<in>C. \<Sum>l\<leftarrow>ls. line_value c l)"
  using assms
proof (induction ls)
  case (Cons l ls)
  have "signed_value l = (\<Sum>c\<in>C. line_value c l)"
    using Cons.prems by (auto simp: signed_value_def line_value_def sum.delta split: option.splits)
  then show ?case using Cons by (simp add: sum.distrib)
qed simp

lemma accepted_nets_zero:
  assumes "journal_entry_of e0 = Inr e" "list_all (line_scaled s) (je_lines e)" "(\<Sum>l\<leftarrow>je_lines e. line_size l) * 10 ^ s < 10 ^ 28"
  shows "(\<Sum>l\<leftarrow>je_lines e. line_value c l) = 0"
proof -
  have l: "je_lines e = je_lines e0" "balanced_per_currency (je_lines e) = Inr ()"
    using assms(1) by (auto simp: journal_entry_of_def res_simps)
  obtain acc where acc: "net_by_currency [] (je_lines e) = Inr acc" "wf_dict acc" "\<forall>c. dict_val acc c = (\<Sum>l\<leftarrow>je_lines e. line_value c l)"
    using net_by_currency_exact [OF assms(2), of "[]"] assms(3) by (auto simp: dict_scaled_def dict_val_def)
  then show ?thesis using l(2) nets_zero_iff [OF acc(2)] by (simp add: balanced_per_currency_def guard_res_def split: if_splits)
qed

lemma voucher_faithful:
  assumes lxml: "\<And>x. ty_tostring env x = text_form \<Longrightarrow> ty_fromstring env text_form = Inr (Some x)"
    and built: "journal_entry_to_tally_xml_body env company resolver e = Inr text_form"
    and accepted: "journal_entry_of e0 = Inr e"
    and scaled: "list_all (line_scaled 2) (je_lines e)" "(\<Sum>l\<leftarrow>je_lines e. line_size l) * 10 ^ 2 < 10 ^ 28"
    and nonneg: "\<forall>l\<in>set (je_lines e). \<forall>m. line_money l = Some m \<longrightarrow> 0 \<le> dval (m_amount m)"
  shows "\<exists>x v. ty_fromstring env text_form = Inr (Some x) \<and> read_voucher x = Some v
    \<and> vo_company v = company \<and> vo_type v = ''Journal'' \<and> vo_date v = compact_date (je_entry_date e) \<and> vo_narration v = lt_default (je_narration e)
    \<and> list_all2 (posts resolver) (je_lines e) (vo_lines v)
    \<and> (\<Sum>(name, yes, a)\<leftarrow>vo_lines v. a) = 0"
proof -
  obtain es where es: "map_res (journal_line_to_tally_entry resolver) (je_lines e) = Inr es"
    and imp: "import_envelope env (voucher_element ''Journal'' (je_entry_date e) (lt_default (je_narration e)) es None None) company = Inr text_form"
    using built by (auto simp: journal_entry_to_tally_xml_body_def build_post_journal_voucher_def res_simps)
  note p = lines_post [OF es scaled]
  have "(\<Sum>(name, yes, a)\<leftarrow>vs. a) = - (\<Sum>l\<leftarrow>ls. signed_value l)"
    if "list_all2 (posts resolver) ls vs" "\<forall>l\<in>set ls. \<forall>m. line_money l = Some m \<longrightarrow> 0 \<le> dval (m_amount m)" for ls vs
    using that
    by (induction rule: list_all2_induct) (auto simp: posts_def signed_value_def line_sign_def dval_Dec)
  then have "(\<Sum>(name, yes, a)\<leftarrow>map entry_view es. a) = - (\<Sum>l\<leftarrow>je_lines e. signed_value l)" using p nonneg by blast
  also have "(\<Sum>l\<leftarrow>je_lines e. signed_value l)
      = (\<Sum>c\<in>(\<Union>l\<in>set (je_lines e). m_currency ` set_option (line_money l)). \<Sum>l\<leftarrow>je_lines e. line_value c l)"
    by (rule sum_over_currencies) force+
  also have "\<dots> = 0" by (simp add: accepted_nets_zero [OF accepted scaled])
  finally have "(\<Sum>(name, yes, a)\<leftarrow>map entry_view es. a) = 0" by simp
  with p import_envelope_view [OF imp _ lxml] show ?thesis by fastforce
qed

text \<open>Claim C8. What reaches the accounting package is the journal entry. For an entry that the \<^verbatim>\<open>JournalEntry\<close> constructor accepted, with non-negative amounts
  in hundredths, the envelope built for it reads back (lxml reads what it wrote) as one journal voucher of the company, with the entry's date and
  narration and one line per journal line, in order: the ledger the resolver names, the debit flag, the exact amount, negative on the debit
  side. The amounts of the voucher add up to zero. With a negative amount they need not: the mapping drops the sign.
\<close>
theorem journal_voucher_faithful:
  assumes lxml: "\<And>x. ty_tostring env x = text_form \<Longrightarrow> ty_fromstring env text_form = Inr (Some x)"
    and built: "journal_entry_to_tally_xml_body env company resolver e = Inr text_form"
    and accepted: "journal_entry_of e0 = Inr e"
    and scaled: "list_all (line_scaled 2) (je_lines e)" "(\<Sum>l\<leftarrow>je_lines e. line_size l) * 10 ^ 2 < 10 ^ 28"
    and nonneg: "\<forall>l\<in>set (je_lines e). \<forall>m. line_money l = Some m \<longrightarrow> 0 \<le> dval (m_amount m)"
  shows "\<exists>x v. ty_fromstring env text_form = Inr (Some x) \<and> read_voucher x = Some v
    \<and> vo_company v = company \<and> vo_type v = ''Journal'' \<and> vo_date v = compact_date (je_entry_date e) \<and> vo_narration v = lt_default (je_narration e)
    \<and> list_all2 (posts resolver) (je_lines e) (vo_lines v)
    \<and> (\<Sum>(name, yes, a)\<leftarrow>vo_lines v. a) = 0"
  using assms by (rule voucher_faithful)

section \<open>How often a voucher is sent\<close>

definition retriable :: "http_reply \<Rightarrow> bool" where
  "retriable r = (case r of Http_timeout \<Rightarrow> True | Http_network_error _ \<Rightarrow> True | Http_response h \<Rightarrow> hr_status h \<in> {503, 504})"

lemma transient_status: "400 \<le> status \<Longrightarrow> de_kind (map_tally_error env status body) = Transient_error \<longleftrightarrow> status \<in> {503, 504}"
  by (simp add: map_tally_error_def Let_def driver_error_def)

definition retry_outcome :: "tally_config \<Rightarrow> ('w \<Rightarrow> http_reply \<times> 'w) \<Rightarrow> nat \<Rightarrow> 'w \<Rightarrow> (driver_error + string) \<Rightarrow> 'w \<Rightarrow> bool" where
  "retry_outcome cfg f a w r w' \<longleftrightarrow> (\<exists>n rs. n + a \<le> tf_max_retries cfg \<and> sends f (Suc n) w = (rs, w') \<and> (\<forall>x\<in>set (butlast rs). retriable x)
    \<and> (retriable (last rs) \<longrightarrow> n + a = tf_max_retries cfg)
    \<and> (\<forall>body. r = Inr body \<longleftrightarrow> (\<exists>h. last rs = Http_response h \<and> hr_status h < 400 \<and> hr_content h = body)))"

lemma retry_stops:
  assumes "f w = (reply, w')" "a \<le> tf_max_retries cfg" "retriable reply \<Longrightarrow> a = tf_max_retries cfg"
    and "\<forall>body. r = Inr body \<longleftrightarrow> (\<exists>h. reply = Http_response h \<and> hr_status h < 400 \<and> hr_content h = body)"
  shows "retry_outcome cfg f a w r w'"
  unfolding retry_outcome_def using assms by (intro exI [of _ 0] exI [of _ "[reply]"]) auto

lemma retry_continues:
  assumes "f w = (reply, w1)" "retriable reply" "retry_outcome cfg f (a + 1) w1 r w'"
  shows "retry_outcome cfg f a w r w'"
proof -
  obtain n rs where n: "n + (a + 1) \<le> tf_max_retries cfg" "sends f (Suc n) w1 = (rs, w')" "\<forall>x\<in>set (butlast rs). retriable x"
    "retriable (last rs) \<longrightarrow> n + (a + 1) = tf_max_retries cfg"
    "\<forall>body. r = Inr body \<longleftrightarrow> (\<exists>h. last rs = Http_response h \<and> hr_status h < 400 \<and> hr_content h = body)"
    using assms(3) by (auto simp: retry_outcome_def)
  have ne: "rs \<noteq> []" using sends_length [of f "Suc n" w1] n(2) by auto
  have "sends f (Suc (Suc n)) w = (reply # rs, w')" using n(2) assms(1) by (simp only: sends.simps Let_def prod.case)
  then show ?thesis unfolding retry_outcome_def using n assms(2) ne
    by (intro exI [of _ "Suc n"] exI [of _ "reply # rs"]) auto
qed

lemma post_with_retries_outcome:
  assumes "post_with_retries env cfg gw a xml w = (r, w')" "a \<le> tf_max_retries cfg"
  shows "retry_outcome cfg (gw xml) a w r w'"
  using assms
proof (induction "tf_max_retries cfg - a" arbitrary: a w)
  case step: 0
  obtain reply w1 where g: "gw xml w = (reply, w1)" by fastforce
  have a: "a = tf_max_retries cfg" "\<not> should_retry cfg (a + 1)" using step by (auto simp: should_retry_def)
  note run = step(2) [unfolded post_with_retries.simps [of env cfg gw a xml w]]
  show ?case using run g a by (intro retry_stops [of "gw xml" w reply]) (auto simp: Let_def split: http_reply.splits if_splits)
next
  case (Suc k)
  obtain reply w1 where g: "gw xml w = (reply, w1)" by fastforce
  have a: "should_retry cfg (a + 1)" "k = tf_max_retries cfg - (a + 1)" "a + 1 \<le> tf_max_retries cfg" using Suc by (auto simp: should_retry_def)
  show ?case
  proof (cases "retriable reply")
    case True
    have "post_with_retries env cfg gw (a + 1) xml w1 = (r, w')"
      using Suc.prems(1) g True a(1)
      by (auto simp: post_with_retries.simps [of env cfg gw a] retriable_def Let_def transient_status split: http_reply.splits if_splits)
    then show ?thesis by (intro retry_continues [of "gw xml", OF g True] Suc.hyps(1) a)
  next
    case False
    then obtain h where h: "reply = Http_response h" "hr_status h \<notin> {503, 504}" by (cases reply) (auto simp: retriable_def)
    then show ?thesis using Suc.prems g False
      by (intro retry_stops [of "gw xml" w reply]) (auto simp: post_with_retries.simps [of env cfg gw a] Let_def transient_status split: if_splits)
  qed
qed

definition voucher_sent :: "tally_driver \<Rightarrow> (string, 'w) remote \<Rightarrow> string \<Rightarrow> 'w \<Rightarrow> http_reply list \<Rightarrow> 'w \<Rightarrow> bool" where
  "voucher_sent d gw xml w rs w' \<longleftrightarrow> rs \<noteq> [] \<and> length rs \<le> Suc (tf_max_retries (td_config d)) \<and> sends (gw xml) (length rs) w = (rs, w')
     \<and> (\<forall>x\<in>set (butlast rs). retriable x)"

text \<open>An answer of the gateway that says that a voucher was created or altered.\<close>

definition acknowledges :: "tally_env \<Rightarrow> http_reply \<Rightarrow> tally_voucher_ack \<Rightarrow> bool" where
  "acknowledges env reply ack \<longleftrightarrow> (\<exists>h. reply = Http_response h \<and> hr_status h < 400
     \<and> parse_voucher_create_response env (hr_content h) = Inr ack \<and> (1 \<le> tv_created ack \<or> 1 \<le> tv_altered ack))"

lemma post_envelope_sent:
  assumes "post_envelope env (td_config d) gw xml w = (r, w')"
  shows "\<exists>rs. voucher_sent d gw xml w rs w'
    \<and> (\<forall>body. r = Inr body \<longleftrightarrow> (\<exists>h. last rs = Http_response h \<and> hr_status h < 400 \<and> hr_content h = body))"
proof -
  have "retry_outcome (td_config d) (gw xml) 0 w r w'"
    using assms by (intro post_with_retries_outcome) (auto simp: post_envelope_def)
  then obtain n rs where n: "n \<le> tf_max_retries (td_config d)" "sends (gw xml) (Suc n) w = (rs, w')" "\<forall>x\<in>set (butlast rs). retriable x"
    "\<forall>body. r = Inr body \<longleftrightarrow> (\<exists>h. last rs = Http_response h \<and> hr_status h < 400 \<and> hr_content h = body)"
    by (auto simp: retry_outcome_def)
  moreover have "length rs = Suc n" using sends_length [of "gw xml" "Suc n" w] n(2) by simp
  ultimately show ?thesis by (intro exI [of _ rs]) (auto simp: voucher_sent_def simp del: sends.simps)
qed

lemma post_voucher_cases:
  assumes "post_voucher env gw raw built d w = (r, d', w')"
  shows "(\<exists>f. r = Inl f \<and> built = Inl f \<and> d' = d \<and> w' = w)
    \<or> (\<exists>xml rs. built = Inr xml \<and> voucher_sent d gw xml w rs w'
        \<and> (case r of Inl f \<Rightarrow> d' = d \<and> (\<forall>ack. \<not> acknowledges env (last rs) ack)
           | Inr i \<Rightarrow> \<exists>ack. acknowledges env (last rs) ack \<and> i = tally_entity_id raw \<and> d' = remember i ack d))"
proof (cases built)
  case (Inl f)
  then show ?thesis using assms by (auto simp: post_voucher_def)
next
  case (Inr xml)
  obtain reply w1 where p: "post_envelope env (td_config d) gw xml w = (reply, w1)" by fastforce
  obtain rs where rs: "voucher_sent d gw xml w rs w1"
    "\<forall>body. reply = Inr body \<longleftrightarrow> (\<exists>h. last rs = Http_response h \<and> hr_status h < 400 \<and> hr_content h = body)"
    using post_envelope_sent [OF p] by blast
  show ?thesis
  proof (cases reply)
    case (Inl e)
    then have "\<not> acknowledges env (last rs) ack" for ack using rs(2) by (auto simp: acknowledges_def)
    then show ?thesis using assms \<open>built = Inr xml\<close> p rs(1) Inl by (auto simp: post_voucher_def)
  next
    case (Inr body)
    then obtain h where h: "last rs = Http_response h" "hr_status h < 400" "hr_content h = body" using rs(2) by blast
    show ?thesis using assms \<open>built = Inr xml\<close> p rs(1) h Inr
      by (cases "parse_voucher_create_response env body") (fastforce simp: post_voucher_def acknowledges_def Let_def split: if_splits)+
  qed
qed

text \<open>Claim C24. Posting a journal entry. When the envelope cannot be built nothing is sent and nothing changes. Otherwise the same envelope is sent at
  least once and at most \<^verbatim>\<open>max_retries + 1\<close> times, again only after a timeout, a network error or a 503 or 504; the
  gateway may have acted on each of them. An identifier is returned exactly when the last answer is below 400 and acknowledges a created
  or altered voucher: every such answer gives one, and no other; then, and only then, the driver remembers the gateway's voucher number for it.
\<close>
theorem journal_posting:
  assumes "post_journal env gw raw e d w = (r, d', w')"
  shows "(\<exists>f. r = Inl f \<and> d' = d \<and> w' = w \<and> (\<forall>res. td_resolver d = Some res \<longrightarrow> journal_entry_to_tally_xml_body env (tf_company_name (td_config d)) res e = Inl f))
    \<or> (\<exists>res xml rs. td_resolver d = Some res \<and> journal_entry_to_tally_xml_body env (tf_company_name (td_config d)) res e = Inr xml
        \<and> voucher_sent d gw xml w rs w'
        \<and> (case r of Inl f \<Rightarrow> d' = d \<and> (\<forall>ack. \<not> acknowledges env (last rs) ack)
           | Inr i \<Rightarrow> \<exists>ack. acknowledges env (last rs) ack \<and> i = tally_entity_id raw \<and> d' = remember i ack d))"
proof (cases "td_resolver d")
  case None
  then show ?thesis using assms by (auto simp: post_journal_def require_resolver_def post_voucher_def)
next
  case (Some res)
  then have b: "bind_res (require_resolver d) (\<lambda>r. journal_entry_to_tally_xml_body env (tf_company_name (td_config d)) r e)
      = journal_entry_to_tally_xml_body env (tf_company_name (td_config d)) res e" by (simp add: require_resolver_def)
  from post_voucher_cases [OF assms [unfolded post_journal_def b]] show ?thesis unfolding Some by (elim disjE exE conjE) blast+
qed

text \<open>
  The retries repeat a request that is not idempotent: a gateway that books the voucher but answers too late books it once per attempt,
  while the caller is told that posting timed out.
\<close>

lemma timeouts_duplicate_vouchers:
  "\<exists>msg. post_with_retries env cfg (\<lambda>x books. (Http_timeout, x # books)) 0 xml [] = (Inl (driver_error Upstream_timeout DRIVER_NAME msg), replicate (Suc (tf_max_retries cfg)) xml)"
proof -
  have "\<exists>msg. post_with_retries env cfg (\<lambda>x books. (Http_timeout, x # books)) a xml (replicate a xml)
      = (Inl (driver_error Upstream_timeout DRIVER_NAME msg), replicate (Suc (tf_max_retries cfg)) xml)" if "a \<le> tf_max_retries cfg" for a
    using that
  proof (induction "tf_max_retries cfg - a" arbitrary: a)
    case 0
    then have "a = tf_max_retries cfg" by simp
    then show ?case by (subst post_with_retries.simps) (auto simp: should_retry_def)
  next
    case (Suc k)
    then have "k = tf_max_retries cfg - Suc a" "Suc a \<le> tf_max_retries cfg" by auto
    from Suc.hyps(1) [OF this] show ?case by (subst post_with_retries.simps) (simp add: should_retry_def \<open>Suc a \<le> tf_max_retries cfg\<close>)
  qed
  from this [of 0] show ?thesis by simp
qed

section \<open>Sales vouchers\<close>

text \<open>
  The voucher of an invoice adds up to its lines' subtotals and taxes less its grand total. The \<^verbatim>\<open>Invoice\<close> model compares
  currencies only, so a voucher that does not balance can be posted.
\<close>

definition invoice_gap :: "invoice \<Rightarrow> rat" where
  "invoice_gap i = (\<Sum>l\<leftarrow>in_lines i. \<bar>dval (m_amount (il_subtotal l))\<bar> + (\<Sum>t\<leftarrow>il_taxes l. \<bar>dval (m_amount (tl_tax_amount t))\<bar>))
     - \<bar>dval (m_amount (in_grand_total i))\<bar>"

lemma line_entries_sum:
  "invoice_line_entries resolver l = Inr es \<Longrightarrow> (\<Sum>e\<leftarrow>es. dval (le_amount e))
     = \<bar>dval (m_amount (il_subtotal l))\<bar> + (\<Sum>t\<leftarrow>il_taxes l. \<bar>dval (m_amount (tl_tax_amount t))\<bar>)"
  by (auto simp: invoice_line_entries_def res_simps credit_entry_def o_def)

lemma sales_voucher_sum:
  assumes "map_res (invoice_line_entries resolver) (in_lines i) = Inr rest" "dec_scaled 2 (m_amount (in_grand_total i))"
    and "\<bar>dval (m_amount (in_grand_total i))\<bar> * 10 ^ 2 < 10 ^ 28"
  shows "dval (dec_neg (dec_copy_abs (m_amount (in_grand_total i)))) + (\<Sum>e\<leftarrow>concat rest. dval (le_amount e)) = invoice_gap i"
proof -
  have "list_all2 (\<lambda>l es. invoice_line_entries resolver l = Inr es) (in_lines i) rest" using assms(1) by (simp add: map_res_Inr_conv)
  then have "(\<Sum>e\<leftarrow>concat rest. dval (le_amount e))
      = (\<Sum>l\<leftarrow>in_lines i. \<bar>dval (m_amount (il_subtotal l))\<bar> + (\<Sum>t\<leftarrow>il_taxes l. \<bar>dval (m_amount (tl_tax_amount t))\<bar>))"
    by (induction rule: list_all2_induct) (simp_all add: line_entries_sum)
  then show ?thesis using neg_abs_exact(1) [OF assms(2,3)] by (simp add: invoice_gap_def)
qed

section \<open>A small company\<close>

definition demo_xml_env :: tally_env where
  "demo_xml_env = \<lparr>ty_text_ok = (\<lambda>s. True), ty_tostring = (\<lambda>x. ''<''), ty_fromstring = (\<lambda>s. Inr (Some (node ''R'' [leaf ''CREATED'' ''1'', leaf ''LASTVCHID'' ''42'']))),
     ty_decode = (\<lambda>s. s)\<rparr>"

definition demo_tally :: tally_driver where
  "demo_tally = \<lparr>td_config = \<lparr>tf_company_name = ''Acme'', tf_timeout_text = ''30.0'', tf_max_retries = 2\<rparr>,
     td_tenant_id = ''01890a5d-ac96-774b-bcce-b302099a8058'', td_resolver = Some (\<lambda>i. Some ''Cash''), td_recent_voucher_ids = []\<rparr>"

definition demo_gateway :: "(string, nat) remote" where
  "demo_gateway x n = (if n = 0 then Http_timeout else Http_response \<lparr>hr_status = 200, hr_content = ''<R/>'', hr_retry_after = None\<rparr>, Suc n)"

definition demo_posted :: "(failure + string) \<times> tally_driver \<times> nat" where
  "demo_posted = post_journal demo_xml_env demo_gateway 7 sample_entry demo_tally 0"

lemma demo_body: "journal_entry_to_tally_xml_body demo_xml_env company (\<lambda>i. Some ''Cash'') sample_entry = Inr ''<''"
proof -
  have "py_strip ''Cash'' = ''Cash''" by code_simp
  then show ?thesis
    by (simp add: journal_entry_to_tally_xml_body_def sample_entry_lines journal_line_to_tally_entry_def resolve_ledger_name_def sample_line_def
        build_post_journal_voucher_def import_envelope_def serialize_def demo_xml_env_def list_all_iff)
qed

lemma demo_ack: "parse_voucher_create_response demo_xml_env ''<R/>'' = Inr \<lparr>tv_created = 1, tv_altered = 0, tv_last_vch_id = Some ''42''\<rparr>"
  by code_simp

theorem journal_posting_witness:
  "\<exists>d'. demo_posted = (Inr (tally_entity_id 7), d', 2) \<and> (\<exists>xml rs. voucher_sent demo_tally demo_gateway xml 0 rs 2)"
  (is "\<exists>d'. ?run d' \<and> _")
proof -
  obtain d' where r: "demo_posted = (Inr (tally_entity_id 7), d', 2)"
    by (auto simp: demo_posted_def post_journal_def post_voucher_def require_resolver_def demo_tally_def demo_body post_envelope_def
        post_with_retries.simps demo_gateway_def should_retry_def demo_ack Let_def)
  from journal_posting [OF this [unfolded demo_posted_def]] have "\<exists>xml rs. voucher_sent demo_tally demo_gateway xml 0 rs 2" by auto
  with r show ?thesis by blast
qed

text \<open>An environment that writes one document as a mark of its own and reads it back.\<close>

definition demo_entries :: "tally_ledger_entry list" where
  "demo_entries = [\<lparr>le_ledger_name = ''Cash'', le_amount = Dec (- 11800) (- 2), le_is_deemed_positive = True\<rparr>,
     \<lparr>le_ledger_name = ''Cash'', le_amount = Dec 10000 (- 2), le_is_deemed_positive = False\<rparr>,
     \<lparr>le_ledger_name = ''Cash'', le_amount = Dec 1800 (- 2), le_is_deemed_positive = False\<rparr>]"

definition demo_document :: xml where
  "demo_document = envelope ''Import Data''
     [node ''BODY'' [node ''IMPORTDATA'' [
        node ''REQUESTDESC'' [leaf ''REPORTNAME'' ''Vouchers'', node ''STATICVARIABLES'' [leaf ''SVCurrentCompany'' ''Acme'']],
        node ''REQUESTDATA'' [Element ''TALLYMESSAGE'' [(''{http://www.w3.org/2000/xmlns/}UDF'', ''TallyUDF'')] None
          [voucher_element ''Journal'' (Date 2024 3 1) ''sale'' demo_entries None None]]]]]"

definition demo_lxml :: tally_env where
  "demo_lxml = \<lparr>ty_text_ok = (\<lambda>s. True), ty_tostring = (\<lambda>x. if x = demo_document then ''<d/>'' else ''<e/>''),
     ty_fromstring = (\<lambda>s. if s = ''<d/>'' then Inr (Some demo_document) else Inl ''syntax''), ty_decode = (\<lambda>s. s)\<rparr>"

lemma demo_built: "journal_entry_to_tally_xml_body demo_lxml ''Acme'' (\<lambda>i. Some ''Cash'') sample_entry = Inr ''<d/>''"
proof -
  have t: "py_strip ''Cash'' = ''Cash''" "localized ''sale'' = \<lparr>lt_default = ''sale'', lt_translations = []\<rparr>" by code_simp+
  have "map_res (journal_line_to_tally_entry (\<lambda>i. Some ''Cash'')) (je_lines sample_entry) = Inr demo_entries"
    by (simp add: sample_entry_lines journal_line_to_tally_entry_def resolve_ledger_name_def sample_line_def t demo_entries_def
        dec_neg_def dec_copy_abs_def dec_copy_negate_def)
  then show ?thesis
    by (simp add: journal_entry_to_tally_xml_body_def build_post_journal_voucher_def import_envelope_def serialize_def
        demo_lxml_def demo_document_def sample_entry_def t list_all_iff)
qed

theorem journal_voucher_faithful_witness:
  "\<exists>v. read_voucher demo_document = Some v \<and> (\<Sum>(name, yes, a)\<leftarrow>vo_lines v. a) = 0"
proof -
  have lxml: "ty_fromstring demo_lxml ''<d/>'' = Inr (Some x)" if "ty_tostring demo_lxml x = ''<d/>''" for x
    using that by (simp add: demo_lxml_def split: if_splits)
  have ids: "entity_id_ok (je_id sample_entry)" "entity_id_ok (je_tenant_id sample_entry)" "py_strip (je_id sample_entry) = je_id sample_entry"
    "py_strip (je_tenant_id sample_entry) = je_tenant_id sample_entry" "py_strip (je_source_event sample_entry) = je_source_event sample_entry"
    by code_simp+
  have "balanced_per_currency (je_lines sample_entry) = Inr ()"
    by (simp add: balanced_per_currency_def sample_entry_lines sample_line_def line_money_def line_sign_def dict_get_or_def dec_mul_def
        dec_add_def dec_aligned_def dec_of_int_def dec_is_zero_def Let_def)
  then have acc: "journal_entry_of sample_entry = Inr sample_entry"
    by (simp add: journal_entry_of_def entity_id_of_def constrained_def ids opt_res_def Let_def) (simp add: sample_entry_def)
  have sc: "list_all (line_scaled 2) (je_lines sample_entry)" by code_simp
  have sz: "(\<Sum>l\<leftarrow>je_lines sample_entry. line_size l) * 10 ^ 2 < 10 ^ 28"
    by (simp add: sample_entry_lines sample_line_def Let_def line_size_def line_money_def dval_Dec)
  have nn: "\<forall>l\<in>set (je_lines sample_entry). \<forall>m. line_money l = Some m \<longrightarrow> 0 \<le> dval (m_amount m)"
    by (simp add: sample_entry_lines sample_line_def Let_def line_money_def dval_Dec)
  obtain x v where "ty_fromstring demo_lxml ''<d/>'' = Inr (Some x)" "read_voucher x = Some v" "(\<Sum>(name, yes, a)\<leftarrow>vo_lines v. a) = 0"
    using journal_voucher_faithful [OF lxml demo_built acc sc sz nn] by blast
  then show ?thesis by (auto simp: demo_lxml_def)
qed

end
