(* ===== verification/Py_Calendar.thy ===== *)
theory Py_Calendar
  imports Py_Date
begin

text \<open>
  Dates from ordinals and from text. \<^verbatim>\<open>date.fromordinal\<close> undoes \<^verbatim>\<open>toordinal\<close>, so the midnight of a day is
  on that day; \<^verbatim>\<open>date.fromisoformat\<close> reads the calendar and week forms of ISO 8601 (\<^verbatim>\<open>Py_Datetime\<close> shows that it undoes
  \<^verbatim>\<open>isoformat\<close>).
\<close>

section \<open>Ordinals back to dates\<close>

definition day_of_year :: "py_date \<Rightarrow> int" where
  "day_of_year d = days_before_month (d_year d) (d_month d) + d_day d - 1"

definition month_day :: "bool \<Rightarrow> int \<Rightarrow> int \<times> int" where
  "month_day leap n =
     (let y = (if leap then 4 else 1); est = (n + 50) div 32; m = (if days_before_month y est > n then est - 1 else est)
      in (m, n - days_before_month y m + 1))"

definition month_day_ok :: "bool \<Rightarrow> int \<Rightarrow> bool" where
  "month_day_ok leap y = list_all (\<lambda>m. list_all (\<lambda>d. month_day leap (days_before_month y m + d - 1) = (m, d)) [1..days_in_month y m]) [1..12]"

lemma month_day_table: "month_day_ok leap (if leap then 4 else 1)"
proof -
  have "month_day_ok True 4" by code_simp
  moreover have "month_day_ok False 1" by code_simp
  ultimately show ?thesis by (cases leap) auto
qed

lemma leap_only:
  "is_leap y = is_leap y' \<Longrightarrow> days_before_month y = days_before_month y'" "is_leap y = is_leap y' \<Longrightarrow> days_in_month y = days_in_month y'"
  by (auto simp: days_before_month_def days_in_month_def fun_eq_iff)

lemma leap_pick: "is_leap (if is_leap y then 4 else 1) = is_leap y"
  by (simp add: is_leap_def)

lemma month_day_exact:
  assumes "date_ok d"
  shows "month_day (is_leap (d_year d)) (day_of_year d) = (d_month d, d_day d)"
proof -
  have "d_month d \<in> set [1..12]" "d_day d \<in> set [1..days_in_month (if is_leap (d_year d) then 4 else 1) (d_month d)]"
    using assms leap_only(2) [OF leap_pick [of "d_year d"]] by (auto simp: date_ok_def)
  then show ?thesis
    using month_day_table [of "is_leap (d_year d)"] leap_only(1) [OF leap_pick [of "d_year d"]]
    by (auto simp: month_day_ok_def list_all_iff day_of_year_def)
qed

lemma day_of_year_range:
  assumes "date_ok d"
  shows "0 \<le> day_of_year d" "day_of_year d \<le> (if is_leap (d_year d) then 365 else 364)"
  using day_of_year_bound [OF assms] by (auto simp: day_of_year_def)

lemma year_digits:
  fixes p :: int
  defines "a \<equiv> p div 400" and "b \<equiv> p mod 400 div 100" and "c \<equiv> p mod 100 div 4" and "e \<equiv> p mod 4"
  shows "p = 400 * a + 100 * b + 4 * c + e" "0 \<le> b" "b < 4" "0 \<le> c" "c < 25" "0 \<le> e" "e < 4"
    "days_before_year (p + 1) = 146097 * a + 36524 * b + 1461 * c + 365 * e"
    "is_leap (p + 1) \<longleftrightarrow> e = 3 \<and> (c < 24 \<or> b = 3)"
proof -
  have m: "p mod 400 mod 100 = p mod 100" "p mod 100 mod 4 = p mod 4" by (simp_all add: mod_mod_cancel)
  have "p mod 400 = 100 * b + p mod 100" "p mod 100 = 4 * c + e"
    using div_mult_mod_eq [of "p mod 400" 100] div_mult_mod_eq [of "p mod 100" 4] m by (simp_all add: b_def c_def e_def)
  then show p: "p = 400 * a + 100 * b + 4 * c + e" using div_mult_mod_eq [of p 400] by (simp add: a_def)
  have "p mod 400 < 400" "p mod 100 < 100" "p mod 4 < 4" "0 \<le> p mod 400" "0 \<le> p mod 100" "0 \<le> p mod 4" by simp_all
  then show r: "0 \<le> b" "b < 4" "0 \<le> c" "c < 25" "0 \<le> e" "e < 4" unfolding b_def c_def e_def by (simp_all add: div_less_iff_less_mult pos_imp_zdiv_nonneg_iff)
  have "p div 4 = 100 * a + 25 * b + c" by (rule int_div_pos_eq [of _ _ _ e]) (use p r in auto)
  moreover have "p div 100 = 4 * a + b" by (rule int_div_pos_eq [of _ _ _ "4 * c + e"]) (use p r in auto)
  moreover have "p div 400 = a" by (simp add: a_def)
  moreover have "p + 1 - 1 = p" by simp
  ultimately have "days_before_year (p + 1) = p * 365 + (100 * a + 25 * b + c) - (4 * a + b) + a" unfolding days_before_year_def Let_def by metis
  then show "days_before_year (p + 1) = 146097 * a + 36524 * b + 1461 * c + 365 * e" using p by (simp add: algebra_simps)
  have l: "(p + 1) mod 4 = (if e = 3 then 0 else e + 1)"
    by (rule int_mod_pos_eq [of _ _ "100 * a + 25 * b + c + (if e = 3 then 1 else 0)"]) (use p r in auto)
  have h: "(p + 1) mod 100 = (if c = 24 \<and> e = 3 then 0 else 4 * c + e + 1)"
    by (rule int_mod_pos_eq [of _ _ "4 * a + b + (if c = 24 \<and> e = 3 then 1 else 0)"]) (use p r in auto)
  have f: "(p + 1) mod 400 = (if b = 3 \<and> c = 24 \<and> e = 3 then 0 else 100 * b + 4 * c + e + 1)"
    by (rule int_mod_pos_eq [of _ _ "a + (if b = 3 \<and> c = 24 \<and> e = 3 then 1 else 0)"]) (use p r in auto)
  show "is_leap (p + 1) \<longleftrightarrow> e = 3 \<and> (c < 24 \<or> b = 3)"
    unfolding is_leap_def l h f using r by auto
qed

lemma mixed_radix:
  assumes "0 \<le> (r :: int)" "r < k"
  shows "(k * q + r) div k = q" "(k * q + r) mod k = r"
  using assms by (auto intro: int_div_pos_eq int_mod_pos_eq)

text \<open>\<^verbatim>\<open>date.fromordinal(d.toordinal()) == d\<close>\<close>

lemma ord2ymd_to_ordinal [simp]:
  assumes ok: "date_ok d"
  shows "ord2ymd (to_ordinal d) = d"
proof -
  define y where "y = d_year d"
  define p where "p = y - 1"
  define a b c e where "a = p div 400" and "b = p mod 400 div 100" and "c = p mod 100 div 4" and "e = p mod 4"
  note yd = year_digits [of p, folded a_def b_def c_def e_def]
  define n5 where "n5 = day_of_year d"
  have y: "y = p + 1" by (simp add: p_def)
  have n: "to_ordinal d - 1 = 146097 * a + (36524 * b + (1461 * c + (365 * e + n5)))"
    using yd(8) by (simp add: to_ordinal_def n5_def day_of_year_def y_def [symmetric] y)
  have r5: "0 \<le> n5" "n5 \<le> (if e = 3 \<and> (c < 24 \<or> b = 3) then 365 else 364)"
    using day_of_year_range [OF ok] yd(9) by (simp_all add: n5_def y_def [symmetric] y)
  show ?thesis
  proof (cases "n5 = 365")
    case True
    then have e: "e = 3" "c < 24 \<or> b = 3" using r5 by (auto split: if_splits)
    have last: "d_month d = 12 \<and> d_day d = 31"
      using month_day_exact [OF ok] True yd(9) e by (simp add: n5_def [symmetric] y_def [symmetric] y) (auto simp: month_day_def Let_def days_before_month_def is_leap_def)
    then have d: "d = Date y 12 31" by (cases d) (simp add: y_def)
    have y4: "y = 400 * a + 100 * b + 4 * c + 4" using yd(1) e y by simp
    have d1: "(to_ordinal d - 1) div 146097 = a" "(to_ordinal d - 1) mod 146097 = 36524 * b + (1461 * c + 1460)"
      using mixed_radix [of "36524 * b + (1461 * c + (365 * e + n5))" 146097 a] yd(2-7) True e unfolding n by auto
    show ?thesis
    proof (cases "c = 24")
      case c: True
      then have b: "b = 3" using e by simp
      have "(36524 * b + (1461 * c + 1460)) div 36524 = 4" using b c by simp
      then show ?thesis using y4 b c by (simp add: ord2ymd_def Let_def d1) (simp add: d)
    next
      case False
      then have "(36524 * b + (1461 * c + 1460)) div 36524 = b" "(36524 * b + (1461 * c + 1460)) mod 36524 = 1461 * c + 1460"
        using mixed_radix [of "1461 * c + 1460" 36524 b] yd(4,5) by auto
      moreover have "(1461 * c + 1460) div 1461 = c" "(1461 * c + 1460) mod 1461 = 1460" using mixed_radix [of 1460 1461 c] by auto
      ultimately show ?thesis using y4 by (simp add: ord2ymd_def Let_def d1) (simp add: d)
    qed
  next
    case False
    with r5 have n5: "0 \<le> n5" "n5 < 365" by (auto split: if_splits)
    have d1: "(to_ordinal d - 1) div 146097 = a" "(to_ordinal d - 1) mod 146097 = 36524 * b + (1461 * c + (365 * e + n5))"
      using mixed_radix [of "36524 * b + (1461 * c + (365 * e + n5))" 146097 a] yd(2-7) n5 unfolding n by auto
    have d2: "(36524 * b + (1461 * c + (365 * e + n5))) div 36524 = b" "(36524 * b + (1461 * c + (365 * e + n5))) mod 36524 = 1461 * c + (365 * e + n5)"
      using mixed_radix [of "1461 * c + (365 * e + n5)" 36524 b] yd(4-7) n5 by auto
    have d3: "(1461 * c + (365 * e + n5)) div 1461 = c" "(1461 * c + (365 * e + n5)) mod 1461 = 365 * e + n5"
      using mixed_radix [of "365 * e + n5" 1461 c] yd(6,7) n5 by auto
    have d4: "(365 * e + n5) div 365 = e" "(365 * e + n5) mod 365 = n5" using mixed_radix [of n5 365 e] n5 by auto
    have yy: "a * 400 + 1 + b * 100 + c * 4 + e = y" using yd(1) y by simp
    have dm: "days_before_month (if is_leap y then 4 else 1) = days_before_month y" by (rule leap_only(1) [OF leap_pick])
    have "month_day (is_leap y) n5 = (d_month d, d_day d)" using month_day_exact [OF ok] by (simp add: n5_def y_def)
    then have md: "(let est = (n5 + 50) div 32; m = (if days_before_month y est > n5 then est - 1 else est)
        in Date y m (n5 - days_before_month y m + 1)) = Date y (d_month d) (d_day d)"
      unfolding month_day_def Let_def dm by (metis prod.inject)
    have "\<not> (e = 4 \<or> b = 4)" using yd(3,7) by auto
    then show ?thesis using md unfolding ord2ymd_def Let_def d1 d2 d3 d4 yy
      by (simp only: if_False y_def py_date.collapse)
  qed
qed

lemma midnight_date: "date_ok d \<Longrightarrow> ord2ymd (utc_midnight d div DAY_US + EPOCH_ORDINAL) = d"
  by (simp add: utc_midnight_def DAY_US_def)

lemma next_day:
  assumes "date_ok d" "d \<noteq> Date 9999 12 31"
  obtains d' where "date_ok d'" "to_ordinal d' = to_ordinal d + 1"
proof -
  obtain y m k where d: "d = Date y m k" by (cases d)
  have ok: "1 \<le> y" "y \<le> 9999" "1 \<le> m" "m \<le> 12" "1 \<le> k" "k \<le> days_in_month y m" using assms(1) by (auto simp: d date_ok_def)
  have len: "1 \<le> days_in_month y' m'" for y' m' by (simp add: days_in_month_def)
  consider "k < days_in_month y m" | "k = days_in_month y m" "m < 12" | "k = days_in_month y m" "m = 12" using ok by linarith
  then show thesis
  proof cases
    case 1
    then show thesis using ok by (intro that [of "Date y m (k + 1)"]) (auto simp: d date_ok_def to_ordinal_def)
  next
    case 2
    then show thesis using ok len [of y "m + 1"] days_before_next_month [of m y]
      by (intro that [of "Date y (m + 1) 1"]) (auto simp: d date_ok_def to_ordinal_def)
  next
    case 3
    then have k: "k = 31" by (simp add: days_in_month_def)
    then have "y < 9999" using assms(2) ok 3 by (auto simp: d)
    then show thesis using ok 3 k days_before_next_year [of y]
      by (intro that [of "Date (y + 1) 1 1"]) (auto simp: d date_ok_def to_ordinal_def days_before_month_def days_in_month_def)
  qed
qed

lemma day_after_date:
  assumes "date_ok d" "d \<noteq> Date 9999 12 31"
  shows "date_ok (ord2ymd (to_ordinal d + 1))" "to_ordinal (ord2ymd (to_ordinal d + 1)) = to_ordinal d + 1"
  using next_day [OF assms] ord2ymd_to_ordinal by metis+

section \<open>Dates from text\<close>

text \<open>A group of exactly \<open>n\<close> digits at the front of a text.\<close>

definition take_digits :: "nat \<Rightarrow> string \<Rightarrow> (int \<times> string) option" where
  "take_digits n s = (if n \<le> length s \<and> list_all is_decimal_char (take n s) then Some (int (digits_val (take n s)), drop n s) else None)"

definition iso_week_date :: "int \<Rightarrow> int \<Rightarrow> int \<Rightarrow> py_date option" where
  "iso_week_date y w d =
     (let first = to_ordinal (Date y 1 1); wd = (first + 6) mod 7;
          long_year = (wd = 3 \<or> (wd = 2 \<and> is_leap y));
          n = first - wd + (if wd > 3 then 7 else 0) + (w - 1) * 7 + d - 1
      in if 1 \<le> y \<and> 1 \<le> w \<and> (w \<le> 52 \<or> (w = 53 \<and> long_year)) \<and> 1 \<le> d \<and> d \<le> 7 \<and> 1 \<le> n \<and> n \<le> to_ordinal (Date 9999 12 31)
         then Some (ord2ymd n) else None)"

text \<open>The fields of an ISO date after the year: a week form (\<open>Inl\<close>) or a month and a day.\<close>

definition iso_fields :: "string \<Rightarrow> (int \<times> ((int \<times> int) + (int \<times> int))) option" where
  "iso_fields s = (if length s \<notin> {7, 8, 10} then None else
     case take_digits 4 s of None \<Rightarrow> None | Some (y, r) \<Rightarrow>
     let sep = (take 1 r = ''-''); r1 = (if sep then drop 1 r else r);
         skip_sep = (\<lambda>t. if \<not> sep then Some t else if take 1 t = ''-'' then Some (drop 1 t) else None)
     in if take 1 r1 = ''W'' then
          (case take_digits 2 (drop 1 r1) of None \<Rightarrow> None | Some (w, r2) \<Rightarrow>
             if r2 = [] then Some (y, Inl (w, 1))
             else case skip_sep r2 of None \<Rightarrow> None | Some r3 \<Rightarrow>
               (case take_digits 1 r3 of Some (d, []) \<Rightarrow> Some (y, Inl (w, d)) | _ \<Rightarrow> None))
        else (case take_digits 2 r1 of None \<Rightarrow> None | Some (m, r2) \<Rightarrow>
          (case skip_sep r2 of None \<Rightarrow> None | Some r3 \<Rightarrow>
            (case take_digits 2 r3 of Some (d, []) \<Rightarrow> Some (y, Inr (m, d)) | _ \<Rightarrow> None))))"

definition date_fromisoformat :: "string \<Rightarrow> string + py_date" where
  "date_fromisoformat s =
     (let invalid = Inl (''Invalid isoformat string: '' @ repr_str s)
      in case iso_fields s of
           None \<Rightarrow> invalid
         | Some (y, Inl (w, d)) \<Rightarrow> (case iso_week_date y w d of None \<Rightarrow> invalid | Some x \<Rightarrow> Inr x)
         | Some (y, Inr (m, d)) \<Rightarrow>
             if y < 1 then Inl (''year '' @ show_int y @ '' is out of range'')
             else if m < 1 \<or> 12 < m then Inl ''month must be in 1..12''
             else if d < 1 \<or> days_in_month y m < d then Inl ''day is out of range for month''
             else Inr (Date y m d))"

lemma take_digits_append:
  "length ds = n \<Longrightarrow> list_all is_decimal_char ds \<Longrightarrow> take_digits n (ds @ s) = Some (int (digits_val ds), s)"
  by (simp add: take_digits_def)

end
