(* ===== verification/Bsp_Driver.thy ===== *)
theory Bsp_Driver
  imports Bsp_Mapping Driver_Errors Caches Py_Calendar
begin

text \<open>
  The BSP India driver, \<^verbatim>\<open>drivers/bsp_india/driver.py\<close>, \<^verbatim>\<open>client.py\<close> and \<^verbatim>\<open>errors.py\<close>: from a country and
  a period to the file of the drop directory, its parser (\<^verbatim>\<open>Haf_Parser\<close>) and the canonical report
  (\<^verbatim>\<open>Bsp_Mapping\<close>). The directory is a snapshot of its entries; decoding bytes belongs to the language.
\<close>

section \<open>Errors\<close>

definition BSP_DRIVER_NAME :: string where
  "BSP_DRIVER_NAME = ''bsp_india''"

definition bsp_error :: "driver_error_kind \<Rightarrow> string \<Rightarrow> failure" where
  "bsp_error k msg = Driver_failure (driver_error k BSP_DRIVER_NAME msg)"

definition map_bsp_error :: "(string \<Rightarrow> string) \<Rightarrow> nat \<Rightarrow> string \<Rightarrow> string option \<Rightarrow> string option \<Rightarrow> driver_error" where
  "map_bsp_error decode status body parse_error vendor_ref =
     (let pre = preview decode body; shown = ''HTTP '' @ show_nat status;
          ref = (case vendor_ref of Some (c # cs) \<Rightarrow> c # cs | _ \<Rightarrow> if pre \<noteq> [] then shown @ '' | '' @ pre else shown);
          err = (\<lambda>k msg. (driver_error k BSP_DRIVER_NAME msg)\<lparr>de_vendor_ref := Some ref\<rparr>)
      in case parse_error of
           Some e \<Rightarrow> err Validation_failed (''Failed to parse BSP India response: '' @ e)
         | None \<Rightarrow>
             if status = 401 then err Authentication_error ''BSPlink rejected credentials.''
             else if status = 403 then err Authorization_error ''BSPlink denied access to the requested resource.''
             else if status = 404 then err Not_found ''BSPlink resource not found (statement may not yet be published).''
             else if status = 429 then err Rate_limit_error ''BSPlink rate-limit hit.''
             else if status \<in> {503, 504} then err Transient_error (''BSPlink temporarily unavailable (HTTP '' @ show_nat status @ '').'')
             else if 500 \<le> status \<and> status < 600 then err Permanent_error (''BSPlink upstream error (HTTP '' @ show_nat status @ '').'')
             else if 400 \<le> status then err Permanent_error (''BSPlink returned HTTP '' @ show_nat status @ ''.'')
             else err Permanent_error ''Unrecognised BSPlink response shape.'')"

text \<open>The texts of the parser's errors; the text of a failed decoding is the language's.\<close>

definition haf_at :: "nat \<Rightarrow> string \<Rightarrow> string" where
  "haf_at lno s = ''HAF parse error at line '' @ show_nat lno @ '': '' @ s"

fun haf_message :: "string \<Rightarrow> haf_error \<Rightarrow> string" where
  "haf_message utf8 Not_utf8 = ''HAF file is not valid UTF-8: '' @ utf8"
| "haf_message utf8 (Line_length lno n) = haf_at lno (''expected 200-char fixed record, got '' @ show_nat n @ '' chars.'')"
| "haf_message utf8 (Past_end lno field start len) = haf_at lno (''field '' @ repr_str field
     @ '' extends past end of line (start='' @ show_nat start @ '', length='' @ show_nat len @ '').'')"
| "haf_message utf8 (Empty_integer lno field) = haf_at lno (''empty integer field '' @ repr_str field @ ''.'')"
| "haf_message utf8 (Not_integer lno field raw) = haf_at lno (''field '' @ repr_str field @ '' is not an integer ('' @ repr_str raw @ '').'')"
| "haf_message utf8 (Airline_shape lno raw) = haf_at lno (''field '' @ repr_str ''airline_code'' @ '' value '' @ repr_str raw
     @ '' is not a valid 2-character IATA airline code.'')"
| "haf_message utf8 (Airline_unknown lno code) = haf_at lno (''HAF airline code '' @ repr_str code @ '' is not a recognized IATA carrier.'')"
| "haf_message utf8 (Date_shape lno field raw) = haf_at lno (''field '' @ repr_str field @ '' must be YYYYMMDD ('' @ repr_str raw @ '').'')"
| "haf_message utf8 (Date_invalid lno field raw) = haf_at lno (''invalid date '' @ repr_str raw @ '' in field '' @ repr_str field @ ''.'')"
| "haf_message utf8 (Magnitude lno field raw) = haf_at lno (''field '' @ repr_str field
     @ (if py_strip raw = [] \<or> \<not> py_isdigit (py_strip raw) then '' amount magnitude must be digits ('' else '' magnitude not a decimal ('')
     @ repr_str raw @ '').'')"
| "haf_message utf8 (Sign lno field raw) = haf_at lno (''field '' @ repr_str field @ '' sign must be '' @ repr_str ''+'' @ '' or ''
     @ repr_str ''-'' @ '' ('' @ repr_str raw @ '').'')"
| "haf_message utf8 (Duplicate_header lno) = haf_at lno ''duplicate BFH01 header.''"
| "haf_message utf8 (Duplicate_trailer lno) = haf_at lno ''duplicate BFT99 trailer.''"
| "haf_message utf8 Missing_header = ''HAF file missing BFH01 header.''"
| "haf_message utf8 Missing_trailer = ''HAF file missing BFT99 trailer.''"

section \<open>The client\<close>

record bsp_config =
  bc_agent_iata_code :: string
  bc_file_source_dir :: "string option"

text \<open>What \<^verbatim>\<open>Path(dir).expanduser()\<close> names: the path as text, and its entries when it is a directory.\<close>

datatype dir_entry = Regular_file string | Unreadable_file string | Not_a_file

record file_system =
  fs_shown :: "string \<Rightarrow> string"
  fs_listing :: "string \<Rightarrow> (string, dir_entry) dict option"

definition read_bytes :: "dir_entry \<Rightarrow> failure + string" where
  "read_bytes e = (case e of Regular_file b \<Rightarrow> Inr b | Unreadable_file msg \<Rightarrow> Inl (Raw_failure msg) | Not_a_file \<Rightarrow> Inl (Raw_failure ''IsADirectoryError''))"

definition exact_name :: "bsp_config \<Rightarrow> py_date \<Rightarrow> py_date \<Rightarrow> string" where
  "exact_name cfg a b = ''HAF_'' @ bc_agent_iata_code cfg @ ''_'' @ compact_date a @ ''_'' @ compact_date b @ ''.txt''"

definition dated_name :: "py_date \<Rightarrow> py_date \<Rightarrow> string \<Rightarrow> bool" where
  "dated_name a b name \<longleftrightarrow> sublist (compact_date a) name \<and> sublist (compact_date b) name"

definition read_local_file :: "file_system \<Rightarrow> bsp_config \<Rightarrow> string \<Rightarrow> py_date \<Rightarrow> py_date \<Rightarrow> failure + string" where
  "read_local_file fsys cfg dir a b =
     (case fs_listing fsys dir of
        None \<Rightarrow> Inl (bsp_error Permanent_error (''file_source_dir '' @ fs_shown fsys dir @ '' does not exist or is not a directory.''))
      | Some entries \<Rightarrow>
          (case map_of entries (exact_name cfg a b) of
             Some (Regular_file c) \<Rightarrow> Inr c
           | Some (Unreadable_file msg) \<Rightarrow> Inl (Raw_failure msg)
           | _ \<Rightarrow>
               (case find (\<lambda>(n, e). e \<noteq> Not_a_file \<and> dated_name a b n) (sort_key fst entries) of
                  Some (n, e) \<Rightarrow> read_bytes e
                | None \<Rightarrow> Inl (bsp_error Not_found (''No HAF file in '' @ fs_shown fsys dir @ '' matching period '' @ compact_date a @ ''..''
                    @ compact_date b @ ''. Expected '' @ exact_name cfg a b @ '' or a filename containing both dates.'')))))"

definition fetch_via_http :: "failure + string" where
  "fetch_via_http = Inl (Driver_failure (map_bsp_error (\<lambda>s. s) 501 ''direct BSPlink HTTP fetch not implemented'' None (Some ''bsplink http scaffold'')))"

definition client_fetch_statement :: "file_system \<Rightarrow> bsp_config \<Rightarrow> py_date \<Rightarrow> py_date \<Rightarrow> failure + string" where
  "client_fetch_statement fsys cfg a b =
     (case bc_file_source_dir cfg of
        Some (c # cs) \<Rightarrow> read_local_file fsys cfg (c # cs) a b
      | _ \<Rightarrow> fetch_via_http)"

definition submit_adm :: "failure + string" where
  "submit_adm = Inl (bsp_error Capability_not_supported (''BSP India ADM submission is not supported in v0. The BSPlink portal ''
     @ ''requires a form-driven web workflow that is scheduled for a later release.''))"

definition submit_acm :: "failure + string" where
  "submit_acm = Inl (bsp_error Capability_not_supported ''BSP India ACM submission is not supported in v0 (see submit_adm).'')"

section \<open>The driver\<close>

record bsp_driver =
  bd_config :: bsp_config
  bd_tenant_id :: string

text \<open>An omitted or empty tenant id is replaced by a fresh one.\<close>

definition bsp_driver_new :: "uuid_int \<Rightarrow> bsp_config \<Rightarrow> string option \<Rightarrow> bsp_driver" where
  "bsp_driver_new raw cfg tenant = \<lparr>bd_config = cfg,
     bd_tenant_id = (case tenant of Some (c # cs) \<Rightarrow> c # cs | _ \<Rightarrow> new_entity_id raw)\<rparr>"

definition SUPPORTED_COUNTRY :: string where
  "SUPPORTED_COUNTRY = ''IN''"

definition require_country :: "string \<Rightarrow> failure + unit" where
  "require_country country = guard_res (country = SUPPORTED_COUNTRY) (bsp_error Validation_failed
     (''bsp_india only services '' @ SUPPORTED_COUNTRY @ ''; country='' @ country @ '' not supported.''))"

definition utc_date :: "int \<Rightarrow> py_date" where
  "utc_date us = ord2ymd (us div DAY_US + EPOCH_ORDINAL)"

definition statement_days :: "period \<Rightarrow> py_date \<times> py_date" where
  "statement_days per =
     (let start = utc_date (p_start per)
      in (start, case p_end per of
           None \<Rightarrow> start
         | Some e \<Rightarrow> (let end_exclusive = utc_date e
             in if date_less start end_exclusive then ord2ymd (to_ordinal end_exclusive - 1) else start)))"

record bsp_env =
  be_decode :: "string \<Rightarrow> string option"
  be_decode_error :: "string \<Rightarrow> string"

definition fetch_statement :: "bsp_env \<Rightarrow> file_system \<Rightarrow> uuid_int \<Rightarrow> bsp_driver \<Rightarrow> string \<Rightarrow> period \<Rightarrow> failure + bsp_report" where
  "fetch_statement env fsys raw d country per =
     bind_res (require_country country) (\<lambda>_.
     let (start, stop) = statement_days per
     in bind_res (client_fetch_statement fsys (bd_config d) start stop) (\<lambda>content.
        let source_ref = ''HAF_'' @ bc_agent_iata_code (bd_config d) @ ''_'' @ compact_date start @ ''_'' @ compact_date stop
        in case parse_haf (be_decode env) content source_ref of
             Inl e \<Rightarrow> Inl (bsp_error Validation_failed (haf_message (be_decode_error env content) e))
           | Inr haf \<Rightarrow> (case haf_file_to_bsp_report raw haf (bd_tenant_id d) of Inl e \<Rightarrow> Inl (Model_failure e) | Inr r \<Rightarrow> Inr r)))"

definition raise_adm :: "failure + string" where
  "raise_adm = Inl (bsp_error Capability_not_supported ''BSP India ADM submission is not supported in v0; use BSPlink directly.'')"

definition raise_acm :: "failure + string" where
  "raise_acm = Inl (bsp_error Capability_not_supported ''BSP India ACM submission is not supported in v0; use BSPlink directly.'')"

definition make_settlement_payment :: "failure + string" where
  "make_settlement_payment = Inl (bsp_error Capability_not_supported (''BSP India settlement payments are not handled by the BSP driver ''
     @ [CHR 0x2D] @ '' they use the tenant'' @ [CHR 0x27] @ ''s bank/payment rail. Route via a BankDriver.''))"

section \<open>The file of a period\<close>

lemma sort_key_find:
  fixes xs :: "('k::linorder \<times> 'v) list"
  assumes "find P (sort_key fst xs) = Some x"
  shows "x \<in> set xs" "P x" "\<And>y. y \<in> set xs \<Longrightarrow> P y \<Longrightarrow> fst x \<le> fst y"
proof -
  obtain i where i: "i < length xs" "P (sort_key fst xs ! i)" "x = sort_key fst xs ! i" "\<forall>j<i. \<not> P (sort_key fst xs ! j)"
    using assms by (auto simp: find_Some_iff)
  show "x \<in> set xs" using i by (metis length_sort nth_mem set_sort)
  show "P x" using i by simp
  show "fst x \<le> fst y" if y: "y \<in> set xs" "P y" for y
  proof -
    obtain j where j: "j < length xs" "y = sort_key fst xs ! j" using y(1) by (metis in_set_conv_nth length_sort set_sort)
    then have "i \<le> j" using i(4) y(2) by (metis not_le)
    then have "map fst (sort_key fst xs) ! i \<le> map fst (sort_key fst xs) ! j" using j by (intro sorted_nth_mono) auto
    then show ?thesis using i j by simp
  qed
qed

text \<open>The name chosen among the entries: the exact name, else the first name in order that contains both dates.\<close>

definition chosen :: "bsp_config \<Rightarrow> (string, dir_entry) dict \<Rightarrow> py_date \<Rightarrow> py_date \<Rightarrow> string \<Rightarrow> bool" where
  "chosen cfg entries a b name \<longleftrightarrow>
     (let is_file = (\<lambda>n. \<exists>e. map_of entries n = Some e \<and> e \<noteq> Not_a_file)
      in is_file name \<and> (name = exact_name cfg a b
         \<or> \<not> is_file (exact_name cfg a b) \<and> dated_name a b name \<and> (\<forall>n. is_file n \<and> dated_name a b n \<longrightarrow> name \<le> n)))"

lemma read_local_file_chosen:
  assumes "fs_listing fsys dir = Some entries" "wf_dict entries"
  shows "case read_local_file fsys cfg dir a b of
      Inr c \<Rightarrow> \<exists>name. chosen cfg entries a b name \<and> map_of entries name = Some (Regular_file c)
    | Inl f \<Rightarrow> (\<exists>name msg. chosen cfg entries a b name \<and> map_of entries name = Some (Unreadable_file msg) \<and> f = Raw_failure msg)
        \<or> (\<nexists>name. chosen cfg entries a b name) \<and> (\<exists>e. f = Driver_failure e \<and> de_kind e = Not_found)"
proof -
  let ?P = "\<lambda>(n, e). e \<noteq> Not_a_file \<and> dated_name a b n"
  consider (exact) e where "map_of entries (exact_name cfg a b) = Some e" "e \<noteq> Not_a_file"
    | (other) "\<forall>e. map_of entries (exact_name cfg a b) = Some e \<longrightarrow> e = Not_a_file" by blast
  then show ?thesis
  proof cases
    case exact
    then show ?thesis using assms(1) by (cases e) (auto simp: read_local_file_def chosen_def Let_def)
  next
    case other
    have run: "read_local_file fsys cfg dir a b = (case find ?P (sort_key fst entries) of Some (n, e) \<Rightarrow> read_bytes e
       | None \<Rightarrow> Inl (bsp_error Not_found (''No HAF file in '' @ fs_shown fsys dir @ '' matching period '' @ compact_date a @ ''..''
                    @ compact_date b @ ''. Expected '' @ exact_name cfg a b @ '' or a filename containing both dates.'')))"
      using assms(1) other by (auto simp: read_local_file_def split: option.splits dir_entry.splits)
    have mem: "(n, e) \<in> set entries \<longleftrightarrow> map_of entries n = Some e" for n e
      using assms(2) by (simp add: wf_dict_def)
    show ?thesis
    proof (cases "find ?P (sort_key fst entries)")
      case None
      then have "\<not> chosen cfg entries a b name" for name
        using other by (auto simp: find_None_iff chosen_def Let_def mem)
      then show ?thesis using None by (simp add: run bsp_error_def driver_error_def)
    next
      case (Some x)
      obtain n e where x: "x = (n, e)" by (cases x)
      note f = sort_key_find [OF Some]
      have e: "map_of entries n = Some e" "e \<noteq> Not_a_file" using f(1,2) by (auto simp: x mem)
      have "chosen cfg entries a b n"
        using f(2,3) other e by (auto simp: chosen_def Let_def x mem)
      then show ?thesis using Some e by (cases e) (auto simp: run x read_bytes_def)
    qed
  qed
qed

text \<open>The days of the file are the days of the request.\<close>

lemma statement_days_exact:
  assumes "date_ok a" "date_ok b" "\<not> date_less b a" "b \<noteq> Date 9999 12 31"
  shows "statement_days \<lparr>p_start = utc_midnight a, p_end = Some (utc_midnight b + DAY_US)\<rparr> = (a, b)"
proof -
  define e where "e = ord2ymd (to_ordinal b + 1)"
  have e: "date_ok e" "to_ordinal e = to_ordinal b + 1" using day_after_date [OF assms(2,4)] by (simp_all add: e_def)
  have "utc_date (utc_midnight b + DAY_US) = e"
  proof -
    have "(utc_midnight b + DAY_US) div DAY_US + EPOCH_ORDINAL = to_ordinal b + 1" by (simp add: utc_midnight_def DAY_US_def)
    then show ?thesis by (simp add: utc_date_def e_def)
  qed
  moreover have "utc_date (utc_midnight a) = a" by (simp add: utc_date_def midnight_date assms(1))
  moreover have "to_ordinal a \<le> to_ordinal b" using to_ordinal_less_iff [OF assms(2,1)] assms(3) by simp
  then have "date_less a e" using to_ordinal_less_iff [OF assms(1) e(1)] e(2) by simp
  moreover have "ord2ymd (to_ordinal e - 1) = b" using e(2) assms(2) by simp
  ultimately show ?thesis by (simp add: statement_days_def)
qed

lemma chosen_unique:
  assumes "chosen cfg entries a b n" "chosen cfg entries a b n'"
  shows "n = n'"
proof (cases "n = exact_name cfg a b \<or> n' = exact_name cfg a b")
  case True
  then show ?thesis using assms by (auto simp: chosen_def Let_def)
next
  case False
  then have "n \<le> n'" "n' \<le> n" using assms unfolding chosen_def Let_def by blast+
  then show ?thesis by simp
qed

lemma read_local_file_iff:
  assumes "fs_listing fsys dir = Some entries" "wf_dict entries"
  shows "read_local_file fsys cfg dir a b = Inr c \<longleftrightarrow> (\<exists>name. chosen cfg entries a b name \<and> map_of entries name = Some (Regular_file c))"
proof -
  note cases = read_local_file_chosen [OF assms, of cfg a b]
  show ?thesis
  proof (cases "read_local_file fsys cfg dir a b")
    case (Inl f)
    then show ?thesis using cases chosen_unique [of cfg entries a b] by fastforce
  next
    case (Inr c')
    then show ?thesis using cases chosen_unique [of cfg entries a b] by fastforce
  qed
qed

text \<open>Claim C28. What the statement of a period is. With a drop directory configured, asking for the days \<open>a\<close> to \<open>b\<close> succeeds exactly when
  the country is India, a file is chosen for these very days (the file with the exact name; only without one, the first in the order of names that contains
  both dates), it is readable, and its content parses and maps to the report returned, which has the driver's tenant. No other file
  can be used, and no file is used for another country.
\<close>
theorem statement_of_period:
  assumes "bc_file_source_dir (bd_config d) = Some dir" "dir \<noteq> []" "fs_listing fsys dir = Some entries" "wf_dict entries"
    and "date_ok a" "date_ok b" "\<not> date_less b a" "b \<noteq> Date 9999 12 31"
  shows "fetch_statement env fsys raw d country \<lparr>p_start = utc_midnight a, p_end = Some (utc_midnight b + DAY_US)\<rparr> = Inr r
    \<longleftrightarrow> country = ''IN'' \<and> (\<exists>name content haf. chosen (bd_config d) entries a b name \<and> map_of entries name = Some (Regular_file content)
        \<and> parse_haf (be_decode env) content (''HAF_'' @ bc_agent_iata_code (bd_config d) @ ''_'' @ compact_date a @ ''_'' @ compact_date b) = Inr haf
        \<and> haf_file_to_bsp_report raw haf (bd_tenant_id d) = Inr r)"
proof -
  have client: "client_fetch_statement fsys (bd_config d) a b = read_local_file fsys (bd_config d) dir a b"
    using assms(1,2) by (cases dir) (simp_all add: client_fetch_statement_def)
  have steps: "(case p of Inl e \<Rightarrow> Inl (F e) | Inr haf \<Rightarrow> (case g haf of Inl e \<Rightarrow> Inl (G e) | Inr r \<Rightarrow> Inr r)) = Inr r
      \<longleftrightarrow> (\<exists>haf. p = Inr haf \<and> g haf = Inr r)" for p :: "haf_error + haf_file" and F :: "haf_error \<Rightarrow> failure" and g and G :: "canon_error \<Rightarrow> failure"
    by (auto split: sum.splits)
  show ?thesis
    unfolding fetch_statement_def statement_days_exact [OF assms(5-8)] Let_def prod.case client
    using read_local_file_iff [OF assms(3,4), of "bd_config d" a b]
    by (auto simp: require_country_def SUPPORTED_COUNTRY_def res_simps steps)
qed

section \<open>A drop directory\<close>

definition demo_bsp :: bsp_driver where
  "demo_bsp = \<lparr>bd_config = \<lparr>bc_agent_iata_code = ''99999999'', bc_file_source_dir = Some ''/drop''\<rparr>, bd_tenant_id = sample_tenant\<rparr>"

definition demo_drop :: file_system where
  "demo_drop = \<lparr>fs_shown = (\<lambda>s. s), fs_listing = (\<lambda>s. Some [(''readme.txt'', Regular_file ''''),
     (''from 20240401 to 20240415.txt'', Regular_file (render_haf [CHR 0x0A] sample_haf))])\<rparr>"

definition demo_decode :: bsp_env where
  "demo_decode = \<lparr>be_decode = Some, be_decode_error = (\<lambda>s. '''')\<rparr>"

lemma demo_chosen: "chosen (bd_config demo_bsp) [(''readme.txt'', Regular_file x), (''from 20240401 to 20240415.txt'', Regular_file c)]
    (Date 2024 4 1) (Date 2024 4 15) ''from 20240401 to 20240415.txt''"
proof -
  have n: "exact_name (bd_config demo_bsp) (Date 2024 4 1) (Date 2024 4 15) = ''HAF_99999999_20240401_20240415.txt''" by code_simp
  have "dated_name (Date 2024 4 1) (Date 2024 4 15) ''from 20240401 to 20240415.txt''"
    "\<not> dated_name (Date 2024 4 1) (Date 2024 4 15) ''readme.txt''" by code_simp+
  then show ?thesis by (auto simp: chosen_def Let_def n)
qed

text \<open>The agency and the period in the header of the file are not compared with the request.\<close>

definition relabelled :: haf_file where
  "relabelled = sample_haf\<lparr>hf_source_ref := ''HAF_99999999_20240401_20240415''\<rparr>"

lemma relabelled_parse: "parse_haf Some (render_haf [CHR 0x0A] sample_haf) ''HAF_99999999_20240401_20240415'' = Inr relabelled"
proof -
  have "render_haf [CHR 0x0A] sample_haf = render_haf [CHR 0x0A] relabelled" by (simp add: render_haf_def render_lines_def relabelled_def)
  moreover have "haf_fits relabelled" using sample_haf_fits by (simp add: haf_fits_def relabelled_def)
  ultimately show ?thesis using parse_haf_rendered [of relabelled "[CHR 0x0A]" Some "render_haf [CHR 0x0A] sample_haf"] by (simp add: relabelled_def)
qed

theorem statement_of_period_witness:
  "\<exists>r. fetch_statement demo_decode demo_drop sample_uuid demo_bsp ''IN''
      \<lparr>p_start = utc_midnight (Date 2024 4 1), p_end = Some (utc_midnight (Date 2024 4 15) + DAY_US)\<rparr> = Inr r
    \<and> br_period r = \<lparr>p_start = utc_midnight (Date 2024 3 1), p_end = Some (utc_midnight (Date 2024 3 15) + DAY_US)\<rparr>"
proof -
  obtain r where r: "haf_file_to_bsp_report sample_uuid relabelled sample_tenant = Inr r"
    "br_period r = \<lparr>p_start = utc_midnight (Date 2024 3 1), p_end = Some (utc_midnight (Date 2024 3 15) + DAY_US)\<rparr>"
    using report_accepts_iff [OF relabelled_parse sample_uuid4 sample_tenant_ok] sample_header_ok
    by (auto simp: relabelled_def sample_haf_def sample_header_def)
  have ok: "date_ok (Date 2024 4 1)" "date_ok (Date 2024 4 15)" "\<not> date_less (Date 2024 4 15) (Date 2024 4 1)" by code_simp+
  have ref: "''HAF_'' @ ''99999999'' @ ''_'' @ compact_date (Date 2024 4 1) @ ''_'' @ compact_date (Date 2024 4 15) = ''HAF_99999999_20240401_20240415''"
    by code_simp
  have dir: "bc_file_source_dir (bd_config demo_bsp) = Some ''/drop''" by (simp add: demo_bsp_def)
  have lst: "fs_listing demo_drop ''/drop'' = Some [(''readme.txt'', Regular_file ''''), (''from 20240401 to 20240415.txt'', Regular_file (render_haf [CHR 0x0A] sample_haf))]"
    by (simp add: demo_drop_def)
  have wf: "wf_dict [(''readme.txt'', Regular_file ''''), (''from 20240401 to 20240415.txt'', Regular_file (render_haf [CHR 0x0A] sample_haf))]"
    by (simp add: wf_dict_def)
  have "fetch_statement demo_decode demo_drop sample_uuid demo_bsp ''IN'' \<lparr>p_start = utc_midnight (Date 2024 4 1), p_end = Some (utc_midnight (Date 2024 4 15) + DAY_US)\<rparr> = Inr r"
    using statement_of_period [OF dir _ lst wf ok, of demo_decode sample_uuid "''IN''" r] demo_chosen r(1) relabelled_parse ref
    by (fastforce simp: demo_bsp_def demo_decode_def)
  with r(2) show ?thesis by blast
qed

end
