(* ===== verification/Travel.thy ===== *)
theory Travel
  imports Canonical
begin

text \<open>
  The canonical travel and identity records that the drivers and tools exchange: \<^verbatim>\<open>schemas/canonical/travel.py\<close> (flight
  segments, hotel rates and stays, fares, reservations, bookings) and \<^verbatim>\<open>identity.py\<close> (passports, passengers). As in
  \<^verbatim>\<open>Canonical\<close>, a constructor with its validators is a function from the raw fields to a result, whose nested models
  have been constructed before; times have a time zone and are instants. Also the criteria that the search drivers of
  \<^verbatim>\<open>drivers/_contracts\<close> take.
\<close>

section \<open>Flights\<close>

datatype cabin_class = Economy | Premium_economy | Business | First

datatype segment_status = Seg_planned | Seg_held | Seg_confirmed | Seg_flown | Seg_cancelled | Seg_schedule_change

record baggage_allowance =
  bg_checked_pieces :: "int option"
  bg_checked_weight_kg :: "int option"
  bg_cabin_pieces :: "int option"
  bg_cabin_weight_kg :: "int option"

record flight_segment =
  fs_id :: string
  fs_marketing_carrier :: string
  fs_operating_carrier :: "string option"
  fs_flight_number :: string
  fs_origin :: string
  fs_destination :: string
  fs_departure_at :: int
  fs_arrival_at :: int
  fs_cabin :: cabin_class
  fs_booking_class :: "string option"
  fs_fare_basis :: "string option"
  fs_aircraft :: "string option"
  fs_baggage :: "baggage_allowance option"
  fs_status :: segment_status

text \<open>\<^verbatim>\<open>^[0-9]{1,4}[A-Z]?$\<close>\<close>

definition flight_number_ok :: "string \<Rightarrow> bool" where
  "flight_number_ok s \<longleftrightarrow> (let ds = takeWhile is_decimal_char s; r = drop (length ds) s
     in 1 \<le> length ds \<and> length ds \<le> 4 \<and> length r \<le> 1 \<and> list_all is_upper_char r)"

definition flight_segment_of :: "flight_segment \<Rightarrow> canon_error + flight_segment" where
  "flight_segment_of f =
     bind_res (entity_id_of ''id'' (fs_id f)) (\<lambda>ident.
     bind_res (constrained iata_code_ok ''marketing_carrier'' (fs_marketing_carrier f)) (\<lambda>mc.
     bind_res (opt_res (constrained iata_code_ok ''operating_carrier'') (fs_operating_carrier f)) (\<lambda>oc.
     bind_res (constrained flight_number_ok ''flight_number'' (fs_flight_number f)) (\<lambda>num.
     bind_res (constrained iata_code_ok ''origin'' (fs_origin f)) (\<lambda>orig.
     bind_res (constrained iata_code_ok ''destination'' (fs_destination f)) (\<lambda>dest.
     bind_res (guard_res (fs_departure_at f < fs_arrival_at f) (Validation ''arrival_at'')) (\<lambda>_.
       Inr (f\<lparr>fs_id := ident, fs_marketing_carrier := mc, fs_operating_carrier := oc, fs_flight_number := num,
              fs_origin := orig, fs_destination := dest,
              fs_booking_class := map_option py_strip (fs_booking_class f), fs_fare_basis := map_option py_strip (fs_fare_basis f),
              fs_aircraft := map_option py_strip (fs_aircraft f)\<rparr>))))))))"

section \<open>Hotels\<close>

datatype board_basis = RO | BB | HB | FB | AI

record hotel_room =
  ho_code :: string
  ho_name :: string
  ho_board_basis :: board_basis
  ho_max_occupancy :: int
  ho_bed_type :: "string option"

record hotel_rate =
  ha_room :: hotel_room
  ha_price :: money
  ha_cancellation_policy :: "localized_text option"
  ha_is_refundable :: bool
  ha_rate_key :: string

record hotel_property =
  hp_id :: string
  hp_name :: string
  hp_address :: "string option"
  hp_city :: string
  hp_country :: string
  hp_latitude :: "rat option"
  hp_longitude :: "rat option"
  hp_star_rating :: "int option"
  hp_amenities :: "string list"
  hp_images :: "string list"

record hotel_search_result =
  hs_property :: hotel_property
  hs_rates :: "hotel_rate list"
  hs_check_in :: py_date
  hs_check_out :: py_date
  hs_guest_count :: int

definition hotel_room_of :: "hotel_room \<Rightarrow> canon_error + hotel_room" where
  "hotel_room_of r = bind_res (guard_res (1 \<le> ho_max_occupancy r) (Validation ''max_occupancy'')) (\<lambda>_.
     Inr (r\<lparr>ho_code := py_strip (ho_code r), ho_name := py_strip (ho_name r), ho_bed_type := map_option py_strip (ho_bed_type r)\<rparr>))"

definition in_range :: "'a::linorder \<Rightarrow> 'a \<Rightarrow> 'a option \<Rightarrow> bool" where
  "in_range lo hi x = (case x of None \<Rightarrow> True | Some v \<Rightarrow> lo \<le> v \<and> v \<le> hi)"

definition hotel_property_of :: "hotel_property \<Rightarrow> canon_error + hotel_property" where
  "hotel_property_of p = bind_res (constrained country_code_ok ''country'' (hp_country p)) (\<lambda>c.
     bind_res (guard_res (in_range (- 90) 90 (hp_latitude p)) (Validation ''latitude'')) (\<lambda>_.
     bind_res (guard_res (in_range (- 180) 180 (hp_longitude p)) (Validation ''longitude'')) (\<lambda>_.
     bind_res (guard_res (in_range 1 5 (hp_star_rating p)) (Validation ''star_rating'')) (\<lambda>_.
       Inr (p\<lparr>hp_id := py_strip (hp_id p), hp_name := py_strip (hp_name p), hp_address := map_option py_strip (hp_address p),
              hp_city := py_strip (hp_city p), hp_country := c, hp_amenities := map py_strip (hp_amenities p),
              hp_images := map py_strip (hp_images p)\<rparr>)))))"

definition hotel_search_result_of :: "hotel_search_result \<Rightarrow> canon_error + hotel_search_result" where
  "hotel_search_result_of r =
     bind_res (guard_res (hs_rates r \<noteq> []) (Validation ''rates'')) (\<lambda>_.
     bind_res (guard_res (1 \<le> hs_guest_count r) (Validation ''guest_count'')) (\<lambda>_.
     bind_res (guard_res (date_less (hs_check_in r) (hs_check_out r)) (Validation ''check_out'')) (\<lambda>_. Inr r)))"

record hotel_stay =
  ht_id :: string
  ht_property_name :: string
  ht_property_ref :: "string option"
  ht_address_country :: string
  ht_check_in :: py_date
  ht_check_out :: py_date
  ht_nights :: int
  ht_room_type :: "string option"
  ht_board_type :: "string option"
  ht_board_basis :: "board_basis option"
  ht_guest_count :: int
  ht_status :: segment_status

definition hotel_stay_of :: "hotel_stay \<Rightarrow> canon_error + hotel_stay" where
  "hotel_stay_of s =
     bind_res (entity_id_of ''id'' (ht_id s)) (\<lambda>ident.
     bind_res (constrained country_code_ok ''address_country'' (ht_address_country s)) (\<lambda>c.
     bind_res (guard_res (1 \<le> ht_nights s) (Validation ''nights'')) (\<lambda>_.
     bind_res (guard_res (1 \<le> ht_guest_count s) (Validation ''guest_count'')) (\<lambda>_.
     bind_res (guard_res (date_less (ht_check_in s) (ht_check_out s)) (Validation ''check_out'')) (\<lambda>_.
     bind_res (guard_res (ht_nights s = to_ordinal (ht_check_out s) - to_ordinal (ht_check_in s)) (Validation ''nights'')) (\<lambda>_.
       Inr (s\<lparr>ht_id := ident, ht_property_name := py_strip (ht_property_name s),
              ht_property_ref := map_option py_strip (ht_property_ref s), ht_address_country := c,
              ht_room_type := map_option py_strip (ht_room_type s), ht_board_type := map_option py_strip (ht_board_type s)\<rparr>)))))))"

datatype hotel_booking_status = Hb_pending | Hb_requested | Hb_confirmed | Hb_cancelled | Hb_failed

fun hotel_booking_status_value :: "hotel_booking_status \<Rightarrow> string" where
  "hotel_booking_status_value Hb_pending = ''pending''"
| "hotel_booking_status_value Hb_requested = ''requested''"
| "hotel_booking_status_value Hb_confirmed = ''confirmed''"
| "hotel_booking_status_value Hb_cancelled = ''cancelled''"
| "hotel_booking_status_value Hb_failed = ''failed''"

record hotel_booking =
  hb_id :: string
  hb_tenant_id :: string
  hb_stay_id :: string
  hb_supplier :: string
  hb_supplier_ref :: string
  hb_status :: hotel_booking_status
  hb_cost :: money
  hb_currency :: string
  hb_passenger_ids :: "string list"
  hb_selected_rate_key :: "string option"

definition hotel_booking_of :: "hotel_booking \<Rightarrow> canon_error + hotel_booking" where
  "hotel_booking_of b =
     bind_res (entity_id_of ''id'' (hb_id b)) (\<lambda>ident.
     bind_res (entity_id_of ''tenant_id'' (hb_tenant_id b)) (\<lambda>ten.
     bind_res (entity_id_of ''stay_id'' (hb_stay_id b)) (\<lambda>stay.
     bind_res (constrained currency_code_ok ''currency'' (hb_currency b)) (\<lambda>cur.
     bind_res (map_res (entity_id_of ''passenger_ids'') (hb_passenger_ids b)) (\<lambda>pas.
       Inr (b\<lparr>hb_id := ident, hb_tenant_id := ten, hb_stay_id := stay, hb_supplier := py_strip (hb_supplier b),
              hb_supplier_ref := py_strip (hb_supplier_ref b), hb_currency := cur, hb_passenger_ids := pas,
              hb_selected_rate_key := map_option py_strip (hb_selected_rate_key b)\<rparr>))))))"

section \<open>Fares and reservations\<close>

record fare_component =
  fc_label :: string
  fc_amount :: money

record fare =
  fa_id :: string
  fa_tenant_id :: string
  fa_itinerary_id :: string
  fa_passenger_id :: string
  fa_base :: money
  fa_fees :: "fare_component list"
  fa_taxes :: "tax_line list"
  fa_total :: money
  fa_fare_rules :: "localized_text option"
  fa_source :: string
  fa_source_ref :: "string option"
  fa_valid_until :: "int option"

definition fare_currencies :: "fare \<Rightarrow> string list" where
  "fare_currencies f = m_currency (fa_base f) # m_currency (fa_total f)
     # map (\<lambda>c. m_currency (fc_amount c)) (fa_fees f) @ map (\<lambda>t. m_currency (tl_tax_amount t)) (fa_taxes f)"

definition fare_of :: "fare \<Rightarrow> canon_error + fare" where
  "fare_of f =
     bind_res (entity_id_of ''id'' (fa_id f)) (\<lambda>ident.
     bind_res (entity_id_of ''tenant_id'' (fa_tenant_id f)) (\<lambda>ten.
     bind_res (entity_id_of ''itinerary_id'' (fa_itinerary_id f)) (\<lambda>itin.
     bind_res (entity_id_of ''passenger_id'' (fa_passenger_id f)) (\<lambda>pas.
     bind_res (guard_res (length (remdups (fare_currencies f)) \<le> 1) (Validation ''currency'')) (\<lambda>_.
       Inr (f\<lparr>fa_id := ident, fa_tenant_id := ten, fa_itinerary_id := itin, fa_passenger_id := pas,
              fa_source := py_strip (fa_source f), fa_source_ref := map_option py_strip (fa_source_ref f)\<rparr>))))))"

datatype pnr_status = Pnr_tentative | Pnr_confirmed | Pnr_ticketed | Pnr_cancelled | Pnr_schedule_change

fun pnr_status_value :: "pnr_status \<Rightarrow> string" where
  "pnr_status_value Pnr_tentative = ''tentative''"
| "pnr_status_value Pnr_confirmed = ''confirmed''"
| "pnr_status_value Pnr_ticketed = ''ticketed''"
| "pnr_status_value Pnr_cancelled = ''cancelled''"
| "pnr_status_value Pnr_schedule_change = ''schedule_change''"

record pnr =
  pn_id :: string
  pn_tenant_id :: string
  pn_locator :: string
  pn_source :: string
  pn_source_ref :: "string option"
  pn_status :: pnr_status
  pn_passenger_ids :: "string list"
  pn_segment_ids :: "string list"
  pn_fare_ids :: "string list"
  pn_ticket_time_limit :: "int option"
  pn_created_at :: int
  pn_updated_at :: int

definition pnr_of :: "pnr \<Rightarrow> canon_error + pnr" where
  "pnr_of p =
     bind_res (entity_id_of ''id'' (pn_id p)) (\<lambda>ident.
     bind_res (entity_id_of ''tenant_id'' (pn_tenant_id p)) (\<lambda>ten.
     bind_res (map_res (entity_id_of ''passenger_ids'') (pn_passenger_ids p)) (\<lambda>pas.
     bind_res (guard_res (pas \<noteq> []) (Validation ''passenger_ids'')) (\<lambda>_.
     bind_res (map_res (entity_id_of ''segment_ids'') (pn_segment_ids p)) (\<lambda>segs.
     bind_res (guard_res (segs \<noteq> []) (Validation ''segment_ids'')) (\<lambda>_.
     bind_res (map_res (entity_id_of ''fare_ids'') (pn_fare_ids p)) (\<lambda>fares.
       Inr (p\<lparr>pn_id := ident, pn_tenant_id := ten, pn_locator := py_strip (pn_locator p), pn_source := py_strip (pn_source p),
              pn_source_ref := map_option py_strip (pn_source_ref p), pn_passenger_ids := pas, pn_segment_ids := segs,
              pn_fare_ids := fares\<rparr>))))))))"

section \<open>Passengers\<close>

datatype passenger_type = P_adult | P_child | P_infant | P_senior

datatype gender = G_male | G_female | G_unspecified

record passport =
  ps_number :: string
  ps_issuing_country :: string
  ps_given_name :: string
  ps_family_name :: string
  ps_date_of_birth :: py_date
  ps_gender :: gender
  ps_issue_date :: py_date
  ps_expiry_date :: py_date
  ps_place_of_birth :: "string option"

definition passport_of :: "passport \<Rightarrow> canon_error + passport" where
  "passport_of p =
     bind_res (constrained country_code_ok ''issuing_country'' (ps_issuing_country p)) (\<lambda>c.
     bind_res (guard_res (date_less (ps_issue_date p) (ps_expiry_date p)) (Validation ''expiry_date'')) (\<lambda>_.
     bind_res (guard_res (date_less (ps_date_of_birth p) (ps_issue_date p)) (Validation ''issue_date'')) (\<lambda>_.
       Inr (p\<lparr>ps_issuing_country := c, ps_given_name := py_strip (ps_given_name p), ps_family_name := py_strip (ps_family_name p),
              ps_place_of_birth := map_option py_strip (ps_place_of_birth p)\<rparr>))))"

text \<open>\<^verbatim>\<open>^\+[1-9]\d{6,14}$\<close>\<close>

definition e164_ok :: "string \<Rightarrow> bool" where
  "e164_ok s \<longleftrightarrow> (case s of [] \<Rightarrow> False | c # ds \<Rightarrow> c = CHR ''+'' \<and> ds \<noteq> [] \<and> hd ds \<noteq> CHR ''0'' \<and> list_all is_decimal_char ds
     \<and> 7 \<le> length ds \<and> length ds \<le> 15)"

text \<open>\<^verbatim>\<open>^[^@\s]+@[^@\s]+\.[^@\s]+$\<close>\<close>

definition email_ok :: "string \<Rightarrow> bool" where
  "email_ok s \<longleftrightarrow> (let local_part = takeWhile (\<lambda>c. c \<noteq> CHR ''@'') s; dom_part = drop (Suc (length local_part)) s
     in list_all (\<lambda>c. \<not> py_isspace c) s \<and> CHR ''@'' \<in> set s \<and> local_part \<noteq> [] \<and> CHR ''@'' \<notin> set dom_part
        \<and> CHR ''.'' \<in> set (butlast (tl dom_part)))"

datatype national_id_kind = AADHAAR | PAN | EMIRATES_ID | NRIC | SSN | NIN | CPF | OTHER_ID

record national_id =
  ni_country :: string
  ni_kind :: national_id_kind
  ni_value :: string
  ni_issued_on :: "py_date option"
  ni_expires_on :: "py_date option"

record phone =
  ph_e164 :: string
  ph_label :: "string option"

record email =
  em_address :: string
  em_label :: "string option"

definition national_id_of :: "national_id \<Rightarrow> canon_error + national_id" where
  "national_id_of n = bind_res (constrained country_code_ok ''country'' (ni_country n)) (\<lambda>c. Inr (n\<lparr>ni_country := c\<rparr>))"

definition phone_of :: "phone \<Rightarrow> canon_error + phone" where
  "phone_of p = bind_res (constrained e164_ok ''e164'' (ph_e164 p)) (\<lambda>s. Inr \<lparr>ph_e164 = s, ph_label = map_option py_strip (ph_label p)\<rparr>)"

definition email_of :: "email \<Rightarrow> canon_error + email" where
  "email_of m = bind_res (constrained email_ok ''address'' (em_address m)) (\<lambda>s. Inr \<lparr>em_address = s, em_label = map_option py_strip (em_label m)\<rparr>)"

record passenger =
  pg_id :: string
  pg_tenant_id :: string
  pg_type :: passenger_type
  pg_given_name :: string
  pg_family_name :: string
  pg_middle_name :: "string option"
  pg_preferred_name :: "string option"
  pg_date_of_birth :: "py_date option"
  pg_gender :: "gender option"
  pg_nationality :: "string option"
  pg_passport :: "passport option"
  pg_national_ids :: "national_id list"
  pg_phones :: "phone list"
  pg_emails :: "email list"
  pg_address :: "address option"
  pg_notes :: "localized_text option"
  pg_created_at :: int
  pg_updated_at :: int

definition passenger_of :: "passenger \<Rightarrow> canon_error + passenger" where
  "passenger_of p =
     bind_res (entity_id_of ''id'' (pg_id p)) (\<lambda>ident.
     bind_res (entity_id_of ''tenant_id'' (pg_tenant_id p)) (\<lambda>ten.
     bind_res (opt_res (constrained country_code_ok ''nationality'') (pg_nationality p)) (\<lambda>nat_code.
       Inr (p\<lparr>pg_id := ident, pg_tenant_id := ten, pg_given_name := py_strip (pg_given_name p),
              pg_family_name := py_strip (pg_family_name p), pg_middle_name := map_option py_strip (pg_middle_name p),
              pg_preferred_name := map_option py_strip (pg_preferred_name p), pg_nationality := nat_code\<rparr>))))"

section \<open>Search criteria\<close>

record fare_search_criteria =
  sc_passengers :: "(passenger_type, int) dict"
  sc_origin :: string
  sc_destination :: string
  sc_outbound_date :: py_date
  sc_return_date :: "py_date option"
  sc_cabin :: cabin_class
  sc_direct_only :: bool
  sc_airline_whitelist :: "string list"
  sc_airline_blacklist :: "string list"
  sc_max_price :: "money option"
  sc_max_results :: int

definition fare_search_criteria_of :: "fare_search_criteria \<Rightarrow> canon_error + fare_search_criteria" where
  "fare_search_criteria_of c =
     bind_res (constrained iata_code_ok ''origin'' (sc_origin c)) (\<lambda>orig.
     bind_res (constrained iata_code_ok ''destination'' (sc_destination c)) (\<lambda>dest.
     bind_res (map_res (constrained iata_code_ok ''airline_whitelist'') (sc_airline_whitelist c)) (\<lambda>white.
     bind_res (map_res (constrained iata_code_ok ''airline_blacklist'') (sc_airline_blacklist c)) (\<lambda>black.
     bind_res (guard_res (in_range 1 250 (Some (sc_max_results c))) (Validation ''max_results'')) (\<lambda>_.
     bind_res (guard_res (1 \<le> sum_list (dict_values (sc_passengers c))) (Validation ''passengers'')) (\<lambda>_.
     bind_res (guard_res (list_all (\<lambda>n. 0 \<le> n) (dict_values (sc_passengers c))) (Validation ''passengers'')) (\<lambda>_.
     bind_res (guard_res (case sc_return_date c of None \<Rightarrow> True | Some d \<Rightarrow> \<not> date_less d (sc_outbound_date c)) (Validation ''return_date'')) (\<lambda>_.
     bind_res (guard_res (filter (\<lambda>a. a \<in> set black) white = []) (Validation ''airline_whitelist'')) (\<lambda>_.
       Inr (c\<lparr>sc_origin := orig, sc_destination := dest, sc_airline_whitelist := white, sc_airline_blacklist := black\<rparr>))))))))))"

record hotel_search_criteria =
  hc_destination_country :: string
  hc_destination_city :: string
  hc_check_in :: py_date
  hc_check_out :: py_date
  hc_guest_count :: int
  hc_budget_min :: "money option"
  hc_budget_max :: "money option"

definition hotel_search_criteria_of :: "hotel_search_criteria \<Rightarrow> canon_error + hotel_search_criteria" where
  "hotel_search_criteria_of c =
     bind_res (constrained country_code_ok ''destination_country'' (hc_destination_country c)) (\<lambda>country.
     bind_res (guard_res (1 \<le> hc_guest_count c) (Validation ''guest_count'')) (\<lambda>_.
     bind_res (guard_res (date_less (hc_check_in c) (hc_check_out c)) (Validation ''check_out'')) (\<lambda>_.
     bind_res (guard_res (case (hc_budget_min c, hc_budget_max c) of
         (Some lo, Some hi) \<Rightarrow> m_currency lo = m_currency hi \<and> dec_le (m_amount lo) (m_amount hi) | _ \<Rightarrow> True) (Validation ''budget'')) (\<lambda>_.
       Inr (c\<lparr>hc_destination_country := country, hc_destination_city := py_strip (hc_destination_city c)\<rparr>)))))"

record hotel_offer =
  hf_property_name :: string
  hf_property_ref :: string
  hf_address_country :: string
  hf_cost :: money
  hf_board_type :: string
  hf_room_type :: string
  hf_cancellation_text :: localized_text
  hf_offer_ref :: string

definition hotel_offer_of :: "hotel_offer \<Rightarrow> canon_error + hotel_offer" where
  "hotel_offer_of h = bind_res (constrained country_code_ok ''address_country'' (hf_address_country h)) (\<lambda>c.
     Inr (h\<lparr>hf_property_name := py_strip (hf_property_name h), hf_property_ref := py_strip (hf_property_ref h), hf_address_country := c,
            hf_board_type := py_strip (hf_board_type h), hf_room_type := py_strip (hf_room_type h), hf_offer_ref := py_strip (hf_offer_ref h)\<rparr>))"

end
