(* ===== verification/Tool_Specs.thy ===== *)
theory Tool_Specs
  imports Tool_Runtime
begin

text \<open>
  The catalogue of \<^verbatim>\<open>services/agent_runtime/.../tools.py\<close>: for every tool the JSON schema of its input and
  its specification (what it may do, whether it needs an approval, and whose). The handlers are in \<^verbatim>\<open>Tool_Handlers\<close>.
\<close>

section \<open>Input schemas\<close>

definition HANDOFF_SCHEMA :: json where
  "HANDOFF_SCHEMA = JObj [
     (''$schema'', JStr ''https://json-schema.org/draft/2020-12/schema''),
     (''type'', JStr ''object''),
     (''required'', JList [JStr ''domain'', JStr ''goal'']),
     (''properties'', JObj [
       (''domain'', JObj [
         (''type'', JStr ''string''),
         (''enum'', JList [JStr ''ticketing_visa'', JStr ''hotels_holidays'', JStr ''accounting''])]),
       (''goal'', JObj [(''type'', JStr ''string''), (''minLength'', JInt 1)])]),
     (''additionalProperties'', JBool False)]"

definition CLARIFY_SCHEMA :: json where
  "CLARIFY_SCHEMA = JObj [
     (''$schema'', JStr ''https://json-schema.org/draft/2020-12/schema''),
     (''type'', JStr ''object''),
     (''required'', JList [JStr ''question'']),
     (''properties'', JObj [(''question'', JObj [(''type'', JStr ''string''), (''minLength'', JInt 1)])]),
     (''additionalProperties'', JBool False)]"

definition SEARCH_FLIGHTS_SCHEMA :: json where
  "SEARCH_FLIGHTS_SCHEMA = JObj [
     (''$schema'', JStr ''https://json-schema.org/draft/2020-12/schema''),
     (''type'', JStr ''object''),
     (''required'', JList [JStr ''origin'', JStr ''destination'', JStr ''outbound_date'', JStr ''passengers'']),
     (''properties'', JObj [
       (''origin'', JObj [(''type'', JStr ''string''), (''pattern'', JStr ''^[A-Z0-9]{2,3}$'')]),
       (''destination'', JObj [(''type'', JStr ''string''), (''pattern'', JStr ''^[A-Z0-9]{2,3}$'')]),
       (''outbound_date'', JObj [(''type'', JStr ''string''), (''format'', JStr ''date'')]),
       (''return_date'', JObj [(''type'', JStr ''string''), (''format'', JStr ''date'')]),
       (''passengers'', JObj [
         (''type'', JStr ''object''),
         (''properties'', JObj [
           (''adult'', JObj [(''type'', JStr ''integer''), (''minimum'', JInt 0)]),
           (''child'', JObj [(''type'', JStr ''integer''), (''minimum'', JInt 0)]),
           (''infant'', JObj [(''type'', JStr ''integer''), (''minimum'', JInt 0)]),
           (''senior'', JObj [(''type'', JStr ''integer''), (''minimum'', JInt 0)])]),
         (''additionalProperties'', JBool False)]),
       (''cabin'', JObj [
         (''type'', JStr ''string''),
         (''enum'', JList [JStr ''economy'', JStr ''premium_economy'', JStr ''business'', JStr ''first''])]),
       (''direct_only'', JObj [(''type'', JStr ''boolean'')])]),
     (''additionalProperties'', JBool False)]"

definition READ_PNR_SCHEMA :: json where
  "READ_PNR_SCHEMA = JObj [
     (''$schema'', JStr ''https://json-schema.org/draft/2020-12/schema''),
     (''type'', JStr ''object''),
     (''required'', JList [JStr ''locator'']),
     (''properties'', JObj [(''locator'', JObj [(''type'', JStr ''string''), (''minLength'', JInt 1)])]),
     (''additionalProperties'', JBool False)]"

definition ISSUE_TICKET_SCHEMA :: json where
  "ISSUE_TICKET_SCHEMA = JObj [
     (''$schema'', JStr ''https://json-schema.org/draft/2020-12/schema''),
     (''type'', JStr ''object''),
     (''required'', JList [JStr ''pnr_id'']),
     (''properties'', JObj [(''pnr_id'', JObj [(''type'', JStr ''string''), (''minLength'', JInt 1)])]),
     (''additionalProperties'', JBool False)]"

definition LIST_LEDGER_ACCOUNTS_SCHEMA :: json where
  "LIST_LEDGER_ACCOUNTS_SCHEMA = JObj [
     (''$schema'', JStr ''https://json-schema.org/draft/2020-12/schema''),
     (''type'', JStr ''object''),
     (''properties'', JObj []),
     (''additionalProperties'', JBool False)]"

definition POST_JOURNAL_SCHEMA :: json where
  "POST_JOURNAL_SCHEMA = JObj [
     (''$schema'', JStr ''https://json-schema.org/draft/2020-12/schema''),
     (''type'', JStr ''object''),
     (''required'', JList [JStr ''entry'']),
     (''properties'', JObj [
       (''entry'', JObj [
         (''type'', JStr ''object''),
         (''required'', JList [JStr ''narration'', JStr ''lines'']),
         (''properties'', JObj [
           (''narration'', JObj [(''type'', JStr ''string''), (''minLength'', JInt 1)]),
           (''entry_date'', JObj [(''type'', JStr ''string''), (''format'', JStr ''date'')]),
           (''source_event'', JObj [(''type'', JStr ''string'')]),
           (''lines'', JObj [
             (''type'', JStr ''array''),
             (''minItems'', JInt 2),
             (''items'', JObj [
               (''type'', JStr ''object''),
               (''required'', JList [JStr ''account_id'', JStr ''currency'']),
               (''properties'', JObj [
                 (''account_id'', JObj [(''type'', JStr ''string''), (''minLength'', JInt 1)]),
                 (''account_code'', JObj [(''type'', JStr ''string'')]),
                 (''debit_amount'', JObj [(''type'', JStr ''string'')]),
                 (''credit_amount'', JObj [(''type'', JStr ''string'')]),
                 (''currency'', JObj [(''type'', JStr ''string''), (''pattern'', JStr ''^[A-Z]{3}$'')]),
                 (''narration'', JObj [(''type'', JStr ''string'')])]),
               (''additionalProperties'', JBool False)])])]),
         (''additionalProperties'', JBool False)])]),
     (''additionalProperties'', JBool False)]"

definition CREATE_INVOICE_SCHEMA :: json where
  "CREATE_INVOICE_SCHEMA = JObj [
     (''$schema'', JStr ''https://json-schema.org/draft/2020-12/schema''),
     (''type'', JStr ''object''),
     (''required'', JList [JStr ''invoice'']),
     (''properties'', JObj [
       (''invoice'', JObj [
         (''type'', JStr ''object''),
         (''required'', JList [JStr ''invoice_number'', JStr ''client_id'', JStr ''issue_date'', JStr ''currency'', JStr ''lines'', JStr ''billing_address'']),
         (''properties'', JObj [
           (''invoice_number'', JObj [(''type'', JStr ''string''), (''minLength'', JInt 1)]),
           (''series'', JObj [(''type'', JStr ''string'')]),
           (''client_id'', JObj [(''type'', JStr ''string''), (''minLength'', JInt 1)]),
           (''issue_date'', JObj [(''type'', JStr ''string''), (''format'', JStr ''date'')]),
           (''due_date'', JObj [(''type'', JStr ''string''), (''format'', JStr ''date'')]),
           (''currency'', JObj [(''type'', JStr ''string''), (''pattern'', JStr ''^[A-Z]{3}$'')]),
           (''lines'', JObj [(''type'', JStr ''array''), (''minItems'', JInt 1), (''items'', JObj [(''type'', JStr ''object'')])]),
           (''billing_address'', JObj [(''type'', JStr ''object'')]),
           (''notes'', JObj [(''type'', JStr ''string'')])]),
         (''additionalProperties'', JBool True)])]),
     (''additionalProperties'', JBool False)]"

definition DRAFT_INVOICE_SCHEMA :: json where
  "DRAFT_INVOICE_SCHEMA = JObj [
     (''$schema'', JStr ''https://json-schema.org/draft/2020-12/schema''),
     (''type'', JStr ''object''),
     (''required'', JList [JStr ''customer_name'', JStr ''issue_date'', JStr ''due_date'', JStr ''line_items'']),
     (''properties'', JObj [
       (''customer_name'', JObj [
         (''type'', JStr ''string''),
         (''minLength'', JInt 1),
         (''description'', JStr ''Customer / debtor name. Required.'')]),
       (''party_reference'', JObj [
         (''type'', JList [JStr ''string'', JStr ''null'']),
         (''description'', JStr ''Optional passenger id / enquiry id / session id.'')]),
       (''issue_date'', JObj [(''type'', JStr ''string''), (''format'', JStr ''date'')]),
       (''due_date'', JObj [(''type'', JStr ''string''), (''format'', JStr ''date'')]),
       (''line_items'', JObj [
         (''type'', JStr ''array''),
         (''minItems'', JInt 1),
         (''items'', JObj [
           (''type'', JStr ''object''),
           (''required'', JList [JStr ''description'', JStr ''quantity'', JStr ''unit_price'', JStr ''currency'']),
           (''properties'', JObj [
             (''description'', JObj [(''type'', JStr ''string''), (''minLength'', JInt 1)]),
             (''quantity'', JObj [(''type'', JStr ''integer''), (''minimum'', JInt 1)]),
             (''unit_price'', JObj [(''type'', JStr ''string''), (''description'', JStr ''Decimal string, e.g. \"12500.00\"'')]),
             (''currency'', JObj [(''type'', JStr ''string''), (''pattern'', JStr ''^[A-Z]{3}$'')])]),
           (''additionalProperties'', JBool False)])]),
       (''notes'', JObj [(''type'', JList [JStr ''string'', JStr ''null''])]),
       (''number'', JObj [
         (''type'', JList [JStr ''string'', JStr ''null'']),
         (''description'', JStr ''Invoice number; auto-generated if omitted.'')])]),
     (''additionalProperties'', JBool False)]"

definition FETCH_BSP_STATEMENT_SCHEMA :: json where
  "FETCH_BSP_STATEMENT_SCHEMA = JObj [
     (''$schema'', JStr ''https://json-schema.org/draft/2020-12/schema''),
     (''type'', JStr ''object''),
     (''required'', JList [JStr ''country'', JStr ''period_start'', JStr ''period_end'']),
     (''properties'', JObj [
       (''country'', JObj [(''type'', JStr ''string''), (''pattern'', JStr ''^[A-Z]{2}$'')]),
       (''period_start'', JObj [(''type'', JStr ''string''), (''format'', JStr ''date'')]),
       (''period_end'', JObj [(''type'', JStr ''string''), (''format'', JStr ''date'')])]),
     (''additionalProperties'', JBool False)]"

definition RECONCILE_BSP_SCHEMA :: json where
  "RECONCILE_BSP_SCHEMA = JObj [
     (''$schema'', JStr ''https://json-schema.org/draft/2020-12/schema''),
     (''type'', JStr ''object''),
     (''required'', JList [JStr ''report_id'']),
     (''properties'', JObj [
       (''report_id'', JObj [(''type'', JStr ''string''), (''minLength'', JInt 1)]),
       (''ticket_ids'', JObj [(''type'', JStr ''array''), (''items'', JObj [(''type'', JStr ''string'')])])]),
     (''additionalProperties'', JBool False)]"

definition READ_ACCOUNT_BALANCE_SCHEMA :: json where
  "READ_ACCOUNT_BALANCE_SCHEMA = JObj [
     (''$schema'', JStr ''https://json-schema.org/draft/2020-12/schema''),
     (''type'', JStr ''object''),
     (''required'', JList [JStr ''account_id'', JStr ''as_of'']),
     (''properties'', JObj [
       (''account_id'', JObj [(''type'', JStr ''string''), (''minLength'', JInt 1)]),
       (''as_of'', JObj [(''type'', JStr ''string''), (''format'', JStr ''date'')])]),
     (''additionalProperties'', JBool False)]"

definition SEARCH_HOTELS_SCHEMA :: json where
  "SEARCH_HOTELS_SCHEMA = JObj [
     (''$schema'', JStr ''https://json-schema.org/draft/2020-12/schema''),
     (''type'', JStr ''object''),
     (''required'', JList [JStr ''country'', JStr ''city'', JStr ''check_in'', JStr ''check_out'', JStr ''guests'']),
     (''properties'', JObj [
       (''country'', JObj [(''type'', JStr ''string''), (''pattern'', JStr ''^[A-Z]{2}$'')]),
       (''city'', JObj [(''type'', JStr ''string''), (''minLength'', JInt 1)]),
       (''check_in'', JObj [(''type'', JStr ''string''), (''format'', JStr ''date'')]),
       (''check_out'', JObj [(''type'', JStr ''string''), (''format'', JStr ''date'')]),
       (''guests'', JObj [(''type'', JStr ''integer''), (''minimum'', JInt 1)]),
       (''currency'', JObj [(''type'', JStr ''string''), (''pattern'', JStr ''^[A-Z]{3}$'')]),
       (''budget_max'', JObj [(''type'', JStr ''string'')])]),
     (''additionalProperties'', JBool False)]"

definition CHECK_HOTEL_RATE_SCHEMA :: json where
  "CHECK_HOTEL_RATE_SCHEMA = JObj [
     (''$schema'', JStr ''https://json-schema.org/draft/2020-12/schema''),
     (''type'', JStr ''object''),
     (''required'', JList [JStr ''rate_key'']),
     (''properties'', JObj [(''rate_key'', JObj [(''type'', JStr ''string''), (''minLength'', JInt 1)])]),
     (''additionalProperties'', JBool False)]"

definition BOOK_HOTEL_SCHEMA :: json where
  "BOOK_HOTEL_SCHEMA = JObj [
     (''$schema'', JStr ''https://json-schema.org/draft/2020-12/schema''),
     (''type'', JStr ''object''),
     (''required'', JList [JStr ''rate_key'', JStr ''passenger_ids'']),
     (''properties'', JObj [
       (''rate_key'', JObj [(''type'', JStr ''string''), (''minLength'', JInt 1)]),
       (''passenger_ids'', JObj [
         (''type'', JStr ''array''),
         (''minItems'', JInt 1),
         (''items'', JObj [(''type'', JStr ''string''), (''minLength'', JInt 1)])]),
       (''buyer_reference'', JObj [(''type'', JStr ''string'')])]),
     (''additionalProperties'', JBool False)]"

definition CANCEL_HOTEL_BOOKING_SCHEMA :: json where
  "CANCEL_HOTEL_BOOKING_SCHEMA = JObj [
     (''$schema'', JStr ''https://json-schema.org/draft/2020-12/schema''),
     (''type'', JStr ''object''),
     (''required'', JList [JStr ''booking_id'']),
     (''properties'', JObj [(''booking_id'', JObj [(''type'', JStr ''string''), (''minLength'', JInt 1)])]),
     (''additionalProperties'', JBool False)]"

definition READ_HOTEL_BOOKING_SCHEMA :: json where
  "READ_HOTEL_BOOKING_SCHEMA = JObj [
     (''$schema'', JStr ''https://json-schema.org/draft/2020-12/schema''),
     (''type'', JStr ''object''),
     (''required'', JList [JStr ''booking_id'']),
     (''properties'', JObj [(''booking_id'', JObj [(''type'', JStr ''string''), (''minLength'', JInt 1)])]),
     (''additionalProperties'', JBool False)]"

section \<open>Specifications\<close>

definition handoff_spec :: tool_spec where
  "handoff_spec = \<lparr>ts_name = ''handoff'',
     ts_description = ''Hand off to a domain agent for the rest of this turn. Use when the user's intent clearly belongs to one of ''
      @ ''ticketing_visa / hotels_holidays / accounting.'',
     ts_input_schema = HANDOFF_SCHEMA, ts_output_schema = None, ts_side_effect = False, ts_reversible = True,
     ts_approval_required = False, ts_approval_roles = [], ts_domain = CrossCutting\<rparr>"

definition clarify_spec :: tool_spec where
  "clarify_spec = \<lparr>ts_name = ''clarify'',
     ts_description = ''Ask the user one short clarifying question. Use only when routing is ambiguous.'',
     ts_input_schema = CLARIFY_SCHEMA, ts_output_schema = None, ts_side_effect = False, ts_reversible = True,
     ts_approval_required = False, ts_approval_roles = [], ts_domain = CrossCutting\<rparr>"

definition search_flights_spec :: tool_spec where
  "search_flights_spec = \<lparr>ts_name = ''search_flights'',
     ts_description = ''Shop for flight fares. Read-only. Returns compact fare summaries (price, carrier source, validity). Use this ''
      @ ''before quoting.'',
     ts_input_schema = SEARCH_FLIGHTS_SCHEMA, ts_output_schema = None, ts_side_effect = False, ts_reversible = True,
     ts_approval_required = False, ts_approval_roles = [], ts_domain = TicketingVisa\<rparr>"

definition read_pnr_spec :: tool_spec where
  "read_pnr_spec = \<lparr>ts_name = ''read_pnr'',
     ts_description = ''Fetch a reservation by vendor locator / order id. Read-only. Returns a compact structured summary.'',
     ts_input_schema = READ_PNR_SCHEMA, ts_output_schema = None, ts_side_effect = False, ts_reversible = True,
     ts_approval_required = False, ts_approval_roles = [], ts_domain = TicketingVisa\<rparr>"

definition issue_ticket_spec :: tool_spec where
  "issue_ticket_spec = \<lparr>ts_name = ''issue_ticket'',
     ts_description = ''Issue e-tickets for a PNR. Irreversible, side-effect-bearing. Always requires explicit human approval.'',
     ts_input_schema = ISSUE_TICKET_SCHEMA, ts_output_schema = None, ts_side_effect = True, ts_reversible = False,
     ts_approval_required = True, ts_approval_roles = [''agency_admin'', ''ticketing_lead''], ts_domain = TicketingVisa\<rparr>"

definition list_ledger_accounts_spec :: tool_spec where
  "list_ledger_accounts_spec = \<lparr>ts_name = ''list_ledger_accounts'',
     ts_description = ''List the tenant's chart of accounts. Read-only. Returns compact {id, code, name, type} entries. Always call ''
      @ ''this before posting a journal or creating an invoice.'',
     ts_input_schema = LIST_LEDGER_ACCOUNTS_SCHEMA, ts_output_schema = None, ts_side_effect = False, ts_reversible = True,
     ts_approval_required = False, ts_approval_roles = [], ts_domain = Accounting\<rparr>"

definition post_journal_entry_spec :: tool_spec where
  "post_journal_entry_spec = \<lparr>ts_name = ''post_journal_entry'',
     ts_description = ''Post a double-entry journal voucher to the books. SIDE EFFECT, NOT REVERSIBLE. Always requires human approval.''
      @ '' Provide narration and at least two lines; each line sets exactly one of debit_amount / credit_amount, plus ''
      @ ''currency.'',
     ts_input_schema = POST_JOURNAL_SCHEMA, ts_output_schema = None, ts_side_effect = True, ts_reversible = False,
     ts_approval_required = True, ts_approval_roles = [''accountant'', ''admin''], ts_domain = Accounting\<rparr>"

definition create_invoice_spec :: tool_spec where
  "create_invoice_spec = \<lparr>ts_name = ''create_invoice'',
     ts_description = ''Create a customer invoice in the backing accounting system. SIDE EFFECT, reversible (supports cancellation / ''
      @ ''credit note). Always requires human approval.'',
     ts_input_schema = CREATE_INVOICE_SCHEMA, ts_output_schema = None, ts_side_effect = True, ts_reversible = True,
     ts_approval_required = True, ts_approval_roles = [''accountant'', ''admin''], ts_domain = Accounting\<rparr>"

definition draft_invoice_spec :: tool_spec where
  "draft_invoice_spec = \<lparr>ts_name = ''draft_invoice'',
     ts_description = ''Draft an invoice for a customer. Saved with status='draft'. Does NOT post to the ledger. Requires finance ''
      @ ''approval on first invocation.'',
     ts_input_schema = DRAFT_INVOICE_SCHEMA, ts_output_schema = None, ts_side_effect = True, ts_reversible = True,
     ts_approval_required = True, ts_approval_roles = [''accountant'', ''admin''], ts_domain = Accounting\<rparr>"

definition fetch_bsp_statement_spec :: tool_spec where
  "fetch_bsp_statement_spec = \<lparr>ts_name = ''fetch_bsp_statement'',
     ts_description = ''Fetch and parse a BSP settlement statement for a country + period. Read-only. Returns a compact summary ''
      @ ''(totals, transaction counts). The full canonical report is cached in the runtime under the returned report_id ''
      @ ''for later reconcile_bsp calls.'',
     ts_input_schema = FETCH_BSP_STATEMENT_SCHEMA, ts_output_schema = None, ts_side_effect = False, ts_reversible = True,
     ts_approval_required = False, ts_approval_roles = [], ts_domain = Accounting\<rparr>"

definition reconcile_bsp_spec :: tool_spec where
  "reconcile_bsp_spec = \<lparr>ts_name = ''reconcile_bsp'',
     ts_description = ''Run deterministic reconciliation of a previously fetched BSP report against Voyagent tickets. Read-only. ''
      @ ''Returns a compact summary plus an issues list for the accountant to review. In v0 the optional ticket_ids ''
      @ ''argument selects from the runtime's in-memory tickets store; in production this will pull from the sales ''
      @ ''table.'',
     ts_input_schema = RECONCILE_BSP_SCHEMA, ts_output_schema = None, ts_side_effect = False, ts_reversible = True,
     ts_approval_required = False, ts_approval_roles = [], ts_domain = Accounting\<rparr>"

definition read_account_balance_spec :: tool_spec where
  "read_account_balance_spec = \<lparr>ts_name = ''read_account_balance'',
     ts_description = ''Read a ledger account balance as of a date. Read-only. Some backends (e.g. desktop accounting) do not support ''
      @ ''this; in that case the tool returns a structured not-supported result rather than failing the run.'',
     ts_input_schema = READ_ACCOUNT_BALANCE_SCHEMA, ts_output_schema = None, ts_side_effect = False, ts_reversible = True,
     ts_approval_required = False, ts_approval_roles = [], ts_domain = Accounting\<rparr>"

definition search_hotels_spec :: tool_spec where
  "search_hotels_spec = \<lparr>ts_name = ''search_hotels'',
     ts_description = ''Shop hotel availability. Read-only. Returns compact property summaries with rate keys the agent can pass to ''
      @ ''check_hotel_rate or book_hotel. Always call this before quoting a hotel.'',
     ts_input_schema = SEARCH_HOTELS_SCHEMA, ts_output_schema = None, ts_side_effect = False, ts_reversible = True,
     ts_approval_required = False, ts_approval_roles = [], ts_domain = HotelsHolidays\<rparr>"

definition check_hotel_rate_spec :: tool_spec where
  "check_hotel_rate_spec = \<lparr>ts_name = ''check_hotel_rate'',
     ts_description = ''Re-price a shopped hotel rate before booking. Read-only. Returns the current price and a (possibly refreshed) ''
      @ ''rate key. ALWAYS call this immediately before book_hotel.'',
     ts_input_schema = CHECK_HOTEL_RATE_SCHEMA, ts_output_schema = None, ts_side_effect = False, ts_reversible = True,
     ts_approval_required = False, ts_approval_roles = [], ts_domain = HotelsHolidays\<rparr>"

definition book_hotel_spec :: tool_spec where
  "book_hotel_spec = \<lparr>ts_name = ''book_hotel'',
     ts_description = ''Confirm a hotel booking at the supplier. SIDE EFFECT, reversible (via cancel_hotel_booking subject to supplier''
      @ '' rules). Always requires human approval. Supply the rate_key from a recent check_hotel_rate call and the ''
      @ ''canonical passenger ids.'',
     ts_input_schema = BOOK_HOTEL_SCHEMA, ts_output_schema = None, ts_side_effect = True, ts_reversible = True,
     ts_approval_required = True, ts_approval_roles = [''agency_admin'', ''hotels_lead''], ts_domain = HotelsHolidays\<rparr>"

definition cancel_hotel_booking_spec :: tool_spec where
  "cancel_hotel_booking_spec = \<lparr>ts_name = ''cancel_hotel_booking'',
     ts_description = ''Cancel a confirmed hotel booking at the supplier. SIDE EFFECT. Always requires human approval. Refund rules ''
      @ ''depend on the original cancellation policy.'',
     ts_input_schema = CANCEL_HOTEL_BOOKING_SCHEMA, ts_output_schema = None, ts_side_effect = True, ts_reversible = False,
     ts_approval_required = True, ts_approval_roles = [''agency_admin'', ''hotels_lead''], ts_domain = HotelsHolidays\<rparr>"

definition read_hotel_booking_spec :: tool_spec where
  "read_hotel_booking_spec = \<lparr>ts_name = ''read_hotel_booking'',
     ts_description = ''Fetch a hotel booking from the supplier by id. Read-only. Returns a compact structured summary.'',
     ts_input_schema = READ_HOTEL_BOOKING_SCHEMA, ts_output_schema = None, ts_side_effect = False, ts_reversible = True,
     ts_approval_required = False, ts_approval_roles = [], ts_domain = HotelsHolidays\<rparr>"

definition ORCHESTRATOR_TOOL_NAMES :: "string list" where
  "ORCHESTRATOR_TOOL_NAMES = [''handoff'', ''clarify'']"

definition TICKETING_VISA_TOOL_NAMES :: "string list" where
  "TICKETING_VISA_TOOL_NAMES = [''search_flights'', ''read_pnr'', ''issue_ticket'']"

definition HOTELS_HOLIDAYS_TOOL_NAMES :: "string list" where
  "HOTELS_HOLIDAYS_TOOL_NAMES = [''search_hotels'', ''check_hotel_rate'', ''book_hotel'', ''cancel_hotel_booking'', ''read_hotel_booking'']"

definition ACCOUNTING_TOOL_NAMES :: "string list" where
  "ACCOUNTING_TOOL_NAMES = [''list_ledger_accounts'', ''post_journal_entry'', ''create_invoice'', ''draft_invoice'',
     ''fetch_bsp_statement'', ''reconcile_bsp'', ''read_account_balance'']"

text \<open>The specifications in the order the module registers them.\<close>

definition catalogue :: "tool_spec list" where
  "catalogue = [search_flights_spec, read_pnr_spec, issue_ticket_spec, handoff_spec, clarify_spec, list_ledger_accounts_spec,
     post_journal_entry_spec, create_invoice_spec, draft_invoice_spec, fetch_bsp_statement_spec, reconcile_bsp_spec,
     read_account_balance_spec, search_hotels_spec, check_hotel_rate_spec, book_hotel_spec, cancel_hotel_booking_spec,
     read_hotel_booking_spec]"

lemmas spec_defs = search_flights_spec_def read_pnr_spec_def issue_ticket_spec_def handoff_spec_def clarify_spec_def
  list_ledger_accounts_spec_def post_journal_entry_spec_def create_invoice_spec_def draft_invoice_spec_def fetch_bsp_statement_spec_def
  reconcile_bsp_spec_def read_account_balance_spec_def search_hotels_spec_def check_hotel_rate_spec_def book_hotel_spec_def
  cancel_hotel_booking_spec_def read_hotel_booking_spec_def

lemma catalogue_names: "map ts_name catalogue = [''search_flights'', ''read_pnr'', ''issue_ticket'', ''handoff'', ''clarify'', ''list_ledger_accounts'',
    ''post_journal_entry'', ''create_invoice'', ''draft_invoice'', ''fetch_bsp_statement'', ''reconcile_bsp'', ''read_account_balance'',
    ''search_hotels'', ''check_hotel_rate'', ''book_hotel'', ''cancel_hotel_booking'', ''read_hotel_booking'']"
  by (simp add: catalogue_def spec_defs)

lemma catalogue_distinct: "distinct (map ts_name catalogue)"
  unfolding catalogue_names by code_simp

text \<open>Every tool with a side effect needs an approval and names who may give it; the others need none.\<close>

lemma catalogue_gated:
  "spec \<in> set catalogue \<Longrightarrow> ts_side_effect spec = ts_approval_required spec"
  "spec \<in> set catalogue \<Longrightarrow> ts_side_effect spec \<Longrightarrow> ts_approval_roles spec \<noteq> []"
  by (auto simp: catalogue_def spec_defs)

end
