(* ===== verification/Tool_Handlers.thy ===== *)
theory Tool_Handlers
  imports Tool_Specs Travel Tally Bsp_Driver Enquiries Reports Py_State
begin

text \<open>
  The tool handlers of \<^verbatim>\<open>services/agent_runtime/.../tools.py\<close>. A handler resolves a driver for the tenant of its context, builds
  canonical objects from the JSON input, calls the driver and summarises the answer; \<^verbatim>\<open>draft_invoice\<close> writes a row of the
  invoices table. The world of a handler holds the state behind the drivers (\<open>'r\<close>), the two stores that the handlers keep on
  \<^verbatim>\<open>ctx.extensions\<close>, the tables, a clock and a supply of random UUIDs. Drivers are actions on \<open>'r\<close> that may raise
  a \<^verbatim>\<open>failure\<close>.

  Handlers only see inputs that passed their schema (\<^verbatim>\<open>Tool_Runtime\<close>); where a value of a type that the schema excludes
  would be needed, the model raises \<^verbatim>\<open>TypeError\<close>.
\<close>

section \<open>Drivers, world and errors\<close>

datatype raised = Raised_failure failure | Raised (ra_class: string) (ra_text: string)

type_synonym ('r, 'a) call = "(failure, 'r, 'a) act"

record 'r pnr_driver =
  pd_read :: "string \<Rightarrow> ('r, pnr) call"
  pd_issue_ticket :: "string \<Rightarrow> ('r, ticket list) call"

record 'r accounting_driver =
  ac_list_accounts :: "('r, ledger_account list) call"
  ac_post_journal :: "journal_entry \<Rightarrow> ('r, string) call"
  ac_create_invoice :: "invoice \<Rightarrow> ('r, string) call"
  ac_read_account_balance :: "string \<Rightarrow> py_date \<Rightarrow> ('r, money) call"

text \<open>\<^verbatim>\<open>search_results\<close> and \<^verbatim>\<open>check_rate\<close> are methods a driver may lack. \<^verbatim>\<open>book\<close> is always called without a stay.\<close>

record 'r hotel_search_driver =
  vs_search_results :: "(hotel_search_criteria \<Rightarrow> ('r, hotel_search_result list) call) option"
  vs_search :: "hotel_search_criteria \<Rightarrow> ('r, hotel_offer list) call"
  vs_check_rate :: "(string \<Rightarrow> ('r, hotel_rate) call) option"

record 'r hotel_booking_driver =
  vb_book :: "string \<Rightarrow> ('r, hotel_booking) call"
  vb_cancel :: "string \<Rightarrow> ('r, hotel_booking) call"
  vb_read :: "string \<Rightarrow> ('r, hotel_booking) call"

record 'r driver_registry =
  dr_fare_search :: "(fare_search_criteria \<Rightarrow> ('r, fare list) call) option"
  dr_pnr :: "'r pnr_driver option"
  dr_accounting :: "'r accounting_driver option"
  dr_bsp :: "(string \<Rightarrow> period \<Rightarrow> ('r, bsp_report) call) option"
  dr_hotel_search :: "'r hotel_search_driver option"
  dr_hotel_booking :: "'r hotel_booking_driver option"

text \<open>The registries on \<^verbatim>\<open>ctx.extensions\<close> and the texts that libraries give their errors.\<close>

record 'r host =
  th_tenant_registry :: "(string \<Rightarrow> (raised, 'r, 'r driver_registry) act) option"
  th_driver_registry :: "'r driver_registry option"
  th_validation_text :: "canon_error \<Rightarrow> string"
  th_raw_text :: "string \<Rightarrow> string"
  th_database_text :: string
  th_read_invoice :: "obj \<Rightarrow> string + invoice"

text \<open>A \<^verbatim>\<open>Decimal\<close> with its special values; payloads of not-a-numbers are not represented.\<close>

datatype ext_decimal = Num decimal | Not_a_number | Infinite bool

record invoice_row =
  vr_id :: uuid_int
  vr_tenant_id :: uuid_int
  vr_number :: string
  vr_party_name :: string
  vr_party_reference :: "string option"
  vr_issue_date :: py_date
  vr_due_date :: py_date
  vr_total_amount :: ext_decimal
  vr_currency :: string
  vr_amount_paid :: decimal
  vr_status :: invoice_doc_status

record 'r tool_world =
  tw_remote :: 'r
  tw_reports :: "(string, bsp_report) dict"
  tw_tickets :: "(string, ticket) dict"
  tw_tenants :: "uuid_int list"
  tw_invoices :: "invoice_row list"
  tw_now :: int
  tw_uuids :: "nat \<Rightarrow> uuid_int"
  tw_drawn :: nat

type_synonym ('r, 'a) task = "(raised, 'r tool_world, 'a) act"

definition remotely :: "('e, 'r, 'a) act \<Rightarrow> ('e, 'r tool_world, 'a) act" where
  "remotely m w = (let (r, s) = m (tw_remote w) in (r, w\<lparr>tw_remote := s\<rparr>))"

definition draw_uuid :: "('r, uuid_int) task" where
  "draw_uuid w = (Inr (tw_uuids w (tw_drawn w)), w\<lparr>tw_drawn := Suc (tw_drawn w)\<rparr>)"

definition call_driver :: "('r, 'a) call \<Rightarrow> ('r, 'a) task" where
  "call_driver m = remotely (act_map_err Raised_failure m)"

definition model :: "canon_error + 'a \<Rightarrow> raised + 'a" where
  "model r = (case r of Inl e \<Rightarrow> Inl (Raised_failure (Model_failure e)) | Inr x \<Rightarrow> Inr x)"

fun driver_class :: "driver_error_kind \<Rightarrow> string" where
  "driver_class Capability_not_supported = ''CapabilityNotSupportedError''"
| "driver_class Authentication_error = ''AuthenticationError''"
| "driver_class Authorization_error = ''AuthorizationError''"
| "driver_class Rate_limit_error = ''RateLimitError''"
| "driver_class Transient_error = ''TransientError''"
| "driver_class Permanent_error = ''PermanentError''"
| "driver_class Validation_failed = ''ValidationFailedError''"
| "driver_class Not_found = ''NotFoundError''"
| "driver_class Conflict_error = ''ConflictError''"
| "driver_class Upstream_timeout = ''UpstreamTimeoutError''"

fun canon_class :: "canon_error \<Rightarrow> string" where
  "canon_class Invalid_operation = ''InvalidOperation''"
| "canon_class Overflow_error = ''OverflowError''"
| "canon_class (Validation f) = ''ValidationError''"

fun handler_error :: "'r host \<Rightarrow> raised \<Rightarrow> handler_result" where
  "handler_error h (Raised_failure (Driver_failure e)) = HDriverError (driver_class (de_kind e)) (de_message e)"
| "handler_error h (Raised_failure (Model_failure e)) = HException (canon_class e) (th_validation_text h e)"
| "handler_error h (Raised_failure (Raw_failure c)) = HException c (th_raw_text h c)"
| "handler_error h (Raised c t) = HException c t"

text \<open>A task as a handler of the runtime.\<close>

definition as_handler :: "'r host \<Rightarrow> (obj \<Rightarrow> tool_context \<Rightarrow> ('r, obj) task) \<Rightarrow> 'r tool_world handler" where
  "as_handler h f inp ctx w = (case f inp ctx w of (Inl e, w') \<Rightarrow> (handler_error h e, w') | (Inr out, w') \<Rightarrow> (HReturn out, w'))"

section \<open>Reading JSON\<close>

definition item :: "obj \<Rightarrow> string \<Rightarrow> raised + json" where
  "item d k = (case map_of d k of None \<Rightarrow> Inl (Raised ''KeyError'' (repr_str k)) | Some v \<Rightarrow> Inr v)"

definition type_error :: "raised + 'a" where
  "type_error = Inl (Raised ''TypeError'' '''')"

fun as_text :: "json \<Rightarrow> raised + string" where
  "as_text (JStr s) = Inr s" | "as_text v = type_error"

fun as_obj :: "json \<Rightarrow> raised + obj" where
  "as_obj (JObj d) = Inr d" | "as_obj v = type_error"

fun as_list :: "json \<Rightarrow> raised + json list" where
  "as_list (JList xs) = Inr xs" | "as_list v = type_error"

definition text_item :: "obj \<Rightarrow> string \<Rightarrow> raised + string" where
  "text_item d k = bind_res (item d k) as_text"

text \<open>\<^verbatim>\<open>d.get(k)\<close>, with \<^verbatim>\<open>None\<close> for a missing key and for null.\<close>

definition get_item :: "obj \<Rightarrow> string \<Rightarrow> json option" where
  "get_item d k = (case map_of d k of None \<Rightarrow> None | Some JNull \<Rightarrow> None | Some v \<Rightarrow> Some v)"

definition get_text :: "obj \<Rightarrow> string \<Rightarrow> raised + string option" where
  "get_text d k = (case get_item d k of None \<Rightarrow> Inr None | Some v \<Rightarrow> bind_res (as_text v) (\<lambda>s. Inr (Some s)))"

fun truthy :: "json \<Rightarrow> bool" where
  "truthy JNull = False"
| "truthy (JBool b) = b"
| "truthy (JInt i) = (i \<noteq> 0)"
| "truthy (JFloat t) = (case decimal_literal_of t of Finite d \<Rightarrow> dcoef d \<noteq> 0 | _ \<Rightarrow> True)"
| "truthy (JStr s) = (s \<noteq> [])"
| "truthy (JList xs) = (xs \<noteq> [])"
| "truthy (JObj d) = (d \<noteq> [])"

text \<open>\<^verbatim>\<open>d.get(k)\<close> kept only when it is truthy.\<close>

definition get_true :: "obj \<Rightarrow> string \<Rightarrow> json option" where
  "get_true d k = (case map_of d k of Some v \<Rightarrow> if truthy v then Some v else None | None \<Rightarrow> None)"

definition get_true_text :: "obj \<Rightarrow> string \<Rightarrow> raised + string option" where
  "get_true_text d k = (case get_true d k of None \<Rightarrow> Inr None | Some v \<Rightarrow> bind_res (as_text v) (\<lambda>s. Inr (Some s)))"

fun py_str :: "json \<Rightarrow> string" where
  "py_str (JStr s) = s" | "py_str v = repr_json v"

text \<open>\<^verbatim>\<open>int(v)\<close> of a JSON number.\<close>

definition truncated :: "decimal \<Rightarrow> int" where
  "truncated d = (if 0 \<le> dexp d then dcoef d * 10 ^ nat (dexp d) else sgn (dcoef d) * (\<bar>dcoef d\<bar> div 10 ^ nat (- dexp d)))"

fun as_int :: "json \<Rightarrow> raised + int" where
  "as_int (JInt i) = Inr i"
| "as_int (JFloat t) = (case decimal_literal_of t of Finite d \<Rightarrow> Inr (truncated d) | _ \<Rightarrow> type_error)"
| "as_int v = type_error"

definition date_of_text :: "string \<Rightarrow> raised + py_date" where
  "date_of_text s = (case date_fromisoformat s of Inl msg \<Rightarrow> Inl (Raised ''ValueError'' msg) | Inr d \<Rightarrow> Inr d)"

definition opt_json :: "string option \<Rightarrow> json" where
  "opt_json x = (case x of None \<Rightarrow> JNull | Some s \<Rightarrow> JStr s)"

section \<open>Registries\<close>

definition resolve_registry :: "'r host \<Rightarrow> tool_context \<Rightarrow> ('r, 'r driver_registry) task" where
  "resolve_registry h ctx =
     (case th_tenant_registry h of
        Some get \<Rightarrow> remotely (get (ctx_tenant_id ctx))
      | None \<Rightarrow> (case th_driver_registry h of
          Some reg \<Rightarrow> act_return reg
        | None \<Rightarrow> act_raise (Raised ''RuntimeError'' (''No tenant registry or driver registry on ToolContext.extensions (looked for ''
            @ repr_str ''tenant_registry'' @ '' / '' @ repr_str ''driver_registry'' @ ''). Wire one before invoking tools.''))))"

text \<open>\<^verbatim>\<open>registry.get(protocol)\<close>\<close>

definition registered :: "string \<Rightarrow> 'd option \<Rightarrow> ('r, 'd) task" where
  "registered protocol d = act_some d (Raised ''KeyError'' (repr_str (''No driver registered for protocol '' @ repr_str protocol @ ''.'')))"

definition resolve_hotel_driver :: "'r host \<Rightarrow> tool_context \<Rightarrow> ('r driver_registry \<Rightarrow> 'd option) \<Rightarrow> ('r, 'd) task" where
  "resolve_hotel_driver h ctx sel = act_bind (resolve_registry h ctx) (\<lambda>reg.
     act_some (sel reg) (Raised ''RuntimeError'' ''no hotel driver configured for this tenant''))"

text \<open>\<^verbatim>\<open>try: x = await m except CapabilityNotSupportedError as exc: return f(exc)\<close>\<close>

definition unless_unsupported :: "('r, 'a) call \<Rightarrow> (driver_error \<Rightarrow> 'b) \<Rightarrow> ('a \<Rightarrow> 'b) \<Rightarrow> ('r, 'b) task" where
  "unless_unsupported m f g = remotely (\<lambda>s. case m s of
       (Inr x, s') \<Rightarrow> (Inr (g x), s')
     | (Inl (Driver_failure e), s') \<Rightarrow> (if de_kind e = Capability_not_supported then Inr (f e) else Inl (Raised_failure (Driver_failure e)), s')
     | (Inl e, s') \<Rightarrow> (Inl (Raised_failure e), s'))"

definition not_supported :: "string \<Rightarrow> driver_error \<Rightarrow> obj" where
  "not_supported flag e = [(flag, JBool False), (''reason'', JStr ''capability_not_supported''), (''detail'', JStr (de_message e))]"

section \<open>Orchestrator tools\<close>

definition handoff_handler :: "obj \<Rightarrow> tool_context \<Rightarrow> ('r, obj) task" where
  "handoff_handler inp ctx = act_lift (bind_res (item inp ''domain'') (\<lambda>d. bind_res (item inp ''goal'') (\<lambda>g.
     Inr [(''domain'', d), (''goal'', g)])))"

definition clarify_handler :: "obj \<Rightarrow> tool_context \<Rightarrow> ('r, obj) task" where
  "clarify_handler inp ctx = act_lift (bind_res (item inp ''question'') (\<lambda>q. Inr [(''question'', q)]))"

section \<open>Flights\<close>

fun passenger_key :: "string \<Rightarrow> passenger_type option" where
  "passenger_key k = (if k = ''adult'' then Some P_adult else if k = ''child'' then Some P_child
     else if k = ''infant'' then Some P_infant else if k = ''senior'' then Some P_senior else None)"

definition passengers_from_input :: "obj \<Rightarrow> (passenger_type, int) dict" where
  "passengers_from_input raw =
     (let out = foldl (\<lambda>out (k, v). case (passenger_key k, as_int v) of
            (Some t, Inr n) \<Rightarrow> if 0 < n then AList.update t n out else out
          | _ \<Rightarrow> out) [] raw
      in if out = [] then [(P_adult, 1)] else out)"

fun cabin_of_value :: "string \<Rightarrow> cabin_class option" where
  "cabin_of_value s = (if s = ''economy'' then Some Economy else if s = ''premium_economy'' then Some Premium_economy
     else if s = ''business'' then Some Business else if s = ''first'' then Some First else None)"

definition cabin_of_text :: "string \<Rightarrow> raised + cabin_class" where
  "cabin_of_text s = (case cabin_of_value s of Some c \<Rightarrow> Inr c | None \<Rightarrow> Inl (Raised ''ValueError'' (repr_str s @ '' is not a valid CabinClass'')))"

definition fare_summary :: "fare \<Rightarrow> json" where
  "fare_summary f = JObj [(''fare_id'', JStr (fa_id f)), (''source'', JStr (fa_source f)), (''source_ref'', opt_json (fa_source_ref f)),
     (''price'', JStr (py_strip (m_currency (fa_total f) @ '' '' @ dec_str (m_amount (fa_total f))))),
     (''valid_until'', opt_json (map_option isoformat (fa_valid_until f)))]"

definition flight_criteria :: "obj \<Rightarrow> raised + fare_search_criteria" where
  "flight_criteria inp =
     bind_res (case get_true inp ''passengers'' of None \<Rightarrow> Inr [] | Some v \<Rightarrow> as_obj v) (\<lambda>pax.
     bind_res (text_item inp ''origin'') (\<lambda>orig.
     bind_res (text_item inp ''destination'') (\<lambda>dest.
     bind_res (bind_res (text_item inp ''outbound_date'') date_of_text) (\<lambda>outbound.
     bind_res (bind_res (get_true_text inp ''return_date'') (opt_res date_of_text)) (\<lambda>back.
     bind_res (bind_res (case map_of inp ''cabin'' of None \<Rightarrow> Inr ''economy'' | Some v \<Rightarrow> as_text v) cabin_of_text) (\<lambda>cabin.
       model (fare_search_criteria_of \<lparr>sc_passengers = passengers_from_input pax, sc_origin = orig, sc_destination = dest,
         sc_outbound_date = outbound, sc_return_date = back, sc_cabin = cabin, sc_direct_only = (get_true inp ''direct_only'' \<noteq> None),
         sc_airline_whitelist = [], sc_airline_blacklist = [], sc_max_price = None, sc_max_results = 50\<rparr>)))))))"

definition search_flights :: "'r host \<Rightarrow> obj \<Rightarrow> tool_context \<Rightarrow> ('r, obj) task" where
  "search_flights h inp ctx =
     act_bind (resolve_registry h ctx) (\<lambda>reg.
     act_bind (registered ''FareSearchDriver'' (dr_fare_search reg)) (\<lambda>driver.
     act_bind (act_lift (flight_criteria inp)) (\<lambda>criteria.
     act_bind (call_driver (driver criteria)) (\<lambda>fares.
       act_return [(''count'', JInt (int (length fares))), (''fares'', JList (map fare_summary (take 20 fares)))]))))"

definition read_pnr :: "'r host \<Rightarrow> obj \<Rightarrow> tool_context \<Rightarrow> ('r, obj) task" where
  "read_pnr h inp ctx =
     act_bind (resolve_registry h ctx) (\<lambda>reg.
     act_bind (registered ''PNRDriver'' (dr_pnr reg)) (\<lambda>driver.
     act_bind (act_lift (text_item inp ''locator'')) (\<lambda>locator.
     act_bind (call_driver (pd_read driver locator)) (\<lambda>p.
       act_return [(''pnr_id'', JStr (pn_id p)), (''locator'', JStr (pn_locator p)), (''source'', JStr (pn_source p)),
         (''status'', JStr (pnr_status_value (pn_status p))), (''passenger_count'', JInt (int (length (pn_passenger_ids p)))),
         (''segment_count'', JInt (int (length (pn_segment_ids p)))), (''fare_count'', JInt (int (length (pn_fare_ids p))))]))))"

fun ticket_status_value :: "ticket_status \<Rightarrow> string" where
  "ticket_status_value Tk_open = ''open''"
| "ticket_status_value Tk_flown = ''flown''"
| "ticket_status_value Tk_refunded = ''refunded''"
| "ticket_status_value Tk_exchanged = ''exchanged''"
| "ticket_status_value Tk_void = ''void''"

definition issue_ticket :: "'r host \<Rightarrow> obj \<Rightarrow> tool_context \<Rightarrow> ('r, obj) task" where
  "issue_ticket h inp ctx =
     act_bind (resolve_registry h ctx) (\<lambda>reg.
     act_bind (registered ''PNRDriver'' (dr_pnr reg)) (\<lambda>driver.
     act_bind (act_lift (text_item inp ''pnr_id'')) (\<lambda>pnr_id.
       unless_unsupported (pd_issue_ticket driver pnr_id) (not_supported ''issued'') (\<lambda>tickets.
         [(''issued'', JBool True), (''tickets'', JList (map (\<lambda>t. JObj [(''ticket_id'', JStr (tk_id t)), (''number'', JStr (tk_number t)),
            (''status'', JStr (ticket_status_value (tk_status t)))]) tickets))]))))"

section \<open>Accounting: amounts\<close>

text \<open>\<^verbatim>\<open>Decimal(text)\<close> with the special values told apart. A signalling not-a-number raises in any arithmetic.\<close>

datatype decimal_text = Dt_malformed | Dt_signalling | Dt_value ext_decimal

definition decimal_of_text :: "string \<Rightarrow> decimal_text" where
  "decimal_of_text s = (case decimal_literal_of s of
     Malformed \<Rightarrow> Dt_malformed
   | Finite d \<Rightarrow> Dt_value (Num d)
   | Special \<Rightarrow> (let (neg, body) = split_sign (filter (\<lambda>c. c \<noteq> CHR ''_'') (py_strip s)); u = py_upper body
       in if take 3 u = ''INF'' then Dt_value (Infinite neg) else if take 1 u = ''S'' then Dt_signalling else Dt_value Not_a_number))"

definition conversion_syntax :: raised where
  "conversion_syntax = Raised ''InvalidOperation'' (''[<class '' @ repr_str ''decimal.ConversionSyntax'' @ ''>]'')"

definition invalid_operation :: raised where
  "invalid_operation = Raised ''InvalidOperation'' (''[<class '' @ repr_str ''decimal.InvalidOperation'' @ ''>]'')"

fun ext_add :: "ext_decimal \<Rightarrow> ext_decimal \<Rightarrow> raised + ext_decimal" where
  "ext_add (Num x) (Num y) = Inr (Num (dec_add x y))"
| "ext_add Not_a_number y = Inr Not_a_number"
| "ext_add x Not_a_number = Inr Not_a_number"
| "ext_add (Infinite a) (Infinite b) = (if a = b then Inr (Infinite a) else Inl invalid_operation)"
| "ext_add (Infinite a) (Num y) = Inr (Infinite a)"
| "ext_add (Num x) (Infinite b) = Inr (Infinite b)"

fun ext_times :: "int \<Rightarrow> ext_decimal \<Rightarrow> raised + ext_decimal" where
  "ext_times n (Num x) = Inr (Num (dec_mul (dec_of_int n) x))"
| "ext_times n Not_a_number = Inr Not_a_number"
| "ext_times n (Infinite neg) = (if n = 0 then Inl invalid_operation else Inr (Infinite (neg \<noteq> (n < 0))))"

fun ext_cents :: "ext_decimal \<Rightarrow> raised + ext_decimal" where
  "ext_cents (Num x) = (case dec_quantize x (- 2) of None \<Rightarrow> Inl invalid_operation | Some y \<Rightarrow> Inr (Num y))"
| "ext_cents Not_a_number = Inr Not_a_number"
| "ext_cents (Infinite neg) = Inl invalid_operation"

fun ext_str :: "ext_decimal \<Rightarrow> string" where
  "ext_str (Num x) = dec_str x"
| "ext_str Not_a_number = ''NaN''"
| "ext_str (Infinite neg) = (if neg then ''-Infinity'' else ''Infinity'')"

text \<open>\<^verbatim>\<open>f"{amount:,.2f}"\<close>: groups of three digits, from the right.\<close>

fun group_rev :: "string \<Rightarrow> string" where
  "group_rev (a # b # c # d # ds) = a # b # c # CHR '','' # group_rev (d # ds)"
| "group_rev ds = ds"

definition format_commas :: "ext_decimal \<Rightarrow> string" where
  "format_commas x = (case x of
     Num d \<Rightarrow> (let n = hundredths d in (if dcoef d < 0 then ''-'' else []) @ rev (group_rev (rev (show_nat (n div 100)))) @ ''.''
       @ [digit_char (n mod 100 div 10), digit_char (n mod 10)])
   | _ \<Rightarrow> ext_str x)"

definition fmt_money :: "money \<Rightarrow> string" where
  "fmt_money m = m_currency m @ '' '' @ format_commas (Num (m_amount m))"

section \<open>Accounting: the books\<close>

fun account_type_value :: "account_type \<Rightarrow> string" where
  "account_type_value ASSET = ''asset''"
| "account_type_value LIABILITY = ''liability''"
| "account_type_value EQUITY = ''equity''"
| "account_type_value INCOME = ''income''"
| "account_type_value EXPENSE = ''expense''"

definition accounting_driver :: "'r host \<Rightarrow> tool_context \<Rightarrow> ('r, 'r accounting_driver) task" where
  "accounting_driver h ctx = act_bind (resolve_registry h ctx) (\<lambda>reg. registered ''AccountingDriver'' (dr_accounting reg))"

definition list_ledger_accounts :: "'r host \<Rightarrow> obj \<Rightarrow> tool_context \<Rightarrow> ('r, obj) task" where
  "list_ledger_accounts h inp ctx =
     act_bind (accounting_driver h ctx) (\<lambda>driver.
     act_bind (call_driver (ac_list_accounts driver)) (\<lambda>accounts.
       act_return [(''count'', JInt (int (length accounts))),
         (''accounts'', JList (map (\<lambda>a. JObj [(''id'', JStr (la_id a)), (''code'', JStr (la_code a)), (''name'', JStr (lt_default (la_name a))),
            (''type'', JStr (account_type_value (la_type a)))]) (take 200 accounts)))]))"

text \<open>The money of one side of a line.\<close>

definition input_money :: "string \<Rightarrow> json \<Rightarrow> raised + money" where
  "input_money ccy v = (case decimal_of_text (py_str v) of
     Dt_malformed \<Rightarrow> Inl conversion_syntax
   | Dt_value (Num d) \<Rightarrow> model (money_of (A_decimal d) ccy)
   | _ \<Rightarrow> Inl (Raised_failure (Model_failure (Validation ''amount''))))"

text \<open>One line of the input; \<open>None\<close> is the early return on a line that does not set exactly one side.\<close>

definition input_line :: "obj \<Rightarrow> raised + journal_line option" where
  "input_line l =
     bind_res (item l ''currency'') (\<lambda>cv.
     let ccy = py_upper (py_str cv); debit = get_item l ''debit_amount''; credit = get_item l ''credit_amount''
     in if (debit = None) = (credit = None) then Inr None
        else bind_res (text_item l ''account_id'') (\<lambda>account.
          bind_res (opt_res (input_money ccy) debit) (\<lambda>dm.
          bind_res (opt_res (input_money ccy) credit) (\<lambda>cm.
          bind_res (get_text l ''narration'') (\<lambda>nar.
          bind_res (model (journal_line_of \<lparr>jl_account_id = account, jl_debit = dm, jl_credit = cm, jl_narration = nar, jl_reference = None\<rparr>))
            (\<lambda>jl. Inr (Some jl)))))))"

fun input_lines :: "json list \<Rightarrow> raised + journal_line list option" where
  "input_lines [] = Inr (Some [])"
| "input_lines (v # vs) = bind_res (as_obj v) (\<lambda>l. bind_res (input_line l) (\<lambda>r. case r of
     None \<Rightarrow> Inr None
   | Some jl \<Rightarrow> bind_res (input_lines vs) (\<lambda>rest. Inr (map_option (\<lambda>jls. jl # jls) rest))))"

definition refused :: "string \<Rightarrow> string \<Rightarrow> string \<Rightarrow> obj" where
  "refused flag reason detail = [(flag, JBool False), (''reason'', JStr reason), (''detail'', JStr detail)]"

definition get_list :: "obj \<Rightarrow> string \<Rightarrow> raised + json list" where
  "get_list d k = (case get_true d k of None \<Rightarrow> Inr [] | Some v \<Rightarrow> as_list v)"

definition post_journal_entry :: "'r host \<Rightarrow> obj \<Rightarrow> tool_context \<Rightarrow> ('r, obj) task" where
  "post_journal_entry h inp ctx =
     act_bind (accounting_driver h ctx) (\<lambda>driver.
     act_bind (act_lift (bind_res (item inp ''entry'') as_obj)) (\<lambda>entry_input.
     act_bind (act_lift (bind_res (get_list entry_input ''lines'') input_lines)) (\<lambda>read.
       case read of
         None \<Rightarrow> act_return (refused ''posted'' ''invalid_line'' ''Each line must set exactly one of debit_amount / credit_amount.'')
       | Some jls \<Rightarrow>
           act_bind (act_read tw_now) (\<lambda>now.
           act_bind (act_lift (bind_res (get_true_text entry_input ''entry_date'') (\<lambda>t. case t of None \<Rightarrow> Inr (utc_date now) | Some s \<Rightarrow> date_of_text s))) (\<lambda>entry_date.
           act_bind draw_uuid (\<lambda>raw.
             case map_of entry_input ''narration'' of
               None \<Rightarrow> act_return (refused ''posted'' ''validation_failed'' (repr_str ''narration''))
             | Some nar \<Rightarrow>
                 (case journal_entry_of \<lparr>je_id = uuid7_like raw, je_tenant_id = ctx_tenant_id ctx, je_entry_date = entry_date,
                    je_narration = localized (py_str nar), je_lines = jls,
                    je_source_event = (case get_true entry_input ''source_event'' of None \<Rightarrow> ''manual.journal'' | Some v \<Rightarrow> py_str v),
                    je_source_ref = None\<rparr> of
                    Inl e \<Rightarrow> act_return (refused ''posted'' ''validation_failed'' (th_validation_text h e))
                  | Inr entry \<Rightarrow> act_bind (call_driver (ac_post_journal driver entry)) (\<lambda>ident.
                      act_return [(''posted'', JBool True), (''journal_id'', JStr ident)]))))))))"

definition set_default :: "string \<Rightarrow> json \<Rightarrow> obj \<Rightarrow> obj" where
  "set_default k v d = (if map_of d k = None then d @ [(k, v)] else d)"

text \<open>The datetimes that \<^verbatim>\<open>setdefault\<close> adds are carried as their text.\<close>

definition create_invoice_tool :: "'r host \<Rightarrow> obj \<Rightarrow> tool_context \<Rightarrow> ('r, obj) task" where
  "create_invoice_tool h inp ctx =
     act_bind (accounting_driver h ctx) (\<lambda>driver.
     act_bind (act_lift (bind_res (item inp ''invoice'') as_obj)) (\<lambda>given.
     act_bind (act_read tw_now) (\<lambda>now.
     act_bind draw_uuid (\<lambda>raw.
     let full = set_default ''updated_at'' (JStr (isoformat now)) (set_default ''created_at'' (JStr (isoformat now))
           (set_default ''tenant_id'' (JStr (ctx_tenant_id ctx)) (set_default ''id'' (JStr (uuid7_like raw)) given)))
     in case th_read_invoice h full of
          Inl msg \<Rightarrow> act_return (refused ''created'' ''validation_failed'' msg)
        | Inr given_inv \<Rightarrow>
            (case invoice_of given_inv of
               Inl e \<Rightarrow> act_return (refused ''created'' ''validation_failed'' (th_validation_text h e))
             | Inr bill \<Rightarrow> act_bind (call_driver (ac_create_invoice driver bill)) (\<lambda>ident.
                 act_return [(''created'', JBool True), (''invoice_id'', JStr ident), (''invoice_number'', JStr (in_number bill))]))))))"

definition read_account_balance_tool :: "'r host \<Rightarrow> obj \<Rightarrow> tool_context \<Rightarrow> ('r, obj) task" where
  "read_account_balance_tool h inp ctx =
     act_bind (accounting_driver h ctx) (\<lambda>driver.
     act_bind (act_lift (bind_res (text_item inp ''as_of'') date_of_text)) (\<lambda>as_of.
     act_bind (act_lift (text_item inp ''account_id'')) (\<lambda>account.
       unless_unsupported (ac_read_account_balance driver account as_of) (not_supported ''read'') (\<lambda>m.
         [(''read'', JBool True), (''balance'', JStr (fmt_money m)), (''currency'', JStr (m_currency m))]))))"

section \<open>Accounting: drafting an invoice\<close>

text \<open>The pieces of a line item: its currency in capitals, and its price times its quantity, added in hundredths.\<close>

definition item_currency :: "json \<Rightarrow> raised + string" where
  "item_currency v = bind_res (as_obj v) (\<lambda>li. bind_res (item li ''currency'') (\<lambda>c. Inr (py_upper (py_str c))))"

definition add_item :: "ext_decimal \<Rightarrow> json \<Rightarrow> raised + ext_decimal" where
  "add_item amt v =
     bind_res (as_obj v) (\<lambda>li.
     bind_res (bind_res (item li ''quantity'') as_int) (\<lambda>qty.
     bind_res (item li ''unit_price'') (\<lambda>pv.
     case decimal_of_text (py_str pv) of
       Dt_malformed \<Rightarrow> Inl conversion_syntax
     | Dt_signalling \<Rightarrow> Inl invalid_operation
     | Dt_value price \<Rightarrow> bind_res (bind_res (ext_times qty price) (ext_add amt)) ext_cents)))"

fun add_items :: "ext_decimal \<Rightarrow> json list \<Rightarrow> raised + ext_decimal" where
  "add_items amt [] = Inr amt"
| "add_items amt (v # vs) = bind_res (add_item amt v) (\<lambda>a. add_items a vs)"

definition draft_failed :: "string \<Rightarrow> string \<Rightarrow> obj" where
  "draft_failed code detail = [(''drafted'', JBool False), (''error_code'', JStr code), (''detail'', JStr detail)]"

text \<open>Numbers drawn automatically: \<^verbatim>\<open>INV-<first eight of the tenant id>-<sequence>\<close>.\<close>

definition number_prefix :: "string \<Rightarrow> string" where
  "number_prefix tenant = ''INV-'' @ py_upper (take 8 (filter (\<lambda>c. c \<noteq> CHR ''-'') tenant)) @ ''-''"

text \<open>\<^verbatim>\<open>^prefix(\d+)$\<close>, where the dollar sign also matches before a final newline.\<close>

definition sequence_of :: "string \<Rightarrow> string \<Rightarrow> nat option" where
  "sequence_of pre number =
     (if take (length pre) number \<noteq> pre then None
      else let r = drop (length pre) number; ds = (if r \<noteq> [] \<and> last r = CHR 0x0A then butlast r else r)
           in if ds \<noteq> [] \<and> list_all is_decimal_char ds then Some (digits_val ds) else None)"

definition max_sequence :: "string \<Rightarrow> string list \<Rightarrow> nat" where
  "max_sequence pre numbers = foldl (\<lambda>m n. case sequence_of pre n of None \<Rightarrow> m | Some q \<Rightarrow> if q > m then q else m) 0 numbers"

definition next_number :: "string \<Rightarrow> uuid_int \<Rightarrow> invoice_row list \<Rightarrow> string" where
  "next_number tenant t rows =
     (let pre = number_prefix tenant;
          existing = map vr_number (filter (\<lambda>r. vr_tenant_id r = t \<and> like (pre @ ''%'') (vr_number r)) rows)
      in pre @ padded 4 (int (max_sequence pre existing) + 1))"

text \<open>What the columns can hold, and the constraints of the table.\<close>

definition text_fits :: "nat \<Rightarrow> string \<Rightarrow> bool" where
  "text_fits n s \<longleftrightarrow> length s \<le> n \<and> CHR 0x00 \<notin> set s"

definition row_fits :: "invoice_row \<Rightarrow> bool" where
  "row_fits r \<longleftrightarrow> text_fits 64 (vr_number r) \<and> text_fits 255 (vr_party_name r)
     \<and> (case vr_party_reference r of None \<Rightarrow> True | Some s \<Rightarrow> text_fits 128 s) \<and> text_fits 3 (vr_currency r)
     \<and> (case vr_total_amount r of Num d \<Rightarrow> \<bar>dval d\<bar> < 10 ^ 12 | Not_a_number \<Rightarrow> True | Infinite _ \<Rightarrow> False)"

definition row_allowed :: "uuid_int list \<Rightarrow> invoice_row list \<Rightarrow> invoice_row \<Rightarrow> bool" where
  "row_allowed tenants rows r \<longleftrightarrow> vr_tenant_id r \<in> set tenants
     \<and> list_all (\<lambda>r'. \<not> (vr_tenant_id r' = vr_tenant_id r \<and> vr_number r' = vr_number r)) rows"

definition drafted :: "invoice_row \<Rightarrow> obj" where
  "drafted r = [(''drafted'', JBool True), (''invoice_id'', JStr (uuid_str (vr_id r))), (''number'', JStr (vr_number r)),
     (''total_amount'', JStr (ext_str (vr_total_amount r))), (''currency'', JStr (vr_currency r)), (''status'', JStr ''draft'')]"

text \<open>The insertion: a value that does not fit raises; a violated constraint is reported as a number that was taken.\<close>

definition insert_invoice :: "'r host \<Rightarrow> invoice_row \<Rightarrow> ('r, obj) task" where
  "insert_invoice h r w =
     (if \<not> row_fits r then (Inl (Raised ''DBAPIError'' (th_database_text h)), w)
      else if \<not> row_allowed (tw_tenants w) (tw_invoices w) r
      then (Inr (draft_failed ''invoice_number_conflict'' (''Concurrent write '' @ [CHR 0x2D] @ '' invoice number '' @ repr_str (vr_number r)
              @ '' was taken before this insert committed.'')), w)
      else (Inr (drafted r), w\<lparr>tw_invoices := tw_invoices w @ [r]\<rparr>))"

definition distinct_currencies :: "json list \<Rightarrow> raised + string list" where
  "distinct_currencies vs = bind_res (map_res item_currency vs) (\<lambda>cs. Inr (remdups cs))"

text \<open>
  The read of the numbers and the insertion are two statements: \<open>others\<close> are the rows that other transactions commit in between. The call that
  nothing interleaves with has none.
\<close>

definition committed :: "invoice_row list \<Rightarrow> 'r tool_world \<Rightarrow> 'r tool_world" where
  "committed others w = w\<lparr>tw_invoices := tw_invoices w @ others\<rparr>"

definition draft_row :: "invoice_row list \<Rightarrow> 'r host \<Rightarrow> obj \<Rightarrow> uuid_int \<Rightarrow> string \<Rightarrow> py_date \<Rightarrow> py_date \<Rightarrow> ext_decimal \<Rightarrow> string \<Rightarrow> ('r, obj) task" where
  "draft_row others h inp t number issue_d due_d amount currency =
     act_bind (act_lift (item inp ''customer_name'')) (\<lambda>customer.
     act_bind (act_lift (get_text inp ''party_reference'')) (\<lambda>party.
     act_bind draw_uuid (\<lambda>ident.
     act_bind (act_update (committed others)) (\<lambda>_.
       insert_invoice h \<lparr>vr_id = ident, vr_tenant_id = t, vr_number = number, vr_party_name = py_str customer, vr_party_reference = party,
         vr_issue_date = issue_d, vr_due_date = due_d, vr_total_amount = amount, vr_currency = currency, vr_amount_paid = Dec 0 (- 2),
         vr_status = DocDraft\<rparr>))))"

definition draft_invoice_racing :: "invoice_row list \<Rightarrow> 'r host \<Rightarrow> obj \<Rightarrow> tool_context \<Rightarrow> ('r, obj) task" where
  "draft_invoice_racing others h inp ctx =
     act_bind (act_lift (get_list inp ''line_items'')) (\<lambda>line_items.
     act_bind (act_lift (distinct_currencies line_items)) (\<lambda>currencies.
     if length currencies > 1
     then act_return (draft_failed ''mixed_currency'' (''All line items must share one currency; got '' @ repr_str_list (sort currencies) @ ''.''))
     else if currencies = [] then act_raise (Raised ''KeyError'' (repr_str ''pop from an empty set''))
     else
     act_bind (act_lift (add_items (Num (Dec 0 (- 2))) line_items)) (\<lambda>amount.
     act_bind (act_lift (text_item inp ''issue_date'')) (\<lambda>issue_text.
     act_bind (act_lift (text_item inp ''due_date'')) (\<lambda>due_text.
     case date_fromisoformat issue_text of Inl msg \<Rightarrow> act_return (draft_failed ''invalid_date'' msg) | Inr issue_d \<Rightarrow>
     case date_fromisoformat due_text of Inl msg \<Rightarrow> act_return (draft_failed ''invalid_date'' msg) | Inr due_d \<Rightarrow>
     act_bind (act_some (uuid_parse (ctx_tenant_id ctx)) (Raised ''ValueError'' ''badly formed hexadecimal UUID string'')) (\<lambda>t.
     act_bind (act_lift (get_true_text inp ''number'')) (\<lambda>explicit_number.
     act_bind (act_read tw_invoices) (\<lambda>rows.
     case explicit_number of
       Some n \<Rightarrow>
         if list_ex (\<lambda>r. vr_tenant_id r = t \<and> vr_number r = n) rows
         then act_return (draft_failed ''invoice_number_conflict'' (''Invoice number '' @ repr_str n @ '' already exists for this tenant.''))
         else draft_row others h inp t n issue_d due_d amount (hd currencies)
     | None \<Rightarrow> draft_row others h inp t (next_number (ctx_tenant_id ctx) t rows) issue_d due_d amount (hd currencies)))))))))"

definition draft_invoice :: "'r host \<Rightarrow> obj \<Rightarrow> tool_context \<Rightarrow> ('r, obj) task" where
  "draft_invoice h inp ctx = draft_invoice_racing [] h inp ctx"

section \<open>Accounting: BSP statements\<close>

definition whole_days :: "py_date \<Rightarrow> py_date \<Rightarrow> raised + period" where
  "whole_days a b =
     (let start = utc_midnight a; stop = utc_midnight b + DAY_US
      in if stop > DATETIME_MAX then Inl (Raised ''OverflowError'' ''date value out of range'')
         else model (period_of (Aware start 0) (Some (Aware stop 0))))"

definition fetch_bsp_statement :: "'r host \<Rightarrow> obj \<Rightarrow> tool_context \<Rightarrow> ('r, obj) task" where
  "fetch_bsp_statement h inp ctx =
     act_bind (resolve_registry h ctx) (\<lambda>reg.
     act_bind (registered ''BSPDriver'' (dr_bsp reg)) (\<lambda>driver.
     act_bind (act_lift (bind_res (text_item inp ''period_start'') date_of_text)) (\<lambda>start_d.
     act_bind (act_lift (bind_res (text_item inp ''period_end'') date_of_text)) (\<lambda>end_d.
     act_bind (act_lift (whole_days start_d end_d)) (\<lambda>per.
     act_bind (act_lift (text_item inp ''country'')) (\<lambda>country.
     act_bind (call_driver (driver country per)) (\<lambda>report.
     act_bind (act_update (\<lambda>w. w\<lparr>tw_reports := AList.update (br_id report) report (tw_reports w)\<rparr>)) (\<lambda>_.
       act_return [(''report_id'', JStr (br_id report)), (''country'', JStr (br_country report)),
         (''sales_total'', JStr (fmt_money (br_sales_total report))), (''refund_total'', JStr (fmt_money (br_refund_total report))),
         (''commission_total'', JStr (fmt_money (br_commission_total report))), (''net_remittance'', JStr (fmt_money (br_net_remittance report))),
         (''transaction_count'', JInt (int (length (br_transactions report)))), (''source_ref'', JStr (br_source_ref report))]))))))))"

fun outcome_value :: "reconciliation_outcome \<Rightarrow> string" where
  "outcome_value MATCHED = ''matched''"
| "outcome_value UNMATCHED_EXTERNAL = ''unmatched_external''"
| "outcome_value UNMATCHED_INTERNAL = ''unmatched_internal''"
| "outcome_value DISCREPANCY = ''discrepancy''"
| "outcome_value TENTATIVE = ''tentative''"

definition issue_of :: "reconciliation_item \<Rightarrow> json" where
  "issue_of it = JObj [(''outcome'', JStr (outcome_value (ri_outcome it))), (''external_ref'', opt_json (ri_external_ref it)),
     (''internal_refs'', JList (map JStr (ri_internal_refs it))), (''delta'', opt_json (map_option fmt_money (ri_delta it))),
     (''evidence'', opt_json (map_option lt_default (ri_evidence it)))]"

definition selected_tickets :: "obj \<Rightarrow> (string, ticket) dict \<Rightarrow> raised + ticket list" where
  "selected_tickets inp store = bind_res (get_list inp ''ticket_ids'') (\<lambda>ids.
     if ids = [] then Inr (dict_values store)
     else bind_res (map_res as_text ids) (\<lambda>ks. Inr (List.map_filter (map_of store) ks)))"

definition reconcile_bsp :: "obj \<Rightarrow> tool_context \<Rightarrow> ('r, obj) task" where
  "reconcile_bsp inp ctx =
     act_bind (act_lift (text_item inp ''report_id'')) (\<lambda>report_id.
     act_bind (act_read (\<lambda>w. map_of (tw_reports w) report_id)) (\<lambda>cached.
     case cached of
       None \<Rightarrow> act_return (refused ''reconciled'' ''report_not_found'' (''No cached BSP report with id '' @ repr_str report_id
           @ ''. Call fetch_bsp_statement first.''))
     | Some report \<Rightarrow>
         act_bind (act_read tw_tickets) (\<lambda>store.
         act_bind (act_lift (selected_tickets inp store)) (\<lambda>tickets.
         act_bind draw_uuid (\<lambda>raw.
         act_bind (act_lift (model (reconcile_bsp_against_tickets raw report tickets))) (\<lambda>rc.
           let sm = rc_summary rc
           in act_return [(''reconciled'', JBool True),
             (''summary'', JObj [(''matched'', JInt (rs_matched_count sm)), (''matched_amount'', opt_json (map_option fmt_money (rs_matched_amount sm))),
                (''unmatched_external'', JInt (rs_unmatched_external_count sm)), (''unmatched_internal'', JInt (rs_unmatched_internal_count sm)),
                (''discrepancy'', JInt (rs_discrepancy_count sm)), (''tentative'', JInt (rs_tentative_count sm))]),
             (''issues'', JList (take 50 (map issue_of (filter (\<lambda>it. ri_outcome it \<noteq> MATCHED) (rc_items rc))))),
             (''reconciliation_id'', JStr (rc_id rc))]))))))"

section \<open>Hotels\<close>

definition plain_money :: "money \<Rightarrow> string" where
  "plain_money m = m_currency m @ '' '' @ dec_str (m_amount m)"

fun cheapest :: "money option \<Rightarrow> hotel_rate list \<Rightarrow> money option" where
  "cheapest best [] = best"
| "cheapest best (r # rs) = cheapest (case best of None \<Rightarrow> Some (ha_price r)
     | Some b \<Rightarrow> if dec_le (m_amount b) (m_amount (ha_price r)) then Some b else Some (ha_price r)) rs"

definition hotel_result_summary :: "hotel_search_result \<Rightarrow> json" where
  "hotel_result_summary r = (let p = hs_property r in
     JObj [(''property_id'', JStr (hp_id p)), (''name'', JStr (hp_name p)), (''city'', JStr (hp_city p)), (''country'', JStr (hp_country p)),
       (''star_rating'', case hp_star_rating p of None \<Rightarrow> JNull | Some n \<Rightarrow> JInt n), (''rate_count'', JInt (int (length (hs_rates r)))),
       (''from_price'', opt_json (map_option plain_money (cheapest None (hs_rates r)))),
       (''rate_keys'', JList (map (\<lambda>x. JStr (ha_rate_key x)) (take 5 (hs_rates r))))])"

text \<open>A budget that cannot be read is dropped.\<close>

definition budget_of :: "obj \<Rightarrow> money option" where
  "budget_of inp = (case (get_true inp ''budget_max'', get_true inp ''currency'') of
     (Some b, Some c) \<Rightarrow> (case input_money (py_upper (py_str c)) b of Inr m \<Rightarrow> Some m | Inl _ \<Rightarrow> None)
   | _ \<Rightarrow> None)"

definition hotel_criteria :: "obj \<Rightarrow> raised + hotel_search_criteria" where
  "hotel_criteria inp =
     bind_res (item inp ''country'') (\<lambda>country.
     bind_res (item inp ''city'') (\<lambda>city.
     bind_res (bind_res (text_item inp ''check_in'') date_of_text) (\<lambda>arrive.
     bind_res (bind_res (text_item inp ''check_out'') date_of_text) (\<lambda>leave.
     bind_res (bind_res (item inp ''guests'') as_int) (\<lambda>guests.
       model (hotel_search_criteria_of \<lparr>hc_destination_country = py_upper (py_str country), hc_destination_city = py_str city,
         hc_check_in = arrive, hc_check_out = leave, hc_guest_count = guests, hc_budget_min = None, hc_budget_max = budget_of inp\<rparr>))))))"

definition offer_summary :: "hotel_offer \<Rightarrow> json" where
  "offer_summary f = JObj [(''property_name'', JStr (hf_property_name f)), (''property_ref'', JStr (hf_property_ref f)),
     (''country'', JStr (hf_address_country f)), (''price'', JStr (py_strip (plain_money (hf_cost f)))), (''board'', JStr (hf_board_type f)),
     (''offer_ref'', JStr (hf_offer_ref f))]"

definition search_hotels :: "'r host \<Rightarrow> obj \<Rightarrow> tool_context \<Rightarrow> ('r, obj) task" where
  "search_hotels h inp ctx =
     act_bind (resolve_hotel_driver h ctx dr_hotel_search) (\<lambda>driver.
     act_bind (act_lift (hotel_criteria inp)) (\<lambda>criteria.
       case vs_search_results driver of
         Some results_fn \<Rightarrow> act_bind (call_driver (results_fn criteria)) (\<lambda>results.
           act_return [(''count'', JInt (int (length results))), (''results'', JList (map hotel_result_summary (take 20 results)))])
       | None \<Rightarrow> act_bind (call_driver (vs_search driver criteria)) (\<lambda>offers.
           act_return [(''count'', JInt (int (length offers))), (''offers'', JList (map offer_summary (take 20 offers)))])))"

fun board_basis_value :: "board_basis \<Rightarrow> string" where
  "board_basis_value RO = ''RO''"
| "board_basis_value BB = ''BB''"
| "board_basis_value HB = ''HB''"
| "board_basis_value FB = ''FB''"
| "board_basis_value AI = ''AI''"

definition check_hotel_rate :: "'r host \<Rightarrow> obj \<Rightarrow> tool_context \<Rightarrow> ('r, obj) task" where
  "check_hotel_rate h inp ctx =
     act_bind (resolve_hotel_driver h ctx dr_hotel_search) (\<lambda>driver.
       case vs_check_rate driver of
         None \<Rightarrow> act_return (refused ''checked'' ''capability_not_supported'' ''Hotel driver does not expose check_rate.'')
       | Some check_fn \<Rightarrow> act_bind (act_lift (text_item inp ''rate_key'')) (\<lambda>key.
           unless_unsupported (check_fn key) (not_supported ''checked'') (\<lambda>rate.
             [(''checked'', JBool True), (''rate_key'', JStr (ha_rate_key rate)), (''price'', JStr (plain_money (ha_price rate))),
              (''is_refundable'', JBool (ha_is_refundable rate)), (''board_basis'', JStr (board_basis_value (ho_board_basis (ha_room rate))))])))"

definition book_hotel :: "'r host \<Rightarrow> obj \<Rightarrow> tool_context \<Rightarrow> ('r, obj) task" where
  "book_hotel h inp ctx =
     act_bind (resolve_hotel_driver h ctx dr_hotel_booking) (\<lambda>driver.
     act_bind (act_lift (text_item inp ''rate_key'')) (\<lambda>key.
       unless_unsupported (vb_book driver key) (not_supported ''booked'') (\<lambda>b.
         [(''booked'', JBool True), (''booking_id'', JStr (hb_id b)), (''supplier'', JStr (hb_supplier b)),
          (''supplier_ref'', JStr (hb_supplier_ref b)), (''status'', JStr (hotel_booking_status_value (hb_status b)))])))"

definition cancel_hotel_booking :: "'r host \<Rightarrow> obj \<Rightarrow> tool_context \<Rightarrow> ('r, obj) task" where
  "cancel_hotel_booking h inp ctx =
     act_bind (resolve_hotel_driver h ctx dr_hotel_booking) (\<lambda>driver.
     act_bind (act_lift (text_item inp ''booking_id'')) (\<lambda>ident.
       unless_unsupported (vb_cancel driver ident) (not_supported ''cancelled'') (\<lambda>b.
         [(''cancelled'', JBool True), (''booking_id'', JStr (hb_id b)), (''status'', JStr (hotel_booking_status_value (hb_status b)))])))"

definition read_hotel_booking :: "'r host \<Rightarrow> obj \<Rightarrow> tool_context \<Rightarrow> ('r, obj) task" where
  "read_hotel_booking h inp ctx =
     act_bind (resolve_hotel_driver h ctx dr_hotel_booking) (\<lambda>driver.
     act_bind (act_lift (text_item inp ''booking_id'')) (\<lambda>ident.
       unless_unsupported (vb_read driver ident) (not_supported ''read'') (\<lambda>b.
         [(''read'', JBool True), (''booking_id'', JStr (hb_id b)), (''supplier'', JStr (hb_supplier b)),
          (''supplier_ref'', JStr (hb_supplier_ref b)), (''status'', JStr (hotel_booking_status_value (hb_status b)))])))"

section \<open>Approval summaries\<close>

text \<open>A renderer that raises gives \<open>None\<close>. Amounts that cannot be read or added are skipped.\<close>

definition true_text :: "obj \<Rightarrow> string \<Rightarrow> string \<Rightarrow> string" where
  "true_text d k other = (case get_true d k of None \<Rightarrow> other | Some v \<Rightarrow> py_str v)"

definition add_debit :: "(string, ext_decimal) dict \<Rightarrow> obj \<Rightarrow> (string, ext_decimal) dict" where
  "add_debit acc l =
     (let ccy = py_upper (true_text l ''currency'' [])
      in if ccy = [] then acc
         else case get_item l ''debit_amount'' of
           None \<Rightarrow> acc
         | Some v \<Rightarrow> (case decimal_of_text (py_str v) of
             Dt_value x \<Rightarrow> (case ext_add (dict_get_or acc ccy (Num (Dec 0 0))) x of Inr y \<Rightarrow> AList.update ccy y acc | Inl _ \<Rightarrow> acc)
           | _ \<Rightarrow> acc))"

definition post_journal_summary :: "obj \<Rightarrow> string option" where
  "post_journal_summary inp =
     (case bind_res (case get_true inp ''entry'' of None \<Rightarrow> Inr [] | Some v \<Rightarrow> as_obj v) (\<lambda>entry.
        bind_res (get_list entry ''lines'') (\<lambda>vs.
        bind_res (map_res as_obj vs) (\<lambda>ls.
        let debits = foldl add_debit [] ls;
            totals = (if debits = [] then ''(amount unknown)'' else join_with '', '' (map (\<lambda>(k, x). k @ '' '' @ format_commas x) debits))
        in Inr (''Post '' @ totals @ '' journal: '' @ true_text entry ''narration'' ''(no narration)'' @ '' across '' @ show_nat (length vs)
             @ '' lines. Not reversible.'')))) of
      Inr s \<Rightarrow> Some s | Inl _ \<Rightarrow> None)"

text \<open>The first of three keys whose value is a dictionary with an amount, or an integer or a text.\<close>

fun invoice_amount :: "obj \<Rightarrow> string list \<Rightarrow> json option" where
  "invoice_amount d [] = None"
| "invoice_amount d (k # ks) = (case map_of d k of
     Some (JObj m) \<Rightarrow> (case map_of m ''amount'' of Some v \<Rightarrow> Some v | None \<Rightarrow> invoice_amount d ks)
   | Some (JInt i) \<Rightarrow> Some (JInt i)
   | Some (JBool b) \<Rightarrow> Some (JBool b)
   | Some (JStr s) \<Rightarrow> Some (JStr s)
   | _ \<Rightarrow> invoice_amount d ks)"

definition create_invoice_summary :: "obj \<Rightarrow> string option" where
  "create_invoice_summary inp =
     (case (case get_true inp ''invoice'' of None \<Rightarrow> Inr [] | Some v \<Rightarrow> as_obj v) of
        Inl _ \<Rightarrow> None
      | Inr d \<Rightarrow>
          (let number = true_text d ''invoice_number'' ''(no number)''; ccy = py_upper (true_text d ''currency'' []);
               plain = ''Create invoice '' @ number @ ''. Reversible via cancellation.''
           in case invoice_amount d [''grand_total'', ''total'', ''amount''] of
                None \<Rightarrow> Some plain
              | Some JNull \<Rightarrow> Some plain
              | Some v \<Rightarrow> if ccy = [] then Some plain else
                  (case decimal_of_text (py_str v) of
                     Dt_value x \<Rightarrow> Some (''Create invoice '' @ number @ '' for '' @ ccy @ '' '' @ format_commas x @ ''. Reversible via cancellation.'')
                   | Dt_signalling \<Rightarrow> Some (''Create invoice '' @ number @ '' for '' @ ccy @ '' sNaN. Reversible via cancellation.'')
                   | Dt_malformed \<Rightarrow> Some plain)))"

definition book_hotel_summary :: "obj \<Rightarrow> string option" where
  "book_hotel_summary inp =
     (case get_list inp ''passenger_ids'' of
        Inl _ \<Rightarrow> None
      | Inr pax \<Rightarrow> Some (''Confirm hotel booking on rate_key ''
          @ (case get_true inp ''rate_key'' of None \<Rightarrow> repr_str ''(no rate_key)'' | Some v \<Rightarrow> repr_json v)
          @ '' for '' @ show_nat (length pax) @ '' guest(s). Reversible via cancel_hotel_booking subject to supplier rules.''))"

definition cancel_hotel_summary :: "obj \<Rightarrow> string option" where
  "cancel_hotel_summary inp = Some (''Cancel hotel booking ''
     @ (case map_of inp ''booking_id'' of None \<Rightarrow> ''None'' | Some v \<Rightarrow> repr_json v) @ ''. Refund depends on original cancellation policy.'')"

definition module_summaries :: summary_fns where
  "module_summaries = register_approval_summary ''cancel_hotel_booking'' cancel_hotel_summary
     (register_approval_summary ''book_hotel'' book_hotel_summary
     (register_approval_summary ''create_invoice'' create_invoice_summary
     (register_approval_summary ''post_journal_entry'' post_journal_summary [])))"

section \<open>The registry of the module\<close>

definition handlers :: "'r host \<Rightarrow> (tool_spec \<times> 'r tool_world handler) list" where
  "handlers h = [(search_flights_spec, as_handler h (search_flights h)), (read_pnr_spec, as_handler h (read_pnr h)),
     (issue_ticket_spec, as_handler h (issue_ticket h)), (handoff_spec, as_handler h handoff_handler), (clarify_spec, as_handler h clarify_handler),
     (list_ledger_accounts_spec, as_handler h (list_ledger_accounts h)), (post_journal_entry_spec, as_handler h (post_journal_entry h)),
     (create_invoice_spec, as_handler h (create_invoice_tool h)), (draft_invoice_spec, as_handler h (draft_invoice h)),
     (fetch_bsp_statement_spec, as_handler h (fetch_bsp_statement h)), (reconcile_bsp_spec, as_handler h reconcile_bsp),
     (read_account_balance_spec, as_handler h (read_account_balance_tool h)), (search_hotels_spec, as_handler h (search_hotels h)),
     (check_hotel_rate_spec, as_handler h (check_hotel_rate h)), (book_hotel_spec, as_handler h (book_hotel h)),
     (cancel_hotel_booking_spec, as_handler h (cancel_hotel_booking h)), (read_hotel_booking_spec, as_handler h (read_hotel_booking h))]"

fun register_all :: "(tool_spec \<times> 'w handler) list \<Rightarrow> 'w registry \<Rightarrow> string + 'w registry" where
  "register_all [] reg = Inr reg"
| "register_all ((spec, f) # rest) reg = bind_res (register_tool spec f reg) (register_all rest)"

end
