(* ===== verification/Tool_Effects.thy ===== *)
theory Tool_Effects
  imports Tool_Handlers Auth_Store Tenant_Registry
begin

text \<open>
  What the tools do to the world: the catalogue behind the approval gate, numbers and totals of drafted invoices, and the
  path of a journal entry from the tool through the canonical model to the accounting package.
\<close>

section \<open>The catalogue behind the gate\<close>

lemma register_all_distinct:
  "distinct (map (\<lambda>(s, f). ts_name s) xs) \<Longrightarrow> (\<forall>s\<in>set xs. map_of reg (ts_name (fst s)) = None) \<Longrightarrow>
     register_all xs reg = Inr (reg @ map (\<lambda>(s, f). (ts_name s, \<lparr>tool_spec = s, tool_handler = f\<rparr>)) xs)"
proof (induction xs arbitrary: reg)
  case (Cons x xs)
  obtain s f where x: "x = (s, f)" by (cases x)
  have "register_tool s f reg = Inr (reg @ [(ts_name s, \<lparr>tool_spec = s, tool_handler = f\<rparr>)])"
    using Cons.prems(2) by (simp add: x register_tool_def update_new)
  moreover have "\<forall>s'\<in>set xs. map_of (reg @ [(ts_name s, \<lparr>tool_spec = s, tool_handler = f\<rparr>)]) (ts_name (fst s')) = None"
  proof
    fix s' assume s': "s' \<in> set xs"
    then have "(\<lambda>(s, f). ts_name s) s' \<in> set (map (\<lambda>(s, f). ts_name s) xs)" by simp
    then have "ts_name (fst s') \<noteq> ts_name s" using Cons.prems(1) by (metis (mono_tags, lifting) case_prod_beta distinct.simps(2) fst_conv list.simps(9) x)
    then show "map_of (reg @ [(ts_name s, \<lparr>tool_spec = s, tool_handler = f\<rparr>)]) (ts_name (fst s')) = None"
      using Cons.prems(2) s' by (simp add: map_add_def)
  qed
  ultimately show ?case using Cons.IH Cons.prems(1) by (simp add: x)
qed simp

lemma handler_specs: "map fst (handlers h) = catalogue"
  by (simp add: handlers_def catalogue_def)

definition module_registry :: "'r host \<Rightarrow> 'r tool_world registry" where
  "module_registry h = map (\<lambda>(s, f). (ts_name s, \<lparr>tool_spec = s, tool_handler = f\<rparr>)) (handlers h)"

lemma module_registers: "register_all (handlers h) [] = Inr (module_registry h)"
proof -
  have "map (\<lambda>(s, f). ts_name s) (handlers h) = map ts_name (map fst (handlers h))" by (simp add: case_prod_beta comp_def)
  then have "distinct (map (\<lambda>(s, f). ts_name s) (handlers h))" using catalogue_distinct by (simp add: handler_specs)
  from register_all_distinct [OF this, of "[]"] show ?thesis by (simp add: module_registry_def)
qed

lemma module_entry:
  assumes "map_of (module_registry h) name = Some entry"
  shows "tool_spec entry \<in> set catalogue" "ts_name (tool_spec entry) = name"
proof -
  have "(name, entry) \<in> set (module_registry h)" using assms by (rule map_of_SomeD)
  then obtain f where "(tool_spec entry, f) \<in> set (handlers h)" "ts_name (tool_spec entry) = name" by (auto simp: module_registry_def)
  then show "tool_spec entry \<in> set catalogue" "ts_name (tool_spec entry) = name"
    using handler_specs [of h] by (metis fst_conv image_eqI list.set_map, blast)
qed

lemma module_lookup:
  assumes "(spec, f) \<in> set (handlers h)"
  shows "map_of (module_registry h) (ts_name spec) = Some \<lparr>tool_spec = spec, tool_handler = f\<rparr>"
proof (rule map_of_is_SomeI)
  have "map fst (module_registry h) = map ts_name catalogue" by (simp add: module_registry_def case_prod_beta comp_def flip: handler_specs [of h])
  then show "distinct (map fst (module_registry h))" by (simp add: catalogue_distinct)
  show "(ts_name spec, \<lparr>tool_spec = spec, tool_handler = f\<rparr>) \<in> set (module_registry h)" using assms by (force simp: module_registry_def)
qed

text \<open>Claim C9. No tool of the catalogue changes the world without a decision. For every registered tool that is marked as having a side effect the
  handler runs only if the actor has one of the roles the tool names and the call's approval was granted; in every other case the world is as
  before and the outcome is not a success. The marks are those of the module's own seventeen tools, all of which it registers.
\<close>
theorem catalogue_side_effects_gated:
  assumes "register_all (handlers h) [] = Inr (te_registry env)"
    and "map_of (te_registry env) name = Some entry" "ts_side_effect (tool_spec entry)"
    and "invoke_tool env audit_id n0 n1 n2 name inp ctx sink w = (out, ctx', sink', w')"
    and "\<not> (ctx_actor_role ctx \<in> set (ts_approval_roles (tool_spec entry))
          \<and> map_of (ctx_approvals ctx) (approval_id_for (ctx_turn_id ctx) name) = Some True)"
  shows "w' = w \<and> ctx' = ctx \<and> oc_kind out \<noteq> Success"
proof -
  have reg: "te_registry env = module_registry h" using assms(1) by (simp add: module_registers)
  note m = module_entry [OF assms(2) [unfolded reg]]
  have "ts_approval_required (tool_spec entry)" "ts_approval_roles (tool_spec entry) \<noteq> []"
    using catalogue_gated [OF m(1)] assms(3) by simp_all
  then have "\<not> gate_open (tool_spec entry) ctx name" using assms(3,5) by (auto simp: gate_open_def role_denied_def)
  then show ?thesis using assms(2) by (cases rule: invoke_tool_cases [OF assms(4)]) (auto split: if_splits)
qed

lemma books_specs:
  assumes "spec \<in> {post_journal_entry_spec, create_invoice_spec, draft_invoice_spec}"
  shows "ts_approval_roles spec = [''accountant'', ''admin'']" "ts_approval_required spec"
  using assms by (auto simp: spec_defs)

lemma no_such_role: "role_value r \<notin> {''accountant'', ''admin''}"
  by (cases r) simp_all

lemma books_lookup:
  assumes "name \<in> {''post_journal_entry'', ''create_invoice'', ''draft_invoice''}"
  shows "\<exists>entry. map_of (module_registry h) name = Some entry \<and> tool_spec entry \<in> {post_journal_entry_spec, create_invoice_spec, draft_invoice_spec}"
proof -
  have names: "ts_name post_journal_entry_spec = ''post_journal_entry''" "ts_name create_invoice_spec = ''create_invoice''" "ts_name draft_invoice_spec = ''draft_invoice''"
    by (simp_all add: spec_defs)
  have "(post_journal_entry_spec, as_handler h (post_journal_entry h)) \<in> set (handlers h)" "(create_invoice_spec, as_handler h (create_invoice_tool h)) \<in> set (handlers h)"
    "(draft_invoice_spec, as_handler h (draft_invoice h)) \<in> set (handlers h)" by (simp_all add: handlers_def)
  from this [THEN module_lookup] assms show ?thesis by (auto simp: names)
qed

text \<open>Claim C40. Nobody can use the tools that write to the books. Their approval roles are not roles of the system, so whatever role the acting user has and whatever
  was approved, posting a journal entry, creating and drafting an invoice are refused with \<^verbatim>\<open>permission_denied\<close>, and nothing changes except
  the audit trail.
\<close>
theorem accounting_writes_always_denied:
  assumes "register_all (handlers h) [] = Inr (te_registry env)" "name \<in> {''post_journal_entry'', ''create_invoice'', ''draft_invoice''}"
    and "\<forall>schema. te_validate env schema inp = None" "ctx_actor_role ctx = role_value role"
  shows "\<exists>out sink'. invoke_tool env audit_id n0 n1 n2 name inp ctx sink w = (out, ctx, sink', w) \<and> oc_kind out = PermissionDenied"
proof -
  obtain entry where e: "map_of (te_registry env) name = Some entry" "tool_spec entry \<in> {post_journal_entry_spec, create_invoice_spec, draft_invoice_spec}"
    using books_lookup [OF assms(2), of h] assms(1) by (auto simp: module_registers)
  have "role_denied (tool_spec entry) ctx"
    using books_specs [OF e(2)] no_such_role [of role] assms(4) by (simp add: role_denied_def)
  then show ?thesis using e(1) assms(3) by (simp add: invoke_tool_def get_tool_def Let_def)
qed

section \<open>Drafted invoices\<close>

subsection \<open>Numbers\<close>

lemma like_self: "CHR 0x5C \<notin> set p \<Longrightarrow> like (p @ ''%'') (p @ s)"
proof (induction p)
  case Nil
  show ?case using like_percent [of "[]" s] by auto
next
  case (Cons c p)
  show ?case
  proof (cases "c = CHR ''%''")
    case True
    have "\<exists>u v. c # p @ s = u @ v \<and> like (p @ ''%'') v" using Cons by (intro exI [of _ "[c]"] exI [of _ "p @ s"]) auto
    then show ?thesis using True by (simp add: like_percent del: like.simps(2))
  next
    case False
    then show ?thesis using Cons by auto
  qed
qed

lemma padded_digits: "list_all is_decimal_char (padded k (int n))" "padded k (int n) \<noteq> []" "digits_val (padded k (int n)) = n"
proof -
  have z: "is_decimal_char (CHR ''0'')" by code_simp
  then show "list_all is_decimal_char (padded k (int n))" using show_nat_decimal [of n]
    by (auto simp: padded_def Let_def list_all_iff)
  have "show_nat n \<noteq> []" by (subst show_nat.simps) simp
  then show "padded k (int n) \<noteq> []" by (simp add: padded_def Let_def)
  show "digits_val (padded k (int n)) = n" by (simp add: padded_def Let_def digits_val_zeros)
qed

lemma sequence_of_padded: "sequence_of pre (pre @ padded k (int n)) = Some n"
proof -
  have "last (padded k (int n)) \<noteq> CHR 0x0A"
  proof -
    have "is_decimal_char (last (padded k (int n)))" using padded_digits(1,2) [of k n] by (simp add: list_all_iff)
    moreover have "\<not> is_decimal_char (CHR 0x0A)" by code_simp
    ultimately show ?thesis by auto
  qed
  then show ?thesis by (simp add: sequence_of_def Let_def padded_digits)
qed

lemma max_sequence_upper:
  assumes "n \<in> set numbers" "sequence_of pre n = Some q"
  shows "q \<le> max_sequence pre numbers"
proof -
  let ?f = "\<lambda>m n. case sequence_of pre n of None \<Rightarrow> m | Some q \<Rightarrow> if q > m then q else (m :: nat)"
  have grow: "m \<le> foldl ?f m ns" for m ns
  proof (induction ns arbitrary: m)
    case (Cons a ns)
    have "m \<le> ?f m a" by (simp split: option.splits)
    also have "\<dots> \<le> foldl ?f (?f m a) ns" by (rule Cons)
    finally show ?case by simp
  qed simp
  have "q \<le> foldl ?f m numbers" for m using assms(1)
  proof (induction numbers arbitrary: m)
    case (Cons a ns)
    then show ?case
    proof (cases "a = n")
      case True
      have "q \<le> ?f m a" using assms(2) True by simp
      also have "\<dots> \<le> foldl ?f (?f m a) ns" by (rule grow)
      finally show ?thesis by simp
    qed auto
  qed simp
  then show ?thesis by (simp add: max_sequence_def)
qed

lemma next_number_fresh:
  assumes "CHR 0x5C \<notin> set (number_prefix tenant)" "r \<in> set rows" "vr_tenant_id r = t"
  shows "vr_number r \<noteq> next_number tenant t rows"
proof
  define pre where "pre = number_prefix tenant"
  define existing where "existing = map vr_number (filter (\<lambda>r. vr_tenant_id r = t \<and> like (pre @ ''%'') (vr_number r)) rows)"
  assume eq: "vr_number r = next_number tenant t rows"
  then have n: "vr_number r = pre @ padded 4 (int (Suc (max_sequence pre existing)))"
    by (simp add: next_number_def pre_def existing_def Let_def add.commute)
  have "like (pre @ ''%'') (vr_number r)" using like_self [OF assms(1)] by (simp add: n pre_def)
  then have "vr_number r \<in> set existing" unfolding existing_def set_map set_filter using assms(2,3) by blast
  moreover have "sequence_of pre (vr_number r) = Some (Suc (max_sequence pre existing))" unfolding n by (rule sequence_of_padded)
  ultimately show False using max_sequence_upper [of "vr_number r" existing pre] by fastforce
qed

lemma entity_chars: "entity_id_ok s \<Longrightarrow> c \<in> set s \<Longrightarrow> is_hex_char c \<or> c = CHR ''-''"
proof -
  assume s: "entity_id_ok s" "c \<in> set s"
  then obtain i where i: "i < length s" "c = s ! i" by (auto simp: in_set_conv_nth)
  then have "(i, c) \<in> set (enumerate 0 s)" by (auto simp: in_set_enumerate_eq)
  moreover have "is_hex_char d" if "d \<in> set ''789ab''" for d
  proof -
    have "list_all is_hex_char ''789ab''" by code_simp
    then show ?thesis using that by (auto simp: list_all_iff)
  qed
  ultimately show ?thesis using s(1) by (fastforce simp: entity_id_ok_def list_all_iff split: if_splits)
qed

lemma prefix_plain:
  assumes "entity_id_ok tenant"
  shows "CHR 0x5C \<notin> set (number_prefix tenant)"
proof -
  have h: "CHR 0x5C \<notin> set (upper_chars c)" if "is_hex_char c" for c
  proof -
    have "(of_char c :: nat) \<noteq> 92" "(of_char c :: nat) \<noteq> 124" using that by (auto simp: is_hex_char_def is_decimal_char_def Let_def)
    moreover have "d = CHR 0x5C \<Longrightarrow> (of_char d :: nat) = 92" for d by simp
    ultimately show ?thesis using that by (auto simp: upper_chars_def upper_char_def is_hex_char_def Let_def is_decimal_char_def dest: arg_cong [of _ _ "of_char :: char \<Rightarrow> nat"] split: if_splits)
  qed
  have "set (take 8 (filter (\<lambda>c. c \<noteq> CHR ''-'') tenant)) \<subseteq> {c. is_hex_char c}"
    using entity_chars [OF assms] by (force dest!: in_set_takeD)
  then show ?thesis using h by (auto simp: number_prefix_def py_upper_def)
qed

subsection \<open>Totals\<close>

lemma dec_times_int_exact:
  assumes "dec_scaled s x" "\<bar>of_int n * dval x\<bar> * 10 ^ s < 10 ^ 28"
  shows "dval (dec_mul (dec_of_int n) x) = of_int n * dval x \<and> dec_scaled s (dec_mul (dec_of_int n) x)"
proof -
  let ?c = "n * dcoef x"
  have e: "- int s \<le> dexp x" using assms(1) by (simp add: dec_scaled_def)
  have c: "rat_of_int ?c = of_int n * dval x * 10 powi (- dexp x)" by (simp add: dval_def power_int_minus)
  have "\<bar>rat_of_int ?c\<bar> = \<bar>of_int n * dval x\<bar> * 10 powi (- dexp x)" by (simp only: c abs_mult) simp
  also have "\<dots> \<le> \<bar>of_int n * dval x\<bar> * 10 ^ s" using powi_scale_mono [OF e] by (intro mult_left_mono) auto
  also have "\<dots> < 10 ^ 28" by (rule assms(2))
  finally have "rat_of_int \<bar>?c\<bar> < rat_of_int (10 ^ 28)" by simp
  then have "\<bar>?c\<bar> < 10 ^ 28" by (simp only: of_int_less_iff)
  then have "dec_mul (dec_of_int n) x = Dec ?c (dexp x)" by (simp add: dec_mul_def dec_of_int_def)
  then show ?thesis using e by (simp add: dval_def dec_scaled_def)
qed

text \<open>A line item with a quantity and a price in hundredths.\<close>

definition priced :: "json \<Rightarrow> int \<times> decimal \<Rightarrow> bool" where
  "priced v p \<longleftrightarrow> (\<exists>li q u. v = JObj li \<and> map_of li ''quantity'' = Some q \<and> as_int q = Inr (fst p)
     \<and> map_of li ''unit_price'' = Some u \<and> decimal_of_text (py_str u) = Dt_value (Num (snd p)) \<and> dec_scaled 2 (snd p))"

definition price_of :: "int \<times> decimal \<Rightarrow> rat" where
  "price_of p = of_int (fst p) * dval (snd p)"

lemma add_item_exact:
  assumes "priced v p" "dec_scaled 2 a" "(\<bar>dval a\<bar> + \<bar>price_of p\<bar>) * 10 ^ 2 < 10 ^ 28"
  shows "\<exists>d. add_item (Num a) v = Inr (Num d) \<and> dval d = dval a + price_of p \<and> dec_scaled 2 d"
proof -
  obtain n x where p: "p = (n, x)" by (cases p)
  have sx: "dec_scaled 2 x" using assms(1) by (auto simp: priced_def p)
  have "\<bar>price_of p\<bar> * 10 ^ 2 < 10 ^ 28" using assms(3) by (simp add: distrib_right)
  then have m: "dval (dec_mul (dec_of_int n) x) = price_of p" "dec_scaled 2 (dec_mul (dec_of_int n) x)"
    using dec_times_int_exact [OF sx, of n] by (simp_all add: price_of_def p)
  have a: "dec_scaled 2 (dec_add a (dec_mul (dec_of_int n) x))" "dval (dec_add a (dec_mul (dec_of_int n) x)) = dval a + price_of p"
    using dec_add_scaled [OF assms(2) m(2)] assms(3) m(1) by simp_all
  have "\<bar>dval a + price_of p\<bar> * 10 ^ 2 \<le> (\<bar>dval a\<bar> + \<bar>price_of p\<bar>) * 10 ^ 2" by (intro mult_right_mono abs_triangle_ineq) simp
  then have "\<bar>dval (dec_add a (dec_mul (dec_of_int n) x))\<bar> * 10 ^ 2 < 10 ^ 28" using assms(3) unfolding a(2) by linarith
  from dec_quantize_exact [OF a(1) this] obtain y where y: "dec_quantize (dec_add a (dec_mul (dec_of_int n) x)) (- 2) = Some y"
    "dval y = dval a + price_of p" "dexp y = - 2" using a(2) by auto
  show ?thesis using assms(1) y by (auto simp: add_item_def priced_def item_def p dec_scaled_def)
qed

lemma add_items_exact:
  assumes "list_all2 priced vs ps" "dec_scaled 2 a" "(\<bar>dval a\<bar> + (\<Sum>p\<leftarrow>ps. \<bar>price_of p\<bar>)) * 10 ^ 2 < 10 ^ 28"
  shows "\<exists>d. add_items (Num a) vs = Inr (Num d) \<and> dval d = dval a + (\<Sum>p\<leftarrow>ps. price_of p)"
  using assms
proof (induction arbitrary: a rule: list_all2_induct)
  case (Cons v vs p ps)
  have nn: "0 \<le> (\<Sum>p\<leftarrow>ps. \<bar>price_of p\<bar>)" by (rule sum_list_nonneg) auto
  have "(\<bar>dval a\<bar> + \<bar>price_of p\<bar>) * 10 ^ 2 \<le> (\<bar>dval a\<bar> + (\<Sum>p\<leftarrow>p # ps. \<bar>price_of p\<bar>)) * 10 ^ 2" using nn by (intro mult_right_mono) auto
  with Cons.prems(2) have "(\<bar>dval a\<bar> + \<bar>price_of p\<bar>) * 10 ^ 2 < 10 ^ 28" by linarith
  from add_item_exact [OF Cons.hyps(1) Cons.prems(1) this] obtain d where d: "add_item (Num a) v = Inr (Num d)" "dval d = dval a + price_of p" "dec_scaled 2 d"
    by blast
  have "(\<bar>dval d\<bar> + (\<Sum>p\<leftarrow>ps. \<bar>price_of p\<bar>)) * 10 ^ 2 \<le> (\<bar>dval a\<bar> + (\<Sum>p\<leftarrow>p # ps. \<bar>price_of p\<bar>)) * 10 ^ 2"
    using abs_triangle_ineq [of "dval a" "price_of p"] by (intro mult_right_mono) (simp_all add: d(2))
  with Cons.prems(2) have "(\<bar>dval d\<bar> + (\<Sum>p\<leftarrow>ps. \<bar>price_of p\<bar>)) * 10 ^ 2 < 10 ^ 28" by linarith
  from Cons.IH [OF d(3) this] show ?case using d(1,2) by auto
qed simp

subsection \<open>The effect\<close>

definition same_but_invoices :: "'r tool_world \<Rightarrow> 'r tool_world \<Rightarrow> bool" where
  "same_but_invoices w w' \<longleftrightarrow> tw_remote w' = tw_remote w \<and> tw_reports w' = tw_reports w \<and> tw_tickets w' = tw_tickets w
     \<and> tw_tenants w' = tw_tenants w \<and> tw_now w' = tw_now w"

definition drafts :: "'r tool_world \<Rightarrow> uuid_int \<Rightarrow> string \<Rightarrow> ext_decimal \<Rightarrow> (raised + obj) \<Rightarrow> 'r tool_world \<Rightarrow> bool" where
  "drafts w t n amount r w' \<longleftrightarrow> (\<exists>row. r = Inr (drafted row) \<and> tw_invoices w' = tw_invoices w @ [row] \<and> vr_tenant_id row = t \<and> vr_number row = n
     \<and> vr_total_amount row = amount \<and> vr_amount_paid row = Dec 0 (- 2) \<and> vr_status row = DocDraft \<and> row_fits row \<and> t \<in> set (tw_tenants w)
     \<and> (\<forall>r0\<in>set (tw_invoices w). vr_tenant_id r0 = t \<longrightarrow> vr_number r0 \<noteq> n))"

lemma committed_none [simp]: "committed [] w = w"
  by (simp add: committed_def)

text \<open>What the insertion leaves when other transactions have committed \<open>others\<close> after the read.\<close>

lemma draft_row_effect:
  assumes "draft_row others h inp t n issue_d due_d amount c w = (r, w')"
  shows "same_but_invoices w w' \<and> (drafts (committed others w) t n amount r w'
    \<or> (\<exists>e. r = Inl e) \<and> tw_invoices w' \<in> {tw_invoices w, tw_invoices w @ others}
    \<or> (\<exists>out. r = Inr out \<and> tw_invoices w' = tw_invoices w @ others \<and> map_of out ''drafted'' = Some (JBool False)
        \<and> map_of out ''error_code'' = Some (JStr ''invoice_number_conflict'')
        \<and> (t \<notin> set (tw_tenants w) \<or> (\<exists>r0\<in>set (tw_invoices w @ others). vr_tenant_id r0 = t \<and> vr_number r0 = n))))"
proof -
  have o: "map_of (draft_failed code detail) ''drafted'' = Some (JBool False)" "map_of (draft_failed code detail) ''error_code'' = Some (JStr code)"
    for code detail by (simp_all add: draft_failed_def)
  show ?thesis using assms
    by (auto simp: draft_row_def act_bind_def act_lift_def draw_uuid_def act_update_def committed_def insert_invoice_def same_but_invoices_def drafts_def
        row_allowed_def list_all_iff o split: sum.splits if_splits)
qed

definition not_drafted :: "'r tool_world \<Rightarrow> (raised + obj) \<Rightarrow> 'r tool_world \<Rightarrow> bool" where
  "not_drafted w r w' \<longleftrightarrow> tw_invoices w' = tw_invoices w \<and> (\<forall>out. r = Inr out \<longrightarrow> map_of out ''drafted'' = Some (JBool False))"

lemma draft_invoice_cases:
  assumes "draft_invoice_racing others h inp ctx w = (r, w')"
  obtains (refused) "w' = w" "not_drafted w r w'" "\<forall>out. r = Inr out \<longrightarrow> (\<exists>n. get_true_text inp ''number'' = Inr (Some n))
      \<or> map_of out ''error_code'' \<in> {Some (JStr ''mixed_currency''), Some (JStr ''invalid_date'')}"
  | (row) items amount t n issue_d due_d c where "get_list inp ''line_items'' = Inr items" "add_items (Num (Dec 0 (- 2))) items = Inr amount"
      "uuid_parse (ctx_tenant_id ctx) = Some t"
      "get_true_text inp ''number'' = Inr (Some n) \<or> get_true_text inp ''number'' = Inr None \<and> n = next_number (ctx_tenant_id ctx) t (tw_invoices w)"
      "draft_row others h inp t n issue_d due_d amount c w = (r, w')"
proof -
  have o: "map_of (draft_failed code detail) ''drafted'' = Some (JBool False)" "map_of (draft_failed code detail) ''error_code'' = Some (JStr code)"
    for code detail by (simp_all add: draft_failed_def)
  show thesis
  proof (cases "w' = w \<and> not_drafted w r w' \<and> (\<forall>out. r = Inr out \<longrightarrow> (\<exists>n. get_true_text inp ''number'' = Inr (Some n))
      \<or> map_of out ''error_code'' \<in> {Some (JStr ''mixed_currency''), Some (JStr ''invalid_date'')})")
    case True
    then show thesis using refused by blast
  next
    case False
    then show thesis
      using assms row
      by (auto simp: draft_invoice_racing_def act_bind_def act_lift_def act_return_def act_raise_def act_some_def act_read_def not_drafted_def o
          split: sum.splits if_splits option.splits)
  qed
qed

text \<open>Claim C7. What drafting an invoice does. Either no row is written, and the answer, if there is one, says so; or exactly one row is appended, for the tenant of the
  context, with status draft and nothing paid, a number that no other invoice of the tenant has, the one asked for or the next of the
  tenant's own sequence, and a total which, for prices in hundredths whose sum has at most 28 digits, is exactly the sum of quantities times
  prices. Nothing else of the world changes. (No other transaction writes between the read and the insertion; for those see the claim on automatic numbers.)
\<close>
theorem draft_invoice_effect:
  assumes "draft_invoice h inp ctx w = (r, w')"
  shows "same_but_invoices w w' \<and> (not_drafted w r w'
    \<or> (\<exists>items amount t n. get_list inp ''line_items'' = Inr items \<and> uuid_parse (ctx_tenant_id ctx) = Some t \<and> drafts w t n amount r w'
        \<and> (get_true_text inp ''number'' = Inr (Some n) \<or> get_true_text inp ''number'' = Inr None \<and> n = next_number (ctx_tenant_id ctx) t (tw_invoices w))
        \<and> (\<forall>ps. list_all2 priced items ps \<and> (\<Sum>p\<leftarrow>ps. \<bar>price_of p\<bar>) * 10 ^ 2 < 10 ^ 28
             \<longrightarrow> (\<exists>d. amount = Num d \<and> dval d = (\<Sum>p\<leftarrow>ps. price_of p)))))"
  using assms unfolding draft_invoice_def
proof (cases rule: draft_invoice_cases)
  case refused
  then show ?thesis by (simp add: same_but_invoices_def)
next
  case (row items amount t n issue_d due_d c)
  have "\<exists>d. amount = Num d \<and> dval d = (\<Sum>p\<leftarrow>ps. price_of p)" if "list_all2 priced items ps" "(\<Sum>p\<leftarrow>ps. \<bar>price_of p\<bar>) * 10 ^ 2 < 10 ^ 28" for ps
    using add_items_exact [OF that(1), of "Dec 0 (- 2)"] that(2) row(2) by (auto simp: dec_scaled_def dval_def)
  then show ?thesis using draft_row_effect [OF row(5)] row(1-4) unfolding not_drafted_def by fastforce
qed

text \<open>Claim C29. Automatic numbers. For a tenant of the table (its id has the form the context enforces), the number drawn for a draft without a number
  of its own is one that none of the tenant's invoices has, whatever numbers, also of the automatic form, they have. Other transactions may commit rows
  before the insertion: the draft is answered with \<^verbatim>\<open>invoice_number_conflict\<close> exactly when one of them took the number, and then nothing
  but their rows is written; otherwise it gets that number, or was refused for its currencies or dates before.
\<close>
theorem automatic_number_conflicts:
  assumes "draft_invoice_racing others h inp ctx w = (Inr out, w')" "get_true_text inp ''number'' = Inr None"
    and "entity_id_ok (ctx_tenant_id ctx)" "uuid_parse (ctx_tenant_id ctx) = Some t" "t \<in> set (tw_tenants w)"
  shows "\<exists>n taken. n = next_number (ctx_tenant_id ctx) t (tw_invoices w) \<and> taken = (\<lambda>rows. \<exists>r0\<in>set rows. vr_tenant_id r0 = t \<and> vr_number r0 = n)
     \<and> \<not> taken (tw_invoices w)
     \<and> (map_of out ''error_code'' \<in> {Some (JStr ''mixed_currency''), Some (JStr ''invalid_date'')} \<and> tw_invoices w' = tw_invoices w
      \<or> taken others \<and> map_of out ''error_code'' = Some (JStr ''invoice_number_conflict'') \<and> tw_invoices w' = tw_invoices w @ others
      \<or> \<not> taken others \<and> (\<exists>row. out = drafted row \<and> vr_tenant_id row = t \<and> vr_number row = n \<and> tw_invoices w' = tw_invoices w @ others @ [row]))"
proof -
  define n where "n = next_number (ctx_tenant_id ctx) t (tw_invoices w)"
  have free: "\<not> (\<exists>r0\<in>set (tw_invoices w). vr_tenant_id r0 = t \<and> vr_number r0 = n)"
    using next_number_fresh [OF prefix_plain [OF assms(3)]] by (auto simp: n_def)
  show ?thesis
    using assms(1)
  proof (cases rule: draft_invoice_cases)
    case refused
    then show ?thesis using assms(2) free by (auto simp: n_def)
  next
    case (row items amount t' m issue_d due_d c)
    have t: "t' = t" "m = n" using row(3,4) assms(2,4) by (auto simp: n_def)
    from draft_row_effect [OF row(5)] show ?thesis using assms(5) free unfolding t n_def [symmetric]
      by (auto simp: drafts_def committed_def)
  qed
qed

section \<open>Journal entries on their way to the books\<close>

definition entry_lines :: "obj \<Rightarrow> raised + journal_line list option" where
  "entry_lines inp = bind_res (bind_res (item inp ''entry'') as_obj) (\<lambda>entry_input. bind_res (get_list entry_input ''lines'') input_lines)"

text \<open>
  What the journal tool relies on: a driver whose \<^verbatim>\<open>post_journal\<close> does what \<open>did\<close> says with an entry that the canonical model
  accepted. Then every call of the tool leaves the driver alone, or makes it post one accepted entry with the lines of the input.
\<close>

definition says_posted :: "(raised + obj) \<Rightarrow> bool" where
  "says_posted r \<longleftrightarrow> (\<exists>out. r = Inr out \<and> map_of out ''posted'' = Some (JBool True))"

text \<open>A call of the tool: it stops before the driver is called, or calls it with an accepted entry.\<close>

lemma journal_tool_cases:
  assumes "accounting_driver h ctx w = (Inr d, w)" "post_journal_entry h inp ctx w = (r, w')"
  obtains (stops) "tw_remote w' = tw_remote w" "\<not> says_posted r"
  | (calls) jls e0 e w1 where "entry_lines inp = Inr (Some jls)" "je_lines e0 = jls" "journal_entry_of e0 = Inr e" "tw_remote w1 = tw_remote w"
      "act_bind (call_driver (ac_post_journal d e)) (\<lambda>ident. act_return [(''posted'', JBool True), (''journal_id'', JStr ident)]) w1 = (r, w')"
proof -
  have refuse: "\<not> says_posted (Inr (refused ''posted'' c t))" "\<not> says_posted (Inl x)" for c t x
    by (simp_all add: says_posted_def refused_def)
  show thesis
  proof (cases "entry_lines inp")
    case (Inl x)
    then have "r = Inl x \<and> w' = w" using assms
      by (cases "bind_res (item inp ''entry'') as_obj") (auto simp: post_journal_entry_def act_bind_def act_lift_def entry_lines_def)
    then show thesis using refuse stops by simp
  next
    case (Inr read)
    then obtain ei where ei: "bind_res (item inp ''entry'') as_obj = Inr ei" "bind_res (get_list ei ''lines'') input_lines = Inr read"
      by (auto simp: entry_lines_def res_simps)
    show thesis
    proof (cases read)
      case None
      then show thesis using assms ei stops by (auto simp: post_journal_entry_def act_bind_def act_lift_def act_return_def refuse)
    next
      case (Some jls)
      have e: "act_lift (bind_res (item inp ''entry'') as_obj) w = (Inr ei, w)" "act_lift (bind_res (get_list ei ''lines'') input_lines) w = (Inr read, w)"
        "act_read tw_now w = (Inr (tw_now w), w)" using ei by (simp_all add: act_lift_def act_read_def)
      define K where "K e = act_bind (call_driver (ac_post_journal d e)) (\<lambda>ident. act_return [(''posted'', JBool True), (''journal_id'', JStr ident)])" for e
      have run: "act_bind (act_lift (bind_res (get_true_text ei ''entry_date'') (\<lambda>t. case t of None \<Rightarrow> Inr (utc_date (tw_now w)) | Some s \<Rightarrow> date_of_text s))) (\<lambda>entry_date.
           act_bind draw_uuid (\<lambda>raw.
             case map_of ei ''narration'' of
               None \<Rightarrow> act_return (refused ''posted'' ''validation_failed'' (repr_str ''narration''))
             | Some nar \<Rightarrow>
                 (case journal_entry_of \<lparr>je_id = uuid7_like raw, je_tenant_id = ctx_tenant_id ctx, je_entry_date = entry_date,
                    je_narration = localized (py_str nar), je_lines = jls,
                    je_source_event = (case get_true ei ''source_event'' of None \<Rightarrow> ''manual.journal'' | Some v \<Rightarrow> py_str v),
                    je_source_ref = None\<rparr> of
                    Inl e \<Rightarrow> act_return (refused ''posted'' ''validation_failed'' (th_validation_text h e))
                  | Inr entry \<Rightarrow> K entry))) w = (r, w')"
        using assms(2) unfolding post_journal_entry_def act_bind_step(1) [of "accounting_driver h ctx", OF assms(1)] act_bind_step(1) [of "act_lift _", OF e(1)]
            act_bind_step(1) [of "act_lift _", OF e(2)] Some option.case act_bind_step(1) [of "act_read _", OF e(3)] K_def .
      show thesis
      proof (cases "\<exists>jls e0 e w1. entry_lines inp = Inr (Some jls) \<and> je_lines e0 = jls \<and> journal_entry_of e0 = Inr e \<and> tw_remote w1 = tw_remote w \<and> K e w1 = (r, w')")
        case True
        then show thesis using calls unfolding K_def by blast
      next
        case False
        then have no: "K e (w\<lparr>tw_drawn := n\<rparr>) \<noteq> (r, w')"
          if "journal_entry_of \<lparr>je_id = a, je_tenant_id = b, je_entry_date = c, je_narration = x, je_lines = jls, je_source_event = y, je_source_ref = z\<rparr> = Inr e"
          for a b c x y z e n
        proof -
          have "je_lines \<lparr>je_id = a, je_tenant_id = b, je_entry_date = c, je_narration = x, je_lines = jls, je_source_event = y, je_source_ref = z\<rparr> = jls"
            "tw_remote (w\<lparr>tw_drawn := n\<rparr>) = tw_remote w" "entry_lines inp = Inr (Some jls)" using Inr Some by simp_all
          with False that show ?thesis by blast
        qed
        have "tw_remote w' = tw_remote w \<and> \<not> says_posted r"
          using run refuse by (auto dest: no simp: act_bind_def act_lift_def act_return_def draw_uuid_def split: sum.splits option.splits)
        then show thesis using stops by blast
      qed
    qed
  qed
qed

locale accounting_provider =
  fixes post :: "journal_entry \<Rightarrow> ('r, string) call" and did :: "journal_entry \<Rightarrow> 'r \<Rightarrow> failure + string \<Rightarrow> 'r \<Rightarrow> bool"
  assumes post_did: "journal_entry_of e0 = Inr e \<Longrightarrow> post e s = (r, s') \<Longrightarrow> did e s r s'"
begin

lemma tool_posts:
  assumes "th_tenant_registry h = None" "th_driver_registry h = Some reg" "dr_accounting reg = Some d" "ac_post_journal d = post"
    and run: "post_journal_entry h inp ctx w = (r, w')"
  shows "tw_remote w' = tw_remote w \<and> \<not> says_posted r
    \<or> (\<exists>jls e0 e q. entry_lines inp = Inr (Some jls) \<and> journal_entry_of e0 = Inr e \<and> je_lines e = jls
         \<and> did e (tw_remote w) q (tw_remote w') \<and> (says_posted r \<longleftrightarrow> (\<exists>i. q = Inr i)))"
proof -
  have acct: "accounting_driver h ctx w = (Inr d, w)"
    using assms(1-3) by (simp add: accounting_driver_def resolve_registry_def registered_def act_bind_def act_return_def act_some_def)
  from acct run show ?thesis
  proof (cases rule: journal_tool_cases)
    case (calls jls e0 e w1)
    obtain q s' where q: "post e (tw_remote w1) = (q, s')" by fastforce
    have "je_lines e = jls" using calls(2,3) by (auto simp: journal_entry_of_def res_simps)
    moreover have "tw_remote w' = s' \<and> (says_posted r \<longleftrightarrow> (\<exists>i. q = Inr i))"
      using calls(5) q by (auto simp: assms(4) act_bind_def act_return_def call_driver_def remotely_def act_map_err_def says_posted_def split: sum.splits)
    ultimately show ?thesis using calls(1,3,4) post_did [OF calls(3) q] by auto
  qed simp
qed

end

text \<open>The Tally driver behind the protocol, on a gateway that keeps a log of the envelopes it receives.\<close>

definition logged :: "(string, 'w) remote \<Rightarrow> (string, 'w \<times> string list) remote" where
  "logged gw xml s = (let (r, w') = gw xml (fst s) in (r, (w', snd s @ [xml])))"

definition tally_post :: "tally_env \<Rightarrow> (string, 'w) remote \<Rightarrow> uuid_int \<Rightarrow> journal_entry \<Rightarrow> (tally_driver \<times> 'w \<times> string list, string) call" where
  "tally_post env gw raw e s = (case s of (d, w) \<Rightarrow> case post_journal env (logged gw) raw e d w of (r, d', w') \<Rightarrow> (r, (d', w')))"

lemma sends_logged: "snd (snd (sends (logged gw xml) n w)) = snd w @ replicate n xml"
proof (induction n arbitrary: w)
  case (Suc n)
  show ?case using Suc [of "snd (logged gw xml w)"] by (simp add: case_prod_beta Let_def logged_def)
qed simp

text \<open>Nothing was sent, or the envelope of the entry was, so many times; only the latter returns an identifier.\<close>

definition tally_did :: "tally_env \<Rightarrow> journal_entry \<Rightarrow> tally_driver \<times> 'w \<times> string list \<Rightarrow> failure + string \<Rightarrow> tally_driver \<times> 'w \<times> string list \<Rightarrow> bool" where
  "tally_did env e s q s' \<longleftrightarrow> (\<exists>f. q = Inl f) \<and> snd (snd s') = snd (snd s)
     \<or> (\<exists>res xml n. td_resolver (fst s) = Some res \<and> journal_entry_to_tally_xml_body env (tf_company_name (td_config (fst s))) res e = Inr xml
          \<and> 0 < n \<and> n \<le> Suc (tf_max_retries (td_config (fst s))) \<and> snd (snd s') = snd (snd s) @ replicate n xml)"

interpretation tally_books: accounting_provider "tally_post env gw raw" "tally_did env" for env gw raw
proof
  fix e0 e q and s s' :: "tally_driver \<times> 'a \<times> string list"
  assume "tally_post env gw raw e s = (q, s')"
  then obtain d w d' w' where s: "s = (d, w)" "s' = (d', w')" and run: "post_journal env (logged gw) raw e d w = (q, d', w')"
    by (cases s; cases s') (auto simp: tally_post_def split: prod.splits)
  from post_voucher_cases [OF run [unfolded post_journal_def]] show "tally_did env e s q s'"
  proof (elim disjE exE conjE)
    fix xml rs assume b: "bind_res (require_resolver d) (\<lambda>res. journal_entry_to_tally_xml_body env (tf_company_name (td_config d)) res e) = Inr xml"
      and v: "voucher_sent d (logged gw) xml w rs w'"
    have "snd w' = snd w @ replicate (length rs) xml" using v sends_logged [of gw xml "length rs" w] by (auto simp: voucher_sent_def)
    moreover obtain res where "td_resolver d = Some res" "journal_entry_to_tally_xml_body env (tf_company_name (td_config d)) res e = Inr xml"
      using b by (auto simp: res_simps require_resolver_def split: option.splits)
    ultimately show ?thesis using v unfolding tally_did_def s by (intro disjI2 exI [of _ res] exI [of _ xml] exI [of _ "length rs"]) (auto simp: voucher_sent_def)
  qed (simp add: tally_did_def s)
qed

text \<open>
  A line of the input as it stands: an account, exactly one of the two amounts, and its decimal value; and the line of the voucher that it should
  become, on the ledger of the account, negative on the debit side.
\<close>

definition stated :: "json \<Rightarrow> string \<times> bool \<times> decimal \<Rightarrow> bool" where
  "stated v x \<longleftrightarrow> (case x of (account, debit, d) \<Rightarrow> \<exists>l a t. v = JObj l \<and> map_of l ''account_id'' = Some (JStr a) \<and> account = py_strip a
     \<and> get_item l (if debit then ''debit_amount'' else ''credit_amount'') = Some t \<and> get_item l (if debit then ''credit_amount'' else ''debit_amount'') = None
     \<and> decimal_of_text (py_str t) = Dt_value (Num d))"

definition voucher_line :: "name_resolver \<Rightarrow> string \<times> bool \<times> decimal \<Rightarrow> string \<times> bool \<times> rat \<Rightarrow> bool" where
  "voucher_line resolver x p \<longleftrightarrow> (case (x, p) of ((account, debit, d), (name, yes, a)) \<Rightarrow>
     resolver account = Some name \<and> yes = debit \<and> a = (if debit then - dval d else dval d))"

lemma input_money_amount: "input_money c t = Inr m \<Longrightarrow> decimal_of_text (py_str t) = Dt_value (Num d) \<Longrightarrow> m_amount m = d"
  by (auto simp: input_money_def model_def money_of_def res_simps split: sum.splits)

definition line_states :: "journal_line \<Rightarrow> string \<times> bool \<times> decimal \<Rightarrow> bool" where
  "line_states jl x \<longleftrightarrow> (case x of (account, debit, d) \<Rightarrow> jl_account_id jl = account \<and> one_sided jl \<and> (jl_debit jl \<noteq> None) = debit
     \<and> (\<exists>m. line_money jl = Some m \<and> m_amount m = d))"

lemma input_line_states:
  assumes "input_line l = Inr (Some jl)" "stated (JObj l) x"
  shows "line_states jl x"
proof -
  obtain account debit d where x: "x = (account, debit, d)" by (cases x)
  obtain a t where l: "map_of l ''account_id'' = Some (JStr a)" "account = py_strip a" "decimal_of_text (py_str t) = Dt_value (Num d)"
    "get_item l (if debit then ''debit_amount'' else ''credit_amount'') = Some t" "get_item l (if debit then ''credit_amount'' else ''debit_amount'') = None"
    using assms(2) by (auto simp: stated_def x)
  have one: "journal_line_of jl0 = Inr jl' \<Longrightarrow> jl_account_id jl' = py_strip (jl_account_id jl0) \<and> jl_debit jl' = jl_debit jl0 \<and> jl_credit jl' = jl_credit jl0"
    for jl0 jl' by (auto simp: journal_line_of_def res_simps entity_id_of_def constrained_def Let_def split: if_splits)
  have ok: "model r = Inr y \<longleftrightarrow> r = Inr y" for r :: "canon_error + 'b" and y by (simp add: model_def split: sum.splits)
  show ?thesis
    using assms(1) l
    by (cases debit) (auto simp: input_line_def x line_states_def one_sided_def line_money_def res_simps text_item_def item_def opt_res_def ok Let_def
        dest!: one input_money_amount)
qed

lemma input_lines_states:
  assumes "list_all2 stated vs ls" "input_lines vs = Inr (Some jls)"
  shows "list_all2 line_states jls ls"
  using assms
proof (induction vs ls arbitrary: jls rule: list_all2_induct)
  case (Cons v vs x ls)
  obtain l where l: "v = JObj l" using Cons.hyps by (auto simp: stated_def)
  then obtain jl rest where "input_line l = Inr (Some jl)" "input_lines vs = Inr (Some rest)" "jls = jl # rest"
    using Cons.prems by (auto simp: res_simps split: option.splits)
  then show ?case using input_line_states Cons l by auto
qed simp

definition cents :: "(string \<times> bool \<times> decimal) list \<Rightarrow> bool" where
  "cents ls \<longleftrightarrow> (\<forall>(account, debit, d)\<in>set ls. dec_scaled 2 d \<and> 0 \<le> dval d) \<and> (\<Sum>(account, debit, d)\<leftarrow>ls. dval d) * 10 ^ 2 < 10 ^ 28"

lemma states_cents:
  assumes "list_all2 line_states jls ls" "cents ls"
  shows "list_all (line_scaled 2) jls" "(\<Sum>l\<leftarrow>jls. line_size l) = (\<Sum>(account, debit, d)\<leftarrow>ls. dval d)"
    "\<forall>l\<in>set jls. \<forall>m. line_money l = Some m \<longrightarrow> 0 \<le> dval (m_amount m)"
proof -
  have "list_all (line_scaled 2) jls \<and> (\<Sum>l\<leftarrow>jls. line_size l) = (\<Sum>(account, debit, d)\<leftarrow>ls. dval d)
      \<and> (\<forall>l\<in>set jls. \<forall>m. line_money l = Some m \<longrightarrow> 0 \<le> dval (m_amount m))"
    if "\<forall>(account, debit, d)\<in>set ls. dec_scaled 2 d \<and> 0 \<le> dval d"
    using assms(1) that
    by (induction rule: list_all2_induct) (auto simp: line_states_def line_scaled_def money_scaled_def line_size_def)
  then show "list_all (line_scaled 2) jls" "(\<Sum>l\<leftarrow>jls. line_size l) = (\<Sum>(account, debit, d)\<leftarrow>ls. dval d)"
    "\<forall>l\<in>set jls. \<forall>m. line_money l = Some m \<longrightarrow> 0 \<le> dval (m_amount m)"
    using assms(2) by (simp_all add: cents_def)
qed

lemma posts_voucher_line: "posts res jl p \<Longrightarrow> line_states jl x \<Longrightarrow> 0 \<le> dval (snd (snd x)) \<Longrightarrow> voucher_line res x p"
  by (auto simp: posts_def line_states_def voucher_line_def split: prod.splits)

text \<open>Claim C6. From the tool's input to the books, with the Tally driver behind the tool and lxml reading back what it wrote. Take an input whose lines each state an account
  and one amount, in non-negative hundredths. A call of the journal tool sends nothing, and then does not say that it posted; or it sends one and the same envelope, up to
  \<^verbatim>\<open>max_retries + 1\<close> times, and that is a voucher of the tenant's company with one line per line of the input, in order: on the ledger that the
  account resolves to, on the side that was stated, with exactly the amount stated. Its amounts add up to zero. When the tool says that it posted, it did send the voucher.
\<close>
theorem journal_tool_posts_balanced:
  assumes "th_tenant_registry h = None" "th_driver_registry h = Some reg" "dr_accounting reg = Some drv" "ac_post_journal drv = tally_post env gw raw"
    and "map_of inp ''entry'' = Some (JObj entry)" "get_list entry ''lines'' = Inr lines" "list_all2 stated lines ls" "cents ls"
    and "post_journal_entry h inp ctx w = (r, w')" "tw_remote w = (d, s, got)" "tw_remote w' = (d', s', got')"
    and "\<forall>x. \<forall>xml\<in>set got'. ty_tostring env x = xml \<longrightarrow> ty_fromstring env xml = Inr (Some x)"
  shows "\<exists>n xml. got' = got @ replicate n xml \<and> n \<le> Suc (tf_max_retries (td_config d)) \<and> (says_posted r \<longrightarrow> 0 < n)
     \<and> (n = 0 \<or> (\<exists>x v resolver. ty_fromstring env xml = Inr (Some x) \<and> read_voucher x = Some v \<and> vo_company v = tf_company_name (td_config d)
          \<and> td_resolver d = Some resolver \<and> list_all2 (voucher_line resolver) ls (vo_lines v) \<and> (\<Sum>(name, yes, a)\<leftarrow>vo_lines v. a) = 0))"
proof -
  have none: ?thesis if "got' = got" "\<not> says_posted r" using that by (intro exI [of _ 0]) simp
  from tally_books.tool_posts [OF assms(1-4,9)] show ?thesis
  proof (elim disjE conjE exE)
    assume "tw_remote w' = tw_remote w" "\<not> says_posted r"
    then show ?thesis using none assms(10,11) by simp
  next
    fix jls e0 e q
    assume j: "entry_lines inp = Inr (Some jls)" "journal_entry_of e0 = Inr e" "je_lines e = jls"
      and did: "tally_did env e (tw_remote w) q (tw_remote w')" and says: "says_posted r = (\<exists>i. q = Inr i)"
    have st: "list_all2 line_states jls ls"
      using j(1) assms(5,6) by (auto simp: entry_lines_def item_def intro: input_lines_states [OF assms(7)])
    note c = states_cents [OF st assms(8)]
    from did [unfolded tally_did_def assms(10,11)] show ?thesis
    proof (elim disjE conjE exE)
      fix f assume "q = Inl f" "snd (snd (d', s', got')) = snd (snd (d, s, got))"
      then show ?thesis using none says by simp
    next
      fix res xml n
      assume sent: "td_resolver (fst (d, s, got)) = Some res" "0 < n" "n \<le> Suc (tf_max_retries (td_config (fst (d, s, got))))"
        "snd (snd (d', s', got')) = snd (snd (d, s, got)) @ replicate n xml"
        and built: "journal_entry_to_tally_xml_body env (tf_company_name (td_config (fst (d, s, got)))) res e = Inr xml"
      have "xml \<in> set got'" using sent(2,4) by simp
      with assms(12) have lxml: "ty_tostring env x = xml \<Longrightarrow> ty_fromstring env xml = Inr (Some x)" for x by blast
      obtain x v where v: "ty_fromstring env xml = Inr (Some x)" "read_voucher x = Some v" "vo_company v = tf_company_name (td_config d)"
        "list_all2 (posts res) jls (vo_lines v)" "(\<Sum>(name, yes, a)\<leftarrow>vo_lines v. a) = 0"
        using voucher_faithful [OF lxml built j(2)] c assms(8) by (auto simp: j(3) cents_def)
      have nn: "0 \<le> dval (snd (snd y))" if "y \<in> set ls" for y using assms(8) that by (auto simp: cents_def)
      have "voucher_line res (ls ! i) (vo_lines v ! i)" if "i < length ls" for i
        by (rule posts_voucher_line [OF _ _ nn]) (use st v(4) that in \<open>auto simp: list_all2_conv_all_nth\<close>)
      then have "list_all2 (voucher_line res) ls (vo_lines v)" using st v(4) by (simp add: list_all2_conv_all_nth)
      then show ?thesis using sent v by (intro exI [of _ n] exI [of _ xml]) auto
    qed
  qed
qed

section \<open>A small agency\<close>

text \<open>lxml, which writes the document of the sample entry as a mark of its own and reads it back, and reads any answer of the gateway as an acknowledgement.\<close>

definition demo_books :: tally_env where
  "demo_books = demo_lxml\<lparr>ty_fromstring := (\<lambda>s. Inr (Some (if s = ''<d/>'' then demo_document else node ''R'' [leaf ''CREATED'' ''1'', leaf ''LASTVCHID'' ''42''])))\<rparr>"

definition demo_accounting :: "(tally_driver \<times> nat \<times> string list) accounting_driver" where
  "demo_accounting = \<lparr>ac_list_accounts = (\<lambda>s. (Inr [], s)), ac_post_journal = tally_post demo_books demo_gateway 7,
     ac_create_invoice = (\<lambda>i s. (Inr (in_id i), s)), ac_read_account_balance = (\<lambda>a d s. (Inl (Raw_failure ''ValueError''), s))\<rparr>"

definition demo_registry :: "(tally_driver \<times> nat \<times> string list) driver_registry" where
  "demo_registry = \<lparr>dr_fare_search = None, dr_pnr = None, dr_accounting = Some demo_accounting, dr_bsp = None, dr_hotel_search = None, dr_hotel_booking = None\<rparr>"

definition demo_host :: "(tally_driver \<times> nat \<times> string list) host" where
  "demo_host = \<lparr>th_tenant_registry = None, th_driver_registry = Some demo_registry, th_validation_text = (\<lambda>e. []), th_raw_text = (\<lambda>c. c),
     th_database_text = [], th_read_invoice = (\<lambda>d. Inl [])\<rparr>"

definition demo_world :: "(tally_driver \<times> nat \<times> string list) tool_world" where
  "demo_world = \<lparr>tw_remote = (demo_tally, 0, []), tw_reports = [], tw_tickets = [], tw_tenants = [the (uuid_parse sample_tenant)], tw_invoices = [],
     tw_now = 0, tw_uuids = (\<lambda>n. sample_uuid), tw_drawn = 0\<rparr>"

definition demo_tool_ctx :: tool_context where
  "demo_tool_ctx = \<lparr>ctx_tenant_id = sample_tenant, ctx_actor_id = sample_tenant, ctx_actor_kind = HUMAN, ctx_session_id = sample_tenant,
     ctx_turn_id = ''t-1'', ctx_actor_role = ''agency_admin'', ctx_approvals = [], ctx_last_output_validation_error = None\<rparr>"

definition demo_tools :: "(audit_event list, (tally_driver \<times> nat \<times> string list) tool_world) tool_env" where
  "demo_tools = \<lparr>te_registry = module_registry demo_host, te_validate = (\<lambda>s d. None), te_summary_fns = module_summaries, te_write = mem_write\<rparr>"

definition demo_draft :: obj where
  "demo_draft = [(''customer_name'', JStr ''Ann''), (''issue_date'', JStr ''2024-04-01''), (''due_date'', JStr ''2024-05-01''),
     (''line_items'', JList [JObj [(''description'', JStr ''Fee''), (''quantity'', JInt 2), (''unit_price'', JStr ''12.50''), (''currency'', JStr ''INR'')]])]"

lemma demo_tenant: "uuid_parse sample_tenant = Some (the (uuid_parse sample_tenant))"
proof -
  have "length (filter (\<lambda>c. c \<noteq> CHR ''-'') (strip_chars {CHR ''{'', CHR ''}''} (remove_sub ''uuid:'' (remove_sub ''urn:'' sample_tenant)))) = 32"
    "py_int16 (filter (\<lambda>c. c \<noteq> CHR ''-'') (strip_chars {CHR ''{'', CHR ''}''} (remove_sub ''uuid:'' (remove_sub ''urn:'' sample_tenant)))) \<noteq> None"
    by code_simp+
  then show ?thesis by (auto simp: uuid_parse_def Let_def)
qed

lemma demo_items:
  "get_list demo_draft ''line_items'' = Inr [JObj [(''description'', JStr ''Fee''), (''quantity'', JInt 2), (''unit_price'', JStr ''12.50''), (''currency'', JStr ''INR'')]]"
  by (simp add: get_list_def get_true_def demo_draft_def)

lemma demo_price: "decimal_of_text ''12.50'' = Dt_value (Num (Dec 1250 (- 2)))"
  by code_simp

lemma demo_added: "add_items (Num (Dec 0 (- 2))) [JObj [(''description'', JStr ''Fee''), (''quantity'', JInt 2), (''unit_price'', JStr ''12.50''), (''currency'', JStr ''INR'')]]
    = Inr (Num (Dec 2500 (- 2)))"
proof -
  have m: "dec_mul (dec_of_int 2) (Dec 1250 (- 2)) = Dec 2500 (- 2)" by (simp add: dec_mul_def dec_of_int_def)
  have a: "dec_add (Dec 0 (- 2)) (Dec 2500 (- 2)) = Dec 2500 (- 2)" by (simp add: dec_add_def dec_aligned_def)
  have q: "dec_quantize (Dec 2500 (- 2)) (- 2) = Some (Dec 2500 (- 2))" by (simp add: dec_quantize_def dec_prec_def ndigits.simps)
  show ?thesis by (simp add: add_item_def item_def demo_price m a q)
qed

lemma demo_number: "next_number sample_tenant t [] = ''INV-01890A5D-0001''"
  by code_simp

lemma demo_racing:
  "\<exists>row. vr_number row = ''INV-01890A5D-0001'' \<and> vr_total_amount row = Num (Dec 2500 (- 2)) \<and>
     ((\<exists>w'. draft_invoice_racing others demo_host demo_draft demo_tool_ctx demo_world = (Inr (drafted row), w') \<and> tw_invoices w' = others @ [row])
      \<or> others \<noteq> [] \<and> (\<exists>detail w'. draft_invoice_racing others demo_host demo_draft demo_tool_ctx demo_world
          = (Inr (draft_failed ''invoice_number_conflict'' detail), w')))"
proof -
  have cur: "py_upper ''INR'' = ''INR''" by code_simp
  have ds: "date_fromisoformat ''2024-04-01'' = Inr (Date 2024 4 1)" "date_fromisoformat ''2024-05-01'' = Inr (Date 2024 5 1)" by code_simp+
  have d: "distinct_currencies [JObj [(''description'', JStr ''Fee''), (''quantity'', JInt 2), (''unit_price'', JStr ''12.50''), (''currency'', JStr ''INR'')]] = Inr [''INR'']"
    by (simp add: distinct_currencies_def item_currency_def item_def cur)
  have items: "text_item demo_draft ''issue_date'' = Inr ''2024-04-01''" "text_item demo_draft ''due_date'' = Inr ''2024-05-01''"
    "item demo_draft ''customer_name'' = Inr (JStr ''Ann'')" "get_text demo_draft ''party_reference'' = Inr None" "get_true_text demo_draft ''number'' = Inr None"
    by (simp_all add: text_item_def item_def demo_draft_def get_text_def get_item_def get_true_text_def get_true_def)
  define t where "t = the (uuid_parse sample_tenant)"
  have t: "uuid_parse sample_tenant = Some t" "ctx_tenant_id demo_tool_ctx = sample_tenant"
    using demo_tenant by (simp_all add: demo_tool_ctx_def t_def)
  have w: "tw_invoices demo_world = []" "tw_tenants demo_world = [t]" by (simp_all add: demo_world_def t_def)
  have step: "draft_invoice_racing others demo_host demo_draft demo_tool_ctx demo_world
      = draft_row others demo_host demo_draft t ''INV-01890A5D-0001'' (Date 2024 4 1) (Date 2024 5 1) (Num (Dec 2500 (- 2))) ''INR'' demo_world"
    by (simp add: draft_invoice_racing_def demo_items d demo_added items ds act_bind_def act_lift_def act_some_def act_read_def t w demo_number del: add_items.simps)
  define row where "row = \<lparr>vr_id = tw_uuids demo_world (tw_drawn demo_world), vr_tenant_id = t, vr_number = ''INV-01890A5D-0001'', vr_party_name = ''Ann'',
     vr_party_reference = None, vr_issue_date = Date 2024 4 1, vr_due_date = Date 2024 5 1, vr_total_amount = Num (Dec 2500 (- 2)), vr_currency = ''INR'',
     vr_amount_paid = Dec 0 (- 2), vr_status = DocDraft\<rparr>"
  have fits: "row_fits row" by (simp add: row_def row_fits_def text_fits_def dval_Dec power_int_minus)
  let ?w = "committed others (demo_world\<lparr>tw_drawn := Suc (tw_drawn demo_world)\<rparr>)"
  have "draft_invoice_racing others demo_host demo_draft demo_tool_ctx demo_world = insert_invoice demo_host row ?w"
    unfolding step by (simp add: draft_row_def items act_bind_def act_lift_def draw_uuid_def act_update_def row_def)
  moreover have "tw_invoices ?w = others" "tw_tenants ?w = [t]" by (simp_all add: committed_def w)
  moreover have "vr_tenant_id row = t" "vr_number row = ''INV-01890A5D-0001''" "vr_total_amount row = Num (Dec 2500 (- 2))" by (simp_all add: row_def)
  ultimately show ?thesis using fits by (intro exI [of _ row]) (auto simp: insert_invoice_def row_allowed_def)
qed

lemma demo_drafted:
  "\<exists>row w'. draft_invoice demo_host demo_draft demo_tool_ctx demo_world = (Inr (drafted row), w') \<and> tw_invoices w' = [row]
     \<and> vr_number row = ''INV-01890A5D-0001'' \<and> vr_total_amount row = Num (Dec 2500 (- 2))"
  using demo_racing [of "[]"] by (auto simp: draft_invoice_def)

theorem draft_invoice_effect_witness:
  "\<exists>row w' d. draft_invoice demo_host demo_draft demo_tool_ctx demo_world = (Inr (drafted row), w')
     \<and> vr_total_amount row = Num d \<and> dval d = 25 \<and> vr_number row = ''INV-01890A5D-0001''"
proof -
  obtain row w' where r: "draft_invoice demo_host demo_draft demo_tool_ctx demo_world = (Inr (drafted row), w')" "tw_invoices w' = [row]"
    "vr_number row = ''INV-01890A5D-0001''" "vr_total_amount row = Num (Dec 2500 (- 2))"
    using demo_drafted by blast
  have p: "list_all2 priced [JObj [(''description'', JStr ''Fee''), (''quantity'', JInt 2), (''unit_price'', JStr ''12.50''), (''currency'', JStr ''INR'')]] [(2, Dec 1250 (- 2))]"
    by (simp add: priced_def demo_price dec_scaled_def)
  have s: "(\<Sum>p\<leftarrow>[(2, Dec 1250 (- 2))]. \<bar>price_of p\<bar>) * 10 ^ 2 < 10 ^ 28" "(\<Sum>p\<leftarrow>[(2, Dec 1250 (- 2))]. price_of p) = 25"
    by (simp_all add: price_of_def dval_Dec power_int_minus)
  have nd: "\<not> not_drafted demo_world (Inr (drafted row)) w'" using r(2) by (simp add: not_drafted_def demo_world_def)
  from draft_invoice_effect [OF r(1)] nd obtain t n amount d where "drafts demo_world t n amount (Inr (drafted row)) w'" "amount = Num d" "dval d = 25"
    using p s demo_items by fastforce
  then have "vr_total_amount row = Num d \<and> dval d = 25" using r(2) by (auto simp: drafts_def demo_world_def)
  then show ?thesis using r(1,3) by blast
qed

text \<open>The draft of before, alone, and with another transaction that takes its number.\<close>

definition rival :: invoice_row where
  "rival = \<lparr>vr_id = 5, vr_tenant_id = the (uuid_parse sample_tenant), vr_number = ''INV-01890A5D-0001'', vr_party_name = ''Bob'', vr_party_reference = None,
     vr_issue_date = Date 2024 4 1, vr_due_date = Date 2024 5 1, vr_total_amount = Num (Dec 0 0), vr_currency = ''INR'', vr_amount_paid = Dec 0 0,
     vr_status = DocDraft\<rparr>"

theorem automatic_number_conflicts_witness:
  "(\<exists>out w'. draft_invoice_racing [] demo_host demo_draft demo_tool_ctx demo_world = (Inr out, w')
      \<and> map_of out ''number'' = Some (JStr ''INV-01890A5D-0001''))
   \<and> (\<exists>out w'. draft_invoice_racing [rival] demo_host demo_draft demo_tool_ctx demo_world = (Inr out, w')
      \<and> map_of out ''error_code'' = Some (JStr ''invoice_number_conflict''))"
proof -
  let ?t = "the (uuid_parse sample_tenant)"
  have n: "get_true_text demo_draft ''number'' = Inr None" by (simp add: get_true_text_def get_true_def demo_draft_def)
  have t: "entity_id_ok (ctx_tenant_id demo_tool_ctx)" by code_simp
  have p: "uuid_parse (ctx_tenant_id demo_tool_ctx) = Some ?t" using demo_tenant by (simp add: demo_tool_ctx_def)
  have w: "?t \<in> set (tw_tenants demo_world)" "tw_invoices demo_world = []" by (simp_all add: demo_world_def)
  have num: "next_number (ctx_tenant_id demo_tool_ctx) ?t (tw_invoices demo_world) = ''INV-01890A5D-0001''"
    by (simp add: w demo_number demo_tool_ctx_def)
  have run: "\<exists>out w'. draft_invoice_racing others demo_host demo_draft demo_tool_ctx demo_world = (Inr out, w')
      \<and> map_of out ''error_code'' \<notin> {Some (JStr ''mixed_currency''), Some (JStr ''invalid_date'')}" for others
    using demo_racing [of others] by (auto simp: drafted_def draft_failed_def)
  have alone: "\<exists>out w'. draft_invoice_racing [] demo_host demo_draft demo_tool_ctx demo_world = (Inr out, w') \<and> map_of out ''number'' = Some (JStr ''INV-01890A5D-0001'')"
    using run [of "[]"] automatic_number_conflicts [OF _ n t p w(1), of "[]"] by (fastforce simp: num drafted_def)
  have "vr_tenant_id rival = ?t" "vr_number rival = ''INV-01890A5D-0001''" by (simp_all add: rival_def)
  then have "\<exists>out w'. draft_invoice_racing [rival] demo_host demo_draft demo_tool_ctx demo_world = (Inr out, w')
      \<and> map_of out ''error_code'' = Some (JStr ''invoice_number_conflict'')"
    using run [of "[rival]"] automatic_number_conflicts [OF _ n t p w(1), of "[rival]"] by (fastforce simp: num)
  with alone show ?thesis by blast
qed

theorem catalogue_side_effects_gated_witness:
  "\<exists>out ctx' sink' w'. invoke_tool demo_tools ''a1'' 1 2 3 ''issue_ticket'' [(''pnr_id'', JStr ''p'')] demo_tool_ctx [] demo_world = (out, ctx', sink', w')
     \<and> w' = demo_world \<and> oc_kind out \<noteq> Success"
proof -
  obtain out ctx' sink' w' where run: "invoke_tool demo_tools ''a1'' 1 2 3 ''issue_ticket'' [(''pnr_id'', JStr ''p'')] demo_tool_ctx [] demo_world = (out, ctx', sink', w')"
    by (metis prod_cases4)
  have reg: "register_all (handlers demo_host) [] = Inr (te_registry demo_tools)" by (simp add: module_registers demo_tools_def)
  have n: "ts_name issue_ticket_spec = ''issue_ticket''" by (simp add: spec_defs)
  have e: "map_of (te_registry demo_tools) ''issue_ticket'' = Some \<lparr>tool_spec = issue_ticket_spec, tool_handler = as_handler demo_host (issue_ticket demo_host)\<rparr>"
    using module_lookup [of issue_ticket_spec "as_handler demo_host (issue_ticket demo_host)" demo_host] by (simp add: handlers_def n demo_tools_def)
  have "ts_side_effect issue_ticket_spec" by (simp add: spec_defs)
  then have "w' = demo_world \<and> oc_kind out \<noteq> Success"
    using catalogue_side_effects_gated [OF reg e _ run] by (simp add: demo_tool_ctx_def)
  with run show ?thesis by blast
qed

theorem accounting_writes_always_denied_witness:
  "\<exists>out sink'. invoke_tool demo_tools ''a1'' 1 2 3 ''draft_invoice'' demo_draft demo_tool_ctx [] demo_world = (out, demo_tool_ctx, sink', demo_world)
     \<and> oc_kind out = PermissionDenied"
  by (rule accounting_writes_always_denied [of demo_host _ _ _ _ AGENCY_ADMIN]) (simp_all add: module_registers demo_tools_def demo_tool_ctx_def)

text \<open>An entry of three lines. The gateway is too slow for the first envelope and acknowledges the second.\<close>

definition demo_side :: "string \<Rightarrow> string \<Rightarrow> json" where
  "demo_side side amount = JObj [(''account_id'', JStr sample_tenant), (''currency'', JStr ''inr''), (side, JStr amount)]"

definition demo_sides :: "json list" where
  "demo_sides = [demo_side ''debit_amount'' ''118.00'', demo_side ''credit_amount'' ''100.00'', demo_side ''credit_amount'' ''18.00'']"

definition demo_journal :: obj where
  "demo_journal = [(''entry'', JObj [(''narration'', JStr ''sale''), (''entry_date'', JStr ''2024-03-01''), (''lines'', JList demo_sides)])]"

lemma demo_decimals: "decimal_of_text ''118.00'' = Dt_value (Num (Dec 11800 (- 2)))" "decimal_of_text ''100.00'' = Dt_value (Num (Dec 10000 (- 2)))"
  "decimal_of_text ''18.00'' = Dt_value (Num (Dec 1800 (- 2)))"
proof -
  have t: "py_strip ''118.00'' = ''118.00''" "py_strip ''100.00'' = ''100.00''" "py_strip ''18.00'' = ''18.00''"
    "\<not> special_word (py_upper ''118.00'')" "\<not> special_word (py_upper ''100.00'')" "\<not> special_word (py_upper ''18.00'')"
    "split_sign ''118.00'' = (False, ''118.00'')" "split_sign ''100.00'' = (False, ''100.00'')" "split_sign ''18.00'' = (False, ''18.00'')"
    "decimal_exponent '''' = Some 0"
    by code_simp+
  have d: "digits_val ''11800'' = 11800" "digits_val ''10000'' = 10000" "digits_val ''1800'' = 1800" by (simp_all add: digits_val_def digit_val_def)
  show "decimal_of_text ''118.00'' = Dt_value (Num (Dec 11800 (- 2)))" "decimal_of_text ''100.00'' = Dt_value (Num (Dec 10000 (- 2)))"
  "decimal_of_text ''18.00'' = Dt_value (Num (Dec 1800 (- 2)))" by (simp_all add: decimal_of_text_def decimal_literal_of_def t d is_decimal_char_def)
qed

lemma demo_entry_lines: "input_lines demo_sides = Inr (Some (je_lines sample_entry))"
proof -
  have c: "py_upper ''inr'' = ''INR''" "constrained currency_code_ok ''currency'' ''INR'' = Inr ''INR''" "entity_id_ok sample_tenant" "py_strip sample_tenant = sample_tenant"
    by code_simp+
  show ?thesis
    by (simp add: demo_sides_def demo_side_def input_line_def item_def c get_item_def text_item_def opt_res_def input_money_def demo_decimals money_of_def
        model_def get_text_def journal_line_of_def entity_id_of_def constrained_def [of entity_id_ok] Let_def sample_entry_lines sample_line_def)
      (simp add: sample_tenant_def)
qed

lemma demo_posts: "\<exists>i. post_journal_entry demo_host demo_journal demo_tool_ctx demo_world = (Inr [(''posted'', JBool True), (''journal_id'', JStr i)],
    demo_world\<lparr>tw_drawn := 1, tw_remote := (demo_tally\<lparr>td_recent_voucher_ids := [(i, ''42'')]\<rparr>, 2, [''<d/>'', ''<d/>''])\<rparr>)"
proof -
  have acct: "accounting_driver demo_host demo_tool_ctx demo_world = (Inr demo_accounting, demo_world)"
    by (simp add: accounting_driver_def resolve_registry_def registered_def demo_host_def demo_registry_def act_bind_def act_return_def act_some_def)
  have items: "item demo_journal ''entry'' = Inr (JObj [(''narration'', JStr ''sale''), (''entry_date'', JStr ''2024-03-01''), (''lines'', JList demo_sides)])"
    "get_list [(''narration'', JStr ''sale''), (''entry_date'', JStr ''2024-03-01''), (''lines'', JList demo_sides)] ''lines'' = Inr demo_sides"
    "get_true_text [(''narration'', JStr ''sale''), (''entry_date'', JStr ''2024-03-01''), (''lines'', JList demo_sides)] ''entry_date'' = Inr (Some ''2024-03-01'')"
    "get_true [(''narration'', JStr ''sale''), (''entry_date'', JStr ''2024-03-01''), (''lines'', JList demo_sides)] ''source_event'' = None"
    by (simp_all add: item_def demo_journal_def get_list_def get_true_def get_true_text_def demo_sides_def)
  have date: "date_of_text ''2024-03-01'' = Inr (Date 2024 3 1)" by code_simp
  have ids: "entity_id_ok (uuid7_like sample_uuid)" "py_strip (uuid7_like sample_uuid) = uuid7_like sample_uuid" "entity_id_ok sample_tenant" "py_strip sample_tenant = sample_tenant"
    "py_strip ''manual.journal'' = ''manual.journal''"
  proof -
    show ok: "entity_id_ok (uuid7_like sample_uuid)" by (rule uuid7_like_ok [OF sample_uuid4])
    show "py_strip (uuid7_like sample_uuid) = uuid7_like sample_uuid" unfolding uuid7_like_def
      by (rule py_strip_no_space) (auto simp: list_all_iff dest: uuid_str_not_space)
  qed code_simp+
  have bal: "balanced_per_currency (je_lines sample_entry) = Inr ()"
    by (simp add: balanced_per_currency_def sample_entry_lines sample_line_def line_money_def line_sign_def dict_get_or_def dec_mul_def
        dec_add_def dec_aligned_def dec_of_int_def dec_is_zero_def Let_def)
  define e where "e = \<lparr>je_id = uuid7_like sample_uuid, je_tenant_id = sample_tenant, je_entry_date = Date 2024 3 1, je_narration = localized ''sale'',
      je_lines = je_lines sample_entry, je_source_event = ''manual.journal'', je_source_ref = None\<rparr>"
  have acc: "journal_entry_of e = Inr e"
    by (simp add: journal_entry_of_def entity_id_of_def constrained_def ids opt_res_def Let_def e_def bal) (simp add: sample_entry_lines)
  have built: "journal_entry_to_tally_xml_body demo_books ''Acme'' (\<lambda>i. Some ''Cash'') e = Inr ''<d/>''"
    using demo_built by (simp add: journal_entry_to_tally_xml_body_def build_post_journal_voucher_def import_envelope_def serialize_def demo_books_def e_def)
      (simp add: sample_entry_def)
  have ack: "parse_voucher_create_response demo_books ''<R/>'' = Inr \<lparr>tv_created = 1, tv_altered = 0, tv_last_vch_id = Some ''42''\<rparr>"
  proof -
    have "\<not> list_all ascii_space ''<R/>''" by code_simp
    then have "parse_xml demo_books ''<R/>'' c = parse_xml demo_xml_env ''<R/>'' c" for c
      by (simp only: parse_xml_def if_False) (simp add: demo_books_def demo_xml_env_def)
    then show ?thesis using demo_ack by (simp only: parse_voucher_create_response_def)
  qed
  have posted: "tally_post demo_books demo_gateway 7 e (demo_tally, 0, [])
      = (Inr (tally_entity_id 7), (demo_tally\<lparr>td_recent_voucher_ids := [(tally_entity_id 7, ''42'')]\<rparr>, 2, [''<d/>'', ''<d/>'']))"
    by (simp add: tally_post_def post_journal_def post_voucher_def require_resolver_def demo_tally_def built post_envelope_def remember_def
        post_with_retries.simps demo_gateway_def logged_def should_retry_def ack Let_def)
  have fin: "act_bind (call_driver (ac_post_journal demo_accounting e)) (\<lambda>ident. act_return [(''posted'', JBool True), (''journal_id'', JStr ident)])
      (demo_world\<lparr>tw_drawn := 1\<rparr>) = (Inr [(''posted'', JBool True), (''journal_id'', JStr (tally_entity_id 7))],
         demo_world\<lparr>tw_drawn := 1, tw_remote := (demo_tally\<lparr>td_recent_voucher_ids := [(tally_entity_id 7, ''42'')]\<rparr>, 2, [''<d/>'', ''<d/>''])\<rparr>)"
    by (simp add: act_bind_def call_driver_def remotely_def act_map_err_def demo_accounting_def demo_world_def posted act_return_def)
  have e: "act_lift (bind_res (item demo_journal ''entry'') as_obj) demo_world
        = (Inr [(''narration'', JStr ''sale''), (''entry_date'', JStr ''2024-03-01''), (''lines'', JList demo_sides)], demo_world)"
    "act_lift (bind_res (get_list [(''narration'', JStr ''sale''), (''entry_date'', JStr ''2024-03-01''), (''lines'', JList demo_sides)] ''lines'') input_lines) demo_world
        = (Inr (Some (je_lines sample_entry)), demo_world)"
    "act_read tw_now demo_world = (Inr 0, demo_world)"
    "act_lift (bind_res (get_true_text [(''narration'', JStr ''sale''), (''entry_date'', JStr ''2024-03-01''), (''lines'', JList demo_sides)] ''entry_date'')
        (\<lambda>t. case t of None \<Rightarrow> Inr (utc_date 0) | Some s \<Rightarrow> date_of_text s)) demo_world = (Inr (Date 2024 3 1), demo_world)"
    "draw_uuid demo_world = (Inr sample_uuid, demo_world\<lparr>tw_drawn := 1\<rparr>)"
    by (simp_all add: act_lift_def items demo_entry_lines act_read_def date draw_uuid_def) (simp_all add: demo_world_def)
  have "post_journal_entry demo_host demo_journal demo_tool_ctx demo_world
      = act_bind (call_driver (ac_post_journal demo_accounting e)) (\<lambda>ident. act_return [(''posted'', JBool True), (''journal_id'', JStr ident)]) (demo_world\<lparr>tw_drawn := 1\<rparr>)"
    unfolding post_journal_entry_def act_bind_step(1) [of "accounting_driver _ _", OF acct] act_bind_step(1) [of "act_lift _", OF e(1)]
      act_bind_step(1) [of "act_lift _", OF e(2)] option.case act_bind_step(1) [of "act_read _", OF e(3)] act_bind_step(1) [of "act_lift _", OF e(4)]
      act_bind_step(1) [of draw_uuid, OF e(5)]
    using acc by (simp add: items(4) demo_tool_ctx_def e_def)
  with fin show ?thesis by auto
qed

theorem journal_tool_posts_balanced_witness:
  "\<exists>r w' v. post_journal_entry demo_host demo_journal demo_tool_ctx demo_world = (r, w') \<and> says_posted r
     \<and> snd (snd (tw_remote w')) = [''<d/>'', ''<d/>''] \<and> read_voucher demo_document = Some v
     \<and> list_all2 (voucher_line (\<lambda>i. Some ''Cash'')) [(sample_tenant, True, Dec 11800 (- 2)), (sample_tenant, False, Dec 10000 (- 2)), (sample_tenant, False, Dec 1800 (- 2))] (vo_lines v)
     \<and> (\<Sum>(name, yes, a)\<leftarrow>vo_lines v. a) = 0"
proof -
  let ?ls = "[(sample_tenant, True, Dec 11800 (- 2)), (sample_tenant, False, Dec 10000 (- 2)), (sample_tenant, False, Dec 1800 (- 2))]"
  obtain r w' d' s' where run: "post_journal_entry demo_host demo_journal demo_tool_ctx demo_world = (r, w')" "says_posted r"
    and after: "tw_remote w' = (d', s', [''<d/>'', ''<d/>''])"
    using demo_posts by (auto simp: says_posted_def)
  have before: "tw_remote demo_world = (demo_tally, 0, [])" by (simp add: demo_world_def)
  have st: "py_strip sample_tenant = sample_tenant" by code_simp
  have stated: "list_all2 stated demo_sides ?ls"
    by (simp add: demo_sides_def demo_side_def stated_def get_item_def demo_decimals st)
  have cents: "cents ?ls" by (simp add: cents_def dec_scaled_def dval_Dec power_int_minus)
  have lx: "\<forall>x. \<forall>xml\<in>set [''<d/>'', ''<d/>'']. ty_tostring demo_books x = xml \<longrightarrow> ty_fromstring demo_books xml = Inr (Some x)"
    by (simp add: demo_books_def demo_lxml_def split: if_splits)
  have h: "th_tenant_registry demo_host = None" "th_driver_registry demo_host = Some demo_registry" "dr_accounting demo_registry = Some demo_accounting"
    "ac_post_journal demo_accounting = tally_post demo_books demo_gateway 7"
    by (simp_all add: demo_host_def demo_registry_def demo_accounting_def)
  have inp: "map_of demo_journal ''entry'' = Some (JObj [(''narration'', JStr ''sale''), (''entry_date'', JStr ''2024-03-01''), (''lines'', JList demo_sides)])"
    "get_list [(''narration'', JStr ''sale''), (''entry_date'', JStr ''2024-03-01''), (''lines'', JList demo_sides)] ''lines'' = Inr demo_sides"
    by (simp_all add: demo_journal_def get_list_def get_true_def demo_sides_def)
  from journal_tool_posts_balanced [OF h inp stated cents run(1) before after lx] run(2)
  obtain n xml x v resolver where v: "[''<d/>'', ''<d/>''] = replicate n xml" "0 < n" "ty_fromstring demo_books xml = Inr (Some x)" "read_voucher x = Some v"
    "td_resolver demo_tally = Some resolver" "list_all2 (voucher_line resolver) ?ls (vo_lines v)" "(\<Sum>(name, yes, a)\<leftarrow>vo_lines v. a) = 0"
    by auto
  have "xml = ''<d/>''" using v(1,2) by (cases n) auto
  then have "x = demo_document" using v(3) by (simp add: demo_books_def)
  moreover have "resolver = (\<lambda>i. Some ''Cash'')" using v(5) by (simp add: demo_tally_def)
  ultimately show ?thesis using run after v by auto
qed

end
