(* ===== verification/Amadeus_Client.thy ===== *)
theory Amadeus_Client
  imports Tool_Handlers Caches
begin

text \<open>
  \<^verbatim>\<open>drivers/amadeus\<close>, up to the mapping: \<^verbatim>\<open>errors.py\<close> (vendor errors), \<^verbatim>\<open>auth.py\<close> (the bearer token and its
  cache) and \<^verbatim>\<open>client.py\<close> (requests with retries). The vendor is a function of the request and its own state. The
  decoding of bodies, which httpx does, is an argument. A \<^verbatim>\<open>None\<close> that a call returns is \<open>JNull\<close>. Readings of the two
  clocks and random draws are taken from streams, in order; waiting between attempts changes nothing.
\<close>

section \<open>State and environment\<close>

record amadeus_config =
  zc_api_base :: string
  zc_client_id :: string
  zc_client_secret :: string
  zc_timeout_text :: string
  zc_max_retries :: nat

record am_request =
  rq_method :: string
  rq_path :: string
  rq_params :: "(string, string) dict option"
  rq_body :: "json option"

record 'w amadeus_env =
  zv_token :: "string \<Rightarrow> (string, string) dict \<Rightarrow> 'w \<Rightarrow> http_reply \<times> 'w"
  zv_request :: "string \<Rightarrow> am_request \<Rightarrow> 'w \<Rightarrow> http_reply \<times> 'w"
  zv_json :: "string \<Rightarrow> json option"
  zv_text :: "string \<Rightarrow> string"

record 'w amadeus_world =
  aw_remote :: 'w
  aw_token :: "(string \<times> rat) option"
  aw_offers :: "obj offer_cache option"
  aw_monotonic :: "nat \<Rightarrow> rat"
  aw_ticks :: nat
  aw_wall :: "nat \<Rightarrow> int"
  aw_looks :: nat
  aw_uuids :: "nat \<Rightarrow> uuid_int"
  aw_drawn :: nat

type_synonym ('w, 'a) amadeus = "('w amadeus_world, 'a) call"

definition monotonic :: "('w, rat) amadeus" where
  "monotonic s = (Inr (aw_monotonic s (aw_ticks s)), s\<lparr>aw_ticks := Suc (aw_ticks s)\<rparr>)"

definition wall_clock :: "('w, int) amadeus" where
  "wall_clock s = (Inr (aw_wall s (aw_looks s)), s\<lparr>aw_looks := Suc (aw_looks s)\<rparr>)"

definition am_entity_id :: "('w, string) amadeus" where
  "am_entity_id s = (Inr (uuid7_like (aw_uuids s (aw_drawn s))), s\<lparr>aw_drawn := Suc (aw_drawn s)\<rparr>)"

definition exchange :: "('w \<Rightarrow> http_reply \<times> 'w) \<Rightarrow> ('w, http_reply) amadeus" where
  "exchange f s = (let (r, w) = f (aw_remote s) in (Inr r, s\<lparr>aw_remote := w\<rparr>))"

section \<open>Vendor errors\<close>

definition AMADEUS :: string where "AMADEUS = ''amadeus''"

definition am_error :: "driver_error_kind \<Rightarrow> string \<Rightarrow> failure" where
  "am_error k msg = Driver_failure (driver_error k AMADEUS msg)"

text \<open>\<^verbatim>\<open>float(raw)\<close> of a header; the special values are taken as unreadable.\<close>

definition parse_retry_after :: "http_response \<Rightarrow> rat option" where
  "parse_retry_after r = (case hr_retry_after r of None \<Rightarrow> None
     | Some raw \<Rightarrow> if raw = [] then None else (case decimal_literal_of raw of Finite d \<Rightarrow> Some (dval d) | _ \<Rightarrow> None))"

definition http_status_text :: "http_response \<Rightarrow> string" where
  "http_status_text r = ''HTTP '' @ show_nat (hr_status r)"

text \<open>\<^verbatim>\<open>str(a or b)\<close>, with the default for no value.\<close>

definition str_or :: "json option \<Rightarrow> string \<Rightarrow> string" where
  "str_or v dflt = (case v of Some j \<Rightarrow> py_str j | None \<Rightarrow> dflt)"

definition first_true :: "obj \<Rightarrow> string list \<Rightarrow> json option" where
  "first_true d ks = (case List.find (\<lambda>k. get_true d k \<noteq> None) ks of None \<Rightarrow> None | Some k \<Rightarrow> get_true d k)"

definition extract_error_fields :: "'w amadeus_env \<Rightarrow> http_response \<Rightarrow> string option \<times> string \<times> string" where
  "extract_error_fields env r =
     (case zv_json env (hr_content r) of
        None \<Rightarrow> (None, http_status_text r, take 500 (zv_text env (hr_content r)))
      | Some body \<Rightarrow>
          (case body of
             JObj d \<Rightarrow>
               (case map_of d ''errors'' of
                  Some (JList (e # es)) \<Rightarrow>
                    let first = (case e of JObj f \<Rightarrow> f | _ \<Rightarrow> [])
                    in (map_option py_str (get_item first ''code''), str_or (get_true first ''title'') (http_status_text r),
                        str_or (first_true first [''detail'', ''description'']) [])
                | _ \<Rightarrow>
                    (case map_of d ''error'' of
                       Some e \<Rightarrow> (Some (py_str e), str_or (get_true d ''error'') (http_status_text r), str_or (get_true d ''error_description'') [])
                     | None \<Rightarrow> (None, http_status_text r, take 500 (py_str body))))
           | _ \<Rightarrow> (None, http_status_text r, take 500 (py_str body))))"

definition VALIDATION_WORDS :: "string list" where
  "VALIDATION_WORDS = [''invalid'', ''mandatory'', ''missing'', ''format'', ''parameter'', ''validation'']"

definition is_validation_code :: "string option \<Rightarrow> string \<Rightarrow> bool" where
  "is_validation_code code title \<longleftrightarrow> (case code of Some c \<Rightarrow> py_isdigit c | None \<Rightarrow> False)
     \<or> list_ex (\<lambda>kw. sublist kw (py_lower title)) VALIDATION_WORDS"

definition map_amadeus_error :: "'w amadeus_env \<Rightarrow> http_response \<Rightarrow> driver_error" where
  "map_amadeus_error env r =
     (let (code, title, detail) = extract_error_fields env r;
          vendor_ref = (case code of Some c \<Rightarrow> if c = [] then title else py_strip (c @ '' '' @ title) | None \<Rightarrow> title);
          message = (if detail = [] then title else detail);
          mk = (\<lambda>k dflt after. \<lparr>de_kind = k, de_driver = AMADEUS, de_message = (if message = [] then dflt else message),
                 de_vendor_ref = Some vendor_ref, de_retry_after = after\<rparr>);
          upstream = ''Upstream '' @ show_nat (hr_status r) @ '' from Amadeus.''
      in if hr_status r = 401 then mk Authentication_error [] None
         else if hr_status r = 403 then mk Authorization_error [] None
         else if hr_status r = 404 then mk Not_found [] None
         else if hr_status r = 409 then mk Conflict_error [] None
         else if hr_status r = 429 then mk Rate_limit_error ''Rate limited by Amadeus.'' (parse_retry_after r)
         else if hr_status r = 400 then mk (if is_validation_code code title then Validation_failed else Permanent_error) [] None
         else if hr_status r = 503 \<or> hr_status r = 504 then mk Transient_error upstream (parse_retry_after r)
         else if 500 \<le> hr_status r \<and> hr_status r < 600 then mk Permanent_error upstream None
         else mk Permanent_error (''Unexpected status '' @ show_nat (hr_status r) @ '' from Amadeus.'') None)"

section \<open>The token\<close>

definition REFRESH_BUFFER_SECONDS :: rat where "REFRESH_BUFFER_SECONDS = 60"

definition TOKEN_PATH :: string where "TOKEN_PATH = ''/v1/security/oauth2/token''"

definition token_url :: "amadeus_config \<Rightarrow> string" where
  "token_url cfg = rev (dropWhile (\<lambda>c. c = CHR ''/'') (rev (zc_api_base cfg))) @ TOKEN_PATH"

definition token_form :: "amadeus_config \<Rightarrow> (string, string) dict" where
  "token_form cfg = [(''grant_type'', ''client_credentials''), (''client_id'', zc_client_id cfg), (''client_secret'', zc_client_secret cfg)]"

definition usable_token :: "rat \<Rightarrow> (string \<times> rat) option \<Rightarrow> string option" where
  "usable_token now cached = (case cached of None \<Rightarrow> None | Some (t, expires_at) \<Rightarrow> if expires_at - REFRESH_BUFFER_SECONDS > now then Some t else None)"

text \<open>Numbers for \<^verbatim>\<open>isinstance(v, (int, float))\<close>, to which the truth values belong.\<close>

fun as_seconds :: "json \<Rightarrow> rat option" where
  "as_seconds (JInt i) = Some (of_int i)"
| "as_seconds (JBool b) = Some (if b then 1 else 0)"
| "as_seconds (JFloat t) = (case decimal_literal_of t of Finite d \<Rightarrow> Some (dval d) | _ \<Rightarrow> None)"
| "as_seconds v = None"

definition token_fields :: "'w amadeus_env \<Rightarrow> string \<Rightarrow> failure + string \<times> rat" where
  "token_fields env content =
     (case zv_json env content of
        None \<Rightarrow> Inl (Raw_failure ''JSONDecodeError'')
      | Some (JObj d) \<Rightarrow>
          (case (get_true d ''access_token'', Option.bind (map_of d ''expires_in'') as_seconds) of
             (Some t, Some n) \<Rightarrow> Inr (py_str t, n)
           | _ \<Rightarrow> Inl (Driver_failure ((driver_error Permanent_error AMADEUS ''Amadeus token response missing access_token / expires_in.'')
                    \<lparr>de_vendor_ref := Some (take 200 (repr_json (JObj d)))\<rparr>)))
      | Some _ \<Rightarrow> Inl (Raw_failure ''AttributeError''))"

definition refresh_locked :: "'w amadeus_env \<Rightarrow> amadeus_config \<Rightarrow> ('w, string) amadeus" where
  "refresh_locked env cfg =
     act_bind (exchange (zv_token env (token_url cfg) (token_form cfg))) (\<lambda>reply.
       case reply of
         Http_timeout \<Rightarrow> act_raise (am_error Upstream_timeout ''Timed out fetching Amadeus OAuth2 token.'')
       | Http_network_error msg \<Rightarrow> act_raise (am_error Transient_error (''Network error fetching Amadeus token: '' @ msg))
       | Http_response r \<Rightarrow>
           if 400 \<le> hr_status r then act_raise (Driver_failure (map_amadeus_error env r))
           else act_bind (act_lift (token_fields env (hr_content r))) (\<lambda>(t, expires_in).
                act_bind monotonic (\<lambda>now.
                act_bind (act_update (\<lambda>s. s\<lparr>aw_token := Some (t, now + expires_in)\<rparr>)) (\<lambda>_. act_return t))))"

definition get_token :: "'w amadeus_env \<Rightarrow> amadeus_config \<Rightarrow> ('w, string) amadeus" where
  "get_token env cfg =
     act_bind monotonic (\<lambda>now. act_bind (act_read aw_token) (\<lambda>cached.
       case usable_token now cached of
         Some t \<Rightarrow> act_return t
       | None \<Rightarrow>
           act_bind monotonic (\<lambda>now2. act_bind (act_read aw_token) (\<lambda>cached2.
             case usable_token now2 cached2 of Some t \<Rightarrow> act_return t | None \<Rightarrow> refresh_locked env cfg))))"

definition invalidate :: "'w amadeus_world \<Rightarrow> 'w amadeus_world" where
  "invalidate s = s\<lparr>aw_token := None\<rparr>"

section \<open>Requests\<close>

definition decode_json_or_raise :: "'w amadeus_env \<Rightarrow> http_response \<Rightarrow> am_request \<Rightarrow> failure + json" where
  "decode_json_or_raise env r q =
     (case zv_json env (hr_content r) of
        Some j \<Rightarrow> Inr j
      | None \<Rightarrow> Inl (Driver_failure ((driver_error Permanent_error AMADEUS
          (''Amadeus returned non-JSON body on '' @ rq_method q @ '' '' @ rq_path q @ '' (HTTP '' @ show_nat (hr_status r) @ ''): ''
           @ repr_str (take 200 (zv_text env (hr_content r)))))\<lparr>de_vendor_ref := Some (http_status_text r @ '' non-json'')\<rparr>)))"

definition am_should_retry :: "amadeus_config \<Rightarrow> nat \<Rightarrow> bool" where
  "am_should_retry cfg attempts \<longleftrightarrow> attempts \<le> zc_max_retries cfg"

function request :: "'w amadeus_env \<Rightarrow> amadeus_config \<Rightarrow> am_request \<Rightarrow> nat \<Rightarrow> ('w, json) amadeus" where
  "request env cfg q attempts s =
     (let a = Suc attempts
      in case get_token env cfg s of (Inl e, s1) \<Rightarrow> (Inl e, s1)
         | (Inr tok, s1) \<Rightarrow>
             (let (reply, w) = zv_request env tok q (aw_remote s1); s2 = s1\<lparr>aw_remote := w\<rparr>
              in case reply of
                   Http_timeout \<Rightarrow> if am_should_retry cfg a then request env cfg q a s2
                     else (Inl (am_error Upstream_timeout (''Timeout on '' @ rq_method q @ '' '' @ rq_path q @ '' after '' @ zc_timeout_text cfg @ ''s.'')), s2)
                 | Http_network_error msg \<Rightarrow> if am_should_retry cfg a then request env cfg q a s2
                     else (Inl (am_error Transient_error (''Network error on '' @ rq_method q @ '' '' @ rq_path q @ '': '' @ msg)), s2)
                 | Http_response r \<Rightarrow>
                     if hr_status r < 400 then (if hr_status r = 204 \<or> hr_content r = [] then Inr JNull else decode_json_or_raise env r q, s2)
                     else let e = map_amadeus_error env r
                          in if de_kind e = Authentication_error \<and> a = 1 then request env cfg q a (invalidate s2)
                             else if de_kind e \<in> {Transient_error, Rate_limit_error} \<and> am_should_retry cfg a then request env cfg q a s2
                             else (Inl (Driver_failure e), s2)))"
  by pat_completeness auto
termination
  by (relation "measure (\<lambda>(env, cfg, q, attempts, s). max 2 (Suc (zc_max_retries cfg)) - attempts)") (auto simp: am_should_retry_def)

declare request.simps [simp del]

definition get_json :: "'w amadeus_env \<Rightarrow> amadeus_config \<Rightarrow> string \<Rightarrow> (string, string) dict option \<Rightarrow> ('w, json) amadeus" where
  "get_json env cfg path params = request env cfg \<lparr>rq_method = ''GET'', rq_path = path, rq_params = params, rq_body = None\<rparr> 0"

definition post_json :: "'w amadeus_env \<Rightarrow> amadeus_config \<Rightarrow> string \<Rightarrow> json \<Rightarrow> ('w, json) amadeus" where
  "post_json env cfg path body = request env cfg \<lparr>rq_method = ''POST'', rq_path = path, rq_params = None, rq_body = Some body\<rparr> 0"

definition delete_json :: "'w amadeus_env \<Rightarrow> amadeus_config \<Rightarrow> string \<Rightarrow> ('w, json) amadeus" where
  "delete_json env cfg path = request env cfg \<lparr>rq_method = ''DELETE'', rq_path = path, rq_params = None, rq_body = None\<rparr> 0"

section \<open>What the vendor sees of a request\<close>

text \<open>
  A run of the vendor: any number of token requests, and the given data request sent once for each reply listed. The rest of the
  driver's state is not touched by the client.
\<close>

inductive vendor_run :: "'w amadeus_env \<Rightarrow> amadeus_config \<Rightarrow> am_request \<Rightarrow> http_reply list \<Rightarrow> 'w \<Rightarrow> 'w \<Rightarrow> bool" for env cfg q where
  idle: "vendor_run env cfg q [] w w"
| token: "vendor_run env cfg q rs (snd (zv_token env (token_url cfg) (token_form cfg) w)) w' \<Longrightarrow> vendor_run env cfg q rs w w'"
| sent: "zv_request env tok q w = (reply, w1) \<Longrightarrow> vendor_run env cfg q rs w1 w' \<Longrightarrow> vendor_run env cfg q (reply # rs) w w'"

definition client_frame :: "'w amadeus_world \<Rightarrow> 'w amadeus_world \<Rightarrow> bool" where
  "client_frame s s' \<longleftrightarrow> aw_offers s' = aw_offers s \<and> aw_wall s' = aw_wall s \<and> aw_looks s' = aw_looks s
     \<and> aw_uuids s' = aw_uuids s \<and> aw_drawn s' = aw_drawn s \<and> aw_monotonic s' = aw_monotonic s"

lemma client_frame_refl [simp]: "client_frame s s"
  by (simp add: client_frame_def)

lemma client_frame_trans: "client_frame s s1 \<Longrightarrow> client_frame s1 s2 \<Longrightarrow> client_frame s s2"
  by (simp add: client_frame_def)

lemma client_frame_update [simp]:
  "client_frame s (s'\<lparr>aw_remote := w\<rparr>) = client_frame s s'" "client_frame s (s'\<lparr>aw_token := t\<rparr>) = client_frame s s'"
  "client_frame s (s'\<lparr>aw_ticks := n\<rparr>) = client_frame s s'" "client_frame s (invalidate s') = client_frame s s'"
  by (simp_all add: client_frame_def invalidate_def)

lemma refresh_locked_effect:
  assumes "refresh_locked env cfg s = (r, s')"
  shows "aw_remote s' = snd (zv_token env (token_url cfg) (token_form cfg) (aw_remote s)) \<and> client_frame s s'"
  using assms
  by (auto simp: refresh_locked_def exchange_def act_bind_def act_raise_def act_lift_def monotonic_def act_update_def act_return_def
      split: prod.splits sum.splits http_reply.splits if_splits)

lemma get_token_effect:
  assumes "get_token env cfg s = (r, s')"
  shows "client_frame s s' \<and> (aw_remote s' = aw_remote s \<or> aw_remote s' = snd (zv_token env (token_url cfg) (token_form cfg) (aw_remote s)))"
  using assms
  by (auto simp: get_token_def monotonic_def act_bind_def act_read_def act_return_def split: option.splits dest!: refresh_locked_effect)
     (auto simp: client_frame_def)

lemma run_after_token:
  assumes "get_token env cfg s = (r, s1)" "vendor_run env cfg q rs (aw_remote s1) w"
  shows "vendor_run env cfg q rs (aw_remote s) w"
  using get_token_effect [OF assms(1)] assms(2) vendor_run.token by metis

fun am_retriable :: "http_reply \<Rightarrow> bool" where
  "am_retriable (Http_response r) = (hr_status r \<in> {401, 429, 503, 504})"
| "am_retriable reply = True"

definition unauthorized :: "http_reply \<Rightarrow> bool" where
  "unauthorized reply \<longleftrightarrow> (case reply of Http_response r \<Rightarrow> hr_status r = 401 | _ \<Rightarrow> False)"

lemma amadeus_error_kinds:
  assumes "400 \<le> hr_status r"
  shows "de_kind (map_amadeus_error env r) = Authentication_error \<longleftrightarrow> hr_status r = 401"
    "de_kind (map_amadeus_error env r) \<in> {Transient_error, Rate_limit_error} \<longleftrightarrow> hr_status r \<in> {429, 503, 504}"
  by (auto simp: map_amadeus_error_def Let_def split: prod.splits)

definition reply_json :: "'w amadeus_env \<Rightarrow> http_response \<Rightarrow> json option" where
  "reply_json env x = (if hr_status x = 204 \<or> hr_content x = [] then Some JNull else zv_json env (hr_content x))"

definition request_outcome :: "'w amadeus_env \<Rightarrow> amadeus_config \<Rightarrow> am_request \<Rightarrow> nat \<Rightarrow> 'w amadeus_world \<Rightarrow> failure + json \<Rightarrow> 'w amadeus_world \<Rightarrow> http_reply list \<Rightarrow> bool" where
  "request_outcome env cfg q a s r s' rs \<longleftrightarrow> vendor_run env cfg q rs (aw_remote s) (aw_remote s') \<and> client_frame s s'
     \<and> length rs \<le> max 2 (Suc (zc_max_retries cfg)) - a \<and> (\<forall>i < length rs. unauthorized (rs ! i) \<and> Suc i < length rs \<longrightarrow> a + i = 0)
     \<and> (\<forall>i. Suc i < length rs \<longrightarrow> am_retriable (rs ! i))
     \<and> (\<forall>j. r = Inr j \<longrightarrow> (\<exists>x. rs \<noteq> [] \<and> last rs = Http_response x \<and> hr_status x < 400 \<and> reply_json env x = Some j))"

lemma request_stops:
  assumes "get_token env cfg s = (t, s1)" "zv_request env tok q (aw_remote s1) = (reply, w)" "a < max 2 (Suc (zc_max_retries cfg))"
    and "\<And>j. r = Inr j \<Longrightarrow> \<exists>x. reply = Http_response x \<and> hr_status x < 400 \<and> reply_json env x = Some j"
  shows "request_outcome env cfg q a s r (s1\<lparr>aw_remote := w\<rparr>) [reply]"
proof -
  have "vendor_run env cfg q [reply] (aw_remote s1) w" by (rule vendor_run.sent [OF assms(2)]) (rule vendor_run.idle)
  then have "vendor_run env cfg q [reply] (aw_remote s) w" by (rule run_after_token [OF assms(1)])
  then show ?thesis using assms(3,4) get_token_effect [OF assms(1)] by (auto simp: request_outcome_def)
qed

lemma request_repeats:
  assumes "get_token env cfg s = (t, s1)" "zv_request env tok q (aw_remote s1) = (reply, w)"
    and "request_outcome env cfg q (Suc a) s2 r s' rs" "aw_remote s2 = w" "client_frame s s2"
    and "am_retriable reply" "unauthorized reply \<longrightarrow> a = 0" "Suc a < max 2 (Suc (zc_max_retries cfg))"
  shows "request_outcome env cfg q a s r s' (reply # rs)"
proof -
  have "vendor_run env cfg q (reply # rs) (aw_remote s1) (aw_remote s')"
    using assms(2-4) by (intro vendor_run.sent) (auto simp: request_outcome_def)
  then have run: "vendor_run env cfg q (reply # rs) (aw_remote s) (aw_remote s')" by (rule run_after_token [OF assms(1)])
  have o: "client_frame s2 s'" "length rs \<le> max 2 (Suc (zc_max_retries cfg)) - Suc a"
    "\<forall>i < length rs. unauthorized (rs ! i) \<and> Suc i < length rs \<longrightarrow> Suc a + i = 0" "\<forall>i. Suc i < length rs \<longrightarrow> am_retriable (rs ! i)"
    "\<forall>j. r = Inr j \<longrightarrow> (\<exists>x. rs \<noteq> [] \<and> last rs = Http_response x \<and> hr_status x < 400 \<and> reply_json env x = Some j)" using assms(3) by (auto simp: request_outcome_def)
  have "unauthorized ((reply # rs) ! i) \<and> Suc i < length (reply # rs) \<longrightarrow> a + i = 0" if "i < length (reply # rs)" for i
    using that o(3) assms(7) by (cases i) auto
  moreover have "am_retriable ((reply # rs) ! i)" if "Suc i < length (reply # rs)" for i using that o(4) assms(6) by (cases i) auto
  ultimately show ?thesis using run o assms(8) client_frame_trans [OF assms(5) o(1)] by (auto simp: request_outcome_def)
qed

lemma request_effect:
  assumes "request env cfg q a s = (r, s')" "a < max 2 (Suc (zc_max_retries cfg))"
  shows "\<exists>rs. request_outcome env cfg q a s r s' rs"
  using assms
proof (induction "max 2 (Suc (zc_max_retries cfg)) - a" arbitrary: a s rule: less_induct)
  case (less a s)
  obtain t s1 where g: "get_token env cfg s = (t, s1)" by fastforce
  show ?case
  proof (cases t)
    case (Inl e)
    then have "r = Inl e" "s' = s1" using less.prems(1) g by (simp_all add: request.simps [of env cfg q a s])
    moreover have "vendor_run env cfg q [] (aw_remote s) (aw_remote s1)" by (rule run_after_token [OF g vendor_run.idle])
    ultimately have "request_outcome env cfg q a s r s' []" using get_token_effect [OF g] by (simp add: request_outcome_def)
    then show ?thesis by blast
  next
    case (Inr tok)
    obtain reply w where z: "zv_request env tok q (aw_remote s1) = (reply, w)" by fastforce
    note step = less.prems(1) [unfolded request.simps [of env cfg q a s] g Inr prod.case sum.case Let_def z]
    have f: "client_frame s (s1\<lparr>aw_remote := w\<rparr>)" using get_token_effect [OF g] by simp
    have more: "am_should_retry cfg (Suc a) \<Longrightarrow> Suc a < max 2 (Suc (zc_max_retries cfg))" by (auto simp: am_should_retry_def)
    have again: ?thesis if nx: "request env cfg q (Suc a) s2 = (r, s')" "aw_remote s2 = w" "client_frame s s2" "am_retriable reply"
      "unauthorized reply \<longrightarrow> a = 0" "Suc a < max 2 (Suc (zc_max_retries cfg))" for s2
    proof -
      obtain rs where "request_outcome env cfg q (Suc a) s2 r s' rs"
        using less.hyps [OF diff_less_mono2 [OF lessI] nx(1,6)] less.prems(2) by blast
      then show ?thesis using request_repeats [OF g z _ nx(2,3,4,5,6)] by blast
    qed
    have stop: ?thesis if "s' = s1\<lparr>aw_remote := w\<rparr>" "\<And>j. r = Inr j \<Longrightarrow> \<exists>x. reply = Http_response x \<and> hr_status x < 400 \<and> reply_json env x = Some j"
      using request_stops [OF g z less.prems(2), of r] that by blast
    show ?thesis
    proof (cases reply)
      case Http_timeout
      then show ?thesis using step stop again [OF _ _ f] more by (auto simp: unauthorized_def split: if_splits)
    next
      case (Http_network_error msg)
      then show ?thesis using step stop again [OF _ _ f] more by (auto simp: unauthorized_def split: if_splits)
    next
      case (Http_response x)
      show ?thesis
      proof (cases "hr_status x < 400")
        case True
        then show ?thesis using step stop Http_response by (auto simp: reply_json_def decode_json_or_raise_def split: if_splits option.splits)
      next
        case False
        note kinds = amadeus_error_kinds [of x env]
        consider "hr_status x = 401" "a = 0" "request env cfg q (Suc a) (invalidate (s1\<lparr>aw_remote := w\<rparr>)) = (r, s')"
          | "hr_status x \<in> {429, 503, 504}" "am_should_retry cfg (Suc a)" "request env cfg q (Suc a) (s1\<lparr>aw_remote := w\<rparr>) = (r, s')"
          | "r = Inl (Driver_failure (map_amadeus_error env x))" "s' = s1\<lparr>aw_remote := w\<rparr>"
          using step False kinds Http_response by (auto split: if_splits)
        then show ?thesis
        proof cases
          case 1
          then show ?thesis using again [OF 1(3)] f Http_response by (simp add: invalidate_def client_frame_def)
        next
          case 2
          then show ?thesis using again [OF 2(3)] f more Http_response by (auto simp: unauthorized_def)
        next
          case 3
          then show ?thesis using stop by simp
        qed
      qed
    qed
  qed
qed

text \<open>Claim C25. What a call of the client does to the vendor. Apart from token requests, the vendor receives the given request and no other, at most
  \<^verbatim>\<open>max_retries + 1\<close> times (twice, if that is less); it is sent again only after a timeout, a network error, a 429, 503 or 504, or, once, when the first
  reply is a 401. A value is returned only from a last reply below 400, whose body it is, and nothing of the driver's state but the token changes.
\<close>
theorem amadeus_request_retries:
  assumes "request env cfg q 0 s = (r, s')"
  shows "\<exists>rs. vendor_run env cfg q rs (aw_remote s) (aw_remote s') \<and> length rs \<le> max 2 (Suc (zc_max_retries cfg)) \<and> client_frame s s'
    \<and> (\<forall>i. Suc i < length rs \<longrightarrow> am_retriable (rs ! i) \<and> (unauthorized (rs ! i) \<longrightarrow> i = 0))
    \<and> (\<forall>j. r = Inr j \<longrightarrow> (\<exists>x. rs \<noteq> [] \<and> last rs = Http_response x \<and> hr_status x < 400 \<and> reply_json env x = Some j))"
proof -
  obtain rs where "request_outcome env cfg q 0 s r s' rs" using request_effect [OF assms] by auto
  then show ?thesis by (intro exI [of _ rs]) (auto simp: request_outcome_def)
qed

text \<open>A vendor that books every order it gets, loses its first answer and counts its bookings: the retried request books twice.\<close>

definition lossy_vendor :: "nat amadeus_env" where
  "lossy_vendor = \<lparr>zv_token = (\<lambda>u f w. (Http_timeout, w)),
     zv_request = (\<lambda>t q w. (if w = 0 then Http_timeout else Http_response \<lparr>hr_status = 201, hr_content = ''x'', hr_retry_after = None\<rparr>, Suc w)),
     zv_json = (\<lambda>c. Some (JObj [])), zv_text = id\<rparr>"

definition patient_config :: amadeus_config where
  "patient_config = \<lparr>zc_api_base = ''https://t'', zc_client_id = ''i'', zc_client_secret = ''s'', zc_timeout_text = ''30.0'', zc_max_retries = 2\<rparr>"

definition idle_world :: "nat amadeus_world" where
  "idle_world = \<lparr>aw_remote = 0, aw_token = Some (''tok'', 1000), aw_offers = None, aw_monotonic = (\<lambda>n. 0), aw_ticks = 0, aw_wall = (\<lambda>n. 0), aw_looks = 0,
     aw_uuids = (\<lambda>n. 0), aw_drawn = 0\<rparr>"

lemma lossy_booking:
  "post_json lossy_vendor patient_config ''/v1/booking/flight-orders'' JNull idle_world = (Inr (JObj []), idle_world\<lparr>aw_remote := 2, aw_ticks := 2\<rparr>)"
  by (simp add: post_json_def request.simps get_token_def monotonic_def act_bind_def act_read_def act_return_def usable_token_def REFRESH_BUFFER_SECONDS_def
      lossy_vendor_def patient_config_def idle_world_def am_should_retry_def decode_json_or_raise_def Let_def)

theorem amadeus_request_retries_witness:
  "\<exists>q s' rs. request lossy_vendor patient_config q 0 idle_world = (Inr (JObj []), s') \<and> aw_remote s' = 2
     \<and> vendor_run lossy_vendor patient_config q rs 0 2 \<and> length rs \<le> 3"
proof -
  define q where "q = \<lparr>rq_method = ''POST'', rq_path = ''/v1/booking/flight-orders'', rq_params = None, rq_body = Some JNull\<rparr>"
  have run: "request lossy_vendor patient_config q 0 idle_world = (Inr (JObj []), idle_world\<lparr>aw_remote := 2, aw_ticks := 2\<rparr>)"
    using lossy_booking by (simp add: post_json_def q_def)
  have "aw_remote idle_world = 0" "zc_max_retries patient_config = 2" by (simp_all add: idle_world_def patient_config_def)
  with amadeus_request_retries [OF run] obtain rs where "vendor_run lossy_vendor patient_config q rs 0 2" "length rs \<le> 3" by auto
  then show ?thesis using run by (intro exI [of _ q]) auto
qed

end
