(* ===== verification/Py_Datetime.thy ===== *)
theory Py_Datetime
  imports Py_Calendar
begin

text \<open>
  \<^verbatim>\<open>datetime.fromisoformat\<close>: a date in one of the forms of \<^verbatim>\<open>date.fromisoformat\<close>, optionally any one character and a time of
  day, and optionally an offset from UTC. The result is the wall clock time, in microseconds as if it were UTC, and the
  offset if there is one. It undoes \<^verbatim>\<open>isoformat\<close>.
\<close>

section \<open>Reading a time of day\<close>

text \<open>\<^verbatim>\<open>[HH[:MM[:SS[.fff...]]]]\<close> or the same without colons; digits after the sixth of a fraction are dropped.\<close>

definition fraction_us :: "string \<Rightarrow> int option" where
  "fraction_us s = (if s \<noteq> [] \<and> list_all is_decimal_char s then Some (int (digits_val (take 6 (s @ ''000000'')))) else None)"

definition skip_colon :: "bool \<Rightarrow> string \<Rightarrow> string option" where
  "skip_colon sep s = (if \<not> sep then Some s else if take 1 s = '':'' then Some (drop 1 s) else None)"

definition clock_tail :: "int \<Rightarrow> int \<Rightarrow> int \<Rightarrow> string \<Rightarrow> (int \<times> int \<times> int \<times> int) option" where
  "clock_tail h m s r = (if r = [] then Some (h, m, s, 0)
     else if take 1 r = ''.'' \<or> take 1 r = '','' then map_option (\<lambda>f. (h, m, s, f)) (fraction_us (drop 1 r)) else None)"

definition clock_fields :: "string \<Rightarrow> (int \<times> int \<times> int \<times> int) option" where
  "clock_fields t =
     (case take_digits 2 t of None \<Rightarrow> None | Some (h, r) \<Rightarrow>
      if r = [] then Some (h, 0, 0, 0) else
      let sep = (take 1 r = '':'')
      in case Option.bind (skip_colon sep r) (take_digits 2) of None \<Rightarrow> None | Some (m, r2) \<Rightarrow>
         if r2 = [] then Some (h, m, 0, 0) else
         case Option.bind (skip_colon sep r2) (take_digits 2) of None \<Rightarrow> None | Some (s, r3) \<Rightarrow> clock_tail h m s r3)"

definition clock_us :: "int \<times> int \<times> int \<times> int \<Rightarrow> int" where
  "clock_us c = (case c of (h, m, s, f) \<Rightarrow> ((h * 60 + m) * 60 + s) * 1000000 + f)"

definition time_of_day :: "string \<Rightarrow> int option" where
  "time_of_day t = (case clock_fields t of None \<Rightarrow> None | Some (h, m, s, f) \<Rightarrow>
     if h < 24 \<and> m < 60 \<and> s < 60 then Some (clock_us (h, m, s, f)) else None)"

text \<open>An offset, which is less than a day.\<close>

definition utc_offset :: "string \<Rightarrow> int option" where
  "utc_offset z = (if z = ''Z'' then Some 0
     else if take 1 z = ''Z'' then None
     else case clock_fields (drop 1 z) of None \<Rightarrow> None | Some c \<Rightarrow>
       if clock_us c < DAY_US then Some (if take 1 z = ''-'' then - clock_us c else clock_us c) else None)"

definition zone_char :: "char \<Rightarrow> bool" where
  "zone_char c \<longleftrightarrow> c = CHR ''+'' \<or> c = CHR ''-'' \<or> c = CHR ''Z''"

definition time_and_offset :: "string \<Rightarrow> (int \<times> int option) option" where
  "time_and_offset t =
     (let clock = takeWhile (\<lambda>c. \<not> zone_char c) t; z = drop (length clock) t
      in case time_of_day clock of None \<Rightarrow> None | Some us \<Rightarrow>
         if z = [] then Some (us, None) else map_option (\<lambda>off. (us, Some off)) (utc_offset z))"

lemma zone_char_plain: "is_decimal_char c \<Longrightarrow> \<not> zone_char c" "\<not> zone_char (CHR '':'')" "\<not> zone_char (CHR ''.'')" "zone_char (CHR ''+'')"
  by (auto simp: zone_char_def is_decimal_char_def)

section \<open>Reading a date and a time\<close>

text \<open>Where the date ends, as the fifth and sixth characters tell.\<close>

definition separator_location :: "string \<Rightarrow> nat option" where
  "separator_location s =
     (let n = length s in
      if n = 7 then Some 7
      else if s ! 4 = CHR ''-'' then
        (if s ! 5 = CHR ''W'' then
           (if n < 8 then None
            else if 8 < n \<and> s ! 8 = CHR ''-'' then
              (if n = 9 then None else if 10 < n \<and> is_decimal_char (s ! 10) then Some 8 else Some 10)
            else Some 8)
         else Some 10)
      else if s ! 4 = CHR ''W'' then
        (let pos = 7 + length (takeWhile is_decimal_char (drop 7 s))
         in if pos < 9 then Some pos else if even pos then Some 7 else Some 8)
      else Some 8)"

definition datetime_fromisoformat :: "string \<Rightarrow> (int \<times> int option) option" where
  "datetime_fromisoformat s =
     (if length s < 7 then None else
      case separator_location s of None \<Rightarrow> None | Some k \<Rightarrow>
      case date_fromisoformat (take k s) of Inl e \<Rightarrow> None | Inr d \<Rightarrow>
      let t = drop (Suc k) s
      in if t = [] then Some (utc_midnight d, None)
         else map_option (\<lambda>(us, off). (utc_midnight d + us, off)) (time_and_offset t))"

definition DATETIME_MIN :: int where
  "DATETIME_MIN = (1 - EPOCH_ORDINAL) * DAY_US"

text \<open>\<^verbatim>\<open>astimezone(timezone.utc)\<close> of a wall clock time with an offset; \<^verbatim>\<open>None\<close> is an \<^verbatim>\<open>OverflowError\<close>.\<close>

definition to_utc :: "int \<Rightarrow> int \<Rightarrow> int option" where
  "to_utc local off = (if DATETIME_MIN \<le> local - off \<and> local - off \<le> DATETIME_MAX then Some (local - off) else None)"

section \<open>Digits\<close>

lemma show_nat_length: "n < 10 ^ k \<Longrightarrow> 0 < k \<Longrightarrow> length (show_nat n) \<le> k"
proof (induction k arbitrary: n)
  case (Suc k)
  show ?case
  proof (cases "n < 10")
    case True
    then show ?thesis by (subst show_nat.simps) simp
  next
    case False
    with Suc.prems have "0 < k" by (cases k) auto
    moreover have "n div 10 < 10 ^ k" using Suc.prems by (simp add: div_less_iff_less_mult)
    ultimately have "length (show_nat (n div 10)) \<le> k" using Suc.IH by blast
    then show ?thesis using False by (subst show_nat.simps) simp
  qed
qed simp

lemma padded_number:
  assumes "0 \<le> n" "n < 10 ^ k" "0 < k"
  shows "length (padded k n) = k" "list_all is_decimal_char (padded k n)" "int (digits_val (padded k n)) = n"
proof -
  have "nat n < 10 ^ k" using assms by (simp add: nat_less_iff)
  then show "length (padded k n) = k" using show_nat_length [of "nat n" k] assms(3) by (simp add: padded_def Let_def)
  have "is_decimal_char (CHR ''0'')" by code_simp
  then show "list_all is_decimal_char (padded k n)" using show_nat_decimal [of "nat n"] by (auto simp: padded_def Let_def list_all_iff)
  show "int (digits_val (padded k n)) = n" using assms(1) by (simp add: padded_def Let_def digits_val_zeros)
qed

lemma take_padded: "0 \<le> n \<Longrightarrow> n < 10 ^ k \<Longrightarrow> 0 < k \<Longrightarrow> take_digits k (padded k n @ s) = Some (n, s)"
  using take_digits_append [of "padded k n" k s] padded_number [of n k] by simp

lemma take_padded_Nil: "0 \<le> n \<Longrightarrow> n < 10 ^ k \<Longrightarrow> 0 < k \<Longrightarrow> take_digits k (padded k n) = Some (n, [])"
  using take_padded [of n k "[]"] by simp

section \<open>Reading back what is printed\<close>

lemma date_bounds:
  assumes "date_ok d"
  shows "1 \<le> d_year d" "d_year d < 10 ^ 4" "1 \<le> d_month d" "d_month d < 10 ^ 2" "1 \<le> d_day d" "d_day d < 10 ^ 2"
    "d_month d \<le> 12" "d_day d \<le> days_in_month (d_year d) (d_month d)"
proof -
  have "days_in_month (d_year d) (d_month d) \<le> 31" by (simp add: days_in_month_def)
  then show "1 \<le> d_year d" "d_year d < 10 ^ 4" "1 \<le> d_month d" "d_month d < 10 ^ 2" "1 \<le> d_day d" "d_day d < 10 ^ 2"
    "d_month d \<le> 12" "d_day d \<le> days_in_month (d_year d) (d_month d)"
    using assms by (cases d; auto simp: date_ok_def)+
qed

lemma iso_date_length: "date_ok d \<Longrightarrow> length (iso_date d) = 10"
  using date_bounds [of d] padded_number(1) [of "d_year d" 4] padded_number(1) [of "d_month d" 2] padded_number(1) [of "d_day d" 2]
  by (simp add: iso_date_def)

lemma date_fromisoformat_iso_date:
  assumes "date_ok d"
  shows "date_fromisoformat (iso_date d) = Inr d"
proof -
  note b = date_bounds [OF assms]
  have y: "take_digits 4 (iso_date d) = Some (d_year d, ''-'' @ padded 2 (d_month d) @ ''-'' @ padded 2 (d_day d))"
    using take_padded [of "d_year d" 4] b by (simp add: iso_date_def)
  have m: "take_digits 2 (padded 2 (d_month d) @ ''-'' @ padded 2 (d_day d)) = Some (d_month d, ''-'' @ padded 2 (d_day d))"
    using take_padded [of "d_month d" 2] b by simp
  have dd: "take_digits 2 (padded 2 (d_day d)) = Some (d_day d, [])" using take_padded_Nil [of "d_day d" 2] b by simp
  have w: "\<not> is_decimal_char (CHR ''W'')" by code_simp
  have "padded 2 (d_month d) \<noteq> []" "is_decimal_char (hd (padded 2 (d_month d)))"
    using padded_number(1,2) [of "d_month d" 2] b by (cases "padded 2 (d_month d)"; auto)+
  then have nw: "take 1 (padded 2 (d_month d) @ ''-'' @ padded 2 (d_day d)) \<noteq> ''W''"
    using w by (cases "padded 2 (d_month d)") auto
  have "iso_fields (iso_date d) = Some (d_year d, Inr (d_month d, d_day d))"
    using y m dd nw by (simp add: iso_fields_def iso_date_length [OF assms])
  then show ?thesis using b by (simp add: date_fromisoformat_def)
qed

lemma clock_fields_printed:
  assumes "0 \<le> h" "h < 24" "0 \<le> m" "m < 60" "0 \<le> s" "s < 60" "0 \<le> f" "f < 1000000"
  shows "clock_fields (padded 2 h @ '':'' @ padded 2 m @ '':'' @ padded 2 s @ (if f = 0 then [] else ''.'' @ padded 6 f)) = Some (h, m, s, f)"
proof -
  have d: "take_digits 2 (padded 2 x @ r) = Some (x, r)" if "0 \<le> x" "x < 60" for x r using take_padded [of x 2 r] that by simp
  have fr: "fraction_us (padded 6 f) = Some f"
    using padded_number [of f 6] assms by (auto simp: fraction_us_def)
  show ?thesis
    using assms fr by (simp add: clock_fields_def d skip_colon_def clock_tail_def)
qed

lemma padded_plain: "0 \<le> n \<Longrightarrow> n < 10 ^ k \<Longrightarrow> 0 < k \<Longrightarrow> \<forall>c\<in>set (padded k n). \<not> zone_char c"
  using padded_number(2) [of n k] zone_char_plain(1) by (auto simp: list_all_iff)

lemma sexagesimal:
  fixes x q r p z :: int
  assumes "x = q * 60 + r" "q = p * 60 + z" "us = x * 1000000 + f"
  shows "clock_us (p, z, r, f) = us"
  using assms by (simp add: clock_us_def)

lemma clock_us_split: "clock_us (us div 1000000 div 3600, us div 1000000 div 60 mod 60, us div 1000000 mod 60, us mod 1000000) = us"
proof -
  have "us div 1000000 div 3600 = us div 1000000 div 60 div 60" using zdiv_zmult2_eq [of 60 "us div 1000000" 60] by simp
  then show ?thesis
    by (simp only:) (rule sexagesimal [of "us div 1000000" "us div 1000000 div 60"], simp_all only: div_mult_mod_eq)
qed

lemma time_and_offset_printed:
  assumes "0 \<le> us" "us < DAY_US"
  shows "time_and_offset (padded 2 (us div 1000000 div 3600) @ '':'' @ padded 2 (us div 1000000 div 60 mod 60) @ '':''
      @ padded 2 (us div 1000000 mod 60) @ (if us mod 1000000 = 0 then [] else ''.'' @ padded 6 (us mod 1000000)) @ ''+00:00'')
    = Some (us, Some 0)"
proof -
  define h m s f where "h = us div 1000000 div 3600" and "m = us div 1000000 div 60 mod 60" and "s = us div 1000000 mod 60" and "f = us mod 1000000"
  have b: "0 \<le> h" "h < 24" "0 \<le> m" "m < 60" "0 \<le> s" "s < 60" "0 \<le> f" "f < 1000000"
    using assms by (auto simp: h_def m_def s_def f_def DAY_US_def)
  have us: "clock_us (h, m, s, f) = us" using clock_us_split [of us] by (simp only: h_def m_def s_def f_def)
  define clock where "clock = padded 2 h @ '':'' @ padded 2 m @ '':'' @ padded 2 s @ (if f = 0 then [] else ''.'' @ padded 6 f)"
  have plain: "\<forall>c\<in>set clock. \<not> zone_char c"
    using padded_plain [of h 2] padded_plain [of m 2] padded_plain [of s 2] padded_plain [of f 6] b
    by (auto simp: clock_def zone_char_plain)
  have "takeWhile (\<lambda>c. \<not> zone_char c) (clock @ ''+00:00'') = clock" using plain by (subst takeWhile_append2) (auto simp: zone_char_plain)
  moreover have "time_of_day clock = Some us"
    using clock_fields_printed [OF b] b us by (simp add: time_of_day_def clock_def)
  moreover have "utc_offset ''+00:00'' = Some 0" by code_simp
  ultimately have "time_and_offset (clock @ ''+00:00'') = Some (us, Some 0)" by (simp add: time_and_offset_def Let_def)
  then show ?thesis unfolding clock_def h_def m_def s_def f_def append_assoc .
qed

text \<open>An instant printed by \<^verbatim>\<open>isoformat\<close> is read back, in UTC.\<close>

lemma isoformat_roundtrip:
  assumes "date_ok d" "0 \<le> us" "us < DAY_US"
  shows "datetime_fromisoformat (isoformat (utc_midnight d + us)) = Some (utc_midnight d + us, Some 0)"
proof -
  have day: "(utc_midnight d + us) div DAY_US = utc_midnight d div DAY_US" "(utc_midnight d + us) mod DAY_US = us"
    using assms(2,3) mod_mult_self3 [of "to_ordinal d - EPOCH_ORDINAL" DAY_US us] div_mult_self3 [of DAY_US us "to_ordinal d - EPOCH_ORDINAL"]
    unfolding utc_midnight_def by (simp_all add: DAY_US_def)
  define t where "t = padded 2 (us div 1000000 div 3600) @ '':'' @ padded 2 (us div 1000000 div 60 mod 60) @ '':''
      @ padded 2 (us div 1000000 mod 60) @ (if us mod 1000000 = 0 then [] else ''.'' @ padded 6 (us mod 1000000)) @ ''+00:00''"
  have iso: "isoformat (utc_midnight d + us) = iso_date d @ ''T'' @ t"
    using midnight_date [OF assms(1)] by (simp add: isoformat_def day Let_def t_def)
  have t: "t \<noteq> []" "time_and_offset t = Some (us, Some 0)"
    using time_and_offset_printed [OF assms(2,3)] by (auto simp: t_def)
  note b = date_bounds [OF assms(1)]
  have "iso_date d ! 4 = CHR ''-''"
    using padded_number(1) [of "d_year d" 4] b by (simp add: iso_date_def nth_append)
  moreover have "iso_date d ! 5 = hd (padded 2 (d_month d))"
    using padded_number(1) [of "d_year d" 4] padded_number(1) [of "d_month d" 2] b
    by (cases "padded 2 (d_month d)") (auto simp: iso_date_def nth_append)
  moreover have "is_decimal_char (hd (padded 2 (d_month d)))"
    using padded_number(1,2) [of "d_month d" 2] b by (cases "padded 2 (d_month d)") auto
  moreover have "\<not> is_decimal_char (CHR ''W'')" by code_simp
  ultimately have "separator_location (iso_date d @ ''T'' @ t) = Some 10"
    using iso_date_length [OF assms(1)] by (auto simp: separator_location_def Let_def nth_append)
  then show ?thesis
    using iso_date_length [OF assms(1)] date_fromisoformat_iso_date [OF assms(1)] t
    by (simp add: iso datetime_fromisoformat_def Let_def)
qed

end
