(* ===== verification/Airports.thy ===== *)
theory Airports
  imports Py_Datetime
begin

text \<open>
  \<^verbatim>\<open>schemas/canonical/airports.py\<close>: the registry of time zones by airport, group by group as in the source, the lookup
  with overrides and the conversion of an airport's wall clock time to UTC. The time zone database is an argument: the
  offset of a zone from UTC at a wall clock time, or nothing for a zone that it does not have.
\<close>

section \<open>The registry\<close>

definition TZ_INDIA :: "(string, string) dict" where
  "TZ_INDIA =
    [(''AMD'', ''Asia/Kolkata''), (''ATQ'', ''Asia/Kolkata''), (''BBI'', ''Asia/Kolkata''), (''BLR'', ''Asia/Kolkata''), (''BOM'', ''Asia/Kolkata''),
    (''CCU'', ''Asia/Kolkata''), (''COK'', ''Asia/Kolkata''), (''DEL'', ''Asia/Kolkata''), (''GAU'', ''Asia/Kolkata''), (''GOI'', ''Asia/Kolkata''),
    (''HYD'', ''Asia/Kolkata''), (''IDR'', ''Asia/Kolkata''), (''IXB'', ''Asia/Kolkata''), (''IXC'', ''Asia/Kolkata''), (''IXM'', ''Asia/Kolkata''),
    (''IXR'', ''Asia/Kolkata''), (''IXZ'', ''Asia/Kolkata''), (''JAI'', ''Asia/Kolkata''), (''LKO'', ''Asia/Kolkata''), (''MAA'', ''Asia/Kolkata''),
    (''NAG'', ''Asia/Kolkata''), (''PAT'', ''Asia/Kolkata''), (''PNQ'', ''Asia/Kolkata''), (''STV'', ''Asia/Kolkata''), (''TRV'', ''Asia/Kolkata''),
    (''VGA'', ''Asia/Kolkata''), (''VNS'', ''Asia/Kolkata''), (''VTZ'', ''Asia/Kolkata'')]"

definition TZ_SOUTH_ASIA :: "(string, string) dict" where
  "TZ_SOUTH_ASIA =
    [(''CMB'', ''Asia/Colombo''), (''DAC'', ''Asia/Dhaka''), (''ISB'', ''Asia/Karachi''), (''KBL'', ''Asia/Kabul''), (''KHI'', ''Asia/Karachi''),
    (''KTM'', ''Asia/Kathmandu''), (''LHE'', ''Asia/Karachi''), (''MLE'', ''Indian/Maldives''), (''PBH'', ''Asia/Thimphu'')]"

definition TZ_MIDDLE_EAST :: "(string, string) dict" where
  "TZ_MIDDLE_EAST =
    [(''AMM'', ''Asia/Amman''), (''AUH'', ''Asia/Dubai''), (''BAH'', ''Asia/Bahrain''), (''BEY'', ''Asia/Beirut''), (''DMM'', ''Asia/Riyadh''),
    (''DOH'', ''Asia/Qatar''), (''DWC'', ''Asia/Dubai''), (''DXB'', ''Asia/Dubai''), (''IKA'', ''Asia/Tehran''), (''JED'', ''Asia/Riyadh''),
    (''KWI'', ''Asia/Kuwait''), (''MCT'', ''Asia/Muscat''), (''MED'', ''Asia/Riyadh''), (''RUH'', ''Asia/Riyadh''), (''SHJ'', ''Asia/Dubai''),
    (''TLV'', ''Asia/Jerusalem'')]"

definition TZ_CENTRAL_ASIA :: "(string, string) dict" where
  "TZ_CENTRAL_ASIA =
    [(''ALA'', ''Asia/Almaty''), (''ASB'', ''Asia/Ashgabat''), (''AYT'', ''Europe/Istanbul''), (''BAK'', ''Asia/Baku''), (''EVN'', ''Asia/Yerevan''),
    (''GYD'', ''Asia/Baku''), (''IST'', ''Europe/Istanbul''), (''NQZ'', ''Asia/Almaty''), (''SAW'', ''Europe/Istanbul''),
    (''TAS'', ''Asia/Tashkent''), (''TBS'', ''Asia/Tbilisi'')]"

definition TZ_BRITISH_ISLES :: "(string, string) dict" where
  "TZ_BRITISH_ISLES =
    [(''BFS'', ''Europe/London''), (''BHX'', ''Europe/London''), (''DUB'', ''Europe/Dublin''), (''EDI'', ''Europe/London''),
    (''GLA'', ''Europe/London''), (''LCY'', ''Europe/London''), (''LGW'', ''Europe/London''), (''LHR'', ''Europe/London''),
    (''LTN'', ''Europe/London''), (''MAN'', ''Europe/London''), (''SNN'', ''Europe/Dublin''), (''STN'', ''Europe/London'')]"

definition TZ_CONTINENT :: "(string, string) dict" where
  "TZ_CONTINENT =
    [(''AMS'', ''Europe/Amsterdam''), (''ARN'', ''Europe/Stockholm''), (''ATH'', ''Europe/Athens''), (''BCN'', ''Europe/Madrid''),
    (''BEG'', ''Europe/Belgrade''), (''BER'', ''Europe/Berlin''), (''BRU'', ''Europe/Brussels''), (''BUD'', ''Europe/Budapest''),
    (''CDG'', ''Europe/Paris''), (''CPH'', ''Europe/Copenhagen''), (''DUS'', ''Europe/Berlin''), (''FCO'', ''Europe/Rome''),
    (''FRA'', ''Europe/Berlin''), (''GVA'', ''Europe/Zurich''), (''HAM'', ''Europe/Berlin''), (''HEL'', ''Europe/Helsinki''),
    (''KEF'', ''Atlantic/Reykjavik''), (''LIS'', ''Europe/Lisbon''), (''LUX'', ''Europe/Luxembourg''), (''MAD'', ''Europe/Madrid''),
    (''MLA'', ''Europe/Malta''), (''MRS'', ''Europe/Paris''), (''MUC'', ''Europe/Berlin''), (''MXP'', ''Europe/Rome''), (''NCE'', ''Europe/Paris''),
    (''ORY'', ''Europe/Paris''), (''OSL'', ''Europe/Oslo''), (''OTP'', ''Europe/Bucharest''), (''PMI'', ''Europe/Madrid''),
    (''PRG'', ''Europe/Prague''), (''RIX'', ''Europe/Riga''), (''SOF'', ''Europe/Sofia''), (''SVO'', ''Europe/Moscow''),
    (''TLL'', ''Europe/Tallinn''), (''VCE'', ''Europe/Rome''), (''VIE'', ''Europe/Vienna''), (''VKO'', ''Europe/Moscow''),
    (''VNO'', ''Europe/Vilnius''), (''WAW'', ''Europe/Warsaw''), (''ZAG'', ''Europe/Zagreb''), (''ZRH'', ''Europe/Zurich'')]"

definition TZ_RUSSIA :: "(string, string) dict" where
  "TZ_RUSSIA =
    [(''DME'', ''Europe/Moscow''), (''LED'', ''Europe/Moscow'')]"

definition TZ_USA :: "(string, string) dict" where
  "TZ_USA =
    [(''ANC'', ''America/Anchorage''), (''ATL'', ''America/New_York''), (''AUS'', ''America/Chicago''), (''BNA'', ''America/Chicago''),
    (''BOS'', ''America/New_York''), (''BWI'', ''America/New_York''), (''CLT'', ''America/New_York''), (''DCA'', ''America/New_York''),
    (''DEN'', ''America/Denver''), (''DFW'', ''America/Chicago''), (''DTW'', ''America/Detroit''), (''EWR'', ''America/New_York''),
    (''FLL'', ''America/New_York''), (''HNL'', ''Pacific/Honolulu''), (''HOU'', ''America/Chicago''), (''IAD'', ''America/New_York''),
    (''IAH'', ''America/Chicago''), (''IND'', ''America/Indiana/Indianapolis''), (''JFK'', ''America/New_York''),
    (''LAS'', ''America/Los_Angeles''), (''LAX'', ''America/Los_Angeles''), (''LGA'', ''America/New_York''), (''MCO'', ''America/New_York''),
    (''MDW'', ''America/Chicago''), (''MIA'', ''America/New_York''), (''MSP'', ''America/Chicago''), (''MSY'', ''America/Chicago''),
    (''OAK'', ''America/Los_Angeles''), (''ORD'', ''America/Chicago''), (''PDX'', ''America/Los_Angeles''), (''PHL'', ''America/New_York''),
    (''PHX'', ''America/Phoenix''), (''RDU'', ''America/New_York''), (''SAN'', ''America/Los_Angeles''), (''SEA'', ''America/Los_Angeles''),
    (''SFO'', ''America/Los_Angeles''), (''SJC'', ''America/Los_Angeles''), (''SLC'', ''America/Denver''), (''STL'', ''America/Chicago''),
    (''TPA'', ''America/New_York'')]"

definition TZ_CANADA :: "(string, string) dict" where
  "TZ_CANADA =
    [(''YEG'', ''America/Edmonton''), (''YHZ'', ''America/Halifax''), (''YOW'', ''America/Toronto''), (''YQB'', ''America/Toronto''),
    (''YUL'', ''America/Toronto''), (''YVR'', ''America/Vancouver''), (''YWG'', ''America/Winnipeg''), (''YYC'', ''America/Edmonton''),
    (''YYZ'', ''America/Toronto'')]"

definition TZ_MEXICO :: "(string, string) dict" where
  "TZ_MEXICO =
    [(''CUN'', ''America/Cancun''), (''GDL'', ''America/Mexico_City''), (''MEX'', ''America/Mexico_City''), (''MTY'', ''America/Monterrey''),
    (''SJD'', ''America/Mazatlan''), (''TIJ'', ''America/Tijuana'')]"

definition TZ_LATIN_AMERICA :: "(string, string) dict" where
  "TZ_LATIN_AMERICA =
    [(''BOG'', ''America/Bogota''), (''CCS'', ''America/Caracas''), (''EZE'', ''America/Argentina/Buenos_Aires''), (''GIG'', ''America/Sao_Paulo''),
    (''GRU'', ''America/Sao_Paulo''), (''HAV'', ''America/Havana''), (''LIM'', ''America/Lima''), (''MVD'', ''America/Montevideo''),
    (''NAS'', ''America/Nassau''), (''PTY'', ''America/Panama''), (''SCL'', ''America/Santiago''), (''SDQ'', ''America/Santo_Domingo''),
    (''SJO'', ''America/Costa_Rica''), (''SJU'', ''America/Puerto_Rico''), (''UIO'', ''America/Guayaquil'')]"

definition TZ_EAST_ASIA :: "(string, string) dict" where
  "TZ_EAST_ASIA =
    [(''CAN'', ''Asia/Shanghai''), (''CGK'', ''Asia/Jakarta''), (''CGO'', ''Asia/Shanghai''), (''CTU'', ''Asia/Shanghai''),
    (''DPS'', ''Asia/Makassar''), (''FUK'', ''Asia/Tokyo''), (''HAN'', ''Asia/Bangkok''), (''HGH'', ''Asia/Shanghai''),
    (''HKG'', ''Asia/Hong_Kong''), (''HKT'', ''Asia/Bangkok''), (''HND'', ''Asia/Tokyo''), (''ICN'', ''Asia/Seoul''), (''KIX'', ''Asia/Tokyo''),
    (''KMG'', ''Asia/Shanghai''), (''KUL'', ''Asia/Kuala_Lumpur''), (''MFM'', ''Asia/Macau''), (''MNL'', ''Asia/Manila''),
    (''NGO'', ''Asia/Tokyo''), (''NRT'', ''Asia/Tokyo''), (''PEK'', ''Asia/Shanghai''), (''PEN'', ''Asia/Kuala_Lumpur''),
    (''PKX'', ''Asia/Shanghai''), (''PNH'', ''Asia/Phnom_Penh''), (''PVG'', ''Asia/Shanghai''), (''RGN'', ''Asia/Yangon''),
    (''SGN'', ''Asia/Ho_Chi_Minh''), (''SHA'', ''Asia/Shanghai''), (''SIN'', ''Asia/Singapore''), (''SZX'', ''Asia/Shanghai''),
    (''TAO'', ''Asia/Shanghai''), (''TPE'', ''Asia/Taipei''), (''TSA'', ''Asia/Taipei''), (''ULN'', ''Asia/Ulaanbaatar''),
    (''VTE'', ''Asia/Vientiane''), (''XIY'', ''Asia/Shanghai''), (''BKK'', ''Asia/Bangkok''), (''DMK'', ''Asia/Bangkok'')]"

definition TZ_OCEANIA :: "(string, string) dict" where
  "TZ_OCEANIA =
    [(''ADL'', ''Australia/Adelaide''), (''AKL'', ''Pacific/Auckland''), (''BNE'', ''Australia/Brisbane''), (''CBR'', ''Australia/Sydney''),
    (''CHC'', ''Pacific/Auckland''), (''CNS'', ''Australia/Brisbane''), (''DRW'', ''Australia/Darwin''), (''HBA'', ''Australia/Hobart''),
    (''MEL'', ''Australia/Melbourne''), (''NAN'', ''Pacific/Fiji''), (''OOL'', ''Australia/Brisbane''), (''PER'', ''Australia/Perth''),
    (''SYD'', ''Australia/Sydney''), (''WLG'', ''Pacific/Auckland''), (''ZQN'', ''Pacific/Auckland'')]"

definition TZ_EUROPE_MORE :: "(string, string) dict" where
  "TZ_EUROPE_MORE =
    [(''AGP'', ''Europe/Madrid''), (''ALC'', ''Europe/Madrid''), (''BGO'', ''Europe/Oslo''), (''BLQ'', ''Europe/Rome''), (''BOD'', ''Europe/Paris''),
    (''BRS'', ''Europe/London''), (''CGN'', ''Europe/Berlin''), (''CLJ'', ''Europe/Bucharest''), (''CRL'', ''Europe/Brussels''),
    (''EIN'', ''Europe/Amsterdam''), (''FAO'', ''Europe/Lisbon''), (''GOT'', ''Europe/Stockholm''), (''HER'', ''Europe/Athens''),
    (''KBP'', ''Europe/Kiev''), (''KRK'', ''Europe/Warsaw''), (''LJU'', ''Europe/Ljubljana''), (''NAP'', ''Europe/Rome''),
    (''OPO'', ''Europe/Lisbon''), (''SKG'', ''Europe/Athens''), (''SVG'', ''Europe/Oslo''), (''TFS'', ''Atlantic/Canary''),
    (''TRN'', ''Europe/Rome''), (''TXL'', ''Europe/Berlin''), (''WRO'', ''Europe/Warsaw'')]"

definition TZ_ASIA_MORE :: "(string, string) dict" where
  "TZ_ASIA_MORE =
    [(''BWN'', ''Asia/Brunei''), (''CEB'', ''Asia/Manila''), (''CJU'', ''Asia/Seoul''), (''CRK'', ''Asia/Manila''), (''CXR'', ''Asia/Ho_Chi_Minh''),
    (''DAD'', ''Asia/Ho_Chi_Minh''), (''DLC'', ''Asia/Shanghai''), (''HRB'', ''Asia/Shanghai''), (''KCH'', ''Asia/Kuching''),
    (''KIJ'', ''Asia/Tokyo''), (''KOJ'', ''Asia/Tokyo''), (''KWL'', ''Asia/Shanghai''), (''MDL'', ''Asia/Yangon''), (''OKA'', ''Asia/Tokyo''),
    (''PUS'', ''Asia/Seoul''), (''REP'', ''Asia/Phnom_Penh''), (''SPK'', ''Asia/Tokyo''), (''SUB'', ''Asia/Jakarta''), (''TSN'', ''Asia/Shanghai''),
    (''URC'', ''Asia/Urumqi''), (''WUH'', ''Asia/Shanghai'')]"

definition TZ_AFRICA :: "(string, string) dict" where
  "TZ_AFRICA =
    [(''ABJ'', ''Africa/Abidjan''), (''ACC'', ''Africa/Accra''), (''ADD'', ''Africa/Addis_Ababa''), (''ALG'', ''Africa/Algiers''),
    (''CAI'', ''Africa/Cairo''), (''CMN'', ''Africa/Casablanca''), (''CPT'', ''Africa/Johannesburg''), (''DAR'', ''Africa/Dar_es_Salaam''),
    (''DKR'', ''Africa/Dakar''), (''DSS'', ''Africa/Dakar''), (''DUR'', ''Africa/Johannesburg''), (''EBB'', ''Africa/Kampala''),
    (''HRE'', ''Africa/Harare''), (''JNB'', ''Africa/Johannesburg''), (''KGL'', ''Africa/Kigali''), (''LAD'', ''Africa/Luanda''),
    (''LOS'', ''Africa/Lagos''), (''LUN'', ''Africa/Lusaka''), (''MBA'', ''Africa/Nairobi''), (''MPM'', ''Africa/Maputo''),
    (''NBO'', ''Africa/Nairobi''), (''RAK'', ''Africa/Casablanca''), (''SEZ'', ''Indian/Mahe''), (''TUN'', ''Africa/Tunis'')]"

definition IATA_TIMEZONE :: "(string, string) dict" where
  "IATA_TIMEZONE = TZ_INDIA @ TZ_SOUTH_ASIA @ TZ_MIDDLE_EAST @ TZ_CENTRAL_ASIA @ TZ_BRITISH_ISLES @ TZ_CONTINENT @ TZ_RUSSIA @ TZ_USA @ TZ_CANADA @ TZ_MEXICO @ TZ_LATIN_AMERICA @ TZ_EAST_ASIA @ TZ_OCEANIA @ TZ_EUROPE_MORE @ TZ_ASIA_MORE @ TZ_AFRICA"

section \<open>Lookup and conversion\<close>

definition resolve_airport_tz :: "string \<Rightarrow> (string, string) dict option \<Rightarrow> string option" where
  "resolve_airport_tz iata overrides =
     (if iata = [] then None
      else let code = py_upper (py_strip iata)
           in case find (\<lambda>(k, v). py_upper (py_strip k) = code) (case overrides of None \<Rightarrow> [] | Some ov \<Rightarrow> ov) of
                Some (k, v) \<Rightarrow> Some v
              | None \<Rightarrow> map_of IATA_TIMEZONE code)"

datatype tz_error = Tz_aware | Tz_unknown_airport string | Tz_unknown_zone string | Tz_overflow

type_synonym tz_database = "string \<Rightarrow> (int \<Rightarrow> int) option"

definition apply_airport_timezone :: "tz_database \<Rightarrow> string \<Rightarrow> int \<times> int option \<Rightarrow> (string, string) dict option \<Rightarrow> tz_error + int" where
  "apply_airport_timezone tz iata naive overrides =
     (if snd naive \<noteq> None then Inl Tz_aware
      else case resolve_airport_tz iata overrides of
             None \<Rightarrow> Inl (Tz_unknown_airport iata)
           | Some zone \<Rightarrow> (case tz zone of
               None \<Rightarrow> Inl (Tz_unknown_zone zone)
             | Some offset \<Rightarrow> (case to_utc (fst naive) (offset (fst naive)) of None \<Rightarrow> Inl Tz_overflow | Some t \<Rightarrow> Inr t)))"

section \<open>The registry is well formed\<close>

text \<open>Every key is a code of three upper-case letters, so that a canonical airport code is looked up as it is written.\<close>

definition airport_code :: "string \<Rightarrow> bool" where
  "airport_code s \<longleftrightarrow> length s = 3 \<and> list_all is_upper_char s"

lemma registry_codes: "list_all (\<lambda>(k, v). airport_code k) IATA_TIMEZONE"
  by (simp add: IATA_TIMEZONE_def airport_code_def is_upper_char_def
      TZ_INDIA_def TZ_SOUTH_ASIA_def TZ_MIDDLE_EAST_def TZ_CENTRAL_ASIA_def TZ_BRITISH_ISLES_def TZ_CONTINENT_def TZ_RUSSIA_def TZ_USA_def
      TZ_CANADA_def TZ_MEXICO_def TZ_LATIN_AMERICA_def TZ_EAST_ASIA_def TZ_OCEANIA_def TZ_EUROPE_MORE_def TZ_ASIA_MORE_def TZ_AFRICA_def)

lemma airport_code_normal:
  assumes "airport_code s"
  shows "py_upper (py_strip s) = s"
proof -
  have "\<not> py_isspace c" if "is_upper_char c" for c using that by (auto simp: is_upper_char_def py_isspace_def Let_def)
  then have "py_strip s = s" using assms by (intro py_strip_no_space) (auto simp: airport_code_def list_all_iff)
  moreover have "py_upper s = s" using assms by (intro py_upper_id) (auto simp: airport_code_def list_all_iff)
  ultimately show ?thesis by simp
qed

lemma registered_airport:
  assumes "(k, v) \<in> set IATA_TIMEZONE"
  shows "\<exists>zone. resolve_airport_tz k None = Some zone"
proof -
  have "airport_code k" using assms registry_codes by (auto simp: list_all_iff)
  then have "k \<noteq> []" "py_upper (py_strip k) = k" using airport_code_normal by (auto simp: airport_code_def)
  moreover have "map_of IATA_TIMEZONE k \<noteq> None" using assms weak_map_of_SomeI [of k v IATA_TIMEZONE] by auto
  ultimately show ?thesis by (auto simp: resolve_airport_tz_def)
qed

end
