(* ===== verification/Amadeus.thy ===== *)
theory Amadeus
  imports Amadeus_Client Airports
begin

text \<open>
  \<^verbatim>\<open>drivers/amadeus/mapping.py\<close> and \<^verbatim>\<open>driver.py\<close>: vendor JSON to canonical segments, fares and reservations, canonical passengers
  to vendor travellers, and the driver with its offer cache (\<^verbatim>\<open>Caches\<close>) and passenger resolver. Where a vendor body has
  another shape than the code expects, the model raises the Python error that the code would.
\<close>

section \<open>JSON of any shape\<close>

fun py_type_name :: "json \<Rightarrow> string" where
  "py_type_name JNull = ''NoneType''"
| "py_type_name (JBool b) = ''bool''"
| "py_type_name (JInt i) = ''int''"
| "py_type_name (JFloat t) = ''float''"
| "py_type_name (JStr s) = ''str''"
| "py_type_name (JList xs) = ''list''"
| "py_type_name (JObj d) = ''dict''"

text \<open>\<^verbatim>\<open>for x in v\<close> and \<^verbatim>\<open>len(v)\<close>.\<close>

fun py_iter :: "json \<Rightarrow> failure + json list" where
  "py_iter (JList xs) = Inr xs"
| "py_iter (JStr s) = Inr (map (\<lambda>c. JStr [c]) s)"
| "py_iter (JObj d) = Inr (map (\<lambda>(k, v). JStr k) d)"
| "py_iter v = Inl (Raw_failure ''TypeError'')"

definition py_len :: "json \<Rightarrow> failure + nat" where
  "py_len v = bind_res (py_iter v) (\<lambda>xs. Inr (length xs))"

text \<open>\<^verbatim>\<open>(v or {}).get(k)\<close>; other values than objects have no \<^verbatim>\<open>get\<close>.\<close>

fun get_of :: "json \<Rightarrow> string \<Rightarrow> failure + json option" where
  "get_of (JObj d) k = Inr (map_of d k)"
| "get_of v k = (if truthy v then Inl (Raw_failure ''AttributeError'') else Inr None)"

text \<open>\<^verbatim>\<open>v or []\<close>\<close>

definition or_empty :: "json option \<Rightarrow> json" where
  "or_empty v = (case v of Some j \<Rightarrow> if truthy j then j else JList [] | None \<Rightarrow> JList [])"

section \<open>Mapping: fields\<close>

definition missing_field :: "string \<Rightarrow> string \<Rightarrow> failure" where
  "missing_field k ctx = am_error Validation_failed (''Amadeus '' @ ctx @ '': missing required field '' @ [CHR 0x27] @ k @ [CHR 0x27] @ ''.'')"

definition require :: "obj \<Rightarrow> string \<Rightarrow> string \<Rightarrow> failure + json" where
  "require d k ctx = (case map_of d k of
     None \<Rightarrow> Inl (missing_field k ctx)
   | Some v \<Rightarrow> if v = JNull \<or> v = JStr [] then Inl (missing_field k ctx) else Inr v)"

text \<open>\<^verbatim>\<open>_require\<close> on a value that need not be an object.\<close>

fun require_in :: "json \<Rightarrow> string \<Rightarrow> string \<Rightarrow> failure + json" where
  "require_in (JObj d) k ctx = require d k ctx"
| "require_in (JStr s) k ctx = Inl (if sublist k s then Raw_failure ''TypeError'' else missing_field k ctx)"
| "require_in (JList xs) k ctx = Inl (if JStr k \<in> set xs then Raw_failure ''TypeError'' else missing_field k ctx)"
| "require_in v k ctx = Inl (Raw_failure ''TypeError'')"

text \<open>\<^verbatim>\<open>_parse_decimal\<close>; the special values pass here and are refused by the canonical models.\<close>

definition parse_decimal :: "json \<Rightarrow> string \<Rightarrow> failure + decimal_text" where
  "parse_decimal v ctx = (case decimal_of_text (py_str v) of
     Dt_malformed \<Rightarrow> Inl (am_error Validation_failed (''Amadeus '' @ ctx @ '': cannot parse decimal from '' @ repr_json v @ ''.''))
   | d \<Rightarrow> Inr d)"

fun money_from :: "decimal_text \<Rightarrow> string \<Rightarrow> failure + money" where
  "money_from (Dt_value (Num d)) cur = model_res (money_of (A_decimal d) cur)"
| "money_from d cur = Inl (Model_failure (Validation ''amount''))"

definition zulu :: "string \<Rightarrow> string" where
  "zulu s = concat (map (\<lambda>c. if c = CHR ''Z'' then ''+00:00'' else [c]) s)"

definition read_datetime :: "json \<Rightarrow> string \<Rightarrow> failure + int \<times> int option" where
  "read_datetime v ctx = (case v of
     JStr s \<Rightarrow> (case datetime_fromisoformat (zulu s) of
         None \<Rightarrow> Inl (am_error Validation_failed (''Amadeus '' @ ctx @ '': cannot parse datetime '' @ repr_str s @ ''.''))
       | Some r \<Rightarrow> Inr r)
   | _ \<Rightarrow> Inl (am_error Validation_failed (''Amadeus '' @ ctx @ '': datetime must be a string, got '' @ py_type_name v @ ''.'')))"

definition as_utc :: "int \<Rightarrow> int \<Rightarrow> failure + int" where
  "as_utc local off = (case to_utc local off of Some t \<Rightarrow> Inr t | None \<Rightarrow> Inl (Raw_failure ''OverflowError''))"

definition parse_datetime :: "json \<Rightarrow> string \<Rightarrow> failure + int" where
  "parse_datetime v ctx = bind_res (read_datetime v ctx) (\<lambda>(local, off). as_utc local (case off of None \<Rightarrow> 0 | Some z \<Rightarrow> z))"

fun tz_failure :: "tz_error \<Rightarrow> failure" where
  "tz_failure (Tz_unknown_zone z) = Raw_failure ''ZoneInfoNotFoundError''"
| "tz_failure Tz_overflow = Raw_failure ''OverflowError''"
| "tz_failure e = Raw_failure ''ValueError''"

definition parse_airport_datetime :: "tz_database \<Rightarrow> json \<Rightarrow> string \<Rightarrow> string \<Rightarrow> failure + int" where
  "parse_airport_datetime tz v iata ctx = bind_res (read_datetime v ctx) (\<lambda>(local, off).
     case off of
       Some z \<Rightarrow> as_utc local z
     | None \<Rightarrow> (case resolve_airport_tz iata None of
         None \<Rightarrow> Inr local
       | Some zone \<Rightarrow> (case apply_airport_timezone tz iata (local, None) None of Inl e \<Rightarrow> Inl (tz_failure e) | Inr t \<Rightarrow> Inr t)))"

definition iata :: "json \<Rightarrow> string \<Rightarrow> failure + string" where
  "iata v ctx = (case v of
     JStr (c # cs) \<Rightarrow> Inr (py_upper (c # cs))
   | _ \<Rightarrow> Inl (am_error Validation_failed (''Amadeus '' @ ctx @ '': expected IATA code string, got '' @ repr_json v @ ''.'')))"

section \<open>Mapping: segments\<close>

text \<open>\<^verbatim>\<open>(seg.get(k) or {}).get(k2)\<close> where the first is an object, kept when truthy.\<close>

definition nested_true :: "obj \<Rightarrow> string \<Rightarrow> string \<Rightarrow> json option" where
  "nested_true d k k2 = (case get_true d k of Some (JObj e) \<Rightarrow> get_true e k2 | _ \<Rightarrow> None)"

definition amadeus_segment_to_flight_segment :: "tz_database \<Rightarrow> obj \<Rightarrow> ('w, flight_segment) amadeus" where
  "amadeus_segment_to_flight_segment tz seg =
     act_bind (act_lift (require seg ''departure'' ''segment'')) (\<lambda>dep.
     act_bind (act_lift (require seg ''arrival'' ''segment'')) (\<lambda>arr.
     act_bind (act_lift (require seg ''number'' ''segment'')) (\<lambda>num.
     act_bind (act_lift (bind_res (require seg ''carrierCode'' ''segment'') (\<lambda>v. iata v ''segment.carrierCode''))) (\<lambda>marketing.
     act_bind (act_lift (bind_res (require_in dep ''iataCode'' ''segment.departure'') (\<lambda>v. iata v ''segment.departure.iataCode''))) (\<lambda>orig.
     act_bind (act_lift (bind_res (require_in arr ''iataCode'' ''segment.arrival'') (\<lambda>v. iata v ''segment.arrival.iataCode''))) (\<lambda>dest.
     act_bind am_entity_id (\<lambda>ident.
     act_bind (act_lift (opt_res (\<lambda>v. iata v ''segment.operating'') (nested_true seg ''operating'' ''carrierCode''))) (\<lambda>operating.
     act_bind (act_lift (bind_res (require_in dep ''at'' ''segment.departure'') (\<lambda>v. parse_airport_datetime tz v orig ''segment.departure.at''))) (\<lambda>leaves.
     act_bind (act_lift (bind_res (require_in arr ''at'' ''segment.arrival'') (\<lambda>v. parse_airport_datetime tz v dest ''segment.arrival.at''))) (\<lambda>lands.
       act_lift (model_res (flight_segment_of \<lparr>fs_id = ident, fs_marketing_carrier = marketing, fs_operating_carrier = operating,
         fs_flight_number = py_str num, fs_origin = orig, fs_destination = dest, fs_departure_at = leaves, fs_arrival_at = lands,
         fs_cabin = Economy, fs_booking_class = None, fs_fare_basis = None,
         fs_aircraft = map_option py_str (nested_true seg ''aircraft'' ''code''), fs_baggage = None, fs_status = Seg_planned\<rparr>))))))))))))"

section \<open>Mapping: fares\<close>

text \<open>\<^verbatim>\<open>d.get(k, "0")\<close>\<close>

definition amount_field :: "obj \<Rightarrow> json" where
  "amount_field d = (case map_of d ''amount'' of Some v \<Rightarrow> v | None \<Rightarrow> JStr ''0'')"

fun tax_lines :: "string \<Rightarrow> decimal_text \<Rightarrow> string \<Rightarrow> json list \<Rightarrow> failure + tax_line list" where
  "tax_lines offer_id base cur [] = Inr []"
| "tax_lines offer_id base cur (JObj tax # ts) =
     bind_res (parse_decimal (amount_field tax) (''offer '' @ offer_id @ ''.tax.amount'')) (\<lambda>amount.
     bind_res (money_from base cur) (\<lambda>taxable.
     bind_res (money_from amount cur) (\<lambda>m.
     bind_res (model_res (tax_line_of NO_TAX (str_or (get_true tax ''code'') ''TAX'') 0 taxable m None)) (\<lambda>t.
     bind_res (tax_lines offer_id base cur ts) (\<lambda>rest. Inr (t # rest))))))"
| "tax_lines offer_id base cur (v # ts) = tax_lines offer_id base cur ts"

text \<open>\<^verbatim>\<open>fee_amount == 0\<close>, which raises for a signalling not-a-number.\<close>

fun fee_is_zero :: "decimal_text \<Rightarrow> failure + bool" where
  "fee_is_zero (Dt_value (Num d)) = Inr (dec_is_zero d)"
| "fee_is_zero Dt_signalling = Inl (Raw_failure ''InvalidOperation'')"
| "fee_is_zero d = Inr False"

fun fee_components :: "string \<Rightarrow> string \<Rightarrow> json list \<Rightarrow> failure + fare_component list" where
  "fee_components offer_id cur [] = Inr []"
| "fee_components offer_id cur (JObj fee # fs) =
     bind_res (parse_decimal (amount_field fee) (''offer '' @ offer_id @ ''.fee.amount'')) (\<lambda>amount.
     bind_res (fee_is_zero amount) (\<lambda>zero.
       if zero then fee_components offer_id cur fs
       else bind_res (money_from amount cur) (\<lambda>m.
            bind_res (fee_components offer_id cur fs) (\<lambda>rest.
              Inr (\<lparr>fc_label = py_strip (str_or (get_true fee ''type'') ''FEE''), fc_amount = m\<rparr> # rest)))))"
| "fee_components offer_id cur (v # fs) = fee_components offer_id cur fs"

text \<open>One entry of \<^verbatim>\<open>travelerPricings\<close>.\<close>

record traveler_price =
  tp_currency :: string
  tp_base :: decimal_text
  tp_total :: decimal_text
  tp_taxes :: "tax_line list"
  tp_fees :: "fare_component list"

definition traveler_price_of :: "string \<Rightarrow> json \<Rightarrow> failure + traveler_price" where
  "traveler_price_of offer_id tp =
     (case tp of
        JObj d \<Rightarrow>
          bind_res (require d ''price'' (''offer '' @ offer_id @ ''.travelerPricings.price'')) (\<lambda>price.
          bind_res (require_in price ''currency'' ''price.currency'') (\<lambda>cur.
          bind_res (bind_res (require_in price ''base'' ''price.base'') (\<lambda>v. parse_decimal v ''price.base'')) (\<lambda>base.
          bind_res (bind_res (require_in price ''total'' ''price.total'') (\<lambda>v. parse_decimal v ''price.total'')) (\<lambda>tot.
          let c = py_upper (py_str cur) in
          bind_res (bind_res (bind_res (get_of price ''taxes'') (\<lambda>v. py_iter (or_empty v))) (tax_lines offer_id base c)) (\<lambda>taxes.
          bind_res (bind_res (bind_res (get_of price ''fees'') (\<lambda>v. py_iter (or_empty v))) (fee_components offer_id c)) (\<lambda>fees.
            Inr \<lparr>tp_currency = c, tp_base = base, tp_total = tot, tp_taxes = taxes, tp_fees = fees\<rparr>))))))
      | _ \<Rightarrow> Inl (am_error Validation_failed (''Amadeus offer '' @ offer_id @ '': travelerPricing is not an object.'')))"

text \<open>\<^verbatim>\<open>Fare(...)\<close>, whose arguments are built in the order they are written.\<close>

definition fare_from :: "string \<Rightarrow> string \<Rightarrow> string \<Rightarrow> string \<Rightarrow> int option \<Rightarrow> traveler_price \<Rightarrow> string \<Rightarrow> failure + fare" where
  "fare_from tenant itinerary offer_id pax valid tp ident =
     bind_res (money_from (tp_base tp) (tp_currency tp)) (\<lambda>base.
     bind_res (money_from (tp_total tp) (tp_currency tp)) (\<lambda>tot.
       model_res (fare_of \<lparr>fa_id = ident, fa_tenant_id = tenant, fa_itinerary_id = itinerary, fa_passenger_id = pax, fa_base = base,
         fa_fees = tp_fees tp, fa_taxes = tp_taxes tp, fa_total = tot, fa_fare_rules = None, fa_source = AMADEUS,
         fa_source_ref = Some offer_id, fa_valid_until = valid\<rparr>)))"

fun traveler_fares :: "string \<Rightarrow> string \<Rightarrow> string \<Rightarrow> int option \<Rightarrow> (string \<times> json) list \<Rightarrow> ('w, fare list) amadeus" where
  "traveler_fares tenant itinerary offer_id valid [] = act_return []"
| "traveler_fares tenant itinerary offer_id valid ((pax, tp) # ps) =
     act_bind (act_lift (traveler_price_of offer_id tp)) (\<lambda>p.
     act_bind am_entity_id (\<lambda>ident.
     act_bind (act_lift (fare_from tenant itinerary offer_id pax valid p ident)) (\<lambda>f.
     act_bind (traveler_fares tenant itinerary offer_id valid ps) (\<lambda>fs. act_return (f # fs)))))"

definition amadeus_offer_to_fares :: "obj \<Rightarrow> string list \<Rightarrow> string \<Rightarrow> string \<Rightarrow> ('w, fare list) amadeus" where
  "amadeus_offer_to_fares offer passenger_ids itinerary tenant =
     act_bind (act_lift (bind_res (require offer ''id'' ''offer'') (\<lambda>v. Inr (py_str v)))) (\<lambda>offer_id.
       case or_empty (map_of offer ''travelerPricings'') of
         JList (t # ts) \<Rightarrow>
           if length passenger_ids \<noteq> length (t # ts)
           then act_raise (am_error Validation_failed (''Amadeus offer '' @ offer_id @ '': expected '' @ show_nat (length (t # ts))
                  @ '' passenger_ids, got '' @ show_nat (length passenger_ids) @ ''.''))
           else act_bind (act_lift (opt_res (\<lambda>v. parse_datetime v ''offer.lastTicketingDateTime'') (get_true offer ''lastTicketingDateTime''))) (\<lambda>valid.
                traveler_fares tenant itinerary offer_id valid (zip passenger_ids (t # ts)))
       | _ \<Rightarrow> act_raise (am_error Validation_failed (''Amadeus offer '' @ offer_id @ '': travelerPricings missing or empty.'')))"

section \<open>Mapping: reservations\<close>

definition ORDER_STATUS_TO_PNR :: "(string, pnr_status) dict" where
  "ORDER_STATUS_TO_PNR = [(''CONFIRMED'', Pnr_confirmed), (''HK'', Pnr_confirmed), (''HELD'', Pnr_confirmed), (''TICKETED'', Pnr_ticketed),
     (''CANCELLED'', Pnr_cancelled), (''XX'', Pnr_cancelled), (''SCHEDULE_CHANGE'', Pnr_schedule_change)]"

fun record_reference :: "json \<Rightarrow> string option" where
  "record_reference (JObj rec) = map_option py_str (get_true rec ''reference'')"
| "record_reference v = None"

text \<open>The locator: the first reference among the associated records, else the order id.\<close>

definition order_locator :: "obj \<Rightarrow> string \<Rightarrow> string" where
  "order_locator order order_id = (case or_empty (map_of order ''associatedRecords'') of
     JList recs \<Rightarrow> (case List.map_filter record_reference recs of [] \<Rightarrow> order_id | ref # _ \<Rightarrow> if ref = [] then order_id else ref)
   | _ \<Rightarrow> order_id)"

text \<open>\<^verbatim>\<open>(x or {}).get(k) or []\<close> iterated.\<close>

definition inner_items :: "string \<Rightarrow> json \<Rightarrow> failure + json list" where
  "inner_items k v = bind_res (get_of v k) (\<lambda>r. py_iter (or_empty r))"

definition concat_res :: "('a \<Rightarrow> failure + 'b list) \<Rightarrow> 'a list \<Rightarrow> failure + 'b list" where
  "concat_res f xs = bind_res (map_res f xs) (\<lambda>rs. Inr (concat rs))"

definition order_segments :: "obj \<Rightarrow> failure + json list" where
  "order_segments order = bind_res (py_iter (or_empty (map_of order ''flightOffers'')))
     (concat_res (\<lambda>fo. bind_res (inner_items ''itineraries'' fo) (concat_res (inner_items ''segments''))))"

text \<open>\<^verbatim>\<open>n\<close> identifiers; the segments of an order are only counted.\<close>

fun am_entity_ids :: "nat \<Rightarrow> ('w, string list) amadeus" where
  "am_entity_ids 0 = act_return []"
| "am_entity_ids (Suc n) = act_bind am_entity_id (\<lambda>i. act_bind (am_entity_ids n) (\<lambda>is. act_return (i # is)))"

definition amadeus_order_to_pnr :: "obj \<Rightarrow> string \<Rightarrow> ('w, pnr) amadeus" where
  "amadeus_order_to_pnr order tenant =
     act_bind (act_lift (bind_res (require order ''id'' ''order'') (\<lambda>v. Inr (py_str v)))) (\<lambda>order_id.
     let status = dict_get_or ORDER_STATUS_TO_PNR (py_upper (str_or (first_true order [''status'', ''orderStatus'']) ''CONFIRMED'')) Pnr_confirmed
     in case or_empty (map_of order ''travelers'') of
          JList (t # ts) \<Rightarrow>
            act_bind (am_entity_ids (length (t # ts))) (\<lambda>pas.
            act_bind (act_lift (order_segments order)) (\<lambda>segments.
            act_bind (am_entity_ids (length segments)) (\<lambda>segs.
            act_bind (act_guard (segs \<noteq> []) (am_error Validation_failed (''Amadeus order '' @ order_id @ '': no segments found in flightOffers.''))) (\<lambda>_.
            act_bind (act_lift (opt_res (\<lambda>v. parse_datetime v ''order.ticketingAgreement.dateTime'') (nested_true order ''ticketingAgreement'' ''dateTime''))) (\<lambda>ttl.
            act_bind wall_clock (\<lambda>now.
            act_bind am_entity_id (\<lambda>ident.
              act_lift (model_res (pnr_of \<lparr>pn_id = ident, pn_tenant_id = tenant, pn_locator = order_locator order order_id, pn_source = AMADEUS,
                pn_source_ref = Some order_id, pn_status = status, pn_passenger_ids = pas, pn_segment_ids = segs, pn_fare_ids = [],
                pn_ticket_time_limit = ttl, pn_created_at = now, pn_updated_at = now\<rparr>)))))))))
        | _ \<Rightarrow> act_raise (am_error Validation_failed (''Amadeus order '' @ order_id @ '': travelers missing or empty.'')))"

section \<open>Mapping: search criteria\<close>

fun cabin_to_amadeus :: "cabin_class \<Rightarrow> string" where
  "cabin_to_amadeus Economy = ''ECONOMY''"
| "cabin_to_amadeus Premium_economy = ''PREMIUM_ECONOMY''"
| "cabin_to_amadeus Business = ''BUSINESS''"
| "cabin_to_amadeus First = ''FIRST''"

definition criteria_to_query_params :: "fare_search_criteria \<Rightarrow> (string, string) dict" where
  "criteria_to_query_params c =
     (let count = (\<lambda>t. dict_get_or (sc_passengers c) t 0); grown = count P_adult + count P_senior
      in [(''originLocationCode'', sc_origin c), (''destinationLocationCode'', sc_destination c),
          (''departureDate'', iso_date (sc_outbound_date c)), (''travelClass'', cabin_to_amadeus (sc_cabin c)),
          (''currencyCode'', case sc_max_price c of Some m \<Rightarrow> m_currency m | None \<Rightarrow> ''USD''),
          (''nonStop'', if sc_direct_only c then ''true'' else ''false'')]
         @ (case sc_return_date c of Some d \<Rightarrow> [(''returnDate'', iso_date d)] | None \<Rightarrow> [])
         @ [(''adults'', show_int (if 0 < grown then grown else max (count P_adult) 1))]
         @ (if count P_child \<noteq> 0 then [(''children'', show_int (count P_child))] else [])
         @ (if count P_infant \<noteq> 0 then [(''infants'', show_int (count P_infant))] else [])
         @ (if sc_airline_whitelist c \<noteq> [] then [(''includedAirlineCodes'', join_with '','' (sc_airline_whitelist c))] else [])
         @ (if sc_airline_blacklist c \<noteq> [] then [(''excludedAirlineCodes'', join_with '','' (sc_airline_blacklist c))] else [])
         @ (case sc_max_price c of Some m \<Rightarrow> [(''maxPrice'', show_int (truncated (m_amount m)))] | None \<Rightarrow> []))"

section \<open>The driver: offers\<close>

record amadeus_driver =
  ad_config :: amadeus_config
  ad_tenant_id :: string
  ad_resolver :: "(string \<Rightarrow> string list \<Rightarrow> failure + passenger list) option"

definition amadeus_driver_new :: "amadeus_config \<Rightarrow> string option \<Rightarrow> (string \<Rightarrow> string list \<Rightarrow> failure + passenger list) option \<Rightarrow> ('w, amadeus_driver) amadeus" where
  "amadeus_driver_new cfg tenant resolver =
     act_bind (case tenant of Some (c # cs) \<Rightarrow> act_return (c # cs) | _ \<Rightarrow> am_entity_id) (\<lambda>t.
       act_return \<lparr>ad_config = cfg, ad_tenant_id = t, ad_resolver = resolver\<rparr>)"

definition OFFER_TTL_SECONDS :: int where "OFFER_TTL_SECONDS = 20 * 60"

definition REPRICE_THRESHOLD_SECONDS :: int where "REPRICE_THRESHOLD_SECONDS = 5 * 60"

definition offer_cache_key :: "string \<Rightarrow> string" where
  "offer_cache_key fare_id = ''amadeus:fare:'' @ fare_id"

definition seconds :: "int \<Rightarrow> rat" where
  "seconds us = of_int us / 1000000"

text \<open>The offer cache of the driver, when it has one; what \<^verbatim>\<open>put\<close> raises is only logged.\<close>

definition cache_put :: "string \<Rightarrow> obj \<Rightarrow> ('w, unit) amadeus" where
  "cache_put key offer = act_bind wall_clock (\<lambda>now. act_update (\<lambda>s.
     case aw_offers s of None \<Rightarrow> s
     | Some c \<Rightarrow> (case offer_put (seconds now) key OFFER_TTL_SECONDS offer c of Inl e \<Rightarrow> s | Inr c' \<Rightarrow> s\<lparr>aw_offers := Some c'\<rparr>)))"

fun cache_fares :: "obj \<Rightarrow> fare list \<Rightarrow> ('w, unit) amadeus" where
  "cache_fares offer [] = act_return ()"
| "cache_fares offer (f # fs) = act_bind (cache_put (offer_cache_key (fa_id f)) offer) (\<lambda>_. cache_fares offer fs)"

definition cache_offer :: "obj \<Rightarrow> fare list \<Rightarrow> ('w, unit) amadeus" where
  "cache_offer offer fs = act_bind (act_read aw_offers) (\<lambda>c. if c = None then act_return () else cache_fares offer fs)"

text \<open>\<^verbatim>\<open>get\<close> reads the clock for the sweep, and once more when there is an entry.\<close>

definition cache_get :: "string \<Rightarrow> ('w, obj option) amadeus" where
  "cache_get key s = (case aw_offers s of None \<Rightarrow> (Inr None, s)
     | Some c \<Rightarrow>
         (let now1 = seconds (aw_wall s (aw_looks s)); now2 = seconds (aw_wall s (Suc (aw_looks s)));
              looks = (if map_of (oc_store (sweep now1 c)) key = None then 1 else 2); (r, c') = offer_get now1 now2 key c
          in (Inr r, s\<lparr>aw_offers := Some c', aw_looks := aw_looks s + looks\<rparr>)))"

text \<open>The driver logs and swallows a failure of \<^verbatim>\<open>delete\<close>; that of the in-memory cache cannot fail.\<close>

definition cache_delete :: "string \<Rightarrow> 'w amadeus_world \<Rightarrow> 'w amadeus_world" where
  "cache_delete key s = s\<lparr>aw_offers := map_option (offer_delete key) (aw_offers s)\<rparr>"

fun offers_fares :: "string \<Rightarrow> string \<Rightarrow> string list \<Rightarrow> json list \<Rightarrow> ('w, fare list) amadeus" where
  "offers_fares tenant itinerary pax [] = act_return []"
| "offers_fares tenant itinerary pax (JObj offer # os) =
     act_bind (act_lift (py_len (or_empty (map_of offer ''travelerPricings'')))) (\<lambda>n.
     let pax_slice = (if n \<noteq> 0 then take n pax else pax)
     in if length pax_slice \<noteq> n then offers_fares tenant itinerary pax os
        else act_bind (amadeus_offer_to_fares offer pax_slice itinerary tenant) (\<lambda>fs.
             act_bind (cache_offer offer fs) (\<lambda>_.
             act_bind (offers_fares tenant itinerary pax os) (\<lambda>rest. act_return (fs @ rest)))))"
| "offers_fares tenant itinerary pax (v # os) = offers_fares tenant itinerary pax os"

definition affordable :: "money option \<Rightarrow> fare \<Rightarrow> bool" where
  "affordable limit f = (case limit of None \<Rightarrow> True
     | Some m \<Rightarrow> m_currency (fa_total f) = m_currency m \<and> dec_le (m_amount (fa_total f)) (m_amount m))"

definition am_search :: "'w amadeus_env \<Rightarrow> amadeus_driver \<Rightarrow> fare_search_criteria \<Rightarrow> ('w, fare list) amadeus" where
  "am_search env d c =
     act_bind (act_guard (1 \<le> sc_max_results c \<and> sc_max_results c \<le> 250) (am_error Validation_failed (''max_results must be between 1 and 250 (got ''
       @ show_int (sc_max_results c) @ ''); Amadeus Self-Service rejects anything larger.''))) (\<lambda>_.
     act_bind (get_json env (ad_config d) ''/v2/shopping/flight-offers''
       (Some (AList.update ''max'' (show_int (sc_max_results c)) (criteria_to_query_params c)))) (\<lambda>body.
     act_bind (act_lift (bind_res (get_of body ''data'') (\<lambda>v. py_iter (or_empty v)))) (\<lambda>offers.
     act_bind am_entity_id (\<lambda>itinerary.
     act_bind (am_entity_ids (nat (sum_list (dict_values (sc_passengers c))))) (\<lambda>pax.
     act_bind (offers_fares (ad_tenant_id d) itinerary pax offers) (\<lambda>fares.
       act_return (take (nat (sc_max_results c)) (filter (affordable (sc_max_price c)) fares))))))))"

section \<open>The driver: travellers\<close>

fun gender_to_amadeus :: "gender \<Rightarrow> string" where
  "gender_to_amadeus G_male = ''MALE''"
| "gender_to_amadeus G_female = ''FEMALE''"
| "gender_to_amadeus G_unspecified = ''UNSPECIFIED''"

definition split_e164 :: "string \<Rightarrow> string \<times> string" where
  "split_e164 ph = (case ph of
     [] \<Rightarrow> ([], [])
   | c # digits \<Rightarrow>
       if c \<noteq> CHR ''+'' then ([], ph)
       else if take 1 digits \<in> {''1'', ''7''} then (take 1 digits, drop 1 digits)
       else if take 3 digits \<in> {''971'', ''966'', ''974'', ''973'', ''880'', ''977''} then (take 3 digits, drop 3 digits)
       else (take 2 digits, drop 2 digits))"

definition phone_entry :: "phone \<Rightarrow> json" where
  "phone_entry p = (case split_e164 (ph_e164 p) of (cc, num) \<Rightarrow>
     JObj [(''deviceType'', JStr ''MOBILE''), (''countryCallingCode'', JStr cc), (''number'', JStr num)])"

definition contact_block :: "passenger \<Rightarrow> obj" where
  "contact_block p = (case pg_emails p of [] \<Rightarrow> [] | e # _ \<Rightarrow> [(''emailAddress'', JStr (em_address e))])
     @ (if pg_phones p \<noteq> [] then [(''phones'', JList (map phone_entry (pg_phones p)))] else [])"

definition passport_document :: "passenger \<Rightarrow> passport \<Rightarrow> json" where
  "passport_document p doc = JObj [(''documentType'', JStr ''PASSPORT''), (''number'', JStr (ps_number doc)),
     (''issuanceCountry'', JStr (ps_issuing_country doc)),
     (''nationality'', JStr (case pg_nationality p of Some (c # cs) \<Rightarrow> c # cs | _ \<Rightarrow> ps_issuing_country doc)),
     (''expiryDate'', JStr (iso_date (ps_expiry_date doc))), (''holder'', JBool True), (''birthPlace'', opt_json (ps_place_of_birth doc))]"

definition passenger_to_traveler :: "nat \<Rightarrow> passenger \<Rightarrow> failure + json" where
  "passenger_to_traveler idx p =
     (case pg_date_of_birth p of
        None \<Rightarrow> Inl (am_error Validation_failed (''passenger '' @ pg_id p @ '' missing date_of_birth required for booking''))
      | Some dob \<Rightarrow>
          let (first_name, last_name) = (case pg_passport p of Some doc \<Rightarrow> (ps_given_name doc, ps_family_name doc) | None \<Rightarrow> (pg_given_name p, pg_family_name p));
              gen = (case pg_passport p of Some doc \<Rightarrow> gender_to_amadeus (ps_gender doc)
                     | None \<Rightarrow> (case pg_gender p of Some g \<Rightarrow> gender_to_amadeus g | None \<Rightarrow> ''UNSPECIFIED''))
          in Inr (JObj ([(''id'', JStr (show_nat idx)), (''dateOfBirth'', JStr (iso_date dob)),
               (''name'', JObj [(''firstName'', JStr first_name), (''lastName'', JStr last_name)]), (''gender'', JStr gen),
               (''meta'', JObj [(''voyagent_passenger_id'', JStr (pg_id p))])]
             @ (if contact_block p \<noteq> [] then [(''contact'', JObj (contact_block p))] else [])
             @ (case pg_passport p of Some doc \<Rightarrow> [(''documents'', JList [passport_document p doc])] | None \<Rightarrow> []))))"

definition travelers_payload :: "passenger list \<Rightarrow> failure + json list" where
  "travelers_payload ps = map_res (\<lambda>(idx, p). passenger_to_traveler idx p) (enumerate 1 ps)"

section \<open>The driver: bookings\<close>

fun collect_offers :: "string list \<Rightarrow> string list \<Rightarrow> ('w, obj list) amadeus" where
  "collect_offers seen [] = act_return []"
| "collect_offers seen (fid # fids) =
     act_bind (cache_get (offer_cache_key fid)) (\<lambda>cached.
       case cached of
         None \<Rightarrow> act_raise (am_error Permanent_error (''offer_expired_or_not_cached: fare_id='' @ repr_str fid
           @ ''. Re-run search before booking - Amadeus offers have a 15-30 minute TTL and Voyagent caches them for 20 minutes.''))
       | Some offer \<Rightarrow>
           let off_id = str_or (get_true offer ''id'') fid
           in if off_id \<in> set seen then collect_offers seen fids
              else act_bind (collect_offers (off_id # seen) fids) (\<lambda>rest. act_return (offer # rest)))"

definition needs_reprice :: "obj \<Rightarrow> ('w, bool) amadeus" where
  "needs_reprice offer = (case map_of offer ''lastTicketingDateTime'' of
     Some (JStr (c # cs)) \<Rightarrow> (case datetime_fromisoformat (zulu (c # cs)) of
         Some (local, off) \<Rightarrow> act_bind wall_clock (\<lambda>now.
           act_return (local - (case off of None \<Rightarrow> 0 | Some z \<Rightarrow> z) - now < REPRICE_THRESHOLD_SECONDS * 1000000))
       | None \<Rightarrow> act_return False)
   | _ \<Rightarrow> act_return False)"

text \<open>\<^verbatim>\<open>response.get("data")\<close> where the response is an object.\<close>

definition data_of :: "json \<Rightarrow> json option" where
  "data_of response = (case response of JObj d \<Rightarrow> map_of d ''data'' | _ \<Rightarrow> None)"

definition reprice :: "'w amadeus_env \<Rightarrow> amadeus_driver \<Rightarrow> obj \<Rightarrow> ('w, json) amadeus" where
  "reprice env d offer =
     act_bind (post_json env (ad_config d) ''/v1/shopping/flight-offers/pricing''
       (JObj [(''data'', JObj [(''type'', JStr ''flight-offers-pricing''), (''flightOffers'', JList [JObj offer])])])) (\<lambda>response.
       case data_of response of
         Some (JObj e) \<Rightarrow> (case map_of e ''flightOffers'' of
             Some (JList (x # xs)) \<Rightarrow> act_return x
           | _ \<Rightarrow> act_raise (am_error Permanent_error ''Amadeus reprice: response did not contain any flightOffers.''))
       | _ \<Rightarrow> act_raise (am_error Permanent_error ''Amadeus reprice: response did not contain any flightOffers.''))"

fun refresh_offers :: "'w amadeus_env \<Rightarrow> amadeus_driver \<Rightarrow> obj list \<Rightarrow> ('w, json list) amadeus" where
  "refresh_offers env d [] = act_return []"
| "refresh_offers env d (offer # os) =
     act_bind (needs_reprice offer) (\<lambda>stale.
     act_bind (if stale then reprice env d offer else act_return (JObj offer)) (\<lambda>x.
     act_bind (refresh_offers env d os) (\<lambda>rest. act_return (x # rest))))"

definition order_body :: "json list \<Rightarrow> json list \<Rightarrow> json" where
  "order_body offers travelers = JObj [(''data'', JObj [(''type'', JStr ''flight-order''), (''flightOffers'', JList offers), (''travelers'', JList travelers)])]"

text \<open>What \<^verbatim>\<open>create\<close> does before it books: the offers, priced again where needed, and the travellers.\<close>

definition prepare_order :: "'w amadeus_env \<Rightarrow> amadeus_driver \<Rightarrow> string list \<Rightarrow> string list \<Rightarrow> ('w, json) amadeus" where
  "prepare_order env d fare_ids passenger_ids =
     act_bind (act_read aw_offers) (\<lambda>c.
     act_bind (act_guard (c \<noteq> None) (am_error Permanent_error
       ''AmadeusDriver.create requires an offer cache; none was configured on this driver instance.'')) (\<lambda>_.
     act_bind (act_some (ad_resolver d) (am_error Permanent_error (''AmadeusDriver.create: driver constructed without passenger_resolver - cannot build real ''
       @ ''traveler blocks. Inject one via the constructor (the runtime bundle wires an InMemoryPassengerResolver by default).''))) (\<lambda>resolve.
     act_bind (act_guard (fare_ids \<noteq> []) (am_error Permanent_error ''AmadeusDriver.create: fare_ids must not be empty.'')) (\<lambda>_.
     act_bind (act_guard (passenger_ids \<noteq> []) (am_error Permanent_error ''AmadeusDriver.create: passenger_ids must not be empty.'')) (\<lambda>_.
     act_bind (collect_offers [] fare_ids) (\<lambda>offers.
     act_bind (refresh_offers env d offers) (\<lambda>refreshed.
     act_bind (act_lift (bind_res (resolve (ad_tenant_id d) passenger_ids) travelers_payload)) (\<lambda>travelers.
       act_return (order_body refreshed travelers)))))))))"

definition am_create :: "'w amadeus_env \<Rightarrow> amadeus_driver \<Rightarrow> string list \<Rightarrow> string list \<Rightarrow> ('w, pnr) amadeus" where
  "am_create env d fare_ids passenger_ids =
     act_bind (prepare_order env d fare_ids passenger_ids) (\<lambda>body.
     act_bind (post_json env (ad_config d) ''/v1/booking/flight-orders'' body) (\<lambda>response.
       case data_of response of
         Some (JObj order) \<Rightarrow>
           act_bind (act_update (\<lambda>s. fold (\<lambda>fid. cache_delete (offer_cache_key fid)) fare_ids s)) (\<lambda>_.
             amadeus_order_to_pnr order (ad_tenant_id d))
       | _ \<Rightarrow> act_raise (am_error Permanent_error (''Amadeus create: unexpected payload shape - missing '' @ repr_str ''data'' @ ''.''))))"

definition am_read :: "'w amadeus_env \<Rightarrow> amadeus_driver \<Rightarrow> string \<Rightarrow> ('w, pnr) amadeus" where
  "am_read env d locator =
     act_bind (get_json env (ad_config d) (''/v1/booking/flight-orders/'' @ locator) None) (\<lambda>body.
       case data_of body of
         Some (JObj order) \<Rightarrow> amadeus_order_to_pnr order (ad_tenant_id d)
       | _ \<Rightarrow> act_raise (am_error Permanent_error (''Amadeus read: unexpected payload shape for order '' @ repr_str locator @ ''.'')))"

definition cancelled_pnr :: "amadeus_driver \<Rightarrow> string \<Rightarrow> ('w, pnr) amadeus" where
  "cancelled_pnr d pnr_id =
     act_bind wall_clock (\<lambda>now. act_bind am_entity_id (\<lambda>ident. act_bind am_entity_id (\<lambda>pax. act_bind am_entity_id (\<lambda>seg.
       act_lift (model_res (pnr_of \<lparr>pn_id = ident, pn_tenant_id = ad_tenant_id d, pn_locator = pnr_id, pn_source = AMADEUS, pn_source_ref = Some pnr_id,
         pn_status = Pnr_cancelled, pn_passenger_ids = [pax], pn_segment_ids = [seg], pn_fare_ids = [], pn_ticket_time_limit = None,
         pn_created_at = now, pn_updated_at = now\<rparr>))))))"

definition am_cancel :: "'w amadeus_env \<Rightarrow> amadeus_driver \<Rightarrow> string \<Rightarrow> ('w, pnr) amadeus" where
  "am_cancel env d pnr_id =
     act_bind (delete_json env (ad_config d) (''/v1/booking/flight-orders/'' @ pnr_id)) (\<lambda>_ s.
       case am_read env d pnr_id s of (Inr p, s') \<Rightarrow> (Inr p, s') | (Inl e, s') \<Rightarrow> cancelled_pnr d pnr_id s')"

definition am_queue_read :: "int \<Rightarrow> ('w, pnr list) amadeus" where
  "am_queue_read n = act_raise (am_error Capability_not_supported
     ''Amadeus Self-Service does not expose GDS queues. Use an Amadeus-Enterprise driver for queue operations.'')"

definition am_issue_ticket :: "string \<Rightarrow> ('w, ticket list) amadeus" where
  "am_issue_ticket pnr_id = act_raise (am_error Capability_not_supported (''Amadeus Self-Service does not issue tickets. Use the ''
     @ ''Amadeus-Enterprise driver (forthcoming) or route to another ticketing driver (BSPDriver).''))"

definition am_void_ticket :: "string \<Rightarrow> ('w, ticket) amadeus" where
  "am_void_ticket ticket_id = act_raise (am_error Capability_not_supported
     ''Amadeus Self-Service does not void tickets. Use the Amadeus-Enterprise driver (forthcoming).'')"

definition amadeus_pnr_driver :: "'w amadeus_env \<Rightarrow> amadeus_driver \<Rightarrow> 'w amadeus_world pnr_driver" where
  "amadeus_pnr_driver env d = \<lparr>pd_read = am_read env d, pd_issue_ticket = am_issue_ticket\<rparr>"

end
