(* ===== verification/Passengers.thy ===== *)
theory Passengers
  imports Tally Travel Py_Uuid Py_State
begin

text \<open>
  \<^verbatim>\<open>services/agent_runtime/.../passenger_resolver.py\<close> with the table of \<^verbatim>\<open>schemas/storage/passenger.py\<close>: the resolver in memory, the
  resolver over the table and the operations that fill it. What a resolver promises to the drivers,
  \<^verbatim>\<open>drivers/_contracts/passenger_resolver.py\<close>, is the locale \<open>passenger_resolver\<close>, which both interpret.
\<close>

unbundle bit_operations_syntax

section \<open>In memory\<close>

definition not_found_for :: "string \<Rightarrow> string \<Rightarrow> string \<Rightarrow> failure" where
  "not_found_for driver tenant pid = Driver_failure (driver_error Not_found driver (''passenger '' @ pid @ '' not found for tenant '' @ tenant))"

definition memory_put :: "passenger \<Rightarrow> (string, passenger) dict \<Rightarrow> (string, passenger) dict" where
  "memory_put p d = AList.update (pg_id p) p d"

definition memory_resolve :: "(string, passenger) dict \<Rightarrow> string \<Rightarrow> string list \<Rightarrow> failure + passenger list" where
  "memory_resolve d tenant ids = map_res (\<lambda>pid. case map_of d pid of
       Some p \<Rightarrow> if pg_tenant_id p = tenant then Inr p else Inl (not_found_for ''passenger_resolver.in_memory'' tenant pid)
     | None \<Rightarrow> Inl (not_found_for ''passenger_resolver.in_memory'' tenant pid)) ids"

section \<open>The table\<close>

record passenger_row =
  px_id :: uuid_int
  px_tenant_id :: uuid_int
  px_full_name :: string
  px_email :: "string option"
  px_phone :: "string option"
  px_date_of_birth :: "py_date option"
  px_passport_number :: "string option"
  px_passport_expiry :: "py_date option"
  px_nationality :: "string option"
  px_created_at :: int
  px_updated_at :: int

record passenger_db =
  pb_tenants :: "uuid_int list"
  pb_rows :: "passenger_row list"

definition to_uuid :: "string \<Rightarrow> failure + uuid_int" where
  "to_uuid s = (case uuid_parse s of Some u \<Rightarrow> Inr u | None \<Rightarrow> Inl (Raw_failure ''ValueError''))"

text \<open>\<^verbatim>\<open>full_name.strip().split(None, 1)\<close>; a blank name has no parts.\<close>

definition split_name :: "string \<Rightarrow> failure + string \<times> string" where
  "split_name full =
     (let s = py_strip full; w = takeWhile (\<lambda>c. \<not> py_isspace c) s; r = py_lstrip (drop (length w) s)
      in if s = [] then Inl (Raw_failure ''IndexError'') else if r = [] then Inr (w, w) else Inr (w, r))"

definition row_to_passenger :: "passenger_row \<Rightarrow> failure + passenger" where
  "row_to_passenger r =
     bind_res (split_name (px_full_name r)) (\<lambda>(given, family).
     bind_res (model_res (map_res email_of (case px_email r of Some (c # cs) \<Rightarrow> [\<lparr>em_address = c # cs, em_label = None\<rparr>] | _ \<Rightarrow> []))) (\<lambda>emails.
     bind_res (model_res (map_res phone_of (case px_phone r of
         Some (c # cs) \<Rightarrow> if c = CHR ''+'' then [\<lparr>ph_e164 = c # cs, ph_label = None\<rparr>] else [] | _ \<Rightarrow> []))) (\<lambda>phones.
       model_res (passenger_of \<lparr>pg_id = uuid_str (px_id r), pg_tenant_id = uuid_str (px_tenant_id r), pg_type = P_adult, pg_given_name = given,
         pg_family_name = family, pg_middle_name = None, pg_preferred_name = None, pg_date_of_birth = px_date_of_birth r, pg_gender = None,
         pg_nationality = px_nationality r, pg_passport = None, pg_national_ids = [], pg_phones = phones, pg_emails = emails,
         pg_address = None, pg_notes = None, pg_created_at = px_created_at r, pg_updated_at = px_updated_at r\<rparr>))))"

definition storage_resolve :: "passenger_db \<Rightarrow> string \<Rightarrow> string list \<Rightarrow> failure + passenger list" where
  "storage_resolve db tenant ids =
     (if ids = [] then Inr []
      else bind_res (to_uuid tenant) (\<lambda>tid.
           bind_res (map_res (\<lambda>pid. bind_res (to_uuid pid) (\<lambda>u. Inr (pid, u))) ids) (\<lambda>uids.
           let rows = map (\<lambda>r. (px_id r, r)) (filter (\<lambda>r. px_tenant_id r = tid \<and> px_id r \<in> snd ` set uids) (pb_rows db))
           in map_res (\<lambda>(pid, u). case map_of rows u of
                  None \<Rightarrow> Inl (not_found_for ''passenger_resolver.storage'' tenant pid)
                | Some r \<Rightarrow> row_to_passenger r) uids)))"

section \<open>Lookups\<close>

text \<open>\<^verbatim>\<open>scalar_one_or_none\<close>\<close>

definition one_or_none :: "'r list \<Rightarrow> failure + 'r option" where
  "one_or_none rs = (case rs of [] \<Rightarrow> Inr None | [r] \<Rightarrow> Inr (Some r) | _ \<Rightarrow> Inl (Raw_failure ''MultipleResultsFound''))"

definition lookup_row :: "(passenger_row \<Rightarrow> bool) \<Rightarrow> passenger_db \<Rightarrow> failure + passenger option" where
  "lookup_row p db = bind_res (one_or_none (filter p (pb_rows db))) (opt_res row_to_passenger)"

definition get_by_id :: "passenger_db \<Rightarrow> string \<Rightarrow> string \<Rightarrow> failure + passenger option" where
  "get_by_id db tenant pid = bind_res (to_uuid tenant) (\<lambda>tid. bind_res (to_uuid pid) (\<lambda>u.
     lookup_row (\<lambda>r. px_tenant_id r = tid \<and> px_id r = u) db))"

definition find_by_email :: "passenger_db \<Rightarrow> string \<Rightarrow> string \<Rightarrow> failure + passenger option" where
  "find_by_email db tenant email = bind_res (to_uuid tenant) (\<lambda>tid.
     lookup_row (\<lambda>r. px_tenant_id r = tid \<and> px_email r = Some email) db)"

definition find_by_passport :: "passenger_db \<Rightarrow> string \<Rightarrow> string \<Rightarrow> failure + passenger option" where
  "find_by_passport db tenant num = bind_res (to_uuid tenant) (\<lambda>tid.
     lookup_row (\<lambda>r. px_tenant_id r = tid \<and> px_passport_number r = Some num) db)"

section \<open>Create or update\<close>

text \<open>The keys of the table: the id, and per tenant the e-mail address and the passport number where there is one.\<close>

definition same_key :: "passenger_row \<Rightarrow> passenger_row \<Rightarrow> bool" where
  "same_key r r' \<longleftrightarrow> px_id r = px_id r' \<or> px_tenant_id r = px_tenant_id r'
     \<and> (px_email r \<noteq> None \<and> px_email r = px_email r' \<or> px_passport_number r \<noteq> None \<and> px_passport_number r = px_passport_number r')"

definition fits :: "nat \<Rightarrow> string option \<Rightarrow> bool" where
  "fits n s = (case s of None \<Rightarrow> True | Some t \<Rightarrow> length t \<le> n)"

definition columns_fit :: "passenger_row \<Rightarrow> bool" where
  "columns_fit r \<longleftrightarrow> fits 255 (Some (px_full_name r)) \<and> fits 320 (px_email r) \<and> fits 32 (px_phone r) \<and> fits 64 (px_passport_number r)
     \<and> fits 2 (px_nationality r)"

text \<open>Writing a row; \<open>lengths\<close> says whether the database enforces the widths of the columns, as Postgres does.\<close>

definition insert_row :: "bool \<Rightarrow> passenger_row \<Rightarrow> (failure, passenger_db, unit) act" where
  "insert_row lengths r db =
     (if lengths \<and> \<not> columns_fit r then (Inl (Raw_failure ''DBAPIError''), db)
      else if px_tenant_id r \<notin> set (pb_tenants db) \<or> list_ex (same_key r) (pb_rows db) then (Inl (Raw_failure ''IntegrityError''), db)
      else (Inr (), db\<lparr>pb_rows := pb_rows db @ [r]\<rparr>))"

definition replace_row :: "bool \<Rightarrow> passenger_row \<Rightarrow> (failure, passenger_db, unit) act" where
  "replace_row lengths r db =
     (if lengths \<and> \<not> columns_fit r then (Inl (Raw_failure ''DBAPIError''), db)
      else if list_ex (\<lambda>r'. px_id r' \<noteq> px_id r \<and> same_key r r') (pb_rows db) then (Inl (Raw_failure ''IntegrityError''), db)
      else (Inr (), db\<lparr>pb_rows := map (\<lambda>r'. if px_id r' = px_id r then r else r') (pb_rows db)\<rparr>))"

record passenger_values =
  pv_full_name :: string
  pv_email :: "string option"
  pv_phone :: "string option"
  pv_date_of_birth :: "py_date option"
  pv_passport_number :: "string option"
  pv_passport_expiry :: "py_date option"
  pv_nationality :: "string option"

definition new_row :: "uuid_int \<Rightarrow> uuid_int \<Rightarrow> int \<Rightarrow> passenger_values \<Rightarrow> passenger_row" where
  "new_row i tid now v = \<lparr>px_id = i, px_tenant_id = tid, px_full_name = pv_full_name v, px_email = pv_email v, px_phone = pv_phone v,
     px_date_of_birth = pv_date_of_birth v, px_passport_number = pv_passport_number v, px_passport_expiry = pv_passport_expiry v,
     px_nationality = pv_nationality v, px_created_at = now, px_updated_at = now\<rparr>"

text \<open>Both paths change the same columns of an existing row; the e-mail address is not one of them.\<close>

definition merged_row :: "passenger_values \<Rightarrow> passenger_row \<Rightarrow> passenger_row" where
  "merged_row v r = r\<lparr>px_full_name := pv_full_name v, px_phone := pv_phone v, px_date_of_birth := pv_date_of_birth v,
     px_passport_number := pv_passport_number v, px_passport_expiry := pv_passport_expiry v, px_nationality := pv_nationality v\<rparr>"

text \<open>The row that an upsert updates, if there is one.\<close>

definition upsert_target :: "uuid_int \<Rightarrow> uuid_int \<Rightarrow> passenger_values \<Rightarrow> passenger_row \<Rightarrow> bool" where
  "upsert_target tid i v r \<longleftrightarrow> px_tenant_id r = tid \<and>
     (case pv_email v of Some e \<Rightarrow> px_email r = Some e
      | None \<Rightarrow> (case pv_passport_number v of Some p \<Rightarrow> px_passport_number r = Some p | None \<Rightarrow> px_id r = i))"

text \<open>
  \<^verbatim>\<open>ON CONFLICT (tenant_id, email) DO UPDATE\<close> takes the first row of that key; the portable path selects the row first. On a
  database that serialises the two statements they write the same.
\<close>

definition write_passenger :: "bool \<Rightarrow> uuid_int \<Rightarrow> uuid_int \<Rightarrow> int \<Rightarrow> passenger_values \<Rightarrow> (failure, passenger_db, uuid_int) act" where
  "write_passenger pg tid i now v =
     act_bind (act_read pb_rows) (\<lambda>rows.
     act_bind (if pg \<and> pv_email v \<noteq> None then act_return (List.find (upsert_target tid i v) rows)
               else act_lift (one_or_none (filter (upsert_target tid i v) rows))) (\<lambda>existing.
       case existing of
         None \<Rightarrow> act_bind (insert_row pg (new_row i tid now v)) (\<lambda>_. act_return i)
       | Some r \<Rightarrow> act_bind (replace_row pg (merged_row v r)) (\<lambda>_. act_return (px_id r))))"

definition upsert :: "bool \<Rightarrow> uuid_int \<Rightarrow> int \<Rightarrow> string \<Rightarrow> passenger_values \<Rightarrow> string option \<Rightarrow> (failure, passenger_db, passenger) act" where
  "upsert pg fresh now tenant v passenger_id =
     act_bind (act_lift (to_uuid tenant)) (\<lambda>tid.
     act_bind (act_lift (case passenger_id of Some p \<Rightarrow> to_uuid p | None \<Rightarrow> Inr fresh)) (\<lambda>i.
     act_bind (write_passenger pg tid i now v) (\<lambda>row_id.
     act_bind (act_read pb_rows) (\<lambda>rows.
       case filter (\<lambda>r. px_tenant_id r = tid \<and> px_id r = row_id) rows of
         [r] \<Rightarrow> act_lift (row_to_passenger r)
       | _ \<Rightarrow> act_raise (Raw_failure ''NoResultFound'')))))"

section \<open>What a resolver promises\<close>

text \<open>
  The contract of \<^verbatim>\<open>PassengerResolver\<close>: passengers come back in the order of the ids asked for, one for each, and only of the
  tenant asked for. Ids are compared as the UUIDs that they write.
\<close>

definition answers_for :: "string \<Rightarrow> string \<Rightarrow> passenger \<Rightarrow> bool" where
  "answers_for tenant pid p \<longleftrightarrow> uuid_parse (pg_id p) = uuid_parse pid \<and> uuid_parse (pg_tenant_id p) = uuid_parse tenant"

locale passenger_resolver =
  fixes resolve :: "string \<Rightarrow> string list \<Rightarrow> failure + passenger list"
  assumes aligned: "resolve tenant ids = Inr ps \<Longrightarrow> list_all2 (answers_for tenant) ids ps"
begin

lemma one_each: "resolve tenant ids = Inr ps \<Longrightarrow> length ps = length ids"
  using aligned list_all2_lengthD by fastforce

lemma own_tenant: "resolve tenant ids = Inr ps \<Longrightarrow> p \<in> set ps \<Longrightarrow> uuid_parse (pg_tenant_id p) = uuid_parse tenant"
  using aligned by (fastforce simp: list_all2_conv_all_nth in_set_conv_nth answers_for_def)

lemma positions: "resolve tenant ids = Inr ps \<Longrightarrow> i < length ids \<Longrightarrow> answers_for tenant (ids ! i) (ps ! i)"
  using aligned by (simp add: list_all2_conv_all_nth)

end

lemma map_res_all2: "map_res f xs = Inr ys \<Longrightarrow> (\<And>x y. x \<in> set xs \<Longrightarrow> f x = Inr y \<Longrightarrow> P x y) \<Longrightarrow> list_all2 P xs ys"
  by (induction xs arbitrary: ys) (auto simp: res_simps)

text \<open>In memory, a passenger is filed under its own id.\<close>

definition memory_of :: "passenger list \<Rightarrow> (string, passenger) dict" where
  "memory_of ps = foldr memory_put ps []"

lemma memory_of_keys: "map_of (memory_of ps) pid = Some p \<Longrightarrow> pg_id p = pid"
  by (induction ps) (auto simp: memory_of_def memory_put_def update_conv split: if_splits)

interpretation in_memory: passenger_resolver "memory_resolve (memory_of ps)" for ps
proof
  fix tenant ids qs
  assume run: "memory_resolve (memory_of ps) tenant ids = Inr qs"
  show "list_all2 (answers_for tenant) ids qs"
    by (rule map_res_all2 [OF run [unfolded memory_resolve_def]]) (auto simp: answers_for_def dest!: memory_of_keys split: option.splits if_splits)
qed

lemma entity_id_of_uuid: "entity_id_of f (uuid_str w) = Inr x \<Longrightarrow> x = uuid_str w"
  using py_strip_no_space [of "uuid_str w"] uuid_str_not_space
  by (auto simp: entity_id_of_def constrained_def Let_def list_all_iff split: if_splits)

lemma model_res_Inr: "model_res x = Inr y \<longleftrightarrow> x = Inr y"
  by (auto simp: model_res_def split: sum.splits)

lemma row_to_passenger_ids: "row_to_passenger r = Inr p \<Longrightarrow> pg_id p = uuid_str (px_id r) \<and> pg_tenant_id p = uuid_str (px_tenant_id r)"
  by (auto simp: row_to_passenger_def res_simps model_res_Inr passenger_of_def dest!: entity_id_of_uuid)

lemma map_of_keyed: "map_of (map (\<lambda>r. (k r, r)) xs) u = Some r \<Longrightarrow> r \<in> set xs \<and> k r = u"
  by (auto dest: map_of_SomeD)

interpretation in_storage: passenger_resolver "storage_resolve db" for db
proof
  fix tenant ids qs
  assume run: "storage_resolve db tenant ids = Inr qs"
  show "list_all2 (answers_for tenant) ids qs"
  proof (cases "ids = []")
    case True
    then show ?thesis using run by (simp add: storage_resolve_def)
  next
    case False
    then obtain tid uids rows where t: "to_uuid tenant = Inr tid"
      and u: "map_res (\<lambda>pid. bind_res (to_uuid pid) (\<lambda>u. Inr (pid, u))) ids = Inr uids"
      and rows: "rows = map (\<lambda>r. (px_id r, r)) (filter (\<lambda>r. px_tenant_id r = tid \<and> px_id r \<in> snd ` set uids) (pb_rows db))"
      and q: "map_res (\<lambda>(pid, u). case map_of rows u of None \<Rightarrow> Inl (not_found_for ''passenger_resolver.storage'' tenant pid)
            | Some r \<Rightarrow> row_to_passenger r) uids = Inr qs"
      using run by (auto simp: storage_resolve_def res_simps Let_def)
    have "list_all2 (\<lambda>pid (pid', v). pid' = pid \<and> uuid_parse pid = Some v) ids uids"
      by (rule map_res_all2 [OF u]) (auto simp: res_simps to_uuid_def split: option.splits)
    moreover have "list_all2 (\<lambda>(pid, v) p. pg_id p = uuid_str v \<and> pg_tenant_id p = uuid_str tid) uids qs"
      by (rule map_res_all2 [OF q]) (auto simp: rows dest!: map_of_keyed row_to_passenger_ids split: option.splits)
    moreover have "uuid_parse tenant = Some tid" using t by (auto simp: to_uuid_def split: option.splits)
    ultimately show ?thesis
      by (auto simp: list_all2_conv_all_nth answers_for_def split: prod.splits)
         (metis (mono_tags, lifting) case_prod_conv surj_pair uuid_parse_str)+
  qed
qed

section \<open>The table keeps its keys\<close>

definition keys_ok :: "passenger_db \<Rightarrow> bool" where
  "keys_ok db \<longleftrightarrow> sorted_wrt (\<lambda>r r'. \<not> same_key r r') (pb_rows db)"

lemma same_key_sym: "same_key r r' = same_key r' r"
  unfolding same_key_def by metis

lemma insert_row_keys:
  assumes "insert_row lengths r db = (Inr (), db')" "keys_ok db"
  shows "keys_ok db'" "pb_rows db' = pb_rows db @ [r]"
  using assms by (auto simp: insert_row_def keys_ok_def sorted_wrt_append list_ex_iff same_key_sym [of r] split: if_splits)

lemma replace_row_keys:
  assumes run: "replace_row lengths r db = (Inr (), db')" and ok: "keys_ok db"
  shows "keys_ok db'" "pb_rows db' = map (\<lambda>r'. if px_id r' = px_id r then r else r') (pb_rows db)"
proof -
  show rows: "pb_rows db' = map (\<lambda>r'. if px_id r' = px_id r then r else r') (pb_rows db)"
    using run by (auto simp: replace_row_def split: if_splits)
  have free: "\<not> same_key r r'" if "r' \<in> set (pb_rows db)" "px_id r' \<noteq> px_id r" for r'
    using run that by (auto simp: replace_row_def list_ex_iff split: if_splits)
  have "sorted_wrt (\<lambda>a b. \<not> same_key (if px_id a = px_id r then r else a) (if px_id b = px_id r then r else b)) (pb_rows db)"
  proof (rule sorted_wrt_mono_rel [OF _ ok [unfolded keys_ok_def]])
    fix a b assume ab: "a \<in> set (pb_rows db)" "b \<in> set (pb_rows db)" "\<not> same_key a b"
    then have "px_id a \<noteq> px_id b" by (simp add: same_key_def)
    moreover have "\<not> same_key a r" if "px_id a \<noteq> px_id r" using free [OF ab(1) that] same_key_sym by blast
    ultimately show "\<not> same_key (if px_id a = px_id r then r else a) (if px_id b = px_id r then r else b)"
      using free [OF ab(2)] ab(3) by auto
  qed
  then show "keys_ok db'" by (simp add: keys_ok_def rows sorted_wrt_map)
qed

lemma one_or_none_find:
  assumes "one_or_none (filter p xs) = Inr x"
  shows "List.find p xs = x"
proof (cases "filter p xs")
  case Nil
  then show ?thesis using assms by (auto simp: one_or_none_def filter_empty_conv find_None_iff)
next
  case (Cons y ys)
  then have "x = Some y" using assms by (auto simp: one_or_none_def split: list.splits)
  moreover have "List.find p xs = Some y" using Cons by (induction xs) (auto split: if_splits)
  ultimately show ?thesis by simp
qed

text \<open>Under unique keys a row is found by any of its keys.\<close>

lemma filter_unique:
  assumes "sorted_wrt (\<lambda>r r'. \<not> same_key r r') xs" "r \<in> set xs" "p r" "\<And>r'. p r' \<Longrightarrow> same_key r r'"
  shows "filter p xs = [r]"
  using assms
proof (induction xs)
  case (Cons a xs)
  show ?case
  proof (cases "a = r")
    case True
    then have "\<not> p x" if "x \<in> set xs" for x using Cons.prems that by auto
    then show ?thesis using True Cons.prems(3) by (simp add: filter_empty_conv)
  next
    case False
    then have r: "r \<in> set xs" using Cons.prems(2) by simp
    then have "\<not> same_key a r" using Cons.prems(1) by simp
    then have "\<not> p a" using Cons.prems(4) same_key_sym by blast
    then show ?thesis using Cons.IH Cons.prems r by simp
  qed
qed simp

lemma write_passenger_result:
  assumes run: "write_passenger pg tid i now v db = (Inr row_id, db')" and ok: "keys_ok db"
  obtains r where "keys_ok db'" "r \<in> set (pb_rows db')" "px_id r = row_id" "px_tenant_id r = tid" "px_full_name r = pv_full_name v"
    "pv_email v \<noteq> None \<Longrightarrow> px_email r = pv_email v" "px_passport_number r = pv_passport_number v"
    "filter (\<lambda>r. px_tenant_id r \<noteq> tid) (pb_rows db') = filter (\<lambda>r. px_tenant_id r \<noteq> tid) (pb_rows db)"
    "length (pb_rows db') \<le> Suc (length (pb_rows db))"
    "List.find (upsert_target tid i v) (pb_rows db) = None \<longrightarrow> row_id = i"
    "\<And>r0. List.find (upsert_target tid i v) (pb_rows db) = Some r0 \<Longrightarrow> row_id = px_id r0"
proof -
  have find: "(if pg \<and> pv_email v \<noteq> None then act_return (List.find (upsert_target tid i v) (pb_rows db))
      else act_lift (one_or_none (filter (upsert_target tid i v) (pb_rows db)))) db = (Inr x, db1) \<Longrightarrow>
      x = List.find (upsert_target tid i v) (pb_rows db) \<and> db1 = db" for x db1
    by (auto simp: act_return_def act_lift_def one_or_none_find split: if_splits)
  show thesis
  proof (cases "List.find (upsert_target tid i v) (pb_rows db)")
    case None
    then have "insert_row pg (new_row i tid now v) db = (Inr (), db')" "row_id = i"
      using run find by (auto simp: write_passenger_def act_bind_def act_read_def act_return_def split: prod.splits sum.splits option.splits)
    then show thesis using insert_row_keys [OF _ ok] None
      by (intro that [of "new_row i tid now v"]) (auto simp: new_row_def)
  next
    case (Some r)
    then have rep: "replace_row pg (merged_row v r) db = (Inr (), db')" "row_id = px_id r"
      using run find by (auto simp: write_passenger_def act_bind_def act_read_def act_return_def split: prod.splits sum.splits option.splits)
    have m: "px_id (merged_row v r) = px_id r" "px_tenant_id (merged_row v r) = px_tenant_id r" "px_email (merged_row v r) = px_email r"
      "px_full_name (merged_row v r) = pv_full_name v" "px_passport_number (merged_row v r) = pv_passport_number v"
      by (simp_all add: merged_row_def)
    have r: "upsert_target tid i v r" "r \<in> set (pb_rows db)" using Some by (auto simp: find_Some_iff)
    then have t: "px_tenant_id r = tid" "pv_email v \<noteq> None \<Longrightarrow> px_email r = pv_email v" by (auto simp: upsert_target_def split: option.splits)
    have only: "px_tenant_id r' = tid" if "r' \<in> set (pb_rows db)" "px_id r' = px_id r" for r'
    proof -
      have "filter (\<lambda>x. px_id x = px_id r) (pb_rows db) = [r]"
        using ok r(2) by (intro filter_unique) (auto simp: keys_ok_def same_key_def)
      then have "{x \<in> set (pb_rows db). px_id x = px_id r} = {r}" by (metis set_filter list.set(1,2))
      then show ?thesis using that t(1) by (auto simp: set_eq_iff)
    qed
    have "filter (\<lambda>r. px_tenant_id r \<noteq> tid) (map (\<lambda>r'. if px_id r' = px_id r then merged_row v r else r') rs) = filter (\<lambda>r. px_tenant_id r \<noteq> tid) rs"
      if "set rs \<subseteq> set (pb_rows db)" for rs
      using that by (induction rs) (auto simp: m t(1) only)
    then show thesis using replace_row_keys [OF rep(1) ok] r t rep(2) Some
      by (intro that [of "merged_row v r"]) (auto simp: m image_iff intro!: bexI [of _ r])
  qed
qed

text \<open>Claim C27. Creating or updating a passenger. When it succeeds on a table whose keys are unique, they still are; the passenger
  returned is the one found afterwards under its id, by the resolver, and under the e-mail address or passport number given; the rows
  of other tenants are as before and at most one row is new.
\<close>
theorem upsert_then_resolve:
  assumes "keys_ok db" "upsert pg fresh now tenant v passenger_id db = (Inr p, db')" "uuid_parse tenant = Some tid"
  shows "keys_ok db' \<and> storage_resolve db' tenant [pg_id p] = Inr [p] \<and> get_by_id db' tenant (pg_id p) = Inr (Some p)
    \<and> (\<forall>e. pv_email v = Some e \<longrightarrow> find_by_email db' tenant e = Inr (Some p))
    \<and> (\<forall>n. pv_passport_number v = Some n \<longrightarrow> find_by_passport db' tenant n = Inr (Some p))
    \<and> filter (\<lambda>r. px_tenant_id r \<noteq> tid) (pb_rows db') = filter (\<lambda>r. px_tenant_id r \<noteq> tid) (pb_rows db)
    \<and> length (pb_rows db') \<le> Suc (length (pb_rows db))"
proof -
  obtain i row_id where w: "write_passenger pg tid i now v db = (Inr row_id, db')"
    and sel: "(case filter (\<lambda>r. px_tenant_id r = tid \<and> px_id r = row_id) (pb_rows db') of [r] \<Rightarrow> row_to_passenger r | _ \<Rightarrow> Inl (Raw_failure ''NoResultFound'')) = Inr p"
    using assms(2,3) by (auto simp: upsert_def act_bind_def act_lift_def act_read_def act_raise_def to_uuid_def split: prod.splits sum.splits list.splits option.splits)
  obtain r where r: "keys_ok db'" "r \<in> set (pb_rows db')" "px_id r = row_id" "px_tenant_id r = tid"
    "pv_email v \<noteq> None \<Longrightarrow> px_email r = pv_email v" "px_passport_number r = pv_passport_number v"
    "filter (\<lambda>r. px_tenant_id r \<noteq> tid) (pb_rows db') = filter (\<lambda>r. px_tenant_id r \<noteq> tid) (pb_rows db)"
    "length (pb_rows db') \<le> Suc (length (pb_rows db))"
    by (rule write_passenger_result [OF w assms(1)]) blast
  have only: "filter q (pb_rows db') = [r]" if "q r" "\<And>r'. q r' \<Longrightarrow> same_key r r'" for q
    using r(1,2) that by (intro filter_unique) (auto simp: keys_ok_def)
  have f: "filter (\<lambda>r. px_tenant_id r = tid \<and> px_id r = row_id) (pb_rows db') = [r]" using r(3,4) by (intro only) (auto simp: same_key_def)
  then have p: "row_to_passenger r = Inr p" using sel by simp
  then have ids: "uuid_parse (pg_id p) = Some row_id" using row_to_passenger_ids r(3) by fastforce
  have "storage_resolve db' tenant [pg_id p] = Inr [p]"
    using f p ids r(3) assms(3) by (simp add: storage_resolve_def to_uuid_def res_simps Let_def)
  moreover have "get_by_id db' tenant (pg_id p) = Inr (Some p)"
    using f p ids assms(3) by (simp add: get_by_id_def to_uuid_def lookup_row_def one_or_none_def opt_res_def)
  moreover have "find_by_email db' tenant e = Inr (Some p)" if "pv_email v = Some e" for e
    using only [of "\<lambda>r. px_tenant_id r = tid \<and> px_email r = Some e"] r(4,5) that p assms(3)
    by (simp add: find_by_email_def to_uuid_def lookup_row_def one_or_none_def opt_res_def same_key_def)
  moreover have "find_by_passport db' tenant n = Inr (Some p)" if "pv_passport_number v = Some n" for n
    using only [of "\<lambda>r. px_tenant_id r = tid \<and> px_passport_number r = Some n"] r(4,6) that p assms(3)
    by (simp add: find_by_passport_def to_uuid_def lookup_row_def one_or_none_def opt_res_def same_key_def)
  ultimately show ?thesis using r(1,7,8) by blast
qed

definition sample_values :: passenger_values where
  "sample_values = \<lparr>pv_full_name = ''Asha Rao'', pv_email = Some ''a@b.co'', pv_phone = None, pv_date_of_birth = Some (Date 1990 5 17), pv_passport_number = None,
     pv_passport_expiry = None, pv_nationality = Some ''IN''\<rparr>"

definition pax_raw :: uuid_int where
  "pax_raw = push_bit 78 1 OR push_bit 63 1"

lemma pax_raw_ok: "entity_id_ok (uuid7_like pax_raw)"
proof -
  have "is_uuid4_int pax_raw" by (simp only: pax_raw_def is_uuid4_int_def nibble_bits4 bit_or_iff bit_push_bit_iff bit_1_iff) simp
  then show ?thesis by (rule uuid7_like_ok)
qed

definition sample_db :: passenger_db where
  "sample_db = \<lparr>pb_tenants = [uuid7_like_int pax_raw], pb_rows = []\<rparr>"

lemma sample_row: "\<exists>p. row_to_passenger (new_row (uuid7_like_int pax_raw) (uuid7_like_int pax_raw) 0 sample_values) = Inr p \<and> pg_date_of_birth p = Some (Date 1990 5 17)"
proof -
  have n: "split_name ''Asha Rao'' = Inr (''Asha'', ''Rao'')" by code_simp
  have e: "email_of \<lparr>em_address = ''a@b.co'', em_label = None\<rparr> = Inr \<lparr>em_address = ''a@b.co'', em_label = None\<rparr>" by code_simp
  have c: "opt_res (constrained country_code_ok ''nationality'') (Some ''IN'') = Inr (Some ''IN'')" by code_simp
  have i: "entity_id_of f (uuid_str (uuid7_like_int pax_raw)) = Inr (uuid_str (uuid7_like_int pax_raw))" for f
    using py_strip_no_space [of "uuid7_like pax_raw"] uuid_str_not_space pax_raw_ok
    by (auto simp: entity_id_of_def constrained_def Let_def list_all_iff uuid7_like_def)
  show ?thesis by (auto simp: row_to_passenger_def new_row_def sample_values_def n e c i passenger_of_def model_res_def)
qed

lemma sample_upsert: "\<exists>p. upsert True (uuid7_like_int pax_raw) 0 (uuid7_like pax_raw) sample_values None sample_db
    = (Inr p, sample_db\<lparr>pb_rows := [new_row (uuid7_like_int pax_raw) (uuid7_like_int pax_raw) 0 sample_values]\<rparr>)"
proof -
  have f: "columns_fit (new_row (uuid7_like_int pax_raw) (uuid7_like_int pax_raw) 0 sample_values)"
    by (simp add: columns_fit_def new_row_def sample_values_def fits_def)
  show ?thesis using sample_row f
    by (auto simp: upsert_def act_bind_def act_lift_def act_read_def act_return_def to_uuid_def uuid7_like_def write_passenger_def sample_db_def insert_row_def
        split: prod.splits) (auto simp: new_row_def sample_values_def)
qed

theorem upsert_then_resolve_witness:
  "\<exists>p db'. upsert True (uuid7_like_int pax_raw) 0 (uuid7_like pax_raw) sample_values None sample_db = (Inr p, db')
     \<and> find_by_email db' (uuid7_like pax_raw) ''a@b.co'' = Inr (Some p) \<and> storage_resolve db' (uuid7_like pax_raw) [pg_id p] = Inr [p]"
proof -
  obtain p db' where u: "upsert True (uuid7_like_int pax_raw) 0 (uuid7_like pax_raw) sample_values None sample_db = (Inr p, db')" using sample_upsert by blast
  have k: "keys_ok sample_db" by (simp add: keys_ok_def sample_db_def)
  have t: "uuid_parse (uuid7_like pax_raw) = Some (uuid7_like_int pax_raw)" by (simp add: uuid7_like_def)
  have "pv_email sample_values = Some ''a@b.co''" by (simp add: sample_values_def)
  then show ?thesis using upsert_then_resolve [OF k u t] u by blast
qed

end
