(* ===== verification/Amadeus_Booking.thy ===== *)
theory Amadeus_Booking
  imports Amadeus Passengers
begin

text \<open>
  What the Amadeus driver promises: the fares of a search are those of the vendor's offers, at most as many and as dear as asked for, and each can be
  booked from the cache; a booking names the passengers asked for, in their order, and uses up its fares.
\<close>

section \<open>Actions that leave the vendor and the cache alone\<close>

text \<open>The vendor, the cached offers, the token and the streams.\<close>

definition quiet :: "'w amadeus_world \<Rightarrow> 'w amadeus_world \<Rightarrow> bool" where
  "quiet s s' \<longleftrightarrow> aw_remote s' = aw_remote s \<and> aw_offers s' = aw_offers s \<and> aw_uuids s' = aw_uuids s \<and> aw_drawn s \<le> aw_drawn s'"

lemma quiet_refl [simp]: "quiet s s"
  by (simp add: quiet_def)

lemma quiet_trans: "quiet s s1 \<Longrightarrow> quiet s1 s2 \<Longrightarrow> quiet s s2"
  by (simp add: quiet_def)

lemma keeps_quiet: "keeps (quiet s0) wall_clock" "keeps (quiet s0) am_entity_id"
  by (simp_all add: keeps_def wall_clock_def am_entity_id_def quiet_def)

lemma entity_ids_quiet: "keeps (quiet s0) (am_entity_ids n)"
  by (induction n) (auto intro!: keeps_rules keeps_quiet)

lemma order_to_pnr_quiet: "keeps (quiet s0) (amadeus_order_to_pnr order tenant)"
  unfolding amadeus_order_to_pnr_def Let_def
  by (intro keeps_bind keeps_pure) (auto intro!: keeps_rules keeps_quiet entity_ids_quiet split: json.split list.split)

lemma lifted_Inr: "act_lift x s = (Inr y, s') \<longleftrightarrow> x = Inr y \<and> s' = s"
  by (auto simp: act_lift_def)

lemma list_case_Inr:
  "(case j of JList (t # ts) \<Rightarrow> f t ts | _ \<Rightarrow> act_raise e) s = (Inr y, s') \<longleftrightarrow> (\<exists>t ts. j = JList (t # ts) \<and> f t ts s = (Inr y, s'))"
  by (auto simp: act_raise_def split: json.splits list.splits)

lemma obj_case_Inr:
  "(case x of Some (JObj a) \<Rightarrow> f a | _ \<Rightarrow> act_raise e) s = (Inr y, s') \<longleftrightarrow> (\<exists>a. x = Some (JObj a) \<and> f a s = (Inr y, s'))"
  by (auto simp: act_raise_def split: json.splits option.splits)

lemmas returns = act_return_iff act_raise_iff act_read_iff act_update_iff act_guard_iff act_some_Inr act_bind_Inr lifted_Inr

section \<open>Fares of an offer\<close>

text \<open>A fare that was priced by one of the traveller pricings of an offer, at the amount that is written there.\<close>

definition priced_by :: "string \<Rightarrow> json \<Rightarrow> fare \<Rightarrow> bool" where
  "priced_by offer_id tp f \<longleftrightarrow> (\<exists>p d. traveler_price_of offer_id tp = Inr p \<and> tp_total p = Dt_value (Num d) \<and> m_amount (fa_total f) = d
     \<and> m_currency (fa_total f) = py_strip (tp_currency p)) \<and> fa_source f = AMADEUS \<and> fa_source_ref f = Some (py_strip offer_id)"

definition from_offer :: "obj \<Rightarrow> fare \<Rightarrow> bool" where
  "from_offer offer f \<longleftrightarrow> (\<exists>v tps. map_of offer ''id'' = Some v \<and> map_of offer ''travelerPricings'' = Some (JList tps) \<and> (\<exists>tp\<in>set tps. priced_by (py_str v) tp f))"

lemma money_from_Inr: "money_from a cur = Inr m \<Longrightarrow> \<exists>d. a = Dt_value (Num d) \<and> m_amount m = d \<and> m_currency m = py_strip cur"
  by (cases "(a, cur)" rule: money_from.cases)
     (auto simp: model_res_Inr money_of_def res_simps constrained_def Let_def split: if_splits)

lemma amadeus_name: "py_strip AMADEUS = AMADEUS"
  by code_simp

lemma fare_from_priced:
  assumes "fare_from tenant itin offer_id pax valid p (uuid7_like raw) = Inr f" "traveler_price_of offer_id tp = Inr p"
  shows "fa_id f = uuid7_like raw \<and> priced_by offer_id tp f"
  using assms
  by (auto simp: fare_from_def res_simps model_res_Inr fare_of_def priced_by_def amadeus_name uuid7_like_def dest!: money_from_Inr entity_id_of_uuid)

lemma traveler_fares_effect:
  assumes "traveler_fares tenant itin offer_id valid ps s = (Inr fs, s')"
  shows "quiet s s' \<and> aw_drawn s' = aw_drawn s + length ps \<and> list_all2 (\<lambda>(pax, tp) f. priced_by offer_id tp f) ps fs
    \<and> map fa_id fs = map (\<lambda>i. uuid7_like (aw_uuids s i)) [aw_drawn s..<aw_drawn s']"
  using assms
proof (induction ps arbitrary: s fs)
  case Nil
  then show ?case by (auto simp: returns)
next
  case (Cons x ps)
  obtain pax tp where x: "x = (pax, tp)" by (cases x)
  obtain p f fs' s1 where f: "traveler_price_of offer_id tp = Inr p" "s1 = s\<lparr>aw_drawn := Suc (aw_drawn s)\<rparr>"
    "fare_from tenant itin offer_id pax valid p (uuid7_like (aw_uuids s (aw_drawn s))) = Inr f"
    "traveler_fares tenant itin offer_id valid ps s1 = (Inr fs', s')" "fs = f # fs'"
    using Cons.prems by (auto simp: x returns am_entity_id_def)
  note IH = Cons.IH [OF f(4)]
  have up: "[aw_drawn s..<aw_drawn s'] = aw_drawn s # [Suc (aw_drawn s)..<aw_drawn s']" using IH f(2) by (intro upt_conv_Cons) simp
  have "map fa_id fs = map (\<lambda>i. uuid7_like (aw_uuids s i)) [aw_drawn s..<aw_drawn s']"
    unfolding up f(5) using IH fare_from_priced [OF f(3,1)] f(2) by (simp del: upt_Suc)
  then show ?case using IH fare_from_priced [OF f(3,1)] f(2) by (simp add: x f(5) quiet_def del: upt_Suc)
qed

lemma or_empty_list: "or_empty x = JList (t # ts) \<Longrightarrow> x = Some (JList (t # ts))"
  by (auto simp: or_empty_def split: option.splits if_splits)

lemma require_Inr: "require d k ctx = Inr v \<Longrightarrow> map_of d k = Some v"
  by (auto simp: require_def split: option.splits if_splits)

lemma offer_to_fares_effect:
  assumes "amadeus_offer_to_fares offer pax itin tenant s = (Inr fs, s')"
  shows "quiet s s' \<and> (\<forall>f\<in>set fs. from_offer offer f) \<and> map fa_id fs = map (\<lambda>i. uuid7_like (aw_uuids s i)) [aw_drawn s..<aw_drawn s']"
proof -
  obtain v t ts valid where o: "require offer ''id'' ''offer'' = Inr v" "or_empty (map_of offer ''travelerPricings'') = JList (t # ts)"
    "length pax = length (t # ts)" "traveler_fares tenant itin (py_str v) valid (zip pax (t # ts)) s = (Inr fs, s')"
    using assms by (auto simp: amadeus_offer_to_fares_def returns res_simps list_case_Inr split: if_splits)
  note eff = traveler_fares_effect [OF o(4)]
  have "\<exists>tp\<in>set (t # ts). priced_by (py_str v) tp f" if mem: "f \<in> set fs" for f
  proof -
    obtain i where i: "i < length fs" "f = fs ! i" using mem by (auto simp: in_set_conv_nth)
    then have "priced_by (py_str v) ((t # ts) ! i) f" "i < length (t # ts)"
      using eff o(3) by (auto simp: list_all2_conv_all_nth dest!: spec [of _ i])
    then show ?thesis using nth_mem by blast
  qed
  then show ?thesis using eff require_Inr [OF o(1)] or_empty_list [OF o(2)] by (auto simp: from_offer_def)
qed

section \<open>Caching the offers\<close>

lemma ttl_positive: "0 < OFFER_TTL_SECONDS"
  by (simp add: OFFER_TTL_SECONDS_def)

definition offer_at :: "'w amadeus_world \<Rightarrow> string \<Rightarrow> obj option" where
  "offer_at s fid = (case aw_offers s of None \<Rightarrow> None | Some c \<Rightarrow> map_option snd (map_of (oc_store c) (offer_cache_key fid)))"

lemma cache_fares_effect:
  assumes "cache_fares offer fs s = (r, s')" "aw_offers s \<noteq> None"
  shows "r = Inr () \<and> aw_offers s' \<noteq> None \<and> aw_remote s' = aw_remote s \<and> aw_uuids s' = aw_uuids s \<and> aw_drawn s' = aw_drawn s
    \<and> (\<forall>fid. offer_at s' fid = (if fid \<in> fa_id ` set fs then Some offer else offer_at s fid))"
  using assms
proof (induction fs arbitrary: s)
  case Nil
  then show ?case by (auto simp: returns)
next
  case (Cons f fs)
  define s1 where "s1 = snd (cache_put (offer_cache_key (fa_id f)) offer s)"
  have put: "cache_put (offer_cache_key (fa_id f)) offer s = (Inr (), s1)"
    by (simp add: s1_def cache_put_def act_bind_def wall_clock_def act_update_def)
  have s1: "aw_offers s1 \<noteq> None" "aw_remote s1 = aw_remote s" "aw_uuids s1 = aw_uuids s" "aw_drawn s1 = aw_drawn s"
    "offer_at s1 fid = (if fid = fa_id f then Some offer else offer_at s fid)" for fid
    using Cons.prems(2) ttl_positive
    by (auto simp: s1_def cache_put_def act_bind_def wall_clock_def act_update_def offer_put_def offer_at_def update_conv offer_cache_key_def Let_def
        split: option.splits)
  have "cache_fares offer fs s1 = (r, s')" using Cons.prems(1) put by (simp add: act_bind_def)
  from Cons.IH [OF this s1(1)] show ?case using s1 by auto
qed

lemma cache_offer_effect:
  assumes "cache_offer offer fs s = (r, s')"
  shows "r = Inr () \<and> aw_remote s' = aw_remote s \<and> aw_uuids s' = aw_uuids s \<and> aw_drawn s' = aw_drawn s \<and> (aw_offers s' = None \<longleftrightarrow> aw_offers s = None)
    \<and> (aw_offers s \<noteq> None \<longrightarrow> (\<forall>fid. offer_at s' fid = (if fid \<in> fa_id ` set fs then Some offer else offer_at s fid)))"
  using assms cache_fares_effect [of offer fs s r s']
  by (auto simp: cache_offer_def act_bind_def act_read_def act_return_def split: if_splits)

text \<open>The ids of the fares of a search are drawn in a row, so they differ while the draws do.\<close>

definition drawn_between :: "'w amadeus_world \<Rightarrow> 'w amadeus_world \<Rightarrow> string \<Rightarrow> bool" where
  "drawn_between s s' x \<longleftrightarrow> (\<exists>i\<in>{aw_drawn s..<aw_drawn s'}. x = uuid7_like (aw_uuids s i))"

definition fresh_ids :: "'w amadeus_world \<Rightarrow> 'w amadeus_world \<Rightarrow> bool" where
  "fresh_ids s s' \<longleftrightarrow> inj_on (\<lambda>i. uuid7_like (aw_uuids s i)) {aw_drawn s..<aw_drawn s'}"

definition search_effect :: "json list \<Rightarrow> 'w amadeus_world \<Rightarrow> fare list \<Rightarrow> 'w amadeus_world \<Rightarrow> bool" where
  "search_effect os s fs s' \<longleftrightarrow> aw_remote s' = aw_remote s \<and> aw_uuids s' = aw_uuids s \<and> aw_drawn s \<le> aw_drawn s' \<and> (aw_offers s' = None \<longleftrightarrow> aw_offers s = None)
     \<and> (\<forall>f\<in>set fs. drawn_between s s' (fa_id f) \<and> (\<exists>offer. JObj offer \<in> set os \<and> from_offer offer f))
     \<and> (aw_offers s \<noteq> None \<longrightarrow> (\<forall>fid. fid \<notin> fa_id ` set fs \<longrightarrow> offer_at s' fid = offer_at s fid)
          \<and> (fresh_ids s s' \<longrightarrow> (\<forall>f\<in>set fs. \<exists>offer. JObj offer \<in> set os \<and> from_offer offer f \<and> offer_at s' (fa_id f) = Some offer)))"

lemma drawn_disjoint:
  assumes "fresh_ids s s'" "aw_uuids s1 = aw_uuids s" "aw_drawn s \<le> aw_drawn s1" "aw_drawn s1 \<le> aw_drawn s'" "drawn_between s s1 x" "drawn_between s1 s' y"
  shows "x \<noteq> y"
proof
  assume "x = y"
  then obtain i j where i: "i \<in> {aw_drawn s..<aw_drawn s1}" and j: "j \<in> {aw_drawn s1..<aw_drawn s'}" and eq: "uuid7_like (aw_uuids s i) = uuid7_like (aw_uuids s j)"
    using assms(2,5,6) by (auto simp: drawn_between_def)
  have "i \<in> {aw_drawn s..<aw_drawn s'}" "j \<in> {aw_drawn s..<aw_drawn s'}" using i j assms(3,4) by auto
  then have "i = j" using inj_onD [OF assms(1) [unfolded fresh_ids_def] eq] by blast
  then show False using i j by simp
qed

lemma search_effect_append:
  assumes "search_effect [JObj offer] s fs s1" "search_effect os s1 fs' s'"
  shows "search_effect (JObj offer # os) s (fs @ fs') s'"
proof -
  have between: "drawn_between s s' x" if "drawn_between s s1 x \<or> drawn_between s1 s' x" for x
    using that assms by (auto simp: drawn_between_def search_effect_def)
  have apart: "fa_id f \<noteq> fa_id f'" if "fresh_ids s s'" "f \<in> set fs" "f' \<in> set fs'" for f f'
    using assms that by (intro drawn_disjoint [of s s' s1]) (simp_all add: search_effect_def)
  have fresh: "fresh_ids s s1" "fresh_ids s1 s'" if "fresh_ids s s'"
    using that assms by (auto simp: fresh_ids_def search_effect_def intro: inj_on_subset)
  have "\<exists>x. JObj x \<in> set (JObj offer # os) \<and> from_offer x f \<and> offer_at s' (fa_id f) = Some x"
    if "aw_offers s \<noteq> None" "fresh_ids s s'" "f \<in> set (fs @ fs')" for f
  proof (cases "f \<in> set fs")
    case True
    then have "fa_id f \<notin> fa_id ` set fs'" using apart that(2) by blast
    then have "offer_at s' (fa_id f) = offer_at s1 (fa_id f)" using assms that(1) by (auto simp: search_effect_def)
    then show ?thesis using assms(1) that fresh True by (auto simp: search_effect_def)
  next
    case False
    then have "f \<in> set fs'" "aw_offers s1 \<noteq> None" using that assms(1) by (auto simp: search_effect_def)
    then show ?thesis using assms(2) fresh that(2) unfolding search_effect_def by auto
  qed
  moreover have "offer_at s' fid = offer_at s fid" if "aw_offers s \<noteq> None" "fid \<notin> fa_id ` set (fs @ fs')" for fid
    using assms that by (simp add: search_effect_def image_Un)
  moreover have "drawn_between s s' (fa_id f) \<and> (\<exists>x. JObj x \<in> set (JObj offer # os) \<and> from_offer x f)" if "f \<in> set (fs @ fs')" for f
    using assms that between [of "fa_id f"] unfolding search_effect_def by (metis Un_iff list.set_intros list.set_cases set_append empty_iff list.set(1) insert_iff list.simps(15))
  moreover have "aw_remote s' = aw_remote s" "aw_uuids s' = aw_uuids s" "aw_drawn s \<le> aw_drawn s'" "aw_offers s' = None \<longleftrightarrow> aw_offers s = None"
    using assms by (simp_all add: search_effect_def)
  ultimately show ?thesis unfolding search_effect_def by blast
qed

lemma search_effect_weaken: "search_effect os s fs s' \<Longrightarrow> search_effect (x # os) s fs s'"
  unfolding search_effect_def by (metis list.set_intros(2))

lemma one_offer_effect:
  assumes "amadeus_offer_to_fares offer pax itin tenant s = (Inr fs, s1)" "cache_offer offer fs s1 = (r, s2)"
  shows "search_effect [JObj offer] s fs s2"
proof -
  note a = offer_to_fares_effect [OF assms(1)] and b = cache_offer_effect [OF assms(2)]
  have "drawn_between s s2 (fa_id f)" if "f \<in> set fs" for f
  proof -
    have "fa_id f \<in> set (map fa_id fs)" using that by simp
    then show ?thesis using a b by (auto simp: drawn_between_def simp del: map_map)
  qed
  moreover have "offer_at s1 = offer_at s" using a by (auto simp: quiet_def offer_at_def fun_eq_iff)
  ultimately show ?thesis using a b by (auto simp: search_effect_def quiet_def)
qed

lemma offers_fares_effect: "offers_fares tenant itin pax os s = (Inr fs, s') \<Longrightarrow> search_effect os s fs s'"
proof (induction tenant itin pax os arbitrary: s fs rule: offers_fares.induct)
  case (1 tenant itin pax)
  then show ?case by (auto simp: returns search_effect_def)
next
  case (2 tenant itin pax offer os)
  obtain n where n: "py_len (or_empty (map_of offer ''travelerPricings'')) = Inr n" using "2.prems" by (auto simp: returns)
  show ?case
  proof (cases "length (if n \<noteq> 0 then take n pax else pax) \<noteq> n")
    case True
    then have "offers_fares tenant itin pax os s = (Inr fs, s')" using "2.prems" n by (auto simp: returns Let_def)
    then show ?thesis using "2.IH"(1) [OF refl True] search_effect_weaken by blast
  next
    case False
    obtain fs1 s1 s2 fs2 where r: "amadeus_offer_to_fares offer (if n \<noteq> 0 then take n pax else pax) itin tenant s = (Inr fs1, s1)" "cache_offer offer fs1 s1 = (Inr (), s2)"
      "offers_fares tenant itin pax os s2 = (Inr fs2, s')" "fs = fs1 @ fs2"
      using "2.prems" n False by (auto simp: returns Let_def split: if_splits)
    show ?thesis using search_effect_append [OF one_offer_effect [OF r(1,2)] "2.IH"(2) [OF refl False r(3)]] r(4) by simp
  qed
qed (use search_effect_weaken in \<open>simp; blast\<close>)+

section \<open>Searching\<close>

lemma entity_ids_drawn: "am_entity_ids n s = (r, s') \<Longrightarrow> quiet s s'"
  using keepsD [OF entity_ids_quiet [of s n]] by simp

text \<open>The offers of an answer.\<close>

definition answered_offers :: "json \<Rightarrow> json list option" where
  "answered_offers body = (case bind_res (get_of body ''data'') (\<lambda>v. py_iter (or_empty v)) of Inr offers \<Rightarrow> Some offers | Inl e \<Rightarrow> None)"

text \<open>Claim C11. What a search returns. The vendor receives one kind of request, a GET, and no other, and its last reply, below 400, carries the offers. The fares returned are at most
  \<^verbatim>\<open>max_results\<close>, each is priced by an offer of that answer with the very amount written there, and none is dearer than the limit, or in another currency, when there is a
  limit. If the driver has a cache and the ids drawn differ, every fare can be booked: its own offer is cached under its id.
\<close>
theorem amadeus_search_sound:
  assumes "am_search env d c s = (Inr fares, s')"
  shows "length fares \<le> nat (sc_max_results c)
    \<and> (\<forall>m f. sc_max_price c = Some m \<and> f \<in> set fares \<longrightarrow> m_currency (fa_total f) = m_currency m \<and> dval (m_amount (fa_total f)) \<le> dval (m_amount m))
    \<and> (\<exists>q rs x body offers. rq_method q = ''GET'' \<and> vendor_run env (ad_config d) q rs (aw_remote s) (aw_remote s')
         \<and> rs \<noteq> [] \<and> last rs = Http_response x \<and> hr_status x < 400 \<and> reply_json env x = Some body \<and> answered_offers body = Some offers
         \<and> (\<forall>f\<in>set fares. \<exists>offer. JObj offer \<in> set offers \<and> from_offer offer f)
         \<and> (aw_offers s \<noteq> None \<and> fresh_ids s s' \<longrightarrow> (\<forall>f\<in>set fares. \<exists>offer. JObj offer \<in> set offers \<and> from_offer offer f \<and> offer_at s' (fa_id f) = Some offer)))"
proof -
  define q where "q = \<lparr>rq_method = ''GET'', rq_path = ''/v2/shopping/flight-offers'',
    rq_params = Some (AList.update ''max'' (show_int (sc_max_results c)) (criteria_to_query_params c)), rq_body = None\<rparr>"
  obtain body s1 offers itinerary s2 pax s3 fs where r: "request env (ad_config d) q 0 s = (Inr body, s1)" "am_entity_id s1 = (Inr itinerary, s2)"
    "am_entity_ids (nat (sum_list (dict_values (sc_passengers c)))) s2 = (Inr pax, s3)" "offers_fares (ad_tenant_id d) itinerary pax offers s3 = (Inr fs, s')"
    and offers: "answered_offers body = Some offers" and fares: "fares = take (nat (sc_max_results c)) (filter (affordable (sc_max_price c)) fs)"
    using assms by (auto simp: am_search_def returns get_json_def q_def answered_offers_def split: if_splits)
  obtain rs x where rs: "vendor_run env (ad_config d) q rs (aw_remote s) (aw_remote s1)" "client_frame s s1" "rs \<noteq> []" "last rs = Http_response x"
    "hr_status x < 400" "reply_json env x = Some body"
    using request_effect [OF r(1)] by (auto simp: request_outcome_def)
  have quiet: "quiet s1 s3" using keepsD [OF keeps_quiet(2) r(2) quiet_refl] entity_ids_drawn [OF r(3)] quiet_trans by blast
  note eff = offers_fares_effect [OF r(4), unfolded search_effect_def]
  have fresh: "fresh_ids s3 s'" if "fresh_ids s s'"
    using that quiet rs(2) by (auto simp: fresh_ids_def quiet_def client_frame_def intro: inj_on_subset)
  have same: "aw_offers s3 = aw_offers s" "aw_remote s' = aw_remote s1" using quiet rs(2) eff by (simp_all add: quiet_def client_frame_def)
  have sub: "set fares \<subseteq> set fs" "\<forall>f\<in>set fares. affordable (sc_max_price c) f" using fares by (auto dest: in_set_takeD)
  have "\<forall>f\<in>set fares. \<exists>offer. JObj offer \<in> set offers \<and> from_offer offer f" using eff sub(1) by blast
  moreover have "\<forall>f\<in>set fares. \<exists>offer. JObj offer \<in> set offers \<and> from_offer offer f \<and> offer_at s' (fa_id f) = Some offer"
    if "aw_offers s \<noteq> None" "fresh_ids s s'"
    using eff sub(1) that(1) fresh [OF that(2)] unfolding same by blast
  moreover have "rq_method q = ''GET''" by (simp add: q_def)
  moreover have "length fares \<le> nat (sc_max_results c)" using fares by simp
  moreover have "\<forall>m f. sc_max_price c = Some m \<and> f \<in> set fares \<longrightarrow> m_currency (fa_total f) = m_currency m \<and> dval (m_amount (fa_total f)) \<le> dval (m_amount m)"
    using sub(2) by (auto simp: affordable_def dec_le_iff)
  ultimately show ?thesis using rs offers unfolding same(2) by blast
qed

section \<open>Booking\<close>

lemma sweep_loop_missing: "map_of store k = None \<Longrightarrow> map_of (snd (sweep_loop now h store)) k = None"
  by (induction now h store rule: sweep_loop.induct) (auto simp: delete_conv split: option.splits prod.splits)

lemma offer_get_missing:
  assumes "offer_get now1 now2 key c = (r, c')" "map_of (oc_store c) k = None"
  shows "map_of (oc_store c') k = None" "key = k \<Longrightarrow> r = None"
proof -
  have sw: "map_of (oc_store (sweep now1 c)) k = None" using sweep_loop_missing [OF assms(2), of now1 "oc_heap c"] by (auto simp: sweep_def split: prod.splits)
  show "map_of (oc_store c') k = None" using assms(1) sw by (auto simp: offer_get_def Let_def delete_conv split: option.splits prod.splits if_splits)
  show "key = k \<Longrightarrow> r = None" using assms(1) sw by (auto simp: offer_get_def Let_def)
qed

definition gone :: "string \<Rightarrow> 'w amadeus_world \<Rightarrow> bool" where
  "gone fid s \<longleftrightarrow> (\<exists>c. aw_offers s = Some c \<and> map_of (oc_store c) (offer_cache_key fid) = None)"

lemma cache_get_gone:
  assumes "cache_get key s = (r, s')" "gone fid s"
  shows "gone fid s'" "aw_remote s' = aw_remote s" "key = offer_cache_key fid \<Longrightarrow> r = Inr None"
proof -
  obtain c where c: "aw_offers s = Some c" "map_of (oc_store c) (offer_cache_key fid) = None" using assms(2) by (auto simp: gone_def)
  obtain v c' n where g: "offer_get (Amadeus.seconds (aw_wall s (aw_looks s))) (Amadeus.seconds (aw_wall s (Suc (aw_looks s)))) key c = (v, c')"
    "r = Inr v" "s' = s\<lparr>aw_offers := Some c', aw_looks := n\<rparr>"
    using assms(1) c(1) by (auto simp: cache_get_def Let_def split: prod.splits)
  note miss = offer_get_missing [OF g(1) c(2)]
  show "gone fid s'" using miss(1) g(3) by (simp add: gone_def)
  show "aw_remote s' = aw_remote s" using g(3) by simp
  show "key = offer_cache_key fid \<Longrightarrow> r = Inr None" using miss(2) g(2) by simp
qed

lemma collect_offers_gone:
  assumes "collect_offers seen fids s = (r, s')" "gone fid s" "fid \<in> set fids"
  shows "(\<exists>e. r = Inl e) \<and> aw_remote s' = aw_remote s"
  using assms
proof (induction fids arbitrary: seen s r)
  case (Cons x fids)
  obtain v s1 where g: "cache_get (offer_cache_key x) s = (v, s1)" by fastforce
  note get = cache_get_gone [OF g Cons.prems(2)]
  show ?case
  proof (cases "x = fid")
    case True
    then show ?thesis using Cons.prems(1) g get(2,3) by (auto simp: act_bind_def act_raise_def)
  next
    case False
    then have rest: "fid \<in> set fids" using Cons.prems(3) by simp
    show ?thesis
    proof (cases v)
      case (Inl e)
      then show ?thesis using Cons.prems(1) g get(2) by (auto simp: act_bind_def)
    next
      case (Inr cached)
      show ?thesis
      proof (cases cached)
        case None
        then show ?thesis using Cons.prems(1) g get(2) Inr by (auto simp: act_bind_def act_raise_def)
      next
        case (Some offer)
        obtain seen' r1 where c: "collect_offers seen' fids s1 = (r1, s')" "(\<exists>e. r1 = Inl e) \<longrightarrow> (\<exists>e. r = Inl e)"
          using Cons.prems(1) g Inr Some
          by (auto simp: act_bind_def act_return_def Let_def split: if_splits prod.splits sum.splits)
        from Cons.IH [OF c(1) get(1) rest] show ?thesis using c(2) get(2) by simp
      qed
    qed
  qed
qed simp

lemma create_gone:
  assumes "am_create env d fids pids s = (r, s')" "gone fid s" "fid \<in> set fids"
  shows "(\<exists>e. r = Inl e) \<and> aw_remote s' = aw_remote s"
proof -
  obtain r1 s1 where c: "collect_offers [] fids s = (r1, s1)" by fastforce
  obtain e where e: "r1 = Inl e" "aw_remote s1 = aw_remote s" using collect_offers_gone [OF c assms(2,3)] by blast
  obtain r2 s2 where p: "prepare_order env d fids pids s = (r2, s2)" by fastforce
  have "(\<exists>e. r2 = Inl e) \<and> aw_remote s2 = aw_remote s"
    using p c e by (auto simp: prepare_order_def act_bind_def act_read_def act_guard_def act_some_def split: prod.splits sum.splits option.splits if_splits)
  then show ?thesis using assms(1) p by (auto simp: am_create_def act_bind_def)
qed

text \<open>A driver with a cache keeps one.\<close>

definition caching :: "'w amadeus_world \<Rightarrow> bool" where
  "caching s \<longleftrightarrow> aw_offers s \<noteq> None"

lemma has_cache:
  "keeps caching (cache_get k)" "keeps caching wall_clock"
  "keeps caching (post_json env cfg path body)"
proof -
  show "keeps caching (cache_get k)" "keeps caching wall_clock"
    by (auto simp: keeps_def caching_def cache_get_def wall_clock_def Let_def split: prod.splits option.splits)
  have "aw_offers s' = aw_offers s" if "request env cfg q 0 s = (r, s')" for q s r s'
    using request_effect [OF that] by (auto simp: request_outcome_def client_frame_def)
  then show "keeps caching (post_json env cfg path body)"
    unfolding keeps_def post_json_def caching_def by (metis prod.collapse)
qed

lemma collect_keeps: "(\<And>k. keeps P (cache_get k)) \<Longrightarrow> keeps P (collect_offers seen fids)"
  by (induction fids arbitrary: seen) (auto simp: Let_def intro!: keeps_bind keeps_pure split: option.split)

lemma refresh_keeps:
  assumes "keeps P wall_clock" "\<And>path body. keeps P (post_json env (ad_config d) path body)"
  shows "keeps P (refresh_offers env d offers)"
proof (induction offers)
  case (Cons x xs)
  have "keeps P (needs_reprice x)"
    unfolding needs_reprice_def by (auto intro!: keeps_bind keeps_pure assms split: option.split json.split list.split)
  moreover have "keeps P (reprice env d x)"
    unfolding reprice_def by (auto intro!: keeps_bind keeps_pure assms split: option.split json.split list.split)
  ultimately show ?case using Cons by (auto intro!: keeps_bind keeps_pure)
qed (simp add: keeps_pure)

lemma fold_delete_gone:
  assumes "aw_offers s \<noteq> None" "fid \<in> set fids"
  shows "gone fid (fold (\<lambda>fid. cache_delete (offer_cache_key fid)) fids s)"
proof -
  have keep: "gone f (fold (\<lambda>fid. cache_delete (offer_cache_key fid)) xs s)" if "gone f s" for f xs and s :: "'a amadeus_world"
    using that by (induction xs arbitrary: s) (auto simp: gone_def cache_delete_def offer_delete_def delete_conv)
  show ?thesis using assms
  proof (induction fids arbitrary: s)
    case (Cons x xs)
    have some: "aw_offers (cache_delete (offer_cache_key x) s) \<noteq> None" using Cons.prems(1) by (simp add: cache_delete_def)
    show ?case
    proof (cases "fid = x")
      case True
      then have "gone fid (cache_delete (offer_cache_key x) s)" using Cons.prems(1) by (auto simp: gone_def cache_delete_def offer_delete_def delete_conv)
      then show ?thesis using keep by simp
    next
      case False
      then show ?thesis using Cons.IH [OF some] Cons.prems(2) by simp
    qed
  qed simp
qed

lemma create_consumes:
  assumes "am_create env d fids pids s = (Inr p, s')" "fid \<in> set fids"
  shows "gone fid s'"
proof -
  obtain body s1 response s2 order where c: "prepare_order env d fids pids s = (Inr body, s1)"
    "post_json env (ad_config d) ''/v1/booking/flight-orders'' body s1 = (Inr response, s2)" "data_of response = Some (JObj order)"
    "amadeus_order_to_pnr order (ad_tenant_id d) (fold (\<lambda>fid. cache_delete (offer_cache_key fid)) fids s2) = (Inr p, s')"
    using assms(1) by (auto simp: am_create_def returns obj_case_Inr)
  obtain offers s3 s4 where p: "aw_offers s \<noteq> None" "collect_offers [] fids s = (Inr offers, s3)" "\<exists>x. refresh_offers env d offers s3 = (Inr x, s4)" "s1 = s4"
    using c(1) by (auto simp: prepare_order_def returns split: if_splits)
  have "caching s3" using keepsD [OF collect_keeps [OF has_cache(1)] p(2)] p(1) by (simp add: caching_def)
  then have "caching s4" using p(3) keepsD [OF refresh_keeps [OF has_cache(2,3)]] by blast
  then have "aw_offers s2 \<noteq> None" using keepsD [OF has_cache(3) c(2)] p(4) by (simp add: caching_def)
  then have "gone fid (fold (\<lambda>fid. cache_delete (offer_cache_key fid)) fids s2)" using assms(2) by (rule fold_delete_gone)
  then show ?thesis using keepsD [OF order_to_pnr_quiet c(4) quiet_refl] by (auto simp: gone_def quiet_def)
qed

text \<open>
  Calls of the driver's operations that come between two bookings, by any drivers on the cache. A fare that is not cached stays so
  while its id is not drawn again.
\<close>

datatype am_call = Search fare_search_criteria | Create "string list" "string list" | Read_pnr string | Cancel string
  | Queue_read int | Issue_ticket string | Void_ticket string

fun am_serve :: "'w amadeus_env \<times> amadeus_driver \<times> am_call \<Rightarrow> 'w amadeus_world \<Rightarrow> 'w amadeus_world" where
  "am_serve (env, d, Search c) s = snd (am_search env d c s)"
| "am_serve (env, d, Create fids pids) s = snd (am_create env d fids pids s)"
| "am_serve (env, d, Read_pnr l) s = snd (am_read env d l s)"
| "am_serve (env, d, Cancel i) s = snd (am_cancel env d i s)"
| "am_serve (env, d, Queue_read n) s = snd (am_queue_read n s)"
| "am_serve (env, d, Issue_ticket i) s = snd (am_issue_ticket i s)"
| "am_serve (env, d, Void_ticket i) s = snd (am_void_ticket i s)"

definition unused_id :: "string \<Rightarrow> 'w amadeus_world \<Rightarrow> 'w amadeus_world \<Rightarrow> bool" where
  "unused_id fid s s' \<longleftrightarrow> (\<forall>i\<in>{aw_drawn s..<aw_drawn s'}. uuid7_like (aw_uuids s i) \<noteq> fid)"

definition stays_gone :: "string \<Rightarrow> 'w amadeus_world \<Rightarrow> 'w amadeus_world \<Rightarrow> bool" where
  "stays_gone fid s0 s \<longleftrightarrow> aw_uuids s = aw_uuids s0 \<and> aw_drawn s0 \<le> aw_drawn s \<and> (unused_id fid s0 s \<longrightarrow> gone fid s)"

lemma stays_gone_step:
  assumes "stays_gone fid s0 s" "aw_uuids s' = aw_uuids s" "aw_drawn s \<le> aw_drawn s'" "gone fid s \<Longrightarrow> gone fid s'"
  shows "stays_gone fid s0 s'"
proof -
  have "unused_id fid s0 s" if "unused_id fid s0 s'" using that assms(3) by (auto simp: unused_id_def)
  then show ?thesis using assms by (auto simp: stays_gone_def)
qed

lemma stays_gone_quiet: "(\<And>s. keeps (quiet s) m) \<Longrightarrow> keeps (stays_gone fid s0) m"
proof (rule keepsI)
  fix s assume m: "\<And>s. keeps (quiet s) m" and g: "stays_gone fid s0 s"
  have "quiet s (snd (m s))" using keepsD [OF m [of s], of s] by (metis prod.collapse quiet_refl)
  then show "stays_gone fid s0 (snd (m s))" by (intro stays_gone_step [OF g]) (auto simp: quiet_def gone_def)
qed

lemma stays_gone_calls:
  "keeps (stays_gone fid s0) (cache_get k)" "keeps (stays_gone fid s0) wall_clock" "keeps (stays_gone fid s0) am_entity_id"
  "keeps (stays_gone fid s0) (am_entity_ids n)" "keeps (stays_gone fid s0) (amadeus_order_to_pnr order tenant)"
  "keeps (stays_gone fid s0) (request env cfg q 0)"
  "keeps (stays_gone fid s0) (act_update (fold (\<lambda>fid. cache_delete (offer_cache_key fid)) fids))"
proof -
  show "keeps (stays_gone fid s0) wall_clock" "keeps (stays_gone fid s0) am_entity_id" "keeps (stays_gone fid s0) (am_entity_ids n)"
    "keeps (stays_gone fid s0) (amadeus_order_to_pnr order tenant)"
    by (intro stays_gone_quiet keeps_quiet entity_ids_quiet order_to_pnr_quiet)+
  show "keeps (stays_gone fid s0) (cache_get k)"
  proof (rule keepsI)
    fix s :: "'a amadeus_world" assume g: "stays_gone fid s0 s"
    have "aw_uuids (snd (cache_get k s)) = aw_uuids s" "aw_drawn (snd (cache_get k s)) = aw_drawn s"
      by (auto simp: cache_get_def Let_def split: option.split prod.split)
    then show "stays_gone fid s0 (snd (cache_get k s))" using cache_get_gone(1) [OF prod.collapse [symmetric]] by (intro stays_gone_step [OF g]) auto
  qed
  show "keeps (stays_gone fid s0) (request env cfg q 0)"
  proof (rule keepsI)
    fix s assume g: "stays_gone fid s0 s"
    obtain r s' where e: "request env cfg q 0 s = (r, s')" by (cases "request env cfg q 0 s")
    then have "client_frame s (snd (request env cfg q 0 s))" using request_effect [OF e] by (auto simp: request_outcome_def)
    then show "stays_gone fid s0 (snd (request env cfg q 0 s))" by (intro stays_gone_step [OF g]) (auto simp: client_frame_def gone_def)
  qed
  have del: "aw_uuids (fold (\<lambda>fid. cache_delete (offer_cache_key fid)) fids s) = aw_uuids s" "aw_drawn (fold (\<lambda>fid. cache_delete (offer_cache_key fid)) fids s) = aw_drawn s"
    "gone fid s \<Longrightarrow> gone fid (fold (\<lambda>fid. cache_delete (offer_cache_key fid)) fids s)" for s :: "'a amadeus_world"
    by (induction fids arbitrary: s) (auto simp: cache_delete_def gone_def offer_delete_def delete_conv)
  show "keeps (stays_gone fid s0) (act_update (fold (\<lambda>fid. cache_delete (offer_cache_key fid)) fids))"
    by (rule keepsI) (auto simp: act_update_def del intro: stays_gone_step)
qed

lemma traveler_fares_quiet: "keeps (quiet s0) (traveler_fares tenant itin offer_id valid ps)"
  by (induction tenant itin offer_id valid ps rule: traveler_fares.induct) (auto intro!: keeps_rules keeps_quiet)

lemma offer_to_fares_quiet: "keeps (quiet s0) (amadeus_offer_to_fares offer pax itin tenant)"
  unfolding amadeus_offer_to_fares_def
  by (auto intro!: keeps_bind keeps_pure traveler_fares_quiet split: json.split list.split)

lemma gone_offer_at: "gone fid s \<longleftrightarrow> aw_offers s \<noteq> None \<and> offer_at s fid = None"
  by (auto simp: gone_def offer_at_def)

lemma cached_fares_stay_gone:
  assumes "stays_gone fid s0 s" "amadeus_offer_to_fares offer pax itin tenant s = (Inr fs, s1)" "cache_offer offer fs s1 = (r, s2)"
  shows "stays_gone fid s0 s2"
proof -
  note a = offer_to_fares_effect [OF assms(2)] and b = cache_offer_effect [OF assms(3)]
  have g1: "stays_gone fid s0 s1" using keepsD [OF stays_gone_quiet [OF offer_to_fares_quiet] assms(2,1)] .
  have "gone fid s2" if u: "unused_id fid s0 s2"
  proof -
    have "unused_id fid s0 s1" using u b by (simp add: unused_id_def)
    then have g: "gone fid s1" using g1 by (simp add: stays_gone_def)
    have "\<forall>i. aw_drawn s \<le> i \<and> i < aw_drawn s1 \<longrightarrow> uuid7_like (aw_uuids s i) \<noteq> fid"
      using u assms(1) b by (auto simp: unused_id_def stays_gone_def)
    then have "fid \<notin> (\<lambda>i. uuid7_like (aw_uuids s i)) ` {aw_drawn s..<aw_drawn s1}" unfolding image_iff by (metis atLeastLessThan_iff)
    then have "fid \<notin> set (map (\<lambda>i. uuid7_like (aw_uuids s i)) [aw_drawn s..<aw_drawn s1])" by simp
    then have "fid \<notin> set (map fa_id fs)" using a by argo
    then show ?thesis using g b by (auto simp: gone_offer_at)
  qed
  then show ?thesis using g1 b by (simp add: stays_gone_def)
qed

lemma offers_fares_stay_gone: "stays_gone fid s0 s \<Longrightarrow> stays_gone fid s0 (snd (offers_fares tenant itin pax os s))"
proof (induction tenant itin pax os arbitrary: s rule: offers_fares.induct)
  case (2 tenant itin pax offer os)
  let ?ps = "\<lambda>n. if n \<noteq> 0 then take n pax else pax"
  show ?case
  proof (cases "py_len (or_empty (map_of offer ''travelerPricings''))")
    case (Inl e)
    then show ?thesis using "2.prems" by (simp add: act_bind_def act_lift_def)
  next
    case n: (Inr n)
    show ?thesis
    proof (cases "length (?ps n) \<noteq> n")
      case True
      then show ?thesis using "2.IH"(1) [OF refl True "2.prems"] n by (simp add: act_bind_def act_lift_def Let_def)
    next
      case False
      obtain x s1 where x: "amadeus_offer_to_fares offer (?ps n) itin tenant s = (x, s1)" by fastforce
      show ?thesis
      proof (cases x)
        case (Inl e)
        then show ?thesis using keepsD [OF stays_gone_quiet [OF offer_to_fares_quiet] x "2.prems"] x n False by (simp add: act_bind_def act_lift_def Let_def)
      next
        case (Inr fs)
        obtain y s2 where y: "cache_offer offer fs s1 = (y, s2)" by fastforce
        have s2: "stays_gone fid s0 s2" using cached_fares_stay_gone [OF "2.prems" _ y] x Inr by simp
        have "y = Inr ()" using cache_offer_effect [OF y] by simp
        then show ?thesis using "2.IH"(2) [OF refl False s2] x Inr y n False
          by (auto simp: act_bind_def act_lift_def act_return_def Let_def split: prod.split sum.split)
      qed
    qed
  qed
qed (simp_all add: act_return_def)

lemma clients_keep_gone:
  "keeps (stays_gone fid s0) (get_json env cfg p ps)" "keeps (stays_gone fid s0) (post_json env cfg p body)"
  "keeps (stays_gone fid s0) (delete_json env cfg p)"
  unfolding get_json_def post_json_def delete_json_def by (rule stays_gone_calls(6))+

lemma prepare_keeps_gone: "keeps (stays_gone fid s0) (prepare_order env d fids pids)"
  unfolding prepare_order_def by (intro keeps_bind keeps_pure collect_keeps refresh_keeps stays_gone_calls clients_keep_gone)

lemma driver_keeps_gone:
  "keeps (stays_gone fid s0) (am_search env d c)" "keeps (stays_gone fid s0) (am_create env d fids pids)"
  "keeps (stays_gone fid s0) (am_read env d l)" "keeps (stays_gone fid s0) (am_cancel env d i)"
proof -
  note calls = stays_gone_calls clients_keep_gone
  have "keeps (stays_gone fid s0) (offers_fares tenant itin pax os)" for tenant itin pax os by (rule keepsI) (rule offers_fares_stay_gone)
  then show "keeps (stays_gone fid s0) (am_search env d c)" unfolding am_search_def by (intro keeps_bind keeps_pure calls)
  show "keeps (stays_gone fid s0) (am_create env d fids pids)"
    unfolding am_create_def by (auto intro!: keeps_bind keeps_pure prepare_keeps_gone calls split: option.split json.split)
  show r: "keeps (stays_gone fid s0) (am_read env d l)" for l
    unfolding am_read_def by (auto intro!: keeps_bind keeps_pure calls split: option.split json.split)
  have "keeps (stays_gone fid s0) (cancelled_pnr d i)" unfolding cancelled_pnr_def by (intro keeps_bind keeps_pure calls)
  then have "keeps (stays_gone fid s0) (\<lambda>s. case am_read env d i s of (Inr p, s') \<Rightarrow> (Inr p, s') | (Inl e, s') \<Rightarrow> cancelled_pnr d i s')"
    using r [of i] by (auto simp: keeps_def split: prod.splits sum.splits)
  then show "keeps (stays_gone fid s0) (am_cancel env d i)" unfolding am_cancel_def by (intro keeps_bind calls)
qed

lemma served_keeps_gone: "stays_gone fid s0 s \<Longrightarrow> stays_gone fid s0 (am_serve x s)"
  using driver_keeps_gone(1-4) [THEN keepsD, OF prod.collapse [symmetric]]
  by (cases "(x, s)" rule: am_serve.cases) (auto simp: am_queue_read_def am_issue_ticket_def am_void_ticket_def act_raise_def)

text \<open>Claim C10. A booking uses up its fares. After \<^verbatim>\<open>create\<close> has returned a reservation, let any drivers on this cache make any calls, searches and
  bookings among them, in which the id of a booked fare is not drawn again. Then a call of \<^verbatim>\<open>create\<close> that names that fare,
  alone or among others, raises an error, and the vendor does not hear of it: the same fare is not booked twice. (The cache is the one in memory, whose
  deletion cannot fail; the driver swallows a failed deletion of another cache, and the fare then stays.)
\<close>
theorem amadeus_fare_booked_once:
  assumes "am_create env d fids pids s = (Inr p, s')" "fid \<in> set fids"
    and "s2 = fold am_serve calls s'" "\<forall>i\<in>{aw_drawn s'..<aw_drawn s2}. uuid7_like (aw_uuids s' i) \<noteq> fid"
    and "am_create env2 d2 fids2 pids2 s2 = (r, s3)" "fid \<in> set fids2"
  shows "(\<exists>e. r = Inl e) \<and> aw_remote s3 = aw_remote s2"
proof -
  have "stays_gone fid s' (fold am_serve calls s1)" if "stays_gone fid s' s1" for s1
    using that by (induction calls arbitrary: s1) (auto intro: served_keeps_gone)
  moreover have "stays_gone fid s' s'" using create_consumes [OF assms(1,2)] by (simp add: stays_gone_def)
  ultimately have "gone fid s2" using assms(3,4) by (simp add: stays_gone_def unused_id_def)
  with create_gone [OF assms(5) _ assms(6)] show ?thesis by blast
qed

section \<open>The travellers of a booking\<close>

definition traveler_for :: "nat \<Rightarrow> string \<Rightarrow> json \<Rightarrow> bool" where
  "traveler_for n pid v \<longleftrightarrow> (\<exists>t i. v = JObj t \<and> map_of t ''id'' = Some (JStr (show_nat n))
     \<and> map_of t ''meta'' = Some (JObj [(''voyagent_passenger_id'', JStr i)]) \<and> uuid_parse i = uuid_parse pid)"

lemma passenger_to_traveler_for: "passenger_to_traveler n p = Inr v \<Longrightarrow> uuid_parse (pg_id p) = uuid_parse pid \<Longrightarrow> traveler_for n pid v"
  by (auto simp: passenger_to_traveler_def traveler_for_def Let_def split: option.splits prod.splits)

context passenger_resolver
begin

lemma travelers_for:
  assumes "resolve tenant ids = Inr ps" "travelers_payload ps = Inr ts"
  shows "length ts = length ids" "\<forall>i < length ids. traveler_for (Suc i) (ids ! i) (ts ! i)"
proof -
  have t: "list_all2 (\<lambda>(n, p) v. passenger_to_traveler n p = Inr v) (enumerate 1 ps) ts"
    using assms(2) unfolding travelers_payload_def by (rule map_res_all2) auto
  then show len: "length ts = length ids" using one_each [OF assms(1)] by (auto dest: list_all2_lengthD)
  show "\<forall>i < length ids. traveler_for (Suc i) (ids ! i) (ts ! i)"
  proof (intro allI impI)
    fix i assume i: "i < length ids"
    then have "passenger_to_traveler (Suc i) (ps ! i) = Inr (ts ! i)"
      using t one_each [OF assms(1)] by (auto simp: list_all2_conv_all_nth nth_enumerate_eq)
    then show "traveler_for (Suc i) (ids ! i) (ts ! i)"
      by (rule passenger_to_traveler_for) (use positions [OF assms(1) i] in \<open>simp add: answers_for_def\<close>)
  qed
qed

end

text \<open>Claim C26. Who is booked. With the resolver over the passenger table, the order that \<^verbatim>\<open>create\<close> sends to the vendor names exactly the passengers asked for: one traveller for each, in the
  order asked for, numbered from one, with the passenger's id.
\<close>
theorem booking_names_passengers:
  assumes "prepare_order env d fids pids s = (Inr body, s')" "ad_resolver d = Some (storage_resolve db)"
  shows "\<exists>offers ts. body = order_body offers ts \<and> length ts = length pids \<and> (\<forall>i < length pids. traveler_for (Suc i) (pids ! i) (ts ! i))"
proof -
  obtain refreshed ps ts where "body = order_body refreshed ts" "storage_resolve db (ad_tenant_id d) pids = Inr ps" "travelers_payload ps = Inr ts"
    using assms by (auto simp: prepare_order_def returns res_simps split: if_splits)
  then show ?thesis using in_storage.travelers_for by blast
qed

section \<open>A small vendor\<close>

text \<open>Random numbers that differ: the version and variant bits of a UUID and one more bit.\<close>

definition demo_raw :: "nat \<Rightarrow> uuid_int" where
  "demo_raw n = pax_raw OR push_bit n 1"

lemma demo_raw_bit: "n < 62 \<Longrightarrow> k < 128 \<Longrightarrow> bit (demo_raw n) k \<longleftrightarrow> k = 78 \<or> k = 63 \<or> k = n"
  unfolding demo_raw_def pax_raw_def by (simp only: bit_or_iff bit_push_bit_iff bit_1_iff) auto

lemma demo_raw_bits: "n < 62 \<Longrightarrow> k < 62 \<Longrightarrow> bit (uuid7_like_int (demo_raw n)) k \<longleftrightarrow> k = n"
  by (auto simp: bit_uuid7_like demo_raw_bit)

lemma demo_raw_ok:
  assumes "n < 62"
  shows "entity_id_ok (uuid7_like (demo_raw n))"
proof -
  have "is_uuid4_int (demo_raw n)" using assms by (auto simp: is_uuid4_int_def nibble_bits4 demo_raw_bit)
  then show ?thesis by (rule uuid7_like_ok)
qed

lemma entity_id_uuid: "entity_id_ok (uuid_str w) \<Longrightarrow> entity_id_of f (uuid_str w) = Inr (uuid_str w)"
  using py_strip_no_space [of "uuid_str w"] uuid_str_not_space by (simp add: entity_id_of_def constrained_def Let_def list_all_iff)

lemma demo_raw_id: "n < 62 \<Longrightarrow> entity_id_of f (uuid7_like (demo_raw n)) = Inr (uuid7_like (demo_raw n))"
  using demo_raw_ok entity_id_uuid by (simp add: uuid7_like_def)

lemma pax_raw_id: "entity_id_of f (uuid7_like pax_raw) = Inr (uuid7_like pax_raw)"
  using pax_raw_ok entity_id_uuid by (simp add: uuid7_like_def)

lemma demo_raw_inj: "inj_on (\<lambda>i. uuid7_like (demo_raw i)) {..<62}"
proof (rule inj_onI)
  fix i j assume ij: "i \<in> {..<62}" "j \<in> {..<62}" "uuid7_like (demo_raw i) = uuid7_like (demo_raw j)"
  then have "uuid7_like_int (demo_raw i) = uuid7_like_int (demo_raw j)" unfolding uuid7_like_def by (metis option.inject uuid_parse_str)
  then show "i = j" using demo_raw_bits [of i i] demo_raw_bits [of j i] ij(1,2) by auto
qed

definition demo_pricing :: json where
  "demo_pricing = JObj [(''price'', JObj [(''currency'', JStr ''inr''), (''base'', JStr ''80.00''), (''total'', JStr ''100.00'')])]"

definition demo_offer :: obj where
  "demo_offer = [(''id'', JStr ''1''), (''travelerPricings'', JList [demo_pricing])]"

definition demo_order :: obj where
  "demo_order = [(''id'', JStr ''O1''), (''travelers'', JList [JNull]),
     (''flightOffers'', JList [JObj [(''itineraries'', JList [JObj [(''segments'', JList [JNull])]])]])]"

definition demo_vendor :: "nat amadeus_env" where
  "demo_vendor = \<lparr>zv_token = (\<lambda>u f w. (Http_timeout, w)),
     zv_request = (\<lambda>t q w. (Http_response \<lparr>hr_status = 200, hr_content = (if rq_method q = ''GET'' then ''s'' else ''b''), hr_retry_after = None\<rparr>, Suc w)),
     zv_json = (\<lambda>c. Some (JObj [(''data'', if c = ''s'' then JList [JObj demo_offer] else JObj demo_order)])), zv_text = id\<rparr>"

definition demo_amadeus :: amadeus_driver where
  "demo_amadeus = \<lparr>ad_config = patient_config, ad_tenant_id = uuid7_like pax_raw,
     ad_resolver = Some (storage_resolve (sample_db\<lparr>pb_rows := [new_row (uuid7_like_int pax_raw) (uuid7_like_int pax_raw) 0 sample_values]\<rparr>))\<rparr>"

definition demo_sky :: "nat amadeus_world" where
  "demo_sky = idle_world\<lparr>aw_uuids := demo_raw, aw_offers := Some \<lparr>oc_store = [(offer_cache_key ''f1'', 1000, demo_offer)], oc_heap = []\<rparr>\<rparr>"

definition demo_trip :: fare_search_criteria where
  "demo_trip = \<lparr>sc_passengers = [(P_adult, 1)], sc_origin = ''BOM'', sc_destination = ''DXB'', sc_outbound_date = Date 2026 5 10, sc_return_date = None,
     sc_cabin = Economy, sc_direct_only = False, sc_airline_whitelist = [], sc_airline_blacklist = [],
     sc_max_price = Some \<lparr>m_amount = Dec 15000 (- 2), m_currency = ''INR''\<rparr>, sc_max_results = 50\<rparr>"

lemma demo_priced: "traveler_price_of ''1'' demo_pricing
    = Inr \<lparr>tp_currency = ''INR'', tp_base = Dt_value (Num (Dec 8000 (- 2))), tp_total = Dt_value (Num (Dec 10000 (- 2))), tp_taxes = [], tp_fees = []\<rparr>"
  by code_simp

lemma demo_request:
  assumes "aw_token s = Some (''tok'', 1000)" "aw_monotonic s = (\<lambda>n. 0)"
  shows "request demo_vendor patient_config q 0 s = (Inr (JObj [(''data'', if rq_method q = ''GET'' then JList [JObj demo_offer] else JObj demo_order)]),
     s\<lparr>aw_remote := Suc (aw_remote s), aw_ticks := Suc (aw_ticks s)\<rparr>)"
  using assms
  by (simp add: request.simps get_token_def monotonic_def act_bind_def act_read_def act_return_def usable_token_def REFRESH_BUFFER_SECONDS_def
      demo_vendor_def decode_json_or_raise_def Let_def)

lemma demo_fare:
  assumes "a < 62" "b < 62" "c < 62"
  shows "\<exists>f. fare_from (uuid7_like pax_raw) (uuid7_like (demo_raw a)) ''1'' (uuid7_like (demo_raw b)) None
      \<lparr>tp_currency = ''INR'', tp_base = Dt_value (Num (Dec 8000 (- 2))), tp_total = Dt_value (Num (Dec 10000 (- 2))), tp_taxes = [], tp_fees = []\<rparr>
      (uuid7_like (demo_raw c)) = Inr f \<and> fa_id f = uuid7_like (demo_raw c) \<and> fa_total f = \<lparr>m_amount = Dec 10000 (- 2), m_currency = ''INR''\<rparr>"
proof -
  have m: "money_of (A_decimal d) ''INR'' = Inr \<lparr>m_amount = d, m_currency = ''INR''\<rparr>" for d
  proof -
    have "constrained currency_code_ok ''currency'' ''INR'' = Inr ''INR''" by code_simp
    then show ?thesis by (simp add: money_of_def)
  qed
  show ?thesis using assms by (simp add: fare_from_def m model_res_def fare_of_def demo_raw_id pax_raw_id fare_currencies_def)
qed

lemma demo_search:
  "\<exists>f s'. am_search demo_vendor demo_amadeus demo_trip demo_sky = (Inr [f], s') \<and> aw_drawn s' = 3 \<and> aw_uuids s' = demo_raw \<and> fa_id f = uuid7_like (demo_raw 2)"
proof -
  obtain f where f: "fare_from (uuid7_like pax_raw) (uuid7_like (demo_raw 0)) ''1'' (uuid7_like (demo_raw 1)) None
      \<lparr>tp_currency = ''INR'', tp_base = Dt_value (Num (Dec 8000 (- 2))), tp_total = Dt_value (Num (Dec 10000 (- 2))), tp_taxes = [], tp_fees = []\<rparr>
      (uuid7_like (demo_raw 2)) = Inr f" "fa_id f = uuid7_like (demo_raw 2)" "fa_total f = \<lparr>m_amount = Dec 10000 (- 2), m_currency = ''INR''\<rparr>"
    using demo_fare [of 0 1 2] by auto
  have aff: "affordable (sc_max_price demo_trip) f" using f(3) by (simp add: affordable_def demo_trip_def dec_le_iff dval_Dec power_int_minus)
  have offer: "require demo_offer ''id'' ''offer'' = Inr (JStr ''1'')" "map_of demo_offer ''travelerPricings'' = Some (JList [demo_pricing])"
    "get_true demo_offer ''lastTicketingDateTime'' = None"
    by (simp_all add: require_def demo_offer_def get_true_def)
  have d: "ad_config demo_amadeus = patient_config" "ad_tenant_id demo_amadeus = uuid7_like pax_raw" by (simp_all add: demo_amadeus_def)
  have trip: "sc_max_results demo_trip = 50" "sum_list (dict_values (sc_passengers demo_trip)) = 1" by (simp_all add: demo_trip_def dict_values_def)
  have w: "aw_token demo_sky = Some (''tok'', 1000)" "aw_monotonic demo_sky = (\<lambda>n. 0)" "aw_uuids demo_sky = demo_raw" "aw_drawn demo_sky = 0"
    by (simp_all add: demo_sky_def idle_world_def)
  obtain c where c: "aw_offers demo_sky = Some c" by (simp add: demo_sky_def)
  show ?thesis
    using f aff c
    by (simp add: am_search_def d trip w get_json_def demo_request act_bind_def act_guard_def act_lift_def or_empty_def am_entity_id_def
        act_return_def py_len_def offer amadeus_offer_to_fares_def opt_res_def demo_priced cache_offer_def act_read_def cache_put_def wall_clock_def act_update_def
        offer_put_def OFFER_TTL_SECONDS_def Let_def numeral_2_eq_2)
qed

theorem amadeus_search_sound_witness:
  "\<exists>f s' offer. am_search demo_vendor demo_amadeus demo_trip demo_sky = (Inr [f], s') \<and> from_offer offer f \<and> offer_at s' (fa_id f) = Some offer
     \<and> dval (m_amount (fa_total f)) \<le> 150"
proof -
  obtain f s' where r: "am_search demo_vendor demo_amadeus demo_trip demo_sky = (Inr [f], s')" and s': "aw_drawn s' = 3" using demo_search by blast
  have "inj_on (\<lambda>i. uuid7_like (demo_raw i)) {0..<3}" by (rule inj_on_subset [OF demo_raw_inj]) auto
  then have "fresh_ids demo_sky s'" using s' by (simp add: fresh_ids_def demo_sky_def idle_world_def)
  moreover have "aw_offers demo_sky \<noteq> None" by (simp add: demo_sky_def)
  moreover have "sc_max_price demo_trip = Some \<lparr>m_amount = Dec 15000 (- 2), m_currency = ''INR''\<rparr>" by (simp add: demo_trip_def)
  moreover have "dval (Dec 15000 (- 2)) = 150" by (simp add: dval_Dec power_int_minus)
  ultimately obtain offer where "from_offer offer f" "offer_at s' (fa_id f) = Some offer" "dval (m_amount (fa_total f)) \<le> 150"
    using amadeus_search_sound [OF r] by auto
  then show ?thesis using r by blast
qed

lemma demo_prepared: "\<exists>body s'. prepare_order demo_vendor demo_amadeus [''f1''] [uuid7_like pax_raw] demo_sky = (Inr body, s') \<and> aw_token s' = Some (''tok'', 1000)
    \<and> aw_monotonic s' = (\<lambda>n. 0) \<and> aw_uuids s' = demo_raw \<and> aw_drawn s' = 0"
proof -
  define db where "db = sample_db\<lparr>pb_rows := [new_row (uuid7_like_int pax_raw) (uuid7_like_int pax_raw) 0 sample_values]\<rparr>"
  have row: "storage_resolve db (uuid7_like pax_raw) [uuid7_like pax_raw] = Inr [q]" if "row_to_passenger (new_row (uuid7_like_int pax_raw) (uuid7_like_int pax_raw) 0 sample_values) = Inr q" for q
    using that by (simp add: storage_resolve_def to_uuid_def uuid7_like_def Let_def db_def new_row_def)
  obtain q where q: "row_to_passenger (new_row (uuid7_like_int pax_raw) (uuid7_like_int pax_raw) 0 sample_values) = Inr q" "pg_date_of_birth q = Some (Date 1990 5 17)"
    using sample_row by blast
  have "\<exists>v. passenger_to_traveler (Suc 0) q = Inr v" using q(2) by (cases "pg_passport q") (simp_all add: passenger_to_traveler_def Let_def)
  then obtain t where t: "travelers_payload [q] = Inr t" by (auto simp: travelers_payload_def)
  have off: "get_true demo_offer ''id'' = Some (JStr ''1'')" "map_of demo_offer ''lastTicketingDateTime'' = None" by (simp_all add: demo_offer_def get_true_def)
  show ?thesis using row [OF q(1)] t off
    by (simp add: prepare_order_def act_bind_def act_read_def act_guard_def act_some_def act_lift_def act_return_def demo_amadeus_def demo_sky_def idle_world_def cache_get_def
        offer_get_def sweep_def Amadeus.seconds_def needs_reprice_def Let_def flip: db_def)
qed

lemma demo_booked: "\<exists>p s'. am_create demo_vendor demo_amadeus [''f1''] [uuid7_like pax_raw] demo_sky = (Inr p, s')"
proof -
  obtain body s1 where s1: "prepare_order demo_vendor demo_amadeus [''f1''] [uuid7_like pax_raw] demo_sky = (Inr body, s1)" "aw_token s1 = Some (''tok'', 1000)"
    "aw_monotonic s1 = (\<lambda>n. 0)" "aw_uuids s1 = demo_raw" "aw_drawn s1 = 0" using demo_prepared by blast
  have d: "ad_config demo_amadeus = patient_config" "ad_tenant_id demo_amadeus = uuid7_like pax_raw" by (simp_all add: demo_amadeus_def)
  have o: "require demo_order ''id'' ''order'' = Inr (JStr ''O1'')" "map_of demo_order ''travelers'' = Some (JList [JNull])" "order_segments demo_order = Inr [JNull]"
    "nested_true demo_order ''ticketingAgreement'' ''dateTime'' = None"
    by (simp_all add: require_def demo_order_def order_segments_def concat_res_def inner_items_def or_empty_def nested_true_def get_true_def)
  have cd: "aw_uuids (cache_delete k s) = aw_uuids s" "aw_drawn (cache_delete k s) = aw_drawn s" for k and s :: "nat amadeus_world" by (simp_all add: cache_delete_def)
  show ?thesis
    by (simp add: am_create_def act_bind_def s1 d post_json_def demo_request data_of_def act_update_def amadeus_order_to_pnr_def o act_lift_def or_empty_def am_entity_id_def
        act_guard_def opt_res_def wall_clock_def act_return_def cd model_res_def pnr_of_def demo_raw_id pax_raw_id Let_def)
qed

text \<open>The fare is booked, the agent searches again and another agent cancels; then the same fare is named once more.\<close>

definition demo_calls :: "(nat amadeus_env \<times> amadeus_driver \<times> am_call) list" where
  "demo_calls = [(demo_vendor, demo_amadeus, Search demo_trip), (demo_vendor, demo_amadeus, Cancel ''O7'')]"

theorem amadeus_fare_booked_once_witness:
  "\<exists>p s' e s3. am_create demo_vendor demo_amadeus [''f1''] [uuid7_like pax_raw] demo_sky = (Inr p, s')
     \<and> am_create demo_vendor demo_amadeus [''f2'', ''f1''] [uuid7_like pax_raw] (fold am_serve demo_calls s') = (Inl e, s3)
     \<and> aw_remote s3 = aw_remote (fold am_serve demo_calls s')"
proof -
  obtain p s' where b: "am_create demo_vendor demo_amadeus [''f1''] [uuid7_like pax_raw] demo_sky = (Inr p, s')" using demo_booked by blast
  obtain r s3 where again: "am_create demo_vendor demo_amadeus [''f2'', ''f1''] [uuid7_like pax_raw] (fold am_serve demo_calls s') = (r, s3)" by fastforce
  have "uuid7_like x \<noteq> ''f1''" for x
  proof
    assume "uuid7_like x = ''f1''"
    then have "length (uuid_str (uuid7_like_int x)) = 2" by (simp add: uuid7_like_def)
    then show False by (simp add: uuid_str_def)
  qed
  then show ?thesis using amadeus_fare_booked_once [OF b _ refl _ again, of "''f1''"] b again by auto
qed

theorem booking_names_passengers_witness:
  "\<exists>offers ts s'. prepare_order demo_vendor demo_amadeus [''f1''] [uuid7_like pax_raw] demo_sky = (Inr (order_body offers ts), s')
     \<and> length ts = 1 \<and> traveler_for 1 (uuid7_like pax_raw) (ts ! 0)"
proof -
  obtain body s' where b: "prepare_order demo_vendor demo_amadeus [''f1''] [uuid7_like pax_raw] demo_sky = (Inr body, s')" using demo_prepared by blast
  have r: "ad_resolver demo_amadeus = Some (storage_resolve (sample_db\<lparr>pb_rows := [new_row (uuid7_like_int pax_raw) (uuid7_like_int pax_raw) 0 sample_values]\<rparr>))"
    by (simp add: demo_amadeus_def)
  show ?thesis using booking_names_passengers [OF b r] b by force
qed

end
