(* ===== verification/Spec2Isabelle.thy ===== *)
theory Spec2Isabelle
  imports Session_Store Tool_Runtime Agent_Loop Rate_Limiter Cost_Tracker Tenant_Registry
    Caches Orchestrator Canonical Haf_Parser Bsp_Mapping
    Approvals_Api Chat_Stream
    Auth_Safety Auth_Tenancy Enquiries Reports Audit_Api Tally Bsp_Driver Travel Tool_Effects Amadeus_Booking
begin

text \<open>
  Voyagent is a multi-tenant assistant for travel agencies. A user talks to it over HTTP
  (\<^verbatim>\<open>services/api\<close>); each message starts a turn of the agent runtime
  (\<^verbatim>\<open>services/agent_runtime\<close>), in which a language model streams text and tool calls; tools are
  run behind validation, role and approval gates and are audited; drivers (\<^verbatim>\<open>drivers/*\<close>) translate
  between the canonical data model (\<^verbatim>\<open>schemas/canonical\<close>) and the formats of airlines, billing
  plans and ledgers. This development models the core of these parts and proves what they promise.

  \<^bold>\<open>The theories\<close>, in the order of the calls; paths are relative to \<^verbatim>\<open>src/\<close>, and
  \<^verbatim>\<open>AR\<close> stands for \<^verbatim>\<open>services/agent_runtime/src/voyagent_agent_runtime\<close>, \<^verbatim>\<open>API\<close> for
  \<^verbatim>\<open>services/api/src/voyagent_api\<close>.

  \<^item> \<^verbatim>\<open>Prelude\<close>: results (\<^verbatim>\<open>bind_res\<close>, \<^verbatim>\<open>guard_res\<close>, \<^verbatim>\<open>map_res\<close>), dictionaries as association lists
    in insertion order (\<^verbatim>\<open>AList.update\<close> is \<^verbatim>\<open>d[k] = v\<close>), Python's white space and stripping, and the
    collections \<^verbatim>\<open>res_simps\<close> and \<^verbatim>\<open>dict_simps\<close> the other theories use.
  \<^item> \<^verbatim>\<open>Py_Text\<close>, \<^verbatim>\<open>Py_Decimal\<close>, \<^verbatim>\<open>Py_Date\<close>, \<^verbatim>\<open>Py_Uuid\<close>: what the sources use of Python's library.
    \<^verbatim>\<open>int(s)\<close>, \<^verbatim>\<open>str.upper\<close>, \<^verbatim>\<open>repr\<close>; the decimal type with a precision of 28 digits and half-even rounding
    (sums, products, quotients, \<^verbatim>\<open>quantize\<close>), with lemmas that give the exact value while the digits
    fit; proleptic Gregorian dates, their ordinals and midnight in UTC; the UUID constructor and its
    printed form.
  \<^item> \<^verbatim>\<open>Session_Store\<close>: \<^verbatim>\<open>AR/session.py\<close> (messages, approvals, sessions, the in-memory store) and the
    Postgres store of \<^verbatim>\<open>AR/stores_pg.py\<close> with the rows of \<^verbatim>\<open>schemas/storage/session.py\<close>. Both
    stores interpret the locale \<^verbatim>\<open>approval_store\<close>, which carries the laws of adding, resolving and expiring
    approvals. Shown: in every reachable store the approvals map is the decisions taken; tenants are kept
    apart; the sweep expires exactly the stale rows; appending in Postgres refines appending in memory.
  \<^item> \<^verbatim>\<open>Tool_Runtime\<close>: \<^verbatim>\<open>AR/tools.py\<close> up to the handlers (registry, \<^verbatim>\<open>invoke_tool\<close> with its validation,
    role and approval gates and its retries, identifiers) and the audit sinks, which
    interpret the locale \<^verbatim>\<open>audit_sink\<close>. Shown: a handler runs only through open gates and a bounded number
    of times; the shape of the audit trail; the Postgres row of a reported id is completed; identifiers are
    well formed.
  \<^item> \<^verbatim>\<open>Agent_Loop\<close>: \<^verbatim>\<open>AR/_agent_loop.py\<close> and \<^verbatim>\<open>AR/events.py\<close>: the retrying stream, tool dispatch,
    the rounds of a turn as a resumable computation whose consumer may close it. Shown: at most 32 attempts
    per turn whatever the API does; the world changes only through gates; every tool call of the
    transcript is answered but for those of the last round, in the cases listed (a turn abandoned at an approval request,
    a call taken over by the orchestrator's hook, a reply that did not stop for tools).
  \<^item> \<^verbatim>\<open>Rate_Limiter\<close>, \<^verbatim>\<open>Cost_Tracker\<close>, \<^verbatim>\<open>Tenant_Registry\<close>, \<^verbatim>\<open>Caches\<close>: \<^verbatim>\<open>AR/rate_limiter.py\<close>,
    \<^verbatim>\<open>AR/cost_tracker.py\<close>, \<^verbatim>\<open>AR/tenant_registry.py\<close>,
    \<^verbatim>\<open>AR/tool_cache.py\<close> and \<^verbatim>\<open>AR/offer_cache.py\<close>. Shown: the limiter decides as the rule on the
    full history does and keeps its quota over every window; however turns interleave, a day's count
    stays below the budget plus the turns under way at once (locale \<^verbatim>\<open>cost_ledger\<close>, both ledgers); a tenant only gets its own registry and every registry
    is cached or closed once; both caches (locale \<^verbatim>\<open>ttl_cache\<close>) return the latest live put.
  \<^item> \<^verbatim>\<open>Orchestrator\<close>: \<^verbatim>\<open>AR/orchestrator.py\<close>, \<^verbatim>\<open>AR/domain_agents\<close> and the wiring of
    \<^verbatim>\<open>AR/runtime.py\<close>. It composes the five theories above into \<^verbatim>\<open>run_turn\<close>. Shown: a whole turn changes
    the world only through gates and not at all when refused; one final event, last; decisions of earlier
    turns open no gate; how far the turns of a day, admitted by the budget gate and recorded later, can overshoot the budget.
  \<^item> \<^verbatim>\<open>Canonical\<close>: \<^verbatim>\<open>schemas/canonical/primitives.py\<close> and \<^verbatim>\<open>finance.py\<close>: money, periods, journal entries,
    billing reports, reconciliations, with pydantic's validation as a result. Shown: exact money arithmetic,
    and a journal entry is accepted exactly when it balances in every currency.
  \<^item> \<^verbatim>\<open>Haf_Parser\<close>, \<^verbatim>\<open>Bsp_Mapping\<close>: \<^verbatim>\<open>drivers/bsp_india\<close>: the fixed-width settlement file and
    its mapping to reports and reconciliations. Shown: the parser inverts the documented layout, what it
    accepts, that the totals are exact, when a report can be built, and that reconciliation gives every
    row the verdict of exact arithmetic and every indexed ticket one place.
  \<^item> \<^verbatim>\<open>Approvals_Api\<close>, \<^verbatim>\<open>Chat_Stream\<close>: \<^verbatim>\<open>API/approvals.py\<close> and the message stream of \<^verbatim>\<open>API/chat.py\<close>.
    Shown: over any sequence of requests a row changes at most once; lists are fresh; a
    client that posts again with the last id it saw gets exactly the buffered frames it misses, and when another turn is run for it; a sent message streams all events of its
    turn (\<^verbatim>\<open>Orchestrator.run_turn\<close>), the last being final.
  \<^item> \<^verbatim>\<open>Py_State\<close>, \<^verbatim>\<open>Isolation\<close>: actions that read and change a state and may raise (\<^verbatim>\<open>act_bind\<close>, \<^verbatim>\<open>act_guard\<close>,
    \<^verbatim>\<open>act_raise\<close>), the rules that carry an invariant through them, and the locale \<^verbatim>\<open>isolated_service\<close>: when each request
    acts on the view of its owner only, what one owner is answered does not depend on the requests of others.
  \<^item> \<^verbatim>\<open>Auth_Store\<close>, \<^verbatim>\<open>Auth_Service\<close>, \<^verbatim>\<open>Auth_Safety\<close>, \<^verbatim>\<open>Auth_Tenancy\<close>: \<^verbatim>\<open>API/auth_inhouse\<close>, \<^verbatim>\<open>API/revocation.py\<close>,
    \<^verbatim>\<open>API/tenancy.py\<close> and the tables they use: passwords, tokens, the repositories, every method of the service, the second
    factor, API keys and the routes, composed to \<^verbatim>\<open>serve\<close> (one request) and \<^verbatim>\<open>serve_all\<close> (a sequence). Shown: a refresh token and an
    invite are redeemed at most once; a password reset ends the sessions; the tables keep their keys and references; who can change a
    second factor; API keys resolve to their creators; an access token identifies its user until it expires or is signed out.
  \<^item> \<^verbatim>\<open>Enquiries\<close>, \<^verbatim>\<open>Reports\<close>, \<^verbatim>\<open>Audit_Api\<close>: \<^verbatim>\<open>API/enquiries.py\<close>, \<^verbatim>\<open>API/reports.py\<close>, \<^verbatim>\<open>API/audit.py\<close> with the
    rows of \<^verbatim>\<open>schemas/storage\<close>. Shown: the lifecycle of an enquiry, isolation of the tenants (\<^verbatim>\<open>enquiries\<close> interprets
    \<^verbatim>\<open>isolated_service\<close>), promotion to a single chat session, exact search; exact ageing, and a trial balance over
    \<^verbatim>\<open>build_journal_entry\<close> that is exact for the tenant's own accounts and balances when no line is on another's; the CSV export read back is what the list shows, and how many failures of a client
    are recorded in a minute.
  \<^item> \<^verbatim>\<open>Py_Calendar\<close>, \<^verbatim>\<open>Py_Datetime\<close>, \<^verbatim>\<open>Airports\<close>: the calendar in both directions (ordinals back to dates), ISO dates and times
    read and written (reading undoes printing); \<^verbatim>\<open>schemas/canonical/airports.py\<close>, from an airport's wall clock to UTC.
  \<^item> \<^verbatim>\<open>Travel\<close>, \<^verbatim>\<open>Driver_Errors\<close>: \<^verbatim>\<open>schemas/canonical/travel.py\<close> (segments, fares, hotels, reservations),
    the passengers of \<^verbatim>\<open>identity.py\<close> and the search criteria, with the validators of each model; the errors of the driver
    contracts (\<^verbatim>\<open>drivers/_contracts/errors.py\<close>).
  \<^item> \<^verbatim>\<open>Tally\<close>: \<^verbatim>\<open>drivers/tally\<close>: configuration, the XML requests, the client with its status and
    body checks, the mapping of journal entries to vouchers and back from the responses, every method of the driver. Shown: a
    voucher carries exactly the lines of its entry with the signs that Tally expects, and what a posting answers in
    each case of the transport.
  \<^item> \<^verbatim>\<open>Bsp_Driver\<close>: the client, the error mapping and the driver of \<^verbatim>\<open>drivers/bsp_india\<close> above the parser. Shown:
    the statement of a period, from the call to the report, or the error that it ends with.
  \<^item> \<^verbatim>\<open>Tool_Specs\<close>, \<^verbatim>\<open>Tool_Handlers\<close>, \<^verbatim>\<open>Tool_Effects\<close>: the tools of \<^verbatim>\<open>AR/tools.py\<close>: the schema and the
    declaration of each, the handlers with the table of invoices they write, and their registration. They make up the
    registry \<^verbatim>\<open>te_registry\<close> that is a parameter of \<^verbatim>\<open>Tool_Runtime\<close>. Shown: every tool of the catalogue with a side effect is
    behind the approval gate; the accounting writes are refused to every actor; what drafting an invoice does to the table, and when an
    automatic number conflicts with rows other transactions commit in between; what the journal tool sends is the stated entry, line by line and balanced (locale
    \<^verbatim>\<open>accounting_provider\<close>, interpreted on the Tally driver as \<^verbatim>\<open>tally_books\<close>).
  \<^item> \<^verbatim>\<open>Passengers\<close>: \<^verbatim>\<open>AR/passenger_resolver.py\<close> with its table. Both resolvers interpret the locale \<^verbatim>\<open>passenger_resolver\<close>, the contract that
    drivers rely on. Shown: what \<^verbatim>\<open>upsert\<close> writes is what the lookups and the resolver find; the table keeps its keys; other tenants' rows stay.
  \<^item> \<^verbatim>\<open>Amadeus_Client\<close>, \<^verbatim>\<open>Amadeus\<close>, \<^verbatim>\<open>Amadeus_Booking\<close>: \<^verbatim>\<open>drivers/amadeus\<close>: error mapping, token, client with retries; the mapping of vendor JSON
    of any shape; the driver with its offer cache. What the vendor sees is the relation \<^verbatim>\<open>vendor_run\<close>. Shown: which requests are repeated and how often; a search returns
    priced fares within the limits and caches their offers; a booking names the passengers asked for (through the locale) and uses up its fares.
  \<^bold>\<open>Conventions.\<close> A class is a record, an enumeration a datatype, a dict an association list. An exception
  is the left value of a sum, with the cases the callers distinguish. Datetimes are microseconds since the
  epoch; each read of a clock and each random draw is an argument, in the order of the reads. Strings
  are lists of characters up to U+00FF, where digits, white space and case are Python's. Machine arithmetic
  does not occur, apart from the bits of identifiers, which are words of 128 bits. Coroutines are
  run in the order of their awaits; an async generator is the list of events it yields with the point at
  which its consumer closes it. Loops are structural recursion or have a measure (attempts left, rounds
  left, file length); no definition needs fuel, so every function is total.

  \<^bold>\<open>Parameters.\<close> Code outside the repository is an argument: the JSON-schema validator
  (\<^verbatim>\<open>tool_env\<close>), the reading and writing of XML text by lxml (\<^verbatim>\<open>tally_env\<close>), the vendor behind the Amadeus client and the decoding of its bodies (\<^verbatim>\<open>amadeus_env\<close>), the time zone database, the texts of validation and database errors (\<^verbatim>\<open>host\<close>), the stream of the model API (a script of chunks or failures per attempt), SHA-256,
  UTF-8 decoding, the JSON text of an event, argon2, JWT signing and checking, one-time codes (\<^verbatim>\<open>auth_env\<close>), the numeric
  columns and the collation of the database. Properties that rely on one of them say so in a premise.

  \<^bold>\<open>Not modelled.\<close> The TBO and VFS drivers, which translate to an HTTP service and browser jobs (the handlers of the hotel tools take
  any driver of the contract's form); the SQL text (the tables and the effect of the statements are modelled); SSE
  heartbeats and disconnection polling beyond the event at which the client leaves; the Redis variants of stores and
  limiters and the choice between them from the environment; logging; the model
  client and prompts; the browser runner; the command line; the TypeScript
  clients. The dashes of messages are written as hyphens where the source has characters beyond U+00FF. 
\<close>

end
